(* ===== verification/Prelude.thy ===== *)
theory Prelude
  imports Main
begin

text \<open>
  Shared vocabulary of the development.

  \<^item> The values of the source language the components use: exceptions as a datatype, a fallible
    computation as a sum, the truncating remainder of \<^verbatim>\<open>bigint\<close>, the reads of a typed array
    outside its bounds.
  \<^item> Generic facts on sums, folds over index ranges and lists that several components need.
  \<^item> The collections \<open>js_simps\<close> (unfolding rules of the language primitives) and
    \<open>loop_simps\<close> (closed forms of counting loops), which the component proofs hand to the
    simplifier.
\<close>

named_theorems js_simps \<open>unfolding rules for the language primitives\<close>
named_theorems loop_simps \<open>closed forms of the counting loops\<close>

section \<open>Exceptions and fallible computations\<close>

text \<open>
  Every \<^verbatim>\<open>throw\<close> of the modelled code is one of these; the string is the message. An exception of
  the runtime itself (a malformed literal handed to \<^verbatim>\<open>BigInt\<close>, a property read on
  \<^verbatim>\<open>undefined\<close>) carries no message of the program.
\<close>

datatype exn =
    Error string
  | RangeError string
  | SyntaxError
  | TypeError

type_synonym 'a result = "exn + 'a"

definition bindE :: "'a result \<Rightarrow> ('a \<Rightarrow> 'b result) \<Rightarrow> 'b result" where
  "bindE r f = (case r of Inl e \<Rightarrow> Inl e | Inr a \<Rightarrow> f a)"

lemma bindE_simps [simp]:
  "bindE (Inl e) f = Inl e"
  "bindE (Inr a) f = f a"
  by (simp_all add: bindE_def)

lemma bindE_eq_Inr: "bindE r f = Inr b \<longleftrightarrow> (\<exists>a. r = Inr a \<and> f a = Inr b)"
  by (cases r) auto

lemma bindE_assoc: "bindE (bindE r f) g = bindE r (\<lambda>a. bindE (f a) g)"
  by (cases r) auto

definition bind_option :: "'a option \<Rightarrow> exn \<Rightarrow> 'a result" where
  "bind_option x e = (case x of None \<Rightarrow> Inl e | Some a \<Rightarrow> Inr a)"

lemma bind_option_simps [simp]:
  "bind_option None e = Inl e"
  "bind_option (Some a) e = Inr a"
  by (simp_all add: bind_option_def)

text \<open>A loop that stops at the first exception: \<^verbatim>\<open>Array.prototype.map\<close> with a throwing body.\<close>

fun mapE :: "('a \<Rightarrow> 'b result) \<Rightarrow> 'a list \<Rightarrow> 'b list result" where
  "mapE f [] = Inr []"
| "mapE f (x # xs) = bindE (f x) (\<lambda>y. bindE (mapE f xs) (\<lambda>ys. Inr (y # ys)))"

lemma mapE_all_Inr: "(\<And>x. x \<in> set xs \<Longrightarrow> f x = Inr (g x)) \<Longrightarrow> mapE f xs = Inr (map g xs)"
  by (induction xs) auto

lemma mapE_InrD: "mapE f xs = Inr ys \<Longrightarrow> length ys = length xs \<and> (\<forall>i < length xs. f (xs ! i) = Inr (ys ! i))"
proof (induction xs arbitrary: ys)
  case Nil
  then show ?case by simp
next
  case (Cons x xs)
  then obtain y zs where "f x = Inr y" "mapE f xs = Inr zs" "ys = y # zs"
    by (auto simp: bindE_eq_Inr)
  with Cons.IH [of zs] show ?case
    by (auto simp: nth_Cons split: nat.splits)
qed

lemma mapE_cong [fundef_cong]:
  "xs = ys \<Longrightarrow> (\<And>x. x \<in> set ys \<Longrightarrow> f x = g x) \<Longrightarrow> mapE f xs = mapE g ys"
  by (induction xs arbitrary: ys) auto

text \<open>A loop over a state that stops at the first exception.\<close>

fun foldE :: "('a \<Rightarrow> 's \<Rightarrow> 's result) \<Rightarrow> 'a list \<Rightarrow> 's \<Rightarrow> 's result" where
  "foldE f [] s = Inr s"
| "foldE f (x # xs) s = bindE (f x s) (foldE f xs)"

lemma foldE_Inr:
  "(\<And>x s. x \<in> set xs \<Longrightarrow> P s \<Longrightarrow> f x s = Inr (g x s) \<and> P (g x s)) \<Longrightarrow> P s \<Longrightarrow> foldE f xs s = Inr (fold g xs s)"
  by (induction xs arbitrary: s) auto

lemma foldE_append: "foldE f (xs @ ys) s = bindE (foldE f xs s) (foldE f ys)"
  by (induction xs arbitrary: s) (auto simp: bindE_def split: sum.splits)

lemma foldE_Inr': "(\<And>x s. x \<in> set xs \<Longrightarrow> f x s = Inr (g x s)) \<Longrightarrow> foldE f xs s = Inr (fold g xs s)"
  by (rule foldE_Inr [where P = "\<lambda>_. True"]) auto

section \<open>Arithmetic of bigint\<close>

text \<open>
  The operator \<open>%\<close> of the language truncates towards zero: the result has the sign of the
  dividend. Every modulus of the program is a positive constant.
\<close>

definition bigint_rem :: "int \<Rightarrow> int \<Rightarrow> int" where
  "bigint_rem a m = (if a < 0 then - ((- a) mod \<bar>m\<bar>) else a mod \<bar>m\<bar>)"

lemma bigint_rem_nonneg [js_simps, simp]: "0 \<le> a \<Longrightarrow> 0 < m \<Longrightarrow> bigint_rem a m = a mod m"
  by (simp add: bigint_rem_def)

lemma bigint_rem_cong_mod: "0 < m \<Longrightarrow> bigint_rem a m mod m = a mod m"
  by (simp add: bigint_rem_def mod_minus_eq)

lemma bigint_rem_abs_less: "0 < m \<Longrightarrow> \<bar>bigint_rem a m\<bar> < m"
  by (auto simp: bigint_rem_def abs_if)
    (smt (verit) pos_mod_bound pos_mod_sign)+

text \<open>The idiom \<open>((a % m) + m) % m\<close> is the mathematical remainder.\<close>

lemma bigint_rem_normalise [js_simps]:
  assumes "0 < m"
  shows "bigint_rem (bigint_rem a m + m) m = a mod m"
proof -
  have "- m < bigint_rem a m"
    using bigint_rem_abs_less [OF assms, of a] by linarith
  then have "bigint_rem (bigint_rem a m + m) m = (bigint_rem a m + m) mod m"
    using assms by simp
  then show ?thesis
    using assms by (simp add: bigint_rem_cong_mod)
qed

section \<open>Reads of arrays\<close>

text \<open>
  A read of a typed array outside its bounds yields \<^verbatim>\<open>undefined\<close>, which every use in the modelled
  arithmetic coerces to zero (an operand of \<^verbatim>\<open>^\<close>, a store into a typed array).
\<close>

definition get0 :: "'a::zero list \<Rightarrow> nat \<Rightarrow> 'a" where
  "get0 xs i = (if i < length xs then xs ! i else 0)"

lemma get0_in [simp]: "i < length xs \<Longrightarrow> get0 xs i = xs ! i"
  by (simp add: get0_def)

lemma get0_map: "f 0 = 0 \<Longrightarrow> get0 (map f xs) i = f (get0 xs i)"
  by (simp add: get0_def)

section \<open>Counting loops\<close>

text \<open>
  A loop \<^verbatim>\<open>for (let i = 0; i < n; i++) acc = ...\<close> is \<open>fold\<close> over \<open>[0..<n]\<close>. The next
  facts give the value of the accumulating loops.
\<close>

lemma fold_upt_Suc: "fold f [0..<Suc n] s = f n (fold f [0..<n] s)"
  by simp

lemma fold_upt_induct:
  assumes "P 0 s" and "\<And>i t. i < n \<Longrightarrow> P i t \<Longrightarrow> P (Suc i) (f i t)"
  shows "P n (fold f [0..<n] s)"
  using assms
proof (induction n)
  case 0
  then show ?case by simp
next
  case (Suc n)
  then show ?case by simp
qed

lemma fold_plus_sum [loop_simps]:
  fixes f :: "nat \<Rightarrow> 'a::comm_monoid_add"
  shows "fold (\<lambda>i s. s + f i) [0..<n] s0 = s0 + (\<Sum>i<n. f i)"
  by (induction n) (simp_all add: ac_simps)

lemma fold_times_prod [loop_simps]:
  fixes f :: "nat \<Rightarrow> 'a::comm_monoid_mult"
  shows "fold (\<lambda>i s. s * f i) [0..<n] s0 = s0 * (\<Prod>i<n. f i)"
  by (induction n) (simp_all add: ac_simps)

lemma fold_append_map: "fold (\<lambda>x acc. acc @ [f x]) xs acc = acc @ map f xs"
  by (induction xs arbitrary: acc) auto

lemma fold_inv:
  assumes "P s" and "\<And>x t. x \<in> set xs \<Longrightarrow> P t \<Longrightarrow> P (f x t)"
  shows "P (fold f xs s)"
  using assms by (induction xs arbitrary: s) auto

text \<open>Two loops in lock step keep a relation between their states.\<close>

lemma fold_rel:
  assumes "R s t" and "\<And>x a b. x \<in> set xs \<Longrightarrow> R a b \<Longrightarrow> R (f x a) (g x b)"
  shows "R (fold f xs s) (fold g xs t)"
  using assms by (induction xs arbitrary: s t) auto

section \<open>Sums over lists of indices\<close>

lemma sum_lessThan_single:
  fixes f :: "nat \<Rightarrow> 'a::comm_monoid_add"
  assumes "i < n" and "\<And>j. j < n \<Longrightarrow> j \<noteq> i \<Longrightarrow> f j = 0"
  shows "(\<Sum>j<n. f j) = f i"
proof -
  have "(\<Sum>j<n. f j) = (\<Sum>j\<in>{i}. f j)"
    using assms by (intro sum.mono_neutral_right) auto
  then show ?thesis by simp
qed

lemma filter_length_partition: "length (filter P xs) + length (filter (\<lambda>x. \<not> P x) xs) = length xs"
  by (rule sum_length_filter_compl)

end
