(* ===== verification/Field_Algebra.thy ===== *)
theory Field_Algebra
  imports Prelude
begin

text \<open>
  Polynomial algebra over an arbitrary field, for the two codes of the program: Shamir's sharing
  (interpolation at zero) and the Reed-Solomon code (Cauchy matrices). The only facts about
  polynomials needed are that the functions of degree below \<open>n\<close> are closed under the operations
  below and that one with \<open>n\<close> roots vanishes.
\<close>

section \<open>Polynomial functions\<close>

definition poly_at :: "'a::comm_ring_1 list \<Rightarrow> 'a \<Rightarrow> 'a" where
  "poly_at cs x = (\<Sum>i<length cs. cs ! i * x ^ i)"

lemma poly_at_Nil [simp]: "poly_at [] x = 0"
  by (simp add: poly_at_def)

lemma poly_at_Cons [simp]: "poly_at (c # cs) x = c + x * poly_at cs x"
  by (simp add: poly_at_def sum.lessThan_Suc_shift sum_distrib_left ac_simps del: sum.lessThan_Suc)

lemma poly_at_zero: "poly_at cs 0 = (if cs = [] then 0 else hd cs)"
  by (cases cs) auto

definition polyfun :: "nat \<Rightarrow> ('a::comm_ring_1 \<Rightarrow> 'a) \<Rightarrow> bool" where
  "polyfun n f \<longleftrightarrow> (\<exists>cs. length cs = n \<and> f = poly_at cs)"

lemma polyfun_poly_at: "polyfun (length cs) (poly_at cs)"
  by (auto simp: polyfun_def)

lemma polyfun_0: "polyfun 0 f \<longleftrightarrow> f = (\<lambda>x. 0)"
  by (auto simp: polyfun_def)

lemma polyfun_Suc: "polyfun (Suc n) f \<longleftrightarrow> (\<exists>c g. polyfun n g \<and> f = (\<lambda>x. c + x * g x))"
proof
  assume "polyfun (Suc n) f"
  then obtain c cs where "length cs = n" "f = poly_at (c # cs)"
    by (auto simp: polyfun_def length_Suc_conv)
  then show "\<exists>c g. polyfun n g \<and> f = (\<lambda>x. c + x * g x)"
    by (intro exI [of _ c] exI [of _ "poly_at cs"]) (auto simp: polyfun_def fun_eq_iff)
next
  assume "\<exists>c g. polyfun n g \<and> f = (\<lambda>x. c + x * g x)"
  then obtain c cs where "length cs = n" "f = (\<lambda>x. c + x * poly_at cs x)"
    by (auto simp: polyfun_def)
  then show "polyfun (Suc n) f"
    unfolding polyfun_def by (intro exI [of _ "c # cs"]) (auto simp: fun_eq_iff)
qed

lemma polyfun_zero [simp, intro]: "polyfun n (\<lambda>x. 0)"
proof (induction n)
  case 0
  then show ?case by (simp add: polyfun_0)
next
  case (Suc n)
  then show ?case by (auto simp: polyfun_Suc intro!: exI [of _ 0])
qed

lemma polyfun_const [intro]: "0 < n \<Longrightarrow> polyfun n (\<lambda>x. c)"
  by (cases n) (auto simp: polyfun_Suc intro!: exI [of _ c] exI [of _ "\<lambda>x. 0"])

lemma polyfun_add [intro]:
  "polyfun n f \<Longrightarrow> polyfun n g \<Longrightarrow> polyfun n (\<lambda>x. f x + g x)"
proof (induction n arbitrary: f g)
  case 0
  then show ?case by (simp add: polyfun_0)
next
  case (Suc n)
  then obtain c f' d g' where fg: "polyfun n f'" "polyfun n g'" and
    "f = (\<lambda>x. c + x * f' x)" "g = (\<lambda>x. d + x * g' x)"
    by (auto simp: polyfun_Suc)
  then have "(\<lambda>x. f x + g x) = (\<lambda>x. (c + d) + x * (f' x + g' x))"
    by (simp add: algebra_simps)
  with Suc.IH [OF fg] show ?case
    unfolding polyfun_Suc by blast
qed

lemma polyfun_cmult [intro]: "polyfun n f \<Longrightarrow> polyfun n (\<lambda>x. c * f x)"
proof (induction n arbitrary: f)
  case 0
  then show ?case by (simp add: polyfun_0)
next
  case (Suc n)
  then obtain d f' where f': "polyfun n f'" and "f = (\<lambda>x. d + x * f' x)"
    by (auto simp: polyfun_Suc)
  then have "(\<lambda>x. c * f x) = (\<lambda>x. c * d + x * (c * f' x))"
    by (simp add: algebra_simps)
  with Suc.IH [OF f'] show ?case
    unfolding polyfun_Suc by blast
qed

lemma polyfun_Suc_mono: "polyfun n f \<Longrightarrow> polyfun (Suc n) f"
proof (induction n arbitrary: f)
  case 0
  then show ?case by (auto simp: polyfun_0)
next
  case (Suc n)
  then obtain d f' where f': "polyfun n f'" and "f = (\<lambda>x. d + x * f' x)"
    by (auto simp: polyfun_Suc)
  with Suc.IH [OF f'] show ?case
    unfolding polyfun_Suc [of "Suc n"] by blast
qed

lemma polyfun_mono: "m \<le> n \<Longrightarrow> polyfun m f \<Longrightarrow> polyfun n f"
  by (induction rule: dec_induct) (auto intro: polyfun_Suc_mono)

lemma polyfun_mult_linear:
  assumes "polyfun n f"
  shows "polyfun (Suc n) (\<lambda>x. (x - a) * f x)"
proof -
  have "polyfun (Suc n) (\<lambda>x. 0 + x * f x)"
    using assms unfolding polyfun_Suc by blast
  moreover have "polyfun (Suc n) (\<lambda>x. (- a) * f x)"
    using assms by (intro polyfun_cmult polyfun_Suc_mono)
  ultimately have "polyfun (Suc n) (\<lambda>x. (0 + x * f x) + (- a) * f x)"
    by (rule polyfun_add)
  then show ?thesis
    by (simp add: algebra_simps)
qed

lemma polyfun_sum:
  "(\<And>i. i \<in> A \<Longrightarrow> polyfun n (f i)) \<Longrightarrow> polyfun n (\<lambda>x. \<Sum>i\<in>A. f i x)"
proof (induction A rule: infinite_finite_induct)
  case (insert i A)
  then have "polyfun n (\<lambda>x. f i x + (\<Sum>i\<in>A. f i x))"
    by (intro polyfun_add) auto
  with insert show ?case by simp
qed auto

lemma polyfun_prod_linear:
  "finite A \<Longrightarrow> polyfun (Suc (card A)) (\<lambda>x. \<Prod>i\<in>A. x - a i)"
proof (induction A rule: finite_induct)
  case empty
  then show ?case by auto
next
  case (insert i A)
  then show ?case
    using polyfun_mult_linear [of "Suc (card A)" "\<lambda>x. \<Prod>i\<in>A. x - a i" "a i"] by simp
qed

lemma polyfun_factor:
  assumes "polyfun (Suc n) f" and "f a = 0"
  shows "\<exists>g. polyfun n g \<and> (\<forall>x. f x = (x - a) * g x)"
proof -
  have "\<exists>g. polyfun n g \<and> (\<forall>x. f x - f a = (x - a) * g x)"
    using assms(1)
  proof (induction n arbitrary: f)
    case 0
    then show ?case
      by (auto simp: polyfun_Suc polyfun_0)
  next
    case (Suc n)
    then obtain c f' where f': "polyfun (Suc n) f'" and f: "f = (\<lambda>x. c + x * f' x)"
      unfolding polyfun_Suc [of "Suc n"] by blast
    from Suc.IH [OF f'] obtain g where g: "polyfun n g" "\<And>x. f' x - f' a = (x - a) * g x"
      by blast
    let ?g = "\<lambda>x. f' a + x * g x"
    have "polyfun (Suc n) ?g"
      using g(1) unfolding polyfun_Suc by blast
    moreover have "f x - f a = (x - a) * ?g x" for x
    proof -
      have "f x - f a = x * (f' x - f' a) + (x - a) * f' a"
        by (simp add: f algebra_simps)
      also have "\<dots> = (x - a) * ?g x"
        by (simp add: g(2) algebra_simps)
      finally show ?thesis .
    qed
    ultimately show ?case by blast
  qed
  with assms(2) show ?thesis by simp
qed

text \<open>A polynomial function of degree below \<open>n\<close> with \<open>n\<close> roots vanishes.\<close>

theorem polyfun_roots:
  fixes f :: "'a::idom \<Rightarrow> 'a"
  assumes "polyfun n f" and "finite R" and "n \<le> card R" and "\<And>r. r \<in> R \<Longrightarrow> f r = 0"
  shows "f x = 0"
  using assms
proof (induction n arbitrary: f R)
  case 0
  then show ?case by (simp add: polyfun_0)
next
  case (Suc n)
  then obtain a where a: "a \<in> R"
    by (metis card.empty ex_in_conv not_less_eq_eq le0)
  obtain g where g: "polyfun n g" "\<And>x. f x = (x - a) * g x"
    using polyfun_factor [OF Suc.prems(1) Suc.prems(4) [OF a]] by blast
  have "g r = 0" if "r \<in> R - {a}" for r
    using that Suc.prems(4) [of r] g(2) [of r] by auto
  moreover have "n \<le> card (R - {a})"
    using Suc.prems(2,3) a by simp
  ultimately have "g x = 0"
    using Suc.IH [OF g(1), of "R - {a}"] Suc.prems(2) by blast
  then show ?case by (simp add: g(2))
qed

section \<open>Interpolation at zero\<close>

definition lagrange0 :: "'i set \<Rightarrow> ('i \<Rightarrow> 'a::field) \<Rightarrow> ('i \<Rightarrow> 'a) \<Rightarrow> 'a" where
  "lagrange0 A x y = (\<Sum>i\<in>A. y i * (\<Prod>j\<in>A - {i}. x j / (x j - x i)))"

theorem lagrange0_poly:
  fixes x :: "'i \<Rightarrow> 'a::field"
  assumes "finite A" and "inj_on x A" and f: "polyfun (card A) f"
  shows "lagrange0 A x (\<lambda>i. f (x i)) = f 0"
proof -
  define l where "l i t = (\<Prod>j\<in>A - {i}. (x j - t) / (x j - x i))" for i t
  define h where "h t = (\<Sum>i\<in>A. f (x i) * l i t) - f t" for t
  have l_poly: "polyfun (card A) (l i)" if "i \<in> A" for i
  proof -
    have "l i = (\<lambda>t. (\<Prod>j\<in>A - {i}. - 1 / (x j - x i)) * (\<Prod>j\<in>A - {i}. t - x j))"
      unfolding l_def prod.distrib [symmetric]
      by (intro ext prod.cong) (simp_all add: diff_divide_distrib)
    moreover have "polyfun (card A) (\<lambda>t. \<Prod>j\<in>A - {i}. t - x j)"
      using polyfun_prod_linear [of "A - {i}" x] assms(1) that
      by (metis card.remove finite_Diff)
    ultimately show ?thesis
      using polyfun_cmult by simp
  qed
  have h_poly: "polyfun (card A) h"
  proof -
    have "polyfun (card A) (\<lambda>t. (\<Sum>i\<in>A. f (x i) * l i t) + (- 1) * f t)"
      using f l_poly by (intro polyfun_add polyfun_sum polyfun_cmult)
    then show ?thesis by (simp add: h_def [abs_def])
  qed
  have delta: "l i (x k) = (if i = k then 1 else 0)" if "i \<in> A" "k \<in> A" for i k
  proof (cases "i = k")
    case True
    have "(x j - x k) / (x j - x i) = 1" if "j \<in> A - {i}" for j
      using that True \<open>k \<in> A\<close> assms(2) by (auto simp: inj_on_def)
    with True show ?thesis by (simp add: l_def)
  next
    case False
    then have "k \<in> A - {i}" using that by simp
    with False show ?thesis
      using assms(1) by (auto simp: l_def intro!: prod_zero)
  qed
  have "h r = 0" if "r \<in> x ` A" for r
  proof -
    from that obtain k where k: "k \<in> A" "r = x k" by blast
    have "(\<Sum>i\<in>A. f (x i) * l i (x k)) = (\<Sum>i\<in>A. if i = k then f (x i) else 0)"
      using delta k(1) by (intro sum.cong) auto
    also have "\<dots> = f (x k)"
      using assms(1) k(1) by simp
    finally show ?thesis by (simp add: h_def k(2))
  qed
  then have "h 0 = 0"
    using polyfun_roots [OF h_poly, of "x ` A" 0] assms(1,2) by (simp add: card_image)
  then show ?thesis
    by (simp add: h_def lagrange0_def l_def)
qed

lemma lagrange0_cong:
  "(\<And>i. i \<in> A \<Longrightarrow> x i = x' i) \<Longrightarrow> (\<And>i. i \<in> A \<Longrightarrow> y i = y' i) \<Longrightarrow> lagrange0 A x y = lagrange0 A x' y'"
  unfolding lagrange0_def by (intro sum.cong prod.cong arg_cong2 [where f = "(*)"]) auto

section \<open>Cauchy matrices\<close>

theorem cauchy_injective:
  fixes x :: "'i \<Rightarrow> 'a::field" and y :: "'j \<Rightarrow> 'a"
  assumes "finite D" and "inj_on x D" and "finite R" and "inj_on y R" and "card D \<le> card R"
    and ne: "\<And>c r. c \<in> D \<Longrightarrow> r \<in> R \<Longrightarrow> y r \<noteq> x c"
    and zero: "\<And>r. r \<in> R \<Longrightarrow> (\<Sum>c\<in>D. v c / (y r - x c)) = 0"
    and "d \<in> D"
  shows "v d = 0"
proof -
  define F where "F t = (\<Sum>c\<in>D. v c * (\<Prod>e\<in>D - {c}. t - x e))" for t
  have F_poly: "polyfun (card D) F"
    unfolding F_def
  proof (intro polyfun_sum polyfun_cmult)
    fix c
    assume "c \<in> D"
    then show "polyfun (card D) (\<lambda>t. \<Prod>e\<in>D - {c}. t - x e)"
      using polyfun_prod_linear [of "D - {c}" x] assms(1) by (metis card.remove finite_Diff)
  qed
  have F_eq: "F t = (\<Prod>e\<in>D. t - x e) * (\<Sum>c\<in>D. v c / (t - x c))" if "\<And>c. c \<in> D \<Longrightarrow> t \<noteq> x c" for t
    unfolding F_def sum_distrib_left
  proof (rule sum.cong)
    fix c
    assume c: "c \<in> D"
    have "(\<Prod>e\<in>D. t - x e) = (t - x c) * (\<Prod>e\<in>D - {c}. t - x e)"
      using assms(1) c by (simp add: prod.remove)
    with that [OF c] show "v c * (\<Prod>e\<in>D - {c}. t - x e) = (\<Prod>e\<in>D. t - x e) * (v c / (t - x c))"
      by (simp del: prod_diff1)
  qed simp
  have "F r = 0" if "r \<in> y ` R" for r
    using that ne zero F_eq by auto
  then have F0: "F t = 0" for t
    using polyfun_roots [OF F_poly, of "y ` R" t] assms(3-5) by (simp add: card_image)
  have "F (x d) = v d * (\<Prod>e\<in>D - {d}. x d - x e)"
  proof -
    have "v c * (\<Prod>e\<in>D - {c}. x d - x e) = 0" if "c \<in> D - {d}" for c
      using that assms(1,8) by (auto intro!: prod_zero)
    then have "(\<Sum>c\<in>D - {d}. v c * (\<Prod>e\<in>D - {c}. x d - x e)) = 0"
      by (rule sum.neutral [OF ballI])
    then show ?thesis
      unfolding F_def by (simp only: sum.remove [OF assms(1,8)] add_0_right)
  qed
  moreover have "(\<Prod>e\<in>D - {d}. x d - x e) \<noteq> 0"
    using assms(1,2,8) by (auto simp: inj_on_def)
  ultimately show ?thesis
    using F0 [of "x d"] by simp
qed

end
