(* ===== verification/GF256.thy ===== *)
theory GF256
  imports Field_Algebra "HOL-Library.Word"
begin

text \<open>
  The field with 256 elements, as \<^verbatim>\<open>services/erasureCoding.service.ts\<close> and
  \<^verbatim>\<open>services/secrets.service.ts\<close> build it: each module fills an exponential and a logarithm
  table by repeated doubling modulo the polynomial \<open>x^8 + x^4 + x^3 + x^2 + 1\<close> and multiplies by
  adding logarithms.

  The development shows that both table builders compute the powers of the doubling map
  \<open>xtime\<close>, that the map has order 255 (the only fact established by evaluation), that the
  table-driven product is the product of polynomials modulo the field polynomial, and that bytes
  with exclusive or and this product are a field.
\<close>

unbundle bit_operations_syntax

type_synonym byte = "8 word"

section \<open>The erasure-coding module\<close>

definition GF_PRIMITIVE :: nat where
  "GF_PRIMITIVE = 0x11d"

definition GF_SIZE :: nat where
  "GF_SIZE = 256"

text \<open>
  One iteration of the first loop of \<^verbatim>\<open>buildTables\<close>. The loop variable is a number below 256 at
  the head of the loop; a store into a \<^verbatim>\<open>Uint8Array\<close> keeps its low byte.
\<close>

definition buildTables_step :: "nat \<Rightarrow> nat \<times> byte list \<times> nat list \<Rightarrow> nat \<times> byte list \<times> nat list" where
  "buildTables_step i = (\<lambda>(x, gfExp, gfLog).
     (let gfExp = gfExp[i := word_of_nat x];
          gfLog = gfLog[x := i];
          x = 2 * x;
          x = (if GF_SIZE \<le> x then x XOR GF_PRIMITIVE else x)
      in (x, gfExp, gfLog)))"

definition buildTables :: "byte list \<times> nat list" where
  "buildTables =
     (case fold buildTables_step [0..<GF_SIZE - 1] (1, replicate 512 0, replicate GF_SIZE 0) of
        (x, gfExp, gfLog) \<Rightarrow>
          (fold (\<lambda>i e. e[i + GF_SIZE - 1 := e ! i]) [0..<GF_SIZE - 1] gfExp, gfLog))"

definition gfExp :: "byte list" where
  "gfExp = fst buildTables"

definition gfLog :: "nat list" where
  "gfLog = snd buildTables"

definition gfMul :: "byte \<Rightarrow> byte \<Rightarrow> byte" where
  "gfMul a b = (if a = 0 \<or> b = 0 then 0 else gfExp ! (gfLog ! unat a + gfLog ! unat b))"

definition gfDiv :: "byte \<Rightarrow> byte \<Rightarrow> byte result" where
  "gfDiv a b =
     (if b = 0 then Inl (RangeError ''GF division by zero'')
      else if a = 0 then Inr 0
      else Inr (gfExp ! (gfLog ! unat a + (GF_SIZE - 1) - gfLog ! unat b)))"

definition gfAdd :: "byte \<Rightarrow> byte \<Rightarrow> byte" where
  "gfAdd a b = a XOR b"

section \<open>The secret-sharing module\<close>

definition GF_POLYNOMIAL :: nat where
  "GF_POLYNOMIAL = 0x1d"

definition initGFTables_step :: "nat \<Rightarrow> nat \<times> byte list \<times> nat list \<Rightarrow> nat \<times> byte list \<times> nat list" where
  "initGFTables_step i = (\<lambda>(x, EXP, LOG).
     (let EXP = EXP[i := word_of_nat x];
          EXP = EXP[i + 255 := word_of_nat x];
          LOG = LOG[x := i];
          temp = (2 * x) AND 255;
          temp = (if x AND 128 \<noteq> 0 then temp XOR GF_POLYNOMIAL else temp)
      in (temp, EXP, LOG)))"

definition initGFTables :: "byte list \<times> nat list" where
  "initGFTables =
     (case fold initGFTables_step [0..<255] (1, replicate 512 0, replicate 256 0) of
        (x, EXP, LOG) \<Rightarrow> (EXP, LOG))"

definition EXP_TABLE :: "byte list" where
  "EXP_TABLE = fst initGFTables"

definition LOG_TABLE :: "nat list" where
  "LOG_TABLE = snd initGFTables"

text \<open>The arguments are numbers; \<^verbatim>\<open>a & 0xff\<close> is their low byte.\<close>

definition gfMultiply :: "nat \<Rightarrow> nat \<Rightarrow> byte" where
  "gfMultiply a b =
     (let tempA = (word_of_nat a :: byte); tempB = (word_of_nat b :: byte)
      in if tempA = 0 \<or> tempB = 0 then 0
         else EXP_TABLE ! (LOG_TABLE ! unat tempA + LOG_TABLE ! unat tempB))"

definition gfInverse :: "nat \<Rightarrow> byte result" where
  "gfInverse a =
     (let val = (word_of_nat a :: byte)
      in if val = 0 then Inl (Error ''GF(256) division by zero'')
         else Inr (EXP_TABLE ! (255 - LOG_TABLE ! unat val)))"

section \<open>The doubling map\<close>

definition xtime :: "byte \<Rightarrow> byte" where
  "xtime b = (if bit b 7 then push_bit 1 b XOR 29 else push_bit 1 b)"

lemma xtime_xor: "xtime (a XOR b) = xtime a XOR xtime b"
  by (rule bit_word_eqI) (auto simp: xtime_def bit_simps)

lemma xtime_0 [simp]: "xtime 0 = 0"
  by (simp add: xtime_def)

lemma xtime_pow_xor: "(xtime ^^ n) (a XOR b) = (xtime ^^ n) a XOR (xtime ^^ n) b"
  by (induction n) (simp_all add: xtime_xor)

lemma xtime_pow_0 [simp]: "(xtime ^^ n) 0 = 0"
  by (induction n) simp_all

fun never_one :: "nat \<Rightarrow> byte \<Rightarrow> bool" where
  "never_one 0 b \<longleftrightarrow> True"
| "never_one (Suc n) b \<longleftrightarrow> b \<noteq> 1 \<and> never_one n (xtime b)"

lemma never_one_numeral:
  "never_one (numeral k) b \<longleftrightarrow> b \<noteq> 1 \<and> never_one (pred_numeral k) (xtime b)"
  by (simp add: numeral_eq_Suc)

lemma xtime_pow_numeral:
  "(xtime ^^ numeral k) b = (xtime ^^ pred_numeral k) (xtime b)"
  by (simp add: numeral_eq_Suc funpow_swap1)

lemma never_oneD: "never_one n b \<Longrightarrow> k < n \<Longrightarrow> (xtime ^^ k) b \<noteq> 1"
proof (induction n arbitrary: b k)
  case 0
  then show ?case by simp
next
  case (Suc n)
  then show ?case
    by (cases k) (simp_all add: funpow_swap1)
qed

lemma xtime_never_one: "never_one 254 2"
  by (simp add: never_one_numeral xtime_def)

lemma xtime_period: "(xtime ^^ 255) 1 = 1"
  by (simp add: xtime_pow_numeral xtime_def)

lemma xtime_order: "0 < k \<Longrightarrow> k < 255 \<Longrightarrow> (xtime ^^ k) 1 \<noteq> 1"
  using never_oneD [OF xtime_never_one, of "k - 1"]
  by (cases k) (simp_all add: funpow_swap1 xtime_def)

lemma push_bit_1_eq_0: "\<not> bit b 7 \<Longrightarrow> push_bit 1 b = 0 \<Longrightarrow> b = (0 :: byte)"
proof (rule bit_word_eqI)
  fix n
  assume b7: "\<not> bit b 7" and eq: "push_bit 1 b = 0" and n: "n < LENGTH(8)"
  show "bit b n = bit (0 :: byte) n"
  proof (cases "n = 7")
    case True
    with b7 show ?thesis by simp
  next
    case False
    have "\<not> bit (push_bit 1 b) (Suc n)"
      unfolding eq by simp
    with False n show ?thesis
      by (simp only: bit_push_bit_iff) auto
  qed
qed

lemma xtime_eq_0: "xtime b = 0 \<longleftrightarrow> b = 0"
proof
  assume eq: "xtime b = 0"
  show "b = 0"
  proof (cases "bit b 7")
    case True
    with eq have "\<not> bit (push_bit 1 b XOR 29) 0"
      by (simp add: xtime_def)
    moreover have "bit (push_bit 1 b XOR 29) 0"
      by (simp only: bit_xor_iff bit_push_bit_iff) simp
    ultimately show ?thesis
      by blast
  next
    case False
    with eq show ?thesis
      by (simp add: xtime_def push_bit_1_eq_0)
  qed
qed simp

lemma xtime_inj: "xtime a = xtime b \<longleftrightarrow> a = b"
proof
  assume "xtime a = xtime b"
  then have "xtime (a XOR b) = 0"
    by (simp add: xtime_xor)
  then have "a XOR b = 0"
    by (simp only: xtime_eq_0)
  then show "a = b"
    by (metis xor.assoc xor_self_eq xor.right_neutral)
qed simp

lemma xtime_pow_inj: "(xtime ^^ n) a = (xtime ^^ n) b \<longleftrightarrow> a = b"
  by (induction n) (simp_all add: xtime_inj)

definition gexp :: "nat \<Rightarrow> byte" where
  "gexp n = (xtime ^^ n) 1"

lemma gexp_0 [simp]: "gexp 0 = 1"
  by (simp add: gexp_def)

lemma gexp_Suc: "gexp (Suc n) = xtime (gexp n)"
  by (simp add: gexp_def)

lemma gexp_add: "gexp (m + n) = (xtime ^^ m) (gexp n)"
  by (simp add: gexp_def funpow_add)

lemma gexp_period: "gexp (n + 255) = gexp n"
  by (simp add: gexp_add xtime_period gexp_def [of 255]) (simp add: gexp_def)

lemma gexp_mod: "gexp (n mod 255) = gexp n"
proof (induction n rule: less_induct)
  case (less n)
  show ?case
  proof (cases "n < 255")
    case False
    then have "n = (n - 255) + 255" by simp
    with less [of "n - 255"] False show ?thesis
      by (metis gexp_period mod_add_self2 diff_less not_less_zero zero_less_numeral neq0_conv less_le_trans not_le)
  qed simp
qed

lemma gexp_nonzero [simp]: "gexp n \<noteq> 0"
proof
  assume "gexp n = 0"
  then have "(xtime ^^ n) 1 = (xtime ^^ n) 0"
    by (simp add: gexp_def)
  then show False
    by (simp only: xtime_pow_inj) simp
qed

lemma gexp_inj: "inj_on gexp {..<255}"
proof -
  have "gexp i \<noteq> gexp j" if "i < j" "j < 255" for i j
  proof
    assume "gexp i = gexp j"
    then have "(xtime ^^ i) 1 = (xtime ^^ i) ((xtime ^^ (j - i)) 1)"
      using that by (simp add: gexp_def flip: funpow_add comp_apply [where f = "xtime ^^ i"])
    then have "(xtime ^^ (j - i)) 1 = 1"
      by (simp add: xtime_pow_inj)
    moreover have "0 < j - i" "j - i < 255"
      using that by simp_all
    ultimately show False
      using xtime_order by blast
  qed
  then show ?thesis
    by (intro inj_onI) (metis lessThan_iff linorder_neqE_nat)
qed

lemma gexp_surj: "a \<noteq> 0 \<Longrightarrow> \<exists>i < 255. a = gexp i"
proof -
  assume a: "a \<noteq> 0"
  have "gexp ` {..<255} = UNIV - {0}"
  proof (rule card_subset_eq)
    show "card (gexp ` {..<255}) = card (UNIV - {0 :: byte})"
      by (simp add: card_image [OF gexp_inj] card_word)
  qed auto
  with a have "a \<in> gexp ` {..<255}" by simp
  then show ?thesis by auto
qed

lemma unat_gexp_less [simp]: "unat (gexp i) < 256"
  using unsigned_less [of "gexp i"] by simp

section \<open>The tables hold the powers of the doubling map\<close>

lemma xor_nat_less_256: "a < 256 \<Longrightarrow> b < 256 \<Longrightarrow> a XOR b < (256 :: nat)"
proof -
  assume "a < 256" "b < 256"
  then have "take_bit 8 (a XOR b) = a XOR b"
    by (simp add: take_bit_xor take_bit_nat_eq_self_iff [THEN iffD2])
  then show ?thesis
    using take_bit_nat_less_exp [of 8 "a XOR b"] by simp
qed

lemma word_of_nat_xor: "(word_of_nat (a XOR b) :: byte) = word_of_nat a XOR word_of_nat b"
  by (rule bit_word_eqI) (simp add: bit_simps)

lemma bit_7_iff: "x < 256 \<Longrightarrow> bit (word_of_nat x :: byte) 7 \<longleftrightarrow> 128 \<le> (x :: nat)"
proof -
  assume x: "x < 256"
  have "bit (word_of_nat x :: byte) 7 \<longleftrightarrow> odd (x div 128)"
    by (simp add: bit_simps) (simp add: bit_iff_odd)
  also have "\<dots> \<longleftrightarrow> 128 \<le> x"
  proof (cases "128 \<le> x")
    case True
    then have "x div 128 = 1" using x by simp
    with True show ?thesis by simp
  qed simp
  finally show ?thesis .
qed

lemma word_of_nat_double: "(word_of_nat (2 * x) :: byte) = push_bit 1 (word_of_nat x)"
  by (simp add: push_bit_eq_mult)

lemma buildTables_double:
  assumes "x < 256"
  defines "y \<equiv> (if GF_SIZE \<le> 2 * x then 2 * x XOR GF_PRIMITIVE else 2 * x)"
  shows "y < 256" and "(word_of_nat y :: byte) = xtime (word_of_nat x)"
proof -
  show "y < 256"
  proof (cases "GF_SIZE \<le> 2 * x")
    case True
    define z where "z = 2 * x - 256"
    have z: "2 * x = 256 + z" "z < 256"
      using True assms(1) by (simp_all add: z_def GF_SIZE_def)
    have "\<not> bit z 8"
      using z(2) by (simp add: bit_iff_odd)
    then have "z AND 256 = 0"
      using and_exp_eq_0_iff_not_bit [of z 8] by simp
    then have "256 + z = z XOR 256"
      by (simp add: disjunctive_add_eq_xor add.commute)
    then have "2 * x XOR GF_PRIMITIVE = z XOR (256 XOR 285)"
      by (simp only: z(1) GF_PRIMITIVE_def xor.assoc)
    also have "\<dots> = z XOR 29"
      by simp
    finally show ?thesis
      using True z(2) xor_nat_less_256 by (simp add: y_def)
  qed (simp add: y_def GF_SIZE_def)
  show "(word_of_nat y :: byte) = xtime (word_of_nat x)"
  proof (cases "128 \<le> x")
    case True
    have "(word_of_nat y :: byte) = push_bit 1 (word_of_nat x) XOR word_of_nat GF_PRIMITIVE"
      using True by (simp add: y_def GF_SIZE_def word_of_nat_xor mult.commute)
    moreover have "(word_of_nat GF_PRIMITIVE :: byte) = 29"
      by (simp add: GF_PRIMITIVE_def)
    ultimately show ?thesis
      using True assms(1) by (simp add: xtime_def bit_7_iff)
  next
    case False
    then show ?thesis
      using assms(1) by (simp add: y_def xtime_def bit_7_iff GF_SIZE_def word_of_nat_double)
  qed
qed

lemma initGFTables_double:
  assumes "x < 256"
  defines "t \<equiv> (if x AND 128 \<noteq> 0 then ((2 * x) AND 255) XOR GF_POLYNOMIAL else (2 * x) AND 255)"
  shows "t < 256" and "(word_of_nat t :: byte) = xtime (word_of_nat x)"
proof -
  have and255: "(2 * x) AND 255 = (2 * x) mod 256"
    using take_bit_eq_mask [of 8 "2 * x"] by (simp add: mask_eq_exp_minus_1 take_bit_eq_mod)
  show "t < 256"
    unfolding t_def and255 GF_POLYNOMIAL_def by (simp add: xor_nat_less_256)
  have bit7: "x AND 128 \<noteq> 0 \<longleftrightarrow> bit (word_of_nat x :: byte) 7"
    using and_exp_eq_0_iff_not_bit [of x 7] by (simp add: bit_simps)
  have low: "(word_of_nat ((2 * x) mod 256) :: byte) = push_bit 1 (word_of_nat x)"
  proof -
    have "(word_of_nat ((2 * x) mod 256) :: byte) = word_of_nat (2 * x)"
      by (simp add: word_of_nat_eq_iff take_bit_eq_mod del: of_nat_mult)
    then show ?thesis
      by (simp only: word_of_nat_double)
  qed
  show "(word_of_nat t :: byte) = xtime (word_of_nat x)"
    unfolding t_def bit7 and255 xtime_def GF_POLYNOMIAL_def
    by (simp only: word_of_nat_xor low if_distrib [where f = word_of_nat]) simp
qed

definition table_inv :: "nat \<Rightarrow> nat \<times> byte list \<times> nat list \<Rightarrow> bool" where
  "table_inv k = (\<lambda>(x, e, l). x = unat (gexp k) \<and> length e = 512 \<and> length l = 256 \<and>
     (\<forall>i<k. e ! i = gexp i \<and> l ! unat (gexp i) = i))"

lemma table_inv_log_update:
  assumes "k < 255" and "length l = 256" and "\<forall>i<k. l ! unat (gexp i) = i" and "i < Suc k"
  shows "l[unat (gexp k) := k] ! unat (gexp i) = i"
proof (cases "i = k")
  case True
  with assms(2) show ?thesis by simp
next
  case False
  with assms(1,4) have "gexp i \<noteq> gexp k"
    using gexp_inj by (auto simp: inj_on_def)
  then have "unat (gexp k) \<noteq> unat (gexp i)"
    by (metis word_eq_iff_unsigned)
  with False assms show ?thesis by simp
qed

lemma buildTables_step_inv:
  assumes "k < 255" and "table_inv k s"
  shows "table_inv (Suc k) (buildTables_step k s)"
proof -
  obtain x e l where s: "s = (x, e, l)" by (cases s)
  have inv: "x = unat (gexp k)" "length e = 512" "length l = 256"
    "\<forall>i<k. e ! i = gexp i" "\<forall>i<k. l ! unat (gexp i) = i"
    using assms(2) by (auto simp: s table_inv_def)
  define y where "y = (if GF_SIZE \<le> 2 * x then 2 * x XOR GF_PRIMITIVE else 2 * x)"
  have y: "y < 256" "(word_of_nat y :: byte) = xtime (word_of_nat x)"
    using buildTables_double [of x] inv(1) by (simp_all add: y_def)
  have "y = unat (gexp (Suc k))"
    using y(1) inv(1) unat_of_nat [of y, where 'a = 8] by (simp add: gexp_Suc y(2))
  with inv table_inv_log_update [OF assms(1) inv(3,5)] assms(1) show ?thesis
    by (auto simp: s buildTables_step_def table_inv_def Let_def y_def nth_list_update less_Suc_eq)
qed

lemma initGFTables_step_inv:
  assumes "k < 255" and "table_inv k s" and "\<forall>i<k. fst (snd s) ! (i + 255) = gexp i"
  shows "table_inv (Suc k) (initGFTables_step k s) \<and>
    (\<forall>i<Suc k. fst (snd (initGFTables_step k s)) ! (i + 255) = gexp i)"
proof -
  obtain x e l where s: "s = (x, e, l)" by (cases s)
  have inv: "x = unat (gexp k)" "length e = 512" "length l = 256"
    "\<forall>i<k. e ! i = gexp i" "\<forall>i<k. l ! unat (gexp i) = i"
    using assms(2) by (auto simp: s table_inv_def)
  define y where
    "y = (if x AND 128 \<noteq> 0 then ((2 * x) AND 255) XOR GF_POLYNOMIAL else (2 * x) AND 255)"
  have y: "y < 256" "(word_of_nat y :: byte) = xtime (word_of_nat x)"
    using initGFTables_double [of x] inv(1) by (simp_all add: y_def)
  have "y = unat (gexp (Suc k))"
    using y(1) inv(1) unat_of_nat [of y, where 'a = 8] by (simp add: gexp_Suc y(2))
  with inv table_inv_log_update [OF assms(1) inv(3,5)] assms(1,3) show ?thesis
    by (auto simp: s initGFTables_step_def table_inv_def Let_def y_def nth_list_update less_Suc_eq)
qed

lemma table_inv_start: "table_inv 0 (1, replicate 512 0, replicate 256 0)"
  by (simp add: table_inv_def)

lemma buildTables_loop_inv:
  "table_inv 255 (fold buildTables_step [0..<255] (1, replicate 512 0, replicate 256 0))"
  by (rule fold_upt_induct [where P = table_inv, OF table_inv_start buildTables_step_inv])

lemma initGFTables_loop_inv:
  "table_inv 255 (fold initGFTables_step [0..<255] (1, replicate 512 0, replicate 256 0)) \<and>
   (\<forall>i<255. fst (snd (fold initGFTables_step [0..<255] (1, replicate 512 0, replicate 256 0))) !
      (i + 255) = gexp i)"
  by (rule fold_upt_induct
        [where P = "\<lambda>k s. table_inv k s \<and> (\<forall>i<k. fst (snd s) ! (i + 255) = gexp i)"])
    (use table_inv_start initGFTables_step_inv in blast)+

text \<open>The second loop of \<^verbatim>\<open>buildTables\<close> mirrors the first 255 entries.\<close>

lemma mirror_loop:
  assumes "length e = 512" and "\<forall>i<255. e ! i = gexp i" and "k \<le> 255"
  shows "length (fold (\<lambda>i e. e[i + 255 := e ! i]) [0..<k] e) = 512 \<and>
    (\<forall>i < 255 + k. fold (\<lambda>i e. e[i + 255 := e ! i]) [0..<k] e ! i = gexp i)"
  using assms(3)
proof (induction k)
  case 0
  with assms show ?case by simp
next
  case (Suc k)
  let ?e = "fold (\<lambda>i e. e[i + 255 := e ! i]) [0..<k] e"
  have "length ?e = 512" "\<forall>i < 255 + k. ?e ! i = gexp i"
    using Suc by auto
  moreover have "gexp (255 + k) = gexp k"
    using gexp_period [of k] by (simp add: add.commute)
  ultimately show ?case
    using Suc.prems by (auto simp: nth_list_update less_Suc_eq add.commute)
qed

lemma gfExp_nth: "i < 510 \<Longrightarrow> gfExp ! i = gexp i"
  and gfLog_gexp: "i < 255 \<Longrightarrow> gfLog ! unat (gexp i) = i"
proof -
  obtain x e l where s: "fold buildTables_step [0..<255] (1, replicate 512 0, replicate 256 0) = (x, e, l)"
    by (metis prod_cases3)
  have inv: "length e = 512" "\<forall>i<255. e ! i = gexp i" "\<forall>i<255. l ! unat (gexp i) = i"
    using buildTables_loop_inv unfolding s by (auto simp: table_inv_def)
  have tables: "gfExp = fold (\<lambda>i e. e[i + 255 := e ! i]) [0..<255] e" "gfLog = l"
    unfolding gfExp_def gfLog_def buildTables_def GF_SIZE_def
    by (simp_all add: s [simplified] add.commute)
  show "i < 510 \<Longrightarrow> gfExp ! i = gexp i"
    using mirror_loop [OF inv(1,2), of 255] by (simp add: tables)
  show "i < 255 \<Longrightarrow> gfLog ! unat (gexp i) = i"
    using inv(3) by (simp add: tables)
qed

lemma EXP_TABLE_nth: "i < 510 \<Longrightarrow> EXP_TABLE ! i = gexp i"
  and LOG_TABLE_gexp: "i < 255 \<Longrightarrow> LOG_TABLE ! unat (gexp i) = i"
proof -
  obtain x e l where s: "fold initGFTables_step [0..<255] (1, replicate 512 0, replicate 256 0) = (x, e, l)"
    by (metis prod_cases3)
  have inv: "\<forall>i<255. e ! i = gexp i" "\<forall>i<255. l ! unat (gexp i) = i" "\<forall>i<255. e ! (i + 255) = gexp i"
    using initGFTables_loop_inv unfolding s by (auto simp: table_inv_def)
  have tables: "EXP_TABLE = e" "LOG_TABLE = l"
    unfolding EXP_TABLE_def LOG_TABLE_def initGFTables_def by (simp_all add: s [simplified])
  show "EXP_TABLE ! i = gexp i" if "i < 510"
  proof (cases "i < 255")
    case False
    then have "i = (i - 255) + 255" "i - 255 < 255" using that by simp_all
    then show ?thesis
      using inv(3) gexp_period [of "i - 255"] by (metis tables(1))
  qed (simp add: inv tables)
  show "i < 255 \<Longrightarrow> LOG_TABLE ! unat (gexp i) = i"
    using inv(2) by (simp add: tables)
qed

section \<open>The product\<close>

lemma gfMul_gexp: "i < 255 \<Longrightarrow> j < 255 \<Longrightarrow> gfMul (gexp i) (gexp j) = gexp (i + j)"
  by (simp add: gfMul_def gfLog_gexp gfExp_nth)

lemma gfMul_xtime: "gfMul (gexp i) b = (xtime ^^ i) b"
proof (cases "b = 0")
  case True
  then show ?thesis by (simp add: gfMul_def)
next
  case False
  then obtain j where j: "j < 255" "b = gexp j"
    using gexp_surj by blast
  have "gfMul (gexp i) b = gexp (i mod 255 + j)"
    using gfMul_gexp [of "i mod 255" j] j by (simp add: gexp_mod)
  also have "\<dots> = gexp ((i mod 255 + j) mod 255)"
    by (simp add: gexp_mod)
  also have "\<dots> = gexp (i + j)"
    by (simp only: mod_add_left_eq gexp_mod)
  finally show ?thesis
    by (simp add: gexp_add j(2))
qed

lemma gfMul_commute: "gfMul a b = gfMul b a"
  by (simp add: gfMul_def add.commute)

lemma gfMul_0 [simp]: "gfMul 0 b = 0" "gfMul a 0 = 0"
  by (simp_all add: gfMul_def)

lemma gfMul_1: "gfMul 1 b = b"
  using gfMul_xtime [of 0 b] by simp

lemma gfMul_xor_right: "gfMul a (b XOR c) = gfMul a b XOR gfMul a c"
proof (cases "a = 0")
  case False
  then obtain i where "a = gexp i"
    using gexp_surj by blast
  then show ?thesis
    by (simp add: gfMul_xtime xtime_pow_xor)
qed simp

lemma gfMul_assoc: "gfMul (gfMul a b) c = gfMul a (gfMul b c)"
proof (cases "a = 0 \<or> b = 0")
  case False
  then obtain i j where ij: "a = gexp i" "b = gexp j"
    using gexp_surj by meson
  have "gfMul a b = gexp (i + j)"
    by (simp add: ij gfMul_xtime gexp_add)
  then show ?thesis
    by (simp add: ij gfMul_xtime funpow_add)
qed auto

lemma gfDiv_mul: "b \<noteq> 0 \<Longrightarrow> \<exists>q. gfDiv a b = Inr q \<and> gfMul q b = a"
proof (cases "a = 0")
  case True
  assume "b \<noteq> 0"
  with True show ?thesis by (simp add: gfDiv_def)
next
  case False
  assume "b \<noteq> 0"
  with False obtain i j where ij: "i < 255" "j < 255" "a = gexp i" "b = gexp j"
    using gexp_surj by meson
  have "gfDiv a b = Inr (gexp (i + 255 - j))"
    using ij by (simp add: gfDiv_def gfLog_gexp gfExp_nth GF_SIZE_def)
  moreover have "gfMul (gexp (i + 255 - j)) b = gexp (i + 255)"
    using ij by (simp add: gfMul_xtime flip: gexp_add)
  ultimately show ?thesis
    using ij by (simp add: gexp_period)
qed

lemma gfMul_eq_0: "gfMul a b = 0 \<longleftrightarrow> a = 0 \<or> b = 0"
proof -
  have "gfMul a b \<noteq> 0" if "a \<noteq> 0" "b \<noteq> 0"
  proof -
    obtain i where "a = gexp i"
      using gexp_surj [OF \<open>a \<noteq> 0\<close>] by blast
    then have "gfMul a b = 0 \<longleftrightarrow> (xtime ^^ i) b = (xtime ^^ i) 0"
      by (simp add: gfMul_xtime)
    with that show ?thesis
      by (simp only: xtime_pow_inj) simp
  qed
  then show ?thesis by auto
qed

text \<open>
  The product of polynomials modulo the field polynomial: the sum, over the bits of one factor,
  of the other factor doubled as often as the bit's position says.
\<close>

definition poly_mul :: "byte \<Rightarrow> byte \<Rightarrow> byte" where
  "poly_mul a b = fold (\<lambda>i acc. if bit a i then acc XOR (xtime ^^ i) b else acc) [0..<8] 0"

lemma gexp_push_bit: "i < 8 \<Longrightarrow> gexp i = push_bit i 1"
proof -
  assume "i < 8"
  then have "i = 0 \<or> i = 1 \<or> i = 2 \<or> i = 3 \<or> i = 4 \<or> i = 5 \<or> i = 6 \<or> i = 7"
    by arith
  then show ?thesis
    by (elim disjE) (simp_all add: gexp_def xtime_pow_numeral xtime_def)
qed

lemma take_bit_fold:
  "k \<le> 8 \<Longrightarrow> fold (\<lambda>i acc. if bit a i then acc XOR gexp i else acc) [0..<k] 0 = take_bit k (a :: byte)"
proof (induction k)
  case 0
  then show ?case by simp
next
  case (Suc k)
  then have "fold (\<lambda>i acc. if bit a i then acc XOR gexp i else acc) [0..<Suc k] 0 =
      (if bit a k then take_bit k a XOR push_bit k 1 else take_bit k a)"
    by (simp add: gexp_push_bit)
  also have "\<dots> = take_bit (Suc k) a"
    by (rule bit_word_eqI) (auto simp: bit_take_bit_iff bit_xor_iff bit_push_bit_iff bit_1_iff bit_exp_iff less_Suc_eq)
  finally show ?case .
qed

lemma byte_bits: "fold (\<lambda>i acc. if bit a i then acc XOR gexp i else acc) [0..<8] 0 = (a :: byte)"
  using take_bit_fold [of 8 a] take_bit_length_eq [of a] by simp

lemma gfMul_fold_xor:
  "gfMul b (fold (\<lambda>i acc. if bit a i then acc XOR gexp i else acc) is acc) =
   fold (\<lambda>i acc. if bit a i then acc XOR (xtime ^^ i) b else acc) is (gfMul b acc)"
proof (induction "is" arbitrary: acc)
  case Nil
  then show ?case by simp
next
  case (Cons i "is")
  have "gfMul b (acc XOR gexp i) = gfMul b acc XOR (xtime ^^ i) b"
    by (simp add: gfMul_xor_right gfMul_commute [of b "gexp i"] gfMul_xtime)
  then show ?case
    by (simp add: Cons.IH)
qed

lemma gfMul_eq_poly_mul: "gfMul a b = poly_mul a b"
  using gfMul_fold_xor [of b a "[0..<8]" 0] unfolding byte_bits
  by (simp only: gfMul_commute [of a] poly_mul_def gfMul_0)

text \<open>The two modules implement the same product and the same inverse.\<close>

lemma tables_agree:
  assumes "a \<noteq> 0" and "b \<noteq> 0"
  shows "EXP_TABLE ! (LOG_TABLE ! unat a + LOG_TABLE ! unat b) = gfMul a b"
proof -
  obtain i j where "i < 255" "j < 255" "a = gexp i" "b = gexp j"
    using gexp_surj assms by meson
  then show ?thesis
    by (simp add: LOG_TABLE_gexp EXP_TABLE_nth gfMul_gexp)
qed

lemma gfMultiply_eq: "gfMultiply a b = gfMul (word_of_nat a) (word_of_nat b)"
  using tables_agree [of "word_of_nat a" "word_of_nat b"]
  by (simp add: gfMultiply_def Let_def gfMul_def)

lemma gfInverse_eq: "(word_of_nat a :: byte) \<noteq> 0 \<Longrightarrow> gfInverse a = gfDiv 1 (word_of_nat a)"
proof -
  assume a: "(word_of_nat a :: byte) \<noteq> 0"
  then obtain j where j: "j < 255" "word_of_nat a = gexp j"
    using gexp_surj by blast
  have "gfLog ! unat (1 :: byte) = 0"
    using gfLog_gexp [of 0] by simp
  with j show ?thesis
    by (simp add: gfInverse_def gfDiv_def LOG_TABLE_gexp EXP_TABLE_nth gfLog_gexp gfExp_nth GF_SIZE_def)
qed

section \<open>The field\<close>

text \<open>Bytes under another name, so that the type carries the operations of the field.\<close>

datatype gf256 = GF (gf_byte: byte)

lemma gf_byte_inject: "gf_byte a = gf_byte b \<longleftrightarrow> a = b"
  by (cases a; cases b) simp

definition gf_quot :: "byte \<Rightarrow> byte \<Rightarrow> byte" where
  "gf_quot a b = (case gfDiv a b of Inl e \<Rightarrow> 0 | Inr q \<Rightarrow> q)"

lemma gf_quot_mul: "b \<noteq> 0 \<Longrightarrow> gfMul (gf_quot a b) b = a"
  using gfDiv_mul [of b a] by (auto simp: gf_quot_def)

lemma gfDiv_quot: "b \<noteq> 0 \<Longrightarrow> gfDiv a b = Inr (gf_quot a b)"
  by (simp add: gf_quot_def gfDiv_def)

lemma gf_quot_0 [simp]: "gf_quot a 0 = 0" "gf_quot 0 b = 0"
  by (simp_all add: gf_quot_def gfDiv_def)

instantiation gf256 :: field
begin

definition zero_gf256 :: gf256 where
  "0 = GF 0"

definition one_gf256 :: gf256 where
  "1 = GF 1"

definition plus_gf256 :: "gf256 \<Rightarrow> gf256 \<Rightarrow> gf256" where
  "a + b = GF (gfAdd (gf_byte a) (gf_byte b))"

definition minus_gf256 :: "gf256 \<Rightarrow> gf256 \<Rightarrow> gf256" where
  "a - b = GF (gfAdd (gf_byte a) (gf_byte b))"

definition uminus_gf256 :: "gf256 \<Rightarrow> gf256" where
  "- a = a" for a :: gf256

definition times_gf256 :: "gf256 \<Rightarrow> gf256 \<Rightarrow> gf256" where
  "a * b = GF (gfMul (gf_byte a) (gf_byte b))"

definition inverse_gf256 :: "gf256 \<Rightarrow> gf256" where
  "inverse a = GF (gf_quot 1 (gf_byte a))"

definition divide_gf256 :: "gf256 \<Rightarrow> gf256 \<Rightarrow> gf256" where
  "a div b = GF (gfMul (gf_byte a) (gf_quot 1 (gf_byte b)))"

instance
proof
  fix a b c :: gf256
  note defs = zero_gf256_def one_gf256_def plus_gf256_def minus_gf256_def uminus_gf256_def
    times_gf256_def inverse_gf256_def divide_gf256_def gfAdd_def
  show "a + b + c = a + (b + c)"
    by (simp add: defs xor.assoc)
  show "a + b = b + a"
    by (simp add: defs xor.commute)
  show "0 + a = a"
    by (simp add: defs)
  show "- a + a = 0"
    by (simp add: defs)
  show "a - b = a + - b"
    by (simp add: defs)
  show "a * b * c = a * (b * c)"
    by (simp add: defs gfMul_assoc)
  show "a * b = b * a"
    by (simp add: defs gfMul_commute)
  show "1 * a = a"
    by (simp add: defs gfMul_1)
  show "(a + b) * c = a * c + b * c"
    by (simp add: defs gfMul_xor_right gfMul_commute [of _ "gf_byte c"])
  show "(0 :: gf256) \<noteq> 1"
    by (simp add: defs)
  show "inverse a * a = 1" if "a \<noteq> 0"
    using that by (cases a) (simp add: defs gf_quot_mul)
  show "a div b = a * inverse b"
    by (simp add: defs)
  show "inverse (0 :: gf256) = 0"
    by (simp add: defs)
qed

end

lemma gf_byte_hom:
  "gf_byte (a + b) = gfAdd (gf_byte a) (gf_byte b)"
  "gf_byte (a * b) = gfMul (gf_byte a) (gf_byte b)"
  by (simp_all add: plus_gf256_def times_gf256_def)

lemma gf_byte_0 [simp]: "gf_byte 0 = 0"
  by (simp add: zero_gf256_def)

lemma gf_byte_1 [simp]: "gf_byte 1 = 1"
  by (simp add: one_gf256_def)

lemma GF_add: "GF (gfAdd a b) = GF a + GF b"
  by (simp add: plus_gf256_def)

lemma GF_xor: "GF (a XOR b) = GF a + GF b"
  by (simp add: plus_gf256_def gfAdd_def)

lemma GF_mul: "GF (gfMul a b) = GF a * GF b"
  by (simp add: times_gf256_def)

lemma GF_0 [simp]: "GF 0 = 0" "GF a = 0 \<longleftrightarrow> a = 0"
  by (simp_all add: zero_gf256_def)

lemma GF_1 [simp]: "GF 1 = 1"
  by (simp add: one_gf256_def)

lemma gf256_minus_eq: "(a :: gf256) - b = a + b"
  by (simp add: plus_gf256_def minus_gf256_def)

lemma GF_quot: "GF (gf_quot a b) = GF a / GF b"
proof (cases "b = 0")
  case False
  then have "GF (gf_quot a b) * GF b = GF a"
    by (simp only: GF_mul [symmetric] gf_quot_mul [OF False])
  moreover have "GF b \<noteq> 0"
    using False by simp
  ultimately show ?thesis
    using nonzero_eq_divide_eq by blast
qed simp

lemmas gf_hom = GF_add GF_xor GF_mul GF_quot

section \<open>Properties\<close>

text \<open>
  C28. The table-driven products of both modules compute the product of polynomials over two elements
  modulo the field polynomial, for all bytes.
\<close>

theorem gf_products_agree:
  "gfMul a b = poly_mul a b \<and> gfMultiply (unat a) (unat b) = poly_mul a b"
  by (simp add: gfMul_eq_poly_mul gfMultiply_eq)

text \<open>
  Division and inversion are total on non-zero divisors, throw on zero, and invert the product;
  the inverse of the secret-sharing module is division of one by the byte in the erasure-coding
  module.
\<close>

theorem gf_division:
  "gfDiv a b = (if b = 0 then Inl (RangeError ''GF division by zero'') else Inr (gf_quot a b))
   \<and> gfInverse (unat b) = (if b = 0 then Inl (Error ''GF(256) division by zero'') else Inr (gf_quot 1 b))
   \<and> gfMul (gf_quot a b) b = (if b = 0 then 0 else a)"
proof (intro conjI)
  show "gfDiv a b = (if b = 0 then Inl (RangeError ''GF division by zero'') else Inr (gf_quot a b))"
    by (auto simp: gfDiv_quot) (simp add: gfDiv_def)
  show "gfInverse (unat b) = (if b = 0 then Inl (Error ''GF(256) division by zero'') else Inr (gf_quot 1 b))"
  proof (cases "b = 0")
    case True
    then show ?thesis by (simp add: gfInverse_def)
  next
    case False
    then show ?thesis using gfInverse_eq [of "unat b"] by (simp add: gfDiv_quot)
  qed
  show "gfMul (gf_quot a b) b = (if b = 0 then 0 else a)"
    by (simp add: gf_quot_mul)
qed

end
