(* ===== verification/GF_Matrix.thy ===== *)
theory GF_Matrix
  imports GF256 JS_Strings
begin

text \<open>
  The class \<^verbatim>\<open>GFMatrix\<close> of \<^verbatim>\<open>services/erasureCoding.service.ts\<close>: a matrix of bytes stored row by
  row in one typed array, with product, selection of rows and Gauss-Jordan inversion. Each loop of
  the source is a fold over its index range, each indexed store an update of the flat list.

  The first group of lemmas reads every loop as a pointwise equation on entries; the second shows
  that the row operations of the inversion preserve the linear relation between the two halves of
  the augmented matrix, so that inversion succeeds exactly on the injective matrices and then
  returns the inverse.
\<close>

unbundle bit_operations_syntax

section \<open>Definitions\<close>

record GFMatrix =
  rows :: nat
  cols :: nat
  data :: "byte list"

definition new_GFMatrix :: "nat \<Rightarrow> nat \<Rightarrow> GFMatrix" where
  "new_GFMatrix r c = \<lparr>rows = r, cols = c, data = replicate (r * c) 0\<rparr>"

text \<open>
  A read outside the array is \<^verbatim>\<open>undefined\<close>; in a product, a sum or a store it acts as zero. A store
  outside the array is ignored, as is the update of a list outside its length.
\<close>

definition mget :: "GFMatrix \<Rightarrow> nat \<Rightarrow> nat \<Rightarrow> byte" where
  "mget m r c = get0 (data m) (r * cols m + c)"

definition mset :: "GFMatrix \<Rightarrow> nat \<Rightarrow> nat \<Rightarrow> byte \<Rightarrow> GFMatrix" where
  "mset m r c v = m\<lparr>data := (data m)[r * cols m + c := v]\<rparr>"

definition clone :: "GFMatrix \<Rightarrow> GFMatrix" where
  "clone m = \<lparr>rows = rows m, cols = cols m, data = data m\<rparr>"

definition multiply :: "GFMatrix \<Rightarrow> GFMatrix \<Rightarrow> GFMatrix result" where
  "multiply m other =
     (if cols m \<noteq> rows other then Inl (RangeError (''Matrix dimension mismatch: ('' @ js_num (rows m) @ ''x'' @ js_num (cols m)
             @ '') x ('' @ js_num (rows other) @ ''x'' @ js_num (cols other) @ '')''))
      else Inr (fold (\<lambda>r res. fold (\<lambda>c res.
                  mset res r c (fold (\<lambda>k sum. gfAdd sum (gfMul (mget m r k) (mget other k c))) [0..<cols m] 0))
                [0..<cols other] res) [0..<rows m] (new_GFMatrix (rows m) (cols other))))"

definition subsetRows :: "GFMatrix \<Rightarrow> nat list \<Rightarrow> GFMatrix" where
  "subsetRows m rowIndices =
     fold (\<lambda>dstRow res. fold (\<lambda>c res. mset res dstRow c (mget m (rowIndices ! dstRow) c)) [0..<cols m] res)
       [0..<length rowIndices] (new_GFMatrix (length rowIndices) (cols m))"

text \<open>The phases of \<^verbatim>\<open>invert\<close>.\<close>

definition augment :: "GFMatrix \<Rightarrow> GFMatrix" where
  "augment m =
     (let n = rows m in
      fold (\<lambda>r aug. fold (\<lambda>c aug.
          mset (mset aug r c (mget m r c)) r (c + n) (if r = c then 1 else 0))
        [0..<n] aug) [0..<n] (new_GFMatrix n (n * 2)))"

definition findPivot :: "GFMatrix \<Rightarrow> nat \<Rightarrow> nat \<Rightarrow> nat option" where
  "findPivot aug n col = find (\<lambda>r. mget aug r col \<noteq> 0) [col..<n]"

definition swapRows :: "GFMatrix \<Rightarrow> nat \<Rightarrow> nat \<Rightarrow> nat \<Rightarrow> GFMatrix" where
  "swapRows aug w col pivotRow =
     (if pivotRow \<noteq> col
      then fold (\<lambda>c aug. let tmp = mget aug col c
                         in mset (mset aug col c (mget aug pivotRow c)) pivotRow c tmp) [0..<w] aug
      else aug)"

definition scaleRow :: "GFMatrix \<Rightarrow> nat \<Rightarrow> nat \<Rightarrow> GFMatrix result" where
  "scaleRow aug w col =
     (let scale = mget aug col col
      in foldE (\<lambda>c aug. bindE (gfDiv (mget aug col c) scale) (\<lambda>v. Inr (mset aug col c v))) [0..<w] aug)"

definition eliminateRow :: "nat \<Rightarrow> nat \<Rightarrow> nat \<Rightarrow> GFMatrix \<Rightarrow> GFMatrix" where
  "eliminateRow w col r aug =
     (if r = col then aug
      else let factor = mget aug r col
           in if factor = 0 then aug
              else fold (\<lambda>c aug. mset aug r c (gfAdd (mget aug r c) (gfMul factor (mget aug col c)))) [0..<w] aug)"

definition invert_col :: "nat \<Rightarrow> nat \<Rightarrow> GFMatrix \<Rightarrow> GFMatrix result" where
  "invert_col n col aug =
     (case findPivot aug n col of
        None \<Rightarrow> Inl (Error ''Matrix is singular - cannot invert'')
      | Some pivotRow \<Rightarrow>
          bindE (scaleRow (swapRows aug (n * 2) col pivotRow) (n * 2) col)
            (\<lambda>aug. Inr (fold (eliminateRow (n * 2) col) [0..<n] aug)))"

definition rightHalf :: "nat \<Rightarrow> GFMatrix \<Rightarrow> GFMatrix" where
  "rightHalf n aug =
     fold (\<lambda>r inv. fold (\<lambda>c inv. mset inv r c (mget aug r (c + n))) [0..<n] inv) [0..<n] (new_GFMatrix n n)"

definition invert :: "GFMatrix \<Rightarrow> GFMatrix result" where
  "invert m =
     (if rows m \<noteq> cols m then Inl (RangeError ''invert requires a square matrix'')
      else let n = rows m
           in bindE (foldE (invert_col n) [0..<n] (augment m)) (\<lambda>aug. Inr (rightHalf n aug)))"

section \<open>Entries\<close>

definition wf_matrix :: "GFMatrix \<Rightarrow> bool" where
  "wf_matrix m \<longleftrightarrow> length (data m) = rows m * cols m"

text \<open>The matrix over the field that a well-formed object denotes.\<close>

definition ent :: "GFMatrix \<Rightarrow> nat \<Rightarrow> nat \<Rightarrow> gf256" where
  "ent m r c = GF (mget m r c)"

lemma mget_ent: "mget m r c = gf_byte (ent m r c)"
  by (simp add: ent_def)

lemma mset_shape [simp]: "rows (mset m r c v) = rows m" "cols (mset m r c v) = cols m"
  "length (data (mset m r c v)) = length (data m)"
  by (simp_all add: mset_def)

lemma wf_mset [simp]: "wf_matrix (mset m r c v) = wf_matrix m"
  by (simp add: wf_matrix_def)

lemma new_GFMatrix_shape [simp]: "rows (new_GFMatrix r c) = r" "cols (new_GFMatrix r c) = c"
  "wf_matrix (new_GFMatrix r c)"
  by (simp_all add: new_GFMatrix_def wf_matrix_def)

lemma mget_new [simp]: "mget (new_GFMatrix r c) i j = 0"
  by (simp add: mget_def get0_def new_GFMatrix_def)

lemma flat_index_less: "r < R \<Longrightarrow> c < C \<Longrightarrow> r * C + c < R * (C :: nat)"
proof -
  assume "r < R" "c < C"
  then have "r * C + c < Suc r * C" by simp
  also have "\<dots> \<le> R * C"
    using \<open>r < R\<close> by (intro mult_le_mono1) simp
  finally show ?thesis .
qed

lemma flat_index_inj: "c < C \<Longrightarrow> c' < C \<Longrightarrow> r * C + c = r' * C + c' \<longleftrightarrow> r = r' \<and> c = (c' :: nat)"
proof -
  assume c: "c < C" "c' < C"
  have "r = r'" if "r * C + c = r' * C + c'"
    using arg_cong [OF that, of "\<lambda>i. i div C"] c by simp
  then show ?thesis by auto
qed

lemma mget_mset:
  assumes "wf_matrix m" "r < rows m" "c < cols m" "c' < cols m"
  shows "mget (mset m r c v) r' c' = (if r = r' \<and> c = c' then v else mget m r' c')"
  using assms flat_index_less [of r "rows m" c "cols m"] flat_index_inj [of c "cols m" c' r r']
  by (auto simp: mget_def mset_def get0_def wf_matrix_def)

lemma matrix_eqI:
  assumes "wf_matrix a" "wf_matrix b" "rows a = rows b" "cols a = cols b"
    and "\<And>r c. r < rows a \<Longrightarrow> c < cols a \<Longrightarrow> mget a r c = mget b r c"
  shows "a = (b :: GFMatrix)"
proof -
  have "data a ! i = data b ! i" if i: "i < rows a * cols a" for i
  proof -
    have "0 < cols a" using i by (cases "cols a") auto
    then have "i div cols a < rows a" "i mod cols a < cols a" "(i div cols a) * cols a + i mod cols a = i"
      using i by (simp_all add: less_mult_imp_div_less)
    then show ?thesis
      using assms(5) [of "i div cols a" "i mod cols a"] assms(1-4) i
      by (simp add: mget_def wf_matrix_def)
  qed
  then have "data a = data b"
    using assms(1-4) by (intro nth_equalityI) (auto simp: wf_matrix_def)
  with assms(3,4) show ?thesis by (cases a; cases b) auto
qed

text \<open>
  A loop that writes, for each index of its range, one cell of a row with a value computed from the
  original matrix has the expected entries. \<open>touch\<close> is the shape-preservation part.
\<close>

definition same_shape :: "GFMatrix \<Rightarrow> GFMatrix \<Rightarrow> bool" where
  "same_shape a b \<longleftrightarrow> wf_matrix a = wf_matrix b \<and> rows a = rows b \<and> cols a = cols b"

lemma same_shape_refl [simp]: "same_shape a a"
  by (simp add: same_shape_def)

lemma same_shape_trans: "same_shape a b \<Longrightarrow> same_shape b c \<Longrightarrow> same_shape a c"
  by (auto simp: same_shape_def)

lemma same_shape_mset [simp]: "same_shape (mset m r c v) m' = same_shape m m'"
  by (auto simp: same_shape_def)

lemma same_shape_fold: "(\<And>x s. same_shape (f x s) s) \<Longrightarrow> same_shape (fold f xs m) m"
  by (induction xs arbitrary: m) (auto intro: same_shape_trans)

text \<open>One row, written left to right.\<close>

lemma row_loop:
  assumes m: "wf_matrix m" and r: "r < rows m" and w: "w \<le> cols m"
    and body: "\<And>c t. c < w \<Longrightarrow> same_shape t m \<Longrightarrow>
        (\<And>i j. j < cols m \<Longrightarrow> mget t i j = (if i = r \<and> j < c then g j else mget m i j)) \<Longrightarrow>
        f c t = mset t r c (g c)"
  shows "same_shape (fold f [0..<w] m) m \<and>
    (\<forall>i j. j < cols m \<longrightarrow> mget (fold f [0..<w] m) i j = (if i = r \<and> j < w then g j else mget m i j))"
proof (rule fold_upt_induct [where P = "\<lambda>c t. same_shape t m \<and>
    (\<forall>i j. j < cols m \<longrightarrow> mget t i j = (if i = r \<and> j < c then g j else mget m i j))"])
  fix c t
  assume c: "c < w" and t: "same_shape t m \<and>
    (\<forall>i j. j < cols m \<longrightarrow> mget t i j = (if i = r \<and> j < c then g j else mget m i j))"
  then have "f c t = mset t r c (g c)"
    using body by blast
  moreover have "wf_matrix t" "rows t = rows m" "cols t = cols m"
    using t m by (auto simp: same_shape_def)
  ultimately show "same_shape (f c t) m \<and>
    (\<forall>i j. j < cols m \<longrightarrow> mget (f c t) i j = (if i = r \<and> j < Suc c then g j else mget m i j))"
    using t c r w by (auto simp: mget_mset)
qed simp

text \<open>A whole matrix, written row by row.\<close>

lemma matrix_loop:
  assumes m: "wf_matrix m"
    and body: "\<And>r t. r < rows m \<Longrightarrow> wf_matrix t \<Longrightarrow> rows t = rows m \<Longrightarrow> cols t = cols m \<Longrightarrow>
        same_shape (f r t) t \<and> (\<forall>i j. j < cols m \<longrightarrow> mget (f r t) i j = (if i = r then g r j else mget t i j))"
  shows "same_shape (fold f [0..<rows m] m) m \<and>
    (\<forall>i j. i < rows m \<longrightarrow> j < cols m \<longrightarrow> mget (fold f [0..<rows m] m) i j = g i j)"
proof -
  let ?P = "\<lambda>k t. same_shape t m \<and> (\<forall>i j. i < k \<longrightarrow> j < cols m \<longrightarrow> mget t i j = g i j)"
  have "?P (rows m) (fold f [0..<rows m] m)"
  proof (rule fold_upt_induct [where P = ?P])
    fix r t
    assume r: "r < rows m" and t: "?P r t"
    then have "wf_matrix t" "rows t = rows m" "cols t = cols m"
      using m by (auto simp: same_shape_def)
    from body [OF r this] t show "?P (Suc r) (f r t)"
      by (auto simp: less_Suc_eq dest: same_shape_trans)
  qed simp
  then show ?thesis by blast
qed

lemma fill_loop:
  assumes "wf_matrix m" and "f = (\<lambda>r t. fold (\<lambda>c t. mset t r c (g r c)) [0..<cols m] t)"
  shows "same_shape (fold f [0..<rows m] m) m \<and>
    (\<forall>i j. i < rows m \<longrightarrow> j < cols m \<longrightarrow> mget (fold f [0..<rows m] m) i j = g i j)"
proof (rule matrix_loop [OF assms(1)])
  fix r t
  assume "r < rows m" "wf_matrix t" "rows t = rows m" "cols t = cols m"
  with row_loop [of t r "cols m" "g r" "\<lambda>c t. mset t r c (g r c)"]
  show "same_shape (f r t) t \<and> (\<forall>i j. j < cols m \<longrightarrow> mget (f r t) i j = (if i = r then g r j else mget t i j))"
    by (auto simp: assms(2))
qed


section \<open>Products and selections\<close>

lemma same_shapeD: "same_shape a b \<Longrightarrow> wf_matrix b \<Longrightarrow> wf_matrix a \<and> rows a = rows b \<and> cols a = cols b"
  by (auto simp: same_shape_def)

lemma GF_fold_dot: "GF (fold (\<lambda>k s. gfAdd s (gfMul (f k) (g k))) [0..<n] s0) = GF s0 + (\<Sum>k<n. GF (f k) * GF (g k))"
  by (induction n) (simp_all add: GF_add GF_mul ac_simps)

lemma multiply_spec:
  assumes "cols a = rows b"
  obtains p where "multiply a b = Inr p" "wf_matrix p" "rows p = rows a" "cols p = cols b"
    "\<And>r c. r < rows a \<Longrightarrow> c < cols b \<Longrightarrow> ent p r c = (\<Sum>k<cols a. ent a r k * ent b k c)"
proof -
  let ?g = "\<lambda>r c. fold (\<lambda>k sum. gfAdd sum (gfMul (mget a r k) (mget b k c))) [0..<cols a] 0"
  let ?p = "fold (\<lambda>r res. fold (\<lambda>c res. mset res r c (?g r c)) [0..<cols b] res) [0..<rows a]
    (new_GFMatrix (rows a) (cols b))"
  have "same_shape ?p (new_GFMatrix (rows a) (cols b)) \<and>
    (\<forall>i j. i < rows a \<longrightarrow> j < cols b \<longrightarrow> mget ?p i j = ?g i j)"
    using fill_loop [of "new_GFMatrix (rows a) (cols b)" _ ?g] by simp
  moreover have "multiply a b = Inr ?p"
    using assms by (simp add: multiply_def)
  ultimately show thesis
    by (intro that [of ?p]) (auto simp: ent_def GF_fold_dot dest: same_shapeD)
qed

lemma subsetRows_spec:
  "wf_matrix (subsetRows m is)" "rows (subsetRows m is) = length is" "cols (subsetRows m is) = cols m"
  "r < length is \<Longrightarrow> c < cols m \<Longrightarrow> mget (subsetRows m is) r c = mget m (is ! r) c"
proof -
  have "same_shape (subsetRows m is) (new_GFMatrix (length is) (cols m)) \<and>
    (\<forall>i j. i < length is \<longrightarrow> j < cols m \<longrightarrow> mget (subsetRows m is) i j = mget m (is ! i) j)"
    using fill_loop [of "new_GFMatrix (length is) (cols m)" _ "\<lambda>r c. mget m (is ! r) c"]
    by (simp add: subsetRows_def)
  then show "wf_matrix (subsetRows m is)" "rows (subsetRows m is) = length is"
    "cols (subsetRows m is) = cols m"
    "r < length is \<Longrightarrow> c < cols m \<Longrightarrow> mget (subsetRows m is) r c = mget m (is ! r) c"
    by (auto dest: same_shapeD)
qed

section \<open>Phases of the inversion\<close>

lemma augment_row:
  assumes "wf_matrix t" "r < rows t" "cols t = n * 2"
  shows "same_shape (fold (\<lambda>c aug. mset (mset aug r c (f c)) r (c + n) (g c)) [0..<n] t) t \<and>
    (\<forall>i j. j < n * 2 \<longrightarrow> mget (fold (\<lambda>c aug. mset (mset aug r c (f c)) r (c + n) (g c)) [0..<n] t) i j =
       (if i = r then if j < n then f j else g (j - n) else mget t i j))"
proof -
  let ?P = "\<lambda>k u. same_shape u t \<and> (\<forall>i j. j < n * 2 \<longrightarrow> mget u i j =
      (if i = r \<and> j < k then f j else if i = r \<and> n \<le> j \<and> j < n + k then g (j - n) else mget t i j))"
  have "?P n (fold (\<lambda>c aug. mset (mset aug r c (f c)) r (c + n) (g c)) [0..<n] t)"
  proof (rule fold_upt_induct [where P = ?P])
    fix c u
    assume c: "c < n" and u: "?P c u"
    then have "wf_matrix u" "rows u = rows t" "cols u = n * 2"
      using assms by (auto simp: same_shape_def)
    with c u assms show "?P (Suc c) (mset (mset u r c (f c)) r (c + n) (g c))"
      by (auto simp: mget_mset)
  qed auto
  then show ?thesis by auto
qed

lemma augment_spec:
  fixes m
  defines "n \<equiv> rows m"
  shows "wf_matrix (augment m)" "rows (augment m) = n" "cols (augment m) = n * 2"
    "r < n \<Longrightarrow> c < n * 2 \<Longrightarrow>
       mget (augment m) r c = (if c < n then mget m r c else if r = c - n then 1 else 0)"
proof -
  let ?N = "new_GFMatrix n (n * 2)"
  let ?g = "\<lambda>r c. if c < n then mget m r c else if r = c - n then 1 else 0"
  have "same_shape (augment m) ?N \<and> (\<forall>i j. i < rows ?N \<longrightarrow> j < cols ?N \<longrightarrow> mget (augment m) i j = ?g i j)"
    unfolding augment_def Let_def n_def [symmetric]
  proof (subst (1 2) new_GFMatrix_shape(1) [of n "n * 2", symmetric], rule matrix_loop)
    show "wf_matrix ?N" by simp
    fix r t
    assume r: "r < rows ?N" "wf_matrix t" "rows t = rows ?N" "cols t = cols ?N"
    then show "same_shape (fold (\<lambda>c aug. mset (mset aug r c (mget m r c)) r (c + n) (if r = c then 1 else 0))
        [0..<n] t) t \<and> (\<forall>i j. j < cols ?N \<longrightarrow> mget (fold (\<lambda>c aug. mset (mset aug r c (mget m r c)) r (c + n)
          (if r = c then 1 else 0)) [0..<n] t) i j = (if i = r then ?g r j else mget t i j))"
      using augment_row [of t r n "mget m r" "\<lambda>c. if r = c then 1 else 0"] by simp
  qed
  then show "wf_matrix (augment m)" "rows (augment m) = n" "cols (augment m) = n * 2"
    "r < n \<Longrightarrow> c < n * 2 \<Longrightarrow>
       mget (augment m) r c = (if c < n then mget m r c else if r = c - n then 1 else 0)"
    by (auto dest: same_shapeD)
qed

lemma swapRows_spec:
  assumes "wf_matrix m" "a < rows m" "b < rows m" "w = cols m"
  shows "same_shape (swapRows m w a b) m \<and>
    (\<forall>i j. j < w \<longrightarrow> mget (swapRows m w a b) i j = mget m (if i = a then b else if i = b then a else i) j)"
proof (cases "b = a")
  case False
  let ?f = "\<lambda>c aug. mset (mset aug a c (mget aug b c)) b c (mget aug a c)"
  let ?P = "\<lambda>k u. same_shape u m \<and> (\<forall>i j. j < w \<longrightarrow> mget u i j =
      (if j < k then mget m (if i = a then b else if i = b then a else i) j else mget m i j))"
  have "?P w (fold ?f [0..<w] m)"
  proof (rule fold_upt_induct [where P = ?P])
    fix c u
    assume c: "c < w" and u: "?P c u"
    then have "wf_matrix u" "rows u = rows m" "cols u = w"
      using assms by (auto simp: same_shape_def)
    with c u assms False show "?P (Suc c) (?f c u)"
      by (auto simp: mget_mset less_Suc_eq)
  qed simp
  with False show ?thesis
    by (auto simp: swapRows_def Let_def)
qed (auto simp: swapRows_def)

lemma scaleRow_spec:
  assumes "wf_matrix m" "col < rows m" "w = cols m" and s: "mget m col col \<noteq> 0"
  obtains m' where "scaleRow m w col = Inr m'" "same_shape m' m"
    "\<And>i j. j < w \<Longrightarrow> ent m' i j = (if i = col then ent m col j / ent m col col else ent m i j)"
proof -
  let ?s = "mget m col col"
  let ?f = "\<lambda>c aug. mset aug col c (gf_quot (mget aug col c) ?s)"
  have "scaleRow m w col = Inr (fold ?f [0..<w] m)"
    unfolding scaleRow_def Let_def
    by (rule foldE_Inr [where P = "\<lambda>_. True"]) (simp_all add: gfDiv_quot [OF s])
  moreover have "same_shape (fold ?f [0..<w] m) m \<and> (\<forall>i j. j < cols m \<longrightarrow>
      mget (fold ?f [0..<w] m) i j = (if i = col \<and> j < w then gf_quot (mget m col j) ?s else mget m i j))"
    using assms by (intro row_loop) auto
  ultimately show thesis
    using that [of "fold ?f [0..<w] m"] assms(3) by (auto simp: ent_def GF_quot)
qed

lemma eliminateRow_spec:
  assumes "wf_matrix m" "r < rows m" "w = cols m" "col < w" "r \<noteq> col"
  shows "same_shape (eliminateRow w col r m) m \<and>
    (\<forall>i j. j < w \<longrightarrow> ent (eliminateRow w col r m) i j =
      (if i = r then ent m r j + ent m r col * ent m col j else ent m i j))"
proof (cases "mget m r col = 0")
  case True
  then show ?thesis
    by (auto simp: eliminateRow_def ent_def)
next
  case False
  let ?f = "\<lambda>c t. mset t r c (gfAdd (mget t r c) (gfMul (mget m r col) (mget t col c)))"
  have "same_shape (fold ?f [0..<w] m) m \<and> (\<forall>i j. j < cols m \<longrightarrow> mget (fold ?f [0..<w] m) i j =
      (if i = r \<and> j < w then gfAdd (mget m r j) (gfMul (mget m r col) (mget m col j)) else mget m i j))"
    using assms by (intro row_loop) auto
  with False assms show ?thesis
    by (auto simp: eliminateRow_def Let_def ent_def gf_hom)
qed

lemma eliminate_spec:
  assumes m: "wf_matrix m" "w = cols m" "col < w" and n: "n = rows m" "col < n"
  shows "same_shape (fold (eliminateRow w col) [0..<n] m) m \<and>
    (\<forall>i j. i < n \<longrightarrow> j < w \<longrightarrow> ent (fold (eliminateRow w col) [0..<n] m) i j =
      (if i = col then ent m i j else ent m i j + ent m i col * ent m col j))"
proof -
  let ?P = "\<lambda>k u. same_shape u m \<and> (\<forall>i j. i < n \<longrightarrow> j < w \<longrightarrow> ent u i j =
      (if i < k \<and> i \<noteq> col then ent m i j + ent m i col * ent m col j else ent m i j))"
  have "?P n (fold (eliminateRow w col) [0..<n] m)"
  proof (rule fold_upt_induct [where P = ?P])
    fix r u
    assume r: "r < n" and u: "?P r u"
    then have sh: "wf_matrix u" "rows u = rows m" "cols u = cols m"
      using m by (auto simp: same_shape_def)
    show "?P (Suc r) (eliminateRow w col r u)"
    proof (cases "r = col")
      case True
      with u show ?thesis by (auto simp: eliminateRow_def)
    next
      case False
      then have "same_shape (eliminateRow w col r u) u \<and> (\<forall>i j. j < w \<longrightarrow> ent (eliminateRow w col r u) i j =
          (if i = r then ent u r j + ent u r col * ent u col j else ent u i j))"
        using r sh m n by (intro eliminateRow_spec) auto
      with u r m n False show ?thesis
        by (auto simp: less_Suc_eq dest: same_shape_trans)
    qed
  qed simp
  then show ?thesis by auto
qed


lemma rightHalf_spec:
  "wf_matrix (rightHalf n aug)" "rows (rightHalf n aug) = n" "cols (rightHalf n aug) = n"
  "r < n \<Longrightarrow> c < n \<Longrightarrow> mget (rightHalf n aug) r c = mget aug r (c + n)"
proof -
  have "same_shape (rightHalf n aug) (new_GFMatrix n n) \<and>
    (\<forall>i j. i < n \<longrightarrow> j < n \<longrightarrow> mget (rightHalf n aug) i j = mget aug i (j + n))"
    using fill_loop [of "new_GFMatrix n n" _ "\<lambda>r c. mget aug r (c + n)"] by (simp add: rightHalf_def)
  then show "wf_matrix (rightHalf n aug)" "rows (rightHalf n aug) = n" "cols (rightHalf n aug) = n"
    "r < n \<Longrightarrow> c < n \<Longrightarrow> mget (rightHalf n aug) r c = mget aug r (c + n)"
    by (auto dest: same_shapeD)
qed

section \<open>Linear maps of the matrices\<close>

text \<open>\<open>dot m k r v\<close> is the product of the first \<open>k\<close> entries of row \<open>r\<close> with the vector \<open>v\<close>.\<close>

definition dot :: "GFMatrix \<Rightarrow> nat \<Rightarrow> nat \<Rightarrow> (nat \<Rightarrow> gf256) \<Rightarrow> gf256" where
  "dot m k r v = (\<Sum>c<k. ent m r c * v c)"

definition injective :: "nat \<Rightarrow> GFMatrix \<Rightarrow> bool" where
  "injective n m \<longleftrightarrow> (\<forall>v. (\<forall>r<n. dot m n r v = 0) \<longrightarrow> (\<forall>c<n. v c = 0))"

lemma dot_cong: "(\<And>c. c < k \<Longrightarrow> ent m r c = ent m' r' c) \<Longrightarrow> dot m k r v = dot m' k r' v"
  by (simp add: dot_def)

lemma dot_quot: "(\<And>c. c < k \<Longrightarrow> ent m' r' c = ent m r c / s) \<Longrightarrow> dot m' k r' v = dot m k r v / s"
  by (simp add: dot_def sum_divide_distrib)

lemma dot_add: "(\<And>c. c < k \<Longrightarrow> ent m' r' c = ent m r c + f * ent m q c) \<Longrightarrow>
    dot m' k r' v = dot m k r v + f * dot m k q v"
  by (simp add: dot_def sum.distrib sum_distrib_left algebra_simps)

text \<open>
  The solution set of the rows is the same before and after one column is processed: the rows of
  the result are combinations of the rows of the argument and conversely. It is stated for every
  prefix width, so that it applies to the left half and to the whole augmented matrix.
\<close>

definition same_kernel :: "nat \<Rightarrow> nat \<Rightarrow> GFMatrix \<Rightarrow> GFMatrix \<Rightarrow> bool" where
  "same_kernel n k a b \<longleftrightarrow> (\<forall>v. (\<forall>r<n. dot a k r v = 0) \<longleftrightarrow> (\<forall>r<n. dot b k r v = 0))"

lemma same_kernel_trans: "same_kernel n k a b \<Longrightarrow> same_kernel n k b c \<Longrightarrow> same_kernel n k a c"
  by (simp add: same_kernel_def)

lemma swap_kernel:
  assumes "wf_matrix m" "rows m = n" "a < n" "b < n" "k \<le> cols m"
  shows "same_kernel n k (swapRows m (cols m) a b) m"
proof -
  define \<pi> where "\<pi> i = (if i = a then b else if i = b then a else i)" for i
  have inv: "\<pi> (\<pi> i) = i" and bound: "i < n \<Longrightarrow> \<pi> i < n" for i
    using assms by (auto simp: \<pi>_def)
  have "dot (swapRows m (cols m) a b) k r v = dot m k (\<pi> r) v" for r v
    using swapRows_spec [of m a b "cols m"] assms by (intro dot_cong) (simp add: ent_def \<pi>_def)
  then show ?thesis
    unfolding same_kernel_def using inv bound by metis
qed

lemma scale_kernel:
  assumes "s \<noteq> 0" "k \<le> w"
    and ent: "\<And>i j. j < w \<Longrightarrow> ent b i j = (if i = col then ent a col j / s else ent a i j)"
  shows "same_kernel n k b a"
proof -
  have "dot b k r v = (if r = col then dot a k col v / s else dot a k r v)" for r v
    using ent assms(2) by (auto intro!: dot_cong dot_quot)
  then show ?thesis
    using assms(1) by (auto simp: same_kernel_def split: if_splits)
qed

lemma eliminate_kernel:
  assumes "k \<le> w" "col < n"
    and ent: "\<And>i j. i < n \<Longrightarrow> j < w \<Longrightarrow>
      ent b i j = (if i = col then ent a i j else ent a i j + ent a i col * ent a col j)"
  shows "same_kernel n k b a"
proof -
  have d: "dot b k r v = (if r = col then dot a k r v else dot a k r v + ent a r col * dot a k col v)"
    if "r < n" for r v
    using ent [OF that] assms(1) by (auto intro!: dot_cong dot_add)
  show ?thesis
    unfolding same_kernel_def
  proof (intro allI iffI impI)
    fix v r
    assume z: "\<forall>r<n. dot b k r v = 0" and r: "r < n"
    then have "dot a k col v = 0"
      using d [of col v] assms(2) by simp
    with z r show "dot a k r v = 0"
      using d [of r v] by (auto split: if_splits)
  qed (use d assms(2) in auto)
qed

text \<open>\<open>unit_col m n c\<close>: column \<open>c\<close> is the \<open>c\<close>-th unit vector.\<close>

definition unit_col :: "GFMatrix \<Rightarrow> nat \<Rightarrow> nat \<Rightarrow> bool" where
  "unit_col m n c \<longleftrightarrow> (\<forall>r<n. ent m r c = (if r = c then 1 else 0))"

lemma invert_col_spec:
  assumes m: "wf_matrix m" "rows m = n" "cols m = n * 2" "col < n"
    and p: "findPivot m n col = Some p"
  obtains m' where "invert_col n col m = Inr m'" "same_shape m' m"
    "\<And>k. k \<le> n * 2 \<Longrightarrow> same_kernel n k m' m"
    "unit_col m' n col" "\<And>c. c < col \<Longrightarrow> unit_col m n c \<Longrightarrow> unit_col m' n c"
proof -
  from p have pr: "col \<le> p" "p < n" "mget m p col \<noteq> 0"
    by (auto simp: findPivot_def find_Some_iff)
  define a where "a = swapRows m (n * 2) col p"
  have a: "same_shape a m" "\<And>i j. j < n * 2 \<Longrightarrow> ent a i j = ent m (if i = col then p else if i = p then col else i) j"
    using swapRows_spec [of m col p "n * 2"] m pr by (auto simp: a_def ent_def)
  have a_sh: "wf_matrix a" "col < rows a" "n * 2 = cols a"
    using a(1) m by (auto simp: same_shape_def)
  have a_p: "ent a col col \<noteq> 0"
    using a(2) [of col col] m(4) pr by (simp add: ent_def)
  then have "mget a col col \<noteq> 0"
    by (simp add: ent_def)
  from scaleRow_spec [OF a_sh this] obtain b where b: "scaleRow a (n * 2) col = Inr b" "same_shape b a"
    and b_ent: "\<And>i j. j < n * 2 \<Longrightarrow> ent b i j = (if i = col then ent a col j / ent a col col else ent a i j)"
    by blast
  have b_sh: "wf_matrix b" "n * 2 = cols b" "col < n * 2" "n = rows b" "col < n"
    using a b(2) a_sh m by (auto simp: same_shape_def)
  define m' where "m' = fold (eliminateRow (n * 2) col) [0..<n] b"
  have m': "same_shape m' b" and m'_ent: "\<And>i j. i < n \<Longrightarrow> j < n * 2 \<Longrightarrow> ent m' i j =
      (if i = col then ent b i j else ent b i j + ent b i col * ent b col j)"
    using eliminate_spec [OF b_sh] by (auto simp: m'_def)
  show thesis
  proof (rule that [of m'])
    show "invert_col n col m = Inr m'"
      using b by (simp add: invert_col_def p m'_def a_def)
    show "same_shape m' m"
      using m' b(2) a(1) by (blast intro: same_shape_trans)
    show "same_kernel n k m' m" if k: "k \<le> n * 2" for k
      using eliminate_kernel [OF k m(4) m'_ent] scale_kernel [OF a_p k b_ent]
        swap_kernel [of m n col p k] m pr k by (auto simp: a_def intro: same_kernel_trans)
    have "ent b col col = 1"
      using b_ent [of col col] m(4) a_p by simp
    then show "unit_col m' n col"
      using m'_ent m(4) by (auto simp: unit_col_def simp flip: gf256_minus_eq)
    show "unit_col m' n c" if "c < col" "unit_col m n c" for c
    proof -
      have c: "c < n * 2" using that m(4) by simp
      have "ent a i c = (if i = c then 1 else 0)" if "i < n" for i
        using a(2) [OF c, of i] \<open>c < col\<close> \<open>unit_col m n c\<close> m(4) pr that by (auto simp: unit_col_def)
      then have "ent b i c = (if i = c then 1 else 0)" if "i < n" for i
        using b_ent [OF c, of i] that \<open>c < col\<close> m(4) by auto
      then show ?thesis
        using m'_ent [OF _ c] \<open>c < col\<close> m(4) by (auto simp: unit_col_def)
    qed
  qed
qed

section \<open>The inversion\<close>

lemma no_pivot_not_injective:
  assumes "col < n" and unit: "\<And>c. c < col \<Longrightarrow> unit_col m n c" and none: "findPivot m n col = None"
  shows "\<not> injective n m"
proof -
  define v where "v c = (if c = col then 1 else if c < col then ent m c col else 0)" for c
  have below: "ent m r col = 0" if "col \<le> r" "r < n" for r
    using none that by (auto simp: findPivot_def find_None_iff ent_def)
  have "dot m n r v = 0" if r: "r < n" for r
  proof -
    have "dot m n r v = (\<Sum>c<Suc col. ent m r c * v c)"
      unfolding dot_def using assms(1) by (intro sum.mono_neutral_right) (auto simp: v_def)
    also have "\<dots> = (\<Sum>c<col. ent m r c * v c) + ent m r col"
      by (simp add: v_def)
    also have "(\<Sum>c<col. ent m r c * v c) = (\<Sum>c<col. if c = r then ent m r col else 0)"
      using unit r by (intro sum.cong) (auto simp: v_def unit_col_def)
    also have "\<dots> + ent m r col = (if r < col then ent m r col else 0) + ent m r col"
      by simp
    also have "\<dots> = 0"
      using below [OF _ r] by (cases "r < col") (simp_all flip: gf256_minus_eq)
    finally show ?thesis .
  qed
  moreover have "v col \<noteq> 0"
    by (simp add: v_def)
  ultimately show ?thesis
    using assms(1) by (auto simp: injective_def)
qed

lemma injective_kernel: "same_kernel n n a b \<Longrightarrow> injective n a = injective n b"
  by (simp add: injective_def same_kernel_def)

definition gauss_inv :: "nat \<Rightarrow> GFMatrix \<Rightarrow> nat \<Rightarrow> GFMatrix \<Rightarrow> bool" where
  "gauss_inv n m k aug \<longleftrightarrow> wf_matrix aug \<and> rows aug = n \<and> cols aug = n * 2 \<and>
     (\<forall>w \<le> n * 2. same_kernel n w aug (augment m)) \<and> (\<forall>c<k. unit_col aug n c)"

lemma injective_augment: "rows m = n \<Longrightarrow> injective n (augment m) = injective n m"
  unfolding injective_def
  by (intro all_cong1 imp_cong iffI allI impI) (auto simp: dot_def ent_def augment_spec)

lemma invert_loop:
  assumes "rows m = n" "k \<le> n"
  shows "(\<exists>aug. foldE (invert_col n) [0..<k] (augment m) = Inr aug \<and> gauss_inv n m k aug) \<or>
    (foldE (invert_col n) [0..<k] (augment m) = Inl (Error ''Matrix is singular - cannot invert'') \<and> \<not> injective n m)"
  using assms(2)
proof (induction k)
  case 0
  then show ?case
    using assms(1) by (auto simp: gauss_inv_def augment_spec same_kernel_def)
next
  case (Suc k)
  from Suc.IH consider (ok) aug where
      "foldE (invert_col n) [0..<k] (augment m) = Inr aug" "gauss_inv n m k aug"
    | (fail) "foldE (invert_col n) [0..<k] (augment m) = Inl (Error ''Matrix is singular - cannot invert'')"
      "\<not> injective n m"
    using Suc.prems by auto
  then show ?case
  proof cases
    case ok
    then have aug: "wf_matrix aug" "rows aug = n" "cols aug = n * 2" "k < n"
      and ker: "\<And>w. w \<le> n * 2 \<Longrightarrow> same_kernel n w aug (augment m)"
      and unit: "\<And>c. c < k \<Longrightarrow> unit_col aug n c"
      using Suc.prems by (auto simp: gauss_inv_def)
    show ?thesis
    proof (cases "findPivot aug n k")
      case None
      have "\<not> injective n aug"
        by (rule no_pivot_not_injective [OF aug(4) unit None])
      then have "\<not> injective n m"
        using injective_kernel [OF ker [of n]] injective_augment [OF assms(1)] by simp
      moreover have "invert_col n k aug = Inl (Error ''Matrix is singular - cannot invert'')"
        by (simp add: invert_col_def None)
      ultimately show ?thesis
        using ok(1) by (simp add: foldE_append)
    next
      case (Some p)
      from invert_col_spec [OF aug Some] obtain m' where m': "invert_col n k aug = Inr m'"
        "same_shape m' aug" "\<And>w. w \<le> n * 2 \<Longrightarrow> same_kernel n w m' aug"
        "unit_col m' n k" "\<And>c. c < k \<Longrightarrow> unit_col aug n c \<Longrightarrow> unit_col m' n c"
        by blast
      have "gauss_inv n m (Suc k) m'"
        using m'(2-5) aug ker unit
        by (auto simp: gauss_inv_def less_Suc_eq same_shape_def intro: same_kernel_trans)
      then show ?thesis
        using m'(1) ok(1) by (simp add: foldE_append)
    qed
  qed (simp add: foldE_append)
qed

lemma sum_double: "(\<Sum>c<n * 2. f c) = (\<Sum>c<n. f c) + (\<Sum>c<n. f (c + n :: nat) :: 'a::comm_monoid_add)"
proof -
  have "(\<Sum>c<n * 2. f c) = (\<Sum>c\<in>{..<n} \<union> {n..<n + n}. f c)"
    by (rule sum.cong) auto
  also have "\<dots> = (\<Sum>c<n. f c) + (\<Sum>c\<in>{n..<n + n}. f c)"
    by (rule sum.union_disjoint) auto
  also have "(\<Sum>c\<in>{n..<n + n}. f c) = (\<Sum>c<n. f (c + n))"
    using sum.shift_bounds_nat_ivl [of f 0 n n] by (simp add: atLeast0LessThan)
  finally show ?thesis .
qed

lemma gauss_inverse:
  assumes "gauss_inv n m n aug" "rows m = n" "r < n"
  shows "(\<Sum>k<n. ent aug r (k + n) * dot m n k v) = v r"
proof -
  define u where "u c = (if c < n then v c else dot m n (c - n) v)" for c
  have "dot (augment m) (n * 2) i u = 0" if i: "i < n" for i
  proof -
    have "dot (augment m) (n * 2) i u = dot m n i v + (\<Sum>c<n. if c = i then dot m n c v else 0)"
      unfolding dot_def sum_double using i assms(2)
      by (intro arg_cong2 [where f = plus] sum.cong) (auto simp: ent_def augment_spec u_def dot_def)
    with i show ?thesis by (simp flip: gf256_minus_eq)
  qed
  then have "dot aug (n * 2) r u = 0"
    using assms by (auto simp: gauss_inv_def same_kernel_def)
  moreover have "dot aug (n * 2) r u = (\<Sum>c<n. if c = r then v c else 0) + (\<Sum>k<n. ent aug r (k + n) * dot m n k v)"
    unfolding dot_def [of aug] sum_double using assms
    by (intro arg_cong2 [where f = plus] sum.cong) (auto simp: gauss_inv_def unit_col_def u_def)
  ultimately show ?thesis
    using assms(3) by (simp add: gf256_minus_eq [symmetric])
qed

lemma gauss_right_inverse:
  assumes "gauss_inv n m n aug" "rows m = n" "r < n"
  shows "dot m n r (\<lambda>i. \<Sum>k<n. ent aug i (k + n) * w k) = w r"
proof -
  define v where "v i = (\<Sum>k<n. ent aug i (k + n) * w k)" for i
  define u where "u c = (if c < n then v c else w (c - n))" for c
  have "dot aug (n * 2) i u = 0" if i: "i < n" for i
  proof -
    have "dot aug (n * 2) i u = (\<Sum>c<n. if c = i then v c else 0) + v i"
      unfolding dot_def sum_double v_def [of i] using i assms
      by (intro arg_cong2 [where f = plus] sum.cong) (auto simp: gauss_inv_def unit_col_def u_def)
    with i show ?thesis by (simp flip: gf256_minus_eq)
  qed
  moreover have "same_kernel n (n * 2) aug (augment m)"
    using assms(1) by (simp add: gauss_inv_def)
  ultimately have "dot (augment m) (n * 2) r u = 0"
    using assms(3) unfolding same_kernel_def by blast
  moreover have "dot (augment m) (n * 2) r u = dot m n r v + (\<Sum>c<n. if c = r then w c else 0)"
    unfolding dot_def sum_double using assms
    by (intro arg_cong2 [where f = plus] sum.cong) (auto simp: ent_def augment_spec u_def)
  ultimately show ?thesis
    using assms(3) by (simp add: gf256_minus_eq [symmetric] v_def [abs_def])
qed

theorem invert_inverse:
  assumes m: "rows m = n" "cols m = n" and inv: "invert m = Inr mi"
  shows "wf_matrix mi" "rows mi = n" "cols mi = n"
    "\<And>v r. r < n \<Longrightarrow> (\<Sum>k<n. ent mi r k * dot m n k v) = v r"
    "\<And>w r. r < n \<Longrightarrow> dot m n r (\<lambda>i. \<Sum>k<n. ent mi i k * w k) = w r"
proof -
  from inv m obtain aug where "foldE (invert_col n) [0..<n] (augment m) = Inr aug" "mi = rightHalf n aug"
    by (auto simp: invert_def bindE_eq_Inr)
  with invert_loop [OF m(1), of n] have g: "gauss_inv n m n aug" and mi_eq: "mi = rightHalf n aug"
    by auto
  show "wf_matrix mi" "rows mi = n" "cols mi = n"
    by (simp_all add: mi_eq rightHalf_spec)
  have e: "ent mi r k = ent aug r (k + n)" if "r < n" "k < n" for r k
    using that by (simp add: mi_eq ent_def rightHalf_spec)
  show "(\<Sum>k<n. ent mi r k * dot m n k v) = v r" if "r < n" for v r
    using gauss_inverse [OF g m(1) that, of v] that by (simp add: e)
  have "dot m n r (\<lambda>i. \<Sum>k<n. ent mi i k * w k) = dot m n r (\<lambda>i. \<Sum>k<n. ent aug i (k + n) * w k)" for r w
    unfolding dot_def by (intro sum.cong) (auto simp: e)
  then show "dot m n r (\<lambda>i. \<Sum>k<n. ent mi i k * w k) = w r" if "r < n" for w r
    using gauss_right_inverse [OF g m(1) that, of w] by simp
qed

theorem invert_total:
  assumes m: "rows m = n" "cols m = n"
  shows "invert m = Inl (Error ''Matrix is singular - cannot invert'') \<and> \<not> injective n m \<or>
    (\<exists>mi. invert m = Inr mi) \<and> injective n m"
proof -
  have "injective n m" if mi: "invert m = Inr mi" for mi
    unfolding injective_def
  proof (intro allI impI)
    fix v c
    assume "\<forall>r<n. dot m n r v = 0" "c < n"
    then show "v c = 0"
      using invert_inverse(4) [OF m mi, of c v] by simp
  qed
  then show ?thesis
    using invert_loop [OF m(1), of n] m by (auto simp: invert_def)
qed

lemma invert_injective:
  assumes "rows m = n" "cols m = n" "injective n m"
  obtains mi where "invert m = Inr mi"
  using invert_total [OF assms(1,2)] assms(3) by blast

lemma dot_unit: "c < n \<Longrightarrow> dot m n r (\<lambda>j. if j = c then 1 else 0) = ent m r c"
  by (simp add: dot_def if_distrib cong: if_cong)

section \<open>Properties\<close>

lemma multiply_identity:
  assumes shape: "rows a = n" "cols a = n" "rows b = n" "cols b = n"
    and id: "\<And>v r. r < n \<Longrightarrow> (\<Sum>k<n. ent a r k * dot b n k v) = v r"
  shows "\<exists>p. multiply a b = Inr p \<and> rows p = n \<and> cols p = n \<and>
    (\<forall>r<n. \<forall>c<n. mget p r c = (if r = c then 1 else 0))"
proof -
  have e: "cols a = rows b"
    using shape by simp
  obtain p where p: "multiply a b = Inr p" "wf_matrix p" "rows p = n" "cols p = n"
    "\<And>r c. r < n \<Longrightarrow> c < n \<Longrightarrow> ent p r c = (\<Sum>k<n. ent a r k * ent b k c)"
    by (rule multiply_spec [OF e, unfolded shape]) (assumption | rule that)+
  have "ent p r c = (if r = c then 1 else 0)" if "r < n" "c < n" for r c
    using id [OF that(1), of "\<lambda>j. if j = c then 1 else 0"] p(5) [OF that] that by (simp add: dot_unit)
  then have "\<forall>r<n. \<forall>c<n. mget p r c = (if r = c then 1 else 0)"
    by (simp add: mget_ent)
  with p show ?thesis by blast
qed

text \<open>
  C3. Inversion of a square matrix either succeeds, and then the result is a two-sided inverse under
  \<^verbatim>\<open>multiply\<close>, or throws the singularity error, and then the columns are linearly dependent.
\<close>

theorem invert_correct:
  assumes "rows m = n" "cols m = n"
  shows "(\<exists>mi p q. invert m = Inr mi \<and> multiply mi m = Inr p \<and> multiply m mi = Inr q
            \<and> (\<forall>r<n. \<forall>c<n. mget p r c = (if r = c then 1 else 0) \<and> mget q r c = (if r = c then 1 else 0)))
       \<or> invert m = Inl (Error ''Matrix is singular - cannot invert'')
         \<and> (\<exists>v. (\<exists>c<n. v c \<noteq> 0) \<and> (\<forall>r<n. (\<Sum>c<n. ent m r c * v c) = 0))"
proof (cases "invert m")
  case (Inl e)
  then show ?thesis
    using invert_total [OF assms] by (auto simp: injective_def dot_def)
next
  case (Inr mi)
  note i = invert_inverse [OF assms Inr]
  have r: "(\<Sum>k<n. ent m r k * dot mi n k v) = v r" if "r < n" for r v
    using i(5) [OF that, of v] by (simp add: dot_def)
  obtain p where p: "multiply mi m = Inr p" "\<forall>r<n. \<forall>c<n. mget p r c = (if r = c then 1 else 0)"
    using multiply_identity [OF i(2,3) assms i(4)] by blast
  obtain q where q: "multiply m mi = Inr q" "\<forall>r<n. \<forall>c<n. mget q r c = (if r = c then 1 else 0)"
    using multiply_identity [OF assms i(2,3) r] by blast
  show ?thesis
    using Inr p q by (intro disjI1 exI [of _ mi] exI [of _ p] exI [of _ q]) simp
qed

theorem invert_correct_witness:
  "(\<exists>mi p q. invert \<lparr>rows = 1, cols = 1, data = [2]\<rparr> = Inr mi
       \<and> multiply mi \<lparr>rows = 1, cols = 1, data = [2]\<rparr> = Inr p \<and> multiply \<lparr>rows = 1, cols = 1, data = [2]\<rparr> mi = Inr q
       \<and> (\<forall>r<1. \<forall>c<1. mget p r c = (if r = c then 1 else 0) \<and> mget q r c = (if r = c then 1 else 0)))
   \<or> invert \<lparr>rows = 1, cols = 1, data = [2]\<rparr> = Inl (Error ''Matrix is singular - cannot invert'')
     \<and> (\<exists>v. (\<exists>c<1. v c \<noteq> 0) \<and> (\<forall>r<1. (\<Sum>c<1. ent \<lparr>rows = 1, cols = 1, data = [2]\<rparr> r c * v c) = 0))"
  by (rule invert_correct) simp_all

end
