(* ===== verification/Erasure_Coding.thy ===== *)
theory Erasure_Coding
  imports GF_Matrix
begin

text \<open>
  The Reed-Solomon code of \<^verbatim>\<open>services/erasureCoding.service.ts\<close>: construction of the encoding
  matrix, splitting and padding of a payload, \<^verbatim>\<open>encode\<close>, \<^verbatim>\<open>decode\<close> and the consistency check
  \<^verbatim>\<open>verifyShards\<close>.

  The main result is the recovery property of the code: whatever the payload, any \<open>M\<close> shards of an
  encoding with distinct indices decode to the payload. It rests on the injectivity of every
  selection of \<open>M\<close> rows of the encoding matrix, which follows from the Cauchy lemma of
  \<^verbatim>\<open>Field_Algebra\<close>, and on the correctness of the inversion in \<^verbatim>\<open>GF_Matrix\<close>.
\<close>

unbundle bit_operations_syntax

section \<open>Matrices\<close>

text \<open>
  Sums of indices below 256 are bytes; the guard makes every divisor the exclusive or of two
  different bytes.
\<close>

definition buildCauchyMatrix :: "nat \<Rightarrow> nat \<Rightarrow> GFMatrix result" where
  "buildCauchyMatrix rs cs =
     (if rs + cs > GF_SIZE
      then Inl (RangeError (''rows ('' @ js_num rs @ '') + cols ('' @ js_num cs @ '') exceeds GF(2^8) capacity (256)''))
      else foldE (\<lambda>r. foldE (\<lambda>c m.
             bindE (gfDiv 1 (gfAdd (word_of_nat c) (word_of_nat (cs + r)))) (\<lambda>v. Inr (mset m r c v)))
             [0..<cs]) [0..<rs] (new_GFMatrix rs cs))"

definition buildEncodingMatrix :: "nat \<Rightarrow> nat \<Rightarrow> GFMatrix result" where
  "buildEncodingMatrix dataShards parityShards =
     (let total = dataShards + parityShards;
          enc = fold (\<lambda>r enc. mset enc r r 1) [0..<dataShards] (new_GFMatrix total dataShards)
      in bindE (buildCauchyMatrix parityShards dataShards) (\<lambda>cauchy.
           Inr (fold (\<lambda>r. fold (\<lambda>c enc. mset enc (r + dataShards) c (mget cauchy r c)) [0..<dataShards])
             [0..<parityShards] enc)))"

section \<open>Shards\<close>

record Shard =
  index :: nat
  isData :: bool
  bytes :: "byte list"
  cid :: "string option"
  node :: "string option"

record ShardConfig =
  cfg_dataShards :: nat
  cfg_parityShards :: nat

definition DEFAULT_SHARD_CONFIG :: ShardConfig where
  "DEFAULT_SHARD_CONFIG = \<lparr>cfg_dataShards = 4, cfg_parityShards = 2\<rparr>"

text \<open>\<^verbatim>\<open>TypedArray.prototype.set\<close> throws when the source does not fit behind the offset.\<close>

definition typed_set :: "byte list \<Rightarrow> byte list \<Rightarrow> nat \<Rightarrow> byte list result" where
  "typed_set dst src off =
     (if off + length src > length dst then Inl (RangeError ''offset is out of bounds'')
      else Inr (take off dst @ src @ drop (off + length src) dst))"

definition math_ceil_div :: "nat \<Rightarrow> nat \<Rightarrow> nat" where
  "math_ceil_div a b = (a + b - 1) div b"

definition padAndSplit :: "byte list \<Rightarrow> nat \<Rightarrow> byte list list result" where
  "padAndSplit d dataShards =
     (let shardSize = math_ceil_div (length d) dataShards;
          paddedLength = shardSize * dataShards
      in bindE (typed_set (replicate paddedLength 0) d 0) (\<lambda>padded.
           Inr (map (\<lambda>i. js_slice padded (i * shardSize) ((i + 1) * shardSize)) [0..<dataShards])))"

definition encode_parity :: "GFMatrix \<Rightarrow> nat \<Rightarrow> nat \<Rightarrow> nat \<Rightarrow> byte list list \<Rightarrow> byte list list \<Rightarrow> byte list list" where
  "encode_parity encMatrix dataShards parityShards shardSize rawDataShards =
     fold (\<lambda>bytePos. fold (\<lambda>p outputData.
         let val = fold (\<lambda>d val. gfAdd val (gfMul (mget encMatrix (dataShards + p) d) (get0 (rawDataShards ! d) bytePos)))
                     [0..<dataShards] 0
         in outputData[dataShards + p := (outputData ! (dataShards + p))[bytePos := val]])
       [0..<parityShards]) [0..<shardSize]"

definition encode :: "byte list \<Rightarrow> nat \<Rightarrow> nat \<Rightarrow> Shard list result" where
  "encode d dataShards parityShards =
     (if dataShards < 1 then Inl (RangeError ''dataShards must be >= 1'')
      else if parityShards < 1 then Inl (RangeError ''parityShards must be >= 1'')
      else if dataShards + parityShards > GF_SIZE - 1
        then Inl (RangeError (''Total shards ('' @ js_num (dataShards + parityShards) @ '') exceeds GF(2^8) limit''))
      else bindE (padAndSplit d dataShards) (\<lambda>rawDataShards.
        let shardSize = length (rawDataShards ! 0)
        in bindE (buildEncodingMatrix dataShards parityShards) (\<lambda>encMatrix.
          let outputData = encode_parity encMatrix dataShards parityShards shardSize rawDataShards
                (rawDataShards @ replicate parityShards (replicate shardSize 0))
          in Inr (map (\<lambda>i. \<lparr>index = i, isData = (i < dataShards), bytes = outputData ! i,
                             cid = None, node = None\<rparr>) [0..<length outputData]))))"

definition decode_rows :: "GFMatrix \<Rightarrow> nat \<Rightarrow> nat \<Rightarrow> Shard list \<Rightarrow> byte list list \<Rightarrow> byte list list" where
  "decode_rows invMatrix dataShards shardSize selected =
     fold (\<lambda>bytePos. fold (\<lambda>d reconstructed.
         let val = fold (\<lambda>s val. gfAdd val (gfMul (mget invMatrix d s) (get0 (bytes (selected ! s)) bytePos)))
                     [0..<dataShards] 0
         in reconstructed[d := (reconstructed ! d)[bytePos := val]])
       [0..<dataShards]) [0..<shardSize]"

definition decode :: "Shard list \<Rightarrow> nat \<Rightarrow> nat \<Rightarrow> nat option \<Rightarrow> byte list result" where
  "decode availableShards dataShards parityShards originalSize =
     (if length availableShards < dataShards
      then Inl (Error (''Not enough shards to reconstruct: have '' @ js_num (length availableShards)
                 @ '', need '' @ js_num dataShards))
      else let selected = take dataShards (sort_key index availableShards)
      in if selected = [] then Inl TypeError
      else let shardSize = length (bytes (selected ! 0))
      in bindE (buildEncodingMatrix dataShards parityShards) (\<lambda>encMatrix.
         bindE (invert (subsetRows encMatrix (map index selected))) (\<lambda>invMatrix.
         let reconstructed = decode_rows invMatrix dataShards shardSize selected
               (replicate dataShards (replicate shardSize 0))
         in bindE (foldE (\<lambda>i full. typed_set full (reconstructed ! i) (i * shardSize))
                     [0..<length reconstructed] (replicate (dataShards * shardSize) 0)) (\<lambda>fullData.
         Inr (case originalSize of None \<Rightarrow> fullData | Some n \<Rightarrow> js_slice fullData 0 n)))))"

text \<open>
  The check of a complete set of shards. An exception of the inner \<^verbatim>\<open>decode\<close> is swallowed; the
  comparison reads the entry of the re-encoding only when the shard has a byte to compare.
\<close>

definition join_rows :: "byte list list \<Rightarrow> nat \<Rightarrow> nat \<Rightarrow> byte list result" where
  "join_rows parts dataShards shardSize =
     foldE (\<lambda>i buf. typed_set buf (parts ! i) (i * shardSize)) [0..<length parts]
       (replicate (dataShards * shardSize) 0)"

definition canonicalData :: "Shard list \<Rightarrow> nat \<Rightarrow> nat \<Rightarrow> nat \<Rightarrow> byte list list option" where
  "canonicalData allSorted dataShards parityShards shardSize =
     (let parityShardsAvailable = filter (\<lambda>s. \<not> isData s) allSorted
      in if dataShards \<le> length parityShardsAvailable
         then case decode (take dataShards parityShardsAvailable) dataShards parityShards (Some (dataShards * shardSize)) of
                Inl e \<Rightarrow> None
              | Inr reconstructed \<Rightarrow>
                  Some (map (\<lambda>i. js_slice reconstructed (i * shardSize) ((i + 1) * shardSize)) [0..<dataShards])
         else None)"

definition shard_differs :: "byte list \<Rightarrow> byte list \<Rightarrow> bool" where
  "shard_differs actual expected \<longleftrightarrow>
     (\<exists>i \<in> set [0..<length actual]. i \<ge> length expected \<or> actual ! i \<noteq> expected ! i)"

definition compareShards :: "Shard list \<Rightarrow> Shard list \<Rightarrow> nat list result" where
  "compareShards reEncoded allSorted =
     foldE (\<lambda>shard corrupted.
         if bytes shard = [] then Inr corrupted
         else if index shard \<ge> length reEncoded then Inl TypeError
         else if shard_differs (bytes shard) (bytes (reEncoded ! index shard))
              then Inr (corrupted @ [index shard]) else Inr corrupted) allSorted []"

definition verifyShards :: "Shard list \<Rightarrow> nat \<Rightarrow> nat \<Rightarrow> nat list result" where
  "verifyShards shards dataShards parityShards =
     (let allSorted = sort_key index shards
      in if allSorted = [] then Inl TypeError
      else let shardSize = length (bytes (allSorted ! 0))
      in bindE (case canonicalData allSorted dataShards parityShards shardSize of
                  Some parts \<Rightarrow> join_rows parts dataShards shardSize
                | None \<Rightarrow>
                    (let storedData = sort_key index (filter isData allSorted)
                     in if length storedData \<noteq> dataShards
                        then Inl (Error (''Expected '' @ js_num dataShards @ '' data shards, got '' @ js_num (length storedData)))
                        else join_rows (map bytes storedData) dataShards shardSize))
           (\<lambda>reEncodedInput. bindE (encode reEncodedInput dataShards parityShards)
             (\<lambda>reEncoded. compareShards reEncoded allSorted)))"

section \<open>The encoding matrix\<close>

definition pt :: "nat \<Rightarrow> gf256" where
  "pt i = GF (word_of_nat i)"

lemma pt_inj: "i < 256 \<Longrightarrow> j < 256 \<Longrightarrow> pt i = pt j \<longleftrightarrow> i = j"
  by (simp add: pt_def word_of_nat_eq_iff take_bit_nat_eq_self)

lemma pt_inj256: "inj_on pt {..<256}"
  by (simp add: inj_on_def pt_inj)

lemma gfAdd_distinct: "i < 256 \<Longrightarrow> j < 256 \<Longrightarrow> i \<noteq> j \<Longrightarrow> gfAdd (word_of_nat i) (word_of_nat j) \<noteq> 0"
proof -
  assume "i < 256" "j < 256" "i \<noteq> j"
  then have "pt i - pt j \<noteq> 0"
    using pt_inj by simp
  then show ?thesis
    by (simp add: pt_def gf256_minus_eq flip: gf_hom)
qed

lemma buildCauchyMatrix_spec:
  assumes "R + C \<le> 256"
  obtains m where "buildCauchyMatrix R C = Inr m"
    "\<And>r c. r < R \<Longrightarrow> c < C \<Longrightarrow> ent m r c = 1 / (pt (C + r) - pt c)"
proof -
  let ?q = "\<lambda>r c. gf_quot 1 (gfAdd (word_of_nat c) (word_of_nat (C + r)))"
  let ?m = "fold (\<lambda>r. fold (\<lambda>c m. mset m r c (?q r c)) [0..<C]) [0..<R] (new_GFMatrix R C)"
  have "buildCauchyMatrix R C = Inr ?m"
  proof -
    have "gfDiv 1 (gfAdd (word_of_nat c) (word_of_nat (C + r))) = Inr (?q r c)" if "r < R" "c < C" for r c
      using that assms by (intro gfDiv_quot gfAdd_distinct) auto
    then show ?thesis
      using assms unfolding buildCauchyMatrix_def GF_SIZE_def
      by (auto intro!: foldE_Inr')
  qed
  moreover have "\<forall>i j. i < R \<longrightarrow> j < C \<longrightarrow> mget ?m i j = ?q i j"
    using fill_loop [of "new_GFMatrix R C" _ ?q] by simp
  ultimately show thesis
    by (intro that [of ?m]) (auto simp: ent_def gf_hom pt_def gf256_minus_eq ac_simps)
qed

text \<open>Row \<open>r\<close> of the encoding matrix: a unit vector, or a row of the Cauchy matrix.\<close>

definition enc_entry :: "nat \<Rightarrow> nat \<Rightarrow> nat \<Rightarrow> gf256" where
  "enc_entry M r c = (if r < M then if r = c then 1 else 0 else 1 / (pt r - pt c))"

lemma identity_loop:
  assumes "M \<le> rows m" "M = cols m" "wf_matrix m"
  shows "same_shape (fold (\<lambda>r enc. mset enc r r 1) [0..<M] m) m \<and>
    (\<forall>i j. j < M \<longrightarrow> mget (fold (\<lambda>r enc. mset enc r r 1) [0..<M] m) i j =
       (if i = j then 1 else mget m i j))"
proof -
  let ?P = "\<lambda>k u. same_shape u m \<and> (\<forall>i j. j < M \<longrightarrow> mget u i j = (if i = j \<and> i < k then 1 else mget m i j))"
  have "?P M (fold (\<lambda>r enc. mset enc r r 1) [0..<M] m)"
  proof (rule fold_upt_induct [where P = ?P])
    fix r u
    assume r: "r < M" and u: "?P r u"
    then have "wf_matrix u" "rows u = rows m" "cols u = cols m"
      using assms by (auto simp: same_shape_def)
    with r u assms show "?P (Suc r) (mset u r r 1)"
      by (auto simp: mget_mset)
  qed simp
  then show ?thesis by auto
qed

lemma cauchy_block_loop:
  assumes "wf_matrix m" "rows m = M + P" "cols m = M"
  shows "same_shape (fold (\<lambda>r. fold (\<lambda>c enc. mset enc (r + M) c (g r c)) [0..<M]) [0..<P] m) m \<and>
    (\<forall>i j. j < M \<longrightarrow> mget (fold (\<lambda>r. fold (\<lambda>c enc. mset enc (r + M) c (g r c)) [0..<M]) [0..<P] m) i j =
       (if M \<le> i \<and> i < M + P then g (i - M) j else mget m i j))"
proof -
  let ?f = "\<lambda>r. fold (\<lambda>c enc. mset enc (r + M) c (g r c)) [0..<M]"
  let ?Q = "\<lambda>k u. same_shape u m \<and> (\<forall>i j. j < M \<longrightarrow>
      mget u i j = (if M \<le> i \<and> i < M + k then g (i - M) j else mget m i j))"
  have "?Q P (fold ?f [0..<P] m)"
  proof (rule fold_upt_induct [where P = ?Q])
    fix r u
    assume r: "r < P" and u: "?Q r u"
    then have "wf_matrix u" "rows u = M + P" "cols u = M"
      using assms by (auto simp: same_shape_def)
    with row_loop [of u "r + M" M "g r" "\<lambda>c enc. mset enc (r + M) c (g r c)"] r
    have "same_shape (?f r u) u \<and> (\<forall>i j. j < M \<longrightarrow>
        mget (?f r u) i j = (if i = r + M then g r j else mget u i j))"
      by auto
    with u show "?Q (Suc r) (?f r u)"
      by (auto dest: same_shape_trans)
  qed auto
  then show ?thesis by auto
qed

definition enc_matrix :: "nat \<Rightarrow> nat \<Rightarrow> GFMatrix \<Rightarrow> bool" where
  "enc_matrix M P enc \<longleftrightarrow> cols enc = M \<and> (\<forall>r<M + P. \<forall>c<M. ent enc r c = enc_entry M r c)"

lemma buildEncodingMatrix_spec:
  assumes "M + P \<le> 256"
  obtains enc where "buildEncodingMatrix M P = Inr enc" "enc_matrix M P enc"
proof -
  obtain ca where ca: "buildCauchyMatrix P M = Inr ca"
    "\<And>r c. r < P \<Longrightarrow> c < M \<Longrightarrow> ent ca r c = 1 / (pt (M + r) - pt c)"
    using buildCauchyMatrix_spec [of P M] assms by (auto simp: add.commute)
  define e where "e = fold (\<lambda>r enc. mset enc r r 1) [0..<M] (new_GFMatrix (M + P) M)"
  have e: "same_shape e (new_GFMatrix (M + P) M)" "\<And>i j. j < M \<Longrightarrow> mget e i j = (if i = j then 1 else 0)"
    using identity_loop [of M "new_GFMatrix (M + P) M"] by (simp_all add: e_def)
  define enc where "enc = fold (\<lambda>r. fold (\<lambda>c enc. mset enc (r + M) c (mget ca r c)) [0..<M]) [0..<P] e"
  have enc: "same_shape enc e" "\<And>i j. j < M \<Longrightarrow>
      mget enc i j = (if M \<le> i \<and> i < M + P then mget ca (i - M) j else mget e i j)"
    using cauchy_block_loop [of e M P "mget ca"] e(1) by (auto simp: enc_def same_shape_def)
  show thesis
  proof (rule that [of enc])
    show "buildEncodingMatrix M P = Inr enc"
      by (simp add: buildEncodingMatrix_def ca e_def enc_def)
    have "ent enc r c = enc_entry M r c" if "r < M + P" "c < M" for r c
      using that enc(2) e(2) ca(2) [of "r - M" c] by (auto simp: ent_def enc_entry_def)
    then show "enc_matrix M P enc"
      using enc(1) e(1) by (simp add: same_shape_def enc_matrix_def)
  qed
qed

text \<open>Any \<open>M\<close> rows determine the vector.\<close>

lemma enc_rows_injective:
  assumes "M + P \<le> 256" and R: "R \<subseteq> {..<M + P}" "card R = M"
    and zero: "\<And>r. r \<in> R \<Longrightarrow> (\<Sum>c<M. enc_entry M r c * v c) = 0" and "d < M"
  shows "v d = 0"
proof -
  define K where "K = R \<inter> {..<M}"
  define D where "D = {..<M} - K"
  define Q where "Q = R - {..<M}"
  have fin: "finite R" using R(1) finite_subset by blast
  have D256: "D \<subseteq> {..<256}" and Q256: "Q \<subseteq> {..<256}"
    using assms(1) R(1) by (fastforce simp: D_def Q_def)+
  have K: "v c = 0" if "c \<in> K" for c
  proof -
    have "(\<Sum>j<M. enc_entry M c j * v j) = v c"
      using that by (subst sum_lessThan_single [of c]) (auto simp: K_def enc_entry_def)
    with zero [of c] that show ?thesis by (auto simp: K_def)
  qed
  have "v d = 0" if "d \<in> D"
  proof (rule cauchy_injective [of D pt Q pt])
    show "finite D" "finite Q" using fin by (auto simp: D_def Q_def)
    show "inj_on pt D" "inj_on pt Q"
      using inj_on_subset [OF pt_inj256 D256] inj_on_subset [OF pt_inj256 Q256] by simp_all
    have "card D = M - card K"
      unfolding D_def by (subst card_Diff_subset) (auto simp: K_def fin)
    moreover have "card Q = M - card K"
      unfolding Q_def K_def card_Diff_subset_Int [OF finite_Int [OF disjI1 [OF fin]]] using R(2) by simp
    ultimately show "card D \<le> card Q" by simp
    show "pt r \<noteq> pt c" if "c \<in> D" "r \<in> Q" for c r
      using that assms(1) R(1) by (subst pt_inj) (auto simp: D_def Q_def subset_iff)
    show "(\<Sum>c\<in>D. v c / (pt r - pt c)) = 0" if r: "r \<in> Q" for r
    proof -
      have "(\<Sum>c\<in>D. v c / (pt r - pt c)) = (\<Sum>c\<in>D. enc_entry M r c * v c)"
        using r by (intro sum.cong) (auto simp: enc_entry_def Q_def)
      also have "\<dots> = (\<Sum>c<M. enc_entry M r c * v c)"
        using K by (intro sum.mono_neutral_left) (auto simp: D_def)
      also have "\<dots> = 0" using zero r by (simp add: Q_def)
      finally show ?thesis .
    qed
  qed (rule that)
  with K \<open>d < M\<close> show ?thesis by (auto simp: D_def)
qed

lemma selection_injective:
  assumes "M + P \<le> 256" and enc: "enc_matrix M P enc"
    and ix: "length ix = M" "distinct ix" "set ix \<subseteq> {..<M + P}"
  shows "injective M (subsetRows enc ix)"
    "\<And>i v. i < M \<Longrightarrow> dot (subsetRows enc ix) M i v = (\<Sum>c<M. enc_entry M (ix ! i) c * v c)"
proof -
  show d: "dot (subsetRows enc ix) M i v = (\<Sum>c<M. enc_entry M (ix ! i) c * v c)" if "i < M" for i v
  proof -
    have "ix ! i < M + P" using ix that nth_mem by fastforce
    then show ?thesis
      unfolding dot_def using that ix(1) enc
      by (intro sum.cong) (auto simp: enc_matrix_def ent_def subsetRows_spec)
  qed
  show "injective M (subsetRows enc ix)"
    unfolding injective_def
  proof (intro allI impI)
    fix v c
    assume z: "\<forall>r<M. dot (subsetRows enc ix) M r v = 0" and "c < M"
    show "v c = 0"
    proof (rule enc_rows_injective [OF assms(1) ix(3)])
      show "card (set ix) = M" using ix by (simp add: distinct_card)
      show "(\<Sum>c<M. enc_entry M r c * v c) = 0" if "r \<in> set ix" for r
        using that z d ix(1) by (auto simp: in_set_conv_nth)
    qed (rule \<open>c < M\<close>)
  qed
qed

section \<open>Splitting and joining\<close>

lemma math_ceil_div_bound: "0 < b \<Longrightarrow> a \<le> math_ceil_div a b * b"
proof -
  assume b: "0 < b"
  have "a + b - 1 = math_ceil_div a b * b + (a + b - 1) mod b"
    by (simp add: math_ceil_div_def)
  moreover have "(a + b - 1) mod b \<le> b - 1"
    using b by (simp add: less_Suc_eq_le [symmetric])
  ultimately show ?thesis using b by linarith
qed

definition pad :: "nat \<Rightarrow> byte list \<Rightarrow> byte list" where
  "pad n d = d @ replicate (n - length d) 0"

definition chunk :: "nat \<Rightarrow> byte list \<Rightarrow> nat \<Rightarrow> byte list" where
  "chunk S xs i = js_slice xs (i * S) ((i + 1) * S)"

lemma length_chunk: "i < M \<Longrightarrow> length xs = S * M \<Longrightarrow> length (chunk S xs i) = S"
proof -
  assume "i < M" "length xs = S * M"
  moreover from this have "(i + 1) * S \<le> S * M"
    by (metis Suc_eq_plus1 Suc_leI mult.commute mult_le_mono1)
  ultimately show ?thesis
    by (simp add: chunk_def js_slice_def)
qed

lemma concat_chunks: "length xs = M * S \<Longrightarrow> concat (map (chunk S xs) [0..<M]) = xs"
proof -
  have "concat (map (chunk S xs) [0..<k]) = take (k * S) xs" for k
  proof (induction k)
    case (Suc k)
    have "take (Suc k * S) xs = take (k * S) xs @ take S (drop (k * S) xs)"
      by (simp only: mult_Suc add.commute [of S] take_add)
    with Suc show ?case
      by (simp add: chunk_def js_slice_def drop_take add.commute)
  qed simp
  then show "length xs = M * S \<Longrightarrow> concat (map (chunk S xs) [0..<M]) = xs" by simp
qed

lemma padAndSplit_spec:
  assumes "0 < M"
  shows "padAndSplit d M = Inr (map (chunk (math_ceil_div (length d) M) (pad (math_ceil_div (length d) M * M) d)) [0..<M])"
  using math_ceil_div_bound [OF assms, of "length d"]
  by (auto simp: padAndSplit_def typed_set_def pad_def chunk_def Let_def intro!: map_cong)

text \<open>The nested loops of \<^verbatim>\<open>encode\<close> and \<^verbatim>\<open>decode\<close> fill a block of rows byte by byte.\<close>

lemma grid_inner:
  assumes "off + P \<le> length xs"
  shows "length (fold (\<lambda>p out. out[off + p := (out ! (off + p))[b := v p b]]) [0..<P] xs) = length xs \<and>
    (\<forall>i < length xs. fold (\<lambda>p out. out[off + p := (out ! (off + p))[b := v p b]]) [0..<P] xs ! i =
      (if off \<le> i \<and> i < off + P then (xs ! i)[b := v (i - off) b] else xs ! i))"
proof -
  let ?Q = "\<lambda>k out. length out = length xs \<and> (\<forall>i < length xs. out ! i =
      (if off \<le> i \<and> i < off + k then (xs ! i)[b := v (i - off) b] else xs ! i))"
  have "?Q P (fold (\<lambda>p out. out[off + p := (out ! (off + p))[b := v p b]]) [0..<P] xs)"
  proof (rule fold_upt_induct [where P = ?Q])
    fix p out
    assume "p < P" "?Q p out"
    with assms show "?Q (Suc p) (out[off + p := (out ! (off + p))[b := v p b]])"
      by (auto simp: nth_list_update)
  qed auto
  then show ?thesis .
qed

lemma grid_loop:
  assumes len: "off + P \<le> length xs" and row: "\<And>i. off \<le> i \<Longrightarrow> i < off + P \<Longrightarrow> length (xs ! i) = S"
  shows "length (fold (\<lambda>b. fold (\<lambda>p out. out[off + p := (out ! (off + p))[b := v p b]]) [0..<P]) [0..<S] xs) = length xs \<and>
    (\<forall>i < length xs. fold (\<lambda>b. fold (\<lambda>p out. out[off + p := (out ! (off + p))[b := v p b]]) [0..<P]) [0..<S] xs ! i =
      (if off \<le> i \<and> i < off + P then map (v (i - off)) [0..<S] else xs ! i))"
proof -
  let ?f = "\<lambda>b. fold (\<lambda>p out. out[off + p := (out ! (off + p))[b := v p b]]) [0..<P]"
  let ?Q = "\<lambda>k out. length out = length xs \<and> (\<forall>i < length xs. out ! i =
      (if off \<le> i \<and> i < off + P then map (v (i - off)) [0..<k] @ drop k (xs ! i) else xs ! i))"
  have "?Q S (fold ?f [0..<S] xs)"
  proof (rule fold_upt_induct [where P = ?Q])
    fix b out
    assume b: "b < S" and out: "?Q b out"
    have upd: "(map (v q) [0..<b] @ drop b ys)[b := v q b] = map (v q) [0..<Suc b] @ drop (Suc b) ys"
      if "length ys = S" for q ys
      using that b by (simp add: list_update_append upd_conv_take_nth_drop flip: Cons_nth_drop_Suc)
    from grid_inner [of off P out b v] out len
    show "?Q (Suc b) (?f b out)"
      by (auto simp: upd row)
  qed simp
  then show ?thesis by (auto simp: row)
qed

lemma join_loop:
  assumes "\<And>x. x \<in> set xs \<Longrightarrow> length x = S"
  shows "foldE (\<lambda>i full. typed_set full (xs ! i) (i * S)) [0..<length xs] (replicate (length xs * S) 0) = Inr (concat xs)"
proof -
  have len: "length (concat (take k xs)) = k * S" if "k \<le> length xs" for k
    using that assms by (induction k) (auto simp: take_Suc_conv_app_nth)
  have "foldE (\<lambda>i full. typed_set full (xs ! i) (i * S)) [0..<k] (replicate (length xs * S) 0) =
      Inr (concat (take k xs) @ replicate ((length xs - k) * S) 0)" if "k \<le> length xs" for k
    using that
  proof (induction k)
    case (Suc k)
    then have "k * S + S \<le> length xs * S"
      by (metis Suc_leD add.commute mult_Suc mult_le_mono1)
    with Suc assms [of "xs ! k"] len [of k] show ?case
      by (simp add: foldE_append typed_set_def take_Suc_conv_app_nth diff_mult_distrib)
  qed simp
  from this [of "length xs"] show ?thesis by simp
qed

section \<open>Encoding\<close>

text \<open>The reference code: shard \<open>i\<close> is the product of row \<open>i\<close> of the encoding matrix with the data shards.\<close>

definition coded :: "byte list list \<Rightarrow> nat \<Rightarrow> nat \<Rightarrow> nat \<Rightarrow> byte list" where
  "coded raw M S i = (if i < M then raw ! i
     else map (\<lambda>b. gf_byte (\<Sum>d<M. enc_entry M i d * GF (raw ! d ! b))) [0..<S])"

definition rows_ok :: "byte list list \<Rightarrow> nat \<Rightarrow> nat \<Rightarrow> bool" where
  "rows_ok raw M S \<longleftrightarrow> length raw = M \<and> (\<forall>i<M. length (raw ! i) = S)"

lemma rows_ok_chunks: "length xs = S * M \<Longrightarrow> rows_ok (map (chunk S xs) [0..<M]) M S"
  by (simp add: rows_ok_def length_chunk)

lemma GF_coded:
  assumes "rows_ok raw M S" "b < S"
  shows "GF (coded raw M S i ! b) = (\<Sum>d<M. enc_entry M i d * GF (raw ! d ! b))"
proof (cases "i < M")
  case True
  then have "(\<Sum>d<M. enc_entry M i d * GF (raw ! d ! b)) = GF (raw ! i ! b)"
    by (subst sum_lessThan_single [of i]) (auto simp: enc_entry_def)
  with True show ?thesis by (simp add: coded_def)
qed (use assms in \<open>simp add: coded_def\<close>)

lemma length_coded [simp]: "rows_ok raw M S \<Longrightarrow> length (coded raw M S i) = S"
  by (simp add: coded_def rows_ok_def)

lemma byte_of_GF: "GF a = x \<Longrightarrow> a = gf_byte x"
  by auto

lemma encode_parity_spec:
  assumes raw: "rows_ok raw M S"
    and enc: "enc_matrix M P enc"
  shows "encode_parity enc M P S raw (raw @ replicate P (replicate S 0)) = map (coded raw M S) [0..<M + P]"
proof -
  let ?v = "\<lambda>p b. fold (\<lambda>d val. gfAdd val (gfMul (mget enc (M + p) d) (get0 (raw ! d) b))) [0..<M] 0"
  let ?xs = "raw @ replicate P (replicate S 0)"
  have v: "?v p b = gf_byte (\<Sum>d<M. enc_entry M (M + p) d * GF (raw ! d ! b))" if "p < P" "b < S" for p b
  proof (rule byte_of_GF)
    show "GF (?v p b) = (\<Sum>d<M. enc_entry M (M + p) d * GF (raw ! d ! b))"
      unfolding GF_fold_dot using that raw enc
      by (auto simp: rows_ok_def enc_matrix_def simp flip: ent_def intro!: sum.cong)
  qed
  have row: "map (?v (i - M)) [0..<S] = coded raw M S i" if "M \<le> i" "i < M + P" for i
    using that v [of "i - M"] by (simp add: coded_def)
  have "length (encode_parity enc M P S raw ?xs) = length ?xs \<and> (\<forall>i < length ?xs.
      encode_parity enc M P S raw ?xs ! i = (if M \<le> i \<and> i < M + P then map (?v (i - M)) [0..<S] else ?xs ! i))"
    unfolding encode_parity_def Let_def
    by (rule grid_loop) (use raw in \<open>auto simp: rows_ok_def nth_append\<close>)
  then show ?thesis
    using raw row by (intro nth_equalityI) (auto simp: rows_ok_def coded_def nth_append)
qed

definition shard_size :: "byte list \<Rightarrow> nat \<Rightarrow> nat" where
  "shard_size d M = math_ceil_div (length d) M"

definition raw_shards :: "byte list \<Rightarrow> nat \<Rightarrow> byte list list" where
  "raw_shards d M = map (chunk (shard_size d M) (pad (shard_size d M * M) d)) [0..<M]"

lemma length_pad: "0 < M \<Longrightarrow> length (pad (shard_size d M * M) d) = shard_size d M * M"
  using math_ceil_div_bound [of M "length d"] by (simp add: pad_def shard_size_def)

lemma raw_shards_ok: "0 < M \<Longrightarrow> rows_ok (raw_shards d M) M (shard_size d M)"
  unfolding raw_shards_def by (rule rows_ok_chunks) (simp add: length_pad)

lemma concat_raw_shards: "0 < M \<Longrightarrow> concat (raw_shards d M) = pad (shard_size d M * M) d"
  unfolding raw_shards_def by (rule concat_chunks, subst mult.commute) (rule length_pad)

lemma take_pad [simp]: "take (length d) (pad n d) = d"
  by (simp add: pad_def)

definition shard_of :: "byte list \<Rightarrow> nat \<Rightarrow> nat \<Rightarrow> Shard" where
  "shard_of d M i = \<lparr>index = i, isData = (i < M), bytes = coded (raw_shards d M) M (shard_size d M) i,
     cid = None, node = None\<rparr>"

lemma shard_of_simps [simp]: "index (shard_of d M i) = i" "isData (shard_of d M i) = (i < M)"
  by (simp_all add: shard_of_def)

lemma encode_spec:
  assumes "0 < M" "0 < P" "M + P \<le> 255"
  shows "encode d M P = Inr (map (shard_of d M) [0..<M + P])"
proof -
  have "M + P \<le> 256" using assms(3) by simp
  from buildEncodingMatrix_spec [OF this] obtain enc where enc: "buildEncodingMatrix M P = Inr enc" "enc_matrix M P enc"
    by blast
  have ok: "rows_ok (raw_shards d M) M (shard_size d M)"
    using assms(1) by (rule raw_shards_ok)
  then have len: "length (raw_shards d M ! 0) = shard_size d M"
    using assms(1) by (simp add: rows_ok_def)
  have "padAndSplit d M = Inr (raw_shards d M)"
    using padAndSplit_spec [OF assms(1)] by (simp add: raw_shards_def shard_size_def)
  then show ?thesis
    using assms enc(1) encode_parity_spec [OF ok enc(2)]
    by (simp add: encode_def GF_SIZE_def len Let_def shard_of_def)
qed

section \<open>Decoding\<close>

definition shards_of :: "byte list list \<Rightarrow> nat \<Rightarrow> nat \<Rightarrow> nat \<Rightarrow> Shard list \<Rightarrow> bool" where
  "shards_of raw M P S shards \<longleftrightarrow> distinct (map index shards) \<and>
     (\<forall>s \<in> set shards. index s < M + P \<and> bytes s = coded raw M S (index s))"

lemma decode_rows_spec:
  assumes raw: "rows_ok raw M S" and M: "0 < M" "M + P \<le> 256"
    and enc: "enc_matrix M P enc"
    and sel: "shards_of raw M P S sel" "length sel = M"
    and inv: "invert (subsetRows enc (map index sel)) = Inr mi"
  shows "decode_rows mi M S sel (replicate M (replicate S 0)) = raw"
proof -
  let ?m = "subsetRows enc (map index sel)"
  let ?v = "\<lambda>d b. fold (\<lambda>s val. gfAdd val (gfMul (mget mi d s) (get0 (bytes (sel ! s)) b))) [0..<M] 0"
  let ?xs = "replicate M (replicate S (0 :: byte))"
  have sh: "rows ?m = M" "cols ?m = M"
    by (simp_all add: subsetRows_spec sel(2) enc [unfolded enc_matrix_def])
  have ix: "length (map index sel) = M" "distinct (map index sel)" "set (map index sel) \<subseteq> {..<M + P}"
    using sel by (auto simp: shards_of_def)
  have v: "?v d b = raw ! d ! b" if d: "d < M" and b: "b < S" for d b
  proof -
    have "GF (?v d b) = (\<Sum>s<M. ent mi d s * dot ?m M s (\<lambda>j. GF (raw ! j ! b)))"
      unfolding GF_fold_dot
    proof (simp, rule sum.cong)
      fix s
      assume "s \<in> {..<M}"
      then have s: "s < M" by simp
      then have "sel ! s \<in> set sel" using sel(2) by simp
      then have "bytes (sel ! s) = coded raw M S (map index sel ! s)"
        using sel s by (simp add: shards_of_def)
      then have "GF (get0 (bytes (sel ! s)) b) = dot ?m M s (\<lambda>j. GF (raw ! j ! b))"
        using b raw selection_injective(2) [OF M(2) enc ix s] by (simp add: GF_coded)
      then show "GF (mget mi d s) * GF (get0 (bytes (sel ! s)) b) = ent mi d s * dot ?m M s (\<lambda>j. GF (raw ! j ! b))"
        by (simp add: ent_def)
    qed simp
    also have "\<dots> = GF (raw ! d ! b)"
      by (rule invert_inverse(4) [OF sh inv d])
    finally show ?thesis by simp
  qed
  have "length (decode_rows mi M S sel ?xs) = length ?xs \<and> (\<forall>i < length ?xs.
      decode_rows mi M S sel ?xs ! i = (if 0 \<le> i \<and> i < 0 + M then map (?v (i - 0)) [0..<S] else ?xs ! i))"
    using grid_loop [of 0 M ?xs S ?v] by (simp add: decode_rows_def Let_def)
  then show ?thesis
    using raw by (intro nth_equalityI) (auto simp: rows_ok_def v intro!: nth_equalityI)
qed

lemma set_take_sort: "set (take n (sort_key f xs)) \<subseteq> set xs"
  using set_take_subset by fastforce

lemma shards_of_select:
  assumes "shards_of raw M P S avail"
  shows "shards_of raw M P S (take n (sort_key index avail))"
proof -
  have "distinct (map index (take n (sort_key index avail)))"
    using assms by (auto simp: shards_of_def distinct_map inj_on_subset [OF _ set_take_sort] intro: inj_on_subset)
  with assms show ?thesis
    using set_take_sort by (fastforce simp: shards_of_def)
qed

theorem decode_spec:
  assumes raw: "rows_ok raw M S" and M: "0 < M" "M + P \<le> 256"
    and avail: "shards_of raw M P S avail" "M \<le> length avail"
  shows "decode avail M P osz = Inr (case osz of None \<Rightarrow> concat raw | Some n \<Rightarrow> take n (concat raw))"
proof -
  define sel where "sel = take M (sort_key index avail)"
  have sel: "shards_of raw M P S sel" "length sel = M"
    using shards_of_select [OF avail(1)] avail(2) by (simp_all add: sel_def)
  have ix: "length (map index sel) = M" "distinct (map index sel)" "set (map index sel) \<subseteq> {..<M + P}"
    using sel by (auto simp: shards_of_def)
  obtain enc where enc: "buildEncodingMatrix M P = Inr enc" "enc_matrix M P enc"
    using buildEncodingMatrix_spec [OF M(2)] by blast
  obtain mi where mi: "invert (subsetRows enc (map index sel)) = Inr mi"
    by (rule invert_injective [OF _ _ selection_injective(1) [OF M(2) enc(2) ix]])
      (use enc(2) sel(2) in \<open>simp_all add: subsetRows_spec enc_matrix_def\<close>)
  have "sel \<noteq> []" using sel(2) M(1) by auto
  moreover have "length (bytes (sel ! 0)) = S"
    using sel M(1) raw by (auto simp: shards_of_def)
  moreover have "foldE (\<lambda>i full. typed_set full (raw ! i) (i * S)) [0..<length raw] (replicate (M * S) 0) = Inr (concat raw)"
    using join_loop [of raw S] raw by (auto simp: rows_ok_def in_set_conv_nth)
  ultimately show ?thesis
    using avail(2) enc(1) mi decode_rows_spec [OF raw M enc(2) sel mi]
    by (simp add: decode_def Let_def js_slice_def flip: sel_def split: option.splits)
qed

section \<open>Checking a complete set of shards\<close>

lemma compareShards_spec:
  assumes "\<And>s. s \<in> set xs \<Longrightarrow> index s < length re"
  shows "compareShards re xs =
    Inr (map index (filter (\<lambda>s. shard_differs (bytes s) (bytes (re ! index s))) xs))"
proof -
  let ?f = "\<lambda>shard corrupted.
         if bytes shard = [] then Inr corrupted
         else if index shard \<ge> length re then Inl TypeError
         else if shard_differs (bytes shard) (bytes (re ! index shard))
              then Inr (corrupted @ [index shard]) else Inr corrupted"
  have "foldE ?f xs acc = Inr (acc @ map index (filter (\<lambda>s. shard_differs (bytes s) (bytes (re ! index s))) xs))" for acc
    using assms
  proof (induction xs arbitrary: acc)
    case (Cons x xs)
    then have "index x < length re" by simp
    moreover have "\<not> shard_differs [] e" for e
      by (simp add: shard_differs_def)
    moreover have "foldE ?f xs acc = Inr (acc @ map index (filter (\<lambda>s. shard_differs (bytes s) (bytes (re ! index s))) xs))" for acc
      using Cons by simp
    ultimately show ?case by simp
  qed simp
  then show ?thesis by (simp add: compareShards_def)
qed

lemma shard_differs_same_length: "length a = length b \<Longrightarrow> shard_differs a b \<longleftrightarrow> a \<noteq> b"
  unfolding shard_differs_def list_eq_iff_nth_eq [of a b] by auto

text \<open>\<open>full_set shards M P S\<close>: one shard per index, in order, all of the same size.\<close>

definition full_set :: "Shard list \<Rightarrow> nat \<Rightarrow> nat \<Rightarrow> nat \<Rightarrow> bool" where
  "full_set shards M P S \<longleftrightarrow> length shards = M + P \<and>
     (\<forall>i < M + P. index (shards ! i) = i \<and> isData (shards ! i) = (i < M) \<and> length (bytes (shards ! i)) = S)"

lemma full_set_map: "full_set shards M P S \<Longrightarrow> map index shards = [0..<M + P]"
  by (auto simp: full_set_def intro!: nth_equalityI)

lemma full_set_sort: "full_set shards M P S \<Longrightarrow> sort_key index shards = shards"
  by (rule sort_key_id) (simp add: full_set_map)

lemma full_set_filter:
  assumes "full_set shards M P S"
  shows "filter (\<lambda>s. \<not> isData s) shards = drop M shards" "filter isData shards = take M shards"
proof -
  have t: "isData s" if "s \<in> set (take M shards)" for s
    using that assms by (auto simp: full_set_def in_set_conv_nth)
  have d: "\<not> isData s" if "s \<in> set (drop M shards)" for s
    using that assms by (auto simp: full_set_def in_set_conv_nth)
  have "filter Q shards = filter Q (take M shards) @ filter Q (drop M shards)" for Q
    by (simp flip: filter_append)
  then show "filter (\<lambda>s. \<not> isData s) shards = drop M shards" "filter isData shards = take M shards"
    using t d by (simp_all add: filter_id_conv filter_empty_conv)
qed

lemma full_set_filter_index:
  assumes "full_set shards M P S"
  shows "map index (filter Q shards) = filter (\<lambda>i. Q (shards ! i)) [0..<M + P]"
proof -
  have "shards = map ((!) shards) [0..<M + P]"
    using assms map_nth [of shards] by (simp add: full_set_def)
  then have "map index (filter Q shards) = map (index \<circ> (!) shards) (filter (Q \<circ> (!) shards) [0..<M + P])"
    by (metis filter_map map_map)
  also have "\<dots> = filter (\<lambda>i. Q (shards ! i)) [0..<M + P]"
    using assms by (intro trans [OF map_idI]) (auto simp: full_set_def o_def)
  finally show ?thesis .
qed

text \<open>The padded payload of a complete data part is its concatenation.\<close>

lemma math_ceil_div_exact: "0 < M \<Longrightarrow> math_ceil_div (M * S) M = S"
proof -
  assume "0 < M"
  then have "M * S + M - 1 = M - 1 + S * M"
    by (simp add: mult.commute)
  with \<open>0 < M\<close> show ?thesis
    by (simp only: math_ceil_div_def div_mult_self1) simp
qed

lemma length_concat_rows: "rows_ok raw M S \<Longrightarrow> length (concat raw) = M * S"
proof -
  assume "rows_ok raw M S"
  then have "map length raw = replicate M S"
    by (auto simp: rows_ok_def intro!: nth_equalityI)
  then show ?thesis by (simp add: length_concat sum_list_replicate)
qed

lemma chunk_concat:
  assumes "rows_ok raw M S" "i < M"
  shows "chunk S (concat raw) i = raw ! i"
  using assms
proof (induction raw arbitrary: i M)
  case (Cons x xs)
  then have x: "length x = S" by (auto simp: rows_ok_def)
  have xs: "rows_ok xs (M - 1) S"
    using Cons.prems by (fastforce simp: rows_ok_def nth_Cons' split: if_splits)
  show ?case
  proof (cases i)
    case (Suc j)
    with Cons.IH [OF xs, of j] Cons.prems x show ?thesis
      by (auto simp: rows_ok_def chunk_def js_slice_def)
  qed (simp add: chunk_def js_slice_def x)
qed (simp add: rows_ok_def)

lemma raw_shards_concat:
  assumes "rows_ok raw M S" "0 < M"
  shows "raw_shards (concat raw) M = raw" "shard_size (concat raw) M = S"
proof -
  show S: "shard_size (concat raw) M = S"
    using assms by (simp add: shard_size_def length_concat_rows math_ceil_div_exact)
  have "pad (S * M) (concat raw) = concat raw"
    using assms by (simp add: pad_def length_concat_rows)
  then show "raw_shards (concat raw) M = raw"
    unfolding raw_shards_def S using assms
    by (intro nth_equalityI) (auto simp: rows_ok_def chunk_concat [OF assms(1)])
qed

lemma join_rows_spec: "rows_ok raw M S \<Longrightarrow> join_rows raw M S = Inr (concat raw)"
  unfolding join_rows_def using join_loop [of raw S] by (auto simp: rows_ok_def in_set_conv_nth)

lemma verify_reencode:
  assumes M: "0 < M" "0 < P" "M + P \<le> 255" and full: "full_set shards M P S" and raw: "rows_ok raw M S"
    and src: "canonicalData shards M P S = Some raw \<or>
      canonicalData shards M P S = None \<and> map bytes (take M shards) = raw"
  shows "verifyShards shards M P = Inr (filter (\<lambda>i. bytes (shards ! i) \<noteq> coded raw M S i) [0..<M + P])"
proof -
  have len: "length shards = M + P" and S: "shards \<noteq> []" "length (bytes (shards ! 0)) = S"
    using full M by (auto simp: full_set_def)
  have "sort_key index (filter isData shards) = take M shards"
    unfolding full_set_filter(2) [OF full]
    by (rule sort_key_id) (simp add: full_set_map [OF full] sorted_wrt_take flip: take_map)
  moreover have "encode (concat raw) M P = Inr (map (shard_of (concat raw) M) [0..<M + P])"
    using M by (rule encode_spec)
  moreover have "compareShards (map (shard_of (concat raw) M) [0..<M + P]) shards =
      Inr (filter (\<lambda>i. bytes (shards ! i) \<noteq> coded raw M S i) [0..<M + P])"
  proof -
    let ?re = "map (shard_of (concat raw) M) [0..<M + P]"
    have "compareShards ?re shards =
        Inr (map index (filter (\<lambda>s. shard_differs (bytes s) (bytes (?re ! index s))) shards))"
      by (rule compareShards_spec) (use full in \<open>auto simp: full_set_def in_set_conv_nth\<close>)
    also have "map index (filter (\<lambda>s. shard_differs (bytes s) (bytes (?re ! index s))) shards) =
        filter (\<lambda>i. bytes (shards ! i) \<noteq> coded raw M S i) [0..<M + P]"
      unfolding full_set_filter_index [OF full]
      by (rule filter_cong) (use full raw M in \<open>auto simp: full_set_def shard_of_def
          raw_shards_concat [OF raw M(1)] shard_differs_same_length\<close>)
    finally show ?thesis .
  qed
  ultimately show ?thesis
    using src S len join_rows_spec [OF raw] full_set_sort [OF full]
    by (auto simp: verifyShards_def Let_def)
qed

lemma canonicalData_intact:
  assumes M: "0 < M" "M \<le> P" "M + P \<le> 255" and full: "full_set shards M P S" and raw: "rows_ok raw M S"
    and par: "\<And>i. M \<le> i \<Longrightarrow> i < 2 * M \<Longrightarrow> bytes (shards ! i) = coded raw M S i"
  shows "canonicalData shards M P S = Some raw"
proof -
  let ?sel = "take M (drop M shards)"
  have nth: "\<exists>k<M. s = shards ! (M + k)" if "s \<in> set ?sel" for s
    using that full M by (auto simp: in_set_conv_nth full_set_def)
  have "map index ?sel = [M..<M + M]"
    using full M by (intro nth_equalityI) (auto simp: full_set_def)
  moreover have "index s < M + P \<and> bytes s = coded raw M S (index s)" if "s \<in> set ?sel" for s
  proof -
    from that obtain k where "k < M" "s = shards ! (M + k)"
      using nth by blast
    with full M par [of "M + k"] show ?thesis by (auto simp: full_set_def)
  qed
  ultimately have "shards_of raw M P S ?sel"
    by (simp add: shards_of_def)
  then have "decode ?sel M P (Some (M * S)) = Inr (take (M * S) (concat raw))"
    using decode_spec [OF raw M(1), of P ?sel "Some (M * S)"] full M by (simp add: full_set_def)
  also have "take (M * S) (concat raw) = concat raw"
    by (simp add: length_concat_rows [OF raw])
  moreover have "map (\<lambda>i. js_slice (concat raw) (i * S) ((i + 1) * S)) [0..<M] = raw"
    using raw chunk_concat [OF raw] by (intro nth_equalityI) (auto simp: rows_ok_def chunk_def)
  ultimately show ?thesis
    using full M full_set_filter(1) [OF full] by (simp add: canonicalData_def full_set_def)
qed


lemma encode_InrD:
  assumes "encode d M P = Inr shards"
  shows "0 < M" "0 < P" "M + P \<le> 255" "shards = map (shard_of d M) [0..<M + P]"
proof -
  show M: "0 < M" "0 < P" "M + P \<le> 255"
    using assms by (auto simp: encode_def GF_SIZE_def split: if_splits)
  show "shards = map (shard_of d M) [0..<M + P]"
    using assms encode_spec [OF M] by simp
qed

lemma encode_full_set:
  assumes "encode d M P = Inr shards"
  shows "full_set shards M P (shard_size d M)"
  using encode_InrD [OF assms] raw_shards_ok [of M d] by (simp add: full_set_def shard_of_def)

lemma encode_shards_of:
  assumes "encode d M P = Inr shards"
  shows "shards_of (raw_shards d M) M P (shard_size d M) shards"
  using encode_InrD [OF assms] by (auto simp: shards_of_def shard_of_def o_def)

lemma decode_shards:
  assumes "encode d M P = Inr shards"
    and "distinct (map index avail)" and "M \<le> length avail"
    and "\<forall>s \<in> set avail. \<exists>t \<in> set shards. index s = index t \<and> bytes s = bytes t"
  shows "decode avail M P (Some (length d)) = Inr d"
proof -
  note e = encode_InrD [OF assms(1)]
  have "shards_of (raw_shards d M) M P (shard_size d M) avail"
    using assms(2,4) encode_shards_of [OF assms(1)] by (fastforce simp: shards_of_def)
  with decode_spec [OF raw_shards_ok, of M P d avail "Some (length d)"] e assms(3)
  show ?thesis by (simp add: concat_raw_shards)
qed

section \<open>Properties\<close>

text \<open>
  C1. Recovery: let \<open>shards\<close> be the encoding of a payload into \<open>M\<close> data and \<open>P\<close> parity shards.
  Decoding any at least \<open>M\<close> of them, in any order and with arbitrary pinning metadata, returns the
  payload; no exception is thrown.
\<close>

theorem decode_encode:
  assumes "encode d M P = Inr shards"
    and "distinct (map index avail)" and "M \<le> length avail"
    and "\<forall>s \<in> set avail. \<exists>t \<in> set shards. index s = index t \<and> bytes s = bytes t"
  shows "decode avail M P (Some (length d)) = Inr d"
  using assms by (rule decode_shards)

theorem decode_encode_witness:
  "\<exists>shards. encode [1, 2, 3] 2 1 = Inr shards \<and> decode (rev (drop 1 shards)) 2 1 (Some 3) = Inr [1, 2, 3]"
proof -
  have e: "encode [1, 2, 3] 2 1 = Inr (map (shard_of [1, 2, 3] 2) [0, 1, 2])"
    using encode_spec [of 2 1 "[1, 2, 3]"] by (simp add: upt_rec numeral_2_eq_2)
  have "decode (rev (drop 1 (map (shard_of [1, 2, 3] 2) [0, 1, 2]))) 2 1 (Some (length [1 :: byte, 2, 3])) = Inr [1, 2, 3]"
    by (rule decode_encode [OF e]) (auto simp: shard_of_def)
  with e show ?thesis by (simp add: numeral_3_eq_3)
qed

text \<open>
  A complete, untouched encoding passes the consistency check.
\<close>

theorem verifyShards_clean:
  assumes "encode d M P = Inr shards"
  shows "verifyShards shards M P = Inr []"
proof -
  note e = encode_InrD [OF assms] and f = encode_full_set [OF assms] and r = raw_shards_ok [of M d]
  have b: "bytes (shards ! i) = coded (raw_shards d M) M (shard_size d M) i" if "i < M + P" for i
    using that by (simp add: e(4) shard_of_def)
  have "canonicalData shards M P (shard_size d M) = Some (raw_shards d M) \<or>
      canonicalData shards M P (shard_size d M) = None \<and> map bytes (take M shards) = raw_shards d M"
  proof (cases "M \<le> P")
    case True
    then show ?thesis
      using e f r b by (intro disjI1 canonicalData_intact) auto
  next
    case False
    have "map bytes (take M shards) = raw_shards d M"
      using e r b by (intro nth_equalityI) (auto simp: rows_ok_def coded_def)
    with False full_set_filter(1) [OF f] e show ?thesis
      by (simp add: canonicalData_def)
  qed
  from verify_reencode [OF e(1-3) f r [OF e(1)] this] b show ?thesis by (simp add: filter_empty_conv)
qed

theorem verifyShards_clean_witness:
  "\<exists>shards. encode [1, 2, 3] 2 3 = Inr shards \<and> verifyShards shards 2 3 = Inr []"
  using encode_spec [of 2 3 "[1, 2, 3]"] verifyShards_clean [of "[1, 2, 3]" 2 3] by simp

text \<open>
  With at least as many parity as data shards, corruption of any data shard, and of any parity
  shard other than the first \<open>M\<close> parity shards, is located exactly: the check returns, in order, the
  indices of the shards that differ from the original encoding.
\<close>

theorem verifyShards_locates:
  assumes "encode d M P = Inr orig" and "M \<le> P" and "length shards = length orig"
    and "\<forall>i < length orig. index (shards ! i) = i \<and> isData (shards ! i) = isData (orig ! i)
           \<and> length (bytes (shards ! i)) = length (bytes (orig ! i))"
    and "\<forall>i \<in> {M..<2 * M}. bytes (shards ! i) = bytes (orig ! i)"
  shows "verifyShards shards M P = Inr (filter (\<lambda>i. bytes (shards ! i) \<noteq> bytes (orig ! i)) [0..<length orig])"
proof -
  note e = encode_InrD [OF assms(1)] and f = encode_full_set [OF assms(1)] and r = raw_shards_ok [of M d]
  have b: "bytes (orig ! i) = coded (raw_shards d M) M (shard_size d M) i" if "i < M + P" for i
    using that by (simp add: e(4) shard_of_def)
  have full: "full_set shards M P (shard_size d M)"
    using f assms(3,4) by (simp add: full_set_def)
  moreover have "canonicalData shards M P (shard_size d M) = Some (raw_shards d M)"
    using e full r b assms(2,5) by (intro canonicalData_intact) auto
  ultimately have "verifyShards shards M P =
      Inr (filter (\<lambda>i. bytes (shards ! i) \<noteq> coded (raw_shards d M) M (shard_size d M) i) [0..<M + P])"
    using e r by (intro verify_reencode) auto
  also have "filter (\<lambda>i. bytes (shards ! i) \<noteq> coded (raw_shards d M) M (shard_size d M) i) [0..<M + P] =
      filter (\<lambda>i. bytes (shards ! i) \<noteq> bytes (orig ! i)) [0..<length orig]"
    using b e by (intro filter_cong) auto
  finally show ?thesis .
qed

theorem verifyShards_locates_witness:
  "\<exists>parity. encode [7] 1 1 = Inr [\<lparr>index = 0, isData = True, bytes = [7], cid = None, node = None\<rparr>, parity]
     \<and> verifyShards [\<lparr>index = 0, isData = True, bytes = [9], cid = None, node = None\<rparr>, parity] 1 1 = Inr [0]"
proof -
  have s: "shard_of [7] 1 0 = \<lparr>index = 0, isData = True, bytes = [7], cid = None, node = None\<rparr>"
    by (simp add: shard_of_def coded_def raw_shards_def shard_size_def math_ceil_div_def chunk_def pad_def js_slice_def)
  have e: "encode [7] 1 1 = Inr [shard_of [7] 1 0, shard_of [7] 1 1]"
    using encode_spec [of 1 1 "[7]"] by (simp add: upt_rec)
  have "verifyShards [\<lparr>index = 0, isData = True, bytes = [9], cid = None, node = None\<rparr>, shard_of [7] 1 1] 1 1 =
      Inr (filter (\<lambda>i. bytes ([\<lparr>index = 0, isData = True, bytes = [9], cid = None, node = None\<rparr>, shard_of [7] 1 1] ! i)
        \<noteq> bytes ([shard_of [7] 1 0, shard_of [7] 1 1] ! i)) [0..<length [shard_of [7] 1 0, shard_of [7] 1 1]])"
    by (rule verifyShards_locates [OF e]) (auto simp: s [simplified] less_Suc_eq)
  then show ?thesis
    using e by (auto simp: s [simplified] upt_rec)
qed



end
