(* ===== verification/Shard_Distribution.thy ===== *)
theory Shard_Distribution
  imports Erasure_Coding
begin

text \<open>
  The distribution half of \<^verbatim>\<open>services/erasureCoding.service.ts\<close>: pinning the shards of an encoding
  to storage nodes, fetching them back and reconstructing the payload.

  A pinning node is a record of two functions, as in the source. The network behind them is not
  part of the program: the default nodes take the environment strings and an HTTP client as
  parameters, and the properties speak of arbitrary nodes. The uploads of one call run concurrently
  and append to two shared arrays when they settle; the order in which they settle is the argument
  \<open>order\<close>, a permutation of the positions.
\<close>

section \<open>Nodes and manifests\<close>

record PinningNode =
  name :: string
  uploadFn :: "byte list \<Rightarrow> string \<Rightarrow> string result"
  fetchFn :: "string \<Rightarrow> byte list result"

record ManifestEntry =
  e_index :: nat
  e_isData :: bool
  e_cid :: string
  e_node :: string

record ShardManifest =
  totalShards :: nat
  dataShards :: nat
  parityShards :: nat
  originalSize :: nat
  m_shards :: "ManifestEntry list"

record DistributionResult =
  manifest :: ShardManifest
  failed :: "(nat \<times> string) list"

text \<open>\<^verbatim>\<open>err?.message ?? String(err)\<close>\<close>

fun err_message :: "exn \<Rightarrow> string" where
  "err_message (Error m) = m"
| "err_message (RangeError m) = m"
| "err_message SyntaxError = ''SyntaxError''"
| "err_message TypeError = ''TypeError''"

section \<open>The default nodes\<close>

text \<open>
  The parts of a response the code reads: the flag and the status, the string fields of the parsed
  body, the raw body.
\<close>

record HttpResponse =
  ok :: bool
  status :: nat
  json_string :: "string \<Rightarrow> string option"
  body :: "byte list"

record HttpClient =
  post_file :: "string \<Rightarrow> string \<Rightarrow> byte list \<Rightarrow> string \<Rightarrow> HttpResponse result"
  http_get :: "string \<Rightarrow> HttpResponse result"

definition envString :: "(string \<Rightarrow> string option) \<Rightarrow> string \<Rightarrow> string option" where
  "envString env n = (case env n of None \<Rightarrow> None | Some v \<Rightarrow> if js_trim v \<noteq> '''' then Some (js_trim v) else None)"

definition DEFAULT_LIGHTHOUSE_GATEWAY :: string where
  "DEFAULT_LIGHTHOUSE_GATEWAY = ''https://gateway.lighthouse.storage/ipfs/''"

definition LIGHTHOUSE_UPLOAD_URL :: string where
  "LIGHTHOUSE_UPLOAD_URL = ''https://upload.lighthouse.storage/api/v0/upload''"

definition fetch_bytes :: "HttpClient \<Rightarrow> string \<Rightarrow> string \<Rightarrow> string \<Rightarrow> byte list result" where
  "fetch_bytes http who url c =
     bindE (http_get http (url @ c)) (\<lambda>resp.
       if \<not> ok resp then Inl (Error (who @ '' fetch failed: '' @ js_num (status resp)))
       else Inr (body resp))"

text \<open>A missing \<^verbatim>\<open>IpfsHash\<close> is returned as \<^verbatim>\<open>undefined\<close> by the source, here the empty identifier.\<close>

definition pinataNode :: "HttpClient \<Rightarrow> string \<Rightarrow> PinningNode" where
  "pinataNode http jwt = \<lparr>name = ''pinata'',
     uploadFn = (\<lambda>d n. bindE (post_file http ''https://api.pinata.cloud/pinning/pinFileToIPFS'' (''Bearer '' @ jwt) d n)
       (\<lambda>resp. if \<not> ok resp then Inl (Error (''Pinata upload failed: '' @ js_num (status resp)))
               else Inr (case json_string resp ''IpfsHash'' of None \<Rightarrow> '''' | Some h \<Rightarrow> h))),
     fetchFn = fetch_bytes http ''Pinata'' ''https://gateway.pinata.cloud/ipfs/''\<rparr>"

definition lighthouseNode :: "HttpClient \<Rightarrow> string \<Rightarrow> string \<Rightarrow> PinningNode" where
  "lighthouseNode http key gateway = \<lparr>name = ''lighthouse'',
     uploadFn = (\<lambda>d n. bindE (post_file http LIGHTHOUSE_UPLOAD_URL (''Bearer '' @ key) d n)
       (\<lambda>resp. if \<not> ok resp then Inl (Error (''Lighthouse upload failed: '' @ js_num (status resp)))
               else let h = (case json_string resp ''Hash'' of Some h \<Rightarrow> Some h | None \<Rightarrow> json_string resp ''hash'')
                    in case h of
                         None \<Rightarrow> Inl (Error ''Lighthouse upload response missing Hash'')
                       | Some h \<Rightarrow> if h = '''' then Inl (Error ''Lighthouse upload response missing Hash'') else Inr h)),
     fetchFn = fetch_bytes http ''Lighthouse'' gateway\<rparr>"

definition ipfsIoNode :: "HttpClient \<Rightarrow> PinningNode" where
  "ipfsIoNode http = \<lparr>name = ''ipfs.io'',
     uploadFn = (\<lambda>d n. Inl (Error ''ipfs.io is a read-only gateway - cannot pin'')),
     fetchFn = fetch_bytes http ''ipfs.io'' ''https://ipfs.io/ipfs/''\<rparr>"

definition buildDefaultNodes :: "(string \<Rightarrow> string option) \<Rightarrow> HttpClient \<Rightarrow> PinningNode list" where
  "buildDefaultNodes env http =
     (case envString env ''VITE_PINATA_JWT'' of None \<Rightarrow> [] | Some jwt \<Rightarrow> [pinataNode http jwt])
     @ (case envString env ''VITE_LIGHTHOUSE_API_KEY'' of None \<Rightarrow> []
        | Some key \<Rightarrow> [lighthouseNode http key
            (case envString env ''VITE_LIGHTHOUSE_GATEWAY_URL'' of
               None \<Rightarrow> DEFAULT_LIGHTHOUSE_GATEWAY | Some g \<Rightarrow> g)])
     @ [ipfsIoNode http]"

section \<open>Distribution\<close>

definition shardName :: "Shard \<Rightarrow> string" where
  "shardName s = ''shard-'' @ js_num (index s) @ ''-'' @ (if isData s then ''data'' else ''parity'')"

definition upload_at :: "PinningNode list \<Rightarrow> Shard list \<Rightarrow> nat \<Rightarrow> string result" where
  "upload_at nodes shards i =
     uploadFn (nodes ! (i mod length nodes)) (bytes (shards ! i)) (shardName (shards ! i))"

text \<open>What the callback of one position does to the two arrays when it settles.\<close>

definition settle :: "bool \<Rightarrow> PinningNode list \<Rightarrow> Shard list \<Rightarrow> nat \<Rightarrow>
    ManifestEntry list \<times> (nat \<times> string) list \<Rightarrow> ManifestEntry list \<times> (nat \<times> string) list" where
  "settle aborted nodes shards i = (\<lambda>(pinned, failures).
     let shard = shards ! i in
     if aborted then (pinned, failures @ [(index shard, ''Aborted'')])
     else case upload_at nodes shards i of
            Inr c \<Rightarrow> (pinned @ [\<lparr>e_index = index shard, e_isData = isData shard, e_cid = c,
                                 e_node = name (nodes ! (i mod length nodes))\<rparr>], failures)
          | Inl err \<Rightarrow> (pinned, failures @ [(index shard, err_message err)]))"

definition distributeShards :: "PinningNode list \<Rightarrow> bool \<Rightarrow> nat list \<Rightarrow> nat \<Rightarrow> Shard list \<Rightarrow> DistributionResult result" where
  "distributeShards nodes aborted order osz shards =
     (if nodes = [] then Inl (Error ''No pinning nodes available'')
      else case fold (settle aborted nodes shards) order ([], []) of (pinned, failures) \<Rightarrow>
        Inr \<lparr>manifest = \<lparr>totalShards = length shards,
                           dataShards = length (filter isData shards),
                           parityShards = length (filter (\<lambda>s. \<not> isData s) shards),
                           originalSize = osz,
                           m_shards = sort_key e_index pinned\<rparr>,
             failed = failures\<rparr>)"

section \<open>Retrieval\<close>

definition retrieveEntry :: "PinningNode list \<Rightarrow> bool \<Rightarrow> ManifestEntry \<Rightarrow> Shard result" where
  "retrieveEntry nodes aborted entry =
     (if aborted then Inl (Error ''Aborted'')
      else case map_of (rev (map (\<lambda>n. (name n, n)) nodes)) (e_node entry) of
             None \<Rightarrow> Inl (Error (''Unknown node: '' @ e_node entry))
           | Some n \<Rightarrow> bindE (fetchFn n (e_cid entry)) (\<lambda>d.
               Inr \<lparr>index = e_index entry, isData = e_isData entry, bytes = d,
                    cid = Some (e_cid entry), node = Some (e_node entry)\<rparr>))"

fun fulfilled :: "'a result list \<Rightarrow> 'a list" where
  "fulfilled [] = []"
| "fulfilled (Inr a # rs) = a # fulfilled rs"
| "fulfilled (Inl e # rs) = fulfilled rs"

definition retrieveShards :: "ShardManifest \<Rightarrow> PinningNode list \<Rightarrow> bool \<Rightarrow> Shard list result" where
  "retrieveShards man nodes aborted =
     (let results = map (retrieveEntry nodes aborted) (m_shards man);
          retrieved = fulfilled results;
          fetchFailures = length results - length retrieved
      in if length retrieved < dataShards man
         then Inl (Error (''Too many fetch failures ('' @ js_num fetchFailures @ ''): only '' @ js_num (length retrieved)
                @ ''/'' @ js_num (totalShards man) @ '' shards retrieved, need at least '' @ js_num (dataShards man)))
         else Inr retrieved)"

definition encodeAndDistribute :: "byte list \<Rightarrow> ShardConfig \<Rightarrow> PinningNode list \<Rightarrow> bool \<Rightarrow> nat list \<Rightarrow> DistributionResult result" where
  "encodeAndDistribute encryptedData config nodes aborted order =
     bindE (encode encryptedData (cfg_dataShards config) (cfg_parityShards config)) (\<lambda>shards.
       distributeShards nodes aborted order (length encryptedData) shards)"

definition reconstructFromManifest :: "ShardManifest \<Rightarrow> PinningNode list \<Rightarrow> bool \<Rightarrow> byte list result" where
  "reconstructFromManifest man nodes aborted =
     bindE (retrieveShards man nodes aborted) (\<lambda>shards.
       decode shards (dataShards man) (parityShards man) (Some (originalSize man)))"

section \<open>The two arrays after all uploads have settled\<close>

definition entry_of :: "PinningNode list \<Rightarrow> Shard list \<Rightarrow> nat \<Rightarrow> ManifestEntry" where
  "entry_of nodes shards i = \<lparr>e_index = index (shards ! i), e_isData = isData (shards ! i),
     e_cid = (case upload_at nodes shards i of Inl e \<Rightarrow> '''' | Inr c \<Rightarrow> c),
     e_node = name (nodes ! (i mod length nodes))\<rparr>"

definition uploaded :: "PinningNode list \<Rightarrow> Shard list \<Rightarrow> nat \<Rightarrow> bool" where
  "uploaded nodes shards i \<longleftrightarrow> (\<exists>c. upload_at nodes shards i = Inr c)"

lemma settle_pinned:
  "fst (fold (settle False nodes shards) order acc) =
     fst acc @ map (entry_of nodes shards) (filter (uploaded nodes shards) order)"
  by (induction order arbitrary: acc)
    (auto simp: settle_def entry_of_def uploaded_def Let_def split: sum.splits)

lemma settle_failed:
  "length (snd (fold (settle ab nodes shards) order acc)) =
     length (snd acc) + (if ab then length order else length (filter (\<lambda>i. \<not> uploaded nodes shards i) order))"
  by (induction order arbitrary: acc)
    (auto simp: settle_def uploaded_def Let_def split: sum.splits)

lemma length_fulfilled: "length (fulfilled rs) \<le> length rs"
  by (induction rs rule: fulfilled.induct) auto

lemma fulfilled_map: "fulfilled (map f xs) = map (\<lambda>x. projr (f x)) (filter (\<lambda>x. \<exists>y. f x = Inr y) xs)"
proof (induction xs)
  case (Cons x xs)
  then show ?case by (cases "f x") auto
qed simp

text \<open>Names identify the nodes, so an entry is fetched from the node that pinned it.\<close>

lemma node_lookup:
  assumes "distinct (map name nodes)" "n \<in> set nodes"
  shows "map_of (rev (map (\<lambda>n. (name n, n)) nodes)) (name n) = Some n"
  using assms by (intro map_of_is_SomeI) (auto simp: rev_map [symmetric] o_def)

definition fetched :: "PinningNode list \<Rightarrow> Shard list \<Rightarrow> nat \<Rightarrow> bool" where
  "fetched nodes shards i \<longleftrightarrow> (case upload_at nodes shards i of Inl e \<Rightarrow> False
     | Inr c \<Rightarrow> (\<exists>d. fetchFn (nodes ! (i mod length nodes)) c = Inr d))"

definition faithful :: "PinningNode \<Rightarrow> bool" where
  "faithful n \<longleftrightarrow> (\<forall>d nm c d'. uploadFn n d nm = Inr c \<longrightarrow> fetchFn n c = Inr d' \<longrightarrow> d' = d)"

lemma retrieve_entry_of:
  assumes nodes: "distinct (map name nodes)" "nodes \<noteq> []" "\<forall>n \<in> set nodes. faithful n"
    and up: "uploaded nodes shards i"
  shows "(\<exists>s. retrieveEntry nodes False (entry_of nodes shards i) = Inr s) \<longleftrightarrow> fetched nodes shards i"
    "retrieveEntry nodes False (entry_of nodes shards i) = Inr s \<Longrightarrow>
       index s = index (shards ! i) \<and> bytes s = bytes (shards ! i)"
proof -
  let ?n = "nodes ! (i mod length nodes)"
  have n: "?n \<in> set nodes" using nodes(2) by simp
  obtain c where c: "upload_at nodes shards i = Inr c"
    using up by (auto simp: uploaded_def)
  then have r: "retrieveEntry nodes False (entry_of nodes shards i) = bindE (fetchFn ?n c) (\<lambda>d.
      Inr \<lparr>index = index (shards ! i), isData = isData (shards ! i), bytes = d, cid = Some c, node = Some (name ?n)\<rparr>)"
    using node_lookup [OF nodes(1) n] by (simp add: retrieveEntry_def entry_of_def)
  show "(\<exists>s. retrieveEntry nodes False (entry_of nodes shards i) = Inr s) \<longleftrightarrow> fetched nodes shards i"
    by (auto simp: r c fetched_def bindE_eq_Inr)
  show "index s = index (shards ! i) \<and> bytes s = bytes (shards ! i)"
    if "retrieveEntry nodes False (entry_of nodes shards i) = Inr s"
    using that c nodes(3) n by (auto simp: r bindE_eq_Inr faithful_def upload_at_def)
qed

lemma length_filter_perm: "distinct xs \<Longrightarrow> set xs = {..<n} \<Longrightarrow> length (filter P xs) = card {i. i < n \<and> P i}"
  by (subst distinct_card [symmetric]) (auto intro!: arg_cong [where f = card])

text \<open>The shards that come back are, up to order, the surviving ones.\<close>

lemma retrieved_shards:
  fixes nodes shards order
  defines "man_shards \<equiv> sort_key e_index (map (entry_of nodes shards) (filter (uploaded nodes shards) order))"
  defines "back \<equiv> fulfilled (map (retrieveEntry nodes False) man_shards)"
  assumes nodes: "distinct (map name nodes)" "nodes \<noteq> []" "\<forall>n \<in> set nodes. faithful n"
    and order: "distinct order" "set order = {..<length shards}"
    and shards: "distinct (map index shards)"
  shows "distinct (map index back)"
    "length back = card {i. i < length shards \<and> fetched nodes shards i}"
    "\<forall>s \<in> set back. \<exists>t \<in> set shards. index s = index t \<and> bytes s = bytes t"
proof -
  let ?ok = "\<lambda>e. \<exists>s. retrieveEntry nodes False e = Inr s"
  let ?ups = "filter (uploaded nodes shards) order"
  have dist: "distinct (map e_index man_shards)"
  proof -
    have "inj_on (\<lambda>i. index (shards ! i)) (set ?ups)"
      using shards order(2) by (auto simp: inj_on_def distinct_conv_nth)
    then have "distinct (map e_index (map (entry_of nodes shards) ?ups))"
      using order(1) by (simp add: o_def entry_of_def distinct_map)
    then show ?thesis
      unfolding man_shards_def by (simp only: distinct_map_sort_key)
  qed
  have idx: "index (projr (retrieveEntry nodes False e)) = e_index e" if "?ok e" for e
    using that by (auto simp: retrieveEntry_def bindE_eq_Inr split: if_splits option.splits)
  have "map index back = map e_index (filter ?ok man_shards)"
    unfolding back_def fulfilled_map map_map by (rule map_cong) (auto simp: idx)
  then show "distinct (map index back)"
    using dist by (simp add: distinct_map_filter)
  have "length back = length (filter ?ok man_shards)"
    by (simp add: back_def fulfilled_map)
  also have "\<dots> = length (filter ?ok (map (entry_of nodes shards) ?ups))"
    unfolding man_shards_def by (simp add: filter_sort)
  also have "\<dots> = length (filter (fetched nodes shards) order)"
  proof -
    have "filter (?ok \<circ> entry_of nodes shards) ?ups = filter (fetched nodes shards) ?ups"
      by (rule filter_cong) (use retrieve_entry_of(1) [OF nodes] in auto)
    also have "\<dots> = filter (fetched nodes shards) order"
      by (auto simp: fetched_def uploaded_def intro!: filter_cong split: sum.splits)
    finally show ?thesis by (simp add: filter_map)
  qed
  also have "\<dots> = card {i. i < length shards \<and> fetched nodes shards i}"
    by (rule length_filter_perm [OF order])
  finally show "length back = card {i. i < length shards \<and> fetched nodes shards i}" .
  show "\<forall>s \<in> set back. \<exists>t \<in> set shards. index s = index t \<and> bytes s = bytes t"
  proof
    fix s
    assume "s \<in> set back"
    then obtain i where i: "i < length shards" "uploaded nodes shards i"
      "retrieveEntry nodes False (entry_of nodes shards i) = Inr s"
      using order(2) by (auto simp: back_def fulfilled_map man_shards_def)
    from retrieve_entry_of(2) [OF nodes i(2,3)] i(1)
    show "\<exists>t \<in> set shards. index s = index t \<and> bytes s = bytes t" by auto
  qed
qed

section \<open>Properties\<close>

text \<open>
  C2. End to end: a payload encoded and distributed over nodes with distinct names that return
  what was stored under an identifier, or fail, is reconstructed from the manifest whenever at least
  \<open>M\<close> of the shards were uploaded and can be fetched, whatever the order in which the uploads
  settled.
\<close>

theorem reconstruct_distributed:
  assumes enc: "encode d (cfg_dataShards cfg) (cfg_parityShards cfg) = Inr shards"
    and nodes: "nodes \<noteq> []" "distinct (map name nodes)" "\<forall>n \<in> set nodes. faithful n"
    and order: "distinct order" "set order = {..<length shards}"
    and alive: "cfg_dataShards cfg \<le> card {i. i < length shards \<and> fetched nodes shards i}"
  shows "\<exists>r. encodeAndDistribute d cfg nodes False order = Inr r
           \<and> reconstructFromManifest (manifest r) nodes False = Inr d"
proof -
  let ?M = "cfg_dataShards cfg" and ?P = "cfg_parityShards cfg"
  note e = encode_InrD [OF enc]
  have full: "full_set shards ?M ?P (shard_size d ?M)"
    by (rule encode_full_set [OF enc])
  have idx: "distinct (map index shards)"
    by (simp add: full_set_map [OF full])
  obtain pinned failures where st: "fold (settle False nodes shards) order ([], []) = (pinned, failures)"
    by fastforce
  then have pinned: "pinned = map (entry_of nodes shards) (filter (uploaded nodes shards) order)"
    using settle_pinned [of nodes shards order "([], [])"] by simp
  define man where "man = \<lparr>totalShards = length shards, dataShards = ?M, parityShards = ?P,
    originalSize = length d, m_shards = sort_key e_index pinned\<rparr>"
  have "encodeAndDistribute d cfg nodes False order = Inr \<lparr>manifest = man, failed = failures\<rparr>"
    using enc nodes(1) st full_set_filter [OF full] e
    by (simp add: encodeAndDistribute_def distributeShards_def man_def)
  moreover have "reconstructFromManifest man nodes False = Inr d"
  proof -
    note ret = retrieved_shards [OF nodes(2,1,3) order idx]
    have "retrieveShards man nodes False = Inr (fulfilled (map (retrieveEntry nodes False) (m_shards man)))"
      using ret(2) alive by (simp add: retrieveShards_def man_def pinned Let_def)
    with decode_shards [OF enc ret(1) _ ret(3)] ret(2) alive show ?thesis
      by (simp add: reconstructFromManifest_def man_def pinned)
  qed
  ultimately show ?thesis by auto
qed

text \<open>A node that keeps the bytes in the identifier.\<close>

definition inlineNode :: PinningNode where
  "inlineNode = \<lparr>name = ''inline'', uploadFn = (\<lambda>d nm. Inr (map (\<lambda>b. char_of (unat b)) d)),
     fetchFn = (\<lambda>c. Inr (map (\<lambda>ch. word_of_nat (of_char ch)) c))\<rparr>"

lemma inlineNode_faithful: "faithful inlineNode"
proof -
  have "(word_of_nat (of_char (char_of (unat b))) :: byte) = b" for b :: byte
  proof -
    have "unat b < 256" using unsigned_less [of b] by simp
    then show ?thesis
      by (intro word_unat_eq_iff [THEN iffD2]) (simp add: unat_of_nat)
  qed
  then show ?thesis by (simp add: faithful_def inlineNode_def o_def)
qed

theorem reconstruct_distributed_witness:
  "\<exists>r. encodeAndDistribute [1, 2, 3] \<lparr>cfg_dataShards = 2, cfg_parityShards = 1\<rparr> [inlineNode] False [2, 0, 1] = Inr r
     \<and> reconstructFromManifest (manifest r) [inlineNode] False = Inr [1, 2, 3]"
proof (rule reconstruct_distributed)
  show "encode [1, 2, 3] (cfg_dataShards \<lparr>cfg_dataShards = 2, cfg_parityShards = 1\<rparr>)
      (cfg_parityShards \<lparr>cfg_dataShards = 2, cfg_parityShards = 1\<rparr>) = Inr (map (shard_of [1, 2, 3] 2) [0..<3])"
    using encode_spec [of 2 1 "[1, 2, 3]"] by simp
  have "{i. i < length (map (shard_of [1, 2, 3] 2) [0..<3]) \<and>
      fetched [inlineNode] (map (shard_of [1, 2, 3] 2) [0..<3]) i} = {..<3}"
    by (auto simp: fetched_def upload_at_def inlineNode_def)
  then show "cfg_dataShards \<lparr>cfg_dataShards = 2, cfg_parityShards = 1\<rparr> \<le> card {i. i < length (map (shard_of [1, 2, 3] 2) [0..<3]) \<and>
      fetched [inlineNode] (map (shard_of [1, 2, 3] 2) [0..<3]) i}"
    by simp
qed (auto simp: inlineNode_faithful)

text \<open>Positions that fall on the read-only gateway are never pinned.\<close>

lemma default_nodes_last:
  "buildDefaultNodes env http \<noteq> []"
  "buildDefaultNodes env http ! (length (buildDefaultNodes env http) - 1) = ipfsIoNode http"
  by (simp_all add: buildDefaultNodes_def nth_append)

lemma default_nodes_not_uploaded:
  assumes "nodes = buildDefaultNodes env http" "i mod length nodes = length nodes - 1"
  shows "\<not> uploaded nodes shards i"
  using assms default_nodes_last(2) [of env http]
  by (simp add: uploaded_def upload_at_def ipfsIoNode_def)

lemma settle_aborted: "fst (fold (settle True nodes shards) order acc) = fst acc"
  by (induction order arbitrary: acc) (auto simp: settle_def split: prod.splits)

lemma pinned_bound:
  assumes nodes: "nodes = buildDefaultNodes env http"
    and order: "distinct order" "set order = {..<n}"
  shows "length (fst (fold (settle ab nodes shards) order ([], []))) \<le>
    card {i. i < n \<and> i mod length nodes \<noteq> length nodes - 1}"
proof (cases ab)
  case False
  have "length (filter (uploaded nodes shards) order) = card {i. i < n \<and> uploaded nodes shards i}"
    by (rule length_filter_perm [OF order])
  also have "\<dots> \<le> card {i. i < n \<and> i mod length nodes \<noteq> length nodes - 1}"
    using default_nodes_not_uploaded [OF nodes] by (intro card_mono) auto
  finally show ?thesis
    using False by (simp add: settle_pinned)
qed (simp add: settle_aborted)

lemma card_even_below_six: "card {i. i < 6 \<and> i mod 2 \<noteq> (1 :: nat)} = 3"
proof -
  have "{i. i < 6 \<and> i mod 2 \<noteq> (1 :: nat)} = {0, 2, 4}"
  proof (rule set_eqI)
    fix i :: nat
    have "i < 6 \<longleftrightarrow> i = 0 \<or> i = 1 \<or> i = 2 \<or> i = 3 \<or> i = 4 \<or> i = 5" by linarith
    then show "i \<in> {i. i < 6 \<and> i mod 2 \<noteq> 1} \<longleftrightarrow> i \<in> {0, 2, 4}" by auto
  qed
  then show ?thesis by simp
qed

lemma too_few_entries:
  assumes "length (m_shards man) < dataShards man"
  shows "\<exists>msg. reconstructFromManifest man nodes ab = Inl (Error msg)"
  using assms length_fulfilled [of "map (retrieveEntry nodes ab) (m_shards man)"]
  by (simp add: reconstructFromManifest_def retrieveShards_def Let_def)

text \<open>
  With the default nodes, the default configuration and at most one upload provider configured,
  distribution returns normally but pins at most three of the six shards (the others are assigned to
  a gateway that cannot pin), so the resulting manifest can never be reconstructed: every later
  reconstruction throws, whatever the nodes it is given.
\<close>

theorem default_nodes_unrecoverable:
  assumes "length (buildDefaultNodes env http) \<le> 2"
    and "distinct order" "set order = {..<6}"
  shows "\<exists>r. encodeAndDistribute d DEFAULT_SHARD_CONFIG (buildDefaultNodes env http) aborted order = Inr r
           \<and> length (m_shards (manifest r)) \<le> 3
           \<and> (\<forall>nodes' ab. \<exists>msg. reconstructFromManifest (manifest r) nodes' ab = Inl (Error msg))"
proof -
  let ?nodes = "buildDefaultNodes env http"
  define shards where "shards = map (shard_of d 4) [0..<6]"
  have enc: "encode d 4 2 = Inr shards"
    using encode_spec [of 4 2 d] by (simp add: shards_def)
  have full: "full_set shards 4 2 (shard_size d 4)"
    by (rule encode_full_set [OF enc])
  obtain pinned failures where st: "fold (settle aborted ?nodes shards) order ([], []) = (pinned, failures)"
    by fastforce
  have len: "length ?nodes = 1 \<or> length ?nodes = 2"
    using assms(1) default_nodes_last(1) [of env http] by (cases ?nodes) (auto simp: le_Suc_eq)
  then have "card {i. i < 6 \<and> i mod length ?nodes \<noteq> length ?nodes - 1} \<le> 3"
    using card_even_below_six by auto
  then have p: "length pinned \<le> 3"
    using pinned_bound [OF refl assms(2,3), where env = env and http = http and ab = aborted and shards = shards] st
    by simp
  define man where "man = \<lparr>totalShards = length shards, dataShards = 4, parityShards = 2,
    originalSize = length d, m_shards = sort_key e_index pinned\<rparr>"
  have "encodeAndDistribute d DEFAULT_SHARD_CONFIG ?nodes aborted order = Inr \<lparr>manifest = man, failed = failures\<rparr>"
    using enc st full_set_filter [OF full] full default_nodes_last(1)
    by (simp add: encodeAndDistribute_def distributeShards_def man_def DEFAULT_SHARD_CONFIG_def full_set_def)
  moreover have "\<forall>nodes' ab. \<exists>msg. reconstructFromManifest man nodes' ab = Inl (Error msg)"
    using p by (intro allI too_few_entries) (simp add: man_def)
  ultimately show ?thesis
    using p by (auto simp: man_def)
qed

theorem default_nodes_unrecoverable_witness:
  "\<exists>r. encodeAndDistribute [1, 2, 3] DEFAULT_SHARD_CONFIG
         (buildDefaultNodes (\<lambda>n. if n = ''VITE_PINATA_JWT'' then Some ''jwt'' else None)
            \<lparr>post_file = (\<lambda>u h b n. Inr \<lparr>ok = True, status = 200, json_string = (\<lambda>k. Some ''cid''), body = []\<rparr>),
             http_get = (\<lambda>u. Inr \<lparr>ok = True, status = 200, json_string = (\<lambda>k. None), body = []\<rparr>)\<rparr>)
         False [0, 1, 2, 3, 4, 5] = Inr r
     \<and> length (m_shards (manifest r)) \<le> 3
     \<and> (\<forall>nodes' ab. \<exists>msg. reconstructFromManifest (manifest r) nodes' ab = Inl (Error msg))"
  by (rule default_nodes_unrecoverable)
    (auto simp: buildDefaultNodes_def envString_def js_trim_def is_space_def)

end
