(* ===== verification/JS_Text.thy ===== *)
theory JS_Text
  imports JS_Strings
begin

text \<open>
  Text as the share formats use it: splitting at a separator, padding, lower case, and reading
  numbers with \<^verbatim>\<open>BigInt\<close> and \<^verbatim>\<open>parseInt\<close>, with the facts that printing and reading are inverse.
\<close>

section \<open>Definitions\<close>

fun split_on :: "char \<Rightarrow> string \<Rightarrow> string list" where
  "split_on d [] = [[]]"
| "split_on d (c # cs) =
     (if c = d then [] # split_on d cs
      else case split_on d cs of [] \<Rightarrow> [[c]] | w # ws \<Rightarrow> (c # w) # ws)"

definition starts_with :: "string \<Rightarrow> string \<Rightarrow> bool" where
  "starts_with p s \<longleftrightarrow> take (length p) s = p"

definition pad_start :: "nat \<Rightarrow> char \<Rightarrow> string \<Rightarrow> string" where
  "pad_start w c s = replicate (w - length s) c @ s"

text \<open>\<^verbatim>\<open>toLowerCase\<close> on a code point below 256: the letters A to Z and the accented capitals, without the sign of multiplication.\<close>

definition lower :: "char \<Rightarrow> char" where
  "lower c =
     (if 65 \<le> (of_char c :: nat) \<and> (of_char c :: nat) \<le> 90
         \<or> 192 \<le> (of_char c :: nat) \<and> (of_char c :: nat) \<le> 222 \<and> (of_char c :: nat) \<noteq> 215
      then char_of ((of_char c :: nat) + 32) else c)"

definition digit_val :: "char \<Rightarrow> nat option" where
  "digit_val c =
     (let n = of_char c in
      if 48 \<le> n \<and> n \<le> 57 then Some (n - 48)
      else if 97 \<le> n \<and> n \<le> 122 then Some (n - 87)
      else if 65 \<le> n \<and> n \<le> 90 then Some (n - 55) else None)"

fun digits_acc :: "nat \<Rightarrow> nat \<Rightarrow> string \<Rightarrow> nat option" where
  "digits_acc b acc [] = Some acc"
| "digits_acc b acc (c # cs) =
     (case digit_val c of None \<Rightarrow> None | Some d \<Rightarrow> if d < b then digits_acc b (acc * b + d) cs else None)"

definition parse_digits :: "nat \<Rightarrow> string \<Rightarrow> nat option" where
  "parse_digits b s = (if s = [] then None else digits_acc b 0 s)"

text \<open>\<^verbatim>\<open>BigInt(s)\<close> of a string; \<open>None\<close> is the \<^verbatim>\<open>SyntaxError\<close>.\<close>

definition parse_bigint :: "string \<Rightarrow> int option" where
  "parse_bigint s =
     (let t = js_trim s in
      if t = [] then Some 0
      else if take 2 t = ''0x'' \<or> take 2 t = ''0X'' then map_option int (parse_digits 16 (drop 2 t))
      else if take 2 t = ''0o'' \<or> take 2 t = ''0O'' then map_option int (parse_digits 8 (drop 2 t))
      else if take 2 t = ''0b'' \<or> take 2 t = ''0B'' then map_option int (parse_digits 2 (drop 2 t))
      else if hd t = CHR ''-'' then map_option (\<lambda>n. - int n) (parse_digits 10 (tl t))
      else if hd t = CHR ''+'' then map_option int (parse_digits 10 (tl t))
      else map_option int (parse_digits 10 t))"

definition is_digit :: "nat \<Rightarrow> char \<Rightarrow> bool" where
  "is_digit b c = (case digit_val c of None \<Rightarrow> False | Some d \<Rightarrow> d < b)"

text \<open>\<^verbatim>\<open>parseInt(s, b)\<close>; \<open>None\<close> is \<^verbatim>\<open>NaN\<close>.\<close>

definition parse_int :: "nat \<Rightarrow> string \<Rightarrow> int option" where
  "parse_int b s =
     (let t = dropWhile is_space s;
          neg = (t \<noteq> [] \<and> hd t = CHR ''-'');
          t = (if t \<noteq> [] \<and> (hd t = CHR ''-'' \<or> hd t = CHR ''+'') then tl t else t);
          t = (if b = 16 \<and> (take 2 t = ''0x'' \<or> take 2 t = ''0X'') then drop 2 t else t)
      in map_option (\<lambda>n. if neg then - int n else int n) (parse_digits b (takeWhile (is_digit b) t)))"

section \<open>Splitting\<close>

lemma split_on_none [simp]: "d \<notin> set xs \<Longrightarrow> split_on d xs = [xs]"
  by (induction xs) auto

lemma split_on_append: "d \<notin> set xs \<Longrightarrow> split_on d (xs @ d # ys) = xs # split_on d ys"
  by (induction xs) auto

section \<open>Digits\<close>

lemma less_16_cases: "d < 16 \<Longrightarrow> d \<in> {0, 1, 2, 3, 4, 5, 6, 7, 8, 9, 10, 11, 12, 13, 14, 15 :: nat}"
  unfolding insert_iff empty_iff by arith

lemma digit_val_char: "d < 16 \<Longrightarrow> digit_val (digit_char d) = Some d"
  by (drule less_16_cases) (auto simp: digit_char_def digit_val_def)

lemma lower_digits:
  "list_all (\<lambda>n. digit_char (n - 48) = lower (char_of n)) [48..<58]"
  "list_all (\<lambda>n. digit_char (n - 87) = lower (char_of n)) [97..<103]"
  "list_all (\<lambda>n. digit_char (n - 55) = lower (char_of n)) [65..<71]"
  by (simp_all add: digit_char_def lower_def char_of_def bit_numeral_rec bit_0)

lemma digit_charE:
  assumes "digit_val c = Some d" "d < 16"
  shows "digit_char d = lower c"
proof -
  let ?n = "of_char c :: nat"
  have c: "lower (char_of ?n) = lower c" by simp
  have "48 \<le> ?n \<and> ?n < 58 \<and> d = ?n - 48 \<or> 97 \<le> ?n \<and> ?n < 103 \<and> d = ?n - 87 \<or>
      65 \<le> ?n \<and> ?n < 71 \<and> d = ?n - 55"
    using assms by (auto simp: digit_val_def Let_def split: if_splits)
  with lower_digits show ?thesis
    unfolding list_all_iff set_upt c [symmetric] by auto
qed

lemma digits_acc_append:
  "digits_acc b acc (xs @ ys) = (case digits_acc b acc xs of None \<Rightarrow> None | Some a \<Rightarrow> digits_acc b a ys)"
  by (induction xs arbitrary: acc) (auto split: option.splits)

lemma digits_acc_to_radix:
  assumes "2 \<le> b" "b \<le> 16"
  shows "digits_acc b 0 (to_radix b n) = Some n"
proof (induction n rule: less_induct)
  case (less n)
  show ?case
  proof (cases "n < b")
    case True
    with assms show ?thesis by (simp add: to_radix.simps [of b n] digit_val_char)
  next
    case False
    with assms have "digits_acc b 0 (to_radix b (n div b)) = Some (n div b)"
      by (intro less.IH) simp
    moreover have "n mod b < b" "n mod b < 16"
      using assms by (auto intro: order_less_le_trans [of "n mod b" b 16])
    ultimately show ?thesis
      using False assms by (simp add: to_radix.simps [of b n] digits_acc_append digit_val_char)
  qed
qed

lemma to_radix_ne [simp]: "to_radix b n \<noteq> []"
  by (subst to_radix.simps) simp

lemma parse_to_radix: "2 \<le> b \<Longrightarrow> b \<le> 16 \<Longrightarrow> parse_digits b (to_radix b n) = Some n"
  by (simp add: parse_digits_def digits_acc_to_radix)

lemma digits_acc_zeros: "2 \<le> b \<Longrightarrow> digits_acc b 0 (replicate k CHR ''0'' @ s) = digits_acc b 0 s"
  by (induction k) (auto simp: digit_val_def)

lemma parse_pad_start:
  "2 \<le> b \<Longrightarrow> parse_digits b s = Some n \<Longrightarrow> parse_digits b (pad_start w CHR ''0'' s) = Some n"
  by (auto simp: parse_digits_def pad_start_def digits_acc_zeros split: if_splits)

lemma is_digitI: "digit_val c = Some d \<Longrightarrow> d < b \<Longrightarrow> is_digit b c"
  by (simp add: is_digit_def)

lemma digits_acc_is_digit: "digits_acc b acc s = Some n \<Longrightarrow> c \<in> set s \<Longrightarrow> is_digit b c"
  by (induction s arbitrary: acc) (auto intro: is_digitI split: option.splits if_splits)

lemma parse_digits_is_digit: "parse_digits b s = Some n \<Longrightarrow> c \<in> set s \<Longrightarrow> is_digit b c"
  by (auto simp: parse_digits_def digits_acc_is_digit split: if_splits)

lemma is_digit_not:
  assumes "is_digit b c" "b \<le> 16"
  shows "\<not> is_space c" "c \<noteq> CHR ''-''" "c \<noteq> CHR ''+''" "c \<noteq> CHR ''x''" "c \<noteq> CHR ''X''" "c \<noteq> CHR ''o''" "c \<noteq> CHR ''O''"
    "c \<noteq> CHR ''v''"
  using assms by (auto simp: is_digit_def is_space_def digit_val_def Let_def split: if_splits)

section \<open>Reading numbers\<close>

lemma js_trim_id: "(\<And>c. c \<in> set s \<Longrightarrow> \<not> is_space c) \<Longrightarrow> js_trim s = s"
proof -
  assume a: "\<And>c. c \<in> set s \<Longrightarrow> \<not> is_space c"
  then have "dropWhile is_space s = s"
    by (cases s) auto
  moreover have "dropWhile is_space (rev s) = rev s"
    using a by (cases s rule: rev_cases) auto
  ultimately show ?thesis by (simp add: js_trim_def)
qed

lemma bigint_hex: "parse_digits 16 h = Some n \<Longrightarrow> parse_bigint (''0x'' @ h) = Some (int n)"
proof -
  assume h: "parse_digits 16 h = Some n"
  have "js_trim (''0x'' @ h) = ''0x'' @ h"
  proof (rule js_trim_id)
    fix c assume "c \<in> set (''0x'' @ h)"
    then show "\<not> is_space c"
      using is_digit_not(1) [of 16 c] parse_digits_is_digit [OF h, of c] by (auto simp: is_space_def)
  qed
  with h show ?thesis by (simp add: parse_bigint_def)
qed

lemma bigint_decimal: "parse_digits 10 s = Some n \<Longrightarrow> parse_bigint s = Some (int n)"
proof -
  assume s: "parse_digits 10 s = Some n"
  have dig: "is_digit 10 c" if "c \<in> set s" for c
    using parse_digits_is_digit [OF s that] .
  have ne: "s \<noteq> []" using s by (auto simp: parse_digits_def)
  have "js_trim s = s"
    by (rule js_trim_id) (use dig is_digit_not(1) [of 10] in auto)
  moreover have "take 2 s \<noteq> [z, y]" if "\<not> is_digit 10 y" for z y
  proof
    assume "take 2 s = [z, y]"
    then have "y \<in> set s" by (metis in_set_takeD list.set_intros(1,2))
    with dig that show False by blast
  qed
  moreover have "hd s \<noteq> CHR ''-''" "hd s \<noteq> CHR ''+''"
    using dig [of "hd s"] ne is_digit_not(2,3) [of 10 "hd s"] by auto
  ultimately show ?thesis
    using s ne by (simp add: parse_bigint_def is_digit_def digit_val_def)
qed

lemma bigint_js_num [simp]: "parse_bigint (js_num n) = Some (int n)"
  by (rule bigint_decimal) (simp add: js_num_def parse_to_radix)

lemma parse_int_digits: "parse_digits b s = Some n \<Longrightarrow> b \<le> 16 \<Longrightarrow> parse_int b s = Some (int n)"
proof -
  assume s: "parse_digits b s = Some n" and b: "b \<le> 16"
  have dig: "is_digit b c" if "c \<in> set s" for c
    using parse_digits_is_digit [OF s that] .
  have ne: "s \<noteq> []" using s by (auto simp: parse_digits_def)
  have sp: "dropWhile is_space s = s"
    using ne dig [of "hd s"] is_digit_not(1) [OF _ b] by (cases s) auto
  have sg: "hd s \<noteq> CHR ''-''" "hd s \<noteq> CHR ''+''"
    using dig [of "hd s"] ne is_digit_not(2,3) [OF _ b, of "hd s"] by auto
  have px: "take 2 s \<noteq> ''0x''" "take 2 s \<noteq> ''0X''"
    using dig is_digit_not(4,5) [OF _ b] by (metis in_set_takeD list.set_intros(1,2))+
  have tw: "takeWhile (is_digit b) s = s"
    using dig by (simp add: takeWhile_eq_all_conv)
  show ?thesis
    using s ne sg px by (simp add: parse_int_def Let_def sp tw)
qed

section \<open>Reprinting hexadecimal text\<close>

lemma pad_start_snoc: "pad_start (Suc w) c (s @ [x]) = pad_start w c s @ [x]"
  by (simp add: pad_start_def)

lemma digits_acc_snoc:
  "digits_acc b acc (s @ [c]) = Some n \<longleftrightarrow>
     (\<exists>m d. digits_acc b acc s = Some m \<and> digit_val c = Some d \<and> d < b \<and> n = m * b + d)"
  by (auto simp: digits_acc_append split: option.splits if_splits)

lemma reprint_hex: "parse_digits 16 s = Some n \<Longrightarrow> pad_start (length s) CHR ''0'' (to_radix 16 n) = map lower s"
proof (induction s arbitrary: n rule: rev_induct)
  case (snoc c s)
  then obtain m d where md: "digits_acc 16 0 s = Some m" "digit_val c = Some d" "d < 16" "n = m * 16 + d"
    by (auto simp: parse_digits_def digits_acc_snoc)
  have c: "digit_char d = lower c"
    using md(2,3) by (rule digit_charE)
  show ?case
  proof (cases "s = []")
    case True
    with md c show ?thesis by (simp add: pad_start_def to_radix.simps [of 16 d])
  next
    case False
    then have IH: "pad_start (length s) CHR ''0'' (to_radix 16 m) = map lower s"
      using snoc.IH md(1) by (simp add: parse_digits_def)
    show ?thesis
    proof (cases "m = 0")
      case True
      have "replicate (length s) CHR ''0'' = pad_start (length s) CHR ''0'' (to_radix 16 0)"
        using False by (cases s) (simp_all add: pad_start_def to_radix.simps [of 16 0] digit_char_def replicate_append_same)
      with IH True md c show ?thesis
        by (simp add: pad_start_def to_radix.simps [of 16 d])
    next
      case m: False
      then have "to_radix 16 n = to_radix 16 m @ [digit_char d]"
        using md by (subst to_radix.simps) simp
      with IH c show ?thesis by (simp add: pad_start_snoc)
    qed
  qed
qed (simp add: parse_digits_def)


section \<open>Case and separators\<close>

lemma of_char_lower: "(of_char (lower c) :: nat) =
   (let n = of_char c in if 65 \<le> n \<and> n \<le> 90 \<or> 192 \<le> n \<and> n \<le> 222 \<and> n \<noteq> 215 then n + 32 else n)"
  by (auto simp: lower_def Let_def)

lemma lower_lower [simp]: "lower (lower c) = lower c"
proof -
  have "(of_char (lower (lower c)) :: nat) = of_char (lower c)"
    unfolding of_char_lower [of "lower c"] of_char_lower [of c] Let_def by auto
  then show ?thesis by (simp only: of_char_eq_iff)
qed

lemma map_lower_lower [simp]: "map lower (map lower s) = map lower s"
  by simp

lemma is_digit_10: "is_digit 10 c \<Longrightarrow> lower c = c \<and> c \<noteq> CHR '':''"
  by (auto simp: is_digit_def digit_val_def lower_def Let_def split: if_splits)

lemma js_num_digits: "c \<in> set (js_num n) \<Longrightarrow> is_digit 10 c"
  unfolding js_num_def by (rule parse_digits_is_digit [OF parse_to_radix]) simp_all

lemma lower_js_num [simp]: "map lower (js_num n) = js_num n"
  by (simp add: map_idI is_digit_10 js_num_digits)

lemma js_num_inject [simp]: "js_num m = js_num n \<longleftrightarrow> m = n"
proof
  assume "js_num m = js_num n"
  then have "parse_digits 10 (to_radix 10 m) = parse_digits 10 (to_radix 10 n)"
    by (simp only: js_num_def)
  then show "m = n" by (simp add: parse_to_radix)
qed simp

text \<open>A text is cut at its last separator in one way only.\<close>

lemma append_last_sep:
  assumes "c \<notin> set ys" "c \<notin> set ys'"
  shows "xs @ c # ys = xs' @ c # ys' \<longleftrightarrow> xs = xs' \<and> ys = ys'"
proof
  assume "xs @ c # ys = xs' @ c # ys'"
  then have eq: "rev ys @ c # rev xs = rev ys' @ c # rev xs'"
    by (metis append.assoc append_Cons append_Nil rev.simps(2) rev_append)
  have "takeWhile (\<lambda>d. d \<noteq> c) (rev ys @ c # rev xs) = rev ys" "takeWhile (\<lambda>d. d \<noteq> c) (rev ys' @ c # rev xs') = rev ys'"
    using assms by (simp_all add: takeWhile_append)
  with eq show "xs = xs' \<and> ys = ys'"
    by simp
qed simp

end
