(* ===== verification/Number_Theory.thy ===== *)
theory Number_Theory
  imports Prelude
begin

text \<open>
  Elementary number theory for the two prime fields of the program: primality of integers,
  Euclid's lemma, Fermat's little theorem (the reason \<^verbatim>\<open>modPow(a, m - 2n, m)\<close> is an inverse) and
  Pocklington's criterion, by which \<^verbatim>\<open>VSS_Q\<close>, \<^verbatim>\<open>VSS_P\<close> and \<open>2 ^ 127 - 1\<close> are shown prime from
  certificates.
\<close>

section \<open>Primes\<close>

definition is_prime :: "int \<Rightarrow> bool" where
  "is_prime p \<longleftrightarrow> 1 < p \<and> (\<forall>d. 0 < d \<longrightarrow> d dvd p \<longrightarrow> d = 1 \<or> d = p)"

lemma is_prime_gt_1: "is_prime p \<Longrightarrow> 1 < p"
  by (simp add: is_prime_def)

lemma is_prime_pos [simp]: "is_prime p \<Longrightarrow> 0 < p"
  by (simp add: is_prime_def)

lemma prime_coprime:
  assumes "is_prime p" and "\<not> p dvd a"
  shows "coprime a p"
proof -
  have "gcd a p dvd p" and "0 < gcd a p"
    using is_prime_gt_1 [OF assms(1)] by auto
  then have "gcd a p = 1 \<or> gcd a p = p"
    using assms(1) by (auto simp: is_prime_def)
  moreover have "gcd a p \<noteq> p"
    using assms(2) by (metis gcd_dvd1)
  ultimately show ?thesis
    by (simp add: coprime_iff_gcd_eq_1)
qed

lemma prime_dvd_mult:
  assumes "is_prime p" and "p dvd a * b"
  shows "p dvd a \<or> p dvd b"
proof (cases "p dvd a")
  case False
  then have "coprime p a"
    using prime_coprime [OF assms(1)] by (simp add: coprime_commute)
  with assms(2) show ?thesis
    by (simp add: coprime_dvd_mult_right_iff)
qed simp

lemma prime_dvd_power:
  assumes "is_prime p" and "p dvd a ^ n"
  shows "p dvd a"
  using assms(2)
proof (induction n)
  case 0
  then show ?case
    using is_prime_gt_1 [OF assms(1)] by (simp add: zdvd_not_zless)
next
  case (Suc n)
  then show ?case
    using prime_dvd_mult [OF assms(1)] by auto
qed

lemma prime_not_dvd_prod:
  assumes "is_prime p" and "\<And>i. i \<in> A \<Longrightarrow> \<not> p dvd f i"
  shows "\<not> p dvd prod f A"
  using assms(2)
proof (induction A rule: infinite_finite_induct)
  case (infinite A)
  then show ?case
    using is_prime_gt_1 [OF assms(1)] by (simp add: zdvd_not_zless)
next
  case empty
  then show ?case
    using is_prime_gt_1 [OF assms(1)] by (simp add: zdvd_not_zless)
next
  case (insert x F)
  then show ?case
    using prime_dvd_mult [OF assms(1)] by auto
qed

lemma prime_dvd_prime:
  assumes "is_prime p" and "is_prime q" and "q dvd p"
  shows "q = p"
proof -
  have "q = 1 \<or> q = p"
    using assms is_prime_pos [OF assms(2)] unfolding is_prime_def by blast
  with is_prime_gt_1 [OF assms(2)] show ?thesis by simp
qed

lemma least_divisor_prime:
  fixes n :: int
  assumes "1 < n"
  shows "\<exists>p. is_prime p \<and> p dvd n"
  using assms
proof (induction "nat n" arbitrary: n rule: less_induct)
  case less
  show ?case
  proof (cases "is_prime n")
    case True
    then show ?thesis using dvd_refl by blast
  next
    case False
    then obtain d where d: "0 < d" "d dvd n" "d \<noteq> 1" "d \<noteq> n"
      using less.prems by (auto simp: is_prime_def)
    then have "1 < d" and "d < n"
      using less.prems zdvd_imp_le [of d n] by auto
    then obtain p where "is_prime p" "p dvd d"
      using less.hyps [of d] by auto
    with d(2) show ?thesis
      using dvd_trans by blast
  qed
qed

lemma small_prime_divisor:
  fixes n :: int
  assumes "1 < n" and "\<not> is_prime n"
  shows "\<exists>p. is_prime p \<and> p dvd n \<and> p * p \<le> n"
proof -
  obtain d where d: "0 < d" "d dvd n" "d \<noteq> 1" "d \<noteq> n"
    using assms by (auto simp: is_prime_def)
  then obtain e where e: "n = d * e"
    by (auto elim: dvdE)
  with d assms(1) have "1 < d" "1 < e"
    by (auto simp: zero_less_mult_iff) (smt (verit) mult_cancel_left1 zero_less_mult_iff)
  define c where "c = min d e"
  have c: "1 < c" "c dvd n" "c * c \<le> n"
    using \<open>1 < d\<close> \<open>1 < e\<close> e by (auto simp: c_def min_def mult_mono)
  then obtain p where p: "is_prime p" "p dvd c"
    using least_divisor_prime by blast
  have "p * p \<le> c * c"
    using zdvd_imp_le [OF p(2)] is_prime_pos [OF p(1)] c(1) by (intro mult_mono) auto
  with p c show ?thesis
    by (meson dvd_trans order_trans)
qed

text \<open>Trial division decides primality of the small leaves of a certificate.\<close>

fun no_divisor :: "nat \<Rightarrow> nat \<Rightarrow> nat \<Rightarrow> bool" where
  "no_divisor 0 d n \<longleftrightarrow> True"
| "no_divisor (Suc k) d n \<longleftrightarrow> n mod d \<noteq> 0 \<and> no_divisor k (d + 2) n"

definition trial_division :: "nat \<Rightarrow> nat \<Rightarrow> bool" where
  "trial_division n k \<longleftrightarrow> 1 < n \<and> odd n \<and> n < (2 * k + 3) * (2 * k + 3) \<and> no_divisor k 3 n"

lemma no_divisor_numeral [simp]:
  "no_divisor (numeral k) d n \<longleftrightarrow> n mod d \<noteq> 0 \<and> no_divisor (pred_numeral k) (d + 2) n"
  by (simp add: numeral_eq_Suc)

lemma no_divisorD: "no_divisor k d n \<Longrightarrow> i < k \<Longrightarrow> n mod (d + 2 * i) \<noteq> 0"
proof (induction k arbitrary: d i)
  case 0
  then show ?case by simp
next
  case (Suc k)
  show ?case
  proof (cases i)
    case 0
    with Suc.prems show ?thesis by simp
  next
    case (Suc j)
    with Suc.IH [of "d + 2" j] Suc.prems show ?thesis
      by (simp add: algebra_simps)
  qed
qed

lemma trial_division_sound:
  assumes "trial_division n k"
  shows "is_prime (int n)"
proof (rule ccontr)
  assume "\<not> is_prime (int n)"
  moreover have "1 < int n"
    using assms by (simp add: trial_division_def)
  ultimately obtain p where p: "is_prime p" "p dvd int n" "p * p \<le> int n"
    using small_prime_divisor by blast
  define d where "d = nat p"
  have pd: "p = int d"
    using is_prime_pos [OF p(1)] by (simp add: d_def)
  have dvd: "d dvd n" and le: "d * d \<le> n" and "2 \<le> d"
    using p is_prime_gt_1 [OF p(1)] by (simp_all add: pd flip: of_nat_mult)
  have "odd d"
    using assms dvd dvd_trans by (auto simp: trial_division_def)
  then obtain m where m: "d = 2 * m + 1"
    by (rule oddE)
  define i where "i = m - 1"
  have i: "d = 3 + 2 * i"
    using m \<open>2 \<le> d\<close> by (simp add: i_def)
  have "i < k"
  proof (rule ccontr)
    assume "\<not> i < k"
    then have "(2 * k + 3) * (2 * k + 3) \<le> d * d"
      by (intro mult_mono) (auto simp: i)
    with le assms show False
      by (simp add: trial_division_def)
  qed
  moreover have "no_divisor k 3 n"
    using assms by (simp add: trial_division_def)
  ultimately have "n mod (3 + 2 * i) \<noteq> 0"
    by (intro no_divisorD)
  with dvd i show False
    by (simp add: dvd_eq_mod_eq_0)
qed

section \<open>Fermat's little theorem\<close>

lemma mod_mult_cancel:
  fixes a b c p :: int
  assumes "coprime c p" and "(a * c) mod p = (b * c) mod p"
  shows "a mod p = b mod p"
proof -
  have "p dvd (a - b) * c"
    using assms(2) by (simp add: mod_eq_dvd_iff left_diff_distrib)
  then have "p dvd a - b"
    using assms(1) by (simp add: coprime_dvd_mult_left_iff coprime_commute)
  then show ?thesis
    by (simp add: mod_eq_dvd_iff)
qed

lemma mult_mod_permutes:
  fixes a p :: int
  assumes "is_prime p" and "\<not> p dvd a"
  shows "(\<lambda>x. a * x mod p) ` {1..<p} = {1..<p}"
    and "inj_on (\<lambda>x. a * x mod p) {1..<p}"
proof -
  have cop: "coprime a p"
    by (rule prime_coprime [OF assms])
  show inj: "inj_on (\<lambda>x. a * x mod p) {1..<p}"
  proof (rule inj_onI)
    fix x y
    assume xy: "x \<in> {1..<p}" "y \<in> {1..<p}" and "a * x mod p = a * y mod p"
    then have "(x * a) mod p = (y * a) mod p"
      by (simp only: mult.commute)
    then have "x mod p = y mod p"
      by (rule mod_mult_cancel [OF cop])
    with xy show "x = y" by simp
  qed
  have "(\<lambda>x. a * x mod p) ` {1..<p} \<subseteq> {1..<p}"
  proof clarify
    fix x
    assume x: "x \<in> {1..<p}"
    then have "\<not> p dvd x"
      by (simp add: zdvd_not_zless)
    then have "\<not> p dvd a * x"
      using prime_dvd_mult [OF assms(1)] assms(2) by blast
    moreover have "0 \<le> a * x mod p" "a * x mod p < p"
      using is_prime_pos [OF assms(1)] by auto
    ultimately show "a * x mod p \<in> {1..<p}"
      by (auto simp: dvd_eq_mod_eq_0 order_le_less)
  qed
  then show "(\<lambda>x. a * x mod p) ` {1..<p} = {1..<p}"
    by (intro endo_inj_surj inj) auto
qed

theorem fermat_little:
  assumes "is_prime p" and "\<not> p dvd a"
  shows "a ^ nat (p - 1) mod p = 1"
proof -
  let ?A = "{1..<p}" and ?f = "\<lambda>x. a * x mod p"
  have cop: "coprime (\<Prod>?A) p"
    using assms(1) by (intro prime_coprime prime_not_dvd_prod) (auto simp: zdvd_not_zless)
  have "\<Prod>?A = prod id (?f ` ?A)"
    by (simp add: mult_mod_permutes [OF assms])
  also have "\<dots> = (\<Prod>x\<in>?A. ?f x)"
    by (simp add: prod.reindex [OF mult_mod_permutes(2) [OF assms]])
  finally have "\<Prod>?A mod p = (\<Prod>x\<in>?A. a * x) mod p"
    by (simp add: mod_prod_eq)
  also have "(\<Prod>x\<in>?A. a * x) = a ^ nat (p - 1) * \<Prod>?A"
    by (simp add: prod.distrib)
  finally have "(1 * \<Prod>?A) mod p = (a ^ nat (p - 1) * \<Prod>?A) mod p"
    by simp
  then have "1 mod p = a ^ nat (p - 1) mod p"
    by (rule mod_mult_cancel [OF cop])
  then show ?thesis
    using is_prime_gt_1 [OF assms(1)] by simp
qed

corollary fermat_inverse:
  assumes "is_prime p" and "\<not> p dvd a"
  shows "(a * a ^ nat (p - 2)) mod p = 1"
proof -
  have "nat (p - 1) = Suc (nat (p - 2))"
    using is_prime_gt_1 [OF assms(1)] by simp
  then show ?thesis
    using fermat_little [OF assms] by simp
qed

section \<open>Pocklington's criterion\<close>

lemma power_mod_one_mult:
  fixes a p :: int
  assumes "1 < p" and "a ^ m mod p = 1"
  shows "a ^ (m * k) mod p = 1"
proof -
  have "a ^ (m * k) mod p = (a ^ m mod p) ^ k mod p"
    by (simp add: power_mult power_mod)
  with assms show ?thesis by simp
qed

lemma pocklington_divides:
  assumes n: "a ^ (q * c) mod n = 1" "coprime (a ^ c - 1) n" and q: "is_prime (int q)"
    and p: "is_prime p" "p dvd n"
  shows "int q dvd p - 1"
proof (rule ccontr)
  assume ndvd: "\<not> int q dvd p - 1"
  have p1: "1 < p" by (rule is_prime_gt_1 [OF p(1)])
  have one: "a ^ (q * c) mod p = 1"
    using n(1) p(2) p1 by (metis mod_mod_cancel mod_pos_pos_trivial zero_le_one)
  have "\<not> p dvd a"
  proof
    assume "p dvd a"
    then have "p dvd a ^ (q * c) \<or> q * c = 0"
      by (cases "q * c") auto
    moreover have "q * c \<noteq> 0"
    proof
      assume "q * c = 0"
      then have "c = 0"
        using is_prime_pos [OF q] by simp
      with n(2) have "n dvd 1"
        by simp
      with p(2) have "p dvd 1"
        by (rule dvd_trans)
      with p1 show False
        by simp
    qed
    ultimately show False
      using one by (auto simp: dvd_eq_mod_eq_0)
  qed
  then have fermat: "a ^ nat (p - 1) mod p = 1"
    by (rule fermat_little [OF p(1)])
  have "coprime (p - 1) (int q)"
    by (rule prime_coprime [OF q ndvd])
  then have "coprime (int (nat (p - 1))) (int q)"
    using p1 by simp
  then have "coprime (nat (p - 1)) q"
    by (simp only: coprime_int_iff)
  then have "gcd q (nat (p - 1)) = 1"
    by (simp only: coprime_iff_gcd_eq_1 gcd.commute)
  then obtain u v where uv: "q * u = nat (p - 1) * v + 1"
    using bezout_nat [of q "nat (p - 1)"] is_prime_pos [OF q] by auto
  have "a ^ c mod p = (a ^ (nat (p - 1) * (v * c)) mod p * (a ^ c mod p)) mod p"
    using power_mod_one_mult [OF p1 fermat, of "v * c"] p1 by simp
  also have "\<dots> = a ^ (nat (p - 1) * (v * c) + c) mod p"
    by (simp add: power_add mod_mult_eq)
  also have "nat (p - 1) * (v * c) + c = (q * u) * c"
    by (simp add: uv algebra_simps)
  also have "a ^ ((q * u) * c) mod p = a ^ ((q * c) * u) mod p"
    by (simp add: algebra_simps)
  also have "\<dots> = 1"
    by (rule power_mod_one_mult [OF p1 one])
  finally have "a ^ c mod p = 1 mod p"
    using p1 by simp
  then have "p dvd a ^ c - 1"
    by (simp add: mod_eq_dvd_iff)
  with p(2) n(2) have "is_unit p"
    using coprime_common_divisor by blast
  with p1 show False by simp
qed

text \<open>
  A certificate names a base \<open>a\<close> and distinct primes \<open>qs\<close> whose product exceeds the square root
  of \<open>n\<close>; each comes with the cofactor \<open>c\<close> such that \<open>n - 1 = q * c\<close>.
\<close>

lemma coprime_prod_list_dvd:
  fixes m :: int
  assumes "distinct qs" and "\<forall>q \<in> set qs. is_prime q \<and> q dvd m"
  shows "prod_list qs dvd m"
  using assms
proof (induction qs)
  case Nil
  then show ?case by simp
next
  case (Cons q qs)
  have "coprime q (prod_list qs)"
  proof -
    have "\<not> q dvd prod_list qs"
    proof
      assume "q dvd prod_list qs"
      then have "\<exists>r \<in> set qs. q dvd r"
        using Cons.prems(2)
      proof (induction qs)
        case Nil
        then show ?case by (auto simp: is_prime_def)
      next
        case (Cons r rs)
        then show ?case
          using prime_dvd_mult [of q r "prod_list rs"] by auto
      qed
      then obtain r where "r \<in> set qs" "q dvd r" by blast
      then have "q = r"
        using Cons.prems(2) by (intro prime_dvd_prime) auto
      with \<open>r \<in> set qs\<close> Cons.prems(1) show False
        by simp
    qed
    then show ?thesis
      using Cons.prems(2) prime_coprime [of q "prod_list qs"] by (simp add: coprime_commute)
  qed
  moreover have "prod_list qs dvd m"
    using Cons by simp
  ultimately show ?case
    using Cons.prems(2) by (simp add: divides_mult)
qed

theorem pocklington:
  assumes n: "1 < n"
    and qs: "distinct qs" "\<forall>q \<in> set qs. is_prime (int q)"
    and cs: "\<forall>q \<in> set qs. \<exists>c. n = int (q * c) + 1 \<and> coprime (a ^ c - 1) n"
    and one: "a ^ nat (n - 1) mod n = 1"
    and big: "n \<le> (prod_list (map int qs) + 1) * (prod_list (map int qs) + 1) - 1"
  shows "is_prime n"
proof (rule ccontr)
  assume "\<not> is_prime n"
  then obtain p where p: "is_prime p" "p dvd n" "p * p \<le> n"
    using small_prime_divisor [OF n] by blast
  have "int q dvd p - 1" if "q \<in> set qs" for q
  proof -
    from bspec [OF cs that]
    obtain c where c: "n = int (q * c) + 1" "coprime (a ^ c - 1) n"
      by (elim exE conjE)
    have "nat (n - 1) = q * c"
      unfolding c(1) by (simp only: add_diff_cancel_right' nat_int)
    with one have "a ^ (q * c) mod n = 1"
      by simp
    moreover have "is_prime (int q)"
      using qs(2) that by blast
    ultimately show ?thesis
      using c(2) p(1,2) by (intro pocklington_divides)
  qed
  then have "prod_list (map int qs) dvd p - 1"
    using qs by (intro coprime_prod_list_dvd) (auto simp: distinct_map)
  then have "prod_list (map int qs) \<le> p - 1"
    using is_prime_gt_1 [OF p(1)] by (intro zdvd_imp_le) auto
  moreover have "0 \<le> prod_list (map int qs)"
    by (induction qs) auto
  ultimately have "(prod_list (map int qs) + 1) * (prod_list (map int qs) + 1) \<le> p * p"
    by (intro mult_mono) auto
  with p(3) big show False by linarith
qed

end
