(* ===== verification/Modular.thy ===== *)
theory Modular
  imports Complex_Main Number_Theory Field_Algebra
begin

text \<open>
  Arithmetic modulo a prime as the secret-sharing modules do it. \<open>pow_loop\<close> is the square-and-multiply
  loop their three copies of modular exponentiation share. The locale \<open>modular\<close> is the interface
  between a module's own \<^verbatim>\<open>modAdd\<close>, \<^verbatim>\<open>modMul\<close>, \<^verbatim>\<open>modPow\<close> and its clients: evaluation of a sharing
  polynomial and the product on the right of a Feldman check are computed once, inside it. The last
  section proves Lagrange interpolation at zero modulo a prime, from the interpolation over the
  rationals, and that an element of prime order separates exponents.
\<close>

section \<open>Square and multiply\<close>

function pow_loop :: "(int \<Rightarrow> int \<Rightarrow> int) \<Rightarrow> int \<Rightarrow> int \<Rightarrow> int \<Rightarrow> int" where
  "pow_loop mul res b e =
     (if e > 0 then pow_loop mul (if e mod 2 = 1 then mul res b else res) (mul b b) (e div 2) else res)"
  by pat_completeness auto

termination
  by (relation "measure (\<lambda>(mul, res, b, e). nat e)") auto

declare pow_loop.simps [simp del]

lemma power_halves:
  fixes b :: int
  assumes "0 < e"
  shows "b ^ nat e = (if e mod 2 = 1 then b else 1) * (b * b) ^ nat (e div 2)"
proof -
  have "nat e = nat (e mod 2) + 2 * nat (e div 2)"
  proof -
    have "0 \<le> e div 2" "0 \<le> e mod 2" "e = e mod 2 + 2 * (e div 2)"
      using assms by simp_all
    then show ?thesis by linarith
  qed
  then have "b ^ nat e = b ^ nat (e mod 2) * (b ^ 2) ^ nat (e div 2)"
    by (simp only: power_add power_mult)
  moreover have "e mod 2 = 0 \<or> e mod 2 = 1"
    by auto
  ultimately show ?thesis
    by (auto simp: power2_eq_square)
qed

lemma pow_loop_correct:
  assumes "\<And>a b. 0 \<le> a \<Longrightarrow> 0 \<le> b \<Longrightarrow> mul a b = a * b mod m" and "0 < m"
    and "0 \<le> res" "res < m" "0 \<le> b"
  shows "pow_loop mul res b e = res * b ^ nat e mod m"
  using assms
proof (induction mul res b e rule: pow_loop.induct)
  case (1 mul res b e)
  show ?case
  proof (cases "e > 0")
    case True
    let ?res = "if e mod 2 = 1 then mul res b else res"
    have res: "0 \<le> ?res" "?res < m" "?res mod m = res * (if e mod 2 = 1 then b else 1) mod m"
      using "1.prems" by auto
    have bb: "mul b b = b * b mod m"
      using "1.prems" by simp
    have "pow_loop mul res b e = pow_loop mul ?res (mul b b) (e div 2)"
      using True by (simp add: pow_loop.simps [of mul res b e])
    also have "\<dots> = ?res * mul b b ^ nat (e div 2) mod m"
      using True res "1.prems" by (intro "1.IH") auto
    also have "\<dots> = (?res mod m) * ((b * b) ^ nat (e div 2) mod m) mod m"
      unfolding bb mod_mult_eq by (metis mod_mult_right_eq power_mod)
    also have "\<dots> = res * b ^ nat e mod m"
      by (simp only: res(3) power_halves [OF True] mod_mult_eq mult.assoc)
    finally show ?thesis .
  next
    case False
    then show ?thesis
      using "1.prems" by (simp add: pow_loop.simps [of mul res b e])
  qed
qed

section \<open>The interface of the modular operations\<close>

locale modular =
  fixes modAdd modMul modPow :: "int \<Rightarrow> int \<Rightarrow> int \<Rightarrow> int"
  assumes add_law: "0 \<le> a \<Longrightarrow> 0 \<le> b \<Longrightarrow> 0 < m \<Longrightarrow> modAdd a b m = (a + b) mod m"
    and mul_law: "0 \<le> a \<Longrightarrow> 0 \<le> b \<Longrightarrow> 0 < m \<Longrightarrow> modMul a b m = (a * b) mod m"
    and pow_law: "0 \<le> a \<Longrightarrow> 1 < m \<Longrightarrow> modPow a e m = a ^ nat e mod m"
begin

text \<open>Evaluation of a polynomial with a running power of the point.\<close>

lemma eval_loop:
  assumes "1 < q" "0 \<le> x" "k \<le> length cs" "\<And>c. c \<in> set cs \<Longrightarrow> 0 \<le> c"
  shows "fold (\<lambda>j (y, xp). (modAdd y (modMul (cs ! j) xp q) q, modMul xp x q)) [0..<k] (0, 1) =
    ((\<Sum>j<k. cs ! j * x ^ j) mod q, x ^ k mod q)"
  using assms(3)
proof (induction k)
  case (Suc k)
  then have "0 \<le> cs ! k"
    using assms(4) by simp
  with Suc assms(1,2) show ?case
    by (simp add: add_law mul_law mod_simps mult.commute)
qed (use assms(1) in simp)

lemma eval_loop_poly:
  assumes "1 < q" "0 \<le> x" "\<And>c. c \<in> set cs \<Longrightarrow> 0 \<le> c"
  shows "fst (fold (\<lambda>j (y, xp). (modAdd y (modMul (cs ! j) xp q) q, modMul xp x q)) [0..<length cs] (0, 1)) =
    poly_at cs x mod q"
  using eval_loop [OF assms(1,2), of "length cs" cs] assms(3) by (simp add: poly_at_def)

text \<open>The product of the commitments raised to the powers of the point.\<close>

lemma feldman_loop:
  assumes "1 < p" "1 < q" "0 \<le> x" "\<And>j. j < k \<Longrightarrow> 0 \<le> c j"
  shows "fold (\<lambda>j rhs. modMul rhs (modPow (c j) (modPow x (int j) q) p) p) [0..<k] 1 =
    (\<Prod>j<k. c j ^ nat (x ^ j mod q)) mod p"
  using assms(4)
proof (induction k)
  case 0
  then show ?case using assms(1) by simp
next
  case (Suc k)
  have IH: "fold (\<lambda>j rhs. modMul rhs (modPow (c j) (modPow x (int j) q) p) p) [0..<k] 1 =
      (\<Prod>j<k. c j ^ nat (x ^ j mod q)) mod p"
    using Suc by simp
  have "modPow (c k) (modPow x (int k) q) p = c k ^ nat (x ^ k mod q) mod p"
    using assms(1-3) Suc.prems by (simp add: pow_law)
  then show ?case
    using IH assms(1) by (simp add: mul_law mod_simps)
qed

end

section \<open>Exponents of an element of prime order\<close>

lemma power_mod_period:
  fixes g :: int
  assumes "g ^ nat q mod p = 1" "0 < q" "1 < p" and that: "0 \<le> e"
  shows "g ^ nat (e mod q) mod p = g ^ nat e mod p"
proof -
  have "nat e = nat q * nat (e div q) + nat (e mod q)"
    using that assms(2) by (simp flip: nat_mult_distrib nat_add_distrib add: pos_imp_zdiv_nonneg_iff)
  then have "g ^ nat e = (g ^ nat q) ^ nat (e div q) * g ^ nat (e mod q)"
    by (simp only: power_add power_mult)
  then have "g ^ nat e mod p = ((g ^ nat q) ^ nat (e div q) mod p) * g ^ nat (e mod q) mod p"
    by (simp only: mod_mult_left_eq)
  moreover have "(g ^ nat q) ^ nat (e div q) mod p = 1"
    using power_mod [of "g ^ nat q" p "nat (e div q)"] assms by simp
  ultimately show ?thesis by simp
qed

lemma order_separates:
  fixes g :: int
  assumes p: "is_prime p" and q: "is_prime q" and g: "g ^ nat q mod p = 1" "g mod p \<noteq> 1"
    and eq: "g ^ a mod p = g ^ b mod p"
  shows "int a mod q = int b mod q"
proof -
  have p1: "1 < p" and q1: "1 < q" using p q by (auto simp: is_prime_gt_1)
  have unit: "\<not> p dvd g"
  proof
    assume "p dvd g"
    then have "p dvd g ^ nat q" using q1 by (simp add: dvd_power_le dvd_trans [OF _ dvd_power])
    with g(1) show False by (simp add: dvd_eq_mod_eq_0)
  qed
  have key: "int d mod q = 0" if d: "g ^ d mod p = 1" for d
  proof (rule ccontr)
    assume "int d mod q \<noteq> 0"
    then have "\<not> q dvd int d" by (simp add: dvd_eq_mod_eq_0)
    then have "coprime (int d) q"
      by (rule prime_coprime [OF q])
    then obtain u v where uv: "int d * u + q * v = 1"
      using bezout_int [of "int d" q] by (auto simp: coprime_iff_gcd_eq_1 mult.commute)
    define u' where "u' = u mod q"
    have u': "0 \<le> u'" using q1 by (simp add: u'_def)
    have "(int d * u') mod q = 1"
      using arg_cong [OF uv, of "\<lambda>t. t mod q"] q1 by (simp add: u'_def mod_mult_right_eq)
    then have "nat ((int d * u') mod q) = 1" by simp
    then have "g ^ 1 mod p = g ^ nat (int d * u') mod p"
      using power_mod_period [OF g(1) _ p1, of "int d * u'"] q1 u' by simp
    also have "g ^ nat (int d * u') = (g ^ d) ^ nat u'"
      using u' by (simp add: nat_mult_distrib power_mult)
    also have "(g ^ d) ^ nat u' mod p = 1"
      using power_mod [of "g ^ d" p "nat u'"] d p1 by simp
    finally show False using g(2) by simp
  qed
  have wlog: "int a mod q = int b mod q" if "b \<le> a" "g ^ a mod p = g ^ b mod p" for a b
  proof -
    have "g ^ (a - b) * g ^ b mod p = 1 * g ^ b mod p"
      using that by (simp flip: power_add)
    moreover have "coprime (g ^ b) p"
      using unit prime_dvd_power [OF p] prime_coprime [OF p] by blast
    ultimately have "g ^ (a - b) mod p = 1 mod p"
      by (rule mod_mult_cancel [rotated])
    then have "int (a - b) mod q = 0"
      using key p1 by simp
    then have "q dvd int a - int b"
      unfolding of_nat_diff [OF that(1)] by (rule mod_0_imp_dvd)
    then show ?thesis by (rule mod_eq_dvd_iff [THEN iffD2])
  qed
  show ?thesis
  proof (cases "b \<le> a")
    case True
    then show ?thesis using eq by (rule wlog)
  next
    case False
    then show ?thesis using wlog [OF _ eq [symmetric]] by simp
  qed
qed

section \<open>Interpolation at zero modulo a prime\<close>

lemma poly_at_of_int: "poly_at (map of_int cs) (of_int x) = (of_int (poly_at cs x) :: 'a::comm_ring_1)"
  by (induction cs) simp_all

text \<open>Over the integers, with the denominators multiplied out.\<close>

lemma lagrange_int:
  fixes x :: "nat \<Rightarrow> int"
  assumes inj: "inj_on x {..<n}" and len: "length cs \<le> n"
  defines "d \<equiv> \<lambda>i. \<Prod>j\<in>{..<n} - {i}. x j - x i"
  shows "(\<Sum>i<n. poly_at cs (x i) * (\<Prod>j\<in>{..<n} - {i}. x j) * (\<Prod>i'\<in>{..<n} - {i}. d i')) =
    (\<Prod>i<n. d i) * poly_at cs 0"
proof -
  let ?x = "\<lambda>i. of_int (x i) :: rat" and ?f = "poly_at (map of_int cs) :: rat \<Rightarrow> rat"
  have d0: "d i \<noteq> 0" if "i < n" for i
    using inj that by (auto simp: d_def inj_on_def)
  have f: "?f (?x i) = of_int (poly_at cs (x i))" for i
    by (rule poly_at_of_int)
  have f0: "?f 0 = of_int (poly_at cs 0)"
    using poly_at_of_int [of cs 0] by simp
  have "polyfun (card {..<n}) ?f"
    using polyfun_mono [OF _ polyfun_poly_at [of "map of_int cs :: rat list"], of n] len by simp
  then have "lagrange0 {..<n} ?x (\<lambda>i. ?f (?x i)) = ?f 0"
    using inj by (intro lagrange0_poly) (auto simp: inj_on_def)
  then have "(\<Sum>i<n. of_int (poly_at cs (x i)) * (of_int (\<Prod>j\<in>{..<n} - {i}. x j) / of_int (d i))) = (of_int (poly_at cs 0) :: rat)"
    unfolding lagrange0_def f f0 d_def by (simp add: prod_dividef)
  then have "(of_int (\<Prod>i<n. d i) :: rat) * (\<Sum>i<n. of_int (poly_at cs (x i)) * (of_int (\<Prod>j\<in>{..<n} - {i}. x j) / of_int (d i))) =
      of_int ((\<Prod>i<n. d i) * poly_at cs 0)"
    by (simp only: of_int_mult)
  moreover have "(of_int (\<Prod>i<n. d i) :: rat) * (of_int (poly_at cs (x i)) * (of_int (\<Prod>j\<in>{..<n} - {i}. x j) / of_int (d i))) =
      of_int (poly_at cs (x i) * (\<Prod>j\<in>{..<n} - {i}. x j) * (\<Prod>i'\<in>{..<n} - {i}. d i'))" if "i \<in> {..<n}" for i
  proof -
    have "(\<Prod>i<n. d i) = d i * (\<Prod>i'\<in>{..<n} - {i}. d i')"
      using that by (intro prod.remove) auto
    then show ?thesis
      using d0 [of i] that by (simp only: of_int_mult) (simp del: of_int_prod prod_diff1 add: field_simps)
  qed
  ultimately have "(of_int (\<Sum>i<n. poly_at cs (x i) * (\<Prod>j\<in>{..<n} - {i}. x j) * (\<Prod>i'\<in>{..<n} - {i}. d i')) :: rat) =
      of_int ((\<Prod>i<n. d i) * poly_at cs 0)"
    by (simp only: sum_distrib_left of_int_sum cong: sum.cong)
  then show ?thesis
    by (simp only: of_int_eq_iff)
qed

theorem lagrange_mod:
  fixes x y :: "nat \<Rightarrow> int"
  assumes p: "is_prime p" and len: "length cs \<le> n"
    and dist: "\<And>i j. i < n \<Longrightarrow> j < n \<Longrightarrow> i \<noteq> j \<Longrightarrow> x i mod p \<noteq> x j mod p"
    and y: "\<And>i. i < n \<Longrightarrow> y i mod p = poly_at cs (x i) mod p"
    and L: "\<And>i. i < n \<Longrightarrow> L i * (\<Prod>j\<in>{..<n} - {i}. x j - x i) mod p = (\<Prod>j\<in>{..<n} - {i}. x j) mod p"
  shows "(\<Sum>i<n. y i * L i) mod p = poly_at cs 0 mod p"
proof -
  define d where "d i = (\<Prod>j\<in>{..<n} - {i}. x j - x i)" for i
  define D where "D = (\<Prod>i<n. d i)"
  let ?N = "\<lambda>i. \<Prod>j\<in>{..<n} - {i}. x j" and ?E = "\<lambda>i. \<Prod>i'\<in>{..<n} - {i}. d i'"
  have mod3: "a * b * c mod p = (a mod p) * (b mod p) * c mod p" for a b c
    by (metis mod_mult_eq mod_mult_left_eq)
  have tm: "D * (y i * L i) mod p = poly_at cs (x i) * ?N i * ?E i mod p" if i: "i < n" for i
  proof -
    have "D = d i * ?E i"
      unfolding D_def using i by (intro prod.remove) auto
    then have "D * (y i * L i) = y i * (L i * d i) * ?E i"
      by (simp only: ac_simps)
    also have "\<dots> mod p = (y i mod p) * (L i * d i mod p) * ?E i mod p"
      by (rule mod3)
    also have "\<dots> = (poly_at cs (x i) mod p) * (?N i mod p) * ?E i mod p"
      by (simp only: L [OF i] y [OF i] d_def)
    also have "\<dots> = poly_at cs (x i) * ?N i * ?E i mod p"
      by (rule mod3 [symmetric])
    finally show ?thesis .
  qed
  have inj: "inj_on x {..<n}"
    by (rule inj_onI) (metis dist lessThan_iff)
  have "D * (\<Sum>i<n. y i * L i) mod p = (\<Sum>i<n. D * (y i * L i) mod p) mod p"
    by (simp only: sum_distrib_left mod_sum_eq)
  also have "\<dots> = (\<Sum>i<n. poly_at cs (x i) * ?N i * ?E i mod p) mod p"
    by (rule arg_cong [where f = "\<lambda>s. s mod p"], rule sum.cong) (simp_all only: tm lessThan_iff)
  also have "\<dots> = D * poly_at cs 0 mod p"
    using lagrange_int [OF inj len] by (simp only: mod_sum_eq d_def D_def)
  finally have "(\<Sum>i<n. y i * L i) * D mod p = poly_at cs 0 * D mod p"
    by (simp only: mult.commute)
  moreover have "coprime D p"
  proof (rule prime_coprime [OF p])
    have "\<not> p dvd x j - x i" if "i < n" "j < n" "i \<noteq> j" for i j
      using dist [OF that] by (metis mod_eq_dvd_iff)
    then have "\<not> p dvd d i" if "i < n" for i
      unfolding d_def using that by (intro prime_not_dvd_prod [OF p]) auto
    then show "\<not> p dvd D"
      unfolding D_def by (intro prime_not_dvd_prod [OF p]) auto
  qed
  ultimately show ?thesis
    by (rule mod_mult_cancel [rotated])
qed

text \<open>With one inverse per pair of points.\<close>

lemma lagrange_pairs:
  fixes p :: int
  assumes p1: "1 < p" and w: "\<And>j. j \<in> A \<Longrightarrow> w j * (x j - c) mod p = 1"
  shows "(\<Prod>j\<in>A. x j * w j) * (\<Prod>j\<in>A. x j - c) mod p = (\<Prod>j\<in>A. x j) mod p"
proof -
  have "(\<Prod>j\<in>A. x j * w j) * (\<Prod>j\<in>A. x j - c) = (\<Prod>j\<in>A. x j) * (\<Prod>j\<in>A. w j * (x j - c))"
    by (simp only: prod.distrib ac_simps)
  also have "\<dots> mod p = (\<Prod>j\<in>A. x j) * ((\<Prod>j\<in>A. w j * (x j - c)) mod p) mod p"
    by (simp only: mod_mult_right_eq)
  also have "(\<Prod>j\<in>A. w j * (x j - c)) mod p = (\<Prod>j\<in>A. w j * (x j - c) mod p) mod p"
    by (rule mod_prod_eq [symmetric])
  also have "(\<Prod>j\<in>A. w j * (x j - c) mod p) = 1"
    using w by (intro prod.neutral) auto
  finally show ?thesis using p1 by simp
qed

end
