(* ===== verification/Prime_Certificates.thy ===== *)
theory Prime_Certificates
  imports Number_Theory
begin

text \<open>
  Primality of the moduli of the program, by Pocklington certificates checked in the kernel.

  A power \<open>a ^ e\<close> modulo \<open>m\<close> is certified by the chain of squarings that a left-to-right
  binary exponentiation performs: a step names whether the current bit of the exponent is set,
  the quotient of the squaring by \<open>m\<close> and its remainder. Checking a step is one squaring, one
  product and one sum of numerals, for which \<open>numeral_rules\<close> is a small rule set that adds
  three bits at a time.
\<close>

section \<open>Fast numerals\<close>

lemma num_add_rules:
  fixes m n :: num
  shows
    "num.Bit0 (num.Bit0 (num.Bit0 m)) + num.Bit0 (num.Bit0 (num.Bit0 n)) = num.Bit0 (num.Bit0 (num.Bit0 (m + n)))"
    "num.Bit0 (num.Bit0 (num.Bit0 m)) + num.Bit1 (num.Bit0 (num.Bit0 n)) = num.Bit1 (num.Bit0 (num.Bit0 (m + n)))"
    "num.Bit0 (num.Bit0 (num.Bit0 m)) + num.Bit0 (num.Bit1 (num.Bit0 n)) = num.Bit0 (num.Bit1 (num.Bit0 (m + n)))"
    "num.Bit0 (num.Bit0 (num.Bit0 m)) + num.Bit1 (num.Bit1 (num.Bit0 n)) = num.Bit1 (num.Bit1 (num.Bit0 (m + n)))"
    "num.Bit0 (num.Bit0 (num.Bit0 m)) + num.Bit0 (num.Bit0 (num.Bit1 n)) = num.Bit0 (num.Bit0 (num.Bit1 (m + n)))"
    "num.Bit0 (num.Bit0 (num.Bit0 m)) + num.Bit1 (num.Bit0 (num.Bit1 n)) = num.Bit1 (num.Bit0 (num.Bit1 (m + n)))"
    "num.Bit0 (num.Bit0 (num.Bit0 m)) + num.Bit0 (num.Bit1 (num.Bit1 n)) = num.Bit0 (num.Bit1 (num.Bit1 (m + n)))"
    "num.Bit0 (num.Bit0 (num.Bit0 m)) + num.Bit1 (num.Bit1 (num.Bit1 n)) = num.Bit1 (num.Bit1 (num.Bit1 (m + n)))"
    "num.Bit1 (num.Bit0 (num.Bit0 m)) + num.Bit0 (num.Bit0 (num.Bit0 n)) = num.Bit1 (num.Bit0 (num.Bit0 (m + n)))"
    "num.Bit1 (num.Bit0 (num.Bit0 m)) + num.Bit1 (num.Bit0 (num.Bit0 n)) = num.Bit0 (num.Bit1 (num.Bit0 (m + n)))"
    "num.Bit1 (num.Bit0 (num.Bit0 m)) + num.Bit0 (num.Bit1 (num.Bit0 n)) = num.Bit1 (num.Bit1 (num.Bit0 (m + n)))"
    "num.Bit1 (num.Bit0 (num.Bit0 m)) + num.Bit1 (num.Bit1 (num.Bit0 n)) = num.Bit0 (num.Bit0 (num.Bit1 (m + n)))"
    "num.Bit1 (num.Bit0 (num.Bit0 m)) + num.Bit0 (num.Bit0 (num.Bit1 n)) = num.Bit1 (num.Bit0 (num.Bit1 (m + n)))"
    "num.Bit1 (num.Bit0 (num.Bit0 m)) + num.Bit1 (num.Bit0 (num.Bit1 n)) = num.Bit0 (num.Bit1 (num.Bit1 (m + n)))"
    "num.Bit1 (num.Bit0 (num.Bit0 m)) + num.Bit0 (num.Bit1 (num.Bit1 n)) = num.Bit1 (num.Bit1 (num.Bit1 (m + n)))"
    "num.Bit1 (num.Bit0 (num.Bit0 m)) + num.Bit1 (num.Bit1 (num.Bit1 n)) = num.Bit0 (num.Bit0 (num.Bit0 (m + n + num.One)))"
    "num.Bit0 (num.Bit1 (num.Bit0 m)) + num.Bit0 (num.Bit0 (num.Bit0 n)) = num.Bit0 (num.Bit1 (num.Bit0 (m + n)))"
    "num.Bit0 (num.Bit1 (num.Bit0 m)) + num.Bit1 (num.Bit0 (num.Bit0 n)) = num.Bit1 (num.Bit1 (num.Bit0 (m + n)))"
    "num.Bit0 (num.Bit1 (num.Bit0 m)) + num.Bit0 (num.Bit1 (num.Bit0 n)) = num.Bit0 (num.Bit0 (num.Bit1 (m + n)))"
    "num.Bit0 (num.Bit1 (num.Bit0 m)) + num.Bit1 (num.Bit1 (num.Bit0 n)) = num.Bit1 (num.Bit0 (num.Bit1 (m + n)))"
    "num.Bit0 (num.Bit1 (num.Bit0 m)) + num.Bit0 (num.Bit0 (num.Bit1 n)) = num.Bit0 (num.Bit1 (num.Bit1 (m + n)))"
    "num.Bit0 (num.Bit1 (num.Bit0 m)) + num.Bit1 (num.Bit0 (num.Bit1 n)) = num.Bit1 (num.Bit1 (num.Bit1 (m + n)))"
    "num.Bit0 (num.Bit1 (num.Bit0 m)) + num.Bit0 (num.Bit1 (num.Bit1 n)) = num.Bit0 (num.Bit0 (num.Bit0 (m + n + num.One)))"
    "num.Bit0 (num.Bit1 (num.Bit0 m)) + num.Bit1 (num.Bit1 (num.Bit1 n)) = num.Bit1 (num.Bit0 (num.Bit0 (m + n + num.One)))"
    "num.Bit1 (num.Bit1 (num.Bit0 m)) + num.Bit0 (num.Bit0 (num.Bit0 n)) = num.Bit1 (num.Bit1 (num.Bit0 (m + n)))"
    "num.Bit1 (num.Bit1 (num.Bit0 m)) + num.Bit1 (num.Bit0 (num.Bit0 n)) = num.Bit0 (num.Bit0 (num.Bit1 (m + n)))"
    "num.Bit1 (num.Bit1 (num.Bit0 m)) + num.Bit0 (num.Bit1 (num.Bit0 n)) = num.Bit1 (num.Bit0 (num.Bit1 (m + n)))"
    "num.Bit1 (num.Bit1 (num.Bit0 m)) + num.Bit1 (num.Bit1 (num.Bit0 n)) = num.Bit0 (num.Bit1 (num.Bit1 (m + n)))"
    "num.Bit1 (num.Bit1 (num.Bit0 m)) + num.Bit0 (num.Bit0 (num.Bit1 n)) = num.Bit1 (num.Bit1 (num.Bit1 (m + n)))"
    "num.Bit1 (num.Bit1 (num.Bit0 m)) + num.Bit1 (num.Bit0 (num.Bit1 n)) = num.Bit0 (num.Bit0 (num.Bit0 (m + n + num.One)))"
    "num.Bit1 (num.Bit1 (num.Bit0 m)) + num.Bit0 (num.Bit1 (num.Bit1 n)) = num.Bit1 (num.Bit0 (num.Bit0 (m + n + num.One)))"
    "num.Bit1 (num.Bit1 (num.Bit0 m)) + num.Bit1 (num.Bit1 (num.Bit1 n)) = num.Bit0 (num.Bit1 (num.Bit0 (m + n + num.One)))"
    "num.Bit0 (num.Bit0 (num.Bit1 m)) + num.Bit0 (num.Bit0 (num.Bit0 n)) = num.Bit0 (num.Bit0 (num.Bit1 (m + n)))"
    "num.Bit0 (num.Bit0 (num.Bit1 m)) + num.Bit1 (num.Bit0 (num.Bit0 n)) = num.Bit1 (num.Bit0 (num.Bit1 (m + n)))"
    "num.Bit0 (num.Bit0 (num.Bit1 m)) + num.Bit0 (num.Bit1 (num.Bit0 n)) = num.Bit0 (num.Bit1 (num.Bit1 (m + n)))"
    "num.Bit0 (num.Bit0 (num.Bit1 m)) + num.Bit1 (num.Bit1 (num.Bit0 n)) = num.Bit1 (num.Bit1 (num.Bit1 (m + n)))"
    "num.Bit0 (num.Bit0 (num.Bit1 m)) + num.Bit0 (num.Bit0 (num.Bit1 n)) = num.Bit0 (num.Bit0 (num.Bit0 (m + n + num.One)))"
    "num.Bit0 (num.Bit0 (num.Bit1 m)) + num.Bit1 (num.Bit0 (num.Bit1 n)) = num.Bit1 (num.Bit0 (num.Bit0 (m + n + num.One)))"
    "num.Bit0 (num.Bit0 (num.Bit1 m)) + num.Bit0 (num.Bit1 (num.Bit1 n)) = num.Bit0 (num.Bit1 (num.Bit0 (m + n + num.One)))"
    "num.Bit0 (num.Bit0 (num.Bit1 m)) + num.Bit1 (num.Bit1 (num.Bit1 n)) = num.Bit1 (num.Bit1 (num.Bit0 (m + n + num.One)))"
    "num.Bit1 (num.Bit0 (num.Bit1 m)) + num.Bit0 (num.Bit0 (num.Bit0 n)) = num.Bit1 (num.Bit0 (num.Bit1 (m + n)))"
    "num.Bit1 (num.Bit0 (num.Bit1 m)) + num.Bit1 (num.Bit0 (num.Bit0 n)) = num.Bit0 (num.Bit1 (num.Bit1 (m + n)))"
    "num.Bit1 (num.Bit0 (num.Bit1 m)) + num.Bit0 (num.Bit1 (num.Bit0 n)) = num.Bit1 (num.Bit1 (num.Bit1 (m + n)))"
    "num.Bit1 (num.Bit0 (num.Bit1 m)) + num.Bit1 (num.Bit1 (num.Bit0 n)) = num.Bit0 (num.Bit0 (num.Bit0 (m + n + num.One)))"
    "num.Bit1 (num.Bit0 (num.Bit1 m)) + num.Bit0 (num.Bit0 (num.Bit1 n)) = num.Bit1 (num.Bit0 (num.Bit0 (m + n + num.One)))"
    "num.Bit1 (num.Bit0 (num.Bit1 m)) + num.Bit1 (num.Bit0 (num.Bit1 n)) = num.Bit0 (num.Bit1 (num.Bit0 (m + n + num.One)))"
    "num.Bit1 (num.Bit0 (num.Bit1 m)) + num.Bit0 (num.Bit1 (num.Bit1 n)) = num.Bit1 (num.Bit1 (num.Bit0 (m + n + num.One)))"
    "num.Bit1 (num.Bit0 (num.Bit1 m)) + num.Bit1 (num.Bit1 (num.Bit1 n)) = num.Bit0 (num.Bit0 (num.Bit1 (m + n + num.One)))"
    "num.Bit0 (num.Bit1 (num.Bit1 m)) + num.Bit0 (num.Bit0 (num.Bit0 n)) = num.Bit0 (num.Bit1 (num.Bit1 (m + n)))"
    "num.Bit0 (num.Bit1 (num.Bit1 m)) + num.Bit1 (num.Bit0 (num.Bit0 n)) = num.Bit1 (num.Bit1 (num.Bit1 (m + n)))"
    "num.Bit0 (num.Bit1 (num.Bit1 m)) + num.Bit0 (num.Bit1 (num.Bit0 n)) = num.Bit0 (num.Bit0 (num.Bit0 (m + n + num.One)))"
    "num.Bit0 (num.Bit1 (num.Bit1 m)) + num.Bit1 (num.Bit1 (num.Bit0 n)) = num.Bit1 (num.Bit0 (num.Bit0 (m + n + num.One)))"
    "num.Bit0 (num.Bit1 (num.Bit1 m)) + num.Bit0 (num.Bit0 (num.Bit1 n)) = num.Bit0 (num.Bit1 (num.Bit0 (m + n + num.One)))"
    "num.Bit0 (num.Bit1 (num.Bit1 m)) + num.Bit1 (num.Bit0 (num.Bit1 n)) = num.Bit1 (num.Bit1 (num.Bit0 (m + n + num.One)))"
    "num.Bit0 (num.Bit1 (num.Bit1 m)) + num.Bit0 (num.Bit1 (num.Bit1 n)) = num.Bit0 (num.Bit0 (num.Bit1 (m + n + num.One)))"
    "num.Bit0 (num.Bit1 (num.Bit1 m)) + num.Bit1 (num.Bit1 (num.Bit1 n)) = num.Bit1 (num.Bit0 (num.Bit1 (m + n + num.One)))"
    "num.Bit1 (num.Bit1 (num.Bit1 m)) + num.Bit0 (num.Bit0 (num.Bit0 n)) = num.Bit1 (num.Bit1 (num.Bit1 (m + n)))"
    "num.Bit1 (num.Bit1 (num.Bit1 m)) + num.Bit1 (num.Bit0 (num.Bit0 n)) = num.Bit0 (num.Bit0 (num.Bit0 (m + n + num.One)))"
    "num.Bit1 (num.Bit1 (num.Bit1 m)) + num.Bit0 (num.Bit1 (num.Bit0 n)) = num.Bit1 (num.Bit0 (num.Bit0 (m + n + num.One)))"
    "num.Bit1 (num.Bit1 (num.Bit1 m)) + num.Bit1 (num.Bit1 (num.Bit0 n)) = num.Bit0 (num.Bit1 (num.Bit0 (m + n + num.One)))"
    "num.Bit1 (num.Bit1 (num.Bit1 m)) + num.Bit0 (num.Bit0 (num.Bit1 n)) = num.Bit1 (num.Bit1 (num.Bit0 (m + n + num.One)))"
    "num.Bit1 (num.Bit1 (num.Bit1 m)) + num.Bit1 (num.Bit0 (num.Bit1 n)) = num.Bit0 (num.Bit0 (num.Bit1 (m + n + num.One)))"
    "num.Bit1 (num.Bit1 (num.Bit1 m)) + num.Bit0 (num.Bit1 (num.Bit1 n)) = num.Bit1 (num.Bit0 (num.Bit1 (m + n + num.One)))"
    "num.Bit1 (num.Bit1 (num.Bit1 m)) + num.Bit1 (num.Bit1 (num.Bit1 n)) = num.Bit0 (num.Bit1 (num.Bit1 (m + n + num.One)))"
    "num.Bit0 (num.Bit0 (num.Bit0 m)) + num.One = num.Bit1 (num.Bit0 (num.Bit0 m))"
    "num.One + num.Bit0 (num.Bit0 (num.Bit0 m)) = num.Bit1 (num.Bit0 (num.Bit0 m))"
    "num.Bit0 (num.Bit0 (num.Bit0 m)) + num.Bit0 num.One = num.Bit0 (num.Bit1 (num.Bit0 m))"
    "num.Bit0 num.One + num.Bit0 (num.Bit0 (num.Bit0 m)) = num.Bit0 (num.Bit1 (num.Bit0 m))"
    "num.Bit0 (num.Bit0 (num.Bit0 m)) + num.Bit1 num.One = num.Bit1 (num.Bit1 (num.Bit0 m))"
    "num.Bit1 num.One + num.Bit0 (num.Bit0 (num.Bit0 m)) = num.Bit1 (num.Bit1 (num.Bit0 m))"
    "num.Bit0 (num.Bit0 (num.Bit0 m)) + num.Bit0 (num.Bit0 num.One) = num.Bit0 (num.Bit0 (num.Bit1 m))"
    "num.Bit0 (num.Bit0 num.One) + num.Bit0 (num.Bit0 (num.Bit0 m)) = num.Bit0 (num.Bit0 (num.Bit1 m))"
    "num.Bit0 (num.Bit0 (num.Bit0 m)) + num.Bit1 (num.Bit0 num.One) = num.Bit1 (num.Bit0 (num.Bit1 m))"
    "num.Bit1 (num.Bit0 num.One) + num.Bit0 (num.Bit0 (num.Bit0 m)) = num.Bit1 (num.Bit0 (num.Bit1 m))"
    "num.Bit0 (num.Bit0 (num.Bit0 m)) + num.Bit0 (num.Bit1 num.One) = num.Bit0 (num.Bit1 (num.Bit1 m))"
    "num.Bit0 (num.Bit1 num.One) + num.Bit0 (num.Bit0 (num.Bit0 m)) = num.Bit0 (num.Bit1 (num.Bit1 m))"
    "num.Bit0 (num.Bit0 (num.Bit0 m)) + num.Bit1 (num.Bit1 num.One) = num.Bit1 (num.Bit1 (num.Bit1 m))"
    "num.Bit1 (num.Bit1 num.One) + num.Bit0 (num.Bit0 (num.Bit0 m)) = num.Bit1 (num.Bit1 (num.Bit1 m))"
    "num.Bit1 (num.Bit0 (num.Bit0 m)) + num.One = num.Bit0 (num.Bit1 (num.Bit0 m))"
    "num.One + num.Bit1 (num.Bit0 (num.Bit0 m)) = num.Bit0 (num.Bit1 (num.Bit0 m))"
    "num.Bit1 (num.Bit0 (num.Bit0 m)) + num.Bit0 num.One = num.Bit1 (num.Bit1 (num.Bit0 m))"
    "num.Bit0 num.One + num.Bit1 (num.Bit0 (num.Bit0 m)) = num.Bit1 (num.Bit1 (num.Bit0 m))"
    "num.Bit1 (num.Bit0 (num.Bit0 m)) + num.Bit1 num.One = num.Bit0 (num.Bit0 (num.Bit1 m))"
    "num.Bit1 num.One + num.Bit1 (num.Bit0 (num.Bit0 m)) = num.Bit0 (num.Bit0 (num.Bit1 m))"
    "num.Bit1 (num.Bit0 (num.Bit0 m)) + num.Bit0 (num.Bit0 num.One) = num.Bit1 (num.Bit0 (num.Bit1 m))"
    "num.Bit0 (num.Bit0 num.One) + num.Bit1 (num.Bit0 (num.Bit0 m)) = num.Bit1 (num.Bit0 (num.Bit1 m))"
    "num.Bit1 (num.Bit0 (num.Bit0 m)) + num.Bit1 (num.Bit0 num.One) = num.Bit0 (num.Bit1 (num.Bit1 m))"
    "num.Bit1 (num.Bit0 num.One) + num.Bit1 (num.Bit0 (num.Bit0 m)) = num.Bit0 (num.Bit1 (num.Bit1 m))"
    "num.Bit1 (num.Bit0 (num.Bit0 m)) + num.Bit0 (num.Bit1 num.One) = num.Bit1 (num.Bit1 (num.Bit1 m))"
    "num.Bit0 (num.Bit1 num.One) + num.Bit1 (num.Bit0 (num.Bit0 m)) = num.Bit1 (num.Bit1 (num.Bit1 m))"
    "num.Bit1 (num.Bit0 (num.Bit0 m)) + num.Bit1 (num.Bit1 num.One) = num.Bit0 (num.Bit0 (num.Bit0 (m + num.One)))"
    "num.Bit1 (num.Bit1 num.One) + num.Bit1 (num.Bit0 (num.Bit0 m)) = num.Bit0 (num.Bit0 (num.Bit0 (m + num.One)))"
    "num.Bit0 (num.Bit1 (num.Bit0 m)) + num.One = num.Bit1 (num.Bit1 (num.Bit0 m))"
    "num.One + num.Bit0 (num.Bit1 (num.Bit0 m)) = num.Bit1 (num.Bit1 (num.Bit0 m))"
    "num.Bit0 (num.Bit1 (num.Bit0 m)) + num.Bit0 num.One = num.Bit0 (num.Bit0 (num.Bit1 m))"
    "num.Bit0 num.One + num.Bit0 (num.Bit1 (num.Bit0 m)) = num.Bit0 (num.Bit0 (num.Bit1 m))"
    "num.Bit0 (num.Bit1 (num.Bit0 m)) + num.Bit1 num.One = num.Bit1 (num.Bit0 (num.Bit1 m))"
    "num.Bit1 num.One + num.Bit0 (num.Bit1 (num.Bit0 m)) = num.Bit1 (num.Bit0 (num.Bit1 m))"
    "num.Bit0 (num.Bit1 (num.Bit0 m)) + num.Bit0 (num.Bit0 num.One) = num.Bit0 (num.Bit1 (num.Bit1 m))"
    "num.Bit0 (num.Bit0 num.One) + num.Bit0 (num.Bit1 (num.Bit0 m)) = num.Bit0 (num.Bit1 (num.Bit1 m))"
    "num.Bit0 (num.Bit1 (num.Bit0 m)) + num.Bit1 (num.Bit0 num.One) = num.Bit1 (num.Bit1 (num.Bit1 m))"
    "num.Bit1 (num.Bit0 num.One) + num.Bit0 (num.Bit1 (num.Bit0 m)) = num.Bit1 (num.Bit1 (num.Bit1 m))"
    "num.Bit0 (num.Bit1 (num.Bit0 m)) + num.Bit0 (num.Bit1 num.One) = num.Bit0 (num.Bit0 (num.Bit0 (m + num.One)))"
    "num.Bit0 (num.Bit1 num.One) + num.Bit0 (num.Bit1 (num.Bit0 m)) = num.Bit0 (num.Bit0 (num.Bit0 (m + num.One)))"
    "num.Bit0 (num.Bit1 (num.Bit0 m)) + num.Bit1 (num.Bit1 num.One) = num.Bit1 (num.Bit0 (num.Bit0 (m + num.One)))"
    "num.Bit1 (num.Bit1 num.One) + num.Bit0 (num.Bit1 (num.Bit0 m)) = num.Bit1 (num.Bit0 (num.Bit0 (m + num.One)))"
    "num.Bit1 (num.Bit1 (num.Bit0 m)) + num.One = num.Bit0 (num.Bit0 (num.Bit1 m))"
    "num.One + num.Bit1 (num.Bit1 (num.Bit0 m)) = num.Bit0 (num.Bit0 (num.Bit1 m))"
    "num.Bit1 (num.Bit1 (num.Bit0 m)) + num.Bit0 num.One = num.Bit1 (num.Bit0 (num.Bit1 m))"
    "num.Bit0 num.One + num.Bit1 (num.Bit1 (num.Bit0 m)) = num.Bit1 (num.Bit0 (num.Bit1 m))"
    "num.Bit1 (num.Bit1 (num.Bit0 m)) + num.Bit1 num.One = num.Bit0 (num.Bit1 (num.Bit1 m))"
    "num.Bit1 num.One + num.Bit1 (num.Bit1 (num.Bit0 m)) = num.Bit0 (num.Bit1 (num.Bit1 m))"
    "num.Bit1 (num.Bit1 (num.Bit0 m)) + num.Bit0 (num.Bit0 num.One) = num.Bit1 (num.Bit1 (num.Bit1 m))"
    "num.Bit0 (num.Bit0 num.One) + num.Bit1 (num.Bit1 (num.Bit0 m)) = num.Bit1 (num.Bit1 (num.Bit1 m))"
    "num.Bit1 (num.Bit1 (num.Bit0 m)) + num.Bit1 (num.Bit0 num.One) = num.Bit0 (num.Bit0 (num.Bit0 (m + num.One)))"
    "num.Bit1 (num.Bit0 num.One) + num.Bit1 (num.Bit1 (num.Bit0 m)) = num.Bit0 (num.Bit0 (num.Bit0 (m + num.One)))"
    "num.Bit1 (num.Bit1 (num.Bit0 m)) + num.Bit0 (num.Bit1 num.One) = num.Bit1 (num.Bit0 (num.Bit0 (m + num.One)))"
    "num.Bit0 (num.Bit1 num.One) + num.Bit1 (num.Bit1 (num.Bit0 m)) = num.Bit1 (num.Bit0 (num.Bit0 (m + num.One)))"
    "num.Bit1 (num.Bit1 (num.Bit0 m)) + num.Bit1 (num.Bit1 num.One) = num.Bit0 (num.Bit1 (num.Bit0 (m + num.One)))"
    "num.Bit1 (num.Bit1 num.One) + num.Bit1 (num.Bit1 (num.Bit0 m)) = num.Bit0 (num.Bit1 (num.Bit0 (m + num.One)))"
    "num.Bit0 (num.Bit0 (num.Bit1 m)) + num.One = num.Bit1 (num.Bit0 (num.Bit1 m))"
    "num.One + num.Bit0 (num.Bit0 (num.Bit1 m)) = num.Bit1 (num.Bit0 (num.Bit1 m))"
    "num.Bit0 (num.Bit0 (num.Bit1 m)) + num.Bit0 num.One = num.Bit0 (num.Bit1 (num.Bit1 m))"
    "num.Bit0 num.One + num.Bit0 (num.Bit0 (num.Bit1 m)) = num.Bit0 (num.Bit1 (num.Bit1 m))"
    "num.Bit0 (num.Bit0 (num.Bit1 m)) + num.Bit1 num.One = num.Bit1 (num.Bit1 (num.Bit1 m))"
    "num.Bit1 num.One + num.Bit0 (num.Bit0 (num.Bit1 m)) = num.Bit1 (num.Bit1 (num.Bit1 m))"
    "num.Bit0 (num.Bit0 (num.Bit1 m)) + num.Bit0 (num.Bit0 num.One) = num.Bit0 (num.Bit0 (num.Bit0 (m + num.One)))"
    "num.Bit0 (num.Bit0 num.One) + num.Bit0 (num.Bit0 (num.Bit1 m)) = num.Bit0 (num.Bit0 (num.Bit0 (m + num.One)))"
    "num.Bit0 (num.Bit0 (num.Bit1 m)) + num.Bit1 (num.Bit0 num.One) = num.Bit1 (num.Bit0 (num.Bit0 (m + num.One)))"
    "num.Bit1 (num.Bit0 num.One) + num.Bit0 (num.Bit0 (num.Bit1 m)) = num.Bit1 (num.Bit0 (num.Bit0 (m + num.One)))"
    "num.Bit0 (num.Bit0 (num.Bit1 m)) + num.Bit0 (num.Bit1 num.One) = num.Bit0 (num.Bit1 (num.Bit0 (m + num.One)))"
    "num.Bit0 (num.Bit1 num.One) + num.Bit0 (num.Bit0 (num.Bit1 m)) = num.Bit0 (num.Bit1 (num.Bit0 (m + num.One)))"
    "num.Bit0 (num.Bit0 (num.Bit1 m)) + num.Bit1 (num.Bit1 num.One) = num.Bit1 (num.Bit1 (num.Bit0 (m + num.One)))"
    "num.Bit1 (num.Bit1 num.One) + num.Bit0 (num.Bit0 (num.Bit1 m)) = num.Bit1 (num.Bit1 (num.Bit0 (m + num.One)))"
    "num.Bit1 (num.Bit0 (num.Bit1 m)) + num.One = num.Bit0 (num.Bit1 (num.Bit1 m))"
    "num.One + num.Bit1 (num.Bit0 (num.Bit1 m)) = num.Bit0 (num.Bit1 (num.Bit1 m))"
    "num.Bit1 (num.Bit0 (num.Bit1 m)) + num.Bit0 num.One = num.Bit1 (num.Bit1 (num.Bit1 m))"
    "num.Bit0 num.One + num.Bit1 (num.Bit0 (num.Bit1 m)) = num.Bit1 (num.Bit1 (num.Bit1 m))"
    "num.Bit1 (num.Bit0 (num.Bit1 m)) + num.Bit1 num.One = num.Bit0 (num.Bit0 (num.Bit0 (m + num.One)))"
    "num.Bit1 num.One + num.Bit1 (num.Bit0 (num.Bit1 m)) = num.Bit0 (num.Bit0 (num.Bit0 (m + num.One)))"
    "num.Bit1 (num.Bit0 (num.Bit1 m)) + num.Bit0 (num.Bit0 num.One) = num.Bit1 (num.Bit0 (num.Bit0 (m + num.One)))"
    "num.Bit0 (num.Bit0 num.One) + num.Bit1 (num.Bit0 (num.Bit1 m)) = num.Bit1 (num.Bit0 (num.Bit0 (m + num.One)))"
    "num.Bit1 (num.Bit0 (num.Bit1 m)) + num.Bit1 (num.Bit0 num.One) = num.Bit0 (num.Bit1 (num.Bit0 (m + num.One)))"
    "num.Bit1 (num.Bit0 num.One) + num.Bit1 (num.Bit0 (num.Bit1 m)) = num.Bit0 (num.Bit1 (num.Bit0 (m + num.One)))"
    "num.Bit1 (num.Bit0 (num.Bit1 m)) + num.Bit0 (num.Bit1 num.One) = num.Bit1 (num.Bit1 (num.Bit0 (m + num.One)))"
    "num.Bit0 (num.Bit1 num.One) + num.Bit1 (num.Bit0 (num.Bit1 m)) = num.Bit1 (num.Bit1 (num.Bit0 (m + num.One)))"
    "num.Bit1 (num.Bit0 (num.Bit1 m)) + num.Bit1 (num.Bit1 num.One) = num.Bit0 (num.Bit0 (num.Bit1 (m + num.One)))"
    "num.Bit1 (num.Bit1 num.One) + num.Bit1 (num.Bit0 (num.Bit1 m)) = num.Bit0 (num.Bit0 (num.Bit1 (m + num.One)))"
    "num.Bit0 (num.Bit1 (num.Bit1 m)) + num.One = num.Bit1 (num.Bit1 (num.Bit1 m))"
    "num.One + num.Bit0 (num.Bit1 (num.Bit1 m)) = num.Bit1 (num.Bit1 (num.Bit1 m))"
    "num.Bit0 (num.Bit1 (num.Bit1 m)) + num.Bit0 num.One = num.Bit0 (num.Bit0 (num.Bit0 (m + num.One)))"
    "num.Bit0 num.One + num.Bit0 (num.Bit1 (num.Bit1 m)) = num.Bit0 (num.Bit0 (num.Bit0 (m + num.One)))"
    "num.Bit0 (num.Bit1 (num.Bit1 m)) + num.Bit1 num.One = num.Bit1 (num.Bit0 (num.Bit0 (m + num.One)))"
    "num.Bit1 num.One + num.Bit0 (num.Bit1 (num.Bit1 m)) = num.Bit1 (num.Bit0 (num.Bit0 (m + num.One)))"
    "num.Bit0 (num.Bit1 (num.Bit1 m)) + num.Bit0 (num.Bit0 num.One) = num.Bit0 (num.Bit1 (num.Bit0 (m + num.One)))"
    "num.Bit0 (num.Bit0 num.One) + num.Bit0 (num.Bit1 (num.Bit1 m)) = num.Bit0 (num.Bit1 (num.Bit0 (m + num.One)))"
    "num.Bit0 (num.Bit1 (num.Bit1 m)) + num.Bit1 (num.Bit0 num.One) = num.Bit1 (num.Bit1 (num.Bit0 (m + num.One)))"
    "num.Bit1 (num.Bit0 num.One) + num.Bit0 (num.Bit1 (num.Bit1 m)) = num.Bit1 (num.Bit1 (num.Bit0 (m + num.One)))"
    "num.Bit0 (num.Bit1 (num.Bit1 m)) + num.Bit0 (num.Bit1 num.One) = num.Bit0 (num.Bit0 (num.Bit1 (m + num.One)))"
    "num.Bit0 (num.Bit1 num.One) + num.Bit0 (num.Bit1 (num.Bit1 m)) = num.Bit0 (num.Bit0 (num.Bit1 (m + num.One)))"
    "num.Bit0 (num.Bit1 (num.Bit1 m)) + num.Bit1 (num.Bit1 num.One) = num.Bit1 (num.Bit0 (num.Bit1 (m + num.One)))"
    "num.Bit1 (num.Bit1 num.One) + num.Bit0 (num.Bit1 (num.Bit1 m)) = num.Bit1 (num.Bit0 (num.Bit1 (m + num.One)))"
    "num.Bit1 (num.Bit1 (num.Bit1 m)) + num.One = num.Bit0 (num.Bit0 (num.Bit0 (m + num.One)))"
    "num.One + num.Bit1 (num.Bit1 (num.Bit1 m)) = num.Bit0 (num.Bit0 (num.Bit0 (m + num.One)))"
    "num.Bit1 (num.Bit1 (num.Bit1 m)) + num.Bit0 num.One = num.Bit1 (num.Bit0 (num.Bit0 (m + num.One)))"
    "num.Bit0 num.One + num.Bit1 (num.Bit1 (num.Bit1 m)) = num.Bit1 (num.Bit0 (num.Bit0 (m + num.One)))"
    "num.Bit1 (num.Bit1 (num.Bit1 m)) + num.Bit1 num.One = num.Bit0 (num.Bit1 (num.Bit0 (m + num.One)))"
    "num.Bit1 num.One + num.Bit1 (num.Bit1 (num.Bit1 m)) = num.Bit0 (num.Bit1 (num.Bit0 (m + num.One)))"
    "num.Bit1 (num.Bit1 (num.Bit1 m)) + num.Bit0 (num.Bit0 num.One) = num.Bit1 (num.Bit1 (num.Bit0 (m + num.One)))"
    "num.Bit0 (num.Bit0 num.One) + num.Bit1 (num.Bit1 (num.Bit1 m)) = num.Bit1 (num.Bit1 (num.Bit0 (m + num.One)))"
    "num.Bit1 (num.Bit1 (num.Bit1 m)) + num.Bit1 (num.Bit0 num.One) = num.Bit0 (num.Bit0 (num.Bit1 (m + num.One)))"
    "num.Bit1 (num.Bit0 num.One) + num.Bit1 (num.Bit1 (num.Bit1 m)) = num.Bit0 (num.Bit0 (num.Bit1 (m + num.One)))"
    "num.Bit1 (num.Bit1 (num.Bit1 m)) + num.Bit0 (num.Bit1 num.One) = num.Bit1 (num.Bit0 (num.Bit1 (m + num.One)))"
    "num.Bit0 (num.Bit1 num.One) + num.Bit1 (num.Bit1 (num.Bit1 m)) = num.Bit1 (num.Bit0 (num.Bit1 (m + num.One)))"
    "num.Bit1 (num.Bit1 (num.Bit1 m)) + num.Bit1 (num.Bit1 num.One) = num.Bit0 (num.Bit1 (num.Bit1 (m + num.One)))"
    "num.Bit1 (num.Bit1 num.One) + num.Bit1 (num.Bit1 (num.Bit1 m)) = num.Bit0 (num.Bit1 (num.Bit1 (m + num.One)))"
    "num.One + num.One = num.Bit0 num.One"
    "num.One + num.Bit0 num.One = num.Bit1 num.One"
    "num.One + num.Bit1 num.One = num.Bit0 (num.Bit0 num.One)"
    "num.One + num.Bit0 (num.Bit0 num.One) = num.Bit1 (num.Bit0 num.One)"
    "num.One + num.Bit1 (num.Bit0 num.One) = num.Bit0 (num.Bit1 num.One)"
    "num.One + num.Bit0 (num.Bit1 num.One) = num.Bit1 (num.Bit1 num.One)"
    "num.One + num.Bit1 (num.Bit1 num.One) = num.Bit0 (num.Bit0 (num.Bit0 num.One))"
    "num.Bit0 num.One + num.One = num.Bit1 num.One"
    "num.Bit0 num.One + num.Bit0 num.One = num.Bit0 (num.Bit0 num.One)"
    "num.Bit0 num.One + num.Bit1 num.One = num.Bit1 (num.Bit0 num.One)"
    "num.Bit0 num.One + num.Bit0 (num.Bit0 num.One) = num.Bit0 (num.Bit1 num.One)"
    "num.Bit0 num.One + num.Bit1 (num.Bit0 num.One) = num.Bit1 (num.Bit1 num.One)"
    "num.Bit0 num.One + num.Bit0 (num.Bit1 num.One) = num.Bit0 (num.Bit0 (num.Bit0 num.One))"
    "num.Bit0 num.One + num.Bit1 (num.Bit1 num.One) = num.Bit1 (num.Bit0 (num.Bit0 num.One))"
    "num.Bit1 num.One + num.One = num.Bit0 (num.Bit0 num.One)"
    "num.Bit1 num.One + num.Bit0 num.One = num.Bit1 (num.Bit0 num.One)"
    "num.Bit1 num.One + num.Bit1 num.One = num.Bit0 (num.Bit1 num.One)"
    "num.Bit1 num.One + num.Bit0 (num.Bit0 num.One) = num.Bit1 (num.Bit1 num.One)"
    "num.Bit1 num.One + num.Bit1 (num.Bit0 num.One) = num.Bit0 (num.Bit0 (num.Bit0 num.One))"
    "num.Bit1 num.One + num.Bit0 (num.Bit1 num.One) = num.Bit1 (num.Bit0 (num.Bit0 num.One))"
    "num.Bit1 num.One + num.Bit1 (num.Bit1 num.One) = num.Bit0 (num.Bit1 (num.Bit0 num.One))"
    "num.Bit0 (num.Bit0 num.One) + num.One = num.Bit1 (num.Bit0 num.One)"
    "num.Bit0 (num.Bit0 num.One) + num.Bit0 num.One = num.Bit0 (num.Bit1 num.One)"
    "num.Bit0 (num.Bit0 num.One) + num.Bit1 num.One = num.Bit1 (num.Bit1 num.One)"
    "num.Bit0 (num.Bit0 num.One) + num.Bit0 (num.Bit0 num.One) = num.Bit0 (num.Bit0 (num.Bit0 num.One))"
    "num.Bit0 (num.Bit0 num.One) + num.Bit1 (num.Bit0 num.One) = num.Bit1 (num.Bit0 (num.Bit0 num.One))"
    "num.Bit0 (num.Bit0 num.One) + num.Bit0 (num.Bit1 num.One) = num.Bit0 (num.Bit1 (num.Bit0 num.One))"
    "num.Bit0 (num.Bit0 num.One) + num.Bit1 (num.Bit1 num.One) = num.Bit1 (num.Bit1 (num.Bit0 num.One))"
    "num.Bit1 (num.Bit0 num.One) + num.One = num.Bit0 (num.Bit1 num.One)"
    "num.Bit1 (num.Bit0 num.One) + num.Bit0 num.One = num.Bit1 (num.Bit1 num.One)"
    "num.Bit1 (num.Bit0 num.One) + num.Bit1 num.One = num.Bit0 (num.Bit0 (num.Bit0 num.One))"
    "num.Bit1 (num.Bit0 num.One) + num.Bit0 (num.Bit0 num.One) = num.Bit1 (num.Bit0 (num.Bit0 num.One))"
    "num.Bit1 (num.Bit0 num.One) + num.Bit1 (num.Bit0 num.One) = num.Bit0 (num.Bit1 (num.Bit0 num.One))"
    "num.Bit1 (num.Bit0 num.One) + num.Bit0 (num.Bit1 num.One) = num.Bit1 (num.Bit1 (num.Bit0 num.One))"
    "num.Bit1 (num.Bit0 num.One) + num.Bit1 (num.Bit1 num.One) = num.Bit0 (num.Bit0 (num.Bit1 num.One))"
    "num.Bit0 (num.Bit1 num.One) + num.One = num.Bit1 (num.Bit1 num.One)"
    "num.Bit0 (num.Bit1 num.One) + num.Bit0 num.One = num.Bit0 (num.Bit0 (num.Bit0 num.One))"
    "num.Bit0 (num.Bit1 num.One) + num.Bit1 num.One = num.Bit1 (num.Bit0 (num.Bit0 num.One))"
    "num.Bit0 (num.Bit1 num.One) + num.Bit0 (num.Bit0 num.One) = num.Bit0 (num.Bit1 (num.Bit0 num.One))"
    "num.Bit0 (num.Bit1 num.One) + num.Bit1 (num.Bit0 num.One) = num.Bit1 (num.Bit1 (num.Bit0 num.One))"
    "num.Bit0 (num.Bit1 num.One) + num.Bit0 (num.Bit1 num.One) = num.Bit0 (num.Bit0 (num.Bit1 num.One))"
    "num.Bit0 (num.Bit1 num.One) + num.Bit1 (num.Bit1 num.One) = num.Bit1 (num.Bit0 (num.Bit1 num.One))"
    "num.Bit1 (num.Bit1 num.One) + num.One = num.Bit0 (num.Bit0 (num.Bit0 num.One))"
    "num.Bit1 (num.Bit1 num.One) + num.Bit0 num.One = num.Bit1 (num.Bit0 (num.Bit0 num.One))"
    "num.Bit1 (num.Bit1 num.One) + num.Bit1 num.One = num.Bit0 (num.Bit1 (num.Bit0 num.One))"
    "num.Bit1 (num.Bit1 num.One) + num.Bit0 (num.Bit0 num.One) = num.Bit1 (num.Bit1 (num.Bit0 num.One))"
    "num.Bit1 (num.Bit1 num.One) + num.Bit1 (num.Bit0 num.One) = num.Bit0 (num.Bit0 (num.Bit1 num.One))"
    "num.Bit1 (num.Bit1 num.One) + num.Bit0 (num.Bit1 num.One) = num.Bit1 (num.Bit0 (num.Bit1 num.One))"
    "num.Bit1 (num.Bit1 num.One) + num.Bit1 (num.Bit1 num.One) = num.Bit0 (num.Bit1 (num.Bit1 num.One))"
  by simp_all

lemma num_mult_rules:
  fixes m n :: num
  shows
    "num.One * n = n"
    "num.Bit0 m * n = num.Bit0 (m * n)"
    "num.Bit1 m * n = num.Bit0 (m * n) + n"
  by (simp_all add: num_eq_iff nat_of_num_add nat_of_num_mult distrib_right)

definition sq :: "int \<Rightarrow> int" where
  "sq x = x * x"

lemma sq_numeral: "sq (numeral k) = numeral (Num.sqr k)"
  by (simp add: sq_def numeral_sqr)

lemma sq_one: "sq 1 = 1"
  by (simp add: sq_def)

section \<open>Certified powers\<close>

fun chain_ok :: "int \<Rightarrow> int \<Rightarrow> int \<Rightarrow> (bool \<times> int \<times> int) list \<Rightarrow> bool" where
  "chain_ok a m x [] = True"
| "chain_ok a m x ((True, k, y) # ss) = (a * sq x = m * k + y \<and> chain_ok a m y ss)"
| "chain_ok a m x ((False, k, y) # ss) = (sq x = m * k + y \<and> chain_ok a m y ss)"

fun chain_exp :: "nat \<Rightarrow> (bool \<times> int \<times> int) list \<Rightarrow> nat" where
  "chain_exp e [] = e"
| "chain_exp e ((True, k, y) # ss) = chain_exp (2 * e + 1) ss"
| "chain_exp e ((False, k, y) # ss) = chain_exp (2 * e) ss"

fun chain_end :: "int \<Rightarrow> (bool \<times> int \<times> int) list \<Rightarrow> int" where
  "chain_end x [] = x"
| "chain_end x ((b, k, y) # ss) = chain_end y ss"

definition pow_is :: "int \<Rightarrow> nat \<Rightarrow> int \<Rightarrow> int \<Rightarrow> bool" where
  "pow_is a e m y \<longleftrightarrow> a ^ e mod m = y mod m"

lemma pow_is_square:
  assumes "pow_is a e m x"
  shows "pow_is a (2 * e) m (sq x)" and "pow_is a (2 * e + 1) m (a * sq x)"
proof -
  have "a ^ (2 * e) mod m = ((a ^ e mod m) * (a ^ e mod m)) mod m"
    by (simp add: mod_mult_eq power_add mult_2)
  also have "\<dots> = sq x mod m"
    using assms by (simp add: pow_is_def sq_def mod_mult_eq)
  finally show sq: "pow_is a (2 * e) m (sq x)"
    by (simp only: pow_is_def)
  have "a ^ (2 * e + 1) mod m = (a * (a ^ (2 * e) mod m)) mod m"
    by (simp add: mod_mult_right_eq)
  also have "\<dots> = (a * sq x) mod m"
    using sq by (simp add: pow_is_def mod_mult_right_eq)
  finally show "pow_is a (2 * e + 1) m (a * sq x)"
    by (simp only: pow_is_def)
qed

lemma pow_is_cong: "pow_is a e m x \<Longrightarrow> x = m * k + y \<Longrightarrow> pow_is a e m y"
  by (simp add: pow_is_def)

lemma pow_is_chain:
  "pow_is a e m x \<Longrightarrow> chain_ok a m x ss \<Longrightarrow> pow_is a (chain_exp e ss) m (chain_end x ss)"
proof (induction a m x ss arbitrary: e rule: chain_ok.induct)
  case (1 a m x)
  then show ?case by simp
next
  case (2 a m x k y ss)
  then have "pow_is a (2 * e + 1) m y"
    using pow_is_square(2) [of a e m x] by (intro pow_is_cong [of _ _ _ _ k y]) simp_all
  with "2.IH" "2.prems"(2) show ?case
    by simp
next
  case (3 a m x k y ss)
  then have "pow_is a (2 * e) m y"
    using pow_is_square(1) [of a e m x] by (intro pow_is_cong [of _ _ _ _ k y]) simp_all
  with "3.IH" "3.prems"(2) show ?case
    by simp
qed

lemma pow_is_step:
  assumes "pow_is a e m x" and "chain_ok a m x ss" and "chain_exp e ss = e'"
    and "chain_end x ss = y"
  shows "pow_is a e' m y"
  using pow_is_chain [OF assms(1,2)] assms(3,4) by simp

lemmas numeral_rules =
  chain_ok.simps chain_exp.simps chain_end.simps sq_one sq_numeral sqr.simps
  num_mult_rules num_add_rules numeral_times_numeral numeral_plus_numeral numeral_plus_one
  one_plus_numeral simp_thms mult_zero_left mult_zero_right mult_1 mult_1_right add_0_left add_0_right one_add_one

section \<open>Certificates\<close>

text \<open>
  One entry per prime factor: the prime \<open>q\<close>, its cofactor \<open>c\<close> in \<open>n - 1\<close>, the power
  \<open>a ^ c\<close> modulo \<open>n\<close>, and a B\'ezout pair that shows \<open>a ^ c - 1\<close> coprime to \<open>n\<close>.
\<close>

definition entry_ok :: "int \<Rightarrow> nat \<Rightarrow> int \<Rightarrow> nat \<times> nat \<times> int \<times> int \<times> int \<Rightarrow> bool" where
  "entry_ok a N n = (\<lambda>(q, c, b, u, v).
     is_prime (int q) \<and> N = q * c \<and> pow_is a c n b \<and> u * b = u + v * n + 1)"

lemma entry_coprime:
  assumes "pow_is a c n b" and "u * b = u + v * n + 1"
  shows "coprime (a ^ c - 1) n"
proof -
  have "(a ^ c - 1) mod n = (b - 1) mod n"
    using assms(1) unfolding pow_is_def by (metis mod_diff_left_eq)
  moreover have "coprime (b - 1) n"
  proof (rule coprimeI)
    fix d
    assume "d dvd b - 1" "d dvd n"
    then have "d dvd u * (b - 1) - v * n"
      by simp
    also have "u * (b - 1) - v * n = 1"
      using assms(2) by (simp add: algebra_simps)
    finally show "is_unit d" .
  qed
  ultimately show ?thesis
    by (metis coprime_mod_left_iff gcd_red_int coprime_iff_gcd_eq_1 gcd.commute)
qed

theorem certificate_sound:
  assumes "n = int N + 1" and "0 < N" and "pow_is a N n 1"
    and "\<forall>e \<in> set es. entry_ok a N n e" and "distinct (map fst es)"
    and "n \<le> (prod_list (map (int \<circ> fst) es) + 1) * (prod_list (map (int \<circ> fst) es) + 1) - 1"
  shows "is_prime n"
proof (rule pocklington [where a = a and qs = "map fst es"])
  show "1 < n" using assms(1,2) by simp
  show "distinct (map fst es)" by (rule assms(5))
  show "\<forall>q \<in> set (map fst es). is_prime (int q)"
    using assms(4) by (auto simp: entry_ok_def)
  show "\<forall>q \<in> set (map fst es). \<exists>c. n = int (q * c) + 1 \<and> coprime (a ^ c - 1) n"
    using assms(1,4) entry_coprime by (fastforce simp: entry_ok_def)
  show "a ^ nat (n - 1) mod n = 1"
    using assms(1-3) by (simp add: pow_is_def)
  show "n \<le> (prod_list (map int (map fst es)) + 1) * (prod_list (map int (map fst es)) + 1) - 1"
    using assms(6) by (simp add: comp_def)
qed

subsection \<open>Leaves\<close>

lemma trial_3: "trial_division 3 0"
  by (simp add: trial_division_def)

lemma prime_3: "is_prime 3"
  using trial_division_sound [of 3 0] trial_3 by simp

lemma trial_7: "trial_division 7 1"
  by (simp add: trial_division_def)

lemma prime_7: "is_prime 7"
  using trial_division_sound [of 7 1] trial_7 by simp

lemma trial_13: "trial_division 13 1"
  by (simp add: trial_division_def)

lemma prime_13: "is_prime 13"
  using trial_division_sound [of 13 1] trial_13 by simp

lemma trial_19: "trial_division 19 2"
  by (simp add: trial_division_def)

lemma prime_19: "is_prime 19"
  using trial_division_sound [of 19 2] trial_19 by simp

lemma trial_23: "trial_division 23 2"
  by (simp add: trial_division_def)

lemma prime_23: "is_prime 23"
  using trial_division_sound [of 23 2] trial_23 by simp

lemma trial_67: "trial_division 67 4"
  by (simp add: trial_division_def)

lemma prime_67: "is_prime 67"
  using trial_division_sound [of 67 4] trial_67 by simp

lemma trial_73: "trial_division 73 4"
  by (simp add: trial_division_def)

lemma prime_73: "is_prime 73"
  using trial_division_sound [of 73 4] trial_73 by simp

lemma trial_163: "trial_division 163 6"
  by (simp add: trial_division_def)

lemma prime_163: "is_prime 163"
  using trial_division_sound [of 163 6] trial_163 by simp

lemma trial_223: "trial_division 223 7"
  by (simp add: trial_division_def)

lemma prime_223: "is_prime 223"
  using trial_division_sound [of 223 7] trial_223 by simp

lemma trial_439: "trial_division 439 10"
  by (simp add: trial_division_def)

lemma prime_439: "is_prime 439"
  using trial_division_sound [of 439 10] trial_439 by simp

lemma trial_1289: "trial_division 1289 17"
  by (simp add: trial_division_def)

lemma prime_1289: "is_prime 1289"
  using trial_division_sound [of 1289 17] trial_1289 by simp

lemma trial_7717: "trial_division 7717 43"
  by (simp add: trial_division_def)

lemma prime_7717: "is_prime 7717"
  using trial_division_sound [of 7717 43] trial_7717 by simp

subsection \<open>174763\<close>

lemma p18_one_0: "pow_is 3 10 174763 59049"
  by (simp add: pow_is_def)

lemma p18_one: "pow_is 3 174762 174763 1"
  by (rule pow_is_step [OF p18_one_0, where ss =
     "[
      (True, 59854, 88601), (False, 44918, 132767), (True, 302588, 42223), (False, 10201, 24366),
      (True, 10191, 96135), (False, 52882, 121259), (True, 252406, 5465), (False, 170, 156515),
      (True, 420517, 23204), (False, 3080, 155576), (True, 415486, 95510), (False, 52197, 55789),
      (True, 53427, 174762), (False, 174761, 1)]"])
    (simp_all only: numeral_rules)

lemma p18_pow0_0: "pow_is 3 9 174763 19683"
  by (simp add: pow_is_def)

lemma p18_pow0: "pow_is 3 2394 174763 54387"
  by (rule pow_is_step [OF p18_pow0_0, where ss =
     "[
      (False, 2216, 145681), (True, 364315, 78938), (False, 35655, 33079), (True, 18783, 87294),
      (True, 130809, 154041), (False, 135776, 8593), (True, 1267, 94226), (False, 50803, 54387)]"])
    (simp_all only: numeral_rules)

lemma p18_entry0:
  "entry_ok 3 174762 174763
     (73, 2394, 54387,
      30736, 9565)"
  using prime_73 p18_pow0 by (simp only: entry_ok_def prod.case of_nat_numeral numeral_rules)

lemma p18_pow1_0: "pow_is 3 8 174763 6561"
  by (simp add: pow_is_def)

lemma p18_pow1: "pow_is 3 9198 174763 174755"
  by (rule pow_is_step [OF p18_pow1_0, where ss =
     "[
      (True, 738, 165069), (True, 467738, 28189), (True, 13640, 91843), (True, 144798, 77073),
      (True, 101970, 158877), (False, 144435, 7224), (True, 895, 145643), (True, 364125, 72972),
      (True, 91408, 2048), (False, 23, 174755)]"])
    (simp_all only: numeral_rules)

lemma p18_entry1:
  "entry_ok 3 174762 174763
     (19, 9198, 174755,
      19418, 19417)"
  using prime_19 p18_pow1 by (simp only: entry_ok_def prod.case of_nat_numeral numeral_rules)

theorem prime_p18: "is_prime 174763"
  by (rule certificate_sound [where N = 174762 and a = 3, where es =
     "[(73, 2394, 54387,
        30736, 9565),
       (19, 9198, 174755,
        19418, 19417)]"])
    (simp_all add: p18_one p18_entry0 p18_entry1)

subsection \<open>699053\<close>

lemma p20_one_0: "pow_is 2 10 699053 1024"
  by (simp add: pow_is_def)

lemma p20_one: "pow_is 2 699052 699053 1"
  by (rule pow_is_step [OF p20_one_0, where ss =
     "[
      (True, 2, 699046), (False, 699039, 49), (True, 0, 4802), (False, 32, 689508), (True, 1360186, 460270),
      (False, 303050, 461250), (True, 608685, 49695), (False, 3532, 537829), (True, 827576, 580954),
      (False, 482806, 567398), (True, 921076, 39780), (False, 2263, 491461), (True, 691031, 535399),
      (True, 820115, 327307), (False, 153249, 699052), (False, 699051, 1)]"])
    (simp_all only: numeral_rules)

lemma p20_pow0: "pow_is 2 4 699053 16"
  by (simp add: pow_is_def)

lemma p20_entry0:
  "entry_ok 2 699052 699053
     (174763, 4, 16,
      605846, 13)"
  using prime_p18 p20_pow0 by (simp only: entry_ok_def prod.case of_nat_numeral numeral_rules)

theorem prime_p20: "is_prime 699053"
  by (rule certificate_sound [where N = 699052 and a = 2, where es =
     "[(174763, 4, 16,
        605846, 13)]"])
    (simp_all add: p20_one p20_entry0)

subsection \<open>649657\<close>

lemma p20b_one_0: "pow_is 3 9 649657 19683"
  by (simp add: pow_is_def)

lemma p20b_one: "pow_is 3 649656 649657 1"
  by (rule pow_is_step [OF p20b_one_0, where ss =
     "[
      (True, 1789, 25094), (True, 2907, 573609), (True, 1519389, 155070), (False, 37014, 300702),
      (True, 417551, 148405), (False, 33901, 22068), (False, 749, 403531), (True, 751953, 273762),
      (True, 346085, 355087), (False, 194082, 47695), (True, 10504, 441947), (True, 901939, 467504),
      (True, 1009271, 1), (False, 0, 1), (False, 0, 1), (False, 0, 1)]"])
    (simp_all only: numeral_rules)

lemma p20b_pow0_0: "pow_is 3 7 649657 2187"
  by (simp add: pow_is_def)

lemma p20b_pow0: "pow_is 3 504 649657 592742"
  by (rule pow_is_step [OF p20b_pow0_0, where ss =
     "[
      (True, 22, 56453), (True, 14716, 471215), (True, 1025357, 376126), (False, 217762, 160242),
      (False, 39524, 455296), (False, 319082, 592742)]"])
    (simp_all only: numeral_rules)

lemma p20b_entry0:
  "entry_ok 3 649656 649657
     (1289, 504, 592742,
      288063, 262826)"
  using prime_1289 p20b_pow0 by (simp only: entry_ok_def prod.case of_nat_numeral numeral_rules)

theorem prime_p20b: "is_prime 649657"
  by (rule certificate_sound [where N = 649656 and a = 3, where es =
     "[(1289, 504, 592742,
        288063, 262826)]"])
    (simp_all add: p20b_one p20b_entry0)

subsection \<open>92737\<close>

lemma p17_one_0: "pow_is 5 5 92737 3125"
  by (simp add: pow_is_def)

lemma p17_one: "pow_is 5 92736 92737 1"
  by (rule pow_is_step [OF p17_one_0, where ss =
     "[
      (True, 526, 48463), (False, 25326, 5107), (True, 1406, 19023), (False, 3902, 14755),
      (True, 11738, 3219), (False, 111, 68154), (False, 50087, 49597), (True, 132625, 67420),
      (False, 49014, 45082), (False, 21915, 55369), (False, 33058, 26415), (False, 7523, 91774),
      (False, 90820, 92736), (False, 92735, 1)]"])
    (simp_all only: numeral_rules)

lemma p17_pow0_0: "pow_is 5 7 92737 78125"
  by (simp add: pow_is_def)

lemma p17_pow0: "pow_is 5 4032 92737 1674"
  by (rule pow_is_step [OF p17_pow0_0, where ss =
     "[
      (True, 329076, 57113), (True, 175868, 3129), (True, 527, 80806), (False, 70409, 90203),
      (False, 87738, 22303), (False, 5363, 75278), (False, 61105, 82899), (False, 74104, 61553),
      (False, 40855, 1674)]"])
    (simp_all only: numeral_rules)

lemma p17_entry0:
  "entry_ok 5 92736 92737
     (23, 4032, 1674,
      63580, 1147)"
  using prime_23 p17_pow0 by (simp only: entry_ok_def prod.case of_nat_numeral numeral_rules)

lemma p17_pow1_0: "pow_is 5 6 92737 15625"
  by (simp add: pow_is_def)

lemma p17_pow1: "pow_is 5 13248 92737 8173"
  by (rule pow_is_step [OF p17_pow1_0, where ss =
     "[
      (False, 2632, 56841), (True, 174196, 81953), (True, 362115, 12290), (True, 8143, 63109),
      (True, 214733, 35184), (False, 13348, 60380), (False, 39312, 67456), (False, 49066, 78294),
      (False, 66100, 34736), (False, 13010, 81326), (False, 71319, 8173)]"])
    (simp_all only: numeral_rules)

lemma p17_entry1:
  "entry_ok 5 92736 92737
     (7, 13248, 8173,
      72299, 6371)"
  using prime_7 p17_pow1 by (simp only: entry_ok_def prod.case of_nat_numeral numeral_rules)

lemma p17_pow2_0: "pow_is 5 7 92737 78125"
  by (simp add: pow_is_def)

lemma p17_pow2: "pow_is 5 30912 92737 35798"
  by (rule pow_is_step [OF p17_pow2_0, where ss =
     "[
      (True, 329076, 57113), (False, 35173, 56268), (False, 34140, 46644), (False, 23460, 52716),
      (True, 149831, 5833), (True, 1834, 39787), (False, 17069, 77516), (False, 64793, 21815),
      (False, 5131, 60678), (False, 39701, 68047), (False, 49930, 35799), (False, 13819, 35798)]"])
    (simp_all only: numeral_rules)

lemma p17_entry2:
  "entry_ok 5 92736 92737
     (3, 30912, 35798,
      18979, 7326)"
  using prime_3 p17_pow2 by (simp only: entry_ok_def prod.case of_nat_numeral numeral_rules)

theorem prime_p17: "is_prime 92737"
  by (rule certificate_sound [where N = 92736 and a = 5, where es =
     "[(23, 4032, 1674,
        63580, 1147),
       (7, 13248, 8173,
        72299, 6371),
       (3, 30912, 35798,
        18979, 7326)]"])
    (simp_all add: p17_one p17_entry0 p17_entry1 p17_entry2)

subsection \<open>294131\<close>

lemma p19_one_0: "pow_is 2 17 294131 131072"
  by (simp add: pow_is_def)

lemma p19_one: "pow_is 2 294130 294131 1"
  by (rule pow_is_step [OF p19_one_0, where ss =
     "[
      (True, 116817, 237341), (True, 383031, 209501), (True, 298442, 294100), (True, 588138, 1922),
      (False, 12, 164512), (False, 92014, 28310), (True, 5449, 192381), (True, 251659, 184993),
      (True, 232701, 242267), (True, 399096, 93002), (False, 29406, 155818), (False, 82545, 205729),
      (True, 287792, 294130), (False, 294129, 1)]"])
    (simp_all only: numeral_rules)

lemma p19_pow0_0: "pow_is 2 10 294131 1024"
  by (simp add: pow_is_def)

lemma p19_pow0: "pow_is 2 670 294131 160899"
  by (rule pow_is_step [OF p19_pow0_0, where ss =
     "[
      (False, 3, 166183), (True, 187785, 189143), (True, 243259, 135969), (True, 125709, 224043),
      (True, 341312, 91826), (False, 28667, 160899)]"])
    (simp_all only: numeral_rules)

lemma p19_entry0:
  "entry_ok 2 294130 294131
     (439, 670, 160899,
      223833, 122443)"
  using prime_439 p19_pow0 by (simp only: entry_ok_def prod.case of_nat_numeral numeral_rules)

lemma p19_pow1_0: "pow_is 2 17 294131 131072"
  by (simp add: pow_is_def)

lemma p19_pow1: "pow_is 2 4390 294131 116488"
  by (rule pow_is_step [OF p19_pow1_0, where ss =
     "[
      (False, 58408, 265736), (False, 240082, 62954), (True, 26948, 170044), (False, 98306, 119850),
      (False, 48835, 135115), (True, 124135, 174765), (True, 207681, 190239), (False, 123043, 116488)]"])
    (simp_all only: numeral_rules)

lemma p19_entry1:
  "entry_ok 2 294130 294131
     (67, 4390, 116488,
      94342, 37363)"
  using prime_67 p19_pow1 by (simp only: entry_ok_def prod.case of_nat_numeral numeral_rules)

theorem prime_p19: "is_prime 294131"
  by (rule certificate_sound [where N = 294130 and a = 2, where es =
     "[(439, 670, 160899,
        223833, 122443),
       (67, 4390, 116488,
        94342, 37363)]"])
    (simp_all add: p19_one p19_entry0 p19_entry1)

subsection \<open>52183\<close>

lemma p16_one_0: "pow_is 2 12 52183 4096"
  by (simp add: pow_is_def)

lemma p16_one: "pow_is 2 52182 52183 1"
  by (rule pow_is_step [OF p16_one_0, where ss =
     "[
      (True, 643, 763), (False, 11, 8156), (True, 2549, 26205), (True, 26318, 51856), (True, 103062, 5126),
      (True, 1007, 3471), (False, 230, 45751), (True, 80223, 31193), (False, 18645, 51214),
      (True, 100525, 51517), (True, 101719, 1), (False, 0, 1)]"])
    (simp_all only: numeral_rules)

lemma p16_pow0_0: "pow_is 2 14 52183 16384"
  by (simp add: pow_is_def)

lemma p16_pow0: "pow_is 2 234 52183 52117"
  by (rule pow_is_step [OF p16_pow0_0, where ss =
     "[
      (True, 10288, 12208), (False, 2856, 616), (True, 14, 28350), (False, 15401, 52117)]"])
    (simp_all only: numeral_rules)

lemma p16_entry0:
  "entry_ok 2 52182 52183
     (223, 234, 52117,
      15577, 15557)"
  using prime_223 p16_pow0 by (simp only: entry_ok_def prod.case of_nat_numeral numeral_rules)

lemma p16_pow1_0: "pow_is 2 15 52183 32768"
  by (simp add: pow_is_def)

lemma p16_pow1: "pow_is 2 4014 52183 32497"
  by (rule pow_is_step [OF p16_pow1_0, where ss =
     "[
      (True, 41152, 48832), (False, 45696, 9856), (True, 3723, 4163), (False, 332, 5813), (True, 1295, 4953),
      (True, 940, 12398), (True, 5891, 10755), (False, 2216, 32497)]"])
    (simp_all only: numeral_rules)

lemma p16_entry1:
  "entry_ok 2 52182 52183
     (13, 4014, 32497,
      12784, 7961)"
  using prime_13 p16_pow1 by (simp only: entry_ok_def prod.case of_nat_numeral numeral_rules)

theorem prime_p16: "is_prime 52183"
  by (rule certificate_sound [where N = 52182 and a = 2, where es =
     "[(223, 234, 52117,
        15577, 15557),
       (13, 4014, 32497,
        12784, 7961)]"])
    (simp_all add: p16_one p16_entry0 p16_entry1)

subsection \<open>77158673929\<close>

lemma p37_one_0: "pow_is 3 17 77158673929 129140163"
  by (simp add: pow_is_def)

lemma p37_one_1: "pow_is 3 301401070 77158673929 63685186571"
  by (rule pow_is_step [OF p37_one_0, where ss =
     "[
      (True, 648424, 9115261811), (True, 3230537552, 59067117355), (True, 135652578315, 52805338440),
      (True, 108415695570, 17465106270), (False, 3953281225, 32980629875), (True, 42291626782, 55925980397),
      (True, 121608438459, 24040597416), (True, 22471238605, 50605802123), (False, 33190658653, 16661949492),
      (False, 3598047332, 3062650636), (False, 121565450, 609051446), (False, 4807543, 21138044469),
      (False, 5790883917, 60928192068), (False, 48111824628, 74014393212), (True, 212994733719, 3152518881),
      (True, 386413145, 28250079778), (True, 31029577110, 4841422662), (True, 911344332, 26551178304),
      (True, 27409688377, 15956726015), (False, 3299915513, 56962019648), (True, 126155810506, 56247633638),
      (True, 123011301080, 10241801812), (True, 4078394521, 69200307023), (False, 62062788902, 63685186571)]"])
    (simp_all only: numeral_rules)

lemma p37_one: "pow_is 3 77158673928 77158673929 1"
  by (rule pow_is_step [OF p37_one_1, where ss =
     "[
      (False, 52564446510, 59626700251), (False, 46078337039, 39839106770), (False, 20570006551, 45456924021),
      (False, 26780293597, 77157275828), (True, 231467633256, 77158673928), (False, 77158673927, 1),
      (False, 0, 1), (False, 0, 1)]"])
    (simp_all only: numeral_rules)

lemma p37_pow0_0: "pow_is 3 13 77158673929 1594323"
  by (simp add: pow_is_def)

lemma p37_pow0: "pow_is 3 110376 77158673929 19746619458"
  by (rule pow_is_step [OF p37_pow0_0, where ss =
     "[
      (False, 32, 72788262601), (True, 205996198587, 28542317280), (True, 31674878567, 44736015457),
      (True, 77812810033, 71362026890), (True, 198002581791, 35327389461), (False, 16174778318, 16752799099),
      (False, 3637391149, 33533557380), (True, 43721570627, 820309717), (False, 8721093, 60713135692),
      (True, 143318359084, 63921835556), (False, 52955822758, 21866352954), (False, 6196806751, 7469631437),
      (False, 723125359, 19746619458)]"])
    (simp_all only: numeral_rules)

lemma p37_entry0:
  "entry_ok 3 77158673928 77158673929
     (699053, 110376, 19746619458,
      303426239, 77653518)"
  using prime_p20 p37_pow0 by (simp only: entry_ok_def prod.case of_nat_numeral numeral_rules)

theorem prime_p37: "is_prime 77158673929"
  by (rule certificate_sound [where N = 77158673928 and a = 3, where es =
     "[(699053, 110376, 19746619458,
        303426239, 77653518)]"])
    (simp_all add: p37_one p37_entry0)

subsection \<open>170141183460469231731687303715884105727\<close>

lemma m127_one_0: "pow_is 3 63 170141183460469231731687303715884105727 1144561273430837494885949696427"
  by (simp add: pow_is_def)

lemma m127_one_1: "pow_is 3 1073741823 170141183460469231731687303715884105727 156752545533348286174845796994917078939"
  by (rule pow_is_step [OF m127_one_0, where ss =
     "[
      (True, 23098825610472936316746, 101174605149735978759860737748945094645),
      (True, 180490705172212948312502409808289922455, 136185228105421192344791055580171628290),
      (True, 327018114784090966673301721163802419892, 122129070998813175409394194706809050816),
      (True, 262996465870333508286462193096251155618, 149851183262295854992606740462368773282),
      (True, 395942534342265491405150259868444548945, 28296815066865415223743675925344846557),
      (True, 14118446691910179200123695857893637449, 971284950807422705986232733101692324),
      (True, 16634322798468721110539287003228988, 27567741688051017866626731102498348652),
      (True, 13400289682756566098655064503277289748, 151936759688225792372000425205605464516),
      (True, 407040408589632518972176453741373838543, 99325527267420599692623641771565707007),
      (True, 173953657185709307687579363495058775094, 132839729145782861493783736163096330809),
      (True, 311148540534718913594087004039585485582, 131911009794273715010516714437165655329),
      (True, 306813097529461380336682541008134374620, 142351003429867098845712366214972845983),
      (True, 357299880581790136661741857163423776537, 40915314758844497865119327372587781468),
      (True, 29517773670669308834617150033799938810, 141523219298151332762170465114202140202),
      (True, 353156499675450119269074393033645952535, 6950306718800637520475602300230134467),
      (True, 851764913754034008010058168522158819, 103043058906582878125533445895422665854),
      (True, 187218728109278887066348246454864447881, 42896071569646591235985471957127533461),
      (True, 32444930475091592018842059835280704656, 46158505514084086530681768734058750651),
      (True, 37567758516069540684648302042899780452, 112091974381391104883436555156322922799),
      (True, 221544433837285144934274176386467089865, 123035590837374508951736179344671826348),
      (True, 266915210735305987838484085262495161569, 138741718990793813344442186709657845649),
      (True, 339411026719338464417374925439480807203, 86244511491074322453602324839969542022),
      (True, 131151945890788338923318504325912970895, 45132323973922794588215034948417729787),
      (True, 35915936856529291023178275389346434384, 156752545533348286174845796994917078939)]"])
    (simp_all only: numeral_rules)

lemma m127_one_2: "pow_is 3 18014398509481983 170141183460469231731687303715884105727 54832895615779152646825101925049520936"
  by (rule pow_is_step [OF m127_one_1, where ss =
     "[
      (True, 433252432446375246577933940965733735677, 21721930379610819931609311012932174984),
      (True, 8319718656352612295994110457983850805, 19454869154414578218323237505172140533),
      (True, 6673726950476942995187728937952819368, 44882242565407042048948570700259251731),
      (True, 35519014092811932348805864371288933481, 77605816405251356871185942202805343396),
      (True, 106194090415355996879692697158888670257, 122219276615161857092159914823814176609),
      (True, 263385112396447893278321453668589810071, 98912975764822003297594377031314840026),
      (True, 172511614924650571610641623432919697269, 25683048001063844004379670540285882465),
      (True, 11630675322853964224182618534363219557, 86464394167104036791450049987881325736),
      (True, 131821549138712855211227139680474864670, 154860657194094023270357570766510859998),
      (True, 422857464468477705939857317101947979290, 25804120914783910128157330924303286182),
      (True, 11740590537378504954693606412977199485, 34206728988331481964445244572466460777),
      (True, 20631694530672279767232722945983172438, 132688382266215194274242630065373978761),
      (True, 310439949288043375233330793236649083611, 126165095103662265161799641156250345166),
      (True, 280666283708102841817560113174395289664, 139984275646560098079004202368652396940),
      (True, 345517711169176957488697549715345388853, 109376180611435327221430021858984829669),
      (True, 210939208988014078096183131994094411732, 125754891581628746120452114471870759519),
      (True, 278844176966387012246023243643494277701, 148206909223283859324611466691604840456),
      (True, 387301078341602202667795020693060955496, 56564321283477608394707834953537138216),
      (True, 56415308343094806010199430171126698655, 131450372473274654322430027828774290783),
      (True, 304674037265832981875447082712062247828, 2566003567209221989110028288688148311),
      (True, 116098422022442417690860077048416830, 48104006320602179628915483676110272753),
      (True, 40801328232740964768589901235690448738, 69415492032266388781228196209696874501),
      (True, 84961978682859742820151623148611302376, 108717445950929680342072551096881689651),
      (True, 208406033395896765073544497474015464621, 54832895615779152646825101925049520936)]"])
    (simp_all only: numeral_rules)

lemma m127_one_3: "pow_is 3 302231454903657293676543 170141183460469231731687303715884105727 114274119305656245380241559457757307884"
  by (rule pow_is_step [OF m127_one_2, where ss =
     "[
      (True, 53014438605503760038055404217124759686, 31161187855706224500405782767415626566),
      (True, 17121421318975732924831590798177812780, 92785444631188037386001381915963066008),
      (True, 151799909233748512207555288342679346910, 134738921850436284970041240549544414622),
      (True, 320109041658970745391631160077856210017, 98739331058094485687267852396397741293),
      (True, 171906447918857581450486677785809455284, 163419702313654809673926323769137124079),
      (True, 470891266202255839989677060611571197918, 29270799828298818305878127627570518337),
      (True, 15107095857025171681501329328432243004, 38772331318887392694743281481267652799),
      (True, 26506698354737603567992790465885004360, 54889138767431059967202878098341633483),
      (True, 53123250232892101621144460008748450657, 155939750440454861593707806230889521228),
      (True, 428771070110980369511532507440060965715, 55382853933588241325912506442405734147),
      (True, 54083211027067191456132575198865884258, 32045501147573401239896199790708507261),
      (True, 18106976622230720666556628850985515683, 17008664220725058376549612402280549822),
      (True, 5100963553140931808351293955160725976, 111075659516926244958516799391013430500),
      (True, 217545250706217842749129587371589182707, 307509553623972882621764107482687011),
      (True, 1667358666139507196587657340057393, 111090237472543874699594471991104352652),
      (True, 217602357243039644357263200288934462474, 10699944897897909738132785309008310714),
      (True, 2018714431558869828516703683556612942, 35971287659473862547711134199157050554),
      (True, 22815173426507586922102100730632152646, 122880119916202151977876121730868317106),
      (True, 266241075150305255412410552651458585461, 24197300974207033563465946145327610561),
      (True, 10323944430051501443734012015360296358, 124684299625255416665256190160511161897),
      (True, 274116605812592364698517148909269572414, 123556200314637202270853110206775300849),
      (True, 269178825356020334795561400114640950256, 151707292053491820932245941873328646291),
      (True, 405811843918744351262564083812388643062, 130633143741314926040139915200891153969),
      (True, 300897488132917859791185311867144123337, 114274119305656245380241559457757307884)]"])
    (simp_all only: numeral_rules)

lemma m127_one_4: "pow_is 3 5070602400912917605986812821503 170141183460469231731687303715884105727 68543819206530963109774411281526382910"
  by (rule pow_is_step [OF m127_one_3, where ss =
     "[
      (True, 230254205551310261508672596432921203559, 61476136722250944544488370530260989975),
      (True, 66638458298445671593469939720240475492, 60491773870002314314669532821471159191),
      (True, 64521498525776204673248078352289841910, 103742834869724830146897951369235704873),
      (True, 189770205565325366197089845977586109480, 53370724680345847091176085956550846427),
      (True, 50224775594682847212409333589484394309, 104685304809494837552337992709702891344),
      (True, 193233868840516277413530313557013963761, 104227820653739848874756975605339819761),
      (True, 191548660540829861843207661586023693603, 73952302975386691231544929022792726982),
      (True, 96430676056171552983740792699774428165, 73136257302337357675775381304145884017),
      (True, 94314239916577268823491419319098393439, 108458444235018173408539499446329043714),
      (True, 207414228935587981160236460163200079365, 25935186335227767273449618172717718033),
      (True, 11860160072283713461916070082196885773, 143764827044394731258381557432206045296),
      (True, 364432497906778042275368164812998193861, 36610375388107738899624922375844840901),
      (True, 23633071525617594489899818485180861709, 68136211125557889607735814291285567960),
      (True, 81859250749103642349115536480558256316, 70123594895420541256314952833226163068),
      (True, 86704202845742125226407193927576780560, 38939477968994078937074843738663250752),
      (True, 26735730532579783568124179691129882519, 112126110142469729566458372215200610199),
      (True, 221679389786347148940760174888435839510, 107593802832037196129969566632984585033),
      (True, 204120357677228221803805481319631512945, 166954855150337023081241907398273697252),
      (True, 491484596933221721210010823060844143964, 52518271946865576758123148940272172684),
      (True, 48633179201890824929938318403392237203, 85902025961524265615439881386232529987),
      (True, 130112379276041706302176383512741865689, 118570583604107193685126746913252959604),
      (True, 247893831645147540702168287003381802190, 155028183695834459284664524862007368318),
      (True, 423772844138234444000580557061602596770, 87009619201588002280331747419901745582),
      (True, 133489264849818021615533918284553390706, 68543819206530963109774411281526382910)]"])
    (simp_all only: numeral_rules)

lemma m127_one_5: "pow_is 3 85070591730234615865843651857942052863 170141183460469231731687303715884105727 170141183460469231731687303715884105726"
  by (rule pow_is_step [OF m127_one_4, where ss =
     "[
      (True, 82841585838196549164516214967727918395, 39169058292817961201177172908012056135),
      (True, 27051918230649298395177592930329526371, 124841963925028337383225765004374787958),
      (True, 274810289425532838457950912124151800351, 132383504319784386281426583359705719115),
      (True, 309014993187553052823722921292821289968, 38231927726273018507765184549592702939),
      (True, 25772953989236329769077007011195291843, 106516971260089705118652020008865028302),
      (True, 200055006124820195318014589064458994662, 20057483677420206692788881718446380338),
      (True, 7093567411856801994273012097913998212, 156946716543999982785217922169762022608),
      (True, 434326445830778482764716588410211933212, 28238247373861698130806737860838659868),
      (True, 14060063504836419487514090033605671345, 97665887253442778897787322831787039457),
      (True, 168189006429799700199790721993083316592, 3738805818773551993469396055483242163),
      (True, 246477695749826285944710546776214742, 133716263439377155751655251383518728273),
      (True, 315268274462364560708261275376864194563, 79923346927132076415871527158238125286),
      (True, 112631308671698167234649567534034990631, 143536791034018259198113117283239301651),
      (True, 363277308197347202860957006853536321049, 19893451844953481947242892561582429780),
      (True, 6978018224484113251889250312632159172, 56459308605673352358697316477551767156),
      (True, 56206030722208128789436876864903418282, 83239163174732637067318282420328283994),
      (True, 122170743351616577804002598741314753280, 2325172981681262268937023937709741548),
      (True, 95328408174555809537851182162430298, 160206844094220772641200324110172192266),
      (True, 452557676617900312263846243345160145161, 44869787905711711391714654905419207221),
      (True, 35499304032488839856025028829884698382, 138021723287511935616277358393221794809),
      (True, 335897441967904423383087540411152394118, 34173741160696395735658155754413125657),
      (True, 20591920683147473035053212202009264322, 108122734363683053215719272969278072853),
      (True, 206132203535467172216417942611746183886, 30488191110265092996162561742718963705),
      (True, 16389855382521456993105870560330817387, 170141183460469231731687303715884105726)]"])
    (simp_all only: numeral_rules)

lemma m127_one: "pow_is 3 170141183460469231731687303715884105726 170141183460469231731687303715884105727 1"
  by (rule pow_is_step [OF m127_one_5, where ss =
     "[
      (False, 170141183460469231731687303715884105725, 1)]"])
    (simp_all only: numeral_rules)

lemma m127_pow0_0: "pow_is 3 57 170141183460469231731687303715884105727 1570042899082081611640534563"
  by (simp add: pow_is_def)

lemma m127_pow0_1: "pow_is 3 956301767 170141183460469231731687303715884105727 6468655277524043204614969855034497437"
  by (rule pow_is_step [OF m127_pow0_0, where ss =
     "[
      (False, 14488171851295462, 155221906314797476216771994672074290095),
      (False, 141610865223573285660375250363725556474, 54735769266583163224399168253289782427),
      (False, 17608931454862746637361791807659475221, 35188315825206232561878183393297319662),
      (False, 7277588796730969371341065450166931033, 45301206125928710765345840886122468253),
      (False, 12061743281224389330821237326843603821, 51832363676078585329213686802527689142),
      (False, 15790379904542491962728712193562066788, 86125988977470320438553190401357401288),
      (False, 43597239812727478274048724490978249827, 126616514973092762585966770847176599715),
      (False, 94226109974462792306038217261461961841, 149340106055829652833895888498054517818),
      (False, 131082121466189433878189325619719464854, 17249260175042785667539551299682862266),
      (False, 1748765175689794727231292536190821487, 111094332955197032552007483695835298707),
      (False, 72539467304385585775668101837527610530, 81786088877813689147092385719717366539),
      (False, 39314198936930284811169747736566078447, 73708381325799603914850839959352872552),
      (False, 31931866037194780491499095297553270305, 108902436081760668858565031334725455969),
      (False, 69705290296734486391148362087461833598, 155545672206839656749559053107044913215),
      (False, 142202232582324633688411020601131689605, 121783235515175130695665343170914768390),
      (True, 261509109391915660711484676943473096315, 37655407948023569481699051474515480295),
      (True, 25001526124828909271092400888617314967, 88444222894890276120072729104912345066),
      (True, 137927462435310251845535913112747697689, 159296503405228299900129874874454068165),
      (False, 149143055673100163419888480246882744915, 112701468432296990265567482416634839020),
      (False, 74653418581322740164662346059565208370, 77407948057657526978116786821449225410),
      (False, 35217754459132409843851900750742733401, 145595473350740277215965311870531380573),
      (True, 373772676827852721561811395158968008172, 15194152170684371449803254585437423943),
      (True, 4070659239999080396145002817202078695, 10835537152501212493479847232174815482),
      (True, 2070201869916691412140921481756646705, 6468655277524043204614969855034497437)]"])
    (simp_all only: numeral_rules)

lemma m127_pow0_2: "pow_is 3 16044081322917887 170141183460469231731687303715884105727 167669475641869605771670216806033118004"
  by (rule pow_is_step [OF m127_pow0_1, where ss =
     "[
      (True, 737801987415262387813876083421408077, 115530678166907843441707837339198949928),
      (True, 235345799169313467432697348646156792311, 167802973077498564212280660786448950455),
      (True, 496490688514399467788869680942708446092, 111155546103345854683036687451926152191),
      (True, 217858284130316060732623540363080754471, 136663365402951405438391890332390346026),
      (True, 329318423618465400940370862186017129053, 35760069474766344645454418841186591497),
      (True, 22548025284023535072068070338926327281, 104468848026484729400926873127049664740),
      (True, 192435599412351649180148144430928466419, 128626291907908341506361591965832721187),
      (True, 291723425806941044538185164180636754388, 152718714995219209327955879974712886831),
      (True, 411240925367312068065512609596490681107, 158993756321722552284717974491610267894),
      (True, 445730081955694887689816474828410688626, 96959794731939296884419754719081224606),
      (True, 165765894004917765418109833177223182658, 27664146037620718727059690378754683342),
      (True, 13494175139000684379156786025569389394, 72399300278628165170537076186948407454),
      (True, 92423102523901634863139498136366716192, 112444478652105384724328278722877454764),
      (True, 222940040539005313042844555836547615433, 52197057492302227471186913929090002297),
      (True, 48040093916845089528499056185316851787, 143888502266682393272889180038898944478),
      (True, 365059781473062847865498858319735213325, 134391818520487545479042382908380865177),
      (True, 318461888848445801734981123101625064201, 70369956362053832868478814163306944860),
      (True, 87314499482388350556337725689186868765, 101867722826898267990283863897907341645),
      (True, 182972154234758459849227833587976664352, 55493691029475132083659554996293974171),
      (True, 54299899908543089422510557753360916758, 124250920229276635256037516361927338657),
      (True, 272214360988190964192022944915436537874, 107595271502200749811850098266843886549),
      (True, 204125930257009956896271742753322350303, 38954723479611255490903863901766902922),
      (True, 26756669675902666038837687257000983561, 64946012236688805706889013081403460405),
      (True, 74373254370153291816988392543491328073, 167669475641869605771670216806033118004)]"])
    (simp_all only: numeral_rules)

lemma m127_pow0_3: "pow_is 3 269175017876159157210623 170141183460469231731687303715884105727 122580441223354754730689585917197866990"
  by (rule pow_is_step [OF m127_pow0_2, where ss =
     "[
      (True, 495701025881567101768963341976561390140, 81330115314485168665851346860711500268),
      (True, 116631156358524355227054446538550705895, 167678196557947426587770543487430054807),
      (True, 495752592566011141608974530242435036061, 163105273649918056038720413043089800400),
      (True, 469080967076892885388456568488292616715, 10376216407227105992026064420973053195),
      (True, 1898409275282092719252066031590963913, 29459182979408393249833858048965494324),
      (True, 15302176301410894544182509440275816390, 117248048543543312796106552601029185398),
      (True, 242394662027194107728611607476907913686, 85146559810495330947113826318954975490),
      (True, 127833893595433630503357781036148423958, 106247313168145374297778389866210412834),
      (True, 199043370791047834259438117504131962279, 53807689716878015401005881646523862835),
      (False, 17016852791202721271350409814932653236, 52324787767136550436681944504641554653),
      (False, 16091832436983167515145829734161664887, 106863575218024281379110175921334442560),
      (False, 67119691282925784396203530537957447186, 25308027021815334420169381416496719378),
      (True, 11293495531945950001919217395581157989, 132071553025358705398708910503075417649),
      (True, 307560370107267452654212251952607307485, 96918273792647325489488208242803595008),
      (False, 55207984356879493749861989232849755672, 102304507452323536318334349808716586520),
      (True, 184544600528670683531008271869913190339, 13296015851830079644744757725386159747),
      (True, 3117129561518377481184440728356867931, 94548429617806941484448109598029571190),
      (True, 157623310735999136689573207463122785833, 45390731217053770345306047231684282709),
      (True, 36328391019406234246414542946727819554, 154612835686856854601665136863595150285),
      (True, 421505160707051343756538640321883735814, 55270063430640941317122064043894336897),
      (True, 53863147936845466444683459046405094863, 57881919180904504115746863706650185426),
      (True, 59074172988396602195980385749436075344, 78557263879874881006668791608514509340),
      (True, 108813931749677656667454824179760610164, 70304037758784096774283479707834897572),
      (True, 87150993510109007463475754353099324606, 122580441223354754730689585917197866990)]"])
    (simp_all only: numeral_rules)

lemma m127_pow0: "pow_is 3 2205081746441495815869431694 170141183460469231731687303715884105727 27007551931456308829054874939110966421"
  by (rule pow_is_step [OF m127_pow0_3, where ss =
     "[
      (True, 264944047024396247265207153385631751994, 113273334347568462074537203856255910662),
      (True, 226238844938982657714952788614681614437, 160696853451505089762095801772418254033),
      (True, 455330300118918982485041204920537365724, 127208329657844677089923558550280393919),
      (True, 285327023214787108957618339049585677624, 148292258020602733034064599224882383035),
      (True, 387747281550295521192622543478761107021, 71335783301091206583401307904241424408),
      (True, 89727728625372675721099128344651654053, 72831739601677967912332118163054389861),
      (False, 31176827300246625705682403413623866563, 122244307223821797798921857145747493020),
      (False, 87831002140079489745150453417563447379, 77204540630151781484299722416311680867),
      (False, 35032911918692720033095773810109502794, 82108616443361520390920072679555970451),
      (True, 118874656161236706321129289906488311364, 115261943428874269395382231005683848575),
      (True, 234252201603283232181255052812789500223, 63584564911206538326207469432966514754),
      (True, 71287800156041436726843248246171036890, 35712829325188717125372884791121772518),
      (False, 7496163788624335707837333276476424689, 27007551931456308829054874939110966421)]"])
    (simp_all only: numeral_rules)

lemma m127_entry0:
  "entry_ok 3 170141183460469231731687303715884105726 170141183460469231731687303715884105727
     (77158673929, 2205081746441495815869431694, 27007551931456308829054874939110966421,
      46923548802193521005161092283058279922, 7448462243580840201302152073771026457)"
  using prime_p37 m127_pow0 by (simp only: entry_ok_def prod.case of_nat_numeral numeral_rules)

lemma m127_pow1_0: "pow_is 3 51 170141183460469231731687303715884105727 2153693963075557766310747"
  by (simp add: pow_is_def)

lemma m127_pow1_1: "pow_is 3 866534114 170141183460469231731687303715884105727 22048639122189299768628742797137914969"
  by (rule pow_is_step [OF m127_pow1_0, where ss =
     "[
      (True, 81786154161, 131385902179439693318048747558858113980),
      (False, 101458417888083076376346367752219765823, 54701913070167391341794136910958272079),
      (True, 52761463732818994002025955710800420640, 165104353519655327687291186230339941443),
      (False, 160216633014527074710836380528143853645, 64405208948444594972023363102274597334),
      (False, 24379934683224801238109094346607557435, 130934289598925119771351308257074977311),
      (True, 302286392584516057166529323378177074437, 167360827619927488576205634568637371464),
      (True, 493877720583768108601940358134586909768, 149761525210981469670014220636243468552),
      (False, 131822960069691188086253869797455412660, 34975178374089071339451462819958672884),
      (False, 7189694331611146906060998163449975869, 11573997726733476081271394611722175693),
      (True, 2361992916480837873345797565095229810, 19437228283085559144341863607277968877),
      (False, 2220543172703162552759965957604360557, 19849099355179358673458561750964031190),
      (False, 2315645966476546205384715072617462656, 170093589341495260672704434480914585188),
      (False, 170046008536171252762183969996715870849, 7999292177870171400814853901715743121),
      (False, 376091631934616823902549563483201668, 96488194577809094036546372974284068005),
      (True, 164157286969528505921745650286349677673, 47384443539206033120296269964090706804),
      (False, 13196602044571273311883458180495293494, 152116294482526369252737078951700654278),
      (True, 408002928681947931865805842833644303661, 77072651208673901456843925757221937305),
      (True, 104739959664981164794433919592775528392, 164130149079155636863979829055233688091),
      (True, 474994447943372024946745563813115365284, 37911085634425610695085052182344291375),
      (False, 8447398711756839694940263091519613862, 85991252451999747592676283972676602951),
      (False, 43460938426948210856540253504445917201, 127162378988277769861654037223129998274),
      (False, 95040308883918184826904635958434273558, 144975646763024815945818862579530512410),
      (True, 370597013495689173002047411290596059915, 139373389518337680528826440552005391095),
      (False, 114169546201278713370762619489366213128, 22048639122189299768628742797137914969)]"])
    (simp_all only: numeral_rules)

lemma m127_pow1_2: "pow_is 3 14538030015437824 170141183460469231731687303715884105727 78565415782334240639890208715174958884"
  by (rule pow_is_step [OF m127_pow1_1, where ss =
     "[
      (True, 8571866209925958714927534812289765392, 109838178042087360159263148527469212899),
      (True, 212724957771467639733469076690234286887, 123847203847408285658938757658206250754),
      (False, 90149425252970440945984767655799154639, 168673167389562975052113506374427050963),
      (False, 167217817688671358331694507602860482084, 47532872441006882887670912996553932301),
      (True, 39838219939582883626919456411360478063, 151763344855903863637904455196317297002),
      (True, 406111777996477353256307754701998086059, 108842056262010253018318671101633804119),
      (False, 69628016982114470457644962796405757987, 70501337672307890448381550342178674612),
      (True, 87640837670668071462875775676141792679, 33775328886556498615106919018369478999),
      (True, 20114580459470698136090221025432217284, 84481536364662096451616916073013340535),
      (True, 125844839703821125531941090367043635128, 117056386046255561661077337844059080619),
      (False, 80534278859025308697603603667481284237, 145261680452200510215075333877294897862),
      (True, 372060815235245412210465331577849361023, 145040086887503782825427053222311634411),
      (True, 370926539532781323104984614901575265056, 103077721145242945935642365272805375051),
      (True, 187344704798619637703469886994074086423, 42551352285396132185868983836452513282),
      (False, 10641853691681692656387278278169150612, 93087105967937324849777219063591656600),
      (False, 50929522889437735030692305213550333232, 85704635729511213569916224639153940336),
      (False, 43171702677352192517850618313445273676, 130009377752877540962467421137013850444),
      (False, 99343603705551623011324492082381612943, 7700198846249262743749338443395372575),
      (False, 348493298717148543487406177678885921, 128656656640951214463041541798326361058),
      (False, 97287058673089860143341698137231277966, 141235005376253939215138667644909368082),
      (False, 117239849505719821426004735899641656945, 145003721093946788335696691096716534709),
      (False, 123580186192699949575203182222724942651, 130114781215898106970053964308706052404),
      (False, 99504752150701538754275532296663246382, 57398983251677511459523354614455949502),
      (False, 19364172808236261591694475178919766560, 78565415782334240639890208715174958884)]"])
    (simp_all only: numeral_rules)

lemma m127_pow1_3: "pow_is 3 243907669783483707844428 170141183460469231731687303715884105727 38339003947630468135302670774823902207"
  by (rule pow_is_step [OF m127_pow1_2, where ss =
     "[
      (False, 36278838735626783437262809634444810585, 114691564181616046709172301952461805161),
      (False, 77313173841194081510150395455834229694, 62268759404578702402913881305627378383),
      (False, 22789299562420095171153231670938297372, 98921582606735676141778598115241445245),
      (False, 57513879393549640415044290128605712680, 32775680985281432903787238851028591665),
      (False, 6313846196435621192470244850825502829, 73190322427739355470184573849533870542),
      (False, 31484577620332916296932784922027841292, 79564643198356816573848267351911094480),
      (False, 37207525647384894958009630602796966411, 66740742671051723900852961024294734603),
      (False, 26180179552580031327161879289533740696, 143557169727279592723486138481139001617),
      (False, 121126822800637193744793183893023665228, 161398521373808493940402069208923053933),
      (True, 459315296364517402790874636261853756023, 108767929398886212924793353292285261746),
      (True, 208599626941053873118795755937770095583, 43276145078739704836890941823925201707),
      (False, 11007474467880733274469614144989133798, 75901906429894101839748020807054652703),
      (False, 33860698994320437683722068734372580607, 78445250897199376394334074288527369920),
      (True, 108503842453070270042642576964099397258, 3177298086323448625371294874516522634),
      (True, 178003166382703270072666951949106651, 28874911761421227435110108122620003591),
      (True, 14701211880724551287751682749031165133, 34020696833745564407387884079990669152),
      (False, 6802631729210574873767040684214261767, 118206031129705478175018495656442559495),
      (True, 246371845626958213981993874140079477446, 140236420372637500051605920904668031833),
      (False, 115587850036909932410775380069997020766, 2116825798859504698860567971742813007),
      (False, 26336665653664557186733892885130624, 33382345806790849844824352059546898401),
      (True, 19649228756359561913661426971524966524, 68100040896342807169752914049697387455),
      (True, 81772363558780657575009881142215467764, 38110049456041427641172239779037846647),
      (False, 8536298149585693571153154681782805098, 8902639785640230237974394767422546363),
      (False, 465830750326707184596085254358965606, 38339003947630468135302670774823902207)]"])
    (simp_all only: numeral_rules)

lemma m127_pow1_4: "pow_is 3 4092091660014179398986871719323 170141183460469231731687303715884105727 160462775264479383417830213518503978648"
  by (rule pow_is_step [OF m127_pow1_3, where ss =
     "[
      (True, 25917520857692948688756325076586318701, 144728198181895602312139481659697111920),
      (False, 123111000658137081577924255851284535331, 61193839127738211029327542931335145763),
      (False, 22009285882636099307772666024760429946, 166600785215925568606730756080215951427),
      (False, 163134057669298968641086646681067223604, 31504700490639770254854523618537356221),
      (False, 5833661978938373380179843849473686871, 12359115669857659637065768600791590624),
      (True, 2693311584547853558119280277792658132, 50608524087231616303998285194959806164),
      (False, 15053514135705889697723249442898715753, 137599522857259971743901263031279977465),
      (True, 333845603494547229618793903171530790915, 77975694472168914561139155802932408470),
      (True, 107208768707601863188702817191211277411, 83545706074992932789954988013732389903),
      (True, 123072230866270381534019778200332065697, 61414805020169777047497084404591101508),
      (False, 22168520277994948159618552958911199622, 137346557767810275306231380456509438870),
      (False, 110873079327377213646121251464849775710, 30388317582765758243468388852390385730),
      (False, 5427550383329652650380713878999824386, 49539974334587977510358641176530774278),
      (True, 43273633234869008318831968512081096317, 57117399356803080757198505973260956393),
      (False, 19174648036008974579177208723442462277, 132865392553749829957474869907970410070),
      (True, 311268774192409541250651798042823255462, 6042806665954664706047595319133983826),
      (True, 643856678190854016908671815623286787, 45108419033415638302318168332938665679),
      (False, 11959300072501109340882742133514515280, 104453189299675914133594601316255522481),
      (False, 64125971930886914405847687496353653647, 8404170666779116941366706318609258992),
      (True, 1245378981616655023811108072560063279, 20848398149520117920643793312552269359),
      (True, 7664029893771760564366798008608801568, 33307947634168927875947904493795432707),
      (False, 6520581043556118544664933148976824826, 99885422482420244122425034684422969347),
      (True, 175920328427884812662213074626204383389, 144031623551509848246150027531786250424),
      (True, 365786369195623676669259580526168250840, 160462775264479383417830213518503978648)]"])
    (simp_all only: numeral_rules)

lemma m127_pow1: "pow_is 3 261893866240907481535159790036718 170141183460469231731687303715884105727 53406944723912930814563848724821333530"
  by (rule pow_is_step [OF m127_pow1_4, where ss =
     "[
      (True, 454004757494140781218584489216960273128, 34246775467276902540506371892970719656),
      (False, 6893343551819000206330575609105017769, 100809673962148464214571943565535095273),
      (True, 179191013445298977451854958455443608270, 169154721875753451145404098876509271297),
      (True, 504521939090277042307147233829508605386, 126791997998996069537815136186298541005),
      (True, 283462423904778805639589088490817851467, 124743839645450414215320072474189178566),
      (False, 91459488014583549373086727446839227638, 53406944723912930814563848724821333530)]"])
    (simp_all only: numeral_rules)

lemma m127_entry1:
  "entry_ok 3 170141183460469231731687303715884105726 170141183460469231731687303715884105727
     (649657, 261893866240907481535159790036718, 53406944723912930814563848724821333530,
      58521024311718766171606481931475363244, 18369621317045171229242846163547228725)"
  using prime_p20b m127_pow1 by (simp only: entry_ok_def prod.case of_nat_numeral numeral_rules)

lemma m127_pow2_0: "pow_is 3 45 170141183460469231731687303715884105727 2954312706550833698643"
  by (simp add: pow_is_def)

lemma m127_pow2_1: "pow_is 3 758799014 170141183460469231731687303715884105727 10536782517328652454911992409570741164"
  by (rule pow_is_step [OF m127_pow2_0, where ss =
     "[
      (False, 51298, 61138932561776519302173459304484457803),
      (False, 21969807654840607809221600210084198903, 100161333976447877235215529539538169328),
      (True, 176893553105073668714099169100392435644, 139059359784070344579257549668460581564),
      (True, 340966927881662740556588934727699733580, 97090327469642703730374360948837845628),
      (True, 166212521209233732589993618951052624716, 156011787730388233923671389823278794620),
      (False, 143055769425083499319064692611588905806, 120045501360660987369578823477392793438),
      (True, 254099368015987264741274795359025256351, 121008334045560253793081629368245357355),
      (False, 86063918274578533350140240337967989097, 151926172761346357085304293453321337506),
      (False, 135661228518921477723558279570529662803, 142788303161060443485889965776251127255),
      (True, 359498490105753631469632082206924141746, 94750028383000462419125324812413125733),
      (False, 52765401626968523393629980003381524505, 160622860647341398258276726007405447154),
      (True, 454911083333264497851265863560240255587, 121311025667353595943645141486649652399),
      (True, 259485057923401670696023816648716981978, 165287486357771766373116014963673777597),
      (False, 160572252942028772831218938926176961724, 62126160149031450217612057336570901061),
      (True, 68055123921714002461726784703306583264, 86221035726519791095275813179848024235),
      (False, 43693518820979875031886386968395882364, 101030390927899021256390781371916636597),
      (True, 179976529199627396746209708108607360391, 60002196463147783378131016993843161970),
      (False, 21160447501169951081060476031884032432, 30333230312145906636724641974669342836),
      (True, 16223670997036387420992414736781586788, 9096107520385956025779733232895233812),
      (False, 486297146520352288637720713157343501, 87487276219467999822556986489807721117),
      (False, 44986306928327169358646681915526167727, 93866708098812163821206168918044455160),
      (True, 155358485995627669459702176309102000750, 111625568284653180496777642723518581550),
      (True, 219704610749345128622844354793176517156, 45602141063799212969296850492467855088),
      (False, 12222527358203126121726941061316602540, 10536782517328652454911992409570741164)]"])
    (simp_all only: numeral_rules)

lemma m127_pow2_2: "pow_is 3 12730534961422208 170141183460469231731687303715884105727 112086118936389214340545846795016336310"
  by (rule pow_is_step [OF m127_pow2_1, where ss =
     "[
      (False, 652539165176772787030018890741324333, 108194580812885786648156004414914319805),
      (False, 68802080009017171852054049010218321820, 124954665215241709116186958104424174885),
      (True, 275306684275194863785761544744631168610, 103804105926802576836584326418390660205),
      (False, 63331476765978836579091328144917865224, 9230050451249218089355529026618104177),
      (True, 1502173011845775344931082902401627904, 45607053683458782484446283288825135779),
      (True, 36675482738178342970682535840033167011, 106522464419405418415102090583985238526),
      (False, 66691880209119825517617781840368500198, 86635777964461349405827469883662218730),
      (True, 132344642329080927848811021201745903881, 157082637414743445078890458544104812213),
      (False, 145026350912298434233230584976877132759, 79529431830722304862747646011422746576),
      (False, 37174600521025802422780384508737616991, 37052157252637277981000901052444116319),
      (False, 8068959725986233171637017127672479557, 36769447936935642448432190869167986822),
      (True, 23838889693061479981341152873546532745, 90465367638427906070276384549249448437),
      (True, 144303382205944163655250439602841666615, 104683103106327608047319775392619024802),
      (True, 193225740877419091714394947223442201821, 30867541593085880818992145122037488745),
      (True, 16800255610463574345868844863989311014, 25384145105618677815554024613743447897),
      (True, 11361531810894239541511584097104366294, 56157749061567887891505600925430002089),
      (True, 55607220700826282514773758893879935768, 10101238665776982020552484756752148427),
      (False, 599707963161634292981377085280248188, 41082324405745774487722231637246401653),
      (False, 9919746320390854081325521063979192310, 25973527559655614838186536716495773039),
      (False, 3965084291593237841278937603822303118, 40843542401124599638526152107245538735),
      (False, 9804768733491577403819182732903570398, 90634814273448170018672032062765930879),
      (False, 48281488298751891877644932603907724223, 18593035198911813128207105097314787520),
      (False, 2031847615473382102235933822582376697, 86969646876838413226711459540658706681),
      (False, 44455547587273786148411841165832475013, 112086118936389214340545846795016336310)]"])
    (simp_all only: numeral_rules)

lemma m127_pow2_3: "pow_is 3 213582934843332050836084 170141183460469231731687303715884105727 81734158837356426041818514725487390966"
  by (rule pow_is_step [OF m127_pow2_2, where ss =
     "[
      (False, 73840429475685160778631736325249786578, 113800599165934746624787711485886883894),
      (False, 76116646817228103246709372157744908590, 6198391867369909380638175281926108306),
      (False, 225812827676751095627521916401818504, 15792983907067631879029839233841217228),
      (False, 1465949252356336778339419607285027448, 147887669852120850325903305664555009288),
      (False, 128544791152057365342307236787950520959, 79098863501931250405075846916280834751),
      (False, 36773167319309397128685585670370439888, 99534274983460623102886599952879193425),
      (False, 58228535237530976481892195545766986326, 115721090287750782290749927970215941623),
      (False, 78707403257819307175928776096278866241, 92570134138188332460748187056808811922),
      (False, 50365405718205575474546818634184194889, 112847241632180977513605662679920304781),
      (True, 224539991170637162679983564986157055921, 168977345016340639169378517087579014316),
      (False, 167821467724805923876940776333918661959, 114078543037830804503889061487004008663),
      (True, 229466735512473038022874058601376459148, 41238211135017512245149347058408802111),
      (True, 29985510086887324709977679083010480738, 135088453229447507225372578034385182437),
      (False, 107257336670428130442651226097819425411, 9559137501091385854566225143058830172),
      (True, 1611199144844357655056752021572159791, 48933029908079300652112172963430425695),
      (False, 14073261789326334275794096773327546676, 161341589512940599571962428645804819573),
      (False, 152997104975529438236949259971700123448, 19119076264609463264710525328100115633),
      (True, 6445336804011639877468980694149087528, 115635566340891165895477374968583899211),
      (True, 235773325382189001374224606328165596384, 77752868988619860473055504626354376395),
      (True, 106596918741301162432701861192377924916, 897221059621271175484732401387994143),
      (False, 4731397851214267810807220664884701, 127400786852031733643844452614053521822),
      (True, 286191035475334030815229853108538980718, 118493212597072729636549417178764227066),
      (False, 82523473423689284056194619130950858859, 74272415056314994287001144046596382863),
      (False, 32422436038710228330610965937956954389, 81734158837356426041818514725487390966)]"])
    (simp_all only: numeral_rules)

lemma m127_pow2_4: "pow_is 3 3583327031780507976599973743706 170141183460469231731687303715884105727 36609820060297989999797238413466231646"
  by (rule pow_is_step [OF m127_pow2_3, where ss =
     "[
      (True, 117792869162727266961397711246030202821, 121143393864600015617346107617197583601),
      (False, 86256140803460322825545189642791989532, 66526798670970361371561623318418877437),
      (True, 78037806921146554631131674265248667520, 111445818429434944736245329884132179867),
      (True, 218997602922380566426338694220604560666, 140614251417383706928858919442590878885),
      (False, 116211532678477736117531620119202181990, 167418512818881878989928537578483586495),
      (True, 494218234487567054091595800192935656413, 42304836451602145148285829282201577824),
      (False, 10518906421105422906654095306798060659, 158645463118574050473972682709013280883),
      (True, 443779379975122000356862723292241182890, 163159243626313234826748480619256368037),
      (False, 156463815751556534726620494596389718354, 161699233363160180884368285745706820011),
      (True, 461028450697981729251100292159794232817, 21917994834806648398944747223769077404),
      (False, 2823528600235857494393051302009102402, 10319399999116648845172500767605722962),
      (False, 625892063143610884166870378531026572, 122480477935813270757410670595199675600),
      (True, 264512104070394520496543224025007070941, 114403051165720952966302914586272700893),
      (True, 230774075679345297337959802591289746352, 62277326419597395896966646372948434443),
      (False, 22795570755355714492186870781201106885, 92573147146452505596669669173901089854),
      (False, 50368684396684359907200782488823481244, 115747160831012135752981529689084256928),
      (False, 78742870879071768946332568028416170801, 83092088690679892456537308954341719857),
      (True, 121739400112682840654325253101097443396, 21243285822089044447426739018542372455),
      (False, 2652368952304952030586638400641399452, 7662341374644692254124320351134865421),
      (True, 1035225113887249882128073894119351856, 35832066352344587308622407033926842411),
      (True, 22638909985784887408211193181343755267, 11730998215980434626922289450243764654),
      (False, 808836028669743263888054089591723348, 164354266423808373859567170282773325720),
      (True, 476292529691688452490796797371856020541, 21841760604340914470273550052912816893),
      (False, 2803921405708218531582261545591682389, 36609820060297989999797238413466231646)]"])
    (simp_all only: numeral_rules)

lemma m127_pow2: "pow_is 3 1834663440271620084019186556777598 170141183460469231731687303715884105727 150550836351600033767904108065981737908"
  by (rule pow_is_step [OF m127_pow2_4, where ss =
     "[
      (False, 7877451523421422743670056547187348909, 30337829386177051655373129696337767473),
      (False, 5409530327374446367562254915985351661, 55086927871404113321709169415217743182),
      (True, 53506791723022207205555097219776265334, 61497539572521152584207417809461487554),
      (True, 66684866589384688556155499976393721540, 151885795788738601594832032283133449168),
      (True, 406767388585933055685714999777425051197, 84479797621214536892757859373783771453),
      (True, 125839659645594474209302809287185224926, 17967455494016810837778521728753442425),
      (True, 5692263043494370493080952503084991765, 37559776026883861097238755501185303720),
      (True, 24874696645990796672634373987900083683, 32114665457692389681238519693017962659),
      (False, 6061740705471970646882199789107000299, 150550836351600033767904108065981737908)]"])
    (simp_all only: numeral_rules)

lemma m127_entry2:
  "entry_ok 3 170141183460469231731687303715884105726 170141183460469231731687303715884105727
     (92737, 1834663440271620084019186556777598, 150550836351600033767904108065981737908,
      141899323343967763829894105985566179829, 125560792352922500195915453413722127026)"
  using prime_p17 m127_pow2 by (simp only: entry_ok_def prod.case of_nat_numeral numeral_rules)

theorem prime_m127: "is_prime 170141183460469231731687303715884105727"
  by (rule certificate_sound [where N = 170141183460469231731687303715884105726 and a = 3, where es =
     "[(77158673929, 2205081746441495815869431694, 27007551931456308829054874939110966421,
        46923548802193521005161092283058279922, 7448462243580840201302152073771026457),
       (649657, 261893866240907481535159790036718, 53406944723912930814563848724821333530,
        58521024311718766171606481931475363244, 18369621317045171229242846163547228725),
       (92737, 1834663440271620084019186556777598, 150550836351600033767904108065981737908,
        141899323343967763829894105985566179829, 125560792352922500195915453413722127026)]"])
    (simp_all add: m127_one m127_entry0 m127_entry1 m127_entry2)

subsection \<open>2701360283249\<close>

lemma p42_one_0: "pow_is 2 39 2701360283249 549755813888"
  by (simp add: pow_is_def)

lemma p42_one_1: "pow_is 2 659511787 2701360283249 2495105520761"
  by (rule pow_is_step [OF p42_one_0, where ss =
     "[
      (False, 111881209173, 1841396633467), (True, 2510395657157, 2509274817085),
      (False, 2330847960822, 488233026547), (False, 88241279658, 54504894367),
      (True, 2199472264, 1838297355642), (True, 2501952211791, 1541860875369),
      (True, 1760102103918, 228589102740), (True, 38686418998, 629776250698),
      (False, 146821632198, 1760367035902), (True, 2294319732400, 952831339608),
      (False, 336085329812, 2397925674476), (True, 4257149685635, 2004129321037),
      (True, 2973712436913, 77498340401), (False, 2223321636, 530678765437),
      (False, 104251163323, 2481425724542), (True, 4558794815042, 1649636388070),
      (True, 2014762880552, 1749403176352), (True, 2265829917177, 1614693587735),
      (True, 1930312960059, 856421108759), (False, 271513992441, 1508301599272),
      (True, 1684317140866, 2022148706334), (False, 1513713448696, 1022582026252),
      (True, 774183293430, 583553580938), (True, 252120965823, 2495105520761)]"])
    (simp_all only: numeral_rules)

lemma p42_one: "pow_is 2 2701360283248 2701360283249 1"
  by (rule pow_is_step [OF p42_one_1, where ss =
     "[
      (True, 4609197520476, 406166731718), (True, 122139512435, 1657216761733),
      (True, 2033321813753, 1447282603081), (False, 775397101293, 1603366551604),
      (False, 951662876937, 2409845444503), (True, 4299578329038, 2369504149556),
      (True, 4156831615226, 900088844998), (True, 599816273240, 2701360283248), (False, 2701360283247, 1),
      (False, 0, 1), (False, 0, 1), (False, 0, 1)]"])
    (simp_all only: numeral_rules)

lemma p42_pow0_0: "pow_is 2 35 2701360283249 34359738368"
  by (simp add: pow_is_def)

lemma p42_pow0: "pow_is 2 9184208 2701360283249 2685269356287"
  by (rule pow_is_step [OF p42_pow0_0, where ss =
     "[
      (False, 437035973, 904128987147), (False, 302606516601, 1189510482960),
      (False, 523786182037, 2349854563387), (False, 2044087381942, 2160433222211),
      (True, 3455645466157, 12043952949), (False, 53697688, 972229368289),
      (False, 349908877547, 1924422477318), (False, 1370939631478, 58467961102), (True, 2530948942, 93236250),
      (True, 6436, 41845134436), (True, 1296395217, 1336057256159), (True, 1321592682622, 2659806867684),
      (False, 2618892643550, 21090629906), (True, 329326430, 1437541166602),
      (False, 764994072982, 977422147886), (False, 353656659980, 1613571593976),
      (False, 963815639487, 1831010435313), (False, 1241078146818, 2685269356287)]"])
    (simp_all only: numeral_rules)

lemma p42_entry0:
  "entry_ok 2 2701360283248 2701360283249
     (294131, 9184208, 2685269356287,
      1279694809470, 1272072177331)"
  using prime_p19 p42_pow0 by (simp only: entry_ok_def prod.case of_nat_numeral numeral_rules)

lemma p42_pow1_0: "pow_is 2 24 2701360283249 16777216"
  by (simp add: pow_is_def)

lemma p42_pow1: "pow_is 2 51767056 2701360283249 1665521045445"
  by (rule pow_is_step [OF p42_pow1_0, where ss =
     "[
      (True, 208, 1067014505520), (False, 421461721359, 1130757255009), (True, 946643050676, 1160490253838),
      (False, 498540545518, 1370216302262), (True, 1390035032814, 637043100602),
      (True, 300458931406, 1615763706714), (True, 1932872391826, 1074545032918),
      (True, 854863407098, 32930088046), (False, 401423943, 2351901667309),
      (False, 2047650395614, 92172031595), (True, 6289929900, 419002242950),
      (True, 129981091886, 82393787386), (True, 5026161258, 52715258750), (False, 1028703398, 2478962782398),
      (False, 2274874815707, 155704438361), (False, 8974690371, 2637815470942),
      (True, 5151530880118, 399750191346), (False, 59155461961, 2471208300427),
      (False, 2260664933133, 59363393212), (False, 1304532562, 2450664023006),
      (False, 2223233306159, 1665521045445)]"])
    (simp_all only: numeral_rules)

lemma p42_entry1:
  "entry_ok 2 2701360283248 2701360283249
     (52183, 51767056, 1665521045445,
      2473500714338, 1525034450679)"
  using prime_p16 p42_pow1 by (simp only: entry_ok_def prod.case of_nat_numeral numeral_rules)

theorem prime_p42: "is_prime 2701360283249"
  by (rule certificate_sound [where N = 2701360283248 and a = 2, where es =
     "[(294131, 9184208, 2685269356287,
        1279694809470, 1272072177331),
       (52183, 51767056, 1665521045445,
        2473500714338, 1525034450679)]"])
    (simp_all add: p42_one p42_entry0 p42_entry1)

subsection \<open>4943433031\<close>

lemma p33_one_0: "pow_is 2 18 4943433031 262144"
  by (simp add: pow_is_def)

lemma p33_one_1: "pow_is 2 308964564 4943433031 351886193"
  by (rule pow_is_step [OF p33_one_0, where ss =
     "[
      (False, 13, 4454847333), (True, 8029102300, 1576354478), (True, 1005331082, 2771535426),
      (False, 1553861166, 3980427330), (True, 6410039998, 2677483862), (False, 1450190542, 4703842242),
      (True, 8951727149, 2381114509), (False, 1146916782, 1023284839), (False, 211818761, 2014361330),
      (True, 1641633068, 2465668692), (True, 2459635666, 1887898082), (False, 720988662, 1311984202),
      (True, 696399662, 687118086), (True, 191013516, 3854759796), (False, 3005840878, 2622720398),
      (False, 1391474759, 641913875), (True, 166707395, 2880067005), (True, 3355880782, 742429808),
      (False, 111501868, 2517514956), (True, 2564161995, 4449507027), (False, 4004931928, 3540664961),
      (True, 5071903791, 1622742521), (False, 532685134, 2923174287), (False, 1728545296, 351886193)]"])
    (simp_all only: numeral_rules)

lemma p33_one: "pow_is 2 4943433030 4943433031 1"
  by (rule pow_is_step [OF p33_one_1, where ss =
     "[
      (False, 25048158, 1201126351), (True, 583685265, 3424162187), (True, 4743621127, 1), (False, 0, 1)]"])
    (simp_all only: numeral_rules)

lemma p33_pow0_0: "pow_is 2 19 4943433031 524288"
  by (simp add: pow_is_def)

lemma p33_pow0: "pow_is 2 640590 4943433031 4553930461"
  by (rule pow_is_step [OF p33_pow0_0, where ss =
     "[
      (True, 111, 1034747447), (False, 216590833, 1009012986), (False, 205951451, 260858215),
      (False, 13765132, 128111133), (True, 6640107, 523913061), (True, 111050314, 642257708),
      (False, 83443016, 1984751768), (False, 796863142, 3229882422), (True, 4220605556, 3536651932),
      (False, 2530206601, 1481694993), (False, 444108383, 2415071176), (True, 2359724000, 4648601952),
      (True, 8742709761, 3302905017), (True, 4413605477, 1843229791), (False, 687274620, 4553930461)]"])
    (simp_all only: numeral_rules)

lemma p33_entry0:
  "entry_ok 2 4943433030 4943433031
     (7717, 640590, 4553930461,
      4397297298, 4050825809)"
  using prime_7717 p33_pow0 by (simp only: entry_ok_def prod.case of_nat_numeral numeral_rules)

lemma p33_pow1_0: "pow_is 2 28 4943433031 268435456"
  by (simp add: pow_is_def)

lemma p33_pow1: "pow_is 2 30327810 4943433031 3670449742"
  by (rule pow_is_step [OF p33_pow1_0, where ss =
     "[
      (True, 29152855, 1720902367), (True, 1198157207, 77900961), (True, 2455200, 2671735842),
      (False, 1443970690, 4685587574), (True, 8882382253, 3798012109), (True, 5835983167, 4113466585),
      (False, 3422845467, 4335141748), (False, 3801700934, 4133344550), (False, 3456006597, 2050996993),
      (True, 1701889613, 2570077095), (False, 1336175939, 2163597916), (False, 946944342, 3358182454),
      (False, 2281286976, 4004957860), (False, 3244645443, 3565951867), (False, 2572304032, 197504697),
      (False, 7890893, 4236775126), (False, 3631133132, 3605032784), (False, 2628995131, 4791218595),
      (True, 9287382060, 3226724190), (False, 2106177818, 3670449742)]"])
    (simp_all only: numeral_rules)

lemma p33_entry1:
  "entry_ok 2 4943433030 4943433031
     (163, 30327810, 3670449742,
      574134940, 426289469)"
  using prime_163 p33_pow1 by (simp only: entry_ok_def prod.case of_nat_numeral numeral_rules)

theorem prime_p33: "is_prime 4943433031"
  by (rule certificate_sound [where N = 4943433030 and a = 2, where es =
     "[(7717, 640590, 4553930461,
        4397297298, 4050825809),
       (163, 30327810, 3670449742,
        574134940, 426289469)]"])
    (simp_all add: p33_one p33_entry0 p33_entry1)

subsection \<open>143834195958255027531178710997993\<close>

lemma p107_one_0: "pow_is 2 56 143834195958255027531178710997993 72057594037927936"
  by (simp add: pow_is_def)

lemma p107_one_1: "pow_is 2 951814866 143834195958255027531178710997993 62302189604027366498613466897823"
  by (rule pow_is_step [OF p107_one_0, where ss =
     "[
      (True, 72, 28531608075293274816125466584696),
      (False, 5659660096396011173559470825820, 136216174190879679908018468833156),
      (True, 258003265323431780063779474284883, 110433047250618759394967406600853),
      (True, 169576613458414034776413512820989, 85375449127022573427066373380141),
      (True, 101352355955134551585714548124900, 10104424488721104690777573034062),
      (False, 709840894010344011058638981765, 80129028584473751769867733622199),
      (True, 89278647252352686965715218983397, 10895361875982295954776963868981),
      (True, 1650635436416821502473483167201, 123407645024926213339471873529129),
      (True, 211763923719756255423297714673147, 48643838567163999458054255003311),
      (False, 16451046392577327150740999987108, 19833977769963688753405807088477),
      (False, 2735001030586539536874345533208, 99286428270519927893856303327985),
      (False, 68535821909680815810489231285389, 109769175767856635577920094935948),
      (True, 167543912189722427367285788184142, 83471391070715090862684368890402),
      (False, 48441005846081438508590915110132, 87834104028559203601231461756528),
      (True, 107273931336034078773222879177904, 104686210514915780853971067282896),
      (False, 76193304373557667691948136501397, 69729337838994723118770785450595),
      (True, 67608130640585790310712024100977, 59992144515159459240206095368889),
      (True, 50044530503334978322245715589581, 86673492496584599101527075477709),
      (False, 52228847608226618148432346340398, 84430920235204518147022683067467),
      (True, 99122190578830006799246320152051, 60841440228139747008603231758535),
      (False, 25735749585645402908521256122956, 120947220397058313841799868118917),
      (False, 101702032846348633206499200024629, 29920894669534316897241283683292),
      (True, 12448499216211397007359449730547, 28870828349726854859539012122357),
      (False, 5795038683577760603410408385482, 62302189604027366498613466897823)]"])
    (simp_all only: numeral_rules)

lemma p107_one_2: "pow_is 2 15968803608130136 143834195958255027531178710997993 13791133488894609654494288998707"
  by (rule pow_is_step [OF p107_one_1, where ss =
     "[
      (True, 53972739981564897608708665253289, 143024822387072530003910928629681),
      (False, 142220003265361275287076819238019, 19922800354895763687067135865894),
      (False, 2759552214525064670587994221753, 46608866699220883508741172477507),
      (False, 15103407367857312188733577069209, 120315531813203028719743999837512),
      (True, 201284918361071615701645840229451, 16215943734690489424548484208445),
      (True, 3656388238621164208399489715342, 58770274436638075684368115327444),
      (False, 24013379671967525424541946836662, 122482023613274962098187958753770),
      (False, 104299579167924910311659284474150, 7543637552702496229134778831950),
      (True, 791278696243545036646199553517, 132282201775902576896958598513619),
      (True, 243316004099042105608832219159491, 423320911231499114580009052759),
      (True, 2491766199157203324642992798, 143324081176205536117419999569748),
      (True, 285631551080737361112339397166549, 56588930712708116156042007830851),
      (False, 22263878612962698375791152622346, 31585259625028471559573534432623),
      (False, 6935962751653266640011349294100, 12235650764978319623059459918829),
      (True, 2081718448733362097685174062299, 47659129833750924199930291496575),
      (False, 15791742995313529422044166984597, 108453536711458989501081907816804),
      (False, 81775891656790121820254255668835, 37554950383016152093717067126261),
      (True, 19611112487883447470170142981067, 94409411298818078985430157681711),
      (False, 61968135479940089248167442778186, 76012526347162533778641393706823),
      (True, 80341175103519867307161543758526, 38078866209119103017575290868340),
      (True, 20162104597057377066056214000030, 134500754256193178996242596771410),
      (False, 125772962228921253194244207463072, 95659269959856567901619979773604),
      (False, 63619752370350942088443427776137, 73062595088729412543807234855775),
      (False, 37113168850673837578424113813726, 13791133488894609654494288998707)]"])
    (simp_all only: numeral_rules)

lemma p107_one_3: "pow_is 2 267912067395178652426560 143834195958255027531178710997993 81788079186262317581077829306833"
  by (rule pow_is_step [OF p107_one_2, where ss =
     "[
      (False, 1322323677213107055393841161060, 120005442293785018580014197919269),
      (True, 200248711152202701068918182795978, 78239412316860843251906596516568),
      (False, 42558764269550828280410650533968, 50269133175616127189452272172400),
      (False, 17568741100768808508287222613263, 108168464748670977168027113578841),
      (False, 81346558015176625095288742047761, 1655125307861228789656341759608),
      (True, 38091634141269083031630985079, 136078131588942864379681538680881),
      (True, 257480604989260137154961824887688, 70630216373652542846799491462138),
      (False, 34683181087457284494993640550905, 136250376452829646932010218197379),
      (True, 258132844694674273000570962979617, 78267342592541699495941418030601),
      (True, 85178310702639519132668715733307, 8988458949378169495415944589551),
      (True, 1123410100726045264434415732141, 31819394687312992075721840170189),
      (False, 7039173622946050839292953053091, 81429463283801188717495560849358),
      (False, 46100007348825236317147611812621, 129919808640027307907367745942511),
      (False, 117351486304134163552737436379858, 103727187745914934052535493360127),
      (False, 74803696061254887468848391951290, 106473113132369038929840369695159),
      (True, 157633221287494853286310179997808, 27268157708410143915526943671218),
      (False, 5169510767985442320643460653619, 96763357553485765550224104416857),
      (True, 130193620545439629831817422577177, 1055479648631490990320316911137),
      (False, 7745288116315417231757430381, 100234062771464855752667026407436),
      (False, 69850338945752910080257139505506, 25885832035465359182572897644638),
      (False, 4658671713663980037997707834689, 13701232496052192021061875371867),
      (False, 1305140065338562577577354439634, 131082213192880048339998121411127),
      (False, 119460789564468685656524768386000, 48070940426570551070917910112129),
      (False, 16065827031602154064111242497456, 81788079186262317581077829306833)]"])
    (simp_all only: numeral_rules)

lemma p107_one_4: "pow_is 2 4494818623695469610349334718687 143834195958255027531178710997993 53663558267939799350613651267796"
  by (rule pow_is_step [OF p107_one_3, where ss =
     "[
      (True, 93013901908552354434230602016202, 73136704578644301217553145497192),
      (True, 74376993885046961637992716743341, 7876829878762297244738812655115),
      (False, 431360905003213668428456350899, 35642969028708514719476642917518),
      (False, 8832539666368271189079359340176, 83188885507084869688152011013556),
      (True, 96227334894956117383370873810012, 118908632687872577188934036224356),
      (True, 196605026134439329886153303058862, 92353918730698309365816292365506),
      (False, 59299155170248037717990546404391, 9709462885257626274287731248773),
      (True, 1310865874309282872322527042354, 30153476643425336760126108015536),
      (False, 6321390734853369610131102523083, 94331307958972384759864768194877),
      (True, 123731294939529769855688875902454, 121820375680987718203767240315436),
      (True, 206351540149243140329623540670974, 55873075818759208802677172385010),
      (False, 21704161382838714171262736615863, 81141345056340249173951467737141),
      (True, 91548714597228623985939881441475, 75524341172664186481333469748087),
      (False, 39656258871989163559187254188434, 4245429181530200148797822346607),
      (False, 125308650111404601428998783797, 99326543755857410627354936493028),
      (False, 68591215244444340345852132690159, 123991471145189952700240752757897),
      (True, 213772320473921687675949042773885, 94333121592864623000989603912413),
      (True, 123736052753920365997505130362510, 51718760765667944894505178522708),
      (False, 18596622293579681394334287145847, 51745944772897100259888356368193),
      (True, 37232353302365572575931851063772, 73881426124163139271581157160902),
      (True, 75899407505630787908318019975635, 28190565724110678046905841006653),
      (True, 11050334596037951287028464766769, 121883137041639367613314808430201),
      (True, 206564217864054404565060974487206, 56374955098211498411540107623244),
      (True, 44191654719546001721612023719532, 53663558267939799350613651267796)]"])
    (simp_all only: numeral_rules)

lemma p107_one: "pow_is 2 143834195958255027531178710997992 143834195958255027531178710997993 1"
  by (rule pow_is_step [OF p107_one_4, where ss =
     "[
      (False, 20021507867380628264643445869079, 52349218668140802149056796939169),
      (True, 38105551700100288564463257622410, 143834195958255027531178710997992),
      (False, 143834195958255027531178710997991, 1), (False, 0, 1), (False, 0, 1)]"])
    (simp_all only: numeral_rules)

lemma p107_pow0_0: "pow_is 2 92 143834195958255027531178710997993 4951760157141521099596496896"
  by (simp add: pow_is_def)

lemma p107_pow0_1: "pow_is 2 1549636336 143834195958255027531178710997993 89755586798510446478567674841838"
  by (rule pow_is_step [OF p107_pow0_0, where ss =
     "[
      (False, 170473568475820841355545, 49030594847636941912581043213631),
      (True, 33427367047135779778920001690635, 30975620804704564073651716512767),
      (False, 6670799512205835721803386056329, 121480001864178027442963170048592),
      (True, 205200032643193304036652270555462, 100701500950115785667368805177162),
      (True, 141006694910705807149901044202970, 117299799150343337843412458109278),
      (True, 191320885677342406047883785022809, 81845015288802491546902521140231),
      (False, 46571724359403718848631386944121, 17492375896546724597249932584208),
      (True, 4254665762443505155175884539801, 13350691263039133116401782355135),
      (True, 2478422547760760368704941844080, 43509228853770556049091922805010),
      (False, 13161355565259326233531559688455, 92521481090457145670265270829285),
      (False, 59514529254616555595045586700003, 68883113987294956688807987517246),
      (True, 65977125411314243360257746470646, 17904757094430760538390155435554),
      (False, 2228818567620808477217939847300, 92057614829383349421906420818016),
      (False, 58919260413807882445092759736836, 131001632205111686860264986006108),
      (True, 238627921907862765808125713926702, 107638350454499012977604755506242),
      (False, 80551181945134623940720868840513, 33768885945814121464882720872155),
      (True, 15856280217986027236395659466120, 106633242760224230832484937190890),
      (True, 158107720988144079020936202337702, 41660871272425905420464567752114),
      (True, 24133735147118605014058960111142, 93369340785442216520544883999986),
      (True, 121220600436883850071175996715861, 104810489751567196332476733733419),
      (False, 76374318977328702388815790899430, 15873635494264970390875762585571),
      (False, 1751824746028535430004144390104, 38224529447348598360444944334769),
      (False, 10158325992904212996054338612276, 7872576953678223509629301121293),
      (False, 430895222646311499927024999427, 89755586798510446478567674841838)]"])
    (simp_all only: numeral_rules)

lemma p107_pow0_2: "pow_is 2 25998583539835091 143834195958255027531178710997993 2831519002795652513604237504059"
  by (rule pow_is_step [OF p107_pow0_1, where ss =
     "[
      (True, 112018777007423924701645508645236, 89858465624520426755361685425140),
      (False, 56137859224635236231168488953219, 63632234315978802506139164130133),
      (False, 28150894278428674963283243664192, 121585526605107704597728080631033),
      (False, 102778342669860180896304394317506, 12988339615874511008516111881631),
      (True, 2345714311584932554641013911482, 124685846816955314001037928784696),
      (True, 216173355618066248969480774583161, 124866058715869469926660165028959),
      (True, 216798689843687653893555871180544, 102665341548380592013309292599170),
      (False, 73280017210265593276129629519214, 88120697054666773871247575751398),
      (False, 53987559757027922840100418349597, 29278189283087517395994459595583),
      (False, 5959725793893194529677527260872, 3183548292366999530205133679993),
      (True, 140925871797195043081308327251, 43236099432869478206773408752855),
      (False, 12996633253412981933586033293651, 43102518837435294337231430008582),
      (False, 12916449511565811697273566021172, 122657830376910782026642306142928),
      (False, 104599210587845942854185396110236, 65829562658966082276748561656836),
      (False, 30128658146971263894524654148384, 124099896214904240452185277337584),
      (False, 107073176430309873102546035301423, 61271763559015513202502595913017),
      (True, 52202176048892998852920404191268, 137093783168094450376339323959454),
      (True, 261338484330878884347780814237153, 97547875296123451352324062922303),
      (False, 66156645931053553390604444842333, 13612917120070827825508250386140),
      (True, 2576737906911933063936697013631, 141403621543133616279859473556617),
      (False, 139014120058882951361739937759410, 95673140582986580190010077620559),
      (False, 63638203474704226811058542963874, 117554478561885333939740493967599),
      (True, 192152573147034666330904348680049, 43371756271629642090808685507945),
      (True, 26156634443614496018808846526287, 2831519002795652513604237504059)]"])
    (simp_all only: numeral_rules)

lemma p107_pow0: "pow_is 2 53245099089582268008 143834195958255027531178710997993 57143816153914284424069360325855"
  by (rule pow_is_step [OF p107_pow0_2, where ss =
     "[
      (True, 111482527639252128202942521043, 41239813033961249283090149684263),
      (True, 23648370510857938517896468314984, 23750356332181496736543463879226),
      (False, 3921733786236107493467758590797, 108516457455940302358241139088655),
      (False, 81870805897956256361610288956373, 72545606928780420063838682149636),
      (True, 73179608640389717415330539290593, 124753301440988214032350523085143),
      (True, 216407317004685460819583402440687, 102939520740077050269607896119707),
      (False, 73671944697158014401248789490022, 92779190904001483793826138240003),
      (True, 119693070308530019244748351435183, 3332569585702836410461076292299),
      (False, 77214044751742296994020208552, 2535605885197759964654973269265),
      (False, 44699364863940210998580443322, 102248024573472992257315201387479),
      (False, 72685486643327783603249859135202, 57143816153914284424069360325855)]"])
    (simp_all only: numeral_rules)

lemma p107_entry0:
  "entry_ok 2 143834195958255027531178710997992 143834195958255027531178710997993
     (2701360283249, 53245099089582268008, 57143816153914284424069360325855,
      35744397622804512640319317684716, 14200873948520329258736401995791)"
  using prime_p42 p107_pow0 by (simp only: entry_ok_def prod.case of_nat_numeral numeral_rules)

lemma p107_pow1_0: "pow_is 2 98 143834195958255027531178710997993 316912650057057350374175801344"
  by (simp add: pow_is_def)

lemma p107_pow1_1: "pow_is 2 1653916902 143834195958255027531178710997993 107807997200456434443636763407177"
  by (rule pow_is_step [OF p107_pow1_0, where ss =
     "[
      (True, 1396519472953924332384627432, 73557876393791280812944899668696),
      (False, 37618044467913880462439495466867, 16980952550789204565609527342485),
      (False, 2004757961839915724811350823201, 90905908776665465287133677139632),
      (True, 114908477715686593623198352232527, 105967887517824947951346683872537),
      (False, 78070399811248272973079923375074, 10904777943364859245807462589887),
      (True, 1653489717126922595243846340672, 22291184089799073828608923074242),
      (False, 3454650577457433396404869688675, 73201599753587835323103784045289),
      (False, 37254521922169743452902242561892, 91740149938814005595068812810765),
      (True, 117027179172868231986588647563539, 120330149441796336697556830793223),
      (True, 201333831196683949348182931406370, 43231105057163997056065028040048),
      (False, 12993630840095697985883836250535, 46853459731413961782983261666049),
      (False, 15262341991610643981136802829441, 10079355850140342075787926958488),
      (False, 706323094288675108041633379128, 12616006320060283166364659156040),
      (True, 2213154033467744139424004860450, 119901376690465596985707941886350),
      (False, 99950780386337122298116477140160, 105319987787691985113432176623620),
      (False, 77118655641659129803555018988116, 86162182691475667877307775053212),
      (True, 103228883461258025394873141507785, 77746757204764397132928734158383),
      (True, 84048973411175402749985506693767, 55799706181692437312876255739747),
      (True, 43294394482753834906469884540189, 42638671298921380999466284407341),
      (False, 12639944750448051126678222222336, 94827271091131883098650718918633),
      (False, 62517896267177135105334045662370, 74111055902171854702525448965279),
      (True, 76371944381416976229103418389778, 67797098256608107494488045380128),
      (True, 63913125823711628736715408512270, 19307269641528701638108948718658),
      (False, 2591669237813829751829840595459, 107807997200456434443636763407177)]"])
    (simp_all only: numeral_rules)

lemma p107_pow1_2: "pow_is 2 27748121122737926 143834195958255027531178710997993 108192114679076098908948081667945"
  by (rule pow_is_step [OF p107_pow1_1, where ss =
     "[
      (True, 161610584783980537043945348684071, 23337067659094542901626118149155),
      (False, 3786434257144393133635322851690, 95704212571067693679004200555855),
      (True, 127359092082753568099418836830974, 38898505622722932958392955326868),
      (True, 21039415969205995361138865591528, 83263892590692763714016279575544),
      (False, 48200469736463424853305407871288, 39321662209161549982096632570952),
      (True, 21499659501557681517176240780341, 76845778542618069799781423516995),
      (False, 41056117708858234651739967988236, 115048225041079582503307010219677),
      (False, 92023277197200033546045015073233, 83119494600026758484922386962960),
      (True, 96066868334551428234519227802969, 99259903168102636681842065481983),
      (False, 68499207099545433305254328501895, 32066270569042784291542055915554),
      (False, 7148826475906237300617090465626, 37901363157490398745097657638298),
      (False, 9987286539376836160248865673561, 141844257881704618678656532173731),
      (True, 279763700974848663036612715558750, 45489846113156938771852809331972),
      (True, 28773770877118534266708900815579, 142435649262719453227883070684621),
      (True, 282101402183672516286537267782948, 102117131438644738875879704203918),
      (True, 144999017289100509996621796038012, 18778260313869884880786369391532),
      (False, 2451594059856269742493511936027, 19115171978130094506565171913213),
      (False, 2540354171823903442131617313254, 69141495692229057856063157684147),
      (False, 33236508152386700045805579739955, 40200953853063240650512748207294),
      (False, 11235969860499414666605785642101, 89549692818396321644510767499143),
      (False, 55752718819358766786907551535668, 99683351990469163489486489820125),
      (True, 138169794711957366199114037668026, 93145146227551106795788823759432),
      (True, 120639159665062088310766750474463, 51751111746965063462978627172489),
      (False, 18619894589073605067736053649832, 108192114679076098908948081667945)]"])
    (simp_all only: numeral_rules)

lemma p107_pow1: "pow_is 2 29096013854396043811032 143834195958255027531178710997993 105128561925336841375622768913362"
  by (rule pow_is_step [OF p107_pow1_2, where ss =
     "[
      (False, 81382133092520284829971381013052, 99433703663990904130398961718389),
      (True, 137478592743103707931146322120462, 35754958418512097778591495277876),
      (False, 8888130134787723776474231442667, 123703846450993161661926723504045),
      (False, 106390844853140322258859685132925, 140128608501245316005671518142500),
      (True, 273036975521373812401212263979518, 111893218417842552544673121392626),
      (True, 174090622115157148462054604027095, 116854304281083051209947031731417),
      (False, 94935201869373344973097356296889, 81874859422156435390744833684112),
      (True, 93211389137857479482917488977264, 69220599907285423111282875825936),
      (True, 66625205773947058000188135994870, 83207699345626562010324712256282),
      (False, 48135432497579332943633531334484, 66824270856247663571274512772912),
      (False, 31046046774337079172275036030703, 60890903486200890375868761580665),
      (False, 25777612219850121438452765144341, 71036445875233645982924495534612),
      (True, 70166577689905538221427777571438, 47735345951353296229348547857154),
      (True, 31684582903452494014132124644211, 37144664827331292547872517890909),
      (False, 9592476364488595625572378944897, 109847534259388027997566400254560),
      (True, 167783199293851915913232554111003, 56481336274543398544544569370221),
      (True, 44358593950550202909152614349975, 70893276086855244707707898577507),
      (False, 34942014733309560967081428766818, 120099511482732785162050023338775),
      (False, 100281386928163507464823383894552, 111017009687887659131447422866489),
      (False, 85687387188631832598930499971463, 105128561925336841375622768913362)]"])
    (simp_all only: numeral_rules)

lemma p107_entry1:
  "entry_ok 2 143834195958255027531178710997992 143834195958255027531178710997993
     (4943433031, 29096013854396043811032, 105128561925336841375622768913362,
      126685776922556001739008375174505, 92594764795206999847262201697528)"
  using prime_p33 p107_pow1 by (simp only: entry_ok_def prod.case of_nat_numeral numeral_rules)

theorem prime_p107: "is_prime 143834195958255027531178710997993"
  by (rule certificate_sound [where N = 143834195958255027531178710997992 and a = 2, where es =
     "[(2701360283249, 53245099089582268008, 57143816153914284424069360325855,
        35744397622804512640319317684716, 14200873948520329258736401995791),
       (4943433031, 29096013854396043811032, 105128561925336841375622768913362,
        126685776922556001739008375174505, 92594764795206999847262201697528)]"])
    (simp_all add: p107_one p107_entry0 p107_entry1)

subsection \<open>1196707388443466949965095693175748557508643059665708723817761\<close>

lemma p200_one_0: "pow_is 2 190 1196707388443466949965095693175748557508643059665708723817761 1569275433846670190958947355801916604025588861116008628224"
  by (simp add: pow_is_def)

lemma p200_one_1: "pow_is 2 3198517276 1196707388443466949965095693175748557508643059665708723817761 458400646169502971049977470125186281772294645135319376950490"
  by (rule pow_is_step [OF p200_one_0, where ss =
     "[
      (True, 4115668393219735844169433363841047351849095958280273919, 1196707388443466949179298637363571410755845247453897981512993),
      (False, 1196707388443466948393501581551394264519027380620569178648530, 747942117777166843728184808234842848442901912290969437276719),
      (True, 934927647221458554660231010293553560553627390363588652709171, 860133435443741870287412529470069275728747652687675221423791),
      (False, 618220906725189469269077755556612291943988638860447276402563, 316706740496269462156860385852714369001891570506489935490238),
      (False, 83815944018055787449234176854083564643448735488172576945183, 740205717171848559965032316250118297408122087940122814501381),
      (True, 915686673325446661396461636718772212230061132807769989767885, 296834138223971611721484920157368018012348252474563871408837),
      (False, 73627443488730719573466668415526860566525559958292824535045, 647471914650761052872605648888064088597231394805641063758324),
      (True, 700622197723360275256430366101224139590875380445089485303970, 424564348276648070706812581360671019553207091794861788766782),
      (True, 301251396236516592268014744197390685970266685512102557416432, 440699782473772555494223384289723877558188427109889018422296),
      (False, 162292219591828251040078903387147716906052277318099017138719, 1079394763774184456649434623716560392210966280999968776923457),
      (False, 973582236822771182475704978843960129166421328635362533668365, 187044165616559950468531777354446163628696585038266966000084),
      (False, 29234815652554852502984299694574821181869422834348869181516, 215651276602370242254601757597903578929889926547675474301380),
      (False, 38861189919384324658781325340820044109723025017112018655154, 646659183700761657280825164085929228222523022256603270514206),
      (False, 349432203647073813728311078926567195409328229335025109955499, 952295105194786114136321925658353472732037560487311551992697),
      (False, 757800926220979497816872078514079617747922860425488217354643, 197191785545052468460982785137837143000640120531708502119486),
      (False, 32492989231914390768440060484705018352373468276140340970761, 657390701836472719955130263233727869799837493761133427418075),
      (False, 361126319628689874570399818161077719378952603843490119866707, 1180559256256950702092454741110836511355537184273063357522598),
      (False, 1164629023763902855121765770856518937808147408067885094875549, 230358388126745952252540365743627701431735849825971629843815),
      (False, 44342491316422040114418887842287929696990306725053922395195, 1151227336600776936095666907584721015505451579956543491695830),
      (True, 2214951446503127427092456902148736327942100288652197636429762, 403530639280410127284279149646748589811711837860760114174918),
      (True, 272141675418007125048041401686090403003512675760768830260569, 1043282544891271917491793476988507543080751959516897700447439),
      (True, 1819055316254909503890987575044532760133760025650980047456925, 833970611166693849873414378179900792562426729726516405872517),
      (False, 581183827396921732199400996348611219984640492782319888746374, 415183592964971072459799326310893304511964626453082530366675),
      (False, 144043078142527881246457141022644657324594677324850306623535, 458400646169502971049977470125186281772294645135319376950490)]"])
    (simp_all only: numeral_rules)

lemma p200_one_2: "pow_is 2 53662215221503762 1196707388443466949965095693175748557508643059665708723817761 636436615261372654957245718602423683914441878447278321642631"
  by (rule pow_is_step [OF p200_one_1, where ss =
     "[
      (False, 175591088045283309163204424529428145326771556901980060551378, 531116004899337698540570826604414981898020226163725061815442),
      (False, 235716945833462700387209558656159307973182698684542354766919, 1129608562878675678896290213664562714046270764653337882207005),
      (True, 2132543874386059395091706847709789106152295711773580644604643, 310913658804077679391355415086894998895924862868225915675727),
      (False, 80777727424806520432198714300373755402153672365477851582672, 21194384232725265568641899138852441422497504971751063541137),
      (False, 375364878116664076670830965315446694774178653334345390520, 959826054264549110535011638779667998760865053526123234227049),
      (False, 769834015684757543138812196933419392023521552188691328714361, 742895799042921086350123307509339817076641438361632695682680),
      (True, 922354409382326537654949482251818140925747889132350933363048, 1073922238688014219155721114175074699031063238472736900469272),
      (True, 1927470300402777319299827598888971027994255848838622355576412, 662792485963323100887467236326633202698885078945027234166436),
      (False, 367085457724818175355365512678866397098550330270557256623035, 810431188978267229310005984588507056186298929766496134217461),
      (True, 1097676371703550131864476946902645766812370746555332208376869, 731543083510322677745250408524979482556782258588494910802733),
      (True, 894379508641384042096919712957606316200354452802557824387897, 42003389572083270647136472413322347278583768682090078499961),
      (False, 1474282479227410007096253895449345374301742963161367703890, 426076310237832104889440538397076475548090281101976506211231),
      (False, 151700427271542193878143781451132831512252646611302527756303, 449397277901467201552808865741424831811995168342990799437778),
      (True, 337522631406046730666647620875254730375152604574488162641359, 1053881689822952932897563948190083213783747533685157469777369),
      (True, 1856204159629538740450578161490718600310795040373983388336330, 114005442190687064961940632516798169769788830260848953567192),
      (True, 21721668930279336006518891357582636940142100956406858153942, 207796834694515383693284190258940000192796745081076425765866),
      (False, 36081940268809140396181315522297930334604325868299250778555, 113371691672178872130718730234923394505283528111753463814601),
      (False, 10740420420842735486074553855149766190525133762678639481923, 836435725711691090548241358232787559203076970146274394954798),
      (False, 584624721133234610020533982669645769995354569291166643953782, 991160674495905688022462523679945369287459592622429788498702),
      (True, 1641837415151193823480664526827213665228839360463858038901871, 363987977601293268557323471798404254167773090929566945438777),
      (False, 110709810198968562157149581046380115796135249510635561849911, 860458598232606287230966752435972536389783930598877457186458),
      (False, 618688416585637305822018116706673825439439710843742989987580, 705470020778882661792088825400029110773774654055893805177384),
      (True, 831762141729716846280952170810444499079479070350182066038914, 942363330446207335839853218285582851107768130373134539815358),
      (False, 742076680686942729662152894261906813560805317568185952012253, 636436615261372654957245718602423683914441878447278321642631)]"])
    (simp_all only: numeral_rules)

lemma p200_one_3: "pow_is 2 900302575809656467396259 1196707388443466949965095693175748557508643059665708723817761 532398990195338014781727536710343341831970746303736709418331"
  by (rule pow_is_step [OF p200_one_2, where ss =
     "[
      (False, 338471684186887860327567614720220481559213093884500826349420, 522172068240236447969877331840098744364868104450571088553541),
      (True, 455689789305862410622420432507325264363680180893511169514771, 101546337092376402504726098966744587585129639451562245629631),
      (True, 17233383325711233324820539763262465019324800180783785822206, 1137392634678941637848149105621120388681201388211538559391556),
      (True, 2162035628616857371821338672938849554188474732764442151371621, 244367174124149982973288672046004398973372025237840057041691),
      (False, 49899680043835225394965806674431279479873922688959277407400, 68617557305002387483872448077346437938031615796232359308081),
      (False, 3934436451194110933996604930651488825834169068086673364848, 187820709186155046769766063697187267810870592302614456437233),
      (True, 58956131030616949723652627638911951586781490542789823664936, 220079797119721167101240554165196873505760981904716547664282),
      (False, 40473650925859331946213862375486600878028127032070241649384, 365313184693086450526951240281366606774548619414731704666300),
      (True, 223034844105350842061011206383778356618643097829878290956890, 38961598901391063503744002983520753743700327379346044056710),
      (False, 1268485682976619051049518116888310155638626567903880993301, 1154963879731999394363107394169565186744778466338424110205039),
      (False, 1114676466751511513611706226759989242708355292030436040361360, 955895235021099547167873177094545816060819941551277394876561),
      (True, 1527082909589988656554450044410462593200036455995710715699694, 216562922672923151288055237604700687133574065793772794908308),
      (False, 39190448667355284651529603692622310103906532772233141738808, 1004672356117835447232689266522098589688675340775326474053976),
      (True, 1686906177558116989042197264040971822004837661421243357016413, 245185314792399488606942572155178371930704807661900624905859),
      (True, 100468734747329478006593550763319499361216881485055109132805, 1025318675291216664914882485967581868218602364898007658306157),
      (False, 878475721010055673264534086640979468891679959491478175960904, 925663845056145900141679598889834514830066454240776787292705),
      (True, 1432018490599645313555123374704973358335565156798166061582222, 386213361525292683638718780596923628746386909572118646989108),
      (False, 124642633663920806681787831503520565325520726789867457681672, 190731994408506167471876426449440352295839412366707792859272),
      (True, 60797976251092520851444742234570358227392349565215150926690, 24543817515321154915445887406094896654738524507312561798878),
      (False, 503380345139268885479056318257907316173764061394843326093, 984498172571959624353045042240370247662250588657768893921111),
      (False, 809919501757396572897479468053286661243279640551928631388565, 287042772646954054015011609249437667542790197742963252171356),
      (False, 68850208601133966132042793215115335167621162516987691445079, 582706684460301130821632866954812655891654964988780850630617),
      (True, 567468845590330906020688748235515523569053877452997189446505, 393571638916922964445602285206531099715431107698931077226073),
      (True, 258874703132277484366120214942788438717639456261277028260007, 532398990195338014781727536710343341831970746303736709418331)]"])
    (simp_all only: numeral_rules)

lemma p200_one_4: "pow_is 2 15104570779714981439304007905711 1196707388443466949965095693175748557508643059665708723817761 713207255628514545155248057996640355368403909171296242588139"
  by (rule pow_is_step [OF p200_one_3, where ss =
     "[
      (True, 473714272174238990955286187678996701773152322184917617407600, 319138352566762674247169975964470098042940978904977061267522),
      (True, 170215859052229335890318542342981892172509586257364280943353, 519350160106952592138526430875054648807890016302677767748335),
      (False, 225388922478319949741277773337002318698875350833654201058984, 255902337699996320017490878954029776534760137643666267457401),
      (False, 54721820114689255344470702451242123372831655898817155565748, 540634550666604570553920244716586110952765645418020944024573),
      (False, 244241591718299269636623272123943292364595385795254048775102, 933643397035625143242550335638375232006161381580519305645707),
      (True, 1456813923346811584797860558816137905605750356962106551002596, 487016855637733210299217298654013881860321489798229073152142),
      (True, 396396679699231967912620256360458495898401742076561254695775, 790827730341112233008870285193356962243895609391597161716553),
      (True, 1045215405396520677256429618436355239725346623551505137272797, 170372919386040405911071045974162308617942089538981457656101),
      (False, 24255663448252763418452918693736404680043192560458577400723, 206340363383569838183293197893334843406188151260948260880998),
      (True, 71155816321384692616519981337959032132475758692049856875617, 976326231395035922463546861113925695641563254636290682518471),
      (True, 1593059288035077553885207418498928225120032673695134563763520, 531222385029840677567866627827528642218340717404103732476962),
      (True, 471622762727053111091493578723504683069313552129497929274010, 595287572819485771796887206549284764917022934275013447807278),
      (False, 296118581514093377739338813583876608686305502787290332844981, 1002873722693838693037164241501189650101691956832239322261743),
      (False, 840435776850984878341331729191149226242004190419652893839305, 925492648012942018340878242524655029368340522248908562501944),
      (False, 715744424909156149189504708680010224522168223012585219176448, 627647556893042264201608667447585188731556265151566148486208),
      (True, 658375571970348398054025471860366345191546872839826606640931, 1114551595745539755417418188839801354734129710562005525063037),
      (True, 2076071847763330508511265021739346731573697010775765310827205, 292647725065137853693591726119122482381252267488569066338733),
      (False, 71565273025676082014588485107327189459117561909053077394919, 155396338828603533905222539299798717470845201439179512688930),
      (True, 40357438007870908809274753140352470559798123599801462190209, 525040664971959748840861403323029017660620486993742654587751),
      (False, 230355141562845259824209527045749295304184842851044259235074, 325056437732026922529099331808976933960323141319780923888687),
      (True, 176587340784228151312486468446369861865416678180878906264075, 140047269667134066425292227574190938777711679671760291931863),
      (True, 32778669089240788345598504540212247952726437519632167623331, 80505146062361249354034385362962235107324401057901133519647),
      (True, 10831517554098043130426778811459921255647663708759984351562, 512902899810947875294459513780874917257225032383141626316536),
      (True, 439655319545821893451896036721522833904001885629567183369973, 713207255628514545155248057996640355368403909171296242588139)]"])
    (simp_all only: numeral_rules)

lemma p200_one_5: "pow_is 2 253412646558566662043194230299835822677 1196707388443466949965095693175748557508643059665708723817761 91845961046050583836933570865778056430728939151653068895382"
  by (rule pow_is_step [OF p200_one_4, where ss =
     "[
      (True, 850106875570923007828258505200090471237281210167356406600917, 394202047228739744373001099880036612559474097361469003479805),
      (True, 259704678921468042361622732175936329849741419490121496812828, 707308691385710924075822875956212412651335077015144286637942),
      (True, 836103444736775931941267936974690603038072114547666685266265, 233621843321792821961377768751934328732354182652871966858063),
      (False, 45607778646760364843644200930877291590196907558935596494456, 648145073345269190392232232008895084629163273399595397278953),
      (False, 351039895097622466376090884400541420990089299222892791634891, 615312024515282783381916621169468882371034312876602163677158),
      (False, 316375490925601177128515851914517616940849686442134751399607, 876615389905478720672858378297255765015593492509332895937037),
      (False, 642140718140503614911623290436944748835672590010562706776300, 217751981361266683384308237255892532067189214672421274475069),
      (False, 39621987667704104673270428318170863051604450791643751489484, 1058929779635960719722693968196591283111527832953230778629437),
      (True, 1874029172090862582082326771131870745267462667643401853316197, 546769102085560460390963912358190357252586983690584188299021),
      (True, 499631662480661432105278981891420294456428573174808864961265, 119593823914191510807998531000972897209431724346264435089217),
      (True, 23903391683779699699123837522400081379742734938110478890274, 670062018471920021090746694024858198656186888221417607989664),
      (True, 750364062149974554270088165953973897590928302257493830906390, 113817173221052338138665376593947171432575785806319251273002),
      (False, 10824992847149120225462240432425487225942112224383601918857, 902307475733879795268210904211595911474892764735619156672827),
      (False, 680332375840184210433050791983637041019626320520387833596283, 383352789953793353295193501778256851183298809267534581189566),
      (True, 245606174048117593290255052143791592552275153476168677597646, 1167083755458905177207419691928850794732655062163172267946106),
      (False, 1138193434259395087195395456348196572737900353120055497818073, 883208962866527986339962577398594290179189104444477736368683),
      (False, 651836931584732453866090574928334794944719517223844731801864, 566911408884232429848182353452405371853442931602236607047985),
      (True, 537121352515636987795110531348743069587354060687987097626004, 382384253883710595404679812477349689217183889720977554463406),
      (False, 122183349940192534376211874384864341985514565020946449013517, 852765007193874608027719610049910617356313131364092059445399),
      (True, 1215348320762411145914133648074783325074936723924086464030326, 351607167127842317647698132702492398055828127292697323118316),
      (False, 103306456673979721453073419171531470734470009811405190022647, 434225076200212023532325085098999813087372785686902243842489),
      (True, 315116992878810492397312277964008380392572833404760139305102, 445487046345357006980246851350607154263376122818547857913620),
      (False, 165837288528519475719247818562985195450148046317218174461349, 59603178028913964555389766499579275175894194328846367284811),
      (True, 5937188765529604729721897275512026149232438799904014186460, 91845961046050583836933570865778056430728939151653068895382)]"])
    (simp_all only: numeral_rules)

lemma p200_one_6: "pow_is 2 4251558708444729539497670931694090361605173667 1196707388443466949965095693175748557508643059665708723817761 739070705068445371182048015350505410711675970010884756206046"
  by (rule pow_is_step [OF p200_one_5, where ss =
     "[
      (True, 14098150712422290666189221190914357384453097153990369458921, 671841213874227596651942030185967204105381687140544342155967),
      (True, 754354190537896222420731126886135585840087114977183511463771, 81184320645825868158737545751327249964629874626910949573447),
      (True, 11015046756412042327008826007828944349032806638608534432766, 437367830896094599301698582813971910455797946677598403766692),
      (False, 159847445875271676908520040967953575698498767268860828418316, 93510903354466063806254633593027667378376158805094910112388),
      (True, 14613913360294051684974277465917170676430995751506202692167, 370933487401733862977961232658669543141902582107513091947001),
      (False, 114975183912731522562243795257594547472097780560542611998340, 411649834161314443971317916615859321802981639004826798377261),
      (True, 283203041280534134585712462421039012002777672404113542156641, 654165187622313611795345583808861178334744482018418763823441),
      (True, 715182502973495252160572556190586940999635938439837007079388, 892682309413953007031306125891627428530598462502002270750694),
      (True, 1331790399618266617042063330885911064998463683163796975407106, 583105022702974531757032028468790327136493727450637074553606),
      (False, 284122477044018646765621910424061577143540200172509756371711, 2224166315872930425015347860600031610064882658268827844165),
      (True, 8267544511608835734781356815700070958781186288747699293, 761965371386784766964161040561203074405017648673162888551477),
      (True, 970314435758208332206261537715601253419936233638523573454706, 599774153969005085625104552062395783411078264782998225929792),
      (False, 300598992905966834692393010415602953978835468170293479231331, 106486495423511109317646983032773171725929124849632907693373),
      (False, 9475477311400530441287405974163151760461264418571648797796, 743629719416601289111830625104310892459070654854264345662373),
      (False, 462088865615570195210264276648871864812303805558216037058213, 612251207052761406570362443843819652350955043341847347670036),
      (True, 626471506999092103022540715467209065611064900944739698992876, 881549422304503068659069268770711879084091161785830403211956),
      (True, 1298779286348686347447421268126459675996376078433253346844126, 765373935574351330208608859762166133212348025804003225369986),
      (False, 489507516134337507334992398445810706140857497354855980933409, 1161928809274153513864807180456375831379292013064295797162947),
      (True, 2256321922733797164732290043538237612094636756360404137735116, 117637579878374959984466641115026463576861437014292865254342),
      (False, 11563896348664343185016715048478912929062629315098595003497, 413486980287634076202863702617066660814328547266251364142747),
      (False, 142868243748177601130747886274461440037442766409424686280185, 936714637780218061495826774302918013652449181545503267340224),
      (False, 733207065574305642254010296241875311709485952985396869388349, 821021549768546686637528965686560990384704350162963155703587),
      (True, 1126551722992374399192580993549560586362167724670954549716241, 127342773957670190886164647576694720104849040808337263376737),
      (True, 27101331930984975025802179710758607778240236969903210529572, 739070705068445371182048015350505410711675970010884756206046)]"])
    (simp_all only: numeral_rules)

lemma p200_one_7: "pow_is 2 71329318788258251545732956717952999920168105343920512 1196707388443466949965095693175748557508643059665708723817761 21873013362930878232220725312573710982985570664784833330912"
  by (rule pow_is_step [OF p200_one_6, where ss =
     "[
      (True, 912880646288702889708879071518601614614894598582237608058171, 1150272248029281639120918180948252614205734532379095122933101),
      (True, 2211277806694752193648410743151813744334053229468390979621674, 1085347027114421451459693986997300997073685523421925941200488),
      (True, 1968698748987060283010476497186835188850469994775609542146728, 411548553369138412048264522696660653774248969104013428440280),
      (False, 141531850990349087345168717347078694669018578671559534809712, 1079141064427596178731195663975306819798599852628090225583568),
      (False, 973124631952532638890649061725471026326048613248865121402854, 271226965615876685692684269470550578617259764242747190320730),
      (True, 122944117480346210632896462599520472023515659070894742008663, 805914960080379383321990117613997155886380504969413440202257),
      (True, 1085476582084363300409822149190659875777764919272926299882298, 428753058032479685510956030259761318454092772680814633893320),
      (True, 307224951642198496803274383358019579906519244730502204082526, 160843420883044597138282328524027025957173192708415252700514),
      (False, 21618155190810344914419531318173946874731693276712777179815, 690759428510075252572129096518966050273686208005764188169981),
      (False, 398717842543099247698706538930387930386774176147505485498261, 509178447262829747302690695838538969956841853366552503126740),
      (True, 433293374237797633829585762811173613489106967826206590347039, 282342304619980494399787039013992021790030898487903024095521),
      (False, 66613758507673605605797675945712128530805435484733821949272, 150429952306254769582238603915685107472502031896649417641449),
      (True, 37819053796091938977963470633668635017333911985112939974231, 9293503681609144316336376006394082720952667351540565522411),
      (False, 72172371888186803790865305665354229588554551659067991741, 137938451049553356698052607581468837196029500194720606141020),
      (False, 15899472554187270491185485576250038767444448283014757819943, 954615718785977659704814185763124077859419454285903743232777),
      (True, 1522997483517782470830420008621314566593612318916373308422853, 616381153742158044442805596981443157479865897392729714571325),
      (True, 634951752378959681551355316095466731965990343356079031396560, 176702399978912595194123532883401494167900317399070262209090),
      (False, 26091372427239455274252547753077646620174605073579720404867, 637358083616308982218870773657128197785445542166914033185313),
      (False, 339452510006997586108692548158556952438223573433449621008063, 294007239006433516050066666178485735157618139981470275301026),
      (False, 72231739707579821745976257047123767374692235299449938982939, 470635726883547695050646317317783058186836825045065392473097),
      (False, 185089512739871391958812836900332327844056842926479365094133, 649601005002937251597428677160405367011368890521440966475196),
      (False, 352618751898648214724877553648607388631563772710808558034423, 205165127471499866574768981682545735285801178836185866451513),
      (False, 35173785953762639977336672101792359530940248769341953180395, 204701457066606295867369036068768254920213678144974041993574),
      (False, 35014981047032421074407488195455250498219386103577257728324, 21873013362930878232220725312573710982985570664784833330912)]"])
    (simp_all only: numeral_rules)

lemma p200_one: "pow_is 2 1196707388443466949965095693175748557508643059665708723817760 1196707388443466949965095693175748557508643059665708723817761 1"
  by (rule pow_is_step [OF p200_one_7, where ss =
     "[
      (False, 399787548898845940879401925296167096517575339646535292307, 839774579543069765028287628582259004749651234631383761487117),
      (True, 1178602808434243428511578897480658913331389015591247680471506, 1005983406304388641227263128245559888674849586704925816725312),
      (True, 1691311716686352162759636092351795566069350519661495059005356, 13411410075068780364707689119860379338320851273002856066772),
      (False, 150300668265785796288463130579727836955188997010834965629, 128181658694303478513780409626516073450655930421512027763315),
      (True, 27459574135317696809639706748214535655015904657869014039053, 802673808160586229022516652305469854886100825603174410558117),
      (True, 1076763206325693940610265192877592186271101121456509375782013, 802173952744094563071878563337133948185419829205118595438485),
      (False, 537711270670811367991320666110490724214908220678378579723727, 1095769876211271616013209652080064077740003286339745343379978),
      (True, 2006692083975192625796798755560983498412313131448977654724449, 211090356551876830468923195099699641868809104045484835422279),
      (False, 37234781918707511445677320911342734589196960761341859594070, 744979268306398207627812719608633405673503324487940133276571),
      (True, 927535194594571763599693941990046205779508231613886187323626, 1035415480091677836138400765658566342481176644705627201314696),
      (False, 895862452899132859581029282571475140232481086356158682335885, 648973254102690927794040038381897265468420560175740294918931),
      (False, 351937565195814742081771001821295138250985331208670554028187, 1194999243050620070177874678833617095334112539330348016953454),
      (True, 2386587071629858936490471758619305239022311491585693545154148, 78854679989799305065516136793646455639705732020395399837604),
      (True, 10391948134257548611012721942238868547471101177623629544635, 466862688966956498378184142621255731475246219760267989659397),
      (False, 182133721621752767975246883122406956169614802937485245234554, 26763318630953272008785126635419463418878543333277274290015),
      (True, 1197076630526323049353917100603995775560865547368776678834, 969808240218277082311474059910233098874091917185190015429776),
      (False, 785929820336947335528486595046182244961898071499915073115963, 296235622989675234606102298800476975338424926263206355391333),
      (False, 73330828551349432720679467703582757175296794625390677365631, 787235836811632153251932148882640417142071042367383162744698),
      (True, 1035742352299828835144180199178686845897403331678938861942759, 661287869723304931441662525518086639173521989397341524679809),
      (False, 365420695874516246882292746270112949797049988491057343546500, 719057571042126207142396048764740310833401028914204542889981),
      (False, 432055317336605365365068684481983868020569767517132158649310, 124887536427116262913118795643006616028591082033659121785451),
      (False, 13033174947737942068666027438242623095434427159734095497081, 1196707388443466949965095693175748557508643059665708723817760),
      (False, 1196707388443466949965095693175748557508643059665708723817759, 1), (False, 0, 1)]"])
    (simp_all only: numeral_rules)

lemma p200_pow0_0: "pow_is 2 107 1196707388443466949965095693175748557508643059665708723817761 162259276829213363391578010288128"
  by (simp add: pow_is_def)

lemma p200_pow0_1: "pow_is 2 1804122784 1196707388443466949965095693175748557508643059665708723817761 585757381840818245544493794655766211370259595174491917368847"
  by (rule pow_is_step [OF p200_pow0_0, where ss =
     "[
      (True, 44000, 1020742766047550494803342102279629067253074983371779174004768),
      (False, 870652094655823228096412000886171140597267674587606810199039, 1196265024027498880734325191566692701073359113000970913402145),
      (False, 1195822823132102677693967624632545300045476383237619189632288, 1196707388443466949933875008790956906339255428474597377133857),
      (False, 1196707388443466949902654324406165255170682308117853474504396, 910240587122640987425774604435420847214664365996993598319093),
      (True, 1384695932266337336138883307894294445535641344869675383179934, 1058332159176909845755720765358236266555300959767481208677524),
      (False, 935957252344625728215469494918601651372680940678472583371424, 662739274820875417994152764751323490491221259016415071708912),
      (False, 367026518455266445726960127256078013026758429918843759325406, 112768466333750813920505398460621873765576771761941818887778),
      (False, 10626429753898887389122898284116423385203530365013559914197, 305027034828670487689843811954651628855928080563179533124367),
      (True, 155495809376405943229914413886519582768228286138915454737921, 752470141995046023747342662156009575442941669644186558286497),
      (False, 473140986729015109316956103934660853104946275138061821942672, 538038931993601152673355098433512042080766654266795215133617),
      (True, 483803969351845316262036899433299759451260552328499091768685, 602119133027617093520106142688451232259438346106483220391093),
      (True, 605908267733664403663117992876843095470898981057073085120300, 1108368182414949060765739617810082916006399409810605785820998),
      (True, 2053100097238769244284943326170021402826544620198849416048469, 885396979600550074012617079704559351377561659063029496374099),
      (False, 655070587059227488151560766616176333448659694035573609184148, 554873376552611885312254494833472515966528217611845116009173),
      (True, 514552624944274313374532711949091049307158056450368497575980, 88946774332469187182544251721258757276382256698776669307078),
      (False, 6611080319677447995978322948967326944961490526766519802001, 522858984918816134841151245819392873328751567030466133758323),
      (True, 456889496547550523826816381956360214328106456852540051070647, 856070289987460230939967996280952198696624965854792579183291),
      (False, 612393930610243532601794920675439170956531950445563257850844, 1150706106667917961985044748381685779216726737475212997550397),
      (True, 2212946216777519445174656409230207769900538135592165023673861, 906723074933270425641152267751802700855144049013531046469997),
      (False, 687007319045464182353215571177232260537758108078070182032776, 922062385379848951084265496004983868156107047613040268245473),
      (False, 710448561396628252509497189821446061706269639893539273636071, 447105518279571296421246631691558108833814157529378544936698),
      (False, 167044464174366209938453453122196546661431879853700353822378, 360187048576921391580616549708406130392863380301447391487546),
      (False, 108409717542812899781728585049174243411975376726327441651548, 615646474294435528872146005569440520484251466535557057558088),
      (False, 316719513033301696294288587045080200664849647708111473391377, 585757381840818245544493794655766211370259595174491917368847)]"])
    (simp_all only: numeral_rules)

lemma p200_pow0_2: "pow_is 2 30268157641114401 1196707388443466949965095693175748557508643059665708723817761 1050418236268249263882176138794743165183370010203009058583872"
  by (rule pow_is_step [OF p200_pow0_1, where ss =
     "[
      (False, 286713121097454405615509825050147327443134031281383255921985, 249966383602661391369418317234510827195620769454634272733824),
      (False, 52212590592144240536975880827900290584231841224199042766168, 842666758806309055394568443714680697258928582744275785353128),
      (True, 1186734991785629999551549491446708149596474236629326760123340, 844492460675217233722050192092771297913595284053291276127028),
      (True, 1191882866311848985120648009451723483507130350633809265524416, 1105078229004838284897627238594841078160295276889397904272992),
      (False, 1020464905634832888960036724032247978567822719756387459997187, 952889144322727932817299983214387921126803097134255099993757),
      (True, 1517493298924334143018198616946118006902154043885091854802771, 673964888414486693202990547922421194003213923682096076134367),
      (False, 379565360088866441547258273157431067912282237679008912845905, 604180865586914994611153794370533065186395097461998743371984),
      (False, 305032392936210450352603520836154387588486680653043294201273, 1077771944509576147353133417121720932794084125238856889886503),
      (False, 970656967266503247677164036251962496058879679722634657830448, 476106690010335705163836970014929891789886060090104232582081),
      (True, 378835432055672075373914902467658622827246519649016832802556, 747992390840575893247386405056248806924237853774439365584006),
      (False, 467526667051936190081157691889417815732589419830012776641392, 747921521979020386814687147099284563812065029321431985644724),
      (False, 467438079217507877759711989996797180778835298639439771824157, 821107079511701714508672093096268946831746081211341743583699),
      (False, 563393225892234372988953765561590334336342289943114053101351, 1109911690323912543645108089393340055994075901522472431627490),
      (False, 1029411176210750445362369168995129848974872858441926909702278, 543047049099110154008896471434505888080549751823674085140542),
      (True, 492852472347182439193691161537752208237292942455366672399151, 1134150997473997512654040507858504882249946635399173808986617),
      (True, 2149729328143157679123133673674336080639615152795033410439731, 985470267584229809434836601093490807965948831880428852347087),
      (False, 811519722925493734451024638226794649839912208799901115670486, 106786398642922848969574618663679374734779438261927527083723),
      (False, 9528924986380606835454049386007624916368690804521970044659, 661153283385324042481936968383826846098582790559086904152230),
      (True, 730543938062841732110863690351179658491011444457432454502048, 634970802307196615086307310074282687191814749233239274671272),
      (False, 336914373284736984243019844060096619798880476185157065625437, 966925157340845482989344658012612352608941266975593788111427),
      (False, 781263881987627607558195997544994223826270137081427381373386, 59643483171523928026346362543580980313425838004978008467583),
      (False, 2972610614077368291159010435876785725729840303122905632053, 255350455879103138612108284161619530167060798727117069568556),
      (False, 54486047255440723872139907811124705495576913081782341769243, 981961665912524576698779581056320382174037179578093737000213),
      (True, 1611502899762120284162733516438797341819012616268231061752306, 1050418236268249263882176138794743165183370010203009058583872)]"])
    (simp_all only: numeral_rules)

lemma p200_pow0_3: "pow_is 2 507815418667026791419813 1196707388443466949965095693175748557508643059665708723817761 850111100824656925658792552197510717218653088297869691753277"
  by (rule pow_is_step [OF p200_pow0_2, where ss =
     "[
      (False, 922011915143301280749433432559532627739804951146436560969788, 568486302097671550694266905646309271786264887654170119707716),
      (True, 540109769177634032200593008642319508109716620932063466675274, 401107847108267695966753109539163733325280642099967599131798),
      (False, 134441808052252916570735082036279824463256551949064999745651, 1079521074854508737904992846481935079803195306864972698405393),
      (False, 973810107891789215986186784941200707597748770640578929268782, 343460193854518774185271038236679408221261046303321817047347),
      (True, 197149120832316707124551910037687449613997664531586879185041, 816757189537867627857104717027211501644442393547560598163617),
      (True, 1114879565554399509727477698493376089100884254540295842200011, 998962323693705464435647722442172626806480565395896128850007),
      (True, 1667785682275279241586911997541785268641260433581786414644620, 227650586045872470980946637313389736233861988970490148704278),
      (False, 43306149713370316114523009914995315303402050081428533350218, 750343726225933502589578477687162183682435542009989673879386),
      (False, 470470653832029707892687715412833683754122317943501608179245, 706824260590046911807787069452356340988974938124274473166551),
      (True, 834958554084782306520166102084413484813467505746093841682932, 862750133407058522450960261527073172509836671330381658315950),
      (False, 621988131670217530457926640994803144268779501550130909872020, 1064621685685307254961277535917837685754786450003171711455280),
      (False, 947114845764962405823131699413300176373624497486201662466271, 42289896710724062187924944068169916182372854498693426639169),
      (True, 2988926751977175458357327742928036147540226967077312417971, 51480034423414811267906174960156451482169383839687784638191),
      (True, 4429142779310533879616198526536407492480731321072913193595, 44032826463211149582656966362518686174800843173254259064167),
      (True, 3240374088207381752053084111000135362755515450023261137143, 748076574720294582663141960550144881904736604519708086610955),
      (True, 935263819793296349348536553164221361642866263919726287605480, 910509135586451968077368165964837607121520965700194467093770),
      (True, 1385513107033936583056790822466015869698341777178045579999498, 567903426681278138069015348416929794469121119232932922141822),
      (False, 269501387850396470786519421886054665753220633709495140516326, 964163224518326729807199466491933357455203190712032412213598),
      (True, 1553614078914818347493384541460697565960050237684440443348814, 643137873547416508213803172176508556472083525771746860725754),
      (False, 345636977247285224147108617352798753986444014455734397415927, 762628647489096352102761052954442710496208796262195131989069),
      (False, 486002225429164362412562781925406414525613678357333520869717, 413349042380108039418736725518619184516105865743223003843124),
      (True, 285545877775156297938591755685735166651415851643330971351525, 351894774433632038541897076178740866381196782353831234723227),
      (False, 103475530835286189890400751687863046439877776083502495535845, 78385225296119295058999438156208021806108634700339470150484),
      (True, 10268581282371914322781273623100494794496567448639728917635, 850111100824656925658792552197510717218653088297869691753277)]"])
    (simp_all only: numeral_rules)

lemma p200_pow0: "pow_is 2 8320047819440566950622220320 1196707388443466949965095693175748557508643059665708723817761 463246276197945412138244376287035070493721177486822087454631"
  by (rule pow_is_step [OF p200_pow0_3, where ss =
     "[
      (False, 603897737010963724029263033283020567524470333394347457863938, 107383368729241485740011824705345901937597808810800794435911),
      (True, 19271524502975820324274427957831992144881627184702890622242, 1042326464355667752876982981117224400081751151594278271559680),
      (False, 907861411058306750926189863278911334872643256833392608729350, 932161237813224546974019614913007812347683484552512629717050),
      (False, 726096104755963405179382014158691459302126511324055259258965, 992253228496289874431919551894696150787777724733444495225135),
      (False, 822729498429784159391274648999071171464604231937390641307968, 684595313540076810406372286978189477297676790142582826548577),
      (False, 391633533683306337817544013198798378546880230455036914522935, 71462660409931434755377358895196296381802011938858945876394),
      (False, 4267469125855100128455158828913514313119275687514231634399, 506023495518885595661406991412076969838331101431518671682597),
      (False, 213970249110104847749629116873890076333857886423953257444683, 297476519565639752387980258672810922492018881339172082249646),
      (True, 147892927790788632805449601828433369164455322380468851393163, 873343621902722270703718282928067791324926614362411560882589),
      (False, 637356374067541586760737292059720238964141190181747674924281, 974324151224591874644967700555821921802486789126839725388080),
      (False, 793266224330967381982915597191418657885562881582742643405876, 974446927663672293521231394209909645953286724256636025522764),
      (False, 793466158898063196353416960392336876316097487762742758102520, 1126414323802976800662044837779435199596993438002328847341976),
      (False, 1060250184064487076537250164010897684065193572834615249473266, 286314451037504001962539921152093312125238242096156466107150),
      (False, 68501260763110815930252444730974769091906494754082245704829, 463246276197945412138244376287035070493721177486822087454631)]"])
    (simp_all only: numeral_rules)

lemma p200_entry0:
  "entry_ok 2 1196707388443466949965095693175748557508643059665708723817760 1196707388443466949965095693175748557508643059665708723817761
     (143834195958255027531178710997993, 8320047819440566950622220320, 463246276197945412138244376287035070493721177486822087454631,
      811476141207164185410332189258762424765692858637358894478964, 314122988015173655144596512033601780153315045229131446568279)"
  using prime_p107 p200_pow0 by (simp only: entry_ok_def prod.case of_nat_numeral numeral_rules)

theorem prime_p200: "is_prime 1196707388443466949965095693175748557508643059665708723817761"
  by (rule certificate_sound [where N = 1196707388443466949965095693175748557508643059665708723817760 and a = 2, where es =
     "[(143834195958255027531178710997993, 8320047819440566950622220320, 463246276197945412138244376287035070493721177486822087454631,
        811476141207164185410332189258762424765692858637358894478964, 314122988015173655144596512033601780153315045229131446568279)]"])
    (simp_all add: p200_one p200_entry0)

subsection \<open>115792089237316195423570985008687907853269984665640564039457584007913129658411\<close>

lemma vssq_one_0: "pow_is 2 256 115792089237316195423570985008687907853269984665640564039457584007913129658411 115792089237316195423570985008687907853269984665640564039457584007913129639936"
  by (simp add: pow_is_def)

lemma vssq_one_1: "pow_is 2 4294967296 115792089237316195423570985008687907853269984665640564039457584007913129658411 13043912310703679280448163637500637355014073269026439560559281756714832837261"
  by (rule pow_is_step [OF vssq_one_0, where ss =
     "[
      (False, 115792089237316195423570985008687907853269984665640564039457584007913129621461, 341325625),
      (False, 0, 116503182281640625), (False, 0, 13572991481749182065258941650390625),
      (False, 0, 184226097763635856940516475926561720000306613766588270664215087890625),
      (False, 293105127653911855204345428810908966882497612996303079710848, 56739476654940750139692073117156567659865722451772050579584460563573071748097),
      (False, 27803006511770097266173746992363034524455431151222593478309972076718090906983, 72421285290331307302066296563187583382016235481134267785660768970519458537396),
      (False, 45295344419895896145835547389020454717837600345754411555792733254043453455012, 62379509580577182891066360623076746838133442248672759304435645303706214554884),
      (False, 33605086851298530328240883989910472805876774458562708556036162118265649648231, 26643101482280341558056057038022683533269329923509009741627328572830907832515),
      (False, 6130426191207583390809201397359002796930162057874463115980979404027416590848, 18380551299310888647817717795275660670167102842453755047619426078946902402697),
      (False, 2917683481590747132809414479250134704792231718780480749413881229545124813226, 12791237881844913246324206605233458946170880454743656756038646771933997929923),
      (False, 1413013338196302800127299148923731702717282628549142571044779038119672748632, 58212090287189198544764622223615397259028725800016840713844337245005591242177),
      (False, 29264930600386914502340368330999891399354008280437090124156530735579941294693, 63413250238489206978650796439631534526718693505625675881418093461629686586506),
      (False, 34728109081508225870911273428427781778071764733437975835058369077495508772393, 37201913723177654019010744736140909148088129013141495681165040284704184240513),
      (False, 11952305151263643534966870010596394194861977634882524904334779208504555552373, 87660015987457233457972104359692496043456569965802325482249639684139720043866),
      (False, 66362723511899925277710546620254802535878412272252263107093464281709204218910, 47754276682676548886395173855464902585451873128421574673972351327988597473946),
      (False, 19694531435664778995240350383582318087594341838747763867639873875258370623925, 57910779623012809864990208268571430657141056023233328674316658508339954727741),
      (False, 28962759188771729137881940376346657150098742116852856956026853654194199896106, 67412125002016914319916797166910646365240231069702066980987712438733965915515),
      (False, 39246157723035855451893984180893660140019033464886254914298015220916606376620, 104133087594403727867998626693747138133496775280010716216761116937407100964405),
      (False, 93648020373132465585107299730530373430304419812400583361400802926547264671744, 46053679534621711508749917047348578615983845810494234099698338625474313365241),
      (False, 18316807414457818568452785311383092431298247688493393165597058219547837322634, 81747413553089663986571490120253050416075522920110399662804583967661048213507),
      (False, 57712402173897907387495788135160758233711723721992769390145039922386645171385, 64731244891373878520446329209590259867557346608037927809009528208748655469814),
      (False, 36186704055398170721907702968184765980825542461097998792256434693037494783319, 106928708382490465701944304257741693301609144395810176882174008366148134348487),
      (False, 98743780785526620978339048575024903550644842657936000774437056330900694783506, 107282616318218056253959378649073306891226540809908855836949269518264582220203),
      (False, 99398498117545092082325180043409462867138595187780812154878620138866056632068, 13043912310703679280448163637500637355014073269026439560559281756714832837261)]"])
    (simp_all only: numeral_rules)

lemma vssq_one_2: "pow_is 2 72057594037927936 115792089237316195423570985008687907853269984665640564039457584007913129658411 96213851045426298984803871203131093377637488485593066946457856782789479413579"
  by (rule pow_is_step [OF vssq_one_1, where ss =
     "[
      (False, 1469389225896227997678457268962225012547472829149086264164506384249150114909, 92322646106038094285228812397715627198941394113955577435148790351694741632522),
      (False, 73610132092459912359423725773163244775298785995977873097313324685697740222576, 41371725124995187315028602873330142866442546491963747891879317735895697593748),
      (False, 14781835711679655723228299599630439165739356584844776652107538400462433729065, 98665189237488033597751203906897947417810995622331460392314722092108876271789),
      (False, 84071542636369448821911994218184942129478699247855393456183135916741521838239, 52998147629520672347156547024818131284394820009954933787664751730197329482292),
      (False, 24257301778222665040907297188161684391462534717448201665097093744319639172126, 89534744143089120781694174119635085095914813153629739125146777177439528921478),
      (False, 69231589667051037954002800581907901301997744270511349189468487209547886818869, 113891895848106269990446031676593856014128475186753606147031991283874490347325),
      (False, 112022885374242114788043702114460586011352293179616480635285742980635678824793, 93456121831142455242928409075964438116168293219466735651787825041261126871702),
      (False, 75428699535914663583167949638689882706310036405202043986061423499655362347048, 50919784242393164574134734711249742741678142547834239705989365168501294156076),
      (False, 22392068787858820413367648099927193399199238639505455703869007835715591264325, 46309385808180375742900216777525678492007308453651305402905845236966187230201),
      (False, 18520774847888081278189980373946789503448395089650821506950540262242993555150, 105332149021514216874981228748499504030845786379873446236180556933286176633751),
      (False, 95817095024095557579874074850981101694528054593629567487932680430577922053704, 52358472383665126794600915609441248219838205869851966465798880926136875025657),
      (False, 23675275646270596279896024893122588256018108078371125854371574652641209408798, 22931768322902789757721974596278649660975174965415112154667189428967410181671),
      (False, 4541467399707453778480271044085482303717410117467540234893965069135194711242, 485130916000709675485623728994404424017319049165461586674955428335982795779),
      (False, 2032539590656604047746298556542617179729841043501475476756724962777022492, 112145147646004620232003318040103013027482860068825735929361371201393596236629),
      (False, 108613068676639346086046191710696399991093225287090303340185044008234136356520, 40091711023870285293033202021241972905236709046299520065680462167808048593921),
      (False, 13881304875044302024996571445566524051142566586197250854865762295460304270963, 74868467295296028310317854853296979217458956089677034488261720056136582134448),
      (False, 48408206744234137937909081762473090979155411769774004340632721345612788474936, 60364280527595090716413811506662208944475503592859211781927095482864233178008),
      (False, 31468871385040156001047506633406501876834491481755692836672100356968224357636, 21006040924040427028903050387426508271745877892171360675948306960436835371668),
      (False, 3810741806360453952913300128527077810340719407022798121665713242663984788689, 115785770439773814270896172021285273476602253551396337973923081929633110589045),
      (False, 115779451987049482819105391493351695749282833799175922441554312127152192172531, 62398592086394600346582410556162849665682609020095590162472405140846866703784),
      (False, 33625650249598273139753300180202860503234658453539023352328667227675464744016, 54592635997784998014627674008933137502124260224046613469763274116973563600080),
      (False, 25738855951362990236912353520335568278220323072575647398096687056150695098459, 28887089250015427855627870465504258023287691544410646406727004951651493517751),
      (False, 7206571112367796177754248840149047272837865870951294994161362647044242916829, 42616915887928603521352224740695106464387537969865127330424726822401498799282),
      (False, 15685022455000976611963801284088782267219343350611230356290015359383034453995, 96213851045426298984803871203131093377637488485593066946457856782789479413579)]"])
    (simp_all only: numeral_rules)

lemma vssq_one_3: "pow_is 2 1208925819614629174706176 115792089237316195423570985008687907853269984665640564039457584007913129658411 2210667232302033104100944928306032760967402393647663182472368926688693360937"
  by (rule pow_is_step [OF vssq_one_2, where ss =
     "[
      (False, 79945920260744390665222834379001156678292307335007636005237351362125239682118, 7175682533189536400763861687059694167684437680904831147567469261130164594743),
      (False, 444679944513235697446032253645543243933694321178587537153924672019610799580, 25102850965005290988401229317635988055529278313109051471709475596957440968669),
      (False, 5442108616589226203879946292439015050678256234295399510712397381039859060300, 40012113244049567333834735957038662876276101695530901838059278126510588448261),
      (False, 13826239916730892876741460945153964668640914114084798394717647827253849052007, 46805847984247428143944840342411036037326700188358997479802668176467789943244),
      (False, 18920009302487447198539273040782629085466401053614480958992003485346959911667, 60838292256556095445859815751850542263796215216469054843094579261426297662399),
      (False, 31965031713939573636203086290345223688989042710074414547647938861272616724646, 61722076979924389367182224960759070035539218730698672332370348198724153537695),
      (False, 32900475428057063324837761334094965197934349762845139885629363187048109135958, 95713680859104125335679357159792090623678870056983320218067374929406888670287),
      (False, 79116878915818840768030745026219807851761069873866156249897161122131113368573, 103498193078827464684739715324750226004150952616733886600426244642743964144866),
      (False, 92509566423214205675624320742861366996081039642019856568262955829025438321771, 85847090815722170351522315814636010702293312954514091872461934604896299592075),
      (False, 63646170045507883386109532082036307682660970154627803702046376117139478192272, 13368039444020972848622502057258385751518189749323278623467847297696262805833),
      (False, 1543321998540377450692450910232086694844646183482527500171150541212996488293, 100452789377176099764574581032665254242236496281874462072270870588712208341466),
      (False, 87145529199099759186011925587464453304056106472974384597205445021937555654846, 73551016157310145893037519315756565354108549268400942679018881265921058219450),
      (False, 46719529921302283845380930899097457494496190705396418149473814164530510582348, 114496348050559016192876584970706594987967840513037570546335663433554431973472),
      (False, 113215106517742944290482483595304700959865479010505757375141414647506306022978, 19951378629003324658368711455391560363283628038985184091295207383723454766826),
      (False, 3437691744053694868040676445180882613827820271991691693443082446884170779739, 102177157155405169638939409045774826085993152440301857442005202800201440379547),
      (False, 90163080337579941790199547480695355497522102437316962196674329151552614125418, 69329286577497040531348931814355790288590936515076721096605513149007563334411),
      (False, 41510175772834311004036440249926351585754030743320476984591636251691018800734, 71361744528869183222675878075808801124193080851816232571963864736596320643247),
      (False, 43979676122489692638707575746032583107061184530094965578444073360096410870092, 1737613418611127266767521095690343765565835323694625163523510668300590559197),
      (False, 26075187108416226971500727240488075094314924389977447634843692427806661274, 2607116151386237789106885799184599342384188466117384490755022665287159209195),
      (False, 58700509435393352206733104352314638381749173464605069440185241137780467386, 8243537874132045278251453671459132623679420184536377350339381902611666464379),
      (False, 586878750783860960222860549554849588286524455730141954958089155091498540173, 88989798442985370996179423182491572343904467709016801411260924712629825010538),
      (False, 68391409802553716653732743888773845076462349339559211832042768234291793907274, 74068005975096288003194111188687666986937105735032056486398020043673182867830),
      (False, 47378620985784144067520557849672616098999976063203382416228473975643593175207, 48762295923665646395480230677730843846913564762510273840985522513404464692823),
      (False, 20534749130175126017562125293581344944062279931821333026688674883455831874872, 2210667232302033104100944928306032760967402393647663182472368926688693360937)]"])
    (simp_all only: numeral_rules)

lemma vssq_one_4: "pow_is 2 20282409603651670423947251286016 115792089237316195423570985008687907853269984665640564039457584007913129658411 9248671998235071957157099658757863415158025273231762658858063245559991537017"
  by (rule pow_is_step [OF vssq_one_3, where ss =
     "[
      (False, 42205384186115771648981033867090110332393550956257212005695811265104160405, 1807021068183872586602468642627672648384901903143004928211902132748356101514),
      (False, 28199898303657785489255323376345467730038355729842435759701344694193359764, 33762284857279512845463886976927294121917193148069039206497066164746521517192),
      (False, 9844298399762647448415438007879777258433003480295442219204689503239512924267, 15930673846851444684668327091818296304330198803605780239674246283700129005127),
      (False, 2191741861524069808672166041882826253595304691300648394045514184177744843333, 87737273604225478936109023077339170390380671827974137842935144670143791562266),
      (False, 66479750302509867911046056913285079278195273302383870860721917370072072130487, 92134911170756754370538895611258655053571397563051099803575037447349625978599),
      (False, 73311069109784639594387348937680414770684792311917569768638419018435716719024, 98153479860060685277202495983884173959371007403832536373942550044961620691937),
      (False, 83201759913790081519138578803017062033263054442234574110698378569989633474507, 27198423956959585892053193137617297676147971203445425154331865680726670183592),
      (False, 6388642528302471501550276437104760891664720330293868254192500370388372089026, 57099453021522942230272453358337450966204535962233571522814408600953124324778),
      (False, 28156910863530707145699989426405885942452910686820624280452668258977844386439, 43322970008444277815853741100544489756380766315508781613083350404360474060855),
      (False, 16209049708964939570992627392106754672151580969079046125743728628174007105428, 105999970881641690632075277862849421928015550063771007757282790544737739376117),
      (False, 97035936573185815879694402567577869382831877656907491637485088474587400467388, 46991537538041523555764498297792288562729974760799135067773555703034204597221),
      (False, 19070427131368572174080085426188433843422650840561106058759487187553328521566, 4992821708201594754657902088202253825242271189145042977756798491425614131215),
      (False, 215284729501672067255484350863790507540808021928922247838601295657230113099, 90600846464607938057851676642010698461930433916880215097311223210386470750536),
      (False, 70890105137321519989231445017735076401349830971855955767332111036790357756130, 110980135449748139543365422211412739102333543501715445339809277556387802977866),
      (False, 106368151275011185889322188656829753627076399022531824891635882364781544034007, 33026955809310253330831254346873818470186000065921133827810774174770408331079),
      (False, 9420158295914120380891351069126841222043371120379352734491763922438781506255, 96101731797967103448141173316370746334522588692076665842081985437237867443436),
      (False, 79759704789850814357117285955892873275013728702293029802059596505467006103904, 3571658724620621127766940622615994542271306343788659001500162694067165949552),
      (False, 110169409060524133878036499886844916952356193528266505840039191379175249826, 107648740245397109442520488622172769802330752171931877838978006320700841814218),
      (False, 100078091281959922617779446843141794930730306679811573632840400284239462201627, 30698795199923455058064975130348988400053991350548252683506957589369108516827),
      (False, 8138863655835410371893815539440685975906873933420781397555064798694661769475, 64602904417997012411397225748373199785378733977740320652097030825340165343704),
      (False, 36043353969433838183807234195023416896727421645107331378019075164249445784314, 59171532861561296536150585634400307750133054104209170668839798232553650474562),
      (False, 30237560477995742754588619484876040537234828069231949797252764526449606460353, 64892625519195718100391125632139719258672015219139266774026300532214104612761),
      (False, 36367362179155497507301475747381177610017029517766775049263234205008974397389, 62116761934451268188162748750760790681640618217862943782772468509275623754242),
      (False, 33322588258281653338680407300794073179985658508909959419641653482519946290977, 9248671998235071957157099658757863415158025273231762658858063245559991537017)]"])
    (simp_all only: numeral_rules)

lemma vssq_one_5: "pow_is 2 340282366920938463463374607431768211456 115792089237316195423570985008687907853269984665640564039457584007913129658411 58777317187602321341862039856842715284294560709308067436392789143182163316641"
  by (rule pow_is_step [OF vssq_one_4, where ss =
     "[
      (False, 738720013554875029150837550059914157502129423877446094549741970707148686215, 17380870761445227022234030536686613509221156010127322208225790396371706753924),
      (False, 2608940476122835627455310462456255240265652208896234423105508407396895792493, 76608737037699745211063323620005433843987215160130621674711398568820861289153),
      (False, 50684797460412908121767507091658568623575922685248622408637483379759201610157, 46528919434597544642223389640310921443053680966240753668268005022182477376882),
      (False, 18696789720360067865417256509574364747339343187351152566839459042894713970056, 92770165340788103147787749589759343811981598087544401761245737374950505500908),
      (False, 74325488330368753608797689272452096757413569697658093691178407270790145628335, 111755232349386645519537011044276584362017270907847433383127284428884476148779),
      (False, 107859112308343285893793492803762185240426839946934743042449280918963186465912, 97409722416081160891806507354949380151870956405331399396637385296608887605009),
      (False, 81945615487867767008816881855618188255414534549160834137676635759059616977945, 64201897556707970452631759916467941851482352330034613843449735591182031144686),
      (False, 35597281964869062365381060569676745292132594558063232278717448103147444779484, 47604158646601514391010910382830495644644586070089025004498518641985325198672),
      (False, 19570904501138356084958771200934518146532326288839197373597242761608566313202, 22495385248886107169003065187595912629006133610179714119646013762432370921562),
      (False, 4370267095351112507579993908270301452767950337240222734824017936838182630839, 70862818467526066400944064539782950226106608348917592776595615347323772183015),
      (False, 43366857565458514881117055881040672870489882281058630207142220351919542660377, 82045217431511668987928162827346575812249364527712873365549900639906460009278),
      (False, 58133657901171190609873440778818511173099260265363712532012281951038807118666, 96817852332748520120553813974254019564460162919477013179506660169872124081558),
      (False, 80952823220198419978490732957475975977447757262143716869888419457687405498863, 11329151160429626960610760448961977299818699577749596283540605002770796820671),
      (False, 1108449349703078425912671691351953340028408297489793059201756503838222665108, 14726458612657507147965016066371489014284627665703295189675331089095644466853),
      (False, 1872913639426970964155518856069147300375506225617016369497725526751325478490, 5295961389629237282138003702466327883794053112806329353950263728539787644219),
      (False, 242220407500902902449397912190040399404153334896172539908939972229528317832, 12627803313106189904240559110361166988112658926373586424550745941912124035009),
      (False, 1377135671053305449750601202774046094623503110929570829567368423460100160970, 85670141923123372720906087633599901868385042728279115869161086714717243211411),
      (False, 63384064191864056364432109839596187887427881021683864212599052295228368309459, 105313198231118860365212314807625442540290800493175662103177709356970230401272),
      (False, 95782620338909073600335430668243944424311005728239468770276900453112763524313, 54237426498504785138915475945738823473344621893407289396391092405275955771341),
      (False, 25405003507205835630878981263632715019636458818221386407924820455429760113796, 64707210565555460222960811527776242057416115726302909924283154460192308400125),
      (False, 36159837228550364820046962595131853863778929261630963547781723378442227278610, 103642045589173314171030404137032547999856218167358816131786069273461673126915),
      (False, 92766903893522388512366752168194939798283630671727262984526735148229530122833, 62614452677964146478314773277487599679172825992645183198539017388941535818862),
      (False, 33858700624407885587417254596919679282549365691912228677821550147271531087234, 85162061837220519484672860757200881231387462203688714181202251123187012149870),
      (False, 62634475499465219723819290878992838126872715251026623760974702166410841700969, 58777317187602321341862039856842715284294560709308067436392789143182163316641)]"])
    (simp_all only: numeral_rules)

lemma vssq_one_6: "pow_is 2 5708990770823839524233143877797980545530986496 115792089237316195423570985008687907853269984665640564039457584007913129658411 30249759549240800711028629824329372850322860991752539565238831091816692958154"
  by (rule pow_is_step [OF vssq_one_5, where ss =
     "[
      (False, 29836002083799047419471688408266005874899328347288167334909069983506300785350, 69941472862597133456523535930104603699751384554843638501593793612782694444031),
      (False, 42246492471205303107332702428055031765997787352182480879693344085930505907167, 61329361323185791462287688327468429176764437590199086033953484396175804797324),
      (False, 32483139263521726672871244958943648043376699400056446600957270862102847785951, 10892351487393310197111872233895348932494799132027109381346669777368442777115),
      (False, 1024623717443766427129331520736298468533321832835865912094842612913988570138, 73616619232094016646742763084770208654609905694175419302281923378543312592507),
      (False, 46802909100776533383398575427112876170537103292632317746896492015192921864783, 45847569123567193974855092929839425940700950165953354632591340333363511905236),
      (False, 18153222801189968592855548373565698770837931614679684127010035793312224872251, 97948921722375481649754520976421880913228216274596733984831286798332901562535),
      (False, 82855325694254715677359206939005627449015745434534903737085020814291575030264, 72358314555909180288520949647117864619764083044628276924418914010101208475721),
      (False, 45216609527109098201925619443922668046591171575892510304841818968111632549898, 98761157619115063824740640087848098019238491997346923983156844687858593577763),
      (False, 84235169418847944740706722392370743883131374130603629188197352348114957646701, 96115801257653986245393983807477280117290868336393647283524775539052177032058),
      (False, 79783060416735613489752548246296695827367226346332334560619778802531195213772, 7994656840094025465374072340686384709397701222718994143334649071197076879072),
      (False, 551976723210073292184915657389851504374957983262666565428238943969615149981, 42726818052172792514259264524783393101413964142077251949413576356478648440993),
      (False, 15766025061711648873879085263576327087255760383260493176137488489376768598666, 70210018125347346194207853116672063789823601092112582265620005640153672546323),
      (False, 42571532110960437434387873657097642461853499558626289042883284090635345188374, 105799518744546737410132100000151036342618945542183772146389524492371512306615),
      (False, 96669282334447823541215800445935340189921919363116321003976357022889432572231, 61568585958892450671260911298495929445456475403640104331947240606487658573284),
      (False, 32737044490219861062073477071294152711891795070743490281975375444673595501957, 42656614247025653343679701145313649035960642023814215889136132513204906534329),
      (False, 15714257778787496239167756491173252241092439210711502445359258739940883739951, 13181345330190898490786403049950749968099692227825686585331749912800871602380),
      (False, 1500515845755651710131821765234099703761824688337565014986271137728115200355, 66904472365983141862963198672493234763218734492935332837772414642690845728495),
      (False, 38657290425053137951171331736018803785333489368267741977013973233204602978327, 48863924518296438484902655943458269647586043703211600582637891398180508706628),
      (False, 20620433874685591972534550310440760230508074875972784288188037504157881864993, 21348862168957834444495711974892599350984617103446422017523338511163662224261),
      (False, 3936140360806938686594179856283664229707208798377577783617190982974975322660, 1140778720701077164891904799781833144643669417278632524015722830377549102861),
      (False, 11238903263393170658340208436269573514828756217581713558277703729542847356, 40350599310531146987330400623606821800873322546080224989032601903773363874005),
      (False, 14061158024207475426639145338587304369686693016777629599157688636869810811246, 32411501860180864136941391548507700695081996009741270251030235572766737449919),
      (False, 9072342158707352550971795622300530290919606588518149476291221560142385843981, 2259289668658598008225115350104018515149235251367504011492864340358562732370),
      (False, 44082370743358961811849098430320722753385954325463219026080349919077861486, 30249759549240800711028629824329372850322860991752539565238831091816692958154)]"])
    (simp_all only: numeral_rules)

lemma vssq_one_7: "pow_is 2 95780971304118053647396689196894323976171195136475136 115792089237316195423570985008687907853269984665640564039457584007913129658411 35151699015305211908211510376486172027212491467437738772360738529822400703077"
  by (rule pow_is_step [OF vssq_one_6, where ss =
     "[
      (False, 7902508356261642306200693289197975519442312364774568164561498931945810148531, 59844757489206629487703974095734696279716897264634201437962619718561991643475),
      (False, 30929530873234996004022999531160004322740745494020524856309632802367712349244, 79024193980826137347066632712768596455654730759119346605033897247051455984341),
      (False, 53931346048350989315612214755565166770238444671648442251738060567249921906088, 84511591974665547204895231775490569345133339572675343556942918389939775898113),
      (False, 61681322317748126844594211247327852852819160537579150301465706362249381437210, 67054219055052243373178477306505407940969089810737387587077140762484212087459),
      (False, 38830530847990984281151851432717574606224056744997306783927671238006625547264, 107711918182263770817409631540597024091643280487312493639528679781440009439177),
      (False, 100195595354745238413857084569201180431644911797825570536180057180889687108160, 79804517369442017493582661570724238491939500953887898739323843772046851703569),
      (False, 55001693418941427368258225073304120800641506355134002564868879512284995834093, 82116259097823662206936705428421469605580974794089128374320051946418329331538),
      (False, 58234375531483389420472313946290286815685949644347629746515653547811104504543, 114267013088030793022045435158179884484010719402468418815521818734056933784271),
      (False, 112762023434087506266589325890270197901609390107440643731462276137919850309090, 53399196285005590553063464619769187327428813006120717058586161153812298745451),
      (False, 24625811509804015769860425316028768524179145001746157772524566416768959947556, 26382057217784314139231116701713011138442352330894356444545585755717738899885),
      (False, 6010885092641907900721727190600236625488535750379533279554466835528262412337, 65263191228637158956662408744154097576297863267056185245602335085474410796718),
      (False, 36783895665067827125525884543775149495562031225343153248609969987184226961916, 66656921760636986565867327424038121441459477290001598055719215229154133496048),
      (False, 38371751022623338806309079995129116824168211516451992685512965197927855901441, 113097650218406123470315881128465421626802800871152989622659046196528018948053),
      (False, 110465909797253845474872798227433139395897369143934130790307637400922790939833, 53787231133683819370766767104137734875362081654821335603150524373523769105446),
      (False, 24985007629484765677977865716093641245520089077184937573737459677667156907838, 32156186631630957823773960813953347810308572210673361607055247062051118333498),
      (False, 8929973934307844518764428007314460593768403403770600140702658201393730988853, 51599269309268047008279406593663514247357891434445653270041153832447610223421),
      (False, 22993665722652280060991209037051088743728840531574669169862356711657192067893, 8644208290973349963034082069597483700228652005633872787595508717443726445218),
      (False, 645314696970263443507878084058780419171771693208458882143551362163701065779, 82774277087886256791498149836190864531443609627689578701077588286507843450355),
      (False, 59171407930811562852388624167070109104590329207466000667615118040704548437011, 60357938629066493643433536890790295033931326830370668816577661989612969776504),
      (False, 31462259464751979062541897456121146381639261884635080347022811843294172250574, 85247089486674589994566305260545601224619329459174954644312421647731991784102),
      (False, 62759609173777266736000410464036158119324106716525937064213242481921163700359, 70651623562357859683358960174218887072026655980573092377437872727402551876855),
      (False, 43108747280366592307223191766998407760302214931756668733695481654976762193271, 22445932709435659021912620551294339651833751819168166831881644148155691938644),
      (False, 4351073536327109593917907860906442993639240251274342102254712756849786341814, 59499296944051202072326358212130502970544259813837660840464018945775954461182),
      (False, 30573473197990238983558104782161931105697503246364215166765031620040252752477, 35151699015305211908211510376486172027212491467437738772360738529822400703077)]"])
    (simp_all only: numeral_rules)

lemma vssq_one_8: "pow_is 2 1606938044258990275541962092341162602522202993782792835301376 115792089237316195423570985008687907853269984665640564039457584007913129658411 115150529003895060781072895363474947678565346009593709226616989725641516444189"
  by (rule pow_is_step [OF vssq_one_7, where ss =
     "[
      (False, 10671212099214808608798361923845947073633631696806165459836968149095491782129, 80373239128683507271754051404178640893037595679126004250856283349032512930910),
      (False, 55788418799466052374227315349003405308766498533284641905461551471686212494175, 28254938175699255808859046230003226122248558486080315533911713646980356172175),
      (False, 6894612028947712432147884636721396447097398243205900042366924981652932788111, 68753438210080618443596124790113054626140575823986860499925924680478972279004),
      (False, 40823473320524532742977072040489076657932610790331788161037056303461921351548, 74107806792127686680269329125980688073882640300975426327365188173512933161788),
      (False, 47429552948850637235369280137799817404561822628417149303113233650034122118392, 18501788396946216306031673053904527539841313140004630405618289904287922761832),
      (False, 2956300176809105931827636972388831700308926263967984456491892136678821806861, 41295849131379223894632944424866093992578028657324109389917852493043849838353),
      (False, 14727665479690246036836399900849221850212182610639195862504319633751382655200, 107671155196462413952519566248179768225254736895009228399742879539858036865409),
      (False, 100119772755638353931663536151030193985306658923481583845375760128289675885545, 77403328508368695081900386611050166156235377529641131579733437462292598168286),
      (False, 51741663041378477430207171722962964265306674692843186137718396314508371994669, 23374054084024854254691486609791746911389706338504337104704446773499693166837),
      (False, 4718339637202508342565801392428202371881859213673818687076607703833446013368, 36275372728380015077672930185882134533170925285607993525453175985858336946321),
      (False, 11364357230708140326649001333319087450042504073724883451039459739625303764689, 115016808864671217610441089407757484169808079284093441972946559184080341785862),
      (False, 114246719344528923830373800387400817543350686739752658149680451689667652536834, 87067737079008372757258282501586658733610568564741947463101562858027447672270),
      (False, 65468987475668380249510329970576153126832323679831479239852464978360648942786, 69025709217640078065293948438172523563038580203834003361998970640572864279854),
      (False, 41147444219900441767151727879812672691850822343610313714386847080155561805428, 8094193057271362972583256185385377478961705473185722904312978124373944606408),
      (False, 565806884390044959620552661083954780594392514233861716749898685347818498228, 106291404750757909349227866523146347168350924024519852900420890238673385866756),
      (False, 97570246795827660602798720687265587887633070305991209148792565156340858237784, 1773071442922248429403006758424103133307447868594190556836567564450052362312),
      (False, 27150234203505852494148153171222349370096242780014314135474974984032556035, 46188538483646215402679392339043510186730652842545447911781874442068951424959),
      (False, 18424238661787138225722467459730845745589292389525425053996883076320535807977, 11339004397472080506192943649341038723973149489485494889224365838344709207134),
      (False, 1110378278626447709355515553260787043592911378124060271388219445764947342577, 89481307472500267629349466125725803585972602707738507676455940503212710028809),
      (False, 69148975890554667841961089804018420112512347114145735214024689692886421871119, 39849718888351271512310610790875227852113267656803238764164964581993673626572),
      (False, 13714236490076706981406064076503282993983276484936610923839498374749029192299, 97152120890976791975203408311744404890197286386353322562467512497897402694295),
      (False, 81512775663548719786299147607923422781746621013976112144823779460378281241075, 59770725060269335497897188088095168592193069001400657799848458926821333115200),
      (False, 30853053932798287999256674270661222618576227633115049428983799445414026578043, 102444262672005974580719656383034197441723557318640950189985148546656648170327),
      (False, 90635094534841502822813072141912642354500765028711570918275492769598875253340, 115150529003895060781072895363474947678565346009593709226616989725641516444189)]"])
    (simp_all only: numeral_rules)

lemma vssq_one_9: "pow_is 2 26959946667150639794667015087019630673637144422540572481103610249216 115792089237316195423570985008687907853269984665640564039457584007913129658411 31958325368884866821645297696747260373341093657667919936429605473405307073908"
  by (rule pow_is_step [OF vssq_one_8, where ss =
     "[
      (False, 114512523413419039655164740194381326547485398909997852093394971270216372912686, 47205989008312243724851798430280459817291468709362951380884875592538043365775),
      (False, 19244884628394376496431654449582106509079418197554587297855049746437750588462, 70023149043212536083067951962133032452902870209688890603976704902970143496743),
      (False, 42345219213367420890031224449784635124743842529264198972515892793722709377361, 105433923590989334481520690732209616253078106465971545954761108314658824974678),
      (False, 96002346248435553804933337326217785592785151600805473806720264161851078940611, 78383535929852504764454624255224646740345936379504456364723554274549155574563),
      (False, 53060435694137773455839897619470403761825571183548802366140101307152267056472, 13639464613516595855857732278589820323841421366441751886103257853092845854977),
      (False, 1606629573477098281965318828749756611439892798287746614291712101838339224916, 60819269894854467224752730759853868243897946327073642796034061545320535502053),
      (False, 31945045770459104437395239686029643035147913388208174881578821839719649891668, 43367375224790113686111430743978895370281726483900570339704860587054772195261),
      (False, 16242294670348159859621146080873181305823052051242834818795542103322804879423, 96990433727371795288568736189449911040459498076311635407644674212781078081268),
      (False, 81241683232295196856028695559286478498021760898088037762550524755763992955893, 71689804698458145245271616775020352936478458612784676602055396270315133021801),
      (False, 44384967328552125673338523768249988086461562616207526699180956115030243713588, 42616217857646847358873021461507652835811731971179371050411533730738982094933),
      (False, 15684508643489713101386752685233995537102806890648352447255962741346277505249, 23304445737882047179723237912989954483205896747758267322807239434132794775150),
      (False, 4690278884568785818201031533527368978435307584836935637110102967093405735677, 22671683646836496450308081045500190183061032344643774128217311818771891693253),
      (False, 4439035885506636911994356971996476318696146968641265362464823397787835283856, 65261172538849793025771341469218963671946229243800866031375017230420942809193),
      (False, 36781620136559140820703256998906520554373387916451208638065695903395813904826, 108692488565238887413214840438314487095508563061303940871728315768204960919763),
      (False, 102028188180382900330563915294123086262846958433192139933246993486250758919563, 32301967972268801528680869867627498559655160806424458207834678347021308581776),
      (False, 9011126250110171441565447626576988899112397688925538180574534789163180155195, 45390915689633226183076103601699435638729046327024131256045498184640162219031),
      (False, 17793402301609130131840529193777592715208481976621296142715441285226025547850, 83399646771712595202895686307036128498796835986719315371308381697264383112611),
      (False, 60068879726240305612575146502716361523473412697245152433692150333232641423928, 53173072783465523100713118331626573094475619867547309818201387645257425378913),
      (False, 24417692848092653245001063806647324194351300036769341354088602757046047439262, 90472893960187945226929145672387899860348540201206938621986081033490295128887),
      (False, 70690015142187536929176251450144243344122984818875782356256296386116602603736, 8790611540495881753160106583842589827834894298479167059132365435033069435273),
      (False, 667358640515798672339345155930899501851969278426310193920531054386077706211, 10761741415989716531076678496514750653632779567530670963648598395722293493808),
      (False, 1000198537460232170186455895821433702026865841215090676902190708881000436664, 61478660894344030501001832291108468384998604804702259803781662090427173959960),
      (False, 32641485012118512795819818069686263839883586919830188344737017703621313137207, 115137393144002569402615761865552988996892013510895996281788273741812998603523),
      (False, 114486398745488850238714739467837021113558243669476855425789307925453490114111, 31958325368884866821645297696747260373341093657667919936429605473405307073908)]"])
    (simp_all only: numeral_rules)

lemma vssq_one_10: "pow_is 2 452312848583266388373324160190187140051835877600158453279131187530910662728 115792089237316195423570985008687907853269984665640564039457584007913129658411 113443546843696058738303740330475227579298198495711155379929415532321716970630"
  by (rule pow_is_step [OF vssq_one_9, where ss =
     "[
      (False, 8820417414615277872113110085420697630550359836902828477238134968600271249743, 28030100384946294125284423580081513835033020536688699031278863847095312854091),
      (False, 6785321283735538740675285196812050954011277296115718367584627308891954666576, 96632508707877507476889858689601008219205086685772722410368638680331976465545),
      (False, 80643175200337656782677089320511808347232881212864843347713689063441246896674, 76802629393570303033382662248859652434255151575267196438180755229907140122011),
      (False, 50941682809408704429499559132936405828273756893469612924904280816376106167161, 59178907070951972966502966891011478643640340793926537402199458551137571042950),
      (False, 30245097615733644186660649096083497537022050479787928752000084722151705797709, 38737970794699180473686393383431035700072628230649791758394722812363308322101),
      (False, 12959696911724433014091671844611864650641260723630066562104336839292420919944, 51559544280723446451266466919035172278403755575986077794036419754148867805217),
      (False, 22958274817785793844961082808859944094659053726141788406544023723201122551146, 53006392505424960090797470064617934648823261402587334361637164064430795828083),
      (False, 24264849740129738525716624783481411343334479613253302337575353804213403538541, 72773086430798411241427395850805963454561870098892226676380004635075688136538),
      (False, 45736475985077437998365310260578920106452599219481748860430488338764961836942, 73418544825112083279927436156526227868663000303822757305264962896295389806282),
      (False, 46551390166124332184257604627886518327495668066687092838735718299293230269279, 19381862490559003255366788304742920206785066334716080940247523534818669407855),
      (False, 3244233661187586476794238716399815951904553692463851993247710007534029506719, 82042757930270450749805697340453238351257406396168007820885475535941036337516),
      (False, 58130172563081779651720808961646843719337638518237121005528732455896733526409, 28819848962633239828190479660019766934334995588795663883126782121985451574157),
      (False, 7173060782474601830664358150261506810051914097338093938370309548172987348592, 87378962333834682872688125809931959166671879496318059697376444101271728453337),
      (False, 65937864225677603735788308819338466956427162277034474542410800086552428479388, 32140034402212441229203735476834229297421061057107082734864982684845592103101),
      (False, 8921005037384723749196832433194506838803951943183423749773566356042655890007, 73052573110172474438650761731716309016862160822806638167014714358463115417324),
      (False, 46088454515053768454885109492799477955062157002286974277337768966161596179449, 88684295612513213031032566502449556323172279063852488162985956437394651125437),
      (False, 67922639103337085763467662778368777979167342112783204338333603415742683230176, 26772375556134460618241859887371813004251187267886083492062133671501741030633),
      (True, 12380121952022201606661974447431254672467879484707153462473782515913092320159, 26816334510795423608688907884492326538853865373617827126586839430834969554029),
      (False, 6210405230024374894973239696179932263587793065349192355097514140273566393729, 46280331885732810742379622530458948202721601366011796755339771793896247628222),
      (False, 18497542738552809376810935818346500770046889870815098426127965916232146343432, 31838161223978255175053191840769705087146955442018073899909372406135477474732),
      (True, 17508424224845209161742253453707561214202707151024184903852639734757104714362, 64779175247365831964806996957683795687747797117679487018325392672788611144866),
      (False, 36240312903660637106832215582861061141272511821337691464438680215480161569986, 15931913249290916832678035793126936900473105395593346319092559060457588105710),
      (False, 2192082908727164284346917895572146186180163236107499120319442630430474745963, 36122648771125777245219742269927703620329945646883580998836007280509943359307),
      (False, 11268867872034243849110020572438681617150185525845763568848067370456651488729, 113443546843696058738303740330475227579298198495711155379929415532321716970630)]"])
    (simp_all only: numeral_rules)

lemma vssq_one: "pow_is 2 115792089237316195423570985008687907853269984665640564039457584007913129658410 115792089237316195423570985008687907853269984665640564039457584007913129658411 1"
  by (rule pow_is_step [OF vssq_one_10, where ss =
     "[
      (False, 111142638545038373752565465106331599671648915756980481386531695385799691451724, 36556628076326669285760785389199534550165521633316229727029366061411465546336),
      (False, 11541263873147210291612605528819950187383547417716245969996823156579676865388, 29873993618739103746434845542041044121990664919932205695290747901079294046428),
      (True, 15414792160859534656162555450989254232710761392402033630592815620606600965178, 102713325949376885673082748329281346462305351271103780782098061919081593306210),
      (False, 91111814261858856297233370546269426160501178332352031488308863689092656810268, 38932361065279942784120680170956128991708800603507975360662698033807147199952),
      (True, 26180177732363659383400810229586955959043161819048899330222708018537371691205, 70736862084308938064391128971324828463312300009469900954194155781944714629353),
      (False, 43212828186210885813785972519515121339285385260416328761954541523343304964965, 21091101844386218427370522526611497232401057356753330737533250202285396627994),
      (True, 7683332772389693977265952061945358436728117115852604344519560809590900132442, 115792089237316195423570985008687907853269984665640564039457584007913129658410),
      (False, 115792089237316195423570985008687907853269984665640564039457584007913129658409, 1)]"])
    (simp_all only: numeral_rules)

lemma vssq_pow0_0: "pow_is 2 171 115792089237316195423570985008687907853269984665640564039457584007913129658411 2993155353253689176481146537402947624255349848014848"
  by (simp add: pow_is_def)

lemma vssq_pow0_1: "pow_is 2 2883639899 115792089237316195423570985008687907853269984665640564039457584007913129658411 22850041983864851837265383824905215177828024674936319631625383866151934957295"
  by (rule pow_is_step [OF vssq_pow0_0, where ss =
     "[
      (True, 154742504910672534362390527, 115792089237316195423570985008687907853269984662781696261232908935567964653611),
      (True, 231584178474632390847141970017375815706539969319845656966016467726445599297622, 16346249946742579867490602281530351595059559143477168046080000),
      (True, 4615166529619392463444536163025341644799999999, 115792089237316195423570984923422706218551708903502758427564397120233129658411),
      (False, 115792089237316195423570984838157504583833433141364952878457490864461954457057, 36624935378659699073420832244523390768524571422094348250904730193932164688494),
      (False, 11584434656341893235679883101802086462339641415911062463395137926542956640940, 40157941760837837826312816021832611579938992567256997695867750919589878041696),
      (False, 13927206056034553697094579884682024808455350656267094194763923791649733952924, 55865180812361596852268940629716653788998779116556228993133956262587039912652),
      (False, 26952777583980920268932881010176687591271597715889217328927784176247579899110, 114015256496840388381587806688074269580047266501102494582459525884723646758894),
      (False, 112265689302814444688307463336861400195569809873342806528762543491445515726498, 76636402649373820237197834533302278737891620642051415699019062808943726828558),
      (True, 101442823075761907723255446778518492752233995907028295972053133753350050078707, 101272664200083325113027855160644187620315162274126358521200943107814874164151),
      (True, 177147723678477324072131769008414920012915323546612795203479226386747255189490, 42601521150283166719995577049554561657335688649275902212722240428731009801212),
      (False, 15673692531779117558205184870423037629681928165182874940106034059421229093890, 10078007413148304107255388431913796730832481594809313665070910844457009460154),
      (True, 1754286222633256168890127003851907296941341933214179336586957585322913567478, 50723119739508398839760757076396255519860294522780118952827755896037488649974),
      (True, 44438871308997191415823165038863912854455456677997164509451494746459722110883, 73944320860062885585813030714709642402012468153773442341577233708168524814439),
      (False, 47220519324508751296921766252798238734987200428151165564441163345513466551462, 10344766147070982715963548375837438186289193335424128591053082934729170237839),
      (True, 1848385107177053592095134872986856052926843935866904722170622898398085116235, 102687171494051636210445241978190242391096334627313027447055955075198874377257),
      (False, 91065419571430929426339272587498736996546206197296086412519181195329634110000, 95956300360741480109312600739980519567494988588926521413096243069445559634049),
      (False, 79518485585399629855453855010056716721826702462571600224822544844476151173603, 67811863868778089954532097640186938066227478742809487479058291646774650009568),
      (True, 79425959262781037597772622844334621219160851299177128036926755936059157456647, 109762984190493960974700798659351054057604517303811508605175099953866331685331),
      (False, 104047804800467828505900563341933248870409476892950220174129547633430358903040, 42279898590062837393345051677669441732071612707011700390883617324402931110121),
      (True, 30875854068447239022485193755233931423702838448636771930431688563078462948973, 80810451156385025510367129874828789830858013214872231297702129825047644007379),
      (True, 112794044206501243586206397679641413168032168936859181567509915293606721833580, 23886677279963776008032535297453309193840874072728950239229582447859423657902),
      (False, 4927567636401706619395992113844435740147993801786503696058863989884740382550, 53033188864047895137598557785887233653612868358639725792169693520354961913554),
      (True, 48578778388314736104848097787504357763814174818244603129412503320892792623408, 60813523661866602556923315366155447334362345302326410161338316847427135137144),
      (True, 63878019379938207832177448206296165072450357334071755722300035161338985024307, 22850041983864851837265383824905215177828024674936319631625383866151934957295)]"])
    (simp_all only: numeral_rules)

lemma vssq_pow0_2: "pow_is 2 48379449460876405 115792089237316195423570985008687907853269984665640564039457584007913129658411 22199328761825116506434050298779269805666553167687744733919736028354367407417"
  by (rule pow_is_step [OF vssq_pow0_1, where ss =
     "[
      (True, 9018308972632681091040768172190580898468789534146289706055884412135508711134, 36203253829820602986812156316390564554413733546763083941038625996962654985976),
      (False, 11319215297861903571163619773592256023067368483510166384526338842411664867765, 107692924245798971811231618085086800233813448843359535262244151717388821651161),
      (False, 100160261456564134187141349755602051617227018431987494477991981690077932105243, 34723168227324089811203402655170836397591594166508045664782403354775680499048),
      (False, 10412614710422635747682569633109216850583123445433041341340438952681879800811, 19655419088930736377501124144150571348371442148520555621115526046445178134983),
      (True, 6672916986059507797822823306761610103632204543752189456836629059394314201296, 32876950678763159871356357667143819003535518215193667541853582348861563319922),
      (False, 9334781789095544336256134167988018642773256965630948822368317803356913348471, 51190920609427502707112669712979990297231694065106244163547569645368082946503),
      (True, 45262338215004765905573034472222882075015192667769503759920992910866817929732, 96734826639497093517402245760221750451014489020779383393793894537949359082166),
      (True, 161628082654162595205163523015837943101621500109315556063369330099193493116447, 63635917709751738691234507404010861803030585294654211492060463206010922517395),
      (False, 34972423845490622419959101172821037179183611478367289281493569680660339177221, 6762788941968313339942448223235492138211651091743194813434067768031555330194),
      (True, 789955765974206588647916987334326908215322271838893303996387437129032422446, 97718262092474060778189235977241025349569020212100896939839290134244907061966),
      (True, 164931107284937947069533363716446339849304574042554538369791298279315048403945, 12202730083552084504055365141909514741712399254060326753650788016407732738917),
      (False, 1285982682174794737030543713898012296428566392720992046959108555480749905014, 73637401667290502348242386854946966886972299748914098605946509979203970160135),
      (False, 46829338342764656792628415198399036166688011580410806363066540354609858314788, 31564781379470435466737058680911461303995646566830409780207672884022993336357),
      (True, 17209041310097988156383073361922713276493604677540798155033719126983940505716, 34501239489704161543867923009635578519684794630348932948321950706454603085622),
      (False, 10279938242467721956010720850297547770342755933135477978147912625786677110969, 37377885571659434439332059900822033066512849437650290389585450444168151916625),
      (False, 12065645753611832501748632880727210035540479747590104252761152698105709845023, 104656729536726420540611979170150761027335003482281283619538345349129212952172),
      (False, 94592222227506734727794140903061990244437078100577050310346460675477620337628, 51613695289729027328695732364798646135748778129145637547170384495601429528476),
      (True, 46013049060738087398295442783891598266653461288283255520351774471465797713058, 20323318204881118708089677824707161734117692054283986219530678325450855534314),
      (True, 7134118843133252852892024388442746135579798170561342949786631979672638728142, 50917051044953819508828965672941476533443303981377316580230279417810910198830),
      (True, 44779329990341615301720358055326697141694378086688098395053524371508800683026, 13810329476259942616422750746974737046026900076656900483988036019205400906114),
      (False, 1647134977001428956345201688746655442107627303151171738136511564427652548006, 57745439016557217287162384369253294895367932224105237050609242639139683402530),
      (True, 57595225186425105502711577584176324231912376293061849085988816109026931638043, 28483515273924180012378354056949039303045952460249321836683014018062738272127),
      (False, 7006615457961801969437982525129077832147231587542309182075480878206582691041, 53057979539142259887298547462432645724968737732457278525892515112588025108278),
      (True, 48624205873103868525099343268978278670417610473854898833997401962555971575341, 22199328761825116506434050298779269805666553167687744733919736028354367407417)]"])
    (simp_all only: numeral_rules)

lemma vssq_pow0: "pow_is 2 96758898921752810 115792089237316195423570985008687907853269984665640564039457584007913129658411 18967013501657263968638192667675890409919087234565422881664127531877293794655"
  by (rule pow_is_step [OF vssq_pow0_2, where ss =
     "[
      (False, 4255991931068624623155147948507594514464492723412514980843321675710847080694, 18967013501657263968638192667675890409919087234565422881664127531877293794655)]"])
    (simp_all only: numeral_rules)

lemma vssq_entry0:
  "entry_ok 2 115792089237316195423570985008687907853269984665640564039457584007913129658410 115792089237316195423570985008687907853269984665640564039457584007913129658411
     (1196707388443466949965095693175748557508643059665708723817761, 96758898921752810, 18967013501657263968638192667675890409919087234565422881664127531877293794655,
      86094598053581162757403448369740737576928762135394040797676121192839269637938, 14102495381660128462315711706374811032337361858776644819627687116745994922641)"
  using prime_p200 vssq_pow0 by (simp only: entry_ok_def prod.case of_nat_numeral numeral_rules)

theorem prime_vssq: "is_prime 115792089237316195423570985008687907853269984665640564039457584007913129658411"
  by (rule certificate_sound [where N = 115792089237316195423570985008687907853269984665640564039457584007913129658410 and a = 2, where es =
     "[(1196707388443466949965095693175748557508643059665708723817761, 96758898921752810, 18967013501657263968638192667675890409919087234565422881664127531877293794655,
        86094598053581162757403448369740737576928762135394040797676121192839269637938, 14102495381660128462315711706374811032337361858776644819627687116745994922641)]"])
    (simp_all add: vssq_one vssq_entry0)

subsection \<open>231584178474632390847141970017375815706539969331281128078915168015826259316823\<close>

lemma vssp_one_0: "pow_is 2 256 231584178474632390847141970017375815706539969331281128078915168015826259316823 115792089237316195423570985008687907853269984665640564039457584007913129639936"
  by (simp add: pow_is_def)

lemma vssp_one_1: "pow_is 2 4294967296 231584178474632390847141970017375815706539969331281128078915168015826259316823 64298519520540996639781286186801936049795099522843492557283968411854153624864"
  by (rule pow_is_step [OF vssp_one_0, where ss =
     "[
      (False, 57896044618658097711785492504343953926634992332820282019728792003956564810730, 57896044618658097711785492504343953926634992332820282019728792003956906173306),
      (False, 14474011154664524427946373126085988481658748083205070504932198000989311879351, 130266100391980719851517358134773896334928732748845634544389898524697046347763),
      (False, 73274681470489154916478513950810316688397412171225669431219383460276649779269, 196303776285137612554022685522541218782496784454399200885393128320699446761782),
      (False, 166398122866698679391495792024966579983600801455396603013041409030849435547655, 109548051894695272301732712928743296235173463881266979060000103241734696115459),
      (False, 51820360755937422976563827568742477661962512271351407726585985190436555471085, 51414916139133784749400169762435107219871308657656583986337364369509228217726),
      (False, 11414828158840421950257251613217509537750617881117358328619152656161119782088, 104470010358278761558357510377165390489638322128306964984026419233696948144652),
      (False, 47127498675192889745213091926661696245253625319851617751586269036027809704858, 123421863477954572072276718393853044387208705975974817894245962930844771974970),
      (False, 65777189463914378291567835206889737772878665378954620566121916531835073582385, 101202407573525413639927849847505168353953494992963751442958569428348999538045),
      (False, 44225505240202967201039612778443737902462895689989644386459192220730504168772, 66711909879204517146197522793429097406272340022006494444401634009717191570669),
      (False, 19217543050846232029986499050228802637425509361436862797628095025173823276423, 108003469971557694070329121644846479811839814321734975914076895535463757943432),
      (False, 50369371529302961690137029823553125374509241514346369958156510695230242682730, 48402650701528418291665812096917232089951925619657568839756217665293571371834),
      (False, 10116479503761956611585409243725382680723421983935992349314173394112881124793, 116176141371596240957736172772244590148727525375585277204043261369820701230917),
      (False, 58280733653277434838640297092613521189915650214860936439197053130807833649092, 189000048162346400231954488197673546577964909032799440586613523799291922386173),
      (False, 154246367090583092026261836106398151127783838320910980603842444172461419759440, 108358446431356798516951674266772540942849840754631226280254149643410736526809),
      (False, 50701015027688449954314326509979437972452620263812830951130814122525549619571, 222128565299681275194368751552710731999860504860098990673280987234798365379548),
      (False, 213059026083250183788215029280305655755576359179064895476384547056151698958847, 185190939462513103585800111979544698941102156678244565924718379832139484901223),
      (False, 148091654122930182470242801606009424936410992303646138407040238608977332585187, 71220388729273250727541664610723628585022820931349684846762856406722997194828),
      (False, 21902807886784952156544539178231560221216930788034271476103486271109957894827, 24112103194709622989742145084137863119513285840170270423586749568104684174963),
      (False, 2510506219819380051956768260090914612939804601647277476264233078755664217090, 51769739630191777366797787434081467447492139123698285117434661151313434946299),
      (False, 11572923327624587537716042202110477803188210450915084838752362096989407991292, 86755014057363716276322883094416319992409486794286147980309688527312360692085),
      (False, 32499769689222605833643063298108334322302534867403901726832548467461350229577, 96527428732811447582295208975906887376791933983920044674149354047393953373354),
      (False, 40233942401158600524497234274407596798250326243709783783840023025100206680925, 48270045731393153454299453825975020640099698816160534960885820480805271508041),
      (False, 10061124772243510908316373731631360307536221378515035164608148525341259710179, 84481757185727094328059745031745360358943401015938313361492285270910808616364),
      (False, 30818889892212360657805502871867920756844484066259826136167902983852062797584, 64298519520540996639781286186801936049795099522843492557283968411854153624864)]"])
    (simp_all only: numeral_rules)

lemma vssp_one_2: "pow_is 2 72057594037927936 231584178474632390847141970017375815706539969331281128078915168015826259316823 157663114212425121537304840301235699369263016697680917607560568077628647160083"
  by (rule pow_is_step [OF vssp_one_1, where ss =
     "[
      (False, 17852254155550011385264964566321946543771953089632278928242116892524831051484, 40398539254163378022752628433400954942367007711434408128769052653644258703164),
      (False, 7047294787665956045461612636448127745830653215155355877298516743675418462317, 89813264661799531926825598559464644156999625839937558532817609298873473952005),
      (False, 34831492213074652121330251121600358660197675820812299518106753339284158056263, 76318447844875392138452949169981206748859567746190533213173838431615067107576),
      (False, 25150705543941028143324652856923032806631145105837132939728804523646208698078, 85049944437121631667031932283060204687085502523306735453541730335898203429582),
      (False, 31234832605586783664965167590358139759114458694200674504826689794509631956884, 17555727477557228986478157491806227399020893506146965767810318604724400835192),
      (False, 1330848978096396005329575211850708052797637753952513359081783855557469098888, 192861644364496197210038205197154589808055832134318806076952597180734836684040),
      (False, 160613795432712583909543664662384793200136126002477304755741232867179915759315, 90956913320639245843865152705437595212883095309188904876737962967599592265355),
      (False, 35724202470612726618514240961774593350201269447263303398523524502143189973188, 69886583522187388129245493362419418091640852341605757353466572855320165934301),
      (False, 21090104637431780721628080237207794204315589464729511160578029394041475959023, 42210434932142946449244200091290632829876622930614277902003382022909525814672),
      (False, 7693620647560093444686027551225441289683659183607653045049237024334129185720, 191796097991829677225156654719844585088440331095735937812160707847132803100024),
      (False, 158843939370931693052156646375647006015455868043958031072704199167789996061974, 78359303952013233624405872518084380623083936914900238145152185521486940011974),
      (False, 26513816946767755634715956987525147930522411830835378060885878950553891921911, 11718429010852109337327544308173917573891999991012198922769618662277938767923),
      (False, 592966149012733523875934512288103094264926144587364001154827905817008643930, 118882451535640263537255527181608350719964665740623618511148268029467787899539),
      (False, 61027646086245833618271362315373824303762351515109290885477082293840854333838, 59966737954729827143935041469558281982764101842814915287256762083464904855847),
      (False, 15527872778775082944312364749582985378202807618090750724074742786439851882749, 5631273840304849252500630856100401231116248201916589397662945335620810900982),
      (False, 136931828734471849740442538917449996509171138012690534971962004002184265872, 192242083804107519031359225912253599429747136263036683374664565318924094199668),
      (False, 159583521762017740270567152861544565883464859404042190338734535534338711764754, 218886958304413121894719508743612749673640024905655244668603535570488720653682),
      (False, 206885897090789771387347218662507238307285743984648122713002450346248538750314, 25542792760820964430542967988002484759700134672847088488583379308873563424702),
      (False, 2817266128971393321091606878264976800681929654873551910280888958776972915102, 147706550145709498794570802333051603809055224993499112817792476422933524427858),
      (False, 94208616061985608013691643671599782803177420939373589494931177334887649179974, 197051118165632134394899468297708317094140934614982529567963559043792833565562),
      (False, 167667512634414455364264458664476331265285700421298697084035133469720925339989, 109513159872638793574871088458866037714359125369298136994815437292054010040897),
      (False, 51787355527846929561533317555923452007147708440535371389143274021446926105925, 22384029584778246404825440300418357245331865225601627631351943255741380088334),
      (False, 2163553588817864671085504064721547556410754424724703932191715365177226712291, 121150855163351993712728178003381445948969304616213827136417529737781605724063),
      (False, 63378810260214997038070295139543891554923648316500293489231707408434822810882, 157663114212425121537304840301235699369263016697680917607560568077628647160083)]"])
    (simp_all only: numeral_rules)

lemma vssp_one_3: "pow_is 2 1208925819614629174706176 231584178474632390847141970017375815706539969331281128078915168015826259316823 200248178218629251962931620674648408470214507186706572469114951490803091723735"
  by (rule pow_is_step [OF vssp_one_2, where ss =
     "[
      (False, 107337460386496580527280518479550042045116133035560260021412619041017917974488, 162357978606178876806164377272708435263759153822735545004044271240114205355265),
      (False, 113825190437057041007357156934675381217139381467563720607723061511346593387827, 23203975259049182657858005114852223331214844028103181314484151571898758706604),
      (False, 2324962229151355072201055252994913021762009669741512371464161610552559232267, 174715960422139955166498088951163984813456272885974565470941243672322155685075),
      (False, 131812401983991927651373663338906025599928903407110566777836037293639452786295, 28232298343867293776570720226713525218054029520103488873223019317472060414840),
      (False, 3441783782584446997260407674147433850136856590732569960411175469654401476246, 76971170957904134826275753022501436439978822557009852515404560450930269539142),
      (False, 25582754390451065476578918464927654226410579600237745075359649411807628289611, 2905904178357969990831912830240080482381275139413196538452951016556221670311),
      (False, 36463108790151182803401200939717613187438452417167534816992276925447581581, 173490582137176165844738172961410270042430202054049761718429641099944160599558),
      (False, 129969941334283751124516447431414101325423487610299555991266318250519486991551, 167347781602425313869267189978891300886768126757189268253856978489357196632891),
      (False, 120929159287626913595089427090329071674557233702829235285586457989995698761082, 25485428177876868574690590552971669195848443567057169607614178676547002735395),
      (False, 2804626178212200045437995030346577545596292589842371486115418346666475895240, 188772578453408910054328374436936880543466238984550133360149565331612668183505),
      (False, 153875306209020105879201004259623157987068305543379603688980431929224664093128, 28705914519954875239055875976783232357781937788505619903196690799716224992681),
      (False, 3558228950935091175250180416840293034198990359281435253293273028777935331663, 63779363318220807128526300844705249403720370375633572937305099717554203101112),
      (False, 17565134250840867808522705952147780511429126489057719168527172893859008802882, 53374023736681617192142176711661300318355906865824344626133523106933302152658),
      (False, 12301299806436937865523526705663699112131651936817286378105148468878854140009, 50331037066406629771587670615352709073031621884702542562422429042155205393557),
      (False, 10938628488636087619155036923596064806051941239218794769149160286616856016961, 69542060273309528261524686628387085777998579943078748573950654031830496477346),
      (False, 20882679373480425170661176066456697392774327487928040564565315588247496877038, 102352700193417537829105309181186898618510293398144065497939885304871175393442),
      (False, 45236575770788928308846016042854419669565881544918710902802098200294634510813, 212749220595582584052846256070477917223089870947421653940422344462995310300265),
      (False, 195446127460671333090380166931875148044566282221454695834997793872802159506314, 7967019006899635607901086882541365825453472575898433115151337637523864149803),
      (False, 274083455417283171537318204720480019466400088002971552825346583329524758926, 179694773385075224381637455214579529236552633249609034917122398585359493726711),
      (False, 139431854950534075515400054119605104687031376633171400769916868974966157144952, 201730532513979468350454751848509947246123280628280149496311545000863451750025),
      (False, 175725336749770490473839646978101511509480508978739072942837271496842832372653, 209246874206719206981354758519451952785003760492712227833310603193659159459206),
      (False, 189064100378855008694798471295614453361013989441578720051799453718304470894424, 23572154880488042829297492504920698965536317338732243843419022683484378055484),
      (False, 2399328353817493109227228161649021125826180722342517566239878803198589167401, 39840315572905552677265019979102339862750889758261250771018156109262339987233),
      (False, 6853882486288100670638910382609582791662599118972958860745983289174939999398, 200248178218629251962931620674648408470214507186706572469114951490803091723735)]"])
    (simp_all only: numeral_rules)

lemma vssp_one_4: "pow_is 2 20282409603651670423947251286016 231584178474632390847141970017375815706539969331281128078915168015826259316823 195354815258252935848347047835860985373540182529603781837120775951094079968266"
  by (rule pow_is_step [OF vssp_one_3, where ss =
     "[
      (False, 173152298848741787492501185987945738635112028170394699671371441187471691637085, 35287567261806229319700270520704523014279055370942900708505912046679011169270),
      (False, 5376932100708679011883839822758420249382057151128024891601328101414673891892, 66280479968310335413885297486299181303282282108512133940045876711394113433784),
      (False, 18969784783077509448607739037628320995441142904999712201385492400161961715228, 38672204625418282427892944525653070153424974931963337444692753741246796878012),
      (False, 6457865215321882615803710264335549404731190438191926085646448413211264357544, 160553454802544796589389188679076326337329254808504614354731533988114562909432),
      (False, 111309036821167983846730405822434713702122832566904392375767787313434444945338, 39787890338474143945649499321281948154319538654083182592000195448343175741450),
      (False, 6835856525318949910178721117413724271485114891526176780605137082927305823076, 100547914999519247425993624464845681060136418705757616948216508232991779694952),
      (False, 43655327740180570900522914254761630779331860520612272819953221755013631161427, 130766100631386352146084071042571047033456468604671189184064537148905124495883),
      (False, 73838261261923651997702904849471574041233280381801362831341463568861110583542, 58800341286488310594749125924313806591544891550444534109955020354987096422623),
      (False, 14929690612634974756189108703183554261271989182653036972369571731163307049011, 164434921884747187771854385060276701901829783696890912918469400112915188388076),
      (False, 116756005152591761963616594915035243840824075317677869441173036934595360356583, 213552767855040076473509955953760014059357727536086251576852639772379928285967),
      (False, 196925303615005643915895587140658122772003439110749504011440442074849312724772, 116552171748240218417710058394737830431957449122060842796922531304629180685733),
      (False, 58658621796649697825720582118316491928225575342323135143770244072273864433939, 87246388468704966206160216229954259081273745048882390991603782533892354891492),
      (False, 32868965189977267640421597660829437098832403889205135224246828146721003906097, 218716895100262335591090668207197952897555710091270256029835288350277429616233),
      (False, 206564543905313493065518688384074482243030237107268150862451491325444439286091, 158158560212905727795494300043457503621557958355610067482608022328338150901396),
      (False, 108013122197634763552696875500528358914617790483615841156003335916213367387567, 26720912920026511767700103376082174282858137408533736411671995634509630609175),
      (False, 3083143209447927530039378287844894069165322504364529935442394714036922486048, 97821324985885204755860447893972297104691651224132992045776665268654364995121),
      (False, 41319798636599665449582623030842370338664100729978190131824883555620378636596, 185442560197546441009808640350141519552233727267704028100745010545311207550133),
      (False, 148494354662434689030377434896922197991629194049753001717709663907587358542740, 192816610709178879003576816620323691337158819148908501841522507414278461802669),
      (False, 160538796779018824982617087128147321045027286077981736656008843205229253211103, 195503503026308684950954708609814669340480001399323260385499141632225317237792),
      (False, 165044175069777770942535273541624988663895796623735630515099224960545305884970, 64224153259118044823463566117308574501183803924667497536462966129343049184954),
      (False, 17810982982598291073148092007535771107527072761391319589578116789053724708823, 140952055158678064031412297919194646222762997408829362996764710528997119552787),
      (False, 85789461025858884220863814159469659175764319025660664242997114966821985342370, 144134618629648095584237002002626154655192280219169440637818469628990923776859),
      (False, 89707286673686817710999956671293812187967053558401063706413841593120302652900, 89869426234046874307243114228038589657836294674985894095961208112356724169181),
      (False, 34875067134698451039490276343900493693043169812661609389507164290547527663065, 195354815258252935848347047835860985373540182529603781837120775951094079968266)]"])
    (simp_all only: numeral_rules)

lemma vssp_one_5: "pow_is 2 340282366920938463463374607431768211456 231584178474632390847141970017375815706539969331281128078915168015826259316823 134449631810251505708393065651854326344697695002011518167282557512501546411238"
  by (rule pow_is_step [OF vssp_one_4, where ss =
     "[
      (False, 164793225927420357970531306978794563663955957975240753792870287973204015684806, 198416147420178778731359782881638253061624315022366969412006972142949505755418),
      (False, 169998519831433881128810869623645933324324440432945724590652591024088735398335, 60969327306013004969526291435911116560200962979117591463887608900612964665019),
      (False, 16051437091394089379035363515755015612058047288315906256028607229574036578436, 107685042673820733369029969718664767435780163975496038397783709624913068441533),
      (False, 50072800707034568158933942204230533963742702428658059501808352669771914100767, 10202896814973543795478467913238181663380341451126135859645570469719639086848),
      (False, 449508701771698300333821412754992879842707794183919792105771455742570082092, 85571278820282882674168342332540171085690731205174308216517775175888339941388),
      (False, 31618929268696524949736363410827291960802052892079620797798279604386749493754, 147621431399321497445373029686475337115411802124124470830037308372414129743002),
      (False, 94100068285846550941682256855699202289283895042615959619088304583556094112841, 206876889373732801756741072016258114768651549252487065189587647337605636347861),
      (False, 184805575401774501771994377743221852628704357744105727265199621483915473365732, 104502660479022286100600015682192378372299099339258363830124009936035459965885),
      (False, 47156960890530204228772006616015299797334740807981494326683043749986032193109, 169731717032081565592134979829650602068196961262441268383840291594838615460518),
      (False, 124399067140134162227419514606353997847973881301471301277487911154400952188197, 219905345652880692109285587863641833168448400039416842009897518208477072690193),
      (False, 208815478523763153167104165924855353114586255148140924730441643000878131156552, 135329761459301131858862237886737233025382135100222760194547097242339778102953),
      (False, 79082018716738318787012367131558871570171430379140454494498973147945487797886, 199730340894467011745287113480464658075328517849155991712093600281570403684031),
      (False, 172257920798288787926445400543709817111499195913991547573975504416136427633195, 41001874701002689968276797428531878322658360294253225200913536885657347669476),
      (False, 7259363485320639563810327650318978707380602908116518028598870630082680507544, 185439995654965296092112659706812243145526024485573051380625049757644204501864),
      (False, 148490247542020192267264179337756121256127953981810433647907237231344806360183, 110548382677905735448183208900823462882912366551284034821397082858813530215887),
      (False, 52771070084303555929950002080787497337848505194745984169227282745391740370635, 183983772215267437091847573968979999884672437443594290563932852580284916504164),
      (False, 146167275595069757731465828202347047642117485642795286446525770378184173669477, 13107516782759428623287076805859607458845422878597249474355843017183601627325),
      (False, 741877089108398354637476414279154109024542318611744973177857505961123256613, 192978502918535434359311107733269418488364247508283237235449651404633889755126),
      (False, 160808492332987748292266516649224756037084873875679330132347760695601406232275, 208439371805303755364123850095794852860236338912471270717810556739064290213551),
      (False, 187607685485080823654124056857351994172247027241088122287884980881694250620390, 119456719261573671099088789821010817787931878147712104323215041716047870208631),
      (False, 61618664412783036110257977618396455201929487870047453359918719611768930541454, 41750943413495755312624898500935631735956837462904518310447324937253945813519),
      (False, 7527030937080476641761460187950987718408475386282262067026189369467057159398, 143994549081050432009131986000890908945828667307733875745407283711344229210807),
      (False, 89533016899625033721270996170158600409210443030543026910611173378948896478935, 101270275854298270810306190812737326287736736357266954894493320587226734967744),
      (False, 44284842078402467071103701985355510852244250959179732332130774300877244798326, 134449631810251505708393065651854326344697695002011518167282557512501546411238)]"])
    (simp_all only: numeral_rules)

lemma vssp_one_6: "pow_is 2 5708990770823839524233143877797980545530986496 231584178474632390847141970017375815706539969331281128078915168015826259316823 49573077972088924977522044071480733163993024990802149563834223849534522613668"
  by (rule pow_is_step [OF vssp_one_5, where ss =
     "[
      (False, 78056729146945183790409032081338208461247391504247133184206210792794643837458, 196492383436403301673703838110090298034250690499762685676972908396062875736710),
      (False, 166718024533561891255968278990969485810607431792634955326717601216852925410137, 61851949976535307739609292127106541036923423175103450513251401083050542789349),
      (False, 16519538342809922344097007705934365974416630188915484300837307478179745725440, 225838592444978889397453302402768052224158200274103788169668019191268456766681),
      (False, 220235553972078128624068436552821453190507075414766564918341813644850473356832, 204772429821314684405163081731356952298490539732228692576243989434645052171025),
      (False, 181064821833320660565698762739580721418263888676813783408292059139370167680181, 30783785171431218138040342517832511645609106567314619475505502395758032565662),
      (False, 4091995557393540579210689814990442556693625048849211266772163098533359146693, 72922352732143524263214771755696203871224130564964785531654105367257921781905),
      (False, 22962145182010587316559465591046902725921721085489469468352303815015807213823, 217353474291379570874831265096499911063720372338953892432878705066783323384696),
      (False, 203997238057039040137809524788092867560007914018182711940064375495167078317220, 115297885525148954352759198108282311521523936097736971498219477956463930420356),
      (False, 57402895543775357641055830395389430190364215582401768185619912236180911656748, 4854092829243608613258992377244655724314105997862954410655976245775301295132),
      (False, 101743639613511912559131828696914287650784476918746963711033736790372787155, 47513094057145189673952753661595400492714100980249873521567309710175877088859),
      (False, 9748049809587533019188849528457345182474174903622986694512693180431728244516, 70480826560207259636876184497323620787308571410978494694946584918533325629213),
      (False, 21450286221319560358992880861466530028279010698318099273416838918962538494609, 189796721556751564286378406657834548637614349972582754859576598222971150492162),
      (False, 155549466940968085251198829123066660113143749539712237332377204309084950371555, 109295325308653095269875477870661979600974040473594079246476910757600511264479),
      (False, 51581538138767135656584692331368330405873350662756628391213418187747840890846, 221397150577732467635355161125736142903565679277158288089528725818447812639183),
      (False, 211658234197153530014322754580771742467849116291053426010210111711680612419805, 86694882297054608601684115995528365924785240053463822113054708962715572027974),
      (False, 32454732728313093909444835718130228494265057623156861289258588810756812484004, 36766434970274852409256245456004554895888790454855856423272484508560382945384),
      (False, 5837059981070865096098114015774369155903273556900716651067009202732027680536, 118724514423537046773104400426938161007074656681889072534724915120046472450328),
      (False, 60865601518838952324332964013742141021930570744487229265277243622097943479374, 8102082394964843245654128028756235217900258970621862462514219488659595598782),
      (False, 283455197877387944514520400938056811238400064779763639426958221589137959469, 77995603171891526987729961139344883508064182293855399298933917341232916036537),
      (False, 26268263031680027551002882438897322082362589911099619493280570232899834030154, 229305556632331289433364879273835230272959023516468967230864468054974297471627),
      (False, 227049354790975029799016365657554308801385425358728118402602949945950658623346, 131201208202796413393916490208815886328244102208504625474433923352005231677371),
      (False, 74330453605487210634484162475701079871497694454561006464832317492839240019943, 39998405408707357379057266251786567339861913398409806071862729042490158070552),
      (False, 6908384008688051054862969126793517655429523690992603200743982622676857093053, 69820929597176731456844158745005229408128995695320270332897647501485890254085),
      (False, 21050497671834306630031957665563969621175962256937133813873945676700879447059, 49573077972088924977522044071480733163993024990802149563834223849534522613668)]"])
    (simp_all only: numeral_rules)

lemma vssp_one_7: "pow_is 2 95780971304118053647396689196894323976171195136475136 231584178474632390847141970017375815706539969331281128078915168015826259316823 179751013597031760831964002692016967725778562605715841331059027942350698091357"
  by (rule pow_is_step [OF vssp_one_6, where ss =
     "[
      (False, 10611649188703106380641579940495315632992377555485917126426689737876989432070, 165824836419381397200299664210106007876118657960188503561926885182321013700614),
      (False, 118738147634410620676256349509696293016589300787142125349014091784647061596607, 8086876911172016570603434139256708487413557494702598769394719385995389157435),
      (False, 282392254113381376428601919918882987836788781213125824541347052797242814765, 88712573522863436826494497421658564565457655730514054045730228948384778487630),
      (False, 33982980844745047496011434208050726142034825666193410275859351376333667326713, 150996146156548250328938229509345225532231091813387721200572890463789944824101),
      (False, 98451614027800102998221152007234044781277020382217002162136197792043234331175, 4967418875104159019513565110329301685209572030713909447642531269004999601176),
      (False, 106549810281810691685992486442411410332312573200748238130034909722926347307, 200415674507980050924255352119295512697571841178176925773289951148690414737315),
      (False, 173442084226355799303590713757408187432792319090812742985438861043868577983699, 49399350273327116497881460570010001861052284078139237149281819449105882940948),
      (False, 10537402958614344974293018095580115542511447465834295796132903743173343921981, 11416058140469356081354528353938681179500298040419727012847755732357182352341),
      (False, 562760307396614901959770939664346756917343688482495487146222520820789414154, 57273093856103310978109888653270328731791980649564434589380531183415821667539),
      (False, 14164211482216307830660303573803073481078427072776009135539680677029939958881, 200435195415387407354661268648333289991033348129801750179565706112190874761458),
      (False, 173475873118012702696817289628275009404011097557234225127823959257370960036124, 23941046666294818424060130361890231535623974332171455184853196766196761371712),
      (False, 2475012409107608300174282422294206220177787138802828135740144592558766019085, 176237100859547069553127341562868873048084909744556180423204337497908354243989),
      (False, 134117606496077664752963222575799459703029493920989502700451307804810811940431, 149412188776923558025478356992707023799870382588794193470780722509378710461408),
      (False, 96396922717915297867897799500577352596718224441015299713729951451674502645703, 109715324662631941416948590518383123830904912282612335105630033971993460780895),
      (False, 51978734234408456983683417670293551489484120084516147915360507002465253897251, 115183206558053152182029088323345701074869544917002788768980002563653699247452),
      (False, 57288762817829619690106852711320861580091885918105420936435270083858419463522, 8745604526879093204676462581331830722783367076487862932443910455057239061698),
      (False, 330271260516815832248979703492219188402653202470464118781085938140909238843, 112855025068132872432701470331424151641501907440956395016071902324601335687415),
      (False, 54996229738224633980990324918784288628288005425643364348186141697322339685520, 195799351357813223677272267886734899114883367660221096721264034105174723879265),
      (False, 165544063694920558590207705020163714476694920057399042624764967505367886010006, 208437161391408647048621373591506090119800650305535506407727861634113394809287),
      (False, 187603706501336804485913825766128251266970149112957523609341594842097348518099, 168613281824559632526169107064656939489509470664416363117897622180023910768892),
      (False, 122765030819074831746931414112005375997891759191511090125264780516816944072739, 213674783319598102807952350047897885072080375651454452860422858812081276519467),
      (False, 197150398301835778820253133027059085214775860881483941595231121783796833041465, 69220762962143606026804003220800136244737637063579888195405737177805498898394),
      (False, 20690161377264086190821726665721024265266336148788597847531080289381787604315, 442621497532968949078105212677538232567289163365832804490311105145788887991),
      (False, 845972256691915294364174762592954632957161003755916478829636461231094188, 179751013597031760831964002692016967725778562605715841331059027942350698091357)]"])
    (simp_all only: numeral_rules)

lemma vssp_one_8: "pow_is 2 1606938044258990275541962092341162602522202993782792835301376 231584178474632390847141970017375815706539969331281128078915168015826259316823 68027887834497076425966754337418320997177049339366435045727490666640886473643"
  by (rule pow_is_step [OF vssp_one_7, where ss =
     "[
      (False, 139519146350922086570158410483125165957532176252287555168196643380620484227386, 170627305595319331374651274535982316385399535375705710232351831520039370986771),
      (False, 125715312706077580880075509650904943276163431155390594711021363465157837354430, 7427248782006609056359371786984911523756830091957745818790505653840744430551),
      (False, 238202906749354192057135612165409624984829277028484096800231219431383139942, 70653414743965202260832793662363389166787593993179155263515816244087738319335),
      (False, 21555466560206184716317934874915044732812828041185624604340748124859822904835, 8319034981073032227056102469822595986339828730358092739426139644995991303020),
      (False, 298838821685297521706383314275495531815140359777318975393328607217656374403, 28298905658994296301386921781756654868664376352023951883983342629083576638731),
      (False, 3458043061367345059099543615981001324454237340554391201770604296588383834335, 148999534492612920082914756127312037192099384277044027338997290519237778772656),
      (False, 95865190036923087923105652195762404151062355387070661541241714812575384581190, 14219870229297549682900085660383023835083722146929213694313850563256356934966),
      (False, 873136976238694759306532981303488034163790374315163316551354539545334703899, 34005429763285234701813319689059181784683154489720724769937269855701219028279),
      (False, 4993299892083920462862883423570557995161960535392716579596666081373822204583, 184480026598169271710219429494558548912371614380299885820767711930527682102032),
      (False, 146956844970258560898856209524941636869307936313254156138856677823765481169758, 142930127965429358828287344753394136510332687704596926966147929260794090290190),
      (False, 88214236459386606749496610647130314418371174881844141656897402184483481318401, 163674285360599583299849561313140059001937515880165149229148078488344811476077),
      (False, 115678332884202043197412712596837765905039123381644560436115847142756923931761, 33550815852613220743674604599044094222008035220757874078013272161576611994626),
      (False, 4860682848846975533456975455314773715613636116513902772960537414366688481301, 109586347869286029216431779305940567768486757283854335275744528634946582653153),
      (False, 51856597969811864953811347391087035038694382897701162414550723808791686843591, 114552774700043996436790396030373793019709906334419266505045890881915784810016),
      (False, 56663362229283093897287891753475518591732629194531948699477585594877758755339, 18974322248459672931993336593552765240643941406771966635099266979232270152259),
      (False, 1554617880892190037798190470578760452411199513711153930241342924545872353406, 34995598035084906810172171731331336410084299295025994513906497412614265653943),
      (False, 5288322759783828217210467290112951444183840070748034114127466480629724912381, 145178012777196806209234468689853586376750493336519126252239122000672837161686),
      (False, 91010774279835549608051313681339536937571767499124328794469694251096348179358, 215482999607100752707284002573144562847627996233095594285585130349191555622962),
      (False, 200501275283622283944849454073473579716325797520235159757148036911488187190068, 137901115715414981275546075431329374207420695831783697061252761244034170739480),
      (False, 82115789778097271802147199430507070617359087536735268770760734668008249461957, 220593509519724761947267728516778287052014069898696132647823445756861882067789),
      (False, 210124442709108704982173595694450054129701488900011730452930933714876019187068, 35704687490226734282539607253381388893833505517468418403661090071596874903557),
      (False, 5504800531588979347535772315278759691985766101490050260858748061458078345744, 216597279090400605716569045987752146636689045096659229055042606221330621600937),
      (False, 202580252322823806840960100641552746189755877197066362852258754196375562418626, 164474516093196850313314585000027497870006998602598805464189867023832588932771),
      (False, 116812239170537796183031382026486306001980240149380462501482320575782763703826, 68027887834497076425966754337418320997177049339366435045727490666640886473643)]"])
    (simp_all only: numeral_rules)

lemma vssp_one_9: "pow_is 2 26959946667150639794667015087019630673637144422540572481103610249216 231584178474632390847141970017375815706539969331281128078915168015826259316823 28052541357726025125550277607643915150799179624027910683980784820872119565430"
  by (rule pow_is_step [OF vssp_one_8, where ss =
     "[
      (False, 19983202452363736928131419767586018949837400664925255131567532548791627737322, 219337467455291997135764640058376678912051837261817692410308100322746714123443),
      (False, 207738391053217404106179661494149250215084227279117584459773398737875440146465, 195654071140356805167517833112200650896584311022831956659639132577649883693554),
      (False, 165298492349247551098702712128139367888844971429984401964198938429471813752875, 43464667082251128667113731071265833018974650808028775101705739153196129034791),
      (False, 8157626730005065216695830216282043850311198979766025938225763000850174800457, 159657751003187384356231468777606337580008314844152110601052760673318120225570),
      (False, 110070548097429759775940897845894230746542707135667423179834142199411818361002, 219448707258623714463230154227909976397234419666754943362173072713027576088254),
      (False, 207949158853078996194564447072583089597008699902327586443593935797016017433121, 189656062506395790059451958531293946036546731815499160331935475753576844073933),
      (False, 155318995806831331304386138432994900389499882106876808536086278931403048010608, 61567893233970454861746432409303416847340442630110965543747545504785033230105),
      (False, 16368153913782179407214952880346181364946832252909803554457139094054030376383, 65383404574746706283683470373452459671869531659213195291156298224182744519816),
      (False, 18459765351601031898893266380183877607416699252566922876707315691684708515977, 118665618703879072031351076538285305800215303325524712967480937108734216292785),
      (False, 60805229248063239109376936995627878036224305872387774048845872804470048337715, 53800990678589165530770799159077282917468236461213850730808510339766158176780),
      (False, 12498896155441402015532515505876458087481228353021150693484527899311034529052, 205259416209993243876017926768420374111110595020050675848640414546984665326604),
      (False, 181927056590708728894854870753146070543447300067607264773718860417624159287193, 231198259882578709779027598200191615689477867672073163857183515673343156824977),
      (False, 230812984396460303169088098274177569621568550481951520640264781066865597803894, 191726784133755164596636089901084802339766795945100653210086161753349841941767),
      (False, 158729149790766600896941055954127036110040456120285778143919131349594163175050, 126810795062215994796922391715520663099897522813170380141645390246107460216139),
      (False, 69439017165297612829392331224260549530607495878473866995681416175302368531884, 88546692352426580619292716005414920967380300268668964430651339572393262982789),
      (False, 33856012004784368193078858237762529864300846696458838675131213036593136944872, 219420388924782404167106633697201852200032653482917720504727725687681177036865),
      (False, 207895493522138794794098376783753565672190130185308913812076112604053366906669, 12538710583877810016509551453700125923536732855131277898701625089896826435638),
      (False, 678886028146655652466666765777829375803495791579895608042335376216959748437, 195467708274995789993102703182329001038607328567578846283968212698514194411393),
      (False, 164983744701126466577586236838287015512867766914496603404682458256473265216634, 8204649087549776309597970120922126855511900180087288831774232565695792566667),
      (False, 290677312643813296681008185196600676550152402922280645259114753557547077876, 126365900345821205304779405802291910495283397688451225290128924017567901580941),
      (False, 68952641218360171642396387730470513008969060542525921392456034051244442867089, 102071911004377022454857454792273401372861717411322346611633630958074643707234),
      (False, 44988716779832691707361187625857476126693938604730526591106467565986229014664, 201354999743252046936836182060287191020496741146815240194225553531338015038284),
      (False, 175071700444536984457494214886703281788276391517999892421913173030535556021137, 82617513556737862584910449219543216204159372343375507832623558824032217976905),
      (False, 29473747262252818407359818059838525063896306153928859945013232756848569828765, 28052541357726025125550277607643915150799179624027910683980784820872119565430)]"])
    (simp_all only: numeral_rules)

lemma vssp_one_10: "pow_is 2 452312848583266388373324160190187140051835877600158453279131187530910662728 231584178474632390847141970017375815706539969331281128078915168015826259316823 144666623620532876335086699043953943104862761175440849097837109789747484042931"
  by (rule pow_is_step [OF vssp_one_9, where ss =
     "[
      (False, 3398095162675936651354394485830172219371284469433873318780767004455759270597, 191991580568648043774416069290935008721613432974370510168413874799586039731569),
      (False, 159167898480963724981005471608063729645623750152483317799406544760238267019021, 202322449618257266316480145717329117013486422803878385840853571086721368911478),
      (False, 176758075137745990766544719807362248364003398453708660939929810630559388453875, 128942239708212492919289902033379485265574958753921383539735798310522853105359),
      (False, 71792906106456425878813343999215016700265700506866198836512394471602954193924, 177757586429180394421331198237361445180211858302564153938292509523342656935429),
      (False, 136441788645715881201291112316058240193256360208299391084792666645773447512898, 21425880952240807329047141358038780635509324262937843924673716221043914530987),
      (False, 1982295930591310032112861351283584128326653716789580558281881907204734146780, 45834301306126919442086764297996833761737820031715334847907406876025577914229),
      (False, 9071358803774872376075998540092490379826589641680423974248302899944392897428, 214089978623069833858448506630559330324500748064628461638414741365953286833197),
      (False, 197917315633231773396905314336003138568687080114542708576545553668143222278047, 185275522440129366656449812548979994291222543824188837405706409074816930556128),
      (False, 148226961969351650421465172826464641516039406434420672110886853944269305796217, 42520487141236196467598323632707149339215542883081195179100622113870880493793),
      (False, 7807061080928199962248543613818179747878245217788464724121049251381645527526, 8607464560352292269233027836696821696583379676956145076171620381953310156951),
      (False, 319920154501557581508151723768181987632529005792901089231734949188182448258, 175962143722084304223869225393739217960179768936165051353646775975205627172067),
      (False, 133699444526876813261704483843539145966539569163048973406614641862516283238695, 85645471819882730437633531784735603000724879914854978248741093599975086986504),
      (False, 31673782257339376174607395354170970807389332018745650843303127681581551134670, 17318882475371647359494510058022020012153940620440800587768306298377208588606),
      (False, 1295182132783698924552477824571139162729992932442515306897209496499256830891, 57249985055760402473521458275926643448517786759280217295357089909916850643943),
      (False, 14152783711188679925842711424288216945866411792842307577626175556063240035198, 55398928354962282953375680842079054676716643737833154275251006836131809051295),
      (False, 13252378824378217203901235080005746032990607272305584804921023436394787138159, 31218837353082208796048592370571446914248921700957131106781531964525287228168),
      (False, 4208473187148058456923106945130095614082436510257858843125218777428819024711, 83535357669477185738095498867619717854028605267469758702683877446004477623071),
      (True, 60264531255375586147887183850377264967112054212593731839608404425349529419940, 141237325668634154831582591316235360816230487659292420998841424276568029291462),
      (False, 86137068142644795526843153402489588206971325445372539093258418189319580817601, 92379391485089524706993071208273085946291536490240108650252185400083712295821),
      (False, 36850323831989392976864998649725751611896757152555236129668054679156069985812, 56225885033083921028418387944006194336047433448833166500533127421024191148765),
      (True, 27301952737672561792557463240826883238303558177451963251576598158260254029401, 157404721873624702768043586067560094579923824062135004350435226034837506137427),
      (False, 106985920330594276632974309223096694719066032195151401510486307469864959035135, 216527928753281821324249251976469287998228166994453141570084959801366656604224),
      (False, 202450548388053957211654857339728089969281517398505504022818233910115540013899, 43092555617034182882971780303980681904639489704407243780352342904167310119299),
      (False, 8018545834341596193973494448795064795505527843019812415010148895877937332890, 144666623620532876335086699043953943104862761175440849097837109789747484042931)]"])
    (simp_all only: numeral_rules)

lemma vssp_one: "pow_is 2 231584178474632390847141970017375815706539969331281128078915168015826259316822 231584178474632390847141970017375815706539969331281128078915168015826259316823 1"
  by (rule pow_is_step [OF vssp_one_10, where ss =
     "[
      (False, 90370733128720234148788721086681919372332088072187714760831050663889309785586, 149130536117170997666634165815534651081336985168905245917108166233176078357483),
      (False, 96033835079243084729249382005672305476274837144848511583295055548715927150304, 204047727434363082629215405224514390883785793802759906480354842382690865331097),
      (True, 359570980585695379394705701490462215038170914950564871293386897753347432233709, 23246810279910999928244565196590947567638398382714602632617887218847659060311),
      (False, 2333554009387443662871915195310007314141618705749616944080352222736098365644, 130767710207468710993306182166453443111315390484620815060340052045789240987709),
      (True, 147680157992983642216606619190631684124030412083131434606440894369270668884385, 195039587097872279421383457253347605460937440010556929121288630020562105628507),
      (False, 164261828186485704937473213122204661245397998572036191780718112354708225692650, 160882206099609316918739960937131009426681458209822246048263699821764518598099),
      (True, 223530678217833337326657376549751834750645741664603726850453973702025391697759, 162629608768632919347907169988982246042124171761164428777794040820193132727945),
      (True, 228412751013003662737707783815725354788088952064258360342477724635686889259463, 1), (False, 0, 1)]"])
    (simp_all only: numeral_rules)

lemma vssp_pow0: "pow_is 2 2 231584178474632390847141970017375815706539969331281128078915168015826259316823 4"
  by (simp add: pow_is_def)

lemma vssp_entry0:
  "entry_ok 2 231584178474632390847141970017375815706539969331281128078915168015826259316822 231584178474632390847141970017375815706539969331281128078915168015826259316823
     (115792089237316195423570985008687907853269984665640564039457584007913129658411, 2, 4,
      77194726158210796949047323339125271902179989777093709359638389338608753105608, 1)"
  using prime_vssq vssp_pow0 by (simp only: entry_ok_def prod.case of_nat_numeral numeral_rules)

theorem prime_vssp: "is_prime 231584178474632390847141970017375815706539969331281128078915168015826259316823"
  by (rule certificate_sound [where N = 231584178474632390847141970017375815706539969331281128078915168015826259316822 and a = 2, where es =
     "[(115792089237316195423570985008687907853269984665640564039457584007913129658411, 2, 4,
        77194726158210796949047323339125271902179989777093709359638389338608753105608, 1)]"])
    (simp_all add: vssp_one vssp_entry0)

end
