(* ===== verification/Secrets.thy ===== *)
theory Secrets
  imports GF256 JS_Text Modular Prime_Certificates
begin

text \<open>
  Secret sharing of \<^verbatim>\<open>services/secrets.service.ts\<close>: Feldman's verifiable sharing modulo the prime
  \<open>VSS_Q\<close> with commitments modulo \<open>VSS_P\<close>, the check of a share, and reconstruction from the textual
  shares, including the byte-wise reconstruction of shares of the older format over the field with
  256 elements.

  The random bytes of one run are the argument \<open>rnd\<close>: \<open>rnd i j\<close> is byte \<open>j\<close> of the \<open>i\<close>-th block of
  32 bytes; both sources of randomness in the code feed the same computation.
\<close>

unbundle bit_operations_syntax

section \<open>Modular arithmetic\<close>

definition VSS_Q :: int where
  "VSS_Q = 115792089237316195423570985008687907853269984665640564039457584007913129658411"

definition VSS_P :: int where
  "VSS_P = 231584178474632390847141970017375815706539969331281128078915168015826259316823"

definition VSS_G :: int where
  "VSS_G = 4"

definition modAdd :: "int \<Rightarrow> int \<Rightarrow> int \<Rightarrow> int" where
  "modAdd a b m = bigint_rem (a + b) m"

definition modSub :: "int \<Rightarrow> int \<Rightarrow> int \<Rightarrow> int" where
  "modSub a b m = bigint_rem (a - b + m) m"

definition modMul :: "int \<Rightarrow> int \<Rightarrow> int \<Rightarrow> int" where
  "modMul a b m = bigint_rem (a * b) m"

definition modPow :: "int \<Rightarrow> int \<Rightarrow> int \<Rightarrow> int" where
  "modPow base e m = pow_loop (\<lambda>x y. bigint_rem (x * y) m) 1 (bigint_rem base m) e"

definition modInverse :: "int \<Rightarrow> int \<Rightarrow> int result" where
  "modInverse a m =
     (if bigint_rem a m = 0 then Inl (Error ''Division by zero in modular inverse'')
      else Inr (modPow a (m - 2) m))"

section \<open>Splitting\<close>

text \<open>\<^verbatim>\<open>toString(16)\<close> of a bigint and of a byte, and \<^verbatim>\<open>BigInt("0x" + s)\<close>.\<close>

definition bigint_hex_str :: "int \<Rightarrow> string" where
  "bigint_hex_str v = (if v < 0 then CHR ''-'' # to_radix 16 (nat (- v)) else to_radix 16 (nat v))"

definition byte_hex :: "byte \<Rightarrow> string" where
  "byte_hex b = pad_start 2 CHR ''0'' (to_radix 16 (unat b))"

definition BigInt :: "string \<Rightarrow> int result" where
  "BigInt s = bind_option (parse_bigint s) SyntaxError"

definition randVal :: "(nat \<Rightarrow> byte) \<Rightarrow> int result" where
  "randVal block = bindE (BigInt (''0x'' @ concat (map (\<lambda>j. byte_hex (block j)) [0..<32])))
     (\<lambda>v. Inr (bigint_rem v VSS_Q))"

definition evalShare :: "int list \<Rightarrow> nat \<Rightarrow> nat \<Rightarrow> int" where
  "evalShare coefficients k x =
     fst (fold (\<lambda>j (y, xPower). (modAdd y (modMul (coefficients ! j) xPower VSS_Q) VSS_Q, modMul xPower (int x) VSS_Q))
       [0..<k] (0, 1))"

definition formatShare :: "nat \<Rightarrow> string \<Rightarrow> int \<Rightarrow> string" where
  "formatShare x lenHex y = js_num x @ ''-vss'' @ lenHex @ pad_start 64 CHR ''0'' (bigint_hex_str y)"

definition cleanHex :: "string \<Rightarrow> string" where
  "cleanHex s = (if starts_with ''0x'' s then drop 2 s else s)"

definition splitSecretVSS :: "(nat \<Rightarrow> nat \<Rightarrow> byte) \<Rightarrow> string \<Rightarrow> nat \<Rightarrow> nat \<Rightarrow> (string list \<times> string list) result" where
  "splitSecretVSS rnd secretHex n k =
     (if k > n then Inl (Error ''Threshold cannot exceed total shares'')
      else if k < 1 then Inl (Error ''Threshold must be at least 1'')
      else if length (cleanHex secretHex) mod 2 \<noteq> 0 then Inl (Error ''Secret hex string must have an even length'')
      else bindE (BigInt (''0x'' @ cleanHex secretHex)) (\<lambda>secretBig.
        if secretBig \<ge> VSS_Q then Inl (Error ''Secret key is too large for the VSS prime field'')
        else bindE (mapE (\<lambda>i. randVal (rnd i)) [1..<k]) (\<lambda>rands.
          let coefficients = secretBig # rands;
              lenHex = pad_start 2 CHR ''0'' (to_radix 16 (length (cleanHex secretHex)));
              shares = map (\<lambda>x. formatShare x lenHex (evalShare coefficients k x)) [1..<n + 1];
              commitments = map (\<lambda>j. pad_start 66 CHR ''0'' (bigint_hex_str (modPow VSS_G (coefficients ! j) VSS_P))) [0..<k]
          in Inr (shares, commitments))))"

definition splitSecret :: "(nat \<Rightarrow> nat \<Rightarrow> byte) \<Rightarrow> string \<Rightarrow> nat \<Rightarrow> nat \<Rightarrow> string list result" where
  "splitSecret rnd secretHex n k = bindE (splitSecretVSS rnd secretHex n k) (\<lambda>(shares, commitments). Inr shares)"

section \<open>Verification\<close>

definition feldmanProduct :: "string list \<Rightarrow> int \<Rightarrow> int result" where
  "feldmanProduct commitments x =
     foldE (\<lambda>j rhs. bindE (BigInt (''0x'' @ commitments ! j)) (\<lambda>cj.
         Inr (modMul rhs (modPow cj (modPow x (int j) VSS_Q) VSS_P) VSS_P))) [0..<length commitments] 1"

text \<open>Every exception inside is caught and turned into a refusal.\<close>

definition verifyShare :: "string \<Rightarrow> string list \<Rightarrow> bool" where
  "verifyShare shareString commitments =
     (let parts = split_on CHR ''-'' shareString in
      if length parts \<noteq> 2 then False
      else case BigInt (parts ! 0) of Inl e \<Rightarrow> False
      | Inr x \<Rightarrow>
          if \<not> starts_with ''vss'' (parts ! 1) then False
          else case BigInt (''0x'' @ drop 5 (parts ! 1)) of Inl e \<Rightarrow> False
          | Inr y \<Rightarrow>
              (case feldmanProduct commitments x of Inl e \<Rightarrow> False
               | Inr rhs \<Rightarrow> modPow VSS_G y VSS_P = rhs))"

section \<open>Reconstruction\<close>

text \<open>Points are numbers; the exclusive or acts on their low bytes in every use.\<close>

definition reconstructByte :: "(nat \<times> byte) list \<Rightarrow> byte result" where
  "reconstructByte shares =
     foldE (\<lambda>i secret.
         bindE (foldE (\<lambda>j lagrange.
             if i = j then Inr lagrange
             else let xj = fst (shares ! j); xi = fst (shares ! i) in
               bindE (gfInverse (xj XOR xi)) (\<lambda>d.
                 Inr (gfMultiply (unat lagrange) (unat (gfMultiply xj (unat d))))))
             [0..<length shares] 1)
           (\<lambda>lagrange. Inr (secret XOR gfMultiply (unat (snd (shares ! i))) (unat lagrange))))
       [0..<length shares] 0"

definition parseLegacyShare :: "string \<Rightarrow> (nat \<times> byte list) result" where
  "parseLegacyShare s =
     (let parts = split_on CHR ''-'' s in
      if length parts \<noteq> 2 then Inl (Error (''Invalid share format: '' @ s))
      else let hex = parts ! 1 in
        case parse_int 10 (parts ! 0) of
          None \<Rightarrow> Inl (Error (''Invalid x-coordinate in share: '' @ s))
        | Some x \<Rightarrow>
            if x < 1 then Inl (Error (''Invalid x-coordinate in share: '' @ s))
            else Inr (nat x, map (\<lambda>i. case parse_int 16 (take 2 (drop (i * 2) hex)) of None \<Rightarrow> 0 | Some v \<Rightarrow> word_of_int v)
                   [0..<length hex div 2]))"

definition reconstructLegacy :: "string list \<Rightarrow> string result" where
  "reconstructLegacy shareStrings =
     bindE (mapE parseLegacyShare shareStrings) (\<lambda>parsedShares.
       let numBytes = length (snd (parsedShares ! 0)) in
       if \<exists>s \<in> set parsedShares. length (snd s) \<noteq> numBytes then Inl (Error ''All shares must have the same length'')
       else bindE (mapE (\<lambda>b. reconstructByte (map (\<lambda>s. (fst s, snd s ! b)) parsedShares)) [0..<numBytes])
         (\<lambda>bytes. Inr (concat (map byte_hex bytes))))"

text \<open>
  A parsed share: its point, its value, and the length prefix when the share has one. The variable
  \<^verbatim>\<open>originalLen\<close> of the source keeps the prefix of the last such share; \<open>None\<close> inside is \<^verbatim>\<open>NaN\<close>.
\<close>

definition parseVssShare :: "string \<Rightarrow> (int \<times> int \<times> int option option) result" where
  "parseVssShare s =
     (let parts = split_on CHR ''-'' s in
      if length parts \<noteq> 2 then Inl (Error (''Invalid share format: '' @ s))
      else bindE (BigInt (parts ! 0)) (\<lambda>x.
        let hex = parts ! 1;
            vss = starts_with ''vss'' hex;
            len = (if vss then Some (parse_int 16 (js_slice hex 3 5)) else None)
        in bindE (BigInt (''0x'' @ (if vss then drop 5 hex else hex))) (\<lambda>y. Inr (x, y, len))))"

definition originalLen :: "(int \<times> int \<times> int option option) list \<Rightarrow> int option" where
  "originalLen parsed = fold (\<lambda>(x, y, len) ol. case len of None \<Rightarrow> ol | Some l \<Rightarrow> l) parsed (Some 64)"

definition reconstructVSS :: "(int \<times> int \<times> int option option) list \<Rightarrow> int result" where
  "reconstructVSS parsed =
     foldE (\<lambda>i secret.
         bindE (foldE (\<lambda>j lagrange.
             if i = j then Inr lagrange
             else let xj = fst (parsed ! j); xi = fst (parsed ! i) in
               bindE (modInverse (modSub xj xi VSS_Q) VSS_Q) (\<lambda>d.
                 Inr (modMul lagrange (modMul xj d VSS_Q) VSS_Q)))
             [0..<length parsed] 1)
           (\<lambda>lagrange. Inr (modAdd secret (modMul (fst (snd (parsed ! i))) lagrange VSS_Q) VSS_Q)))
       [0..<length parsed] 0"

definition reconstructSecret :: "string list \<Rightarrow> string result" where
  "reconstructSecret shareStrings =
     (if shareStrings = [] then Inl (Error ''No shares provided for reconstruction'')
      else let parts = split_on CHR ''-'' (shareStrings ! 0);
               isVSS = (1 < length parts \<and> starts_with ''vss'' (parts ! 1))
      in if \<not> isVSS then reconstructLegacy shareStrings
      else bindE (mapE parseVssShare shareStrings) (\<lambda>parsed.
        bindE (reconstructVSS parsed) (\<lambda>secret.
          Inr (pad_start (case originalLen parsed of None \<Rightarrow> 0 | Some l \<Rightarrow> nat l) CHR ''0'' (bigint_hex_str secret)))))"

section \<open>The group\<close>

lemma VSS_prime: "is_prime VSS_Q" "is_prime VSS_P"
  using prime_vssq prime_vssp by (simp_all add: VSS_Q_def VSS_P_def)

lemma VSS_bounds [simp]: "0 < VSS_Q" "1 < VSS_Q" "2 < VSS_Q" "0 < VSS_P" "1 < VSS_P" "0 \<le> VSS_G"
  by (simp_all add: VSS_Q_def VSS_P_def VSS_G_def)

lemma VSS_safe: "VSS_P - 1 = 2 * VSS_Q"
  by (simp add: VSS_Q_def VSS_P_def)

lemma VSS_not_dvd_2: "\<not> VSS_P dvd 2"
proof
  assume "VSS_P dvd 2"
  then have "VSS_P \<le> 2" by (rule zdvd_imp_le) simp
  then show False by (simp add: VSS_P_def)
qed

lemma VSS_G_order: "VSS_G ^ nat VSS_Q mod VSS_P = 1" "VSS_G mod VSS_P \<noteq> 1"
proof -
  have "nat (VSS_P - 1) = 2 * nat VSS_Q"
    by (simp add: VSS_safe nat_mult_distrib)
  then have "(2 :: int) ^ nat (VSS_P - 1) = VSS_G ^ nat VSS_Q"
    by (simp only: power_mult VSS_G_def) simp
  then show "VSS_G ^ nat VSS_Q mod VSS_P = 1"
    using fermat_little [OF VSS_prime(2) VSS_not_dvd_2] by simp
  show "VSS_G mod VSS_P \<noteq> 1"
    by (simp add: VSS_G_def VSS_P_def)
qed

interpretation sec: modular modAdd modMul modPow
proof
  fix a b m :: int
  assume a: "0 \<le> a" and b: "0 \<le> b" and m: "0 < m"
  show "modAdd a b m = (a + b) mod m"
    using a b m by (simp add: modAdd_def)
  show "modMul a b m = (a * b) mod m"
    using a b m by (simp add: modMul_def)
next
  fix a m e :: int
  assume a: "0 \<le> a" and m: "1 < m"
  then have "modPow a e m = 1 * (a mod m) ^ nat e mod m"
    unfolding modPow_def by (subst pow_loop_correct [where m = m]) auto
  then show "modPow a e m = a ^ nat e mod m"
    by (simp add: power_mod)
qed

section \<open>The textual format\<close>

lemma BigInt_hex: "parse_digits 16 h = Some n \<Longrightarrow> BigInt (CHR ''0'' # CHR ''x'' # h) = Inr (int n)"
  using bigint_hex [of h n] by (simp add: BigInt_def)

lemma parse_bigint_hex_str: "0 \<le> v \<Longrightarrow> parse_digits 16 (pad_start w CHR ''0'' (bigint_hex_str v)) = Some (nat v)"
  by (simp add: bigint_hex_str_def parse_pad_start parse_to_radix)

lemma BigInt_pad: "0 \<le> v \<Longrightarrow> BigInt (CHR ''0'' # CHR ''x'' # pad_start w CHR ''0'' (bigint_hex_str v)) = Inr v"
  using BigInt_hex [OF parse_bigint_hex_str, of v w] by simp

lemma no_dash_radix: "2 \<le> b \<Longrightarrow> b \<le> 16 \<Longrightarrow> CHR ''-'' \<notin> set (to_radix b n)"
  using parse_digits_is_digit [OF parse_to_radix] is_digit_not(2) by blast

lemma split_share:
  assumes "0 \<le> y" and "CHR ''-'' \<notin> set l"
  shows "split_on CHR ''-'' (formatShare x l y) =
    [js_num x, ''vss'' @ l @ pad_start 64 CHR ''0'' (bigint_hex_str y)]"
proof -
  have "CHR ''-'' \<notin> set (js_num x)"
    by (simp add: js_num_def no_dash_radix)
  moreover have "CHR ''-'' \<notin> set (''vss'' @ l @ pad_start 64 CHR ''0'' (bigint_hex_str y))"
    using assms by (auto simp: bigint_hex_str_def pad_start_def no_dash_radix)
  ultimately show ?thesis
    by (simp add: formatShare_def split_on_append)
qed

definition len_prefix :: "string \<Rightarrow> bool" where
  "len_prefix l \<longleftrightarrow> length l = 2 \<and> CHR ''-'' \<notin> set l"

lemma parse_formatShare:
  assumes "0 \<le> y" "len_prefix l"
  shows "parseVssShare (formatShare x l y) = Inr (int x, y, Some (parse_int 16 l))"
proof -
  have "BigInt (js_num x) = Inr (int x)"
    by (simp add: BigInt_def)
  with assms show ?thesis
    by (simp add: parseVssShare_def split_share len_prefix_def starts_with_def js_slice_def BigInt_pad)
qed

lemma radix16_two: "n < 256 \<Longrightarrow> length (to_radix 16 n) \<le> 2"
proof -
  assume "n < 256"
  then have "n div 16 < 16" by simp
  then show ?thesis
    by (simp add: to_radix.simps [of 16 n] to_radix.simps [of 16 "n div 16"])
qed

lemma lenHex_prefix:
  assumes "n < 256"
  shows "len_prefix (pad_start 2 CHR ''0'' (to_radix 16 n))"
    "parse_int 16 (pad_start 2 CHR ''0'' (to_radix 16 n)) = Some (int n)"
proof -
  have "length (to_radix 16 n) \<le> 2"
    using assms by (rule radix16_two)
  then show "len_prefix (pad_start 2 CHR ''0'' (to_radix 16 n))"
    by (auto simp: len_prefix_def pad_start_def no_dash_radix)
  show "parse_int 16 (pad_start 2 CHR ''0'' (to_radix 16 n)) = Some (int n)"
    by (intro parse_int_digits parse_pad_start parse_to_radix) simp_all
qed

section \<open>What splitting produces\<close>

definition commit :: "int \<Rightarrow> string" where
  "commit c = pad_start 66 CHR ''0'' (bigint_hex_str (VSS_G ^ nat c mod VSS_P))"

definition field_coeffs :: "int list \<Rightarrow> bool" where
  "field_coeffs cs \<longleftrightarrow> (\<forall>c \<in> set cs. 0 \<le> c \<and> c < VSS_Q)"

lemma all_digits: "(\<And>c. c \<in> set s \<Longrightarrow> is_digit b c) \<Longrightarrow> \<exists>n. digits_acc b acc s = Some n"
proof (induction s arbitrary: acc)
  case (Cons c s)
  then obtain d where "digit_val c = Some d" "d < b"
    by (fastforce simp: is_digit_def split: option.splits)
  with Cons show ?case by simp
qed simp

lemma parse_all_digits: "s \<noteq> [] \<Longrightarrow> (\<And>c. c \<in> set s \<Longrightarrow> is_digit b c) \<Longrightarrow> \<exists>n. parse_digits b s = Some n"
  using all_digits [of s b 0] by (simp add: parse_digits_def)

lemma byte_hex_parse: "parse_digits 16 (byte_hex b) = Some (unat b)"
  by (simp add: byte_hex_def parse_pad_start parse_to_radix)

lemma byte_hex_ne [simp]: "byte_hex b \<noteq> []"
  by (simp add: byte_hex_def pad_start_def)

lemma randVal_range: "\<exists>v. randVal block = Inr v \<and> 0 \<le> v \<and> v < VSS_Q"
proof -
  let ?h = "concat (map (\<lambda>j. byte_hex (block j)) [0..<32])"
  have "?h \<noteq> []"
    by (simp add: upt_rec)
  moreover have "is_digit 16 c" if "c \<in> set ?h" for c
    using that parse_digits_is_digit [OF byte_hex_parse] by auto
  ultimately obtain n where "parse_digits 16 ?h = Some n"
    using parse_all_digits by meson
  then have "randVal block = Inr (int n mod VSS_Q)"
    by (simp add: randVal_def BigInt_hex)
  then show ?thesis by simp
qed

lemma evalShare_eq:
  assumes "field_coeffs cs" "length cs = k"
  shows "evalShare cs k x = poly_at cs (int x) mod VSS_Q"
  using sec.eval_loop_poly [of VSS_Q "int x" cs] assms by (simp add: evalShare_def field_coeffs_def)

lemma mapE_range:
  "(\<And>x. x \<in> set xs \<Longrightarrow> \<exists>v. f x = Inr v \<and> P v) \<Longrightarrow> \<exists>vs. mapE f xs = Inr vs \<and> length vs = length xs \<and> (\<forall>v \<in> set vs. P v)"
proof (induction xs)
  case (Cons x xs)
  then obtain v vs where "f x = Inr v" "P v" "mapE f xs = Inr vs" "length vs = length xs" "\<forall>v \<in> set vs. P v"
    by (metis list.set_intros)
  then show ?case by simp
qed simp

lemma mapE_map: "mapE f (map g xs) = mapE (\<lambda>x. f (g x)) xs"
  by (induction xs) simp_all

lemma map_nth_f: "map (\<lambda>j. f (xs ! j)) [0..<length xs] = map f xs"
  by (rule nth_equalityI) simp_all

lemma commitments_eq:
  "length cs = k \<Longrightarrow> map (\<lambda>j. pad_start 66 CHR ''0'' (bigint_hex_str (modPow VSS_G (cs ! j) VSS_P))) [0..<k] = map commit cs"
  using map_nth_f [of commit cs] by (auto simp: commit_def [abs_def] sec.pow_law)

text \<open>\<open>dealt l cs n\<close>: the shares of the polynomial \<open>cs\<close> at the points \<open>1, \<dots>, n\<close> with length prefix \<open>l\<close>.\<close>

definition dealt :: "string \<Rightarrow> int list \<Rightarrow> nat \<Rightarrow> string list" where
  "dealt l cs n = map (\<lambda>x. formatShare x l (poly_at cs (int x) mod VSS_Q)) [1..<n + 1]"

lemma splitSecretVSS_spec:
  assumes k: "1 \<le> k" "k \<le> n" and even: "even (length (cleanHex s))"
    and s: "BigInt (''0x'' @ cleanHex s) = Inr sec" "0 \<le> sec" "sec < VSS_Q"
  shows "\<exists>cs. field_coeffs cs \<and> length cs = k \<and> hd cs = sec \<and> splitSecretVSS rnd s n k =
    Inr (dealt (pad_start 2 CHR ''0'' (to_radix 16 (length (cleanHex s)))) cs n, map commit cs)"
proof -
  obtain rs where rs: "mapE (\<lambda>i. randVal (rnd i)) [1..<k] = Inr rs" "length rs = k - 1"
    "\<forall>v \<in> set rs. 0 \<le> v \<and> v < VSS_Q"
    using mapE_range [of "[1..<k]" "\<lambda>i. randVal (rnd i)" "\<lambda>v. 0 \<le> v \<and> v < VSS_Q"] randVal_range by auto
  let ?cs = "sec # rs"
  have cs: "field_coeffs ?cs" "length ?cs = k"
    using s rs k by (auto simp: field_coeffs_def)
  have "map (\<lambda>j. pad_start 66 CHR ''0'' (bigint_hex_str (modPow VSS_G (?cs ! j) VSS_P))) [0..<k] = map commit ?cs"
    using cs(2) by (rule commitments_eq)
  then have "splitSecretVSS rnd s n k =
      Inr (dealt (pad_start 2 CHR ''0'' (to_radix 16 (length (cleanHex s)))) ?cs n, map commit ?cs)"
    using k even s rs(1) by (simp add: splitSecretVSS_def Let_def dealt_def evalShare_eq [OF cs])
  with cs show ?thesis by (intro exI [of _ ?cs]) simp
qed

lemma BigInt_0x_nonneg: "BigInt (''0x'' @ h) = Inr v \<Longrightarrow> 0 \<le> v"
proof -
  assume "BigInt (''0x'' @ h) = Inr v"
  then have "parse_bigint (''0x'' @ h) = Some v"
    by (auto simp: BigInt_def bind_option_def split: option.splits)
  moreover have "\<exists>t. js_trim (''0x'' @ h) = ''0x'' @ t"
  proof -
    have "dropWhile is_space (''0x'' @ h) = ''0x'' @ h"
      by (simp add: is_space_def)
    moreover have "\<exists>t. rev (dropWhile is_space (rev (''0x'' @ h))) = ''0x'' @ t"
    proof (induction h rule: rev_induct)
      case (snoc c h)
      then show ?case
        by (cases "is_space c") (auto intro: exI [of _ "h @ [c]"])
    qed (simp add: is_space_def)
    ultimately show ?thesis by (simp add: js_trim_def)
  qed
  ultimately show ?thesis by (auto simp: parse_bigint_def)
qed

lemma splitSecretVSS_InrD:
  assumes "splitSecretVSS rnd s n k = Inr (shares, comms)"
  obtains cs where "1 \<le> k" "k \<le> n" "field_coeffs cs" "length cs = k" "BigInt (''0x'' @ cleanHex s) = Inr (hd cs)"
    "shares = dealt (pad_start 2 CHR ''0'' (to_radix 16 (length (cleanHex s)))) cs n" "comms = map commit cs"
proof -
  from assms obtain sec where g: "1 \<le> k" "k \<le> n" "even (length (cleanHex s))"
    "BigInt (''0x'' @ cleanHex s) = Inr sec" "sec < VSS_Q"
    by (auto simp: splitSecretVSS_def bindE_eq_Inr even_iff_mod_2_eq_zero split: if_splits)
  from splitSecretVSS_spec [OF g(1-4) BigInt_0x_nonneg [OF g(4)] g(5), of rnd] that g assms
  show thesis by auto
qed

section \<open>Checking a share\<close>

lemma commit_parse: "BigInt (CHR ''0'' # CHR ''x'' # commit c) = Inr (VSS_G ^ nat c mod VSS_P)"
  by (simp add: commit_def BigInt_pad)

text \<open>The Feldman product of the commitments to \<open>cs\<close> is the generator raised to the value of the polynomial.\<close>

lemma commitment_power:
  assumes "0 \<le> c" "0 \<le> e"
  shows "(VSS_G ^ nat c mod VSS_P) ^ nat (e mod VSS_Q) mod VSS_P = VSS_G ^ nat (c * e) mod VSS_P"
proof -
  have "(VSS_G ^ nat c mod VSS_P) ^ nat (e mod VSS_Q) mod VSS_P = VSS_G ^ nat (c * (e mod VSS_Q)) mod VSS_P"
    using assms by (simp add: power_mod nat_mult_distrib flip: power_mult)
  also have "\<dots> = VSS_G ^ nat (c * (e mod VSS_Q) mod VSS_Q) mod VSS_P"
    using assms by (intro power_mod_period [OF VSS_G_order(1), symmetric]) auto
  also have "c * (e mod VSS_Q) mod VSS_Q = c * e mod VSS_Q"
    by (rule mod_mult_right_eq)
  also have "VSS_G ^ nat (c * e mod VSS_Q) mod VSS_P = VSS_G ^ nat (c * e) mod VSS_P"
    using assms by (intro power_mod_period [OF VSS_G_order(1)]) auto
  finally show ?thesis .
qed

lemma nat_sum_nonneg: "(\<And>i. i < n \<Longrightarrow> 0 \<le> f i) \<Longrightarrow> nat (\<Sum>i<n. f i) = (\<Sum>i<(n :: nat). nat (f i))"
proof (induction n)
  case (Suc n)
  then have "0 \<le> (\<Sum>i<n. f i)" by (intro sum_nonneg) simp
  with Suc show ?case by (simp add: nat_add_distrib)
qed simp

lemma commitments_product:
  assumes "\<And>c. c \<in> set cs \<Longrightarrow> 0 \<le> c" "0 \<le> x"
  shows "(\<Prod>j<length cs. (VSS_G ^ nat (cs ! j) mod VSS_P) ^ nat (x ^ j mod VSS_Q)) mod VSS_P =
    VSS_G ^ nat (poly_at cs x) mod VSS_P"
proof -
  have "(\<Prod>j<length cs. (VSS_G ^ nat (cs ! j) mod VSS_P) ^ nat (x ^ j mod VSS_Q)) mod VSS_P =
      (\<Prod>j<length cs. (VSS_G ^ nat (cs ! j) mod VSS_P) ^ nat (x ^ j mod VSS_Q) mod VSS_P) mod VSS_P"
    by (rule mod_prod_eq [symmetric])
  also have "\<dots> = (\<Prod>j<length cs. VSS_G ^ nat (cs ! j * x ^ j) mod VSS_P) mod VSS_P"
    using assms by (simp add: commitment_power)
  also have "\<dots> = (\<Prod>j<length cs. VSS_G ^ nat (cs ! j * x ^ j)) mod VSS_P"
    by (rule mod_prod_eq)
  also have "(\<Prod>j<length cs. VSS_G ^ nat (cs ! j * x ^ j)) = VSS_G ^ (\<Sum>j<length cs. nat (cs ! j * x ^ j))"
    by (rule power_sum [symmetric])
  also have "(\<Sum>j<length cs. nat (cs ! j * x ^ j)) = nat (poly_at cs x)"
    using assms by (simp add: poly_at_def nat_sum_nonneg)
  finally show ?thesis .
qed

lemma feldmanProduct_commit:
  assumes "\<And>c. c \<in> set cs \<Longrightarrow> 0 \<le> c" "0 \<le> x"
  shows "feldmanProduct (map commit cs) x = Inr (VSS_G ^ nat (poly_at cs x) mod VSS_P)"
proof -
  let ?c = "\<lambda>j. VSS_G ^ nat (cs ! j) mod VSS_P"
  have "feldmanProduct (map commit cs) x =
      Inr (fold (\<lambda>j rhs. modMul rhs (modPow (?c j) (modPow x (int j) VSS_Q) VSS_P) VSS_P) [0..<length cs] 1)"
    unfolding feldmanProduct_def by (simp, rule foldE_Inr') (simp add: commit_parse)
  also have "\<dots> = Inr ((\<Prod>j<length cs. ?c j ^ nat (x ^ j mod VSS_Q)) mod VSS_P)"
    using assms(2) by (subst sec.feldman_loop) simp_all
  finally show ?thesis
    by (simp only: commitments_product [OF assms])
qed

lemma verifyShare_iff:
  assumes cs: "field_coeffs cs" and "0 \<le> y" "len_prefix l"
  shows "verifyShare (formatShare x l y) (map commit cs) \<longleftrightarrow> y mod VSS_Q = poly_at cs (int x) mod VSS_Q"
proof -
  have pos: "0 \<le> c" if "c \<in> set cs" for c
    using cs that by (simp add: field_coeffs_def)
  then have f0: "0 \<le> poly_at cs (int x)"
    by (auto simp: poly_at_def intro!: sum_nonneg)
  have "verifyShare (formatShare x l y) (map commit cs) \<longleftrightarrow>
      VSS_G ^ nat y mod VSS_P = VSS_G ^ nat (poly_at cs (int x)) mod VSS_P"
  proof -
    have "BigInt (js_num x) = Inr (int x)" by (simp add: BigInt_def)
    with assms feldmanProduct_commit [OF pos, of cs "int x"] show ?thesis
      by (simp add: verifyShare_def split_share len_prefix_def starts_with_def BigInt_pad sec.pow_law)
  qed
  also have "\<dots> \<longleftrightarrow> y mod VSS_Q = poly_at cs (int x) mod VSS_Q"
  proof
    assume "VSS_G ^ nat y mod VSS_P = VSS_G ^ nat (poly_at cs (int x)) mod VSS_P"
    from order_separates [OF VSS_prime(2,1) VSS_G_order this]
    show "y mod VSS_Q = poly_at cs (int x) mod VSS_Q"
      using assms(2) f0 by simp
  next
    assume "y mod VSS_Q = poly_at cs (int x) mod VSS_Q"
    then show "VSS_G ^ nat y mod VSS_P = VSS_G ^ nat (poly_at cs (int x)) mod VSS_P"
      using power_mod_period [OF VSS_G_order(1) _ _ assms(2)] power_mod_period [OF VSS_G_order(1) _ _ f0] by simp
  qed
  finally show ?thesis .
qed

section \<open>Interpolation\<close>

lemma modInverse_correct:
  assumes "a mod VSS_Q \<noteq> 0" "0 \<le> a"
  obtains d where "modInverse a VSS_Q = Inr d" "0 \<le> d" "d * a mod VSS_Q = 1"
proof -
  have "\<not> VSS_Q dvd a" using assms(1) by (simp add: dvd_eq_mod_eq_0)
  then have "(a * a ^ nat (VSS_Q - 2)) mod VSS_Q = 1"
    by (rule fermat_inverse [OF VSS_prime(1)])
  then have "(a ^ nat (VSS_Q - 2) mod VSS_Q) * a mod VSS_Q = 1"
    by (simp only: mod_mult_right_eq mult.commute)
  moreover have "modInverse a VSS_Q = Inr (a ^ nat (VSS_Q - 2) mod VSS_Q)"
    using assms by (simp add: modInverse_def sec.pow_law)
  ultimately show thesis using that by simp
qed

definition lagrange_ok :: "(int \<times> int \<times> 'a) list \<Rightarrow> bool" where
  "lagrange_ok ps \<longleftrightarrow> (\<forall>t \<in> set ps. 0 \<le> fst t \<and> fst t < VSS_Q \<and> 0 \<le> fst (snd t)) \<and> distinct (map fst ps)"

lemma modSub_range:
  assumes "0 \<le> a" "a < VSS_Q" "0 \<le> b" "b < VSS_Q"
  shows "modSub a b VSS_Q = (a - b) mod VSS_Q"
  using assms by (simp add: modSub_def)

text \<open>The coefficient of share \<open>i\<close>: one inverse per other share.\<close>

definition inv_diff :: "(int \<times> int \<times> 'a) list \<Rightarrow> nat \<Rightarrow> nat \<Rightarrow> int" where
  "inv_diff ps i j = (case modInverse (modSub (fst (ps ! j)) (fst (ps ! i)) VSS_Q) VSS_Q of Inl e \<Rightarrow> 0 | Inr d \<Rightarrow> d)"

lemma inv_diff_correct:
  assumes ps: "lagrange_ok ps" and ij: "i < length ps" "j < length ps" "i \<noteq> j"
  shows "modInverse (modSub (fst (ps ! j)) (fst (ps ! i)) VSS_Q) VSS_Q = Inr (inv_diff ps i j)"
    "0 \<le> inv_diff ps i j" "inv_diff ps i j * (fst (ps ! j) - fst (ps ! i)) mod VSS_Q = 1"
    "fst (ps ! i) mod VSS_Q \<noteq> fst (ps ! j) mod VSS_Q"
proof -
  let ?a = "fst (ps ! j)" and ?b = "fst (ps ! i)"
  have r: "0 \<le> ?a" "?a < VSS_Q" "0 \<le> ?b" "?b < VSS_Q"
    using ps ij by (auto simp: lagrange_ok_def)
  have ne: "?b \<noteq> ?a"
    using ps ij by (auto simp: lagrange_ok_def distinct_conv_nth)
  then show "?b mod VSS_Q \<noteq> ?a mod VSS_Q" using r by simp
  then have "(?a - ?b) mod VSS_Q \<noteq> 0"
    by (metis mod_0_imp_dvd mod_eq_dvd_iff)
  then have "modSub ?a ?b VSS_Q mod VSS_Q \<noteq> 0" "0 \<le> modSub ?a ?b VSS_Q"
    by (simp_all add: modSub_range [OF r])
  then obtain d where d: "modInverse (modSub ?a ?b VSS_Q) VSS_Q = Inr d" "0 \<le> d" "d * modSub ?a ?b VSS_Q mod VSS_Q = 1"
    by (rule modInverse_correct)
  then show "modInverse (modSub ?a ?b VSS_Q) VSS_Q = Inr (inv_diff ps i j)" "0 \<le> inv_diff ps i j"
    by (simp_all add: inv_diff_def)
  show "inv_diff ps i j * (?a - ?b) mod VSS_Q = 1"
    using d by (simp add: inv_diff_def modSub_range [OF r] mod_mult_right_eq)
qed

lemma lessThan_Suc_remove: "{..<Suc n} - {i} = (if n = i then {..<n} - {i} else insert n ({..<n} - {i}))"
  by auto

lemma coefficient_loop:
  assumes ps: "lagrange_ok ps" and i: "i < length ps" and "m \<le> length ps"
  shows "foldE (\<lambda>j lagrange.
             if i = j then Inr lagrange
             else let xj = fst (ps ! j); xi = fst (ps ! i) in
               bindE (modInverse (modSub xj xi VSS_Q) VSS_Q) (\<lambda>d.
                 Inr (modMul lagrange (modMul xj d VSS_Q) VSS_Q))) [0..<m] 1 =
    Inr ((\<Prod>j\<in>{..<m} - {i}. fst (ps ! j) * inv_diff ps i j) mod VSS_Q)"
  using assms(3)
proof (induction m)
  case 0
  then show ?case by simp
next
  case (Suc m)
  show ?case
  proof (cases "i = m")
    case True
    with Suc show ?thesis by (simp add: foldE_append lessThan_Suc_remove)
  next
    case False
    have x: "0 \<le> fst (ps ! m)"
      using ps Suc.prems by (simp add: lagrange_ok_def)
    have d: "modInverse (modSub (fst (ps ! m)) (fst (ps ! i)) VSS_Q) VSS_Q = Inr (inv_diff ps i m)" "0 \<le> inv_diff ps i m"
      using inv_diff_correct [OF ps i _ False] Suc.prems by simp_all
    from False Suc x d show ?thesis
      by (simp add: foldE_append lessThan_Suc_remove sec.mul_law mod_simps ac_simps)
  qed
qed

theorem reconstructVSS_sum:
  assumes ps: "lagrange_ok ps"
  shows "reconstructVSS ps = Inr ((\<Sum>i<length ps. fst (snd (ps ! i)) *
    (\<Prod>j\<in>{..<length ps} - {i}. fst (ps ! j) * inv_diff ps i j)) mod VSS_Q)"
proof -
  let ?n = "length ps"
  let ?L = "\<lambda>i. \<Prod>j\<in>{..<?n} - {i}. fst (ps ! j) * inv_diff ps i j"
  let ?f = "\<lambda>i secret. bindE (foldE (\<lambda>j lagrange.
             if i = j then Inr lagrange
             else let xj = fst (ps ! j); xi = fst (ps ! i) in
               bindE (modInverse (modSub xj xi VSS_Q) VSS_Q) (\<lambda>d.
                 Inr (modMul lagrange (modMul xj d VSS_Q) VSS_Q))) [0..<?n] 1)
           (\<lambda>lagrange. Inr (modAdd secret (modMul (fst (snd (ps ! i))) lagrange VSS_Q) VSS_Q))"
  have "foldE ?f [0..<m] 0 = Inr ((\<Sum>i<m. fst (snd (ps ! i)) * ?L i) mod VSS_Q)" if "m \<le> ?n" for m
    using that
  proof (induction m)
    case (Suc m)
    have y: "0 \<le> fst (snd (ps ! m))"
      using ps Suc.prems by (simp add: lagrange_ok_def)
    have "foldE ?f [0..<m] 0 = Inr ((\<Sum>i<m. fst (snd (ps ! i)) * ?L i) mod VSS_Q)"
      using Suc by simp
    moreover have "?f m s = Inr (modAdd s (modMul (fst (snd (ps ! m))) (?L m mod VSS_Q) VSS_Q) VSS_Q)" for s
      using coefficient_loop [OF ps _ order_refl, of m] Suc.prems by simp
    ultimately show ?case
      using y by (simp add: foldE_append sec.add_law sec.mul_law mod_simps)
  qed simp
  then show ?thesis by (simp add: reconstructVSS_def)
qed

lemma reconstructVSS_poly:
  assumes ps: "lagrange_ok ps" and len: "length cs \<le> length ps"
    and y: "\<And>t. t \<in> set ps \<Longrightarrow> fst (snd t) mod VSS_Q = poly_at cs (fst t) mod VSS_Q"
  shows "reconstructVSS ps = Inr (poly_at cs 0 mod VSS_Q)"
  unfolding reconstructVSS_sum [OF ps]
proof (intro arg_cong [where f = Inr] lagrange_mod [OF VSS_prime(1) len])
  fix i
  assume i: "i < length ps"
  show "(\<Prod>j\<in>{..<length ps} - {i}. fst (ps ! j) * inv_diff ps i j) * (\<Prod>j\<in>{..<length ps} - {i}. fst (ps ! j) - fst (ps ! i)) mod VSS_Q =
      (\<Prod>j\<in>{..<length ps} - {i}. fst (ps ! j)) mod VSS_Q"
    using inv_diff_correct(3) [OF ps i] by (intro lagrange_pairs) auto
qed (use y inv_diff_correct(4) [OF ps] in auto)

section \<open>Shares of one dealing\<close>

lemma dealt_parse:
  assumes cs: "field_coeffs cs" and l: "len_prefix l" and s: "s \<in> set (dealt l cs n)"
  obtains x where "1 \<le> x" "x \<le> n" "s = formatShare x l (poly_at cs (int x) mod VSS_Q)"
    "parseVssShare s = Inr (int x, poly_at cs (int x) mod VSS_Q, Some (parse_int 16 l))"
proof -
  from s obtain x where "1 \<le> x" "x \<le> n" "s = formatShare x l (poly_at cs (int x) mod VSS_Q)"
    by (auto simp: dealt_def)
  with l that show thesis by (simp add: parse_formatShare)
qed

lemma distinct_dealt: "len_prefix l \<Longrightarrow> distinct (dealt l cs n)"
proof -
  assume l: "len_prefix l"
  have "x = x'" if "formatShare x l (poly_at cs (int x) mod VSS_Q) = formatShare x' l (poly_at cs (int x') mod VSS_Q)" for x x'
    using arg_cong [OF that, of parseVssShare] l by (simp add: parse_formatShare)
  then show ?thesis
    unfolding dealt_def distinct_map by (auto intro!: inj_onI)
qed

lemma dealt_parse_list:
  assumes cs: "field_coeffs cs" and l: "len_prefix l" and sub: "set sub \<subseteq> set (dealt l cs n)" "distinct sub"
  obtains xs where "length xs = length sub" "distinct xs" "\<forall>x \<in> set xs. 1 \<le> x \<and> x \<le> n"
    "mapE parseVssShare sub = Inr (map (\<lambda>x. (int x, poly_at cs (int x) mod VSS_Q, Some (parse_int 16 l))) xs)"
    "sub = map (\<lambda>x. formatShare x l (poly_at cs (int x) mod VSS_Q)) xs"
proof -
  have "\<exists>xs. length xs = length sub \<and> (\<forall>x \<in> set xs. 1 \<le> x \<and> x \<le> n) \<and>
    mapE parseVssShare sub = Inr (map (\<lambda>x. (int x, poly_at cs (int x) mod VSS_Q, Some (parse_int 16 l))) xs) \<and>
    sub = map (\<lambda>x. formatShare x l (poly_at cs (int x) mod VSS_Q)) xs"
    using sub(1)
  proof (induction sub)
    case (Cons s sub)
    then obtain xs where xs: "length xs = length sub" "\<forall>x \<in> set xs. 1 \<le> x \<and> x \<le> n"
      "mapE parseVssShare sub = Inr (map (\<lambda>x. (int x, poly_at cs (int x) mod VSS_Q, Some (parse_int 16 l))) xs)"
      "sub = map (\<lambda>x. formatShare x l (poly_at cs (int x) mod VSS_Q)) xs"
      by auto
    obtain x where "1 \<le> x" "x \<le> n" "s = formatShare x l (poly_at cs (int x) mod VSS_Q)"
      "parseVssShare s = Inr (int x, poly_at cs (int x) mod VSS_Q, Some (parse_int 16 l))"
      using dealt_parse [OF cs l] Cons.prems by auto
    with xs show ?case by (intro exI [of _ "x # xs"]) simp
  qed simp
  then obtain xs where xs: "length xs = length sub" "\<forall>x \<in> set xs. 1 \<le> x \<and> x \<le> n"
    "mapE parseVssShare sub = Inr (map (\<lambda>x. (int x, poly_at cs (int x) mod VSS_Q, Some (parse_int 16 l))) xs)"
    "sub = map (\<lambda>x. formatShare x l (poly_at cs (int x) mod VSS_Q)) xs"
    by blast
  moreover have "distinct xs"
    using sub(2) xs(4) by (metis distinct_map)
  ultimately show thesis using that by blast
qed

lemma originalLen_same: "ps \<noteq> [] \<Longrightarrow> \<forall>t \<in> set ps. snd (snd t) = Some l \<Longrightarrow> originalLen ps = l"
proof -
  assume ps: "ps \<noteq> []" "\<forall>t \<in> set ps. snd (snd t) = Some l"
  have "fold (\<lambda>(x, y, len) ol. case len of None \<Rightarrow> ol | Some l \<Rightarrow> l) ps ol = l" for ol
    using ps by (induction ps arbitrary: ol) (auto split: prod.splits, metis fold_simps(1))
  then show ?thesis by (simp add: originalLen_def)
qed

lemma reconstruct_dealt:
  assumes cs: "field_coeffs cs" "cs \<noteq> []" and l: "len_prefix l" and n: "int n < VSS_Q"
    and sub: "set sub \<subseteq> set (dealt l cs n)" "distinct sub" "length cs \<le> length sub"
  shows "reconstructSecret sub =
    Inr (pad_start (case parse_int 16 l of None \<Rightarrow> 0 | Some v \<Rightarrow> nat v) CHR ''0'' (bigint_hex_str (hd cs)))"
proof -
  obtain xs where xs: "length xs = length sub" "distinct xs" "\<forall>x \<in> set xs. 1 \<le> x \<and> x \<le> n"
    "mapE parseVssShare sub = Inr (map (\<lambda>x. (int x, poly_at cs (int x) mod VSS_Q, Some (parse_int 16 l))) xs)"
    "sub = map (\<lambda>x. formatShare x l (poly_at cs (int x) mod VSS_Q)) xs"
    by (rule dealt_parse_list [OF cs(1) l sub(1,2)])
  let ?ps = "map (\<lambda>x. (int x, poly_at cs (int x) mod VSS_Q, Some (parse_int 16 l))) xs"
  have ne: "sub \<noteq> []" "?ps \<noteq> []" using cs(2) sub(3) xs(1) by auto
  have ok: "lagrange_ok ?ps"
    using xs n by (auto simp: lagrange_ok_def o_def distinct_map inj_on_def)
  have "reconstructVSS ?ps = Inr (poly_at cs 0 mod VSS_Q)"
    by (rule reconstructVSS_poly [OF ok]) (use sub(3) xs(1) in auto)
  also have "poly_at cs 0 mod VSS_Q = hd cs"
    using cs by (cases cs) (auto simp: field_coeffs_def)
  finally have rec: "reconstructVSS ?ps = Inr (hd cs)" .
  have len: "originalLen ?ps = parse_int 16 l"
    using ne(2) by (rule originalLen_same) auto
  have "split_on CHR ''-'' (sub ! 0) = [js_num (xs ! 0), ''vss'' @ l @ pad_start 64 CHR ''0'' (bigint_hex_str (poly_at cs (int (xs ! 0)) mod VSS_Q))]"
    using ne l xs(1) by (subst xs(5)) (simp add: split_share len_prefix_def)
  then show ?thesis
    using ne(1) xs(4) rec len by (simp add: reconstructSecret_def starts_with_def)
qed

section \<open>Shares of the older format\<close>

lemma reconstructByte_coefficient:
  fixes shares :: "(nat \<times> byte) list"
  defines "x \<equiv> \<lambda>i. GF (word_of_nat (fst (shares ! i)))"
  assumes inj: "inj_on x {..<length shares}" and i: "i < length shares" and "m \<le> length shares"
  shows "\<exists>l. foldE (\<lambda>j lagrange.
             if i = j then Inr lagrange
             else let xj = fst (shares ! j); xi = fst (shares ! i) in
               bindE (gfInverse (xj XOR xi)) (\<lambda>d.
                 Inr (gfMultiply (unat lagrange) (unat (gfMultiply xj (unat d)))))) [0..<m] 1 = Inr l
       \<and> GF l = (\<Prod>j\<in>{..<m} - {i}. x j / (x j - x i))"
  using assms(4)
proof (induction m)
  case (Suc m)
  let ?f = "\<lambda>j lagrange.
             if i = j then Inr lagrange
             else let xj = fst (shares ! j); xi = fst (shares ! i) in
               bindE (gfInverse (xj XOR xi)) (\<lambda>d.
                 Inr (gfMultiply (unat lagrange) (unat (gfMultiply xj (unat d)))))"
  from Suc obtain l where l: "foldE ?f [0..<m] 1 = Inr l" "GF l = (\<Prod>j\<in>{..<m} - {i}. x j / (x j - x i))"
    by auto
  show ?case
  proof (cases "i = m")
    case True
    with l show ?thesis by (simp add: foldE_append lessThan_Suc_remove)
  next
    case False
    let ?d = "word_of_nat (fst (shares ! m)) XOR word_of_nat (fst (shares ! i)) :: byte"
    have ne: "x m \<noteq> x i"
      using inj i Suc.prems False by (auto simp: inj_on_def)
    have d: "GF ?d = x m - x i"
      by (simp add: GF_xor x_def gf256_minus_eq)
    with ne have "?d \<noteq> 0"
      by (metis GF_0(1) eq_iff_diff_eq_0)
    then have "gfInverse (fst (shares ! m) XOR fst (shares ! i)) = Inr (gf_quot 1 ?d)"
      using gfInverse_eq [of "fst (shares ! m) XOR fst (shares ! i)"] gfDiv_quot [of ?d 1]
      by (simp add: word_of_nat_xor)
    with False have "?f m l = Inr (gfMul l (gfMul (word_of_nat (fst (shares ! m))) (gf_quot 1 ?d)))"
      by (simp add: Let_def gfMultiply_eq)
    with l(1) have "foldE ?f [0..<Suc m] 1 = Inr (gfMul l (gfMul (word_of_nat (fst (shares ! m))) (gf_quot 1 ?d)))"
      by (simp add: foldE_append)
    moreover have "GF (gfMul l (gfMul (word_of_nat (fst (shares ! m))) (gf_quot 1 ?d))) =
        (\<Prod>j\<in>{..<Suc m} - {i}. x j / (x j - x i))"
      using False by (simp add: GF_mul GF_quot d l(2) lessThan_Suc_remove) (simp add: x_def)
    ultimately show ?thesis by blast
  qed
qed simp

lemma reconstructByte_poly:
  fixes shares :: "(nat \<times> byte) list"
  defines "x \<equiv> \<lambda>i. GF (word_of_nat (fst (shares ! i)))"
  assumes inj: "inj_on x {..<length shares}" and f: "polyfun (length shares) f"
    and y: "\<And>i. i < length shares \<Longrightarrow> GF (snd (shares ! i)) = f (x i)"
  shows "reconstructByte shares = Inr (gf_byte (f 0))"
proof -
  let ?n = "length shares"
  let ?L = "\<lambda>i. \<Prod>j\<in>{..<?n} - {i}. x j / (x j - x i)"
  let ?g = "\<lambda>i secret. bindE (foldE (\<lambda>j lagrange.
             if i = j then Inr lagrange
             else let xj = fst (shares ! j); xi = fst (shares ! i) in
               bindE (gfInverse (xj XOR xi)) (\<lambda>d.
                 Inr (gfMultiply (unat lagrange) (unat (gfMultiply xj (unat d)))))) [0..<?n] 1)
           (\<lambda>lagrange. Inr (secret XOR gfMultiply (unat (snd (shares ! i))) (unat lagrange)))"
  have "\<exists>s. foldE ?g [0..<m] 0 = Inr s \<and> GF s = (\<Sum>i<m. f (x i) * ?L i)" if "m \<le> ?n" for m
    using that
  proof (induction m)
    case (Suc m)
    then obtain s where s: "foldE ?g [0..<m] 0 = Inr s" "GF s = (\<Sum>i<m. f (x i) * ?L i)"
      by auto
    obtain l where l: "?g m s = Inr (s XOR gfMultiply (unat (snd (shares ! m))) (unat l))" "GF l = ?L m"
      using reconstructByte_coefficient [of shares m ?n] inj Suc.prems by (auto simp: x_def)
    have "GF (s XOR gfMultiply (unat (snd (shares ! m))) (unat l)) = (\<Sum>i<Suc m. f (x i) * ?L i)"
      using y [of m] Suc.prems by (simp add: gfMultiply_eq GF_xor GF_mul s(2) l(2))
    with s(1) l(1) show ?case by (simp add: foldE_append)
  qed simp
  from this [of ?n] obtain s where s: "reconstructByte shares = Inr s" "GF s = (\<Sum>i<?n. f (x i) * ?L i)"
    by (auto simp: reconstructByte_def)
  have "GF s = lagrange0 {..<?n} x (\<lambda>i. f (x i))"
    by (simp add: s(2) lagrange0_def)
  also have "\<dots> = f 0"
    using inj f by (intro lagrange0_poly) auto
  finally show ?thesis
    using s(1) by (metis gf256.sel)
qed

lemma length_byte_hex [simp]: "length (byte_hex b) = 2"
proof -
  have "unat b < 256"
    using unsigned_less [of b] by simp
  then have "length (to_radix 16 (unat b)) \<le> 2"
    by (rule radix16_two)
  then show ?thesis by (simp add: byte_hex_def pad_start_def)
qed

lemma take_hex: "i < length bs \<Longrightarrow> take 2 (drop (i * 2) (concat (map byte_hex bs))) = byte_hex (bs ! i)"
proof (induction bs arbitrary: i)
  case (Cons b bs)
  then show ?case by (cases i) simp_all
qed simp

lemma length_concat_hex: "length (concat (map byte_hex bs)) = 2 * length bs"
  by (induction bs) simp_all

definition legacyShare :: "nat \<Rightarrow> byte list \<Rightarrow> string" where
  "legacyShare x bs = js_num x @ ''-'' @ concat (map byte_hex bs)"

lemma split_legacyShare: "split_on CHR ''-'' (legacyShare x bs) = [js_num x, concat (map byte_hex bs)]"
proof -
  have "CHR ''-'' \<notin> set (js_num x)"
    by (simp add: js_num_def no_dash_radix)
  moreover have "CHR ''-'' \<notin> set (concat (map byte_hex bs))"
    by (auto simp: byte_hex_def pad_start_def no_dash_radix)
  ultimately show ?thesis by (simp add: legacyShare_def split_on_append)
qed

lemma parse_legacyShare: "1 \<le> x \<Longrightarrow> parseLegacyShare (legacyShare x bs) = Inr (x, bs)"
proof -
  assume x: "1 \<le> x"
  have "parse_int 10 (js_num x) = Some (int x)"
    by (simp add: parse_int_digits js_num_def parse_to_radix)
  moreover have "map (\<lambda>i. case parse_int 16 (take 2 (drop (i * 2) (concat (map byte_hex bs)))) of None \<Rightarrow> 0 | Some v \<Rightarrow> word_of_int v)
      [0..<length bs] = bs"
    by (rule nth_equalityI) (simp_all add: take_hex parse_int_digits [OF byte_hex_parse])
  ultimately show ?thesis
    using x by (simp add: parseLegacyShare_def split_legacyShare length_concat_hex)
qed

lemma not_vss_hex: "\<not> starts_with ''vss'' (concat (map byte_hex bs))"
proof
  assume "starts_with ''vss'' (concat (map byte_hex bs))"
  then have "CHR ''v'' \<in> set (concat (map byte_hex bs))"
    unfolding starts_with_def by (metis in_set_takeD list.set_intros(1))
  then obtain b where "CHR ''v'' \<in> set (byte_hex b)" by auto
  then show False
    using parse_digits_is_digit [OF byte_hex_parse] is_digit_not(8) [of 16 "CHR ''v''"] by auto
qed

section \<open>Properties\<close>

lemma split_example:
  "\<exists>cs. splitSecretVSS (\<lambda>i j. 7) ''0a'' 3 2 = Inr (dealt ''02'' cs 3, map commit cs)"
proof -
  have "parse_digits 16 ''0a'' = Some 10"
    by (simp add: parse_digits_def digit_val_def)
  then have s: "BigInt (''0x'' @ cleanHex ''0a'') = Inr 10"
    using BigInt_hex [of "''0a''" 10] by (simp add: cleanHex_def starts_with_def)
  have "pad_start 2 CHR ''0'' (to_radix 16 (length (cleanHex ''0a''))) = ''02''"
    by (simp add: cleanHex_def starts_with_def pad_start_def to_radix.simps digit_char_def)
  then show ?thesis
    using splitSecretVSS_spec [OF _ _ _ s, of 2 3 "\<lambda>i j. 7"] by (auto simp: cleanHex_def starts_with_def VSS_Q_def)
qed

lemma secret_text:
  assumes hex: "\<forall>c \<in> set h. is_digit 16 c" "length h < 256" and v: "BigInt (''0x'' @ h) = Inr v"
  shows "pad_start (case parse_int 16 (pad_start 2 CHR ''0'' (to_radix 16 (length h))) of None \<Rightarrow> 0 | Some v \<Rightarrow> nat v)
    CHR ''0'' (bigint_hex_str v) = map lower h"
proof -
  have "h \<noteq> []"
    using v by (auto simp: BigInt_def parse_bigint_def parse_digits_def js_trim_def is_space_def)
  then obtain n where n: "parse_digits 16 h = Some n"
    using parse_all_digits hex(1) by blast
  then have "v = int n"
    using v BigInt_hex [OF n] by simp
  then show ?thesis
    using lenHex_prefix(2) [OF hex(2)] reprint_hex [OF n] by (simp add: bigint_hex_str_def)
qed

text \<open>
  C4. Sharing and reconstruction: when a secret of fewer than 256 hexadecimal digits has been split, into fewer shares than
  the group order, any at least \<open>k\<close> different shares of the dealing, in any order, reconstruct exactly the secret's digits
  (in lower case), for every choice of the random bytes.
\<close>

theorem reconstruct_split:
  assumes split: "splitSecretVSS rnd secretHex n k = Inr (shares, commitments)"
    and hex: "\<forall>c \<in> set (cleanHex secretHex). is_digit 16 c" "length (cleanHex secretHex) < 256"
    and n: "int n < VSS_Q"
    and sub: "set sub \<subseteq> set shares" "distinct sub" "k \<le> length sub"
  shows "reconstructSecret sub = Inr (map lower (cleanHex secretHex))"
proof -
  let ?l = "pad_start 2 CHR ''0'' (to_radix 16 (length (cleanHex secretHex)))"
  obtain cs where cs: "1 \<le> k" "field_coeffs cs" "length cs = k" "BigInt (''0x'' @ cleanHex secretHex) = Inr (hd cs)"
    "shares = dealt ?l cs n"
    using splitSecretVSS_InrD [OF split] by metis
  have "reconstructSecret sub =
      Inr (pad_start (case parse_int 16 ?l of None \<Rightarrow> 0 | Some v \<Rightarrow> nat v) CHR ''0'' (bigint_hex_str (hd cs)))"
    by (rule reconstruct_dealt [OF cs(2) _ lenHex_prefix(1) [OF hex(2)] n]) (use sub cs in auto)
  then show ?thesis
    by (simp only: secret_text [OF hex cs(4)])
qed

theorem reconstruct_split_witness:
  "\<exists>shares commitments. splitSecretVSS (\<lambda>i j. 7) ''0a'' 3 2 = Inr (shares, commitments)
     \<and> reconstructSecret [shares ! 2, shares ! 0] = Inr ''0a''"
proof -
  obtain cs where cs: "splitSecretVSS (\<lambda>i j. 7) ''0a'' 3 2 = Inr (dealt ''02'' cs 3, map commit cs)"
    using split_example by blast
  have "distinct (dealt ''02'' cs 3)" "length (dealt ''02'' cs 3) = 3"
    by (auto simp: len_prefix_def intro!: distinct_dealt) (simp add: dealt_def)
  then have "reconstructSecret [dealt ''02'' cs 3 ! 2, dealt ''02'' cs 3 ! 0] = Inr (map lower (cleanHex ''0a''))"
    by (intro reconstruct_split [OF cs])
      (auto simp: cleanHex_def starts_with_def VSS_Q_def is_digit_def digit_val_def nth_eq_iff_index_eq)
  with cs show ?thesis
    by (auto simp: cleanHex_def starts_with_def lower_def)
qed

text \<open>
  C6. Feldman check, completeness and soundness: against the commitments of a dealing, a share text
  with point \<open>x\<close> between 1 and \<open>n\<close>, any non-negative value \<open>y\<close> and any length field of two characters without a
  hyphen is accepted exactly when \<open>y\<close> equals, modulo the group order, the value of the share dealt for that point.
\<close>

theorem verifyShare_exact:
  assumes "splitSecretVSS rnd secretHex n k = Inr (shares, commitments)"
    and "1 \<le> x" "x \<le> n" and "0 \<le> y" and "length l = 2" "CHR ''-'' \<notin> set l"
  shows "\<exists>v. shares ! (x - 1) = formatShare x (pad_start 2 CHR ''0'' (to_radix 16 (length (cleanHex secretHex)))) v
    \<and> 0 \<le> v \<and> v < VSS_Q \<and> (verifyShare (formatShare x l y) commitments \<longleftrightarrow> y mod VSS_Q = v)"
proof -
  let ?l = "pad_start 2 CHR ''0'' (to_radix 16 (length (cleanHex secretHex)))"
  obtain cs where cs: "field_coeffs cs" "shares = dealt ?l cs n" "commitments = map commit cs"
    using splitSecretVSS_InrD [OF assms(1)] by metis
  have "verifyShare (formatShare x l y) commitments \<longleftrightarrow> y mod VSS_Q = poly_at cs (int x) mod VSS_Q"
    unfolding cs(3) using cs(1) assms(4,5,6) by (intro verifyShare_iff) (simp_all add: len_prefix_def)
  moreover have "[1..<n + 1] ! (x - 1) = x"
    using assms(2,3) by (subst nth_upt) auto
  then have "shares ! (x - 1) = formatShare x ?l (poly_at cs (int x) mod VSS_Q)"
    using assms(2,3) by (simp add: cs(2) dealt_def del: upt_Suc)
  ultimately show ?thesis
    by (intro exI [of _ "poly_at cs (int x) mod VSS_Q"]) simp
qed

theorem verifyShare_exact_witness:
  "\<exists>shares commitments v. splitSecretVSS (\<lambda>i j. 7) ''0a'' 3 2 = Inr (shares, commitments)
     \<and> 0 \<le> v \<and> v < VSS_Q \<and> shares ! 1 = formatShare 2 ''02'' v
     \<and> (verifyShare (formatShare 2 ''02'' 5) commitments \<longleftrightarrow> 5 mod VSS_Q = v)"
proof -
  obtain shares commitments where split: "splitSecretVSS (\<lambda>i j. 7) ''0a'' 3 2 = Inr (shares, commitments)"
    using split_example by blast
  have "pad_start 2 CHR ''0'' (to_radix 16 (length (cleanHex ''0a''))) = ''02''"
    by (simp add: cleanHex_def starts_with_def pad_start_def to_radix.simps digit_char_def)
  with verifyShare_exact [OF split, of 2 5 "''02''"] show ?thesis
    using split by auto
qed

text \<open>
  Which inputs can be shared: splitting succeeds exactly when the threshold lies between 1 and the
  number of shares, the digits are even in number, and they parse to a number below the group order.
\<close>

theorem splitSecretVSS_domain:
  "(\<exists>r. splitSecretVSS rnd secretHex n k = Inr r) \<longleftrightarrow>
     1 \<le> k \<and> k \<le> n \<and> even (length (cleanHex secretHex))
     \<and> (case BigInt (''0x'' @ cleanHex secretHex) of Inl e \<Rightarrow> False | Inr v \<Rightarrow> v < VSS_Q)"
proof
  assume "\<exists>r. splitSecretVSS rnd secretHex n k = Inr r"
  then obtain shares comms where r: "splitSecretVSS rnd secretHex n k = Inr (shares, comms)" by auto
  then show "1 \<le> k \<and> k \<le> n \<and> even (length (cleanHex secretHex))
     \<and> (case BigInt (''0x'' @ cleanHex secretHex) of Inl e \<Rightarrow> False | Inr v \<Rightarrow> v < VSS_Q)"
    by (auto simp: splitSecretVSS_def bindE_eq_Inr even_iff_mod_2_eq_zero split: if_splits)
next
  assume a: "1 \<le> k \<and> k \<le> n \<and> even (length (cleanHex secretHex))
     \<and> (case BigInt (''0x'' @ cleanHex secretHex) of Inl e \<Rightarrow> False | Inr v \<Rightarrow> v < VSS_Q)"
  then obtain v where v: "BigInt (''0x'' @ cleanHex secretHex) = Inr v" "v < VSS_Q"
    by (auto split: sum.splits)
  then show "\<exists>r. splitSecretVSS rnd secretHex n k = Inr r"
    using splitSecretVSS_spec [of k n secretHex v rnd] BigInt_0x_nonneg a by blast
qed

text \<open>
  Shares of the older format: texts holding, for each byte of the secret, the values of one
  polynomial of degree below the number of shares at points with different low bytes, reconstruct to
  the values at zero.
\<close>

theorem reconstruct_legacy:
  assumes xs: "xs \<noteq> []" "\<forall>x \<in> set xs. 1 \<le> x" "distinct (map (\<lambda>x. word_of_nat x :: byte) xs)"
    and fs: "\<forall>f \<in> set fs. polyfun (length xs) f"
  shows "reconstructSecret (map (\<lambda>x. legacyShare x (map (\<lambda>f. gf_byte (f (GF (word_of_nat x)))) fs)) xs) =
    Inr (concat (map (\<lambda>f. byte_hex (gf_byte (f 0))) fs))"
proof -
  let ?bs = "\<lambda>x. map (\<lambda>f. gf_byte (f (GF (word_of_nat x)))) fs"
  let ?ss = "map (\<lambda>x. legacyShare x (?bs x)) xs"
  let ?ps = "map (\<lambda>x. (x, ?bs x)) xs"
  have parse: "mapE parseLegacyShare ?ss = Inr ?ps"
    using mapE_all_Inr [of xs "\<lambda>x. parseLegacyShare (legacyShare x (?bs x))" "\<lambda>x. (x, ?bs x)"] xs(2)
    by (simp add: parse_legacyShare mapE_map)
  have byte: "reconstructByte (map (\<lambda>s. (fst s, snd s ! b)) ?ps) = Inr (gf_byte ((fs ! b) 0))" if "b < length fs" for b
  proof (rule reconstructByte_poly)
    show "inj_on (\<lambda>i. GF (word_of_nat (fst (map (\<lambda>s. (fst s, snd s ! b)) ?ps ! i)))) {..<length (map (\<lambda>s. (fst s, snd s ! b)) ?ps)}"
      using xs(3) by (auto simp: inj_on_def distinct_conv_nth)
  qed (use that fs in auto)
  have "mapE (\<lambda>b. reconstructByte (map (\<lambda>s. (fst s, snd s ! b)) ?ps)) [0..<length fs] =
      Inr (map (\<lambda>b. gf_byte ((fs ! b) 0)) [0..<length fs])"
    by (rule mapE_all_Inr) (use byte in auto)
  moreover have "map (\<lambda>b. gf_byte ((fs ! b) 0)) [0..<length fs] = map (\<lambda>f. gf_byte (f 0)) fs"
    by (rule map_nth_f)
  moreover have "?ss ! 0 = legacyShare (xs ! 0) (?bs (xs ! 0))"
    using xs(1) by simp
  moreover have "length (snd (?ps ! 0)) = length fs"
    using xs(1) by simp
  ultimately show ?thesis
    using xs(1) parse not_vss_hex [of "?bs (xs ! 0)"]
    by (simp add: reconstructSecret_def split_legacyShare reconstructLegacy_def Let_def o_def)
qed

theorem reconstruct_legacy_witness:
  "reconstructSecret (map (\<lambda>x. legacyShare x (map (\<lambda>f. gf_byte (f (GF (word_of_nat x)))) [poly_at [GF 9, GF 3]])) [1, 2]) =
    Inr (concat (map (\<lambda>f. byte_hex (gf_byte (f 0))) [poly_at [GF 9, GF 3]]))"
  using polyfun_poly_at [of "[GF 9, GF 3]"]
  by (intro reconstruct_legacy [of "[1, 2]" "[poly_at [GF 9, GF 3]]"]) auto

end
