(* ===== verification/Proactive_Sharing.thy ===== *)
theory Proactive_Sharing
  imports Secrets
begin

text \<open>
  Proactive refresh of shares, \<^verbatim>\<open>utils/proactiveSecretSharing.ts\<close>: every guardian deals a sharing of
  zero, the contributions are checked against their commitments and added to the shares, and the
  public commitments are multiplied up. The module repeats the modular helpers of the secrets module
  with a different normalisation; both satisfy the interface \<open>modular\<close>. The second half is the older
  variant over the field with \<open>2 ^ 127 - 1\<close> elements.

  The random bytes are arguments: \<open>rnd i m\<close> is the block drawn by guardian \<open>i\<close> for coefficient \<open>m\<close>. The
  artificial delays between the guardians change no state and are left out.
\<close>

section \<open>Feldman variant\<close>

definition modAdd_pss :: "int \<Rightarrow> int \<Rightarrow> int \<Rightarrow> int" where
  "modAdd_pss a b m = bigint_rem (bigint_rem (a + b) m + m) m"

definition modMul_pss :: "int \<Rightarrow> int \<Rightarrow> int \<Rightarrow> int" where
  "modMul_pss a b m = bigint_rem (bigint_rem (a * b) m + m) m"

definition modPow_pss :: "int \<Rightarrow> int \<Rightarrow> int \<Rightarrow> int" where
  "modPow_pss base e m = pow_loop (\<lambda>x y. bigint_rem (x * y) m) 1 (bigint_rem (bigint_rem base m + m) m) e"

definition randomVssScalar :: "(nat \<Rightarrow> byte) \<Rightarrow> int result" where
  "randomVssScalar block = bindE (BigInt (''0x'' @ concat (map (\<lambda>j. byte_hex (block j)) [0..<32])))
     (\<lambda>v. Inr (bigint_rem v VSS_Q))"

record ZeroPolynomialVSS =
  guardianIndex :: nat
  coefficients :: "int list"
  zeroCommitments :: "string list"
  subshares :: "nat \<rightharpoonup> int"

definition evalZero :: "int list \<Rightarrow> nat \<Rightarrow> nat \<Rightarrow> int" where
  "evalZero coeffs threshold j =
     fst (fold (\<lambda>m (val, jPower). (modAdd_pss val (modMul_pss (coeffs ! m) jPower VSS_Q) VSS_Q, modMul_pss jPower (int j) VSS_Q))
       [0..<threshold] (0, 1))"

definition generateZeroPolynomialVSS :: "(nat \<Rightarrow> nat \<Rightarrow> byte) \<Rightarrow> nat \<Rightarrow> nat \<Rightarrow> nat \<Rightarrow> ZeroPolynomialVSS result" where
  "generateZeroPolynomialVSS rnd threshold numGuardians gi =
     (if threshold < 1 \<or> threshold > numGuardians
      then Inl (Error ''Threshold must satisfy 1 <= threshold <= numGuardians'')
      else bindE (mapE (\<lambda>m. randomVssScalar (rnd m)) [1..<threshold]) (\<lambda>rands.
        let coeffs = 0 # rands;
            comms = map (\<lambda>m. pad_start 66 CHR ''0'' (bigint_hex_str (modPow_pss VSS_G (coeffs ! m) VSS_P))) [0..<threshold];
            subs = fold (\<lambda>j subs. subs(j \<mapsto> evalZero coeffs threshold j)) [1..<numGuardians + 1] Map.empty
        in Inr \<lparr>guardianIndex = gi, coefficients = coeffs, zeroCommitments = comms, subshares = subs\<rparr>))"

definition verifyZeroShareContribution :: "int \<Rightarrow> nat \<Rightarrow> string list \<Rightarrow> bool" where
  "verifyZeroShareContribution contribution x comms =
     (case foldE (\<lambda>m rhs. bindE (BigInt (''0x'' @ comms ! m)) (\<lambda>zm.
         Inr (modMul_pss rhs (modPow_pss zm (modPow_pss (int x) (int m) VSS_Q) VSS_P) VSS_P))) [0..<length comms] 1 of
        Inl e \<Rightarrow> False
      | Inr rhs \<Rightarrow> modPow_pss VSS_G contribution VSS_P = rhs)"

definition updateShareVSS :: "string \<Rightarrow> int list \<Rightarrow> string result" where
  "updateShareVSS currentShareStr contributions =
     (let parts = split_on CHR ''-'' currentShareStr in
      if length parts \<noteq> 2 then Inl (Error (''Invalid share string format: '' @ currentShareStr))
      else let hex = parts ! 1;
               x = (case parse_int 10 (parts ! 0) of None \<Rightarrow> ''NaN'' | Some v \<Rightarrow> js_num (nat v))
      in if \<not> starts_with ''vss'' hex then Inl (Error ''Cannot update legacy non-VSS share with VSS zero-shares'')
      else let lenHex = js_slice hex 3 5 in
        bindE (BigInt (''0x'' @ drop 5 hex)) (\<lambda>y0.
          let y = fold (\<lambda>contrib y. modAdd_pss y contrib VSS_Q) contributions y0
          in Inr (x @ ''-vss'' @ lenHex @ pad_start 64 CHR ''0'' (bigint_hex_str y))))"

definition updateCommitment :: "string list list \<Rightarrow> nat \<Rightarrow> nat \<Rightarrow> string \<Rightarrow> string result" where
  "updateCommitment matrix k m current =
     bindE (BigInt (''0x'' @ current)) (\<lambda>c0.
       bindE (foldE (\<lambda>row cm.
           if length row \<noteq> k then Inl (Error ''Mismatched zero-commitment vector length'')
           else bindE (BigInt (''0x'' @ row ! m)) (\<lambda>zm. Inr (modMul_pss cm zm VSS_P))) matrix c0)
         (\<lambda>cm. Inr (pad_start 66 CHR ''0'' (bigint_hex_str cm))))"

text \<open>With no commitments at all the final comparison reads an undefined entry and throws.\<close>

definition updateCommitmentsVSS :: "string list \<Rightarrow> string list list \<Rightarrow> string list result" where
  "updateCommitmentsVSS current matrix =
     (let k = length current in
      bindE (mapE (\<lambda>m. updateCommitment matrix k m (current ! m)) [0..<k]) (\<lambda>updated.
        if k = 0 then Inl SyntaxError
        else bindE (BigInt (''0x'' @ current ! 0)) (\<lambda>initialC0.
          bindE (BigInt (''0x'' @ updated ! 0)) (\<lambda>finalC0.
            if initialC0 \<noteq> finalC0 then Inl (Error ''Master secret commitment changed during zero-sharing refresh'')
            else Inr updated))))"

record ProactiveRefreshVSSResult =
  refreshedShares :: "string list"
  refreshedCommitments :: "string list"
  recoveredSecret :: string
  epoch :: nat

definition checkContributions :: "ZeroPolynomialVSS list \<Rightarrow> nat \<Rightarrow> unit result" where
  "checkContributions polys n =
     foldE (\<lambda>i _. foldE (\<lambda>j _.
         if verifyZeroShareContribution (the (subshares (polys ! i) j)) j (zeroCommitments (polys ! i)) then Inr ()
         else Inl (Error (''Zero-share contribution from guardian '' @ js_num (i + 1) @ '' to guardian '' @ js_num j @ '' failed verification'')))
       [1..<n + 1] ()) [0..<n] ()"

definition proactiveRefreshVSS :: "(nat \<Rightarrow> nat \<Rightarrow> nat \<Rightarrow> byte) \<Rightarrow> string list \<Rightarrow> string list \<Rightarrow> nat \<Rightarrow> nat \<Rightarrow> ProactiveRefreshVSSResult result" where
  "proactiveRefreshVSS rnd shares commitments threshold ep =
     (let n = length shares in
      if threshold < 1 \<or> threshold > n then Inl (Error ''Threshold must satisfy 1 <= threshold <= numShares'')
      else bindE (mapE (\<lambda>i. generateZeroPolynomialVSS (rnd i) threshold n (i + 1)) [0..<n]) (\<lambda>polys.
        bindE (checkContributions polys n) (\<lambda>_.
        bindE (mapE (\<lambda>j. updateShareVSS (shares ! j) (map (\<lambda>p. the (subshares p (j + 1))) polys)) [0..<n]) (\<lambda>refreshed.
        bindE (updateCommitmentsVSS commitments (map zeroCommitments polys)) (\<lambda>newComms.
        if \<exists>s \<in> set refreshed. \<not> verifyShare s newComms
        then Inl (Error ''Refreshed share failed verification against updated commitments'')
        else bindE (reconstructSecret (take threshold refreshed)) (\<lambda>recovered.
          bindE (reconstructSecret (take threshold shares)) (\<lambda>original.
            if recovered \<noteq> original then Inl (Error ''Master secret altered after proactive secret resharing'')
            else Inr \<lparr>refreshedShares = refreshed, refreshedCommitments = newComms, recoveredSecret = recovered, epoch = ep\<rparr>)))))))"

section \<open>Variant over the field with 2^127 - 1 elements\<close>

definition PSS_FIELD_PRIME :: int where
  "PSS_FIELD_PRIME = 2 ^ 127 - 1"

record PShare =
  share_x :: int
  share_y :: int

definition randomFieldElement :: "(nat \<Rightarrow> byte) \<Rightarrow> int" where
  "randomFieldElement block =
     bigint_rem (fold (\<lambda>j value. value * 256 + uint (block j)) [0..<16] 0) PSS_FIELD_PRIME"

definition mod_pss :: "int \<Rightarrow> int" where
  "mod_pss v = bigint_rem (bigint_rem v PSS_FIELD_PRIME + PSS_FIELD_PRIME) PSS_FIELD_PRIME"

definition makeRandomPolynomial :: "(nat \<Rightarrow> nat \<Rightarrow> byte) \<Rightarrow> int \<Rightarrow> int \<Rightarrow> int list result" where
  "makeRandomPolynomial rnd intercept degree =
     (if degree < 0 then Inl (Error ''Polynomial degree must be a non-negative integer'')
      else Inr (mod_pss intercept # map (\<lambda>i. randomFieldElement (rnd i)) [0..<nat degree]))"

definition evaluatePolynomial :: "int list \<Rightarrow> int \<Rightarrow> int" where
  "evaluatePolynomial coeffs x = fold (\<lambda>i result. mod_pss (result * mod_pss x + coeffs ! i)) (rev [0..<length coeffs]) 0"

definition splitSecret_pss :: "(nat \<Rightarrow> nat \<Rightarrow> byte) \<Rightarrow> int \<Rightarrow> nat \<Rightarrow> nat \<Rightarrow> PShare list result" where
  "splitSecret_pss rnd secret threshold numShares =
     (if threshold < 1 \<or> threshold > numShares then Inl (Error ''Threshold must satisfy 1 <= threshold <= numShares'')
      else bindE (makeRandomPolynomial rnd (mod_pss secret) (int threshold - 1)) (\<lambda>poly.
        Inr (map (\<lambda>j. \<lparr>share_x = int j, share_y = evaluatePolynomial poly (int j)\<rparr>) [1..<numShares + 1])))"

definition generateZeroShares :: "(nat \<Rightarrow> nat \<Rightarrow> byte) \<Rightarrow> nat \<Rightarrow> int list \<Rightarrow> (int \<rightharpoonup> int) result" where
  "generateZeroShares rnd threshold points =
     bindE (makeRandomPolynomial rnd 0 (int threshold - 1)) (\<lambda>zeroPoly.
       Inr (fold (\<lambda>point contributions. contributions(point \<mapsto> evaluatePolynomial zeroPoly point)) points Map.empty))"

definition addContribution :: "PShare \<Rightarrow> int \<Rightarrow> PShare" where
  "addContribution share contribution = \<lparr>share_x = share_x share, share_y = mod_pss (share_y share + contribution)\<rparr>"

definition powMod :: "int \<Rightarrow> int \<Rightarrow> int" where
  "powMod base e = pow_loop (\<lambda>x y. mod_pss (x * y)) 1 (mod_pss base) e"

definition combineCoefficient :: "PShare list \<Rightarrow> nat \<Rightarrow> int \<times> int" where
  "combineCoefficient used i =
     fold (\<lambda>j (numerator, denominator).
         if i = j then (numerator, denominator)
         else (mod_pss (numerator * share_x (used ! j)), mod_pss (denominator * (share_x (used ! j) - share_x (used ! i)))))
       [0..<length used] (1, 1)"

definition combineShares :: "PShare list \<Rightarrow> nat \<Rightarrow> int result" where
  "combineShares shares threshold =
     (if length shares < threshold then Inl (Error (''Need at least '' @ js_num threshold @ '' shares to reconstruct''))
      else let used = take threshold shares in
        Inr (fold (\<lambda>i secret. case combineCoefficient used i of (numerator, denominator) \<Rightarrow>
            let inverse = powMod denominator (PSS_FIELD_PRIME - 2)
            in mod_pss (secret + share_y (used ! i) * mod_pss (numerator * inverse))) [0..<length used] 0))"

definition proactiveRefresh :: "(nat \<Rightarrow> nat \<Rightarrow> nat \<Rightarrow> byte) \<Rightarrow> PShare list \<Rightarrow> nat \<Rightarrow> nat \<Rightarrow> (PShare list \<times> int \<times> nat) result" where
  "proactiveRefresh rnd shares threshold ep =
     (let points = map share_x shares in
      bindE (mapE (\<lambda>i. generateZeroShares (rnd i) threshold points) [0..<length shares]) (\<lambda>allContributions.
        let refreshed = map (\<lambda>share. fold (\<lambda>c updated. addContribution updated (the (c (share_x share)))) allContributions share) shares
        in bindE (combineShares refreshed threshold) (\<lambda>recovered. Inr (refreshed, recovered, ep))))"

section \<open>The helpers satisfy the interface\<close>

interpretation pss: modular modAdd_pss modMul_pss modPow_pss
proof
  fix a b m :: int
  assume m: "0 < m"
  show "modAdd_pss a b m = (a + b) mod m"
    using m by (simp add: modAdd_pss_def bigint_rem_normalise)
  show "modMul_pss a b m = (a * b) mod m"
    using m by (simp add: modMul_pss_def bigint_rem_normalise)
next
  fix a m e :: int
  assume a: "0 \<le> a" and m: "1 < m"
  then have "modPow_pss a e m = 1 * (a mod m) ^ nat e mod m"
    unfolding modPow_pss_def by (subst pow_loop_correct [where m = m]) (auto simp: bigint_rem_normalise)
  then show "modPow_pss a e m = a ^ nat e mod m"
    by (simp add: power_mod)
qed

section \<open>Dealing zero\<close>

lemma fold_map_upd: "fold (\<lambda>j s. s(j \<mapsto> f j)) xs m = (\<lambda>j. if j \<in> set xs then Some (f j) else m j)"
  by (induction xs arbitrary: m) (auto simp: fun_eq_iff)

lemma randomVssScalar_eq: "randomVssScalar block = randVal block"
  by (simp add: randomVssScalar_def randVal_def)

definition zero_poly :: "int list \<Rightarrow> nat \<Rightarrow> nat \<Rightarrow> nat \<Rightarrow> ZeroPolynomialVSS" where
  "zero_poly z n g threshold = \<lparr>guardianIndex = g, coefficients = z, zeroCommitments = map commit z,
     subshares = (\<lambda>j. if 1 \<le> j \<and> j \<le> n then Some (poly_at z (int j) mod VSS_Q) else None)\<rparr>"

lemma evalZero_eq:
  assumes "field_coeffs cs" "length cs = t"
  shows "evalZero cs t j = poly_at cs (int j) mod VSS_Q"
  using pss.eval_loop_poly [of VSS_Q "int j" cs] assms by (simp add: evalZero_def field_coeffs_def)

lemma generateZero_spec:
  assumes "1 \<le> t" "t \<le> n"
  shows "\<exists>z. field_coeffs z \<and> length z = t \<and> hd z = 0 \<and>
    generateZeroPolynomialVSS rnd t n g = Inr (zero_poly z n g t)"
proof -
  obtain rs where rs: "mapE (\<lambda>m. randomVssScalar (rnd m)) [1..<t] = Inr rs" "length rs = t - 1"
    "\<forall>v \<in> set rs. 0 \<le> v \<and> v < VSS_Q"
    using mapE_range [of "[1..<t]" "\<lambda>m. randomVssScalar (rnd m)" "\<lambda>v. 0 \<le> v \<and> v < VSS_Q"] randVal_range
    by (auto simp: randomVssScalar_eq)
  let ?z = "0 # rs"
  have z: "field_coeffs ?z" "length ?z = t"
    using rs assms by (auto simp: field_coeffs_def)
  have e: "evalZero ?z t j = poly_at ?z (int j) mod VSS_Q" for j
    using z by (rule evalZero_eq)
  have c: "map (\<lambda>m. pad_start 66 CHR ''0'' (bigint_hex_str (modPow_pss VSS_G (?z ! m) VSS_P))) [0..<t] = map commit ?z"
    using commitments_eq [OF z(2)] by (simp add: pss.pow_law sec.pow_law)
  have "generateZeroPolynomialVSS rnd t n g = Inr (zero_poly ?z n g t)"
    using assms rs(1) by (simp add: generateZeroPolynomialVSS_def Let_def c e fold_map_upd zero_poly_def fun_eq_iff del: upt_Suc)
  with z show ?thesis by (intro exI [of _ ?z]) simp
qed

lemma verifyZero_accepts:
  assumes "field_coeffs z"
  shows "verifyZeroShareContribution (poly_at z (int x) mod VSS_Q) x (map commit z)"
proof -
  let ?c = "\<lambda>j. VSS_G ^ nat (z ! j) mod VSS_P"
  have pos: "0 \<le> c" if "c \<in> set z" for c
    using assms that by (simp add: field_coeffs_def)
  have f0: "0 \<le> poly_at z (int x)"
    using pos by (auto simp: poly_at_def intro!: sum_nonneg)
  have "foldE (\<lambda>m rhs. bindE (BigInt (''0x'' @ map commit z ! m)) (\<lambda>zm.
         Inr (modMul_pss rhs (modPow_pss zm (modPow_pss (int x) (int m) VSS_Q) VSS_P) VSS_P))) [0..<length (map commit z)] 1 =
      Inr (fold (\<lambda>j rhs. modMul_pss rhs (modPow_pss (?c j) (modPow_pss (int x) (int j) VSS_Q) VSS_P) VSS_P) [0..<length z] 1)"
    by (simp, rule foldE_Inr') (simp add: commit_parse)
  also have "\<dots> = Inr (VSS_G ^ nat (poly_at z (int x)) mod VSS_P)"
    by (subst pss.feldman_loop) (simp_all add: commitments_product [OF pos])
  also have "VSS_G ^ nat (poly_at z (int x)) mod VSS_P = modPow_pss VSS_G (poly_at z (int x) mod VSS_Q) VSS_P"
    using power_mod_period [OF VSS_G_order(1) _ _ f0] by (simp add: pss.pow_law)
  finally show ?thesis
    by (simp add: verifyZeroShareContribution_def)
qed

section \<open>Adding polynomials\<close>

definition padd :: "int list \<Rightarrow> int list \<Rightarrow> int list" where
  "padd z cs = map2 (\<lambda>a b. (a + b) mod VSS_Q) z cs"

lemma padd_nth: "length z = length cs \<Longrightarrow> i < length cs \<Longrightarrow> padd z cs ! i = (z ! i + cs ! i) mod VSS_Q"
  by (simp add: padd_def)

lemma length_padd [simp]: "length z = length cs \<Longrightarrow> length (padd z cs) = length cs"
  by (simp add: padd_def)

lemma field_coeffs_padd [simp]: "field_coeffs (padd z cs)"
  by (auto simp: field_coeffs_def padd_def set_zip)

lemma poly_at_padd:
  assumes "length z = length cs"
  shows "poly_at (padd z cs) x mod VSS_Q = (poly_at cs x + poly_at z x) mod VSS_Q"
proof -
  have "poly_at (padd z cs) x mod VSS_Q = (\<Sum>i<length cs. padd z cs ! i * x ^ i mod VSS_Q) mod VSS_Q"
    using assms by (simp add: poly_at_def mod_sum_eq)
  also have "\<dots> = (\<Sum>i<length cs. (z ! i * x ^ i + cs ! i * x ^ i) mod VSS_Q) mod VSS_Q"
    by (rule arg_cong [where f = "\<lambda>s. s mod VSS_Q"], rule sum.cong)
      (use assms in \<open>simp_all add: padd_nth mod_mult_left_eq distrib_right\<close>)
  also have "\<dots> = (poly_at cs x + poly_at z x) mod VSS_Q"
    using assms by (simp add: mod_sum_eq sum.distrib poly_at_def add.commute)
  finally show ?thesis .
qed

definition refresh_poly :: "int list list \<Rightarrow> int list \<Rightarrow> int list" where
  "refresh_poly zs cs = fold padd zs cs"

definition zero_polys :: "int list list \<Rightarrow> nat \<Rightarrow> bool" where
  "zero_polys zs t \<longleftrightarrow> (\<forall>z \<in> set zs. field_coeffs z \<and> length z = t \<and> hd z = 0)"

lemma refresh_poly_shape:
  assumes "zero_polys zs (length cs)" "field_coeffs cs" "cs \<noteq> []"
  shows "length (refresh_poly zs cs) = length cs \<and> field_coeffs (refresh_poly zs cs) \<and> hd (refresh_poly zs cs) = hd cs"
  using assms unfolding refresh_poly_def
proof (induction zs arbitrary: cs)
  case (Cons z zs)
  then have z: "length z = length cs" "hd z = 0" "zero_polys zs (length (padd z cs))"
    by (auto simp: zero_polys_def)
  have hd: "hd (padd z cs) = hd cs"
    using z Cons.prems by (cases z; cases cs) (auto simp: padd_def field_coeffs_def)
  have "padd z cs \<noteq> []"
    using z Cons.prems by (cases z; cases cs) (auto simp: padd_def)
  with Cons.IH [OF z(3)] z(1) hd show ?case by simp
qed simp

lemma update_value:
  assumes "zero_polys zs (length cs)" "0 \<le> x"
  shows "fold (\<lambda>contrib y. modAdd_pss y contrib VSS_Q) (map (\<lambda>z. poly_at z x mod VSS_Q) zs) (poly_at cs x mod VSS_Q) =
    poly_at (refresh_poly zs cs) x mod VSS_Q"
  using assms unfolding refresh_poly_def
proof (induction zs arbitrary: cs)
  case (Cons z zs)
  then have z: "length z = length cs" "zero_polys zs (length (padd z cs))"
    by (auto simp: zero_polys_def)
  have "modAdd_pss (poly_at cs x mod VSS_Q) (poly_at z x mod VSS_Q) VSS_Q = poly_at (padd z cs) x mod VSS_Q"
    by (simp add: pss.add_law poly_at_padd [OF z(1)] mod_simps)
  with Cons.IH [OF z(2)] Cons.prems show ?case by simp
qed simp

lemma commit_add:
  assumes "0 \<le> a" "0 \<le> b"
  shows "modMul_pss (VSS_G ^ nat a mod VSS_P) (VSS_G ^ nat b mod VSS_P) VSS_P = VSS_G ^ nat ((b + a) mod VSS_Q) mod VSS_P"
proof -
  have "modMul_pss (VSS_G ^ nat a mod VSS_P) (VSS_G ^ nat b mod VSS_P) VSS_P = VSS_G ^ nat (b + a) mod VSS_P"
    using assms by (simp add: pss.mul_law mod_mult_eq nat_add_distrib power_add mult.commute)
  also have "\<dots> = VSS_G ^ nat ((b + a) mod VSS_Q) mod VSS_P"
    using assms by (intro power_mod_period [OF VSS_G_order(1), symmetric]) auto
  finally show ?thesis .
qed

lemma updateCommitment_loop:
  assumes "zero_polys zs (length cs)" "field_coeffs cs" "m < length cs"
  shows "foldE (\<lambda>row cm.
           if length row \<noteq> length cs then Inl (Error ''Mismatched zero-commitment vector length'')
           else bindE (BigInt (''0x'' @ row ! m)) (\<lambda>zm. Inr (modMul_pss cm zm VSS_P)))
         (map (map commit) zs) (VSS_G ^ nat (cs ! m) mod VSS_P) =
    Inr (VSS_G ^ nat (refresh_poly zs cs ! m) mod VSS_P)"
  using assms unfolding refresh_poly_def
proof (induction zs arbitrary: cs)
  case (Cons z zs)
  then have z: "length z = length cs" "zero_polys zs (length (padd z cs))" "field_coeffs z"
    by (auto simp: zero_polys_def)
  have pos: "0 \<le> cs ! m" "0 \<le> z ! m"
    using Cons.prems z by (auto simp: field_coeffs_def)
  have "modMul_pss (VSS_G ^ nat (cs ! m) mod VSS_P) (VSS_G ^ nat (z ! m) mod VSS_P) VSS_P =
      VSS_G ^ nat (padd z cs ! m) mod VSS_P"
    using commit_add [OF pos] Cons.prems(3) z(1) by (simp add: padd_nth)
  with Cons.IH [OF z(2)] z(1) Cons.prems(3) show ?case
    by (simp add: commit_parse)
qed simp

section \<open>The refresh\<close>

lemma updateCommitmentsVSS_spec:
  assumes zs: "zero_polys zs (length cs)" and cs: "field_coeffs cs" "cs \<noteq> []"
  shows "updateCommitmentsVSS (map commit cs) (map (map commit) zs) = Inr (map commit (refresh_poly zs cs))"
proof -
  let ?cs' = "refresh_poly zs cs"
  have sh: "length ?cs' = length cs" "hd ?cs' = hd cs"
    using refresh_poly_shape [OF zs cs] by auto
  have up: "updateCommitment (map (map commit) zs) (length cs) m (map commit cs ! m) = Inr (commit (?cs' ! m))"
    if "m < length cs" for m
    using that updateCommitment_loop [OF zs cs(1) that] by (simp add: updateCommitment_def commit_parse) (simp add: commit_def)
  have "mapE (\<lambda>m. updateCommitment (map (map commit) zs) (length cs) m (map commit cs ! m)) [0..<length cs] =
      Inr (map (\<lambda>m. commit (?cs' ! m)) [0..<length cs])"
    by (rule mapE_all_Inr) (use up in auto)
  also have "map (\<lambda>m. commit (?cs' ! m)) [0..<length cs] = map commit ?cs'"
    using map_nth_f [of commit ?cs'] sh(1) by simp
  finally have "mapE (\<lambda>m. updateCommitment (map (map commit) zs) (length cs) m (map commit cs ! m)) [0..<length cs] =
      Inr (map commit ?cs')" .
  moreover have "?cs' ! 0 = cs ! 0" "?cs' \<noteq> []"
    using sh cs(2) by (cases ?cs'; cases cs; simp)+
  ultimately show ?thesis
    using cs(2) sh(1) by (simp add: updateCommitmentsVSS_def Let_def commit_parse)
qed

lemma updateShareVSS_spec:
  assumes zs: "zero_polys zs (length cs)" and l: "len_prefix l"
  shows "updateShareVSS (formatShare x l (poly_at cs (int x) mod VSS_Q)) (map (\<lambda>z. poly_at z (int x) mod VSS_Q) zs) =
    Inr (formatShare x l (poly_at (refresh_poly zs cs) (int x) mod VSS_Q))"
proof -
  have "parse_int 10 (js_num x) = Some (int x)"
    by (simp add: parse_int_digits js_num_def parse_to_radix)
  with l update_value [OF zs, of "int x"] show ?thesis
    by (simp add: updateShareVSS_def split_share len_prefix_def starts_with_def js_slice_def BigInt_pad
        formatShare_def [of x l "poly_at (refresh_poly zs cs) (int x) mod VSS_Q"])
qed

lemma dealt_nth: "j < n \<Longrightarrow> dealt l cs n ! j = formatShare (j + 1) l (poly_at cs (int (j + 1)) mod VSS_Q)"
  by (simp add: dealt_def del: upt_Suc)

lemma length_dealt [simp]: "length (dealt l cs n) = n"
  by (simp add: dealt_def)

lemma dealt_verifies:
  assumes "field_coeffs cs" "len_prefix l" "s \<in> set (dealt l cs n)"
  shows "verifyShare s (map commit cs)"
proof -
  obtain x where "s = formatShare x l (poly_at cs (int x) mod VSS_Q)"
    using assms(3) by (auto simp: dealt_def)
  then show ?thesis
    using verifyShare_iff [OF assms(1) _ assms(2), of "poly_at cs (int x) mod VSS_Q" x] by simp
qed

lemma generate_all:
  assumes "1 \<le> t" "t \<le> n"
  shows "\<exists>zs. zero_polys zs t \<and> length zs = k \<and>
    mapE (\<lambda>i. generateZeroPolynomialVSS (rnd i) t n (i + 1)) [0..<k] = Inr (map2 (\<lambda>z i. zero_poly z n (i + 1) t) zs [0..<k])"
proof -
  have "\<forall>i. \<exists>z. field_coeffs z \<and> length z = t \<and> hd z = 0 \<and>
      generateZeroPolynomialVSS (rnd i) t n (i + 1) = Inr (zero_poly z n (i + 1) t)"
    using generateZero_spec [OF assms] by blast
  then obtain Z where Z: "\<And>i. field_coeffs (Z i) \<and> length (Z i) = t \<and> hd (Z i) = 0 \<and>
      generateZeroPolynomialVSS (rnd i) t n (i + 1) = Inr (zero_poly (Z i) n (i + 1) t)"
    unfolding choice_iff by blast
  have "mapE (\<lambda>i. generateZeroPolynomialVSS (rnd i) t n (i + 1)) [0..<k] = Inr (map (\<lambda>i. zero_poly (Z i) n (i + 1) t) [0..<k])"
    by (rule mapE_all_Inr) (use Z in blast)
  moreover have "map (\<lambda>i. zero_poly (Z i) n (i + 1) t) [0..<k] = map2 (\<lambda>z i. zero_poly z n (i + 1) t) (map Z [0..<k]) [0..<k]"
    by (rule nth_equalityI) simp_all
  ultimately show ?thesis
    using Z by (intro exI [of _ "map Z [0..<k]"]) (auto simp: zero_polys_def)
qed

lemma foldE_unit: "(\<And>x. x \<in> set xs \<Longrightarrow> f x () = Inr ()) \<Longrightarrow> foldE f xs () = Inr ()"
  by (induction xs) auto

lemma checkContributions_ok:
  assumes zs: "zero_polys zs t" "length zs = n"
  shows "checkContributions (map2 (\<lambda>z i. zero_poly z n (i + 1) t) zs [0..<n]) n = Inr ()"
  unfolding checkContributions_def
proof (intro foldE_unit)
  fix i j
  assume ij: "i \<in> set [0..<n]" "j \<in> set [1..<n + 1]"
  then have "field_coeffs (zs ! i)" using zs by (auto simp: zero_polys_def)
  moreover have "1 \<le> j" "j \<le> n" "i < n" using ij by auto
  ultimately
  show "(if verifyZeroShareContribution (the (subshares (map2 (\<lambda>z i. zero_poly z n (i + 1) t) zs [0..<n] ! i) j)) j
           (zeroCommitments (map2 (\<lambda>z i. zero_poly z n (i + 1) t) zs [0..<n] ! i)) then Inr ()
         else Inl (Error (''Zero-share contribution from guardian '' @ js_num (i + 1) @ '' to guardian '' @ js_num j @ '' failed verification''))) = Inr ()"
    using verifyZero_accepts [of "zs ! i" j] zs(2) by (simp add: zero_poly_def)
qed

lemma refresh_dealt:
  assumes cs: "field_coeffs cs" "length cs = t" "1 \<le> t" "t \<le> n" and l: "len_prefix l" and n: "int n < VSS_Q"
  shows "\<exists>cs'. field_coeffs cs' \<and> length cs' = t \<and> hd cs' = hd cs \<and>
    proactiveRefreshVSS rnd (dealt l cs n) (map commit cs) t ep =
      Inr \<lparr>refreshedShares = dealt l cs' n, refreshedCommitments = map commit cs',
           recoveredSecret = pad_start (case parse_int 16 l of None \<Rightarrow> 0 | Some v \<Rightarrow> nat v) CHR ''0'' (bigint_hex_str (hd cs)),
           epoch = ep\<rparr>"
proof -
  have ne: "cs \<noteq> []" using cs by auto
  obtain zs where zs: "zero_polys zs t" "length zs = n"
    and gen: "mapE (\<lambda>i. generateZeroPolynomialVSS (rnd i) t n (i + 1)) [0..<n] = Inr (map2 (\<lambda>z i. zero_poly z n (i + 1) t) zs [0..<n])"
    using generate_all [OF cs(3,4), of n rnd] by blast
  let ?polys = "map2 (\<lambda>z i. zero_poly z n (i + 1) t) zs [0..<n]"
  define cs' where "cs' = refresh_poly zs cs"
  have cs': "length cs' = t" "field_coeffs cs'" "hd cs' = hd cs"
    using refresh_poly_shape [OF _ cs(1) ne, of zs] zs cs(2) by (auto simp: cs'_def)
  have comm: "map zeroCommitments ?polys = map (map commit) zs"
    using zs(2) by (intro nth_equalityI) (auto simp: zero_poly_def)
  have contrib: "map (\<lambda>p. the (subshares p (j + 1))) ?polys = map (\<lambda>z. poly_at z (int (j + 1)) mod VSS_Q) zs" if "j < n" for j
    using that zs(2) by (intro nth_equalityI) (auto simp: zero_poly_def)
  have upd: "mapE (\<lambda>j. updateShareVSS (dealt l cs n ! j) (map (\<lambda>p. the (subshares p (j + 1))) ?polys)) [0..<n] = Inr (dealt l cs' n)"
  proof -
    have "updateShareVSS (dealt l cs n ! j) (map (\<lambda>p. the (subshares p (j + 1))) ?polys) = Inr (dealt l cs' n ! j)" if "j < n" for j
      unfolding contrib [OF that] dealt_nth [OF that] cs'_def
      by (rule updateShareVSS_spec [OF _ l]) (simp add: zs cs(2))
    then have "mapE (\<lambda>j. updateShareVSS (dealt l cs n ! j) (map (\<lambda>p. the (subshares p (j + 1))) ?polys)) [0..<n] =
        Inr (map (\<lambda>j. dealt l cs' n ! j) [0..<n])"
      by (intro mapE_all_Inr) simp
    then show ?thesis by (simp add: map_nth [of "dealt l cs' n", simplified])
  qed
  have ver: "verifyShare s (map commit cs')" if "s \<in> set (dealt l cs' n)" for s
    using cs'(2) l that by (rule dealt_verifies)
  have rec: "reconstructSecret (take t (dealt l c n)) = Inr (pad_start (case parse_int 16 l of None \<Rightarrow> 0 | Some v \<Rightarrow> nat v)
      CHR ''0'' (bigint_hex_str (hd c)))" if "field_coeffs c" "length c = t" for c
    using that cs(3,4) l n distinct_dealt [OF l, of c n]
    by (intro reconstruct_dealt) (auto dest: in_set_takeD)
  have "updateCommitmentsVSS (map commit cs) (map (map commit) zs) = Inr (map commit cs')"
    unfolding cs'_def by (rule updateCommitmentsVSS_spec [OF _ cs(1) ne]) (simp add: zs cs(2))
  then have "proactiveRefreshVSS rnd (dealt l cs n) (map commit cs) t ep =
      Inr \<lparr>refreshedShares = dealt l cs' n, refreshedCommitments = map commit cs',
           recoveredSecret = pad_start (case parse_int 16 l of None \<Rightarrow> 0 | Some v \<Rightarrow> nat v) CHR ''0'' (bigint_hex_str (hd cs)),
           epoch = ep\<rparr>"
    using cs(3,4) gen checkContributions_ok [OF zs] upd comm ver rec [OF cs'(2,1)] rec [OF cs(1,2)] cs'(3)
    by (auto simp: proactiveRefreshVSS_def Let_def)
  with cs' show ?thesis by blast
qed

section \<open>Interpolation in the older variant\<close>

lemma PSS_prime: "is_prime PSS_FIELD_PRIME"
  using prime_m127 by (simp add: PSS_FIELD_PRIME_def)

lemma PSS_bounds [simp]: "0 < PSS_FIELD_PRIME" "1 < PSS_FIELD_PRIME" "2 < PSS_FIELD_PRIME"
  by (simp_all add: PSS_FIELD_PRIME_def)

lemma mod_pss_eq [simp]: "mod_pss v = v mod PSS_FIELD_PRIME"
  by (simp add: mod_pss_def bigint_rem_normalise)

lemma powMod_eq: "powMod b e = b ^ nat e mod PSS_FIELD_PRIME"
proof -
  have "powMod b e = 1 * (b mod PSS_FIELD_PRIME) ^ nat e mod PSS_FIELD_PRIME"
    unfolding powMod_def by (subst pow_loop_correct [where m = PSS_FIELD_PRIME]) auto
  then show ?thesis by (simp add: power_mod)
qed

lemma evaluatePolynomial_eq: "evaluatePolynomial cs x = poly_at cs x mod PSS_FIELD_PRIME"
proof -
  let ?f = "\<lambda>c r. mod_pss (r * mod_pss x + c)"
  have "evaluatePolynomial cs x = foldr ?f (map ((!) cs) [0..<length cs]) 0"
    by (simp add: evaluatePolynomial_def foldr_conv_fold rev_map fold_map o_def)
  also have "map ((!) cs) [0..<length cs] = cs"
    by (rule map_nth)
  also have "foldr ?f cs 0 = poly_at cs x mod PSS_FIELD_PRIME"
  proof (induction cs)
    case (Cons c cs)
    then show ?case
      by (simp add: ac_simps) (metis mod_add_right_eq mod_mult_eq)
  qed simp
  finally show ?thesis .
qed

definition lag_num :: "PShare list \<Rightarrow> nat \<Rightarrow> int" where
  "lag_num used i = (\<Prod>j\<in>{..<length used} - {i}. share_x (used ! j))"

definition lag_den :: "PShare list \<Rightarrow> nat \<Rightarrow> int" where
  "lag_den used i = (\<Prod>j\<in>{..<length used} - {i}. share_x (used ! j) - share_x (used ! i))"

lemma combineCoefficient_eq:
  "combineCoefficient used i = (lag_num used i mod PSS_FIELD_PRIME, lag_den used i mod PSS_FIELD_PRIME)"
proof -
  let ?f = "\<lambda>j (numerator, denominator).
         if i = j then (numerator, denominator)
         else (mod_pss (numerator * share_x (used ! j)), mod_pss (denominator * (share_x (used ! j) - share_x (used ! i))))"
  have "fold ?f [0..<m] (1, 1) = ((\<Prod>j\<in>{..<m} - {i}. share_x (used ! j)) mod PSS_FIELD_PRIME,
      (\<Prod>j\<in>{..<m} - {i}. share_x (used ! j) - share_x (used ! i)) mod PSS_FIELD_PRIME)" for m
  proof (induction m)
    case (Suc m)
    then show ?case
      by (cases "i = m") (simp_all add: lessThan_Suc_remove mod_simps ac_simps)
  qed simp
  then show ?thesis
    by (simp add: combineCoefficient_def lag_num_def lag_den_def)
qed

definition lag_coeff :: "PShare list \<Rightarrow> nat \<Rightarrow> int" where
  "lag_coeff used i = lag_num used i * lag_den used i ^ nat (PSS_FIELD_PRIME - 2)"

lemma combineShares_sum:
  assumes "t \<le> length shares"
  shows "combineShares shares t =
    Inr ((\<Sum>i<t. share_y (shares ! i) * lag_coeff (take t shares) i) mod PSS_FIELD_PRIME)"
proof -
  let ?used = "take t shares" and ?p = PSS_FIELD_PRIME
  let ?f = "\<lambda>i secret. case combineCoefficient ?used i of (numerator, denominator) \<Rightarrow>
            let inverse = powMod denominator (PSS_FIELD_PRIME - 2)
            in mod_pss (secret + share_y (?used ! i) * mod_pss (numerator * inverse))"
  have f: "?f i s = (s + share_y (?used ! i) * lag_coeff ?used i) mod ?p" for i s
  proof -
    have "(lag_num ?used i mod ?p) * ((lag_den ?used i mod ?p) ^ nat (?p - 2) mod ?p) mod ?p = lag_coeff ?used i mod ?p"
      by (simp add: lag_coeff_def power_mod mod_mult_eq)
    then have "?f i s = (s + share_y (?used ! i) * (lag_coeff ?used i mod ?p)) mod ?p"
      by (simp add: combineCoefficient_eq powMod_eq)
    then show ?thesis by (metis mod_add_right_eq mod_mult_right_eq)
  qed
  have sum: "fold ?f [0..<m] 0 = (\<Sum>i<m. share_y (?used ! i) * lag_coeff ?used i) mod ?p" for m
  proof (induction m)
    case (Suc m)
    have "fold ?f [0..<Suc m] 0 = ?f m (fold ?f [0..<m] 0)"
      by (simp only: upt_Suc_append zero_le fold_append comp_apply fold_simps)
    also have "\<dots> = (fold ?f [0..<m] 0 + share_y (?used ! m) * lag_coeff ?used m) mod ?p"
      by (rule f)
    also have "\<dots> = (\<Sum>i<Suc m. share_y (?used ! i) * lag_coeff ?used i) mod ?p"
      unfolding Suc by (simp add: mod_add_left_eq)
    finally show ?case .
  qed simp
  have "combineShares shares t = Inr (fold ?f [0..<t] 0)"
    using assms by (simp only: combineShares_def Let_def length_take min_absorb2) (simp add: not_less)
  moreover have "(\<Sum>i<t. share_y (?used ! i) * lag_coeff ?used i) = (\<Sum>i<t. share_y (shares ! i) * lag_coeff ?used i)"
    by (intro sum.cong) auto
  ultimately show ?thesis unfolding sum by simp
qed

definition points_ok :: "PShare list \<Rightarrow> bool" where
  "points_ok shares \<longleftrightarrow> distinct (map (\<lambda>s. share_x s mod PSS_FIELD_PRIME) shares)"

lemma lag_coeff_law:
  assumes ok: "points_ok used" and i: "i < length used"
  shows "lag_coeff used i * lag_den used i mod PSS_FIELD_PRIME = lag_num used i mod PSS_FIELD_PRIME"
proof -
  let ?p = PSS_FIELD_PRIME
  have "\<not> ?p dvd share_x (used ! j) - share_x (used ! i)" if "j < length used" "j \<noteq> i" for j
    using ok that i by (auto simp: points_ok_def distinct_conv_nth simp flip: mod_eq_dvd_iff)
  then have "\<not> ?p dvd lag_den used i"
    unfolding lag_den_def by (intro prime_not_dvd_prod [OF PSS_prime]) auto
  then have inv: "lag_den used i * lag_den used i ^ nat (?p - 2) mod ?p = 1"
    by (rule fermat_inverse [OF PSS_prime])
  have "lag_coeff used i * lag_den used i = lag_num used i * (lag_den used i * lag_den used i ^ nat (?p - 2))"
    by (simp add: lag_coeff_def ac_simps)
  also have "\<dots> mod ?p = lag_num used i * (lag_den used i * lag_den used i ^ nat (?p - 2) mod ?p) mod ?p"
    by (simp only: mod_mult_right_eq)
  finally show ?thesis by (simp only: inv mult_1_right)
qed

lemma lag_sum_poly:
  assumes ok: "points_ok used" and len: "length cs \<le> length used"
    and y: "\<And>i. i < length used \<Longrightarrow> y i mod PSS_FIELD_PRIME = poly_at cs (share_x (used ! i)) mod PSS_FIELD_PRIME"
  shows "(\<Sum>i<length used. y i * lag_coeff used i) mod PSS_FIELD_PRIME = poly_at cs 0 mod PSS_FIELD_PRIME"
proof (rule lagrange_mod [OF PSS_prime len _ y])
  fix i j
  assume "i < length used" "j < length used" "i \<noteq> j"
  then show "share_x (used ! i) mod PSS_FIELD_PRIME \<noteq> share_x (used ! j) mod PSS_FIELD_PRIME"
    using ok by (auto simp: points_ok_def distinct_conv_nth)
next
  fix i
  assume "i < length used"
  from lag_coeff_law [OF ok this]
  show "lag_coeff used i * (\<Prod>j\<in>{..<length used} - {i}. share_x (used ! j) - share_x (used ! i)) mod PSS_FIELD_PRIME =
      (\<Prod>j\<in>{..<length used} - {i}. share_x (used ! j)) mod PSS_FIELD_PRIME"
    by (simp only: lag_num_def lag_den_def)
qed

lemma points_ok_take: "points_ok shares \<Longrightarrow> points_ok (take t shares)"
  by (simp add: points_ok_def take_map [symmetric] distinct_take)

lemma combineShares_poly:
  assumes ok: "points_ok shares" and len: "length cs \<le> t" "t \<le> length shares"
    and y: "\<And>s. s \<in> set shares \<Longrightarrow> share_y s mod PSS_FIELD_PRIME = poly_at cs (share_x s) mod PSS_FIELD_PRIME"
  shows "combineShares shares t = Inr (poly_at cs 0 mod PSS_FIELD_PRIME)"
proof -
  have "(\<Sum>i<length (take t shares). share_y (take t shares ! i) * lag_coeff (take t shares) i) mod PSS_FIELD_PRIME =
      poly_at cs 0 mod PSS_FIELD_PRIME"
    by (rule lag_sum_poly [OF points_ok_take [OF ok]]) (use len y in auto)
  moreover have "length (take t shares) = t"
    using len by simp
  ultimately show ?thesis
    using len by (simp add: combineShares_sum)
qed

definition lagrange_value :: "PShare list \<Rightarrow> int" where
  "lagrange_value used = (\<Sum>i<length used. share_y (used ! i) * lag_coeff used i) mod PSS_FIELD_PRIME"

lemma combineShares_value: "combineShares used (length used) = Inr (lagrange_value used)"
  by (simp add: combineShares_sum lagrange_value_def)

lemma lag_coeff_cong:
  assumes "map share_x used = map share_x used'" "i < length used"
  shows "lag_coeff used i = lag_coeff used' i"
proof -
  have len: "length used = length used'"
    using assms by (metis length_map)
  have x: "share_x (used ! j) = share_x (used' ! j)" if "j < length used" for j
    using assms that len by (metis nth_map)
  show ?thesis
    unfolding lag_coeff_def lag_num_def lag_den_def using assms(2) x len by simp
qed

lemma mod_sum_cong: "(\<And>i. i < n \<Longrightarrow> f i mod p = g i mod p) \<Longrightarrow> (\<Sum>i<n. f i) mod p = (\<Sum>i<n. g i) mod (p :: int)"
  by (subst (1 2) mod_sum_eq [symmetric]) simp

definition add_poly :: "int list \<Rightarrow> PShare list \<Rightarrow> PShare list" where
  "add_poly z shares = map (\<lambda>s. addContribution s (evaluatePolynomial z (share_x s))) shares"

lemma add_poly_x [simp]: "map share_x (add_poly z shares) = map share_x shares"
  by (simp add: add_poly_def addContribution_def)

lemma length_add_poly [simp]: "length (add_poly z shares) = length shares"
  by (simp add: add_poly_def)

lemma points_ok_map: "points_ok used \<longleftrightarrow> distinct (map (\<lambda>x. x mod PSS_FIELD_PRIME) (map share_x used))"
  by (simp add: points_ok_def o_def)

lemma points_ok_add_poly [simp]: "points_ok (add_poly z used) = points_ok used"
  by (simp only: points_ok_map add_poly_x)

lemma lagrange_value_add_poly:
  assumes ok: "points_ok used" and z: "length z \<le> length used" "poly_at z 0 = 0"
  shows "lagrange_value (add_poly z used) = lagrange_value used"
proof -
  let ?p = PSS_FIELD_PRIME and ?L = "lag_coeff used"
  let ?v = "\<lambda>i. poly_at z (share_x (used ! i)) mod ?p"
  have "(share_y (add_poly z used ! i) * lag_coeff (add_poly z used) i) mod ?p =
      (share_y (used ! i) * ?L i + ?v i * ?L i) mod ?p" if "i < length used" for i
    using that lag_coeff_cong [of "add_poly z used" used i]
    by (simp add: add_poly_def addContribution_def evaluatePolynomial_eq mod_mult_left_eq flip: distrib_right)
  then have "lagrange_value (add_poly z used) = (\<Sum>i<length used. share_y (used ! i) * ?L i + ?v i * ?L i) mod ?p"
    unfolding lagrange_value_def length_add_poly by (intro mod_sum_cong) simp
  also have "\<dots> = ((\<Sum>i<length used. share_y (used ! i) * ?L i) + (\<Sum>i<length used. ?v i * ?L i)) mod ?p"
    by (simp only: sum.distrib)
  also have "\<dots> = ((\<Sum>i<length used. share_y (used ! i) * ?L i) + (\<Sum>i<length used. ?v i * ?L i) mod ?p) mod ?p"
    by (simp only: mod_add_right_eq)
  also have "(\<Sum>i<length used. ?v i * ?L i) mod ?p = 0"
    by (subst lag_sum_poly [OF ok z(1)]) (simp_all add: z(2))
  finally show ?thesis by (simp add: lagrange_value_def)
qed


lemma add_polys_x [simp]: "map share_x (fold add_poly zs shares) = map share_x shares"
  by (induction zs arbitrary: shares) simp_all

lemma add_polys_map: "fold add_poly zs (map f is) = map (\<lambda>i. fold (\<lambda>z s. addContribution s (evaluatePolynomial z (share_x s))) zs (f i)) is"
  by (induction zs arbitrary: f) (simp_all add: add_poly_def o_def)

lemma lagrange_value_add_polys:
  assumes "points_ok used" "\<forall>z \<in> set zs. length z \<le> length used \<and> poly_at z 0 = 0"
  shows "lagrange_value (fold add_poly zs used) = lagrange_value used"
  using assms by (induction zs arbitrary: used) (simp_all add: lagrange_value_add_poly)

lemma addContributions_x [simp]:
  "share_x (fold (\<lambda>z s. addContribution s (evaluatePolynomial z (share_x s))) zs s) = share_x s"
  by (induction zs arbitrary: s) (simp_all add: addContribution_def)

lemma makeRandomPolynomial_spec:
  assumes "1 \<le> t"
  shows "\<exists>cs. makeRandomPolynomial rnd a (int t - 1) = Inr cs \<and> length cs = t \<and> poly_at cs 0 = a mod PSS_FIELD_PRIME"
proof -
  have "makeRandomPolynomial rnd a (int t - 1) = Inr (mod_pss a # map (\<lambda>i. randomFieldElement (rnd i)) [0..<t - 1])"
    using assms by (simp add: makeRandomPolynomial_def nat_diff_distrib)
  then show ?thesis
    using assms by (intro exI conjI) auto
qed

lemma generateZeroShares_spec:
  assumes "1 \<le> t"
  shows "\<exists>z. length z = t \<and> poly_at z 0 = 0 \<and>
    generateZeroShares rnd t points = Inr (\<lambda>x. if x \<in> set points then Some (evaluatePolynomial z x) else None)"
proof -
  obtain z where "makeRandomPolynomial rnd 0 (int t - 1) = Inr z" "length z = t" "poly_at z 0 = 0"
    using makeRandomPolynomial_spec [OF assms, of rnd 0] by auto
  then show ?thesis
    by (intro exI [of _ z]) (simp add: generateZeroShares_def fold_map_upd)
qed

lemma generateZero_all:
  assumes "1 \<le> t"
  shows "\<exists>zs. (\<forall>z \<in> set zs. length z = t \<and> poly_at z 0 = 0) \<and>
    mapE (\<lambda>i. generateZeroShares (rnd i) t points) [0..<n] =
      Inr (map (\<lambda>z x. if x \<in> set points then Some (evaluatePolynomial z x) else None) zs)"
proof -
  have "\<forall>i. \<exists>z. length z = t \<and> poly_at z 0 = 0 \<and>
      generateZeroShares (rnd i) t points = Inr (\<lambda>x. if x \<in> set points then Some (evaluatePolynomial z x) else None)"
    using generateZeroShares_spec [OF assms] by blast
  then obtain Z where Z: "\<And>i. length (Z i) = t \<and> poly_at (Z i) 0 = 0 \<and>
      generateZeroShares (rnd i) t points = Inr (\<lambda>x. if x \<in> set points then Some (evaluatePolynomial (Z i) x) else None)"
    unfolding choice_iff by blast
  have "mapE (\<lambda>i. generateZeroShares (rnd i) t points) [0..<n] =
      Inr (map (\<lambda>i x. if x \<in> set points then Some (evaluatePolynomial (Z i) x) else None) [0..<n])"
    by (rule mapE_all_Inr) (use Z in blast)
  then show ?thesis
    using Z by (intro exI [of _ "map Z [0..<n]"]) (auto simp: o_def)
qed

lemma proactiveRefresh_spec:
  assumes "1 \<le> t" "t \<le> length shares"
  shows "\<exists>zs. (\<forall>z \<in> set zs. length z = t \<and> poly_at z 0 = 0) \<and>
    proactiveRefresh rnd shares t ep =
      bindE (combineShares (fold add_poly zs shares) t) (\<lambda>recovered. Inr (fold add_poly zs shares, recovered, ep))"
proof -
  let ?c = "\<lambda>z x. if x \<in> share_x ` set shares then Some (evaluatePolynomial z x) else None"
  obtain zs where zs: "\<forall>z \<in> set zs. length z = t \<and> poly_at z 0 = 0"
    and gen: "mapE (\<lambda>i. generateZeroShares (rnd i) t (map share_x shares)) [0..<length shares] = Inr (map ?c zs)"
    using generateZero_all [OF assms(1), of rnd "map share_x shares" "length shares"] by auto
  have "fold (\<lambda>c u. addContribution u (the (c (share_x s)))) (map ?c zs) u =
      fold (\<lambda>z u. addContribution u (evaluatePolynomial z (share_x u))) zs u"
    if "s \<in> set shares" "share_x u = share_x s" for s u
    using that(2) by (induction zs arbitrary: u) (simp_all add: that(1) addContribution_def)
  then have "map (\<lambda>s. fold (\<lambda>c u. addContribution u (the (c (share_x s)))) (map ?c zs) s) shares = fold add_poly zs shares"
    using add_polys_map [of zs "\<lambda>s. s" shares] by (simp cong: map_cong)
  then show ?thesis
    using zs gen by (intro exI [of _ zs]) (simp add: proactiveRefresh_def Let_def)
qed

lemma combineShares_take: "t \<le> length shares \<Longrightarrow> combineShares shares t = combineShares (take t shares) (length (take t shares))"
  by (simp add: combineShares_def min_def)


lemma points_ok_select:
  assumes "points_ok shares" "distinct is" "set is \<subseteq> {..<length shares}"
  shows "points_ok (map ((!) shares) is)"
proof -
  let ?g = "\<lambda>i. share_x (shares ! i) mod PSS_FIELD_PRIME"
  have "inj_on ?g {..<length shares}"
    using assms(1) by (auto simp: points_ok_def distinct_conv_nth inj_on_def)
  then have "inj_on ?g (set is)"
    using assms(3) by (rule inj_on_subset)
  with assms(2) show ?thesis
    by (simp add: points_ok_def distinct_map o_def)
qed

lemma select_add_polys:
  assumes "set is \<subseteq> {..<length shares}"
  shows "map ((!) (fold add_poly zs shares)) is = fold add_poly zs (map ((!) shares) is)"
proof -
  have eq: "fold add_poly zs shares = map (fold (\<lambda>z s. addContribution s (evaluatePolynomial z (share_x s))) zs) shares"
    using add_polys_map [of zs "\<lambda>s. s" shares] by simp
  show ?thesis
    unfolding eq using assms by (auto simp: add_polys_map)
qed

lemma combine_refreshed:
  assumes ok: "points_ok shares" and zs: "\<forall>z \<in> set zs. length z = t \<and> poly_at z 0 = 0"
    and is_ok: "distinct is" "set is \<subseteq> {..<length shares}" "length is = t"
  shows "combineShares (map ((!) (fold add_poly zs shares)) is) t = combineShares (map ((!) shares) is) t"
proof -
  let ?u = "map ((!) shares) is"
  have len: "length (fold add_poly zs ?u) = t" "length ?u = t"
    using add_polys_x [of zs ?u] is_ok(3) by (metis length_map)+
  have "lagrange_value (fold add_poly zs ?u) = lagrange_value ?u"
    using points_ok_select [OF ok is_ok(1,2)] zs len by (intro lagrange_value_add_polys) auto
  then show ?thesis
    using len combineShares_value [of ?u] combineShares_value [of "fold add_poly zs ?u"]
    by (simp add: select_add_polys [OF is_ok(2)])
qed

lemma take_select: "t \<le> length xs \<Longrightarrow> take t xs = map ((!) xs) [0..<t]"
  by (rule nth_equalityI) auto

section \<open>Sequences of refreshes\<close>

text \<open>The shares and commitments reachable by any number of refresh rounds, each with its own random bytes.\<close>

inductive refreshes :: "nat \<Rightarrow> string list \<times> string list \<Rightarrow> string list \<times> string list \<Rightarrow> bool" for k where
  none: "refreshes k a a"
| round: "refreshes k a (shares, comms) \<Longrightarrow> proactiveRefreshVSS rnd shares comms k ep = Inr r \<Longrightarrow>
    refreshes k a (refreshedShares r, refreshedCommitments r)"

lemma refreshes_dealt:
  assumes "refreshes k a b" and "a = (dealt l cs n, map commit cs)"
    and "field_coeffs cs" "length cs = k" "1 \<le> k" "k \<le> n" "len_prefix l" "int n < VSS_Q"
  shows "\<exists>cs'. field_coeffs cs' \<and> length cs' = k \<and> hd cs' = hd cs \<and> b = (dealt l cs' n, map commit cs')"
  using assms
proof (induction rule: refreshes.induct)
  case (round a shares comms rnd ep r)
  then obtain c where c: "field_coeffs c" "length c = k" "hd c = hd cs" "shares = dealt l c n" "comms = map commit c"
    by auto
  with round refresh_dealt [of c k n l rnd ep] show ?case by auto
qed auto

section \<open>Properties of the refresh\<close>

text \<open>
  C5. Proactive refresh: when a secret of fewer than 256 hexadecimal digits has been split, into fewer shares than the group
  order, then after any number of refresh rounds of the dealing a further round succeeds for
  every choice of random bytes, the shares it returns pass the check against the commitments it
  returns, the commitment to the secret never changes, and any at least \<open>k\<close> different shares of the round
  reconstruct the secret that was split.
\<close>

theorem refresh_preserves:
  assumes split: "splitSecretVSS rnd0 secretHex n k = Inr (shares0, comms0)"
    and hex: "\<forall>c \<in> set (cleanHex secretHex). is_digit 16 c" "length (cleanHex secretHex) < 256"
    and n: "int n < VSS_Q"
    and reach: "refreshes k (shares0, comms0) (shares, comms)"
  shows "\<exists>r. proactiveRefreshVSS rnd shares comms k ep = Inr r
    \<and> recoveredSecret r = map lower (cleanHex secretHex)
    \<and> length (refreshedShares r) = n
    \<and> hd (refreshedCommitments r) = hd comms0
    \<and> (\<forall>s \<in> set (refreshedShares r). verifyShare s (refreshedCommitments r))
    \<and> (\<forall>sub. set sub \<subseteq> set (refreshedShares r) \<and> distinct sub \<and> k \<le> length sub \<longrightarrow>
          reconstructSecret sub = Inr (map lower (cleanHex secretHex)))"
proof -
  let ?l = "pad_start 2 CHR ''0'' (to_radix 16 (length (cleanHex secretHex)))"
  obtain cs where cs: "1 \<le> k" "k \<le> n" "field_coeffs cs" "length cs = k" "BigInt (''0x'' @ cleanHex secretHex) = Inr (hd cs)"
    "shares0 = dealt ?l cs n" "comms0 = map commit cs"
    using splitSecretVSS_InrD [OF split] by metis
  note l = lenHex_prefix(1) [OF hex(2)]
  obtain c where c: "field_coeffs c" "length c = k" "hd c = hd cs" "shares = dealt ?l c n" "comms = map commit c"
    using refreshes_dealt [OF reach, of ?l cs n] cs l n by auto
  have printed: "pad_start (case parse_int 16 ?l of None \<Rightarrow> 0 | Some v \<Rightarrow> nat v) CHR ''0'' (bigint_hex_str (hd cs)) =
      map lower (cleanHex secretHex)"
    using secret_text [OF hex cs(5)] .
  obtain c' where c': "field_coeffs c'" "length c' = k" "hd c' = hd cs"
    and r: "proactiveRefreshVSS rnd shares comms k ep = Inr \<lparr>refreshedShares = dealt ?l c' n, refreshedCommitments = map commit c',
      recoveredSecret = map lower (cleanHex secretHex), epoch = ep\<rparr>"
    using refresh_dealt [OF c(1,2) cs(1,2) l n, of rnd ep] printed c by auto
  have "hd (map commit c') = hd comms0"
    using c' cs by (cases c'; cases cs) auto
  moreover have "reconstructSecret sub = Inr (map lower (cleanHex secretHex))"
    if "set sub \<subseteq> set (dealt ?l c' n)" "distinct sub" "k \<le> length sub" for sub
    using reconstruct_dealt [OF c'(1) _ l n, of sub] that cs(1) c' printed by (cases c') auto
  ultimately show ?thesis
    using r dealt_verifies [OF c'(1) l] by (intro exI [of _ "\<lparr>refreshedShares = dealt ?l c' n, refreshedCommitments = map commit c',
      recoveredSecret = map lower (cleanHex secretHex), epoch = ep\<rparr>"]) auto
qed

theorem refresh_preserves_witness:
  "\<exists>shares comms r r'. splitSecretVSS (\<lambda>i j. 7) ''0a'' 3 2 = Inr (shares, comms)
     \<and> proactiveRefreshVSS (\<lambda>i m j. 9) shares comms 2 1 = Inr r
     \<and> proactiveRefreshVSS (\<lambda>i m j. 5) (refreshedShares r) (refreshedCommitments r) 2 2 = Inr r'
     \<and> recoveredSecret r' = ''0a'' \<and> hd (refreshedCommitments r') = hd comms"
proof -
  obtain shares comms where split: "splitSecretVSS (\<lambda>i j. 7) ''0a'' 3 2 = Inr (shares, comms)"
    using split_example by blast
  have hex: "\<forall>c \<in> set (cleanHex ''0a''). is_digit 16 c" "length (cleanHex ''0a'') < 256" "int 3 < VSS_Q"
    by (auto simp: cleanHex_def starts_with_def VSS_Q_def is_digit_def digit_val_def)
  note * = refresh_preserves [OF split hex]
  obtain r where r: "proactiveRefreshVSS (\<lambda>i m j. 9) shares comms 2 1 = Inr r"
    using * [OF refreshes.none, of "\<lambda>i m j. 9" 1] by blast
  from * [OF refreshes.round [OF refreshes.none r], of "\<lambda>i m j. 5" 2] split r show ?thesis
    by (auto simp: cleanHex_def starts_with_def lower_def)
qed

text \<open>
  Refresh over the field with \<open>2 ^ 127 - 1\<close> elements: for shares at different points, whatever values
  they hold, the refresh succeeds and keeps the points, the value it reports is the one the shares
  encoded, and every choice of \<open>t\<close> refreshed shares encodes what the same choice of old shares did.
\<close>

theorem proactiveRefresh_preserves:
  assumes ok: "points_ok shares" and t: "1 \<le> t" "t \<le> length shares"
  shows "\<exists>refreshed v. proactiveRefresh rnd shares t ep = Inr (refreshed, v, ep)
    \<and> combineShares shares t = Inr v
    \<and> map share_x refreshed = map share_x shares
    \<and> (\<forall>is. distinct is \<and> set is \<subseteq> {..<length shares} \<and> length is = t \<longrightarrow>
         combineShares (map ((!) refreshed) is) t = combineShares (map ((!) shares) is) t)"
proof -
  obtain zs where zs: "\<forall>z \<in> set zs. length z = t \<and> poly_at z 0 = 0"
    and r: "proactiveRefresh rnd shares t ep =
      bindE (combineShares (fold add_poly zs shares) t) (\<lambda>recovered. Inr (fold add_poly zs shares, recovered, ep))"
    using proactiveRefresh_spec [OF t, of rnd ep] by blast
  have len: "length (fold add_poly zs shares) = length shares"
    using add_polys_x [of zs shares] by (metis length_map)
  have first: "combineShares s t = combineShares (map ((!) s) [0..<t]) t" if "length s = length shares" for s
    using that t by (simp add: combineShares_def take_select)
  have all: "combineShares (map ((!) (fold add_poly zs shares)) is) t = combineShares (map ((!) shares) is) t"
    if "distinct is" "set is \<subseteq> {..<length shares}" "length is = t" for "is"
    using combine_refreshed [OF ok zs that] .
  have "combineShares (fold add_poly zs shares) t = combineShares shares t"
    using first [OF len] first [of shares] all [of "[0..<t]"] t by (simp add: subset_eq)
  moreover obtain v where "combineShares shares t = Inr v"
    using combineShares_sum [OF t(2)] by blast
  ultimately show ?thesis
    using r all by (intro exI [of _ "fold add_poly zs shares"] exI [of _ v]) auto
qed


theorem proactiveRefresh_preserves_witness:
  "\<exists>refreshed. proactiveRefresh (\<lambda>i m j. 7) [\<lparr>share_x = 1, share_y = 13\<rparr>, \<lparr>share_x = 2, share_y = 16\<rparr>, \<lparr>share_x = 3, share_y = 19\<rparr>] 2 4 =
       Inr (refreshed, 10, 4)
     \<and> combineShares [refreshed ! 2, refreshed ! 1] 2 = Inr 10"
proof -
  let ?s = "[\<lparr>share_x = 1, share_y = 13\<rparr>, \<lparr>share_x = 2, share_y = 16\<rparr>, \<lparr>share_x = 3, share_y = 19\<rparr>]"
  have ok: "points_ok ?s"
    by (simp add: points_ok_def PSS_FIELD_PRIME_def)
  have val: "combineShares (map ((!) ?s) is) 2 = Inr 10" if "is = [0, 1] \<or> is = [2, 1]" for "is"
  proof -
    have "combineShares (map ((!) ?s) is) 2 = Inr (poly_at [10, 3] 0 mod PSS_FIELD_PRIME)"
      using that by (intro combineShares_poly [OF points_ok_select [OF ok]]) (auto simp: numeral_2_eq_2)
    then show ?thesis by (simp add: PSS_FIELD_PRIME_def)
  qed
  have "combineShares ?s 2 = combineShares (map ((!) ?s) [0, 1]) 2"
    by (simp add: combineShares_def numeral_2_eq_2)
  then have "combineShares ?s 2 = Inr 10"
    using val [of "[0, 1]"] by simp
  with proactiveRefresh_preserves [OF ok, of 2 "\<lambda>i m j. 7" 4]
  obtain r where r: "proactiveRefresh (\<lambda>i m j. 7) ?s 2 4 = Inr (r, 10, 4)"
    "\<forall>is. distinct is \<and> set is \<subseteq> {..<length ?s} \<and> length is = 2 \<longrightarrow>
         combineShares (map ((!) r) is) 2 = combineShares (map ((!) ?s) is) 2"
    by auto
  from r(2) [rule_format, of "[2, 1]"] val [of "[2, 1]"] r(1) show ?thesis
    by auto
qed

text \<open>
  Sharing over the field with \<open>2 ^ 127 - 1\<close> elements: any \<open>t\<close> different shares of a split, in any
  order, combine to the secret modulo the field prime, and fewer than \<open>t\<close> are refused.
\<close>

theorem combine_split_pss:
  assumes split: "splitSecret_pss rnd secret t n = Inr shares" and n: "int n < PSS_FIELD_PRIME"
    and sub: "set sub \<subseteq> set shares" "distinct sub"
  shows "combineShares sub t =
    (if t \<le> length sub then Inr (secret mod PSS_FIELD_PRIME)
     else Inl (Error (''Need at least '' @ js_num t @ '' shares to reconstruct'')))"
proof -
  have t: "1 \<le> t"
    using split by (auto simp: splitSecret_pss_def split: if_splits)
  obtain cs where cs: "makeRandomPolynomial rnd (mod_pss secret) (int t - 1) = Inr cs" "length cs = t"
      "poly_at cs 0 = secret mod PSS_FIELD_PRIME"
    using makeRandomPolynomial_spec [OF t, of rnd "mod_pss secret"] by auto
  let ?sh = "\<lambda>j. \<lparr>share_x = int j, share_y = evaluatePolynomial cs (int j)\<rparr>"
  have shares: "shares = map ?sh [1..<n + 1]"
    using split cs(1) by (simp add: splitSecret_pss_def del: upt_Suc split: if_splits)
  have sh: "\<exists>j. 1 \<le> j \<and> j \<le> n \<and> s = ?sh j" if "s \<in> set sub" for s
    using that sub(1) unfolding shares by fastforce
  have "inj_on (\<lambda>s. share_x s mod PSS_FIELD_PRIME) (set sub)"
  proof (rule inj_onI)
    fix a b
    assume ab: "a \<in> set sub" "b \<in> set sub" "share_x a mod PSS_FIELD_PRIME = share_x b mod PSS_FIELD_PRIME"
    obtain i j where "a = ?sh i" "i \<le> n" "b = ?sh j" "j \<le> n"
      using sh [OF ab(1)] sh [OF ab(2)] by auto
    with ab(3) n show "a = b" by simp
  qed
  then have "points_ok sub"
    using sub(2) by (simp add: points_ok_def distinct_map)
  moreover have "share_y s mod PSS_FIELD_PRIME = poly_at cs (share_x s) mod PSS_FIELD_PRIME" if "s \<in> set sub" for s
    using sh [OF that] by (auto simp: evaluatePolynomial_eq)
  ultimately have "combineShares sub t = Inr (secret mod PSS_FIELD_PRIME)" if "t \<le> length sub"
    using combineShares_poly [of sub cs t] that cs(2,3) by simp
  then show ?thesis
    by (simp add: combineShares_def)
qed

theorem combine_split_pss_witness:
  "\<exists>shares. splitSecret_pss (\<lambda>i j. 7) 42 2 3 = Inr shares \<and> combineShares [shares ! 2, shares ! 0] 2 = Inr 42"
proof -
  let ?cs = "42 # map (\<lambda>i. randomFieldElement (\<lambda>j. 7)) [0..<1]"
  let ?shares = "map (\<lambda>j. \<lparr>share_x = int j, share_y = evaluatePolynomial ?cs (int j)\<rparr>) [1, 2, 3]"
  have split: "splitSecret_pss (\<lambda>i j. 7) 42 2 3 = Inr ?shares"
    by (simp add: splitSecret_pss_def makeRandomPolynomial_def upt_rec PSS_FIELD_PRIME_def)
  have "combineShares [?shares ! 2, ?shares ! 0] 2 = Inr (42 mod PSS_FIELD_PRIME)"
    using combine_split_pss [OF split, of "[?shares ! 2, ?shares ! 0]"] by (simp add: PSS_FIELD_PRIME_def)
  with split show ?thesis
    by (intro exI [of _ ?shares] conjI) (simp_all add: PSS_FIELD_PRIME_def)
qed

end
