(* ===== verification/Keyed_Store.thy ===== *)
theory Keyed_Store
  imports JS_Strings
begin

text \<open>
  The two containers the storage layer keeps rows in: a \<^verbatim>\<open>Map\<close> of the language, which enumerates
  its entries in the order of first insertion, and an object store of the browser's database, which
  enumerates its rows in the order of their keys. Both satisfy the interface \<open>row_store\<close>; its clients
  are the sorted and filtered listings, which do not depend on the order of enumeration.
\<close>

section \<open>The Map of the language\<close>

type_synonym ('k, 'v) js_map = "('k \<times> 'v) list"

fun map_set :: "'k \<Rightarrow> 'v \<Rightarrow> ('k, 'v) js_map \<Rightarrow> ('k, 'v) js_map" where
  "map_set k v [] = [(k, v)]"
| "map_set k v ((k', v') # m) = (if k = k' then (k, v) # m else (k', v') # map_set k v m)"

definition map_delete :: "'k \<Rightarrow> ('k, 'v) js_map \<Rightarrow> ('k, 'v) js_map" where
  "map_delete k m = filter (\<lambda>e. fst e \<noteq> k) m"

lemma map_of_map_set [simp]: "map_of (map_set k v m) = (map_of m)(k \<mapsto> v)"
  by (induction k v m rule: map_set.induct) (auto simp: fun_eq_iff)

lemma map_of_map_delete [simp]: "map_of (map_delete k m) = (map_of m)(k := None)"
  by (induction m) (auto simp: map_delete_def fun_eq_iff)

lemma fst_map_set: "fst ` set (map_set k v m) = insert k (fst ` set m)"
  by (induction k v m rule: map_set.induct) auto

lemma distinct_map_set: "distinct (map fst m) \<Longrightarrow> distinct (map fst (map_set k v m))"
proof (induction k v m rule: map_set.induct)
  case (2 k v k' v' m)
  then show ?case
    using fst_map_set [of k v m] by (auto simp: image_iff)
qed simp

lemma set_map_set:
  "distinct (map fst m) \<Longrightarrow> set (map_set k v m) = insert (k, v) {e \<in> set m. fst e \<noteq> k}"
  by (induction k v m rule: map_set.induct) (auto simp: image_iff)

section \<open>An object store\<close>

definition idb_put :: "('v \<Rightarrow> 'k::linorder) \<Rightarrow> 'v \<Rightarrow> 'v list \<Rightarrow> 'v list" where
  "idb_put key v rows = insort_key key v (filter (\<lambda>r. key r \<noteq> key v) rows)"

definition idb_get :: "('v \<Rightarrow> 'k) \<Rightarrow> 'k \<Rightarrow> 'v list \<Rightarrow> 'v option" where
  "idb_get key k rows = find (\<lambda>r. key r = k) rows"

definition idb_delete :: "('v \<Rightarrow> 'k) \<Rightarrow> 'k \<Rightarrow> 'v list \<Rightarrow> 'v list" where
  "idb_delete key k rows = filter (\<lambda>r. key r \<noteq> k) rows"

definition idb_inv :: "('v \<Rightarrow> 'k::linorder) \<Rightarrow> 'v list \<Rightarrow> bool" where
  "idb_inv key rows \<longleftrightarrow> sorted (map key rows) \<and> distinct (map key rows)"

lemma idb_inv_put: "idb_inv key rows \<Longrightarrow> idb_inv key (idb_put key v rows)"
  by (auto simp: idb_inv_def idb_put_def sorted_insort_key distinct_insort_key distinct_map_filter
      sorted_filter image_iff intro: sorted_filter)

lemma set_idb_put: "set (idb_put key v rows) = insert v {r \<in> set rows. key r \<noteq> key v}"
  by (auto simp: idb_put_def set_insort_key)

section \<open>The interface\<close>

locale row_store =
  fixes put :: "'v \<Rightarrow> 's \<Rightarrow> 's" and rows :: "'s \<Rightarrow> 'v list" and key :: "'v \<Rightarrow> 'k"
    and valid :: "'v \<Rightarrow> bool" and ok :: "'s \<Rightarrow> bool"
  assumes ok_put: "ok s \<Longrightarrow> valid v \<Longrightarrow> ok (put v s)"
    and rows_valid: "ok s \<Longrightarrow> r \<in> set (rows s) \<Longrightarrow> valid r"
    and distinct_keys: "ok s \<Longrightarrow> distinct (map key (rows s))"
    and set_put: "ok s \<Longrightarrow> set (rows (put v s)) = insert v {r \<in> set (rows s). key r \<noteq> key v}"
begin

lemma ok_puts: "ok s \<Longrightarrow> \<forall>v \<in> set vs. valid v \<Longrightarrow> ok (fold put vs s)"
  by (induction vs arbitrary: s) (simp_all add: ok_put)

text \<open>A batch of rows with different keys replaces the rows with those keys and leaves the others.\<close>

lemma set_puts:
  assumes "ok s" "\<forall>v \<in> set vs. valid v" "distinct (map key vs)"
  shows "set (rows (fold put vs s)) = set vs \<union> {r \<in> set (rows s). key r \<notin> key ` set vs}"
  using assms
proof (induction vs arbitrary: s)
  case (Cons v vs)
  then have "set (rows (fold put vs (put v s))) = set vs \<union> {r \<in> insert v {r \<in> set (rows s). key r \<noteq> key v}. key r \<notin> key ` set vs}"
    by (simp add: ok_put set_put)
  with Cons.prems show ?case by auto
qed simp

lemma distinct_rows: "ok s \<Longrightarrow> distinct (rows s)"
  using distinct_keys by (auto simp: distinct_map)

end

section \<open>Listings\<close>

text \<open>A sorted listing depends on the set of rows only, when the sort key tells them apart.\<close>

lemma sort_key_unique:
  assumes "set xs = set ys" "distinct xs" "distinct ys" "inj_on f (set xs)"
  shows "sort_key f xs = sort_key f ys"
proof (rule map_sorted_distinct_set_unique [where f = f])
  show "inj_on f (set (sort_key f xs) \<union> set (sort_key f ys))"
    using assms(1,4) by simp
  show "distinct (map f (sort_key f xs))" "distinct (map f (sort_key f ys))"
    using assms by (simp_all add: distinct_map)
qed (use assms in simp_all)

text \<open>Rows that belong to a scope (an account on a network) and are numbered within it.\<close>

locale scoped_store = row_store put rows key valid ok
  for put :: "'v \<Rightarrow> 's \<Rightarrow> 's" and rows :: "'s \<Rightarrow> 'v list" and key :: "'v \<Rightarrow> 'k"
    and valid :: "'v \<Rightarrow> bool" and ok :: "'s \<Rightarrow> bool" +
  fixes scope :: "'v \<Rightarrow> 'c" and number :: "'v \<Rightarrow> nat"
  assumes key_iff: "valid r \<Longrightarrow> valid r' \<Longrightarrow> key r = key r' \<longleftrightarrow> scope r = scope r' \<and> number r = number r'"
begin

lemma inj_number: "ok s \<Longrightarrow> inj_on number {r \<in> set (rows s). scope r = c}"
proof (rule inj_onI)
  fix x y
  assume "ok s" "x \<in> {r \<in> set (rows s). scope r = c}" "y \<in> {r \<in> set (rows s). scope r = c}" "number x = number y"
  then have "key x = key y" "x \<in> set (rows s)" "y \<in> set (rows s)"
    using rows_valid key_iff by auto
  with distinct_keys [OF \<open>ok s\<close>] show "x = y"
    by (auto simp: distinct_map dest: inj_onD)
qed

lemma listing_put:
  assumes ok: "ok s" and vs: "\<forall>v \<in> set vs. valid v \<and> scope v = c" "distinct (map number vs)"
  shows "sort_key number (filter (\<lambda>r. scope r = c) (rows (fold put vs s))) =
    sort_key number (vs @ filter (\<lambda>r. number r \<notin> number ` set vs) (sort_key number (filter (\<lambda>r. scope r = c) (rows s))))"
proof (rule sort_key_unique)
  have vk: "\<forall>v \<in> set vs. valid v" using vs(1) by blast
  have ok': "ok (fold put vs s)" using ok vk by (rule ok_puts)
  have "key a = key b \<longleftrightarrow> number a = number b" if "a \<in> set vs" "b \<in> set vs" for a b
    using key_iff [of a b] vs(1) that by auto
  then have "distinct (map key vs)"
    using vs(2) by (auto simp: distinct_map inj_on_def)
  from set_puts [OF ok vk this]
  have rows': "set (rows (fold put vs s)) = set vs \<union> {r \<in> set (rows s). key r \<notin> key ` set vs}" .
  have "key r \<in> key ` set vs \<longleftrightarrow> number r \<in> number ` set vs" if "r \<in> set (rows s)" "scope r = c" for r
  proof -
    have "key r = key v \<longleftrightarrow> number r = number v" if "v \<in> set vs" for v
      using key_iff [OF rows_valid [OF ok \<open>r \<in> set (rows s)\<close>], of v] vs(1) \<open>scope r = c\<close> that by simp
    then show ?thesis by (simp add: image_iff)
  qed
  then show sets: "set (filter (\<lambda>r. scope r = c) (rows (fold put vs s))) =
      set (vs @ filter (\<lambda>r. number r \<notin> number ` set vs) (sort_key number (filter (\<lambda>r. scope r = c) (rows s))))"
    using vs(1) by (auto simp: rows')
  show "distinct (filter (\<lambda>r. scope r = c) (rows (fold put vs s)))"
    using distinct_rows [OF ok'] by simp
  show "distinct (vs @ filter (\<lambda>r. number r \<notin> number ` set vs) (sort_key number (filter (\<lambda>r. scope r = c) (rows s))))"
    using distinct_rows [OF ok] vs(2) by (auto simp: distinct_map)
  show "inj_on number (set (filter (\<lambda>r. scope r = c) (rows (fold put vs s))))"
    using inj_number [OF ok', of c] by (simp only: set_filter)
qed

lemma listing_put_other:
  assumes ok: "ok s" and vs: "\<forall>v \<in> set vs. valid v \<and> scope v = c" and c: "c' \<noteq> c"
  shows "sort_key number (filter (\<lambda>r. scope r = c') (rows (fold put vs s))) =
    sort_key number (filter (\<lambda>r. scope r = c') (rows s))"
  using ok vs
proof (induction vs arbitrary: s)
  case (Cons v vs)
  then have v: "valid v" "scope v = c" and ok': "ok (put v s)"
    by (auto intro: ok_put)
  have "sort_key number (filter (\<lambda>r. scope r = c') (rows (put v s))) = sort_key number (filter (\<lambda>r. scope r = c') (rows s))"
  proof (rule sort_key_unique)
    have "key r \<noteq> key v" if "r \<in> set (rows s)" "scope r = c'" for r
      using key_iff [OF rows_valid [OF Cons.prems(1) that(1)] v(1)] that v(2) c by auto
    then show "set (filter (\<lambda>r. scope r = c') (rows (put v s))) = set (filter (\<lambda>r. scope r = c') (rows s))"
      using v(2) c by (auto simp: set_put [OF Cons.prems(1)])
    show "inj_on number (set (filter (\<lambda>r. scope r = c') (rows (put v s))))"
      using inj_number [OF ok', of c'] by (simp only: set_filter)
  qed (use distinct_rows ok' Cons.prems(1) in simp_all)
  with Cons.IH [OF ok'] Cons.prems(2) show ?case by simp
qed simp

end

section \<open>Both containers satisfy the interface\<close>

definition map_ok :: "('v \<Rightarrow> 'k) \<Rightarrow> ('v \<Rightarrow> bool) \<Rightarrow> ('k, 'v) js_map \<Rightarrow> bool" where
  "map_ok key valid m \<longleftrightarrow> distinct (map fst m) \<and> (\<forall>e \<in> set m. fst e = key (snd e) \<and> valid (snd e))"

definition idb_ok :: "('v \<Rightarrow> 'k::linorder) \<Rightarrow> ('v \<Rightarrow> bool) \<Rightarrow> 'v list \<Rightarrow> bool" where
  "idb_ok key valid rows \<longleftrightarrow> idb_inv key rows \<and> (\<forall>r \<in> set rows. valid r)"

interpretation mapstore: row_store "\<lambda>v. map_set (key v) v" "map snd" key valid "map_ok key valid"
  for key :: "'v \<Rightarrow> 'k" and valid
proof
  fix s v
  assume ok: "map_ok key valid s"
  show "map_ok key valid (map_set (key v) v s)" if "valid v"
    using ok that by (auto simp: map_ok_def distinct_map_set set_map_set)
  have "map key (map snd s) = map fst s"
    using ok by (auto simp: map_ok_def)
  then show "distinct (map key (map snd s))"
    using ok by (simp only: map_ok_def)
  show "set (map snd (map_set (key v) v s)) = insert v {r \<in> set (map snd s). key r \<noteq> key v}"
    using ok by (force simp: map_ok_def set_map_set)
qed (auto simp: map_ok_def)

interpretation objstore: row_store "idb_put key" "\<lambda>rows. rows" key valid "idb_ok key valid"
  for key :: "'v \<Rightarrow> 'k::linorder" and valid
  by unfold_locales (simp add: idb_ok_def idb_inv_put set_idb_put, simp_all add: idb_ok_def set_idb_put idb_inv_def)

text \<open>A lookup by key finds the same row in both, when they hold the same rows.\<close>

lemma lookups_agree:
  assumes "map_ok key valid m" "idb_ok key valid rows" "set (map snd m) = set rows"
  shows "map_of m k = idb_get key k rows"
proof (cases "idb_get key k rows")
  case None
  then have "k \<notin> key ` set rows"
    by (auto simp: idb_get_def find_None_iff)
  then have "k \<notin> fst ` set m"
    using assms(1,3) by (force simp: map_ok_def)
  with None show ?thesis by (simp add: map_of_eq_None_iff)
next
  case (Some r)
  then have "r \<in> set rows" "key r = k"
    by (auto simp: idb_get_def find_Some_iff)
  then have "(k, r) \<in> set m"
    using assms(1,3) by (force simp: map_ok_def)
  with Some assms(1) show ?thesis
    by (simp add: map_ok_def map_of_eq_Some_iff)
qed

text \<open>A batch of writes to both leaves them with the same rows.\<close>

lemma set_puts_agree:
  assumes "map_ok key valid m" "idb_ok key valid s" "\<forall>v \<in> set vs. valid v" "set (map snd m) = set s"
  shows "set (map snd (fold (\<lambda>v. map_set (key v) v) vs m)) = set (fold (idb_put key) vs s)"
  using assms
proof (induction vs arbitrary: m s)
  case (Cons v vs)
  have "set (map snd (map_set (key v) v m)) = set (idb_put key v s)"
    using Cons.prems mapstore.set_put [of key valid m v] objstore.set_put [of key valid s v] by simp
  with Cons.prems Cons.IH [of "map_set (key v) v m" "idb_put key v s"] show ?case
    using mapstore.ok_put [of key valid m v] objstore.ok_put [of key valid s v] by simp
qed simp


lemma find_insort:
  "find P (insort_key f v xs) = (if P v then (if \<exists>x \<in> set xs. P x then find P (insort_key f v xs) else Some v) else find P xs)"
proof -
  have "find P (insort_key f v xs) = find P xs" if "\<not> P v"
    using that by (induction xs) auto
  moreover have "find P (insort_key f v xs) = Some v" if "P v" "\<not> (\<exists>x \<in> set xs. P x)"
    using that by (induction xs) auto
  ultimately show ?thesis by auto
qed

lemma idb_get_put: "idb_get key k (idb_put key v rows) = (if k = key v then Some v else idb_get key k rows)"
proof -
  have "find (\<lambda>r. key r = k) (filter (\<lambda>r. key r \<noteq> key v) rows) = find (\<lambda>r. key r = k) rows" if "k \<noteq> key v"
    using that by (induction rows) auto
  then show ?thesis
    unfolding idb_get_def idb_put_def by (subst find_insort) auto
qed

end
