(* ===== verification/Offline_Db.thy ===== *)
theory Offline_Db
  imports Keyed_Store JS_Text "HOL-Library.Char_ord" "HOL-Library.List_Lexorder" "HOL-Library.Product_Lexorder"
begin

text \<open>
  The offline storage layer, \<^verbatim>\<open>services/offline/db.ts\<close>: cached vaults, documents, invites and public
  keys, and the queue of pending actions. Every operation has two branches, one over the browser's
  database and one over module-level containers used when no database can be opened; the argument
  \<open>up\<close> of an operation says which, as decided by \<open>getDb\<close>. The clock is an argument as well. The main
  result is that the two branches cannot be told apart except through the invites.

  Database requests are modelled as succeeding and each operation as atomic. Identifiers and times are
  natural numbers.
\<close>

section \<open>Rows\<close>

datatype OfflineNetwork = Avalanche | Stellar

fun network_name :: "OfflineNetwork \<Rightarrow> string" where
  "network_name Avalanche = ''avalanche''"
| "network_name Stellar = ''stellar''"

text \<open>The fields that cached vaults and documents share.\<close>

record CachedRow =
  key :: string
  account :: string
  network :: OfflineNetwork
  row_id :: nat
  cachedAt :: nat

record CachedVault = CachedRow +
  creator :: string
  vault_name :: string
  description :: string
  guardians :: "string list"
  approvalThreshold :: nat
  isActive :: bool
  createdAt :: nat

record CachedDocument = CachedRow +
  vaultId :: nat
  encryptedMetadata :: string
  ipfsHash :: string
  uploadedBy :: string
  uploadedAt :: nat
  requiredAccess :: nat

record CachedInvite =
  invite_id :: "nat option"
  invite_account :: string
  invite_network :: OfflineNetwork
  guardian :: string
  invite_vaultId :: nat
  accepted :: bool
  expiresAt :: nat
  invite_cachedAt :: nat

record CachedPublicKey =
  pk_key :: string
  pk_address :: string
  pk_network :: OfflineNetwork
  publicKey :: string
  pk_cachedAt :: nat

datatype PendingActionStatus = Pending | Processing | Synced | Failed

text \<open>The kind is kept as the stored text, which may be none of the kinds the program knows.\<close>

record 'p PendingActionRecord =
  action_id :: nat
  kind :: string
  label :: string
  payload :: 'p
  status :: PendingActionStatus
  attempts :: nat
  queuedAt :: nat
  updatedAt :: nat
  lastError :: "string option"
  action_network :: OfflineNetwork

section \<open>State\<close>

record 'p memory_db =
  memoryVaults :: "(string, CachedVault) js_map"
  memoryDocuments :: "(string, CachedDocument) js_map"
  memoryInvites :: "CachedInvite list"
  memoryKeyring :: "(string, CachedPublicKey) js_map"
  memoryActions :: "'p PendingActionRecord list"
  memoryActionSeq :: nat

record 'p indexed_db =
  vaults_store :: "CachedVault list"
  documents_store :: "CachedDocument list"
  invites_store :: "CachedInvite list"
  invites_next :: nat
  keyring_store :: "CachedPublicKey list"
  actions_store :: "'p PendingActionRecord list"
  actions_next :: nat

record 'p offline_db =
  mem :: "'p memory_db"
  idb :: "'p indexed_db"

definition empty_memory :: "'p memory_db" where
  "empty_memory = \<lparr>memoryVaults = [], memoryDocuments = [], memoryInvites = [], memoryKeyring = [],
     memoryActions = [], memoryActionSeq = 1\<rparr>"

definition empty_indexed :: "'p indexed_db" where
  "empty_indexed = \<lparr>vaults_store = [], documents_store = [], invites_store = [], invites_next = 1,
     keyring_store = [], actions_store = [], actions_next = 1\<rparr>"

definition fresh_db :: "'p offline_db" where
  "fresh_db = \<lparr>mem = empty_memory, idb = empty_indexed\<rparr>"

text \<open>
  The connection: \<open>injectedFactory\<close> and a remembered open connection. A failed open is forgotten, so
  that the next call tries again.
\<close>

record db_handle =
  injectedFactory :: bool
  dbInstance :: bool

definition resolveFactory :: "bool \<Rightarrow> db_handle \<Rightarrow> bool" where
  "resolveFactory globalFactory h \<longleftrightarrow> injectedFactory h \<or> globalFactory"

definition getDb :: "bool \<Rightarrow> bool \<Rightarrow> db_handle \<Rightarrow> bool \<times> db_handle" where
  "getDb globalFactory opens h =
     (if \<not> resolveFactory globalFactory h then (False, h)
      else if dbInstance h then (True, h)
      else if opens then (True, h\<lparr>dbInstance := True\<rparr>)
      else (False, h\<lparr>dbInstance := False\<rparr>))"

definition setOfflineDbFactoryForTests :: "bool \<Rightarrow> db_handle \<times> 'p offline_db \<Rightarrow> db_handle \<times> 'p offline_db" where
  "setOfflineDbFactoryForTests factory s =
     (\<lparr>injectedFactory = factory, dbInstance = False\<rparr>, (snd s)\<lparr>mem := empty_memory\<rparr>)"

section \<open>Vaults and documents\<close>

definition entityKey :: "string list \<Rightarrow> string" where
  "entityKey parts = concat (case map (map lower) parts of [] \<Rightarrow> [] | p # ps \<Rightarrow> p # map (\<lambda>q. ''::'' @ q) ps)"

definition stampRow :: "string \<Rightarrow> OfflineNetwork \<Rightarrow> nat \<Rightarrow> 'a CachedRow_scheme \<Rightarrow> 'a CachedRow_scheme" where
  "stampRow acc net now r = r\<lparr>key := entityKey [acc, network_name net, js_num (row_id r)], account := acc,
     network := net, cachedAt := now\<rparr>"

definition stampRows :: "string \<Rightarrow> OfflineNetwork \<Rightarrow> (nat \<Rightarrow> nat) \<Rightarrow> 'a CachedRow_scheme list \<Rightarrow> 'a CachedRow_scheme list" where
  "stampRows acc net clock rs = map (\<lambda>i. stampRow acc net (clock i) (rs ! i)) [0..<length rs]"

definition putVaults :: "bool \<Rightarrow> (nat \<Rightarrow> nat) \<Rightarrow> string \<Rightarrow> OfflineNetwork \<Rightarrow> CachedVault list \<Rightarrow> 'p offline_db \<Rightarrow> 'p offline_db" where
  "putVaults up clock acc net vs db =
     (if acc = [] then db
      else let rs = stampRows (map lower acc) net clock vs in
        if \<not> up then db\<lparr>mem := (mem db)\<lparr>memoryVaults := fold (\<lambda>r. map_set (key r) r) rs (memoryVaults (mem db))\<rparr>\<rparr>
        else db\<lparr>idb := (idb db)\<lparr>vaults_store := fold (idb_put key) rs (vaults_store (idb db))\<rparr>\<rparr>)"

definition inScope :: "string \<Rightarrow> OfflineNetwork \<Rightarrow> 'a CachedRow_scheme \<Rightarrow> bool" where
  "inScope acc net r \<longleftrightarrow> account r = acc \<and> network r = net"

definition getCachedVaults :: "bool \<Rightarrow> string \<Rightarrow> OfflineNetwork \<Rightarrow> 'p offline_db \<Rightarrow> CachedVault list" where
  "getCachedVaults up acc net db =
     (if acc = [] then []
      else if \<not> up then sort_key row_id (filter (inScope (map lower acc) net) (map snd (memoryVaults (mem db))))
      else sort_key row_id (filter (inScope (map lower acc) net) (vaults_store (idb db))))"

definition putDocuments :: "bool \<Rightarrow> (nat \<Rightarrow> nat) \<Rightarrow> string \<Rightarrow> OfflineNetwork \<Rightarrow> CachedDocument list \<Rightarrow> 'p offline_db \<Rightarrow> 'p offline_db" where
  "putDocuments up clock acc net ds db =
     (if acc = [] then db
      else let rs = stampRows (map lower acc) net clock ds in
        if \<not> up then db\<lparr>mem := (mem db)\<lparr>memoryDocuments := fold (\<lambda>r. map_set (key r) r) rs (memoryDocuments (mem db))\<rparr>\<rparr>
        else db\<lparr>idb := (idb db)\<lparr>documents_store := fold (idb_put key) rs (documents_store (idb db))\<rparr>\<rparr>)"

definition getCachedDocuments :: "bool \<Rightarrow> string \<Rightarrow> OfflineNetwork \<Rightarrow> 'p offline_db \<Rightarrow> CachedDocument list" where
  "getCachedDocuments up acc net db =
     (if acc = [] then []
      else if \<not> up then sort_key row_id (filter (inScope (map lower acc) net) (map snd (memoryDocuments (mem db))))
      else sort_key row_id (filter (inScope (map lower acc) net) (documents_store (idb db))))"

section \<open>Invites\<close>

definition stampInvite :: "string \<Rightarrow> OfflineNetwork \<Rightarrow> nat \<Rightarrow> CachedInvite \<Rightarrow> CachedInvite" where
  "stampInvite acc net now i = i\<lparr>invite_id := None, invite_account := acc, invite_network := net, invite_cachedAt := now\<rparr>"

definition stampInvites :: "string \<Rightarrow> OfflineNetwork \<Rightarrow> (nat \<Rightarrow> nat) \<Rightarrow> CachedInvite list \<Rightarrow> CachedInvite list" where
  "stampInvites acc net clock invites = map (\<lambda>i. stampInvite acc net (clock i) (invites ! i)) [0..<length invites]"

definition invite_key :: "CachedInvite \<Rightarrow> nat" where
  "invite_key i = (case invite_id i of None \<Rightarrow> 0 | Some n \<Rightarrow> n)"

definition inviteInScope :: "string \<Rightarrow> OfflineNetwork \<Rightarrow> CachedInvite \<Rightarrow> bool" where
  "inviteInScope acc net i \<longleftrightarrow> invite_account i = acc \<and> invite_network i = net"

definition addInvite :: "CachedInvite \<Rightarrow> 'p indexed_db \<Rightarrow> 'p indexed_db" where
  "addInvite i d = d\<lparr>invites_store := idb_put invite_key (i\<lparr>invite_id := Some (invites_next d)\<rparr>) (invites_store d),
     invites_next := invites_next d + 1\<rparr>"

definition putInvites :: "bool \<Rightarrow> (nat \<Rightarrow> nat) \<Rightarrow> string \<Rightarrow> OfflineNetwork \<Rightarrow> CachedInvite list \<Rightarrow> 'p offline_db \<Rightarrow> 'p offline_db" where
  "putInvites up clock acc net invites db =
     (if acc = [] then db
      else let stamped = stampInvites (map lower acc) net clock invites in
        if \<not> up then db\<lparr>mem := (mem db)\<lparr>memoryInvites := stamped\<rparr>\<rparr>
        else let existing = filter (inviteInScope (map lower acc) net) (invites_store (idb db));
                 cleared = (idb db)\<lparr>invites_store := fold (\<lambda>r s. if invite_key r \<noteq> 0 then idb_delete invite_key (invite_key r) s else s)
                   existing (invites_store (idb db))\<rparr>
             in db\<lparr>idb := fold addInvite stamped cleared\<rparr>)"

definition getCachedInvites :: "bool \<Rightarrow> string \<Rightarrow> OfflineNetwork \<Rightarrow> 'p offline_db \<Rightarrow> CachedInvite list" where
  "getCachedInvites up acc net db =
     (if acc = [] then []
      else if \<not> up then filter (inviteInScope (map lower acc) net) (memoryInvites (mem db))
      else filter (inviteInScope (map lower acc) net) (invites_store (idb db)))"

section \<open>Public keys\<close>

definition publicKeyRow :: "nat \<Rightarrow> string \<Rightarrow> string option \<Rightarrow> OfflineNetwork \<Rightarrow> CachedPublicKey" where
  "publicKeyRow now normalized pk net = \<lparr>pk_key = entityKey [normalized, network_name net], pk_address = normalized, pk_network = net,
     publicKey = (case pk of None \<Rightarrow> [] | Some p \<Rightarrow> p), pk_cachedAt = now\<rparr>"

definition putPublicKey :: "bool \<Rightarrow> nat \<Rightarrow> string \<Rightarrow> string option \<Rightarrow> OfflineNetwork \<Rightarrow> 'p offline_db \<Rightarrow> 'p offline_db" where
  "putPublicKey up now address pk net db =
     (if address = [] then db
      else let row = publicKeyRow now (map lower address) pk net
        in if \<not> up then db\<lparr>mem := (mem db)\<lparr>memoryKeyring := map_set (pk_key row) row (memoryKeyring (mem db))\<rparr>\<rparr>
           else db\<lparr>idb := (idb db)\<lparr>keyring_store := idb_put pk_key row (keyring_store (idb db))\<rparr>\<rparr>)"

definition getCachedPublicKey :: "bool \<Rightarrow> string \<Rightarrow> OfflineNetwork \<Rightarrow> 'p offline_db \<Rightarrow> string option" where
  "getCachedPublicKey up address net db =
     (if address = [] then None
      else let k = entityKey [map lower address, network_name net] in
        if \<not> up then map_option publicKey (map_of (memoryKeyring (mem db)) k)
        else map_option publicKey (idb_get pk_key k (keyring_store (idb db))))"

section \<open>Actions\<close>

definition insertAction :: "bool \<Rightarrow> 'p PendingActionRecord \<Rightarrow> 'p offline_db \<Rightarrow> 'p PendingActionRecord \<times> 'p offline_db" where
  "insertAction up record db =
     (if \<not> up then
        let withId = record\<lparr>action_id := memoryActionSeq (mem db)\<rparr>
        in (withId, db\<lparr>mem := (mem db)\<lparr>memoryActionSeq := memoryActionSeq (mem db) + 1, memoryActions := memoryActions (mem db) @ [withId]\<rparr>\<rparr>)
      else
        let withId = record\<lparr>action_id := actions_next (idb db)\<rparr>
        in (withId, db\<lparr>idb := (idb db)\<lparr>actions_store := idb_put action_id withId (actions_store (idb db)), actions_next := actions_next (idb db) + 1\<rparr>\<rparr>))"

definition stored_actions :: "bool \<Rightarrow> 'p offline_db \<Rightarrow> 'p PendingActionRecord list" where
  "stored_actions up db = (if up then actions_store (idb db) else memoryActions (mem db))"

definition listActionsByStatus :: "bool \<Rightarrow> PendingActionStatus list \<Rightarrow> 'p offline_db \<Rightarrow> 'p PendingActionRecord list" where
  "listActionsByStatus up statuses db =
     sort_key (\<lambda>r. (queuedAt r, action_id r)) (filter (\<lambda>r. status r \<in> set statuses) (stored_actions up db))"

text \<open>A partial record of changes: \<open>None\<close> leaves the field alone.\<close>

record ActionChanges =
  new_status :: "PendingActionStatus option"
  new_attempts :: "nat option"
  new_updatedAt :: "nat option"
  new_lastError :: "string option"

definition applyChanges :: "ActionChanges \<Rightarrow> 'p PendingActionRecord \<Rightarrow> 'p PendingActionRecord" where
  "applyChanges c r = r\<lparr>
     status := (case new_status c of None \<Rightarrow> status r | Some s \<Rightarrow> s),
     attempts := (case new_attempts c of None \<Rightarrow> attempts r | Some n \<Rightarrow> n),
     updatedAt := (case new_updatedAt c of None \<Rightarrow> updatedAt r | Some t \<Rightarrow> t),
     lastError := (case new_lastError c of None \<Rightarrow> lastError r | Some e \<Rightarrow> Some e)\<rparr>"

fun find_index :: "('a \<Rightarrow> bool) \<Rightarrow> 'a list \<Rightarrow> nat option" where
  "find_index P [] = None"
| "find_index P (x # xs) = (if P x then Some 0 else map_option Suc (find_index P xs))"

definition updateAction :: "bool \<Rightarrow> nat \<Rightarrow> ActionChanges \<Rightarrow> 'p offline_db \<Rightarrow> 'p offline_db" where
  "updateAction up aid changes db =
     (if \<not> up then
        case find_index (\<lambda>r. action_id r = aid) (memoryActions (mem db)) of
          None \<Rightarrow> db
        | Some i \<Rightarrow> db\<lparr>mem := (mem db)\<lparr>memoryActions := (memoryActions (mem db))[i := applyChanges changes (memoryActions (mem db) ! i)]\<rparr>\<rparr>
      else
        case idb_get action_id aid (actions_store (idb db)) of
          None \<Rightarrow> db
        | Some r \<Rightarrow> db\<lparr>idb := (idb db)\<lparr>actions_store := idb_put action_id (applyChanges changes r) (actions_store (idb db))\<rparr>\<rparr>)"

definition splice_out :: "('a \<Rightarrow> bool) \<Rightarrow> 'a list \<Rightarrow> 'a list" where
  "splice_out P xs = fold (\<lambda>i ys. if P (ys ! i) then take i ys @ drop (Suc i) ys else ys) (rev [0..<length xs]) xs"

definition deleteActionsByStatus :: "bool \<Rightarrow> PendingActionStatus list \<Rightarrow> 'p offline_db \<Rightarrow> 'p offline_db" where
  "deleteActionsByStatus up statuses db =
     (if \<not> up then db\<lparr>mem := (mem db)\<lparr>memoryActions := splice_out (\<lambda>r. status r \<in> set statuses) (memoryActions (mem db))\<rparr>\<rparr>
      else let ids = filter (\<lambda>i. i \<noteq> 0) (map action_id (filter (\<lambda>r. status r \<in> set statuses) (actions_store (idb db))))
        in db\<lparr>idb := (idb db)\<lparr>actions_store := fold (idb_delete action_id) ids (actions_store (idb db))\<rparr>\<rparr>)"

record status_counts =
  n_pending :: nat
  n_processing :: nat
  n_synced :: nat
  n_failed :: nat

fun count_status :: "PendingActionStatus \<Rightarrow> status_counts \<Rightarrow> status_counts" where
  "count_status Pending c = c\<lparr>n_pending := n_pending c + 1\<rparr>"
| "count_status Processing c = c\<lparr>n_processing := n_processing c + 1\<rparr>"
| "count_status Synced c = c\<lparr>n_synced := n_synced c + 1\<rparr>"
| "count_status Failed c = c\<lparr>n_failed := n_failed c + 1\<rparr>"

definition countActionsByStatus :: "bool \<Rightarrow> 'p offline_db \<Rightarrow> status_counts" where
  "countActionsByStatus up db =
     fold (\<lambda>r. count_status (status r)) (stored_actions up db) \<lparr>n_pending = 0, n_processing = 0, n_synced = 0, n_failed = 0\<rparr>"


section \<open>Keys\<close>

lemma network_name_inject [simp]: "network_name a = network_name b \<longleftrightarrow> a = b"
  by (cases a; cases b) simp_all

lemma network_name_plain: "CHR '':'' \<notin> set (network_name n)" "map lower (network_name n) = network_name n"
  by (cases n; simp add: lower_def)+

lemma js_num_plain: "CHR '':'' \<notin> set (js_num n)"
  using js_num_digits is_digit_10 by blast

lemma entityKey_row:
  "entityKey [a, network_name n, js_num i] = ((map lower a @ ''::'' @ network_name n) @ '':'') @ CHR '':'' # js_num i"
  by (simp add: entityKey_def network_name_plain)

text \<open>Keys of rows of different accounts, networks or numbers never collide, whatever the account text is.\<close>

lemma entityKey_inject:
  "entityKey [a, network_name n, js_num i] = entityKey [b, network_name m, js_num j] \<longleftrightarrow>
     map lower a = map lower b \<and> n = m \<and> i = j"
proof -
  have "map lower a @ ''::'' @ network_name n = map lower b @ ''::'' @ network_name m \<longleftrightarrow> map lower a = map lower b \<and> n = m"
    using append_last_sep [OF network_name_plain(1) network_name_plain(1), of "map lower a @ '':''" n "map lower b @ '':''" m]
    by auto
  then show ?thesis
    unfolding entityKey_row append_last_sep [OF js_num_plain js_num_plain] by simp
qed

definition well_keyed :: "'a CachedRow_scheme \<Rightarrow> bool" where
  "well_keyed r \<longleftrightarrow> key r = entityKey [account r, network_name (network r), js_num (row_id r)] \<and> map lower (account r) = account r"

lemma well_keyed_key_iff:
  "well_keyed r \<Longrightarrow> well_keyed r' \<Longrightarrow> key r = key r' \<longleftrightarrow> (account r, network r) = (account r', network r') \<and> row_id r = row_id r'"
  by (auto simp: well_keyed_def entityKey_inject)

lemma stampRow_simps [simp]:
  "account (stampRow a n t r) = a" "network (stampRow a n t r) = n" "row_id (stampRow a n t r) = row_id r"
  "well_keyed (stampRow (map lower b) n t r)"
  by (simp_all add: stampRow_def well_keyed_def)

lemma stampRows_rows: "r \<in> set (stampRows a n clock rs) \<Longrightarrow> \<exists>t r0. r0 \<in> set rs \<and> r = stampRow a n t r0"
  unfolding stampRows_def using nth_mem by (auto, blast)

lemma stampRows_ids [simp]: "map row_id (stampRows a n clock rs) = map row_id rs"
  by (rule nth_equalityI) (simp_all add: stampRows_def)

lemma set_stampRows_ids [simp]: "row_id ` set (stampRows a n clock rs) = row_id ` set rs"
  by (metis list.set_map stampRows_ids)

lemma stampRows_valid: "\<forall>r \<in> set (stampRows (map lower a) n clock rs). well_keyed r \<and> (account r, network r) = (map lower a, n)"
  by (auto dest!: stampRows_rows)

lemma inScope_pair: "inScope a n = (\<lambda>r. (account r, network r) = (a, n))"
  by (auto simp: inScope_def fun_eq_iff)

interpretation memrows: scoped_store "\<lambda>r. map_set (key r) r" "map snd" "key :: 'a CachedRow_scheme \<Rightarrow> string" well_keyed
  "map_ok key well_keyed" "\<lambda>r. (account r, network r)" row_id
  by unfold_locales (rule well_keyed_key_iff)

interpretation idbrows: scoped_store "idb_put key" "\<lambda>rows. rows" "key :: 'a CachedRow_scheme \<Rightarrow> string" well_keyed
  "idb_ok key well_keyed" "\<lambda>r. (account r, network r)" row_id
  by unfold_locales (rule well_keyed_key_iff)

section \<open>Actions\<close>

definition actions_ok :: "'p PendingActionRecord list \<Rightarrow> nat \<Rightarrow> bool" where
  "actions_ok rs next \<longleftrightarrow> 1 \<le> next \<and> sorted_wrt (<) (map action_id rs) \<and> (\<forall>r \<in> set rs. 1 \<le> action_id r \<and> action_id r < next)"

lemma insort_key_last: "\<forall>r \<in> set xs. f r \<le> f x \<Longrightarrow> f x \<notin> f ` set xs \<Longrightarrow> insort_key f x xs = xs @ [x]"
  by (induction xs) force+

lemma idb_put_last: "\<forall>r \<in> set rs. f r < f x \<Longrightarrow> idb_put f x rs = rs @ [x]"
  unfolding idb_put_def by (subst filter_True, fastforce, rule insort_key_last) (auto simp: less_imp_le)

lemma idb_get_find_index:
  "idb_get f k rs = (case find_index (\<lambda>r. f r = k) rs of None \<Rightarrow> None | Some i \<Rightarrow> Some (rs ! i))"
  by (induction rs) (auto simp: idb_get_def split: option.splits)

lemma find_index_SomeD: "find_index P xs = Some i \<Longrightarrow> i < length xs \<and> P (xs ! i)"
  by (induction xs arbitrary: i) (auto split: if_splits)

lemma find_index_NoneD: "find_index P xs = None \<Longrightarrow> x \<in> set xs \<Longrightarrow> \<not> P x"
  by (induction xs) (auto split: if_splits)

lemma idb_put_replace:
  assumes "sorted_wrt (<) (map f rs)" "i < length rs" "f x = f (rs ! i)"
  shows "idb_put f x rs = rs[i := x]"
  using assms
proof (induction rs arbitrary: i)
  case (Cons r rs)
  show ?case
  proof (cases i)
    case 0
    with Cons.prems have "filter (\<lambda>s. f s \<noteq> f x) (r # rs) = rs" "\<forall>s \<in> set rs. f x < f s"
      by (auto simp: filter_id_conv)
    then have "idb_put f x (r # rs) = insort_key f x rs" "\<forall>s \<in> set rs. f x \<le> f s"
      by (auto simp: idb_put_def)
    then show ?thesis
      using 0 by (simp add: insort_is_Cons)
  next
    case (Suc j)
    with Cons.prems have "f r < f x" "idb_put f x rs = rs[j := x]"
      using Cons.IH [of j] by auto
    then show ?thesis
      using Suc by (auto simp: idb_put_def)
  qed
qed simp

lemma splice_out_filter: "splice_out P xs = filter (\<lambda>x. \<not> P x) xs"
proof -
  let ?f = "\<lambda>i ys. if P (ys ! i) then take i ys @ drop (Suc i) ys else ys"
  have "fold ?f (rev [0..<n]) (xs @ zs) = filter (\<lambda>x. \<not> P x) xs @ zs" if "length xs = n" for n xs zs
    using that
  proof (induction n arbitrary: xs zs)
    case (Suc n)
    then obtain ys y where xs: "xs = ys @ [y]" "length ys = n"
      by (metis append_butlast_last_id length_0_conv length_append_singleton nat.distinct(1) nat.inject)
    then have step: "?f n (xs @ zs) = ys @ (if P y then zs else y # zs)"
      by (simp add: nth_append)
    have "fold ?f (rev [0..<Suc n]) (xs @ zs) = fold ?f (rev [0..<n]) (?f n (xs @ zs))"
      by simp
    also have "\<dots> = filter (\<lambda>x. \<not> P x) ys @ (if P y then zs else y # zs)"
      unfolding step by (rule Suc.IH [OF xs(2)])
    finally show ?case using xs(1) by simp
  qed simp
  from this [of xs "length xs" "[]"] show ?thesis by (simp add: splice_out_def)
qed

lemma fold_idb_delete: "fold (idb_delete f) ks rs = filter (\<lambda>r. f r \<notin> set ks) rs"
  by (induction ks arbitrary: rs) (auto simp: idb_delete_def intro!: filter_cong)

lemma delete_ids:
  assumes "\<forall>r \<in> set rs. 1 \<le> action_id r" "sorted_wrt (<) (map action_id rs)"
  shows "fold (idb_delete action_id) (filter (\<lambda>i. i \<noteq> 0) (map action_id (filter P rs))) rs = filter (\<lambda>r. \<not> P r) rs"
  unfolding fold_idb_delete
proof (rule filter_cong [OF refl])
  fix r
  assume r: "r \<in> set rs"
  have "inj_on action_id (set rs)"
    using assms(2) by (simp add: strict_sorted_iff distinct_map)
  with r assms(1) show "action_id r \<notin> set (filter (\<lambda>i. i \<noteq> 0) (map action_id (filter P rs))) \<longleftrightarrow> \<not> P r"
    by (auto dest: inj_onD)
qed


section \<open>Invites in the database\<close>

definition invites_ok :: "CachedInvite list \<Rightarrow> nat \<Rightarrow> bool" where
  "invites_ok rs next \<longleftrightarrow> 1 \<le> next \<and> sorted_wrt (<) (map invite_key rs) \<and> (\<forall>r \<in> set rs. 1 \<le> invite_key r \<and> invite_key r < next)"

fun number_from :: "nat \<Rightarrow> CachedInvite list \<Rightarrow> CachedInvite list" where
  "number_from n [] = []"
| "number_from n (i # is) = i\<lparr>invite_id := Some n\<rparr> # number_from (n + 1) is"

lemma number_from_plain: "map (\<lambda>i. i\<lparr>invite_id := None\<rparr>) (number_from n is) = map (\<lambda>i. i\<lparr>invite_id := None\<rparr>) is"
  by (induction n "is" rule: number_from.induct) simp_all

lemma inviteInScope_id [simp]: "inviteInScope a n (i\<lparr>invite_id := k\<rparr>) = inviteInScope a n i"
  by (simp add: inviteInScope_def)

lemma filter_number_from:
  "\<forall>i \<in> set is. inviteInScope a n i \<Longrightarrow> filter (inviteInScope b m) (number_from k is) = (if (a, n) = (b, m) then number_from k is else [])"
  by (induction k "is" rule: number_from.induct) (auto simp: inviteInScope_def)

lemma invites_ok_add:
  assumes "invites_ok (invites_store d) (invites_next d)"
  shows "invites_store (addInvite i d) = invites_store d @ [i\<lparr>invite_id := Some (invites_next d)\<rparr>]"
    and "invites_next (addInvite i d) = invites_next d + 1"
    and "invites_ok (invites_store (addInvite i d)) (invites_next (addInvite i d))"
proof -
  have "idb_put invite_key (i\<lparr>invite_id := Some (invites_next d)\<rparr>) (invites_store d) =
      invites_store d @ [i\<lparr>invite_id := Some (invites_next d)\<rparr>]"
    using assms by (intro idb_put_last) (auto simp: invites_ok_def invite_key_def)
  then show store: "invites_store (addInvite i d) = invites_store d @ [i\<lparr>invite_id := Some (invites_next d)\<rparr>]"
    and next_id: "invites_next (addInvite i d) = invites_next d + 1"
    by (simp_all add: addInvite_def)
  show "invites_ok (invites_store (addInvite i d)) (invites_next (addInvite i d))"
    unfolding store next_id using assms
    by (auto simp: invites_ok_def sorted_wrt_append invite_key_def [of "i\<lparr>invite_id := Some (invites_next d)\<rparr>"] less_Suc_eq)
qed

lemma addInvites:
  assumes "invites_ok (invites_store d) (invites_next d)"
  shows "invites_store (fold addInvite is d) = invites_store d @ number_from (invites_next d) is
    \<and> invites_ok (invites_store (fold addInvite is d)) (invites_next (fold addInvite is d))"
  using assms
proof (induction "is" arbitrary: d)
  case (Cons i "is")
  note a = invites_ok_add [OF Cons.prems, of i]
  from Cons.IH [OF a(3)] a(1,2) show ?case by auto
qed simp

lemma clear_invites:
  assumes "invites_ok rs next"
  shows "fold (\<lambda>r s. if invite_key r \<noteq> 0 then idb_delete invite_key (invite_key r) s else s) (filter P rs) rs = filter (\<lambda>r. \<not> P r) rs"
proof -
  have "fold (\<lambda>r s. if invite_key r \<noteq> 0 then idb_delete invite_key (invite_key r) s else s) qs ss =
      fold (idb_delete invite_key) (map invite_key qs) ss" if "set qs \<subseteq> set rs" for qs ss
    using that assms by (induction qs arbitrary: ss) (auto simp: invites_ok_def)
  then have "fold (\<lambda>r s. if invite_key r \<noteq> 0 then idb_delete invite_key (invite_key r) s else s) (filter P rs) rs =
      filter (\<lambda>r. invite_key r \<notin> set (map invite_key (filter P rs))) rs"
    by (simp add: fold_idb_delete)
  also have "\<dots> = filter (\<lambda>r. \<not> P r) rs"
  proof (rule filter_cong [OF refl])
    fix r
    assume "r \<in> set rs"
    moreover have "inj_on invite_key (set rs)"
      using assms by (simp add: invites_ok_def strict_sorted_iff distinct_map)
    ultimately show "invite_key r \<notin> set (map invite_key (filter P rs)) \<longleftrightarrow> \<not> P r"
      by (auto dest: inj_onD)
  qed
  finally show ?thesis .
qed

lemma invites_ok_filter: "invites_ok rs next \<Longrightarrow> invites_ok (filter P rs) next"
  by (auto simp: invites_ok_def sorted_wrt_map intro: sorted_wrt_filter)

text \<open>What the database holds after the invites of a scope were replaced.\<close>

lemma addInvite_frame [simp]:
  "vaults_store (fold addInvite is d) = vaults_store d" "documents_store (fold addInvite is d) = documents_store d"
  "keyring_store (fold addInvite is d) = keyring_store d" "actions_store (fold addInvite is d) = actions_store d"
  "actions_next (fold addInvite is d) = actions_next d"
  by (induction "is" arbitrary: d) (simp_all add: addInvite_def)

section \<open>The invariant of the storage\<close>

definition mem_ok :: "'p memory_db \<Rightarrow> bool" where
  "mem_ok m \<longleftrightarrow> map_ok key well_keyed (memoryVaults m) \<and> map_ok key well_keyed (memoryDocuments m)
     \<and> map_ok pk_key (\<lambda>_. True) (memoryKeyring m) \<and> actions_ok (memoryActions m) (memoryActionSeq m)"

definition idx_ok :: "'p indexed_db \<Rightarrow> bool" where
  "idx_ok d \<longleftrightarrow> idb_ok key well_keyed (vaults_store d) \<and> idb_ok key well_keyed (documents_store d)
     \<and> idb_ok pk_key (\<lambda>_. True) (keyring_store d) \<and> actions_ok (actions_store d) (actions_next d)
     \<and> invites_ok (invites_store d) (invites_next d)"

definition db_ok :: "'p offline_db \<Rightarrow> bool" where
  "db_ok db \<longleftrightarrow> mem_ok (mem db) \<and> idx_ok (idb db)"

text \<open>Both databases hold the same rows, enumerated in their own order.\<close>

definition same_rows :: "'p memory_db \<Rightarrow> 'p indexed_db \<Rightarrow> bool" where
  "same_rows m d \<longleftrightarrow> set (map snd (memoryVaults m)) = set (vaults_store d)
     \<and> set (map snd (memoryDocuments m)) = set (documents_store d)
     \<and> set (map snd (memoryKeyring m)) = set (keyring_store d)
     \<and> memoryActions m = actions_store d \<and> memoryActionSeq m = actions_next d"

lemma fresh_db_ok [simp]: "db_ok fresh_db" "same_rows (mem fresh_db) (idb fresh_db)"
  by (simp_all add: db_ok_def fresh_db_def empty_memory_def empty_indexed_def mem_ok_def idx_ok_def
      map_ok_def idb_ok_def idb_inv_def actions_ok_def invites_ok_def same_rows_def)

lemma rows_valid_stamp: "\<forall>v \<in> set (stampRows (map lower a) n clock rs). well_keyed v"
  using stampRows_valid by blast

lemma listing_agrees:
  assumes "map_ok key well_keyed m" "idb_ok key well_keyed s" "set (map snd m) = set s"
  shows "sort_key row_id (filter (inScope a n) (map snd m)) = sort_key row_id (filter (inScope a n) s)"
proof (rule sort_key_unique)
  show "inj_on row_id (set (filter (inScope a n) (map snd m)))"
    unfolding inScope_pair set_filter by (rule memrows.inj_number [OF assms(1)])
  show "distinct (filter (inScope a n) (map snd m))" "distinct (filter (inScope a n) s)"
    using mapstore.distinct_rows [OF assms(1)] objstore.distinct_rows [OF assms(2)] by simp_all
qed (simp add: assms(3) del: set_map)


section \<open>Runs of operations\<close>

text \<open>The operations of the module, and what a caller sees of them.\<close>

datatype 'p db_op =
    PutVaults "nat \<Rightarrow> nat" string OfflineNetwork "CachedVault list"
  | GetVaults string OfflineNetwork
  | PutDocuments "nat \<Rightarrow> nat" string OfflineNetwork "CachedDocument list"
  | GetDocuments string OfflineNetwork
  | PutInvites "nat \<Rightarrow> nat" string OfflineNetwork "CachedInvite list"
  | GetInvites string OfflineNetwork
  | PutPublicKey nat string "string option" OfflineNetwork
  | GetPublicKey string OfflineNetwork
  | InsertAction "'p PendingActionRecord"
  | ListActions "PendingActionStatus list"
  | UpdateAction nat ActionChanges
  | DeleteActions "PendingActionStatus list"
  | CountActions

datatype 'p db_view =
    Nothing
  | Vaults "CachedVault list"
  | Documents "CachedDocument list"
  | Invites "CachedInvite list"
  | PublicKey "string option"
  | Action "'p PendingActionRecord"
  | Actions "'p PendingActionRecord list"
  | Counts status_counts

fun db_step :: "bool \<Rightarrow> 'p db_op \<Rightarrow> 'p offline_db \<Rightarrow> 'p db_view \<times> 'p offline_db" where
  "db_step up (PutVaults clock a n vs) db = (Nothing, putVaults up clock a n vs db)"
| "db_step up (GetVaults a n) db = (Vaults (getCachedVaults up a n db), db)"
| "db_step up (PutDocuments clock a n ds) db = (Nothing, putDocuments up clock a n ds db)"
| "db_step up (GetDocuments a n) db = (Documents (getCachedDocuments up a n db), db)"
| "db_step up (PutInvites clock a n is) db = (Nothing, putInvites up clock a n is db)"
| "db_step up (GetInvites a n) db = (Invites (getCachedInvites up a n db), db)"
| "db_step up (PutPublicKey t a pk n) db = (Nothing, putPublicKey up t a pk n db)"
| "db_step up (GetPublicKey a n) db = (PublicKey (getCachedPublicKey up a n db), db)"
| "db_step up (InsertAction r) db = (case insertAction up r db of (r', db') \<Rightarrow> (Action r', db'))"
| "db_step up (ListActions ss) db = (Actions (listActionsByStatus up ss db), db)"
| "db_step up (UpdateAction i c) db = (Nothing, updateAction up i c db)"
| "db_step up (DeleteActions ss) db = (Nothing, deleteActionsByStatus up ss db)"
| "db_step up CountActions db = (Counts (countActionsByStatus up db), db)"

fun about_invites :: "'p db_op \<Rightarrow> bool" where
  "about_invites (PutInvites clock a n is) = True"
| "about_invites (GetInvites a n) = True"
| "about_invites x = False"

fun db_run :: "bool \<Rightarrow> 'p db_op list \<Rightarrow> 'p offline_db \<Rightarrow> 'p db_view list" where
  "db_run up [] db = []"
| "db_run up (x # xs) db = (case db_step up x db of (v, db') \<Rightarrow> v # db_run up xs db')"

lemma actions_ok_insert:
  "actions_ok rs next \<Longrightarrow> actions_ok (rs @ [r\<lparr>action_id := next\<rparr>]) (next + 1)"
  by (auto simp: actions_ok_def sorted_wrt_append less_Suc_eq)

lemma applyChanges_id [simp]: "action_id (applyChanges c r) = action_id r"
  by (simp add: applyChanges_def)

lemma actions_ok_update:
  assumes "actions_ok rs next" "i < length rs"
  shows "actions_ok (rs[i := applyChanges c (rs ! i)]) next"
proof -
  have "map action_id (rs[i := applyChanges c (rs ! i)]) = map action_id rs"
    using assms(2) by (simp add: map_update list_update_same_conv)
  then show ?thesis
    using assms by (auto simp: actions_ok_def dest!: set_update_subset_insert [THEN subsetD])
qed

lemma actions_ok_filter: "actions_ok rs next \<Longrightarrow> actions_ok (filter P rs) next"
  by (auto simp: actions_ok_def sorted_wrt_map intro: sorted_wrt_filter)


lemma insert_last: "actions_ok rs next \<Longrightarrow> idb_put action_id (r\<lparr>action_id := next\<rparr>) rs = rs @ [r\<lparr>action_id := next\<rparr>]"
  by (rule idb_put_last) (auto simp: actions_ok_def)

text \<open>An update by key in the database is an update in place.\<close>

lemma update_in_place:
  assumes "actions_ok rs next" "idb_get action_id k rs = Some r"
  shows "\<exists>i < length rs. find_index (\<lambda>r. action_id r = k) rs = Some i \<and> rs ! i = r
    \<and> idb_put action_id (applyChanges c r) rs = rs[i := applyChanges c (rs ! i)]"
proof -
  obtain i where i: "find_index (\<lambda>r. action_id r = k) rs = Some i" "r = rs ! i" "i < length rs"
    using assms(2) by (auto simp: idb_get_find_index dest: find_index_SomeD split: option.splits)
  then have "idb_put action_id (applyChanges c r) rs = rs[i := applyChanges c r]"
    using assms(1) by (intro idb_put_replace) (auto simp: actions_ok_def)
  with i show ?thesis by blast
qed

lemma update_absent: "idb_get action_id k rs = None \<Longrightarrow> find_index (\<lambda>r. action_id r = k) rs = None"
  by (simp add: idb_get_find_index split: option.splits)

lemma delete_store: "actions_ok rs next \<Longrightarrow>
    fold (idb_delete action_id) (filter (\<lambda>i. i \<noteq> 0) (map action_id (filter P rs))) rs = filter (\<lambda>r. \<not> P r) rs"
  by (rule delete_ids) (auto simp: actions_ok_def)

lemmas delete_store' = delete_store [simplified]

lemma updateAction_ok:
  assumes "db_ok db"
  shows "db_ok (updateAction up k c db)"
proof (cases up)
  case True
  then show ?thesis
    using assms update_in_place [of "actions_store (idb db)" "actions_next (idb db)" k _ c] actions_ok_update
    by (force simp: updateAction_def db_ok_def idx_ok_def split: option.splits)
next
  case False
  then show ?thesis
    using assms
    by (auto simp: updateAction_def db_ok_def mem_ok_def dest: find_index_SomeD intro: actions_ok_update split: option.splits)
qed

lemma putInvites_store:
  assumes "db_ok db" "a \<noteq> []"
  shows "invites_store (idb (putInvites True clock a n is db)) =
      filter (\<lambda>r. \<not> inviteInScope (map lower a) n r) (invites_store (idb db)) @
      number_from (invites_next (idb db)) (stampInvites (map lower a) n clock is)
    \<and> invites_ok (invites_store (idb (putInvites True clock a n is db))) (invites_next (idb (putInvites True clock a n is db)))"
proof -
  have ok: "invites_ok (invites_store (idb db)) (invites_next (idb db))"
    using assms(1) by (simp add: db_ok_def idx_ok_def)
  let ?cleared = "(idb db)\<lparr>invites_store := filter (\<lambda>r. \<not> inviteInScope (map lower a) n r) (invites_store (idb db))\<rparr>"
  have "putInvites True clock a n is db = db\<lparr>idb := fold addInvite (stampInvites (map lower a) n clock is) ?cleared\<rparr>"
    using assms(2) clear_invites [OF ok] by (simp add: putInvites_def Let_def)
  with addInvites [of ?cleared "stampInvites (map lower a) n clock is"] invites_ok_filter [OF ok] show ?thesis by auto
qed

lemma putInvites_ok:
  assumes "db_ok db"
  shows "db_ok (putInvites up clock a n is db)"
proof (cases "up \<and> a \<noteq> []")
  case True
  then show ?thesis
    using assms putInvites_store [OF assms, of a clock n "is"] by (auto simp: db_ok_def idx_ok_def) (simp_all add: putInvites_def Let_def)
next
  case False
  then show ?thesis
    using assms by (auto simp: putInvites_def db_ok_def mem_ok_def Let_def)
qed

text \<open>Every operation keeps the invariant of both databases.\<close>

lemma db_step_ok:
  assumes "db_ok db"
  shows "db_ok (snd (db_step up x db))"
proof (cases x)
  case (PutVaults clock a n vs)
  then show ?thesis
    using assms mapstore.ok_puts [OF _ rows_valid_stamp] objstore.ok_puts [OF _ rows_valid_stamp]
    by (auto simp: putVaults_def db_ok_def mem_ok_def idx_ok_def Let_def)
next
  case (PutDocuments clock a n ds)
  then show ?thesis
    using assms mapstore.ok_puts [OF _ rows_valid_stamp] objstore.ok_puts [OF _ rows_valid_stamp]
    by (auto simp: putDocuments_def db_ok_def mem_ok_def idx_ok_def Let_def)
next
  case (PutInvites clock a n "is")
  then show ?thesis
    using assms by (simp add: putInvites_ok)
next
  case (PutPublicKey t a pk n)
  then show ?thesis
    using assms mapstore.ok_put [of pk_key "\<lambda>_. True"] objstore.ok_put [of pk_key "\<lambda>_. True"]
    by (auto simp: putPublicKey_def db_ok_def mem_ok_def idx_ok_def Let_def)
next
  case (InsertAction r)
  then show ?thesis
    using assms
    by (auto simp: insertAction_def db_ok_def mem_ok_def idx_ok_def Let_def insert_last dest: actions_ok_insert)
next
  case (UpdateAction i c)
  then show ?thesis
    using assms by (simp add: updateAction_ok)
next
  case (DeleteActions ss)
  then show ?thesis
    using assms
    by (auto simp: deleteActionsByStatus_def db_ok_def mem_ok_def idx_ok_def Let_def delete_store' splice_out_filter
        intro: actions_ok_filter)
qed (use assms in simp_all)


lemma same_rows_puts:
  assumes "db_ok db1" "db_ok db2" "same_rows (mem db1) (idb db2)"
  shows "set (map snd (fold (\<lambda>r. map_set (key r) r) (stampRows (map lower a) n clock vs) (memoryVaults (mem db1)))) =
      set (fold (idb_put key) (stampRows (map lower a) n clock vs) (vaults_store (idb db2)))"
    and "set (map snd (fold (\<lambda>r. map_set (key r) r) (stampRows (map lower a) n clock ds) (memoryDocuments (mem db1)))) =
      set (fold (idb_put key) (stampRows (map lower a) n clock ds) (documents_store (idb db2)))"
    and "set (map snd (map_set (pk_key row) row (memoryKeyring (mem db1)))) = set (idb_put pk_key row (keyring_store (idb db2)))"
proof -
  note unf = db_ok_def mem_ok_def idx_ok_def same_rows_def
  show "set (map snd (fold (\<lambda>r. map_set (key r) r) (stampRows (map lower a) n clock vs) (memoryVaults (mem db1)))) =
      set (fold (idb_put key) (stampRows (map lower a) n clock vs) (vaults_store (idb db2)))"
    by (rule set_puts_agree [OF _ _ rows_valid_stamp]) (use assms in \<open>simp_all add: unf\<close>)
  show "set (map snd (fold (\<lambda>r. map_set (key r) r) (stampRows (map lower a) n clock ds) (memoryDocuments (mem db1)))) =
      set (fold (idb_put key) (stampRows (map lower a) n clock ds) (documents_store (idb db2)))"
    by (rule set_puts_agree [OF _ _ rows_valid_stamp]) (use assms in \<open>simp_all add: unf\<close>)
  show "set (map snd (map_set (pk_key row) row (memoryKeyring (mem db1)))) = set (idb_put pk_key row (keyring_store (idb db2)))"
    using assms set_puts_agree [where key = pk_key and valid = "\<lambda>_. True" and vs = "[row]"] by (simp add: unf)
qed

text \<open>One operation on both databases: the caller sees the same, and they keep holding the same rows.\<close>

lemma db_step_agree:
  assumes ok: "db_ok db1" "db_ok db2" and rel: "same_rows (mem db1) (idb db2)" and x: "\<not> about_invites x"
  shows "fst (db_step False x db1) = fst (db_step True x db2)
    \<and> same_rows (mem (snd (db_step False x db1))) (idb (snd (db_step True x db2)))"
proof -
  note unf = db_ok_def mem_ok_def idx_ok_def same_rows_def
  have act: "actions_ok (actions_store (idb db2)) (actions_next (idb db2))"
    "memoryActions (mem db1) = actions_store (idb db2)" "memoryActionSeq (mem db1) = actions_next (idb db2)"
    using ok rel by (simp_all add: unf)
  show ?thesis
  proof (cases x)
    case (PutVaults clock a n vs)
    then show ?thesis
      using rel same_rows_puts(1) [OF ok rel] by (simp add: putVaults_def same_rows_def Let_def)
  next
    case (PutDocuments clock a n ds)
    then show ?thesis
      using rel same_rows_puts(2) [OF ok rel] by (simp add: putDocuments_def same_rows_def Let_def)
  next
    case (PutPublicKey t a pk n)
    then show ?thesis
      using rel same_rows_puts(3) [OF ok rel] by (simp add: putPublicKey_def same_rows_def Let_def)
  next
    case (GetVaults a n)
    then show ?thesis
      using ok rel listing_agrees [of "memoryVaults (mem db1)" "vaults_store (idb db2)"]
      by (simp add: getCachedVaults_def unf)
  next
    case (GetDocuments a n)
    then show ?thesis
      using ok rel listing_agrees [of "memoryDocuments (mem db1)" "documents_store (idb db2)"]
      by (simp add: getCachedDocuments_def unf)
  next
    case (GetPublicKey a n)
    then show ?thesis
      using ok rel lookups_agree [of pk_key "\<lambda>_. True" "memoryKeyring (mem db1)" "keyring_store (idb db2)"]
      by (simp add: getCachedPublicKey_def unf)
  next
    case (InsertAction r)
    then show ?thesis
      using rel insert_last [OF act(1)] act(2,3) by (simp add: insertAction_def same_rows_def Let_def)
  next
    case (UpdateAction k c)
    then show ?thesis
      using rel act update_in_place [OF act(1), of k _ c] update_absent [of k "actions_store (idb db2)"]
      by (cases "idb_get action_id k (actions_store (idb db2))") (force simp: updateAction_def same_rows_def)+
  next
    case (DeleteActions ss)
    then show ?thesis
      using rel act(2) delete_store' [OF act(1)]
      by (simp add: deleteActionsByStatus_def same_rows_def Let_def splice_out_filter)
  qed (use rel act x in \<open>simp_all add: listActionsByStatus_def countActionsByStatus_def stored_actions_def\<close>)
qed

lemma db_run_agree:
  "db_ok db1 \<Longrightarrow> db_ok db2 \<Longrightarrow> same_rows (mem db1) (idb db2) \<Longrightarrow> \<forall>x \<in> set xs. \<not> about_invites x \<Longrightarrow> db_run False xs db1 = db_run True xs db2"
proof (induction xs arbitrary: db1 db2)
  case (Cons x xs)
  with db_step_agree [OF Cons.prems(1-3), of x] db_step_ok [of db1 False x] db_step_ok [of db2 True x]
  show ?case by (auto simp: split_beta)
qed simp


section \<open>Properties of the storage\<close>

text \<open>The state after a sequence of operations, each on whichever database was available.\<close>

definition db_after :: "(bool \<times> 'p db_op) list \<Rightarrow> 'p offline_db" where
  "db_after xs = fold (\<lambda>(up, x) db. snd (db_step up x db)) xs fresh_db"

lemma db_after_snoc [simp]: "db_after (xs @ [(up, x)]) = snd (db_step up x (db_after xs))"
  by (simp add: db_after_def)

lemma db_after_ok: "db_ok (db_after xs)"
proof (induction xs rule: rev_induct)
  case Nil
  show ?case by (simp add: db_after_def)
next
  case (snoc x xs)
  then show ?case by (cases x) (simp add: db_step_ok)
qed

text \<open>
  C30. The browser database and the in-memory fallback are interchangeable: for every sequence of
  operations that leaves the invites alone, a caller sees the same results from both, values, order
  and generated identifiers included.
\<close>

theorem backends_agree:
  assumes "\<forall>x \<in> set xs. \<not> about_invites x"
  shows "db_run False xs fresh_db = db_run True xs (fresh_db :: 'p offline_db)"
  using assms by (intro db_run_agree) simp_all

theorem backends_agree_witness:
  "db_run False [PutPublicKey 5 ''0xAB'' (Some ''pk'') Stellar, GetPublicKey ''0xab'' Stellar] (fresh_db :: string offline_db) =
     [Nothing, PublicKey (Some ''pk'')]
   \<and> db_run True [PutPublicKey 5 ''0xAB'' (Some ''pk'') Stellar, GetPublicKey ''0xab'' Stellar] (fresh_db :: string offline_db) =
     [Nothing, PublicKey (Some ''pk'')]"
proof -
  let ?xs = "[PutPublicKey 5 ''0xAB'' (Some ''pk'') Stellar, GetPublicKey ''0xab'' Stellar] :: string db_op list"
  have "db_run False ?xs fresh_db = [Nothing, PublicKey (Some ''pk'')]"
    by (simp add: putPublicKey_def getCachedPublicKey_def publicKeyRow_def fresh_db_def empty_memory_def Let_def lower_def entityKey_def char_of_def bit_numeral_rec bit_0)
  then show ?thesis
    using backends_agree [of ?xs] by simp
qed

text \<open>
  Caching vaults: after the vaults of an account were stored, reading them back gives exactly the
  stored ones together with the vaults cached before under other identifiers, in the order of the
  identifiers, and what is cached for every other account or network is unchanged; on either database,
  after any history.
\<close>

theorem putVaults_get:
  assumes a: "a \<noteq> []" and ids: "distinct (map row_id vs)"
  shows "getCachedVaults up a n (putVaults up clock a n vs (db_after xs)) =
      sort_key row_id (stampRows (map lower a) n clock vs @
        filter (\<lambda>r. row_id r \<notin> row_id ` set vs) (getCachedVaults up a n (db_after xs)))
    \<and> (\<forall>b m. (map lower b, m) \<noteq> (map lower a, n) \<longrightarrow>
        getCachedVaults up b m (putVaults up clock a n vs (db_after xs)) = getCachedVaults up b m (db_after xs))"
proof -
  let ?vs = "stampRows (map lower a) n clock vs"
  have ok: "map_ok key well_keyed (memoryVaults (mem (db_after xs)))" "idb_ok key well_keyed (vaults_store (idb (db_after xs)))"
    using db_after_ok [of xs] by (simp_all add: db_ok_def mem_ok_def idx_ok_def)
  have ids': "distinct (map row_id ?vs)" using ids by simp
  show ?thesis
  proof (cases up)
    case True
    then show ?thesis
      using a idbrows.listing_put [OF ok(2) stampRows_valid ids'] idbrows.listing_put_other [OF ok(2) stampRows_valid]
      by (simp add: getCachedVaults_def putVaults_def Let_def inScope_pair del: prod.inject)
  next
    case False
    then show ?thesis
      using a memrows.listing_put [OF ok(1) stampRows_valid ids'] memrows.listing_put_other [OF ok(1) stampRows_valid]
      by (simp add: getCachedVaults_def putVaults_def Let_def inScope_pair del: prod.inject)
  qed
qed


definition sampleVault :: CachedVault where
  "sampleVault = \<lparr>key = [], account = [], network = Avalanche, row_id = 7, cachedAt = 0, creator = ''c'', vault_name = ''v'',
     description = [], guardians = [], approvalThreshold = 1, isActive = True, createdAt = 3\<rparr>"

theorem putVaults_get_witness:
  "getCachedVaults True ''0xA'' Stellar (putVaults True (\<lambda>i. 9) ''0xA'' Stellar [sampleVault]
     (db_after ([] :: (bool \<times> string db_op) list))) = [stampRow ''0xa'' Stellar 9 sampleVault]"
proof -
  have "map lower ''0xA'' = ''0xa''"
    by (simp add: lower_def char_of_def bit_numeral_rec bit_0)
  with putVaults_get [of "''0xA''" "[sampleVault]" True Stellar "\<lambda>i. 9" "[] :: (bool \<times> string db_op) list"] show ?thesis
    by (simp add: stampRows_def getCachedVaults_def db_after_def fresh_db_def empty_indexed_def)
qed

fun is_insert :: "'p db_op \<Rightarrow> bool" where
  "is_insert (InsertAction r) = True"
| "is_insert x = False"

definition next_id :: "bool \<Rightarrow> 'p offline_db \<Rightarrow> nat" where
  "next_id up db = (if up then actions_next (idb db) else memoryActionSeq (mem db))"

lemma next_id_step: "next_id up (snd (db_step u x db)) = next_id up db + (if u = up \<and> is_insert x then 1 else 0)"
  by (cases x) (auto simp: next_id_def putVaults_def putDocuments_def putInvites_def putPublicKey_def insertAction_def
      updateAction_def deleteActionsByStatus_def Let_def split: option.splits)

lemma next_id_after: "next_id up (db_after xs) = 1 + length (filter (\<lambda>(u, x). u = up \<and> is_insert x) xs)"
proof (induction xs rule: rev_induct)
  case Nil
  show ?case by (simp add: db_after_def next_id_def fresh_db_def empty_memory_def empty_indexed_def)
next
  case (snoc x xs)
  then show ?case by (cases x) (simp add: next_id_step)
qed

text \<open>
  Identifiers of queued actions: the identifier an insertion returns is one more than the number of
  insertions made before into that database, whatever was updated or deleted in between, so that no
  identifier is ever used twice.
\<close>

theorem insert_identifier:
  "action_id (fst (insertAction up r (db_after xs))) = 1 + length (filter (\<lambda>(u, x). u = up \<and> is_insert x) xs)"
  using next_id_after [of up xs] by (simp add: insertAction_def next_id_def Let_def split: if_splits)

lemma stampInvites_scope: "\<forall>i \<in> set (stampInvites a n clock is). inviteInScope a n i \<and> i\<lparr>invite_id := None\<rparr> = i"
  by (auto simp: stampInvites_def stampInvite_def inviteInScope_def)

lemma filter_stampInvites: "filter (inviteInScope b m) (stampInvites a n clock is) = (if (a, n) = (b, m) then stampInvites a n clock is else [])"
  using stampInvites_scope [of a n clock "is"] by (auto simp: filter_empty_conv inviteInScope_def intro!: filter_True)

text \<open>
  Replacing the invites of an account: in the database, reading them back gives the stored ones and
  the invites of every other account or network are kept; the in-memory fallback gives the stored ones
  too but drops the invites of every other account and network.
\<close>

theorem putInvites_get:
  assumes a: "a \<noteq> []" and other: "b \<noteq> []" "(map lower b, m) \<noteq> (map lower a, n)"
  shows "map (\<lambda>i. i\<lparr>invite_id := None\<rparr>) (getCachedInvites True a n (putInvites True clock a n is (db_after xs))) =
      stampInvites (map lower a) n clock is
    \<and> getCachedInvites True b m (putInvites True clock a n is (db_after xs)) = getCachedInvites True b m (db_after xs)
    \<and> getCachedInvites False a n (putInvites False clock a n is (db_after xs)) = stampInvites (map lower a) n clock is
    \<and> getCachedInvites False b m (putInvites False clock a n is (db_after xs)) = []"
proof -
  let ?a = "map lower a" and ?st = "stampInvites (map lower a) n clock is"
  note store = putInvites_store [OF db_after_ok a, of clock n "is" xs, THEN conjunct1]
  have num: "filter (inviteInScope c k) (number_from i ?st) = (if (?a, n) = (c, k) then number_from i ?st else [])" for c k i
    using stampInvites_scope by (intro filter_number_from) blast
  have "filter (inviteInScope ?a n) (filter (\<lambda>r. \<not> inviteInScope ?a n r) rs) = []" for rs
    by (simp add: filter_empty_conv)
  then have "getCachedInvites True a n (putInvites True clock a n is (db_after xs)) =
      number_from (invites_next (idb (db_after xs))) ?st"
    unfolding getCachedInvites_def using a store num [of ?a n] by simp
  then have own: "map (\<lambda>i. i\<lparr>invite_id := None\<rparr>) (getCachedInvites True a n (putInvites True clock a n is (db_after xs))) = ?st"
    using stampInvites_scope by (simp add: number_from_plain map_idI)
  have "filter (inviteInScope (map lower b) m) (filter (\<lambda>r. \<not> inviteInScope ?a n r) rs) = filter (inviteInScope (map lower b) m) rs" for rs
    using other(2) by (auto simp: filter_filter inviteInScope_def intro!: filter_cong)
  then have others: "getCachedInvites True b m (putInvites True clock a n is (db_after xs)) = getCachedInvites True b m (db_after xs)"
    unfolding getCachedInvites_def using other store num [of "map lower b" m] by auto
  show ?thesis
    using own others a other by (auto simp: getCachedInvites_def putInvites_def Let_def filter_stampInvites)
qed


definition sampleInvite :: CachedInvite where
  "sampleInvite = \<lparr>invite_id = None, invite_account = [], invite_network = Avalanche, guardian = ''g'', invite_vaultId = 1,
     accepted = False, expiresAt = 50, invite_cachedAt = 0\<rparr>"

theorem putInvites_get_witness:
  "getCachedInvites False ''b'' Stellar (putInvites False (\<lambda>i. 9) ''a'' Stellar []
      (db_after [(False, PutInvites (\<lambda>i. 4) ''b'' Stellar [sampleInvite] :: string db_op)])) = []
   \<and> length (getCachedInvites False ''b'' Stellar (db_after [(False, PutInvites (\<lambda>i. 4) ''b'' Stellar [sampleInvite] :: string db_op)])) = 1"
proof -
  have low: "map lower ''a'' = ''a''" "map lower ''b'' = ''b''"
    by (simp_all add: lower_def)
  have "length (getCachedInvites False ''b'' Stellar (db_after [(False, PutInvites (\<lambda>i. 4) ''b'' Stellar [sampleInvite] :: string db_op)])) = 1"
    by (simp add: db_after_def putInvites_def getCachedInvites_def filter_stampInvites) (simp add: stampInvites_def)
  with putInvites_get [of "''a''" "''b''" Stellar Stellar "\<lambda>i. 9" "[]"
      "[(False, PutInvites (\<lambda>i. 4) ''b'' Stellar [sampleInvite] :: string db_op)]"] low
  show ?thesis by simp
qed

lemma count_fold:
  "n_pending (fold (\<lambda>r. count_status (status r)) rs c) = n_pending c + length (filter (\<lambda>r. status r = Pending) rs)"
  "n_processing (fold (\<lambda>r. count_status (status r)) rs c) = n_processing c + length (filter (\<lambda>r. status r = Processing) rs)"
  "n_synced (fold (\<lambda>r. count_status (status r)) rs c) = n_synced c + length (filter (\<lambda>r. status r = Synced) rs)"
  "n_failed (fold (\<lambda>r. count_status (status r)) rs c) = n_failed c + length (filter (\<lambda>r. status r = Failed) rs)"
proof (induction rs arbitrary: c)
  case (Cons r rs)
  { case 1 then show ?case using Cons(1) by (cases "status r") simp_all
  next case 2 then show ?case using Cons(2) by (cases "status r") simp_all
  next case 3 then show ?case using Cons(3) by (cases "status r") simp_all
  next case 4 then show ?case using Cons(4) by (cases "status r") simp_all }
qed simp_all

lemma filter_status_partition:
  "length (filter (\<lambda>r. status r = Pending) rs) + length (filter (\<lambda>r. status r = Processing) rs)
    + length (filter (\<lambda>r. status r = Synced) rs) + length (filter (\<lambda>r. status r = Failed) rs) = length rs"
proof (induction rs)
  case (Cons r rs)
  then show ?case by (cases "status r") simp_all
qed simp

text \<open>
  Counting and listing agree: for each status the count reported is the length of the listing of
  that status, and the four counts add up to the number of stored actions.
\<close>

theorem counts_match_listings:
  "n_pending (countActionsByStatus up db) = length (listActionsByStatus up [Pending] db)
   \<and> n_processing (countActionsByStatus up db) = length (listActionsByStatus up [Processing] db)
   \<and> n_synced (countActionsByStatus up db) = length (listActionsByStatus up [Synced] db)
   \<and> n_failed (countActionsByStatus up db) = length (listActionsByStatus up [Failed] db)
   \<and> n_pending (countActionsByStatus up db) + n_processing (countActionsByStatus up db)
      + n_synced (countActionsByStatus up db) + n_failed (countActionsByStatus up db) = length (stored_actions up db)"
  using filter_status_partition [of "stored_actions up db"]
  by (simp add: countActionsByStatus_def listActionsByStatus_def count_fold)

end
