(* ===== verification/Offline_Cache.thy ===== *)
theory Offline_Cache
  imports Offline_Db
begin

text \<open>
  Reads that survive the loss of the network, \<^verbatim>\<open>services/offline/offlineCache.service.ts\<close>: the
  classification of errors, the read-through helper, and the typed accessors over the offline storage.

  A thrown value is a text, an object with the two optional message fields the code looks at, or
  something falsy. The calls to the chain are parameters over a state; notifications to listeners are
  returned as a list, since an exception of a listener is swallowed.
\<close>

section \<open>Errors\<close>

datatype thrown =
    Falsy
  | Text string
  | ErrorObject "string option" "string option"

fun falsy :: "thrown \<Rightarrow> bool" where
  "falsy Falsy = True"
| "falsy (Text s) = (s = [])"
| "falsy (ErrorObject m sm) = False"

definition contains :: "string \<Rightarrow> string \<Rightarrow> bool" where
  "contains p s \<longleftrightarrow> (\<exists>i \<in> set [0..<length s + 1]. starts_with p (drop i s))"

definition line_end :: "char \<Rightarrow> bool" where
  "line_end c \<longleftrightarrow> c = CHR 0x0A \<or> c = CHR 0x0D"

text \<open>The pattern \<open>p.*q\<close>: after an occurrence of \<open>p\<close>, one of \<open>q\<close> on the same line.\<close>

definition contains_then :: "string \<Rightarrow> string \<Rightarrow> string \<Rightarrow> bool" where
  "contains_then p q s \<longleftrightarrow>
     (\<exists>i \<in> set [0..<length s + 1]. starts_with p (drop i s) \<and>
        (\<exists>j \<in> set [0..<length s + 1]. (\<forall>c \<in> set (take j (drop (i + length p) s)). \<not> line_end c)
           \<and> starts_with q (drop j (drop (i + length p) s))))"

definition network_patterns :: "string list" where
  "network_patterns = [''failed to fetch'', ''networkerror'', ''network request failed'', ''network error'', ''load failed'',
     ''err_network'', ''err_internet_disconnected'', ''enetunreach'', ''underlying network changed'']"

definition matches_network_pattern :: "string \<Rightarrow> bool" where
  "matches_network_pattern message \<longleftrightarrow>
     (\<exists>p \<in> set network_patterns. contains p (map lower message))
     \<or> contains ''net::'' message
     \<or> contains_then ''websocket connection'' ''failed'' (map lower message)"

definition isOnline :: "bool option \<Rightarrow> bool" where
  "isOnline navigatorOnLine \<longleftrightarrow> navigatorOnLine \<noteq> Some False"

definition opt_str :: "string option \<Rightarrow> string" where
  "opt_str s = (case s of None \<Rightarrow> [] | Some t \<Rightarrow> t)"

definition isNetworkFailure :: "bool option \<Rightarrow> thrown \<Rightarrow> bool" where
  "isNetworkFailure navigatorOnLine error =
     (if \<not> isOnline navigatorOnLine then True
      else if falsy error then False
      else let message = (case error of Text s \<Rightarrow> s | ErrorObject m sm \<Rightarrow> opt_str m @ '' '' @ opt_str sm | Falsy \<Rightarrow> []) in
        if message = [] then False else matches_network_pattern message)"

section \<open>Read-through helper\<close>

datatype fallback_source = Cache | Queue

type_synonym ('s, 'a) call = "'s \<Rightarrow> (thrown + 'a) \<times> 's"

text \<open>
  \<open>emptyArray\<close> recognises an empty array; \<open>readCache\<close> returns \<open>None\<close> for \<^verbatim>\<open>null\<close>. The result is the
  outcome, the state after it and the notifications sent.
\<close>

definition withOfflineFallback ::
  "('a \<Rightarrow> bool) \<Rightarrow> bool option \<Rightarrow> string \<Rightarrow> ('s, 'a) call \<Rightarrow> ('s, 'a option) call \<Rightarrow> ('a \<Rightarrow> ('s, unit) call) \<Rightarrow>
   's \<Rightarrow> (thrown + 'a) \<times> 's \<times> (string \<times> fallback_source) list" where
  "withOfflineFallback emptyArray navigatorOnLine scope fetchLive readCache writeCache s =
     (case fetchLive s of
        (Inr data, s1) \<Rightarrow> (Inr data, snd (writeCache data s1), [])
      | (Inl error, s1) \<Rightarrow>
          if \<not> isNetworkFailure navigatorOnLine error then (Inl error, s1, [])
          else case readCache s1 of
              (Inl e, s2) \<Rightarrow> (Inl error, s2, [])
            | (Inr None, s2) \<Rightarrow> (Inl error, s2, [])
            | (Inr (Some cached), s2) \<Rightarrow>
                if emptyArray cached then (Inl error, s2, []) else (Inr cached, s2, [(scope, Cache)]))"

section \<open>Accessors\<close>

text \<open>
  What a live read returns for a vault: the fields the code copies, each possibly missing.
\<close>

record VaultCacheInput =
  in_id :: nat
  in_creator :: "string option"
  in_name :: "string option"
  in_description :: "string option"
  in_guardians :: "string list option"
  in_approvalThreshold :: "nat option"
  in_isActive :: bool
  in_createdAt :: "nat option"

definition vaultRow :: "VaultCacheInput \<Rightarrow> CachedVault" where
  "vaultRow v = \<lparr>key = [], account = [], network = Avalanche, row_id = in_id v, cachedAt = 0,
     creator = opt_str (in_creator v), vault_name = opt_str (in_name v), description = opt_str (in_description v),
     guardians = (case in_guardians v of None \<Rightarrow> [] | Some gs \<Rightarrow> gs),
     approvalThreshold = (case in_approvalThreshold v of None \<Rightarrow> 0 | Some t \<Rightarrow> t),
     isActive = in_isActive v, createdAt = (case in_createdAt v of None \<Rightarrow> 0 | Some t \<Rightarrow> t)\<rparr>"

definition writeVaultsCache :: "bool \<Rightarrow> (nat \<Rightarrow> nat) \<Rightarrow> string \<Rightarrow> OfflineNetwork \<Rightarrow> VaultCacheInput list \<Rightarrow> 'p offline_db \<Rightarrow> 'p offline_db" where
  "writeVaultsCache up clock acc net vaults db = putVaults up clock acc net (map vaultRow vaults) db"

definition readVaultsCache :: "bool \<Rightarrow> string \<Rightarrow> OfflineNetwork \<Rightarrow> 'p offline_db \<Rightarrow> CachedVault list" where
  "readVaultsCache up acc net db = getCachedVaults up acc net db"

definition writeDocumentsCache :: "bool \<Rightarrow> (nat \<Rightarrow> nat) \<Rightarrow> string \<Rightarrow> OfflineNetwork \<Rightarrow> CachedDocument list \<Rightarrow> 'p offline_db \<Rightarrow> 'p offline_db" where
  "writeDocumentsCache up clock acc net documents db = putDocuments up clock acc net documents db"

definition readDocumentsCache :: "bool \<Rightarrow> string \<Rightarrow> OfflineNetwork \<Rightarrow> 'p offline_db \<Rightarrow> CachedDocument list" where
  "readDocumentsCache up acc net db = getCachedDocuments up acc net db"

definition writeInvitesCache :: "bool \<Rightarrow> (nat \<Rightarrow> nat) \<Rightarrow> string \<Rightarrow> OfflineNetwork \<Rightarrow> CachedInvite list \<Rightarrow> 'p offline_db \<Rightarrow> 'p offline_db" where
  "writeInvitesCache up clock acc net invites db = putInvites up clock acc net invites db"

definition readInvitesCache :: "bool \<Rightarrow> string \<Rightarrow> OfflineNetwork \<Rightarrow> 'p offline_db \<Rightarrow> CachedInvite list" where
  "readInvitesCache up acc net db = getCachedInvites up acc net db"

definition writePublicKeyCache :: "bool \<Rightarrow> nat \<Rightarrow> string \<Rightarrow> string option \<Rightarrow> OfflineNetwork \<Rightarrow> 'p offline_db \<Rightarrow> 'p offline_db" where
  "writePublicKeyCache up now address pk net db = putPublicKey up now address (Some (opt_str pk)) net db"

definition readPublicKeyCache :: "bool \<Rightarrow> string \<Rightarrow> OfflineNetwork \<Rightarrow> 'p offline_db \<Rightarrow> string option" where
  "readPublicKeyCache up address net db = (case getCachedPublicKey up address net db of None \<Rightarrow> None | Some c \<Rightarrow> Some c)"


section \<open>Cached public keys\<close>

lemma entityKey_pair_inject:
  "entityKey [a, network_name n] = entityKey [b, network_name m] \<longleftrightarrow> map lower a = map lower b \<and> n = m"
  using append_last_sep [OF network_name_plain(1) network_name_plain(1), of "map lower a @ '':''" n "map lower b @ '':''" m]
  by (auto simp: entityKey_def network_name_plain)

lemma entityKey_lower: "entityKey [map lower a, b] = entityKey [a, b]"
  by (simp add: entityKey_def)

text \<open>Whether an operation stores a public key for an address on a network.\<close>

fun writes_key :: "string \<Rightarrow> OfflineNetwork \<Rightarrow> 'p db_op \<Rightarrow> bool" where
  "writes_key a n (PutPublicKey t b pk m) = (b \<noteq> [] \<and> map lower b = map lower a \<and> m = n)"
| "writes_key a n x = False"

lemma getCachedPublicKey_put:
  "b \<noteq> [] \<Longrightarrow> map lower a = map lower b \<Longrightarrow> getCachedPublicKey up a n (putPublicKey up t b pk n db) = Some (opt_str pk)"
  by (cases up) (auto simp: getCachedPublicKey_def putPublicKey_def publicKeyRow_def Let_def idb_get_put opt_str_def)

lemma fold_addInvite_keyring: "keyring_store (idb (putInvites up clock a n is db)) = keyring_store (idb db)"
  "memoryKeyring (mem (putInvites up clock a n is db)) = memoryKeyring (mem db)"
  by (simp_all add: putInvites_def Let_def)

lemma getCachedPublicKey_frame:
  assumes "\<not> writes_key a n x"
  shows "getCachedPublicKey up a n (snd (db_step u x db)) = getCachedPublicKey up a n db"
proof -
  have eq: "getCachedPublicKey up a n db' = getCachedPublicKey up a n db"
    if "memoryKeyring (mem db') = memoryKeyring (mem db)" "keyring_store (idb db') = keyring_store (idb db)" for db'
    using that by (simp add: getCachedPublicKey_def Let_def)
  show ?thesis
  proof (cases x)
    case (PutPublicKey t b pk m)
    with assms show ?thesis
      by (auto simp: getCachedPublicKey_def putPublicKey_def publicKeyRow_def Let_def idb_get_put entityKey_lower entityKey_pair_inject)
  next
    case (PutInvites clock b m "is")
    then show ?thesis by (intro eq) (simp_all add: fold_addInvite_keyring)
  qed (rule eq; auto simp: putVaults_def putDocuments_def insertAction_def updateAction_def deleteActionsByStatus_def Let_def
      split: option.splits)+
qed

definition db_ops :: "bool \<Rightarrow> 'p db_op list \<Rightarrow> 'p offline_db \<Rightarrow> 'p offline_db" where
  "db_ops up xs db = fold (\<lambda>x db. snd (db_step up x db)) xs db"

lemma db_ops_key: "\<forall>x \<in> set xs. \<not> writes_key a n x \<Longrightarrow> getCachedPublicKey up a n (db_ops up xs db) = getCachedPublicKey up a n db"
  unfolding db_ops_def by (induction xs arbitrary: db) (simp_all add: getCachedPublicKey_frame)

section \<open>Properties of cached reads\<close>

text \<open>
  The read of a public key through the cache, as the facade \<^verbatim>\<open>contract.service.ts\<close> performs it; \<open>live\<close> is
  the outcome of the call to the chain.
\<close>

definition proxiedGetUserPublicKey :: "bool \<Rightarrow> bool option \<Rightarrow> nat \<Rightarrow> OfflineNetwork \<Rightarrow> string \<Rightarrow> (thrown + string) \<Rightarrow>
    'p offline_db \<Rightarrow> (thrown + string) \<times> 'p offline_db \<times> (string \<times> fallback_source) list" where
  "proxiedGetUserPublicKey up nav now net user live =
     withOfflineFallback (\<lambda>_. False) nav (''publicKey:'' @ user) (\<lambda>db. (live, db))
       (\<lambda>db. (Inr (readPublicKeyCache up user net db), db))
       (\<lambda>pk db. (Inr (), writePublicKeyCache up now user (Some pk) net db))"

text \<open>
  Reading offline: a public key that was read from the chain is what a later read returns when the
  network has failed, for the same address in any letter case on the same network, whatever other
  operations on the storage came in between, as long as none of them stored a key for that address.
\<close>

theorem offline_read_public_key:
  assumes user: "user \<noteq> []" "map lower user' = map lower user"
    and live: "proxiedGetUserPublicKey up nav now net user (Inr pk) db = (Inr pk, db1, notes)"
    and ops: "\<forall>x \<in> set xs. \<not> writes_key user net x"
    and failure: "isNetworkFailure nav' error"
  shows "proxiedGetUserPublicKey up nav' now' net user' (Inl error) (db_ops up xs db1) =
    (Inr pk, db_ops up xs db1, [(''publicKey:'' @ user', Cache)])"
proof -
  have "db1 = putPublicKey up now user (Some pk) net db"
    using live by (auto simp: proxiedGetUserPublicKey_def withOfflineFallback_def writePublicKeyCache_def opt_str_def)
  then have "getCachedPublicKey up user net (db_ops up xs db1) = Some pk"
    using user ops by (simp add: db_ops_key getCachedPublicKey_put opt_str_def)
  moreover have "getCachedPublicKey up user' net d = getCachedPublicKey up user net d" for d :: "'a offline_db"
    using user by (auto simp: getCachedPublicKey_def)
  ultimately have "readPublicKeyCache up user' net (db_ops up xs db1) = Some pk"
    by (simp add: readPublicKeyCache_def)
  with failure show ?thesis
    by (simp add: proxiedGetUserPublicKey_def withOfflineFallback_def)
qed

theorem offline_read_public_key_witness:
  "\<exists>db1 db2. proxiedGetUserPublicKey True (Some True) 5 Stellar ''ab'' (Inr ''pk'') (fresh_db :: string offline_db) = (Inr ''pk'', db1, [])
     \<and> proxiedGetUserPublicKey True (Some False) 6 Stellar ''ab'' (Inl Falsy) (db_ops True [DeleteActions [Synced]] db1) =
        (Inr ''pk'', db2, [(''publicKey:ab'', Cache)])"
proof -
  obtain db1 where live: "proxiedGetUserPublicKey True (Some True) 5 Stellar ''ab'' (Inr ''pk'') (fresh_db :: string offline_db) = (Inr ''pk'', db1, [])"
    by (simp add: proxiedGetUserPublicKey_def withOfflineFallback_def)
  have "isNetworkFailure (Some False) Falsy"
    by (simp add: isNetworkFailure_def isOnline_def)
  with offline_read_public_key [OF _ _ live, of "''ab''" "[DeleteActions [Synced]]" "Some False" Falsy 6] live show ?thesis
    by auto
qed


section \<open>Searching a text step by step\<close>

lemma starts_with_simps [simp]:
  "starts_with [] s" "\<not> starts_with (c # p) []" "starts_with (c # p) (d # s) \<longleftrightarrow> c = d \<and> starts_with p s"
  by (auto simp: starts_with_def)

lemma contains_Nil: "contains (c # p) [] \<longleftrightarrow> False"
  by (simp add: contains_def)

lemma contains_Cons: "contains p (d # s) \<longleftrightarrow> starts_with p (d # s) \<or> contains p s"
proof -
  have "set [0..<length (d # s) + 1] = insert 0 (Suc ` set [0..<length s + 1])"
    unfolding set_upt by (simp only: list.size add_Suc_right add_Suc add_0_right atLeast0_lessThan_Suc_eq_insert_0 One_nat_def)
  then show ?thesis by (simp add: contains_def del: upt_Suc set_upt)
qed

lemma contains_then_contains: "contains_then p q s \<Longrightarrow> contains p s"
  by (auto simp: contains_then_def contains_def)

lemma contains_step: "contains (c # p) (d # s) \<longleftrightarrow> (c = d \<and> starts_with p s) \<or> contains (c # p) s"
  by (simp add: contains_Cons)

lemmas contains_simps = contains_Nil contains_step

end
