(* ===== verification/Offline_Queue.thy ===== *)
theory Offline_Queue
  imports Offline_Cache
begin

text \<open>
  The queue of writes made while offline, \<^verbatim>\<open>services/offline/offlineQueue.service.ts\<close>: enqueueing,
  listing and changing the status of actions over the offline storage, with the state broadcast to
  subscribers after every change, and the registration of a background sync.

  What the code reads from its surroundings (clock, connectivity, the selected ecosystem, the service
  worker) is a record \<open>env\<close>. The argument \<open>up\<close> selects the database as in the storage layer.
\<close>

section \<open>Surroundings\<close>

record worker_env =
  hasServiceWorker :: bool
  workerReady :: bool
  hasSyncManager :: bool
  registerSucceeds :: bool
  hasActiveWorker :: bool

record env =
  date_now :: nat
  navigatorOnLine :: "bool option"
  hasWindow :: bool
  storedEcosystem :: "string option"
  worker_env :: worker_env

section \<open>Payloads\<close>

record CreateVaultPayload =
  cv_name :: string
  cv_description :: string
  cv_guardians :: "string list"
  cv_approvalThreshold :: nat

record CreateDocumentDraftPayload =
  dd_account :: string
  dd_vaultId :: nat
  dd_vaultName :: "string option"
  dd_fileName :: string
  dd_fileSize :: nat
  dd_fileType :: string
  dd_lastModified :: "nat option"
  dd_encryptedMetadata :: string
  dd_encryptedFileBase64 :: string
  dd_encryptedDocKey :: string
  dd_requiredAccess :: nat
  dd_releaseCondition :: "nat option"
  dd_guardiansList :: "string list"
  dd_shares :: "string list option"

record AddDocumentPayload =
  ad_vaultId :: nat
  ad_encryptedMetadata :: string
  ad_ipfsHash :: string
  ad_requiredAccess :: nat
  ad_releaseCondition :: "nat option"
  ad_guardiansList :: "string list option"
  ad_shares :: "string list option"

record RegisterPublicKeyPayload =
  rp_publicKey :: string

record RequestAccessPayload =
  ra_documentId :: nat

datatype ActionPayload =
    CreateVault CreateVaultPayload
  | CreateDocumentDraft CreateDocumentDraftPayload
  | AddDocument AddDocumentPayload
  | RegisterPublicKey RegisterPublicKeyPayload
  | RequestAccess RequestAccessPayload

text \<open>The kind under which each payload is queued.\<close>

fun kind_of :: "ActionPayload \<Rightarrow> string" where
  "kind_of (CreateVault p) = ''create-vault''"
| "kind_of (CreateDocumentDraft p) = ''create-document-draft''"
| "kind_of (AddDocument p) = ''add-document''"
| "kind_of (RegisterPublicKey p) = ''register-public-key''"
| "kind_of (RequestAccess p) = ''request-access''"

section \<open>State\<close>

record QueueState = status_counts +
  online :: bool

datatype worker_event = SyncRegistered string | Posted string

record queue =
  db :: "ActionPayload offline_db"
  lastKnownState :: QueueState
  delivered :: "QueueState list"
  worker_log :: "worker_event list"

definition no_counts :: status_counts where
  "no_counts = \<lparr>n_pending = 0, n_processing = 0, n_synced = 0, n_failed = 0\<rparr>"

definition queueState :: "status_counts \<Rightarrow> bool \<Rightarrow> QueueState" where
  "queueState c on = \<lparr>n_pending = n_pending c, n_processing = n_processing c, n_synced = n_synced c, n_failed = n_failed c, online = on\<rparr>"

definition fresh_queue :: queue where
  "fresh_queue = \<lparr>db = fresh_db, lastKnownState = queueState no_counts True, delivered = [], worker_log = []\<rparr>"

definition SYNC_TAG :: string where
  "SYNC_TAG = ''spoovault-action-sync''"

definition MSG_REGISTER_SYNC :: string where
  "MSG_REGISTER_SYNC = ''spoovault/register-sync''"

section \<open>Operations\<close>

definition getEcosystem :: "env \<Rightarrow> OfflineNetwork" where
  "getEcosystem e = (if \<not> hasWindow e then Avalanche else if storedEcosystem e = Some ''stellar'' then Stellar else Avalanche)"

text \<open>A new subscriber is told the last known state at once.\<close>

definition subscribeToQueue :: "queue \<Rightarrow> queue" where
  "subscribeToQueue q = q\<lparr>delivered := delivered q @ [lastKnownState q]\<rparr>"

definition emitState :: "bool \<Rightarrow> env \<Rightarrow> queue \<Rightarrow> queue" where
  "emitState up e q =
     (let s = queueState (countActionsByStatus up (db q)) (isOnline (navigatorOnLine e))
      in q\<lparr>lastKnownState := s, delivered := delivered q @ [s]\<rparr>)"

definition registerBackgroundSync :: "worker_env \<Rightarrow> bool \<times> worker_event list" where
  "registerBackgroundSync w =
     (if \<not> hasServiceWorker w then (False, [])
      else if \<not> workerReady w then (False, [])
      else if \<not> hasSyncManager w then (False, [])
      else if \<not> registerSucceeds w then (False, [])
      else (True, SyncRegistered SYNC_TAG # (if hasActiveWorker w then [Posted MSG_REGISTER_SYNC] else [])))"

definition upper :: "char \<Rightarrow> char" where
  "upper c = (if 97 \<le> (of_char c :: nat) \<and> (of_char c :: nat) \<le> 122 then char_of ((of_char c :: nat) - 32) else c)"

fun capitalise :: "string \<Rightarrow> string" where
  "capitalise [] = []"
| "capitalise (c # cs) = upper c # cs"

fun join_with :: "string \<Rightarrow> string list \<Rightarrow> string" where
  "join_with sep [] = []"
| "join_with sep [p] = p"
| "join_with sep (p # ps) = p @ sep @ join_with sep ps"

definition defaultLabel :: "string \<Rightarrow> string" where
  "defaultLabel k = join_with '' '' (map capitalise (split_on CHR ''-'' k))"

definition newAction :: "env \<Rightarrow> ActionPayload \<Rightarrow> string option \<Rightarrow> ActionPayload PendingActionRecord" where
  "newAction e p lab = \<lparr>action_id = 0, kind = kind_of p,
     label = (case lab of Some l \<Rightarrow> l | None \<Rightarrow> defaultLabel (kind_of p)),
     payload = p, status = Pending, attempts = 0, queuedAt = date_now e, updatedAt = date_now e,
     lastError = None, action_network = getEcosystem e\<rparr>"

definition enqueueAction :: "bool \<Rightarrow> env \<Rightarrow> ActionPayload \<Rightarrow> string option \<Rightarrow> queue \<Rightarrow> ActionPayload PendingActionRecord \<times> queue" where
  "enqueueAction up e p lab q =
     (case insertAction up (newAction e p lab) (db q) of (record, db') \<Rightarrow>
        let q' = emitState up e (q\<lparr>db := db'\<rparr>)
        in (record, q'\<lparr>worker_log := worker_log q' @ snd (registerBackgroundSync (worker_env e))\<rparr>))"

definition getQueuedActions :: "bool \<Rightarrow> queue \<Rightarrow> ActionPayload PendingActionRecord list" where
  "getQueuedActions up q = listActionsByStatus up [Pending, Processing] (db q)"

definition getFailedActions :: "bool \<Rightarrow> queue \<Rightarrow> ActionPayload PendingActionRecord list" where
  "getFailedActions up q = listActionsByStatus up [Failed] (db q)"

definition getQueueCounts :: "bool \<Rightarrow> env \<Rightarrow> queue \<Rightarrow> QueueState" where
  "getQueueCounts up e q = queueState (countActionsByStatus up (db q)) (isOnline (navigatorOnLine e))"

definition hasPendingActions :: "bool \<Rightarrow> queue \<Rightarrow> bool" where
  "hasPendingActions up q \<longleftrightarrow> length (getQueuedActions up q) > 0"

text \<open>The text stored for an error: its message, else its conversion to a string, cut to 500 characters.\<close>

fun errorText :: "thrown \<Rightarrow> string" where
  "errorText Falsy = []"
| "errorText (Text s) = s"
| "errorText (ErrorObject (Some m) sm) = m"
| "errorText (ErrorObject None sm) = ''[object Object]''"

definition statusChanges :: "env \<Rightarrow> PendingActionStatus \<Rightarrow> thrown option \<Rightarrow> nat option \<Rightarrow> ActionChanges" where
  "statusChanges e st err att = \<lparr>new_status = Some st, new_attempts = att, new_updatedAt = Some (date_now e),
     new_lastError = (case err of None \<Rightarrow> None | Some x \<Rightarrow> if falsy x then None else Some (take 500 (errorText x)))\<rparr>"

definition setActionStatus :: "bool \<Rightarrow> env \<Rightarrow> nat \<Rightarrow> PendingActionStatus \<Rightarrow> thrown option \<Rightarrow> nat option \<Rightarrow> queue \<Rightarrow> queue" where
  "setActionStatus up e aid st err att q =
     emitState up e (q\<lparr>db := updateAction up aid (statusChanges e st err att) (db q)\<rparr>)"

definition refreshQueueState :: "bool \<Rightarrow> env \<Rightarrow> queue \<Rightarrow> queue" where
  "refreshQueueState up e q = emitState up e q"


section \<open>The storage as a log of actions\<close>

text \<open>
  What the queue and the replay rely on: changes by identifier act on one row, an insertion appends a
  row with a new identifier, and nothing else happens to the rows.
\<close>

definition core :: "'p PendingActionRecord \<Rightarrow> nat \<times> string \<times> string \<times> 'p \<times> nat \<times> OfflineNetwork" where
  "core r = (action_id r, kind r, label r, payload r, queuedAt r, action_network r)"

locale action_log =
  fixes rows :: "'s \<Rightarrow> 'p PendingActionRecord list" and ok :: "'s \<Rightarrow> bool"
    and change :: "nat \<Rightarrow> ActionChanges \<Rightarrow> 's \<Rightarrow> 's"
    and append :: "'p PendingActionRecord \<Rightarrow> 's \<Rightarrow> 'p PendingActionRecord \<times> 's"
  assumes ids: "ok s \<Longrightarrow> sorted_wrt (<) (map action_id (rows s))"
    and ok_change: "ok s \<Longrightarrow> ok (change k c s)"
    and ok_append: "ok s \<Longrightarrow> ok (snd (append r s))"
    and rows_change: "ok s \<Longrightarrow> rows (change k c s) = map (\<lambda>r. if action_id r = k then applyChanges c r else r) (rows s)"
    and rows_append: "ok s \<Longrightarrow> rows (snd (append r s)) = rows s @ [fst (append r s)]"
    and append_row: "\<exists>i. fst (append r s) = r\<lparr>action_id := i\<rparr>"
begin

text \<open>
  From \<open>s\<close> to \<open>s'\<close> no row is removed or moved, what identifies a row is never altered, rows outside \<open>I\<close> are
  left as they are, and rows are added only at the end.
\<close>

definition grows :: "nat set \<Rightarrow> 's \<Rightarrow> 's \<Rightarrow> bool" where
  "grows I s s' \<longleftrightarrow> ok s' \<and> (\<exists>f more. rows s' = map f (rows s) @ more \<and> (\<forall>r. core (f r) = core r \<and> (action_id r \<notin> I \<longrightarrow> f r = r)))"

lemma grows_refl: "ok s \<Longrightarrow> grows I s s"
  by (auto simp: grows_def intro!: exI [of _ "\<lambda>r. r"])

lemma grows_trans:
  assumes "grows I s s'" "grows I s' s''"
  shows "grows I s s''"
proof -
  obtain f more where f: "rows s' = map f (rows s) @ more" "\<forall>r. core (f r) = core r \<and> (action_id r \<notin> I \<longrightarrow> f r = r)"
    using assms(1) unfolding grows_def by blast
  obtain g more' where g: "rows s'' = map g (rows s') @ more'" "\<forall>r. core (g r) = core r \<and> (action_id r \<notin> I \<longrightarrow> g r = r)"
    using assms(2) unfolding grows_def by blast
  have "rows s'' = map (g \<circ> f) (rows s) @ (map g more @ more')"
    using f(1) g(1) by simp
  moreover have "\<forall>r. core ((g \<circ> f) r) = core r \<and> (action_id r \<notin> I \<longrightarrow> (g \<circ> f) r = r)"
    using f(2) g(2) by simp
  ultimately show ?thesis
    using assms(2) unfolding grows_def by blast
qed

lemma grows_mono: "grows I s s' \<Longrightarrow> I \<subseteq> J \<Longrightarrow> grows J s s'"
  unfolding grows_def by blast

lemma grows_change: "ok s \<Longrightarrow> k \<in> I \<Longrightarrow> grows I s (change k c s)"
  unfolding grows_def
  by (intro conjI ok_change exI [of _ "\<lambda>r. if action_id r = k then applyChanges c r else r"] exI [of _ "[]"])
    (auto simp: rows_change core_def applyChanges_def)

lemma grows_append: "ok s \<Longrightarrow> grows I s (snd (append r s))"
  unfolding grows_def
  by (intro conjI ok_append exI [of _ "\<lambda>r. r"] exI [of _ "[fst (append r s)]"]) (auto simp: rows_append)

lemma distinct_ids: "ok s \<Longrightarrow> distinct (map action_id (rows s))"
  using ids by (simp add: strict_sorted_iff)

lemma new_id: "ok s \<Longrightarrow> q \<in> set (rows s) \<Longrightarrow> action_id q < action_id (fst (append r s))"
  using ids [OF ok_append [of s r]] by (auto simp: rows_append sorted_wrt_append)

end

lemma stored_update:
  assumes "db_ok d"
  shows "stored_actions up (updateAction up k c d) = map (\<lambda>r. if action_id r = k then applyChanges c r else r) (stored_actions up d)"
proof -
  let ?rs = "stored_actions up d"
  have ok: "actions_ok ?rs (if up then actions_next (idb d) else memoryActionSeq (mem d))"
    using assms by (simp add: stored_actions_def db_ok_def mem_ok_def idx_ok_def)
  have upd: "?rs[i := applyChanges c (?rs ! i)] = map (\<lambda>r. if action_id r = k then applyChanges c r else r) ?rs"
    if i: "i < length ?rs" "action_id (?rs ! i) = k" for i
  proof (rule nth_equalityI)
    have "distinct (map action_id ?rs)"
      using ok by (simp add: actions_ok_def strict_sorted_iff)
    then have "action_id (?rs ! j) = k \<longleftrightarrow> j = i" if "j < length ?rs" for j
      using i that by (auto simp: distinct_conv_nth)
    then show "?rs[i := applyChanges c (?rs ! i)] ! j = map (\<lambda>r. if action_id r = k then applyChanges c r else r) ?rs ! j"
      if "j < length (?rs[i := applyChanges c (?rs ! i)])" for j
      using that i(1) by (simp add: nth_list_update)
  qed simp
  show ?thesis
  proof (cases "find_index (\<lambda>r. action_id r = k) ?rs")
    case None
    then have "\<forall>r \<in> set ?rs. action_id r \<noteq> k"
      using find_index_NoneD [OF None] by blast
    then show ?thesis
      using None update_in_place [OF ok, of k] by (cases up) (auto simp: updateAction_def stored_actions_def split: option.splits intro!: map_idI [symmetric])
  next
    case (Some i)
    then have i: "i < length ?rs" "action_id (?rs ! i) = k"
      using find_index_SomeD [OF Some] by auto
    show ?thesis
      using Some upd [OF i] update_in_place [OF ok, of k "?rs ! i" c]
      by (cases up) (auto simp: updateAction_def stored_actions_def idb_get_find_index)
  qed
qed

interpretation acts: action_log "stored_actions up" db_ok "updateAction up" "insertAction up" for up
proof
  fix s :: "'a offline_db" and k c r
  assume ok: "db_ok s"
  then show "sorted_wrt (<) (map action_id (stored_actions up s))"
    by (auto simp: stored_actions_def db_ok_def mem_ok_def idx_ok_def actions_ok_def)
  show "db_ok (updateAction up k c s)" using ok by (rule updateAction_ok)
  show "db_ok (snd (insertAction up r s))"
    using db_step_ok [OF ok, of up "InsertAction r"] by (simp add: split_beta)
  show "stored_actions up (updateAction up k c s) = map (\<lambda>r. if action_id r = k then applyChanges c r else r) (stored_actions up s)"
    using ok by (rule stored_update)
  show "stored_actions up (snd (insertAction up r s)) = stored_actions up s @ [fst (insertAction up r s)]"
    using ok by (auto simp: insertAction_def stored_actions_def Let_def insert_last db_ok_def idx_ok_def)
qed (auto simp: insertAction_def Let_def)


section \<open>Properties of the queue\<close>

lemma sort_key_snoc:
  assumes "\<forall>y \<in> set xs. f y < f x" "inj_on f (set xs)" "distinct xs"
  shows "sort_key f (xs @ [x]) = sort_key f xs @ [x]"
proof -
  have "sort_key f (xs @ [x]) = sort_key f (sort_key f xs @ [x])"
    using assms by (intro sort_key_unique) (auto simp: inj_on_insert)
  also have "\<dots> = sort_key f xs @ [x]"
    using assms(1) by (intro sort_key_id) (auto simp: sorted_append intro: less_imp_le)
  finally show ?thesis .
qed

lemma inj_on_pos: "db_ok d \<Longrightarrow> inj_on (\<lambda>r. (queuedAt r, action_id r)) (set (stored_actions up d))"
  using acts.distinct_ids [of d up] by (auto simp: distinct_map inj_on_def)

lemma db_emitState [simp]: "db (emitState up e q) = db q"
  by (simp add: emitState_def Let_def)

lemma db_enqueueAction: "db (snd (enqueueAction up e p lab q)) = snd (insertAction up (newAction e p lab) (db q))"
  "fst (enqueueAction up e p lab q) = fst (insertAction up (newAction e p lab) (db q))"
  by (simp_all add: enqueueAction_def Let_def split_beta)

lemma db_setActionStatus: "db (setActionStatus up e k st err att q) = updateAction up k (statusChanges e st err att) (db q)"
  by (simp add: setActionStatus_def)

text \<open>
  First in, first out: a write enqueued at a time not before the queued ones is placed at the end of
  the queue as a pending action that carries its payload under the kind its executor is registered for,
  has not been attempted, and has an identifier no stored action has; the broadcast state is the count of
  what is stored.
\<close>

theorem enqueue_fifo:
  assumes ok: "db_ok (db q)" and time: "\<forall>r \<in> set (getQueuedActions up q). queuedAt r \<le> date_now e"
  shows "getQueuedActions up (snd (enqueueAction up e p lab q)) = getQueuedActions up q @ [fst (enqueueAction up e p lab q)]
    \<and> payload (fst (enqueueAction up e p lab q)) = p \<and> kind (fst (enqueueAction up e p lab q)) = kind_of p
    \<and> status (fst (enqueueAction up e p lab q)) = Pending \<and> attempts (fst (enqueueAction up e p lab q)) = 0
    \<and> action_id (fst (enqueueAction up e p lab q)) \<notin> action_id ` set (stored_actions up (db q))
    \<and> lastKnownState (snd (enqueueAction up e p lab q)) = getQueueCounts up e (snd (enqueueAction up e p lab q))"
proof -
  let ?r = "fst (insertAction up (newAction e p lab) (db q))" and ?rs = "stored_actions up (db q)"
  let ?Q = "\<lambda>r. status r \<in> set [Pending, Processing]" and ?f = "\<lambda>r. (queuedAt r, action_id r)"
  obtain i where i: "?r = (newAction e p lab)\<lparr>action_id := i\<rparr>"
    using acts.append_row by blast
  have new: "\<forall>r \<in> set ?rs. action_id r < action_id ?r"
    using acts.new_id [OF ok] by blast
  have "\<forall>r \<in> set (filter ?Q ?rs). ?f r < ?f ?r"
    using new time i by (auto simp: getQueuedActions_def listActionsByStatus_def newAction_def less_prod_def)
  moreover have "inj_on ?f (set (filter ?Q ?rs))"
    using inj_on_pos [OF ok, of up] by (rule inj_on_subset) auto
  moreover have "distinct (filter ?Q ?rs)"
    using acts.distinct_ids [OF ok, of up] by (simp add: distinct_map)
  ultimately have "sort_key ?f (filter ?Q ?rs @ [?r]) = sort_key ?f (filter ?Q ?rs) @ [?r]"
    by (rule sort_key_snoc)
  moreover have "?Q ?r"
    using i by (simp add: newAction_def)
  ultimately have "getQueuedActions up (snd (enqueueAction up e p lab q)) = getQueuedActions up q @ [?r]"
    by (simp add: getQueuedActions_def listActionsByStatus_def db_enqueueAction acts.rows_append [OF ok])
  with i new show ?thesis
    by (auto simp: db_enqueueAction newAction_def) (simp add: enqueueAction_def getQueueCounts_def emitState_def Let_def split_beta)
qed

definition sampleEnv :: env where
  "sampleEnv = \<lparr>date_now = 100, navigatorOnLine = Some True, hasWindow = True, storedEcosystem = Some ''stellar'',
     worker_env = \<lparr>hasServiceWorker = False, workerReady = False, hasSyncManager = False, registerSucceeds = False, hasActiveWorker = False\<rparr>\<rparr>"

definition oneQueued :: queue where
  "oneQueued = snd (enqueueAction True sampleEnv (RegisterPublicKey \<lparr>rp_publicKey = ''pk''\<rparr>) None fresh_queue)"

lemma oneQueued_ok: "db_ok (db oneQueued)"
  by (simp add: oneQueued_def db_enqueueAction fresh_queue_def acts.ok_append)

lemma oneQueued_rows: "stored_actions True (db oneQueued) =
    [(newAction sampleEnv (RegisterPublicKey \<lparr>rp_publicKey = ''pk''\<rparr>) None)\<lparr>action_id := 1\<rparr>]"
  by (simp add: oneQueued_def db_enqueueAction fresh_queue_def acts.rows_append)
    (simp add: insertAction_def fresh_db_def empty_indexed_def stored_actions_def Let_def)

theorem enqueue_fifo_witness:
  "map payload (getQueuedActions True (snd (enqueueAction True sampleEnv (RequestAccess \<lparr>ra_documentId = 4\<rparr>) None oneQueued))) =
     [RegisterPublicKey \<lparr>rp_publicKey = ''pk''\<rparr>, RequestAccess \<lparr>ra_documentId = 4\<rparr>]"
proof -
  have q: "map payload (getQueuedActions True oneQueued) = [RegisterPublicKey \<lparr>rp_publicKey = ''pk''\<rparr>]"
    "\<forall>r \<in> set (getQueuedActions True oneQueued). queuedAt r \<le> date_now sampleEnv"
    by (simp_all add: getQueuedActions_def listActionsByStatus_def oneQueued_rows newAction_def)
  from enqueue_fifo [OF oneQueued_ok q(2), of "RequestAccess \<lparr>ra_documentId = 4\<rparr>" None] q(1) show ?thesis
    by simp
qed

end
