(* ===== verification/Replay.thy ===== *)
theory Replay
  imports Offline_Queue
begin

text \<open>
  Writes that survive the loss of the network: the facade functions of \<^verbatim>\<open>contract.service.ts\<close> that put a
  failed write into the offline queue, and \<^verbatim>\<open>services/offline/replay.service.ts\<close>, which drains the queue
  through the same facade when connectivity returns.

  The chain, the pinning service, the keyring and the key store are a record of functions over a state
  \<open>'w\<close> of the outside world; \<open>view\<close> reads from it what the modelled code observes (clock, connectivity,
  selected ecosystem).
\<close>

section \<open>The outside world\<close>

record 'w services =
  view :: "'w \<Rightarrow> env"
  hasProvider :: "'w \<Rightarrow> bool"
  live_createVault :: "OfflineNetwork \<Rightarrow> CreateVaultPayload \<Rightarrow> ('w, nat) call"
  live_addDocument :: "OfflineNetwork \<Rightarrow> AddDocumentPayload \<Rightarrow> ('w, nat) call"
  live_requestAccess :: "OfflineNetwork \<Rightarrow> nat \<Rightarrow> ('w, nat) call"
  live_registerPublicKey :: "OfflineNetwork \<Rightarrow> string \<Rightarrow> ('w, unit) call"
  ipfsConfigured :: "'w \<Rightarrow> bool"
  getDecryptedPrivateKey :: "string \<Rightarrow> ('w, string) call"
  decryptWithPrivateKey :: "string \<Rightarrow> string \<Rightarrow> ('w, string) call"
  atob :: "string \<Rightarrow> thrown + string"
  uploadFile :: "string \<Rightarrow> string \<Rightarrow> string \<Rightarrow> ('w, string) call"
  keyStoreSet :: "nat \<Rightarrow> string \<Rightarrow> 'w \<Rightarrow> 'w"

record ReplaySummary =
  attempted :: nat
  synced :: nat
  failed :: nat
  remaining :: nat
  stoppedForOffline :: bool

datatype replay_event =
    ReplayStart nat
  | ActionSynced "ActionPayload PendingActionRecord"
  | ActionFailed "ActionPayload PendingActionRecord" thrown
  | ReplayComplete ReplaySummary

record 'w app =
  queue :: queue
  world :: 'w
  events :: "replay_event list"

type_synonym ('w, 'a) app_call = "('w app, 'a) call"

definition liftCall :: "('w, 'a) call \<Rightarrow> ('w, 'a) app_call" where
  "liftCall f s = (case f (world s) of (r, w) \<Rightarrow> (r, s\<lparr>world := w\<rparr>))"

definition bindA :: "('w, 'a) app_call \<Rightarrow> ('a \<Rightarrow> ('w, 'b) app_call) \<Rightarrow> ('w, 'b) app_call" where
  "bindA m f s = (case m s of (Inl e, s') \<Rightarrow> (Inl e, s') | (Inr a, s') \<Rightarrow> f a s')"

definition throwA :: "string \<Rightarrow> ('w, 'a) app_call" where
  "throwA msg s = (Inl (ErrorObject (Some msg) None), s)"

definition returnA :: "'a \<Rightarrow> ('w, 'a) app_call" where
  "returnA a s = (Inr a, s)"

definition env_of :: "'w services \<Rightarrow> 'w app \<Rightarrow> env" where
  "env_of srv s = view srv (world s)"

section \<open>Writes through the facade\<close>

text \<open>The facade has its own reading of the selected ecosystem, with the other default.\<close>

definition contractEcosystem :: "'w services \<Rightarrow> 'w app \<Rightarrow> OfflineNetwork" where
  "contractEcosystem srv s =
     (if \<not> hasWindow (env_of srv s) then (if hasProvider srv (world s) then Avalanche else Stellar)
      else if storedEcosystem (env_of srv s) = Some ''avalanche'' then Avalanche else Stellar)"

definition em_dash :: string where
  "em_dash = [CHR 0xE2, CHR 0x80, CHR 0x94]"

definition OfflineQueuedError :: "string \<Rightarrow> thrown" where
  "OfflineQueuedError lab = ErrorObject (Some (''You'' @ [CHR 0x27] @ ''re offline '' @ em_dash @ '' '' @ lab @
     '' was saved and will sync automatically when you reconnect.'')) None"

text \<open>The \<^verbatim>\<open>try\<close> block that the four write functions share.\<close>

definition queueOnFailure :: "bool \<Rightarrow> 'w services \<Rightarrow> ('w, 'a) app_call \<Rightarrow> ActionPayload \<Rightarrow> string \<Rightarrow> string \<Rightarrow> ('w, 'a) app_call" where
  "queueOnFailure up srv run p lab what s =
     (case run s of
        (Inr a, s1) \<Rightarrow> (Inr a, s1)
      | (Inl error, s1) \<Rightarrow>
          if isNetworkFailure (navigatorOnLine (env_of srv s1)) error
          then (Inl (OfflineQueuedError what), s1\<lparr>queue := snd (enqueueAction up (env_of srv s1) p (Some lab) (queue s1))\<rparr>)
          else (Inl error, s1))"

definition quoted :: "string \<Rightarrow> string" where
  "quoted s = [CHR 0x22] @ s @ [CHR 0x22]"

definition proxiedCreateVault :: "bool \<Rightarrow> 'w services \<Rightarrow> CreateVaultPayload \<Rightarrow> ('w, nat) app_call" where
  "proxiedCreateVault up srv p = queueOnFailure up srv (\<lambda>s. liftCall (live_createVault srv (contractEcosystem srv s) p) s)
     (CreateVault p) (''Vault '' @ quoted (cv_name p)) (''vault '' @ quoted (cv_name p) @ '' creation'')"

definition proxiedAddDocument :: "bool \<Rightarrow> 'w services \<Rightarrow> AddDocumentPayload \<Rightarrow> ('w, nat) app_call" where
  "proxiedAddDocument up srv p0 =
     (let p = p0\<lparr>ad_releaseCondition := Some (case ad_releaseCondition p0 of None \<Rightarrow> 0 | Some c \<Rightarrow> c)\<rparr>
      in queueOnFailure up srv (\<lambda>s. liftCall (live_addDocument srv (contractEcosystem srv s) p) s)
        (AddDocument p) (''document upload to vault #'' @ js_num (ad_vaultId p)) ''document upload'')"

definition proxiedRequestAccess :: "bool \<Rightarrow> 'w services \<Rightarrow> nat \<Rightarrow> ('w, nat) app_call" where
  "proxiedRequestAccess up srv d = queueOnFailure up srv (\<lambda>s. liftCall (live_requestAccess srv (contractEcosystem srv s) d) s)
     (RequestAccess \<lparr>ra_documentId = d\<rparr>) (''access request for document #'' @ js_num d) ''access request''"

definition proxiedRegisterPublicKey :: "bool \<Rightarrow> 'w services \<Rightarrow> string \<Rightarrow> ('w, unit) app_call" where
  "proxiedRegisterPublicKey up srv pk = queueOnFailure up srv (\<lambda>s. liftCall (live_registerPublicKey srv (contractEcosystem srv s) pk) s)
     (RegisterPublicKey \<lparr>rp_publicKey = pk\<rparr>) ''encryption public key registration'' ''encryption public key registration''"

section \<open>Executors\<close>

definition replayCreateVault :: "bool \<Rightarrow> 'w services \<Rightarrow> CreateVaultPayload \<Rightarrow> ('w, unit) app_call" where
  "replayCreateVault up srv args = bindA (proxiedCreateVault up srv args) (\<lambda>vaultId.
     if vaultId = 0 then throwA ''Vault creation transaction did not return a vault id'' else returnA ())"

definition base64ToFile :: "'w services \<Rightarrow> string \<Rightarrow> string \<Rightarrow> string \<Rightarrow> thrown + string \<times> string \<times> string" where
  "base64ToFile srv base64 fileName fileType =
     (case atob srv base64 of
        Inl e \<Rightarrow> Inl e
      | Inr binary \<Rightarrow> Inr (binary, fileName, if fileType = [] then ''application/octet-stream'' else fileType))"

definition syncDraft :: "bool \<Rightarrow> 'w services \<Rightarrow> CreateDocumentDraftPayload \<Rightarrow> ('w, unit) app_call" where
  "syncDraft up srv draft =
     bindA (liftCall (getDecryptedPrivateKey srv (dd_account draft))) (\<lambda>privateKey.
     bindA (liftCall (decryptWithPrivateKey srv (dd_encryptedDocKey draft) privateKey)) (\<lambda>documentKey.
     bindA (\<lambda>s. (base64ToFile srv (dd_encryptedFileBase64 draft) (dd_fileName draft) (dd_fileType draft), s)) (\<lambda>(bytes, name, type).
     bindA (liftCall (uploadFile srv bytes name type)) (\<lambda>hash.
     bindA (proxiedAddDocument up srv \<lparr>ad_vaultId = dd_vaultId draft, ad_encryptedMetadata = dd_encryptedMetadata draft,
         ad_ipfsHash = hash, ad_requiredAccess = dd_requiredAccess draft,
         ad_releaseCondition = Some (case dd_releaseCondition draft of None \<Rightarrow> 0 | Some c \<Rightarrow> c),
         ad_guardiansList = Some (dd_guardiansList draft), ad_shares = dd_shares draft\<rparr>) (\<lambda>documentId.
     if documentId = 0 then throwA ''Document sync did not return a document id''
     else liftCall (\<lambda>w. (Inr (), keyStoreSet srv documentId documentKey w)))))))"

definition replayCreateDocumentDraft :: "bool \<Rightarrow> 'w services \<Rightarrow> CreateDocumentDraftPayload \<Rightarrow> ('w, unit) app_call" where
  "replayCreateDocumentDraft up srv draft s =
     (if \<not> ipfsConfigured srv (world s) then throwA (''IPFS is not configured '' @ em_dash @ '' cannot sync offline draft'') s
      else syncDraft up srv draft s)"

definition replayAddDocument :: "bool \<Rightarrow> 'w services \<Rightarrow> AddDocumentPayload \<Rightarrow> ('w, unit) app_call" where
  "replayAddDocument up srv args = bindA (proxiedAddDocument up srv args) (\<lambda>documentId.
     if documentId = 0 then throwA ''Document transaction did not return a document id'' else returnA ())"

definition replayRegisterPublicKey :: "bool \<Rightarrow> 'w services \<Rightarrow> RegisterPublicKeyPayload \<Rightarrow> ('w, unit) app_call" where
  "replayRegisterPublicKey up srv args = proxiedRegisterPublicKey up srv (rp_publicKey args)"

definition replayRequestAccess :: "bool \<Rightarrow> 'w services \<Rightarrow> RequestAccessPayload \<Rightarrow> ('w, unit) app_call" where
  "replayRequestAccess up srv args = bindA (proxiedRequestAccess up srv (ra_documentId args)) (\<lambda>requestId.
     if requestId = 0 then throwA ''Access request transaction did not return a request id'' else returnA ())"

text \<open>
  The executor registered for a kind. The types keep kind and payload together; an executor handed a
  payload of another shape, which they exclude, is a type error.
\<close>

definition typeError :: "('w, 'a) app_call" where
  "typeError = throwA ''Invalid payload''"

text \<open>
  The table of executors is an object literal, so that looking up a kind also finds what every object inherits: called as plain functions,
  the constructor and \<^verbatim>\<open>toString\<close> return, and the other members throw.
\<close>

definition inheritedMember :: "string \<Rightarrow> (ActionPayload \<Rightarrow> ('w, unit) app_call) option" where
  "inheritedMember k =
     (if k \<in> set [''constructor'', ''toString''] then Some (\<lambda>p. returnA ())
      else if k \<in> set [''valueOf'', ''toLocaleString'', ''hasOwnProperty'', ''isPrototypeOf'', ''propertyIsEnumerable'',
          ''__defineGetter__'', ''__defineSetter__'', ''__lookupGetter__'', ''__lookupSetter__'']
        then Some (\<lambda>p. throwA ''Cannot convert undefined or null to object'')
      else if k = ''__proto__'' then Some (\<lambda>p. throwA ''executor is not a function'')
      else None)"

definition executors :: "bool \<Rightarrow> 'w services \<Rightarrow> string \<Rightarrow> (ActionPayload \<Rightarrow> ('w, unit) app_call) option" where
  "executors up srv k =
     (if k = ''create-vault'' then Some (\<lambda>p. case p of CreateVault a \<Rightarrow> replayCreateVault up srv a | _ \<Rightarrow> typeError)
      else if k = ''create-document-draft'' then Some (\<lambda>p. case p of CreateDocumentDraft a \<Rightarrow> replayCreateDocumentDraft up srv a | _ \<Rightarrow> typeError)
      else if k = ''add-document'' then Some (\<lambda>p. case p of AddDocument a \<Rightarrow> replayAddDocument up srv a | _ \<Rightarrow> typeError)
      else if k = ''register-public-key'' then Some (\<lambda>p. case p of RegisterPublicKey a \<Rightarrow> replayRegisterPublicKey up srv a | _ \<Rightarrow> typeError)
      else if k = ''request-access'' then Some (\<lambda>p. case p of RequestAccess a \<Rightarrow> replayRequestAccess up srv a | _ \<Rightarrow> typeError)
      else inheritedMember k)"

section \<open>Draining the queue\<close>

definition emit :: "replay_event \<Rightarrow> 'w app \<Rightarrow> 'w app" where
  "emit ev s = s\<lparr>events := events s @ [ev]\<rparr>"

definition markAction :: "bool \<Rightarrow> 'w services \<Rightarrow> nat \<Rightarrow> PendingActionStatus \<Rightarrow> thrown option \<Rightarrow> nat \<Rightarrow> 'w app \<Rightarrow> 'w app" where
  "markAction up srv aid st err att s = s\<lparr>queue := setActionStatus up (env_of srv s) aid st err (Some att) (queue s)\<rparr>"

fun drainRecords :: "bool \<Rightarrow> 'w services \<Rightarrow> ActionPayload PendingActionRecord list \<Rightarrow> ReplaySummary \<Rightarrow> 'w app \<Rightarrow> ReplaySummary \<times> 'w app" where
  "drainRecords up srv [] sm s = (sm, s)"
| "drainRecords up srv (r # rs) sm s =
     (case executors up srv (kind r) of
        None \<Rightarrow>
          let err = ErrorObject (Some (''Unknown action kind: '' @ kind r)) None;
              s1 = emit (ActionFailed r err) (markAction up srv (action_id r) Failed (Some err) (attempts r + 1) s)
          in drainRecords up srv rs (sm\<lparr>failed := failed sm + 1, attempted := attempted sm + 1\<rparr>) s1
      | Some executor \<Rightarrow>
          case executor (payload r) (markAction up srv (action_id r) Processing None (attempts r) s) of
            (Inr _, s2) \<Rightarrow>
              drainRecords up srv rs (sm\<lparr>synced := synced sm + 1, attempted := attempted sm + 1\<rparr>)
                (emit (ActionSynced r) (markAction up srv (action_id r) Synced None (attempts r + 1) s2))
          | (Inl err, s2) \<Rightarrow>
              if isNetworkFailure (navigatorOnLine (env_of srv s2)) err
              then (sm\<lparr>stoppedForOffline := True\<rparr>, markAction up srv (action_id r) Pending (Some err) (attempts r + 1) s2)
              else drainRecords up srv rs (sm\<lparr>failed := failed sm + 1, attempted := attempted sm + 1\<rparr>)
                (emit (ActionFailed r err) (markAction up srv (action_id r) Failed (Some err) (attempts r + 1) s2)))"

definition no_summary :: ReplaySummary where
  "no_summary = \<lparr>attempted = 0, synced = 0, failed = 0, remaining = 0, stoppedForOffline = False\<rparr>"

definition drainQueue :: "bool \<Rightarrow> 'w services \<Rightarrow> 'w app \<Rightarrow> ReplaySummary \<times> 'w app" where
  "drainQueue up srv s =
     (if \<not> isOnline (navigatorOnLine (env_of srv s)) then (no_summary\<lparr>stoppedForOffline := True\<rparr>, s)
      else let pending = listActionsByStatus up [Pending, Processing] (db (queue s)) in
        if length pending = 0 then (no_summary, s)
        else case drainRecords up srv pending no_summary (emit (ReplayStart (length pending)) s) of (sm, s') \<Rightarrow>
          let sm' = sm\<lparr>remaining := length pending - synced sm - failed sm\<rparr>
          in (sm', emit (ReplayComplete sm') s'))"


text \<open>
  Single flight: while a drain is in progress a further request is answered by it. \<open>started\<close> tells
  whether the request started a drain.
\<close>

definition replayPendingActions :: "'h option \<Rightarrow> 'h \<Rightarrow> 'h \<times> 'h option \<times> bool" where
  "replayPendingActions inflight fresh =
     (case inflight of Some d \<Rightarrow> (d, inflight, False) | None \<Rightarrow> (fresh, Some fresh, True))"

definition drainFinished :: "'h option \<Rightarrow> 'h option" where
  "drainFinished inflight = None"

section \<open>Calls only add to the queue\<close>

abbreviation actions :: "bool \<Rightarrow> 'w app \<Rightarrow> ActionPayload PendingActionRecord list" where
  "actions up s \<equiv> stored_actions up (db (queue s))"

abbreviation app_ok :: "'w app \<Rightarrow> bool" where
  "app_ok s \<equiv> db_ok (db (queue s))"

abbreviation app_grows :: "bool \<Rightarrow> nat set \<Rightarrow> 'w app \<Rightarrow> 'w app \<Rightarrow> bool" where
  "app_grows up I s s' \<equiv> acts.grows up I (db (queue s)) (db (queue s'))"

definition safe_call :: "bool \<Rightarrow> ('w, 'a) app_call \<Rightarrow> bool" where
  "safe_call up m \<longleftrightarrow> (\<forall>s. app_ok s \<longrightarrow> app_grows up {} s (snd (m s)))"

lemma grows_ok: "app_grows up I s s' \<Longrightarrow> app_ok s'"
  by (simp add: acts.grows_def)

lemma safe_liftCall [intro]: "safe_call up (liftCall f)"
  by (auto simp: safe_call_def liftCall_def acts.grows_refl split: prod.splits)

lemma safe_pure [intro]: "safe_call up (throwA msg)" "safe_call up (returnA a)" "safe_call up (\<lambda>s. (r, s))" "safe_call up typeError"
  by (simp_all add: safe_call_def throwA_def returnA_def typeError_def acts.grows_refl)

lemma safe_bindA [intro]:
  fixes m :: "('w, 'a) app_call"
  shows "safe_call up m \<Longrightarrow> (\<And>a. safe_call up (f a)) \<Longrightarrow> safe_call up (bindA m f)"
proof -
  assume m: "safe_call up m" and f: "\<And>a. safe_call up (f a)"
  show "safe_call up (bindA m f)"
    unfolding safe_call_def
  proof (intro allI impI)
    fix s :: "'w app"
    assume s: "app_ok s"
    obtain r s' where run: "m s = (r, s')" by fastforce
    have g: "app_grows up {} s s'"
      using m s run unfolding safe_call_def by (metis snd_conv)
    have "app_grows up {} s' (snd (f a s'))" for a
      using f [of a] grows_ok [OF g] unfolding safe_call_def by blast
    then show "app_grows up {} s (snd (bindA m f s))"
      using run g acts.grows_trans [OF g] by (simp add: bindA_def split: sum.splits)
  qed
qed

lemma safe_queueOnFailure [intro]:
  fixes run :: "('w, 'a) app_call"
  shows "safe_call up run \<Longrightarrow> safe_call up (queueOnFailure up srv run p lab what)"
proof -
  assume run: "safe_call up run"
  show "safe_call up (queueOnFailure up srv run p lab what)"
    unfolding safe_call_def
  proof (intro allI impI)
    fix s :: "'w app"
    assume s: "app_ok s"
    obtain r s' where r: "run s = (r, s')" by fastforce
    have g: "app_grows up {} s s'"
      using run s r unfolding safe_call_def by (metis snd_conv)
    have "app_grows up {} s (s'\<lparr>queue := snd (enqueueAction up (env_of srv s') p (Some lab) (queue s'))\<rparr>)"
      using acts.grows_trans [OF g acts.grows_append [OF grows_ok [OF g]]] by (simp add: db_enqueueAction)
    then show "app_grows up {} s (snd (queueOnFailure up srv run p lab what s))"
      using r g by (simp add: queueOnFailure_def split: sum.splits)
  qed
qed

lemma safe_live [intro]: "safe_call up (\<lambda>s. liftCall (f s) s)"
  by (auto simp: safe_call_def liftCall_def acts.grows_refl split: prod.splits)

lemma safe_if [intro]: "safe_call up m \<Longrightarrow> safe_call up m' \<Longrightarrow> safe_call up (\<lambda>s. if P s then m s else m' s)"
  by (simp add: safe_call_def)

lemma safe_proxied [intro]:
  "safe_call up (proxiedCreateVault up srv p)" "safe_call up (proxiedAddDocument up srv q)"
  "safe_call up (proxiedRequestAccess up srv d)" "safe_call up (proxiedRegisterPublicKey up srv pk)"
  unfolding proxiedCreateVault_def proxiedAddDocument_def proxiedRequestAccess_def proxiedRegisterPublicKey_def Let_def
  by (intro safe_queueOnFailure safe_live)+

lemma safe_draft: "safe_call up (replayCreateDocumentDraft up srv d)"
proof -
  have "safe_call up (syncDraft up srv d)"
    unfolding syncDraft_def by (auto split: prod.splits intro!: safe_bindA)
  then have "safe_call up (\<lambda>s. if \<not> ipfsConfigured srv (world s)
      then throwA (''IPFS is not configured '' @ em_dash @ '' cannot sync offline draft'') s else syncDraft up srv d s)"
    by (intro safe_if safe_pure)
  then show ?thesis
    by (simp only: safe_call_def replayCreateDocumentDraft_def)
qed

lemma safe_replay [intro]:
  "safe_call up (replayCreateVault up srv a)" "safe_call up (replayAddDocument up srv b)"
  "safe_call up (replayRegisterPublicKey up srv c)" "safe_call up (replayRequestAccess up srv d)"
  unfolding replayCreateVault_def replayAddDocument_def replayRegisterPublicKey_def replayRequestAccess_def
  by (auto intro!: safe_bindA)

lemma three_cases:
  assumes "(if P then Some a else if Q then Some b else if R then Some c else None) = Some x"
  obtains "x = a" | "x = b" | "x = c"
  using assms by (simp split: if_split_asm)

lemma safe_inherited: "inheritedMember k = Some ex \<Longrightarrow> safe_call up (ex p)"
  unfolding inheritedMember_def by (elim three_cases) (simp_all only: safe_pure)

lemma safe_executor: "executors up srv k = Some ex \<Longrightarrow> safe_call up (ex p)"
  by (cases p) (auto simp: executors_def safe_replay safe_draft safe_pure safe_inherited split: if_splits)

lemma mark_db: "db (queue (markAction up srv k st err att s)) =
    updateAction up k (statusChanges (env_of srv s) st err (Some att)) (db (queue s))"
  by (simp add: markAction_def db_setActionStatus)

lemma queue_emit [simp]: "queue (emit ev s) = queue s" "world (emit ev s) = world s"
  by (simp_all add: emit_def)

lemma grows_mark: "app_ok s \<Longrightarrow> k \<in> I \<Longrightarrow> app_grows up I s (markAction up srv k st err att s)"
  by (simp add: mark_db acts.grows_change)

lemma drainRecords_grows:
  "app_ok s \<Longrightarrow> action_id ` set rs \<subseteq> I \<Longrightarrow> app_grows up I s (snd (drainRecords up srv rs sm s))"
proof (induction up srv rs sm s rule: drainRecords.induct)
  case (1 up srv sm s)
  then show ?case by (simp add: acts.grows_refl)
next
  case (2 up srv r rs sm s)
  have r: "action_id r \<in> I" and rs: "action_id ` set rs \<subseteq> I" using 2(5) by auto
  show ?case
  proof (cases "executors up srv (kind r)")
    case None
    let ?err = "ErrorObject (Some (''Unknown action kind: '' @ kind r)) None"
    let ?s1 = "emit (ActionFailed r ?err) (markAction up srv (action_id r) Failed (Some ?err) (attempts r + 1) s)"
    have g: "app_grows up I s ?s1" using grows_mark [OF 2(4) r] by simp
    from 2(1) [OF None refl refl grows_ok [OF g] rs] None show ?thesis
      using acts.grows_trans [OF g] by (simp add: Let_def)
  next
    case (Some ex)
    let ?s1 = "markAction up srv (action_id r) Processing None (attempts r) s"
    obtain res s2 where run: "ex (payload r) ?s1 = (res, s2)" by fastforce
    have g1: "app_grows up I s ?s1" using 2(4) r by (rule grows_mark)
    have "app_grows up {} ?s1 s2"
      using safe_executor [OF Some, of "payload r"] run grows_ok [OF g1] unfolding safe_call_def by (metis snd_conv)
    then have "app_grows up I ?s1 s2"
      by (rule acts.grows_mono) simp
    then have g2: "app_grows up I s s2" using acts.grows_trans [OF g1] by blast
    have g3: "app_grows up I s (markAction up srv (action_id r) st err a s2)" for st err a
      using acts.grows_trans [OF g2 grows_mark [OF grows_ok [OF g2] r]] .
    show ?thesis
    proof (cases res)
      case (Inr u)
      let ?s3 = "emit (ActionSynced r) (markAction up srv (action_id r) Synced None (attempts r + 1) s2)"
      have "app_grows up I ?s3 (snd (drainRecords up srv rs (sm\<lparr>synced := synced sm + 1, attempted := attempted sm + 1\<rparr>) ?s3))"
        using 2(3) [OF Some run [symmetric] Inr] grows_ok [OF g3] rs by simp
      then show ?thesis
        using Some run Inr acts.grows_trans [OF g3] by simp
    next
      case (Inl err)
      let ?s3 = "emit (ActionFailed r err) (markAction up srv (action_id r) Failed (Some err) (attempts r + 1) s2)"
      have "app_grows up I ?s3 (snd (drainRecords up srv rs (sm\<lparr>failed := failed sm + 1, attempted := attempted sm + 1\<rparr>) ?s3))"
        if "\<not> isNetworkFailure (navigatorOnLine (env_of srv s2)) err"
        using 2(2) [OF Some run [symmetric] Inl that] grows_ok [OF g3] rs by simp
      then show ?thesis
        using Some run Inl g3 acts.grows_trans [OF g3 [of Failed "Some err" "attempts r + 1"]] by simp
    qed
  qed
qed


section \<open>Accounting\<close>

lemma drainRecords_summary:
  assumes "\<not> stoppedForOffline sm" "attempted sm = synced sm + failed sm"
  shows "attempted (fst (drainRecords up srv rs sm s)) = synced (fst (drainRecords up srv rs sm s)) + failed (fst (drainRecords up srv rs sm s))
    \<and> synced (fst (drainRecords up srv rs sm s)) + failed (fst (drainRecords up srv rs sm s)) \<le> synced sm + failed sm + length rs
    \<and> (stoppedForOffline (fst (drainRecords up srv rs sm s)) \<longleftrightarrow>
        synced (fst (drainRecords up srv rs sm s)) + failed (fst (drainRecords up srv rs sm s)) < synced sm + failed sm + length rs)"
  using assms
proof (induction rs arbitrary: sm s)
  case (Cons r rs)
  have IH: "attempted (fst (drainRecords up srv rs sm' s')) = synced (fst (drainRecords up srv rs sm' s')) + failed (fst (drainRecords up srv rs sm' s'))
    \<and> synced (fst (drainRecords up srv rs sm' s')) + failed (fst (drainRecords up srv rs sm' s')) \<le> synced sm + failed sm + Suc (length rs)
    \<and> (stoppedForOffline (fst (drainRecords up srv rs sm' s')) \<longleftrightarrow>
        synced (fst (drainRecords up srv rs sm' s')) + failed (fst (drainRecords up srv rs sm' s')) < synced sm + failed sm + Suc (length rs))"
    if "sm' = sm\<lparr>failed := failed sm + 1, attempted := attempted sm + 1\<rparr> \<or> sm' = sm\<lparr>synced := synced sm + 1, attempted := attempted sm + 1\<rparr>"
    for sm' s'
    using Cons.IH [of sm' s'] Cons.prems that by auto
  show ?case
    using IH Cons.prems by (simp add: Let_def split: option.splits prod.splits sum.splits)
qed simp

section \<open>When everything succeeds\<close>

lemma find_by_key: "r \<in> set rs \<Longrightarrow> inj_on f (set rs) \<Longrightarrow> find (\<lambda>q. f q = f r) rs = Some r"
  by (induction rs) (auto simp: inj_on_def)

definition succeeds :: "'w set \<Rightarrow> ('w, 'a) call \<Rightarrow> ('a \<Rightarrow> bool) \<Rightarrow> bool" where
  "succeeds G f P \<longleftrightarrow> (\<forall>w \<in> G. \<exists>a. \<exists>w' \<in> G. f w = (Inr a, w') \<and> P a)"

definition withCondition :: "AddDocumentPayload \<Rightarrow> AddDocumentPayload" where
  "withCondition p = p\<lparr>ad_releaseCondition := Some (case ad_releaseCondition p of None \<Rightarrow> 0 | Some c \<Rightarrow> c)\<rparr>"

text \<open>The document that a draft becomes once its file is stored under a hash.\<close>

definition draftDocument :: "CreateDocumentDraftPayload \<Rightarrow> string \<Rightarrow> AddDocumentPayload" where
  "draftDocument d hash = \<lparr>ad_vaultId = dd_vaultId d, ad_encryptedMetadata = dd_encryptedMetadata d, ad_ipfsHash = hash,
     ad_requiredAccess = dd_requiredAccess d, ad_releaseCondition = Some (case dd_releaseCondition d of None \<Rightarrow> 0 | Some c \<Rightarrow> c),
     ad_guardiansList = Some (dd_guardiansList d), ad_shares = dd_shares d\<rparr>"

text \<open>
  In the situations \<open>G\<close> of the outside world, the calls that replaying this action makes succeed, return a usable identifier and
  do not leave \<open>G\<close>. For a draft the services are those of the whole chain: the key of the account decrypts the key of the document, the
  stored text is base64, and the file can be uploaded and its document be added.
\<close>

fun payload_ready :: "'w set \<Rightarrow> 'w services \<Rightarrow> ActionPayload \<Rightarrow> bool" where
  "payload_ready G srv (CreateVault a) = (\<forall>net. succeeds G (live_createVault srv net a) (\<lambda>n. n \<noteq> 0))"
| "payload_ready G srv (AddDocument a) = (\<forall>net. succeeds G (live_addDocument srv net (withCondition a)) (\<lambda>n. n \<noteq> 0))"
| "payload_ready G srv (RequestAccess a) = (\<forall>net. succeeds G (live_requestAccess srv net (ra_documentId a)) (\<lambda>n. n \<noteq> 0))"
| "payload_ready G srv (RegisterPublicKey a) = (\<forall>net. succeeds G (live_registerPublicKey srv net (rp_publicKey a)) (\<lambda>_. True))"
| "payload_ready G srv (CreateDocumentDraft d) =
     ((\<forall>w \<in> G. ipfsConfigured srv w)
      \<and> succeeds G (getDecryptedPrivateKey srv (dd_account d)) (\<lambda>k. succeeds G (decryptWithPrivateKey srv (dd_encryptedDocKey d) k) (\<lambda>_. True))
      \<and> (\<exists>bytes. atob srv (dd_encryptedFileBase64 d) = Inr bytes
          \<and> succeeds G (uploadFile srv bytes (dd_fileName d) (if dd_fileType d = [] then ''application/octet-stream'' else dd_fileType d))
              (\<lambda>hash. \<forall>net. succeeds G (live_addDocument srv net (draftDocument d hash)) (\<lambda>n. n \<noteq> 0)))
      \<and> (\<forall>i k. \<forall>w \<in> G. keyStoreSet srv i k w \<in> G))"

definition quiet :: "'w set \<Rightarrow> ('w, 'a) app_call \<Rightarrow> ('a \<Rightarrow> bool) \<Rightarrow> bool" where
  "quiet G m P \<longleftrightarrow> (\<forall>s. world s \<in> G \<longrightarrow> (\<exists>a s'. m s = (Inr a, s') \<and> P a \<and> queue s' = queue s \<and> world s' \<in> G))"

lemma quietI: "(\<And>s. world s \<in> G \<Longrightarrow> \<exists>a s'. m s = (Inr a, s') \<and> P a \<and> queue s' = queue s \<and> world s' \<in> G) \<Longrightarrow> quiet G m P"
  by (simp add: quiet_def)

lemma quietE:
  assumes "quiet G m P" "world s \<in> G"
  obtains a s' where "m s = (Inr a, s')" "P a" "queue s' = queue s" "world s' \<in> G"
  using assms unfolding quiet_def by blast

lemma quiet_live:
  fixes f :: "'w app \<Rightarrow> ('w, 'a) call"
  assumes "\<And>s. succeeds G (f s) P"
  shows "quiet G (\<lambda>s. liftCall (f s) s) P"
proof (rule quietI)
  fix s :: "'w app"
  assume "world s \<in> G"
  then obtain a w' where "f s (world s) = (Inr a, w')" "P a" "w' \<in> G"
    using assms [of s] unfolding succeeds_def by blast
  then show "\<exists>a s'. liftCall (f s) s = (Inr a, s') \<and> P a \<and> queue s' = queue s \<and> world s' \<in> G"
    by (simp add: liftCall_def)
qed

lemma quiet_lift: "succeeds G f P \<Longrightarrow> quiet G (liftCall f) P"
  using quiet_live [of G "\<lambda>s. f" P] by (simp add: quiet_def)

lemma quiet_queueOnFailure:
  fixes run :: "('w, 'a) app_call"
  assumes "quiet G run P"
  shows "quiet G (queueOnFailure up srv run p lab what) P"
proof (rule quietI)
  fix s :: "'w app"
  assume "world s \<in> G"
  then show "\<exists>a s'. queueOnFailure up srv run p lab what s = (Inr a, s') \<and> P a \<and> queue s' = queue s \<and> world s' \<in> G"
    by (rule quietE [OF assms]) (simp add: queueOnFailure_def)
qed

lemma quiet_bind:
  fixes m :: "('w, 'a) app_call"
  assumes m: "quiet G m P" and f: "\<And>a. P a \<Longrightarrow> quiet G (f a) Q"
  shows "quiet G (bindA m f) Q"
proof (rule quietI)
  fix s :: "'w app"
  assume "world s \<in> G"
  then obtain a s' where a: "m s = (Inr a, s')" "P a" "queue s' = queue s" "world s' \<in> G" by (rule quietE [OF m])
  obtain b s'' where b: "f a s' = (Inr b, s'')" "Q b" "queue s'' = queue s'" "world s'' \<in> G" by (rule quietE [OF f [OF a(2)] a(4)])
  from a b show "\<exists>b s''. bindA m f s = (Inr b, s'') \<and> Q b \<and> queue s'' = queue s \<and> world s'' \<in> G"
    by (simp add: bindA_def)
qed

lemma quiet_check: "quiet G m (\<lambda>n. n \<noteq> 0) \<Longrightarrow> quiet G (bindA m (\<lambda>n. if n = 0 then throwA msg else returnA ())) (\<lambda>_. True)"
  by (erule quiet_bind) (simp add: quiet_def returnA_def)

lemma quiet_addDocument:
  "\<forall>net. succeeds G (live_addDocument srv net (withCondition p)) (\<lambda>n. n \<noteq> 0) \<Longrightarrow> quiet G (proxiedAddDocument up srv p) (\<lambda>n. n \<noteq> 0)"
  unfolding proxiedAddDocument_def Let_def withCondition_def by (intro quiet_queueOnFailure quiet_live) blast

lemma quiet_draft:
  assumes "payload_ready G srv (CreateDocumentDraft d)"
  shows "quiet G (replayCreateDocumentDraft up srv d) (\<lambda>_. True)"
proof -
  let ?type = "if dd_fileType d = [] then ''application/octet-stream'' else dd_fileType d"
  let ?decrypts = "\<lambda>k. succeeds G (decryptWithPrivateKey srv (dd_encryptedDocKey d) k) (\<lambda>_. True)"
  let ?added = "\<lambda>hash. \<forall>net. succeeds G (live_addDocument srv net (draftDocument d hash)) (\<lambda>n. n \<noteq> 0)"
  obtain bytes where bytes: "atob srv (dd_encryptedFileBase64 d) = Inr bytes" "succeeds G (uploadFile srv bytes (dd_fileName d) ?type) ?added"
    using assms by auto
  have key: "quiet G (liftCall (getDecryptedPrivateKey srv (dd_account d))) ?decrypts"
    using assms by (intro quiet_lift) simp
  have dec: "quiet G (liftCall (decryptWithPrivateKey srv (dd_encryptedDocKey d) k)) (\<lambda>_. True)" if "?decrypts k" for k
    using that by (rule quiet_lift)
  have data: "quiet G (\<lambda>s. (base64ToFile srv (dd_encryptedFileBase64 d) (dd_fileName d) (dd_fileType d), s)) (\<lambda>r. r = (bytes, dd_fileName d, ?type))"
    using bytes(1) by (simp add: quiet_def base64ToFile_def)
  have doc: "quiet G (proxiedAddDocument up srv (draftDocument d hash)) (\<lambda>n. n \<noteq> 0)" if "?added hash" for hash
    using that by (intro quiet_addDocument) (simp add: withCondition_def draftDocument_def)
  have store: "quiet G (if i = 0 then throwA msg else liftCall (\<lambda>w. (Inr (), keyStoreSet srv i k w))) (\<lambda>_. True)" if "i \<noteq> 0" for i msg k
    using that assms by (simp add: quiet_def liftCall_def)
  have sync: "quiet G (syncDraft up srv d) (\<lambda>_. True)"
    unfolding syncDraft_def draftDocument_def [symmetric]
    by (intro quiet_bind [OF key] quiet_bind [OF dec] quiet_bind [OF data])
      (auto simp only: split_conv intro!: quiet_bind [OF quiet_lift [OF bytes(2)]] quiet_bind [OF doc store])
  have "replayCreateDocumentDraft up srv d s = syncDraft up srv d s" if "world s \<in> G" for s
    using assms that by (simp add: replayCreateDocumentDraft_def)
  with sync show ?thesis by (simp add: quiet_def)
qed

lemma executor_quiet:
  assumes "payload_ready G srv p"
  shows "\<exists>ex. executors up srv (kind_of p) = Some ex \<and> quiet G (ex p) (\<lambda>_. True)"
proof (cases p)
  case (CreateDocumentDraft d)
  with assms show ?thesis by (simp add: executors_def quiet_draft)
qed (use assms in \<open>auto simp: executors_def replayCreateVault_def replayAddDocument_def replayRegisterPublicKey_def replayRequestAccess_def
    proxiedCreateVault_def proxiedRequestAccess_def proxiedRegisterPublicKey_def
    intro!: quiet_check quiet_addDocument quiet_queueOnFailure quiet_live\<close>)

definition progress :: "'p PendingActionRecord \<Rightarrow> nat \<times> PendingActionStatus \<times> nat" where
  "progress r = (action_id r, status r, attempts r)"

lemma rows_mark: "app_ok s \<Longrightarrow> actions up (markAction up srv k st err att s) =
    map (\<lambda>r. if action_id r = k then applyChanges (statusChanges (env_of srv s) st err (Some att)) r else r) (actions up s)"
  by (simp add: mark_db acts.rows_change)

lemma progress_mark: "app_ok s \<Longrightarrow> map progress (actions up (markAction up srv k st err att s)) =
    map (\<lambda>r. if action_id r = k then (k, st, att) else progress r) (actions up s)"
  by (simp add: rows_mark progress_def applyChanges_def statusChanges_def)

lemma progress_map_cong:
  assumes "map progress rs = map (\<lambda>r. if action_id r = k then (k, st, att) else progress r) rs0"
  shows "map (\<lambda>q. if action_id q \<in> I then (action_id q, Synced, f (action_id q)) else progress q) rs =
    map (\<lambda>q. if action_id q \<in> I then (action_id q, Synced, f (action_id q)) else if action_id q = k then (k, st, att) else progress q) rs0"
proof (rule nth_equalityI)
  show len: "length (map (\<lambda>q. if action_id q \<in> I then (action_id q, Synced, f (action_id q)) else progress q) rs) =
      length (map (\<lambda>q. if action_id q \<in> I then (action_id q, Synced, f (action_id q)) else if action_id q = k then (k, st, att) else progress q) rs0)"
    using map_eq_imp_length_eq [OF assms] by simp
  fix i
  assume "i < length (map (\<lambda>q. if action_id q \<in> I then (action_id q, Synced, f (action_id q)) else progress q) rs)"
  then have i: "i < length rs" "i < length rs0" using len by simp_all
  have "progress (rs ! i) = (if action_id (rs0 ! i) = k then (k, st, att) else progress (rs0 ! i))"
    using arg_cong [OF assms, of "\<lambda>xs. xs ! i"] i by simp
  then have "action_id (rs ! i) = action_id (rs0 ! i)" "progress (rs ! i) = (if action_id (rs0 ! i) = k then (k, st, att) else progress (rs0 ! i))"
    by (auto simp: progress_def split: if_splits)
  with i show "map (\<lambda>q. if action_id q \<in> I then (action_id q, Synced, f (action_id q)) else progress q) rs ! i =
      map (\<lambda>q. if action_id q \<in> I then (action_id q, Synced, f (action_id q)) else if action_id q = k then (k, st, att) else progress q) rs0 ! i"
    by simp
qed

lemma world_mark [simp]: "world (markAction up srv k st err att s) = world s"
  by (simp add: markAction_def)

lemma drain_success:
  assumes "\<forall>r \<in> set rs. payload_ready G srv (payload r)" "world s \<in> G" "app_ok s" "\<forall>r \<in> set rs. kind r = kind_of (payload r)" "\<forall>r \<in> set rs. attempts r + 1 = f (action_id r)"
  shows "fst (drainRecords up srv rs sm s) = sm\<lparr>synced := synced sm + length rs, attempted := attempted sm + length rs\<rparr>
    \<and> app_ok (snd (drainRecords up srv rs sm s))
    \<and> map progress (actions up (snd (drainRecords up srv rs sm s))) =
        map (\<lambda>q. if action_id q \<in> action_id ` set rs then (action_id q, Synced, f (action_id q)) else progress q) (actions up s)"
  using assms
proof (induction rs arbitrary: sm s)
  case Nil
  then show ?case by (simp add: progress_def)
next
  case (Cons r rs)
  obtain ex where ex: "executors up srv (kind r) = Some ex" "quiet G (ex (payload r)) (\<lambda>_. True)"
    using executor_quiet [of G srv "payload r" up] Cons.prems(1,4) by auto
  let ?s1 = "markAction up srv (action_id r) Processing None (attempts r) s"
  have "world ?s1 \<in> G" using Cons.prems(2) by simp
  then obtain u s2 where s2: "ex (payload r) ?s1 = (Inr u, s2)" "queue s2 = queue ?s1" "world s2 \<in> G"
    by (rule quietE [OF ex(2)])
  let ?s3 = "emit (ActionSynced r) (markAction up srv (action_id r) Synced None (attempts r + 1) s2)"
  let ?sm = "sm\<lparr>synced := synced sm + 1, attempted := attempted sm + 1\<rparr>"
  have ok1: "app_ok ?s1" using Cons.prems(3) by (simp add: mark_db acts.ok_change)
  then have ok2: "app_ok s2" using s2(2) by simp
  then have ok3: "app_ok ?s3" by (simp add: mark_db acts.ok_change)
  have step: "drainRecords up srv (r # rs) sm s = drainRecords up srv rs ?sm ?s3"
    using ex(1) s2(1) by simp
  have "map progress (actions up ?s3) = map (\<lambda>q. if action_id q = action_id r then (action_id r, Synced, attempts r + 1) else progress q) (actions up s2)"
    using progress_mark [OF ok2] by simp
  also have "\<dots> = map (\<lambda>q. if action_id q = action_id r then (action_id r, Synced, attempts r + 1) else progress q) (actions up s)"
    using s2(2) rows_mark [OF Cons.prems(3)] by simp
  finally have "map progress (actions up ?s3) =
      map (\<lambda>q. if action_id q = action_id r then (action_id r, Synced, attempts r + 1) else progress q) (actions up s)" .
  note rows = progress_map_cong [OF this, of "action_id ` set rs" f]
  have w3: "world ?s3 \<in> G" using s2(3) by simp
  show ?case
    unfolding step using Cons.IH [OF _ w3 ok3, of ?sm] Cons.prems(1,4,5) unfolding rows by (auto intro!: map_cong)
qed


section \<open>Properties of the replay\<close>

lemma drainQueue_grows:
  assumes "app_ok s"
  shows "app_grows up (action_id ` set (getQueuedActions up (queue s))) s (snd (drainQueue up srv s))"
proof -
  let ?p = "listActionsByStatus up [Pending, Processing] (db (queue s))"
  have "app_grows up (action_id ` set ?p) s (snd (drainRecords up srv ?p no_summary (emit (ReplayStart (length ?p)) s)))"
    using drainRecords_grows [of "emit (ReplayStart (length ?p)) s" ?p "action_id ` set ?p" up srv no_summary] assms by simp
  then show ?thesis
    using assms by (simp add: drainQueue_def getQueuedActions_def Let_def acts.grows_refl split_beta)
qed

text \<open>
  C31. A replay loses nothing: whatever the outside world does, every stored action is still there
  afterwards, in its place and with its identifier, kind, payload and time, actions that were already
  settled are unchanged, and new actions appear only behind the old ones.
\<close>

theorem replay_keeps_actions:
  assumes ok: "app_ok s"
  shows "\<exists>f more. actions up (snd (drainQueue up srv s)) = map f (actions up s) @ more
    \<and> (\<forall>r \<in> set (actions up s). core (f r) = core r \<and> (status r \<in> {Synced, Failed} \<longrightarrow> f r = r))
    \<and> app_ok (snd (drainQueue up srv s))"
proof -
  note g = drainQueue_grows [OF ok, of up srv, unfolded acts.grows_def]
  obtain f more where f: "actions up (snd (drainQueue up srv s)) = map f (actions up s) @ more
    \<and> (\<forall>r. core (f r) = core r \<and> (action_id r \<notin> action_id ` set (getQueuedActions up (queue s)) \<longrightarrow> f r = r))"
    using g [THEN conjunct2] by (elim exE)
  have "inj_on action_id (set (actions up s))"
    using acts.distinct_ids [OF ok, of up] by (simp add: distinct_map)
  then have "action_id r \<notin> action_id ` set (getQueuedActions up (queue s))" if "r \<in> set (actions up s)" "status r \<in> {Synced, Failed}" for r
    using that by (subst inj_on_image_mem_iff) (auto simp: getQueuedActions_def listActionsByStatus_def)
  with f [THEN conjunct2] have "\<forall>r \<in> set (actions up s). core (f r) = core r \<and> (status r \<in> {Synced, Failed} \<longrightarrow> f r = r)"
    by simp
  with f [THEN conjunct1] g [THEN conjunct1] show ?thesis by (intro exI conjI)
qed

definition happyServices :: "env services" where
  "happyServices = \<lparr>view = (\<lambda>w. w), hasProvider = (\<lambda>w. True), live_createVault = (\<lambda>net p w. (Inr 1, w)),
     live_addDocument = (\<lambda>net p w. (Inr 1, w)), live_requestAccess = (\<lambda>net d w. (Inr 1, w)),
     live_registerPublicKey = (\<lambda>net pk w. (Inr (), w)), ipfsConfigured = (\<lambda>w. True),
     getDecryptedPrivateKey = (\<lambda>a w. (Inr ''k'', w)), decryptWithPrivateKey = (\<lambda>c k w. (Inr c, w)),
     atob = (\<lambda>t. Inl (ErrorObject (Some ''InvalidCharacterError'') None)), uploadFile = (\<lambda>b n t w. (Inr ''Qm'', w)), keyStoreSet = (\<lambda>i k w. w)\<rparr>"

definition oneQueuedApp :: "env app" where
  "oneQueuedApp = \<lparr>queue = oneQueued, world = sampleEnv, events = []\<rparr>"

lemma happy_ready: "payload_ready UNIV happyServices (RegisterPublicKey p)"
  by (simp add: succeeds_def happyServices_def)

lemma oneQueuedApp_ok: "app_ok oneQueuedApp"
  by (simp add: oneQueuedApp_def oneQueued_ok)

theorem replay_keeps_actions_witness:
  "\<exists>r more. actions True (snd (drainQueue True happyServices oneQueuedApp)) = r # more
     \<and> payload r = RegisterPublicKey \<lparr>rp_publicKey = ''pk''\<rparr> \<and> action_id r = 1"
proof -
  obtain f more where "actions True (snd (drainQueue True happyServices oneQueuedApp)) = map f (actions True oneQueuedApp) @ more"
    "\<forall>r \<in> set (actions True oneQueuedApp). core (f r) = core r"
    using replay_keeps_actions [OF oneQueuedApp_ok, of True happyServices] by blast
  then show ?thesis
    by (simp add: oneQueuedApp_def oneQueued_rows) (simp add: core_def newAction_def)
qed

text \<open>
  The summary of a replay adds up: attempted actions are the synced and the failed ones; while online
  these and the remaining ones are all that were queued, and something remains exactly when the replay
  stopped because the network failed; offline nothing is attempted.
\<close>

theorem replay_summary:
  "attempted (fst (drainQueue up srv s)) = synced (fst (drainQueue up srv s)) + failed (fst (drainQueue up srv s))
   \<and> (if isOnline (navigatorOnLine (env_of srv s))
      then synced (fst (drainQueue up srv s)) + failed (fst (drainQueue up srv s)) + remaining (fst (drainQueue up srv s)) =
          length (getQueuedActions up (queue s))
        \<and> (stoppedForOffline (fst (drainQueue up srv s)) \<longleftrightarrow> 0 < remaining (fst (drainQueue up srv s)))
      else drainQueue up srv s = (no_summary\<lparr>stoppedForOffline := True\<rparr>, s))"
proof -
  let ?p = "listActionsByStatus up [Pending, Processing] (db (queue s))"
  have "\<not> stoppedForOffline no_summary" "attempted no_summary = synced no_summary + failed no_summary" "synced no_summary + failed no_summary = 0"
    by (simp_all add: no_summary_def)
  with drainRecords_summary [of no_summary up srv ?p "emit (ReplayStart (length ?p)) s"] show ?thesis
    by (auto simp: drainQueue_def getQueuedActions_def Let_def split_beta no_summary_def)
qed

text \<open>
  C32. A replay delivers: when online, and when in the situations of the outside world that the calls of the replay do not leave
  those calls succeed and return a usable identifier (for a draft: the key of the account decrypts the key of the document, the stored
  file is base64, and the file can be uploaded and its document be added), one replay synchronises every queued action (each attempted
  once more), leaves the other actions alone, and empties the queue. The kind stored with a queued action is the kind of its payload.
\<close>

theorem replay_delivers:
  assumes ready: "\<forall>r \<in> set (getQueuedActions up (queue s)). payload_ready G srv (payload r)" and inG: "world s \<in> G"
    and ok: "app_ok s" and on: "isOnline (navigatorOnLine (env_of srv s))"
    and kinds: "\<forall>r \<in> set (getQueuedActions up (queue s)). kind r = kind_of (payload r)"
  shows "map progress (actions up (snd (drainQueue up srv s))) =
      map (\<lambda>r. if status r \<in> {Pending, Processing} then (action_id r, Synced, attempts r + 1) else progress r) (actions up s)
    \<and> getQueuedActions up (queue (snd (drainQueue up srv s))) = []
    \<and> synced (fst (drainQueue up srv s)) = length (getQueuedActions up (queue s))
    \<and> failed (fst (drainQueue up srv s)) = 0"
proof -
  let ?p = "listActionsByStatus up [Pending, Processing] (db (queue s))"
  let ?s0 = "emit (ReplayStart (length ?p)) s"
  let ?f = "\<lambda>i. attempts (the (find (\<lambda>r. action_id r = i) (actions up s))) + 1"
  have inj: "inj_on action_id (set (actions up s))"
    using acts.distinct_ids [OF ok, of up] by (simp add: distinct_map)
  have att: "?f (action_id r) = attempts r + 1" if "r \<in> set (actions up s)" for r
    using find_by_key [OF that inj] by simp
  have mem: "action_id r \<in> action_id ` set ?p \<longleftrightarrow> status r \<in> {Pending, Processing}" if "r \<in> set (actions up s)" for r
    using that by (subst inj_on_image_mem_iff [OF inj]) (auto simp: listActionsByStatus_def)
  have main: "fst (drainRecords up srv ?p no_summary ?s0) = no_summary\<lparr>synced := synced no_summary + length ?p, attempted := attempted no_summary + length ?p\<rparr>
    \<and> app_ok (snd (drainRecords up srv ?p no_summary ?s0))
    \<and> map progress (actions up (snd (drainRecords up srv ?p no_summary ?s0))) =
        map (\<lambda>q. if action_id q \<in> action_id ` set ?p then (action_id q, Synced, ?f (action_id q)) else progress q) (actions up ?s0)"
    by (rule drain_success [of _ G]) (use ready inG ok kinds att in \<open>auto simp: getQueuedActions_def listActionsByStatus_def\<close>)
  then have rows: "map progress (actions up (snd (drainRecords up srv ?p no_summary ?s0))) =
      map (\<lambda>r. if status r \<in> {Pending, Processing} then (action_id r, Synced, attempts r + 1) else progress r) (actions up s)"
    using mem att by (auto intro!: map_cong)
  have drained: "actions up (snd (drainQueue up srv s)) = actions up (snd (drainRecords up srv ?p no_summary ?s0))"
    using on by (simp add: drainQueue_def Let_def split_beta)
  have "status r \<notin> {Pending, Processing}" if "r \<in> set (actions up (snd (drainQueue up srv s)))" for r
  proof -
    have "progress r \<in> set (map (\<lambda>r. if status r \<in> {Pending, Processing} then (action_id r, Synced, attempts r + 1) else progress r) (actions up s))"
      using that unfolding drained rows [symmetric] by simp
    then show ?thesis by (auto simp: progress_def split: if_splits)
  qed
  then have "getQueuedActions up (queue (snd (drainQueue up srv s))) = []"
    by (simp add: getQueuedActions_def listActionsByStatus_def filter_empty_conv)
  moreover have "synced (fst (drainQueue up srv s)) = length ?p" "failed (fst (drainQueue up srv s)) = 0"
    using on main by (auto simp: drainQueue_def Let_def split_beta no_summary_def)
  ultimately show ?thesis
    using rows drained by (simp add: getQueuedActions_def)
qed

theorem replay_delivers_witness:
  "map progress (actions True (snd (drainQueue True happyServices oneQueuedApp))) = [(1, Synced, 1)]
   \<and> synced (fst (drainQueue True happyServices oneQueuedApp)) = 1"
proof -
  have "isOnline (navigatorOnLine (env_of happyServices oneQueuedApp))"
    by (simp add: env_of_def happyServices_def oneQueuedApp_def sampleEnv_def isOnline_def)
  moreover have q: "getQueuedActions True (queue oneQueuedApp) =
      [(newAction sampleEnv (RegisterPublicKey \<lparr>rp_publicKey = ''pk''\<rparr>) None)\<lparr>action_id := 1\<rparr>]"
    by (simp add: getQueuedActions_def listActionsByStatus_def oneQueuedApp_def oneQueued_rows newAction_def)
  moreover have "\<forall>r \<in> set (getQueuedActions True (queue oneQueuedApp)). kind r = kind_of (payload r)"
    unfolding q by (simp add: newAction_def)
  moreover have "\<forall>r \<in> set (getQueuedActions True (queue oneQueuedApp)). payload_ready UNIV happyServices (payload r)"
    unfolding q by (simp add: newAction_def happy_ready del: payload_ready.simps)
  ultimately show ?thesis
    using replay_delivers [of True oneQueuedApp UNIV happyServices, OF _ UNIV_I oneQueuedApp_ok]
    by (simp add: oneQueuedApp_def oneQueued_rows) (simp add: newAction_def)
qed


definition key_label :: string where
  "key_label = ''encryption public key registration''"

definition queued_text :: string where
  "queued_text = ''You'' @ [CHR 0x27] @ ''re offline '' @ em_dash @ '' '' @ key_label @
     '' was saved and will sync automatically when you reconnect.''"

lemma queued_text_plain:
  "queued_text @ '' '' = ''You'' @ [CHR 0x27] @ ''re offline '' @ [CHR 0xE2, CHR 0x80, CHR 0x94] @
     '' encryption public key registration was saved and will sync automatically when you reconnect. ''"
  "map lower (queued_text @ '' '') = ''you'' @ [CHR 0x27] @ ''re offline '' @ [CHR 0xE2, CHR 0x80, CHR 0x94] @
     '' encryption public key registration was saved and will sync automatically when you reconnect. ''"
  by (simp_all add: queued_text_def em_dash_def key_label_def lower_def char_of_def bit_numeral_rec bit_0)

lemma queued_text_no_pattern:
  "\<not> contains ''failed to fetch'' (map lower (queued_text @ '' ''))" "\<not> contains ''networkerror'' (map lower (queued_text @ '' ''))"
  "\<not> contains ''network request failed'' (map lower (queued_text @ '' ''))" "\<not> contains ''network error'' (map lower (queued_text @ '' ''))"
  "\<not> contains ''load failed'' (map lower (queued_text @ '' ''))" "\<not> contains ''err_network'' (map lower (queued_text @ '' ''))"
  "\<not> contains ''err_internet_disconnected'' (map lower (queued_text @ '' ''))" "\<not> contains ''enetunreach'' (map lower (queued_text @ '' ''))"
  "\<not> contains ''underlying network changed'' (map lower (queued_text @ '' ''))"
  "\<not> contains ''websocket connection'' (map lower (queued_text @ '' ''))"
  unfolding queued_text_plain(2) by (simp_all add: contains_simps)

lemma queued_text_no_net: "\<not> contains ''net::'' (queued_text @ '' '')"
  unfolding queued_text_plain(1) by (simp add: contains_simps)

lemma queued_error_not_network: "isNetworkFailure nav (OfflineQueuedError key_label) \<longleftrightarrow> \<not> isOnline nav"
proof -
  have "\<not> contains_then ''websocket connection'' ''failed'' (map lower (queued_text @ '' ''))"
    using contains_then_contains queued_text_no_pattern(10) by blast
  then have "\<not> matches_network_pattern (queued_text @ '' '')"
    using queued_text_no_pattern queued_text_no_net unfolding matches_network_pattern_def network_patterns_def list.set ball_simps bex_simps by blast
  moreover have "OfflineQueuedError key_label = ErrorObject (Some queued_text) None"
    by (simp add: OfflineQueuedError_def queued_text_def)
  ultimately show ?thesis
    by (simp add: isNetworkFailure_def opt_str_def)
qed

lemma marked_id:
  assumes "app_ok s" "r \<in> set (actions up s)"
  shows "\<exists>q \<in> set (actions up (markAction up srv (action_id r) st err att s)). action_id q = action_id r"
proof -
  have "map action_id (actions up (markAction up srv (action_id r) st err att s)) = map action_id (actions up s)"
    using assms(1) by (simp add: rows_mark)
  then have "action_id ` set (actions up (markAction up srv (action_id r) st err att s)) = action_id ` set (actions up s)"
    by (simp only: list.set_map [symmetric])
  then have "action_id r \<in> action_id ` set (actions up (markAction up srv (action_id r) st err att s))"
    using assms(2) by (simp only: imageI)
  then show ?thesis unfolding image_iff by (elim bexE) (rule bexI, simp_all)
qed

lemma replay_requeues:
  assumes "\<forall>net. live_registerPublicKey srv net (rp_publicKey p) (world s) = (Inl err, w)" "isNetworkFailure (navigatorOnLine (view srv w)) err"
  shows "replayRegisterPublicKey up srv p s = (Inl (OfflineQueuedError key_label),
    s\<lparr>world := w, queue := snd (enqueueAction up (view srv w) (RegisterPublicKey p) (Some key_label) (queue s))\<rparr>)"
proof -
  have pay: "\<lparr>rp_publicKey = rp_publicKey p\<rparr> = p" by (cases p) simp
  show ?thesis
    using assms by (simp add: pay replayRegisterPublicKey_def proxiedRegisterPublicKey_def queueOnFailure_def liftCall_def env_of_def
        contractEcosystem_def) (simp add: key_label_def)
qed

text \<open>
  A replay that loses the network duplicates the write: the replay calls the facade, which answers a
  network failure by queueing the write again. When the network is reported offline the action is pending
  twice afterwards; when it still counts as online, the action is marked failed although its copy is
  pending.
\<close>

theorem replay_duplicates:
  fixes srv :: "'w services"
  assumes ok: "app_ok s" and on: "isOnline (navigatorOnLine (env_of srv s))"
    and queued: "getQueuedActions up (queue s) = [r]" "kind r = ''register-public-key''" "payload r = RegisterPublicKey p"
    and fails: "\<forall>net. live_registerPublicKey srv net (rp_publicKey p) (world s) = (Inl err, w)"
      "isNetworkFailure (navigatorOnLine (view srv w)) err"
  shows "\<exists>copy. map progress (actions up (snd (drainQueue up srv s))) =
      map (\<lambda>q. if action_id q = action_id r
                then (action_id r, if isOnline (navigatorOnLine (view srv w)) then Failed else Pending, attempts r + 1)
                else progress q) (actions up s) @ [progress copy]
    \<and> copy \<in> set (actions up (snd (drainQueue up srv s)))
    \<and> payload copy = payload r \<and> kind copy = kind r \<and> status copy = Pending \<and> action_id copy \<noteq> action_id r"
proof -
  let ?s0 = "emit (ReplayStart 1) s"
  let ?s1 = "markAction up srv (action_id r) Processing None (attempts r) ?s0"
  let ?e = "view srv w"
  let ?s2 = "?s1\<lparr>world := w, queue := snd (enqueueAction up ?e (RegisterPublicKey p) (Some key_label) (queue ?s1))\<rparr>"
  let ?copy = "fst (enqueueAction up ?e (RegisterPublicKey p) (Some key_label) (queue ?s1))"
  define st where "st = (if isOnline (navigatorOnLine ?e) then Failed else Pending)"
  have ok1: "app_ok ?s1" using ok by (simp add: mark_db acts.ok_change)
  have ok2: "app_ok ?s2" using ok1 by (simp add: db_enqueueAction acts.ok_append)
  have rows2: "actions up ?s2 = actions up ?s1 @ [?copy]"
    using acts.rows_append [OF ok1] by (simp add: db_enqueueAction)
  have "r \<in> set (getQueuedActions up (queue s))" using queued(1) by simp
  then have "r \<in> set (actions up s)" by (simp add: getQueuedActions_def listActionsByStatus_def)
  then obtain q where "q \<in> set (actions up ?s1)" "action_id q = action_id r"
    using marked_id [of ?s0 r up srv Processing None "attempts r"] ok by auto
  then have new: "action_id ?copy \<noteq> action_id r"
    using acts.new_id [OF ok1, of q up "newAction ?e (RegisterPublicKey p) (Some key_label)"] by (simp add: db_enqueueAction)
  have world: "world ?s1 = world s" "env_of srv ?s2 = ?e"
    by (simp_all add: markAction_def env_of_def)
  have "executors up srv (kind r) = Some (\<lambda>q. case q of RegisterPublicKey a \<Rightarrow> replayRegisterPublicKey up srv a | _ \<Rightarrow> typeError)"
    using queued(2) by (simp add: executors_def)
  moreover have "replayRegisterPublicKey up srv p ?s1 = (Inl (OfflineQueuedError key_label), ?s2)"
    using replay_requeues [of srv p ?s1 err w up] fails world(1) by simp
  ultimately have "actions up (snd (drainRecords up srv [r] no_summary ?s0)) =
      actions up (markAction up srv (action_id r) st (Some (OfflineQueuedError key_label)) (attempts r + 1) ?s2)"
    using queued(3) world queued_error_not_network by (simp add: st_def)
  then have rows3: "actions up (snd (drainQueue up srv s)) =
      actions up (markAction up srv (action_id r) st (Some (OfflineQueuedError key_label)) (attempts r + 1) ?s2)"
    using on queued(1) by (simp add: drainQueue_def getQueuedActions_def Let_def split_beta)
  have "map progress (actions up (snd (drainQueue up srv s))) =
      map (\<lambda>q. if action_id q = action_id r then (action_id r, st, attempts r + 1) else progress q) (actions up ?s1) @ [progress ?copy]"
    unfolding rows3 progress_mark [OF ok2] rows2 using new by simp
  also have "map (\<lambda>q. if action_id q = action_id r then (action_id r, st, attempts r + 1) else progress q) (actions up ?s1) =
      map (\<lambda>q. if action_id q = action_id r then (action_id r, st, attempts r + 1) else progress q) (actions up s)"
    using rows_mark [of ?s0 up srv "action_id r" Processing None "attempts r"] ok by simp
  finally have prog: "map progress (actions up (snd (drainQueue up srv s))) =
      map (\<lambda>q. if action_id q = action_id r then (action_id r, st, attempts r + 1) else progress q) (actions up s) @ [progress ?copy]" .
  have "?copy \<in> set (actions up (snd (drainQueue up srv s)))"
    unfolding rows3 rows_mark [OF ok2] rows2 using new by simp
  moreover obtain i where "?copy = (newAction ?e (RegisterPublicKey p) (Some key_label))\<lparr>action_id := i\<rparr>"
    unfolding db_enqueueAction using acts.append_row by blast
  ultimately show ?thesis
    using prog new queued(2,3) by (intro exI [of _ ?copy]) (auto simp: st_def newAction_def)
qed


definition droppingServices :: "env services" where
  "droppingServices = happyServices\<lparr>live_registerPublicKey := (\<lambda>net pk w. (Inl Falsy, w\<lparr>navigatorOnLine := Some False\<rparr>))\<rparr>"

theorem replay_duplicates_witness:
  "\<exists>copy. map progress (actions True (snd (drainQueue True droppingServices oneQueuedApp))) = [(1, Pending, 1), progress copy]
     \<and> payload copy = RegisterPublicKey \<lparr>rp_publicKey = ''pk''\<rparr> \<and> status copy = Pending"
proof -
  let ?r = "(newAction sampleEnv (RegisterPublicKey \<lparr>rp_publicKey = ''pk''\<rparr>) None)\<lparr>action_id := 1\<rparr>"
  let ?w = "sampleEnv\<lparr>navigatorOnLine := Some False\<rparr>"
  have on: "isOnline (navigatorOnLine (env_of droppingServices oneQueuedApp))"
    by (simp add: env_of_def droppingServices_def happyServices_def oneQueuedApp_def sampleEnv_def isOnline_def)
  have q: "getQueuedActions True (queue oneQueuedApp) = [?r]"
    by (simp add: getQueuedActions_def listActionsByStatus_def oneQueuedApp_def oneQueued_rows newAction_def)
  have r: "kind ?r = ''register-public-key''" "payload ?r = RegisterPublicKey \<lparr>rp_publicKey = ''pk''\<rparr>"
    by (simp_all add: newAction_def)
  have f: "\<forall>net. live_registerPublicKey droppingServices net (rp_publicKey \<lparr>rp_publicKey = ''pk''\<rparr>) (world oneQueuedApp) = (Inl Falsy, ?w)"
    "isNetworkFailure (navigatorOnLine (view droppingServices ?w)) Falsy"
    "\<not> isOnline (navigatorOnLine (view droppingServices ?w))"
    by (simp_all add: droppingServices_def happyServices_def oneQueuedApp_def isNetworkFailure_def isOnline_def)
  obtain copy where c: "map progress (actions True (snd (drainQueue True droppingServices oneQueuedApp))) =
      map (\<lambda>q. if action_id q = action_id ?r then (action_id ?r, Pending, attempts ?r + 1) else progress q) (actions True oneQueuedApp) @ [progress copy]"
    "payload copy = payload ?r" "status copy = Pending"
    using replay_duplicates [OF oneQueuedApp_ok on q r f(1,2)] f(3) by auto
  have "actions True oneQueuedApp = [?r]"
    by (simp add: oneQueuedApp_def oneQueued_rows)
  with c show ?thesis
    by (intro exI [of _ copy]) (simp add: newAction_def)
qed


section \<open>One drain at a time\<close>

record flight =
  inflight :: "nat option"
  running :: "nat set"
  answers :: "nat list"

inductive flight_step :: "flight \<Rightarrow> flight \<Rightarrow> bool" where
  request: "h \<notin> running f \<Longrightarrow> replayPendingActions (inflight f) h = (d, fl, started) \<Longrightarrow>
    flight_step f (f\<lparr>inflight := fl, running := (if started then insert h (running f) else running f), answers := answers f @ [d]\<rparr>)"
| finish: "d \<in> running f \<Longrightarrow> flight_step f (f\<lparr>inflight := drainFinished (inflight f), running := running f - {d}\<rparr>)"

inductive_cases flight_stepE: "flight_step f f'"

inductive reachable_flight :: "flight \<Rightarrow> bool" where
  start: "reachable_flight \<lparr>inflight = None, running = {}, answers = []\<rparr>"
| step: "reachable_flight f \<Longrightarrow> flight_step f f' \<Longrightarrow> reachable_flight f'"

lemma flight_inv: "reachable_flight f \<Longrightarrow> running f = set_option (inflight f)"
proof (induction rule: reachable_flight.induct)
  case (step f f')
  from step(2) show ?case
    by (cases rule: flight_step.cases)
      (use step(3) in \<open>auto simp: replayPendingActions_def drainFinished_def split: option.splits\<close>)
qed simp

text \<open>
  Replays never overlap: in every reachable state at most one drain is running, and a request made
  while one is running starts nothing and is answered by the running one.
\<close>

theorem single_flight:
  assumes "reachable_flight f"
  shows "card (running f) \<le> 1
    \<and> (\<forall>d h. d \<in> running f \<longrightarrow> replayPendingActions (inflight f) h = (d, inflight f, False))"
  using flight_inv [OF assms] by (cases "inflight f") (auto simp: replayPendingActions_def)

theorem single_flight_witness:
  "reachable_flight \<lparr>inflight = Some 7, running = {7}, answers = [7, 7]\<rparr>
   \<and> replayPendingActions (Some 7) (9 :: nat) = (7, Some 7, False)"
proof -
  have "reachable_flight \<lparr>inflight = Some 7, running = {7}, answers = [7]\<rparr>"
    using reachable_flight.step [OF reachable_flight.start flight_step.request [of 7 _ 7 "Some 7" True]]
    by (simp add: replayPendingActions_def)
  from reachable_flight.step [OF this flight_step.request [of 8 _ 7 "Some 7" False]]
  have r: "reachable_flight \<lparr>inflight = Some 7, running = {7}, answers = [7, 7]\<rparr>"
    by (simp add: replayPendingActions_def)
  with single_flight [OF r] show ?thesis by simp
qed

end
