(* ===== verification/TTL_Cache.thy ===== *)
theory TTL_Cache
  imports Keyed_Store
begin

text \<open>
  The time-limited cache of read-only calls, \<^verbatim>\<open>utils/ttlCache.ts\<close>. A call of \<open>fetch\<close> answers from the
  cache, joins the request in flight for the key, or starts one; requests settle later, in any order and
  interleaved with other calls. A request is a number; \<open>keyOf\<close> and \<open>open_requests\<close> say which key a request was
  started for and which requests have not settled. Times are those returned by \<^verbatim>\<open>Date.now()\<close>.
\<close>

section \<open>The cache\<close>

record 'a CacheEntry =
  data :: 'a
  timestamp :: int

record 'a TTLCache =
  cache :: "string \<rightharpoonup> 'a CacheEntry"
  pending :: "string \<rightharpoonup> nat"
  ttlMs :: int
  keyOf :: "nat \<rightharpoonup> string"
  open_requests :: "nat set"
  started :: nat

definition newTTLCache :: "int \<Rightarrow> 'a TTLCache" where
  "newTTLCache ttlMsOrSeconds = \<lparr>cache = Map.empty, pending = Map.empty,
     ttlMs = (if ttlMsOrSeconds \<le> 1000 then ttlMsOrSeconds * 1000 else ttlMsOrSeconds),
     keyOf = Map.empty, open_requests = {}, started = 0\<rparr>"

datatype 'a answer = Hit 'a | Joined nat | Started nat

definition freshEntry :: "int \<Rightarrow> string \<Rightarrow> 'a TTLCache \<Rightarrow> 'a option" where
  "freshEntry now key s = (case cache s key of None \<Rightarrow> None | Some entry \<Rightarrow>
     if now - timestamp entry < ttlMs s then Some (data entry) else None)"

definition startRequest :: "string \<Rightarrow> 'a TTLCache \<Rightarrow> 'a TTLCache" where
  "startRequest key s = s\<lparr>pending := (pending s)(key \<mapsto> started s), keyOf := (keyOf s)(started s \<mapsto> key),
     open_requests := insert (started s) (open_requests s), started := started s + 1\<rparr>"

definition fetch :: "int \<Rightarrow> string \<Rightarrow> 'a TTLCache \<Rightarrow> 'a answer \<times> 'a TTLCache" where
  "fetch now key s =
     (case freshEntry now key s of
        Some d \<Rightarrow> (Hit d, s)
      | None \<Rightarrow> (case pending s key of Some p \<Rightarrow> (Joined p, s) | None \<Rightarrow> (Started (started s), startRequest key s)))"

definition getOrFetch :: "int \<Rightarrow> string \<Rightarrow> 'a TTLCache \<Rightarrow> 'a answer \<times> 'a TTLCache" where
  "getOrFetch = fetch"

text \<open>The handlers attached to a request: on success the entry is stored, and in any case the pending entry of its key is dropped.\<close>

definition requestFulfilled :: "int \<Rightarrow> nat \<Rightarrow> 'a \<Rightarrow> 'a TTLCache \<Rightarrow> 'a TTLCache" where
  "requestFulfilled now p d s =
     (if p \<notin> open_requests s then s
      else case keyOf s p of None \<Rightarrow> s | Some key \<Rightarrow>
        s\<lparr>cache := (cache s)(key \<mapsto> \<lparr>data = d, timestamp = now\<rparr>), pending := (pending s)(key := None),
          open_requests := open_requests s - {p}\<rparr>)"

definition requestRejected :: "nat \<Rightarrow> 'a TTLCache \<Rightarrow> 'a TTLCache" where
  "requestRejected p s =
     (if p \<notin> open_requests s then s
      else case keyOf s p of None \<Rightarrow> s | Some key \<Rightarrow>
        s\<lparr>pending := (pending s)(key := None), open_requests := open_requests s - {p}\<rparr>)"

text \<open>The test \<^verbatim>\<open>if (key)\<close> also takes the empty text for an absent key.\<close>

definition clear :: "string option \<Rightarrow> 'a TTLCache \<Rightarrow> 'a TTLCache" where
  "clear key s =
     (if key \<noteq> None \<and> key \<noteq> Some [] then s\<lparr>cache := (cache s)(the key := None), pending := (pending s)(the key := None)\<rparr>
      else s\<lparr>cache := Map.empty, pending := Map.empty\<rparr>)"

definition invalidate :: "string \<Rightarrow> 'a TTLCache \<Rightarrow> 'a TTLCache" where
  "invalidate key s = clear (Some key) s"

definition hasValidKey :: "int \<Rightarrow> string \<Rightarrow> 'a TTLCache \<Rightarrow> bool" where
  "hasValidKey now key s = (case cache s key of None \<Rightarrow> False | Some entry \<Rightarrow> now - timestamp entry < ttlMs s)"

definition readViewCache :: "'a TTLCache" where
  "readViewCache = newTTLCache 10"

section \<open>Histories\<close>

datatype 'a cache_event =
    Fetched int string
  | Fulfilled int nat 'a
  | Rejected nat
  | Cleared "string option"

fun happens :: "'a cache_event \<Rightarrow> 'a TTLCache \<Rightarrow> 'a TTLCache" where
  "happens (Fetched now key) s = snd (fetch now key s)"
| "happens (Fulfilled now p d) s = requestFulfilled now p d s"
| "happens (Rejected p) s = requestRejected p s"
| "happens (Cleared key) s = clear key s"

definition history :: "int \<Rightarrow> 'a cache_event list \<Rightarrow> 'a TTLCache" where
  "history ttl evs = fold happens evs (newTTLCache ttl)"

lemma history_snoc [simp]: "history ttl (evs @ [e]) = happens e (history ttl evs)"
  by (simp add: history_def)

lemma history_Nil [simp]: "history ttl [] = newTTLCache ttl"
  by (simp add: history_def)

lemmas cache_ops = fetch_def freshEntry_def startRequest_def requestFulfilled_def requestRejected_def clear_def newTTLCache_def

lemma ttlMs_history: "ttlMs (history ttl evs) = (if ttl \<le> 1000 then ttl * 1000 else ttl)"
proof (induction evs rule: rev_induct)
  case (snoc e evs)
  then show ?case by (cases e) (auto simp: cache_ops split: option.splits)
qed (simp add: newTTLCache_def)

text \<open>The requests that were started are numbered from zero; a request keeps the key it was started for.\<close>

definition requests_ok :: "'a TTLCache \<Rightarrow> bool" where
  "requests_ok s \<longleftrightarrow> dom (keyOf s) = {..<started s} \<and> open_requests s \<subseteq> {..<started s}
     \<and> (\<forall>k p. pending s k = Some p \<longrightarrow> p \<in> open_requests s \<and> keyOf s p = Some k)"

lemma requests_ok_step: "requests_ok s \<Longrightarrow> requests_ok (happens e s)"
  by (cases e) (auto simp: requests_ok_def cache_ops lessThan_Suc split: option.splits if_splits)


lemma requests_ok_history: "requests_ok (history ttl evs)"
proof (induction evs rule: rev_induct)
  case (snoc e evs)
  then show ?case by (simp add: requests_ok_step)
qed (simp add: requests_ok_def newTTLCache_def)

lemma keyOf_step: "requests_ok s \<Longrightarrow> keyOf s p = Some k \<Longrightarrow> keyOf (happens e s) p = Some k"
  by (cases e) (auto simp: requests_ok_def cache_ops split: option.splits)

section \<open>Properties of the cache\<close>

lemma entries_from_requests:
  "cache (history ttl evs) k = Some en \<Longrightarrow> \<exists>p. Fulfilled (timestamp en) p (data en) \<in> set evs \<and> keyOf (history ttl evs) p = Some k"
proof (induction evs arbitrary: k en rule: rev_induct)
  case (snoc e evs)
  let ?s = "history ttl evs"
  have keep: "\<exists>p. Fulfilled (timestamp en) p (data en) \<in> set (evs @ [e]) \<and> keyOf (happens e ?s) p = Some k" if "cache ?s k = Some en"
    using snoc.IH [OF that] keyOf_step [OF requests_ok_history] by fastforce
  show ?case
  proof (cases "cache ?s k = Some en")
    case True
    then show ?thesis using keep by simp
  next
    case False
    with snoc.prems obtain t p d where e: "e = Fulfilled t p d" "keyOf ?s p = Some k" "en = \<lparr>data = d, timestamp = t\<rparr>"
      by (cases e) (auto simp: cache_ops split: option.splits if_splits)
    then show ?thesis
      using keyOf_step [OF requests_ok_history e(2), of e] by (intro exI [of _ p]) simp
  qed
qed (simp add: newTTLCache_def)

text \<open>
  C33. Bounded staleness: a value answered from the cache is the result of a request that was made for the
  same key and was stored less than the time to live before the call, whatever calls, completions, failures
  and invalidations happened in between.
\<close>

theorem hit_is_fresh:
  assumes "fst (fetch now k (history ttl evs)) = Hit d"
  shows "\<exists>t p. Fulfilled t p d \<in> set evs \<and> keyOf (history ttl evs) p = Some k
    \<and> now - t < (if ttl \<le> 1000 then ttl * 1000 else ttl)"
proof -
  obtain en where "cache (history ttl evs) k = Some en" "now - timestamp en < ttlMs (history ttl evs)" "d = data en"
    using assms by (auto simp: fetch_def freshEntry_def split: option.splits if_splits)
  moreover from this obtain p where "Fulfilled (timestamp en) p (data en) \<in> set evs" "keyOf (history ttl evs) p = Some k"
    using entries_from_requests by blast
  ultimately show ?thesis
    by (intro exI [of _ "timestamp en"] exI [of _ p]) (simp add: ttlMs_history)
qed

theorem hit_is_fresh_witness:
  "fst (fetch 1500 ''v'' (history 2 [Fetched 1000 ''v'', Fulfilled 1200 0 (42 :: nat)])) = Hit 42
   \<and> (\<exists>t p. Fulfilled t p 42 \<in> set [Fetched 1000 ''v'', Fulfilled 1200 0 (42 :: nat)] \<and> 1500 - t < 2000)"
proof -
  have h: "fst (fetch 1500 ''v'' (history 2 [Fetched 1000 ''v'', Fulfilled 1200 0 (42 :: nat)])) = Hit 42"
    by (simp add: history_def cache_ops)
  from hit_is_fresh [OF h] h show ?thesis by auto
qed

lemma open_is_pending:
  "\<forall>key. Cleared key \<notin> set evs \<Longrightarrow> p \<in> open_requests (history ttl evs) \<Longrightarrow>
     \<exists>k. keyOf (history ttl evs) p = Some k \<and> pending (history ttl evs) k = Some p"
proof (induction evs arbitrary: p rule: rev_induct)
  case (snoc e evs)
  let ?s = "history ttl evs"
  have IH: "\<exists>k. keyOf ?s q = Some k \<and> pending ?s k = Some q" if "q \<in> open_requests ?s" for q
    using snoc.IH [OF _ that] snoc.prems(1) by simp
  have ok: "open_requests ?s \<subseteq> {..<started ?s}" "dom (keyOf ?s) = {..<started ?s}"
    using requests_ok_history [of ttl evs] by (auto simp: requests_ok_def)
  have settle: "\<exists>k. keyOf ?s p = Some k \<and> (case keyOf ?s q of Some k' \<Rightarrow> (pending ?s)(k' := None) | None \<Rightarrow> pending ?s) k = Some p"
    if "p \<in> open_requests ?s" "q \<in> open_requests ?s" "p \<noteq> q" for q
    using IH [OF that(1)] IH [OF that(2)] that(3) by (elim exE conjE) auto
  show ?case
  proof (cases e)
    case (Fetched now k)
    then show ?thesis
      using snoc.prems(2) IH [of p] ok
      by (cases "happens e ?s = ?s") (auto simp: fetch_def startRequest_def split: option.splits, metis option.distinct(1))
  next
    case (Fulfilled now q d)
    with snoc.prems(2) have p: "p \<in> open_requests ?s" by (auto simp: requestFulfilled_def split: option.splits if_splits)
    show ?thesis using settle [OF p, of q] IH [OF p] Fulfilled snoc.prems(2)
      by (cases "keyOf ?s q"; cases "q \<in> open_requests ?s"; cases "p = q") (simp_all add: requestFulfilled_def)
  next
    case (Rejected q)
    with snoc.prems(2) have p: "p \<in> open_requests ?s" by (auto simp: requestRejected_def split: option.splits if_splits)
    show ?thesis using settle [OF p, of q] IH [OF p] Rejected snoc.prems(2)
      by (cases "keyOf ?s q"; cases "q \<in> open_requests ?s"; cases "p = q") (simp_all add: requestRejected_def)
  qed (use snoc.prems(1) in auto)
qed (simp add: newTTLCache_def)

text \<open>
  Requests are shared: as long as nothing is cleared, at most one request is in flight for a key, so
  that concurrent callers share it.
\<close>

theorem one_request_per_key:
  assumes "\<forall>key. Cleared key \<notin> set evs"
    and "p \<in> open_requests (history ttl evs)" "q \<in> open_requests (history ttl evs)"
    and "keyOf (history ttl evs) p = keyOf (history ttl evs) q"
  shows "p = q"
  using open_is_pending [OF assms(1,2)] open_is_pending [OF assms(1,3)] assms(4) by auto

theorem one_request_per_key_witness:
  "\<exists>p. open_requests (history 2 [Fetched 1 ''v'', Fetched 5 ''v'' :: nat cache_event]) = {p}"
proof -
  have o: "0 \<in> open_requests (history 2 [Fetched 1 ''v'', Fetched 5 ''v'' :: nat cache_event])"
    by (simp add: history_def cache_ops)
  have k: "keyOf (history 2 [Fetched 1 ''v'', Fetched 5 ''v'' :: nat cache_event]) q = Some ''v''"
      if "q \<in> open_requests (history 2 [Fetched 1 ''v'', Fetched 5 ''v'' :: nat cache_event])" for q
    using that by (auto simp: history_def cache_ops)
  have "q = 0" if "q \<in> open_requests (history 2 [Fetched 1 ''v'', Fetched 5 ''v'' :: nat cache_event])" for q
    using one_request_per_key [of "[Fetched 1 ''v'', Fetched 5 ''v'' :: nat cache_event]" q 2 0] that o k [OF that] k [OF o] by simp
  with o show ?thesis by blast
qed

text \<open>
  An invalidation does not reach requests in flight: when a request for a key was in flight as the key
  was invalidated, its result is stored when it arrives and answers the calls made after the invalidation.
\<close>

theorem invalidation_misses_flight:
  assumes "p \<in> open_requests s" "keyOf s p = Some k" "0 \<le> later" "later < ttlMs s"
  shows "fst (fetch (now + later) k (requestFulfilled now p old (invalidate k s))) = Hit old"
  using assms by (auto simp: fetch_def freshEntry_def requestFulfilled_def invalidate_def clear_def)

theorem invalidation_misses_flight_witness:
  "fst (fetch 1300 ''v'' (requestFulfilled 1200 0 (42 :: nat) (invalidate ''v'' (history 2 [Fetched 1000 ''v''])))) = Hit 42"
proof -
  have "0 \<in> open_requests (history 2 [Fetched 1000 ''v'' :: nat cache_event])"
    "keyOf (history 2 [Fetched 1000 ''v'' :: nat cache_event]) 0 = Some ''v''"
    "(100 :: int) < ttlMs (history 2 [Fetched 1000 ''v'' :: nat cache_event])"
    by (simp_all add: history_def cache_ops)
  from invalidation_misses_flight [OF this(1,2) _ this(3), of 1200 42] show ?thesis by simp
qed

end
