(* ===== verification/Proxy_Guard.thy ===== *)
theory Proxy_Guard
  imports Complex_Main "HOL-Library.Word" Offline_Cache
begin

unbundle bit_operations_syntax

text \<open>
  Authentication of the requests to the pinning proxy, \<^verbatim>\<open>scripts/lib/ipfsProxyGuard.mjs\<close>: the client signs
  the time, the method, the path and the hash of the body; the proxy recomputes the tag and compares.

  The digest and the keyed hash of the platform's cryptography, and the conversions between texts and floating
  point numbers, are the parameters of the record \<open>platform\<close>: \<open>numOf\<close> is \<^verbatim>\<open>Number(text)\<close>, with \<open>None\<close> for a result
  that is not finite, and \<open>textOf\<close> prints a number in a template. A finite number is a rational.
\<close>

section \<open>Platform\<close>

record platform =
  sha256 :: "string \<Rightarrow> 8 word list"
  hmacSha256 :: "string \<Rightarrow> string \<Rightarrow> 8 word list"
  numOf :: "string \<Rightarrow> rat option"
  textOf :: "rat \<Rightarrow> string"

definition upper :: "char \<Rightarrow> char" where
  "upper c = (if 97 \<le> (of_char c :: nat) \<and> (of_char c :: nat) \<le> 122 then char_of ((of_char c :: nat) - 32) else c)"

section \<open>Origins\<close>

definition UNSIGNED_PAYLOAD :: string where
  "UNSIGNED_PAYLOAD = ''UNSIGNED-PAYLOAD''"

definition SIGNATURE_HEADER :: string where
  "SIGNATURE_HEADER = ''X-SpooVault-Signature''"

definition DEFAULT_MAX_SKEW_SEC :: rat where
  "DEFAULT_MAX_SKEW_SEC = 300"

definition DEFAULT_ALLOWED_ORIGINS :: "string list" where
  "DEFAULT_ALLOWED_ORIGINS = [''http://localhost:5173'', ''http://localhost:4173'', ''http://127.0.0.1:5173'', ''http://127.0.0.1:4173'']"

definition parseAllowedOrigins :: "string option \<Rightarrow> string list \<Rightarrow> string list" where
  "parseAllowedOrigins raw fallback =
     (case raw of None \<Rightarrow> fallback
      | Some text \<Rightarrow>
          if js_trim text = [] then fallback
          else let parsed = filter (\<lambda>item. item \<noteq> []) (map js_trim (split_on CHR '','' text))
               in if 0 < length parsed then parsed else fallback)"

definition isOriginAllowed :: "string option \<Rightarrow> string list \<Rightarrow> bool" where
  "isOriginAllowed origin allowedOrigins =
     (case origin of None \<Rightarrow> True
      | Some text \<Rightarrow> text = [] \<or> ''*'' \<in> set allowedOrigins \<or> text \<in> set allowedOrigins)"

definition isMultipartContentType :: "string option \<Rightarrow> bool" where
  "isMultipartContentType contentType = contains ''multipart/form-data'' (map lower (opt_str contentType))"

section \<open>Tags\<close>

definition toHex :: "8 word list \<Rightarrow> string" where
  "toHex buffer = concat (map (\<lambda>byte. pad_start 2 CHR ''0'' (to_radix 16 (unat byte))) buffer)"

definition sha256Hex :: "platform \<Rightarrow> string \<Rightarrow> string" where
  "sha256Hex pf data = toHex (sha256 pf data)"

definition canonicalize :: "platform \<Rightarrow> rat \<Rightarrow> string \<Rightarrow> string \<Rightarrow> string \<Rightarrow> string" where
  "canonicalize pf timestamp method path bodyHash =
     textOf pf timestamp @ ''.'' @ map upper method @ ''.'' @ path @ ''.'' @ bodyHash"

definition hmacSha256Hex :: "platform \<Rightarrow> string \<Rightarrow> string \<Rightarrow> string" where
  "hmacSha256Hex pf secret message = toHex (hmacSha256 pf secret message)"

definition formatSignatureHeader :: "platform \<Rightarrow> rat \<Rightarrow> string \<Rightarrow> string" where
  "formatSignatureHeader pf timestamp hex = ''t='' @ textOf pf timestamp @ '',v1='' @ hex"

definition addPart :: "string \<Rightarrow> (string \<rightharpoonup> string) \<Rightarrow> (string \<rightharpoonup> string)" where
  "addPart piece parts =
     (let trimmed = js_trim piece in
      if trimmed = [] then parts
      else if CHR ''='' \<notin> set trimmed then parts(trimmed \<mapsto> [])
      else parts(js_trim (takeWhile (\<lambda>c. c \<noteq> CHR ''='') trimmed) \<mapsto>
                 js_trim (tl (dropWhile (\<lambda>c. c \<noteq> CHR ''='') trimmed))))"

definition parseSignatureHeader :: "platform \<Rightarrow> string option \<Rightarrow> (rat \<times> string) option" where
  "parseSignatureHeader pf value =
     (if opt_str value = [] then None
      else let parts = fold addPart (split_on CHR '','' (opt_str value)) Map.empty;
               v1 = map lower (opt_str (parts ''v1''))
           in case Option.bind (parts ''t'') (numOf pf) of
                None \<Rightarrow> None
              | Some timestamp \<Rightarrow> if v1 = [] then None else Some (timestamp, v1))"

text \<open>The comparison visits every position before it answers.\<close>

definition timingSafeEqualHex :: "string \<Rightarrow> string \<Rightarrow> bool" where
  "timingSafeEqualHex left right =
     (if length left \<noteq> length right then False
      else fold (\<lambda>index mismatch. mismatch OR (of_char (left ! index) XOR of_char (right ! index))) [0..<length left] (0 :: nat) = 0)"

section \<open>Signing and authorising\<close>

definition resolveBodyHash :: "platform \<Rightarrow> string \<Rightarrow> bool \<Rightarrow> string" where
  "resolveBodyHash pf body unsignedBody = (if unsignedBody then UNSIGNED_PAYLOAD else sha256Hex pf body)"

record signed =
  sig_timestamp :: rat
  signature :: string
  sig_headers :: "(string \<times> string) list"

definition signProxyRequest ::
  "platform \<Rightarrow> string \<Rightarrow> string \<Rightarrow> string \<Rightarrow> string \<Rightarrow> bool \<Rightarrow> rat option \<Rightarrow> rat \<Rightarrow> signed result" where
  "signProxyRequest pf secret method path body unsignedBody timestamp now =
     (if secret = [] then Inl (Error ''IPFS proxy signing secret is not configured'')
      else let ts = (case timestamp of None \<Rightarrow> now | Some t \<Rightarrow> t);
               bodyHash = resolveBodyHash pf body unsignedBody;
               canonical = canonicalize pf ts method path bodyHash;
               v1 = hmacSha256Hex pf secret canonical;
               sg = formatSignatureHeader pf ts v1
           in Inr \<lparr>sig_timestamp = ts, signature = sg, sig_headers = [(SIGNATURE_HEADER, sg)]\<rparr>)"

datatype verdict = Authorized | Refused nat string

definition forbidden :: verdict where
  "forbidden = Refused 403 ''Forbidden''"

definition authorizeProxyRequest ::
  "platform \<Rightarrow> string \<Rightarrow> string \<Rightarrow> string option \<Rightarrow> string option \<Rightarrow> string \<Rightarrow> bool \<Rightarrow> string \<Rightarrow> string list \<Rightarrow> rat \<Rightarrow> rat \<Rightarrow> verdict" where
  "authorizeProxyRequest pf method path origin signatureHeader body unsignedBody secret allowedOrigins now maxSkewSec =
     (if map upper method = ''OPTIONS'' then Authorized
      else if secret = [] then forbidden
      else if \<not> isOriginAllowed origin allowedOrigins then forbidden
      else case parseSignatureHeader pf signatureHeader of
          None \<Rightarrow> forbidden
        | Some (timestamp, v1) \<Rightarrow>
            if \<bar>now - timestamp\<bar> > maxSkewSec then forbidden
            else let bodyHash = resolveBodyHash pf body unsignedBody;
                     canonical = canonicalize pf timestamp method path bodyHash;
                     expected = hmacSha256Hex pf secret canonical
                 in if \<not> timingSafeEqualHex expected v1 then forbidden else Authorized)"

record incoming =
  in_method :: string
  in_originalUrl :: string
  in_path :: string
  in_origin :: "string option"
  in_contentType :: "string option"
  in_signatureHeader :: "string option"
  in_rawBody :: string

definition authorizeIncomingRequest :: "platform \<Rightarrow> incoming \<Rightarrow> string \<Rightarrow> string list \<Rightarrow> rat \<Rightarrow> rat \<Rightarrow> verdict" where
  "authorizeIncomingRequest pf request secret allowedOrigins now maxSkewSec =
     (let unsignedBody = isMultipartContentType (in_contentType request);
          url = (if in_originalUrl request = [] then in_path request else in_originalUrl request)
      in authorizeProxyRequest pf (in_method request) (hd (split_on CHR ''#'' url)) (in_origin request)
           (in_signatureHeader request) (if unsignedBody then [] else in_rawBody request) unsignedBody
           secret allowedOrigins now maxSkewSec)"

section \<open>Lemmas on tags\<close>

lemma or_eq_0_nat: "m OR n = 0 \<longleftrightarrow> m = 0 \<and> n = (0 :: nat)"
  by (simp only: bit_eq_iff [of "m OR n"] bit_eq_iff [of m] bit_eq_iff [of n] bit_or_iff bit_0_eq bot_apply) auto

lemma xor_eq_0_nat: "m XOR n = 0 \<longleftrightarrow> m = (n :: nat)"
  by (simp only: bit_eq_iff [of "m XOR n"] bit_eq_iff [of m] bit_xor_iff bit_0_eq bot_apply) auto

lemma mismatch_eq_0:
  "fold (\<lambda>i m. m OR f i) is (a :: nat) = 0 \<longleftrightarrow> a = 0 \<and> (\<forall>i \<in> set is. f i = 0)"
  by (induction "is" arbitrary: a) (auto simp: or_eq_0_nat)

text \<open>The loop over all positions decides equality.\<close>

lemma timingSafeEqualHex_eq [simp]: "timingSafeEqualHex left right \<longleftrightarrow> left = right"
proof (cases "length left = length right")
  case True
  then have "timingSafeEqualHex left right \<longleftrightarrow> (\<forall>i < length left. left ! i = right ! i)"
    by (simp add: timingSafeEqualHex_def mismatch_eq_0 xor_eq_0_nat Ball_def)
  with True show ?thesis
    by (simp only: list_eq_iff_nth_eq [of left right]) simp
qed (auto simp: timingSafeEqualHex_def)

lemma hex_digit_char: "c \<in> set (to_radix 16 n) \<Longrightarrow> is_digit 16 c"
  by (rule parse_digits_is_digit [OF parse_to_radix]) simp_all

lemma lower_digit_char: "d < 16 \<Longrightarrow> lower (digit_char d) = digit_char d"
  by (drule less_16_cases) (auto simp: digit_char_def lower_def)

lemma lower_to_radix16: "map lower (to_radix 16 n) = to_radix 16 n"
proof (induction n rule: less_induct)
  case (less n)
  then show ?case
    by (cases "n < 16") (simp_all add: to_radix.simps [of 16 n] lower_digit_char)
qed

lemma zero_char: "is_digit 16 CHR ''0''" "lower CHR ''0'' = CHR ''0''"
  by (simp_all add: is_digit_def digit_val_def lower_def)

text \<open>A tag is lower-case hexadecimal text: it is not changed by trimming, lowering or splitting.\<close>

lemma toHex_chars: "c \<in> set (toHex bs) \<Longrightarrow> is_digit 16 c"
  by (auto simp: toHex_def pad_start_def hex_digit_char zero_char split: if_splits)

lemma lower_toHex [simp]: "map lower (toHex bs) = toHex bs"
  by (induction bs) (simp_all add: toHex_def pad_start_def lower_to_radix16 zero_char map_replicate)

lemma toHex_eq_Nil [simp]: "toHex bs = [] \<longleftrightarrow> bs = []"
  by (induction bs) (auto simp: toHex_def pad_start_def)

lemma trim_toHex [simp]: "js_trim (toHex bs) = toHex bs"
  by (rule js_trim_id) (use toHex_chars is_digit_not(1) [of 16] in auto)

lemma plain_chars:
  assumes "is_digit 16 c"
  shows "c \<noteq> CHR '',''" "c \<noteq> CHR ''.''" "c \<noteq> CHR ''=''" "\<not> is_space c"
  using assms is_digit_not(1) [of 16 c] by (auto simp: is_digit_def digit_val_def)

lemma is_digit_mono: "is_digit b c \<Longrightarrow> b \<le> b' \<Longrightarrow> is_digit b' c"
  by (auto simp: is_digit_def split: option.splits)

text \<open>A part \<open>name=value\<close> of plain text is stored under its name.\<close>

lemma addPart_plain:
  assumes "CHR ''='' \<notin> set k" "\<And>c. c \<in> set k \<union> set v \<Longrightarrow> \<not> is_space c"
  shows "addPart (k @ CHR ''='' # v) parts = parts(k \<mapsto> v)"
proof -
  have "js_trim (k @ CHR ''='' # v) = k @ CHR ''='' # v"
    by (rule js_trim_id) (use assms in \<open>auto simp: is_space_def\<close>)
  moreover have "js_trim k = k" "js_trim v = v"
    using assms(2) by (auto intro: js_trim_id)
  moreover have "takeWhile (\<lambda>c. c \<noteq> CHR ''='') (k @ CHR ''='' # v) = k" "dropWhile (\<lambda>c. c \<noteq> CHR ''='') (k @ CHR ''='' # v) = CHR ''='' # v"
    using assms(1) by (auto simp: takeWhile_append dropWhile_append)
  ultimately show ?thesis
    by (simp add: addPart_def)
qed

text \<open>Conversions of whole numbers that a double represents exactly.\<close>

definition whole_numbers :: "platform \<Rightarrow> bool" where
  "whole_numbers pf \<longleftrightarrow> (\<forall>n < 2 ^ 53. numOf pf (js_num n) = Some (of_nat n) \<and> textOf pf (of_nat n) = js_num n)"

lemma parse_format:
  assumes "whole_numbers pf" "n < 2 ^ 53" "bs \<noteq> []"
  shows "parseSignatureHeader pf (Some (formatSignatureHeader pf (of_nat n) (toHex bs))) = Some (of_nat n, toHex bs)"
proof -
  have T: "textOf pf (of_nat n) = js_num n" "numOf pf (js_num n) = Some (of_nat n)"
    using assms(1,2) unfolding whole_numbers_def by blast+
  have d: "is_digit 16 c" if "c \<in> set (js_num n)" for c
    using js_num_digits [OF that] by (rule is_digit_mono) simp
  have "CHR '','' \<notin> set (''t='' @ js_num n)" "CHR '','' \<notin> set (''v1='' @ toHex bs)"
    using plain_chars(1) d toHex_chars by auto
  then have "split_on CHR '','' (formatSignatureHeader pf (of_nat n) (toHex bs)) = [''t'' @ CHR ''='' # js_num n, ''v1'' @ CHR ''='' # toHex bs]"
    using split_on_append [of "CHR '',''" "''t='' @ js_num n" "''v1='' @ toHex bs"] by (simp add: formatSignatureHeader_def T)
  moreover have "addPart (''t'' @ CHR ''='' # js_num n) m = m(''t'' \<mapsto> js_num n)" "addPart (''v1'' @ CHR ''='' # toHex bs) m = m(''v1'' \<mapsto> toHex bs)" for m
    using d toHex_chars plain_chars(4) by (intro addPart_plain; auto simp: is_space_def)+
  ultimately show ?thesis
    using assms(3) T(2) by (simp add: parseSignatureHeader_def opt_str_def formatSignatureHeader_def)
qed

section \<open>The signed message determines the request\<close>

lemma append_first_sep:
  assumes "c \<notin> set xs" "c \<notin> set xs'"
  shows "xs @ c # ys = xs' @ c # ys' \<longleftrightarrow> xs = xs' \<and> ys = ys'"
  using append_last_sep [of c "rev xs" "rev xs'" "rev ys" "rev ys'"] assms
  by (metis append.assoc append_Cons append_Nil rev.simps(2) rev_append rev_rev_ident set_rev)

text \<open>
  The text of a number has at most one point, which a digit follows, and the numbers that texts denote are
  printed differently.
\<close>

definition number_texts :: "platform \<Rightarrow> bool" where
  "number_texts pf \<longleftrightarrow>
     (\<forall>s q. numOf pf s = Some q \<longrightarrow>
        CHR ''.'' \<notin> set (textOf pf q) \<or>
        (\<exists>a d b. textOf pf q = a @ CHR ''.'' # d # b \<and> CHR ''.'' \<notin> set a \<and> is_digit 10 d \<and> CHR ''.'' \<notin> set b))
     \<and> inj_on (textOf pf) {q. \<exists>s. numOf pf s = Some q}"

definition letters :: "string \<Rightarrow> bool" where
  "letters m \<longleftrightarrow> m \<noteq> [] \<and> (\<forall>c \<in> set m. c \<noteq> CHR ''.'' \<and> \<not> is_digit 10 c)"

lemma resolveBodyHash_no_point: "CHR ''.'' \<notin> set (resolveBodyHash pf body u)"
  using toHex_chars plain_chars(2) by (auto simp: resolveBodyHash_def UNSIGNED_PAYLOAD_def sha256Hex_def)

lemma js_num_no_point: "CHR ''.'' \<notin> set (js_num n)"
  using js_num_digits is_digit_mono [of 10 _ 16] plain_chars(2) by fastforce

lemma message_inject:
  assumes "number_texts pf" "numOf pf s = Some q" "textOf pf (of_nat t) = js_num t"
    and "letters (map upper m)" "CHR ''.'' \<notin> set (map upper m')" "CHR ''.'' \<notin> set h" "CHR ''.'' \<notin> set h'"
    and "canonicalize pf q m' p' h' = canonicalize pf (of_nat t) m p h"
  shows "textOf pf q = js_num t \<and> map upper m' = map upper m \<and> p' = p \<and> h' = h"
proof -
  have T: "CHR ''.'' \<notin> set (js_num t)" by (rule js_num_no_point)
  have M: "CHR ''.'' \<notin> set (map upper m)" using assms(4) by (auto simp: letters_def)
  have eq: "textOf pf q @ CHR ''.'' # map upper m' @ CHR ''.'' # p' @ CHR ''.'' # h' =
      js_num t @ CHR ''.'' # map upper m @ CHR ''.'' # p @ CHR ''.'' # h"
    using assms(3,8) by (simp add: canonicalize_def)
  consider (whole) "CHR ''.'' \<notin> set (textOf pf q)"
    | (point) a d b where "textOf pf q = a @ CHR ''.'' # d # b" "CHR ''.'' \<notin> set a" "is_digit 10 d" "CHR ''.'' \<notin> set b"
    using assms(1,2) unfolding number_texts_def by blast
  then show ?thesis
  proof cases
    case whole
    with eq T assms(5) M show ?thesis
      by (simp add: append_first_sep append_last_sep [OF assms(7,6)])
  next
    case point
    then have "CHR ''.'' \<notin> set (d # b)"
      using js_num_no_point is_digit_mono [of 10 d 16] plain_chars(2) [of d] by auto
    moreover have "(d # b) @ CHR ''.'' # map upper m' @ CHR ''.'' # p' @ CHR ''.'' # h' = map upper m @ CHR ''.'' # p @ CHR ''.'' # h"
      using eq point T by (simp add: append_first_sep)
    ultimately have "d # b = map upper m"
      using append_first_sep [of "CHR ''.''" "d # b" "map upper m"] M by blast
    moreover have "d \<notin> set (map upper m)"
      using assms(4) point(3) by (auto simp only: letters_def)
    ultimately show ?thesis
      by (metis list.set_intros(1))
  qed
qed

section \<open>Properties of the proxy's authentication\<close>

lemma authorized_cases:
  assumes "authorizeProxyRequest pf method path origin header body u secret origins now skew = Authorized" "map upper method \<noteq> ''OPTIONS''"
  obtains q v1 where "parseSignatureHeader pf header = Some (q, v1)" "\<bar>now - q\<bar> \<le> skew" "secret \<noteq> []" "isOriginAllowed origin origins"
    "v1 = hmacSha256Hex pf secret (canonicalize pf q method path (resolveBodyHash pf body u))"
  using assms by (auto simp: authorizeProxyRequest_def forbidden_def Let_def split: if_splits option.splits)

lemma parsed_number: "parseSignatureHeader pf header = Some (q, v1) \<Longrightarrow> \<exists>s. numOf pf s = Some q"
  by (auto simp: parseSignatureHeader_def Let_def bind_eq_Some_conv split: if_splits option.splits)

text \<open>
  C34. A request that the client signed is accepted: when the proxy receives the method, path and body that were
  signed, from an allowed origin and within the permitted clock skew, it authorizes the request, also when the
  method is written in another case and when the body is a multipart upload whose content is not signed.
\<close>

theorem signed_request_authorized:
  assumes "whole_numbers pf" "t < 2 ^ 53" "\<And>m. hmacSha256 pf secret m \<noteq> []"
    and "signProxyRequest pf secret method path body u None (of_nat t) = Inr sg"
    and "in_signatureHeader r = Some (signature sg)" "map upper (in_method r) = map upper method"
    and "in_originalUrl r = path" "path \<noteq> []" "CHR ''#'' \<notin> set path"
    and "isMultipartContentType (in_contentType r) = u" "u \<or> in_rawBody r = body"
    and "isOriginAllowed (in_origin r) origins" "\<bar>now - of_nat t\<bar> \<le> skew"
  shows "authorizeIncomingRequest pf r secret origins now skew = Authorized"
proof -
  let ?h = "hmacSha256Hex pf secret (canonicalize pf (of_nat t) method path (resolveBodyHash pf body u))"
  have sg: "secret \<noteq> []" "signature sg = formatSignatureHeader pf (of_nat t) ?h"
    using assms(4) by (auto simp: signProxyRequest_def Let_def split: if_splits)
  have "parseSignatureHeader pf (in_signatureHeader r) = Some (of_nat t, ?h)"
    using parse_format [OF assms(1,2,3)] assms(5) sg(2) by (simp add: hmacSha256Hex_def)
  moreover have "canonicalize pf (of_nat t) (in_method r) path h = canonicalize pf (of_nat t) method path h" for h
    using assms(6) by (simp add: canonicalize_def)
  moreover have "resolveBodyHash pf (if u then [] else in_rawBody r) u = resolveBodyHash pf body u"
    using assms(11) by (auto simp: resolveBodyHash_def)
  ultimately show ?thesis
    using assms sg(1) by (simp add: authorizeIncomingRequest_def authorizeProxyRequest_def Let_def)
qed

definition samplePlatform :: platform where
  "samplePlatform = \<lparr>sha256 = map (\<lambda>c. of_nat (of_char c)), hmacSha256 = (\<lambda>k m. 1 # map (\<lambda>c. of_nat (of_char c)) (k @ m)),
     numOf = (\<lambda>s. map_option of_nat (parse_digits 10 s)), textOf = (\<lambda>q. js_num (nat \<lfloor>q\<rfloor>))\<rparr>"

definition sampleHeader :: string where
  "sampleHeader = formatSignatureHeader samplePlatform (of_nat 1000)
     (hmacSha256Hex samplePlatform ''k'' (canonicalize samplePlatform (of_nat 1000) ''GET'' ''/pins'' (resolveBodyHash samplePlatform [] False)))"

definition sampleIncoming :: incoming where
  "sampleIncoming = \<lparr>in_method = ''get'', in_originalUrl = ''/pins'', in_path = [], in_origin = None, in_contentType = None,
     in_signatureHeader = Some sampleHeader, in_rawBody = []\<rparr>"

lemma sample_whole_numbers: "whole_numbers samplePlatform"
  by (simp add: whole_numbers_def samplePlatform_def js_num_def parse_to_radix)

lemma sample_number_texts: "number_texts samplePlatform"
  by (auto simp: number_texts_def samplePlatform_def js_num_no_point intro!: inj_onI)

lemma sample_upper: "map upper ''get'' = ''GET''" "map upper ''GET'' = ''GET''"
  by (simp_all add: upper_def char_of_def bit_numeral_rec bit_0)

lemma sample_tag: "hmacSha256 samplePlatform k m \<noteq> []"
  by (simp add: samplePlatform_def)

theorem signed_request_authorized_witness:
  "authorizeIncomingRequest samplePlatform sampleIncoming ''k'' [''https://app''] 1200 300 = Authorized"
proof -
  have sg: "signProxyRequest samplePlatform ''k'' ''GET'' ''/pins'' [] False None (of_nat 1000) =
      Inr \<lparr>sig_timestamp = of_nat 1000, signature = sampleHeader, sig_headers = [(SIGNATURE_HEADER, sampleHeader)]\<rparr>"
    by (simp add: signProxyRequest_def sampleHeader_def Let_def)
  show ?thesis
    by (rule signed_request_authorized [OF sample_whole_numbers _ _ sg])
      (simp_all add: sampleIncoming_def sample_upper [simplified] sample_tag isMultipartContentType_def opt_str_def contains_def
        starts_with_def isOriginAllowed_def)
qed

text \<open>
  C35. A captured signature is good for one request only, as far as signatures are checked: if the proxy accepts a request whose tag is the
  one the client made for another request, and the method of the accepted request is not OPTIONS, which is always let through, and has
  no point in its name, then the two have the same time, method, path and body hash and the time is within the permitted skew, or the
  two requests exhibit a collision of the keyed hash. The client signed at a whole second below \<open>2 ^ 53\<close>, with a method of letters;
  numbers are printed and read as documented.
\<close>

theorem captured_signature_scope:
  assumes "authorizeProxyRequest pf method' path' origin (Some header) body' u' secret origins now skew = Authorized"
    and "map upper method' \<noteq> ''OPTIONS''" "CHR ''.'' \<notin> set (map upper method')"
    and "number_texts pf" "whole_numbers pf" "t < 2 ^ 53" "letters (map upper method)"
    and "parseSignatureHeader pf (Some header) =
      Some (q, hmacSha256Hex pf secret (canonicalize pf (of_nat t) method path (resolveBodyHash pf body u)))"
  shows "q = of_nat t \<and> \<bar>now - of_nat t\<bar> \<le> skew \<and> map upper method' = map upper method \<and> path' = path
      \<and> resolveBodyHash pf body' u' = resolveBodyHash pf body u
    \<or> (let m = canonicalize pf (of_nat t) method path (resolveBodyHash pf body u);
           m' = canonicalize pf q method' path' (resolveBodyHash pf body' u')
       in m \<noteq> m' \<and> hmacSha256Hex pf secret m = hmacSha256Hex pf secret m')"
proof (cases "canonicalize pf q method' path' (resolveBodyHash pf body' u') = canonicalize pf (of_nat t) method path (resolveBodyHash pf body u)")
  case True
  obtain s where s: "numOf pf s = Some q" using parsed_number [OF assms(8)] by blast
  have T: "textOf pf (of_nat t) = js_num t" "numOf pf (js_num t) = Some (of_nat t)"
    using assms(5,6) unfolding whole_numbers_def by blast+
  have *: "textOf pf q = js_num t \<and> map upper method' = map upper method \<and> path' = path \<and> resolveBodyHash pf body' u' = resolveBodyHash pf body u"
    by (rule message_inject [OF assms(4) s T(1) assms(7,3) resolveBodyHash_no_point resolveBodyHash_no_point True])
  moreover have "q = of_nat t"
    using inj_onD [OF assms(4) [unfolded number_texts_def, THEN conjunct2], of q "of_nat t"] * T s by auto
  moreover have "\<bar>now - q\<bar> \<le> skew"
    using assms(1,2,8) by (elim authorized_cases) simp_all
  ultimately show ?thesis by simp
next
  case False
  moreover have "hmacSha256Hex pf secret (canonicalize pf q method' path' (resolveBodyHash pf body' u')) =
      hmacSha256Hex pf secret (canonicalize pf (of_nat t) method path (resolveBodyHash pf body u))"
    using assms(1,2,8) by (elim authorized_cases) simp_all
  ultimately show ?thesis by simp
qed

lemma sample_parsed:
  "parseSignatureHeader samplePlatform (Some sampleHeader) =
     Some (of_nat 1000, hmacSha256Hex samplePlatform ''k'' (canonicalize samplePlatform (of_nat 1000) ''GET'' ''/pins'' (resolveBodyHash samplePlatform [] False)))"
  unfolding sampleHeader_def hmacSha256Hex_def by (rule parse_format [OF sample_whole_numbers]) (simp_all add: sample_tag)

lemma sample_accepted:
  "authorizeProxyRequest samplePlatform ''get'' ''/pins'' None (Some sampleHeader) [] False ''k'' [] 1200 300 = Authorized"
proof -
  have "canonicalize samplePlatform (of_nat 1000) ''get'' p h = canonicalize samplePlatform (of_nat 1000) ''GET'' p h" for p h
    by (simp only: canonicalize_def sample_upper)
  then show ?thesis
    by (simp only: authorizeProxyRequest_def sample_parsed sample_upper) (simp add: isOriginAllowed_def Let_def)
qed

theorem captured_signature_scope_witness:
  "authorizeProxyRequest samplePlatform ''get'' ''/pins'' None (Some sampleHeader) [] False ''k'' [] 1200 300 = Authorized
   \<and> \<bar>1200 - of_nat 1000 :: rat\<bar> \<le> 300 \<and> map upper ''get'' = map upper ''GET''"
proof -
  have "CHR ''.'' \<notin> set (map upper ''get'')" "map upper ''get'' \<noteq> ''OPTIONS''" "letters (map upper ''GET'')"
    unfolding sample_upper by (simp_all add: letters_def is_digit_def digit_val_def)
  from captured_signature_scope [OF sample_accepted this(2,1) sample_number_texts sample_whole_numbers _ this(3) sample_parsed]
  show ?thesis using sample_accepted by (simp add: canonicalize_def sample_upper [simplified])
qed

end
