(* ===== verification/Effects.thy ===== *)
theory Effects
  imports Offline_Cache
begin

text \<open>
  Sequencing of calls to the outside that change its state and may throw, shared by the services that talk to the
  network: an exception ends the sequence in the state reached so far.
\<close>

definition bindC :: "('s, 'a) call \<Rightarrow> ('a \<Rightarrow> ('s, 'b) call) \<Rightarrow> ('s, 'b) call" where
  "bindC m f s = (case m s of (Inl e, s') \<Rightarrow> (Inl e, s') | (Inr a, s') \<Rightarrow> f a s')"

definition throwC :: "string \<Rightarrow> ('s, 'a) call" where
  "throwC msg s = (Inl (ErrorObject (Some msg) None), s)"

definition returnC :: "'a \<Rightarrow> ('s, 'a) call" where
  "returnC a s = (Inr a, s)"

fun mapC :: "('a \<Rightarrow> ('s, 'b) call) \<Rightarrow> 'a list \<Rightarrow> ('s, 'b list) call" where
  "mapC f [] = returnC []"
| "mapC f (x # xs) = bindC (f x) (\<lambda>y. bindC (mapC f xs) (\<lambda>ys. returnC (y # ys)))"

text \<open>\<^verbatim>\<open>error?.message\<close>, with the empty text when there is none.\<close>

definition thrown_message :: "thrown \<Rightarrow> string" where
  "thrown_message e = (case e of ErrorObject m sm \<Rightarrow> opt_str m | _ \<Rightarrow> [])"

definition or_default :: "string option \<Rightarrow> string \<Rightarrow> string" where
  "or_default s d = (if opt_str s = [] then d else opt_str s)"

lemmas call_defs = bindC_def throwC_def returnC_def

lemma mapC_const: "(\<And>x. f x w = (Inr (g x), w)) \<Longrightarrow> mapC f xs w = (Inr (map g xs), w)"
  by (induction xs) (simp_all add: call_defs)

lemma bindC_Inr: "bindC m f s = (Inr b, s') \<longleftrightarrow> (\<exists>a s1. m s = (Inr a, s1) \<and> f a s1 = (Inr b, s'))"
  by (auto simp: bindC_def split: prod.splits sum.splits)

lemma bindC_Inl: "bindC m f s = (Inl e, s') \<longleftrightarrow> m s = (Inl e, s') \<or> (\<exists>a s1. m s = (Inr a, s1) \<and> f a s1 = (Inl e, s'))"
  by (auto simp: bindC_def split: prod.splits sum.splits)

end
