(* ===== verification/Base64.thy ===== *)
theory Base64
  imports GF256 JS_Text
begin

text \<open>
  Base64 as the encrypted formats use it: the browser's \<^verbatim>\<open>btoa\<close> and \<^verbatim>\<open>atob\<close>, and the two helpers of
  \<^verbatim>\<open>utils/crypto.ts\<close> between byte arrays and text, with the fact that decoding inverts encoding.
\<close>

section \<open>The codec of the browser\<close>

definition b64_char :: "nat \<Rightarrow> char" where
  "b64_char v = char_of (if v < 26 then v + 65 else if v < 52 then v + 71 else if v < 62 then v - 4 else if v = 62 then 43 else 47)"

definition b64_val :: "char \<Rightarrow> nat option" where
  "b64_val c =
     (let n = of_char c in
      if 65 \<le> n \<and> n \<le> 90 then Some (n - 65)
      else if 97 \<le> n \<and> n \<le> 122 then Some (n - 71)
      else if 48 \<le> n \<and> n \<le> 57 then Some (n + 4)
      else if n = 43 then Some 62
      else if n = 47 then Some 63 else None)"

text \<open>The sextets of a byte sequence and back; one left-over sextet is malformed.\<close>

fun sextets :: "nat list \<Rightarrow> nat list" where
  "sextets [] = []"
| "sextets [a] = [a div 4, a mod 4 * 16]"
| "sextets [a, b] = [a div 4, a mod 4 * 16 + b div 16, b mod 16 * 4]"
| "sextets (a # b # c # r) = a div 4 # (a mod 4 * 16 + b div 16) # (b mod 16 * 4 + c div 64) # c mod 64 # sextets r"

fun octets :: "nat list \<Rightarrow> nat list option" where
  "octets [] = Some []"
| "octets [s] = None"
| "octets [s, t] = Some [s * 4 + t div 16]"
| "octets [s, t, u] = Some [s * 4 + t div 16, t mod 16 * 16 + u div 4]"
| "octets (s # t # u # v # r) =
     map_option (\<lambda>os. (s * 4 + t div 16) # (t mod 16 * 16 + u div 4) # (u mod 4 * 64 + v) # os) (octets r)"

text \<open>\<^verbatim>\<open>btoa\<close> of a string of characters below 256, given by their codes.\<close>

definition btoa :: "nat list \<Rightarrow> string" where
  "btoa bs = (let cs = map b64_char (sextets bs) in cs @ replicate ((4 - length cs mod 4) mod 4) CHR ''='')"

text \<open>Up to two padding characters are dropped when the length is a multiple of four.\<close>

definition drop_padding :: "string \<Rightarrow> string" where
  "drop_padding s =
     (if length s mod 4 \<noteq> 0 then s
      else if drop (length s - 2) s = ''=='' \<and> 2 \<le> length s then take (length s - 2) s
      else if drop (length s - 1) s = ''='' \<and> 1 \<le> length s then take (length s - 1) s
      else s)"

text \<open>\<^verbatim>\<open>atob\<close> first strips the white space of ASCII.\<close>

definition ascii_space :: "char \<Rightarrow> bool" where
  "ascii_space c \<longleftrightarrow> c \<in> {CHR 0x20, CHR 0x09, CHR 0x0A, CHR 0x0C, CHR 0x0D}"

definition atob :: "string \<Rightarrow> nat list option" where
  "atob s =
     (let t = drop_padding (filter (\<lambda>c. \<not> ascii_space c) s);
          vs = map b64_val t
      in if None \<in> set vs then None else octets (map the vs))"

section \<open>The helpers of the program\<close>

text \<open>\<^verbatim>\<open>uint8ArrayToBase64\<close>.\<close>

definition uint8ArrayToBase64 :: "byte list \<Rightarrow> string" where
  "uint8ArrayToBase64 bs = btoa (map unat bs)"

text \<open>\<^verbatim>\<open>base64ToUint8Array\<close>: white space is removed, the URL alphabet replaced, the padding completed.\<close>

definition sanitize64 :: "string \<Rightarrow> string" where
  "sanitize64 s =
     (let t = map (\<lambda>c. if c = CHR ''-'' then CHR ''+'' else if c = CHR ''_'' then CHR ''/'' else c) (filter (\<lambda>c. \<not> is_space c) s)
      in t @ replicate ((4 - length t mod 4) mod 4) CHR ''='')"

definition base64ToUint8Array :: "string \<Rightarrow> byte list result" where
  "base64ToUint8Array s =
     (case atob (sanitize64 s) of
        None \<Rightarrow> Inl (Error ''InvalidCharacterError'')
      | Some codes \<Rightarrow> Inr (map of_nat codes))"

section \<open>The round trip\<close>

lemma code_b64_char:
  "v < 64 \<Longrightarrow> of_char (b64_char v) =
     (if v < 26 then v + 65 else if v < 52 then v + 71 else if v < 62 then v - 4 else if v = 62 then 43 else 47)"
  by (simp add: b64_char_def)

lemma b64_val_char: "v < 64 \<Longrightarrow> b64_val (b64_char v) = Some v"
  by (auto simp: b64_val_def code_b64_char Let_def)

lemma b64_char_plain:
  assumes "v < 64"
  shows "\<not> is_space (b64_char v)" "b64_char v \<noteq> CHR ''=''" "b64_char v \<noteq> CHR ''-''" "b64_char v \<noteq> CHR ''_''"
proof -
  have *: "of_char c = (n :: nat) \<Longrightarrow> n \<noteq> of_char (b64_char v) \<Longrightarrow> b64_char v \<noteq> c" for c n
    by metis
  have "\<not> (of_char (b64_char v) :: nat) \<le> 42" "(of_char (b64_char v) :: nat) \<noteq> 61" "(of_char (b64_char v) :: nat) \<noteq> 45"
    "(of_char (b64_char v) :: nat) \<noteq> 95" "(of_char (b64_char v) :: nat) \<le> 122"
    using assms by (auto simp: code_b64_char)
  then show "\<not> is_space (b64_char v)" "b64_char v \<noteq> CHR ''=''" "b64_char v \<noteq> CHR ''-''" "b64_char v \<noteq> CHR ''_''"
    by (auto simp: is_space_def)
qed

lemma sextets_range: "(\<And>b. b \<in> set bs \<Longrightarrow> b < 256) \<Longrightarrow> v \<in> set (sextets bs) \<Longrightarrow> v < 64"
proof (induction bs rule: sextets.induct)
  case (2 a)
  then have "a < 256" by simp
  with 2(2) show ?case by auto
next
  case (3 a b)
  then have "a < 256" "b < 256" by simp_all
  then have "a div 4 < 64" "b div 16 < 16" by auto
  with 3(2) show ?case by auto
next
  case (4 a b c r)
  then have "a < 256" "b < 256" "c < 256" by simp_all
  then have "a div 4 < 64" "b div 16 < 16" "c div 64 < 4" by auto
  with 4 show ?case by auto
qed simp

lemma octets_sextets: "(\<And>b. b \<in> set bs \<Longrightarrow> b < 256) \<Longrightarrow> octets (sextets bs) = Some bs"
proof (induction bs rule: sextets.induct)
  case (3 a b)
  then have "a < 256" "b < 256" by simp_all
  then show ?case by auto
next
  case (4 a b c r)
  then have "a < 256" "b < 256" "c < 256" by simp_all
  then have "b div 16 < 16" "c div 64 < 4" by auto
  moreover have "octets (sextets r) = Some r" using 4 by simp
  ultimately show ?case by simp
qed auto

lemma length_sextets: "length (sextets bs) mod 4 = 0 \<or> length (sextets bs) mod 4 = 2 \<or> length (sextets bs) mod 4 = 3"
  by (induction bs rule: sextets.induct) auto

lemma drop_padding_pad:
  assumes "CHR ''='' \<notin> set cs" "length cs mod 4 \<noteq> 1"
  shows "drop_padding (cs @ replicate ((4 - length cs mod 4) mod 4) CHR ''='') = cs"
proof -
  have no: "drop n cs \<noteq> ''==''" "drop n cs \<noteq> ''=''" for n
    using assms(1) by (metis in_set_dropD list.set_intros(1))+
  consider "length cs mod 4 = 0" | "length cs mod 4 = 2" | "length cs mod 4 = 3"
    using assms(2) by linarith
  then show ?thesis
  proof cases
    case 1
    then show ?thesis using no by (simp add: drop_padding_def)
  next
    case 2
    then have "(length cs + 2) mod 4 = 0" by presburger
    with 2 show ?thesis by (simp add: drop_padding_def numeral_2_eq_2)
  next
    case 3
    then have "(length cs + 1) mod 4 = 0" by presburger
    moreover have "cs \<noteq> []" using 3 by force
    moreover from this obtain ds d where "cs = ds @ [d]" "d \<noteq> CHR ''=''"
      using assms(1) by (metis rev_exhaust in_set_conv_decomp)
    ultimately show ?thesis using 3 by (simp add: drop_padding_def)
  qed
qed

lemma mod_pad: "(n + (4 - n mod 4) mod 4) mod 4 = (0 :: nat)"
proof -
  consider "n mod 4 = 0" | "n mod 4 = 1" | "n mod 4 = 2" | "n mod 4 = 3" by linarith
  then show ?thesis
    by cases (simp_all, presburger+)
qed

lemma btoa_plain:
  assumes "\<And>b. b \<in> set bs \<Longrightarrow> b < 256"
  shows "sanitize64 (btoa bs) = btoa bs"
proof -
  have p: "\<not> is_space c \<and> c \<noteq> CHR ''-'' \<and> c \<noteq> CHR ''_''" if "c \<in> set (btoa bs)" for c
    using that b64_char_plain sextets_range [OF assms] by (auto simp: btoa_def Let_def is_space_def split: if_splits)
  then have "filter (\<lambda>c. \<not> is_space c) (btoa bs) = btoa bs" by (simp add: filter_id_conv)
  moreover have "map (\<lambda>c. if c = CHR ''-'' then CHR ''+'' else if c = CHR ''_'' then CHR ''/'' else c) (btoa bs) = btoa bs"
    using p by (intro map_idI) auto
  moreover have "length (btoa bs) mod 4 = 0"
    using mod_pad [of "length (sextets bs)"] by (simp add: btoa_def Let_def)
  ultimately show ?thesis by (simp add: sanitize64_def)
qed

lemma atob_btoa:
  assumes "\<And>b. b \<in> set bs \<Longrightarrow> b < 256"
  shows "atob (btoa bs) = Some bs"
proof -
  let ?cs = "map b64_char (sextets bs)"
  have r: "v < 64" if "v \<in> set (sextets bs)" for v using sextets_range [OF assms that] .
  have "filter (\<lambda>c. \<not> ascii_space c) (btoa bs) = btoa bs"
    using r b64_char_plain(1) by (auto simp: btoa_def Let_def filter_id_conv is_space_def ascii_space_def)
  moreover have "drop_padding (btoa bs) = ?cs"
    unfolding btoa_def Let_def
    by (rule drop_padding_pad) (use r b64_char_plain length_sextets [of bs] in fastforce)+
  moreover have "map b64_val ?cs = map Some (sextets bs)"
    using r b64_val_char by simp
  moreover have "octets (sextets bs) = Some bs"
    by (rule octets_sextets) (rule assms)
  ultimately show ?thesis
    by (simp only: atob_def Let_def) (auto simp: comp_def)
qed

lemma unat_less_256: "unat (b :: byte) < 256"
  using unsigned_less [of b] by simp

theorem base64_roundtrip: "base64ToUint8Array (uint8ArrayToBase64 bs) = Inr bs"
proof -
  have "sanitize64 (btoa (map unat bs)) = btoa (map unat bs)" "atob (btoa (map unat bs)) = Some (map unat bs)"
    using unat_less_256 by (intro btoa_plain atob_btoa; auto)+
  then show ?thesis
    by (simp add: base64ToUint8Array_def uint8ArrayToBase64_def comp_def)
qed

end
