(* ===== verification/Json_Codec.thy ===== *)
theory Json_Codec
  imports JS_Text Base64 "HOL-Library.AList"
begin

text \<open>
  The serialisation of the language as the services use it: \<^verbatim>\<open>JSON.stringify\<close>, \<^verbatim>\<open>JSON.parse\<close> and the conversion between text
  and UTF-8, with the facts that writing and reading are inverse.

  A text is a list of code points below 256 and a number an integer that the language represents exactly. What a reader would return
  outside of this is not modelled: the answer \<open>Beyond\<close> says that the text has a code point from 256 on, a fraction, an exponent, a
  negative zero or an integer beyond \<open>2 ^ 53\<close> in it. An object is an association list in the order of its properties.
\<close>

section \<open>Writing\<close>

datatype json =
    JNull
  | JBool bool
  | JNumber int
  | JText string
  | JArray "json list"
  | JObject "(string \<times> json) list"

definition json_escape :: "char \<Rightarrow> string" where
  "json_escape c =
     (if c = CHR 0x22 then [CHR 0x5C, CHR 0x22]
      else if c = CHR 0x5C then [CHR 0x5C, CHR 0x5C]
      else if c = CHR 0x08 then CHR 0x5C # ''b''
      else if c = CHR 0x0C then CHR 0x5C # ''f''
      else if c = CHR 0x0A then CHR 0x5C # ''n''
      else if c = CHR 0x0D then CHR 0x5C # ''r''
      else if c = CHR 0x09 then CHR 0x5C # ''t''
      else if (of_char c :: nat) < 32 then CHR 0x5C # ''u'' @ pad_start 4 CHR ''0'' (to_radix 16 (of_char c))
      else [c])"

definition json_quote :: "string \<Rightarrow> string" where
  "json_quote s = CHR 0x22 # concat (map json_escape s) @ [CHR 0x22]"

definition int_text :: "int \<Rightarrow> string" where
  "int_text i = (if i < 0 then CHR ''-'' # js_num (nat (- i)) else js_num (nat i))"

fun join_with :: "'a list \<Rightarrow> 'a list list \<Rightarrow> 'a list" where
  "join_with d [] = []"
| "join_with d [s] = s"
| "join_with d (s # t # ss) = s @ d @ join_with d (t # ss)"

fun stringify :: "json \<Rightarrow> string" where
  "stringify JNull = ''null''"
| "stringify (JBool b) = (if b then ''true'' else ''false'')"
| "stringify (JNumber i) = int_text i"
| "stringify (JText s) = json_quote s"
| "stringify (JArray vs) = ''['' @ join_with '','' (map stringify vs) @ '']''"
| "stringify (JObject kvs) = ''{'' @ join_with '','' (map (\<lambda>(k, v). json_quote k @ '':'' @ stringify v) kvs) @ ''}''"

text \<open>A property of an object; \<open>None\<close> is \<^verbatim>\<open>undefined\<close>.\<close>

fun jprop :: "string \<Rightarrow> json \<Rightarrow> json option" where
  "jprop k (JObject kvs) = map_of kvs k"
| "jprop k _ = None"

section \<open>UTF-8\<close>

definition utf8_bytes :: "char \<Rightarrow> nat list" where
  "utf8_bytes c = (let n = of_char c in if n < 128 then [n] else [192 + n div 64, 128 + n mod 64])"

definition utf8Encode :: "string \<Rightarrow> byte list" where
  "utf8Encode s = concat (map (\<lambda>c. map of_nat (utf8_bytes c)) s)"

text \<open>\<open>None\<close>: the text has a character from code point 256 on, which may be the replacement character of an invalid sequence.\<close>

fun utf8Decode :: "byte list \<Rightarrow> string option" where
  "utf8Decode [] = Some []"
| "utf8Decode (b # bs) =
     (if unat b < 128 then map_option ((#) (char_of (unat b))) (utf8Decode bs)
      else case bs of
          [] \<Rightarrow> None
        | c # cs \<Rightarrow> if (unat b = 194 \<or> unat b = 195) \<and> unat c div 64 = 2
            then map_option ((#) (char_of ((unat b - 192) * 64 + unat c mod 64))) (utf8Decode cs) else None)"

section \<open>Reading\<close>

datatype 'a reading = Read 'a | Malformed | Beyond

definition mapR :: "('a \<Rightarrow> 'b) \<Rightarrow> 'a reading \<Rightarrow> 'b reading" where
  "mapR f r = (case r of Read a \<Rightarrow> Read (f a) | Malformed \<Rightarrow> Malformed | Beyond \<Rightarrow> Beyond)"

definition bindR :: "'a reading \<Rightarrow> ('a \<Rightarrow> 'b reading) \<Rightarrow> 'b reading" where
  "bindR r f = (case r of Read a \<Rightarrow> f a | Malformed \<Rightarrow> Malformed | Beyond \<Rightarrow> Beyond)"

lemma reading_simps [simp]:
  "mapR f (Read a) = Read (f a)" "mapR f Malformed = Malformed" "mapR f Beyond = Beyond"
  "bindR (Read a) g = g a" "bindR Malformed g = Malformed" "bindR Beyond g = Beyond"
  by (simp_all add: mapR_def bindR_def)

lemma bindR_cong [fundef_cong]: "r = r' \<Longrightarrow> (\<And>a. r' = Read a \<Longrightarrow> f a = g a) \<Longrightarrow> bindR r f = bindR r' g"
  by (cases r') simp_all

lemma mapR_comp [simp]: "mapR f (mapR g r) = mapR (\<lambda>x. f (g x)) r"
  by (cases r) simp_all

lemma mapR_ReadD: "mapR f r = Read b \<Longrightarrow> \<exists>a. r = Read a \<and> b = f a"
  by (cases r) simp_all

datatype token = TBrace | TEndBrace | TBracket | TEndBracket | TColon | TComma | TNull | TBool bool | TNumber int | TText string

definition unescape :: "char \<Rightarrow> char option" where
  "unescape e = map_of
     [(CHR 0x22, CHR 0x22), (CHR 0x5C, CHR 0x5C), (CHR ''/'', CHR ''/''), (CHR ''b'', CHR 0x08), (CHR ''f'', CHR 0x0C),
      (CHR ''n'', CHR 0x0A), (CHR ''r'', CHR 0x0D), (CHR ''t'', CHR 0x09)] e"

text \<open>The characters of a string up to the closing quotation mark, and what follows it.\<close>

fun lexChars :: "string \<Rightarrow> (string \<times> string) reading" where
  "lexChars [] = Malformed"
| "lexChars (c # cs) =
     (if c = CHR 0x22 then Read ([], cs)
      else if c = CHR 0x5C then
        (case cs of
           [] \<Rightarrow> Malformed
         | e # rest \<Rightarrow>
             if e = CHR ''u'' then
               (case parse_digits 16 (take 4 rest) of
                  None \<Rightarrow> Malformed
                | Some n \<Rightarrow>
                    if length rest < 4 then Malformed
                    else if 256 \<le> n then Beyond
                    else mapR (apfst ((#) (char_of n))) (lexChars (drop 4 rest)))
             else (case unescape e of None \<Rightarrow> Malformed | Some d \<Rightarrow> mapR (apfst ((#) d)) (lexChars rest)))
      else if (of_char c :: nat) < 32 then Malformed
      else mapR (apfst ((#) c)) (lexChars cs))"

definition lexNumber :: "string \<Rightarrow> (int \<times> string) reading" where
  "lexNumber s =
     (let neg = (s \<noteq> [] \<and> hd s = CHR ''-'');
          t = (if neg then tl s else s);
          digits = takeWhile (is_digit 10) t;
          rest = dropWhile (is_digit 10) t
      in case parse_digits 10 digits of
           None \<Rightarrow> Malformed
         | Some n \<Rightarrow>
             if 1 < length digits \<and> hd digits = CHR ''0'' then Malformed
             else if rest \<noteq> [] \<and> (hd rest = CHR ''.'' \<or> hd rest = CHR ''e'' \<or> hd rest = CHR ''E'') then Beyond
             else if neg \<and> n = 0 \<or> 2 ^ 53 < n then Beyond
             else Read (if neg then - int n else int n, rest))"

definition json_space :: "char \<Rightarrow> bool" where
  "json_space c \<longleftrightarrow> c = CHR 0x20 \<or> c = CHR 0x09 \<or> c = CHR 0x0A \<or> c = CHR 0x0D"

definition punctuation :: "char \<Rightarrow> token option" where
  "punctuation c = map_of
     [(CHR ''{'', TBrace), (CHR ''}'', TEndBrace), (CHR ''['', TBracket), (CHR '']'', TEndBracket), (CHR '':'', TColon), (CHR '','', TComma)] c"

lemma lexChars_shorter: "lexChars s = Read (t, r) \<Longrightarrow> length r < length s"
proof (induction s arbitrary: t r rule: lexChars.induct)
  case (2 c cs)
  then show ?case
    by (fastforce dest!: mapR_ReadD split: if_splits list.splits option.splits)
qed simp

lemma lexNumber_shorter: "lexNumber s = Read (i, r) \<Longrightarrow> length r < length s"
proof -
  assume a: "lexNumber s = Read (i, r)"
  define t where "t = (if s \<noteq> [] \<and> hd s = CHR ''-'' then tl s else s)"
  have "takeWhile (is_digit 10) t \<noteq> [] \<and> r = dropWhile (is_digit 10) t"
    using a by (auto simp: lexNumber_def Let_def t_def parse_digits_def split: if_splits option.splits)
  moreover have "length (takeWhile (is_digit 10) t) + length (dropWhile (is_digit 10) t) = length t"
    by (metis length_append takeWhile_dropWhile_id)
  moreover have "length t \<le> length s" by (simp add: t_def)
  ultimately show ?thesis by (metis add_less_cancel_right add.left_neutral length_greater_0_conv order_less_le_trans)
qed

function lexJson :: "string \<Rightarrow> token list reading" where
  "lexJson [] = Read []"
| "lexJson (c # cs) =
     (if json_space c then lexJson cs
      else case punctuation c of
        Some t \<Rightarrow> mapR ((#) t) (lexJson cs)
      | None \<Rightarrow>
          if c = CHR 0x22 then bindR (lexChars cs) (\<lambda>(s, rest). mapR ((#) (TText s)) (lexJson rest))
          else if c = CHR ''-'' \<or> is_digit 10 c then bindR (lexNumber (c # cs)) (\<lambda>(i, rest). mapR ((#) (TNumber i)) (lexJson rest))
          else if starts_with ''null'' (c # cs) then mapR ((#) TNull) (lexJson (drop 3 cs))
          else if starts_with ''true'' (c # cs) then mapR ((#) (TBool True)) (lexJson (drop 3 cs))
          else if starts_with ''false'' (c # cs) then mapR ((#) (TBool False)) (lexJson (drop 4 cs))
          else Malformed)"
  by pat_completeness auto
termination
  by (relation "measure length") (auto dest: lexChars_shorter lexNumber_shorter)

text \<open>Properties whose names are array indices come first, in ascending order.\<close>

definition arrayIndex :: "string \<Rightarrow> nat option" where
  "arrayIndex k = (case parse_digits 10 k of None \<Rightarrow> None | Some n \<Rightarrow> if js_num n = k \<and> n < 2 ^ 32 - 1 then Some n else None)"

definition ownOrder :: "(string \<times> json) list \<Rightarrow> (string \<times> json) list" where
  "ownOrder kvs = sort_key (\<lambda>kv. the (arrayIndex (fst kv))) (filter (\<lambda>kv. arrayIndex (fst kv) \<noteq> None) kvs)
     @ filter (\<lambda>kv. arrayIndex (fst kv) = None) kvs"

text \<open>The arrays and objects around the value that is being read, innermost first; of an object the name of the member as well.\<close>

datatype frame = InArray "json list" | InObject "(string \<times> json) list" string

fun readValue :: "frame list \<Rightarrow> token list \<Rightarrow> json reading" and afterValue :: "frame list \<Rightarrow> json \<Rightarrow> token list \<Rightarrow> json reading" where
  "readValue fs (TNull # ts) = afterValue fs JNull ts"
| "readValue fs (TBool b # ts) = afterValue fs (JBool b) ts"
| "readValue fs (TNumber i # ts) = afterValue fs (JNumber i) ts"
| "readValue fs (TText s # ts) = afterValue fs (JText s) ts"
| "readValue fs (TBracket # ts) =
     (case ts of TEndBracket # rest \<Rightarrow> afterValue fs (JArray []) rest | _ \<Rightarrow> readValue (InArray [] # fs) ts)"
| "readValue fs (TBrace # ts) =
     (case ts of
        TEndBrace # rest \<Rightarrow> afterValue fs (JObject []) rest
      | TText k # TColon # rest \<Rightarrow> readValue (InObject [] k # fs) rest
      | _ \<Rightarrow> Malformed)"
| "readValue fs _ = Malformed"
| "afterValue [] v ts = (if ts = [] then Read v else Malformed)"
| "afterValue (InArray vs # fs) v ts =
     (case ts of
        TComma # rest \<Rightarrow> readValue (InArray (vs @ [v]) # fs) rest
      | TEndBracket # rest \<Rightarrow> afterValue fs (JArray (vs @ [v])) rest
      | _ \<Rightarrow> Malformed)"
| "afterValue (InObject kvs k # fs) v ts =
     (case ts of
        TComma # TText k' # TColon # rest \<Rightarrow> readValue (InObject (AList.update k v kvs) k' # fs) rest
      | TEndBrace # rest \<Rightarrow> afterValue fs (JObject (ownOrder (AList.update k v kvs))) rest
      | _ \<Rightarrow> Malformed)"

definition parseJSON :: "string \<Rightarrow> json reading" where
  "parseJSON s = bindR (lexJson s) (readValue [])"

section \<open>Writing and reading are inverse\<close>

text \<open>The values that the writer and the reader represent exactly: integers up to \<open>2 ^ 53\<close> and objects without repeated names.\<close>

fun exactJson :: "json \<Rightarrow> bool" where
  "exactJson JNull = True"
| "exactJson (JBool b) = True"
| "exactJson (JNumber i) = (\<bar>i\<bar> \<le> 2 ^ 53)"
| "exactJson (JText s) = True"
| "exactJson (JArray vs) = (\<forall>v \<in> set vs. exactJson v)"
| "exactJson (JObject kvs) = (distinct (map fst kvs) \<and> ownOrder kvs = kvs \<and> (\<forall>kv \<in> set kvs. exactJson (snd kv)))"

fun tokensOf :: "json \<Rightarrow> token list" where
  "tokensOf JNull = [TNull]"
| "tokensOf (JBool b) = [TBool b]"
| "tokensOf (JNumber i) = [TNumber i]"
| "tokensOf (JText s) = [TText s]"
| "tokensOf (JArray vs) = TBracket # join_with [TComma] (map tokensOf vs) @ [TEndBracket]"
| "tokensOf (JObject kvs) = TBrace # join_with [TComma] (map (\<lambda>(k, v). TText k # TColon # tokensOf v) kvs) @ [TEndBrace]"

subsection \<open>Characters\<close>

lemma length_to_radix_small: "n < 32 \<Longrightarrow> length (to_radix 16 n) \<le> 2"
  by (simp add: to_radix.simps [of 16 n] to_radix.simps [of 16 "n div 16"] less_mult_imp_div_less)

lemma lexChars_u:
  assumes "n < 32"
  shows "lexChars (CHR 0x5C # ''u'' @ pad_start 4 CHR ''0'' (to_radix 16 n) @ r) = mapR (apfst ((#) (char_of n))) (lexChars r)"
proof -
  let ?p = "pad_start 4 CHR ''0'' (to_radix 16 n)"
  have l: "length ?p = 4" using length_to_radix_small [OF assms] by (simp add: pad_start_def)
  have "parse_digits 16 ?p = Some n" by (intro parse_pad_start parse_to_radix) simp_all
  with l assms show ?thesis by (simp add: lexChars.simps(2) [of "CHR 0x5C"])
qed

lemma lexChars_escape: "lexChars (json_escape c @ r) = mapR (apfst ((#) c)) (lexChars r)"
proof -
  have "(of_char c :: nat) < 32 \<Longrightarrow> char_of (of_char c :: nat) = c" by simp
  then show ?thesis
    using lexChars_u [of "of_char c" r] by (simp add: json_escape_def unescape_def)
qed

lemma lexChars_quoted: "lexChars (concat (map json_escape s) @ CHR 0x22 # r) = Read (s, r)"
  by (induction s) (simp_all add: lexChars_escape)

subsection \<open>Numbers\<close>

lemma digit_char_zero: "d < 16 \<Longrightarrow> digit_char d = CHR ''0'' \<Longrightarrow> d = 0"
  by (drule less_16_cases) (auto simp: digit_char_def)

lemma to_radix_hd: "0 < n \<Longrightarrow> hd (to_radix 10 n) \<noteq> CHR ''0''"
proof (induction n rule: less_induct)
  case (less n)
  show ?case
  proof (cases "n < 10")
    case True
    then show ?thesis using less.prems digit_char_zero [of n] by (auto simp: to_radix.simps [of 10 n])
  next
    case False
    then have "hd (to_radix 10 (n div 10)) \<noteq> CHR ''0''" by (intro less.IH) auto
    with False show ?thesis by (simp add: to_radix.simps [of 10 n])
  qed
qed

lemma js_num_leading: "1 < length (js_num n) \<Longrightarrow> hd (js_num n) \<noteq> CHR ''0''"
  using to_radix_hd [of n] by (cases "n = 0") (simp_all add: js_num_def to_radix.simps [of 10 0])

definition stops :: "string \<Rightarrow> bool" where
  "stops r \<longleftrightarrow> r = [] \<or> \<not> is_digit 10 (hd r) \<and> hd r \<noteq> CHR ''.'' \<and> hd r \<noteq> CHR ''e'' \<and> hd r \<noteq> CHR ''E''"

lemma js_num_scanned:
  assumes "stops r"
  shows "takeWhile (is_digit 10) (js_num n @ r) = js_num n" "dropWhile (is_digit 10) (js_num n @ r) = r"
  using assms js_num_digits [of _ n] by (cases r; simp add: stops_def takeWhile_append dropWhile_append)+

lemma js_num_parse: "parse_digits 10 (js_num n) = Some n"
  by (simp add: js_num_def parse_to_radix)

lemma js_num_head: "js_num n \<noteq> []" "is_digit 10 (hd (js_num n))" "hd (js_num n) \<noteq> CHR ''-''"
proof -
  show ne: "js_num n \<noteq> []" by (simp add: js_num_def)
  then show d: "is_digit 10 (hd (js_num n))" by (intro js_num_digits [of _ n]) simp
  show "hd (js_num n) \<noteq> CHR ''-''" by (rule is_digit_not(2) [OF d]) simp
qed

lemma lexNumber_int:
  assumes "stops r" "\<bar>i\<bar> \<le> 2 ^ 53"
  shows "lexNumber (int_text i @ r) = Read (i, r)"
proof (cases "i < 0")
  case True
  then show ?thesis
    using assms js_num_scanned [OF assms(1)] js_num_leading [of "nat (- i)"]
    by (auto simp: lexNumber_def int_text_def Let_def js_num_parse stops_def)
next
  case False
  then show ?thesis
    using assms js_num_scanned [OF assms(1)] js_num_leading [of "nat i"] js_num_head [of "nat i"]
    by (auto simp: lexNumber_def int_text_def Let_def js_num_parse stops_def)
qed

subsection \<open>Tokens\<close>

declare lexJson.simps(2) [simp del]

lemma lex_punctuation:
  "lexJson (CHR ''{'' # r) = mapR ((#) TBrace) (lexJson r)" "lexJson (CHR ''}'' # r) = mapR ((#) TEndBrace) (lexJson r)"
  "lexJson (CHR ''['' # r) = mapR ((#) TBracket) (lexJson r)" "lexJson (CHR '']'' # r) = mapR ((#) TEndBracket) (lexJson r)"
  "lexJson (CHR '':'' # r) = mapR ((#) TColon) (lexJson r)" "lexJson (CHR '','' # r) = mapR ((#) TComma) (lexJson r)"
  by (simp_all add: lexJson.simps(2) json_space_def punctuation_def)

lemma lex_words:
  "lexJson (''null'' @ r) = mapR ((#) TNull) (lexJson r)"
  "lexJson (''true'' @ r) = mapR ((#) (TBool True)) (lexJson r)"
  "lexJson (''false'' @ r) = mapR ((#) (TBool False)) (lexJson r)"
  by (simp_all add: lexJson.simps(2) json_space_def punctuation_def is_digit_def digit_val_def starts_with_def)

lemma lex_quote: "lexJson (json_quote s @ r) = mapR ((#) (TText s)) (lexJson r)"
  by (simp add: json_quote_def lexJson.simps(2) [of "CHR 0x22"] json_space_def punctuation_def lexChars_quoted)

lemma int_text_head: "\<exists>c cs. int_text i = c # cs \<and> (c = CHR ''-'' \<or> is_digit 10 c)"
  using js_num_head [of "nat i"] by (cases "i < 0"; cases "js_num (nat i)") (auto simp: int_text_def)

lemma is_digit_code: "is_digit 10 c \<Longrightarrow> 48 \<le> (of_char c :: nat) \<and> (of_char c :: nat) \<le> 57"
  by (auto simp: is_digit_def digit_val_def Let_def split: if_splits)

lemma number_start:
  assumes "c = CHR ''-'' \<or> is_digit 10 c"
  shows "\<not> json_space c" "punctuation c = None" "c \<noteq> CHR 0x22"
proof -
  have d: "c \<noteq> d" if "(of_char d :: nat) < 45 \<or> (of_char d :: nat) = 46 \<or> 57 < (of_char d :: nat)" for d
    using assms is_digit_code [of c] that by auto
  show "\<not> json_space c" "c \<noteq> CHR 0x22" by (simp_all add: json_space_def d)
  show "punctuation c = None" by (simp add: punctuation_def d)
qed

lemma lex_number:
  assumes "stops r" "\<bar>i\<bar> \<le> 2 ^ 53"
  shows "lexJson (int_text i @ r) = mapR ((#) (TNumber i)) (lexJson r)"
proof -
  obtain c cs where c: "int_text i = c # cs" "c = CHR ''-'' \<or> is_digit 10 c" using int_text_head by blast
  then show ?thesis using lexNumber_int [OF assms] number_start [OF c(2)] by (simp add: lexJson.simps(2) [of c])
qed

lemma stops_punctuation [simp]: "stops (CHR '','' # r)" "stops (CHR '']'' # r)" "stops (CHR ''}'' # r)" "stops []"
  by (simp_all add: stops_def is_digit_def digit_val_def)

lemma lex_join:
  assumes "\<And>x r. x \<in> set xs \<Longrightarrow> stops r \<Longrightarrow> lexJson (f x @ r) = mapR ((@) (g x)) (lexJson r)" "stops r"
  shows "lexJson (join_with '','' (map f xs) @ r) = mapR ((@) (join_with [TComma] (map g xs))) (lexJson r)"
  using assms
proof (induction xs)
  case (Cons x xs)
  show ?case
  proof (cases xs)
    case Nil
    then show ?thesis using Cons.prems by simp
  next
    case (Cons y ys)
    then have "lexJson (join_with '','' (map f xs) @ r) = mapR ((@) (join_with [TComma] (map g xs))) (lexJson r)"
      using Cons.IH Cons.prems by simp
    then show ?thesis using Cons Cons.prems(1) [of x] by (simp add: lex_punctuation)
  qed
qed (simp add: mapR_def split: reading.split)

lemma append_single: "(@) [t] = (#) t"
  by (simp add: fun_eq_iff)

lemma lex_stringify: "exactJson v \<Longrightarrow> stops r \<Longrightarrow> lexJson (stringify v @ r) = mapR ((@) (tokensOf v)) (lexJson r)"
proof (induction v arbitrary: r rule: stringify.induct)
  case (5 vs)
  have "lexJson (join_with '','' (map stringify vs) @ CHR '']'' # r) =
      mapR ((@) (join_with [TComma] (map tokensOf vs))) (lexJson (CHR '']'' # r))"
    by (rule lex_join) (use 5 in simp_all)
  then show ?case by (simp add: lex_punctuation)
next
  case (6 kvs)
  have "lexJson (join_with '','' (map (\<lambda>(k, v). json_quote k @ '':'' @ stringify v) kvs) @ CHR ''}'' # r) =
      mapR ((@) (join_with [TComma] (map (\<lambda>(k, v). TText k # TColon # tokensOf v) kvs))) (lexJson (CHR ''}'' # r))"
  proof (rule lex_join)
    fix kv r assume kv: "kv \<in> set kvs" "stops r"
    obtain k v where k: "kv = (k, v)" by (cases kv)
    then have "exactJson v" using "6.prems"(1) kv(1) by fastforce
    with "6.IH" [OF kv(1) k [symmetric], of r] kv(2) k show "lexJson ((case kv of (k, v) \<Rightarrow> json_quote k @ '':'' @ stringify v) @ r) =
        mapR ((@) (case kv of (k, v) \<Rightarrow> TText k # TColon # tokensOf v)) (lexJson r)"
      by (cases "lexJson r") (simp_all add: lex_quote lex_punctuation)
  qed simp
  then show ?case by (simp add: lex_punctuation)
qed (simp_all add: lex_words [simplified] lex_number lex_quote append_single)

subsection \<open>Values\<close>

lemma tokensOf_head: "\<exists>t ts. tokensOf v = t # ts \<and> t \<noteq> TEndBracket"
  by (cases v) simp_all

lemma read_elements:
  assumes "\<And>v fs ts. v \<in> set (x # xs) \<Longrightarrow> readValue fs (tokensOf v @ ts) = afterValue fs v ts"
  shows "readValue (InArray vs # fs) (join_with [TComma] (map tokensOf (x # xs)) @ TEndBracket # ts) = afterValue fs (JArray (vs @ x # xs)) ts"
  using assms
proof (induction xs arbitrary: x vs)
  case (Cons y ys)
  then show ?case using Cons.IH [of y "vs @ [x]"] by simp
qed simp

lemma update_new: "k \<notin> fst ` set kvs \<Longrightarrow> AList.update k v kvs = kvs @ [(k, v)]"
  by (induction kvs) auto

lemma read_members:
  assumes "\<And>v fs ts. v \<in> snd ` set ((k, x) # xs) \<Longrightarrow> readValue fs (tokensOf v @ ts) = afterValue fs v ts"
    and "distinct (map fst (kvs @ (k, x) # xs))"
  shows "readValue (InObject kvs k # fs) (tokensOf x @
      concat (map (\<lambda>(k, v). TComma # TText k # TColon # tokensOf v) xs) @ TEndBrace # ts) =
    afterValue fs (JObject (ownOrder (kvs @ (k, x) # xs))) ts"
  using assms
proof (induction xs arbitrary: k x kvs)
  case (Cons y ys)
  then show ?case using Cons.IH [of "fst y" "snd y" "kvs @ [(k, x)]"] by (cases y) (simp add: update_new)
qed (simp add: update_new)

lemma join_concat: "join_with [d] (x # xs) = x @ concat (map (\<lambda>y. d # y) xs)"
proof (induction xs arbitrary: x)
  case (Cons y ys)
  then show ?case by simp
qed simp

lemma read_tokensOf: "exactJson v \<Longrightarrow> readValue fs (tokensOf v @ ts) = afterValue fs v ts"
proof (induction v arbitrary: fs ts rule: stringify.induct)
  case (5 vs)
  show ?case
  proof (cases vs)
    case (Cons x xs)
    obtain t us where t: "join_with [TComma] (map tokensOf vs) = t # us" "t \<noteq> TEndBracket"
      using tokensOf_head [of x] Cons by (auto simp: join_concat)
    have "readValue fs (tokensOf (JArray vs) @ ts) = readValue (InArray [] # fs) (join_with [TComma] (map tokensOf vs) @ TEndBracket # ts)"
      using t by (simp split: token.split)
    also have "\<dots> = afterValue fs (JArray ([] @ x # xs)) ts"
      unfolding Cons by (rule read_elements) (use 5 Cons in auto)
    finally show ?thesis by (simp add: Cons)
  qed simp
next
  case (6 kvs)
  show ?case
  proof (cases kvs)
    case (Cons kv rest)
    obtain k x where kv: "kv = (k, x)" by (cases kv)
    have "readValue (InObject [] k # fs) (tokensOf x @ concat (map (\<lambda>(k, v). TComma # TText k # TColon # tokensOf v) rest) @ TEndBrace # ts) =
        afterValue fs (JObject (ownOrder ([] @ (k, x) # rest))) ts"
    proof (rule read_members)
      fix v fs' ts' assume "v \<in> snd ` set ((k, x) # rest)"
      then have "\<exists>k'. (k', v) \<in> set kvs" using Cons kv by auto
      then obtain k' where "(k', v) \<in> set kvs" by blast
      then show "readValue fs' (tokensOf v @ ts') = afterValue fs' v ts'" using "6.IH" [of "(k', v)" k' v] "6.prems" by auto
    qed (use 6 Cons kv in simp)
    moreover have "ownOrder ((k, x) # rest) = (k, x) # rest" using 6 Cons kv by simp
    moreover have "(\<lambda>y. TComma # (case y of (k, v) \<Rightarrow> TText k # TColon # tokensOf v)) = (\<lambda>(k, v). TComma # TText k # TColon # tokensOf v)"
      by auto
    ultimately show ?thesis by (simp add: Cons kv join_concat comp_def)
  qed simp
qed simp_all

theorem parse_stringify: "exactJson v \<Longrightarrow> parseJSON (stringify v) = Read v"
  using lex_stringify [of v "[]"] read_tokensOf [of v "[]" "[]"] by (simp add: parseJSON_def)

subsection \<open>Bytes\<close>

lemma utf8_char: "utf8Decode (map of_nat (utf8_bytes c) @ bs) = map_option ((#) c) (utf8Decode bs)"
proof (cases "(of_char c :: nat) < 128")
  case True
  then show ?thesis by (simp add: utf8_bytes_def Let_def unat_of_nat)
next
  case False
  define n where "n = (of_char c :: nat)"
  have n: "128 \<le> n" "n < 256" using False of_char_mod_256 [of c, where 'a = nat] by (simp_all add: n_def)
  then have "n div 64 = 2 \<or> n div 64 = 3" by arith
  moreover have "n mod 64 < 64" by simp
  moreover have "n div 64 = 2 \<Longrightarrow> 128 + n mod 64 = n" "n div 64 = 3 \<Longrightarrow> 192 + n mod 64 = n"
    using div_mult_mod_eq [of n 64] by simp_all
  moreover have "char_of n = c" by (simp add: n_def)
  moreover have "unat (128 + word_of_nat (n mod 64) :: byte) = 128 + n mod 64"
    using unat_of_nat [of "128 + n mod 64", where 'a = 8] by simp
  moreover have "(128 + n mod 64) mod 64 = n mod 64" using mod_add_left_eq [of 128 64 "n mod 64"] by simp
  ultimately show ?thesis using n by (auto simp: utf8_bytes_def n_def [symmetric])
qed

theorem utf8_roundtrip: "utf8Decode (utf8Encode s) = Some s"
  by (induction s) (simp_all add: utf8Encode_def utf8_char)

end
