(* ===== verification/Key_Inbox.thy ===== *)
theory Key_Inbox
  imports Proxy_Guard Effects Json_Codec
begin

text \<open>
  The inbox of key envelopes, \<^verbatim>\<open>services/keyInbox.service.ts\<close>, and the removal of a pin by
  \<^verbatim>\<open>services/ipfs.service.ts\<close>. Envelopes are JSON documents that a pinning service stores with metadata;
  they are found again by listing the pins page by page.

  The HTTP client, the clock and \<^verbatim>\<open>Date.parse\<close> are fields of the record \<open>net\<close>, over a state \<open>'w\<close> of the world;
  the digest of the addresses is the one of \<open>platform\<close>. The text a request carries is built as the code
  builds it. An object literal is an association list in the order of its properties.
\<close>

section \<open>Network\<close>

datatype http_method = GET | POST | DELETE

datatype http_body = NoBody | Body string | JsonBody json

record http_request =
  rq_method :: http_method
  rq_url :: string
  rq_headers :: "(string \<times> string) list"
  rq_params :: "(string \<times> string) list"
  rq_body :: http_body
  rq_timeout :: nat

record PinRow =
  ipfs_pin_hash :: "string option"
  row_name :: "string option"
  keyvalues :: "string \<rightharpoonup> string"

text \<open>The parts of a response that the code reads: the rows of a listing, the hash of a new pin, the parsed document.\<close>

record http_response =
  rs_rows :: "PinRow list option"
  rs_IpfsHash :: "string option"
  rs_data :: "json option"

record http_error =
  er_status :: "nat option"
  er_code :: "string option"
  er_reason :: "string option"
  er_error :: "string option"
  er_message :: "string option"

record 'w net =
  pf :: platform
  clockSec :: "'w \<Rightarrow> rat"
  dateParse :: "string \<Rightarrow> int option"
  axios :: "http_request \<Rightarrow> 'w \<Rightarrow> (http_error + http_response) \<times> 'w"

definition request :: "'w net \<Rightarrow> http_request \<Rightarrow> ('w, http_response) call" where
  "request net rq w = (case axios net rq w of (Inl e, w') \<Rightarrow> (Inl (ErrorObject (er_message e) None), w') | (Inr r, w') \<Rightarrow> (Inr r, w'))"

section \<open>Configuration\<close>

record env_vars =
  VITE_IPFS_API_URL :: "string option"
  VITE_PINATA_JWT :: "string option"
  VITE_PINATA_API_KEY :: "string option"
  VITE_PINATA_API_SECRET :: "string option"
  VITE_IPFS_GATEWAY :: "string option"
  VITE_IPFS_PROXY_URL :: "string option"
  VITE_SPOOVUALT_PROXY_SECRET :: "string option"

definition PINATA_API_URL :: "env_vars \<Rightarrow> string" where
  "PINATA_API_URL env = or_default (VITE_IPFS_API_URL env) ''https://api.pinata.cloud''"

definition IPFS_GATEWAY :: "env_vars \<Rightarrow> string" where
  "IPFS_GATEWAY env = or_default (VITE_IPFS_GATEWAY env) ''https://gateway.pinata.cloud/ipfs/''"

definition ENVELOPE_NAME :: string where
  "ENVELOPE_NAME = ''spoovault-beneficiary-key-envelope''"

definition IPFS_PROXY_URL :: "env_vars \<Rightarrow> string" where
  "IPFS_PROXY_URL env = js_trim (opt_str (VITE_IPFS_PROXY_URL env))"

definition PROXY_SECRET :: "env_vars \<Rightarrow> string" where
  "PROXY_SECRET env = js_trim (opt_str (VITE_SPOOVUALT_PROXY_SECRET env))"

definition isConfigured :: "env_vars \<Rightarrow> bool" where
  "isConfigured env =
     (if IPFS_PROXY_URL env \<noteq> [] then PROXY_SECRET env \<noteq> []
      else opt_str (VITE_PINATA_JWT env) \<noteq> []
        \<or> opt_str (VITE_PINATA_API_KEY env) \<noteq> [] \<and> opt_str (VITE_PINATA_API_SECRET env) \<noteq> [])"

definition getProxySecret :: "env_vars \<Rightarrow> ('w, string) call" where
  "getProxySecret env =
     (if PROXY_SECRET env = [] then throwC ''IPFS proxy signing secret is not configured'' else returnC (PROXY_SECRET env))"

definition buildAuthHeaders :: "env_vars \<Rightarrow> (string \<times> string) list" where
  "buildAuthHeaders env =
     (if opt_str (VITE_PINATA_JWT env) \<noteq> [] then [(''Authorization'', ''Bearer '' @ opt_str (VITE_PINATA_JWT env))]
      else if opt_str (VITE_PINATA_API_KEY env) \<noteq> [] \<and> opt_str (VITE_PINATA_API_SECRET env) \<noteq> [] then
        [(''pinata_api_key'', opt_str (VITE_PINATA_API_KEY env)), (''pinata_secret_api_key'', opt_str (VITE_PINATA_API_SECRET env))]
      else [])"

definition normalizeAddress :: "string \<Rightarrow> string" where
  "normalizeAddress value = map lower (js_trim value)"

definition hashAddress :: "platform \<Rightarrow> string \<Rightarrow> string" where
  "hashAddress p value = toHex (sha256 p (normalizeAddress value))"

definition getGatewayUrl :: "env_vars \<Rightarrow> string \<Rightarrow> string" where
  "getGatewayUrl env hash = IPFS_GATEWAY env @ hash"

text \<open>A request through the proxy: the secret is read, the request is signed now and sent with the signature.\<close>

definition signedHeaders :: "'w net \<Rightarrow> env_vars \<Rightarrow> string \<Rightarrow> string \<Rightarrow> string \<Rightarrow> ('w, (string \<times> string) list) call" where
  "signedHeaders net env method path body =
     bindC (getProxySecret env) (\<lambda>secret w.
       case signProxyRequest (pf net) secret method path body False None (clockSec net w) of
         Inl e \<Rightarrow> throwC ''IPFS proxy signing secret is not configured'' w
       | Inr auth \<Rightarrow> returnC (sig_headers auth) w)"

section \<open>Sending\<close>

record KeyEnvelopePayload =
  p_version :: int
  p_contract :: string
  p_chainId :: nat
  p_vaultId :: nat
  p_documentId :: nat
  p_beneficiary :: string
  p_issuedBy :: string
  p_issuedAt :: string
  p_key :: string

text \<open>The object is written with the properties in the order of the interface; \<^verbatim>\<open>type\<close> and \<^verbatim>\<open>app\<close> are literal types.\<close>

definition payloadJson :: "KeyEnvelopePayload \<Rightarrow> json" where
  "payloadJson p = JObject
     [(''version'', JNumber (p_version p)), (''type'', JText ''beneficiary_key_envelope''), (''app'', JText ''SpooVault''),
      (''contract'', JText (p_contract p)), (''chainId'', JNumber (int (p_chainId p))), (''vaultId'', JNumber (int (p_vaultId p))),
      (''documentId'', JNumber (int (p_documentId p))), (''beneficiary'', JText (p_beneficiary p)),
      (''issuedBy'', JText (p_issuedBy p)), (''issuedAt'', JText (p_issuedAt p)), (''key'', JText (p_key p))]"

definition envelopeContent :: "KeyEnvelopePayload \<Rightarrow> KeyEnvelopePayload" where
  "envelopeContent envelope = envelope\<lparr>p_beneficiary := normalizeAddress (p_beneficiary envelope),
     p_contract := normalizeAddress (p_contract envelope), p_issuedBy := normalizeAddress (p_issuedBy envelope)\<rparr>"

definition pinBody :: "platform \<Rightarrow> KeyEnvelopePayload \<Rightarrow> json" where
  "pinBody p envelope =
     (let content = envelopeContent envelope in JObject
       [(''pinataContent'', payloadJson content),
        (''pinataMetadata'', JObject
          [(''name'', JText ENVELOPE_NAME),
           (''keyvalues'', JObject
             [(''type'', JText ''beneficiary_key_envelope''), (''beneficiary'', JText (hashAddress p (p_beneficiary envelope))),
              (''contract'', JText (hashAddress p (p_contract envelope))), (''chainId'', JText (js_num (p_chainId content))),
              (''documentId'', JText (js_num (p_documentId content))), (''vaultId'', JText (js_num (p_vaultId content))),
              (''issuedBy'', JText (hashAddress p (p_issuedBy envelope))), (''issuedAt'', JText (p_issuedAt content))])])])"

definition sendKeyEnvelope :: "'w net \<Rightarrow> env_vars \<Rightarrow> KeyEnvelopePayload \<Rightarrow> ('w, string) call" where
  "sendKeyEnvelope net env envelope =
     (if \<not> isConfigured env then throwC ''IPFS is not configured''
      else bindC
        (if IPFS_PROXY_URL env \<noteq> [] then
           let body = stringify (pinBody (pf net) envelope) in
           bindC (signedHeaders net env ''POST'' ''/api/ipfs/pin-json'' body) (\<lambda>auth.
             request net \<lparr>rq_method = POST, rq_url = IPFS_PROXY_URL env @ ''/api/ipfs/pin-json'',
               rq_headers = (''Content-Type'', ''application/json'') # auth, rq_params = [], rq_body = Body body, rq_timeout = 30000\<rparr>)
         else
           request net \<lparr>rq_method = POST, rq_url = PINATA_API_URL env @ ''/pinning/pinJSONToIPFS'',
             rq_headers = (''Content-Type'', ''application/json'') # buildAuthHeaders env, rq_params = [],
             rq_body = JsonBody (pinBody (pf net) envelope), rq_timeout = 30000\<rparr>)
        (\<lambda>response. let hash = opt_str (rs_IpfsHash response) in
           if hash = [] then throwC ''Failed to publish key envelope'' else returnC hash))"

section \<open>Listing\<close>

definition pageLimit :: nat where
  "pageLimit = 100"

definition pinListPage :: "'w net \<Rightarrow> env_vars \<Rightarrow> nat \<Rightarrow> ('w, PinRow list) call" where
  "pinListPage net env page =
     bindC
       (if IPFS_PROXY_URL env \<noteq> [] then
          let query = ''status=pinned&pageLimit='' @ js_num pageLimit @ ''&pageOffset='' @ js_num (page * pageLimit);
              path = ''/api/ipfs/pin-list?'' @ query
          in bindC (signedHeaders net env ''GET'' path []) (\<lambda>auth.
               request net \<lparr>rq_method = GET, rq_url = IPFS_PROXY_URL env @ path, rq_headers = auth, rq_params = [],
                 rq_body = NoBody, rq_timeout = 30000\<rparr>)
        else
          request net \<lparr>rq_method = GET, rq_url = PINATA_API_URL env @ ''/data/pinList'', rq_headers = buildAuthHeaders env,
            rq_params = [(''status'', ''pinned''), (''pageLimit'', js_num pageLimit), (''pageOffset'', js_num (page * pageLimit))],
            rq_body = NoBody, rq_timeout = 30000\<rparr>)
       (\<lambda>response. returnC (case rs_rows response of None \<Rightarrow> [] | Some rows \<Rightarrow> rows))"

text \<open>
  The three listing functions run the same two loops; \<open>pick\<close> is what a row contributes. The inner loop stops at
  the limit.
\<close>

fun collectRows :: "(PinRow \<Rightarrow> 'a option) \<Rightarrow> nat \<Rightarrow> PinRow list \<Rightarrow> 'a list \<Rightarrow> 'a list" where
  "collectRows pick maxMatches [] matches = matches"
| "collectRows pick maxMatches (row # rows) matches =
     (case pick row of
        None \<Rightarrow> collectRows pick maxMatches rows matches
      | Some x \<Rightarrow>
          let matches' = matches @ [x]
          in if maxMatches \<le> length matches' then matches' else collectRows pick maxMatches rows matches')"

text \<open>\<open>n\<close> is the number of pages the outer loop may still read, the difference of \<^verbatim>\<open>maxPages\<close> and \<^verbatim>\<open>page\<close>.\<close>

fun pageLoop :: "'w net \<Rightarrow> env_vars \<Rightarrow> (PinRow \<Rightarrow> 'a option) \<Rightarrow> nat \<Rightarrow> nat \<Rightarrow> nat \<Rightarrow> 'a list \<Rightarrow> ('w, 'a list) call" where
  "pageLoop net env pick maxMatches 0 page matches w = (Inr matches, w)"
| "pageLoop net env pick maxMatches (Suc n) page matches w =
     (if maxMatches \<le> length matches then (Inr matches, w)
      else case pinListPage net env page w of
          (Inl e, w') \<Rightarrow> (Inl e, w')
        | (Inr rows, w') \<Rightarrow>
            if rows = [] then (Inr matches, w')
            else pageLoop net env pick maxMatches n (page + 1) (collectRows pick maxMatches rows matches) w')"

definition clampLimit :: "int option \<Rightarrow> int \<Rightarrow> int \<Rightarrow> nat" where
  "clampLimit limit dflt bound = nat (max 1 (min (case limit of None \<Rightarrow> dflt | Some l \<Rightarrow> l) bound))"

definition envelopeRow :: "PinRow \<Rightarrow> bool" where
  "envelopeRow row \<longleftrightarrow> opt_str (ipfs_pin_hash row) \<noteq> [] \<and> opt_str (row_name row) = ENVELOPE_NAME
     \<and> opt_str (keyvalues row ''type'') = ''beneficiary_key_envelope''"

definition pickBeneficiary :: "string \<Rightarrow> PinRow \<Rightarrow> string option" where
  "pickBeneficiary target row =
     (if envelopeRow row \<and> normalizeAddress (opt_str (keyvalues row ''beneficiary'')) = target
      then Some (opt_str (ipfs_pin_hash row)) else None)"

definition listEnvelopeHashesForBeneficiary :: "'w net \<Rightarrow> env_vars \<Rightarrow> string \<Rightarrow> int option \<Rightarrow> ('w, string list) call" where
  "listEnvelopeHashesForBeneficiary net env beneficiaryAddress limit =
     (if \<not> isConfigured env then throwC ''IPFS is not configured''
      else pageLoop net env (pickBeneficiary (hashAddress (pf net) beneficiaryAddress)) (clampLimit limit 30 100) 6 0 [])"

definition pickEnvelope :: "PinRow \<Rightarrow> (string \<times> PinRow) option" where
  "pickEnvelope row = (if envelopeRow row then Some (opt_str (ipfs_pin_hash row), row) else None)"

definition listAllKeyEnvelopes :: "'w net \<Rightarrow> env_vars \<Rightarrow> int option \<Rightarrow> nat option \<Rightarrow> ('w, (string \<times> PinRow) list) call" where
  "listAllKeyEnvelopes net env limit maxPages =
     (if \<not> isConfigured env then throwC ''IPFS is not configured''
      else pageLoop net env pickEnvelope (clampLimit limit 200 500) (case maxPages of None \<Rightarrow> 10 | Some m \<Rightarrow> m) 0 [])"

definition pickBeneficiaryDoc :: "string \<Rightarrow> string \<Rightarrow> PinRow \<Rightarrow> string option" where
  "pickBeneficiaryDoc targetBeneficiary targetDocIdStr row =
     (if envelopeRow row \<and> normalizeAddress (opt_str (keyvalues row ''beneficiary'')) = targetBeneficiary
         \<and> opt_str (keyvalues row ''documentId'') = targetDocIdStr
      then Some (opt_str (ipfs_pin_hash row)) else None)"

definition findEnvelopeHashesForBeneficiaryAndDoc :: "'w net \<Rightarrow> env_vars \<Rightarrow> string \<Rightarrow> nat \<Rightarrow> int option \<Rightarrow> ('w, string list) call" where
  "findEnvelopeHashesForBeneficiaryAndDoc net env beneficiaryAddress documentId limit =
     (if \<not> isConfigured env then throwC ''IPFS is not configured''
      else pageLoop net env (pickBeneficiaryDoc (hashAddress (pf net) beneficiaryAddress) (js_num documentId)) (clampLimit limit 30 100) 6 0 [])"

section \<open>Reading and removing\<close>

definition fetchEnvelopeByHash :: "'w net \<Rightarrow> env_vars \<Rightarrow> string \<Rightarrow> ('w, json option) call" where
  "fetchEnvelopeByHash net env hash w =
     (case request net \<lparr>rq_method = GET, rq_url = getGatewayUrl env hash, rq_headers = [], rq_params = [], rq_body = NoBody, rq_timeout = 30000\<rparr> w of
        (Inl e, w') \<Rightarrow> (Inr None, w')
      | (Inr response, w') \<Rightarrow> (Inr (case rs_data response of Some (JObject kvs) \<Rightarrow> Some (JObject kvs) | Some (JArray vs) \<Rightarrow> Some (JArray vs) | _ \<Rightarrow> None), w'))"

text \<open>An envelope whose beneficiary is not a text makes \<^verbatim>\<open>value.trim()\<close> fail.\<close>

fun addressedTo :: "string \<Rightarrow> json list \<Rightarrow> json list result" where
  "addressedTo recipient [] = Inr []"
| "addressedTo recipient (item # items) =
     (case jprop ''beneficiary'' item of
        Some (JText b) \<Rightarrow> bindE (addressedTo recipient items) (\<lambda>rest. Inr (if normalizeAddress b = recipient then item # rest else rest))
      | _ \<Rightarrow> Inl TypeError)"

fun json_text :: "json \<Rightarrow> string" where
  "json_text JNull = ''null''"
| "json_text (JBool b) = (if b then ''true'' else ''false'')"
| "json_text (JNumber i) = int_text i"
| "json_text (JText s) = s"
| "json_text (JArray vs) = join_with '','' (map (\<lambda>v. if v = JNull then [] else json_text v) vs)"
| "json_text (JObject kvs) = ''[object Object]''"

fun json_truthy :: "json \<Rightarrow> bool" where
  "json_truthy JNull = False"
| "json_truthy (JBool b) = b"
| "json_truthy (JNumber i) = (i \<noteq> 0)"
| "json_truthy (JText s) = (s \<noteq> [])"
| "json_truthy (JArray vs) = True"
| "json_truthy (JObject kvs) = True"

definition issuedTime :: "'w net \<Rightarrow> json \<Rightarrow> int" where
  "issuedTime net item =
     (case dateParse net (case jprop ''issuedAt'' item of Some v \<Rightarrow> if json_truthy v then json_text v else [] | None \<Rightarrow> []) of
        None \<Rightarrow> 0 | Some t \<Rightarrow> t)"

definition fetchBeneficiaryInbox :: "'w net \<Rightarrow> env_vars \<Rightarrow> string \<Rightarrow> int option \<Rightarrow> ('w, json list) call" where
  "fetchBeneficiaryInbox net env beneficiaryAddress limit =
     bindC (listEnvelopeHashesForBeneficiary net env beneficiaryAddress limit) (\<lambda>hashes.
       if length hashes = 0 then returnC []
       else bindC (mapC (fetchEnvelopeByHash net env) hashes) (\<lambda>envelopes.
         case addressedTo (normalizeAddress beneficiaryAddress) (List.map_filter id envelopes) of
           Inl e \<Rightarrow> throwC ''Cannot read properties of undefined''
         | Inr items \<Rightarrow> returnC (sort_key (\<lambda>item. - issuedTime net item) items)))"

text \<open>\<^verbatim>\<open>encodeURIComponent\<close> of a text of code points below 256, through the bytes of its UTF-8 encoding.\<close>

definition uri_unreserved :: "char \<Rightarrow> bool" where
  "uri_unreserved c \<longleftrightarrow>
     (let n = (of_char c :: nat) in 48 \<le> n \<and> n \<le> 57 \<or> 65 \<le> n \<and> n \<le> 90 \<or> 97 \<le> n \<and> n \<le> 122)
     \<or> c \<in> set [CHR ''-'', CHR ''_'', CHR ''.'', CHR ''!'', CHR ''~'', CHR ''*'', CHR 0x27, CHR ''('', CHR '')'']"

definition encodeURIComponent :: "string \<Rightarrow> string" where
  "encodeURIComponent s =
     concat (map (\<lambda>c. if uri_unreserved c then [c]
        else concat (map (\<lambda>n. CHR ''%'' # pad_start 2 CHR ''0'' (map upper (to_radix 16 n))) (utf8_bytes c))) s)"

definition plainError :: "thrown \<Rightarrow> http_error" where
  "plainError e = \<lparr>er_status = None, er_code = None, er_reason = None, er_error = None,
     er_message = (case e of ErrorObject m sm \<Rightarrow> m | _ \<Rightarrow> None)\<rparr>"

definition unpinMessage :: "http_error \<Rightarrow> string" where
  "unpinMessage e =
     (if er_code e = Some ''ERR_CANCELED'' then ''IPFS unpin canceled.''
      else if er_code e = Some ''ECONNABORTED'' then ''IPFS unpin timed out.''
      else or_default (er_reason e) (or_default (er_error e) (or_default (er_message e) ''IPFS unpin failed'')))"

definition deletePin :: "'w net \<Rightarrow> env_vars \<Rightarrow> string \<Rightarrow> 'w \<Rightarrow> (http_error + http_response) \<times> 'w" where
  "deletePin net env cleanHash w =
     (if IPFS_PROXY_URL env \<noteq> [] then
        let path = ''/api/ipfs/unpin/'' @ encodeURIComponent cleanHash in
        case signedHeaders net env ''DELETE'' path [] w of
          (Inl e, w') \<Rightarrow> (Inl (plainError e), w')
        | (Inr auth, w') \<Rightarrow> axios net \<lparr>rq_method = DELETE, rq_url = IPFS_PROXY_URL env @ path, rq_headers = auth,
            rq_params = [], rq_body = NoBody, rq_timeout = 30000\<rparr> w'
      else axios net \<lparr>rq_method = DELETE, rq_url = PINATA_API_URL env @ ''/pinning/unpin/'' @ encodeURIComponent cleanHash,
        rq_headers = buildAuthHeaders env, rq_params = [], rq_body = NoBody, rq_timeout = 30000\<rparr> w)"

definition unpin :: "'w net \<Rightarrow> env_vars \<Rightarrow> string \<Rightarrow> ('w, bool) call" where
  "unpin net env hash w =
     (if js_trim hash = [] then throwC ''IPFS hash is required for unpinning'' w
      else if \<not> isConfigured env then throwC ''IPFS is not configured'' w
      else case deletePin net env (js_trim hash) w of
          (Inr response, w') \<Rightarrow> (Inr True, w')
        | (Inl e, w') \<Rightarrow> if er_status e = Some 404 then (Inr True, w') else throwC (unpinMessage e) w')"

definition unpinKeyEnvelope :: "'w net \<Rightarrow> env_vars \<Rightarrow> string \<Rightarrow> ('w, bool) call" where
  "unpinKeyEnvelope net env hash = unpin net env hash"

text \<open>The loop that removes pins one after the other; it sorts the hashes by the outcome and goes on after a failure.\<close>

fun unpinAll :: "'w net \<Rightarrow> env_vars \<Rightarrow> string list \<Rightarrow> string list \<times> string list \<Rightarrow> 'w \<Rightarrow> (string list \<times> string list) \<times> 'w" where
  "unpinAll net env [] r w = (r, w)"
| "unpinAll net env (hash # hashes) (unpinned, failures) w =
     (case unpinKeyEnvelope net env hash w of
        (Inr b, w') \<Rightarrow> unpinAll net env hashes (unpinned @ [hash], failures) w'
      | (Inl e, w') \<Rightarrow> unpinAll net env hashes (unpinned, failures @ [hash]) w')"

definition unpinEnvelopesForBeneficiaryAndDoc :: "'w net \<Rightarrow> env_vars \<Rightarrow> string \<Rightarrow> nat \<Rightarrow> ('w, string list \<times> string list) call" where
  "unpinEnvelopesForBeneficiaryAndDoc net env beneficiaryAddress documentId =
     bindC (findEnvelopeHashesForBeneficiaryAndDoc net env beneficiaryAddress documentId None) (\<lambda>hashes w.
       case unpinAll net env hashes ([], []) w of (r, w') \<Rightarrow> (Inr r, w'))"

section \<open>Lemmas on listings\<close>

lemma collectRows_take:
  "length acc < k \<Longrightarrow> collectRows pick k rows acc = acc @ take (k - length acc) (List.map_filter pick rows)"
proof (induction rows arbitrary: acc)
  case (Cons row rows)
  show ?case
  proof (cases "pick row")
    case None
    with Cons show ?thesis by (simp add: List.map_filter_simps)
  next
    case (Some x)
    then show ?thesis
    proof (cases "k \<le> Suc (length acc)")
      case True
      with Cons.prems have "k - length acc = Suc 0" by simp
      with Some True show ?thesis by (simp add: List.map_filter_simps)
    next
      case False
      with Cons.IH [of "acc @ [x]"] Some show ?thesis
        by (simp add: List.map_filter_simps take_Cons' Suc_diff_Suc)
    qed
  qed
qed (simp add: List.map_filter_simps)

lemma map_filter_append: "List.map_filter f (xs @ ys) = List.map_filter f xs @ List.map_filter f ys"
  by (simp add: List.map_filter_def)

text \<open>
  What a listing that does not change while it is read shows: the rows of the first \<open>n\<close> pages from page \<open>p\<close> on, up to
  the first empty page.
\<close>

definition listed_rows :: "(nat \<Rightarrow> PinRow list) \<Rightarrow> nat \<Rightarrow> nat \<Rightarrow> PinRow list" where
  "listed_rows pages p n = concat (takeWhile (\<lambda>rows. rows \<noteq> []) (map pages [p..<p + n]))"

lemma listed_rows_simps:
  "listed_rows pages p 0 = []"
  "listed_rows pages p (Suc n) = (if pages p = [] then [] else pages p @ listed_rows pages (Suc p) n)"
  by (simp_all add: listed_rows_def upt_conv_Cons del: upt_Suc)

lemma pageLoop_listed:
  assumes "\<And>page. pinListPage net env page w = (Inr (pages page), w)" "length acc \<le> k"
  shows "pageLoop net env pick k n p acc w = (Inr (acc @ take (k - length acc) (List.map_filter pick (listed_rows pages p n))), w)"
  using assms(2)
proof (induction n arbitrary: p acc)
  case (Suc n)
  show ?case
  proof (cases "k \<le> length acc \<or> pages p = []")
    case True
    then show ?thesis
      by (auto simp: assms(1) listed_rows_simps List.map_filter_simps)
  next
    case False
    then have c: "collectRows pick k (pages p) acc = acc @ take (k - length acc) (List.map_filter pick (pages p))"
      by (simp add: collectRows_take)
    moreover have "k - (length acc + min l (k - length acc)) = k - (length acc + l)" for l
      by (simp add: min_def)
    ultimately show ?thesis
      using False Suc.IH [of "collectRows pick k (pages p) acc" "Suc p"] Suc.prems
      by (simp add: assms(1) listed_rows_simps map_filter_append)
  qed
qed (simp add: listed_rows_simps List.map_filter_simps)

section \<open>Lemmas on addresses\<close>

lemma is_space_code: "is_space c \<longleftrightarrow> (of_char c :: nat) \<in> {32, 9, 10, 11, 12, 13, 160}"
proof -
  have "(of_char c :: nat) = of_char d \<longleftrightarrow> c = d" for d by simp
  from this [of "CHR 0x20"] this [of "CHR 0x09"] this [of "CHR 0x0A"] this [of "CHR 0x0B"] this [of "CHR 0x0C"]
    this [of "CHR 0x0D"] this [of "CHR 0xA0"]
  show ?thesis by (simp add: is_space_def)
qed

lemma is_space_lower [simp]: "is_space (lower c) \<longleftrightarrow> is_space c"
  by (auto simp: is_space_code lower_def)

lemma js_trim_lower: "js_trim (map lower s) = map lower (js_trim s)"
  by (simp add: js_trim_def dropWhile_map rev_map comp_def)

lemma js_trim_trim [simp]: "js_trim (js_trim s) = js_trim s"
proof -
  have "dropWhile is_space (rev (dropWhile is_space (rev t))) = rev (dropWhile is_space (rev t))" if "t = [] \<or> \<not> is_space (hd t)" for t
    using that by (cases t) (auto simp: dropWhile_append dropWhile_eq_Nil_conv split: if_splits)
  then have "dropWhile is_space (rev (dropWhile is_space (rev (dropWhile is_space s)))) = rev (dropWhile is_space (rev (dropWhile is_space s)))"
    using hd_dropWhile [of is_space s] by blast
  then show ?thesis
    by (simp add: js_trim_def)
qed

lemma normalizeAddress_idem [simp]: "normalizeAddress (normalizeAddress a) = normalizeAddress a"
  by (simp add: normalizeAddress_def js_trim_lower)

lemma normalizeAddress_toHex [simp]: "normalizeAddress (toHex bs) = toHex bs"
  by (simp add: normalizeAddress_def)

lemma hashAddress_cong: "normalizeAddress a = normalizeAddress b \<Longrightarrow> hashAddress p a = hashAddress p b"
  by (simp add: hashAddress_def)

section \<open>Properties of the inbox\<close>

text \<open>
  Paging does not change what is found: over a listing that stays as it is, the search by beneficiary and the
  search by beneficiary and document return the hashes of exactly the matching rows, in the order of the listing, of
  the first six pages up to the first empty one, cut at the limit.
\<close>

theorem searches_find_matching_rows:
  assumes "isConfigured env" "\<And>page. pinListPage net env page w = (Inr (pages page), w)"
  shows "listEnvelopeHashesForBeneficiary net env who limit w =
      (Inr (take (clampLimit limit 30 100) (map (\<lambda>row. opt_str (ipfs_pin_hash row)) (filter (\<lambda>row. envelopeRow row
         \<and> normalizeAddress (opt_str (keyvalues row ''beneficiary'')) = hashAddress (pf net) who) (listed_rows pages 0 6)))), w)
    \<and> findEnvelopeHashesForBeneficiaryAndDoc net env who doc limit w =
      (Inr (take (clampLimit limit 30 100) (map (\<lambda>row. opt_str (ipfs_pin_hash row)) (filter (\<lambda>row. envelopeRow row
         \<and> normalizeAddress (opt_str (keyvalues row ''beneficiary'')) = hashAddress (pf net) who
         \<and> opt_str (keyvalues row ''documentId'') = js_num doc) (listed_rows pages 0 6)))), w)"
proof -
  have b: "List.map_filter (pickBeneficiary t) rows = map (\<lambda>row. opt_str (ipfs_pin_hash row)) (filter (\<lambda>row. envelopeRow row
      \<and> normalizeAddress (opt_str (keyvalues row ''beneficiary'')) = t) rows)" for t rows
    by (induction rows) (auto simp: List.map_filter_simps pickBeneficiary_def)
  have d: "List.map_filter (pickBeneficiaryDoc t s) rows = map (\<lambda>row. opt_str (ipfs_pin_hash row)) (filter (\<lambda>row. envelopeRow row
      \<and> normalizeAddress (opt_str (keyvalues row ''beneficiary'')) = t \<and> opt_str (keyvalues row ''documentId'') = s) rows)" for t s rows
    by (induction rows) (auto simp: List.map_filter_simps pickBeneficiaryDoc_def)
  show ?thesis
    using assms(1)
    by (simp add: listEnvelopeHashesForBeneficiary_def findEnvelopeHashesForBeneficiaryAndDoc_def pageLoop_listed [OF assms(2)] b d)
qed

text \<open>What the pinning service records of a document that is pinned: its name and its key values.\<close>

definition text_prop :: "string \<Rightarrow> json \<Rightarrow> string option" where
  "text_prop k j = (case jprop k j of Some (JText s) \<Rightarrow> Some s | _ \<Rightarrow> None)"

definition sub_object :: "string \<Rightarrow> json \<Rightarrow> json" where
  "sub_object k j = (case jprop k j of Some v \<Rightarrow> v | None \<Rightarrow> JNull)"

definition listedAs :: "json \<Rightarrow> string \<Rightarrow> PinRow" where
  "listedAs body hash = (let md = sub_object ''pinataMetadata'' body in
     \<lparr>ipfs_pin_hash = Some hash, row_name = text_prop ''name'' md, keyvalues = (\<lambda>k. text_prop k (sub_object ''keyvalues'' md))\<rparr>)"

lemma listedAs_picked:
  assumes "normalizeAddress who = normalizeAddress (p_beneficiary p)" "hash \<noteq> []"
  shows "pickBeneficiary (hashAddress q who) (listedAs (pinBody q p) hash) = Some hash"
    "pickBeneficiaryDoc (hashAddress q who) (js_num (p_documentId p)) (listedAs (pinBody q p) hash) = Some hash"
  using assms(2) hashAddress_cong [OF assms(1)]
  by (simp_all add: pickBeneficiary_def pickBeneficiaryDoc_def envelopeRow_def listedAs_def pinBody_def text_prop_def sub_object_def
      opt_str_def envelopeContent_def hashAddress_def Let_def)

lemma addressedTo_ok:
  assumes "\<forall>e \<in> set es. \<exists>b. jprop ''beneficiary'' e = Some (JText b)"
  shows "addressedTo r es = Inr (filter (\<lambda>e. \<exists>b. jprop ''beneficiary'' e = Some (JText b) \<and> normalizeAddress b = r) es)"
  using assms by (induction es) auto

lemma sent_hash: "sendKeyEnvelope net env p w0 = (Inr hash, w1) \<Longrightarrow> isConfigured env \<and> hash \<noteq> []"
  by (auto simp: sendKeyEnvelope_def call_defs Let_def split: if_splits prod.splits sum.splits)

lemma map_filter_mem: "x \<in> set xs \<Longrightarrow> f x = Some y \<Longrightarrow> y \<in> set (List.map_filter f xs)"
  by (induction xs) (auto simp: List.map_filter_simps split: option.splits)

lemma pinned_content:
  "jprop ''pinataContent'' (pinBody q p) = Some (payloadJson (envelopeContent p))"
  "jprop ''beneficiary'' (payloadJson p) = Some (JText (p_beneficiary p))"
  by (simp_all add: pinBody_def payloadJson_def Let_def)

lemma stored_mem: "h \<in> set hs \<Longrightarrow> stored h = Some e \<Longrightarrow> e \<in> set (List.map_filter id (map stored hs))"
  by (induction hs) (auto simp: List.map_filter_simps split: option.splits)

lemma mapC_const_on: "(\<And>x. x \<in> set xs \<Longrightarrow> f x w = (Inr (g x), w)) \<Longrightarrow> mapC f xs w = (Inr (map g xs), w)"
  by (induction xs) (simp_all add: bindC_def returnC_def)

text \<open>
  C36. A sent envelope reaches its recipient: once a published envelope is listed with its metadata on the first six pages of the pins,
  no more than thirty envelopes are listed there for the recipient, and the gateway answers for their documents, serving that of the
  published envelope, the recipient's inbox holds it, with the key unchanged, however the recipient writes the address; everything
  else in the inbox is addressed to the recipient too. Those of the documents listed for the recipient that the gateway serves must name their
  beneficiary as a text.
\<close>

theorem sent_envelope_received:
  assumes "sendKeyEnvelope net env p w0 = (Inr hash, w1)"
    and "\<And>page. pinListPage net env page w = (Inr (pages page), w)"
    and "listedAs (pinBody (pf net) p) hash \<in> set (listed_rows pages 0 6)"
    and "hs = List.map_filter (pickBeneficiary (hashAddress (pf net) who)) (listed_rows pages 0 6)" "length hs \<le> 30"
    and "\<And>h. h \<in> set hs \<Longrightarrow> fetchEnvelopeByHash net env h w = (Inr (stored h), w)"
    and "stored hash = jprop ''pinataContent'' (pinBody (pf net) p)"
    and "\<And>h e. h \<in> set hs \<Longrightarrow> stored h = Some e \<Longrightarrow> \<exists>b. jprop ''beneficiary'' e = Some (JText b)"
    and "normalizeAddress who = normalizeAddress (p_beneficiary p)"
  shows "\<exists>items. fetchBeneficiaryInbox net env who None w = (Inr items, w)
    \<and> (\<exists>item \<in> set items. item = payloadJson (envelopeContent p) \<and> text_prop ''key'' item = Some (p_key p))
    \<and> (\<forall>item \<in> set items. \<exists>b. text_prop ''beneficiary'' item = Some b \<and> normalizeAddress b = normalizeAddress who)"
proof -
  let ?es = "List.map_filter id (map stored hs)"
  let ?mine = "\<lambda>e. \<exists>b. jprop ''beneficiary'' e = Some (JText b) \<and> normalizeAddress b = normalizeAddress who"
  let ?item = "payloadJson (envelopeContent p)"
  have sent: "isConfigured env" "hash \<noteq> []"
    using sent_hash [OF assms(1)] by blast+
  have hs: "listEnvelopeHashesForBeneficiary net env who None w = (Inr hs, w)"
    using sent(1) assms(4,5) by (simp add: listEnvelopeHashesForBeneficiary_def pageLoop_listed [OF assms(2)] clampLimit_def)
  have hash: "hash \<in> set hs"
    unfolding assms(4) using listedAs_picked(1) [OF assms(9) sent(2)] by (rule map_filter_mem [OF assms(3)])
  have item: "stored hash = Some ?item" "?mine ?item" "text_prop ''key'' ?item = Some (p_key p)"
    using assms(7,9) by (simp_all add: pinBody_def payloadJson_def envelopeContent_def text_prop_def Let_def)
  have "?item \<in> set ?es"
    using hash item(1) by (rule stored_mem)
  moreover have es: "\<forall>e \<in> set ?es. \<exists>b. jprop ''beneficiary'' e = Some (JText b)"
    using assms(8) by (auto simp: List.map_filter_def)
  moreover have "mapC (fetchEnvelopeByHash net env) hs w = (Inr (map stored hs), w)"
    by (rule mapC_const_on) (rule assms(6))
  moreover have "fetchBeneficiaryInbox net env who None w = (Inr (sort_key (\<lambda>item. - issuedTime net item) (filter ?mine ?es)), w)"
    using hash calculation(3) by (auto simp: fetchBeneficiaryInbox_def bindC_def hs addressedTo_ok [OF es] returnC_def)
  ultimately show ?thesis
    using item(2,3) by (auto simp: text_prop_def)
qed

text \<open>One document without a textual beneficiary makes the whole inbox fail.\<close>

lemma addressedTo_fails: "e \<in> set es \<Longrightarrow> (\<And>b. jprop ''beneficiary'' e \<noteq> Some (JText b)) \<Longrightarrow> addressedTo r es = Inl TypeError"
  by (induction es) (auto split: option.splits json.splits)

lemma malformed_envelope_blocks_inbox:
  assumes "isConfigured env" "\<And>page. pinListPage net env page w = (Inr (pages page), w)"
    and "\<And>h. fetchEnvelopeByHash net env h w = (Inr (stored h), w)"
    and "h \<in> set (take 30 (List.map_filter (pickBeneficiary (hashAddress (pf net) who)) (listed_rows pages 0 6)))"
    and "stored h = Some e" "\<And>b. jprop ''beneficiary'' e \<noteq> Some (JText b)"
  shows "\<exists>msg. fetchBeneficiaryInbox net env who None w = (Inl (ErrorObject (Some msg) None), w)"
proof -
  let ?hs = "take 30 (List.map_filter (pickBeneficiary (hashAddress (pf net) who)) (listed_rows pages 0 6))"
  have hs: "listEnvelopeHashesForBeneficiary net env who None w = (Inr ?hs, w)"
    using assms(1) by (simp add: listEnvelopeHashesForBeneficiary_def pageLoop_listed [OF assms(2)] clampLimit_def)
  have "e \<in> set (List.map_filter id (map stored ?hs))"
    using assms(4,5) by (rule stored_mem)
  from addressedTo_fails [OF this assms(6)] show ?thesis
    using assms(4) by (auto simp: fetchBeneficiaryInbox_def bindC_def hs mapC_const [of "fetchEnvelopeByHash net env" w stored, OF assms(3)] throwC_def)
qed

section \<open>A network for examples\<close>

definition sampleEnvelope :: KeyEnvelopePayload where
  "sampleEnvelope = \<lparr>p_version = 1, p_contract = ''c'', p_chainId = 1, p_vaultId = 2, p_documentId = 3, p_beneficiary = '' Bob '',
     p_issuedBy = ''a'', p_issuedAt = ''now'', p_key = ''secret''\<rparr>"

definition sampleVars :: env_vars where
  "sampleVars = \<lparr>VITE_IPFS_API_URL = None, VITE_PINATA_JWT = Some ''j'', VITE_PINATA_API_KEY = None, VITE_PINATA_API_SECRET = None,
     VITE_IPFS_GATEWAY = None, VITE_IPFS_PROXY_URL = None, VITE_SPOOVUALT_PROXY_SECRET = None\<rparr>"

text \<open>It pins every document under the hash \<^verbatim>\<open>Qm\<close>, lists that pin on the first page and serves the document.\<close>

definition sampleNet :: "unit net" where
  "sampleNet = \<lparr>pf = samplePlatform, clockSec = (\<lambda>w. 1000), dateParse = (\<lambda>s. Some 0), axios = (\<lambda>rq w. (Inr
     \<lparr>rs_rows = (if (''pageOffset'', js_num 0) \<in> set (rq_params rq) then Some [listedAs (pinBody samplePlatform sampleEnvelope) ''Qm''] else None),
      rs_IpfsHash = Some ''Qm'', rs_data = jprop ''pinataContent'' (pinBody samplePlatform sampleEnvelope)\<rparr>, w))\<rparr>"

definition samplePages :: "nat \<Rightarrow> PinRow list" where
  "samplePages page = (if page = 0 then [listedAs (pinBody samplePlatform sampleEnvelope) ''Qm''] else [])"

lemma sample_configured: "isConfigured sampleVars" "IPFS_PROXY_URL sampleVars = []"
  by (simp_all add: isConfigured_def sampleVars_def IPFS_PROXY_URL_def opt_str_def js_trim_def)

lemma sample_pages: "pinListPage sampleNet sampleVars page w = (Inr (samplePages page), w)"
  by (simp add: pinListPage_def sample_configured request_def call_defs sampleNet_def samplePages_def pageLimit_def)

lemma sample_rows: "listed_rows samplePages 0 6 = [listedAs (pinBody samplePlatform sampleEnvelope) ''Qm'']"
  by (simp add: listed_rows_simps samplePages_def numeral_eq_Suc)

lemma sample_gateway: "fetchEnvelopeByHash sampleNet sampleVars h w = (Inr (Some (payloadJson (envelopeContent sampleEnvelope))), w)"
  by (simp add: fetchEnvelopeByHash_def request_def sampleNet_def pinBody_def payloadJson_def Let_def)

lemma sample_platform [simp]: "pf sampleNet = samplePlatform"
  by (simp add: sampleNet_def)

lemma sample_who: "normalizeAddress ''BOB'' = normalizeAddress (p_beneficiary sampleEnvelope)"
  by (simp add: normalizeAddress_def js_trim_def is_space_def sampleEnvelope_def lower_def char_of_def bit_numeral_rec bit_0)

theorem searches_find_matching_rows_witness:
  "\<exists>hs. findEnvelopeHashesForBeneficiaryAndDoc sampleNet sampleVars ''BOB'' 4 None () = (Inr hs, ()) \<and> hs = []"
proof -
  have "opt_str (keyvalues (listedAs (pinBody samplePlatform sampleEnvelope) ''Qm'') ''documentId'') \<noteq> js_num 4"
    by (simp add: listedAs_def pinBody_def text_prop_def sub_object_def opt_str_def envelopeContent_def sampleEnvelope_def Let_def)
  with searches_find_matching_rows [OF sample_configured(1) sample_pages, where who = "''BOB''" and limit = None and doc = 4] show ?thesis
    by (simp add: sample_rows)
qed

theorem sent_envelope_received_witness:
  "\<exists>items. fetchBeneficiaryInbox sampleNet sampleVars ''BOB'' None () = (Inr items, ())
    \<and> (\<exists>item \<in> set items. text_prop ''key'' item = Some ''secret'')"
proof -
  have sent: "sendKeyEnvelope sampleNet sampleVars sampleEnvelope () = (Inr ''Qm'', ())"
    by (simp add: sendKeyEnvelope_def sample_configured request_def call_defs sampleNet_def opt_str_def)
  have "\<exists>items. fetchBeneficiaryInbox sampleNet sampleVars ''BOB'' None () = (Inr items, ())
    \<and> (\<exists>item \<in> set items. item = payloadJson (envelopeContent sampleEnvelope) \<and> text_prop ''key'' item = Some (p_key sampleEnvelope))
    \<and> (\<forall>item \<in> set items. \<exists>b. text_prop ''beneficiary'' item = Some b \<and> normalizeAddress b = normalizeAddress ''BOB'')"
    by (rule sent_envelope_received [OF sent sample_pages _ refl _ sample_gateway _ _ sample_who])
      (auto simp: sample_rows listedAs_picked(1) [OF sample_who] pinned_content List.map_filter_simps)
  then show ?thesis
    by (auto simp: sampleEnvelope_def)
qed

end
