(* ===== verification/Envelope_GC.thy ===== *)
theory Envelope_GC
  imports Key_Inbox "HOL-Library.Multiset"
begin

text \<open>
  Garbage collection of key envelopes, \<^verbatim>\<open>services/keyEnvelopeGC.service.ts\<close>: the envelopes of expired and
  rejected access requests are unpinned, for one account or in a sweep over all envelopes.

  The record \<open>gc\<close> holds the network of the inbox, the clock, and the chain's answer about the latest access requests.
  The telemetry of the module is returned as a list of messages.
\<close>

section \<open>Requests and reports\<close>

text \<open>An expiry that is not a finite number is \<open>None\<close>.\<close>

record AccessRequestData =
  rq_requestId :: nat
  rq_documentId :: nat
  rq_requester :: string
  rq_status :: int
  rq_expiresAt :: "int option"
  rq_createdAt :: int

record KeyEnvelopeGCReport =
  scannedCount :: nat
  unpinnedCount :: nat
  unpinnedHashes :: "string list"
  failedHashes :: "string list"
  dryRun :: bool
  gc_timestamp :: string

record UnpinRequestResult =
  ur_unpinned :: "string list"
  ur_failed :: "string list"
  ur_skipped :: "bool option"
  ur_reason :: "string option"

datatype telemetry =
    Info string string
  | Failure string string

record 'w gc =
  gc_net :: "'w net"
  gc_vars :: env_vars
  nowMs :: "'w \<Rightarrow> int"
  isoNow :: "'w \<Rightarrow> string"
  latestRequests :: "string \<Rightarrow> nat list \<Rightarrow> ('w, nat \<rightharpoonup> AccessRequestData) call"

definition isRequestExpiredOrRejected :: "AccessRequestData option \<Rightarrow> int \<Rightarrow> bool" where
  "isRequestExpiredOrRejected rq nowSec =
     (case rq of None \<Rightarrow> False
      | Some r \<Rightarrow>
          if rq_status r = 2 \<or> rq_status r = 3 then True
          else rq_status r = 0 \<and> (case rq_expiresAt r of None \<Rightarrow> False | Some t \<Rightarrow> t \<le> nowSec))"

section \<open>One request\<close>

definition unpinEnvelopesForRequest ::
  "'w gc \<Rightarrow> nat \<Rightarrow> string \<Rightarrow> string option \<Rightarrow> 'w \<Rightarrow> UnpinRequestResult \<times> telemetry list \<times> 'w" where
  "unpinEnvelopesForRequest g documentId beneficiary reason w =
     (if beneficiary = [] \<or> documentId = 0 then
        (\<lparr>ur_unpinned = [], ur_failed = [], ur_skipped = Some True, ur_reason = Some ''invalid_params''\<rparr>, [], w)
      else if \<not> isConfigured (gc_vars g) then
        (\<lparr>ur_unpinned = [], ur_failed = [], ur_skipped = Some True, ur_reason = Some ''ipfs_not_configured''\<rparr>, [], w)
      else case unpinEnvelopesForBeneficiaryAndDoc (gc_net g) (gc_vars g) beneficiary documentId w of
          (Inr (unpinned, failures), w') \<Rightarrow>
            (\<lparr>ur_unpinned = unpinned, ur_failed = failures, ur_skipped = None, ur_reason = None\<rparr>,
             (if 0 < length unpinned then [Info ''ipfs.unpin.gc'' (''Unpinned '' @ js_num (length unpinned) @
                '' key envelope(s) for Document #'' @ js_num documentId @ '' ('' @
                (case reason of None \<Rightarrow> ''request_expired_or_rejected'' | Some r \<Rightarrow> r) @ '')'')] else []) @
             (if 0 < length failures then [Failure ''ipfs.unpin.gc.failed'' (''Failed to unpin '' @ js_num (length failures) @
                '' key envelope(s) for Document #'' @ js_num documentId)] else []), w')
        | (Inl e, w') \<Rightarrow>
            (\<lparr>ur_unpinned = [], ur_failed = [], ur_skipped = Some False, ur_reason = Some (or_default (Some (thrown_message e)) ''unpin_error'')\<rparr>,
             [Failure ''ipfs.unpin.gc.error'' (thrown_message e)], w'))"

definition evaluateAndCleanupDoc ::
  "'w gc \<Rightarrow> nat \<Rightarrow> string \<Rightarrow> AccessRequestData option \<Rightarrow> 'w \<Rightarrow> UnpinRequestResult option \<times> telemetry list \<times> 'w" where
  "evaluateAndCleanupDoc g documentId beneficiary rq w =
     (if isRequestExpiredOrRejected rq (nowMs g w div 1000) then
        let reason = (if map_option rq_status rq = Some 2 then ''request_rejected'' else ''request_expired'') in
        case unpinEnvelopesForRequest g documentId beneficiary (Some reason) w of (r, evs, w') \<Rightarrow> (Some r, evs, w')
      else (None, [], w))"

section \<open>Sweeps\<close>

text \<open>The counters and lists a sweep fills.\<close>

record sweep =
  sw_scanned :: nat
  sw_unpinned :: "string list"
  sw_failed :: "string list"

definition sweepHash :: "'w gc \<Rightarrow> bool \<Rightarrow> string \<Rightarrow> sweep \<Rightarrow> 'w \<Rightarrow> sweep \<times> 'w" where
  "sweepHash g dry hash st w =
     (if dry then (st\<lparr>sw_unpinned := sw_unpinned st @ [hash]\<rparr>, w)
      else case unpinKeyEnvelope (gc_net g) (gc_vars g) hash w of
          (Inr b, w') \<Rightarrow> (st\<lparr>sw_unpinned := sw_unpinned st @ [hash]\<rparr>, w')
        | (Inl e, w') \<Rightarrow> (st\<lparr>sw_failed := sw_failed st @ [hash]\<rparr>, w'))"

fun sweepHashes :: "'w gc \<Rightarrow> bool \<Rightarrow> string list \<Rightarrow> sweep \<Rightarrow> 'w \<Rightarrow> sweep \<times> 'w" where
  "sweepHashes g dry [] st w = (st, w)"
| "sweepHashes g dry (hash # hashes) st w =
     (case sweepHash g dry hash st w of (st', w') \<Rightarrow> sweepHashes g dry hashes st' w')"

text \<open>The loop over the documents of an account; the first component is the exception that ended it.\<close>

fun sweepDocs ::
  "'w gc \<Rightarrow> bool \<Rightarrow> string \<Rightarrow> (nat \<rightharpoonup> AccessRequestData) \<Rightarrow> nat list \<Rightarrow> sweep \<Rightarrow> 'w \<Rightarrow> thrown option \<times> sweep \<times> 'w" where
  "sweepDocs g dry acct latest [] st w = (None, st, w)"
| "sweepDocs g dry acct latest (docId # docIds) st w =
     (let st1 = st\<lparr>sw_scanned := sw_scanned st + 1\<rparr> in
      if isRequestExpiredOrRejected (latest docId) (nowMs g w div 1000) then
        case findEnvelopeHashesForBeneficiaryAndDoc (gc_net g) (gc_vars g) acct docId None w of
          (Inl e, w1) \<Rightarrow> (Some e, st1, w1)
        | (Inr hashes, w1) \<Rightarrow>
            (case sweepHashes g dry hashes st1 w1 of (st2, w2) \<Rightarrow> sweepDocs g dry acct latest docIds st2 w2)
      else sweepDocs g dry acct latest docIds st1 w)"

definition malformedId :: "platform \<Rightarrow> PinRow \<Rightarrow> bool" where
  "malformedId p row \<longleftrightarrow>
     (case keyvalues row ''documentId'' of None \<Rightarrow> True | Some s \<Rightarrow> numOf p s = None \<or> numOf p s = Some 0)"

definition thirtyDaysMs :: int where
  "thirtyDaysMs = 30 * 24 * 60 * 60 * 1000"

definition outdated :: "'w gc \<Rightarrow> PinRow \<Rightarrow> int \<Rightarrow> bool" where
  "outdated g row now \<longleftrightarrow>
     (case dateParse (gc_net g) (opt_str (keyvalues row ''issuedAt'')) of None \<Rightarrow> False | Some t \<Rightarrow> now - t > thirtyDaysMs)"

fun sweepEnvelopes :: "'w gc \<Rightarrow> bool \<Rightarrow> (string \<times> PinRow) list \<Rightarrow> sweep \<Rightarrow> 'w \<Rightarrow> sweep \<times> 'w" where
  "sweepEnvelopes g dry [] st w = (st, w)"
| "sweepEnvelopes g dry ((hash, row) # items) st w =
     (if malformedId (pf (gc_net g)) row then
        case sweepHash g dry hash st w of (st', w') \<Rightarrow> sweepEnvelopes g dry items st' w'
      else if outdated g row (nowMs g w) then
        case sweepHash g dry hash st w of (st', w') \<Rightarrow> sweepEnvelopes g dry items st' w'
      else sweepEnvelopes g dry items st w)"

definition gcBody :: "'w gc \<Rightarrow> bool \<Rightarrow> string option \<Rightarrow> nat list option \<Rightarrow> sweep \<Rightarrow> 'w \<Rightarrow> thrown option \<times> sweep \<times> 'w" where
  "gcBody g dry acct documentIds st w =
     (if opt_str acct \<noteq> [] then
        let docIds = (case documentIds of None \<Rightarrow> [] | Some ids \<Rightarrow> ids) in
        if 0 < length docIds then
          case latestRequests g (opt_str acct) docIds w of
            (Inl e, w') \<Rightarrow> (Some e, st, w')
          | (Inr latest, w') \<Rightarrow> sweepDocs g dry (opt_str acct) latest docIds st w'
        else (None, st, w)
      else case listAllKeyEnvelopes (gc_net g) (gc_vars g) (Some 100) None w of
          (Inl e, w') \<Rightarrow> (Some e, st, w')
        | (Inr envelopes, w') \<Rightarrow>
            (case sweepEnvelopes g dry envelopes (st\<lparr>sw_scanned := length envelopes\<rparr>) w' of (st', w2) \<Rightarrow> (None, st', w2)))"

definition gcReport :: "sweep \<Rightarrow> bool \<Rightarrow> string \<Rightarrow> KeyEnvelopeGCReport" where
  "gcReport st dry time = \<lparr>scannedCount = sw_scanned st, unpinnedCount = length (sw_unpinned st), unpinnedHashes = sw_unpinned st,
     failedHashes = sw_failed st, dryRun = dry, gc_timestamp = time\<rparr>"

definition runGarbageCollection ::
  "'w gc \<Rightarrow> string option \<Rightarrow> nat list option \<Rightarrow> bool option \<Rightarrow> 'w \<Rightarrow> KeyEnvelopeGCReport \<times> telemetry list \<times> 'w" where
  "runGarbageCollection g acct documentIds dryOption w =
     (let dry = (dryOption = Some True); start = \<lparr>sw_scanned = 0, sw_unpinned = [], sw_failed = []\<rparr> in
      if \<not> isConfigured (gc_vars g) then (gcReport start dry (isoNow g w), [], w)
      else case gcBody g dry acct documentIds start w of
          (None, st, w') \<Rightarrow> (gcReport st dry (isoNow g w),
             (if 0 < length (sw_unpinned st) \<and> \<not> dry then [Info ''ipfs.unpin.gc.sweep''
                (''Garbage collector swept '' @ js_num (length (sw_unpinned st)) @ '' expired key envelope(s)'')] else []), w')
        | (Some e, st, w') \<Rightarrow> (gcReport st dry (isoNow g w), [Failure ''ipfs.unpin.gc.sweep.error'' (thrown_message e)], w'))"

section \<open>What a sweep attempts\<close>

definition tried :: "sweep \<Rightarrow> string multiset" where
  "tried st = mset (sw_unpinned st) + mset (sw_failed st)"

lemma tried_scanned [simp]: "tried (st\<lparr>sw_scanned := n\<rparr>) = tried st"
  by (simp add: tried_def)

lemma tried_sweepHash: "tried (fst (sweepHash g dry hash st w)) = tried st + {#hash#}"
  by (auto simp: tried_def sweepHash_def split: sum.splits prod.splits)

lemma tried_sweepHashes: "tried (fst (sweepHashes g dry hashes st w)) = tried st + mset hashes"
proof (induction hashes arbitrary: st w)
  case (Cons hash hashes)
  then show ?case
    using tried_sweepHash [of g dry hash st w] by (cases "sweepHash g dry hash st w") simp
qed simp

lemma sweepHash_scanned: "sw_scanned (fst (sweepHash g dry hash st w)) = sw_scanned st"
  by (auto simp: sweepHash_def split: sum.splits prod.splits)

lemma sweepHash_dry: "sweepHash g True hash st w = (st\<lparr>sw_unpinned := sw_unpinned st @ [hash]\<rparr>, w)"
  by (simp add: sweepHash_def)

text \<open>The envelopes the sweep over all envelopes removes.\<close>

definition disposable :: "'w gc \<Rightarrow> int \<Rightarrow> PinRow \<Rightarrow> bool" where
  "disposable g now row \<longleftrightarrow> malformedId (pf (gc_net g)) row \<or> outdated g row now"

lemma sweepEnvelopes_attempts:
  assumes "\<And>w. nowMs g w = now"
  shows "tried (fst (sweepEnvelopes g dry items st w)) = tried st + mset (map fst (filter (\<lambda>(h, row). disposable g now row) items))
    \<and> sw_scanned (fst (sweepEnvelopes g dry items st w)) = sw_scanned st"
proof (induction items arbitrary: st w)
  case (Cons item items)
  obtain hash row where item: "item = (hash, row)" by fastforce
  show ?case
  proof (cases "disposable g now row")
    case True
    then have "sweepEnvelopes g dry (item # items) st w =
        sweepEnvelopes g dry items (fst (sweepHash g dry hash st w)) (snd (sweepHash g dry hash st w))"
      by (auto simp: item disposable_def assms split: prod.splits)
    with True Cons.IH show ?thesis
      by (simp add: item tried_sweepHash sweepHash_scanned)
  next
    case False
    then have "sweepEnvelopes g dry (item # items) st w = sweepEnvelopes g dry items st w"
      by (auto simp: item disposable_def assms)
    with False Cons.IH show ?thesis by (simp add: item)
  qed
qed simp

lemma sweepEnvelopes_dry:
  "sweepEnvelopes g True items st w =
     (st\<lparr>sw_unpinned := sw_unpinned st @ map fst (filter (\<lambda>(h, row). disposable g (nowMs g w) row) items)\<rparr>, w)"
  by (induction items arbitrary: st) (auto simp: sweepHash_dry disposable_def)

text \<open>Calls that do not turn the clock back.\<close>

definition advances :: "('w \<Rightarrow> int) \<Rightarrow> ('w \<Rightarrow> 'r \<times> 'w) \<Rightarrow> bool" where
  "advances t f \<longleftrightarrow> (\<forall>v. t v \<le> t (snd (f v)))"

lemma advancesD: "advances t f \<Longrightarrow> f v = (x, v') \<Longrightarrow> t v \<le> t v'"
  by (metis advances_def snd_conv)

lemma advances_return: "advances t (\<lambda>v. (x v, v))" "advances t (throwC m)" "advances t (returnC a)"
  by (simp_all add: advances_def call_defs)

lemma advances_case:
  assumes "advances t f" "\<And>e. advances t (h e)" "\<And>a. advances t (g a)"
  shows "advances t (\<lambda>v. case f v of (Inl e, v') \<Rightarrow> h e v' | (Inr a, v') \<Rightarrow> g a v')"
  unfolding advances_def
proof
  fix v
  obtain x v' where fv: "f v = (x, v')" by fastforce
  have "t v \<le> t v'" by (rule advancesD [OF assms(1) fv])
  moreover have "t v' \<le> t (snd (h e v'))" "t v' \<le> t (snd (g a v'))" for e a
    using assms(2,3) by (simp_all add: advances_def)
  ultimately show "t v \<le> t (snd (case f v of (Inl e, v') \<Rightarrow> h e v' | (Inr a, v') \<Rightarrow> g a v'))"
    by (auto simp: fv split: sum.split intro: order_trans)
qed

lemma advances_seq:
  assumes "advances t f" "\<And>a. advances t (g a)"
  shows "advances t (\<lambda>v. case f v of (a, v') \<Rightarrow> g a v')"
  unfolding advances_def
proof
  fix v
  obtain x v' where fv: "f v = (x, v')" by fastforce
  have "t v \<le> t v'" by (rule advancesD [OF assms(1) fv])
  also have "\<dots> \<le> t (snd (g x v'))" using assms(2) by (simp add: advances_def)
  finally show "t v \<le> t (snd (case f v of (a, v') \<Rightarrow> g a v'))" by (simp add: fv)
qed

lemma advances_bind: "advances t f \<Longrightarrow> (\<And>a. advances t (g a)) \<Longrightarrow> advances t (bindC f g)"
  unfolding bindC_def by (rule advances_case) (simp_all add: advances_return)

lemma advances_signed: "advances t (signedHeaders net env method path body)"
  unfolding signedHeaders_def getProxySecret_def
  by (intro advances_bind) (auto simp: advances_def call_defs split: sum.split)

lemma advances_request: "(\<And>rq. advances t (axios net rq)) \<Longrightarrow> advances t (request net rq)"
  unfolding request_def by (rule advances_case) (simp_all add: advances_return)

lemma advances_page: "(\<And>rq. advances t (axios net rq)) \<Longrightarrow> advances t (pinListPage net env page)"
  unfolding pinListPage_def Let_def
  by (cases "IPFS_PROXY_URL env = []") (simp_all add: advances_bind advances_return advances_signed advances_request)

lemma advances_pages: "(\<And>rq. advances t (axios net rq)) \<Longrightarrow> advances t (pageLoop net env pick k n page acc)"
proof (induction n arbitrary: page acc)
  case (Suc n)
  have "advances t (\<lambda>v. if rows = [] then (Inr acc, v) else pageLoop net env pick k n (page + 1) (collectRows pick k rows acc) v)" for rows
    using Suc.IH [OF Suc.prems] by (cases "rows = []") (simp_all add: advances_return)
  then have "advances t (\<lambda>v. case pinListPage net env page v of (Inl e, v') \<Rightarrow> (Inl e, v')
      | (Inr rows, v') \<Rightarrow> if rows = [] then (Inr acc, v') else pageLoop net env pick k n (page + 1) (collectRows pick k rows acc) v')"
    by (intro advances_case advances_page Suc.prems advances_return)
  then show ?case by (cases "k \<le> length acc") (simp_all add: advances_def)
qed (simp add: advances_def)

lemma advances_unpin:
  assumes "\<And>rq. advances t (axios net rq)"
  shows "advances t (unpinKeyEnvelope net env hash)"
proof -
  have "advances t (deletePin net env h)" for h
    unfolding deletePin_def Let_def
    by (cases "IPFS_PROXY_URL env = []") (simp_all add: assms, intro advances_case advances_signed advances_return assms)
  moreover have "advances t (\<lambda>v. if b then (Inr True, v) else throwC m v)" for b :: bool and m
    by (cases b) (simp_all add: advances_return)
  ultimately have "advances t (\<lambda>v. case deletePin net env h v of (Inl e, v') \<Rightarrow> if er_status e = Some 404 then (Inr True, v') else throwC (unpinMessage e) v'
      | (Inr response, v') \<Rightarrow> (Inr True, v'))" for h
    by (intro advances_case advances_return)
  then show ?thesis
    by (auto simp: advances_def unpinKeyEnvelope_def unpin_def throwC_def)
qed

lemma advances_sweepHash: "(\<And>rq. advances t (axios (gc_net g) rq)) \<Longrightarrow> advances t (sweepHash g dry hash st)"
  unfolding sweepHash_def
  by (cases dry) (simp_all add: advances_return, intro advances_case advances_return advances_unpin)

lemma advances_sweepHashes: "(\<And>rq. advances t (axios (gc_net g) rq)) \<Longrightarrow> advances t (sweepHashes g dry hashes st)"
proof (induction hashes arbitrary: st)
  case (Cons hash hashes)
  have "advances t (\<lambda>v. case sweepHash g dry hash st v of (st', v') \<Rightarrow> sweepHashes g dry hashes st' v')"
    by (intro advances_seq advances_sweepHash Cons.IH Cons.prems)
  then show ?case by (simp add: advances_def)
qed (simp add: advances_def)

lemma advances_find:
  "(\<And>rq. advances t (axios net rq)) \<Longrightarrow> advances t (findEnvelopeHashesForBeneficiaryAndDoc net env who doc limit)"
  by (simp add: findEnvelopeHashesForBeneficiaryAndDoc_def advances_pages advances_return)

lemma advances_sweepDocs:
  assumes "\<And>rq. advances t (axios (gc_net g) rq)" "sweepDocs g dry who latest docIds st w = (r, st', w')"
  shows "t w \<le> t w'"
  using assms(2)
proof (induction docIds arbitrary: st w)
  case (Cons doc docIds)
  show ?case
  proof (cases "isRequestExpiredOrRejected (latest doc) (nowMs g w div 1000)")
    case True
    obtain x w1 where found: "findEnvelopeHashesForBeneficiaryAndDoc (gc_net g) (gc_vars g) who doc None w = (x, w1)" by fastforce
    then have w1: "t w \<le> t w1" by (rule advancesD [OF advances_find [OF assms(1)]])
    show ?thesis
    proof (cases x)
      case (Inr hs)
      obtain st2 w2 where st2: "sweepHashes g dry hs (st\<lparr>sw_scanned := sw_scanned st + 1\<rparr>) w1 = (st2, w2)" by fastforce
      then have "t w1 \<le> t w2" by (rule advancesD [OF advances_sweepHashes [OF assms(1)]])
      moreover have "t w2 \<le> t w'" using True found Inr st2 Cons.prems by (intro Cons.IH [of st2 w2]) simp
      ultimately show ?thesis using w1 by simp
    qed (use True found w1 Cons.prems in simp)
  qed (use Cons in auto)
qed simp

lemma collectRows_picked: "x \<in> set (collectRows pick k rows acc) \<Longrightarrow> x \<in> set acc \<or> (\<exists>row \<in> set rows. pick row = Some x)"
proof (induction rows arbitrary: acc)
  case (Cons row rows)
  then show ?case
    by (cases "pick row") (auto simp: Let_def split: if_splits, fastforce)
qed simp

text \<open>\<open>L\<close> holds the rows that the pinning service lists at any time.\<close>

definition lists_only :: "'w net \<Rightarrow> env_vars \<Rightarrow> PinRow set \<Rightarrow> bool" where
  "lists_only net env L \<longleftrightarrow> (\<forall>page v rows v'. pinListPage net env page v = (Inr rows, v') \<longrightarrow> set rows \<subseteq> L)"

lemma pageLoop_picked:
  assumes "lists_only net env L"
  shows "pageLoop net env pick k n page acc w = (Inr xs, w') \<Longrightarrow> x \<in> set xs \<Longrightarrow> x \<in> set acc \<or> (\<exists>row \<in> L. pick row = Some x)"
proof (induction n arbitrary: page acc w)
  case (Suc n)
  from Suc.prems(1) consider "xs = acc"
    | rows w'' where "pinListPage net env page w = (Inr rows, w'')" "pageLoop net env pick k n (page + 1) (collectRows pick k rows acc) w'' = (Inr xs, w')"
    by (auto split: if_splits prod.splits sum.splits)
  then show ?case
  proof cases
    case 2
    have "set rows \<subseteq> L" using assms 2(1) unfolding lists_only_def by blast
    with Suc.IH [OF 2(2) Suc.prems(2)] collectRows_picked [of x pick k rows acc] show ?thesis by blast
  qed (use Suc.prems(2) in simp)
qed simp

lemma found_row:
  assumes "lists_only net env L" "findEnvelopeHashesForBeneficiaryAndDoc net env who doc limit w = (Inr hs, w')" "h \<in> set hs"
  shows "\<exists>row \<in> L. pickBeneficiaryDoc (hashAddress (pf net) who) (js_num doc) row = Some h"
proof -
  have "pageLoop net env (pickBeneficiaryDoc (hashAddress (pf net) who) (js_num doc)) (clampLimit limit 30 100) 6 0 [] w = (Inr hs, w')"
    using assms(2) by (simp add: findEnvelopeHashesForBeneficiaryAndDoc_def throwC_def split: if_splits)
  from pageLoop_picked [OF assms(1) this assms(3)] show ?thesis by simp
qed

lemma sweepDocs_attempts:
  assumes "lists_only (gc_net g) (gc_vars g) L" "\<And>rq. advances (nowMs g) (axios (gc_net g) rq)"
    and "sweepDocs g dry who latest docIds st w = (r, st', w')" "h \<in># tried st'"
  shows "h \<in># tried st \<or> (\<exists>doc \<in> set docIds. (\<exists>now \<le> nowMs g w'. isRequestExpiredOrRejected (latest doc) (now div 1000))
    \<and> (\<exists>row \<in> L. pickBeneficiaryDoc (hashAddress (pf (gc_net g)) who) (js_num doc) row = Some h))"
  using assms(3,4)
proof (induction docIds arbitrary: st w)
  case (Cons doc docIds)
  let ?st1 = "st\<lparr>sw_scanned := sw_scanned st + 1\<rparr>"
  have time: "nowMs g w \<le> nowMs g w'" by (rule advances_sweepDocs [OF assms(2) Cons.prems(1)])
  show ?case
  proof (cases "isRequestExpiredOrRejected (latest doc) (nowMs g w div 1000)")
    case True
    obtain x w1 where found: "findEnvelopeHashesForBeneficiaryAndDoc (gc_net g) (gc_vars g) who doc None w = (x, w1)" by fastforce
    show ?thesis
    proof (cases x)
      case (Inl e)
      with True found Cons.prems have "st' = ?st1" by simp
      with Cons.prems(2) show ?thesis by simp
    next
      case (Inr hs)
      obtain st2 w2 where st2: "sweepHashes g dry hs ?st1 w1 = (st2, w2)" by fastforce
      then have "tried st2 = tried st + mset hs"
        using tried_sweepHashes [of g dry hs ?st1 w1] by simp
      moreover have "sweepDocs g dry who latest docIds st2 w2 = (r, st', w')"
        using True found Inr st2 Cons.prems(1) by simp
      ultimately have "h \<in># tried st + mset hs \<or> (\<exists>doc \<in> set docIds. (\<exists>now \<le> nowMs g w'. isRequestExpiredOrRejected (latest doc) (now div 1000))
          \<and> (\<exists>row \<in> L. pickBeneficiaryDoc (hashAddress (pf (gc_net g)) who) (js_num doc) row = Some h))"
        using Cons.IH [of st2 w2] Cons.prems(2) by simp
      then show ?thesis
        using True time found_row [OF assms(1) found [unfolded Inr]] by auto
    qed
  next
    case False
    with Cons.prems Cons.IH [of ?st1 w] show ?thesis by auto
  qed
qed simp

section \<open>Properties of the collector\<close>

text \<open>
  The sweep over all envelopes: a dry run removes nothing, reports no failure, and lists the envelopes, among
  the first hundred, whose document number is malformed or whose date is more than thirty days old, whatever the
  state of the access requests they belong to; a real run on the same listing tries to remove exactly these and
  sorts them into removed and failed ones.
\<close>

theorem dry_run_previews_sweep:
  assumes "isConfigured (gc_vars g)" "\<And>w. nowMs g w = now"
    and "listAllKeyEnvelopes (gc_net g) (gc_vars g) (Some 100) None w = (Inr envelopes, w1)"
    and "runGarbageCollection g None ids (Some True) w = (preview, tel, w2)"
    and "runGarbageCollection g None ids None w = (report, tel', w3)"
  shows "unpinnedHashes preview = map fst (filter (\<lambda>(h, row). malformedId (pf (gc_net g)) row \<or> outdated g row now) envelopes)
    \<and> failedHashes preview = [] \<and> w2 = w1 \<and> tel = []
    \<and> mset (unpinnedHashes report) + mset (failedHashes report) = mset (unpinnedHashes preview)
    \<and> scannedCount report = scannedCount preview"
proof -
  let ?st = "\<lparr>sw_scanned = length envelopes, sw_unpinned = [], sw_failed = []\<rparr>"
  have d: "(\<lambda>(h, row). malformedId (pf (gc_net g)) row \<or> outdated g row now) = (\<lambda>(h :: string, row). disposable g now row)"
    by (simp add: disposable_def)
  have "preview = gcReport (?st\<lparr>sw_unpinned := map fst (filter (\<lambda>(h, row). disposable g now row) envelopes)\<rparr>) True (isoNow g w)"
      "w2 = w1" "tel = []"
    using assms(1,3,4) by (auto simp: runGarbageCollection_def gcBody_def opt_str_def sweepEnvelopes_dry assms(2))
  moreover have "report = gcReport (fst (sweepEnvelopes g False envelopes ?st w1)) False (isoNow g w)"
    using assms(1,3,5) by (auto simp: runGarbageCollection_def gcBody_def opt_str_def split: prod.splits)
  ultimately show ?thesis
    using sweepEnvelopes_attempts [OF assms(2), of False envelopes ?st w1] unfolding d by (simp add: gcReport_def tried_def)
qed

definition sampleGC :: "unit gc" where
  "sampleGC = \<lparr>gc_net = sampleNet, gc_vars = sampleVars, nowMs = (\<lambda>w. 5000000000), isoNow = (\<lambda>w. ''now''),
     latestRequests = (\<lambda>who ids w. (Inr [3 \<mapsto> \<lparr>rq_requestId = 7, rq_documentId = 3, rq_requester = ''bob'', rq_status = 2,
       rq_expiresAt = None, rq_createdAt = 0\<rparr>], w))\<rparr>"

lemma sampleGC_simps [simp]:
  "gc_net sampleGC = sampleNet" "gc_vars sampleGC = sampleVars" "nowMs sampleGC w = 5000000000"
  by (simp_all add: sampleGC_def)

lemma sample_unpin: "unpinKeyEnvelope sampleNet sampleVars ''Qm'' w = (Inr True, w)"
  by (simp add: unpinKeyEnvelope_def unpin_def deletePin_def sample_configured js_trim_def is_space_def sampleNet_def)

lemma sample_all: "listAllKeyEnvelopes sampleNet sampleVars (Some 100) None w = (Inr [(''Qm'', listedAs (pinBody samplePlatform sampleEnvelope) ''Qm'')], w)"
proof -
  let ?row = "listedAs (pinBody samplePlatform sampleEnvelope) ''Qm''"
  have "pickEnvelope ?row = Some (''Qm'', ?row)"
    using listedAs_picked(1) [OF sample_who, of "''Qm''" samplePlatform]
    by (auto simp: pickEnvelope_def pickBeneficiary_def split: if_splits)
  moreover have "listed_rows samplePages 0 10 = [?row]"
    by (simp add: listed_rows_simps samplePages_def numeral_eq_Suc)
  ultimately show ?thesis
    by (simp add: listAllKeyEnvelopes_def sample_configured pageLoop_listed [OF sample_pages] clampLimit_def List.map_filter_simps)
qed

theorem dry_run_previews_sweep_witness:
  "\<exists>preview tel report tel'. runGarbageCollection sampleGC None None (Some True) () = (preview, tel, ())
    \<and> runGarbageCollection sampleGC None None None () = (report, tel', ())
    \<and> unpinnedHashes preview = [''Qm''] \<and> mset (unpinnedHashes report) + mset (failedHashes report) = {#''Qm''#}"
proof -
  obtain preview tel where p: "runGarbageCollection sampleGC None None (Some True) () = (preview, tel, ())"
    by (metis prod_cases3 old.unit.exhaust)
  obtain report tel' where r: "runGarbageCollection sampleGC None None None () = (report, tel', ())"
    by (metis prod_cases3 old.unit.exhaust)
  have "outdated sampleGC row 5000000000" for row
    by (simp add: outdated_def sampleNet_def thirtyDaysMs_def)
  with dry_run_previews_sweep [of sampleGC "5000000000", OF _ _ sample_all [folded sampleGC_simps(1,2)] p r] sample_configured(1) p r
  show ?thesis by auto
qed

text \<open>
  C37. Collecting for an account spares live requests. Let \<open>L\<close> hold the rows that the pinning service lists, every hash with one set of key
  values, and let no call turn the clock back. Then every envelope the collector removes or fails to remove, also when it ends early
  with an error, is listed, and every row listed for its hash names that account and one and the same document of the given list, whose
  latest access request is rejected, is marked expired, or is pending with an expiry time that has come by the end of the collection.
\<close>

theorem collection_spares_live_requests:
  assumes "runGarbageCollection g (Some who) (Some docIds) None w = (report, tel, w')"
    and "who \<noteq> []" "docIds \<noteq> []" "latestRequests g who docIds w = (Inr latest, w1)"
    and "h \<in> set (unpinnedHashes report) \<union> set (failedHashes report)"
    and "lists_only (gc_net g) (gc_vars g) L"
    and "\<forall>r \<in> L. \<forall>r' \<in> L. ipfs_pin_hash r = ipfs_pin_hash r' \<longrightarrow> keyvalues r = keyvalues r'"
    and "\<And>rq. advances (nowMs g) (axios (gc_net g) rq)"
  shows "\<exists>doc \<in> set docIds. \<exists>rq. latest doc = Some rq
    \<and> (rq_status rq = 2 \<or> rq_status rq = 3 \<or> rq_status rq = 0 \<and> (\<exists>t. rq_expiresAt rq = Some t \<and> t \<le> nowMs g w' div 1000))
    \<and> (\<exists>row \<in> L. envelopeRow row \<and> ipfs_pin_hash row = Some h)
    \<and> (\<forall>row \<in> L. ipfs_pin_hash row = Some h \<longrightarrow> opt_str (keyvalues row ''documentId'') = js_num doc
         \<and> normalizeAddress (opt_str (keyvalues row ''beneficiary'')) = hashAddress (pf (gc_net g)) who)"
proof -
  let ?st = "\<lparr>sw_scanned = 0, sw_unpinned = [], sw_failed = []\<rparr>"
  have conf: "isConfigured (gc_vars g)"
  proof (rule ccontr)
    assume "\<not> isConfigured (gc_vars g)"
    then show False using assms(1,5) by (auto simp: runGarbageCollection_def gcReport_def)
  qed
  obtain r st w2 where swept: "sweepDocs g False who latest docIds ?st w1 = (r, st, w2)"
    using prod_cases3 by blast
  then have out: "unpinnedHashes report = sw_unpinned st \<and> failedHashes report = sw_failed st \<and> w2 = w'"
    using assms(1,2,3,4) conf
    by (auto simp: runGarbageCollection_def gcBody_def opt_str_def gcReport_def split: option.splits)
  with assms(5) have "h \<in># tried st"
    by (auto simp: tried_def)
  from sweepDocs_attempts [OF assms(6,8) swept this] obtain doc now row where
    doc: "doc \<in> set docIds" "now \<le> nowMs g w'" "isRequestExpiredOrRejected (latest doc) (now div 1000)"
      "row \<in> L" "pickBeneficiaryDoc (hashAddress (pf (gc_net g)) who) (js_num doc) row = Some h"
    using out by (auto simp: tried_def)
  have "now div 1000 \<le> nowMs g w' div 1000" using doc(2) by (simp add: zdiv_mono1)
  with doc(3) obtain rq where rq: "latest doc = Some rq"
      "rq_status rq = 2 \<or> rq_status rq = 3 \<or> rq_status rq = 0 \<and> (\<exists>t. rq_expiresAt rq = Some t \<and> t \<le> nowMs g w' div 1000)"
    by (auto simp: isRequestExpiredOrRejected_def split: option.splits if_splits)
  from doc(5) have row: "envelopeRow row" "ipfs_pin_hash row = Some h" "opt_str (keyvalues row ''documentId'') = js_num doc"
      "normalizeAddress (opt_str (keyvalues row ''beneficiary'')) = hashAddress (pf (gc_net g)) who"
    by (auto simp: pickBeneficiaryDoc_def envelopeRow_def opt_str_def split: if_splits option.splits)
  have "opt_str (keyvalues r' ''documentId'') = js_num doc \<and> normalizeAddress (opt_str (keyvalues r' ''beneficiary'')) = hashAddress (pf (gc_net g)) who"
    if "r' \<in> L" "ipfs_pin_hash r' = Some h" for r'
  proof -
    have "ipfs_pin_hash r' = ipfs_pin_hash row" using that(2) row(2) by simp
    then have "keyvalues r' = keyvalues row" by (rule assms(7) [THEN bspec [OF _ that(1)], THEN bspec [OF _ doc(4)], THEN mp])
    with row show ?thesis by simp
  qed
  then show ?thesis
    using rq row(1,2) by (intro bexI [OF _ doc(1)] exI [of _ rq] conjI bexI [OF _ doc(4)]) simp_all
qed

lemma sample_lists: "lists_only sampleNet sampleVars {listedAs (pinBody samplePlatform sampleEnvelope) ''Qm''}"
  by (auto simp: lists_only_def sample_pages samplePages_def split: if_splits)

theorem collection_spares_live_requests_witness:
  "\<exists>report tel. runGarbageCollection sampleGC (Some ''BOB'') (Some [3, 4]) None () = (report, tel, ())
    \<and> ''Qm'' \<in> set (unpinnedHashes report) \<and> (\<exists>doc \<in> set [3, 4 :: nat].
      opt_str (keyvalues (listedAs (pinBody samplePlatform sampleEnvelope) ''Qm'') ''documentId'') = js_num doc)"
proof -
  let ?latest = "[3 \<mapsto> \<lparr>rq_requestId = 7, rq_documentId = 3, rq_requester = ''bob'', rq_status = 2, rq_expiresAt = None, rq_createdAt = 0\<rparr>]"
  let ?L = "{listedAs (pinBody samplePlatform sampleEnvelope) ''Qm''}"
  have l: "latestRequests sampleGC ''BOB'' [3, 4] () = (Inr ?latest, ())"
    by (simp add: sampleGC_def)
  have f: "findEnvelopeHashesForBeneficiaryAndDoc sampleNet sampleVars ''BOB'' 3 None () = (Inr [''Qm''], ())"
    using listedAs_picked(2) [OF sample_who, of "''Qm''" samplePlatform]
    by (simp add: findEnvelopeHashesForBeneficiaryAndDoc_def sample_configured pageLoop_listed [OF sample_pages] clampLimit_def
        sample_rows List.map_filter_simps sampleEnvelope_def)
  obtain report tel where r: "runGarbageCollection sampleGC (Some ''BOB'') (Some [3, 4]) None () = (report, tel, ())"
    by (metis prod_cases3 old.unit.exhaust)
  then have m: "''Qm'' \<in> set (unpinnedHashes report)"
    by (auto simp: runGarbageCollection_def gcBody_def opt_str_def sample_configured l isRequestExpiredOrRejected_def f sweepHash_def
        sample_unpin gcReport_def)
  have "''Qm'' \<in> set (unpinnedHashes report) \<union> set (failedHashes report)" using m by simp
  moreover have "advances (nowMs sampleGC) (axios (gc_net sampleGC) rq)" for rq by (simp add: advances_def)
  moreover have "ipfs_pin_hash (listedAs (pinBody samplePlatform sampleEnvelope) ''Qm'') = Some ''Qm''" by (simp add: listedAs_def Let_def)
  ultimately have "\<exists>doc \<in> set [3, 4 :: nat]. opt_str (keyvalues (listedAs (pinBody samplePlatform sampleEnvelope) ''Qm'') ''documentId'') = js_num doc"
    using collection_spares_live_requests [OF r list.distinct(2) list.distinct(2) l, of "''Qm''" ?L] sample_lists by fastforce
  with r m show ?thesis by blast
qed

end
