(* ===== verification/Key_Cache.thy ===== *)
theory Key_Cache
  imports Keyed_Store JS_Text "HOL-Library.Word"
begin

text \<open>
  The decrypted private keys held in memory while a session is unlocked, the session part of
  \<^verbatim>\<open>services/clientKeyring.service.ts\<close>, with the management tokens of \<^verbatim>\<open>services/opaqueKeyring.service.ts\<close>.

  A key is a byte array, and other code may hold a reference to it: the arrays live in a store \<open>buffers\<close> of
  addresses, and the session cache maps accounts to addresses. Random bytes come from \<open>rnd\<close>, indexed by the number of
  the draw and the position; \<open>hasCrypto\<close> says whether the platform offers them.
\<close>

section \<open>State\<close>

type_synonym random = "nat \<Rightarrow> nat \<Rightarrow> 8 word"

record memory =
  buffers :: "nat \<Rightarrow> 8 word list"
  allocated :: nat
  sessionKeyCache :: "(string, nat) js_map"
  managementTokens :: "string \<rightharpoonup> string"
  draws :: nat

definition emptyMemory :: memory where
  "emptyMemory = \<lparr>buffers = (\<lambda>a. []), allocated = 0, sessionKeyCache = [], managementTokens = Map.empty, draws = 0\<rparr>"

text \<open>
  \<^verbatim>\<open>crypto.getRandomValues\<close> overwrites an array in place; an array of more than \<open>randomQuota\<close> bytes it refuses with an exception.
\<close>

definition randomQuota :: nat where
  "randomQuota = 65536"

definition getRandomValues :: "random \<Rightarrow> nat \<Rightarrow> memory \<Rightarrow> memory" where
  "getRandomValues rnd a m = m\<lparr>buffers := (buffers m)(a := map (rnd (draws m)) [0..<length (buffers m a)]), draws := draws m + 1\<rparr>"

definition fillZero :: "nat \<Rightarrow> memory \<Rightarrow> memory" where
  "fillZero a m = m\<lparr>buffers := (buffers m)(a := replicate (length (buffers m a)) 0)\<rparr>"

section \<open>Operations\<close>

definition cachePrivateKey :: "string \<Rightarrow> 8 word list \<Rightarrow> memory \<Rightarrow> memory" where
  "cachePrivateKey who privateKey m =
     m\<lparr>buffers := (buffers m)(allocated m := privateKey), allocated := allocated m + 1,
       sessionKeyCache := map_set who (allocated m) (sessionKeyCache m)\<rparr>"

definition readCachedPrivateKey :: "string \<Rightarrow> memory \<Rightarrow> 8 word list option" where
  "readCachedPrivateKey who m = map_option (buffers m) (map_of (sessionKeyCache m) who)"

definition wipeCachedPrivateKey :: "random \<Rightarrow> bool \<Rightarrow> string \<Rightarrow> memory \<Rightarrow> memory" where
  "wipeCachedPrivateKey rnd hasCrypto who m =
     (case map_of (sessionKeyCache m) who of
        None \<Rightarrow> m
      | Some a \<Rightarrow>
          let m1 = (if hasCrypto \<and> length (buffers m a) \<le> randomQuota then getRandomValues rnd a m else m);
              m2 = fillZero a m1
          in m2\<lparr>sessionKeyCache := map_delete who (sessionKeyCache m2)\<rparr>)"

definition isUnlocked :: "string \<Rightarrow> memory \<Rightarrow> bool" where
  "isUnlocked who m \<longleftrightarrow> who \<noteq> [] \<and> map_of (sessionKeyCache m) (map lower who) \<noteq> None"

definition lockAccount :: "random \<Rightarrow> bool \<Rightarrow> string \<Rightarrow> memory \<Rightarrow> memory" where
  "lockAccount rnd hasCrypto who m =
     (if who = [] then m
      else let m1 = wipeCachedPrivateKey rnd hasCrypto (map lower who) m
           in m1\<lparr>managementTokens := (managementTokens m1)(map lower who := None)\<rparr>)"

text \<open>The iterator over the keys is live: the keys are visited in order while the visited entry is deleted.\<close>

definition clearSessionCache :: "random \<Rightarrow> bool \<Rightarrow> memory \<Rightarrow> memory" where
  "clearSessionCache rnd hasCrypto m =
     (let m1 = fold (wipeCachedPrivateKey rnd hasCrypto) (map fst (sessionKeyCache m)) m
      in m1\<lparr>managementTokens := Map.empty\<rparr>)"

definition getUnlockedAccounts :: "memory \<Rightarrow> string list" where
  "getUnlockedAccounts m = map fst (sessionKeyCache m)"

text \<open>The reference to the cached array, not a copy.\<close>

definition getCachedPrivateKeyBytes :: "string \<Rightarrow> memory \<Rightarrow> nat option" where
  "getCachedPrivateKeyBytes who m = (if who = [] then None else map_of (sessionKeyCache m) (map lower who))"

section \<open>Wiping\<close>

lemma getRandomValues_frame [simp]:
  "length (buffers (getRandomValues rnd a m) b) = length (buffers m b)"
  "b \<noteq> a \<Longrightarrow> buffers (getRandomValues rnd a m) b = buffers m b"
  "sessionKeyCache (getRandomValues rnd a m) = sessionKeyCache m"
  by (simp_all add: getRandomValues_def)

lemma fillZero_frame [simp]:
  "buffers (fillZero a m) b = (if b = a then replicate (length (buffers m a)) 0 else buffers m b)"
  "sessionKeyCache (fillZero a m) = sessionKeyCache m"
  by (simp_all add: fillZero_def)

lemma wipe_frame:
  "sessionKeyCache (wipeCachedPrivateKey rnd c who m) = map_delete who (sessionKeyCache m)"
  "buffers (wipeCachedPrivateKey rnd c who m) b =
     (if map_of (sessionKeyCache m) who = Some b then replicate (length (buffers m b)) 0 else buffers m b)"
proof -
  have "map_delete who (sessionKeyCache m) = sessionKeyCache m" if "map_of (sessionKeyCache m) who = None"
    using that by (auto simp: map_delete_def map_of_eq_None_iff filter_id_conv)
  then show "sessionKeyCache (wipeCachedPrivateKey rnd c who m) = map_delete who (sessionKeyCache m)"
    "buffers (wipeCachedPrivateKey rnd c who m) b =
       (if map_of (sessionKeyCache m) who = Some b then replicate (length (buffers m b)) 0 else buffers m b)"
    by (auto simp: wipeCachedPrivateKey_def Let_def split: option.splits)
qed

lemma map_delete_all: "fold map_delete ks m = filter (\<lambda>e. fst e \<notin> set ks) m"
  by (induction ks arbitrary: m) (auto simp: map_delete_def intro: filter_cong)

lemma wipes_frame:
  "sessionKeyCache (fold (wipeCachedPrivateKey rnd c) ks m) = fold map_delete ks (sessionKeyCache m)"
  "length (buffers (fold (wipeCachedPrivateKey rnd c) ks m) b) = length (buffers m b)"
  by (induction ks arbitrary: m) (simp_all add: wipe_frame)

lemma zero_stays: "buffers m a = replicate n 0 \<Longrightarrow> buffers (fold (wipeCachedPrivateKey rnd c) ks m) a = replicate n 0"
  by (induction ks arbitrary: m) (simp_all add: wipe_frame)

lemma wipes_zero:
  "map_of (sessionKeyCache m) who = Some a \<Longrightarrow> who \<in> set ks \<Longrightarrow>
     buffers (fold (wipeCachedPrivateKey rnd c) ks m) a = replicate (length (buffers m a)) 0"
proof (induction ks arbitrary: m)
  case (Cons k ks)
  show ?case
  proof (cases "map_of (sessionKeyCache m) k = Some a")
    case True
    then show ?thesis by (simp add: zero_stays wipe_frame)
  next
    case False
    with Cons.prems have "k \<noteq> who" "who \<in> set ks" by auto
    with False Cons.prems Cons.IH [of "wipeCachedPrivateKey rnd c k m"] show ?thesis
      by (simp add: wipe_frame)
  qed
qed simp

text \<open>The arrays the session cache refers to.\<close>

definition cachedBuffers :: "memory \<Rightarrow> nat set" where
  "cachedBuffers m = ran (map_of (sessionKeyCache m))"

lemma cachedBuffers_getRandomValues [simp]: "cachedBuffers (getRandomValues rnd a m) = cachedBuffers m"
  by (simp add: cachedBuffers_def)

lemma clearSessionCache_empty [simp]: "sessionKeyCache (clearSessionCache rnd c m) = []"
  by (auto simp: clearSessionCache_def wipes_frame map_delete_all Let_def filter_empty_conv)

lemma clearSessionCache_zero:
  "a \<in> cachedBuffers m \<Longrightarrow> buffers (clearSessionCache rnd c m) a = replicate (length (buffers m a)) 0"
proof -
  assume "a \<in> cachedBuffers m"
  then obtain who where "map_of (sessionKeyCache m) who = Some a"
    by (auto simp: cachedBuffers_def ran_def)
  moreover from this have "who \<in> set (map fst (sessionKeyCache m))"
    by (metis domI dom_map_of_conv_image_fst set_map)
  ultimately show ?thesis
    by (simp add: clearSessionCache_def Let_def wipes_zero)
qed

lemma clearSessionCache_other: "a \<notin> cachedBuffers m \<Longrightarrow> buffers (clearSessionCache rnd c m) a = buffers m a"
proof -
  have "buffers (fold (wipeCachedPrivateKey rnd c) ks m) a = buffers m a" if "a \<notin> cachedBuffers m" for ks m
    using that
  proof (induction ks arbitrary: m)
    case (Cons k ks)
    have "map_of (sessionKeyCache m) k \<noteq> Some a" using Cons.prems by (auto simp: cachedBuffers_def ran_def)
    moreover have "a \<notin> cachedBuffers (wipeCachedPrivateKey rnd c k m)"
      using Cons.prems by (auto simp: cachedBuffers_def ran_def wipe_frame split: if_splits)
    ultimately show ?case using Cons.IH by (simp add: wipe_frame)
  qed simp
  then show "a \<notin> cachedBuffers m \<Longrightarrow> ?thesis" by (simp add: clearSessionCache_def Let_def)
qed

text \<open>
  Caching the key of an account again replaces the reference: the array of the first key is not wiped, neither then nor when the
  cache is cleared.
\<close>

theorem recached_key_survives:
  assumes "allocated m \<notin> cachedBuffers m"
  shows "buffers (clearSessionCache rnd c (cachePrivateKey who key' (cachePrivateKey who key m))) (allocated m) = key"
proof -
  let ?m = "cachePrivateKey who key' (cachePrivateKey who key m)"
  have "map_of (sessionKeyCache ?m) k \<noteq> Some (allocated m)" for k
    using assms by (auto simp: cachePrivateKey_def cachedBuffers_def ran_def)
  then have "allocated m \<notin> cachedBuffers ?m" by (auto simp: cachedBuffers_def ran_def)
  then show ?thesis by (simp add: clearSessionCache_other cachePrivateKey_def)
qed

section \<open>The interface of the cache\<close>

text \<open>
  What a client that ends a session relies on: arrays can be overwritten in place without the cache losing track of
  them, and clearing the cache zeroes every array it refers to.
\<close>

locale key_store =
  fixes refs :: "'s \<Rightarrow> 'a set" and content :: "'s \<Rightarrow> 'a \<Rightarrow> 8 word list"
    and overwrite :: "'a \<Rightarrow> 's \<Rightarrow> 's" and clear :: "'s \<Rightarrow> 's"
  assumes refs_overwrite: "refs (overwrite a s) = refs s"
    and length_overwrite: "length (content (overwrite a s) b) = length (content s b)"
    and refs_clear: "refs (clear s) = {}"
    and content_clear: "a \<in> refs s \<Longrightarrow> content (clear s) a = replicate (length (content s a)) 0"
begin

lemma refs_overwrites: "refs (fold overwrite as s) = refs s"
  by (induction as arbitrary: s) (simp_all add: refs_overwrite)

lemma length_overwrites: "length (content (fold overwrite as s) b) = length (content s b)"
  by (induction as arbitrary: s) (simp_all add: length_overwrite)

lemma purged: "a \<in> refs s \<Longrightarrow> content (clear (fold overwrite as s)) a = replicate (length (content s a)) 0"
  by (simp add: content_clear refs_overwrites length_overwrites)

end

interpretation keys: key_store cachedBuffers buffers "getRandomValues rnd" "clearSessionCache rnd c"
  by unfold_locales (simp_all add: clearSessionCache_zero, simp add: cachedBuffers_def)

end
