(* ===== verification/Session_Lock.thy ===== *)
theory Session_Lock
  imports Complex_Main Key_Cache
begin

text \<open>
  The session lock, \<^verbatim>\<open>services/sessionLock.service.ts\<close>: after a time without activity, or when the page is hidden
  or loses the focus, the decrypted keys are overwritten and dropped and the user interface is told to lock.

  The browser is part of the state: the registered listeners, the pending timers with their due times, the clock,
  the visibility of the page and the exceptions that no handler caught. A timer fires at its due time or later. The accounts to lock
  are computed from the accounts that are unlocked, as the caller in \<^verbatim>\<open>hooks/useSessionLock.ts\<close> does. The flag \<open>hasCrypto\<close> says whether
  the platform has Web Crypto, whose random generator throws for arrays above its quota.
\<close>

section \<open>State\<close>

datatype event_target = Window | Document

datatype listener = ActivityHandler | VisibilityHandler | BlurHandler

record SessionLockManager =
  idleTimeoutMs :: int
  accountsProvider :: "(string set \<Rightarrow> string list) option"
  idleTimer :: "nat option"
  mgr_running :: bool
  listeners :: "(event_target \<times> string \<times> listener) list"
  timers :: "nat \<rightharpoonup> int"
  nextTimer :: nat
  clock :: int
  isHidden :: bool
  mem :: memory
  locks :: "string list list"
  uncaught :: "exn list"

definition MIN_IDLE_MS :: int where
  "MIN_IDLE_MS = 60000"

definition MAX_IDLE_MS :: int where
  "MAX_IDLE_MS = 15 * 60000"

definition DEFAULT_IDLE_MS :: int where
  "DEFAULT_IDLE_MS = 5 * 60000"

text \<open>The argument is \<open>None\<close> when it is missing or not a finite number.\<close>

definition clampIdleTimeout :: "rat option \<Rightarrow> int" where
  "clampIdleTimeout ms = (case ms of None \<Rightarrow> DEFAULT_IDLE_MS | Some t \<Rightarrow> min MAX_IDLE_MS (max MIN_IDLE_MS \<lfloor>t\<rfloor>))"

definition newSessionLockManager :: "rat option \<Rightarrow> (string set \<Rightarrow> string list) option \<Rightarrow> memory \<Rightarrow> SessionLockManager" where
  "newSessionLockManager ms provider m = \<lparr>idleTimeoutMs = clampIdleTimeout ms, accountsProvider = provider, idleTimer = None,
     mgr_running = False, listeners = [], timers = Map.empty, nextTimer = 1, clock = 0, isHidden = False, mem = m, locks = [], uncaught = []\<rparr>"

section \<open>Browser primitives\<close>

text \<open>Registering a listener twice has no effect.\<close>

definition addEventListener :: "event_target \<Rightarrow> string \<Rightarrow> listener \<Rightarrow> SessionLockManager \<Rightarrow> SessionLockManager" where
  "addEventListener target type handler s =
     (if (target, type, handler) \<in> set (listeners s) then s else s\<lparr>listeners := listeners s @ [(target, type, handler)]\<rparr>)"

definition removeEventListener :: "event_target \<Rightarrow> string \<Rightarrow> listener \<Rightarrow> SessionLockManager \<Rightarrow> SessionLockManager" where
  "removeEventListener target type handler s = s\<lparr>listeners := filter (\<lambda>l. l \<noteq> (target, type, handler)) (listeners s)\<rparr>"

definition setTimeout :: "int \<Rightarrow> SessionLockManager \<Rightarrow> nat \<times> SessionLockManager" where
  "setTimeout ms s = (nextTimer s, s\<lparr>timers := (timers s)(nextTimer s \<mapsto> clock s + ms), nextTimer := nextTimer s + 1\<rparr>)"

definition clearTimeout :: "nat \<Rightarrow> SessionLockManager \<Rightarrow> SessionLockManager" where
  "clearTimeout i s = s\<lparr>timers := (timers s)(i := None)\<rparr>"

section \<open>The manager\<close>

definition ACTIVITY_EVENTS :: "string list" where
  "ACTIVITY_EVENTS = [''mousemove'', ''mousedown'', ''keydown'', ''click'', ''touchstart'', ''scroll'', ''wheel'']"

definition zeroKeyBuffer :: "random \<Rightarrow> bool \<Rightarrow> nat \<Rightarrow> memory \<Rightarrow> memory result" where
  "zeroKeyBuffer rnd hasCrypto a m =
     (if length (buffers m a) = 0 then Inr m
      else if \<not> hasCrypto then Inl (Error ''Web Crypto is not available'')
      else if randomQuota < length (buffers m a) then Inl (Error ''QuotaExceededError'')
      else Inr (getRandomValues rnd a m))"

definition clearIdleTimer :: "SessionLockManager \<Rightarrow> SessionLockManager" where
  "clearIdleTimer s = (case idleTimer s of None \<Rightarrow> s | Some i \<Rightarrow> (clearTimeout i s)\<lparr>idleTimer := None\<rparr>)"

definition resetIdleTimer :: "SessionLockManager \<Rightarrow> SessionLockManager" where
  "resetIdleTimer s =
     (let s1 = clearIdleTimer s in
      if \<not> mgr_running s1 then s1
      else case setTimeout (idleTimeoutMs s1) s1 of (i, s2) \<Rightarrow> s2\<lparr>idleTimer := Some i\<rparr>)"

definition startManager :: "SessionLockManager \<Rightarrow> SessionLockManager" where
  "startManager s =
     (if mgr_running s then s
      else let s1 = fold (\<lambda>ev. addEventListener Window ev ActivityHandler) ACTIVITY_EVENTS (s\<lparr>mgr_running := True\<rparr>);
               s2 = addEventListener Document ''visibilitychange'' VisibilityHandler s1;
               s3 = addEventListener Window ''blur'' BlurHandler s2
           in resetIdleTimer s3)"

definition stopManager :: "SessionLockManager \<Rightarrow> SessionLockManager" where
  "stopManager s =
     (if \<not> mgr_running s then s
      else let s1 = fold (\<lambda>ev. removeEventListener Window ev ActivityHandler) ACTIVITY_EVENTS (s\<lparr>mgr_running := False\<rparr>);
               s2 = removeEventListener Document ''visibilitychange'' VisibilityHandler s1;
               s3 = removeEventListener Window ''blur'' BlurHandler s2
           in clearIdleTimer s3)"

definition unlockedAccounts :: "SessionLockManager \<Rightarrow> string set" where
  "unlockedAccounts s = dom (map_of (sessionKeyCache (mem s)))"

definition lockAccounts :: "SessionLockManager \<Rightarrow> string list" where
  "lockAccounts s = (case accountsProvider s of None \<Rightarrow> [] | Some provider \<Rightarrow> provider (unlockedAccounts s))"

definition zeroAccount :: "random \<Rightarrow> bool \<Rightarrow> string \<Rightarrow> memory \<Rightarrow> memory result" where
  "zeroAccount rnd hasCrypto who m = (case getCachedPrivateKeyBytes who m of None \<Rightarrow> Inr m | Some a \<Rightarrow> zeroKeyBuffer rnd hasCrypto a m)"

text \<open>The loop over the accounts: an exception leaves it, and the arrays that were overwritten before stay overwritten.\<close>

fun zeroAccounts :: "random \<Rightarrow> bool \<Rightarrow> string list \<Rightarrow> memory \<Rightarrow> exn option \<times> memory" where
  "zeroAccounts rnd hasCrypto [] m = (None, m)"
| "zeroAccounts rnd hasCrypto (who # accounts) m =
     (case zeroAccount rnd hasCrypto who m of
        Inl e \<Rightarrow> (Some e, m)
      | Inr m1 \<Rightarrow> zeroAccounts rnd hasCrypto accounts m1)"

definition lockNow :: "random \<Rightarrow> bool \<Rightarrow> SessionLockManager \<Rightarrow> SessionLockManager" where
  "lockNow rnd hasCrypto s =
     (let accounts = lockAccounts s in
      if length accounts = 0 then s
      else case zeroAccounts rnd hasCrypto accounts (mem s) of
          (Some e, m1) \<Rightarrow> s\<lparr>mem := m1, uncaught := uncaught s @ [e]\<rparr>
        | (None, m1) \<Rightarrow>
            let m2 = clearSessionCache rnd hasCrypto m1;
                s1 = stopManager (s\<lparr>mem := m2\<rparr>)
            in s1\<lparr>locks := locks s1 @ [accounts]\<rparr>)"

definition handle :: "random \<Rightarrow> bool \<Rightarrow> listener \<Rightarrow> SessionLockManager \<Rightarrow> SessionLockManager" where
  "handle rnd hasCrypto h s =
     (case h of
        ActivityHandler \<Rightarrow> resetIdleTimer s
      | VisibilityHandler \<Rightarrow> if isHidden s then lockNow rnd hasCrypto s else s
      | BlurHandler \<Rightarrow> lockNow rnd hasCrypto s)"

text \<open>An event runs the listeners registered for it; an exception in one of them does not keep the others from running.\<close>

definition dispatch :: "random \<Rightarrow> bool \<Rightarrow> event_target \<Rightarrow> string \<Rightarrow> SessionLockManager \<Rightarrow> SessionLockManager" where
  "dispatch rnd hasCrypto target type s =
     fold (\<lambda>l. handle rnd hasCrypto (snd (snd l))) (filter (\<lambda>l. fst l = target \<and> fst (snd l) = type) (listeners s)) s"

text \<open>The browser runs a timer whose due time has come.\<close>

definition runTimer :: "random \<Rightarrow> bool \<Rightarrow> nat \<Rightarrow> SessionLockManager \<Rightarrow> SessionLockManager" where
  "runTimer rnd hasCrypto i s =
     (case timers s i of None \<Rightarrow> s
      | Some due \<Rightarrow> if due \<le> clock s then lockNow rnd hasCrypto (clearTimeout i s) else s)"

section \<open>Runs\<close>

datatype session_event =
    Started
  | Stopped
  | LockRequested
  | UserActivity nat
  | VisibilityChanged bool
  | Blurred
  | TimePassed nat
  | TimersRun
  | KeyUnlocked string "8 word list"

fun session_step :: "random \<Rightarrow> bool \<Rightarrow> session_event \<Rightarrow> SessionLockManager \<Rightarrow> SessionLockManager" where
  "session_step rnd c Started s = startManager s"
| "session_step rnd c Stopped s = stopManager s"
| "session_step rnd c LockRequested s = lockNow rnd c s"
| "session_step rnd c (UserActivity i) s = (if i < length ACTIVITY_EVENTS then dispatch rnd c Window (ACTIVITY_EVENTS ! i) s else s)"
| "session_step rnd c (VisibilityChanged b) s = dispatch rnd c Document ''visibilitychange'' (s\<lparr>isHidden := b\<rparr>)"
| "session_step rnd c Blurred s = dispatch rnd c Window ''blur'' s"
| "session_step rnd c (TimePassed ms) s = s\<lparr>clock := clock s + int ms\<rparr>"
| "session_step rnd c TimersRun s = fold (runTimer rnd c) [0..<nextTimer s] s"
| "session_step rnd c (KeyUnlocked who key) s = s\<lparr>mem := cachePrivateKey (map lower who) key (mem s)\<rparr>"

definition session_run :: "random \<Rightarrow> bool \<Rightarrow> session_event list \<Rightarrow> SessionLockManager \<Rightarrow> SessionLockManager" where
  "session_run rnd c evs s = fold (session_step rnd c) evs s"

section \<open>The abstract session\<close>

text \<open>
  What the lock promises, without listeners, timers and buffers: the manager is off, watches until a due time, or has
  let its due time lapse with nobody to lock out; the keys are a set of accounts.
\<close>

datatype watch = Off | Lapsed | Until int

record lock_spec =
  spec_watch :: watch
  spec_keys :: "string set"
  spec_time :: int
  spec_hidden :: bool
  spec_locks :: "string list list"

definition spec_lock :: "(string set \<Rightarrow> string list) \<Rightarrow> lock_spec \<Rightarrow> lock_spec" where
  "spec_lock who a =
     (if who (spec_keys a) = [] then a
      else a\<lparr>spec_watch := Off, spec_keys := {}, spec_locks := spec_locks a @ [who (spec_keys a)]\<rparr>)"

text \<open>Every event has exactly one outcome; when the browser runs its timers, a due time that has come ends the session.\<close>

inductive spec_step :: "int \<Rightarrow> (string set \<Rightarrow> string list) \<Rightarrow> session_event \<Rightarrow> lock_spec \<Rightarrow> lock_spec \<Rightarrow> bool"
  for idle who where
  start: "spec_watch a = Off \<Longrightarrow> spec_step idle who Started a (a\<lparr>spec_watch := Until (spec_time a + idle)\<rparr>)"
| started: "spec_watch a \<noteq> Off \<Longrightarrow> spec_step idle who Started a a"
| stop: "spec_step idle who Stopped a (a\<lparr>spec_watch := Off\<rparr>)"
| lock: "spec_step idle who LockRequested a (spec_lock who a)"
| activity: "spec_watch a \<noteq> Off \<Longrightarrow> i < length ACTIVITY_EVENTS \<Longrightarrow>
    spec_step idle who (UserActivity i) a (a\<lparr>spec_watch := Until (spec_time a + idle)\<rparr>)"
| no_activity: "spec_watch a = Off \<or> length ACTIVITY_EVENTS \<le> i \<Longrightarrow> spec_step idle who (UserActivity i) a a"
| hide: "spec_watch a \<noteq> Off \<Longrightarrow> spec_step idle who (VisibilityChanged True) a (spec_lock who (a\<lparr>spec_hidden := True\<rparr>))"
| visibility: "spec_watch a = Off \<or> \<not> b \<Longrightarrow> spec_step idle who (VisibilityChanged b) a (a\<lparr>spec_hidden := b\<rparr>)"
| blur: "spec_watch a \<noteq> Off \<Longrightarrow> spec_step idle who Blurred a (spec_lock who a)"
| no_blur: "spec_watch a = Off \<Longrightarrow> spec_step idle who Blurred a a"
| pass: "spec_step idle who (TimePassed ms) a (a\<lparr>spec_time := spec_time a + int ms\<rparr>)"
| expire: "spec_watch a = Until d \<Longrightarrow> d \<le> spec_time a \<Longrightarrow>
    spec_step idle who TimersRun a (spec_lock who (a\<lparr>spec_watch := Lapsed\<rparr>))"
| not_due: "(\<And>d. spec_watch a = Until d \<Longrightarrow> spec_time a < d) \<Longrightarrow> spec_step idle who TimersRun a a"
| unlock: "spec_step idle who (KeyUnlocked acc key) a (a\<lparr>spec_keys := insert (map lower acc) (spec_keys a)\<rparr>)"

inductive spec_run :: "int \<Rightarrow> (string set \<Rightarrow> string list) \<Rightarrow> session_event list \<Rightarrow> lock_spec \<Rightarrow> lock_spec \<Rightarrow> bool"
  for idle who where
  nil: "spec_run idle who [] a a"
| cons: "spec_step idle who e a b \<Longrightarrow> spec_run idle who evs b c \<Longrightarrow> spec_run idle who (e # evs) a c"

inductive_cases spec_stepE: "spec_step idle who e a b"

lemma spec_step_deterministic: "spec_step idle who e a b \<Longrightarrow> spec_step idle who e a b' \<Longrightarrow> b = b'"
  by (cases e) (elim spec_stepE; fastforce)+

definition abs_watch :: "SessionLockManager \<Rightarrow> watch" where
  "abs_watch s =
     (if \<not> mgr_running s then Off
      else case Option.bind (idleTimer s) (timers s) of None \<Rightarrow> Lapsed | Some due \<Rightarrow> Until due)"

definition abs_session :: "SessionLockManager \<Rightarrow> lock_spec" where
  "abs_session s = \<lparr>spec_watch = abs_watch s, spec_keys = unlockedAccounts s, spec_time = clock s, spec_hidden = isHidden s,
     spec_locks = locks s\<rparr>"

definition provided :: "SessionLockManager \<Rightarrow> string set \<Rightarrow> string list" where
  "provided s keys = (case accountsProvider s of None \<Rightarrow> [] | Some provider \<Rightarrow> provider keys)"

section \<open>The invariant of the manager\<close>

definition all_listeners :: "(event_target \<times> string \<times> listener) list" where
  "all_listeners = map (\<lambda>ev. (Window, ev, ActivityHandler)) ACTIVITY_EVENTS @
     [(Document, ''visibilitychange'', VisibilityHandler), (Window, ''blur'', BlurHandler)]"

definition managed :: "SessionLockManager \<Rightarrow> bool" where
  "managed s \<longleftrightarrow>
     (if mgr_running s then listeners s = all_listeners \<and> (\<exists>i. idleTimer s = Some i \<and> i < nextTimer s \<and> dom (timers s) \<subseteq> {i})
      else listeners s = [] \<and> idleTimer s = None \<and> timers s = Map.empty)"

lemmas browser_defs = addEventListener_def removeEventListener_def setTimeout_def clearTimeout_def

lemma only_timer: "dom t \<subseteq> {i} \<Longrightarrow> t(i := None) = Map.empty"
  by (auto simp: fun_eq_iff)

lemma resetIdleTimer_managed:
  assumes "managed s" "mgr_running s"
  shows "resetIdleTimer s = s\<lparr>timers := [nextTimer s \<mapsto> clock s + idleTimeoutMs s], nextTimer := nextTimer s + 1, idleTimer := Some (nextTimer s)\<rparr>"
  using assms by (auto simp: managed_def resetIdleTimer_def clearIdleTimer_def browser_defs only_timer)

lemma add_all_listeners:
  assumes "listeners s = []"
  shows "addEventListener Window ''blur'' BlurHandler (addEventListener Document ''visibilitychange'' VisibilityHandler
    (fold (\<lambda>ev. addEventListener Window ev ActivityHandler) ACTIVITY_EVENTS s)) = s\<lparr>listeners := all_listeners\<rparr>"
  using assms by (simp add: ACTIVITY_EVENTS_def all_listeners_def addEventListener_def)

lemma remove_all_listeners:
  assumes "listeners s = all_listeners"
  shows "removeEventListener Window ''blur'' BlurHandler (removeEventListener Document ''visibilitychange'' VisibilityHandler
    (fold (\<lambda>ev. removeEventListener Window ev ActivityHandler) ACTIVITY_EVENTS s)) = s\<lparr>listeners := []\<rparr>"
  using assms by (simp add: ACTIVITY_EVENTS_def all_listeners_def removeEventListener_def)

lemma startManager_managed:
  assumes "managed s"
  shows "startManager s = (if mgr_running s then s
    else s\<lparr>mgr_running := True, listeners := all_listeners, timers := [nextTimer s \<mapsto> clock s + idleTimeoutMs s],
      nextTimer := nextTimer s + 1, idleTimer := Some (nextTimer s)\<rparr>)"
  using assms
  by (simp add: managed_def startManager_def add_all_listeners resetIdleTimer_def clearIdleTimer_def setTimeout_def Let_def)

lemma stopManager_managed:
  assumes "managed s"
  shows "stopManager s = s\<lparr>mgr_running := False, listeners := [], timers := Map.empty, idleTimer := None\<rparr>"
  using assms
  by (auto simp: managed_def stopManager_def remove_all_listeners clearIdleTimer_def clearTimeout_def only_timer Let_def)

lemma managed_mem [simp]: "managed (s\<lparr>mem := m\<rparr>) = managed s" "managed (s\<lparr>isHidden := b\<rparr>) = managed s" "managed (s\<lparr>clock := t\<rparr>) = managed s"
  by (simp_all add: managed_def)

lemma managed_clearTimeout: "managed s \<Longrightarrow> managed (clearTimeout i s)"
  by (auto simp: managed_def clearTimeout_def split: if_splits)

lemma lockNow_managed:
  assumes "managed s"
  shows "lockNow rnd c s = (if lockAccounts s = [] then s
    else case zeroAccounts rnd c (lockAccounts s) (mem s) of
        (Some e, m1) \<Rightarrow> s\<lparr>mem := m1, uncaught := uncaught s @ [e]\<rparr>
      | (None, m1) \<Rightarrow> s\<lparr>mem := clearSessionCache rnd c m1, mgr_running := False, listeners := [],
          timers := Map.empty, idleTimer := None, locks := locks s @ [lockAccounts s]\<rparr>)"
  using assms by (simp add: lockNow_def Let_def stopManager_managed split: prod.split option.split)

text \<open>What locking needs of the platform and of the keys: Web Crypto, and keys within its quota.\<close>

definition wipeable :: "bool \<Rightarrow> memory \<Rightarrow> bool" where
  "wipeable c m \<longleftrightarrow> c \<and> (\<forall>a \<in> cachedBuffers m. length (buffers m a) \<le> randomQuota)"

lemma zeroAccount_overwrite:
  assumes "wipeable c m"
  shows "zeroAccount rnd c who m = Inr m \<or> (\<exists>a. zeroAccount rnd c who m = Inr (getRandomValues rnd a m))"
proof (cases "getCachedPrivateKeyBytes who m")
  case (Some a)
  then have "a \<in> cachedBuffers m" by (auto simp: getCachedPrivateKeyBytes_def cachedBuffers_def intro: ranI split: if_splits)
  then show ?thesis using assms Some by (auto simp: wipeable_def zeroAccount_def zeroKeyBuffer_def)
qed (simp add: zeroAccount_def)

lemma zeroAccounts_overwrite:
  "wipeable c m \<Longrightarrow> \<exists>as. zeroAccounts rnd c accts m = (None, fold (getRandomValues rnd) as m)"
proof (induction accts arbitrary: m)
  case (Cons who accts)
  from zeroAccount_overwrite [OF Cons.prems, of rnd who] show ?case
  proof (elim disjE exE)
    fix a
    assume a: "zeroAccount rnd c who m = Inr (getRandomValues rnd a m)"
    have "wipeable c (getRandomValues rnd a m)" using Cons.prems by (simp add: wipeable_def)
    from Cons.IH [OF this] obtain as where "zeroAccounts rnd c accts (getRandomValues rnd a m) = (None, fold (getRandomValues rnd) as (getRandomValues rnd a m))"
      by blast
    with a show ?case by (intro exI [of _ "a # as"]) simp
  qed (use Cons in simp)
qed (intro exI [of _ "[]"], simp)

lemma lockNow_wipes:
  assumes "managed s" "wipeable c (mem s)"
  obtains as where "lockNow rnd c s = (if lockAccounts s = [] then s
    else s\<lparr>mem := clearSessionCache rnd c (fold (getRandomValues rnd) as (mem s)), mgr_running := False, listeners := [],
      timers := Map.empty, idleTimer := None, locks := locks s @ [lockAccounts s]\<rparr>)"
  using zeroAccounts_overwrite [OF assms(2), of rnd "lockAccounts s"] lockNow_managed [OF assms(1), of rnd c] by fastforce

lemma dispatch_managed:
  assumes "managed s"
  shows "i < length ACTIVITY_EVENTS \<Longrightarrow> dispatch rnd c Window (ACTIVITY_EVENTS ! i) s = (if mgr_running s then resetIdleTimer s else s)"
    "dispatch rnd c Document ''visibilitychange'' s = (if mgr_running s \<and> isHidden s then lockNow rnd c s else s)"
    "dispatch rnd c Window ''blur'' s = (if mgr_running s then lockNow rnd c s else s)"
proof -
  have l: "listeners s = (if mgr_running s then all_listeners else [])"
    using assms by (auto simp: managed_def split: if_splits)
  show "dispatch rnd c Document ''visibilitychange'' s = (if mgr_running s \<and> isHidden s then lockNow rnd c s else s)"
    "dispatch rnd c Window ''blur'' s = (if mgr_running s then lockNow rnd c s else s)"
    by (simp_all add: dispatch_def l all_listeners_def ACTIVITY_EVENTS_def handle_def)
  assume "i < length ACTIVITY_EVENTS"
  then have "i \<in> {0, 1, 2, 3, 4, 5, 6}" by (auto simp: ACTIVITY_EVENTS_def)
  then show "dispatch rnd c Window (ACTIVITY_EVENTS ! i) s = (if mgr_running s then resetIdleTimer s else s)"
    by (auto simp: dispatch_def l all_listeners_def ACTIVITY_EVENTS_def handle_def)
qed

lemma managed_uncaught [simp]: "managed (s\<lparr>mem := m, uncaught := es\<rparr>) = managed s"
  by (simp add: managed_def)

lemma lock_step_managed: "managed s \<Longrightarrow> managed (lockNow rnd c s)"
  by (auto simp: lockNow_managed split: prod.split option.split) (auto simp: managed_def)

text \<open>The only timer is the idle timer, so running the timers runs it if it is due.\<close>

lemma lockNow_no_timers: "managed s \<Longrightarrow> timers s = Map.empty \<Longrightarrow> timers (lockNow rnd c s) = Map.empty"
  by (auto simp: lockNow_managed split: prod.split option.split)

lemma runTimers_none: "timers s = Map.empty \<Longrightarrow> fold (runTimer rnd c) js s = s"
  by (induction js) (simp_all add: runTimer_def)

lemma runTimers_only:
  assumes "managed s" "dom (timers s) \<subseteq> {i}"
  shows "fold (runTimer rnd c) js s = (if i \<in> set js then runTimer rnd c i s else s)"
proof (induction js)
  case (Cons j js)
  have cleared: "timers (lockNow rnd c (clearTimeout i s)) = Map.empty"
    using assms by (intro lockNow_no_timers managed_clearTimeout) (simp_all add: clearTimeout_def only_timer)
  show ?case
  proof (cases "j = i")
    case True
    show ?thesis
    proof (cases "runTimer rnd c i s = s")
      case False
      then have "runTimer rnd c i s = lockNow rnd c (clearTimeout i s)" by (auto simp: runTimer_def split: option.splits if_splits)
      with cleared True show ?thesis by (simp add: runTimers_none)
    qed (use True Cons.IH in simp)
  next
    case False
    then have "timers s j = None" using assms(2) by blast
    with False Cons.IH show ?thesis by (simp add: runTimer_def)
  qed
qed simp

lemma timers_run:
  assumes "managed s"
  shows "fold (runTimer rnd c) [0..<nextTimer s] s = (case idleTimer s of None \<Rightarrow> s | Some i \<Rightarrow> runTimer rnd c i s)"
proof (cases "mgr_running s")
  case True
  then obtain i where "idleTimer s = Some i" "i < nextTimer s" "dom (timers s) \<subseteq> {i}" using assms by (auto simp: managed_def)
  with runTimers_only [OF assms, of i rnd c "[0..<nextTimer s]"] show ?thesis by simp
qed (use assms in \<open>simp add: managed_def runTimers_none\<close>)

lemma runTimer_managed: "managed s \<Longrightarrow> managed (runTimer rnd c i s)"
  by (auto simp: runTimer_def lock_step_managed managed_clearTimeout split: option.splits)

lemma reset_step_managed: "managed s \<Longrightarrow> mgr_running s \<Longrightarrow> managed (resetIdleTimer s)"
  by (simp add: resetIdleTimer_managed) (auto simp: managed_def)

lemma session_step_managed: "managed s \<Longrightarrow> managed (session_step rnd c e s)"
proof (cases e)
  case TimersRun
  then show "managed s \<Longrightarrow> ?thesis"
    by (simp add: timers_run runTimer_managed split: option.split)
next
  case Started
  then show "managed s \<Longrightarrow> ?thesis"
    by (simp add: startManager_managed) (auto simp: managed_def)
next
  case Stopped
  then show "managed s \<Longrightarrow> ?thesis"
    by (simp add: stopManager_managed) (simp add: managed_def)
qed (simp_all add: dispatch_managed lock_step_managed reset_step_managed)

lemma lockNow_config:
  assumes "managed s"
  shows "idleTimeoutMs (lockNow rnd c s) = idleTimeoutMs s" "accountsProvider (lockNow rnd c s) = accountsProvider s"
  using assms by (auto simp: lockNow_managed split: prod.split option.split)

lemma session_step_config:
  assumes "managed s"
  shows "idleTimeoutMs (session_step rnd c e s) = idleTimeoutMs s" "accountsProvider (session_step rnd c e s) = accountsProvider s"
  using assms lockNow_config [OF managed_clearTimeout [OF assms]]
  by (cases e; auto simp: dispatch_managed lockNow_config resetIdleTimer_managed startManager_managed stopManager_managed timers_run
      runTimer_def clearTimeout_def split: option.splits)+

section \<open>Refinement\<close>

lemma lockAccounts_provided: "lockAccounts s = provided s (unlockedAccounts s)"
  by (simp add: lockAccounts_def provided_def)

lemma unlockedAccounts_clear: "sessionKeyCache (mem s) = [] \<Longrightarrow> unlockedAccounts s = {}"
  by (simp add: unlockedAccounts_def)

lemma abs_lockNow:
  assumes "managed s" "wipeable c (mem s)"
  shows "abs_session (lockNow rnd c s) = spec_lock (provided s) (abs_session s)"
proof (rule lockNow_wipes [OF assms, of rnd])
  fix as
  assume l: "lockNow rnd c s = (if lockAccounts s = [] then s
    else s\<lparr>mem := clearSessionCache rnd c (fold (getRandomValues rnd) as (mem s)), mgr_running := False, listeners := [],
      timers := Map.empty, idleTimer := None, locks := locks s @ [lockAccounts s]\<rparr>)"
  show ?thesis
    unfolding l by (simp add: abs_session_def spec_lock_def lockAccounts_provided abs_watch_def unlockedAccounts_clear)
qed

lemma abs_reset:
  assumes "managed s" "mgr_running s"
  shows "abs_session (resetIdleTimer s) = (abs_session s)\<lparr>spec_watch := Until (clock s + idleTimeoutMs s)\<rparr>"
  using assms by (simp add: resetIdleTimer_managed abs_session_def abs_watch_def unlockedAccounts_def)

lemma abs_watch_off [simp]: "spec_watch (abs_session s) = Off \<longleftrightarrow> \<not> mgr_running s"
  by (simp add: abs_session_def abs_watch_def split: option.splits)

lemma provided_update [simp]:
  "provided (s\<lparr>isHidden := b\<rparr>) = provided s" "provided (clearTimeout i s) = provided s"
  by (simp_all add: provided_def clearTimeout_def fun_eq_iff)

lemma fired_timer:
  assumes "managed s" "timers s i = Some due"
  shows "mgr_running s" "abs_watch s = Until due" "abs_session (clearTimeout i s) = (abs_session s)\<lparr>spec_watch := Lapsed\<rparr>"
proof -
  show r: "mgr_running s" using assms by (auto simp: managed_def split: if_splits)
  have "idleTimer s = Some i" using assms r by (auto simp: managed_def)
  with r assms(2) show "abs_watch s = Until due" "abs_session (clearTimeout i s) = (abs_session s)\<lparr>spec_watch := Lapsed\<rparr>"
    by (simp_all add: abs_watch_def abs_session_def clearTimeout_def unlockedAccounts_def)
qed

lemma unlocked_update [simp]:
  "unlockedAccounts (s\<lparr>isHidden := b\<rparr>) = unlockedAccounts s" "unlockedAccounts (s\<lparr>clock := t\<rparr>) = unlockedAccounts s"
  by (simp_all add: unlockedAccounts_def)

lemma abs_update:
  "abs_session (s\<lparr>isHidden := b\<rparr>) = (abs_session s)\<lparr>spec_hidden := b\<rparr>"
  "abs_session (s\<lparr>clock := t\<rparr>) = (abs_session s)\<lparr>spec_time := t\<rparr>"
  "abs_session (s\<lparr>mem := cachePrivateKey who key (mem s)\<rparr>) = (abs_session s)\<lparr>spec_keys := insert who (spec_keys (abs_session s))\<rparr>"
  by (simp_all add: abs_session_def abs_watch_def unlockedAccounts_def cachePrivateKey_def)

lemma abs_start: "managed s \<Longrightarrow> abs_session (startManager s) =
    (if mgr_running s then abs_session s else (abs_session s)\<lparr>spec_watch := Until (clock s + idleTimeoutMs s)\<rparr>)"
  by (simp add: startManager_managed abs_session_def abs_watch_def unlockedAccounts_def)

lemma abs_stop: "managed s \<Longrightarrow> abs_session (stopManager s) = (abs_session s)\<lparr>spec_watch := Off\<rparr>"
  by (simp add: stopManager_managed abs_session_def abs_watch_def unlockedAccounts_def)

lemma spec_time_abs [simp]: "spec_time (abs_session s) = clock s"
  by (simp add: abs_session_def)

text \<open>Keys within the quota stay so.\<close>

fun key_fits :: "session_event \<Rightarrow> bool" where
  "key_fits (KeyUnlocked who key) = (length key \<le> randomQuota)"
| "key_fits _ = True"

lemma wipeable_cleared: "c \<Longrightarrow> sessionKeyCache m = [] \<Longrightarrow> wipeable c m"
  by (simp add: wipeable_def cachedBuffers_def)

lemma wipeable_lockNow:
  assumes "managed s" "wipeable c (mem s)"
  shows "wipeable c (mem (lockNow rnd c s))"
proof -
  have c: "c" using assms(2) by (simp add: wipeable_def)
  show ?thesis
    by (rule lockNow_wipes [OF assms, of rnd]) (simp add: assms(2) wipeable_cleared [OF c])
qed

lemma session_step_wipeable:
  assumes "managed s" "wipeable c (mem s)" "key_fits e"
  shows "wipeable c (mem (session_step rnd c e s))"
proof (cases e)
  case (KeyUnlocked who key)
  with assms(2,3) show ?thesis
    by (auto simp: wipeable_def cachedBuffers_def ran_def cachePrivateKey_def)
next
  case TimersRun
  moreover have "mem (clearTimeout i s) = mem s" for i by (simp add: clearTimeout_def)
  ultimately show ?thesis
    using assms wipeable_lockNow [OF managed_clearTimeout [OF assms(1)], of c _ rnd]
    by (simp add: timers_run runTimer_def split: option.split)
qed (use assms wipeable_lockNow in \<open>simp_all add: dispatch_managed resetIdleTimer_managed startManager_managed stopManager_managed\<close>)

text \<open>Every step of the manager is a step of the abstract session.\<close>

lemma session_step_refines:
  assumes "managed s" "wipeable c (mem s)"
  shows "spec_step (idleTimeoutMs s) (provided s) e (abs_session s) (abs_session (session_step rnd c e s))"
proof (cases e)
  case Started
  with assms show ?thesis
    using spec_step.start [of "abs_session s" "idleTimeoutMs s" "provided s"]
      spec_step.started [of "abs_session s" "idleTimeoutMs s" "provided s"] by (simp add: abs_start)
next
  case (UserActivity i)
  with assms show ?thesis
    using spec_step.activity [of "abs_session s" i "idleTimeoutMs s" "provided s"]
      spec_step.no_activity [of "abs_session s" i "idleTimeoutMs s" "provided s"]
    by (simp add: dispatch_managed abs_reset not_less)
next
  case (VisibilityChanged b)
  with assms show ?thesis
    using spec_step.hide [of "abs_session s" "idleTimeoutMs s" "provided s"]
      spec_step.visibility [of "abs_session s" b "idleTimeoutMs s" "provided s"]
    by (cases b) (simp_all add: dispatch_managed abs_lockNow abs_update)
next
  case TimersRun
  show ?thesis
  proof (cases "\<exists>i due. idleTimer s = Some i \<and> timers s i = Some due \<and> due \<le> clock s")
    case True
    then obtain i due where due: "idleTimer s = Some i" "timers s i = Some due" "due \<le> clock s" by blast
    have "spec_watch (abs_session s) = Until due"
      using fired_timer(2) [OF assms(1) due(2)] by (simp add: abs_session_def)
    from spec_step.expire [OF this, of "idleTimeoutMs s" "provided s"] show ?thesis
      using TimersRun due fired_timer(3) [OF assms(1) due(2)] abs_lockNow [OF managed_clearTimeout [OF assms(1)], of c i rnd] assms
      by (simp add: timers_run runTimer_def) (simp add: clearTimeout_def)
  next
    case False
    then have "session_step rnd c TimersRun s = s"
      using assms(1) by (auto simp: timers_run runTimer_def split: option.split)
    moreover have "spec_time (abs_session s) < d" if "spec_watch (abs_session s) = Until d" for d
      using that False by (auto simp: abs_session_def abs_watch_def bind_eq_Some_conv not_le split: if_splits option.splits)
    ultimately show ?thesis
      using TimersRun spec_step.not_due by metis
  qed
next
  case (TimePassed ms)
  then show ?thesis
    using spec_step.pass [of "idleTimeoutMs s" "provided s" ms "abs_session s"] by (simp add: abs_update)
qed (use assms in \<open>auto simp: abs_stop abs_lockNow abs_update dispatch_managed intro: spec_step.intros\<close>)

lemma session_run_managed: "managed s \<Longrightarrow> managed (session_run rnd c evs s)"
  by (induction evs arbitrary: s) (simp_all add: session_run_def session_step_managed)

lemma session_run_refines:
  assumes "managed s" "wipeable c (mem s)" "\<forall>e \<in> set evs. key_fits e"
  shows "spec_run (idleTimeoutMs s) (provided s) evs (abs_session s) (abs_session (session_run rnd c evs s)) \<and> wipeable c (mem (session_run rnd c evs s))"
  using assms
proof (induction evs arbitrary: s)
  case (Cons e evs)
  have p: "provided (session_step rnd c e s) = provided s"
    using session_step_config(2) [OF Cons.prems(1)] by (simp add: provided_def fun_eq_iff)
  have w: "wipeable c (mem (session_step rnd c e s))"
    using Cons.prems by (intro session_step_wipeable) simp_all
  from Cons.IH [OF session_step_managed [OF Cons.prems(1)] w] Cons.prems(3) show ?case
    using spec_run.cons [OF session_step_refines [OF Cons.prems(1,2), of e rnd]]
    by (simp add: session_run_def p session_step_config(1) [OF Cons.prems(1)])
qed (simp add: session_run_def spec_run.nil)

lemma managed_new: "managed (newSessionLockManager ms provider m)"
  by (simp add: managed_def newSessionLockManager_def)

lemma wipeable_new:
  "\<forall>a \<in> cachedBuffers m. length (buffers m a) \<le> randomQuota \<Longrightarrow> wipeable True (mem (newSessionLockManager ms provider m))"
  by (simp add: wipeable_def newSessionLockManager_def)

section \<open>Properties of the session lock\<close>

text \<open>
  C38. On a platform with Web Crypto, and with keys of at most 65536 bytes, the manager implements the abstract session lock: along every
  sequence of calls, browser events, runs of the due timers and unlocked keys, with its listeners and timers it behaves like a machine, with
  one outcome for every event, that is off, watches until the last activity plus the idle time (clamped to one to fifteen minutes), and
  forgets all keys when it is hidden or blurred or when the timers run after the time has come, while there is an account to lock.
\<close>

theorem session_lock_refines:
  assumes "\<forall>e \<in> set evs. key_fits e" "\<forall>a \<in> cachedBuffers m. length (buffers m a) \<le> randomQuota"
  shows "spec_run (clampIdleTimeout ms) (\<lambda>keys. case provider of None \<Rightarrow> [] | Some f \<Rightarrow> f keys) evs
     \<lparr>spec_watch = Off, spec_keys = dom (map_of (sessionKeyCache m)), spec_time = 0, spec_hidden = False, spec_locks = []\<rparr>
     (abs_session (session_run rnd True evs (newSessionLockManager ms provider m)))
   \<and> clampIdleTimeout ms \<in> {MIN_IDLE_MS..MAX_IDLE_MS}
   \<and> (\<forall>idle who e a b b'. spec_step idle who e a b \<and> spec_step idle who e a b' \<longrightarrow> b = b')"
proof -
  let ?s = "newSessionLockManager ms provider m"
  have "abs_session ?s = \<lparr>spec_watch = Off, spec_keys = dom (map_of (sessionKeyCache m)), spec_time = 0, spec_hidden = False, spec_locks = []\<rparr>"
    "idleTimeoutMs ?s = clampIdleTimeout ms" "provided ?s = (\<lambda>keys. case provider of None \<Rightarrow> [] | Some f \<Rightarrow> f keys)"
    by (simp_all add: newSessionLockManager_def abs_session_def abs_watch_def unlockedAccounts_def provided_def fun_eq_iff)
  moreover have "clampIdleTimeout ms \<in> {MIN_IDLE_MS..MAX_IDLE_MS}"
    by (auto simp: clampIdleTimeout_def MIN_IDLE_MS_def MAX_IDLE_MS_def DEFAULT_IDLE_MS_def split: option.splits)
  ultimately show ?thesis
    using session_run_refines [OF managed_new wipeable_new [OF assms(2)] assms(1), of ms provider rnd] spec_step_deterministic by auto
qed

definition sample_events :: "session_event list" where
  "sample_events = [Started, KeyUnlocked ''Bob'' [1, 2, 3], TimePassed 300000]"

theorem session_lock_refines_witness:
  "spec_run (clampIdleTimeout None) (\<lambda>keys. if ''bob'' \<in> keys then [''Bob''] else []) (sample_events @ [TimersRun])
     \<lparr>spec_watch = Off, spec_keys = {}, spec_time = 0, spec_hidden = False, spec_locks = []\<rparr>
     (abs_session (session_run (\<lambda>d i. 7) True (sample_events @ [TimersRun])
       (newSessionLockManager None (Some (\<lambda>keys. if ''bob'' \<in> keys then [''Bob''] else [])) emptyMemory)))"
  using session_lock_refines [of "sample_events @ [TimersRun]" emptyMemory None "Some (\<lambda>keys. if ''bob'' \<in> keys then [''Bob''] else [])" "\<lambda>d i. 7"]
  by (simp add: sample_events_def emptyMemory_def cachedBuffers_def randomQuota_def)

text \<open>
  Without Web Crypto a lock does not lock: when an account to lock has a key, the exception leaves the loop before the cache is
  cleared, and the keys, the listeners and the idle timer stay as they were.
\<close>

lemma zeroAccounts_throws:
  "who \<in> set accts \<Longrightarrow> getCachedPrivateKeyBytes who m = Some a \<Longrightarrow> buffers m a \<noteq> [] \<Longrightarrow>
     zeroAccounts rnd False accts m = (Some (Error ''Web Crypto is not available''), m)"
proof (induction accts)
  case (Cons x accts)
  have "zeroAccount rnd False x m = Inr m \<or> zeroAccount rnd False x m = Inl (Error ''Web Crypto is not available'')"
    by (simp add: zeroAccount_def zeroKeyBuffer_def split: option.split)
  moreover have "zeroAccount rnd False who m = Inl (Error ''Web Crypto is not available'')"
    using Cons.prems by (simp add: zeroAccount_def zeroKeyBuffer_def)
  ultimately show ?case using Cons by auto
qed simp

theorem lock_without_crypto:
  assumes "who \<in> set (lockAccounts s)" "getCachedPrivateKeyBytes who (mem s) = Some a" "buffers (mem s) a \<noteq> []"
  shows "lockNow rnd False s = s\<lparr>uncaught := uncaught s @ [Error ''Web Crypto is not available'']\<rparr>"
  using zeroAccounts_throws [OF assms] assms(1) by (auto simp: lockNow_def Let_def)

text \<open>The events that end a watched session.\<close>

definition ends_session :: "session_event \<Rightarrow> SessionLockManager \<Rightarrow> bool" where
  "ends_session e s \<longleftrightarrow> e = LockRequested \<or> mgr_running s \<and> (e = Blurred \<or> e = VisibilityChanged True)
     \<or> (\<exists>i due. e = TimersRun \<and> timers s i = Some due \<and> due \<le> clock s)"

lemma ends_session_lock:
  assumes "managed s" "ends_session e s"
  shows "\<exists>s1. session_step rnd c e s = lockNow rnd c s1 \<and> managed s1 \<and> mem s1 = mem s \<and> lockAccounts s1 = lockAccounts s \<and> locks s1 = locks s"
  using assms(2) unfolding ends_session_def
proof (elim disjE conjE exE)
  assume "e = LockRequested"
  then show ?thesis using assms(1) by (intro exI [of _ s]) simp
next
  assume "mgr_running s" "e = Blurred"
  then show ?thesis using assms(1) by (intro exI [of _ s]) (simp add: dispatch_managed)
next
  assume "mgr_running s" "e = VisibilityChanged True"
  then show ?thesis
    using assms(1) by (intro exI [of _ "s\<lparr>isHidden := True\<rparr>"]) (simp add: dispatch_managed lockAccounts_provided)
next
  fix i due
  assume e: "e = TimersRun" "timers s i = Some due" "due \<le> clock s"
  have "idleTimer s = Some i" using assms(1) e(2) by (auto simp: managed_def split: if_splits)
  with e show ?thesis
    using assms(1) managed_clearTimeout [OF assms(1)]
    by (intro exI [of _ "clearTimeout i s"])
      (simp add: lockAccounts_provided timers_run runTimer_def, simp add: clearTimeout_def unlockedAccounts_def)
qed

text \<open>
  C39. Locking wipes the cached keys, on a platform with Web Crypto and with keys of at most 65536 bytes: when a session in any reachable
  state ends by the idle timer, by the page being hidden or blurred, or by an explicit lock, while there is an account to lock, every byte
  of every key array that the cache refers to at that time is zero afterwards, for whoever still holds a reference to it; no account is
  unlocked, no listener or timer is left, and the accounts are reported once.
\<close>

theorem locking_wipes_keys:
  assumes "s = session_run rnd True evs (newSessionLockManager ms provider m)" "ends_session e s" "lockAccounts s \<noteq> []"
    and "s' = session_step rnd True e s"
    and "\<forall>e \<in> set evs. key_fits e" "\<forall>a \<in> cachedBuffers m. length (buffers m a) \<le> randomQuota"
  shows "(\<forall>a \<in> cachedBuffers (mem s). buffers (mem s') a = replicate (length (buffers (mem s) a)) 0)
    \<and> (\<forall>who. \<not> isUnlocked who (mem s')) \<and> getUnlockedAccounts (mem s') = []
    \<and> \<not> mgr_running s' \<and> listeners s' = [] \<and> timers s' = Map.empty \<and> locks s' = locks s @ [lockAccounts s]"
proof -
  have "managed s" using session_run_managed [OF managed_new] assms(1) by simp
  from ends_session_lock [OF this assms(2), of rnd True] obtain s1 where s1: "s' = lockNow rnd True s1" "managed s1" "mem s1 = mem s"
      "lockAccounts s1 = lockAccounts s" "locks s1 = locks s"
    using assms(4) by blast
  have "wipeable True (mem s1)"
    using session_run_refines [OF managed_new wipeable_new [OF assms(6)] assms(5)] assms(1) s1(3) by simp
  from lockNow_wipes [OF s1(2) this, of rnd] obtain as where
    l: "s' = s1\<lparr>mem := clearSessionCache rnd True (fold (getRandomValues rnd) as (mem s)), mgr_running := False, listeners := [],
      timers := Map.empty, idleTimer := None, locks := locks s @ [lockAccounts s]\<rparr>"
    using s1 assms(3) by auto
  then show ?thesis
    by (simp add: keys.purged isUnlocked_def getUnlockedAccounts_def)
qed

theorem locking_wipes_keys_witness:
  "let s = session_run (\<lambda>d i. 7) True sample_events
        (newSessionLockManager None (Some (\<lambda>keys. if ''bob'' \<in> keys then [''Bob''] else [])) emptyMemory) in
   readCachedPrivateKey ''bob'' (mem s) = Some [1, 2, 3]
   \<and> buffers (mem (session_step (\<lambda>d i. 7) True TimersRun s)) 0 = [0, 0, 0]"
proof -
  define s where "s = session_run (\<lambda>d i. 7) True sample_events
    (newSessionLockManager None (Some (\<lambda>keys. if ''bob'' \<in> keys then [''Bob''] else [])) emptyMemory)"
  have l: "map lower ''Bob'' = ''bob''"
    by (simp add: lower_def char_of_def bit_numeral_rec bit_0)
  have s: "timers s 1 = Some 300000" "clock s = 300000" "sessionKeyCache (mem s) = [(''bob'', 0)]" "buffers (mem s) 0 = [1, 2, 3]"
      "lockAccounts s = [''Bob'']"
    unfolding s_def
    by (simp_all add: sample_events_def session_run_def newSessionLockManager_def clampIdleTimeout_def DEFAULT_IDLE_MS_def cachePrivateKey_def emptyMemory_def
        lockAccounts_def unlockedAccounts_def l [simplified] startManager_def ACTIVITY_EVENTS_def addEventListener_def
        resetIdleTimer_def clearIdleTimer_def setTimeout_def)
  have "ends_session TimersRun s"
    using s(1,2) by (auto simp: ends_session_def)
  moreover have "\<forall>e \<in> set sample_events. key_fits e" "\<forall>a \<in> cachedBuffers emptyMemory. length (buffers emptyMemory a) \<le> randomQuota"
    by (simp_all add: sample_events_def emptyMemory_def cachedBuffers_def randomQuota_def)
  ultimately have "\<forall>a \<in> cachedBuffers (mem s). buffers (mem (session_step (\<lambda>d i. 7) True TimersRun s)) a = replicate (length (buffers (mem s) a)) 0"
    using locking_wipes_keys [OF s_def, of TimersRun, OF _ _ refl] s(5) by simp
  then show ?thesis
    unfolding s_def [symmetric] Let_def using s
    by (simp add: cachedBuffers_def readCachedPrivateKey_def numeral_eq_Suc del: session_step.simps)
qed

text \<open>A manager made without a provider, like the one the module exports, never purges a key.\<close>

lemma no_provider_never_locks:
  "mem (session_run rnd c evs (newSessionLockManager ms None m)) =
     fold (\<lambda>e. case e of KeyUnlocked who key \<Rightarrow> cachePrivateKey (map lower who) key | _ \<Rightarrow> id) evs m"
proof (induction evs rule: rev_induct)
  case (snoc e evs)
  let ?s = "session_run rnd c evs (newSessionLockManager ms None m)"
  have m: "managed ?s" using session_run_managed [OF managed_new] by blast
  have "accountsProvider (session_run rnd c es (newSessionLockManager ms None m)) = None" for es
  proof (induction es rule: rev_induct)
    case (snoc x xs)
    then show ?case
      using session_step_config(2) session_run_managed [OF managed_new, of rnd c xs] by (simp add: session_run_def)
  qed (simp add: session_run_def newSessionLockManager_def)
  then have p: "lockAccounts ?s = []" "lockAccounts (?s\<lparr>isHidden := b\<rparr>) = []" "lockAccounts (clearTimeout i ?s) = []" for b i
    by (simp_all add: lockAccounts_def clearTimeout_def)
  have "mem (session_step rnd c e ?s) = (case e of KeyUnlocked who key \<Rightarrow> cachePrivateKey (map lower who) key | _ \<Rightarrow> id) (mem ?s)"
    using m managed_clearTimeout [OF m] p
    by (cases e) (auto simp: dispatch_managed lockNow_managed resetIdleTimer_managed startManager_managed stopManager_managed
        timers_run runTimer_def clearTimeout_def split: option.splits)
  with snoc show ?case by (simp add: session_run_def)
qed (simp add: session_run_def newSessionLockManager_def)

end
