(* ===== verification/Key_Rotation.thy ===== *)
theory Key_Rotation
  imports Effects
begin

text \<open>
  Rotation of a compromised key, \<^verbatim>\<open>services/keyRotation.service.ts\<close>: for one list of share envelopes, and for the
  envelopes of many vaults in an emergency.

  The cryptography, the keyring and the contract adapters are fields of the record \<open>rotation_services\<close>, calls over a
  state \<open>'w\<close>. The state of a run also lists, in order, the calls made that matter outside: attempts to re-encrypt,
  submitted revocations, and saved key pairs. Of two revocations that both fail, the error of the first is
  reported; the batches of an emergency run one after the other.
\<close>

section \<open>Data\<close>

datatype doc_ref = DocNumber nat | DocName string

record ShareEnvelopeRef =
  ref_documentId :: doc_ref
  ref_envelope :: string

text \<open>An entry of a list of envelopes may be missing, and its text may be empty.\<close>

type_synonym envelope_list = "ShareEnvelopeRef option list"

record KeyRotationFailure =
  failed_documentId :: doc_ref
  failed_reason :: string

record revocation_tx =
  tx_hash :: "string option"
  tx_id :: "string option"
  tx_hasWait :: bool

datatype effect =
    Reencrypt string
  | RevokeEvm string string
  | RevokeSoroban string string string
  | SaveKeyPair string string

record 'w run =
  outside :: 'w
  effects :: "effect list"

record 'w rotation_services =
  generateKeyPair :: "('w, string \<times> string) call"
  importPublicKey :: "string \<Rightarrow> ('w, unit) call"
  importPrivateKey :: "string \<Rightarrow> ('w, unit) call"
  decryptEnvelope :: "string \<Rightarrow> string \<Rightarrow> ('w, string) call"
  reencryptEnvelope :: "string \<Rightarrow> string \<Rightarrow> string \<Rightarrow> ('w, string) call"
  saveKeyPair :: "string \<Rightarrow> string \<Rightarrow> string \<Rightarrow> string \<Rightarrow> ('w, unit) call"
  evmContract :: "(string \<Rightarrow> string \<Rightarrow> ('w, revocation_tx option) call) option"
  sorobanContract :: "(string \<Rightarrow> string \<Rightarrow> string \<Rightarrow> ('w, revocation_tx option) call) option"
  waitForTx :: "('w, unit) call"
  dateNow :: "'w \<Rightarrow> int"

text \<open>The options both entry points share; a missing text is empty.\<close>

record rotation_options =
  o_account :: string
  o_oldPublicKey :: string
  o_oldPrivateKey :: string
  o_newPublicKey :: string
  o_newPrivateKey :: string
  o_pinOrPassphrase :: string

record KeyRotationReport =
  rep_account :: string
  rep_oldPublicKey :: string
  rep_newPublicKey :: string
  rotatedDocumentIds :: "doc_ref list"
  rep_failures :: "KeyRotationFailure list"
  transactionHash :: "string option"
  sorobanTxHash :: "string option"
  rotatedAt :: int

record VaultEnvelopeBatch =
  batch_vaultId :: doc_ref
  batch_envelopes :: envelope_list

record VaultRevocationResult =
  vr_vaultId :: doc_ref
  vr_rotated :: "doc_ref list"
  vr_failures :: "KeyRotationFailure list"

record EmergencyRevocationReport =
  em_account :: string
  em_oldPublicKey :: string
  em_newPublicKey :: string
  totalDocumentsRotated :: nat
  totalFailures :: nat
  vaultResults :: "VaultRevocationResult list"
  em_transactionHash :: "string option"
  em_sorobanTxHash :: "string option"
  revokedAt :: int

section \<open>Steps\<close>

definition liftW :: "('w, 'a) call \<Rightarrow> ('w run, 'a) call" where
  "liftW f s = (case f (outside s) of (r, w) \<Rightarrow> (r, s\<lparr>outside := w\<rparr>))"

definition perform :: "effect \<Rightarrow> ('w run, 'a) call \<Rightarrow> ('w run, 'a) call" where
  "perform e f s = f (s\<lparr>effects := effects s @ [e]\<rparr>)"

definition checkOptions :: "rotation_options \<Rightarrow> ('w run, unit) call" where
  "checkOptions opts =
     (if o_account opts = [] then throwC ''Account address is required''
      else if o_oldPublicKey opts = [] \<or> o_oldPrivateKey opts = [] then throwC ''Old public and private keys are required''
      else if js_trim (o_pinOrPassphrase opts) = [] then throwC ''A PIN or passphrase is required to protect the rotated keypair''
      else returnC ())"

definition replacementKeys :: "'w rotation_services \<Rightarrow> rotation_options \<Rightarrow> ('w run, string \<times> string) call" where
  "replacementKeys srv opts =
     bindC (if o_newPublicKey opts = [] \<or> o_newPrivateKey opts = [] then liftW (generateKeyPair srv)
            else returnC (o_newPublicKey opts, o_newPrivateKey opts)) (\<lambda>(pub, priv).
       bindC (liftW (importPublicKey srv pub)) (\<lambda>_.
         bindC (liftW (importPrivateKey srv priv)) (\<lambda>_. returnC (pub, priv))))"

definition has_payload :: "ShareEnvelopeRef option \<Rightarrow> bool" where
  "has_payload item = (case item of None \<Rightarrow> False | Some r \<Rightarrow> ref_envelope r \<noteq> [])"

definition KeyOwnershipProofError :: string where
  "KeyOwnershipProofError = ''Proof of possession failed: the provided private key cannot decrypt the stored envelopes''"

definition proveOwnership :: "'w rotation_services \<Rightarrow> string \<Rightarrow> envelope_list \<Rightarrow> ('w run, unit) call" where
  "proveOwnership srv oldPrivateKey items s =
     (case find has_payload items of
        Some (Some r) \<Rightarrow>
          (case liftW (decryptEnvelope srv (ref_envelope r) oldPrivateKey) s of
             (Inr text, s') \<Rightarrow> (Inr (), s')
           | (Inl e, s') \<Rightarrow> throwC KeyOwnershipProofError s')
      | _ \<Rightarrow> (Inr (), s))"

text \<open>The loop over the envelopes; the re-encrypted text is not used.\<close>

fun reencryptAll ::
  "'w rotation_services \<Rightarrow> string \<Rightarrow> string \<Rightarrow> envelope_list \<Rightarrow> doc_ref list \<times> KeyRotationFailure list \<Rightarrow> 'w run \<Rightarrow>
   (doc_ref list \<times> KeyRotationFailure list) \<times> 'w run" where
  "reencryptAll srv oldPriv newPub [] acc s = (acc, s)"
| "reencryptAll srv oldPriv newPub (item # items) (rotated, failures) s =
     (case item of
        None \<Rightarrow> reencryptAll srv oldPriv newPub items
          (rotated, failures @ [\<lparr>failed_documentId = DocName ''unknown'', failed_reason = ''Missing envelope payload''\<rparr>]) s
      | Some r \<Rightarrow>
          if ref_envelope r = [] then reencryptAll srv oldPriv newPub items
            (rotated, failures @ [\<lparr>failed_documentId = ref_documentId r, failed_reason = ''Missing envelope payload''\<rparr>]) s
          else case perform (Reencrypt (ref_envelope r)) (liftW (reencryptEnvelope srv (ref_envelope r) oldPriv newPub)) s of
              (Inr reencrypted, s') \<Rightarrow> reencryptAll srv oldPriv newPub items (rotated @ [ref_documentId r], failures) s'
            | (Inl e, s') \<Rightarrow> reencryptAll srv oldPriv newPub items
                (rotated, failures @ [\<lparr>failed_documentId = ref_documentId r,
                   failed_reason = or_default (Some (thrown_message e)) ''Re-encryption failed''\<rparr>]) s')"

text \<open>Both revocations are submitted before the outcome of either is looked at.\<close>

definition submitEvm :: "'w rotation_services \<Rightarrow> string \<Rightarrow> string \<Rightarrow> ('w run, revocation_tx option) call" where
  "submitEvm srv old new =
     (case evmContract srv of None \<Rightarrow> returnC None | Some revoke \<Rightarrow> perform (RevokeEvm old new) (liftW (revoke old new)))"

definition submitSoroban :: "'w rotation_services \<Rightarrow> string \<Rightarrow> string \<Rightarrow> string \<Rightarrow> ('w run, revocation_tx option) call" where
  "submitSoroban srv who old new =
     (case sorobanContract srv of None \<Rightarrow> returnC None | Some revoke \<Rightarrow> perform (RevokeSoroban who old new) (liftW (revoke who old new)))"

definition revokeOnChain :: "'w rotation_services \<Rightarrow> string \<Rightarrow> string \<Rightarrow> string \<Rightarrow> ('w run, string option \<times> string option) call" where
  "revokeOnChain srv who old new s =
     (case submitEvm srv old new s of (evmResult, s1) \<Rightarrow>
      case submitSoroban srv who old new s1 of (sorobanResult, s2) \<Rightarrow>
      case (evmResult, sorobanResult) of
        (Inl e, _) \<Rightarrow> (Inl e, s2)
      | (_, Inl e) \<Rightarrow> (Inl e, s2)
      | (Inr evmTx, Inr sorobanTx) \<Rightarrow>
          bindC (case evmTx of Some tx \<Rightarrow> if tx_hasWait tx then liftW (waitForTx srv) else returnC () | None \<Rightarrow> returnC ()) (\<lambda>_.
            returnC (Option.bind evmTx tx_hash,
              Option.bind sorobanTx (\<lambda>tx. case tx_hash tx of None \<Rightarrow> tx_id tx | Some h \<Rightarrow> Some h))) s2)"

definition persistKey :: "'w rotation_services \<Rightarrow> rotation_options \<Rightarrow> string \<Rightarrow> string \<Rightarrow> ('w run, unit) call" where
  "persistKey srv opts pub priv s =
     (case liftW (saveKeyPair srv (o_account opts) pub priv (o_pinOrPassphrase opts)) s of
        (Inr u, s') \<Rightarrow> (Inr u, s'\<lparr>effects := effects s' @ [SaveKeyPair (o_account opts) pub]\<rparr>)
      | (Inl e, s') \<Rightarrow> (Inl e, s'))"

section \<open>Entry points\<close>

definition finishRotation ::
  "'w rotation_services \<Rightarrow> rotation_options \<Rightarrow> string \<Rightarrow> string \<Rightarrow> doc_ref list \<times> KeyRotationFailure list \<Rightarrow> ('w run, KeyRotationReport) call" where
  "finishRotation srv opts pub priv outcome =
     bindC (revokeOnChain srv (o_account opts) (o_oldPublicKey opts) pub) (\<lambda>(evmHash, sorobanHash).
     bindC (persistKey srv opts pub priv) (\<lambda>_ s.
       (Inr \<lparr>rep_account = map lower (o_account opts), rep_oldPublicKey = o_oldPublicKey opts, rep_newPublicKey = pub,
          rotatedDocumentIds = fst outcome, rep_failures = snd outcome, transactionHash = evmHash, sorobanTxHash = sorobanHash,
          rotatedAt = dateNow srv (outside s)\<rparr>, s)))"

definition rotateCompromisedKey ::
  "'w rotation_services \<Rightarrow> rotation_options \<Rightarrow> envelope_list option \<Rightarrow> ('w run, KeyRotationReport) call" where
  "rotateCompromisedKey srv opts envelopes =
     bindC (checkOptions opts) (\<lambda>_.
       case envelopes of
         None \<Rightarrow> throwC ''Envelopes list is required''
       | Some items \<Rightarrow>
           bindC (replacementKeys srv opts) (\<lambda>(pub, priv).
           bindC (proveOwnership srv (o_oldPrivateKey opts) items) (\<lambda>_ s.
             case reencryptAll srv (o_oldPrivateKey opts) pub items ([], []) s of
               (outcome, s1) \<Rightarrow> finishRotation srv opts pub priv outcome s1)))"

fun reencryptBatches ::
  "'w rotation_services \<Rightarrow> string \<Rightarrow> string \<Rightarrow> VaultEnvelopeBatch list \<Rightarrow> 'w run \<Rightarrow> VaultRevocationResult list \<times> 'w run" where
  "reencryptBatches srv oldPriv newPub [] s = ([], s)"
| "reencryptBatches srv oldPriv newPub (batch # batches) s =
     (case reencryptAll srv oldPriv newPub (batch_envelopes batch) ([], []) s of ((rotated, failures), s1) \<Rightarrow>
      case reencryptBatches srv oldPriv newPub batches s1 of (results, s2) \<Rightarrow>
        (\<lparr>vr_vaultId = batch_vaultId batch, vr_rotated = rotated, vr_failures = failures\<rparr> # results, s2))"

definition finishEmergency ::
  "'w rotation_services \<Rightarrow> rotation_options \<Rightarrow> string \<Rightarrow> string \<Rightarrow> string option \<Rightarrow> string option \<Rightarrow> VaultRevocationResult list \<Rightarrow>
   ('w run, EmergencyRevocationReport) call" where
  "finishEmergency srv opts pub priv evmHash sorobanHash results =
     bindC (persistKey srv opts pub priv) (\<lambda>_ s.
       (Inr \<lparr>em_account = map lower (o_account opts), em_oldPublicKey = o_oldPublicKey opts, em_newPublicKey = pub,
          totalDocumentsRotated = sum_list (map (\<lambda>r. length (vr_rotated r)) results),
          totalFailures = sum_list (map (\<lambda>r. length (vr_failures r)) results), vaultResults = results,
          em_transactionHash = evmHash, em_sorobanTxHash = sorobanHash, revokedAt = dateNow srv (outside s)\<rparr>, s))"

definition emergencyBatchRevoke ::
  "'w rotation_services \<Rightarrow> rotation_options \<Rightarrow> VaultEnvelopeBatch list option \<Rightarrow> ('w run, EmergencyRevocationReport) call" where
  "emergencyBatchRevoke srv opts vaultBatches =
     bindC (checkOptions opts) (\<lambda>_.
       case vaultBatches of
         None \<Rightarrow> throwC ''vaultBatches list is required''
       | Some batches \<Rightarrow>
           bindC (replacementKeys srv opts) (\<lambda>(pub, priv).
           bindC (proveOwnership srv (o_oldPrivateKey opts) (concat (map batch_envelopes batches))) (\<lambda>_.
           bindC (revokeOnChain srv (o_account opts) (o_oldPublicKey opts) pub) (\<lambda>(evmHash, sorobanHash) s.
             case reencryptBatches srv (o_oldPrivateKey opts) pub batches s of
               (results, s1) \<Rightarrow> finishEmergency srv opts pub priv evmHash sorobanHash results s1))))"

section \<open>The effects of the steps\<close>

definition payloads :: "envelope_list \<Rightarrow> string list" where
  "payloads items = map (\<lambda>item. ref_envelope (the item)) (filter has_payload items)"

definition revocations :: "'w rotation_services \<Rightarrow> rotation_options \<Rightarrow> string \<Rightarrow> effect list" where
  "revocations srv opts pub =
     (if evmContract srv = None then [] else [RevokeEvm (o_oldPublicKey opts) pub]) @
     (if sorobanContract srv = None then [] else [RevokeSoroban (o_account opts) (o_oldPublicKey opts) pub])"

text \<open>The first envelope with a text was decrypted with the old key.\<close>

definition possession_proved :: "'w rotation_services \<Rightarrow> string \<Rightarrow> envelope_list \<Rightarrow> bool" where
  "possession_proved srv oldPrivateKey items \<longleftrightarrow>
     (case find has_payload items of
        Some (Some r) \<Rightarrow> \<exists>w text w'. decryptEnvelope srv (ref_envelope r) oldPrivateKey w = (Inr text, w')
      | _ \<Rightarrow> True)"

lemma liftW_effects: "liftW f s = (r, s') \<Longrightarrow> effects s' = effects s"
  by (auto simp: liftW_def split: prod.splits)

lemma checkOptions_effects: "checkOptions opts s = (r, s') \<Longrightarrow> s' = s"
  by (auto simp: checkOptions_def call_defs split: if_splits)

lemma bindC_effects:
  assumes "\<And>r s'. m s = (r, s') \<Longrightarrow> effects s' = effects s" "\<And>a s1 r s'. f a s1 = (r, s') \<Longrightarrow> effects s' = effects s1"
  shows "bindC m f s = (r, s') \<Longrightarrow> effects s' = effects s"
  using assms by (fastforce simp: bindC_def split: prod.splits sum.splits)

lemma returnC_effects: "returnC a s = (r, s') \<Longrightarrow> effects s' = effects s"
  by (simp add: returnC_def)

lemma replacementKeys_effects: "replacementKeys srv opts s = (r, s') \<Longrightarrow> effects s' = effects s"
  unfolding replacementKeys_def
  by (erule bindC_effects [rotated 2]) (auto elim!: bindC_effects [rotated 2] dest!: liftW_effects returnC_effects split: if_splits)

lemma proveOwnership_effects:
  assumes "proveOwnership srv k items s = (r, s')"
  shows "effects s' = effects s" "r = Inr u \<Longrightarrow> possession_proved srv k items"
  using assms liftW_effects
  by (fastforce simp: proveOwnership_def possession_proved_def liftW_def throwC_def split: option.splits prod.splits sum.splits)+

lemma reencryptAll_effects:
  "reencryptAll srv k pub items acc s = (acc', s') \<Longrightarrow>
     effects s' = effects s @ map Reencrypt (payloads items)
     \<and> length (fst acc') + length (snd acc') = length (fst acc) + length (snd acc) + length items"
proof (induction items arbitrary: acc s)
  case (Cons item items)
  obtain rotated failures where acc: "acc = (rotated, failures)" by fastforce
  show ?case
  proof (cases "has_payload item")
    case False
    with Cons.prems acc obtain fl where "reencryptAll srv k pub items (rotated, failures @ [fl]) s = (acc', s')"
      by (auto simp: has_payload_def split: option.splits)
    from Cons.IH [OF this] False acc show ?thesis by (simp add: payloads_def)
  next
    case True
    then obtain r where r: "item = Some r" "ref_envelope r \<noteq> []" by (auto simp: has_payload_def split: option.splits)
    obtain x s1 where x: "perform (Reencrypt (ref_envelope r)) (liftW (reencryptEnvelope srv (ref_envelope r) k pub)) s = (x, s1)" by fastforce
    then have "effects s1 = effects s @ [Reencrypt (ref_envelope r)]"
      by (auto simp: perform_def dest: liftW_effects)
    moreover have "\<exists>a. reencryptAll srv k pub items a s1 = (acc', s') \<and> length (fst a) + length (snd a) = length rotated + length failures + 1"
    proof (cases x)
      case (Inl e)
      let ?a = "(rotated, failures @ [\<lparr>failed_documentId = ref_documentId r,
        failed_reason = or_default (Some (thrown_message e)) ''Re-encryption failed''\<rparr>])"
      show ?thesis using Cons.prems acc r x Inl by (intro exI [of _ ?a]) simp
    next
      case (Inr t)
      show ?thesis using Cons.prems acc r x Inr by (intro exI [of _ "(rotated @ [ref_documentId r], failures)"]) simp
    qed
    ultimately show ?thesis
      using Cons.IH r acc True by (fastforce simp: payloads_def)
  qed
qed (auto simp: payloads_def)

lemma revokeOnChain_effects:
  assumes "revokeOnChain srv (o_account opts) (o_oldPublicKey opts) pub s = (r, s')"
  shows "effects s' = effects s @ revocations srv opts pub"
proof -
  obtain x s1 where x: "submitEvm srv (o_oldPublicKey opts) pub s = (x, s1)" by fastforce
  obtain y s2 where y: "submitSoroban srv (o_account opts) (o_oldPublicKey opts) pub s1 = (y, s2)" by fastforce
  have "effects s2 = effects s @ revocations srv opts pub"
    using x y by (auto simp: submitEvm_def submitSoroban_def perform_def revocations_def returnC_def dest!: liftW_effects split: option.splits)
  moreover have "effects s' = effects s2"
    using assms x y
    by (auto simp: revokeOnChain_def split: sum.splits option.splits if_splits
        elim!: bindC_effects [rotated 2] dest!: liftW_effects returnC_effects)
  ultimately show ?thesis by simp
qed

lemma persistKey_effects:
  "persistKey srv opts pub priv s = (r, s') \<Longrightarrow>
     effects s' = effects s @ (case r of Inr u \<Rightarrow> [SaveKeyPair (o_account opts) pub] | Inl e \<Rightarrow> [])"
  by (auto simp: persistKey_def dest!: liftW_effects split: prod.splits sum.splits)

text \<open>The common beginning of both protocols either fails without an effect or reaches the second part with the possession of the old key proved.\<close>

lemma prefix_effects:
  assumes "bindC (replacementKeys srv opts) (\<lambda>(pub, priv). bindC (proveOwnership srv k items) (\<lambda>_. f pub priv)) s = (r, s')"
  shows "(\<exists>e. r = Inl e) \<and> effects s' = effects s
    \<or> (\<exists>pub priv s0. effects s0 = effects s \<and> possession_proved srv k items \<and> f pub priv s0 = (r, s'))"
proof -
  obtain x s1 where x: "replacementKeys srv opts s = (x, s1)" by fastforce
  have s1: "effects s1 = effects s" using replacementKeys_effects [OF x] .
  show ?thesis
  proof (cases x)
    case (Inr ks)
    obtain pub priv where ks: "ks = (pub, priv)" by fastforce
    obtain y s2 where y: "proveOwnership srv k items s1 = (y, s2)" by fastforce
    show ?thesis
    proof (cases y)
      case (Inr u)
      with x y ks \<open>x = Inr ks\<close> assms have "f pub priv s2 = (r, s')" by (simp add: bindC_def)
      then show ?thesis using proveOwnership_effects [OF y] s1 Inr by auto
    qed (use x y ks Inr s1 assms proveOwnership_effects(1) [OF y] in \<open>auto simp: bindC_def\<close>)
  qed (use x s1 assms in \<open>auto simp: bindC_def\<close>)
qed

lemma reencryptBatches_effects:
  "reencryptBatches srv k pub batches s = (results, s') \<Longrightarrow>
     effects s' = effects s @ map Reencrypt (payloads (concat (map batch_envelopes batches)))
     \<and> sum_list (map (\<lambda>r. length (vr_rotated r)) results) + sum_list (map (\<lambda>r. length (vr_failures r)) results) =
       length (concat (map batch_envelopes batches))"
proof (induction batches arbitrary: s results s')
  case (Cons batch batches)
  obtain rotated failures s1 where a: "reencryptAll srv k pub (batch_envelopes batch) ([], []) s = ((rotated, failures), s1)"
    by (metis prod.exhaust)
  obtain rest s2 where b: "reencryptBatches srv k pub batches s1 = (rest, s2)" by fastforce
  show ?case
    using Cons.prems a b reencryptAll_effects [OF a] Cons.IH [OF b] by (clarsimp simp: payloads_def)
qed (simp add: payloads_def)

section \<open>Properties of key rotation\<close>

lemma checked_prefix:
  assumes "bindC (checkOptions opts) (\<lambda>_. bindC (replacementKeys srv opts) (\<lambda>(pub, priv). bindC (proveOwnership srv k items) (\<lambda>_. f pub priv))) s = (r, s')"
  shows "(\<exists>e. r = Inl e) \<and> effects s' = effects s
    \<or> (\<exists>pub priv s0. effects s0 = effects s \<and> possession_proved srv k items \<and> f pub priv s0 = (r, s'))"
proof (cases "fst (checkOptions opts s)")
  case (Inl e)
  then show ?thesis
    using assms checkOptions_effects by (fastforce simp: bindC_def [of "checkOptions opts"] split: prod.splits)
next
  case (Inr u)
  then have "bindC (replacementKeys srv opts) (\<lambda>(pub, priv). bindC (proveOwnership srv k items) (\<lambda>_. f pub priv)) s = (r, s')"
    using assms checkOptions_effects [of opts s] by (cases "checkOptions opts s") (simp add: bindC_def [of "checkOptions opts"])
  then show ?thesis by (rule prefix_effects)
qed

lemma finishRotation_effects:
  assumes "finishRotation srv opts pub priv outcome s1 = (r, s)"
  shows "case r of
      Inr rep \<Rightarrow> effects s = effects s1 @ revocations srv opts pub @ [SaveKeyPair (o_account opts) pub]
        \<and> rep_newPublicKey rep = pub \<and> rotatedDocumentIds rep = fst outcome \<and> rep_failures rep = snd outcome
    | Inl e \<Rightarrow> effects s = effects s1 @ revocations srv opts pub"
proof -
  obtain x s2 where x: "revokeOnChain srv (o_account opts) (o_oldPublicKey opts) pub s1 = (x, s2)" by fastforce
  obtain y s3 where y: "persistKey srv opts pub priv s2 = (y, s3)" by fastforce
  show ?thesis
    using assms x y revokeOnChain_effects [OF x] persistKey_effects [OF y]
    by (cases x; cases y) (auto simp: finishRotation_def bindC_def split: prod.splits)
qed

text \<open>The emergency protocol revokes first and re-encrypts afterwards.\<close>

lemma emergency_protocol:
  assumes "emergencyBatchRevoke srv opts (Some batches) \<lparr>outside = w, effects = []\<rparr> = (r, s)"
  shows "(case r of
      Inr rep \<Rightarrow> effects s = revocations srv opts (em_newPublicKey rep) @ map Reencrypt (payloads (concat (map batch_envelopes batches)))
          @ [SaveKeyPair (o_account opts) (em_newPublicKey rep)]
        \<and> totalDocumentsRotated rep + totalFailures rep = length (concat (map batch_envelopes batches))
    | Inl e \<Rightarrow> effects s = [] \<or> (\<exists>pub. effects s = revocations srv opts pub
          \<or> effects s = revocations srv opts pub @ map Reencrypt (payloads (concat (map batch_envelopes batches)))))
    \<and> (effects s \<noteq> [] \<longrightarrow> possession_proved srv (o_oldPrivateKey opts) (concat (map batch_envelopes batches)))"
  using checked_prefix [OF assms [unfolded emergencyBatchRevoke_def option.case]]
proof (elim disjE exE conjE)
  fix pub priv s0
  let ?items = "concat (map batch_envelopes batches)"
  assume s0: "effects s0 = effects \<lparr>outside = w, effects = []\<rparr>" and proved: "possession_proved srv (o_oldPrivateKey opts) ?items"
    and rest: "bindC (revokeOnChain srv (o_account opts) (o_oldPublicKey opts) pub) (\<lambda>(evmHash, sorobanHash) s.
      case reencryptBatches srv (o_oldPrivateKey opts) pub batches s of
        (results, s1) \<Rightarrow> finishEmergency srv opts pub priv evmHash sorobanHash results s1) s0 = (r, s)"
  obtain x s1 where x: "revokeOnChain srv (o_account opts) (o_oldPublicKey opts) pub s0 = (x, s1)" by fastforce
  obtain results s2 where b: "reencryptBatches srv (o_oldPrivateKey opts) pub batches s1 = (results, s2)" by fastforce
  obtain y s3 where y: "persistKey srv opts pub priv s2 = (y, s3)" by fastforce
  have e1: "effects s1 = revocations srv opts pub" using revokeOnChain_effects [OF x] s0 by simp
  have e2: "effects s2 = revocations srv opts pub @ map Reencrypt (payloads ?items)"
    using reencryptBatches_effects [OF b] e1 by simp
  consider (revoke) e where "x = Inl e" "r = Inl e" "s = s1" | (save) h e where "x = Inr h" "y = Inl e" "r = Inl e" "s = s3"
    | (saved) h u where "x = Inr h" "y = Inr u"
    using rest x b y by (cases x; cases y) (auto simp: bindC_def finishEmergency_def split: prod.splits)
  then show ?thesis
  proof cases
    case revoke
    with e1 proved show ?thesis by auto
  next
    case save
    then have "effects s = revocations srv opts pub @ map Reencrypt (payloads ?items)"
      using persistKey_effects [OF y] e2 by simp
    with save(3) proved show ?thesis by (simp only: sum.case) blast
  next
    case saved
    then show ?thesis
      using rest x b y e2 proved persistKey_effects [OF y] reencryptBatches_effects [OF b]
      by (auto simp: bindC_def finishEmergency_def split: prod.splits)
  qed
qed auto

text \<open>
  C40. The rotation protocol: a rotation that succeeds has, in this order, attempted to re-encrypt every envelope with a
  text, submitted the revocations, and saved the new key, and it accounts for every envelope as rotated or failed. A
  rotation that throws has done nothing, or has submitted the revocations without the new key having been saved. Nothing
  is done unless the old key decrypts the first envelope that has a text.
\<close>

theorem rotation_protocol:
  assumes "rotateCompromisedKey srv opts (Some items) \<lparr>outside = w, effects = []\<rparr> = (r, s)"
  shows "(case r of
      Inr rep \<Rightarrow> effects s = map Reencrypt (payloads items) @ revocations srv opts (rep_newPublicKey rep)
          @ [SaveKeyPair (o_account opts) (rep_newPublicKey rep)]
        \<and> length (rotatedDocumentIds rep) + length (rep_failures rep) = length items
    | Inl e \<Rightarrow> effects s = [] \<or> (\<exists>pub. effects s = map Reencrypt (payloads items) @ revocations srv opts pub))
    \<and> (effects s \<noteq> [] \<longrightarrow> possession_proved srv (o_oldPrivateKey opts) items)"
  using checked_prefix [OF assms [unfolded rotateCompromisedKey_def option.case]]
proof (elim disjE exE conjE)
  fix pub priv s0
  assume s0: "effects s0 = effects \<lparr>outside = w, effects = []\<rparr>" and proved: "possession_proved srv (o_oldPrivateKey opts) items"
    and rest: "(case reencryptAll srv (o_oldPrivateKey opts) pub items ([], []) s0 of
      (outcome, s1) \<Rightarrow> finishRotation srv opts pub priv outcome s1) = (r, s)"
  obtain outcome s1 where a: "reencryptAll srv (o_oldPrivateKey opts) pub items ([], []) s0 = (outcome, s1)" by fastforce
  have e1: "effects s1 = map Reencrypt (payloads items)" "length (fst outcome) + length (snd outcome) = length items"
    using reencryptAll_effects [OF a] s0 by simp_all
  have "finishRotation srv opts pub priv outcome s1 = (r, s)" using rest a by simp
  from finishRotation_effects [OF this] e1 proved show ?thesis
    by (cases r) (simp_all, blast)
qed auto

text \<open>Services that accept everything, in a world without state; \<open>sampleFailing\<close> cannot save a key.\<close>

definition sampleServices :: "unit rotation_services" where
  "sampleServices = \<lparr>generateKeyPair = returnC (''pub'', ''priv''), importPublicKey = (\<lambda>k. returnC ()), importPrivateKey = (\<lambda>k. returnC ()),
     decryptEnvelope = (\<lambda>e k. returnC ''share''), reencryptEnvelope = (\<lambda>e k p. returnC ''new envelope''),
     saveKeyPair = (\<lambda>a p k pin. returnC ()), evmContract = Some (\<lambda>old new. returnC None), sorobanContract = None,
     waitForTx = returnC (), dateNow = (\<lambda>w. 0)\<rparr>"

definition sampleFailing :: "unit rotation_services" where
  "sampleFailing = sampleServices\<lparr>saveKeyPair := (\<lambda>a p k pin. throwC ''offline'')\<rparr>"

definition sampleOptions :: rotation_options where
  "sampleOptions = \<lparr>o_account = ''A'', o_oldPublicKey = ''op'', o_oldPrivateKey = ''ok'', o_newPublicKey = [], o_newPrivateKey = [],
     o_pinOrPassphrase = ''1234''\<rparr>"

lemmas rotation_steps = rotateCompromisedKey_def finishRotation_def checkOptions_def replacementKeys_def proveOwnership_def revokeOnChain_def
  submitEvm_def submitSoroban_def persistKey_def perform_def liftW_def call_defs has_payload_def js_trim_def is_space_def

theorem rotation_protocol_witness:
  "\<exists>rep s. rotateCompromisedKey sampleServices sampleOptions (Some [Some \<lparr>ref_documentId = DocNumber 1, ref_envelope = ''e''\<rparr>, None])
      \<lparr>outside = (), effects = []\<rparr> = (Inr rep, s)
    \<and> effects s = [Reencrypt ''e'', RevokeEvm ''op'' ''pub'', SaveKeyPair ''A'' ''pub'']
    \<and> length (rotatedDocumentIds rep) + length (rep_failures rep) = 2"
proof -
  obtain rep s where r: "rotateCompromisedKey sampleServices sampleOptions (Some [Some \<lparr>ref_documentId = DocNumber 1, ref_envelope = ''e''\<rparr>, None])
      \<lparr>outside = (), effects = []\<rparr> = (Inr rep, s)" "rep_newPublicKey rep = ''pub''"
    by (simp add: rotation_steps sampleServices_def sampleOptions_def)
  from rotation_protocol [OF r(1)] r show ?thesis
    by (simp add: payloads_def has_payload_def revocations_def sampleServices_def sampleOptions_def)
qed

text \<open>A failure to save the key after the revocation loses the replacement key: it was generated, is registered on the chain, and is nowhere stored.\<close>

lemma replacement_key_can_be_lost:
  "\<exists>e s. rotateCompromisedKey sampleFailing sampleOptions (Some []) \<lparr>outside = (), effects = []\<rparr> = (Inl e, s)
    \<and> effects s = [RevokeEvm ''op'' ''pub'']"
  by (simp add: rotation_steps sampleServices_def sampleFailing_def sampleOptions_def)

lemma reencryptAll_cong:
  assumes "\<And>e k p w. snd (reencryptEnvelope srv e k p w) = snd (f e k p w)
      \<and> map_sum id (\<lambda>_. ()) (fst (reencryptEnvelope srv e k p w)) = map_sum id (\<lambda>_. ()) (fst (f e k p w))"
  shows "reencryptAll (srv\<lparr>reencryptEnvelope := f\<rparr>) k pub items acc s = reencryptAll srv k pub items acc s"
proof (induction items arbitrary: acc s)
  case (Cons item items)
  obtain rotated failures where acc: "acc = (rotated, failures)" by fastforce
  show ?case
  proof (cases item)
    case (Some r)
    have *: "snd (reencryptEnvelope srv (ref_envelope r) k pub (outside s)) = snd (f (ref_envelope r) k pub (outside s))"
      "map_sum id (\<lambda>_. ()) (fst (reencryptEnvelope srv (ref_envelope r) k pub (outside s))) =
       map_sum id (\<lambda>_. ()) (fst (f (ref_envelope r) k pub (outside s)))"
      using assms by blast+
    obtain x w1 y w2 where xy: "reencryptEnvelope srv (ref_envelope r) k pub (outside s) = (x, w1)" "f (ref_envelope r) k pub (outside s) = (y, w2)"
      by fastforce
    with * have "w2 = w1" "x = y \<or> (\<exists>t t'. x = Inr t \<and> y = Inr t')"
      by (cases x; cases y; simp)+
    then show ?thesis
      using xy acc Some Cons.IH by (cases y) (auto simp: perform_def liftW_def)
  qed (simp add: acc Cons.IH)
qed simp

lemma other_steps:
  "replacementKeys (srv\<lparr>reencryptEnvelope := f\<rparr>) = replacementKeys srv"
  "proveOwnership (srv\<lparr>reencryptEnvelope := f\<rparr>) = proveOwnership srv"
  "revokeOnChain (srv\<lparr>reencryptEnvelope := f\<rparr>) = revokeOnChain srv"
  "finishRotation (srv\<lparr>reencryptEnvelope := f\<rparr>) = finishRotation srv"
proof -
  let ?srv = "srv\<lparr>reencryptEnvelope := f\<rparr>"
  have fields: "generateKeyPair ?srv = generateKeyPair srv" "importPublicKey ?srv = importPublicKey srv"
    "importPrivateKey ?srv = importPrivateKey srv" "decryptEnvelope ?srv = decryptEnvelope srv" "saveKeyPair ?srv = saveKeyPair srv"
    "evmContract ?srv = evmContract srv" "sorobanContract ?srv = sorobanContract srv" "waitForTx ?srv = waitForTx srv"
    "dateNow ?srv = dateNow srv"
    by simp_all
  show "replacementKeys ?srv = replacementKeys srv" "proveOwnership ?srv = proveOwnership srv"
    "revokeOnChain ?srv = revokeOnChain srv" "finishRotation ?srv = finishRotation srv"
    unfolding fun_eq_iff finishRotation_def replacementKeys_def proveOwnership_def revokeOnChain_def submitEvm_def submitSoroban_def persistKey_def fields
    by (rule allI | rule refl)+
qed

text \<open>
  The re-encrypted envelopes are dropped: a rotation does not depend on the texts that re-encryption
  produces. Whatever they are, as long as re-encryption succeeds, fails and acts in the same way, the result and
  everything the rotation does are the same, so no re-encrypted envelope is stored, sent or returned.
\<close>

theorem reencryption_discarded:
  assumes "\<And>e k p w. snd (reencryptEnvelope srv e k p w) = snd (f e k p w)
      \<and> map_sum id (\<lambda>_. ()) (fst (reencryptEnvelope srv e k p w)) = map_sum id (\<lambda>_. ()) (fst (f e k p w))"
  shows "rotateCompromisedKey (srv\<lparr>reencryptEnvelope := f\<rparr>) opts envelopes s = rotateCompromisedKey srv opts envelopes s"
  unfolding rotateCompromisedKey_def reencryptAll_cong [OF assms] other_steps by (rule refl)

theorem reencryption_discarded_witness:
  "rotateCompromisedKey (sampleServices\<lparr>reencryptEnvelope := \<lambda>e k p. returnC ''garbage''\<rparr>) sampleOptions
     (Some [Some \<lparr>ref_documentId = DocNumber 1, ref_envelope = ''e''\<rparr>]) \<lparr>outside = (), effects = []\<rparr> =
   rotateCompromisedKey sampleServices sampleOptions
     (Some [Some \<lparr>ref_documentId = DocNumber 1, ref_envelope = ''e''\<rparr>]) \<lparr>outside = (), effects = []\<rparr>"
  by (rule reencryption_discarded) (simp add: sampleServices_def returnC_def)

end
