(* ===== verification/VDF.thy ===== *)
theory VDF
  imports Complex_Main Secrets Base64
begin

text \<open>
  The delay function of \<^verbatim>\<open>utils/vdf.ts\<close>: sequential squaring modulo an RSA modulus, Wesolowski's and
  Pietrzak's proofs of the result. The encryption under the result is in \<open>Timelock\<close>, the search for
  probable primes in \<open>Probable_Primes\<close>.

  A \<^verbatim>\<open>number\<close> that should be a count is a rational, so that the checks for integers are part of the
  model. The digest \<^verbatim>\<open>keccak256(solidityPacked(types, values))\<close> of the library ethers is the parameter
  \<open>keccak\<close>.
  Every modulus is positive where the code divides by it, apart from the challenge of a received
  ciphertext, whose division by zero is a branch of \<open>modPow_vdf\<close>.
\<close>

unbundle bit_operations_syntax

section \<open>Bytes and numbers\<close>

text \<open>\<^verbatim>\<open>parseInt(s, 16)\<close> stored into a byte array, where \<^verbatim>\<open>NaN\<close> is stored as zero.\<close>

definition byte_of_hex :: "string \<Rightarrow> byte" where
  "byte_of_hex s = (case parse_int 16 s of None \<Rightarrow> 0 | Some v \<Rightarrow> word_of_int v)"

definition hex_pairs :: "string \<Rightarrow> byte list" where
  "hex_pairs h = map (\<lambda>i. byte_of_hex (js_slice h (i * 2) (i * 2 + 2))) [0..<length h div 2]"

definition toBytesBE :: "int \<Rightarrow> byte list result" where
  "toBytesBE v =
     (if v < 0 then Inl (Error ''negative bigint'')
      else if v = 0 then Inr [0]
      else let hex = bigint_hex_str v;
               hex = (if odd (length hex) then CHR ''0'' # hex else hex)
           in Inr (hex_pairs hex))"

definition byteLength :: "int \<Rightarrow> nat" where
  "byteLength v = (if v = 0 then 1 else (length (bigint_hex_str v) + 1) div 2)"

definition toBytesBEPadded :: "int \<Rightarrow> nat \<Rightarrow> byte list result" where
  "toBytesBEPadded v width =
     bindE (toBytesBE v) (\<lambda>raw.
       if length raw = width then Inr raw
       else if length raw > width then Inr (drop (length raw - width) raw)
       else Inr (replicate (width - length raw) 0 @ raw))"

definition bytesToBigInt :: "byte list \<Rightarrow> int result" where
  "bytesToBigInt bs = (let hex = ''0x'' @ concat (map byte_hex bs) in BigInt (if hex = ''0x'' then ''0x0'' else hex))"

definition hexToBytes :: "string \<Rightarrow> byte list" where
  "hexToBytes hex = hex_pairs (if starts_with ''0x'' hex \<or> starts_with ''0X'' hex then drop 2 hex else hex)"

definition bigintToHexPad :: "int \<Rightarrow> nat \<Rightarrow> string" where
  "bigintToHexPad v byteLen =
     (let hex = bigint_hex_str v; target = byteLen * 2
      in ''0x'' @ (if length hex > target then drop (length hex - target) hex else pad_start target CHR ''0'' hex))"

definition modPow_vdf :: "int \<Rightarrow> int \<Rightarrow> int \<Rightarrow> int result" where
  "modPow_vdf base e m =
     (if m = 1 then Inr 0
      else if m = 0 then Inl (RangeError ''Division by zero'')
      else Inr (pow_loop (\<lambda>a b. bigint_rem (a * b) m) 1 (bigint_rem (bigint_rem base m + m) m) e))"

section \<open>Evaluation\<close>

text \<open>\<^verbatim>\<open>Number.isInteger\<close>, and the conversion \<^verbatim>\<open>BigInt(T)\<close> of a number.\<close>

definition isInteger :: "rat \<Rightarrow> bool" where
  "isInteger T \<longleftrightarrow> of_int \<lfloor>T\<rfloor> = T"

definition BigInt_number :: "rat \<Rightarrow> int result" where
  "BigInt_number T =
     (if isInteger T then Inr \<lfloor>T\<rfloor>
      else Inl (RangeError ''The number cannot be converted to a BigInt because it is not an integer''))"

definition assertPositiveBigInt :: "int \<Rightarrow> string \<Rightarrow> unit result" where
  "assertPositiveBigInt v label = (if v \<le> 0 then Inl (Error (label @ '' must be a positive bigint'')) else Inr ())"

definition assertValidT :: "rat \<Rightarrow> unit result" where
  "assertValidT T = (if \<not> isInteger T \<or> T < 1 then Inl (Error ''T must be a positive integer'') else Inr ())"

text \<open>The values handed to \<^verbatim>\<open>solidityPacked\<close>, with the width of an unsigned integer.\<close>

datatype packed = PackBytes "byte list" | PackUint nat int

type_synonym keccak = "packed list \<Rightarrow> string result"

definition deriveChallengeElement :: "keccak \<Rightarrow> int \<Rightarrow> rat \<Rightarrow> int result" where
  "deriveChallengeElement keccak N T =
     bindE (assertPositiveBigInt N ''N'') (\<lambda>_.
     bindE (assertValidT T) (\<lambda>_.
     bindE (toBytesBE N) (\<lambda>nBytes.
     bindE (BigInt_number T) (\<lambda>t.
     bindE (keccak [PackBytes nBytes, PackUint 256 N, PackUint 64 t]) (\<lambda>digest.
     bindE (bytesToBigInt (hexToBytes digest)) (\<lambda>v.
       let x = bigint_rem v N in Inr (if x \<le> 1 then 2 else x)))))))"

definition squarings :: "int \<Rightarrow> nat \<Rightarrow> int \<Rightarrow> int" where
  "squarings N n y = ((\<lambda>y. bigint_rem (y * y) N) ^^ n) y"

definition evaluateVdf :: "int \<Rightarrow> rat \<Rightarrow> int \<Rightarrow> int result" where
  "evaluateVdf x T N =
     bindE (assertPositiveBigInt N ''N'') (\<lambda>_.
     bindE (assertPositiveBigInt x ''x'') (\<lambda>_.
     bindE (assertValidT T) (\<lambda>_.
       Inr (squarings N (nat \<lfloor>T\<rfloor>) (bigint_rem x N)))))"

section \<open>Wesolowski's proof\<close>

record WesolowskiProof =
  w_y :: int
  w_pi :: int
  w_l :: int
  w_r :: int

definition fiatShamirChallenge :: "keccak \<Rightarrow> int \<Rightarrow> int \<Rightarrow> rat \<Rightarrow> int \<Rightarrow> nat \<Rightarrow> int result" where
  "fiatShamirChallenge keccak x y T N challengeBits =
     (let width = (if byteLength N \<le> 32 then 32 else byteLength N) in
     bindE (toBytesBEPadded (bigint_rem x N) width) (\<lambda>xBytes.
     bindE (toBytesBEPadded (bigint_rem y N) width) (\<lambda>yBytes.
     bindE (BigInt_number T) (\<lambda>t.
     bindE (toBytesBEPadded N width) (\<lambda>nBytes.
     bindE (keccak [PackBytes xBytes, PackBytes yBytes, PackUint 64 t, PackBytes nBytes]) (\<lambda>digest.
     bindE (bytesToBigInt (hexToBytes digest)) (\<lambda>v.
       let mask = 2 ^ challengeBits - 1;
           l = v AND mask;
           l = (if l < 3 then 3 else l)
       in Inr (if l AND 1 = 0 then l + 1 else l))))))))"

definition proofStep :: "int \<Rightarrow> int \<Rightarrow> int \<Rightarrow> int \<times> int \<Rightarrow> int \<times> int" where
  "proofStep N l xMod = (\<lambda>(p, rm).
     let doubled = rm * 2;
         p' = bigint_rem (p * p) N
     in (if doubled \<ge> l then bigint_rem (p' * xMod) N else p', bigint_rem doubled l))"

definition proveWesolowski :: "keccak \<Rightarrow> int \<Rightarrow> rat \<Rightarrow> int \<Rightarrow> nat \<Rightarrow> WesolowskiProof result" where
  "proveWesolowski keccak x T N challengeBits =
     bindE (assertPositiveBigInt N ''N'') (\<lambda>_.
     bindE (assertPositiveBigInt x ''x'') (\<lambda>_.
     bindE (assertValidT T) (\<lambda>_.
       let xMod = bigint_rem x N;
           y = squarings N (nat \<lfloor>T\<rfloor>) xMod
       in bindE (fiatShamirChallenge keccak xMod y T N challengeBits) (\<lambda>l.
         case (proofStep N l xMod ^^ nat \<lfloor>T\<rfloor>) (1, 1) of (p, rm) \<Rightarrow>
           Inr \<lparr>w_y = y, w_pi = p, w_l = l, w_r = rm\<rparr>))))"

definition verifyWesolowski :: "keccak \<Rightarrow> int \<Rightarrow> rat \<Rightarrow> int \<Rightarrow> WesolowskiProof \<Rightarrow> nat \<Rightarrow> bool result" where
  "verifyWesolowski keccak x T N prf challengeBits =
     bindE (assertPositiveBigInt N ''N'') (\<lambda>_.
     bindE (assertValidT T) (\<lambda>_.
       let xMod = bigint_rem x N in
       bindE (fiatShamirChallenge keccak xMod (w_y prf) T N challengeBits) (\<lambda>expectedL.
       if w_l prf \<noteq> expectedL then Inr False
       else bindE (BigInt_number T) (\<lambda>t.
         bindE (modPow_vdf 2 t (w_l prf)) (\<lambda>r.
         if w_r prf \<noteq> r then Inr False
         else bindE (modPow_vdf (w_pi prf) (w_l prf) N) (\<lambda>a.
           bindE (modPow_vdf xMod r N) (\<lambda>b.
             Inr (bigint_rem (a * b) N = bigint_rem (w_y prf) N))))))))"

section \<open>Pietrzak's proof\<close>

record PietrzakProof =
  p_y :: int
  p_mus :: "int list"

text \<open>The bitwise operators of \<^verbatim>\<open>number\<close> work on signed 32-bit integers.\<close>

definition toInt32 :: "int \<Rightarrow> int" where
  "toInt32 v = (v + 2 ^ 31) mod 2 ^ 32 - 2 ^ 31"

definition shr1 :: "int \<Rightarrow> int" where
  "shr1 v = toInt32 v div 2"

lemma shr1_less: "1 < v \<Longrightarrow> shr1 v < v"
proof -
  assume "1 < v"
  then have "toInt32 v \<le> v" using zmod_le_nonneg_dividend [of "v + 2 ^ 31" "2 ^ 32"] by (simp add: toInt32_def)
  then show "shr1 v < v" using \<open>1 < v\<close> by (simp add: shr1_def)
qed

definition validRounds :: "rat \<Rightarrow> bool" where
  "validRounds T \<longleftrightarrow> isInteger T \<and> T \<ge> 2 \<and> toInt32 \<lfloor>T\<rfloor> AND toInt32 (\<lfloor>T\<rfloor> - 1) = 0"

definition pietrzakChallenge :: "keccak \<Rightarrow> int \<Rightarrow> int \<Rightarrow> int \<Rightarrow> int \<Rightarrow> int \<Rightarrow> int result" where
  "pietrzakChallenge keccak x y mu t N =
     (let width = (if byteLength N \<le> 32 then 32 else byteLength N) in
     bindE (toBytesBEPadded (bigint_rem x N) width) (\<lambda>xBytes.
     bindE (toBytesBEPadded (bigint_rem y N) width) (\<lambda>yBytes.
     bindE (toBytesBEPadded (bigint_rem mu N) width) (\<lambda>muBytes.
     bindE (toBytesBEPadded N width) (\<lambda>nBytes.
     bindE (keccak [PackBytes xBytes, PackBytes yBytes, PackBytes muBytes, PackUint 64 t, PackBytes nBytes]) (\<lambda>digest.
     bindE (bytesToBigInt (hexToBytes digest)) (\<lambda>v.
       let r = v AND (2 ^ 128 - 1) in Inr (if r = 0 then 1 else r))))))))"

text \<open>One round of both sides, given the halfway point: the next pair of group elements.\<close>

definition nextPair :: "keccak \<Rightarrow> int \<Rightarrow> int \<Rightarrow> int \<Rightarrow> int \<Rightarrow> int \<Rightarrow> (int \<times> int) result" where
  "nextPair keccak N curX curY mu curT =
     bindE (pietrzakChallenge keccak curX curY mu curT N) (\<lambda>r.
     bindE (modPow_vdf curX r N) (\<lambda>a.
     bindE (modPow_vdf mu r N) (\<lambda>b.
       Inr (bigint_rem (a * mu) N, bigint_rem (b * curY) N))))"

function proveRounds :: "keccak \<Rightarrow> int \<Rightarrow> int \<Rightarrow> int \<Rightarrow> int \<Rightarrow> int list result" where
  "proveRounds keccak N curX curY curT =
     (if curT > 1 then
        bindE (evaluateVdf curX (of_int (shr1 curT)) N) (\<lambda>mu.
        bindE (nextPair keccak N curX curY mu curT) (\<lambda>(curX', curY').
        bindE (proveRounds keccak N curX' curY' (shr1 curT)) (\<lambda>mus. Inr (mu # mus))))
      else Inr [])"
  by pat_completeness auto

termination
  by (relation "measure (\<lambda>(keccak, N, curX, curY, curT). nat curT)") (auto dest: shr1_less)

declare proveRounds.simps [simp del]

definition provePietrzak :: "keccak \<Rightarrow> int \<Rightarrow> rat \<Rightarrow> int \<Rightarrow> PietrzakProof result" where
  "provePietrzak keccak x T N =
     bindE (assertPositiveBigInt N ''N'') (\<lambda>_.
     bindE (assertPositiveBigInt x ''x'') (\<lambda>_.
     if \<not> validRounds T then Inl (Error ''Pietrzak VDF requires T to be a power of two >= 2'')
     else let xMod = bigint_rem x N in
       bindE (evaluateVdf xMod T N) (\<lambda>y.
       bindE (proveRounds keccak N xMod y \<lfloor>T\<rfloor>) (\<lambda>mus. Inr \<lparr>p_y = y, p_mus = mus\<rparr>))))"

fun verifyRounds :: "keccak \<Rightarrow> int \<Rightarrow> int list \<Rightarrow> int \<Rightarrow> int \<Rightarrow> int \<Rightarrow> bool result" where
  "verifyRounds keccak N [] curX curY curT = Inr (curT = 1 \<and> bigint_rem (curX * curX) N = curY)"
| "verifyRounds keccak N (mu # mus) curX curY curT =
     (if mu \<le> 0 \<or> mu \<ge> N then Inr False
      else bindE (nextPair keccak N curX curY mu curT) (\<lambda>(curX', curY').
        verifyRounds keccak N mus curX' curY' (shr1 curT)))"

text \<open>\<^verbatim>\<open>Math.log2(T)\<close> equals the number of rounds exactly when \<open>T\<close> is that power of two.\<close>

definition verifyPietrzak :: "keccak \<Rightarrow> int \<Rightarrow> rat \<Rightarrow> int \<Rightarrow> PietrzakProof \<Rightarrow> bool result" where
  "verifyPietrzak keccak x T N prf =
     bindE (assertPositiveBigInt N ''N'') (\<lambda>_.
     if \<not> validRounds T then Inr False
     else if T \<noteq> 2 ^ length (p_mus prf) then Inr False
     else verifyRounds keccak N (p_mus prf) (bigint_rem x N) (bigint_rem (p_y prf) N) \<lfloor>T\<rfloor>)"

section \<open>Facts on the helpers\<close>

text \<open>What the library promises: values that fit their types are packed and hashed.\<close>

fun packable :: "packed \<Rightarrow> bool" where
  "packable (PackBytes bs) = True"
| "packable (PackUint w v) = (0 \<le> v \<and> v < 2 ^ w)"

definition hash_total :: "keccak \<Rightarrow> bool" where
  "hash_total keccak \<longleftrightarrow> (\<forall>vs. list_all packable vs \<longrightarrow> (\<exists>digest. keccak vs = Inr digest))"

lemma hash_totalD: "hash_total keccak \<Longrightarrow> list_all packable vs \<Longrightarrow> \<exists>digest. keccak vs = Inr digest"
  by (simp add: hash_total_def)

lemma isInteger_of_nat [simp]: "isInteger (of_nat t)"
  by (simp add: isInteger_def)

lemma BigInt_number_of_nat [simp]: "BigInt_number (of_nat t) = Inr (int t)"
  by (simp add: BigInt_number_def)

lemma assertValidT_of_nat [simp]: "1 \<le> t \<Longrightarrow> assertValidT (of_nat t) = Inr ()"
  by (simp add: assertValidT_def)

lemma assertPositive [simp]: "0 < v \<Longrightarrow> assertPositiveBigInt v label = Inr ()"
  by (simp add: assertPositiveBigInt_def)

lemma toBytesBE_total: "0 \<le> v \<Longrightarrow> \<exists>bs. toBytesBE v = Inr bs"
  by (simp add: toBytesBE_def Let_def)

lemma toBytesBEPadded_total: "0 \<le> v \<Longrightarrow> \<exists>bs. toBytesBEPadded v width = Inr bs"
  using toBytesBE_total [of v] by (auto simp: toBytesBEPadded_def)

lemma bytesToBigInt_total: "\<exists>v \<ge> 0. bytesToBigInt bs = Inr v"
proof (cases bs)
  case (Cons b bs')
  let ?h = "concat (map byte_hex bs)"
  have "?h \<noteq> []" using Cons by simp
  moreover have "is_digit 16 c" if "c \<in> set ?h" for c
    using that parse_digits_is_digit [OF byte_hex_parse] by auto
  ultimately obtain n where "parse_digits 16 ?h = Some n"
    using parse_all_digits by meson
  then have "BigInt (''0x'' @ ?h) = Inr (int n)" using BigInt_hex by simp
  with \<open>?h \<noteq> []\<close> show ?thesis by (auto simp: bytesToBigInt_def Let_def)
next
  case Nil
  have "parse_digits 16 ''0'' = Some 0" by (simp add: parse_digits_def digit_val_def Let_def)
  then have "BigInt ''0x0'' = Inr 0" using BigInt_hex [of "''0''" 0] by simp
  with Nil show ?thesis by (auto simp: bytesToBigInt_def Let_def)
qed

lemma modPow_vdf_eq:
  assumes "0 < m"
  shows "modPow_vdf b e m = Inr (b ^ nat e mod m)"
proof (cases "m = 1")
  case False
  have "bigint_rem (bigint_rem b m + m) m = b mod m"
    using assms by (simp add: bigint_rem_normalise)
  moreover have "pow_loop (\<lambda>a b. bigint_rem (a * b) m) 1 (b mod m) e = 1 * (b mod m) ^ nat e mod m"
    using assms False by (intro pow_loop_correct) auto
  ultimately show ?thesis
    using assms False by (simp add: modPow_vdf_def power_mod)
qed (simp add: modPow_vdf_def)

lemma squarings_eq:
  assumes "0 < N"
  shows "squarings N n (x mod N) = x ^ (2 ^ n) mod N"
proof (induction n)
  case (Suc n)
  have "squarings N (Suc n) (x mod N) = bigint_rem (squarings N n (x mod N) * squarings N n (x mod N)) N"
    by (simp add: squarings_def)
  also have "\<dots> = x ^ (2 ^ n) * x ^ (2 ^ n) mod N"
    using assms Suc by (simp add: mod_mult_eq)
  finally show ?case by (simp add: power_add mult_2)
qed (simp add: squarings_def)

lemma evaluateVdf_eq:
  "0 < N \<Longrightarrow> 0 < x \<Longrightarrow> 1 \<le> t \<Longrightarrow> evaluateVdf x (of_nat t) N = Inr (x ^ (2 ^ t) mod N)"
  by (simp add: evaluateVdf_def squarings_eq)

lemma odd_challenge:
  fixes v :: int
  assumes "0 \<le> v"
  shows "let l = (if v < 3 then 3 else v); l = (if l AND 1 = 0 then l + 1 else l) in 3 \<le> l \<and> odd l"
  using assms by (auto simp: Let_def and_one_eq odd_iff_mod_2_eq_one)

lemma fiatShamir_total:
  assumes "hash_total keccak" "0 < N" "0 \<le> x" "0 \<le> y" "t < 2 ^ 64"
  shows "\<exists>l. fiatShamirChallenge keccak x y (of_nat t) N bits = Inr l \<and> 3 \<le> l \<and> odd l"
proof -
  let ?w = "if byteLength N \<le> 32 then 32 else byteLength N"
  obtain xb yb nb where b: "toBytesBEPadded (x mod N) ?w = Inr xb" "toBytesBEPadded (y mod N) ?w = Inr yb"
      "toBytesBEPadded N ?w = Inr nb"
    using toBytesBEPadded_total assms(2) by (metis less_imp_le pos_mod_sign)
  obtain d where d: "keccak [PackBytes xb, PackBytes yb, PackUint 64 (int t), PackBytes nb] = Inr d"
    using hash_totalD [OF assms(1), of "[PackBytes xb, PackBytes yb, PackUint 64 (int t), PackBytes nb]"] assms(5)
    by (auto simp: of_nat_less_numeral_power_cancel_iff simp del: power_numeral)
  obtain v where v: "0 \<le> v" "bytesToBigInt (hexToBytes d) = Inr v" using bytesToBigInt_total by blast
  have "0 \<le> v AND (2 ^ bits - 1)" using v(1) by simp
  from odd_challenge [OF this] show ?thesis
    using assms b d v(2) by (simp add: fiatShamirChallenge_def Let_def)
qed

section \<open>Wesolowski's proof\<close>

lemma double_divmod:
  fixes l :: int
  assumes "0 < l"
  shows "2 ^ Suc n mod l = 2 * (2 ^ n mod l) mod l"
    "2 ^ Suc n div l = 2 * (2 ^ n div l) + (if 2 * (2 ^ n mod l) \<ge> l then 1 else 0)"
proof -
  let ?q = "2 ^ n div l" and ?r = "2 ^ n mod l"
  show "2 ^ Suc n mod l = 2 * ?r mod l" by (simp add: mod_mult_right_eq)
  have r: "0 \<le> ?r" "?r < l" using assms by simp_all
  have "2 ^ Suc n = 2 * (?q * l + ?r)" by simp
  also have "\<dots> = 2 * ?q * l + 2 * ?r" by (simp only: distrib_left mult.assoc)
  finally have "2 ^ Suc n div l = 2 * ?q + 2 * ?r div l" using assms by (metis div_mult_self3 less_irrefl)
  also have "2 * ?r div l = (if 2 * ?r \<ge> l then 1 else 0)"
    using r int_div_pos_eq [of "2 * ?r" l 1 "2 * ?r - l"] by (auto simp: div_pos_pos_trivial)
  finally show "2 ^ Suc n div l = 2 * ?q + (if 2 * ?r \<ge> l then 1 else 0)" .
qed

lemma proofStep_loop:
  assumes "0 < N" "1 < l"
  shows "\<exists>p. (proofStep N l (x mod N) ^^ n) (1, 1) = (p, 2 ^ n mod l) \<and> 0 \<le> p \<and> p mod N = x ^ nat (2 ^ n div l) mod N"
proof (induction n)
  case (Suc n)
  let ?q = "2 ^ n div l" and ?r = "2 ^ n mod l"
  from Suc obtain p where p: "(proofStep N l (x mod N) ^^ n) (1, 1) = (p, ?r)" "0 \<le> p" "p mod N = x ^ nat ?q mod N" by blast
  let ?p = "if 2 * ?r \<ge> l then p * p mod N * (x mod N) mod N else p * p mod N"
  have "(proofStep N l (x mod N) ^^ Suc n) (1, 1) = (?p, 2 ^ Suc n mod l)"
    using p(1,2) assms by (simp add: proofStep_def double_divmod(1) mult.commute [of _ 2] del: power_Suc)
  moreover have "?p mod N = x ^ nat (2 ^ Suc n div l) mod N"
  proof -
    have "p * p mod N = x ^ (2 * nat ?q) mod N" by (metis mod_mult_eq mult_2 p(3) power_add)
    moreover have "nat (2 * ?q + 1) = 2 * nat ?q + 1" "nat (2 * ?q) = 2 * nat ?q"
      using assms by (simp_all add: nat_add_distrib nat_mult_distrib pos_imp_zdiv_nonneg_iff)
    ultimately show ?thesis
      using assms unfolding double_divmod(2) [OF order.strict_trans [OF zero_less_one assms(2)]]
      by (auto simp: mod_simps mult.commute)
  qed
  ultimately show ?case using assms by (auto simp del: power_Suc)
qed (use assms in \<open>simp add: div_pos_pos_trivial\<close>)

lemma quotient_power:
  fixes x :: int
  assumes "0 < l"
  shows "(x ^ nat (2 ^ n div l)) ^ nat l * x ^ nat (2 ^ n mod l) = x ^ (2 ^ n)"
proof -
  have "nat (2 ^ n div l) * nat l + nat (2 ^ n mod l) = nat (2 ^ n)"
    using assms by (simp add: nat_mult_distrib [symmetric] nat_add_distrib [symmetric] pos_imp_zdiv_nonneg_iff)
  also have "\<dots> = 2 ^ n" by (simp add: nat_power_eq)
  finally show ?thesis by (simp flip: power_mult power_add)
qed

lemma power_cong_mod: "p mod N = a mod N \<Longrightarrow> p ^ k * c mod N = a ^ k * c mod (N :: int)"
  by (metis mod_mult_left_eq power_mod)

lemma verify_accepts:
  assumes "0 < N" "0 \<le> x" "0 \<le> y" "1 \<le> t" "3 \<le> l"
    and "fiatShamirChallenge keccak (x mod N) y (of_nat t) N bits = Inr l"
    and "p ^ nat l * x ^ nat (2 ^ t mod l) mod N = y mod N"
  shows "verifyWesolowski keccak x (of_nat t) N \<lparr>w_y = y, w_pi = p, w_l = l, w_r = 2 ^ t mod l\<rparr> bits = Inr True"
proof -
  have "bigint_rem ((p ^ nat l mod N) * ((x mod N) ^ nat (2 ^ t mod l) mod N)) N = p ^ nat l * x ^ nat (2 ^ t mod l) mod N"
    using assms(1) by (simp add: mod_mult_eq power_mod)
  then show ?thesis
    using assms by (simp add: verifyWesolowski_def modPow_vdf_eq Let_def)
qed

lemma prove_shape:
  assumes "hash_total keccak" "0 < N" "0 < x" "1 \<le> t" "t < 2 ^ 64"
  obtains p l where "proveWesolowski keccak x (of_nat t) N bits =
      Inr \<lparr>w_y = x ^ (2 ^ t) mod N, w_pi = p, w_l = l, w_r = 2 ^ t mod l\<rparr>"
    and "fiatShamirChallenge keccak (x mod N) (x ^ (2 ^ t) mod N) (of_nat t) N bits = Inr l" "3 \<le> l" "odd l"
    and "0 \<le> p" "p mod N = x ^ nat (2 ^ t div l) mod N"
proof -
  obtain l where l: "fiatShamirChallenge keccak (x mod N) (x ^ (2 ^ t) mod N) (of_nat t) N bits = Inr l" "3 \<le> l" "odd l"
    using fiatShamir_total [OF assms(1,2), of "x mod N" "x ^ (2 ^ t) mod N" t bits] assms by auto
  obtain p where "(proofStep N l (x mod N) ^^ t) (1, 1) = (p, 2 ^ t mod l)" "0 \<le> p" "p mod N = x ^ nat (2 ^ t div l) mod N"
    using proofStep_loop [where N = N and l = l and x = x and n = t] assms(2) l(2) by auto
  with l assms show thesis
    by (intro that [of p l]) (simp_all add: proveWesolowski_def Let_def squarings_eq)
qed

lemma prove_verifies:
  assumes "hash_total keccak" "0 < N" "0 < x" "1 \<le> t" "t < 2 ^ 64"
  obtains p l where "proveWesolowski keccak x (of_nat t) N bits =
      Inr \<lparr>w_y = x ^ (2 ^ t) mod N, w_pi = p, w_l = l, w_r = 2 ^ t mod l\<rparr>" "0 \<le> p" "3 \<le> l"
    and "fiatShamirChallenge keccak (x mod N) (x ^ (2 ^ t) mod N) (of_nat t) N bits = Inr l"
    and "verifyWesolowski keccak x (of_nat t) N \<lparr>w_y = x ^ (2 ^ t) mod N, w_pi = p, w_l = l, w_r = 2 ^ t mod l\<rparr> bits = Inr True"
proof -
  from prove_shape [OF assms, of bits] obtain p l where
      s: "proveWesolowski keccak x (of_nat t) N bits = Inr \<lparr>w_y = x ^ (2 ^ t) mod N, w_pi = p, w_l = l, w_r = 2 ^ t mod l\<rparr>"
      "fiatShamirChallenge keccak (x mod N) (x ^ (2 ^ t) mod N) (of_nat t) N bits = Inr l" "3 \<le> l" "0 \<le> p"
      "p mod N = x ^ nat (2 ^ t div l) mod N"
    by metis
  then have "p ^ nat l * x ^ nat (2 ^ t mod l) mod N = x ^ (2 ^ t) mod N"
    using quotient_power [of l x t] power_cong_mod [of p N "x ^ nat (2 ^ t div l)"] by simp
  with s assms show thesis
    by (intro that [of p l] verify_accepts) simp_all
qed

section \<open>Properties of Wesolowski's proof\<close>

text \<open>
  C7. Wesolowski's proof is complete: for a positive modulus and start and every count of squarings that fits the
  packed encoding, the prover returns the power of the start by two to the count, the value the evaluation
  returns, with a proof that the verifier accepts, whatever the hash function.
\<close>

theorem wesolowski_complete:
  assumes "hash_total keccak" "0 < N" "0 < x" "1 \<le> t" "t < 2 ^ 64"
  shows "\<exists>prf. proveWesolowski keccak x (of_nat t) N bits = Inr prf
    \<and> w_y prf = x ^ (2 ^ t) mod N
    \<and> evaluateVdf x (of_nat t) N = Inr (w_y prf)
    \<and> verifyWesolowski keccak x (of_nat t) N prf bits = Inr True"
  using prove_verifies [OF assms, of bits] assms evaluateVdf_eq
  by (metis WesolowskiProof.select_convs(1))

text \<open>
  C8. The verifier does not determine the output: for an odd modulus and a start coprime to it there is an
  output other than the value of the delay function, its negative, that the verifier accepts with a suitable
  proof, since the challenge is odd. This holds for every hash function that always answers, every positive start, every
  number of squarings from 1 to below \<open>2 ^ 64\<close> and every challenge size.
\<close>

theorem wesolowski_accepts_negative:
  assumes "hash_total keccak" "odd N" "1 < N" "0 < x" "coprime x N" "1 \<le> t" "t < 2 ^ 64"
  shows "\<exists>prf y. evaluateVdf x (of_nat t) N = Inr y \<and> w_y prf \<noteq> y \<and> w_y prf = - y mod N
    \<and> verifyWesolowski keccak x (of_nat t) N prf bits = Inr True"
proof -
  let ?y = "x ^ (2 ^ t) mod N"
  have y: "- ?y mod N \<noteq> ?y"
  proof
    assume "- ?y mod N = ?y"
    then have "N dvd 2 * ?y" by (metis add_diff_cancel_right' mod_0_imp_dvd mod_add_left_eq add.left_inverse mod_0 mult_2 mod_mod_trivial mod_add_right_eq)
    then have "N dvd x ^ (2 ^ t)" using assms(2) by (metis coprime_dvd_mult_right_iff coprime_right_2_iff_odd mod_mod_trivial dvd_eq_mod_eq_0)
    with assms(3,5) show False by (metis coprime_common_divisor coprime_power_left_iff dvd_refl zdvd1_eq abs_of_nonneg less_le not_less zero_le_one order.strict_trans2 abs_of_pos less_trans zero_less_one)
  qed
  obtain l where l: "fiatShamirChallenge keccak (x mod N) (- ?y mod N) (of_nat t) N bits = Inr l" "3 \<le> l" "odd l"
    using fiatShamir_total [OF assms(1), of N "x mod N" "- ?y mod N" t bits] assms by auto
  let ?p = "- (x ^ nat (2 ^ t div l))"
  have "odd (nat l)" using l(2,3) by (simp add: even_nat_iff)
  then have "?p ^ nat l * x ^ nat (2 ^ t mod l) = - (x ^ (2 ^ t))"
    using quotient_power [of l x t] l(2) by (simp add: power_minus_odd)
  then have "?p ^ nat l * x ^ nat (2 ^ t mod l) mod N = (- ?y mod N) mod N"
    by (simp add: mod_minus_eq)
  with l assms have "verifyWesolowski keccak x (of_nat t) N \<lparr>w_y = - ?y mod N, w_pi = ?p, w_l = l, w_r = 2 ^ t mod l\<rparr> bits = Inr True"
    by (intro verify_accepts) auto
  with y assms show ?thesis by (intro exI conjI) (auto simp: evaluateVdf_eq)
qed

text \<open>A hash function for the concrete instances.\<close>

definition sampleKeccak :: keccak where
  "sampleKeccak vs = Inr ''0x07''"

lemma sampleKeccak_total: "hash_total sampleKeccak"
  by (simp add: hash_total_def sampleKeccak_def)

theorem wesolowski_complete_witness:
  "\<exists>prf. proveWesolowski sampleKeccak 2 3 15 128 = Inr prf \<and> w_y prf = 1
    \<and> verifyWesolowski sampleKeccak 2 3 15 prf 128 = Inr True"
  using wesolowski_complete [OF sampleKeccak_total, of 15 2 3 128] by auto

theorem wesolowski_accepts_negative_witness:
  "\<exists>prf. w_y prf \<noteq> 1 \<and> verifyWesolowski sampleKeccak 2 2 15 prf 128 = Inr True"
proof -
  have "coprime 2 (15 :: int)" by (simp add: coprime_left_2_iff_odd)
  then show ?thesis
    using wesolowski_accepts_negative [OF sampleKeccak_total, of 15 2 2 128] by (auto simp: evaluateVdf_eq [of 15 2 2, simplified])
qed

section \<open>Pietrzak's proof\<close>

lemma toInt32_id: "0 \<le> v \<Longrightarrow> v < 2 ^ 31 \<Longrightarrow> toInt32 v = v"
  by (simp add: toInt32_def)

lemma two_power_int32: "k \<le> 30 \<Longrightarrow> (2 :: int) ^ k < 2 ^ 31"
  by (rule power_strict_increasing) simp_all

lemma shr1_power: "k \<le> 29 \<Longrightarrow> shr1 (2 ^ Suc k) = 2 ^ k"
  using toInt32_id [OF _ two_power_int32, of "Suc k"] by (simp add: shr1_def del: power_Suc) simp

lemma validRounds_power:
  assumes "1 \<le> k" "k \<le> 30"
  shows "validRounds (2 ^ k)"
proof -
  have "(2 :: int) \<le> 2 ^ k" using assms(1) power_increasing [of 1 k "2 :: int"] by simp
  moreover have "toInt32 (2 ^ k) = 2 ^ k" "toInt32 (2 ^ k - 1) = 2 ^ k - 1"
    using two_power_int32 [OF assms(2)] by (auto intro: toInt32_id)
  moreover have "(2 :: int) ^ k AND (2 ^ k - 1) = 0"
    by (simp flip: mask_eq_exp_minus_1 take_bit_eq_mask)
  moreover have "\<lfloor>2 ^ k :: rat\<rfloor> = 2 ^ k" by (metis floor_of_int of_int_numeral of_int_power)
  ultimately show ?thesis
    by (simp add: validRounds_def isInteger_def) (metis of_int_le_iff of_int_numeral of_int_power)
qed

lemma nextPair_total:
  assumes "hash_total keccak" "0 < N" "0 \<le> curX" "0 \<le> curY" "0 \<le> mu" "0 \<le> curT" "curT < 2 ^ 64"
  shows "\<exists>r. nextPair keccak N curX curY mu curT = Inr (curX ^ r * mu mod N, mu ^ r * curY mod N)"
proof -
  let ?w = "if byteLength N \<le> 32 then 32 else byteLength N"
  obtain xb yb mb nb where b: "toBytesBEPadded (curX mod N) ?w = Inr xb" "toBytesBEPadded (curY mod N) ?w = Inr yb"
      "toBytesBEPadded (mu mod N) ?w = Inr mb" "toBytesBEPadded N ?w = Inr nb"
    using toBytesBEPadded_total assms(2) by (metis less_imp_le pos_mod_sign)
  obtain d where d: "keccak [PackBytes xb, PackBytes yb, PackBytes mb, PackUint 64 curT, PackBytes nb] = Inr d"
    using hash_totalD [OF assms(1), of "[PackBytes xb, PackBytes yb, PackBytes mb, PackUint 64 curT, PackBytes nb]"] assms(6,7)
    by auto
  obtain v where v: "bytesToBigInt (hexToBytes d) = Inr v" using bytesToBigInt_total by blast
  let ?r = "if v AND (2 ^ 128 - 1) = 0 then 1 else v AND (2 ^ 128 - 1)"
  have "pietrzakChallenge keccak curX curY mu curT N = Inr ?r"
    using assms b d v by (simp add: pietrzakChallenge_def Let_def)
  then have "nextPair keccak N curX curY mu curT = Inr (curX ^ nat ?r * mu mod N, mu ^ nat ?r * curY mod N)"
    using assms(2,4,5) by (simp only: nextPair_def bindE_simps modPow_vdf_eq) (simp add: mod_mult_left_eq)
  then show ?thesis by blast
qed

lemma next_power:
  fixes x N :: int
  assumes "mu = x ^ E mod N" "y = x ^ (E * E) mod N"
  shows "(x ^ r * mu mod N) ^ E mod N = mu ^ r * y mod N"
proof -
  have "(x ^ r * mu mod N) ^ E mod N = (x ^ r * x ^ E) ^ E mod N"
    unfolding assms(1) by (simp add: power_mod mod_mult_right_eq)
  also have "(x ^ r * x ^ E) ^ E = (x ^ E) ^ r * x ^ (E * E)"
    by (simp add: power_mult_distrib flip: power_mult) (simp add: mult.commute)
  also have "\<dots> mod N = mu ^ r * y mod N"
    unfolding assms using power_cong_mod [of "x ^ E mod N" N "x ^ E" r "x ^ (E * E)"] by (simp add: mod_mult_right_eq)
  finally show ?thesis .
qed

lemma coprime_range:
  fixes a N :: int
  assumes "coprime a N" "1 < N"
  shows "coprime (a mod N) N" "0 < a mod N" "a mod N < N"
proof -
  show "coprime (a mod N) N" using assms by (metis coprime_iff_gcd_eq_1 gcd_red_int gcd.commute)
  then show "0 < a mod N" using assms(2) by (metis coprime_0_left_iff less_le pos_mod_sign zdvd1_eq abs_of_pos less_irrefl order.strict_trans zero_less_one)
  show "a mod N < N" using assms(2) by simp
qed

lemma rounds_agree:
  assumes "hash_total keccak" "1 < N" "coprime x N" "0 \<le> x" "x < N" "k \<le> 30"
  shows "\<exists>mus. proveRounds keccak N x (x ^ (2 ^ (2 ^ k)) mod N) (2 ^ k) = Inr mus \<and> length mus = k
    \<and> verifyRounds keccak N mus x (x ^ (2 ^ (2 ^ k)) mod N) (2 ^ k) = Inr True"
  using assms(3-6)
proof (induction k arbitrary: x)
  case 0
  then show ?case using assms(2) by (simp add: proveRounds.simps power2_eq_square)
next
  case (Suc k)
  let ?E = "2 ^ (2 ^ k) :: nat" and ?y = "x ^ (2 ^ (2 ^ Suc k)) mod N"
  let ?mu = "x ^ ?E mod N"
  have mu: "coprime ?mu N" "0 < ?mu" "?mu < N" using coprime_range [of "x ^ ?E" N] Suc.prems assms(2) by simp_all
  have x: "0 < x" using coprime_range(2) [OF Suc.prems(1) assms(2)] Suc.prems by simp
  have half: "shr1 (2 ^ Suc k) = 2 ^ k" using Suc.prems by (intro shr1_power) simp
  have ev: "evaluateVdf x (of_int (2 ^ k)) N = Inr ?mu"
    using evaluateVdf_eq [of N x "2 ^ k"] x assms(2) by simp
  have bound: "(2 :: int) ^ Suc k < 2 ^ 64" using Suc.prems by (intro power_strict_increasing) simp_all
  obtain r where r: "nextPair keccak N x ?y ?mu (2 ^ Suc k) = Inr (x ^ r * ?mu mod N, ?mu ^ r * ?y mod N)"
    using nextPair_total [OF assms(1), of N x ?y ?mu "2 ^ Suc k"] assms(2) Suc.prems mu bound by (auto simp del: power_Suc)
  let ?x = "x ^ r * ?mu mod N"
  have x': "coprime ?x N" "0 < ?x" "?x < N" using coprime_range [of "x ^ r * ?mu" N] Suc.prems mu assms(2) by simp_all
  have "?mu ^ r * ?y mod N = ?x ^ ?E mod N"
    by (rule next_power [symmetric]) (simp_all flip: power_add mult_2)
  with r have r': "nextPair keccak N x ?y ?mu (2 ^ Suc k) = Inr (?x, ?x ^ ?E mod N)" by simp
  obtain mus where m: "proveRounds keccak N ?x (?x ^ ?E mod N) (2 ^ k) = Inr mus" "length mus = k"
      "verifyRounds keccak N mus ?x (?x ^ ?E mod N) (2 ^ k) = Inr True"
    using Suc.IH [of ?x] x' Suc.prems by auto
  have "1 < (2 :: int) ^ Suc k" by (rule one_less_power) simp_all
  with ev r' m(1) half have "proveRounds keccak N x ?y (2 ^ Suc k) = Inr (?mu # mus)"
    by (simp add: proveRounds.simps [of keccak N x ?y] del: power_Suc)
  moreover have "verifyRounds keccak N (?mu # mus) x ?y (2 ^ Suc k) = Inr True"
    using mu r' m(3) half by (simp del: power_Suc)
  ultimately show ?case using m(2) by (intro exI [of _ "?mu # mus"]) simp
qed

text \<open>
  C9. Pietrzak's proof is complete: for a modulus above one, a start coprime to it and a power of two between
  two and two to the thirty of squarings, the prover ends with one halfway point per halving and the verifier
  accepts its result.
\<close>

theorem pietrzak_complete:
  assumes "hash_total keccak" "1 < N" "0 < x" "coprime x N" "1 \<le> k" "k \<le> 30"
  shows "\<exists>prf. provePietrzak keccak x (2 ^ k) N = Inr prf
    \<and> p_y prf = x ^ (2 ^ (2 ^ k)) mod N \<and> length (p_mus prf) = k
    \<and> verifyPietrzak keccak x (2 ^ k) N prf = Inr True"
proof -
  let ?x = "x mod N" and ?y = "x ^ (2 ^ (2 ^ k)) mod N"
  have x: "coprime ?x N" "0 < ?x" "?x < N" using coprime_range [OF assms(4,2)] .
  have y: "?x ^ (2 ^ (2 ^ k)) mod N = ?y" by (simp add: power_mod)
  obtain mus where m: "proveRounds keccak N ?x ?y (2 ^ k) = Inr mus" "length mus = k"
      "verifyRounds keccak N mus ?x ?y (2 ^ k) = Inr True"
    using rounds_agree [OF assms(1,2) x(1) _ x(3) assms(6)] x(2) unfolding y by auto
  have fl: "\<lfloor>2 ^ k :: rat\<rfloor> = 2 ^ k" by (metis floor_of_int of_int_numeral of_int_power)
  have "evaluateVdf ?x (2 ^ k) N = Inr ?y"
    using evaluateVdf_eq [of N ?x "2 ^ k"] x(2) assms(2) by (simp add: power_mod)
  then have "provePietrzak keccak x (2 ^ k) N = Inr \<lparr>p_y = ?y, p_mus = mus\<rparr>"
    using m(1) validRounds_power [OF assms(5,6)] assms(2,3) by (simp add: provePietrzak_def fl)
  moreover have "verifyPietrzak keccak x (2 ^ k) N \<lparr>p_y = ?y, p_mus = mus\<rparr> = Inr True"
    using m validRounds_power [OF assms(5,6)] assms(2,3) by (simp add: verifyPietrzak_def fl)
  ultimately show ?thesis using m(2) by simp
qed

theorem pietrzak_complete_witness:
  "\<exists>prf. provePietrzak sampleKeccak 2 4 15 = Inr prf \<and> length (p_mus prf) = 2 \<and> verifyPietrzak sampleKeccak 2 4 15 prf = Inr True"
proof -
  have "coprime 2 (15 :: int)" by (simp add: coprime_left_2_iff_odd)
  then show ?thesis
    using pietrzak_complete [OF sampleKeccak_total, of 15 2 2] by auto
qed

end
