(* ===== verification/Timelock.thy ===== *)
theory Timelock
  imports VDF Base64
begin

text \<open>
  Encryption under the result of the delay function, from \<^verbatim>\<open>utils/vdf.ts\<close>: the document is encrypted
  under a key derived from the result, and decryption evaluates the function again and verifies the
  attached proof. Hashing, AES-GCM and the text codec of the browser are the parameters in
  \<open>vdf_platform\<close>. The message of a mismatch has a long dash in the source.
\<close>

section \<open>Encryption under the result\<close>

record TimelockCiphertext =
  tl_version :: string
  tl_N :: string
  tl_T :: rat
  tl_x :: string
  tl_y :: string
  tl_pi :: string
  tl_l :: string
  tl_iv :: string
  tl_ciphertext :: string

datatype plaintext = PlainText string | PlainBytes "byte list"

datatype timelock_payload = Parsed TimelockCiphertext | Serialized string

text \<open>The browser: a key of \<^verbatim>\<open>subtle.importKey\<close> is its raw bytes, \<open>parseTimelock\<close> is \<^verbatim>\<open>JSON.parse\<close>.\<close>

record vdf_platform =
  keccakPacked :: keccak
  hasCrypto :: bool
  hasSubtle :: bool
  sha256 :: "byte list \<Rightarrow> byte list"
  aesEncrypt :: "byte list \<Rightarrow> byte list \<Rightarrow> byte list \<Rightarrow> byte list result"
  aesDecrypt :: "byte list \<Rightarrow> byte list \<Rightarrow> byte list \<Rightarrow> byte list result"
  textEncode :: "string \<Rightarrow> byte list"
  textDecode :: "byte list \<Rightarrow> string"
  parseTimelock :: "string \<Rightarrow> TimelockCiphertext result"

definition TIMELOCK_VERSION :: string where
  "TIMELOCK_VERSION = ''vdf-wesolowski-aes256gcm-v1''"

definition DEFAULT_CHALLENGE_BITS :: nat where
  "DEFAULT_CHALLENGE_BITS = 128"

definition getCrypto :: "vdf_platform \<Rightarrow> unit result" where
  "getCrypto pf = (if hasCrypto pf then Inr () else Inl (Error ''Web Crypto API is not available''))"

definition getSubtle :: "vdf_platform \<Rightarrow> unit result" where
  "getSubtle pf = bindE (getCrypto pf) (\<lambda>_. if hasSubtle pf then Inr () else Inl (Error ''crypto.subtle is not available''))"

definition hashVdfOutput :: "vdf_platform \<Rightarrow> int \<Rightarrow> byte list result" where
  "hashVdfOutput pf y = bindE (getSubtle pf) (\<lambda>_. bindE (toBytesBE y) (\<lambda>bs. Inr (sha256 pf bs)))"

text \<open>\<^verbatim>\<open>deriveKeyFromVdfOutput\<close> imports the hash as a key.\<close>

definition deriveKeyFromVdfOutput :: "vdf_platform \<Rightarrow> int \<Rightarrow> byte list result" where
  "deriveKeyFromVdfOutput pf y = bindE (getSubtle pf) (\<lambda>_. bindE (toBytesBE y) (\<lambda>bs. Inr (sha256 pf bs)))"

definition plain_bytes :: "vdf_platform \<Rightarrow> plaintext \<Rightarrow> byte list" where
  "plain_bytes pf p = (case p of PlainText s \<Rightarrow> textEncode pf s | PlainBytes bs \<Rightarrow> bs)"

text \<open>\<open>iv\<close> are the twelve random bytes of the call.\<close>

definition encryptTimelock :: "vdf_platform \<Rightarrow> byte list \<Rightarrow> plaintext \<Rightarrow> int \<Rightarrow> rat \<Rightarrow> int option \<Rightarrow> nat \<Rightarrow> TimelockCiphertext result" where
  "encryptTimelock pf iv plain N T xParam challengeBits =
     bindE (case xParam of Some x \<Rightarrow> Inr x | None \<Rightarrow> deriveChallengeElement (keccakPacked pf) N T) (\<lambda>x.
     bindE (proveWesolowski (keccakPacked pf) x T N challengeBits) (\<lambda>prf.
     bindE (deriveKeyFromVdfOutput pf (w_y prf)) (\<lambda>key.
     bindE (getCrypto pf) (\<lambda>_.
     bindE (getSubtle pf) (\<lambda>_.
     bindE (aesEncrypt pf key iv (plain_bytes pf plain)) (\<lambda>buf.
       Inr \<lparr>tl_version = TIMELOCK_VERSION, tl_N = bigint_hex_str N, tl_T = T, tl_x = bigint_hex_str x,
         tl_y = bigint_hex_str (w_y prf), tl_pi = bigint_hex_str (w_pi prf), tl_l = bigint_hex_str (w_l prf),
         tl_iv = uint8ArrayToBase64 iv, tl_ciphertext = uint8ArrayToBase64 buf\<rparr>))))))"

text \<open>The check of a received ciphertext: the delay is evaluated again and the proof verified.\<close>

definition checkTimelock :: "vdf_platform \<Rightarrow> TimelockCiphertext \<Rightarrow> int result" where
  "checkTimelock pf d =
     bindE (BigInt (''0x'' @ tl_N d)) (\<lambda>N.
     bindE (BigInt (''0x'' @ tl_x d)) (\<lambda>x.
     bindE (BigInt (''0x'' @ tl_y d)) (\<lambda>y.
     bindE (BigInt (''0x'' @ tl_pi d)) (\<lambda>p.
     bindE (BigInt (''0x'' @ tl_l d)) (\<lambda>l.
     bindE (evaluateVdf x (tl_T d) N) (\<lambda>evaluated.
     if evaluated \<noteq> y then Inl (Error ''VDF output mismatch - timelock not satisfied'')
     else bindE (BigInt_number (tl_T d)) (\<lambda>t.
     bindE (modPow_vdf 2 t l) (\<lambda>r.
     bindE (verifyWesolowski (keccakPacked pf) x (tl_T d) N \<lparr>w_y = y, w_pi = p, w_l = l, w_r = r\<rparr> DEFAULT_CHALLENGE_BITS) (\<lambda>ok.
     if \<not> ok then Inl (Error ''Invalid Wesolowski VDF proof'') else Inr y)))))))))"

definition decryptTimelock :: "vdf_platform \<Rightarrow> timelock_payload \<Rightarrow> string result" where
  "decryptTimelock pf payload =
     bindE (case payload of Serialized s \<Rightarrow> parseTimelock pf s | Parsed d \<Rightarrow> Inr d) (\<lambda>d.
     if tl_version d \<noteq> TIMELOCK_VERSION then Inl (Error (''Unsupported timelock version: '' @ tl_version d))
     else bindE (checkTimelock pf d) (\<lambda>y.
     bindE (deriveKeyFromVdfOutput pf y) (\<lambda>key.
     bindE (base64ToUint8Array (tl_iv d)) (\<lambda>iv.
     bindE (base64ToUint8Array (tl_ciphertext d)) (\<lambda>ciphertext.
       case bindE (getSubtle pf) (\<lambda>_. aesDecrypt pf key iv ciphertext) of
         Inl _ \<Rightarrow> Inl (Error ''AES-GCM decryption failed'')
       | Inr decrypted \<Rightarrow> Inr (textDecode pf decrypted))))))"

section \<open>Facts on the ciphertexts\<close>

text \<open>What the browser promises: hashes of 32 bytes, AES-GCM under such a key decrypts what it encrypted, text survives its codec.\<close>

definition platform_ok :: "vdf_platform \<Rightarrow> bool" where
  "platform_ok pf \<longleftrightarrow> hash_total (keccakPacked pf) \<and> hasCrypto pf \<and> hasSubtle pf
    \<and> (\<forall>bs. length (sha256 pf bs) = 32)
    \<and> (\<forall>key iv m. length key = 32 \<and> length iv = 12 \<longrightarrow> (\<exists>c. aesEncrypt pf key iv m = Inr c \<and> aesDecrypt pf key iv c = Inr m))
    \<and> (\<forall>s. textDecode pf (textEncode pf s) = s)"

lemma BigInt_hex_str: "0 \<le> v \<Longrightarrow> BigInt (''0x'' @ bigint_hex_str v) = Inr v"
  using BigInt_pad [of v 0] by (simp add: pad_start_def)

lemma deriveChallengeElement_total:
  assumes "hash_total keccak" "0 < N" "N < 2 ^ 256" "1 \<le> t" "t < 2 ^ 64"
  shows "\<exists>x > 0. deriveChallengeElement keccak N (of_nat t) = Inr x"
proof -
  obtain nb where nb: "toBytesBE N = Inr nb" using toBytesBE_total assms(2) by (metis less_imp_le)
  obtain d where d: "keccak [PackBytes nb, PackUint 256 N, PackUint 64 (int t)] = Inr d"
    using hash_totalD [OF assms(1), of "[PackBytes nb, PackUint 256 N, PackUint 64 (int t)]"] assms(2,3,5)
    by (auto simp: of_nat_less_numeral_power_cancel_iff simp del: power_numeral)
  obtain v where "bytesToBigInt (hexToBytes d) = Inr v" using bytesToBigInt_total by blast
  with nb d assms show ?thesis by (simp add: deriveChallengeElement_def Let_def)
qed

lemma checkTimelock_own:
  assumes "0 < N" "0 < x" "1 \<le> t" "3 \<le> l" "0 \<le> p" "tl_T d = of_nat t" "tl_N d = bigint_hex_str N" "tl_x d = bigint_hex_str x"
    "tl_y d = bigint_hex_str (x ^ (2 ^ t) mod N)" "tl_pi d = bigint_hex_str p" "tl_l d = bigint_hex_str l"
  shows "checkTimelock pf d =
    bindE (verifyWesolowski (keccakPacked pf) x (of_nat t) N \<lparr>w_y = x ^ (2 ^ t) mod N, w_pi = p, w_l = l, w_r = 2 ^ t mod l\<rparr> 128)
      (\<lambda>ok. if \<not> ok then Inl (Error ''Invalid Wesolowski VDF proof'') else Inr (x ^ (2 ^ t) mod N))"
  using assms by (simp only: checkTimelock_def) (simp add: BigInt_hex_str evaluateVdf_eq modPow_vdf_eq DEFAULT_CHALLENGE_BITS_def del: append_Cons append_Nil)

lemma encryptTimelock_shape:
  assumes "platform_ok pf" "0 < N" "0 < x" "1 \<le> t" "t < 2 ^ 64" "length iv = 12"
    and "(case xParam of Some x \<Rightarrow> Inr x | None \<Rightarrow> deriveChallengeElement (keccakPacked pf) N (of_nat t)) = Inr x"
  obtains d key p l where "encryptTimelock pf iv plain N (of_nat t) xParam bits = Inr d" "tl_version d = TIMELOCK_VERSION"
    and "checkTimelock pf d =
      bindE (verifyWesolowski (keccakPacked pf) x (of_nat t) N \<lparr>w_y = x ^ (2 ^ t) mod N, w_pi = p, w_l = l, w_r = 2 ^ t mod l\<rparr> 128)
        (\<lambda>ok. if \<not> ok then Inl (Error ''Invalid Wesolowski VDF proof'') else Inr (x ^ (2 ^ t) mod N))"
    and "fiatShamirChallenge (keccakPacked pf) (x mod N) (x ^ (2 ^ t) mod N) (of_nat t) N bits = Inr l"
    and "verifyWesolowski (keccakPacked pf) x (of_nat t) N \<lparr>w_y = x ^ (2 ^ t) mod N, w_pi = p, w_l = l, w_r = 2 ^ t mod l\<rparr> bits = Inr True"
    and "deriveKeyFromVdfOutput pf (x ^ (2 ^ t) mod N) = Inr key" "tl_iv d = uint8ArrayToBase64 iv"
      "\<exists>c. tl_ciphertext d = uint8ArrayToBase64 c \<and> aesDecrypt pf key iv c = Inr (plain_bytes pf plain)"
proof -
  have "hash_total (keccakPacked pf)" using assms(1) by (simp add: platform_ok_def)
  from prove_verifies [OF this assms(2-5), of bits] obtain p l where
      pl: "proveWesolowski (keccakPacked pf) x (of_nat t) N bits = Inr \<lparr>w_y = x ^ (2 ^ t) mod N, w_pi = p, w_l = l, w_r = 2 ^ t mod l\<rparr>"
      "0 \<le> p" "3 \<le> l" "fiatShamirChallenge (keccakPacked pf) (x mod N) (x ^ (2 ^ t) mod N) (of_nat t) N bits = Inr l"
      "verifyWesolowski (keccakPacked pf) x (of_nat t) N \<lparr>w_y = x ^ (2 ^ t) mod N, w_pi = p, w_l = l, w_r = 2 ^ t mod l\<rparr> bits = Inr True"
    by blast
  obtain bs where bs: "toBytesBE (x ^ (2 ^ t) mod N) = Inr bs"
    using toBytesBE_total assms(2) by (meson pos_mod_sign)
  have env: "getCrypto pf = Inr ()" "getSubtle pf = Inr ()"
    using assms(1) by (simp_all add: platform_ok_def getCrypto_def getSubtle_def)
  have key: "deriveKeyFromVdfOutput pf (x ^ (2 ^ t) mod N) = Inr (sha256 pf bs)"
    using env bs by (simp add: deriveKeyFromVdfOutput_def)
  obtain c where c: "aesEncrypt pf (sha256 pf bs) iv (plain_bytes pf plain) = Inr c"
      "aesDecrypt pf (sha256 pf bs) iv c = Inr (plain_bytes pf plain)"
    using assms(1,6) by (force simp: platform_ok_def)
  let ?d = "\<lparr>tl_version = TIMELOCK_VERSION, tl_N = bigint_hex_str N,
      tl_T = of_nat t, tl_x = bigint_hex_str x, tl_y = bigint_hex_str (x ^ (2 ^ t) mod N), tl_pi = bigint_hex_str p,
      tl_l = bigint_hex_str l, tl_iv = uint8ArrayToBase64 iv, tl_ciphertext = uint8ArrayToBase64 c\<rparr>"
  have "encryptTimelock pf iv plain N (of_nat t) xParam bits = Inr ?d"
    using assms(7) pl(1) key env c(1) by (simp add: encryptTimelock_def)
  moreover note checkTimelock_own [of N x t l p ?d pf]
  ultimately show thesis using assms(2-4) pl key c(2) by (intro that [of ?d p l "sha256 pf bs"]) auto
qed

text \<open>
  C10. A document encrypted under the delay function with the default challenge size is decrypted again: a text to itself, and
  bytes to the text they decode to. The start is a positive number given by the caller, with any positive modulus, or is derived from
  the parameters, with a positive modulus below \<open>2 ^ 256\<close>; the number of squarings is from 1 to below \<open>2 ^ 64\<close>, the vector has
  12 bytes, and the environment has the browser's cryptography.
\<close>

theorem timelock_roundtrip:
  assumes "platform_ok pf" "0 < N" "1 \<le> t" "t < 2 ^ 64" "length iv = 12"
    and "case xParam of Some x \<Rightarrow> 0 < x | None \<Rightarrow> N < 2 ^ 256"
  shows "\<exists>d. encryptTimelock pf iv plain N (of_nat t) xParam DEFAULT_CHALLENGE_BITS = Inr d
    \<and> decryptTimelock pf (Parsed d) = Inr (case plain of PlainText s \<Rightarrow> s | PlainBytes bs \<Rightarrow> textDecode pf bs)"
proof -
  have "hash_total (keccakPacked pf)" using assms(1) by (simp add: platform_ok_def)
  then obtain x where x: "0 < x" "(case xParam of Some x \<Rightarrow> Inr x | None \<Rightarrow> deriveChallengeElement (keccakPacked pf) N (of_nat t)) = Inr x"
    using deriveChallengeElement_total [of "keccakPacked pf" N t] assms by (auto split: option.splits)
  note shape = encryptTimelock_shape [OF assms(1,2) x(1) assms(3,4,5) x(2), of plain DEFAULT_CHALLENGE_BITS]
  obtain d key where d: "encryptTimelock pf iv plain N (of_nat t) xParam DEFAULT_CHALLENGE_BITS = Inr d"
      "tl_version d = TIMELOCK_VERSION" "checkTimelock pf d = Inr (x ^ (2 ^ t) mod N)"
      "deriveKeyFromVdfOutput pf (x ^ (2 ^ t) mod N) = Inr key" "tl_iv d = uint8ArrayToBase64 iv"
      "\<exists>c. tl_ciphertext d = uint8ArrayToBase64 c \<and> aesDecrypt pf key iv c = Inr (plain_bytes pf plain)"
    by (rule shape) (simp add: DEFAULT_CHALLENGE_BITS_def)
  have "getSubtle pf = Inr ()" "\<forall>s. textDecode pf (textEncode pf s) = s"
    using assms(1) by (simp_all add: platform_ok_def getCrypto_def getSubtle_def)
  with d show ?thesis
    by (auto simp: decryptTimelock_def base64_roundtrip plain_bytes_def split: plaintext.split)
qed

text \<open>
  A ciphertext made with another challenge size cannot be decrypted: whenever the challenge of that size
  differs from the default one, decryption rejects the ciphertext that encryption has just produced, because it
  verifies the proof with the default size and the size is not part of the ciphertext.
\<close>

theorem timelock_other_challenge_size:
  assumes "platform_ok pf" "0 < N" "0 < x" "1 \<le> t" "t < 2 ^ 64" "length iv = 12"
    and "fiatShamirChallenge (keccakPacked pf) (x mod N) (x ^ (2 ^ t) mod N) (of_nat t) N bits \<noteq>
      fiatShamirChallenge (keccakPacked pf) (x mod N) (x ^ (2 ^ t) mod N) (of_nat t) N DEFAULT_CHALLENGE_BITS"
  shows "\<exists>d. encryptTimelock pf iv plain N (of_nat t) (Some x) bits = Inr d
    \<and> decryptTimelock pf (Parsed d) = Inl (Error ''Invalid Wesolowski VDF proof'')"
proof -
  have "(case Some x of Some x \<Rightarrow> Inr x | None \<Rightarrow> deriveChallengeElement (keccakPacked pf) N (of_nat t)) = Inr x" by simp
  note shape = encryptTimelock_shape [OF assms(1-6) this, of plain bits]
  obtain d p l where d: "encryptTimelock pf iv plain N (of_nat t) (Some x) bits = Inr d" "tl_version d = TIMELOCK_VERSION"
      "checkTimelock pf d = bindE (verifyWesolowski (keccakPacked pf) x (of_nat t) N \<lparr>w_y = x ^ (2 ^ t) mod N, w_pi = p, w_l = l, w_r = 2 ^ t mod l\<rparr> 128)
        (\<lambda>ok. if \<not> ok then Inl (Error ''Invalid Wesolowski VDF proof'') else Inr (x ^ (2 ^ t) mod N))"
      "fiatShamirChallenge (keccakPacked pf) (x mod N) (x ^ (2 ^ t) mod N) (of_nat t) N bits = Inr l"
    by (rule shape) simp
  have "hash_total (keccakPacked pf)" using assms(1) by (simp add: platform_ok_def)
  from fiatShamir_total [OF this assms(2), of "x mod N" "x ^ (2 ^ t) mod N" t DEFAULT_CHALLENGE_BITS] assms(2,5)
  obtain l' where "fiatShamirChallenge (keccakPacked pf) (x mod N) (x ^ (2 ^ t) mod N) (of_nat t) N 128 = Inr l'"
    by (auto simp: DEFAULT_CHALLENGE_BITS_def)
  with d(4) assms(7) have "verifyWesolowski (keccakPacked pf) x (of_nat t) N \<lparr>w_y = x ^ (2 ^ t) mod N, w_pi = p, w_l = l, w_r = 2 ^ t mod l\<rparr> 128 = Inr False"
    using assms(2-4) by (simp add: verifyWesolowski_def DEFAULT_CHALLENGE_BITS_def)
  with d show ?thesis by (simp add: decryptTimelock_def)
qed

text \<open>An environment for the concrete instances.\<close>

definition samplePlatform :: vdf_platform where
  "samplePlatform = \<lparr>keccakPacked = sampleKeccak, hasCrypto = True, hasSubtle = True, sha256 = (\<lambda>bs. replicate 32 0),
     aesEncrypt = (\<lambda>key iv m. Inr m), aesDecrypt = (\<lambda>key iv m. Inr m),
     textEncode = map (\<lambda>c. of_nat (of_char c)), textDecode = map (\<lambda>b. char_of (unat b)),
     parseTimelock = (\<lambda>s. Inl SyntaxError)\<rparr>"

lemma samplePlatform_ok: "platform_ok samplePlatform"
proof -
  have "char_of (unat (of_nat (of_char c) :: byte)) = c" for c
    by (simp add: unat_of_nat char_of_mod_256)
  then show ?thesis
    using sampleKeccak_total by (simp add: platform_ok_def samplePlatform_def comp_def map_idI)
qed

lemma sampleChallenge:
  assumes "0 < N" "0 \<le> x" "0 \<le> y"
  shows "fiatShamirChallenge sampleKeccak x y (of_nat t) N bits =
    (let l = 7 AND (2 ^ bits - 1); l = (if l < 3 then 3 else l) in Inr (if l AND 1 = 0 then l + 1 else l))"
proof -
  let ?w = "if byteLength N \<le> 32 then 32 else byteLength N"
  obtain xb yb nb where b: "toBytesBEPadded (x mod N) ?w = Inr xb" "toBytesBEPadded (y mod N) ?w = Inr yb"
      "toBytesBEPadded N ?w = Inr nb"
    using toBytesBEPadded_total assms(1) by (metis less_imp_le pos_mod_sign)
  have "bytesToBigInt (hexToBytes ''0x07'') = Inr 7" by code_simp
  then show ?thesis
    using b assms by (simp add: fiatShamirChallenge_def sampleKeccak_def Let_def)
qed

theorem timelock_roundtrip_witness:
  "\<exists>d. encryptTimelock samplePlatform (replicate 12 0) (PlainText ''will'') 15 3 None DEFAULT_CHALLENGE_BITS = Inr d
    \<and> decryptTimelock samplePlatform (Parsed d) = Inr ''will''"
  using timelock_roundtrip [OF samplePlatform_ok, of 15 3 "replicate 12 0" None "PlainText ''will''"] by simp

theorem timelock_other_challenge_size_witness:
  "\<exists>d. encryptTimelock samplePlatform (replicate 12 0) (PlainText ''will'') 15 3 (Some 2) 1 = Inr d
    \<and> decryptTimelock samplePlatform (Parsed d) = Inl (Error ''Invalid Wesolowski VDF proof'')"
proof -
  have "keccakPacked samplePlatform = sampleKeccak" by (simp add: samplePlatform_def)
  moreover have "(7 :: int) AND (2 ^ 128 - 1) = 7" "(7 :: int) AND 1 = 1" by code_simp+
  ultimately show ?thesis
    using timelock_other_challenge_size [OF samplePlatform_ok, of 15 2 3 "replicate 12 0" 1 "PlainText ''will''"]
      sampleChallenge [of 15 "2 mod 15" "2 ^ (2 ^ 3) mod 15" 3 1] sampleChallenge [of 15 "2 mod 15" "2 ^ (2 ^ 3) mod 15" 3 128]
    by (simp add: DEFAULT_CHALLENGE_BITS_def Let_def)
qed

end
