(* ===== verification/Probable_Primes.thy ===== *)
theory Probable_Primes
  imports VDF
begin

text \<open>
  The search for RSA factors of \<^verbatim>\<open>utils/vdf.ts\<close>: the Miller-Rabin test with fixed bases and the
  searches that use it. The test accepts every prime, so the search for a prime above a given number
  ends.
\<close>

unbundle bit_operations_syntax

section \<open>Probable primes\<close>

text \<open>The odd part and the exponent of two of a positive number.\<close>

function oddPart :: "int \<Rightarrow> nat \<Rightarrow> int \<times> nat" where
  "oddPart d s = (if 0 < d \<and> d AND 1 = 0 then oddPart (d div 2) (s + 1) else (d, s))"
  by pat_completeness auto

termination
  by (relation "measure (\<lambda>(d, s). nat d)") auto

declare oddPart.simps [simp del]

fun squaresReach :: "int \<Rightarrow> nat \<Rightarrow> int \<Rightarrow> bool" where
  "squaresReach n 0 x = False"
| "squaresReach n (Suc k) x = (let x' = bigint_rem (x * x) n in if x' = n - 1 then True else squaresReach n k x')"

definition witnessPasses :: "int \<Rightarrow> int \<Rightarrow> nat \<Rightarrow> int \<Rightarrow> bool result" where
  "witnessPasses n d s base =
     (let a = bigint_rem base n in
      if a = 0 then Inr True
      else bindE (modPow_vdf a d n) (\<lambda>x.
        if x = 1 \<or> x = n - 1 then Inr True else Inr (squaresReach n (s - 1) x)))"

definition mr_bases :: "int list" where
  "mr_bases = [2, 3, 5, 7, 11, 13, 17, 19, 23]"

fun allPass :: "int \<Rightarrow> int \<Rightarrow> nat \<Rightarrow> nat list \<Rightarrow> bool result" where
  "allPass n d s [] = Inr True"
| "allPass n d s (i # is) =
     bindE (witnessPasses n d s (mr_bases ! (i mod length mr_bases))) (\<lambda>ok. if ok then allPass n d s is else Inr False)"

definition isProbablePrime :: "int \<Rightarrow> nat \<Rightarrow> bool result" where
  "isProbablePrime n rounds =
     (if n < 2 then Inr False
      else if n = 2 \<or> n = 3 then Inr True
      else if n AND 1 = 0 then Inr False
      else case oddPart (n - 1) 0 of (d, s) \<Rightarrow> allPass n d s [0..<rounds])"

text \<open>The search goes upwards over the odd numbers; \<open>None\<close> is a search that does not end.\<close>

partial_function (option) searchPrime :: "int \<Rightarrow> int option" where
  "searchPrime n = (if isProbablePrime n 16 = Inr True then Some n else searchPrime (n + 2))"

definition findPrimeNear :: "int \<Rightarrow> int option" where
  "findPrimeNear start = searchPrime (start OR 1)"

definition fixedTestModulus256 :: "int option" where
  "fixedTestModulus256 =
     (case findPrimeNear (2 ^ 127 + 12345) of None \<Rightarrow> None
      | Some p \<Rightarrow> case findPrimeNear (2 ^ 127 + 67891) of None \<Rightarrow> None | Some q \<Rightarrow> Some (p * q))"

text \<open>The fixed modulus is computed once; the state is \<^verbatim>\<open>cachedFixedN\<close>.\<close>

definition getFixedTestModulus :: "int option \<Rightarrow> (int \<times> int option) option" where
  "getFixedTestModulus cached =
     (case cached of
        Some N \<Rightarrow> Some (N, cached)
      | None \<Rightarrow> map_option (\<lambda>N. (N, Some N)) fixedTestModulus256)"

text \<open>\<open>rnd i\<close> are the random bytes of the \<open>i\<close>-th draw; the result comes with the number of the next draw.\<close>

partial_function (option) randomPrime :: "(nat \<Rightarrow> nat \<Rightarrow> byte) \<Rightarrow> nat \<Rightarrow> nat \<Rightarrow> (int \<times> nat) option" where
  "randomPrime rnd bits i =
     (let len = (bits + 7) div 8;
          buf = map (rnd i) [0..<len];
          buf = buf[0 := buf ! 0 OR 0x80];
          buf = buf[len - 1 := buf ! (len - 1) OR 1]
      in case bytesToBigInt buf of
           Inl _ \<Rightarrow> None
         | Inr candidate \<Rightarrow> if isProbablePrime candidate 16 = Inr True then Some (candidate, i + 1) else randomPrime rnd bits (i + 1))"

partial_function (option) otherPrime :: "(nat \<Rightarrow> nat \<Rightarrow> byte) \<Rightarrow> nat \<Rightarrow> int \<Rightarrow> nat \<Rightarrow> int option" where
  "otherPrime rnd bits p i =
     (case randomPrime rnd bits i of None \<Rightarrow> None
      | Some (q, j) \<Rightarrow> if q = p then otherPrime rnd bits p j else Some q)"

definition generateTestRsaModulus :: "(nat \<Rightarrow> nat \<Rightarrow> byte) \<Rightarrow> nat \<Rightarrow> (int \<times> int \<times> int) option result" where
  "generateTestRsaModulus rnd bits =
     (if bits < 256 \<or> bits mod 2 \<noteq> 0 then Inl (Error ''bits must be even and >= 256'')
      else Inr (case randomPrime rnd (bits div 2) 0 of None \<Rightarrow> None
        | Some (p, i) \<Rightarrow> case otherPrime rnd (bits div 2) p i of None \<Rightarrow> None | Some q \<Rightarrow> Some (p * q, p, q)))"

section \<open>The test accepts primes\<close>

lemma oddPart_spec:
  "0 < d \<Longrightarrow> oddPart d s = (d', s') \<Longrightarrow> d * 2 ^ s = d' * 2 ^ s' \<and> 0 < d' \<and> odd d' \<and> s \<le> s'"
proof (induction d s rule: oddPart.induct)
  case (1 d s)
  show ?case
  proof (cases "even d")
    case True
    with 1 have "oddPart (d div 2) (s + 1) = (d', s')" "0 < d div 2"
      by (auto simp: oddPart.simps [of d s] and_one_eq even_iff_mod_2_eq_zero)
    then have "d div 2 * 2 ^ (s + 1) = d' * 2 ^ s' \<and> 0 < d' \<and> odd d' \<and> s + 1 \<le> s'"
      using 1 True by (simp add: and_one_eq even_iff_mod_2_eq_zero)
    with True show ?thesis by (auto elim!: evenE)
  next
    case False
    with 1 show ?thesis by (simp add: oddPart.simps [of d s] and_one_eq odd_iff_mod_2_eq_one)
  qed
qed

lemma oddPart_even:
  assumes "0 < d" "even d" "oddPart d 0 = (d', s)"
  shows "d = d' * 2 ^ s" "0 < d'" "1 \<le> s"
proof -
  show *: "d = d' * 2 ^ s" "0 < d'" using oddPart_spec [OF assms(1,3)] by simp_all
  have "odd d'" using oddPart_spec [OF assms(1,3)] by simp
  with * assms(2) show "1 \<le> s" by (cases s) auto
qed

lemma squaresReachI:
  "0 < n \<Longrightarrow> 0 \<le> x \<Longrightarrow> 1 \<le> j \<Longrightarrow> j \<le> k \<Longrightarrow> x ^ (2 ^ j) mod n = n - 1 \<Longrightarrow> squaresReach n k x"
proof (induction k arbitrary: x j)
  case (Suc k)
  show ?case
  proof (cases "j = 1")
    case True
    with Suc.prems show ?thesis by (simp add: Let_def power2_eq_square)
  next
    case False
    then obtain i where i: "j = Suc i" "1 \<le> i" using Suc.prems by (cases j) auto
    have "(x * x mod n) ^ (2 ^ i) mod n = (x ^ 2) ^ (2 ^ i) mod n" by (simp add: power_mod power2_eq_square)
    also have "\<dots> = n - 1" using Suc.prems(5) by (simp add: i(1) flip: power_mult)
    finally have "squaresReach n k (x * x mod n)" using Suc i by (intro Suc.IH [of _ i]) simp_all
    with Suc.prems show ?thesis by (simp add: Let_def)
  qed
qed simp

lemma prime_square_root:
  assumes "is_prime n" "z * z mod n = 1"
  shows "z mod n = 1 \<or> z mod n = n - 1"
proof -
  have n: "1 < n" using is_prime_gt_1 [OF assms(1)] .
  have "n dvd z * z - 1" using assms(2) by (metis dvd_minus_mod)
  then have "n dvd (z - 1) * (z + 1)" by (simp add: algebra_simps)
  then consider "n dvd z - 1" | "n dvd z - - 1" using prime_dvd_mult [OF assms(1)] by fastforce
  then show ?thesis
  proof cases
    case 1
    then have "z mod n = 1 mod n" by (simp add: mod_eq_dvd_iff)
    with n show ?thesis by simp
  next
    case 2
    then have "z mod n = - 1 mod n" by (simp add: mod_eq_dvd_iff)
    with n show ?thesis by (simp add: zmod_minus1)
  qed
qed

lemma first_square:
  assumes "is_prime n" "x ^ (2 ^ s) mod n = 1" "x mod n \<noteq> 1"
  shows "\<exists>j < s. x ^ (2 ^ j) mod n = n - 1"
  using assms(2)
proof (induction s)
  case (Suc s)
  then have "x ^ (2 ^ s) * x ^ (2 ^ s) mod n = 1" by (simp add: power_add mult_2)
  from prime_square_root [OF assms(1) this] Suc.IH show ?case by (auto intro: less_SucI)
qed (use assms(3) in simp)

lemma prime_passes:
  assumes "is_prime n" "n - 1 = d * 2 ^ s" "0 < d" "1 \<le> s" "0 \<le> base"
  shows "witnessPasses n d s base = Inr True"
proof (cases "base mod n = 0")
  case False
  let ?x = "base ^ nat d mod n"
  have n: "1 < n" using is_prime_gt_1 [OF assms(1)] .
  have "\<not> n dvd base" using False by (simp add: dvd_eq_mod_eq_0)
  from fermat_little [OF assms(1) this] have "base ^ nat (d * 2 ^ s) mod n = 1" using assms(2) by simp
  moreover have "nat (d * 2 ^ s) = nat d * 2 ^ s" using assms(3) by (simp add: nat_mult_distrib nat_power_eq)
  ultimately have one: "?x ^ (2 ^ s) mod n = 1" by (simp add: power_mod power_mult)
  have "squaresReach n (s - 1) ?x" if ne: "?x \<noteq> 1" "?x \<noteq> n - 1"
  proof -
    obtain j where j: "j < s" "?x ^ (2 ^ j) mod n = n - 1"
      using first_square [OF assms(1) one] ne(1) by auto
    with ne(2) have "1 \<le> j" by (cases j) auto
    with j n show ?thesis by (intro squaresReachI [of _ _ j]) simp_all
  qed
  then show ?thesis
    using False n assms(5) by (simp add: witnessPasses_def modPow_vdf_eq power_mod Let_def)
qed (use assms is_prime_gt_1 [OF assms(1)] in \<open>simp add: witnessPasses_def\<close>)

lemma prime_odd: "is_prime n \<Longrightarrow> n \<noteq> 2 \<Longrightarrow> odd n"
  unfolding is_prime_def by (metis zero_less_numeral numeral_eq_one_iff semiring_norm(85))

lemma mr_bases_nonneg: "0 \<le> mr_bases ! (i mod length mr_bases)"
proof -
  have "mr_bases ! (i mod length mr_bases) \<in> set mr_bases" by (intro nth_mem) (simp add: mr_bases_def)
  then show ?thesis by (auto simp: mr_bases_def)
qed

lemma isProbablePrime_prime:
  assumes "is_prime n"
  shows "isProbablePrime n rounds = Inr True"
proof (cases "n = 2 \<or> n = 3")
  case False
  have n: "1 < n" "odd n" using is_prime_gt_1 [OF assms] prime_odd [OF assms] False by auto
  obtain d s where ds: "oddPart (n - 1) 0 = (d, s)" by fastforce
  have "0 < n - 1" "even (n - 1)" using n by simp_all
  note parts = oddPart_even [OF this ds]
  have "allPass n d s is = Inr True" for "is"
    by (induction "is") (simp_all add: prime_passes [OF assms parts mr_bases_nonneg])
  with n False ds show ?thesis by (simp add: isProbablePrime_def and_one_eq odd_iff_mod_2_eq_one)
qed (auto simp: isProbablePrime_def)

section \<open>The search ends\<close>

lemma prime_above: "\<exists>p. is_prime p \<and> m < p"
proof -
  have "1 < int (fact (nat m)) + 1" by simp
  then obtain p where p: "is_prime p" "p dvd int (fact (nat m)) + 1" using least_divisor_prime by blast
  have "m < p"
  proof (rule ccontr)
    assume "\<not> m < p"
    then have "nat p dvd fact (nat m)" using is_prime_gt_1 [OF p(1)] by (intro dvd_fact) auto
    then have "p dvd int (fact (nat m))" using is_prime_pos [OF p(1)] by (metis int_dvd_int_iff int_nat_eq less_imp_le)
    with p(2) have "p dvd 1" using dvd_add_right_iff by blast
    with is_prime_gt_1 [OF p(1)] show False by simp
  qed
  with p(1) show ?thesis by blast
qed

lemma searchPrime_finds:
  "isProbablePrime (n + 2 * int k) 16 = Inr True \<Longrightarrow>
     \<exists>m \<ge> n. searchPrime n = Some m \<and> even (m - n) \<and> isProbablePrime m 16 = Inr True
       \<and> (\<forall>i. n \<le> i \<and> i < m \<and> even (i - n) \<longrightarrow> isProbablePrime i 16 \<noteq> Inr True)"
proof (induction k arbitrary: n)
  case 0
  then show ?case by (auto simp: searchPrime.simps [of n])
next
  case (Suc k)
  show ?case
  proof (cases "isProbablePrime n 16 = Inr True")
    case True
    then show ?thesis by (auto simp: searchPrime.simps [of n])
  next
    case False
    have "isProbablePrime (n + 2 + 2 * int k) 16 = Inr True" using Suc.prems by (simp add: algebra_simps)
    from Suc.IH [OF this] obtain m where m: "n + 2 \<le> m" "searchPrime (n + 2) = Some m" "even (m - (n + 2))"
        "isProbablePrime m 16 = Inr True" "\<forall>i. n + 2 \<le> i \<and> i < m \<and> even (i - (n + 2)) \<longrightarrow> isProbablePrime i 16 \<noteq> Inr True"
      by blast
    have "isProbablePrime i 16 \<noteq> Inr True" if "n \<le> i" "i < m" "even (i - n)" for i
    proof (cases "i = n")
      case ni: False
      have "i \<noteq> n + 1" using that(3) by auto
      with ni that m(5) show ?thesis by auto
    qed (use False in simp)
    moreover have "searchPrime n = Some m" using False m(2) by (simp add: searchPrime.simps [of n])
    moreover have "even (m - n)" using m(3) by simp
    ultimately show ?thesis using m(1,4) by (intro exI [of _ m]) auto
  qed
qed

text \<open>
  C11. The search for a prime above a number ends, because the Miller-Rabin test accepts every prime: it returns
  the least odd number from there on that the test accepts, which is therefore at most the least odd prime from there on.
\<close>

theorem findPrimeNear_terminates:
  "\<exists>m \<ge> start. findPrimeNear start = Some m \<and> odd m \<and> isProbablePrime m 16 = Inr True
     \<and> (\<forall>i. start \<le> i \<and> i < m \<and> odd i \<longrightarrow> isProbablePrime i 16 \<noteq> Inr True)
     \<and> (\<forall>p. is_prime p \<and> odd p \<and> start \<le> p \<longrightarrow> m \<le> p)"
proof -
  let ?s = "start OR 1"
  have s: "?s = (if even start then start + 1 else start)" by (simp add: or_one_eq)
  obtain p where p: "is_prime p" "max ?s 2 < p" using prime_above by blast
  then have "odd p" using prime_odd by auto
  moreover have odd_s: "odd ?s" by (simp add: s)
  ultimately have "even (p - ?s)" by simp
  then obtain j where "p - ?s = 2 * j" by (elim evenE)
  then have "p = ?s + 2 * int (nat j)" using p(2) by simp
  then obtain k where "p = ?s + 2 * int k" by blast
  with isProbablePrime_prime [OF p(1), of 16] have "isProbablePrime (?s + 2 * int k) 16 = Inr True" by simp
  from searchPrime_finds [OF this] obtain m where m: "?s \<le> m" "searchPrime ?s = Some m" "even (m - ?s)"
      "isProbablePrime m 16 = Inr True" "\<forall>i. ?s \<le> i \<and> i < m \<and> even (i - ?s) \<longrightarrow> isProbablePrime i 16 \<noteq> Inr True"
    by blast
  have least: "isProbablePrime i 16 \<noteq> Inr True" if "start \<le> i" "i < m" "odd i" for i
  proof -
    have "?s \<le> i" using that s by (cases "i = start") auto
    moreover have "even (i - ?s)" using that(3) odd_s by simp
    ultimately show ?thesis using m(5) that(2) by blast
  qed
  have "m \<le> q" if "is_prime q" "odd q" "start \<le> q" for q
    using least [of q] that isProbablePrime_prime [OF that(1), of 16] by (cases "m \<le> q") auto
  moreover have "start \<le> m" "odd m" using m(1,3) s by (auto split: if_splits)
  ultimately show ?thesis using m(2,4) least by (intro exI [of _ m]) (simp add: findPrimeNear_def)
qed

theorem findPrimeNear_terminates_witness: "\<exists>m. findPrimeNear 10 = Some m \<and> 10 \<le> m \<and> m \<le> 13 \<and> odd m"
  using findPrimeNear_terminates [of 10] prime_13 by force



end
