(* ===== verification/Secp_Prime.thy ===== *)
theory Secp_Prime
  imports Prime_Certificates
begin

text \<open>
  Primality of the modulus of the homomorphic share aggregation, the field prime of secp256k1,
  by the certificates of \<open>Prime_Certificates\<close>.
\<close>

section \<open>The chain of primes\<close>

lemma trial_53: "trial_division 53 3"
  by (simp add: trial_division_def)

lemma prime_53: "is_prime 53"
  using trial_division_sound [of 53 3] trial_53 by simp

lemma trial_29: "trial_division 29 2"
  by (simp add: trial_division_def)

lemma prime_29: "is_prime 29"
  using trial_division_sound [of 29 2] trial_29 by simp

lemma trial_419: "trial_division 419 10"
  by (simp add: trial_division_def)

lemma prime_419: "is_prime 419"
  using trial_division_sound [of 419 10] trial_419 by simp

lemma trial_239: "trial_division 239 7"
  by (simp add: trial_division_def)

lemma prime_239: "is_prime 239"
  using trial_division_sound [of 239 7] trial_239 by simp

lemma trial_101: "trial_division 101 5"
  by (simp add: trial_division_def)

lemma prime_101: "is_prime 101"
  using trial_division_sound [of 101 5] trial_101 by simp

subsection \<open>107590001\<close>

lemma q107590001_one_0: "pow_is 2 25 107590001 33554432"
  by (simp add: pow_is_def)

lemma q107590001_one: "pow_is 2 107590000 107590001 1"
  by (rule pow_is_step [OF q107590001_one_0, where ss =
     "[
      (True, 20929452, 52075796), (False, 25205767, 32297849), (True, 19391226, 75322376),
      (False, 52732226, 78213150), (False, 56857484, 72505016), (True, 97722414, 70338098),
      (True, 91968546, 104406662), (False, 101317510, 67764734), (True, 85362192, 25539320),
      (True, 12124860, 32599940), (False, 9877833, 25655767), (False, 6117839, 76230450),
      (False, 54011352, 91511148), (True, 155670417, 95855391), (False, 85400649, 72452232),
      (True, 97580181, 72193467), (True, 96884406, 16535772), (True, 5082846, 105049122),
      (False, 102568249, 20492635), (False, 3903225, 107590000), (False, 107589999, 1), (False, 0, 1)]"])
    (simp_all only: numeral_rules)

lemma q107590001_pow0_0: "pow_is 2 15 107590001 32768"
  by (simp add: pow_is_def)

lemma q107590001_pow0: "pow_is 2 2030000 107590001 26896163"
  by (rule pow_is_step [OF q107590001_pow0_0, where ss =
     "[
      (False, 9, 105431815), (True, 206633841, 68564609), (True, 87389265, 105906497),
      (True, 208498670, 99823348), (True, 185234700, 53623508), (True, 53452562, 21419566),
      (False, 4264316, 44924040), (False, 18757964, 4403636), (True, 360479, 84070513),
      (True, 131384907, 36651431), (False, 12485615, 64012146), (True, 76169807, 59750825),
      (True, 66366038, 81575212), (False, 61850684, 59434260), (False, 32832337, 91085263),
      (False, 77112418, 6046751), (False, 339838, 26896163)]"])
    (simp_all only: numeral_rules)

lemma q107590001_entry0:
  "entry_ok 2 107590000 107590001
     (53, 2030000, 26896163,
      75712971, 18927301)"
  using prime_53 q107590001_pow0 by (simp only: entry_ok_def prod.case of_nat_numeral numeral_rules)

lemma q107590001_pow1_0: "pow_is 2 14 107590001 16384"
  by (simp add: pow_is_def)

lemma q107590001_pow1: "pow_is 2 3710000 107590001 68236646"
  by (rule pow_is_step [OF q107590001_pow1_0, where ss =
     "[
      (False, 2, 53255454), (False, 26360659, 52575457), (True, 51383560, 85734138),
      (False, 68318081, 15494963), (False, 2231563, 12969806), (True, 3126979, 61618293),
      (True, 70579310, 30988388), (True, 17850733, 356355), (False, 1180, 32684845),
      (False, 9929352, 101064673), (False, 94935105, 86711824), (False, 69885122, 75541854),
      (True, 106079963, 86264669), (True, 138332429, 60916693), (False, 34490598, 12745651),
      (False, 1509913, 78233888), (False, 56887639, 94698905), (False, 83352379, 68236646)]"])
    (simp_all only: numeral_rules)

lemma q107590001_entry1:
  "entry_ok 2 107590000 107590001
     (29, 3710000, 68236646,
      100085220, 63476899)"
  using prime_29 q107590001_pow1 by (simp only: entry_ok_def prod.case of_nat_numeral numeral_rules)

lemma q107590001_pow2_0: "pow_is 2 14 107590001 16384"
  by (simp add: pow_is_def)

lemma q107590001_pow2: "pow_is 2 15370000 107590001 95730224"
  by (rule pow_is_step [OF q107590001_pow2_0, where ss =
     "[
      (True, 4, 106510908), (False, 105442637, 102711827), (True, 196109662, 80666196),
      (False, 60479924, 93470492), (True, 162407896, 56396232), (False, 29561622, 43256202),
      (False, 17391012, 12993792), (False, 1569278, 8949986), (False, 744513, 94985683),
      (True, 167715956, 76197022), (True, 107927987, 94078981), (True, 164529316, 59027406),
      (False, 32384372, 43224464), (False, 17365501, 18131795), (False, 3055692, 84586333),
      (True, 133002094, 34311684), (False, 10942389, 15463467), (False, 2222500, 34437589),
      (False, 11022841, 61920080), (False, 35636176, 95730224)]"])
    (simp_all only: numeral_rules)

lemma q107590001_entry2:
  "entry_ok 2 107590000 107590001
     (7, 15370000, 95730224,
      4923006, 4380337)"
  using prime_7 q107590001_pow2 by (simp only: entry_ok_def prod.case of_nat_numeral numeral_rules)

theorem prime_q107590001: "is_prime 107590001"
  by (rule certificate_sound [where N = 107590000 and a = 2, where es =
     "[(53, 2030000, 26896163,
        75712971, 18927301),
       (29, 3710000, 68236646,
        100085220, 63476899),
       (7, 15370000, 95730224,
        4923006, 4380337)]"])
    (simp_all add: q107590001_one q107590001_entry0 q107590001_entry1 q107590001_entry2)

subsection \<open>20113\<close>

lemma q20113_one_0: "pow_is 2 9 20113 512"
  by (simp add: pow_is_def)

lemma q20113_one: "pow_is 2 20112 20113 1"
  by (rule pow_is_step [OF q20113_one_0, where ss =
     "[
      (True, 26, 1350), (True, 181, 4547), (False, 1027, 19158), (True, 36496, 13880), (False, 9578, 12086),
      (False, 7262, 10790), (True, 11576, 20112), (False, 20111, 1), (False, 0, 1), (False, 0, 1),
      (False, 0, 1)]"])
    (simp_all only: numeral_rules)

lemma q20113_pow0_0: "pow_is 2 12 20113 4096"
  by (simp add: pow_is_def)

lemma q20113_pow0: "pow_is 2 48 20113 15069"
  by (rule pow_is_step [OF q20113_pow0_0, where ss =
     "[
      (False, 834, 2974), (False, 439, 15069)]"])
    (simp_all only: numeral_rules)

lemma q20113_entry0:
  "entry_ok 2 20112 20113
     (419, 48, 15069,
      17111, 12819)"
  using prime_419 q20113_pow0 by (simp only: entry_ok_def prod.case of_nat_numeral numeral_rules)

theorem prime_q20113: "is_prime 20113"
  by (rule certificate_sound [where N = 20112 and a = 2, where es =
     "[(419, 48, 15069,
        17111, 12819)]"])
    (simp_all add: q20113_one q20113_entry0)

subsection \<open>1206781\<close>

lemma q1206781_one_0: "pow_is 2 18 1206781 262144"
  by (simp add: pow_is_def)

lemma q1206781_one: "pow_is 2 1206780 1206781 1"
  by (rule pow_is_step [OF q1206781_one_0, where ss =
     "[
      (False, 56944, 539472), (True, 482324, 638524), (True, 675703, 255109), (False, 53929, 109332),
      (True, 19810, 640838), (False, 340304, 940820), (False, 733473, 991987), (True, 1630848, 36050),
      (True, 2153, 1005507), (True, 1675605, 376593), (True, 235042, 355496), (True, 209445, 565487),
      (True, 529964, 608454), (True, 613559, 1196653), (False, 1186609, 1206780), (False, 1206779, 1)]"])
    (simp_all only: numeral_rules)

lemma q1206781_pow0_0: "pow_is 2 15 1206781 32768"
  by (simp add: pow_is_def)

lemma q1206781_pow0: "pow_is 2 60 1206781 78448"
  by (rule pow_is_step [OF q1206781_pow0_0, where ss =
     "[
      (False, 889, 913515), (False, 691517, 78448)]"])
    (simp_all only: numeral_rules)

lemma q1206781_entry0:
  "entry_ok 2 1206780 1206781
     (20113, 60, 78448,
      709359, 46112)"
  using prime_q20113 q1206781_pow0 by (simp only: entry_ok_def prod.case of_nat_numeral numeral_rules)

theorem prime_q1206781: "is_prime 1206781"
  by (rule certificate_sound [where N = 1206780 and a = 2, where es =
     "[(20113, 60, 78448,
        709359, 46112)]"])
    (simp_all add: q1206781_one q1206781_entry0)

subsection \<open>7240687\<close>

lemma q7240687_one_0: "pow_is 2 13 7240687 8192"
  by (simp add: pow_is_def)

lemma q7240687_one: "pow_is 2 7240686 7240687 1"
  by (rule pow_is_step [OF q7240687_one_0, where ss =
     "[
      (True, 18, 3885362), (True, 4169780, 3903228), (False, 2104108, 1377788), (False, 262171, 1621467),
      (True, 726217, 473099), (True, 61823, 4335201), (True, 5191211, 1418845), (True, 556058, 336204),
      (False, 15610, 6005546), (True, 9962199, 725519), (True, 145394, 3193044), (True, 2816177, 3778273),
      (True, 3943091, 5981541), (True, 9882717, 4962783), (False, 3401502, 3793215), (True, 3974341, 860183),
      (True, 204376, 6940666), (True, 13306153, 1), (False, 0, 1)]"])
    (simp_all only: numeral_rules)

lemma q7240687_pow0: "pow_is 2 6 7240687 64"
  by (simp add: pow_is_def)

lemma q7240687_entry0:
  "entry_ok 2 7240686 7240687
     (1206781, 6, 64,
      5746577, 50)"
  using prime_q1206781 q7240687_pow0 by (simp only: entry_ok_def prod.case of_nat_numeral numeral_rules)

theorem prime_q7240687: "is_prime 7240687"
  by (rule certificate_sound [where N = 7240686 and a = 2, where es =
     "[(1206781, 6, 64,
        5746577, 50)]"])
    (simp_all add: q7240687_one q7240687_entry0)

subsection \<open>96557\<close>

lemma q96557_one_0: "pow_is 2 11 96557 2048"
  by (simp add: pow_is_def)

lemma q96557_one: "pow_is 2 96556 96557 1"
  by (rule pow_is_step [OF q96557_one_0, where ss =
     "[
      (True, 86, 84706), (True, 148619, 8089), (False, 677, 62832), (False, 40886, 30722),
      (True, 19549, 89775), (False, 83469, 34392), (False, 12249, 82971), (True, 142593, 21381),
      (False, 4734, 46323), (True, 44446, 68236), (True, 96443, 56641), (False, 33225, 96556),
      (False, 96555, 1)]"])
    (simp_all only: numeral_rules)

lemma q96557_pow0_0: "pow_is 2 12 96557 4096"
  by (simp add: pow_is_def)

lemma q96557_pow0: "pow_is 2 404 96557 29586"
  by (rule pow_is_step [OF q96557_pow0_0, where ss =
     "[
      (True, 347, 49153), (False, 25021, 64712), (True, 86739, 28265), (False, 8273, 94164),
      (False, 91830, 29586)]"])
    (simp_all only: numeral_rules)

lemma q96557_entry0:
  "entry_ok 2 96556 96557
     (239, 404, 29586,
      8329, 2552)"
  using prime_239 q96557_pow0 by (simp only: entry_ok_def prod.case of_nat_numeral numeral_rules)

lemma q96557_pow1_0: "pow_is 2 14 96557 16384"
  by (simp add: pow_is_def)

lemma q96557_pow1: "pow_is 2 956 96557 63065"
  by (rule pow_is_step [OF q96557_pow1_0, where ss =
     "[
      (True, 5560, 13992), (True, 4055, 13493), (True, 3771, 5651), (True, 661, 43425), (False, 19529, 68972),
      (False, 49267, 63065)]"])
    (simp_all only: numeral_rules)

lemma q96557_entry1:
  "entry_ok 2 96556 96557
     (101, 956, 63065,
      50445, 32947)"
  using prime_101 q96557_pow1 by (simp only: entry_ok_def prod.case of_nat_numeral numeral_rules)

theorem prime_q96557: "is_prime 96557"
  by (rule certificate_sound [where N = 96556 and a = 2, where es =
     "[(239, 404, 29586,
        8329, 2552),
       (101, 956, 63065,
        50445, 32947)]"])
    (simp_all add: q96557_one q96557_entry0 q96557_entry1)

subsection \<open>255515944373312847190720520512484175977\<close>

lemma p128_one_0: "pow_is 2 96 255515944373312847190720520512484175977 79228162514264337593543950336"
  by (simp add: pow_is_def)

lemma p128_one_1: "pow_is 2 1612532313 255515944373312847190720520512484175977 234523015907630750050565009654571395577"
  by (rule pow_is_step [OF p128_one_0, where ss =
     "[
      (False, 24566379803742249345, 61099642764730549595434407991241527831),
      (False, 14610306825015486936207942625559247229, 97165438801479329305065175788661946828),
      (False, 36949249960270170451221735682029689424, 79259461536232223223227494336),
      (True, 49171586989775343996, 6873524992246631681395154916049777700),
      (True, 369803504316841054482494949196845118, 8263466473693853048822640172509249714),
      (True, 534486239826169380294061690858728136, 26233111061610193123092991478192974720),
      (False, 2693280521724855079127552412004393494, 188580926492553798209648828886309184762),
      (True, 278360443799407007454533584057575275003, 10231516350731151708887236400484790357),
      (False, 409696260215894889297275876140432803, 248715591685191024626545831112644813918),
      (True, 484192449900011184547049660605036361211, 12698290031915882013083085899832193301),
      (False, 631062652978987706908550617408150575, 134779281427219006924693631975815539826),
      (False, 71093233522435237645872549396223918451, 215255983953942707173705935169010858649),
      (True, 362679039397116195769408904852854906026, 216037266309835044527671471868134473000),
      (False, 182658270305190462036011640926073297641, 119943000147652230312452775136786029743),
      (True, 112606070980846944393607434971839387095, 200236454977906908948973270331958475283),
      (False, 156916383439228507258315167603071460596, 222543653746818100792446514427236627797),
      (False, 193826173722551988141431441894089304947, 27146076791180776965709454740348414990),
      (True, 5768011753317806135315871252417331691, 81057606151608223739894475435290413093),
      (False, 25713994213331247004676466350723166380, 86490497912519152159818280376015773389),
      (True, 58552950560503539260581566335406501170, 160500734775396212654954603219464697552),
      (True, 201635055899334412881096631373054325795, 9219944876640644868348730475799158693),
      (False, 332689154630972619752383429784532060, 66537410106413744420113041536959145629),
      (False, 17326617149185966709812261176907147600, 190880667429959434640099893398116600441),
      (True, 285191041896579546496756958717330325505, 234523015907630750050565009654571395577)]"])
    (simp_all only: numeral_rules)

lemma p128_one_2: "pow_is 2 27053802929124130 255515944373312847190720520512484175977 57874974749768507083162540930664242346"
  by (rule pow_is_step [OF p128_one_1, where ss =
     "[
      (False, 215254844958142521227607225043665337055, 2220328408243381431545589231776235194),
      (True, 38587480343300900240520273495331620, 62361696166074177822623366576755942532),
      (True, 30440222885096263676224334163467811285, 175272551192587559103086256794406641603),
      (False, 120229159385353803132218638050074302821, 41483190233834873303994894114338878492),
      (True, 13469649232239976834447087577892252904, 56475487636625787578383549618155100920),
      (False, 12482511459773290283009316364721360673, 97157909018047452590821275702765693879),
      (False, 36943523457650433689158398155817970119, 223324300864879760626781198387814435378),
      (True, 390376760864057899750300500463328763034, 171855486182964599584758441191687571550),
      (True, 231173895653517760966427532199091969348, 94485419903051189692160794524816852004),
      (True, 69878179979349474381354146752076648322, 37704353396085592063081529932687871438),
      (True, 11127432916201145457046303679567970444, 72967395213174208089800598738801551900),
      (True, 41674430746417594496144368395282331110, 214723718526415500650846506520765475530),
      (False, 180443828704674929602587859124335524158, 118435416437249941488702818206022028534),
      (False, 54896565852545077672966582959702395438, 153172203036937013388014182067876196230),
      (True, 183641955031273554333909575171856090473, 106512013551923687077678821622767258679),
      (True, 88799225885569232805559743280144608410, 117915300754816753704920894714807483512),
      (False, 54415461963441692113198525082625049769, 190218307489989480537913589833572654831),
      (False, 141607619020017962837147654757608536425, 9983898558043467700132339094353176336),
      (True, 780211431907129506198985530605724634, 57914535413887098398452802650160852374),
      (False, 13126748001705909956530436615073356031, 6134125136051228993083732731243168589),
      (False, 147260834454076757005048838346915139, 14548196963717597400347740210314835118),
      (False, 828324179198374651238376291445812109, 64772925790375595588359618083092568431),
      (True, 32839687759882141094067699526779014775, 230763904991364793607768056979052543347),
      (False, 208409615992736836714958370023112244519, 57874974749768507083162540930664242346)]"])
    (simp_all only: numeral_rules)

lemma p128_one_3: "pow_is 2 453887495363348220661806 255515944373312847190720520512484175977 66141333289139823214117759078893490935"
  by (rule pow_is_step [OF p128_one_2, where ss =
     "[
      (False, 13108820705891649125572483590541046829, 64296548799205724618755925699185756783),
      (False, 16179210254874490583000704288299619170, 17518638761164107936852065396067829999),
      (False, 1201109796873465525848258603747804698, 200081519349173500790824615539505000055),
      (False, 156673645095843433774121489116348867817, 31271275642814141856624492293410170816),
      (True, 7654259562762504603072566291738740298, 29457889893512229600008700360062790566),
      (True, 6792274972167437061244185053043946458, 9807593242502622188078004254119361246),
      (False, 376449639752616031171928224220933784, 222288713358072654607813904988326165548),
      (False, 193382343350735385194077924046831050193, 199251335545873133526904014515570326743),
      (True, 310752386229253838284460585917566200343, 35554065892266365598846251638312215987),
      (True, 9894424432666797791948500548021763875, 199560282884013589022947527527635337463),
      (False, 155858400940191754149037352775175915879, 176739394650581131873036871228306637586),
      (True, 244499917201381267223258051822795138108, 157649672448139547632469817490004983276),
      (False, 97267586506047739752244781775265269044, 152995761484408745317853132711493136188),
      (False, 91609559198368713579541640481488335349, 39086846259034131729167930766209460371),
      (False, 5979202410340614293126886356779184233, 93794352023784537003876202623743687000),
      (False, 34429868919289443940530168916459218738, 90738682585550190964409644884841142974),
      (False, 32223071392100459148536850777397403494, 138074681269346812262113745252738901038),
      (False, 74612242513437841465925080255621984748, 16541617820694602995432382711915478648),
      (True, 2141745954813298279338228032865911743, 234678167777174313444740807877725017897),
      (False, 215539748669413048380415238106587746869, 36032477676180581970729770884443536596),
      (True, 10162492604278013025325864353129667268, 244080370279509910068515502006813713596),
      (True, 466313186849446176883843810512738864808, 59370006503041298765347001426346185016),
      (True, 27589649489907219276365778132128790556, 246500398063191183591248442465326167300),
      (False, 237802953527380702955239696132617431345, 66141333289139823214117759078893490935)]"])
    (simp_all only: numeral_rules)

lemma p128_one_4: "pow_is 2 7614968549409891581258789316191 255515944373312847190720520512484175977 204581955969266988535478607103546719621"
  by (rule pow_is_step [OF p128_one_3, where ss =
     "[
      (False, 17120951023211313858543903730852177181, 56314663458080546927164107309739393388),
      (True, 24823040520426330011329257099141237963, 10556857642951359471806204924711222237),
      (True, 872331028632125932537685266015848116, 195932309397184822561476170541758659006),
      (False, 150242952391364413637711401702773389035, 74353909731100445851265492813762695841),
      (True, 43273259567891400997038308168409021706, 165756463193406136111432620731640637800),
      (True, 215056678030591255272682127027924679923, 92659522524220379386450142021446870229),
      (False, 33601766556972791819205638352265337338, 81020198401911738613468061694705783215),
      (False, 25690265886087465213074731156730180298, 219359307430370195894928014619405435079),
      (False, 188318994630056294920325949651992897536, 204893881218604323749690487811730043569),
      (True, 328601822980470420869287820943356453845, 185591475722268088238285235721618233957),
      (True, 269605060813314325075505629961902843593, 42544653079948872194961676747456790337),
      (False, 7083892592818767285713405357071148838, 98585627481457011673962122486825508843),
      (False, 38037258182654992438174965723189499120, 80737616693151353010233015513304558409),
      (True, 51022747447544865993427413799905911641, 24185704670652012581279099448128374305),
      (True, 4578566021393794648021675070926028538, 111527682269022018757715968866252434424),
      (False, 48679638927452581128035024802768146888, 184316523824844409111512543026443302200),
      (False, 132956794685344399134158711212270308920, 1875012408930021438539032991092025160),
      (True, 27518216464058384316668972968997020, 207709412782537676500635426537277462660),
      (False, 168847389403745882256642855617090921860, 250269698037979386915864075058298118380),
      (True, 490262334975940047941899617989333868563, 159594788931978559892269247650307537749),
      (True, 199365223307004174032382900764524126773, 5509433274937758952414934537730841781),
      (True, 237588735101743288842241510553820591, 207464580853368541783120406517980361515),
      (True, 336899150573394374030830434362339200255, 84281045259795214007487105571322916315),
      (True, 55599619096220651176491844452104291877, 204581955969266988535478607103546719621)]"])
    (simp_all only: numeral_rules)

lemma p128_one_5: "pow_is 2 127757972186656423595360260256242087988 255515944373312847190720520512484175977 1"
  by (rule pow_is_step [OF p128_one_4, where ss =
     "[
      (True, 327602074390019788624367321323080418637, 153593029459876907242457100052834283933),
      (True, 184652419687720585024544711369198910453, 176059474916349379803217715313807109397),
      (False, 121311172122134333016416875070172917210, 166326438846393582038566890831633839439),
      (False, 108269111452805675994124971452926951231, 51094784675588693455115153658531057034),
      (True, 20434552743452538941516067884633111716, 218041743357827851793844885891077307780),
      (True, 372127085557220297870074374481186074962, 15685256817297129726375324398175468926),
      (False, 962864693348123604718005577862504656, 134829741833670599973571570804505744564),
      (False, 71146477091755847188136502538936452962, 93535169157738573884587302278224656222),
      (False, 34239851023091510423681352000681708236, 79680766792695015853097110266889066712),
      (False, 24847860716651885851582936251411568941, 111961108817268241116430038589274960587),
      (True, 98117476921737008714641921509313943923, 174105323550230688295538931646165031367),
      (True, 237266318255609366732414002177303979326, 18398714518440079220807014704033925876),
      (True, 2649640489256399112878826288850152522, 104855110340084992867667786678186370758),
      (False, 43028994497377127828332868946333652408, 61572460724000241495610808288815691948),
      (False, 14837304689172726868984441174555406110, 227526612401248351983017363788091015234),
      (False, 202603244497155552462308440796403832959, 201388733252419030036137537639351448813),
      (False, 158727558002247209068094756800629715913, 45346369496311886032490666908749886968),
      (False, 8047612181460457418689672835071569067, 129559243404837131220909101230838529565),
      (True, 131385910909025774464712237922360283065, 114076030607233951464763753983765248945),
      (True, 101859324599249900881520338407193208784, 136932644266278294888448430536889044082),
      (False, 73383088134649900444115742467793992336, 166484923773032421738344831977725910452),
      (True, 216951078428335600241159280116238062367, 178062041200560850904751377069516531049),
      (False, 124086544165663215338441986460605545025, 255515944373312847190720520512484175976),
      (False, 255515944373312847190720520512484175975, 1)]"])
    (simp_all only: numeral_rules)

lemma p128_one: "pow_is 2 255515944373312847190720520512484175976 255515944373312847190720520512484175977 1"
  by (rule pow_is_step [OF p128_one_5, where ss =
     "[
      (False, 0, 1)]"])
    (simp_all only: numeral_rules)

lemma p128_pow0_0: "pow_is 2 119 255515944373312847190720520512484175977 664613997892457936451903530140172288"
  by (simp add: pow_is_def)

lemma p128_pow0_1: "pow_is 2 2011622097 255515944373312847190720520512484175977 211260957201474070643237100189422394231"
  by (rule pow_is_step [OF p128_pow0_0, where ss =
     "[
      (True, 3457410591561739775222724852590384, 130947242854646076747856741362492304720),
      (True, 134216128494755344654953506939717640594, 254831285882584144205477109567933746462),
      (True, 508296923887414579644556304431000246354, 193374551706437890435934986112906397030),
      (False, 146345925063028580650480709592123234699, 105185445637724246785998465743204194977),
      (False, 43300538450320718474859067922392793938, 209934663047618697795943893971941203103),
      (True, 344969178788518076880204320325182367895, 196147577272983502949260601695458598803),
      (True, 301146546172868939378099182991367843798, 165388688097355050398549417150946024972),
      (False, 107051707546674325652964344852226551195, 212562363945148819228777779957467958269),
      (True, 353659014718370575243430198631936828163, 18941383463400839072217570980949312471),
      (True, 2808247511814114647898615241080413139, 140895826273951344678988147920053289879),
      (True, 155384697499862678964499644313165888981, 234302037920550990119364419809958459845),
      (False, 214849390742979531510678320011475759822, 200015096966415781052405388396843227931),
      (True, 313139276788420294332936109563136768801, 248677177142429274256231087060389787945),
      (False, 242021446384486415758359894033000487406, 153330610876102038507553764938791077363),
      (True, 184021989620262086622254536133347648598, 144686702876534031843878758547912737292),
      (False, 81929298152514434571515035231742342392, 49687769964478902688972944068292376280),
      (True, 19324621718603258646420734398711533672, 22299637348882718184962251517404279256),
      (True, 3892311511998328507957280404807101359, 225195886693919760647154399236631974329),
      (False, 198473670628428478930929079206596597775, 134306568038628359030672463467928349066),
      (True, 141190830674429719040216622296594455397, 44577837934132084744656743786060746843),
      (False, 7777141421665799007481091944063901629, 73052758333084472129833742405281500116),
      (False, 20885997987957383229902133412206854297, 38426831990276368923299042805961390287),
      (False, 5778979548343018529665370084587144332, 167242710066062289857690650121351830005),
      (True, 218930557455750611814241070067606663747, 211260957201474070643237100189422394231)]"])
    (simp_all only: numeral_rules)

lemma p128_pow0_2: "pow_is 2 33749418432543613 255515944373312847190720520512484175977 15715363488147697153540565097683725650"
  by (rule pow_is_step [OF p128_pow0_1, where ss =
     "[
      (False, 174670868963371536518089320508336176837, 91601385743369360928076050595882836612),
      (False, 32838709500830364879020472634183316713, 155668976390723463726473780740870434943),
      (False, 94838818258366960769294301671544674908, 135216737462137619831651863661267128133),
      (False, 71555480166795662573488823956374120551, 42812356288610761881923619958143862362),
      (True, 14346641697670785034417760935679627933, 11411996209693990927594496232943672547),
      (True, 1019377932046358533800550054046680283, 87609621335092893654551488242294772927),
      (False, 30039008991409224798330930438997088023, 149270837221902710473226257976801123858),
      (False, 87203101550382067646707978518880644342, 200230081780821758728652790227179432030),
      (False, 156906394817301094179883521102050290980, 76514383251869946477777839375014133440),
      (False, 22912272104086743920112147486307924314, 173072596143103374242140837608553228822),
      (True, 234459916849261754231849610871125736808, 92679095435606875438606144958124753952),
      (True, 67231927556059327738643637071170510591, 78023825215426513693916480070092964201),
      (True, 47650390790119733023251391651494132571, 193272084396212616597252569466003689935),
      (False, 146190871565657765345569888088672296829, 64857290349943623067264434637605227292),
      (True, 32925288649628639902991467266683039035, 91989814260573549668058686271863044333),
      (True, 66235599883594900938960198850427012304, 209644652602583512347507344815966608770),
      (False, 172008367120311649072115795418889483114, 240638323449069495292332813504494960522),
      (True, 453253927886208404725469102422884301081, 121522704742780614940606581082821693831),
      (True, 115591751459745237971168283375493153921, 210346309727330368801277198863295357305),
      (True, 346323358602330655394872794353343429630, 108598063196589429069079739917597727540),
      (True, 92311572641587355811043327508521060480, 143432913022318565250825687101168814240),
      (True, 161031051025219174457009570598699238867, 159590702746139050168352650643667457141),
      (False, 99677507270527197037263805341110013894, 223590230128024283128340929391460869443),
      (True, 391307017112504646636872096344128908224, 15715363488147697153540565097683725650)]"])
    (simp_all only: numeral_rules)

lemma p128_pow0_3: "pow_is 2 566221282917165626293379 255515944373312847190720520512484175977 160234772386911772489825413768086981460"
  by (rule pow_is_step [OF p128_pow0_2, where ss =
     "[
      (False, 966564533459308500423060730412645740, 147292100773464740331757461620148534520),
      (False, 84906493813802114072671900144630069710, 55980958335676782005294710478214273730),
      (False, 12264861607235552297702249412733817572, 118466550980523669509628089883505245056),
      (True, 109850864576315003583847755802531046098, 33726481758745661191573568431893698526),
      (False, 4451681379856021732307624982398625879, 38252320650147649509652369930952263893),
      (True, 11453219005260160180828685337429797617, 91041621232492655100752496169699784089),
      (True, 64877178737080417024507117999863367286, 124736889197527345639387113552226231420),
      (True, 121787245526594947237128425018911807825, 239491679360550218857465702240284812775),
      (True, 448944699898165130633855903939761976324, 114358317824600722223001938711482832702),
      (True, 102364060980597607900700208428992489137, 37354045813969772171391611626672379759),
      (True, 10921625592441003104479575037765080614, 249608802733839800631574827445858586284),
      (True, 487676450524692184398752277267487000149, 178682244346699225669587433414204636739),
      (True, 249904909246110847727034944534730941678, 35896413684557747905647276918821438836),
      (True, 10085887349012624351996789886808653422, 143604590085418090527756582067926826498),
      (False, 80708381405238195587493003354432584713, 25741700500937198240382623049342904403),
      (False, 2593322097003191108544365964928517129, 60760576505310795943397690359501976376),
      (True, 28897199869953151078289265819529866021, 6809612497954794273701895186727409235),
      (False, 181479173387918313712659498192053933, 116167535388237207533183768472516317684),
      (False, 52814302102655036075642694611192002854, 157104219054066677099021037282388885498),
      (False, 96595677053044329535340661729165264513, 67469845542850679205858212806509503803),
      (False, 17815639915313153224225463948862828157, 130955893356885372575971602315372878420),
      (False, 67116930988245186977805196799698434607, 61334974522887910942504701250886860361),
      (True, 29446139722905103637608703428759609370, 135991101278451755886146316394967996152),
      (True, 144754799331870340370344593028501390924, 160234772386911772489825413768086981460)]"])
    (simp_all only: numeral_rules)

lemma p128_pow0: "pow_is 2 2374904191824599455024826335976 255515944373312847190720520512484175977 82381214149343919061612748413412685903"
  by (rule pow_is_step [OF p128_pow0_3, where ss =
     "[
      (False, 100483679579594355676248457458403237642, 7818932237535719040360211185105205366),
      (True, 478527486690655176186009447736610915, 200004652753354200362533318669631398957),
      (True, 313106575177527398393635940209164303808, 27554612938043637539268821372038155282),
      (False, 2971465033337081113535150597507718772, 100101262549159190692570144868070159280),
      (False, 39215802319153663214824484283152762265, 11406364364910510698165359414665010495),
      (False, 509186024943377597355254406219182551, 93743895103261829903873625118688367698),
      (True, 68785671208776466084320964716395750260, 95177390990831584625415480210516134388),
      (True, 70905444104784887162499005207746956908, 126980422844406294810407567607244469972),
      (False, 63103802877313830957233371279421173079, 210014057883789123715263376657198757601),
      (False, 172615077376056433431863688730941598500, 250702686985060457088602973714276040701),
      (False, 245980098876732603564719672942090863292, 158405607163025686717939311835431035117),
      (False, 98202624662931066776603717129432020921, 30955181608743764320415194925577588872),
      (True, 7500301171267252053529171584339512320, 194291806331652066935745787092876928128),
      (False, 147737575047230162002010821334827114571, 14788855075934888285175307818172723517),
      (True, 1711910659770538538916988384054698942, 236449595827400052089146857064965982244),
      (True, 437611918927906623421671185764767447179, 105180349546397617370035323291758332189),
      (True, 86592685695882089084330883786458249811, 71737481197059661278469485709796073095),
      (False, 20140685236376920191445325110661233822, 210818363350331137024961338216790584931),
      (True, 347879522232697113349420768646862667855, 214758711035959887587649899496727430187),
      (False, 180502645652683664387257285635960295496, 5841124159381327992733769823974355377),
      (False, 133528776566131692435872518920831666, 21723230482420494496842067293150724447),
      (False, 1846846558831222692174286551892198178, 82381214149343919061612748413412685903)]"])
    (simp_all only: numeral_rules)

lemma p128_entry0:
  "entry_ok 2 255515944373312847190720520512484175976 255515944373312847190720520512484175977
     (107590001, 2374904191824599455024826335976, 82381214149343919061612748413412685903,
      235081362755335172132203715226758066727, 75792875216320803940127491159486690489)"
  using prime_q107590001 p128_pow0 by (simp only: entry_ok_def prod.case of_nat_numeral numeral_rules)

lemma p128_pow1_0: "pow_is 2 111 255515944373312847190720520512484175977 2596148429267413814265248164610048"
  by (simp add: pow_is_def)

lemma p128_pow1_1: "pow_is 2 1868179285 255515944373312847190720520512484175977 42039278348889565676184961813579369456"
  by (rule pow_is_step [OF p128_pow1_0, where ss =
     "[
      (False, 26377949459546964837819861241, 19557700357024605782272767017536954847),
      (True, 2993970839614740465755013028081141269, 4769039962180765411893041874240492005),
      (False, 89011048671186438288527623117368502, 158523857515111672008744218440344043571),
      (True, 196698593217778780913656051193851340440, 98821474588330769856583234487196254202),
      (True, 76438938977086182354325803382128152860, 185251333578200267084224021849409469388),
      (False, 134308865447403958509167781150357755949, 189023352916102961659043805729574457371),
      (True, 279668089091487494146501301653881604783, 144902709761621475638655665644055565291),
      (False, 82174109908319696676410417375892211883, 169184496626207182137916180278421379990),
      (False, 112021948254015322600551746081822841430, 177300818796550362918280327185686072990),
      (False, 123027862010831328125096933960757918877, 45868653240380168217988212390849322271),
      (True, 16468117911361007775282663991823733874, 26709245009350515700613047551801249984),
      (False, 2791934455280999720567926027909563646, 250968757450375521475162630906914268114),
      (False, 246502492713968845027820667513688638724, 1111688831533299224017484536284383648),
      (True, 9673385049899451172031440601148970, 15378609410984002603206366020627282118),
      (True, 1851169233259847792020271576960222256, 138399401523500297095115325778189187736),
      (True, 149927194477368366772391596567418693879, 127812156926465243402752479905976866609),
      (False, 63933182323559029928510928342073271473, 16060734882971507189788982064753154760),
      (True, 2019030206617813526728311505256213833, 201983663258819208152606972281107625359),
      (False, 159666749264955551000942553428812551768, 150051138993024051317127048557765401545),
      (True, 176234358825048880520758039062297885718, 30109577312830278928799871011629777564),
      (False, 3548062913180738233727732704980145080, 25306340085520242921735718718407030936),
      (True, 5012687956477254423529889215436112316, 234787624275372530497213019604041039460),
      (False, 215740855812640275933884381123768286911, 195186624068407775294919345248527354553),
      (True, 298203059763350225959997357187623615906, 42039278348889565676184961813579369456)]"])
    (simp_all only: numeral_rules)

lemma p128_pow1_2: "pow_is 2 31342847395789116 255515944373312847190720520512484175977 25368073129379271312062820838875304689"
  by (rule pow_is_step [OF p128_pow1_1, where ss =
     "[
      (False, 6916597429682745464595505389632300992, 218333321771862468716964903514986066752),
      (True, 373123012051958893848844380778691381518, 18726302913202429512298503746842265922),
      (False, 1372416980306610173217036508142338871, 181501012631043221163814792177431008117),
      (False, 128925878449152371296806922496337103963, 17204958569295332633050684126283788838),
      (False, 1158481910384006090861046903227177723, 78224316459085244891621909877587229873),
      (True, 47895591803469570364028767958522964137, 194302047159035181566869270549519255409),
      (True, 295506299012274417980575327482313369318, 182432964275749336085055373897847040876),
      (False, 130253266723001894652175379604153932767, 133092921719424082148882785429760309017),
      (False, 69325324708240955132701645573427374600, 244898859879858567080438176851831522089),
      (True, 469445863486542461263128876281736206248, 60526826974086339359994391032590943546),
      (True, 28675289070795196938200517706939487251, 42467960236415949675169928005486139005),
      (True, 14116752291644264270935952056959478748, 191443495359344265873196408116141143254),
      (True, 286875341617477648902102215001903714570, 82099286208267087603367792990440532142),
      (False, 26379147541803809108492257277794779492, 75662336987519674724674050058096444480),
      (False, 22404821947427985059349619945817549423, 80792069279580917657994697586095659129),
      (True, 51091594103732551640636779488780714167, 74939107710991640654352495389357111123),
      (False, 21978549629430294324130621876748447977, 107949158241880484469178094441672672600),
      (False, 45605845825829581792689990769920838121, 36300746573802945571239079664896740783),
      (True, 10314379441544525405838153742944248430, 90809949405152636547382201211664940068),
      (True, 64547415474927795217674963858574142658, 63002961950012686251244353735689162382),
      (True, 31069475716751586547077696293286792298, 31334102075827893120098648879447602702),
      (True, 7685046467894297757239781298849474005, 67177096794751552356909316977368423723),
      (False, 17661372736795641792194885410048114742, 81785773166044867020888947305453227795),
      (False, 26178063794700565152999344050094691768, 25368073129379271312062820838875304689)]"])
    (simp_all only: numeral_rules)

lemma p128_pow1_3: "pow_is 2 525845720814191497385454 255515944373312847190720520512484175977 85481557594249104801039317090235676459"
  by (rule pow_is_step [OF p128_pow1_2, where ss =
     "[
      (False, 2518586994153733646133557125087269664, 113043418879772301892390989094755724993),
      (True, 100023617573998514768645566882711130631, 112889178847987708625944636744050648611),
      (True, 99750852982808916319509724265470175657, 221361115579992987105591574852502866753),
      (True, 383543528847093397697313713342904898786, 187266433802044459354536718346747862096),
      (False, 137246688518582416157875799535386802631, 127114540425974930774528605837862917729),
      (True, 126474349202252249563601609457060151433, 166171486824656505024142758642204309841),
      (True, 216134950805058282450535279063076289505, 157767811691838378773341635053640669177),
      (True, 194826843131680995132142827209619454125, 125530617071820648466715164513537159533),
      (False, 61671047030276417818320581014616174254, 173367555400981747367998309724460081931),
      (False, 117629877616559735758358567777075117816, 235692727601034117800288964308280782529),
      (False, 217407418469566374538108836697640596676, 183368859258340921433070181090126383389),
      (True, 263186226035114594397654472945464699414, 77357537950099759937531783036245473164),
      (False, 23420020587670763911148943926296263706, 4411029633417874113710301938941980134),
      (True, 152297207711338536049209929026475818, 41013320430573690141319978509654291726),
      (False, 6583121287661600908898706992132666395, 231124074062286020130497971425297866161),
      (True, 418121364145511287509154585702469615342, 394208523303966449602893774710716708),
      (True, 1216365266180426447287063782511889, 151995281581216606548319414268690023975),
      (True, 180830716295340923432110146342354440985, 113530226866143164329552145107948383905),
      (True, 100886952036517435366063702522663250529, 158767919280630637812724880587651756217),
      (False, 98652364941549990268566532382831960948, 161302316223709015997567736829574404893),
      (True, 203654118594807308021851575219898013164, 18134478524270925042924368818166121670),
      (True, 2574080550267146677640455421170746047, 113943492062051554505546828543362064881),
      (True, 101622772818640720772084643840000226138, 148910171063161572968660291661520001496),
      (False, 86782212751714340530234834437679854541, 85481557594249104801039317090235676459)]"])
    (simp_all only: numeral_rules)

lemma p128_pow1_4: "pow_is 2 8822227240775386616999206032262 255515944373312847190720520512484175977 146167692868876990539108754809433981801"
  by (rule pow_is_step [OF p128_pow1_3, where ss =
     "[
      (True, 57194839301794354167157135216186702114, 194480010434728159075719558948199641984),
      (False, 148023930762742299135126468332689297628, 194220468455944727448620855333294773700),
      (False, 147629105728661609917016358313417254578, 163036997448992522966877400354250817294),
      (False, 104028977926901659417810937610694593588, 240833904488574002802550975911881646960),
      (True, 453991000001716126251547071267696964010, 237296664242147464009563545754678895430),
      (False, 220376489610296459931981272194259017776, 174566261338806857131494992410119717748),
      (False, 119262144961437407281230077293736317329, 103854454320893341128853067828035586071),
      (True, 84423284885364125445289573183514361108, 214560591079737653760252514509901731566),
      (True, 360339526814238330917418212374875868181, 94646025138607348855761761607982736875),
      (False, 35057969069242520455870870310057025621, 59543575737351995284429896757723058908),
      (False, 13875601463092388944047318062480722773, 224747511543085553363197766128154728243),
      (True, 395368234797992514637057064576951995863, 181439789296131954551160827939295750947),
      (False, 128838915397496828814450233735568670187, 65548069268547008324520388806269899110),
      (False, 16815190908622555235780372471461993671, 117445122584332331110095875893554550533),
      (True, 107964744452084251143016145905234492349, 58950915903811075141072034028125068205),
      (True, 27201515697359910454997732958097874292, 11971127794221377555599187220851560766),
      (True, 1121713958141136341222066958678944115, 249878704772295840482575770280172488157),
      (False, 244365834984666469310153033339304246851, 109425801919768123565506786152973158222),
      (False, 46862070213082735456700667475539066939, 103143418070542941917764316308187476881),
      (False, 41635619715894099174621976943554700034, 65290824416128454572256530127005604943),
      (False, 16683466714349391405320276113531860726, 183595585757239656550690003637747053947),
      (True, 263837461824276484273412551832906568178, 14324615736508190521440854622156297712),
      (True, 1606119856840131285377813887681822396, 100670035302155742591970256029829088996),
      (False, 39662714718619212649784115972841809295, 146167692868876990539108754809433981801)]"])
    (simp_all only: numeral_rules)

lemma p128_pow1: "pow_is 2 35288908963101546467996824129048 255515944373312847190720520512484175977 111233916942653821000329437866037388564"
  by (rule pow_is_step [OF p128_pow1_4, where ss =
     "[
      (False, 83615112516797612093998251114030380894, 90264309647743435820215906416564620163),
      (False, 31887033962467208190229398548298203565, 111233916942653821000329437866037388564)]"])
    (simp_all only: numeral_rules)

lemma p128_entry1:
  "entry_ok 2 255515944373312847190720520512484175976 255515944373312847190720520512484175977
     (7240687, 35288908963101546467996824129048, 111233916942653821000329437866037388564,
      175544394104025381149509263364095140941, 76419851612027529596436277344255632966)"
  using prime_q7240687 p128_pow1 by (simp only: entry_ok_def prod.case of_nat_numeral numeral_rules)

lemma p128_pow2_0: "pow_is 2 65 255515944373312847190720520512484175977 36893488147419103232"
  by (simp add: pow_is_def)

lemma p128_pow2_1: "pow_is 2 1094471842 255515944373312847190720520512484175977 34140419959895915259817543271902666128"
  by (rule pow_is_step [OF p128_pow2_0, where ss =
     "[
      (False, 5, 83549745817189617899895827164651965939),
      (False, 27319469410168334320916585601006002305, 68728524736), (True, 0, 9447220224773927739392),
      (True, 698586, 78434779954851616058204098552377990806),
      (True, 48153665883001037474600009226591137278, 108011000434076642687280781139724288666),
      (True, 91316228765163429625300674955216556805, 21412766483854746452249178641755245627),
      (False, 1794434275389905974774224119389840908, 55432355426845706711431256009597156013),
      (False, 12025652785404342481496275331279503942, 56724629347573704499410948752668854835),
      (False, 12592887627859861699541340799020582546, 240276049264538638846034263880984179783),
      (True, 451890233243736713154445556070459810403, 17729011275520640505154125973424565447),
      (False, 1230130047572744258664468369734212258, 157438822631389766696269870134443783743),
      (True, 194015155745772416353646154916994271942, 49127881155467926467209484444180642764),
      (False, 9445785126033261025835149142665501456, 48109194821048970039086311216531837184),
      (False, 9058122114478036969722591540855763667, 185079749578016601372649349984734222197),
      (False, 134060180815232995944987869849412960698, 58002659052380775069240671432150754863),
      (False, 13166726113308300863596795599483974041, 96138714871474059550275591841574335712),
      (True, 72345015649081574435957129117624629644, 55273457442978392252001915483010231700),
      (False, 11956808038707413796954363769745126908, 35414626363428883114408040130015000884),
      (True, 9816966714444028438371644995476422881, 223589731044816168961701757032168233175),
      (False, 195652635107786420775168951099149716491, 175784897772369677981925974357867643918),
      (False, 120933080558356802790052202110365818739, 253862520452791130130991520937082157721),
      (False, 252219795710622679607924002363062084963, 199000989177199659528808004290502379990),
      (True, 309971996390531870401177427794334196765, 158223782771479178274130141245500685795),
      (False, 97977312123974705420556580701706826961, 34140419959895915259817543271902666128)]"])
    (simp_all only: numeral_rules)

lemma p128_pow2_2: "pow_is 2 18362190506779197 255515944373312847190720520512484175977 193855026227765477955929088608538510650"
  by (rule pow_is_step [OF p128_pow2_1, where ss =
     "[
      (False, 4561626390465659835585182996097676887, 132766931360716605957135669476444968785),
      (True, 137972274929253128750640578445409868133, 58489725414427242908292112914512311509),
      (True, 26777569497243512578977602351030831258, 107149340908512993146376221291043425096),
      (True, 89865086777949483382959322701326522023, 184118331934227061891355163449427176961),
      (False, 132671016822004742154993143162294116667, 250662104415806135104387480131412486862),
      (True, 491800938248790402537705886470724768497, 41416834367162407208480289361511417519),
      (False, 6713296006650784302209328312043712363, 93840700852706092849903963440677611710),
      (False, 34463904622958697487783775075439632994, 12911605119493084893342716492137738962),
      (False, 652442833540574466887282486794046874, 197227314754083530924630717898650091546),
      (True, 304471126297111570601430550922559818355, 152151422218053888606097750115386682397),
      (True, 181202432120274299354805082502126047911, 144605830194973452088997214915842097171),
      (False, 81837734931431198429292276988952403193, 79073468382009311847378695736937508680),
      (False, 24470541035300165033448121221350613325, 246247286710273908930432010618894248875),
      (False, 237314842957820125622949674591392692014, 98633371954153913222963566935900217947),
      (True, 76148219140743103612254957404729223751, 171118218725169175996750677642109759891),
      (False, 114597329147077348690645481909493810583, 64090698559063044832076991467195367290),
      (False, 16075778174482103277341256389720103134, 190140535780025487395857288938556732182),
      (False, 141491848719602514052173457037763552413, 105707206993883940182144066813919498623),
      (True, 87462358858689575112224511877546965779, 119900143403776588649593984063964901175),
      (True, 112525614974872658022735990674316782249, 123155068320462999917099756314126928977),
      (True, 118717999303076226264273228806096096645, 12074321005084224117580461653425235893),
      (True, 1141136049974382296590551020365564731, 39932467985777234433421389172602347711),
      (False, 6240714266759748374280123841237061143, 104863941923693844106109981165426177810),
      (True, 86072486339324898832646306639764005150, 193855026227765477955929088608538510650)]"])
    (simp_all only: numeral_rules)

lemma p128_pow2_3: "pow_is 2 308066436365384063188501 255515944373312847190720520512484175977 98558998737466125421089048199348861003"
  by (rule pow_is_step [OF p128_pow2_2, where ss =
     "[
      (True, 294148150213772958355049410109424295470, 175755066778866975049098822433602920810),
      (False, 120892038945770987015377639254285598889, 90824336432804230746438382516019366547),
      (True, 64567869599614514229734110148968613364, 5302392330782932617839302848435449790),
      (False, 110033698673882626194222669184434506, 800791471800633396704111917475981738),
      (False, 2509694582392570392655190715594319, 188962002555289171837527886570372025981),
      (True, 279486577616754487040371787571482323966, 241838895499009983370929605204609459940),
      (False, 228893940531288421474630954989181011400, 146910896590630545339142919514021665800),
      (False, 84467572424874244376352750335325528966, 102807774490348625579716845614734790218),
      (True, 82730167947689873532923442745829664063, 119849659880913085517887048207652160497),
      (True, 112430877914879566330648011771359775630, 198313873906042750377372599599538533508),
      (True, 307835134751218643115852968739201754497, 238801013306750689763965279698778453559),
      (True, 446359025431423885436465954919463643244, 136749146127070787636644673903396383574),
      (True, 146373088476713470312392284840269810387, 143945083304121589409272834631743553853),
      (True, 162183123704859545777983718901133258019, 157261181761811831548425730300079881655),
      (True, 193577581624331976436488119120517062408, 24452888547847029368786505825047705434),
      (False, 2340142646675007828274647135674191236, 155349044156798289176658645981057990784),
      (False, 94449391718474105614283745089616902254, 16037950929799911132746390886484982498),
      (False, 1006652914194948901113514258170959102, 133440016984634598331431179899128427350),
      (False, 69687385562305159958875766022415566902, 89383446969701179528094414055443309246),
      (True, 62535436775035392678978707113078725692, 56369648311544074405949320501339075948),
      (False, 12435768963696180930747075518878731025, 122761105363963023055490616055962512279),
      (True, 117959675879671130684250340469261015802, 243127053393297640484116795736505759128),
      (False, 231338847509827558512289949161443503031, 151842066546881869623950838029218434097),
      (True, 180466336296747895073490540446621616095, 98558998737466125421089048199348861003)]"])
    (simp_all only: numeral_rules)

lemma p128_pow2_4: "pow_is 2 5168497145252303351071139499217 255515944373312847190720520512484175977 58420299323269715516687949053623268320"
  by (rule pow_is_step [OF p128_pow2_3, where ss =
     "[
      (True, 76033425279635168820183371747344342904, 216389029206922036345899051157861114810),
      (False, 183253581595296619872625777544107715709, 241224020412542647068620052201358013407),
      (False, 227731495060737575142220768690418431535, 173186475643753750690914390666325512954),
      (True, 234768561464668921475779480952013378558, 172497881174064893183456717446053111066),
      (False, 116452689801887769080325321711972201447, 57766250844680087408745501560889617637),
      (False, 13059614517735069531341623233211998655, 138218057994099889390015217323154152834),
      (False, 74767277644908041608239120245326912068, 204145351069764811930940473709313241120),
      (True, 326205274317513549612373997885901510586, 137695380009857880869146657872765316278),
      (False, 74202874981289945552824305286862541909, 205685357649767114460555515935878253191),
      (False, 165572706060574415328894107434853739965, 164287958557873322719391590357843861676),
      (False, 105631503322860764716964744122426611144, 85423330882578286363708321402776241288),
      (False, 28558474019974299313739560271028524390, 108614772374612236949552533817799319914),
      (True, 92339981420126008754763574549063643175, 157585447558861852993282422132398927817),
      (True, 194376701956768217369671050742711975565, 6514198461942563736088834503568768973),
      (False, 166074887051185244502713814638898730, 188095741676994589434990113527845665519),
      (False, 138464971819245559477989784029642277090, 199676156031574516770184645470072431),
      (True, 312078898914379770543922497714729, 135112410783200240523152259603591634289),
      (True, 142890210569222787608816063249542887154, 169548144835425102499257846292652371584),
      (False, 112504029788196262918104943357011643387, 174603851682552156732733295358334354957),
      (True, 238627026561140186716188655686139245845, 167501646229480651823106797543494878133),
      (False, 109804503818339641102471609560441279842, 151971563101729974753240242481890810055),
      (False, 90387142173172622647181594689290144559, 115790182596509909037909674077764043882),
      (False, 52471740730765244501434368747713101761, 223756079746210779134129377688789034427),
      (True, 391887741848659536531102354573138494594, 58420299323269715516687949053623268320)]"])
    (simp_all only: numeral_rules)

lemma p128_pow2: "pow_is 2 2646270538369179315748423423599368 255515944373312847190720520512484175977 47418180093458530687350227428022525796"
  by (rule pow_is_step [OF p128_pow2_4, where ss =
     "[
      (True, 26714038385284333692903809606850259278, 169965083765775597175076510122802280194),
      (False, 113058031546168797194928008600447839952, 26573737707683779935390569875385444532),
      (False, 2763676988881205275078663490606704604, 94411668417584854111188345714856600916),
      (False, 34884567204812597856830346847979683650, 76343442160448484733542450569902363006),
      (False, 22810009665739189838834210196992549197, 190533414528540448109152900989419315567),
      (True, 284154338320785146542125106789996870584, 36541615204665586646083746491506302410),
      (False, 5225856433502904380901396607022694668, 127753182349827497381024300482320217464),
      (False, 63874196346288347099671787301728038811, 148979728306534738674534616308640747949),
      (False, 86863305148040860860403045264993419965, 47418180093458530687350227428022525796)]"])
    (simp_all only: numeral_rules)

lemma p128_entry2:
  "entry_ok 2 255515944373312847190720520512484175976 255515944373312847190720520512484175977
     (96557, 2646270538369179315748423423599368, 47418180093458530687350227428022525796,
      52333299885033245219942804006191421971, 9711917762783113719871713016506270872)"
  using prime_q96557 p128_pow2 by (simp only: entry_ok_def prod.case of_nat_numeral numeral_rules)

theorem prime_p128: "is_prime 255515944373312847190720520512484175977"
  by (rule certificate_sound [where N = 255515944373312847190720520512484175976 and a = 2, where es =
     "[(107590001, 2374904191824599455024826335976, 82381214149343919061612748413412685903,
        235081362755335172132203715226758066727, 75792875216320803940127491159486690489),
       (7240687, 35288908963101546467996824129048, 111233916942653821000329437866037388564,
        175544394104025381149509263364095140941, 76419851612027529596436277344255632966),
       (96557, 2646270538369179315748423423599368, 47418180093458530687350227428022525796,
        52333299885033245219942804006191421971, 9711917762783113719871713016506270872)]"])
    (simp_all add: p128_one p128_entry0 p128_entry1 p128_entry2)

subsection \<open>205115282021455665897114700593932402728804164701536103180137503955397371\<close>

lemma p237_one_0: "pow_is 2 118 205115282021455665897114700593932402728804164701536103180137503955397371 332306998946228968225951765070086144"
  by (simp add: pow_is_def)

lemma p237_one_1: "pow_is 2 1994430521 205115282021455665897114700593932402728804164701536103180137503955397371 117734178673812099428116945776168007831577133886170356575189514888460811"
  by (rule pow_is_step [OF p237_one_0, where ss =
     "[
      (True, 1, 15740601075842375300797486998932411749631322407916266585063271206180101),
      (True, 2415875792257088195237297408733545892084757330933010367521040549124831, 64922489001719687021572854584200913315214336695643928490246699208521101),
      (True, 41098152576827694468395980780744946502274148075232659530961414139279862, 85393305672442465712154182408236920431416440176324057105369701136461600),
      (False, 35550820893513083319357632618014007560697337924119516414732938670256246, 177615106047666959522075962872933113374829813504421003201324176949830734),
      (False, 153801928288424932429004302207239922278790372939557213525951353341313833, 147868750718570296814891096853180348136035953773571817754066490516845713),
      (False, 106599407043613271137344244061538220835727348486686992572452894935157354, 126295780376941721004896013778752044372450888649223130110008617563562035),
      (False, 77764191842869196654283316579069886182340882023994734620420779054274563, 158345458423541461666413053160741920850097377820592743968251384490967352),
      (False, 122239961626743919853631709556371149272453072453767564328975925336865143, 11743088547049908256762665561590015528848837371896136489788100726152851),
      (True, 1344610964768875324998400168975719405663443677962353282111528484832017, 104180063949305408558315232112211812713745508867715706298054652612429095),
      (False, 52914076501360136073163226360808961266259598293920137990493577076837626, 11418665122751554659359162204955523932464609489602092329184865528237779),
      (False, 635671374168522578499281874985757892023391936900839117321431547574031, 147553947645352408793233542078387815830069205917021864300571537517580340),
      (True, 212292007218164919311351546486814717932250321349678326931811430952260903, 55287239960422957348095017835157091849270330342770114124425834476745187),
      (True, 29804496986447371830712638198689422644774869725638529752985374996327711, 23103192830223987222849070671562486731784208402719206744229515911482157),
      (False, 2602231845868414776769982008874139398907128888983332413595286653067515, 146434530153612606506267641615239323899713603144238881132480294612869584),
      (False, 104541560287381565774061573952646123043638552169750360828552586163415561, 112053944582366846593708995662636758198994014179834395053902132632442925),
      (False, 61214778210210278438653890139409598619278089694932808314446483397925259, 179059410161135671852868626704909203428541415565308218356155037079461536),
      (False, 156313425558901106431435660056037145521669800918338107116131747892261988, 7348817872962914533107500938715851026747852839719302428589941125045748),
      (False, 263291567540687092922040248910968432113551858450247460252450407438429, 176411841708564085938980694523243917386533977673871876189000834181909345),
      (True, 303450211883794285544506452734467700731476121876542117587556749513060328, 112585326498756708240328826913044887258591528400214545563392588061060362),
      (True, 123593479899813210667655586012967770178905927492012580559255633022201740, 62591798673000603099807704259939793603038803149778942980836612587516548),
      (True, 38200305920761511652074479040212466871138707415638487060292918569559704, 69634557051187813707233099867052432646846644258519212648119358518534424),
      (False, 23640225574259813969248066083017097663331362858401388612326532668760099, 126762492018136702089719719159456779784801574008265661391265723458712047),
      (False, 78339991171244541547541835943906038472901177256613339720661431946835292, 184465969691374882878803864506523306082189277983401243930688978316112877),
      (True, 331790919124396000379772142371942884918649967630862170532952175066472357, 117734178673812099428116945776168007831577133886170356575189514888460811)]"])
    (simp_all only: numeral_rules)

lemma p237_one_2: "pow_is 2 33460991655734552 205115282021455665897114700593932402728804164701536103180137503955397371 197786240780011155447001804151328970990699577853447038454097440101071670"
  by (rule pow_is_step [OF p237_one_1, where ss =
     "[
      (False, 67578274477604135220773042794734118356285333969088841448118023787848139, 83065139673704408779924620924617154793071500960192637636351829934935152),
      (True, 67277458422530222191359994017197398657367856042338591221814694138760940, 132301181903708909517160602566100579454573367042337167759705377617037468),
      (True, 170670878938092434838116619445678597751763641454351576099149866861354780, 146551092016910207608532572673871645884168811456740156361079499521418668),
      (True, 209416113316240393066836295913212167335585286771247919044442015268689078, 135231518729277814541684773808756730768143856401951908042564544940174510),
      (True, 178314979533451661856914697842505413748565367389731482217692526586839581, 191419714246668940824331241328752244848532042153064663591829596621338649),
      (False, 178638600893928430619276058540622917144961917604864093870251107462491829, 172235294285533245604475761184057919238989960309881539206307163205563642),
      (False, 144625969870549160734219381152577993838185111292401470287269948085107020, 182202393498034687557161914708054261760909905808010955397802911750659744),
      (False, 161849043470783878430892672097333375135312602587025496623704540401651424, 24868454307390700095387907715648271479387244396960753454664292714139232),
      (True, 6030170093070767957495164767061975477233055681265258327026097140594814, 4322720516410176058219329899597542533358458035155123061580316691265654),
      (True, 182199127035681889192730997860728845605546471302674880209102127727281, 158140334469560670268365365075947950988576503915268672041342571327717181),
      (True, 243846924906634402833775958932594169319973326167918590388181188016237782, 150127248742879682197527461518276046266842824564432973502337877211502400),
      (False, 109880602717592283632219802003622727540751328029461136485032169941998067, 74549497135026967039804762310821239853537321469420858604325988506878143),
      (True, 54190282345749837111580687046338647881923008248313642641623633027567056, 94214236802699419964808804321942011515477677403619860971264535873647122),
      (True, 86549596196217424831597485516936111406783937254007404310925934402132796, 123713294068566773299461523380614669399580002247205302290827149466486452),
      (False, 74616474104034494287752749134261045479221394411870972003249443037412712, 53381582501721863788285851043658637857746437780778340126883810212768152),
      (True, 27785285643319954823549099304833101586131308490022497936374335537031589, 167500797706524507243018297185784091066858607610782588261682932736437689),
      (False, 136784138928211359896549933493873952018857762324427140833264453473079803, 8848718289461169980359522291588968519076020636785645299904593720262808),
      (False, 381735649311854888743245992683447945111616910780434885130024516346846, 4471078135824667661665963417707534952372735224723664154883939395502998),
      (False, 97460021016660843816860793998029516432820477475198227553590391709660, 189314769982885963706456990106927674297812075289748279514291616067684144),
      (True, 349462817011596840339694618614505312867944395791675030178475467656013964, 96112368035732649693001374168520277941709166246058134195865937153136828),
      (True, 90072150630588745404277013272716087100326851729927579600408513717067421, 43704046507656446658984376285744896277871697123031238035719705326652977),
      (False, 9312049606053250710553247367089434388885545470466594180994889905467446, 171077758758434431798084548399736492212622149454633807307980362948478063),
      (False, 142688537164908128876057664686329437151643800689331433009773933068821497, 166487503677575858974623025445371950849478269686514505702624236690147582),
      (False, 135134196767900701760058354535200356450404603041058185253391234893457674, 197786240780011155447001804151328970990699577853447038454097440101071670)]"])
    (simp_all only: numeral_rules)

lemma p237_one_3: "pow_is 2 561382284582456220260992 205115282021455665897114700593932402728804164701536103180137503955397371 199353731410275273857554609653500048794298330049677804343782123853932972"
  by (rule pow_is_step [OF p237_one_2, where ss =
     "[
      (False, 190719075908720165586440593545887785116559221858117486032842910527056670, 191981073165732709860398018571083421506907968490312544370431905590574330),
      (False, 179687891075863828669675827693517432190833560052603699231919617191832340, 203842498329795127891167356902955573064604484084580922290125298946170760),
      (True, 405155225060081987759597185958967835889291785437991842796162322382860000, 45839860056081801769969693079863232208703755919964602513605234696895200),
      (False, 10244447655252534720060087446177735457363033663713972573920721996251526, 109907875659902653572063665130743424111909574284178536813396361987901854),
      (True, 117784896503314126188356799945825046931300712140522097095854168852995123, 168201910279615820779228399727559384948640395486400319776973827283252999),
      (False, 137931617492803464634968567448519465758537332169538581208081227602388566, 163038323945858480827943376838853699799185967811661564443981240165634015),
      (False, 129592952865862953177564100675061779516617803166992355821589955462922831, 196649431871347916172941454411960858229651172306530001411877273211742924),
      (True, 377065996001982968586863198454300746052005844879137054217705845427025177, 69532443562899685756903057927381368107057669911059005071109882271529885),
      (False, 23570943423523653684178866808218596928983647113867366409615704402263795, 79840933044636990597912305889026459255665724255058344552535777256630280),
      (False, 31078009042599797973736656377758491310648228716305917091396014463545468, 98962885562981968627659848888398066265448635588191303318078501146713772),
      (False, 47747065076932784939133169206244523582104474972849804195237803828952646, 28641473080397941051902738560774961440696584707864951115478445222574318),
      (True, 7998760230155357792468002201218845820167882315008975019904792595828055, 96585801454932152981841863349233625551930924467623136095979639751286843),
      (True, 90961696766365288298195522494675257706991032734379968239529704284435624, 131428654429531809338188352926654401148670507719802110213858445541468794),
      (False, 84213575092617589343314966192407256606033176403279527454161294019912261, 80796872300287059634564637267245642354484896814441320602712636065748605),
      (True, 63653322260269540749713920597183729058612922398490107321167578043556535, 198561828883321500662041584599708125883858600642523090972653536090022565),
      (False, 192217759208040327904546341648706257056119100304893699188641310465027173, 127193352751991939583502694023149408090196171530839204490532974681417042),
      (True, 157746890673902817435146460332823527584248336276808654610824009181283752, 19913969603721517771218583650421300230584688581965465579600387190243536),
      (False, 1933381957061895301469703113900055972756426325697295988391750890861594, 35071791896792003260092898450145425431463960326524362834913610157313922),
      (False, 5996776908720142948887928177128168878231705945279660372151302325715925, 162252906442276977469910886970433209532888342027435626792254054617188909),
      (False, 128347363441269616125514373716912323344610095932393169308866104861758712, 122891605772997056146232636157252372112379847084758540714985593511464129),
      (False, 73628579112335341175516070902954561335179778723508397582128502902198097, 148237412431492101880090305508284464928865594614049398742324826258725654),
      (False, 107131610223394808352223116238223033578597577172885283513733036968316824, 112213753597023531330653083645314437976675056831773471537885196093058012),
      (False, 61389509217632836918153453105214965191080605975062243876399373787735050, 202818751389852608789903915783382229153125652107997569461211968782838594),
      (False, 200547933386240573116404516548702184534686556226900587374918126995675784, 199353731410275273857554609653500048794298330049677804343782123853932972)]"])
    (simp_all only: numeral_rules)

lemma p237_one_4: "pow_is 2 9418431847013337817862241402675 205115282021455665897114700593932402728804164701536103180137503955397371 119116668172058882440034227461211725865767564600198067781856479425132200"
  by (rule pow_is_step [OF p237_one_3, where ss =
     "[
      (False, 193754018888963391981302977221273533168102292976152242558708518584793512, 201514946455688000298743242939672076478771697158625920923423734726095832),
      (False, 197977806650169810746818923829700536949925627612385780306319806736752414, 76472167110289535651032859745861294883219262532976567153064945834268630),
      (True, 57021517703710943127890805353893087363814871203820011990739587542501809, 85408163863060354184508540911296255066017901786660431726736187922809661),
      (False, 35563193451847905540223687970925212962693875947606623250999269498986789, 144873248975679796748392811103426336759741891480918117172682552060603202),
      (False, 102324205500075188504934297054020073907674006931897705720148444115520439, 183030372040108240132941489791066009413318063175008605500503291375286935),
      (False, 163323360205000350853678885539327411711932110808574591873900860236487217, 21849938385977657969595606761470519632886420825875730068068977184787718),
      (True, 4655136397112336226605699355280324235150497323166514433408066671025997, 170776446533748274375477656067554064358433934160945403758634495040841161),
      (False, 142186356878291886752409604644992421383110179152992105883449549050021281, 53857208140772630169657552741157276038603168221181687872838168070375670),
      (False, 14141310389613458622057396652268778103212702090898713338723205204886168, 72967253502207831663283106041039142131972102466973061301897589666484572),
      (False, 25957208215712234879831733246990029597637480959615635688568746570497699, 108668052272533324036415150655660225763267380353334255037871135927873855),
      (True, 115142523446603117301693098813640662700657490401711782715360361811431267, 119702267889101259385106249165808369084050168703148278538844950346122993),
      (True, 139712973081111967429565569419692867244587725370327807855720292674221625, 37093653337955615650128537407277820665632788860516557738939377570208223),
      (True, 13416251625878353428880437804155247592502204451251577064360576188591982, 135870624236962590779032425849175497683471427781411983895936193359156136),
      (True, 180004398976092177096174125480047434486519171818338874153163083292240077, 101595096282056405832013434499231037057602693807224236120739326786263425),
      (True, 100641585422978334878986437086867334122170766642791509577209316837849414, 61461624059891280263694622587348675833259751033986623056665941555970656),
      (True, 36833250012880715025299507018890614415452811814706242672985022473646388, 181201681628161897467951461389751980206859324073582705347729084787294724),
      (False, 160076075762308174178825747850904653466850374651430807613559412832172739, 191548246122124530120267825907625770802517790362275123808646398379767007),
      (False, 178878581014865757397503023213372666569626230301067563996141394750975438, 175319122268286918595207280466096657390546346113198691818798104454964551),
      (True, 299702628980198348735705294679635360466798319950507812448803228052633760, 5620599971838806319113261053872465960222928371571089120329677403418242),
      (True, 308033060551089149673829609207534239255409294329667556061305878249249, 108261522750499945534976081910307633617904668185314901871172466379416749),
      (False, 57141316789019222323819882688949455094317587637083251009757199329538766, 68260489591312201176113353061122750368353223401529294843317539742744815),
      (False, 22716466532017075359952547289375741207085804606363529886668155065232496, 51327444428906750982538943030341512008238556416103645290649482027216209),
      (True, 25688057229465072054326444073443876142228726013671661889074718653985468, 186588549446337602225499438023422954149391152613174829164507617265258734),
      (True, 339470432835390492567735152073689437284438308348082332016827372306400672, 119116668172058882440034227461211725865767564600198067781856479425132200)]"])
    (simp_all only: numeral_rules)

lemma p237_one_5: "pow_is 2 158015065478621723451243482256835776150 205115282021455665897114700593932402728804164701536103180137503955397371 85099091309799058448250465740276545053501615127047350316429430236305932"
  by (rule pow_is_step [OF p237_one_4, where ss =
     "[
      (True, 138349327232752917070578520245699545560876787524770883213488989710039628, 179441293969064851023114356056733417228727265149389613242183178056662012),
      (True, 313961764954443719208607885500651447569700563989125882868120655686480022, 146048054262620126304038155888296723188441956925599194382433431944954126),
      (False, 103990467914848236947950523611253160188693705401152794812263932900222217, 71869582191999814018310365770738918334833595523599417614014049806832369),
      (True, 50364232187363959770905275939623370015399796436138045165858711360325015, 102491100584016376429874974292542375697051124124586036056125369295768757),
      (True, 102424603329401540967181325497904327294689194340616665658137498535855768, 184773628536115867058857278254386593018608955428003983802803393252264170),
      (False, 166449293616412508086244042531846415494998429921087583647455163392722574, 54278778666759351621415693045691468195498755834095303482419521733835946),
      (True, 28727121494992950708005875528745908554778065912096743407818533815716269, 161299416294814759111291252704090618402448510208317271417891626398901033),
      (False, 126843311920203221672855518743043953439938090349971219456564056464755318, 182661215176082544820672651003871261822002318877777432016007611152998111),
      (True, 325330411276845163396588425772027369736793020528381815465118813763603520, 172792486824288977081100105602852174095113882380213199778112149444790722),
      (False, 145563232581563199463406721993810469936945328341052046440854222217673526, 135561323979403484842717078337678783448090633230501645955341287900581138),
      (False, 89592898090969735659264247852055971544280600848298581487053359702171225, 93511171611116228893231623502196215152458786451978903114612691764525569),
      (False, 42631339458992362934248208191429479325127436415789634650715346056940563, 199751151390011658800965280667619227630885288991183658456901284461313888),
      (True, 389054604692610313091385783932985340234405013985442144258597348365467030, 32279301742911303902090800533030393067915929945539056453585336874174958),
      (True, 10159684941475256231480716449318247164197950242130667722394320214234230, 70384020833960611985281586025918319913783775670525793109888036268394198),
      (True, 48303669428562692714694391265653578656970516685997432943095759971970465, 173387250947911163134737946942248546925943082347025407078814892089478893),
      (False, 146567035351998917354971481303361769644077353236796041126023513755754305, 12176376057566829745986929483996947189667974540113212473525170173573294),
      (True, 1445666382671359066181514952502609601858169755839727631251938813176659, 130580307161895887857099382913630931387285383831475942624590979612857383),
      (False, 83129918212098261658691265477272521613963824064448920657969711225581928, 125693864742296700739037060567216753672354939630342564511894139941297401),
      (False, 77024722283745591147853861386310634990134077294396143315590209344565452, 56082906164060465974404664171614690525846925908647942677222453151128109),
      (True, 30668532669133882621007876972714176904143887385458947120852480053313035, 32809207067832221251070004057626594784864541480016324098588100180800777),
      (False, 5247995458023905522634746230953189730169056878899639875566789070822169, 128904303652724139992943822399529257958566471351850826104717280892686030),
      (True, 162019322367756039117346229638388063922275856455934290948481311695870537, 168385893362933615852220713988015238644320996120274266832854922708163573),
      (True, 276467056030153411473652758711805378952396236632008120555634970890119409, 143200381861601032958016539587623196938932503900840275286439176013578919),
      (False, 99974751579764443165560550183260343480602274382542868628389914519299999, 85099091309799058448250465740276545053501615127047350316429430236305932)]"])
    (simp_all only: numeral_rules)

lemma p237_one_6: "pow_is 2 2651052884788980036633777370415101293001291223 205115282021455665897114700593932402728804164701536103180137503955397371 112336342081110753698294455863256334883594985979263789008111818536295188"
  by (rule pow_is_step [OF p237_one_5, where ss =
     "[
      (False, 35306269091134799578153378209516610263047846810901123854497019376995394, 83356645126668108761000041116406551363091080400677616034819374191679450),
      (True, 67750488586671628318049902482442749356162152304023501862146550660101516, 14677926130464032370762369441858508098364078510650930168005372125090564),
      (False, 1050343559817366616903490688924220447013751737678545408880868941672347, 154277107314863196274168403579388883654792796444923445020868411534638359),
      (False, 116039261467373823068193837220251954155846233208748379459543570290515554, 129707444182210081037165739996216511739385609808789690914059344388004347),
      (True, 164044540323634212425117695030708269644904117071569276237026992222983903, 118922980534686490881701460007395500281283054014959278131477742880273805),
      (True, 137899771873400016020036682247788052484187270024039381717314050211766648, 138640963625811752274763365421717707046922312057789620499273390773673642),
      (False, 93709823108563167516336333190752067248870037491393720714887969807680733, 165114967628938662838006365863219070146476235685222801210928417409991221),
      (True, 265830534579609499276715887608461781679825071344888438591909731373051397, 27862457896916125972736013539000845943045006098253428884523014652464395),
      (True, 7569563344151205451896465381706432560691448355702096579920629566024160, 26426055732878369487631134322890209654353620236447418927648860098948690),
      (False, 3404604545867750995967684289984611146993472884055592027433540724375952, 9656342862038339196648211710744856635197575734452203051959567096293908),
      (True, 909195614781009688267375854187509177425265309503930824311468946346811, 193739885474347650110253605358655064163289070280598304254175561152191047),
      (True, 365990703897792037334661435329688194404929619443418222398869767183829633, 122434977851124122011719990331634667451691706295999473043094393493817575),
      (False, 73082432735739417358410912235553086223095473591728934207312854848030028, 37820872362299520329551872611871127829949680498350808329317170098624237),
      (True, 13947457957771529673968427036301391582595110162412928279036864012609296, 159536866706603744168010391132508750633783654833067541122691319999103522),
      (False, 124086375172661656619327392739573164178839597759215790450191921108305936, 198743346004466306667220453232864564978463555526850324118226178154710228),
      (True, 385138710209991176742016971376776111458828631834134558303167660153006167, 126624833188801693712598027297210162248032918908239118514280294597037011),
      (True, 156339871140509822059981452516078511702211940681376261508736498446405393, 68995138366971845694321867558302864988786195771857872928556345135206439),
      (True, 46416133126342540230228383218223478156088009488173804771138981536575352, 45337171195820365733551583282745457563273645653347986593495694649921850),
      (False, 10020994397794878802247448954657597258610904054216827701178119779420538, 93747914297931708704931549148517955711472879946132785503208115198816902),
      (True, 85694945287333855916898205302700666430234654872273960400717417160033168, 100843239231314448406337884901169809224514557657334286871989762061753880),
      (False, 49578748099326760101068478544671552905855808253426201963952036524166416, 161463534543352395824607445639238632352377106601353708451382841882162064),
      (True, 254203126459444437630832712969444349718286076204744917392495271391341977, 98467656518260763019381507134262259196037513449525618266312042333737725),
      (True, 94540780039821349206741885629596065300830443149018282031303173868988757, 37822024751293499565797844781989925292446657509117181532058010309993403),
      (True, 13948307919229762611374586464244046873489853708986618726922392047809530, 112336342081110753698294455863256334883594985979263789008111818536295188)]"])
    (simp_all only: numeral_rules)

lemma p237_one_7: "pow_is 2 44477286875527832494292795839366164054561951133624797 205115282021455665897114700593932402728804164701536103180137503955397371 66394170703138310270403570641401017280827246917784940746582908713356794"
  by (rule pow_is_step [OF p237_one_6, where ss =
     "[
      (False, 61523713044668717123677437883649982437695790665380538621604214295901414, 141316623122054592205353515390864255270222666065725590213322027661172750),
      (True, 194723550325536961990577818922448409813137759099921163809873074995813311, 193430156521622321824354053843978667538249047111280645790567504348919619),
      (True, 364821431960058120497358944083623018027287077483843290108424385264136292, 168472907728674026792834248601698974680092620564934555675127875083721990),
      (False, 138376430848216146864282207701602104399882633874323510056677757049772243, 118916938498079473097082765586458763088873994109772985753693525498586947),
      (False, 68942879937521186221881475207110324111380483575699615784498245953494039, 53866400901598280826346509007575913675334455392990708406501083594009340),
      (False, 14146138295966622635535483144737276479501243729814605638840309236150418, 187399910122128040894993341531787069928626416501690374833106154489484522),
      (True, 342429154645904394305973050361368030380051094336786950849128198974251380, 63350105566038428786398925233583642781053257548034370913514941410014988),
      (False, 19565757537307321445517025044907629742874396598315648483964641051673617, 112395966305237924549880540925280024300694972990443952256897706552779237),
      (False, 61589039671684457983429353382783380500191946898857895189488993973357616, 113163833478938146627148096890602549076347580846742650977171970489074633),
      (True, 124866885406512919173152832527452223273516192096267748916389620131131054, 66981609835784553408347571320287778890758630218001906382646587040110344),
      (True, 43746482582647986906965879904123054603782349396246488724644946386984882, 152950048520499091587732724191021461296097035078730039914410440512051450),
      (False, 114051557309006231173218333042215687802931640486106552171993255830525526, 48011644633735366786714663973643529340025311413244149774856600358310354),
      (True, 22476316710472775708618647606753582571240996010216453714219203217897646, 13950539140293956746795088914480717561674377194608157905606130431721966),
      (False, 948820294552777781652680399131489530868880475451955043434159090557205, 52222150987826145628539432058954456903465220211813314722813796344797101),
      (False, 13295708768837823563345379687931493301280860975705600548982601643583769, 113736675746899313461507001738714753403869296483878029512086813937132902),
      (True, 126134252723326264021036901547883511935277871823771955814948811635668960, 82508698658573269869225766289727728410576563253348287001622241811579048),
      (True, 66379114098569666353977124631199033331785091519651487234971865726261886, 52950863894058258726802100788436091075718709470971039101001104763270902),
      (True, 27338713717428400964040014625733070273418879083061915497172329193859301, 12227041797075280863621497793743885838442280148688738516243043160489537),
      (False, 728861105004295649636969930022413136675967213915759431087868626109589, 8469769433659176211632653453204673579593379527250780604644323197983850),
      (True, 699479761355308284784085265361502916967536668311639714221600880345329, 88834760907720239700200671256070678359367092746880496734862709822914941),
      (True, 76948091509888900763105875924482981684206645320256590232089462267708358, 30225261395951809937772911757373239541842064005589191403996338814140144),
      (True, 8907833852750698515532180760508095536644903496427304438357836369025165, 112120579891497122637363904145312279048820121832738569313341212670840257),
      (False, 61287605249669415401074092725949589862208994067908322989489139250495016, 106727071105816108101879316214841999877543762452634312854408721676823113),
      (True, 111066007316163112635477842154937710608061187854122185486205579144723064, 66394170703138310270403570641401017280827246917784940746582908713356794)]"])
    (simp_all only: numeral_rules)

lemma p237_one_8: "pow_is 2 746205049004695559768569003040947437434821639550268094099510 205115282021455665897114700593932402728804164701536103180137503955397371 199038063431362893114163122511412804406129638131069252057124819377411176"
  by (rule pow_is_step [OF p237_one_7, where ss =
     "[
      (True, 42982520462774296908630474593838133986395669197878706988243688082180727, 131703323737037175467457666899914819845626241963953204384499459569248155),
      (False, 84565934397654493026545480411446994631130890872189178561885842786515836, 138731767297530037588122269579740137667600212737205208825185700006636869),
      (True, 187665229697344379775970180826599950324044572969360065457699792621026224, 46608192858846415124498714248217565750730636654532750700128970328589218),
      (True, 21181489942228590078276749093439881562783451473211558416891428919666594, 151313693005742409651314125492013324522179686818254220203765972267578674),
      (False, 111624221585991274008422312170441876052871150031088211509488434310381886, 146019849564261699191706059853432986169298280163621031644244892889176570),
      (True, 207900613319872426606475264472970133893754877964634366009259160158458046, 172057367023571013934227413117818043257893332193193444805833806711732734),
      (False, 144327313183749924489506229381996713111350311342121565188084954531856688, 103464671960801966877789300388899656906779887959168476480014213183147508),
      (True, 104379724791413566841777093331102620097729740477383010679737145809945524, 127097262255933742645649392942326942684700397186614334391958644090402724),
      (False, 78754317639111227342053486066399446936900428021575323320823924167040884, 124690476375427743259633958887549361807168471354941307788298287083504212),
      (False, 75799885535124424045420093347279597893326309505310389541286106307475521, 71076495301526873292128159123621898493884307637570496049189948011485653),
      (True, 49258818110096070977462658890199177229600833688505931526453259503023646, 155743487675791264147329210736316130231885734048064175071562520510438152),
      (True, 236511231287799340098579070240045940748551262383082944186438584429691303, 136415974148315898477791702826579624221965956328937525565821359806585795),
      (False, 90726141023892124006248396022384359077223416033276358937311475554222158, 68766252162810362956133866930785770605684276923975440802545362992635407),
      (False, 23054339929798964008936544335427288921090030652313062076049562323145670, 29802124814582350678347773424395634689961758675113185066693683662022079),
      (False, 4330085182882864129107812721215946471080565545450612648136381973913329, 44414800737122589129218507980853884924285427755412408178121074975024182),
      (False, 9617394204260010669585748843555907329060781227776518491127240587780409, 134880927730715781557934611012097790543814859449633703224666467000864385),
      (False, 88695803092797083722107431850757947250694434801760212012407905283611567, 187923924929797142178484826922150576821499032368174968059279635664437868),
      (False, 172173429561069643986027124340142140543603547855286480439825403626049053, 43069383857855440839555435697207239925234673024608746545638249079145761),
      (True, 18087114793341076070547714059696934968051991556307293917314388216923756, 66841750084469210463136290101552415776008453565556050173634456778692766),
      (True, 43563985192359217275353203814764793453716090546817352911287745913948819, 42341424960988090750200518983421998373170110497027593679744380740306663),
      (False, 8740432453684526264527639765747818517310964293652792079379048748864398, 149712363288818247100566718492709671979531744113582238621197756197497911),
      (True, 218548237855612772902868080697131544140195713571839714241657654502041385, 32094789152344899964389482339890440622941081676103300299723405336529007),
      (True, 10043868799846194938643014064084890967850693187753323523807851818099393, 168515063782667393471827922376167073613293588925392538266733475815916295),
      (False, 138445689866764853648462555733630340126582093199434964046316365937239819, 199038063431362893114163122511412804406129638131069252057124819377411176)]"])
    (simp_all only: numeral_rules)

lemma p237_one_9: "pow_is 2 12519243287442362420478192174922632002490488568208990672615814450402 205115282021455665897114700593932402728804164701536103180137503955397371 119460914351043948207610302335600051718360017386655283245334781371781272"
  by (rule pow_is_step [OF p237_one_8, where ss =
     "[
      (True, 386281805081332476252377435826260038415648376216697826011509556720186924, 143296930535507859570265710649457492717010453941304950340734225721229148),
      (False, 100109607136684464775925118939987704469519002445083793228479529694008482, 136890358161406176499284344348325481858039754969095102097279499770305082),
      (False, 91358235100190686063014293446976694142859349784574640025827718159036337, 162680468821359900679197188732318367484840074913699066840078968091756697),
      (True, 258049372773396183994615495135992132147832646016958143418297214035549182, 132336162947111151909221427217089599249981941760581300842872831864699096),
      (False, 85380571603301881430390360922406126017161634657344391123377445974357186, 132216370352839603656522951715847358008377830422932099724284131703859210),
      (False, 85226066127294509920287332592927244678937083795890210891967204724460630, 150210707752614166837696652616768143533540145354676790695835452206820370),
      (True, 220005613440163647051026277151456987865629675653139184104594931188134915, 127203892430451866876194381536939644011328118619950912560291041709565335),
      (True, 157773034656339326255995561835008847278958728674179241126229549197541477, 131468735790553636582329646763633657083783182759842146974062651478067483),
      (True, 168529895188974151275642763332117039807514483345756041363530842747895663, 98518359889740547967188577895777783848704160797322899172503347391408605),
      (True, 94638167763133092933506675603391276509875493933962132920228019135851662, 84103351403714850084937152244355304139456782742205451560794776415311448),
      (False, 34484869423804554978670977670715237069049026301745788200260240375786302, 114882145342855177501219592576846991024918818117118765800536703851244662),
      (False, 64343851850084779939080803908021460068298029431426984499987786299581010, 82014276787156045723101564768086348267571121853126016401928701227969534),
      (True, 65585962495146000366784070509132427760932545392890701770176343805930465, 7924809322941105077021976844081475778331551275271722141414557394546797),
      (True, 612363956366790047676658953888087181485455127453643855136207193137694, 14747876921717839324799721492190399966968249421892494233856941957315944),
      (False, 1060378688289966231787376606039776928966111103892123600187243243275674, 104585078447170589799377659735153997307018935243694439627823310268758082),
      (False, 53326297904300836032025559148331037938366297854997379515676997954246621, 40341040383646798293851223217405633942407498791794158649426783651285333),
      (True, 15868145202996537409943304205388726741460526832216079743148413429531134, 164915413462000969719697027737376932313306223981576632956526584775593064),
      (True, 265188369479928210724080333030888043982751852649266774232507080247233317, 101205380327696178996270009196590078943910011234752750941262513764406585),
      (True, 99870949705270949848231354764864175920787109754964636402392701479001083, 202490836746671936179831269004339450420127211036346295643486078978371657),
      (False, 199899971188291853907040897795312075346595488757404441897746630282134626, 28004136698448713270106011493469411866927877644961019302654303272457403),
      (False, 3823370274982090527470969883027695366607179618545663336883543318172848, 58805724149076027595408081189839790169054912078314973898077754946721801),
      (False, 16859363956779654328793710226235505631066536716999918476769161078650561, 141211194703846612424639956988901453858185698131060577569604623281608470),
      (True, 194433114033910272907444793370833784827657390425787338242475994207739969, 7035660985952227673020148727294419258654838007140090024790499517260301),
      (False, 241330265699424438058244544096556456225276986602614985495146403577699, 119460914351043948207610302335600051718360017386655283245334781371781272)]"])
    (simp_all only: numeral_rules)

lemma p237_one: "pow_is 2 205115282021455665897114700593932402728804164701536103180137503955397370 205115282021455665897114700593932402728804164701536103180137503955397371 1"
  by (rule pow_is_step [OF p237_one_9, where ss =
     "[
      (True, 139150139540501701726665918641912172267597825222537538283947804226697123, 93996917103253095826355365277868373486390352966762015726615368092412335),
      (False, 43075388327192623449141277252422243866107034652047997755317071445931485, 22945956809376718219066221842777258580308375302292436068224535245026290),
      (True, 5133863539652852896789724618277322032484800181747303430843358093547645, 100580630895352943240133287142063693797879734857968456094958938486086905),
      (False, 49320865864343618184474531978707230410068789628959570964236279239943384, 96109091137303091448672153614518398371428133966935829521500319950035561),
      (True, 90066008814225929233233211279367459941990661707144425296748222966372939, 52989806335633301203873736324460138578882332014653654027285126003026073),
      (False, 13689470369127379041250255800738036909224351142994186873124165225813994, 76056312948526356418439373059474473060064307661214009531260259915191555),
      (True, 56403040108138754045633822463519488384861988432947422893881710351163606, 133256360839978521876362531204410046223562975305554672667001130723356224),
      (True, 173144170724998438418240546904620693573232123600994446571569134597632223, 149555650582683300506906785740677438738735075137373126345738795919990619),
      (True, 218090942817902925831606640870285054589739372513438224677142009554932283, 199814706035835290040686497276554057682332703849440228274073365834778329),
      (True, 389302214390938484696656796753921498573680469353251041931579193908380525, 12001724032496821371077333220882234846773823029440444740443013683464707),
      (True, 1404491935780237068219427452164570341266390150040047000103801884203253, 182529942642050241424633963418672560987844867324556901468046882083343835),
      (False, 162431485516642662366133555844879409721588314803083117728527499662631308, 64135919227567770620552615150165489619042107869559103106665872227015957),
      (True, 40108334148742966409057146960428441437741064287525708068927572739976168, 205115282021455665897114700593932402728804164701536103180137503955397370),
      (False, 205115282021455665897114700593932402728804164701536103180137503955397369, 1)]"])
    (simp_all only: numeral_rules)

lemma p237_pow0_0: "pow_is 2 158 205115282021455665897114700593932402728804164701536103180137503955397371 365375409332725729550921208179070754913983135744"
  by (simp add: pow_is_def)

lemma p237_pow0_1: "pow_is 2 2656075103 205115282021455665897114700593932402728804164701536103180137503955397371 141972790709600932738391354373154721927385227989410650173923182356617679"
  by (rule pow_is_step [OF p237_pow0_0, where ss =
     "[
      (False, 650849553623666468585472, 4951761284698752605092839424),
      (True, 0, 49039879641282881700947964347816300871484036397297303552),
      (False, 11724673907914626136410960774024984892889, 21232636615502246665131014017871866231719166857731800996582542164621885),
      (True, 4395819299303199504890405264355360449696744728517192077812720581047649, 155176046595935301889932203437964584166074771093049934254356446761575671),
      (False, 117395472437909750473244446506820296382659955103356122103053670776397325, 140048787300999303078802315243255147730056410831504478058199026502667666),
      (False, 95622630508968592824108359790230654919223468107801429351277242615631981, 24446657816549434046178721266498754437492239764807219467074013290965605),
      (False, 2913674069087366804466864258947782257974030311788440168679713759622250, 136020715333144577465299046377799824233964487755281865224089339689911275),
      (False, 90201153309508291792943080569038534480376680380301804129349669207961444, 144386211246652681031254034617800280820778354820967682499331669505161901),
      (False, 101637370910190473677705100837340023288221101566725510470953431204590597, 142580549110767473298919306135545511110795299929296592221119573716813314),
      (True, 198222314635742054975565683987538643686021763364242553108535285005201203, 33155095451390880604188961224381039568090455405129342001501282583087879),
      (True, 10718463720083561327532708068591588260431916173677927521625919297079718, 173455093803241437509847416037620825051957599085366679494274176718815904),
      (True, 293363510215139712543260762461709097273287859657060304110348393663443741, 16008615389957271979138676143491594166878717838615321529727091728869521),
      (True, 2498846153030856229439325376344436893194464631983849583815876507894732, 19434025577002359758848414170862359619521444070942206001037717587989310),
      (True, 3682625169665079509037377618497481133811422828179257739896879725285117, 89171473687194339462178024036571051364010842242144166062600483341324793),
      (False, 38766256912608961969231982650068095531692571954042310384269627912533698, 200302157630662256458145096962282675120663158420883739895993645298384891),
      (True, 391203950832896979158200470976549015162917407123602404898829370163452648, 188044703123525176862989782892024869684552535414048803476931422171975354),
      (False, 172394811465660924915881892556471541412744231174607337278478973174599781, 23784799270435274725634948657648366093598009587146571870443300638849565),
      (True, 5516085108429149001974410170611910171170425204287297434515002121672271, 101748825608740602472546387439656386814286743916107419295531110564378909),
      (False, 50473194443283711237943250514676402951370918689456937556043125321185053, 47035510488939274600106357285892912211159070497569318650415143683334618),
      (True, 21571666675949569493629080052831182099881207242863135802208336241901414, 142937973505687213866909180062273490958133624319031740937248023337629254),
      (True, 199217377355387583020832434435510198997204287131547247070087692470649021, 164346359993671506610830492931331533537887538015825288943597261986069241),
      (True, 263361420728701949840867171430840693813750617848999943952767414851855100, 9864856564614215399217700804073699666047365904803886844716683079690062),
      (True, 948884881529526417493184165905475368189369544464797074377500235446951, 198308984115982899730920101096288568687104929072554771346917144967761867),
      (True, 383457076367420488632976890625272166532663861613400526965389001283218169, 141972790709600932738391354373154721927385227989410650173923182356617679)]"])
    (simp_all only: numeral_rules)

lemma p237_pow0_2: "pow_is 2 44561545730781197 205115282021455665897114700593932402728804164701536103180137503955397371 40921988423588573970653006652860236427686851864676881227548117295879847"
  by (rule pow_is_step [OF p237_pow0_1, where ss =
     "[
      (True, 196536046492759550147343774787841790210823944802575814738644304406491521, 100016887223788367237888989419241088653720333470308211093192872453502791),
      (True, 97539077842962649588620010686335580923076964480934074329151024774162446, 72992668874331325553680005404868820870637766820251104954549563254249896),
      (True, 51950587561198486183966436085536338684316970643981634969808893831884698, 195522113822673334793457995989035603697977635236542395786637960787692674),
      (False, 186377614661044959590429251918280356737506112515689179260562375002120159, 169862119708712225480171548152401540589774284806127037778305132338568287),
      (True, 281335836389984422609467655095310190662384447876401139237154062843427817, 103390678299353298084209940330048163207813649159535810369751833934159631),
      (True, 104230482037727425800376818109136617786067121307895812596541759886444621, 121436458775309475278827763329019519802434841099426821590779111939620931),
      (False, 71895245320360270871084316710183054516421858437349435699200100953843376, 15477853912167181871296947341551619673978894103021545209265494197142265),
      (False, 1167947894303311038033506192367460776766769073910142756734174353106788, 127806220477236857311862397931021163819642328832652049180388677711875877),
      (True, 159270726507520273751265046229548044102536471286211918598183118952929167, 81554353472597656368142336868976591302288517349446948671054644608018301),
      (True, 64852433273476671930505703973692136751305034364892460730664396119517616, 6478892257892341895226349580363982313695660454108138784889304587265666),
      (True, 409292223140999405826362333720028682953975290398985414134755829759621, 9178289320426472649129352127641282327683213335806377912462152459490721),
      (True, 821401448192853651946010926452438868662226386396655351245223148397375, 23939478664074141236455801840262144226556842201192550496487993431898557),
      (False, 2794031888115061145445207134997610334787210657251658925577531183046643, 53908742427900976513017775283353657945988569749777299524082854046106696),
      (False, 14168386097403404166973298546255055632106056876304816542355728298479629, 159788660805801806064845273048501447526952561584316662630922467572381057),
      (False, 124478370750750867740972434270815795417859472776557217121828297885321138, 150053264841991082888220622707227027619197203223047607755156223676509051),
      (False, 109772329335195408689875633345114883187182379914224375099831438603755058, 171238567791998350548786087178400131660218018934813647457697574943768083),
      (False, 142956910916016385057254469032568287251274672368448733000993490793170805, 174644606970065121637197842293241570909151008931025288149051471638541234),
      (False, 148700469526878310673382872136954839445936568843008737501854591485488176, 12990718520917402298861134903380838610648630204865632761266419516257460),
      (False, 822750825908982021299491315251292090635409418716660458006543287898860, 14333415976395162890017383865963568178135515154766738863990398047754540),
      (False, 1001616318041528254637574716468661262001029268592602508199043278368942, 8510920129123218943312138700315859307484966923249659026593601735760118),
      (True, 706293170654518025266838844237654272110847845200016587137671882088756, 146298566257022008657501590217930387584963861172821124060481087007687372),
      (True, 208695035083942825737875488829390082698262927863961272565440884200624304, 36786150301585991308997216576611895570796134025750841074186838776227984),
      (False, 6597367298402096684253786905067611347820349711444335853513304350292170, 20785718855401069762866754168426664340457378475637301088635554844819186),
      (True, 4212714957928705237681828534654956680477622216725368166813843347178195, 40921988423588573970653006652860236427686851864676881227548117295879847)]"])
    (simp_all only: numeral_rules)

lemma p237_pow0_3: "pow_is 2 747618678019194003785712 205115282021455665897114700593932402728804164701536103180137503955397371 20415445257630754023603829538957396360006712467992065784347419701850872"
  by (rule pow_is_step [OF p237_pow0_2, where ss =
     "[
      (True, 16328467777112269837962315984711193465642431374526335195116726037491386, 155207106828958726370728559450950987181566275720550981595086488101940612),
      (True, 234884946385379515965199458932230976399732870023851336009778318497762158, 84192399632527650163505988562864006483363086423868003123812291613382470),
      (False, 34557932914729281553845980167690399242128718454687766987340050642545369, 149849510320957919257635600283508214801706890113608129113347281212476001),
      (False, 109474416153361149699700529062385012733143596403177956259448791293513097, 136847346840832502219299197384536919898564869896031423525025719773084014),
      (False, 91300834110528094306967936454361379074326425761670375711922199230068091, 82890903298629439012434013810022034037485195941073702259508973409963435),
      (True, 66995513761320037904279532229519846800659925016201345871831206951073223, 11767133590721423574511112334336070580934605959609917635554604191301717),
      (True, 1350123029130521527269754024716933691896148519104320248328532812983570, 143371876525958175987585638654189277721520366741427052369375518410101708),
      (False, 100214351539269664995834108957453169901146387594363396436413107169434207, 102075263865239240524976884507030740644894861296312569587169084979247467),
      (False, 50797577783932842021681891204699923834003320973178290479864492567583248, 146939282475572003886692913055227612464187315984166265699678238663075081),
      (False, 105263501196256275503475429090422592679638423570838494067807091168278438, 139090439018106148646374541340734214301184843223171847843852266781970063),
      (False, 94318424427419507072699922948230059420390719378223354793132453588597477, 175197574286734225163361479381155253362196299861817433032697219325191002),
      (False, 149643603994094668061156220705810356165004362863011031171873467856844093, 61149679372782828482585403195300783610023865769196180215794433972684501),
      (False, 18230154528432462828374370873579076164805992689983678126085180123467852, 101007181561157696789471704670037712454851501397224176536404807281801909),
      (True, 99480161852216051412166491243010077766824491518672231764018543974172799, 186013707542539490497652672700274136801662935486750537785777402767777133),
      (True, 337381974202215079010763778796522788255152042959035697444536108523523887, 175557786025943418333220179497723785850969415407410389550977741619898301),
      (True, 300519161035568425476428106246288454471783561918687020082663850039367036, 61290896076509961874872653612529200476762566009163198337519350466910846),
      (True, 36628903559400274035683797100178565619896126816776383054833034598202274, 161787731363137754703421029870113071285384933892585395409135560319049778),
      (True, 255224961901110977426773387289859991037570229846108450405166122578040880, 187585734737058770844587478264631031917997653869064433478761602601172088),
      (True, 343108592690439963782878647430865427158613153308126574817021937429523069, 122235386856995804117437011603101067874737120228015476237026117874107889),
      (True, 145688703960307535634662348127375811974744560896991648451429570146146028, 123700275714060167871491906220497283231726175413710623536501170290780254),
      (False, 74600771141634851727426710518673540448038778168913475352548675233648843, 194883956491117309099157338078743871265084818690728701427727571776912763),
      (False, 185162978220505819545027703772695346303396433907209018682175696002576422, 84881806791433755359562492416617763950125988881600576850659798506907607),
      (False, 35126203436293125686109964978775765193088199686441859840962041493731719, 150800010111988703107639714952972427257779675832156021841060239722555700),
      (False, 110867619543809302837997576739112689610344365405667677697867771331504968, 20415445257630754023603829538957396360006712467992065784347419701850872)]"])
    (simp_all only: numeral_rules)

lemma p237_pow0_4: "pow_is 2 12542960046762469947417710023887 205115282021455665897114700593932402728804164701536103180137503955397371 7355721028755068870605720488674661974564222575151175937614485888356747"
  by (rule pow_is_step [OF p237_pow0_3, where ss =
     "[
      (False, 2031981239816741367606719232694158118306669437930110343344838915788845, 53298581630492405249619864952988673971263432065442730184676194623033889),
      (False, 13849474187521107123875271839873757088229311049150819289622625800713525, 113146088858130477145056778964037381168569990914060101811301612133321546),
      (False, 62413864524013509031891969267762665873792098392571845302022669399248365, 157610725309189518432044065311674151110469800898230941511662306330781701),
      (True, 242216381809038846155767768579494232138287914010125670461290720083285015, 146576779389440360776651805035563363167489083386110977010198142058211237),
      (True, 209489532368761288438951571497311236254255724678693339721285048544967150, 182987113480194546528841192436128749485172498809606886110968271834777688),
      (True, 326492335137769417839457258137378272487902257701768651502143150107346822, 152852086420838614582679418377955458272223425564263431272374381241245726),
      (True, 227811015278321367376061221693433688726224343037448983011875068841721311, 50000377117519586448860738736663036558204811884225652531730435982460771),
      (True, 24376903439429392887106265208162752625740066394752492742534500287962411, 148294701608846487238993092266759259712767482149221688340202109691607401),
      (True, 214428864670906967245564242347658477955374548232046493471564163932648221, 73931190222307607511667962640397706975344622881458761450079135824722611),
      (True, 53295111254706910991512574059882963671376435249781884836734979089803062, 146989016848145224375976685349006810973664010397055007259048705846764640),
      (False, 105334770091505385723359442491527028145075929090883283929618815318848323, 120399373685066406432469314080924504769562784492923432651873072012370767),
      (True, 141344994296816319888343461935865915397131440973190083498096691161595722, 167129828348757228784187346211092973013879151205024972453301312788689716),
      (False, 136178929471297247513641937295432640755592857448751859772350404745068101, 22412874075594568726766106161362466844020021600294857206130460212798185),
      (True, 4898093592811023839746483631698180312330648295201685319544569072250540, 67981247980231595353245412134438317058145210282624096060468840109258110),
      (False, 22530988580686664776938064188486157980143306668274606837718656335479614, 197159603217462807534140101314085856463586891273888444482588575361077306),
      (False, 189512496376555959604704004135906322947510808525274985217452263808184596, 46918586508776263133431909474253900356382052341747130018292921607120520),
      (True, 21464551429680932793384552181551396316380648453435039240343561204647735, 71088854756869852213598486876034955511522467171563218087342587610036115),
      (True, 49275950780836634556775569215096717156061515233542807236960248678260449, 135122264872449771700927932146110548187092205395503218249171038380706871),
      (False, 89013486875885873210789914836854876982689353226665142531485462468499106, 15784475520884970337841017745229573194521328114120393906846383438360315),
      (False, 1214681154002728390837959366536734856723864069936793590504068776490050, 58369757155342405048237654805744971661925956113491640823934125389240675),
      (True, 33220621270113463487528977390021638905258108194834886639715664811654082, 121985304559077772094914238618871529749573607569547802205345340044692828),
      (True, 145093182543214160567046162073740382303436842715512017113952504841415407, 82375144994321314831567175588444754168654030783153145901819204982580171),
      (True, 66164397366800386619864222720164547532554992791637811586785388090161712, 204669551207916187767247822185380910306775469826032980852102774275119330),
      (True, 408449578001389948062768849297795154416046951736455757952957499093127143, 7355721028755068870605720488674661974564222575151175937614485888356747)]"])
    (simp_all only: numeral_rules)

lemma p237_pow0: "pow_is 2 802749442992798076634733441528810 205115282021455665897114700593932402728804164701536103180137503955397371 53072002638256206696760401718638995221936714922431175139555783581918754"
  by (rule pow_is_step [OF p237_pow0_4, where ss =
     "[
      (True, 527572897734746207819765079685641179040928707135630901185794968058090, 136496869035973741228849737721381202687302090236027478530499601719562628),
      (False, 90833774417036698285292508667431789064418589113208443052031416617243045, 77084396661336988973745029862211554074291813397348408098856878153231689),
      (True, 57938191148729619242909931099335874734618350630046369586156314959950375, 30776506228657292447005524579482315424166835227446509723589485462121317),
      (False, 4617858437010567990626494472177231882011363744197370384498755238653270, 141401333682250705310836512214927409754104054193832833716292979887261319),
      (True, 194957069703151040026703554485455373584779052456050373417724007555688885, 203633363305551962595728231328113081176794024029480119115339048564318187),
      (False, 202162151169181986889064343107211261706237136631525002461779801123942165, 53072002638256206696760401718638995221936714922431175139555783581918754)]"])
    (simp_all only: numeral_rules)

lemma p237_entry0:
  "entry_ok 2 205115282021455665897114700593932402728804164701536103180137503955397370 205115282021455665897114700593932402728804164701536103180137503955397371
     (255515944373312847190720520512484175977, 802749442992798076634733441528810, 53072002638256206696760401718638995221936714922431175139555783581918754,
      81475874003799270243122483189086420723726815346591292526890606927317739, 21081256147611433302736580915228063873871010806801427666805511047392446)"
  using prime_p128 p237_pow0 by (simp only: entry_ok_def prod.case of_nat_numeral numeral_rules)

theorem prime_p237: "is_prime 205115282021455665897114700593932402728804164701536103180137503955397371"
  by (rule certificate_sound [where N = 205115282021455665897114700593932402728804164701536103180137503955397370 and a = 2, where es =
     "[(255515944373312847190720520512484175977, 802749442992798076634733441528810, 53072002638256206696760401718638995221936714922431175139555783581918754,
        81475874003799270243122483189086420723726815346591292526890606927317739, 21081256147611433302736580915228063873871010806801427666805511047392446)]"])
    (simp_all add: p237_one p237_entry0)

subsection \<open>115792089237316195423570985008687907853269984665640564039457584007908834671663\<close>

lemma secp_one_0: "pow_is 2 255 115792089237316195423570985008687907853269984665640564039457584007908834671663 57896044618658097711785492504343953926634992332820282019728792003956564819968"
  by (simp add: pow_is_def)

lemma secp_one_1: "pow_is 2 4294967295 115792089237316195423570985008687907853269984665640564039457584007908834671663 38667115647482625339401615010752795509557025790990286015371812895560879695655"
  by (rule pow_is_step [OF secp_one_0, where ss =
     "[
      (True, 57896044618658097711785492504343953926634992332820282019728792003958712304104, 57896044618658097711785492504343953926634992332820282019738015380187455637096),
      (True, 57896044618658097711785492504343953926634992332820282019747238756420493938360, 57896044618658097711785492504343953926805133671092633628197527524442141933752),
      (True, 57896044618658097711785492504343953926975275009364985236666263044929866531673, 105359555458721856475262302368101809488536182415204247719469472368512809),
      (True, 191733925859282211156339137648074101236655683645100040048981223458, 14192875246793204655866555297332694801249525465596197975346700605669330670308),
      (True, 3479299995325037294270714017582149554998020012666969101372256378455157049226, 10984627747184558000025424723817897846365718177681944795484185205501547346890),
      (True, 2084115547771483966489872826676558115167201331547285681092539866741003263156, 11474189510625531589109000832482938520541979539349672240367111523201140195772),
      (True, 2274024517442077631168907306112328304783790453564140698256195846062859907478, 16219891783939213402936875847060839920439346080779767229026800116862284956054),
      (True, 4544090899741961069734631912806891468177832971808686646708126754797449936242, 2936500183567408222125474156845761782659474244297202704644095361919068391386),
      (True, 148939938555189075192646683418811891030559801033264870989773302449230566975, 35113510346855126291614018787743776847108965828698901908641232584991901872567),
      (True, 21296076735462472869592917548577711775016209293050382675873384161851707045766, 90764237334856959420643447198603330461370952113232043431143854719035890010120),
      (True, 142292048329728953930858444767088038140758114176067495323462857728669259147462, 5365554218375953423104887808746695318601770117759816719581291333741335059494),
      (True, 497256285122008699688603163980846950527955688924451119774507495389960761076, 6205447435476457832225420660730103479986770943977854814568416906984988482684),
      (True, 665115866344547317608107933788058695626054696652395261219089119228545989878, 106729537515225720650080665321617612417263397666430663279731909142589684260598),
      (True, 196752545933732859348603738527453062496992783911947706771110197560933931307464, 54179613106503443641060734644753109348779229400830325653622378355179209442576),
      (True, 50701744751391904636149688403521414081706576210556676199794508760536183089896, 39497717333896094958425689359016034932160267031008236703371474927917310214504),
      (True, 26946049334872766458315236271673117257321082140843187871262369646879500093671, 39325680090163318830076859118401642675432382020254173270907784244687954587159),
      (True, 26711826770554128360666826838312546833764966758945259846477460517656202153631, 57020794129578328689505699586973078709995129483820849744799641142436887124209),
      (True, 56158775346112996347003397101467042914784980956959687199575248255747906984734, 113359719161462094399048999703363144954864043713390271937829099203031144358720),
      (True, 221956888644241907510158087289661879466772039941502877244787509056733033273094, 48213043825667695637086179541530149627419340281442199720449400943720377941478),
      (True, 40149506071553642911344371761258863082503552330018288745805307615655602963150, 106421958509881744684026664146172185051034320244390834418013152601441447430518),
      (True, 195620155533545576947759960245741290009271600163754604040199874144588177750942, 118569007060738343872102407488189151582953374421818217057677871034516540102),
      (True, 242825041468182886756081794299992206332385683934550653280421674053459090, 37690000064276203803533482588122517012430797629656948289243376520856395574138),
      (True, 24535978480079890689219684588565833447760419045219422541882926633616702594032, 86140654572714412663201501951321854168218845249956716102249871382516205570872),
      (True, 128164409487559369067463830956488936613096414482255414012066305463137516028151, 38667115647482625339401615010752795509557025790990286015371812895560879695655)]"])
    (simp_all only: numeral_rules)

lemma secp_one_2: "pow_is 2 72057594037927935 115792089237316195423570985008687907853269984665640564039457584007908834671663 103184010961405014870778747902041174756435828880346953719900329035300183321448"
  by (rule pow_is_step [OF secp_one_1, where ss =
     "[
      (True, 25824662847761392760973070190966405615698725256986303512456496951328548354406, 70047817190496737705816974401571854545995131530366350813794630739094882360872),
      (True, 84750119381591989992523820284898543558504324779696446786584934391331794715968, 27171590469705212633653731686518463216307356037525511918640774685993249985984),
      (True, 12752085803378793769331030224321062285934803628788097516334739266735266631209, 18488770408848744991122617588544197208527043955561921644634228293840769165945),
      (True, 5904282986561024932868112453227566460360145860897858113871721540254209635955, 107291717588576441673155017043711969667189626212284947610310484615968711042885),
      (True, 198830727365389659673913456748259600917520049365398782482683008734023370809986, 89484739696608773423361677728902444490028756620315805633072025350563946619732),
      (True, 138308561341498886837200824436282385237182954885466183386360722878059675245959, 37399006631224488962809762168163440647409534591589910803801288219741490943831),
      (True, 24158570869824504776483251549382325930724574239082722107361951882728120691086, 85860731789809630428511152689831319368047879515250191220744436940592933017104),
      (True, 127332796429168121529541662017575196282796946953054019337145779902860145193348, 71689873567994380063954843069433463635261238923270083406685135743167481395908),
      (True, 88770105212657964006606315905208912732643255683824257585441497971144477728862, 45795467676032447998213072786358040179427300507671404931613419446672769651422),
      (True, 36223974772028939653623036063696542748051540306512803526969606480874675285250, 103983998630623326679387491720811624664340449042111049852208017925034156373418),
      (True, 186760115348689734103375150905923378610233612453977459872588628667027833758838, 88223576997874106577439293519758227071602870294404011195449034128458859597854),
      (True, 134437500688803067764433190330534774753192375509720011515706683447275239395549, 109936655672371528154765470630755462454137063798045192998671953446971204182645),
      (True, 208754645330824799158357252308625651050843864832895137405135336645848301024380, 85498128109790821983054621086577951335225656197095043611642243195501180248110),
      (True, 126259573662177952168455493342563169818509065491242370508967275686730416648315, 32983234356472443228405586724668199074091771232787847648871169219650349946355),
      (True, 18790467566127820868130386956063323499902468348958712025700356095000191851830, 62282106250095073981563163228356030954655545992323490456217212037976759878760),
      (True, 67000445099457295684477041152565599827289373009351759523406212589893342181442, 27269766629439958184047212264844381427940266507323045095006346235951556397154),
      (True, 12844403739879407886594601300259240228275888964288993652428073543502687126210, 78603236231567334396297786584000265248138748355204178077921489912119567012202),
      (True, 106716595006983448872780477438543486398358722224770443081346262370622979302462, 95853848986113250302836930277916122416922246778610571319073829359929896243302),
      (True, 158697548787151684126552424123218415355629814273678286203300808757111173249117, 5247981692737438460383871274654829836691198246312062442738532217387160054837),
      (True, 475702822683530960857467179478342500129740588949651398002096674658877831623, 71872826191219465047041747672840332867306983014423453532521530646659090794089),
      (True, 89223766126649988248740889321218088129395693645578555170834979703004356056275, 8488165368191303916684019185788215233131832955217783371092770693302018844517),
      (True, 1244453775595976963198045151804057241531443128680142010678599706026558562412, 76915835986883681499378908945398175795747402824606174306137907699216328595422),
      (True, 102183937858418619803252862046695077560910018383778350190036032473524614968470, 63014322318797279432418696247246671660684598090078417962165493798583171250558),
      (True, 68585079403120499639703096322306079167607040959015593794597224683597450590560, 103184010961405014870778747902041174756435828880346953719900329035300183321448)]"])
    (simp_all only: numeral_rules)

lemma secp_one_3: "pow_is 2 1208925819614629174706175 115792089237316195423570985008687907853269984665640564039457584007908834671663 26526060942607810645553652460289269746240658556566167549466962781744767281290"
  by (rule pow_is_step [OF secp_one_2, where ss =
     "[
      (True, 183897538911529925332490997348189103040489349427863033536783475473661866194769, 94215297143826143548236325260400040232997621455763177396973596881383270502561),
      (True, 153318284079096262767117149535729349143325755010881205431493516097823950304206, 19473658928834615498664299343108505940848860353098279127875708288034037202864),
      (True, 6550074268016026410664747481931215912311104507145116043811659645940009802875, 87604461500339336353061369312959390280396211577753812834867349369708201173867),
      (True, 132557270972724974250451922775206596642381716408724561299207418273230950873833, 25830819152938627140175615256067399098876613904691807188091516604896034173099),
      (True, 11524642529669343050612860413370625791272406524867007132696275191352991493623, 83852983396450373740682102879396205272052001099207836591313213705726227222553),
      (True, 121447378155077022445803394325305341946087946171826361614882873455618796623038, 38481045301241347697312702329873783648530442556016569528466928358175272103424),
      (True, 25576718707291031193532252605647539587554132391112938316708037540729262652696, 100906569121516093790298395039286640660688972061074934087496166234289143294104),
      (True, 175869280171756655827617273201926200768572169150699893581391528547162971641895, 18507222965232774561062459167856143197961899988306088005718110816602142204247),
      (True, 5916074304227282569678759223208418775558584515171320223862861417555565191813, 86599818777429346389182405016485125520960132463102067934258840628112258978999),
      (True, 129534386358869482717662803928220253405694890037060532991816022221049357500319, 67888816665126080763681340932738772376756971032625979197587412867271063323505),
      (True, 79606326451976618321674319009135867066633774184807762979413611715539276500480, 102936011278712025255156579421597946390446917453711238625748469384840109071810),
      (True, 183014616762894104002875019076431443365498510490067187614237325010248734799638, 32999376878475827962991267405558400507577509630440502263811174178755652094206),
      (True, 18808864777210487408373877212176070976198505582173311742385344060148081598170, 65315356139519584004939146576708200650362931689856978328581096005662745884162),
      (True, 73685443897448020202054586757812595259213170222326090841417852174828569000432, 80470245476961036599402733078406890788366664601584869050735833343585419726072),
      (True, 111846335095498532896161362326731801636288209387718495049216237755255810950222, 105453246231374430235482897981624307110955163941958184379129189060619626139182),
      (True, 192075075490582476622188733509823976226063879773001039563071518872058683367804, 57052499374468419111206818762549834042422696075489517755109386320955065920196),
      (True, 56221244582652160646440740600480224305071410340600847917458621856627145633285, 104590605505940020713015940995377744325850798270204544792608063485207302253877),
      (True, 188945459610444754433865839241467342055439900035654591636241694063227138609488, 63843351778231250225336416254243117328058484298382414815301835543951466523714),
      (True, 70401589488989436154041985798236487442442284122706798766057696261136297083482, 46315872930536283393512527369511249950004020295409823972631018772819477937026),
      (True, 37051928148926863927839823605257279434988633487141815176561285873873698501752, 33356023892671496567317375372386929008888981676604675195388098797543693195776),
      (True, 19217622503522588834871586781448628123761476362659251167024142778125132720979, 27159940220988565008600248079610871590753356035010198137437470101992471566275),
      (True, 12741152831189208856423149863980541849665841165796506291273384296383650742969, 110547512581814951599735853482909535083415607021875000799871796778206313963803),
      (True, 211080957576990775885272352658574478155318605765835294418680065004502664006209, 98168465768897443238269538262830904508235220342752789575124652101446480090051),
      (True, 166454336127713080652026463415213660530702978960103428951903101188191854828024, 26526060942607810645553652460289269746240658556566167549466962781744767281290)]"])
    (simp_all only: numeral_rules)

lemma secp_one_4: "pow_is 2 20282409603651670423947251286015 115792089237316195423570985008687907853269984665640564039457584007908834671663 25892954071666888211124019226126715444310858301228644315133800702002692872118"
  by (rule pow_is_step [OF secp_one_3, where ss =
     "[
      (True, 12153367535995453008906063951932759233438343563640607879992319867096240772401, 30105691683799255473579090227820563485226205814213631140198906106539620955337),
      (True, 15654828887358745802387019242100327616404330500643627541806396358199592452324, 94478061947184613920840892081784785053501083314998424215773975269337576272326),
      (True, 154174680638190732388604613172569281764982124280357018675329282664810127966102, 12276040623815526379958888818299347522547349034142299342304237027710262932926),
      (True, 2602961469823843348094386638171654308514711139503270756353742483275859451922, 59150937541312102430289357473404289978827520447066221977210866689621145556666),
      (True, 60433030184736316981417506259577036464530995756218447044124099499465784536426, 18162502689818647676741873541285292399123523131005190971553328580403660574674),
      (True, 5697738181087428833836185000368508187615461801560534467614055037490335032865, 52274018049392903290021180921228371463934169500585717639894065587559271208057),
      (True, 47197921395611741057640694065364932339968211254070422620806130177405877547835, 106441836972264382497732817699774053168603567634112080597311769041066561930893),
      (True, 195693241786310998168653286892998000396024347509215362965221429023446372663754, 37647390488267722513083895377021935321674142520441061821974704911203724551996),
      (True, 24480532649709731913434181017309309403346979186940485549653590326630270989681, 102600461120716250761935160263412052189652326755657169828888703725496119058529),
      (True, 181823381744305353606698492480426188444726091509338768516769915985515442463039, 27883249187326795313366734451354821830061047633233842824772290586185077123825),
      (True, 13428820403250900978522626779740519571064038623514684197068628586685647608796, 91843502385390148266204575286420883191239034138897782999533925820035034513502),
      (True, 145696117687748800971019418166023143006342426411968260939019801088197579961686, 113285989565465018504702791620816378934182136260866892021076476080559710704190),
      (True, 221668259314743256403252055930279519495373361739129036666813405663482429507402, 92119060127444996111948628966152454540403968908121145520593435226491868962674),
      (True, 146571692326440510343714656023028411068154350815914286087576800139090062748430, 47575126951404980405245403485207967635799176786260937727070901614547191721462),
      (True, 39094081803869540105620028452792885907236470831558905962680451831127311737062, 36248180448228557683562702417959951490247598316397968439176665606505024560782),
      (True, 22694652017452329483326609851328510188565163976708222137293897912289227065616, 114381444107112283422456762154614765621302132902559126913601013370933708063640),
      (True, 225975968517410075477860447883470537337343777134336855093141403521512194775955, 103594113194800097746265462920874976859482159959088474825941315272150307836035),
      (True, 185362236043989592381214465792412601846100301895680120937525425540323515474449, 40779689350931606469768855554871622710591774353638606499098507065292308203763),
      (True, 28723604082316823000471575147529066054776609188685355257091675748455247650803, 48368590811436833795981691970764537213740462760346731344790228566406471424949),
      (True, 40408988083622155767841550877887790604515603119010180188503758200175479575676, 16097419365535693524002397499818418363032769904592349337627988261081058036014),
      (True, 4475727347812893795726522469932978588361076616215057751365607153083732827050, 102281412538687366638390900093989560761270616803984317878694245852492327132242),
      (True, 180694336198879822648398854669784266659833753064078847640685397495415305707430, 70362590961598988521148877523187126592872598343951118402826868572349522337038),
      (True, 85513513737236760680914458138280749140007244015175962224304590351379028898666, 67536953015070516145437617574234133001871279791504182489524044076107924525330),
      (True, 78783275310139173698169517747727393324128960873897415839991070976564757924814, 25892954071666888211124019226126715444310858301228644315133800702002692872118)]"])
    (simp_all only: numeral_rules)

lemma secp_one_5: "pow_is 2 340282366920938463463374607431768211455 115792089237316195423570985008687907853269984665640564039457584007908834671663 111319014054304592461709486433804117476826412392513378989166737838522867515162"
  by (rule pow_is_step [OF secp_one_4, where ss =
     "[
      (True, 11580153272532667169586380725149973190418915138804568451104986829990620984899, 68116467184463900748715807269323917813113047414230932473316875991327457394811),
      (True, 80141106914182300574188457450506116635261088776672649521141951132346135705965, 21598539043644166317220767267686192274657982022375884473282416684272773881647),
      (True, 8057491524550262529986879753021480838430581525042631957428477743315708206914, 21303343718971281543429048418707646748168599271582804158299889630543470387236),
      (True, 7838747130272471891172658965067115123551434324073513657453601038062641183818, 26147899321954432071283881325925098994241542756189900238042709677081924690058),
      (True, 11809315186459658278641770493878103183151699898694396215409932129818075035718, 3566289132197572705503367264354937314441706060340512407397395710733200627694),
      (True, 219676806217117030710938915818757631454411294485628663136880617042430244565, 96881732535899946283038182142341550953479628257900089389948886447938634253677),
      (True, 162119366892515058756722166370608378531927160327385039516852932507167793052665, 14957451451271682124040662653880380463278631901662490659576065105429833908763),
      (True, 3864259732953321893786128540044034504136831110266389704313533538531936440663, 25911035428061070252871307859416733759501917055652892630082147974415529347769),
      (True, 11596332035744466625173662521737104627640210062870994521251705465994659654707, 85676334786621880835524716826760543184844110843331598511283967792591793086981),
      (True, 126786456498337720868105502688562412829196655002871365218957630954122596095115, 82667126504807173823454329065133631438600094704823683559262315246995920162477),
      (True, 118036626674138181610932852242996443239383149368309735705172068141919754673680, 93951839832258028414605564149743652827649319866077535981996276316955649621218),
      (True, 152462025100443820563271210277446381027609380643165789083731734727699436526547, 17192168412975361672349580305862079974450956325612382499320047836761823469387),
      (True, 5105195988550390891816652763437911576132773086642064134113479934534867968461, 10459298728113618113692547921768639014966210187811562689366915177381877890895),
      (True, 1889540651774748623446605114037010289797071070685587096526244480243788758801, 23834019578737587896845746483631283247685926489159656214615958361789911245987),
      (True, 9811732269816898811430309902796387325727104291201252671138438586544791464336, 69098382773580347025062857997951225675974503580271716219211107816856112897570),
      (True, 82468267622992750282906071345638686905182127985806095216811017760914029167452, 61943311616033723956993233163337115253406758946300928760872941915758957497124),
      (True, 66273505888596073971483316407804158381602584199695385398655984525300746928902, 102170107290323249344040653511338039101055958457577567344524652950148161438726),
      (True, 180301277789745331339325520429870265269872634727440778080234598789383440856196, 94666647887558505648968440162670190740657808105905675803750972528645245832204),
      (True, 154790785472396220997952396241126973061724511536334940430004591108713941282634, 109743296456966752918374036007166864463132176852052921780501936569932573194890),
      (True, 208020965794274933218650575647291681273897984639413625313815304160413175220649, 44260837876260701991977615290965385787028677092708270854940712673862351454913),
      (True, 33836884409151883115162999834388551532214789563135460267315428560179156762467, 48959393782957759866471648689704017385028092929957611753535075435233716802517),
      (True, 41402176182900016277211674459344478278243358971584213350270716939372132621837, 15034186062868410150166981605286272572151294887866587771143977539219516165647),
      (True, 3904010231816515890676075210649730439020154514564740769709968007382997604527, 28853140893551528292251978283244918568441964507090540814633317404710718438817),
      (True, 14379285232809244029005033685852583660704069099936522476856175441143271806232, 111319014054304592461709486433804117476826412392513378989166737838522867515162)]"])
    (simp_all only: numeral_rules)

lemma secp_one_6: "pow_is 2 5708990770823839524233143877797980545530986495 115792089237316195423570985008687907853269984665640564039457584007908834671663 72585453275438808304287201213902240411776173885406616054557370497065169037896"
  by (rule pow_is_step [OF secp_one_5, where ss =
     "[
      (True, 214037469599934144001760807075545246514862174819651939357535132004007841979223, 14705694854217774406424447300764386299467724071478395750455924022045326914639),
      (True, 3735271771496356480960222837622687492095566001905268144269510315299065599602, 28021812088740827532907072794629012328866861461069546626004635534400491522516),
      (True, 13562618273989116738283873040628973736413408678154634389328874642724527634756, 86014902554729608199599185204726552586871183780200416038410201408128222821284),
      (True, 127790482238147625978981508514426996401427134331056103607781011152886149698698, 51960495832624625891817676244300420969096787246716148221100376161593998222538),
      (True, 46633464254000339457229504128391840558459842816334759013030810294477877677552, 40945211586999126468143487900002020156367983348919701611679831269557836713912),
      (True, 28957251966809495790910905324450868564239194254933405781681658634256673866023, 70160157869553834670367940764913340637943964065740010146804564833791012081239),
      (True, 85022176984684110719457190044557441010282474397853153122037434663190581683944, 18967428915595809760268289109356403627922428661875631868023717350881792671370),
      (True, 6213954028082938749538416580860697521385676718302499938039383299763632095609, 90671434779595538948317547833503093119623459354232122715126302179547496326033),
      (True, 142001222003013567620086451818973008800577759013167260096685092526407098354742, 106415976210081826986092119112743858689771115565095154581431556168772997958232),
      (True, 195598163351822685953343153890617973665134743536442077136379387466067039255454, 101422165537223090157268609242107183797293435706963187101722486910613561131646),
      (True, 177671129867564005753461355116958284955362191159301757878617839974205709886452, 27229937709495284402057600488881120204252903683298265171257632936003853328956),
      (True, 12806911293281004091557141835873691985631108014131603738019141516961931899947, 1203203984904151559895728300616588807679233326110113964161604364588783998011),
      (True, 25005159485846483299214818947064997069868505503631098075596717197074017953, 27755557997146452128598133673003257050514748583500325632985764202011581546403),
      (True, 13306107607300926343535525441990958819015831418359080741433007445256402614557, 34846111819354851710866692461369275868125323293709622058279619109723845278527),
      (True, 20972961398742364698087405931960716684042561828125399547888788140982142112704, 102352770642017972042793664228928927627579936010611074875195057989915433472706),
      (True, 180946552171224104969178945552562439701042045970744138334197962825748840400698, 113766369464852146840759803767888550419584760124894365113508394279777507904098),
      (True, 223552177121305184767871986498457471802692184756851083232706416041613329233656, 29750459048128861919941513007764059394542564156397418804174544771659361297280),
      (True, 15287569632851144737143037135902024975764912439426967223997190680589362767877, 8314615081324719169332743556619340043271863533863683176911170608638892227349),
      (True, 1194085440653973510618906985576082431307532032202253069685084461515319399669, 75686952811739011197589479707585464621212997975007486206542829376182721256055),
      (True, 98944839214115938670967121110631020633783119329353389754060836565208358830068, 85123177806063158259547491404911869648641829169691454335270592564696156362966),
      (True, 125154584350784768002198193623776225985645778752950574583160377322891785363841, 112324953614558650945095684814680581804520479553797663117941326978794045096729),
      (True, 217923267256269851115975293303928810753862507666651258335137719185947824075840, 96668334835555081432933705016296878385393049571754648069998822831401122076962),
      (True, 161405965147184921919228004664205027388562380029022376466243303360808625447623, 59785724188664045864858632577060315645034750118719187009424222710821693491839),
      (True, 61737081355141706672462335097861169225454665838149914485156625000017880784742, 72585453275438808304287201213902240411776173885406616054557370497065169037896)]"])
    (simp_all only: numeral_rules)

lemma secp_one_7: "pow_is 2 95780971304118053647396689196894323976171195136475135 115792089237316195423570985008687907853269984665640564039457584007908834671663 48280437862413394384351668935292926109435972115935387492424171402955671686641"
  by (rule pow_is_step [OF secp_one_6, where ss =
     "[
      (True, 91001864840745765537269580144940686894355409667656392527363989118095902329903, 27697047358815116144182112758795608999191521206545994059670437184470856574943),
      (True, 13250066346487966614555495735280569593707661617010357076991296390860275660177, 47300993497901384431013765026056833915799512280656835774513817416471591442147),
      (True, 38644850449204428923812475190899030529567554147295708948587802276970736080189, 93436172199916047699604060380761379140908562344192373802718456199577041954911),
      (True, 150793000331474353299245836892370447624960655641201476665087499578816504933885, 25631380849723847683955357573705908225329961607313145732783179703423616035087),
      (True, 11347367313100869485485021261938105368579748217060120707100638271011331292490, 87750668990866554320680650253041627268612588912073877212419553416994262484268),
      (True, 133000103186031816444504058475696761234027817685340376541541440024643006773766, 40874465176149750541508336356248309799485118369941694295635962810842362998790),
      (True, 28857271933527853785932621990576557487411311866524681323962565022081378149212, 18676742273716220418132378805419542978578348030728175807922335471332440748644),
      (True, 6024948755245439552288182646207368465949228621812458629543931312306700201469, 36198160868093001790758214775592171040958086667692252892282212973911810404525),
      (True, 22632061635002752564287119326650411197279080374228230846930900228698107970497, 45252097218729976750608524976841652949596910635419988716616430105123995024739),
      (True, 35369468090285779309575410951999233098569976243342476941258871054597522910133, 43729959947155154851613758195718542719777743804409069532953679125205133375063),
      (True, 33030052563617033788607923359502971558994553465724110633760658547547036758187, 59397470999021543501430315123904688842177401067805350634610901145000788352957),
      (True, 60937834083791991108212688434773036855543824171108944557533729448543166093465, 70903019758650112594939437576636695541334791447779396784529361569031976305403),
      (True, 86832153111810430545498372549844210294062274163704319072204900559705643434313, 19872951291024101301180817223461667140453918009844603573038786699444791012299),
      (True, 6821436518102679946469627629407267286067070091713968890411528063726603196097, 111943368269003617212763696094660806045362316407799144652314956645834940431491),
      (True, 216445143739082155902525623299421293726949754157948709135023147708140726396915, 41682461709552817905137504779697327726943087073471518722415713513193487846517),
      (True, 30009435456466707295318702725508404385947862131308122394631986378738796351874, 50542753728969879895244339135678007311113105388284998392373404770343293316116),
      (True, 44123393425809957895686210506958686024006595057315171349198704230353947421447, 60627233349461988099021255338997028723696298850361077966214773884090081294551),
      (True, 63487263211510727555205852195238272285457788512375306202282479354976617029948, 2201741504438657580994346486861001613594790013631965508299898500683226619678),
      (True, 83730515345180438866507259786708768121084576999910265179961858370601892759, 15001413809762568474318827022877959065258097098384524385051174982940811459151),
      (True, 3887008478282312829522044889005925930134625252385095069487592809574664580464, 75200851865104651351763183586374122988640263879328377012316038550312399089970),
      (True, 97677970204806160582819779770938792390079899639020870056802699732757769200489, 113291985718244736052581948510838566752899262058563123012111760566413975158593),
      (True, 221691725445551825608035049600656022000898168287289453711043098371463954446503, 115791508852627180117152504399463750015709324899503449958961712868056099934809),
      (True, 231581856941694453976285178043790348342831825879878141234536884578881694004259, 52674663311913289093203495829251453280799828619461781264819414324184111120245),
      (True, 47924174670289133015264905454268622058322637863159166359468781953201796731343, 48280437862413394384351668935292926109435972115935387492424171402955671686641)]"])
    (simp_all only: numeral_rules)

lemma secp_one_8: "pow_is 2 1606938044258990275541962092341162602522202993782792835301375 115792089237316195423570985008687907853269984665640564039457584007908834671663 78842285991613451201620296643859181326343500852855862629417008744629938842652"
  by (rule pow_is_step [OF secp_one_7, where ss =
     "[
      (True, 40261829552258423280530315911674913464951763130366429955271447224941345926082, 45771628572540030475775859511516490703530681409318895265359308284470257711396),
      (True, 36186271376255571019276071042220755030862948675449796352462876829507929431688, 47624035656993856009575962503734220599113665376055297280863359391669588680488),
      (True, 39174502976800949093837664833573937305174874423189979806130688893129895850890, 11087947699464579374221986331265135029322424008668660774520545024322747506218),
      (True, 2123505759259437910897095500572221804287353302500725139355224698526993851162, 40253246672873843371610899806688589155809539586370390810649559870639736304642),
      (True, 27986780070724366271598956583517818695519923141287513353039456422127072619648, 982779706749690089694769104143857389685713751884913170303203236856298861704),
      (True, 16682589602809264478663208446166033321142146396914274184501346241376618765, 96049752211406782902670586116147298551211452481662371253309487871718336011037),
      (True, 159346894259155179996090089198393673886996784954934435543189779718139088860734, 25577396264345613434541087380695485020329651509673576667943587163932348450096),
      (True, 11299618203149780644854616922426080437086255063370836061484318729939233652828, 66446539119837600303717818255275268938961783425029548670826428779051293405468),
      (True, 76259830703205676439443935356593370050355445159801353310155048350429966107818, 100561462043075312179405852779092449286405047900510385475484201976019217236714),
      (True, 174668368363490884410197608430733545726674233624696798094076460986942167240448, 76616338370511239353535816530158674117297220099267345656510982351650966010568),
      (True, 101389712267371952263608343540199519716048854305874334651209316790900118514316, 27974865615826775147423716416202068787698113809725842860159254903465750337740),
      (True, 13517211950803314707662797367221208782359189098023193814681465196521132053233, 56206894664472738207233148571149859888194688964323619476312247017769543978721),
      (True, 54567026618689198875570923698540738984119662076254468709131434782205958665234, 11442646602095233447076276072933184608379380518238741553775100401401678527540),
      (True, 2261538972530181736019634167763535275190091286418328140889784533033033131085, 33077188189315131515631974740769172311751427696234085329542452315768262958845),
      (True, 18897670570033619267212707653251801780204645599989283566283439483746604419023, 112535918655913458446364007616632432100368039687468316414709035151635251222801),
      (True, 218742628639764614264543104927386205118485374800315084733249279260053054329997, 29738528903288335497137486039524440777578372181943345756214162002207537796191),
      (True, 15275311243744403925585833088582153157238118162777608597144332190565345666698, 39928527249267663174530927757229448619339343215381784798259236998057444838188),
      (True, 27537067493928954944858825922439365270676552328383588943965648519056996683338, 22267843340043920848624463139114851023165888209777618814871382914519793395594),
      (True, 8564606620068465498812649652034691733061548758817667402003696380179080045315, 59563875939691041856081831503612732914868151801789669540613160540027970816827),
      (True, 61279753052690265722900977789865477331462156099576232414780720368664847689717, 15836796082028433700395908453223526785435489615658845654571639715085376306487),
      (True, 4331973139023814591322145795197234915784756273246118260358730998072207785446, 20068990665059500430155999987891093364722525521986904615231341465396556545640),
      (True, 6956682256397994278352028955104601110437510252954846065774281873288380256887, 58769687761899586445724459364898809682003937132114494350601591089870566526119),
      (True, 59656514056887626374434630484870205141838770100789771271416805900731269092073, 83398109509692431443351047443453091878322230410358860290957573759341947376923),
      (True, 120133330620468531050611300152177527902412603465711075298151709234080009842762, 78842285991613451201620296643859181326343500852855862629417008744629938842652)]"])
    (simp_all only: numeral_rules)

lemma secp_one_9: "pow_is 2 26959946667150639794667015087019630673637144422540572481103610249214 115792089237316195423570985008687907853269984665640564039457584007908834671663 82768325391086116246389221303387479985499889384464959230534842140569223185139"
  by (rule pow_is_step [OF secp_one_8, where ss =
     "[
      (True, 107366679387629680097979896293649582206493477085232038446785894450809062757038, 72984793231942167555852813828575504129852042581244137887398740552090156372014),
      (True, 92005940616411218492496154745961240154303006793982014291690924314406075923422, 6487017382071974155315467985415189213205409236855215857081885071970623441606),
      (True, 726844032135183240900902475469819443753987725040440829193896933061267770310, 30491366536354248216375359199813369297892327304028997922300971231939233992942),
      (True, 16058496558410532000754009499984357247544338972368796672903859580552141367850, 28540446291882973346376318981602513265862091512008137733690918152031357396178),
      (True, 14069304386941661769941457689326752130403891488948614120030300598922294281069, 41671452029508175521381418546665871284022831588391829884836226745120846367621),
      (True, 29993584634069765238076252632428037902349556187068607604334056295133287798034, 86068627107229177573432329013008698718554111431574254657312300728465107488740),
      (True, 127950166905460040206369904026022106532033435575496475726463339336518211474512, 111510783809291861692294530395493251719038572489518531420004842401945840421744),
      (True, 214775551381196165115074028060902686343630071763784709529826735349878279897021, 54449037838773018637439903580484399476534019839436711774363995814441589187149),
      (True, 51207258476733761603326043503059064383736345636235522271030139038838851528039, 84197647440424384209789765248811187393385350557228415074091892031498690237545),
      (True, 122447809365846724285687945587826961602544223839365685548751652520021477304255, 56341760545598502220429458653011631043994981006485476440967012319577777427985),
      (True, 54829202966907888007735273437956914067078728323552051141556345819507361469232, 107020964537913993330164153943255868477510273733796515451533607513001725547634),
      (True, 197828485971118332641591700716302981975172640254146551081437331679066987093360, 53733057216322434709156961097127357316087596198426803169547453300780078538232),
      (True, 49869407432405359852589199263380681283059989450087905939315954462604152374772, 115539237773336242637336704916731958331541991950450510673141407150015426885812),
      (True, 230573876905944253581740143276147277757039306536687051753647391296343841912026, 68053766093468002718633813910209706190239616566391877346139336161585132679450),
      (True, 79993635316702207246794226444269016554094308533034664851271101758041639224014, 7342371677889136071075036280926375567114494896605490416854872783607109689718),
      (True, 931158980053965070098380691182273276696404415226889605405988430134623235871, 81812570648708402892002304956298264889554704193950332241601492916941581015575),
      (True, 115608877259861409166776895746937886443490127582381803018465643530640242115638, 53994042032467357995157250258959650554368367441428902085724359775810577395256),
      (True, 50355021559872207072157763626262567218887856491556721937832413635318824973042, 43499532796463899285817441205479384833288830488384890436946483008412406302226),
      (True, 32682877836888326112490901683413680780231584179311197989837647677145898321068, 60232399504232983318279629543966491486230264267866511924209130412426969614068),
      (True, 62663036377244200875529856911221756081903923931478646495745384183924994957310, 42966260258400746065622816069831180089914051779797284542723710922989175310718),
      (True, 31886453258633954857222254307756075059988274574074901289360734303996905252783, 90235977474385002963743069989377668120589902161168551095975383189945869362919),
      (True, 140640551256823380825819790772299535727429441623789781634603348175119264937877, 38008351769804836893829875509825036170202306952771594988316869361238477121671),
      (True, 24952219340242554848733290950881932438056796735863183075166458695760246084437, 62543947272503260645224610119014313677129635586565941036321504668587606455751),
      (False, 33782492104521368107716044977476394725625721248224687800227102854624022976674, 82768325391086116246389221303387479985499889384464959230534842140569223185139)]"])
    (simp_all only: numeral_rules)

lemma secp_one_10: "pow_is 2 452312848583266388373324160190187140051835877600158453279131187530893885436 115792089237316195423570985008687907853269984665640564039457584007908834671663 33871393671680393482513507301068331674248992039828727110448259756382764956517"
  by (rule pow_is_step [OF secp_one_9, where ss =
     "[
      (True, 118325798129514643813175232468002237302173359193256011599056519329408745718309, 48418789125681672684741137803580845769367213120617476435730059856559438320775),
      (True, 40492906827035800393208768111148292792839850265603686379793074735049791326015, 103725044249236493962660621286599947202639040526763831982470843262595677988305),
      (True, 185831085273117502755469345314950961000489929117019960400295727787501462443505, 8243330524915659632096357564295710949924005897043407400614655631991071647235),
      (True, 1173698455405489032344363980428190071978672073019199064641776851943514189414, 13154328741493837716357644352993449852619644881493733205786757389738285914968),
      (True, 2988742422371399863482662921509397811719596271011892107799672491230140331094, 69812519601863230747081404575158292289300696944008437546553930251044253292726),
      (True, 84181707494226078824927925748746612958219228812974838513335581378876589814988, 107225628510390893370432064419194934008770033168306021800955319520437192737108),
      (True, 198585853060903544767572585460687860118578709963310719157262916531150564236115, 4536999919470466691053229295446714869237756999927261716884199448203168698083),
      (True, 355540147947193588053186787622379599201092171518626879785330317778846163840, 112074340814423843868254666019140110308256746486149204049001260856968912483858),
      (True, 216951917038901136952809682048689381305578699029046054477635614882173840490846, 41977004817507190281379553503274853621340903816064957150833598435999054031430),
      (True, 30435048629922496468064941479261701884196025294849766693831244559145742255971, 50860760907753799572582707805170961942560983707065796530867460866242169440027),
      (True, 44680375268365851278880111989496708122808920997389967731525276939568505611898, 27974658119182802435075733041652293314218161417565799541356002923089763275084),
      (True, 13517011430396724707692701202374244677012938177905505173459678977714639711160, 12546636595908136294704432047957720568319350845500834709359679115171953555032),
      (True, 2718978315472873307070075470983710191455533863196743766845830809967697006595, 81558794070761381798689662575583316851739400796778039429103494106251334424563),
      (True, 114892769170852500932147455361314897965994813489091514598480175845805843739797, 43368388398076097232575079483967005757335168719900000350392551168738174209527),
      (True, 32486107205331475659531503704782479614053088651446738070168390164658919653372, 91342419329189706408319888623615585306190020410188716230926066204983204329822),
      (True, 144110666348020230743111329331761997843123592075196821461461055759684576658484, 98749609049907824139029176440162802771768091660003364093829125866996493764476),
      (True, 168430941210913677568041517622722077108807499532039457208418620069971151218799, 57535810075420913738897925293584317351800728745289327787300338730788080916415),
      (True, 57177816944822469547435605443635446335640469658959287705949590005006393845314, 16617025580097667506519219898354363097638038007825438521041303615399231767268),
      (True, 4769333396579453629460512263385784178692518916660148392185183316541628514894, 33817382773640684796443520751744517593469708604533344075568255008854237118926),
      (True, 19752910327321013645662116772965228678422040242985883247477074458943547343816, 41112337027718696878169657476660401930799638780744914440912261552476001300944),
      (True, 29194123139390130515686473447381414116982875501555005790925649771061601407277, 81995631554873300161148818680975169582131485950317213996574244484189876690621),
      (True, 116126820724395885299929494672627548632489912490226266027515416415106733138871, 107181140524734042266889152337598381521442298222632863425713492074979231218809),
      (False, 99210550218491313733540592924348827676119429807073337914277538651984428701677, 6827061416210339969490831102802205082902460043910564121827057405909962899630),
      (False, 402521172972215221790773084671023862548303858878328703629215885779035279441, 33871393671680393482513507301068331674248992039828727110448259756382764956517)]"])
    (simp_all only: numeral_rules)

lemma secp_one: "pow_is 2 115792089237316195423570985008687907853269984665640564039457584007908834671662 115792089237316195423570985008687907853269984665640564039457584007908834671663 1"
  by (rule pow_is_step [OF secp_one_10, where ss =
     "[
      (False, 9908028405210091701196683365924175232348377183541219998694055989579921944465, 46407038545694520328597176696284244721036242755427251603697990691444105575994),
      (False, 18598966827239302454374379029021240980085656337376846012114640683249989966583, 104727752500410049000793973458742215584370340047620147658668053228457362050507),
      (True, 189441303219054949471057724795583340376405565577387368883306055552356153039420, 43772119364141377649473921854450320023254786172933619537686627312880041958638),
      (False, 16546885424113875933544317219353049524099174711347093869468422397600714504801, 88468820071288426607714828213659825595790587096763024521221167523388830660981),
      (True, 135185955730794314005313568313446752228901389008426761961643443706925622733618, 113898317268496496646320159960970217953012835795457349547270662494319169697988),
      (True, 224071035630201721444458009425375975494265889765621366112028905583799873341571, 65370225331800359215675667577987967870688576122631607798850965230835828893715),
      (True, 73809297130346833852866391322610647691648224775990211554258346765949831303423, 1), (False, 0, 1)]"])
    (simp_all only: numeral_rules)

lemma secp_pow0_0: "pow_is 2 137 115792089237316195423570985008687907853269984665640564039457584007908834671663 174224571863520493293247799005065324265472"
  by (simp add: pow_is_def)

lemma secp_pow0: "pow_is 2 564522 115792089237316195423570985008687907853269984665640564039457584007908834671663 30133174243114333125352536507925183895021889065932097717961225114769139489296"
  by (rule pow_is_step [OF secp_pow0_0, where ss =
     "[
      (True, 524288, 2251800325914624), (True, 0, 10141209415578413733484274122752),
      (False, 0, 102844128410616271824886605423270113115667090532399219164053504),
      (True, 182688037122500036178338250748691612996167603899, 92987671651085548938024361283323694514345922891154639000284577820743245741995),
      (False, 74674419781550446515383349898116450519865848479614672217550059922380635294746, 115609857765977317870356492306500639248533281895734384222572664161867967597427),
      (False, 115427913087193657726105552836911613169781942902559006794696555332514814213525, 95975382039734724053981607524458432195891217167256569749269119169759788178254),
      (True, 159100229011232436113792329002084839369661327631278245839350777496668518396173, 38727913779828263828068456207202849339721766552230996239960757187500346231333),
      (False, 12952968683930235282050249031635751058312099753835029153843181154087031930953, 16107066586898463587146003280380922661014007063717802271896887586269309272050),
      (True, 4481093583225066106016043012510019839169269054936365452464505059403782200199, 47585165534997937579100414421795661826257231649674042222048729372979924144063),
      (False, 19555290813972346060461496320810833008241925042775741612844417871596092292478, 98085888624586820254043629391109352917691453001750842017603333255515083497055),
      (True, 166174418488242487781012314481681267009913319288638976822631400923580132163166, 11944313601498374673514242687790187838114756692423207429785818833698834780992),
      (False, 1232093041507727189940228482212970523878674031206717103614127063491821272336, 30133174243114333125352536507925183895021889065932097717961225114769139489296)]"])
    (simp_all only: numeral_rules)

lemma secp_entry0:
  "entry_ok 2 115792089237316195423570985008687907853269984665640564039457584007908834671662 115792089237316195423570985008687907853269984665640564039457584007908834671663
     (205115282021455665897114700593932402728804164701536103180137503955397371, 564522, 30133174243114333125352536507925183895021889065932097717961225114769139489296,
      38738227534097492269493948901333532538630784921480042032654553727346127695815, 10081049300025779439656074993348321903608605725784878135637996734732791756248)"
  using prime_p237 secp_pow0 by (simp only: entry_ok_def prod.case of_nat_numeral numeral_rules)

theorem prime_secp: "is_prime 115792089237316195423570985008687907853269984665640564039457584007908834671663"
  by (rule certificate_sound [where N = 115792089237316195423570985008687907853269984665640564039457584007908834671662 and a = 2, where es =
     "[(205115282021455665897114700593932402728804164701536103180137503955397371, 564522, 30133174243114333125352536507925183895021889065932097717961225114769139489296,
        38738227534097492269493948901333532538630784921480042032654553727346127695815, 10081049300025779439656074993348321903608605725784878135637996734732791756248)]"])
    (simp_all add: secp_one secp_entry0)

end
