(* ===== verification/FHE_Engine.thy ===== *)
theory FHE_Engine
  imports Secrets Secp_Prime
begin

text \<open>
  The homomorphic share aggregation of \<^verbatim>\<open>utils/fheEngine.ts\<close> and \<^verbatim>\<open>services/fhe.service.ts\<close>: key pairs,
  encryption and decryption modulo a 256-bit prime, sums and multiples of ciphertexts, aggregation of
  encrypted Shamir or additive shares, the textual form of a ciphertext, and the service that splits a
  key and reassembles it.

  A random element is read from a block of 32 random bytes: \<open>rnd i j\<close> is byte \<open>j\<close> of the \<open>i\<close>-th block a
  call draws. The modulus is an argument, as in the code; the service uses \<open>FHE_PRIME\<close>.
\<close>

unbundle bit_operations_syntax

section \<open>Arithmetic\<close>

definition FHE_PRIME :: int where
  "FHE_PRIME = 0xFFFFFFFFFFFFFFFFFFFFFFFFFFFFFFFFFFFFFFFFFFFFFFFFFFFFFFFEFFFFFC2F"

definition FHE_LWE_DIMENSION :: nat where
  "FHE_LWE_DIMENSION = 2"

definition modQ :: "int \<Rightarrow> int \<Rightarrow> int" where
  "modQ v q = (let r = bigint_rem v q in if r < 0 then r + q else r)"

definition modPowQ :: "int \<Rightarrow> int \<Rightarrow> int \<Rightarrow> int" where
  "modPowQ base e q = pow_loop (\<lambda>a b. modQ (a * b) q) 1 (modQ base q) e"

definition modInverseQ :: "int \<Rightarrow> int \<Rightarrow> int result" where
  "modInverseQ a q =
     (let v = modQ a q in
      if v = 0 then Inl (Error ''Division by zero in modular inverse'') else Inr (modPowQ v (q - 2) q))"

definition bytes_value :: "byte list \<Rightarrow> int" where
  "bytes_value bs = fold (\<lambda>b v. push_bit 8 v OR uint b) bs 0"

definition randomFieldElement :: "(nat \<Rightarrow> byte) \<Rightarrow> int \<Rightarrow> int" where
  "randomFieldElement block q = modQ (bytes_value (map block [0..<32])) q"

section \<open>Keys, encryption and decryption\<close>

record FHEPublicKey =
  pk_a :: "int list list"
  pk_b :: "int list"

record FHEPrivateKey =
  sk_s :: "int list"

record FHEKeypair =
  kp_publicKey :: FHEPublicKey
  kp_privateKey :: FHEPrivateKey

record FHECiphertext =
  ct_a :: "int list"
  ct_b :: int

text \<open>The blocks are drawn first for the secret vector, then for the rows in turn.\<close>

definition keyRow :: "(nat \<Rightarrow> nat \<Rightarrow> byte) \<Rightarrow> nat \<Rightarrow> int \<Rightarrow> int list \<Rightarrow> nat \<Rightarrow> int list \<times> int" where
  "keyRow rnd n q s i =
     fold (\<lambda>j (row, d). let a = randomFieldElement (rnd (n + i * n + j)) q in (row @ [a], modQ (d + a * s ! j) q)) [0..<n] ([], 0)"

definition fheKeyGen :: "(nat \<Rightarrow> nat \<Rightarrow> byte) \<Rightarrow> nat \<Rightarrow> nat \<Rightarrow> int \<Rightarrow> FHEKeypair" where
  "fheKeyGen rnd n m q =
     (let s = map (\<lambda>i. randomFieldElement (rnd i) q) [0..<n];
          rows = map (keyRow rnd n q s) [0..<m]
      in \<lparr>kp_publicKey = \<lparr>pk_a = map fst rows, pk_b = map snd rows\<rparr>, kp_privateKey = \<lparr>sk_s = s\<rparr>\<rparr>)"

datatype secret = SecretBigInt int | SecretHex string | SecretBytes "byte list"

definition secretToBigInt :: "secret \<Rightarrow> int result" where
  "secretToBigInt secret =
     (case secret of
        SecretBigInt v \<Rightarrow> Inr (modQ v FHE_PRIME)
      | SecretHex s \<Rightarrow> bindE (BigInt (''0x'' @ cleanHex s)) (\<lambda>v. Inr (modQ v FHE_PRIME))
      | SecretBytes bs \<Rightarrow> Inr (modQ (bytes_value bs) FHE_PRIME))"

definition bigIntToHex32 :: "int \<Rightarrow> string" where
  "bigIntToHex32 v = pad_start 64 CHR ''0'' (bigint_hex_str (modQ v FHE_PRIME))"

text \<open>An element of an array that takes part in arithmetic: \<^verbatim>\<open>undefined\<close> there is a type error.\<close>

definition elem_at :: "'a list \<Rightarrow> nat \<Rightarrow> 'a result" where
  "elem_at xs i = (if i < length xs then Inr (xs ! i) else Inl TypeError)"

definition fheEncrypt :: "(nat \<Rightarrow> nat \<Rightarrow> byte) \<Rightarrow> secret \<Rightarrow> FHEPublicKey \<Rightarrow> int \<Rightarrow> FHECiphertext result" where
  "fheEncrypt rnd plaintext publicKey q =
     bindE (secretToBigInt plaintext) (\<lambda>mVal.
     let m = length (pk_a publicKey) in
     bindE (elem_at (pk_a publicKey) 0) (\<lambda>row0.
     let n = length row0;
         r = map (\<lambda>i. bigint_rem (randomFieldElement (rnd i) q) 7 + 1) [0..<m]
     in bindE (mapE (\<lambda>j. foldE (\<lambda>i sumCol.
          bindE (elem_at (pk_a publicKey) i) (\<lambda>row.
          bindE (elem_at row j) (\<lambda>a. Inr (modQ (sumCol + a * r ! i) q)))) [0..<m] 0) [0..<n]) (\<lambda>aOut.
        bindE (foldE (\<lambda>i v. bindE (elem_at (pk_b publicKey) i) (\<lambda>b. Inr (modQ (v + b * r ! i) q))) [0..<m] mVal) (\<lambda>v.
          Inr \<lparr>ct_a = aOut, ct_b = v\<rparr>))))"

definition fheDecrypt :: "FHECiphertext \<Rightarrow> FHEPrivateKey \<Rightarrow> int \<Rightarrow> int result" where
  "fheDecrypt ciphertext privateKey q =
     (let n = length (ct_a ciphertext) in
      if n \<noteq> length (sk_s privateKey) then Inl (Error ''Ciphertext dimension does not match private key dimension'')
      else let d = fold (\<lambda>i d. modQ (d + ct_a ciphertext ! i * sk_s privateKey ! i) q) [0..<n] 0
           in Inr (modQ (ct_b ciphertext - d) q))"

definition fheDecryptToHex :: "FHECiphertext \<Rightarrow> FHEPrivateKey \<Rightarrow> int \<Rightarrow> string result" where
  "fheDecryptToHex ciphertext privateKey q = bindE (fheDecrypt ciphertext privateKey q) (\<lambda>v. Inr (bigIntToHex32 v))"

section \<open>Computing with ciphertexts\<close>

definition fheAdd :: "FHECiphertext \<Rightarrow> FHECiphertext \<Rightarrow> int \<Rightarrow> FHECiphertext result" where
  "fheAdd ct1 ct2 q =
     (if length (ct_a ct1) \<noteq> length (ct_a ct2) then Inl (Error ''Cannot add ciphertexts with different dimensions'')
      else Inr \<lparr>ct_a = map (\<lambda>i. modQ (ct_a ct1 ! i + ct_a ct2 ! i) q) [0..<length (ct_a ct1)], ct_b = modQ (ct_b ct1 + ct_b ct2) q\<rparr>)"

definition fheScalarMul :: "int \<Rightarrow> FHECiphertext \<Rightarrow> int \<Rightarrow> FHECiphertext" where
  "fheScalarMul scalar ct q =
     (let s = modQ scalar q in
      \<lparr>ct_a = map (\<lambda>i. modQ (ct_a ct ! i * s) q) [0..<length (ct_a ct)], ct_b = modQ (ct_b ct * s) q\<rparr>)"

definition lagrangeCoefficient :: "int list \<Rightarrow> int \<Rightarrow> nat \<Rightarrow> int result" where
  "lagrangeCoefficient points q i =
     (case fold (\<lambda>j (num, den). if i = j then (num, den)
          else (modQ (num * points ! j) q, modQ (den * (points ! j - points ! i)) q)) [0..<length points] (1, 1) of
        (num, den) \<Rightarrow> bindE (modInverseQ den q) (\<lambda>denInv. Inr (modQ (num * denInv) q)))"

definition computeLagrangeCoefficients :: "int list \<Rightarrow> int \<Rightarrow> int list result" where
  "computeLagrangeCoefficients indices q =
     (let points = map (\<lambda>x. modQ x q) indices in mapE (lagrangeCoefficient points q) [0..<length points])"

record FHEThresholdShare =
  sh_index :: int
  sh_ciphertext :: FHECiphertext

definition fheThresholdAggregate :: "FHEThresholdShare list \<Rightarrow> nat \<Rightarrow> int \<Rightarrow> FHECiphertext result" where
  "fheThresholdAggregate shares threshold q =
     (if length shares < threshold
      then Inl (Error (''Insufficient shares: got '' @ js_num (length shares) @ '', threshold is '' @ js_num threshold))
      else let active = take threshold shares in
        bindE (computeLagrangeCoefficients (map sh_index active) q) (\<lambda>lambdas.
        bindE (elem_at active 0) (\<lambda>first.
          foldE (\<lambda>i acc. fheAdd acc (fheScalarMul (lambdas ! i) (sh_ciphertext (active ! i)) q) q)
            [1..<length active] (fheScalarMul (lambdas ! 0) (sh_ciphertext first) q))))"

definition fheAdditiveAggregate :: "FHECiphertext list \<Rightarrow> int \<Rightarrow> FHECiphertext result" where
  "fheAdditiveAggregate ciphertexts q =
     (if length ciphertexts = 0 then Inl (Error ''No ciphertexts to aggregate'')
      else foldE (\<lambda>i acc. fheAdd acc (ciphertexts ! i) q) [1..<length ciphertexts] (ciphertexts ! 0))"

section \<open>The textual form\<close>

definition serializeFheCiphertext :: "FHECiphertext \<Rightarrow> string" where
  "serializeFheCiphertext ct =
     ''0x'' @ bigIntToHex32 (int (length (ct_a ct))) @ concat (map bigIntToHex32 (ct_a ct)) @ bigIntToHex32 (ct_b ct)"

definition deserializeFheCiphertext :: "string \<Rightarrow> FHECiphertext result" where
  "deserializeFheCiphertext hexInput =
     (let hex = cleanHex hexInput in
      if length hex < 64 * 3 then Inl (Error (''Invalid FHE ciphertext payload length: '' @ js_num (length hex)))
      else bindE (BigInt (''0x'' @ js_slice hex 0 64)) (\<lambda>n.
        bindE (mapE (\<lambda>i. BigInt (''0x'' @ js_slice hex (64 + 64 * i) (128 + 64 * i))) [0..<nat n]) (\<lambda>a.
        bindE (BigInt (''0x'' @ js_slice hex (64 + 64 * nat n) (128 + 64 * nat n))) (\<lambda>b.
          Inr \<lparr>ct_a = a, ct_b = b\<rparr>))))"

section \<open>The service\<close>

definition generateKeypair :: "(nat \<Rightarrow> nat \<Rightarrow> byte) \<Rightarrow> FHEKeypair" where
  "generateKeypair rnd = fheKeyGen rnd FHE_LWE_DIMENSION 4 FHE_PRIME"

text \<open>A plain share drawn from 32 random bytes.\<close>

definition randomShare :: "(nat \<Rightarrow> byte) \<Rightarrow> int" where
  "randomShare block = modQ (modQ (bytes_value (map block [0..<32])) FHE_PRIME) FHE_PRIME"

text \<open>\<open>enc j\<close> are the random blocks of the encryption of the \<open>j\<close>-th share.\<close>

definition encryptShare :: "(nat \<Rightarrow> nat \<Rightarrow> nat \<Rightarrow> byte) \<Rightarrow> FHEPublicKey \<Rightarrow> nat \<Rightarrow> int \<Rightarrow> string result" where
  "encryptShare enc publicKey j share =
     bindE (fheEncrypt (enc j) (SecretBigInt share) publicKey FHE_PRIME) (\<lambda>ct. Inr (serializeFheCiphertext ct))"

definition additiveShares :: "(nat \<Rightarrow> nat \<Rightarrow> byte) \<Rightarrow> int \<Rightarrow> nat \<Rightarrow> int list" where
  "additiveShares rnd secretVal guardianCount =
     (case fold (\<lambda>i (shares, acc). let share = randomShare (rnd i) in (shares @ [share], modQ (acc + share) FHE_PRIME))
        [0..<guardianCount - 1] ([], 0) of
        (shares, acc) \<Rightarrow> shares @ [modQ (secretVal - acc) FHE_PRIME])"

definition createAdditiveSharesFHE ::
  "(nat \<Rightarrow> nat \<Rightarrow> byte) \<Rightarrow> (nat \<Rightarrow> nat \<Rightarrow> nat \<Rightarrow> byte) \<Rightarrow> string \<Rightarrow> nat \<Rightarrow> FHEPublicKey \<Rightarrow> (int list \<times> string list) result" where
  "createAdditiveSharesFHE rnd enc secretHex guardianCount publicKey =
     (if guardianCount < 1 then Inl (Error ''Guardian count must be at least 1'')
      else bindE (secretToBigInt (SecretHex secretHex)) (\<lambda>secretVal.
        let shares = additiveShares rnd secretVal guardianCount in
        bindE (mapE (\<lambda>j. encryptShare enc publicKey j (shares ! j)) [0..<length shares]) (\<lambda>sharesFHE. Inr (shares, sharesFHE))))"

definition hornerShare :: "int list \<Rightarrow> nat \<Rightarrow> int" where
  "hornerShare coeffs j = fold (\<lambda>c y. modQ (y * int j + coeffs ! c) FHE_PRIME) (rev [0..<length coeffs]) 0"

definition createThresholdSharesFHE ::
  "(nat \<Rightarrow> nat \<Rightarrow> byte) \<Rightarrow> (nat \<Rightarrow> nat \<Rightarrow> nat \<Rightarrow> byte) \<Rightarrow> string \<Rightarrow> nat \<Rightarrow> nat \<Rightarrow> FHEPublicKey
     \<Rightarrow> ((nat \<times> int) list \<times> (nat \<times> string) list) result" where
  "createThresholdSharesFHE rnd enc secretHex n threshold publicKey =
     (if threshold < 1 \<or> threshold > n then Inl (Error ''Threshold must satisfy 1 <= threshold <= n'')
      else bindE (secretToBigInt (SecretHex secretHex)) (\<lambda>secretVal.
        let coeffs = secretVal # map (\<lambda>i. randomShare (rnd i)) [0..<threshold - 1];
            sharesPlaintext = map (\<lambda>j. (j, hornerShare coeffs j)) [1..<n + 1]
        in bindE (mapE (\<lambda>(j, y). bindE (encryptShare enc publicKey j y) (\<lambda>hex. Inr (j, hex))) sharesPlaintext) (\<lambda>sharesFHE.
          Inr (sharesPlaintext, sharesFHE))))"

definition decryptAggregateCiphertext :: "string \<Rightarrow> FHEPrivateKey \<Rightarrow> string result" where
  "decryptAggregateCiphertext aggregateCiphertextHex privateKey =
     bindE (deserializeFheCiphertext aggregateCiphertextHex) (\<lambda>ct. fheDecryptToHex ct privateKey FHE_PRIME)"

definition aggregateThresholdShares :: "(nat \<times> string) list \<Rightarrow> nat \<Rightarrow> string result" where
  "aggregateThresholdShares shares threshold =
     bindE (mapE (\<lambda>(i, hex). bindE (deserializeFheCiphertext hex) (\<lambda>ct. Inr \<lparr>sh_index = int i, sh_ciphertext = ct\<rparr>)) shares) (\<lambda>fheShares.
     bindE (fheThresholdAggregate fheShares threshold FHE_PRIME) (\<lambda>aggregate. Inr (serializeFheCiphertext aggregate)))"

definition aggregateAdditiveShares :: "string list \<Rightarrow> string result" where
  "aggregateAdditiveShares ciphertextsHex =
     bindE (mapE deserializeFheCiphertext ciphertextsHex) (\<lambda>cts.
     bindE (fheAdditiveAggregate cts FHE_PRIME) (\<lambda>aggregate. Inr (serializeFheCiphertext aggregate)))"

section \<open>Facts on the arithmetic\<close>

lemma prime_FHE: "is_prime FHE_PRIME"
  unfolding FHE_PRIME_def by (rule prime_secp)

lemma FHE_PRIME_pos [simp]: "0 < FHE_PRIME" "1 < FHE_PRIME"
  using is_prime_gt_1 [OF prime_FHE] by simp_all

lemma modQ_eq: "0 < q \<Longrightarrow> modQ v q = v mod q"
  by (auto simp: modQ_def Let_def bigint_rem_def zmod_zminus1_eq_if not_less)
    (smt (verit) pos_mod_sign minus_mod_eq_mult_div mod_minus_right zmod_zminus1_eq_if)+

lemma modPowQ_eq: "1 < q \<Longrightarrow> modPowQ b e q = b ^ nat e mod q"
proof -
  assume q: "1 < q"
  then have "pow_loop (\<lambda>a b. modQ (a * b) q) 1 (b mod q) e = 1 * (b mod q) ^ nat e mod q"
    by (intro pow_loop_correct) (simp_all add: modQ_eq)
  with q show ?thesis by (simp add: modPowQ_def modQ_eq power_mod)
qed

lemma modInverseQ_prime:
  assumes "is_prime q" "\<not> q dvd a"
  obtains w where "modInverseQ a q = Inr w" "a * w mod q = 1"
proof -
  have q: "1 < q" using is_prime_gt_1 [OF assms(1)] .
  have "modInverseQ a q = Inr (a ^ nat (q - 2) mod q)"
    using assms(2) q by (simp add: modInverseQ_def modQ_eq modPowQ_eq dvd_eq_mod_eq_0 power_mod)
  moreover have "a * (a ^ nat (q - 2) mod q) mod q = 1"
    using fermat_inverse [OF assms] by (simp add: mod_mult_right_eq)
  ultimately show thesis using that by blast
qed

lemma randomFieldElement_range: "0 < q \<Longrightarrow> 0 \<le> randomFieldElement block q \<and> randomFieldElement block q < q"
  by (simp add: randomFieldElement_def modQ_eq)

lemma fold_modQ:
  assumes "0 < q"
  shows "fold (\<lambda>i d. modQ (d + f i) q) [0..<n] c mod q = (c + (\<Sum>i<n. f i)) mod q"
    "0 < n \<Longrightarrow> 0 \<le> fold (\<lambda>i d. modQ (d + f i) q) [0..<n] c \<and> fold (\<lambda>i d. modQ (d + f i) q) [0..<n] c < q"
proof -
  show "fold (\<lambda>i d. modQ (d + f i) q) [0..<n] c mod q = (c + (\<Sum>i<n. f i)) mod q"
  proof (induction n)
    case (Suc n)
    then show ?case using assms by (simp add: modQ_eq) (metis add.assoc mod_add_left_eq)
  qed simp
  show "0 < n \<Longrightarrow> 0 \<le> fold (\<lambda>i d. modQ (d + f i) q) [0..<n] c \<and> fold (\<lambda>i d. modQ (d + f i) q) [0..<n] c < q"
    using assms by (cases n) (simp_all add: modQ_eq)
qed

section \<open>What a ciphertext holds\<close>

text \<open>
  A ciphertext holds a value for a vector when the vector has its dimension and decrypts it to the value; the
  vector need not be the private key.
\<close>

definition holds :: "int \<Rightarrow> int list \<Rightarrow> FHECiphertext \<Rightarrow> int \<Rightarrow> bool" where
  "holds q s ct v \<longleftrightarrow> length (ct_a ct) = length s \<and> ct_b ct mod q = (v + (\<Sum>i<length s. ct_a ct ! i * s ! i)) mod q"

lemma fheDecrypt_holds:
  assumes "0 < q" "holds q s ct v"
  shows "fheDecrypt ct \<lparr>sk_s = s\<rparr> q = Inr (v mod q)"
proof -
  let ?S = "\<Sum>i<length s. ct_a ct ! i * s ! i"
  let ?d = "fold (\<lambda>i d. modQ (d + ct_a ct ! i * s ! i) q) [0..<length s] 0"
  have "?d mod q = ?S mod q" using fold_modQ(1) [OF assms(1), of _ "length s" 0] by simp
  then have "(ct_b ct - ?d) mod q = (v + ?S - ?S) mod q"
    using assms(2) by (intro mod_diff_cong) (simp_all add: holds_def)
  then show ?thesis using assms by (simp add: fheDecrypt_def holds_def modQ_eq)
qed

text \<open>
  The interface between the ciphertexts and the aggregations: the sum and the multiple of ciphertexts hold the
  sum and the multiple of what they hold.
\<close>

locale additive_scheme =
  fixes holds :: "'c \<Rightarrow> int \<Rightarrow> bool" and add :: "'c \<Rightarrow> 'c \<Rightarrow> 'c result" and scale :: "int \<Rightarrow> 'c \<Rightarrow> 'c"
  assumes add_law: "holds c v \<Longrightarrow> holds d w \<Longrightarrow> \<exists>e. add c d = Inr e \<and> holds e (v + w)"
    and scale_law: "holds c v \<Longrightarrow> holds (scale k c) (k * v)"
begin

lemma sum_loop:
  assumes "\<And>i. i < n \<Longrightarrow> holds (c i) (v i)" "0 < n"
  shows "\<exists>e. foldE (\<lambda>i acc. add acc (c i)) [1..<n] (c 0) = Inr e \<and> holds e (\<Sum>i<n. v i)"
  using assms
proof (induction n)
  case (Suc n)
  show ?case
  proof (cases "n = 0")
    case False
    with Suc obtain e where e: "foldE (\<lambda>i acc. add acc (c i)) [1..<n] (c 0) = Inr e" "holds e (\<Sum>i<n. v i)" by auto
    have "holds (c n) (v n)" using Suc.prems by simp
    from add_law [OF e(2) this] e(1) False show ?thesis by (auto simp: foldE_append)
  qed (use Suc.prems in simp)
qed simp

lemma combination_loop:
  assumes "\<And>i. i < n \<Longrightarrow> holds (c i) (v i)" "0 < n"
  shows "\<exists>e. foldE (\<lambda>i acc. add acc (scale (k i) (c i))) [1..<n] (scale (k 0) (c 0)) = Inr e \<and> holds e (\<Sum>i<n. k i * v i)"
  using sum_loop [of n "\<lambda>i. scale (k i) (c i)" "\<lambda>i. k i * v i"] assms scale_law by simp

end

lemma sum_mod_factors: "(\<Sum>i<n. f i mod q * g i) mod q = (\<Sum>i<n. f i * g i) mod (q :: int)"
proof -
  have "(\<Sum>i<n. f i mod q * g i) mod q = (\<Sum>i<n. f i mod q * g i mod q) mod q" by (simp only: mod_sum_eq)
  also have "\<dots> = (\<Sum>i<n. f i * g i) mod q" by (simp only: mod_mult_left_eq mod_sum_eq)
  finally show ?thesis .
qed

lemma holds_add:
  assumes "0 < q" "holds q s c v" "holds q s d w"
  shows "\<exists>e. fheAdd c d q = Inr e \<and> holds q s e (v + w)"
proof -
  let ?e = "\<lparr>ct_a = map (\<lambda>i. modQ (ct_a c ! i + ct_a d ! i) q) [0..<length (ct_a c)], ct_b = modQ (ct_b c + ct_b d) q\<rparr>"
  have "(ct_b c + ct_b d) mod q = (v + w + (\<Sum>i<length s. (ct_a c ! i + ct_a d ! i) * s ! i)) mod q"
  proof -
    have "(ct_b c + ct_b d) mod q = ((v + (\<Sum>i<length s. ct_a c ! i * s ! i)) + (w + (\<Sum>i<length s. ct_a d ! i * s ! i))) mod q"
      using assms(2,3) unfolding holds_def by (metis mod_add_eq)
    then show ?thesis by (simp add: algebra_simps sum.distrib)
  qed
  also have "\<dots> = (v + w + (\<Sum>i<length s. (ct_a c ! i + ct_a d ! i) mod q * s ! i)) mod q"
    by (rule mod_add_cong [OF refl]) (simp only: sum_mod_factors)
  finally have "holds q s ?e (v + w)"
    using assms by (simp add: holds_def modQ_eq)
  then show ?thesis using assms(2,3) by (simp add: fheAdd_def holds_def)
qed

lemma holds_scale:
  assumes "0 < q" "holds q s c v"
  shows "holds q s (fheScalarMul k c q) (k * v)"
proof -
  have "ct_b c * (k mod q) mod q = (ct_b c mod q) * k mod q" by (simp add: mod_simps)
  also have "\<dots> = (v + (\<Sum>i<length s. ct_a c ! i * s ! i)) * k mod q"
    using assms(2) by (simp add: holds_def mod_mult_left_eq)
  also have "\<dots> = (k * v + (\<Sum>i<length s. ct_a c ! i * k * s ! i)) mod q"
    by (simp add: algebra_simps sum_distrib_left)
  also have "\<dots> = (k * v + (\<Sum>i<length s. (ct_a c ! i * (k mod q)) mod q * s ! i)) mod q"
    by (rule mod_add_cong [OF refl]) (simp only: sum_mod_factors mod_mult_right_eq)
  finally show ?thesis using assms by (simp add: holds_def fheScalarMul_def Let_def modQ_eq)
qed

interpretation fhe: additive_scheme "holds FHE_PRIME s" "\<lambda>c d. fheAdd c d FHE_PRIME" "\<lambda>k c. fheScalarMul k c FHE_PRIME"
  by unfold_locales (auto intro: holds_add holds_scale)

section \<open>Keys and encryption\<close>

definition wf_key :: "FHEPublicKey \<Rightarrow> nat \<Rightarrow> bool" where
  "wf_key pk n \<longleftrightarrow> pk_a pk \<noteq> [] \<and> (\<forall>row \<in> set (pk_a pk). length row = n) \<and> length (pk_b pk) = length (pk_a pk)"

text \<open>A vector solves the linear system that the public key states.\<close>

definition solves :: "int \<Rightarrow> FHEPublicKey \<Rightarrow> int list \<Rightarrow> bool" where
  "solves q pk s \<longleftrightarrow> (\<forall>i < length (pk_a pk). (\<Sum>j<length s. pk_a pk ! i ! j * s ! j) mod q = pk_b pk ! i mod q)"

definition in_range :: "int \<Rightarrow> FHECiphertext \<Rightarrow> bool" where
  "in_range q ct \<longleftrightarrow> (\<forall>a \<in> set (ct_a ct). 0 \<le> a \<and> a < q) \<and> 0 \<le> ct_b ct \<and> ct_b ct < q"

lemma keyRow_eq:
  "keyRow rnd n q s i =
    (map (\<lambda>j. randomFieldElement (rnd (n + i * n + j)) q) [0..<n],
     fold (\<lambda>j d. modQ (d + randomFieldElement (rnd (n + i * n + j)) q * s ! j) q) [0..<n] 0)"
proof -
  have "fold (\<lambda>j (row, d). (row @ [g j], modQ (d + g j * h j) q)) [0..<k] ([], 0) =
      (map g [0..<k], fold (\<lambda>j d. modQ (d + g j * h j) q) [0..<k] 0)" for g h :: "nat \<Rightarrow> int" and k
    by (induction k) simp_all
  then show ?thesis by (simp add: keyRow_def Let_def)
qed

lemma fheKeyGen_key:
  fixes rnd n
  assumes "0 < q" "1 \<le> m"
  defines "kp \<equiv> fheKeyGen rnd n m q"
  shows "wf_key (kp_publicKey kp) n" "length (sk_s (kp_privateKey kp)) = n" "solves q (kp_publicKey kp) (sk_s (kp_privateKey kp))"
proof -
  show "wf_key (kp_publicKey kp) n" "length (sk_s (kp_privateKey kp)) = n"
    using assms(2) by (auto simp: kp_def fheKeyGen_def Let_def wf_key_def keyRow_eq)
  show "solves q (kp_publicKey kp) (sk_s (kp_privateKey kp))"
    using assms(1) by (simp add: kp_def fheKeyGen_def Let_def solves_def keyRow_eq fold_modQ)
qed

lemma linear_swap:
  fixes q :: int
  assumes "\<And>i. i < m \<Longrightarrow> (\<Sum>j<n. a i j * s j) mod q = b i mod q"
  shows "(\<Sum>j<n. (\<Sum>i<m. a i j * r i) * s j) mod q = (\<Sum>i<m. b i * r i) mod q"
proof -
  have "(\<Sum>j<n. (\<Sum>i<m. a i j * r i) * s j) = (\<Sum>j<n. \<Sum>i<m. a i j * s j * r i)"
    by (simp add: sum_distrib_left ac_simps)
  also have "\<dots> = (\<Sum>i<m. (\<Sum>j<n. a i j * s j) * r i)"
    by (subst sum.swap) (simp add: sum_distrib_right)
  also have "\<dots> mod q = (\<Sum>i<m. (\<Sum>j<n. a i j * s j) mod q * r i) mod q"
    by (rule sum_mod_factors [symmetric])
  also have "(\<Sum>i<m. (\<Sum>j<n. a i j * s j) mod q * r i) = (\<Sum>i<m. b i mod q * r i)"
    using assms by simp
  finally show ?thesis by (simp only: sum_mod_factors)
qed

lemma fheEncrypt_holds:
  assumes "0 < q" "wf_key pk (length s)" "solves q pk s" "secretToBigInt plaintext = Inr v"
  shows "\<exists>ct. fheEncrypt rnd plaintext pk q = Inr ct \<and> holds q s ct v \<and> in_range q ct"
proof -
  let ?m = "length (pk_a pk)" and ?n = "length s"
  let ?r = "\<lambda>i. bigint_rem (randomFieldElement (rnd i) q) 7 + 1"
  let ?A = "\<lambda>j. fold (\<lambda>i d. modQ (d + pk_a pk ! i ! j * ?r i) q) [0..<?m] 0"
  let ?b = "fold (\<lambda>i d. modQ (d + pk_b pk ! i * ?r i) q) [0..<?m] v"
  let ?ct = "\<lparr>ct_a = map ?A [0..<?n], ct_b = ?b\<rparr>"
  have row: "i < ?m \<Longrightarrow> length (pk_a pk ! i) = ?n" for i using assms(2) by (simp add: wf_key_def)
  have m: "0 < ?m" "length (pk_b pk) = ?m" using assms(2) by (simp_all add: wf_key_def)
  have "mapE (\<lambda>j. foldE (\<lambda>i d. bindE (elem_at (pk_a pk) i) (\<lambda>row. bindE (elem_at row j) (\<lambda>a.
      Inr (modQ (d + a * map ?r [0..<?m] ! i) q)))) [0..<?m] 0) [0..<?n] = Inr (map ?A [0..<?n])"
    using row by (intro mapE_all_Inr foldE_Inr') (simp add: elem_at_def)
  moreover have "foldE (\<lambda>i d. bindE (elem_at (pk_b pk) i) (\<lambda>b. Inr (modQ (d + b * map ?r [0..<?m] ! i) q))) [0..<?m] v = Inr ?b"
    using m by (intro foldE_Inr') (simp add: elem_at_def)
  moreover have "elem_at (pk_a pk) 0 = Inr (pk_a pk ! 0)" "length (pk_a pk ! 0) = ?n"
    using m(1) row by (simp_all add: elem_at_def)
  ultimately have "fheEncrypt rnd plaintext pk q = Inr ?ct"
    using assms(4) by (simp add: fheEncrypt_def Let_def)
  moreover have "holds q s ?ct v"
  proof -
    have A: "?A j mod q = (\<Sum>i<?m. pk_a pk ! i ! j * ?r i) mod q" for j
      using fold_modQ(1) [OF assms(1), of "\<lambda>i. pk_a pk ! i ! j * ?r i" ?m 0] by (simp only: add_0)
    have "(\<Sum>j<?n. ?A j * s ! j) mod q = (\<Sum>j<?n. ?A j mod q * s ! j) mod q" by (simp only: sum_mod_factors)
    also have "\<dots> = (\<Sum>j<?n. (\<Sum>i<?m. pk_a pk ! i ! j * ?r i) * s ! j) mod q" by (simp only: A sum_mod_factors)
    also have "\<dots> = (\<Sum>i<?m. pk_b pk ! i * ?r i) mod q"
      using assms(3) by (intro linear_swap) (simp add: solves_def)
    finally have "(v + (\<Sum>j<?n. ?A j * s ! j)) mod q = (v + (\<Sum>i<?m. pk_b pk ! i * ?r i)) mod q"
      by (rule mod_add_cong [OF refl])
    also have "\<dots> = ?b mod q"
      by (rule fold_modQ(1) [OF assms(1), symmetric])
    finally show ?thesis by (simp add: holds_def)
  qed
  moreover have "in_range q ?ct"
    using fold_modQ(2) [OF assms(1) m(1)] by (auto simp: in_range_def)
  ultimately show ?thesis by blast
qed

section \<open>The textual form\<close>

lemma length_to_radix: "2 \<le> b \<Longrightarrow> 1 \<le> w \<Longrightarrow> n < b ^ w \<Longrightarrow> length (to_radix b n) \<le> w"
proof (induction b n arbitrary: w rule: to_radix.induct)
  case (1 b n)
  show ?case
  proof (cases "n < b")
    case False
    then have "w \<noteq> 1" using 1 by auto
    then obtain w' where w: "w = Suc w'" "1 \<le> w'" using 1 by (cases w) auto
    then have "n div b < b ^ w'" using 1 by (simp add: less_mult_imp_div_less mult.commute)
    then have "length (to_radix b (n div b)) \<le> w'" using 1 False w(2) by simp
    with False 1 w show ?thesis by (simp add: to_radix.simps [of b n])
  qed (use 1 in \<open>simp add: to_radix.simps [of b n]\<close>)
qed

lemma length_hex_str:
  assumes "0 \<le> v" "v < FHE_PRIME"
  shows "length (bigint_hex_str v) \<le> 64"
proof -
  have "nat v < 16 ^ 64" using assms by (simp add: FHE_PRIME_def nat_less_iff)
  then show ?thesis using assms(1) length_to_radix [of 16 64 "nat v"] by (simp add: bigint_hex_str_def)
qed

lemma hex32:
  assumes "0 \<le> v" "v < FHE_PRIME"
  shows "length (bigIntToHex32 v) = 64" "BigInt (''0x'' @ bigIntToHex32 v) = Inr v"
  using assms length_hex_str [OF assms] BigInt_pad [OF assms(1), of 64]
  by (simp_all add: bigIntToHex32_def modQ_eq pad_start_def)

lemma concat_block:
  "(\<And>b. b \<in> set bs \<Longrightarrow> length b = w) \<Longrightarrow> i < length bs \<Longrightarrow> js_slice (concat bs) (w * i) (w * i + w) = bs ! i"
proof (induction bs arbitrary: i)
  case (Cons b bs)
  show ?case
  proof (cases i)
    case (Suc j)
    with Cons have "js_slice (concat bs) (w * j) (w * j + w) = bs ! j" by simp
    with Suc Cons.prems show ?thesis by (simp add: js_slice_def add.commute)
  qed (use Cons.prems in \<open>simp add: js_slice_def\<close>)
qed simp

lemma serialize_inverse:
  assumes "in_range FHE_PRIME ct" "ct_a ct \<noteq> []" "int (length (ct_a ct)) < FHE_PRIME"
  shows "deserializeFheCiphertext (serializeFheCiphertext ct) = Inr ct"
proof -
  let ?n = "length (ct_a ct)" and ?bs = "map bigIntToHex32 (int (length (ct_a ct)) # ct_a ct @ [ct_b ct])"
  have val: "0 \<le> v \<and> v < FHE_PRIME" if "v \<in> set (int ?n # ct_a ct @ [ct_b ct])" for v
    using that assms by (auto simp: in_range_def)
  have slice: "js_slice (concat ?bs) (64 * i) (64 * i + 64) = ?bs ! i" if "i < ?n + 2" for i
    using that val hex32(1) by (intro concat_block) auto
  have at: "BigInt (''0x'' @ ?bs ! i) = Inr ((int ?n # ct_a ct @ [ct_b ct]) ! i)" if "i < ?n + 2" for i
  proof -
    have "?bs ! i = bigIntToHex32 ((int ?n # ct_a ct @ [ct_b ct]) ! i)" using that by (intro nth_map) simp
    moreover have "(int ?n # ct_a ct @ [ct_b ct]) ! i \<in> set (int ?n # ct_a ct @ [ct_b ct])" using that by (intro nth_mem) simp
    ultimately show ?thesis using val hex32(2) by metis
  qed
  have hex: "cleanHex (serializeFheCiphertext ct) = concat ?bs"
    by (simp add: cleanHex_def serializeFheCiphertext_def starts_with_def)
  have "length (concat ?bs) = 64 * (?n + 2)"
    using val hex32(1) by (simp add: length_concat comp_def sum_list_triv cong: map_cong)
  then have long: "\<not> length (concat ?bs) < 64 * 3" using assms(2) by (cases "ct_a ct") auto
  have "BigInt (''0x'' @ js_slice (concat ?bs) 0 64) = Inr (int ?n)"
    using slice [of 0] at [of 0] by simp
  moreover have "mapE (\<lambda>i. BigInt (''0x'' @ js_slice (concat ?bs) (64 + 64 * i) (128 + 64 * i))) [0..<?n] = Inr (map (\<lambda>i. ct_a ct ! i) [0..<?n])"
  proof (rule mapE_all_Inr)
    fix i assume "i \<in> set [0..<?n]"
    then show "BigInt (''0x'' @ js_slice (concat ?bs) (64 + 64 * i) (128 + 64 * i)) = Inr (ct_a ct ! i)"
      using slice [of "Suc i"] at [of "Suc i"] by (simp add: nth_append add.commute)
  qed
  moreover have "BigInt (''0x'' @ js_slice (concat ?bs) (64 + 64 * ?n) (128 + 64 * ?n)) = Inr (ct_b ct)"
    using slice [of "Suc ?n"] at [of "Suc ?n"] by (simp add: nth_append add.commute)
  ultimately show ?thesis
    using long hex by (simp add: deserializeFheCiphertext_def Let_def map_nth)
qed

section \<open>Interpolation\<close>

lemma lagrange_products:
  assumes "0 < q"
  shows "\<exists>num den. fold (\<lambda>j (num, den). if i = j then (num, den)
      else (modQ (num * x j) q, modQ (den * (x j - x i)) q)) [0..<k] (1, 1) = (num, den)
    \<and> num mod q = (\<Prod>j\<in>{..<k} - {i}. x j) mod q \<and> den mod q = (\<Prod>j\<in>{..<k} - {i}. x j - x i) mod q"
proof (induction k)
  case (Suc k)
  then obtain num den where IH: "fold (\<lambda>j (num, den). if i = j then (num, den)
      else (modQ (num * x j) q, modQ (den * (x j - x i)) q)) [0..<k] (1, 1) = (num, den)"
    "num mod q = (\<Prod>j\<in>{..<k} - {i}. x j) mod q" "den mod q = (\<Prod>j\<in>{..<k} - {i}. x j - x i) mod q"
    by blast
  show ?case
  proof (cases "i = k")
    case True
    then have "{..<Suc k} - {i} = {..<k} - {i}" by auto
    with IH True show ?thesis by simp
  next
    case False
    then have "{..<Suc k} - {i} = insert k ({..<k} - {i})" by auto
    then have "(\<Prod>j\<in>{..<Suc k} - {i}. x j) = x k * (\<Prod>j\<in>{..<k} - {i}. x j)"
        "(\<Prod>j\<in>{..<Suc k} - {i}. x j - x i) = (x k - x i) * (\<Prod>j\<in>{..<k} - {i}. x j - x i)" by simp_all
    moreover have "num * x k mod q = x k * (\<Prod>j\<in>{..<k} - {i}. x j) mod q"
        "den * (x k - x i) mod q = (x k - x i) * (\<Prod>j\<in>{..<k} - {i}. x j - x i) mod q"
      using IH(2,3) by (metis mod_mult_left_eq mult.commute)+
    ultimately show ?thesis using IH(1) False assms by (simp add: modQ_eq)
  qed
qed simp

lemma computeLagrangeCoefficients_spec:
  assumes "is_prime q" "\<And>i j. i < length xs \<Longrightarrow> j < length xs \<Longrightarrow> i \<noteq> j \<Longrightarrow> xs ! i mod q \<noteq> xs ! j mod q"
  shows "\<exists>ls. computeLagrangeCoefficients xs q = Inr ls \<and> length ls = length xs \<and> (\<forall>i < length xs.
    ls ! i * (\<Prod>j\<in>{..<length xs} - {i}. xs ! j mod q - xs ! i mod q) mod q = (\<Prod>j\<in>{..<length xs} - {i}. xs ! j mod q) mod q)"
proof -
  let ?n = "length xs" and ?x = "\<lambda>j. xs ! j mod q" and ?ps = "map (\<lambda>x. modQ x q) xs"
  have q: "1 < q" using is_prime_gt_1 [OF assms(1)] .
  have "\<exists>l. lagrangeCoefficient ?ps q i = Inr l \<and> l * (\<Prod>j\<in>{..<?n} - {i}. ?x j - ?x i) mod q = (\<Prod>j\<in>{..<?n} - {i}. ?x j) mod q"
    if i: "i < ?n" for i
  proof -
    let ?D = "\<Prod>j\<in>{..<?n} - {i}. ?x j - ?x i" and ?N = "\<Prod>j\<in>{..<?n} - {i}. ?x j"
    let ?f = "\<lambda>x. fold (\<lambda>j (num, den). if i = j then (num, den) else (modQ (num * x j) q, modQ (den * (x j - x i)) q)) [0..<?n] (1, 1)"
    obtain num den where nd: "?f ?x = (num, den)" "num mod q = ?N mod q" "den mod q = ?D mod q"
      using lagrange_products [of q i ?x ?n] q by auto
    have "?f (\<lambda>j. ?ps ! j) = ?f ?x"
      using i q by (intro fold_cong) (auto simp: modQ_eq)
    with nd(1) have f: "?f (\<lambda>j. ?ps ! j) = (num, den)" by simp
    have "\<not> q dvd ?x j - ?x i" if "j \<in> {..<?n} - {i}" for j
      using assms(2) [of j i] that i by (metis DiffE insertCI lessThan_iff mod_eq_dvd_iff mod_mod_trivial)
    then have "\<not> q dvd ?D" by (intro prime_not_dvd_prod [OF assms(1)]) auto
    then have "\<not> q dvd den" by (simp only: dvd_eq_mod_eq_0 nd(3) not_False_eq_True)
    then obtain w where w: "modInverseQ den q = Inr w" "den * w mod q = 1" using modInverseQ_prime [OF assms(1)] by blast
    have "modQ (num * w) q * ?D mod q = num * w * (?D mod q) mod q" using q by (simp add: modQ_eq mod_simps)
    also have "\<dots> = num * w * den mod q" by (simp only: nd(3) [symmetric] mod_mult_right_eq)
    also have "\<dots> = num * (den * w mod q) mod q" by (simp add: mod_mult_right_eq ac_simps)
    finally have "modQ (num * w) q * ?D mod q = ?N mod q" using w(2) nd(2) by simp
    with f w(1) show ?thesis by (simp add: lagrangeCoefficient_def)
  qed
  then obtain L where L: "\<And>i. i < ?n \<Longrightarrow> lagrangeCoefficient ?ps q i = Inr (L i)
      \<and> L i * (\<Prod>j\<in>{..<?n} - {i}. ?x j - ?x i) mod q = (\<Prod>j\<in>{..<?n} - {i}. ?x j) mod q"
    by metis
  then have "computeLagrangeCoefficients xs q = Inr (map L [0..<?n])"
    by (simp add: computeLagrangeCoefficients_def Let_def) (rule mapE_all_Inr, simp)
  with L show ?thesis by (intro exI [of _ "map L [0..<?n]"]) simp
qed

lemma lagrange_weights:
  assumes "is_prime q" "length xs = n" "\<And>i. i < n \<Longrightarrow> xs ! i = x i"
    and "\<And>i j. i < n \<Longrightarrow> j < n \<Longrightarrow> i \<noteq> j \<Longrightarrow> x i mod q \<noteq> x j mod q"
  shows "\<exists>ls. computeLagrangeCoefficients xs q = Inr ls
    \<and> (\<forall>i < n. ls ! i * (\<Prod>j\<in>{..<n} - {i}. x j mod q - x i mod q) mod q = (\<Prod>j\<in>{..<n} - {i}. x j mod q) mod q)"
proof -
  have prods: "(\<Prod>j\<in>{..<n} - {i}. xs ! j mod q - xs ! i mod q) = (\<Prod>j\<in>{..<n} - {i}. x j mod q - x i mod q)"
      "(\<Prod>j\<in>{..<n} - {i}. xs ! j mod q) = (\<Prod>j\<in>{..<n} - {i}. x j mod q)" if "i < n" for i
    using that assms(3) by (auto intro!: prod.cong)
  have "xs ! i mod q \<noteq> xs ! j mod q" if "i < length xs" "j < length xs" "i \<noteq> j" for i j
    using that assms(2-4) by simp
  from computeLagrangeCoefficients_spec [OF assms(1) this] show ?thesis
    using assms(2) prods by auto
qed

section \<open>Aggregation\<close>

lemma holds_mod: "v mod q = w mod q \<Longrightarrow> holds q s c v \<longleftrightarrow> holds q s c w"
proof -
  assume "v mod q = w mod q"
  then have "(v + a) mod q = (w + a) mod q" for a by (rule mod_add_cong) simp
  then show ?thesis by (simp add: holds_def)
qed

lemma aggregate_range:
  assumes "0 < q" "foldE (\<lambda>i acc. fheAdd acc (c i) q) is c0 = Inr e" "in_range q c0"
  shows "in_range q e"
  using assms(2,3)
proof (induction "is" arbitrary: c0)
  case (Cons i "is")
  then obtain e1 where e1: "fheAdd c0 (c i) q = Inr e1" "foldE (\<lambda>i acc. fheAdd acc (c i) q) is e1 = Inr e"
    by (auto simp: bindE_eq_Inr)
  have "in_range q e1"
    using e1(1) assms(1) by (auto simp: fheAdd_def in_range_def modQ_eq split: if_splits)
  with e1(2) show ?case by (rule Cons.IH)
qed simp

lemma scale_range: "0 < q \<Longrightarrow> in_range q (fheScalarMul k c q)"
  by (auto simp: fheScalarMul_def in_range_def modQ_eq Let_def)

lemma poly_at_mod: "poly_at cs (x mod q) mod q = poly_at cs x mod (q :: int)"
proof (induction cs)
  case (Cons c cs)
  have "(x mod q) * poly_at cs (x mod q) mod q = x * poly_at cs x mod q"
    by (rule mod_mult_cong [OF mod_mod_trivial Cons])
  from mod_add_cong [OF refl this, of c] show ?case by simp
qed simp

lemma foldE_cong: "(\<And>i s. i \<in> set is \<Longrightarrow> f i s = g i s) \<Longrightarrow> foldE f is s = foldE g is s"
  by (induction "is" arbitrary: s) (auto simp: bindE_def split: sum.split)

lemma threshold_aggregate:
  assumes "1 \<le> k" "k \<le> length shares" "length cs \<le> k"
    and held: "\<And>i. i < k \<Longrightarrow> holds FHE_PRIME s (sh_ciphertext (shares ! i)) (poly_at cs (sh_index (shares ! i)))"
    and dist: "\<And>i j. i < k \<Longrightarrow> j < k \<Longrightarrow> i \<noteq> j \<Longrightarrow> sh_index (shares ! i) mod FHE_PRIME \<noteq> sh_index (shares ! j) mod FHE_PRIME"
  shows "\<exists>e. fheThresholdAggregate shares k FHE_PRIME = Inr e \<and> holds FHE_PRIME s e (poly_at cs 0) \<and> in_range FHE_PRIME e"
proof -
  let ?q = FHE_PRIME and ?act = "take k shares" and ?x = "\<lambda>i. sh_index (shares ! i)" and ?c = "\<lambda>i. sh_ciphertext (shares ! i)"
  have len: "length ?act = k" and act: "\<And>i. i < k \<Longrightarrow> ?act ! i = shares ! i" using assms(2) by simp_all
  obtain ls where ls: "computeLagrangeCoefficients (map sh_index ?act) ?q = Inr ls"
      "\<And>i. i < k \<Longrightarrow> ls ! i * (\<Prod>j\<in>{..<k} - {i}. ?x j mod ?q - ?x i mod ?q) mod ?q = (\<Prod>j\<in>{..<k} - {i}. ?x j mod ?q) mod ?q"
    using lagrange_weights [OF prime_FHE, of "map sh_index ?act" k ?x] len act dist by auto
  obtain e where e: "foldE (\<lambda>i acc. fheAdd acc (fheScalarMul (ls ! i) (?c i) ?q) ?q) [1..<k] (fheScalarMul (ls ! 0) (?c 0) ?q) = Inr e"
      "holds ?q s e (\<Sum>i<k. ls ! i * poly_at cs (?x i))"
    using fhe.combination_loop [of k s ?c "\<lambda>i. poly_at cs (?x i)" "\<lambda>i. ls ! i"] held assms(1) by auto
  have "(\<Sum>i<k. poly_at cs (?x i) * ls ! i) mod ?q = poly_at cs 0 mod ?q"
  proof (rule lagrange_mod [OF prime_FHE assms(3), where x = "\<lambda>i. ?x i mod ?q"])
    show "poly_at cs (?x i) mod ?q = poly_at cs (?x i mod ?q) mod ?q" for i
      by (rule poly_at_mod [symmetric])
  qed (use dist ls(2) in simp_all)
  then have "holds ?q s e (poly_at cs 0)"
    using e(2) holds_mod [of "\<Sum>i<k. ls ! i * poly_at cs (?x i)" ?q "poly_at cs 0" s e] by (simp add: mult.commute)
  moreover have "fheThresholdAggregate shares k ?q = Inr e"
  proof -
    have "foldE (\<lambda>i acc. fheAdd acc (fheScalarMul (ls ! i) (sh_ciphertext (?act ! i)) ?q) ?q) [1..<k] c0 =
        foldE (\<lambda>i acc. fheAdd acc (fheScalarMul (ls ! i) (?c i) ?q) ?q) [1..<k] c0" for c0
      by (intro foldE_cong) (simp add: act)
    moreover have "elem_at ?act 0 = Inr (shares ! 0)" "\<not> length shares < k"
      using len act [of 0] assms(1,2) by (auto simp: elem_at_def)
    ultimately show ?thesis
      using e(1) by (simp only: fheThresholdAggregate_def Let_def ls(1) bindE_simps len if_False)
  qed
  moreover have "in_range ?q e" using aggregate_range [OF _ e(1) scale_range] by simp
  ultimately show ?thesis by blast
qed

section \<open>The service\<close>

lemma horner_eq: "hornerShare coeffs j = poly_at coeffs (int j) mod FHE_PRIME"
proof -
  have "fold (\<lambda>c y. modQ (y * x + coeffs ! c) FHE_PRIME) (rev [0..<length coeffs]) 0 = poly_at coeffs x mod FHE_PRIME" for x
  proof (induction coeffs)
    case (Cons c cs)
    have "rev [0..<length (c # cs)] = rev (map Suc [0..<length cs]) @ [0]"
      by (simp add: map_Suc_upt upt_conv_Cons del: upt_Suc)
    from this have "fold (\<lambda>i y. modQ (y * x + (c # cs) ! i) FHE_PRIME) (rev [0..<length (c # cs)]) 0 =
        modQ (fold (\<lambda>i y. modQ (y * x + cs ! i) FHE_PRIME) (rev [0..<length cs]) 0 * x + c) FHE_PRIME"
      by (simp add: rev_map fold_map comp_def)
    also have "\<dots> = (poly_at cs x mod FHE_PRIME * x + c) mod FHE_PRIME" by (subst Cons.IH) (simp only: modQ_eq FHE_PRIME_pos)
    also have "\<dots> = (poly_at cs x * x + c) mod FHE_PRIME" by (rule mod_add_cong) (simp_all only: mod_mult_left_eq)
    finally show ?case by (simp only: poly_at_Cons add.commute [of c] mult.commute [of x])
  qed simp
  then show ?thesis by (simp add: hornerShare_def)
qed

lemma encryptShare_spec:
  assumes "wf_key pk (length s)" "solves FHE_PRIME pk s" "s \<noteq> []" "int (length s) < FHE_PRIME"
  shows "\<exists>ct. encryptShare enc pk j share = Inr (serializeFheCiphertext ct)
    \<and> deserializeFheCiphertext (serializeFheCiphertext ct) = Inr ct \<and> in_range FHE_PRIME ct \<and> holds FHE_PRIME s ct share"
proof -
  have "secretToBigInt (SecretBigInt share) = Inr (share mod FHE_PRIME)" by (simp add: secretToBigInt_def modQ_eq)
  from fheEncrypt_holds [OF _ assms(1,2) this] obtain ct where
      ct: "fheEncrypt (enc j) (SecretBigInt share) pk FHE_PRIME = Inr ct" "holds FHE_PRIME s ct (share mod FHE_PRIME)" "in_range FHE_PRIME ct"
    by auto
  have "holds FHE_PRIME s ct share" using ct(2) holds_mod [of share FHE_PRIME "share mod FHE_PRIME"] by simp
  moreover have "deserializeFheCiphertext (serializeFheCiphertext ct) = Inr ct"
    using ct(2,3) assms(3,4) by (intro serialize_inverse) (auto simp: holds_def)
  ultimately show ?thesis using ct(1,3) by (auto simp: encryptShare_def)
qed

lemma decryptAggregate_holds:
  assumes "holds FHE_PRIME s e v" "in_range FHE_PRIME e" "s \<noteq> []" "int (length s) < FHE_PRIME"
  shows "decryptAggregateCiphertext (serializeFheCiphertext e) \<lparr>sk_s = s\<rparr> = Inr (bigIntToHex32 v)"
proof -
  have "deserializeFheCiphertext (serializeFheCiphertext e) = Inr e"
    using assms by (intro serialize_inverse) (auto simp: holds_def)
  moreover have "bigIntToHex32 (v mod FHE_PRIME) = bigIntToHex32 v" by (simp add: bigIntToHex32_def modQ_eq)
  ultimately show ?thesis
    using fheDecrypt_holds [OF _ assms(1)] by (simp add: decryptAggregateCiphertext_def fheDecryptToHex_def)
qed

lemma mapE_append: "mapE f (xs @ ys) = bindE (mapE f xs) (\<lambda>as. bindE (mapE f ys) (\<lambda>bs. Inr (as @ bs)))"
  by (induction xs) (auto simp: bindE_def split: sum.split)

lemma sk_eta: "\<lparr>sk_s = sk_s p\<rparr> = p"
  by (cases p) simp

lemma generateKeypair_key:
  "wf_key (kp_publicKey (generateKeypair rnd)) (length (sk_s (kp_privateKey (generateKeypair rnd))))"
  "solves FHE_PRIME (kp_publicKey (generateKeypair rnd)) (sk_s (kp_privateKey (generateKeypair rnd)))"
  "length (sk_s (kp_privateKey (generateKeypair rnd))) = 2"
  using fheKeyGen_key [where q = FHE_PRIME and m = 4 and n = 2] by (simp_all add: generateKeypair_def FHE_LWE_DIMENSION_def)

lemma two_less_prime: "int 2 < FHE_PRIME"
  by (simp add: FHE_PRIME_def)

lemma hex_secret:
  assumes "parse_digits 16 (cleanHex secretHex) = Some v" "length (cleanHex secretHex) = 64" "int v < FHE_PRIME"
  shows "secretToBigInt (SecretHex secretHex) = Inr (int v)" "bigIntToHex32 (int v) = map lower (cleanHex secretHex)"
proof -
  have "BigInt (''0x'' @ cleanHex secretHex) = Inr (int v)" using BigInt_hex [OF assms(1)] by simp
  then show "secretToBigInt (SecretHex secretHex) = Inr (int v)" using assms(3) by (simp add: secretToBigInt_def modQ_eq)
  show "bigIntToHex32 (int v) = map lower (cleanHex secretHex)"
    using assms(3) reprint_hex [OF assms(1)] by (simp add: bigIntToHex32_def modQ_eq assms(2) bigint_hex_str_def)
qed

lemma aggregate_threshold_shares:
  assumes "\<And>j. deserializeFheCiphertext (serializeFheCiphertext (C j)) = Inr (C j)" "\<And>j. holds FHE_PRIME s (C j) (poly_at cs (int j))"
    and "\<And>p. p \<in> set sub \<Longrightarrow> snd p = serializeFheCiphertext (C (fst p)) \<and> int (fst p) < FHE_PRIME"
    and "distinct (map fst sub)" "1 \<le> k" "k \<le> length sub" "length cs \<le> k"
  shows "\<exists>e. aggregateThresholdShares sub k = Inr (serializeFheCiphertext e) \<and> holds FHE_PRIME s e (poly_at cs 0) \<and> in_range FHE_PRIME e"
proof -
  let ?sh = "\<lambda>p. \<lparr>sh_index = int (fst p), sh_ciphertext = C (fst p)\<rparr>"
  have "(case p of (i, hex) \<Rightarrow> bindE (deserializeFheCiphertext hex) (\<lambda>ct. Inr \<lparr>sh_index = int i, sh_ciphertext = ct\<rparr>)) = Inr (?sh p)"
    if "p \<in> set sub" for p
    using assms(1) assms(3) [OF that] by (cases p) simp
  then have "mapE (\<lambda>(i, hex). bindE (deserializeFheCiphertext hex) (\<lambda>ct. Inr \<lparr>sh_index = int i, sh_ciphertext = ct\<rparr>)) sub = Inr (map ?sh sub)"
    by (rule mapE_all_Inr)
  moreover have "\<exists>e. fheThresholdAggregate (map ?sh sub) k FHE_PRIME = Inr e \<and> holds FHE_PRIME s e (poly_at cs 0) \<and> in_range FHE_PRIME e"
  proof (rule threshold_aggregate)
    fix i j assume ij: "i < k" "j < k" "i \<noteq> j"
    then have "fst (sub ! i) \<noteq> fst (sub ! j)" using assms(4,6) by (simp add: distinct_conv_nth)
    then show "sh_index (map ?sh sub ! i) mod FHE_PRIME \<noteq> sh_index (map ?sh sub ! j) mod FHE_PRIME"
      using ij assms(3) [of "sub ! i"] assms(3) [of "sub ! j"] assms(6) by simp
  qed (use assms in simp_all)
  ultimately show ?thesis by (auto simp: aggregateThresholdShares_def)
qed

text \<open>
  C12. Keys split by the service come back: for a fresh key pair and a key of 64 hexadecimal digits below the
  modulus, encrypted Shamir shares can be made for every threshold up to the number of guardians, and from any
  sufficiently large set of distinct shares the aggregation of the ciphertexts and one decryption give the key
  in lower case.
\<close>

theorem threshold_shares_recover:
  assumes "parse_digits 16 (cleanHex secretHex) = Some v" "length (cleanHex secretHex) = 64" "int v < FHE_PRIME"
    and "1 \<le> k" "k \<le> n" "int n < FHE_PRIME"
  shows "\<exists>plain shares. createThresholdSharesFHE rnd enc secretHex n k (kp_publicKey (generateKeypair rnd0)) = Inr (plain, shares)
    \<and> map fst shares = [1..<n + 1]
    \<and> (\<forall>sub. set sub \<subseteq> set shares \<and> distinct sub \<and> k \<le> length sub \<longrightarrow>
        (\<exists>agg. aggregateThresholdShares sub k = Inr agg
          \<and> decryptAggregateCiphertext agg (kp_privateKey (generateKeypair rnd0)) = Inr (map lower (cleanHex secretHex))))"
proof -
  let ?pk = "kp_publicKey (generateKeypair rnd0)" and ?s = "sk_s (kp_privateKey (generateKeypair rnd0))"
  let ?cs = "int v # map (\<lambda>i. randomShare (rnd i)) [0..<k - 1]"
  note key = generateKeypair_key [of rnd0]
  have s: "?s \<noteq> []" "int (length ?s) < FHE_PRIME" using key(3) two_less_prime by (auto simp del: of_nat_numeral)
  have "\<forall>j. \<exists>ct. encryptShare enc ?pk j (hornerShare ?cs j) = Inr (serializeFheCiphertext ct)
      \<and> deserializeFheCiphertext (serializeFheCiphertext ct) = Inr ct \<and> holds FHE_PRIME ?s ct (hornerShare ?cs j)"
    using encryptShare_spec [OF key(1,2) s] by blast
  from choice [OF this] obtain C where C: "\<And>j. encryptShare enc ?pk j (hornerShare ?cs j) = Inr (serializeFheCiphertext (C j))"
      "\<And>j. deserializeFheCiphertext (serializeFheCiphertext (C j)) = Inr (C j)" "\<And>j. holds FHE_PRIME ?s (C j) (hornerShare ?cs j)"
    by blast
  have held: "holds FHE_PRIME ?s (C j) (poly_at ?cs (int j))" for j
    using C(3) [of j] holds_mod [of "hornerShare ?cs j" FHE_PRIME "poly_at ?cs (int j)" ?s] by (simp add: horner_eq)
  let ?plain = "map (\<lambda>j. (j, hornerShare ?cs j)) [1..<n + 1]" and ?shares = "map (\<lambda>j. (j, serializeFheCiphertext (C j))) [1..<n + 1]"
  have "mapE (\<lambda>(j, y). bindE (encryptShare enc ?pk j y) (\<lambda>hex. Inr (j, hex))) ?plain =
      Inr (map (\<lambda>p. (fst p, serializeFheCiphertext (C (fst p)))) ?plain)"
    using C(1) by (intro mapE_all_Inr) auto
  then have create: "createThresholdSharesFHE rnd enc secretHex n k ?pk = Inr (?plain, ?shares)"
    using hex_secret(1) [OF assms(1-3)] assms(4,5) by (simp add: createThresholdSharesFHE_def Let_def comp_def)
  have "\<exists>agg. aggregateThresholdShares sub k = Inr agg
      \<and> decryptAggregateCiphertext agg (kp_privateKey (generateKeypair rnd0)) = Inr (map lower (cleanHex secretHex))"
    if sub: "set sub \<subseteq> set ?shares" "distinct sub" "k \<le> length sub" for sub
  proof -
    have p: "snd p = serializeFheCiphertext (C (fst p)) \<and> int (fst p) < FHE_PRIME" if "p \<in> set sub" for p
      using that sub(1) assms(6) by auto
    then have "inj_on fst (set sub)" by (intro inj_onI prod_eqI) (assumption, metis)
    then have "distinct (map fst sub)" using sub(2) by (simp add: distinct_map)
    from aggregate_threshold_shares [OF C(2) held p this assms(4) sub(3)] obtain e where
        "aggregateThresholdShares sub k = Inr (serializeFheCiphertext e)" "holds FHE_PRIME ?s e (poly_at ?cs 0)" "in_range FHE_PRIME e"
      using assms(4) by auto
    then show ?thesis
      using decryptAggregate_holds [OF _ _ s] hex_secret(2) [OF assms(1-3)] by (auto simp: sk_eta)
  qed
  with create show ?thesis by (intro exI conjI) (auto simp: comp_def simp del: set_map)
qed

text \<open>A source of randomness for the concrete instances: the blocks 0, 1, 2 and 5 are one, the others zero.\<close>

definition sampleRnd :: "nat \<Rightarrow> nat \<Rightarrow> byte" where
  "sampleRnd i j = (if j = 31 \<and> i \<in> {0, 1, 2, 5} then 1 else 0)"

definition sampleSecret :: string where
  "sampleSecret = ''0x'' @ replicate 63 CHR ''0'' @ ''B''"

lemma sampleSecret_clean: "cleanHex sampleSecret = replicate 63 CHR ''0'' @ ''B''"
  by (simp add: sampleSecret_def cleanHex_def starts_with_def)

lemma sampleSecret_parse:
  "parse_digits 16 (cleanHex sampleSecret) = Some 11" "length (cleanHex sampleSecret) = 64" "int 11 < FHE_PRIME"
proof -
  show "parse_digits 16 (cleanHex sampleSecret) = Some 11"
    unfolding sampleSecret_clean using digits_acc_zeros [of 16 63 "''B''"] by (simp add: parse_digits_def digit_val_def Let_def)
  show "length (cleanHex sampleSecret) = 64" "int 11 < FHE_PRIME"
    by (simp_all add: sampleSecret_clean FHE_PRIME_def)
qed

theorem threshold_shares_recover_witness:
  "\<exists>plain shares agg. createThresholdSharesFHE sampleRnd (\<lambda>_. sampleRnd) sampleSecret 3 2 (kp_publicKey (generateKeypair sampleRnd)) = Inr (plain, shares)
    \<and> aggregateThresholdShares (drop 1 shares) 2 = Inr agg
    \<and> decryptAggregateCiphertext agg (kp_privateKey (generateKeypair sampleRnd)) = Inr (replicate 63 CHR ''0'' @ ''b'')"
proof -
  note sampleSecret_parse
  moreover have "int 3 < FHE_PRIME" by (simp add: FHE_PRIME_def)
  ultimately obtain plain shares where s:
      "createThresholdSharesFHE sampleRnd (\<lambda>_. sampleRnd) sampleSecret 3 2 (kp_publicKey (generateKeypair sampleRnd)) = Inr (plain, shares)"
      "map fst shares = [1..<4]" "\<And>sub. set sub \<subseteq> set shares \<Longrightarrow> distinct sub \<Longrightarrow> 2 \<le> length sub \<Longrightarrow> \<exists>agg. aggregateThresholdShares sub 2 = Inr agg
        \<and> decryptAggregateCiphertext agg (kp_privateKey (generateKeypair sampleRnd)) = Inr (map lower (cleanHex sampleSecret))"
    using threshold_shares_recover [of sampleSecret 11 2 3 sampleRnd "\<lambda>_. sampleRnd" sampleRnd] by auto
  have "distinct (map fst shares)" "length (map fst shares) = 3" by (simp_all add: s(2))
  then have "distinct shares" "length shares = 3" by (simp_all add: distinct_map)
  then obtain agg where "aggregateThresholdShares (drop 1 shares) 2 = Inr agg"
      "decryptAggregateCiphertext agg (kp_privateKey (generateKeypair sampleRnd)) = Inr (map lower (cleanHex sampleSecret))"
    using s(3) [of "drop 1 shares"] set_drop_subset [of 1 shares] by auto
  moreover have "map lower (cleanHex sampleSecret) = replicate 63 CHR ''0'' @ ''b''"
    by (simp add: sampleSecret_clean lower_def char_of_def bit_numeral_rec bit_0)
  ultimately show ?thesis using s(1) by auto
qed

lemma additiveShares_sum:
  assumes "1 \<le> n"
  shows "length (additiveShares rnd v n) = n" "(\<Sum>i<n. additiveShares rnd v n ! i) mod FHE_PRIME = v mod FHE_PRIME"
proof -
  let ?f = "\<lambda>i. randomShare (rnd i)" and ?acc = "\<lambda>k. fold (\<lambda>i d. modQ (d + randomShare (rnd i)) FHE_PRIME) [0..<k] 0"
  have "fold (\<lambda>i (shares, acc). let share = ?f i in (shares @ [share], modQ (acc + share) FHE_PRIME)) [0..<k] ([], 0) = (map ?f [0..<k], ?acc k)" for k
    by (induction k) (simp_all add: Let_def)
  then have shares: "additiveShares rnd v n = map ?f [0..<n - 1] @ [modQ (v - ?acc (n - 1)) FHE_PRIME]"
    by (simp add: additiveShares_def)
  then show "length (additiveShares rnd v n) = n" using assms by simp
  obtain k where n: "n = Suc k" using assms by (cases n) auto
  have "(\<Sum>i<n. additiveShares rnd v n ! i) = (\<Sum>i<k. ?f i) + (v - ?acc k) mod FHE_PRIME"
    using shares unfolding n by (simp add: nth_append modQ_eq)
  also have "(v - ?acc k) mod FHE_PRIME = (v - (\<Sum>i<k. ?f i)) mod FHE_PRIME"
    using fold_modQ(1) [of FHE_PRIME ?f k 0] by (intro mod_diff_cong) simp_all
  also have "((\<Sum>i<k. ?f i) + (v - (\<Sum>i<k. ?f i)) mod FHE_PRIME) mod FHE_PRIME = ((\<Sum>i<k. ?f i) + (v - (\<Sum>i<k. ?f i))) mod FHE_PRIME"
    by (simp only: mod_add_right_eq)
  finally show "(\<Sum>i<n. additiveShares rnd v n ! i) mod FHE_PRIME = v mod FHE_PRIME" by simp
qed

text \<open>
  Additive shares come back as well: for a fresh key pair and a key below the modulus, the service makes an
  encrypted share for every guardian, and the aggregation of all of them and one decryption give the key.
\<close>

theorem additive_shares_recover:
  assumes "parse_digits 16 (cleanHex secretHex) = Some v" "length (cleanHex secretHex) = 64" "int v < FHE_PRIME" "1 \<le> n"
  shows "\<exists>plain shares agg. createAdditiveSharesFHE rnd enc secretHex n (kp_publicKey (generateKeypair rnd0)) = Inr (plain, shares)
    \<and> length shares = n \<and> aggregateAdditiveShares shares = Inr agg
    \<and> decryptAggregateCiphertext agg (kp_privateKey (generateKeypair rnd0)) = Inr (map lower (cleanHex secretHex))"
proof -
  let ?q = FHE_PRIME and ?pk = "kp_publicKey (generateKeypair rnd0)" and ?s = "sk_s (kp_privateKey (generateKeypair rnd0))"
  let ?sh = "additiveShares rnd (int v) n"
  note key = generateKeypair_key [of rnd0] and sh = additiveShares_sum [OF assms(4), of rnd "int v"]
  have s: "?s \<noteq> []" "int (length ?s) < ?q" using key(3) two_less_prime by (auto simp del: of_nat_numeral)
  have "\<forall>j. \<exists>ct. encryptShare enc ?pk j (?sh ! j) = Inr (serializeFheCiphertext ct)
      \<and> deserializeFheCiphertext (serializeFheCiphertext ct) = Inr ct \<and> in_range ?q ct \<and> holds ?q ?s ct (?sh ! j)"
    using encryptShare_spec [OF key(1,2) s] by blast
  from choice [OF this] obtain C where C: "\<And>j. encryptShare enc ?pk j (?sh ! j) = Inr (serializeFheCiphertext (C j))"
      "\<And>j. deserializeFheCiphertext (serializeFheCiphertext (C j)) = Inr (C j)" "\<And>j. in_range ?q (C j)" "\<And>j. holds ?q ?s (C j) (?sh ! j)"
    by blast
  let ?shares = "map (\<lambda>j. serializeFheCiphertext (C j)) [0..<n]"
  have create: "createAdditiveSharesFHE rnd enc secretHex n ?pk = Inr (?sh, ?shares)"
    using hex_secret(1) [OF assms(1-3)] assms(4) C(1) sh(1) mapE_all_Inr [of "[0..<n]" "\<lambda>j. encryptShare enc ?pk j (?sh ! j)"]
    by (simp add: createAdditiveSharesFHE_def Let_def)
  have cts: "mapE deserializeFheCiphertext ?shares = Inr (map C [0..<n])"
    using C(2) by (induction n) (simp_all add: mapE_append)
  obtain e where e: "foldE (\<lambda>i acc. fheAdd acc (C i) ?q) [1..<n] (C 0) = Inr e" "holds ?q ?s e (\<Sum>i<n. ?sh ! i)"
    using fhe.sum_loop [of n ?s C "\<lambda>i. ?sh ! i"] C(4) assms(4) by auto
  have "foldE (\<lambda>i acc. fheAdd acc (map C [0..<n] ! i) ?q) [1..<n] (C 0) = foldE (\<lambda>i acc. fheAdd acc (C i) ?q) [1..<n] (C 0)"
    by (rule foldE_cong) simp
  with e(1) cts have "aggregateAdditiveShares ?shares = Inr (serializeFheCiphertext e)"
    using assms(4) by (simp add: aggregateAdditiveShares_def fheAdditiveAggregate_def)
  moreover have "holds ?q ?s e (int v)" using e(2) sh(2) holds_mod by blast
  ultimately show ?thesis
    using create decryptAggregate_holds [OF _ aggregate_range [OF _ e(1) C(3)] s] hex_secret(2) [OF assms(1-3)] by (auto simp: sk_eta)
qed

theorem additive_shares_recover_witness:
  "\<exists>plain shares agg. createAdditiveSharesFHE sampleRnd (\<lambda>_. sampleRnd) sampleSecret 3 (kp_publicKey (generateKeypair sampleRnd)) = Inr (plain, shares)
    \<and> aggregateAdditiveShares shares = Inr agg
    \<and> decryptAggregateCiphertext agg (kp_privateKey (generateKeypair sampleRnd)) = Inr (map lower (cleanHex sampleSecret))"
proof -
  have "parse_digits 16 (cleanHex sampleSecret) = Some 11" "length (cleanHex sampleSecret) = 64" "int 11 < FHE_PRIME"
    by (rule sampleSecret_parse)+
  from additive_shares_recover [OF this, of 3 sampleRnd "\<lambda>_. sampleRnd" sampleRnd] show ?thesis by auto
qed

section \<open>The public key\<close>

text \<open>
  The public key states linear equations for the private key without any noise, so that Cramer's rule on its
  first two rows solves for the private key.
\<close>

definition publicDet :: "FHEPublicKey \<Rightarrow> int" where
  "publicDet pk = pk_a pk ! 0 ! 0 * pk_a pk ! 1 ! 1 - pk_a pk ! 0 ! 1 * pk_a pk ! 1 ! 0"

definition recoverKey :: "FHEPublicKey \<Rightarrow> int list result" where
  "recoverKey pk = bindE (modInverseQ (publicDet pk) FHE_PRIME) (\<lambda>w. Inr
     [modQ ((pk_b pk ! 0 * pk_a pk ! 1 ! 1 - pk_b pk ! 1 * pk_a pk ! 0 ! 1) * w) FHE_PRIME,
      modQ ((pk_a pk ! 0 ! 0 * pk_b pk ! 1 - pk_a pk ! 1 ! 0 * pk_b pk ! 0) * w) FHE_PRIME])"

lemma cramer:
  fixes q :: int
  assumes "(a * s + b * t) mod q = e mod q" "(c * s + d * t) mod q = f mod q" "(a * d - b * c) * w mod q = 1"
  shows "(e * d - f * b) * w mod q = s mod q" "(a * f - c * e) * w mod q = t mod q"
proof -
  have one: "(a * d - b * c) * w mod q = 1 mod q" using assms(3) by (metis mod_mod_trivial)
  have "(e * d - f * b) * w mod q = ((a * s + b * t) * d - (c * s + d * t) * b) * w mod q"
    using assms(1,2) by (intro mod_mult_cong mod_diff_cong) simp_all
  also have "((a * s + b * t) * d - (c * s + d * t) * b) * w = s * ((a * d - b * c) * w)" by (simp add: algebra_simps)
  also have "\<dots> mod q = s * 1 mod q" using one by (intro mod_mult_cong) simp_all
  finally show "(e * d - f * b) * w mod q = s mod q" by simp
  have "(a * f - c * e) * w mod q = (a * (c * s + d * t) - c * (a * s + b * t)) * w mod q"
    using assms(1,2) by (intro mod_mult_cong mod_diff_cong) simp_all
  also have "(a * (c * s + d * t) - c * (a * s + b * t)) * w = t * ((a * d - b * c) * w)" by (simp add: algebra_simps)
  also have "\<dots> mod q = t * 1 mod q" using one by (intro mod_mult_cong) simp_all
  finally show "(a * f - c * e) * w mod q = t mod q" by simp
qed

text \<open>
  C13. The public key reveals the private key: whenever the determinant of the first two rows of a generated
  public key is not zero modulo the prime, the private key is computed from the public key alone.
\<close>

theorem public_key_reveals_private:
  assumes "publicDet (kp_publicKey (generateKeypair rnd)) mod FHE_PRIME \<noteq> 0"
  shows "recoverKey (kp_publicKey (generateKeypair rnd)) = Inr (sk_s (kp_privateKey (generateKeypair rnd)))"
proof -
  let ?pk = "kp_publicKey (generateKeypair rnd)" and ?s = "sk_s (kp_privateKey (generateKeypair rnd))"
  note key = generateKeypair_key [of rnd]
  obtain s t where st: "?s = [s, t]" using key(3) by (auto simp: numeral_2_eq_2 length_Suc_conv)
  have "length (pk_a ?pk) = 4" by (simp add: generateKeypair_def fheKeyGen_def Let_def)
  then have eqs: "(pk_a ?pk ! i ! 0 * s + pk_a ?pk ! i ! 1 * t) mod FHE_PRIME = pk_b ?pk ! i mod FHE_PRIME" if "i < 4" for i
    using key(2) that by (simp add: solves_def st numeral_2_eq_2)
  have "\<not> FHE_PRIME dvd publicDet ?pk" using assms by (simp add: dvd_eq_mod_eq_0)
  then obtain w where w: "modInverseQ (publicDet ?pk) FHE_PRIME = Inr w" "publicDet ?pk * w mod FHE_PRIME = 1"
    using modInverseQ_prime [OF prime_FHE] by blast
  have "0 \<le> s" "s < FHE_PRIME" "0 \<le> t" "t < FHE_PRIME"
    using st randomFieldElement_range [of FHE_PRIME] by (auto simp: generateKeypair_def fheKeyGen_def Let_def FHE_LWE_DIMENSION_def upt_rec)
  with cramer [OF eqs [of 0] eqs [of 1] w(2) [unfolded publicDet_def]] w(1) show ?thesis
    by (simp add: recoverKey_def modQ_eq st)
qed

theorem public_key_reveals_private_witness:
  "recoverKey (kp_publicKey (generateKeypair sampleRnd)) = Inr (sk_s (kp_privateKey (generateKeypair sampleRnd)))"
proof (rule public_key_reveals_private)
  have "bytes_value (map (sampleRnd i) [0..<32]) = (if i \<in> {0, 1, 2, 5} then 1 else 0)" for i
    by (simp add: bytes_value_def sampleRnd_def upt_rec)
  then have "randomFieldElement (sampleRnd i) FHE_PRIME = (if i \<in> {0, 1, 2, 5} then 1 else 0)" for i
    by (simp add: randomFieldElement_def modQ_eq)
  then have "publicDet (kp_publicKey (generateKeypair sampleRnd)) = 1"
    by (simp add: publicDet_def generateKeypair_def fheKeyGen_def Let_def FHE_LWE_DIMENSION_def keyRow_eq upt_rec)
  then show "publicDet (kp_publicKey (generateKeypair sampleRnd)) mod FHE_PRIME \<noteq> 0" by simp
qed

end
