(* ===== verification/Relay_Queue.thy ===== *)
theory Relay_Queue
  imports Prelude
begin

text \<open>
  The durable queue of the relayer, \<^verbatim>\<open>relayer/queue.ts\<close>: jobs deduplicated by identifier, one delivery at a
  time, retries with growing delays, dead letters, and a journal on disk written after every transition.

  The record \<open>relay_queue\<close> holds the fields of the class and its surroundings: the journal, the clock, the timeouts
  that are scheduled, and a log of what the handler and the dead letters saw. The arguments \<open>ok\<close> say whether a write of the
  journal succeeds: it goes to a temporary name and is renamed, so a failed write leaves the old journal. The handler settles
  in an event of its own, so enqueueing, stopping and a crash of the process can come between.
\<close>

section \<open>State\<close>

record 'p PersistedJob =
  job_id :: string
  job_payload :: 'p
  attempts :: nat
  nextAttemptAtMs :: nat
  lastError :: "string option"

record 'p DeadJob = "'p PersistedJob" +
  dead_error :: string

record 'p QueueState =
  jobs :: "'p PersistedJob list"
  completedIds :: "string list"
  dead :: "'p DeadJob list"

record QueueStats =
  stat_pending :: nat
  stat_inflight :: bool
  stat_completed :: nat
  stat_dead :: nat

record QueueOptions =
  opt_maxAttempts :: "nat option"
  opt_retryBaseMs :: "nat option"
  opt_retryMaxBackoffMs :: "nat option"

record queue_config =
  maxAttempts :: nat
  retryBaseMs :: nat
  retryMaxBackoffMs :: nat

definition queueConfig :: "QueueOptions \<Rightarrow> queue_config" where
  "queueConfig opts = \<lparr>maxAttempts = (case opt_maxAttempts opts of Some n \<Rightarrow> n | None \<Rightarrow> 5),
     retryBaseMs = (case opt_retryBaseMs opts of Some n \<Rightarrow> n | None \<Rightarrow> 500),
     retryMaxBackoffMs = (case opt_retryMaxBackoffMs opts of Some n \<Rightarrow> n | None \<Rightarrow> 30000)\<rparr>"

definition MAX_COMPLETED_IDS :: nat where
  "MAX_COMPLETED_IDS = 2000"

definition MAX_DEAD_JOBS :: nat where
  "MAX_DEAD_JOBS = 100"

text \<open>
  What is found under the name of the journal: nothing, a text that does not parse, or an object whose three fields
  are arrays or not.
\<close>

datatype 'p journal =
    Absent
  | Unreadable
  | Journal "'p PersistedJob list option" "string list option" "'p DeadJob list option"

datatype 'p log_entry = Delivered string 'p | Failed string 'p | DeadLettered string 'p

record 'p relay_queue =
  state :: "'p QueueState"
  timer :: "nat option"
  inFlight :: "(nat \<times> string \<times> 'p) option"
  stopped :: bool
  disk :: "'p journal"
  clock :: nat
  timeouts :: "nat list"
  timersMade :: nat
  history_log :: "'p log_entry list"

definition emptyState :: "'p QueueState" where
  "emptyState = \<lparr>jobs = [], completedIds = [], dead = []\<rparr>"

section \<open>Operations\<close>

text \<open>The constructor reads the journal; a field that is missing keeps its initial value.\<close>

fun loadJournal :: "'p journal \<Rightarrow> 'p QueueState \<Rightarrow> 'p QueueState" where
  "loadJournal Absent s = s"
| "loadJournal Unreadable s = s"
| "loadJournal (Journal js cs ds) s = s\<lparr>
     jobs := (case js of Some x \<Rightarrow> x | None \<Rightarrow> jobs s),
     completedIds := (case cs of Some x \<Rightarrow> x | None \<Rightarrow> completedIds s),
     dead := (case ds of Some x \<Rightarrow> x | None \<Rightarrow> dead s)\<rparr>"

definition newQueue :: "'p journal \<Rightarrow> nat \<Rightarrow> 'p relay_queue" where
  "newQueue d now = \<lparr>state = loadJournal d emptyState, timer = None, inFlight = None, stopped = True,
     disk = d, clock = now, timeouts = [], timersMade = 0, history_log = []\<rparr>"

definition persist :: "bool \<Rightarrow> 'p relay_queue \<Rightarrow> 'p relay_queue" where
  "persist ok w = (if ok then w\<lparr>disk := Journal (Some (jobs (state w))) (Some (completedIds (state w))) (Some (dead (state w)))\<rparr> else w)"

definition seenId :: "string \<Rightarrow> 'p QueueState \<Rightarrow> bool" where
  "seenId i s \<longleftrightarrow> i \<in> job_id ` set (jobs s) \<or> i \<in> set (completedIds s) \<or> i \<in> job_id ` set (dead s)"

definition enqueue :: "bool \<Rightarrow> string \<Rightarrow> 'p \<Rightarrow> 'p relay_queue \<Rightarrow> bool \<times> 'p relay_queue" where
  "enqueue ok i p w =
     (if seenId i (state w) then (False, w)
      else (True, persist ok (w\<lparr>state := (state w)\<lparr>jobs := jobs (state w) @
        [\<lparr>job_id = i, job_payload = p, attempts = 0, nextAttemptAtMs = clock w, lastError = None\<rparr>]\<rparr>\<rparr>)))"

definition setTimer :: "'p relay_queue \<Rightarrow> 'p relay_queue" where
  "setTimer w = w\<lparr>timeouts := timeouts w @ [timersMade w], timer := Some (timersMade w), timersMade := timersMade w + 1\<rparr>"

text \<open>What \<^verbatim>\<open>tick\<close> attaches to the end of a call of \<^verbatim>\<open>pump\<close>.\<close>

definition afterPump :: "'p relay_queue \<Rightarrow> 'p relay_queue" where
  "afterPump w = (if stopped w then w else setTimer w)"

definition dueIndex :: "nat \<Rightarrow> 'p PersistedJob list \<Rightarrow> nat option" where
  "dueIndex now js = find (\<lambda>i. nextAttemptAtMs (js ! i) \<le> now) [0..<length js]"

definition beginAttempt :: "nat \<Rightarrow> 'p relay_queue \<Rightarrow> 'p relay_queue" where
  "beginAttempt i w = (let job = jobs (state w) ! i in
     w\<lparr>state := (state w)\<lparr>jobs := (jobs (state w))[i := job\<lparr>attempts := attempts job + 1\<rparr>]\<rparr>,
       inFlight := Some (i, job_id job, job_payload job)\<rparr>)"

text \<open>A call of \<^verbatim>\<open>pump\<close> either ends at once or leaves a delivery in flight, and then ends when that settles.\<close>

definition pump :: "'p relay_queue \<Rightarrow> 'p relay_queue" where
  "pump w =
     (case dueIndex (clock w) (jobs (state w)) of
        None \<Rightarrow> afterPump w
      | Some i \<Rightarrow> if inFlight w \<noteq> None then afterPump w else beginAttempt i w)"

definition tick :: "'p relay_queue \<Rightarrow> 'p relay_queue" where
  "tick w = (if stopped w then w else pump w)"

definition startQueue :: "'p relay_queue \<Rightarrow> 'p relay_queue" where
  "startQueue w = (if \<not> stopped w then w else tick (w\<lparr>stopped := False\<rparr>))"

definition stopQueue :: "'p relay_queue \<Rightarrow> 'p relay_queue" where
  "stopQueue w = w\<lparr>stopped := True,
     timeouts := (case timer w of Some t \<Rightarrow> removeAll t (timeouts w) | None \<Rightarrow> timeouts w), timer := None\<rparr>"

definition spliceAt :: "nat \<Rightarrow> 'a list \<Rightarrow> 'a list" where
  "spliceAt i xs = take i xs @ drop (Suc i) xs"

definition keepRecent :: "string list \<Rightarrow> string list" where
  "keepRecent cs = (if length cs > MAX_COMPLETED_IDS then drop (length cs - MAX_COMPLETED_IDS) cs else cs)"

definition pushDead :: "'p PersistedJob \<Rightarrow> string \<Rightarrow> 'p DeadJob list \<Rightarrow> 'p DeadJob list" where
  "pushDead job m ds = (let ds' = ds @ [PersistedJob.extend job (DeadJob.fields m)] in
     if length ds' > MAX_DEAD_JOBS then tl ds' else ds')"

definition backoff :: "queue_config \<Rightarrow> nat \<Rightarrow> nat" where
  "backoff cfg n = min (retryBaseMs cfg * 2 ^ (n - 1)) (retryMaxBackoffMs cfg)"

definition attemptSucceeded :: "nat \<Rightarrow> string \<Rightarrow> 'p QueueState \<Rightarrow> 'p QueueState" where
  "attemptSucceeded i jid s = s\<lparr>jobs := spliceAt i (jobs s), completedIds := keepRecent (completedIds s @ [jid])\<rparr>"

definition attemptFailed :: "queue_config \<Rightarrow> nat \<Rightarrow> nat \<Rightarrow> string \<Rightarrow> 'p QueueState \<Rightarrow> 'p QueueState" where
  "attemptFailed cfg now i m s = (let job = jobs s ! i in
     if attempts job \<ge> maxAttempts cfg
     then s\<lparr>jobs := spliceAt i (jobs s), dead := pushDead job m (dead s)\<rparr>
     else s\<lparr>jobs := (jobs s)[i := job\<lparr>nextAttemptAtMs := now + backoff cfg (attempts job), lastError := Some m\<rparr>]\<rparr>)"

text \<open>The handler settles: with \<open>None\<close> it returned, with a message it threw.\<close>

definition settle :: "queue_config \<Rightarrow> bool \<Rightarrow> string option \<Rightarrow> 'p relay_queue \<Rightarrow> 'p relay_queue" where
  "settle cfg ok outcome w =
     (case inFlight w of
        None \<Rightarrow> w
      | Some (i, jid, p) \<Rightarrow>
          (let w' = (case outcome of
               None \<Rightarrow> w\<lparr>state := attemptSucceeded i jid (state w), history_log := history_log w @ [Delivered jid p]\<rparr>
             | Some m \<Rightarrow> w\<lparr>state := attemptFailed cfg (clock w) i m (state w),
                 history_log := history_log w @ [Failed jid p] @
                   (if attempts (jobs (state w) ! i) \<ge> maxAttempts cfg then [DeadLettered jid p] else [])\<rparr>)
           in afterPump ((persist ok w')\<lparr>inFlight := None\<rparr>)))"

definition stats :: "'p relay_queue \<Rightarrow> QueueStats" where
  "stats w = \<lparr>stat_pending = length (jobs (state w)), stat_inflight = (inFlight w \<noteq> None),
     stat_completed = length (completedIds (state w)), stat_dead = length (dead (state w))\<rparr>"

section \<open>Histories\<close>

datatype 'p queue_event =
    Enqueue bool string 'p
  | Start
  | Stop
  | Fire nat
  | Settle bool "string option"
  | Wait nat
  | Crash

definition fire :: "nat \<Rightarrow> 'p relay_queue \<Rightarrow> 'p relay_queue" where
  "fire t w = (if t \<in> set (timeouts w) then tick (w\<lparr>timeouts := removeAll t (timeouts w)\<rparr>) else w)"

text \<open>After a crash a new process builds the queue from the journal on disk.\<close>

definition restart :: "'p relay_queue \<Rightarrow> 'p relay_queue" where
  "restart w = (newQueue (disk w) (clock w))\<lparr>history_log := history_log w\<rparr>"

fun happens :: "queue_config \<Rightarrow> 'p queue_event \<Rightarrow> 'p relay_queue \<Rightarrow> 'p relay_queue" where
  "happens cfg (Enqueue ok i p) w = snd (enqueue ok i p w)"
| "happens cfg Start w = startQueue w"
| "happens cfg Stop w = stopQueue w"
| "happens cfg (Fire t) w = fire t w"
| "happens cfg (Settle ok outcome) w = settle cfg ok outcome w"
| "happens cfg (Wait ms) w = w\<lparr>clock := clock w + ms\<rparr>"
| "happens cfg Crash w = restart w"

inductive reachable :: "queue_config \<Rightarrow> 'p relay_queue \<Rightarrow> bool" for cfg where
  initial: "reachable cfg (newQueue Absent now)"
| step: "reachable cfg w \<Longrightarrow> reachable cfg (happens cfg e w)"

lemma reachable_run: "reachable cfg w \<Longrightarrow> reachable cfg (fold (happens cfg) evs w)"
  by (induction evs arbitrary: w) (auto intro: reachable.step)


section \<open>Invariant\<close>

text \<open>The state a new process would start from.\<close>

definition saved :: "'p relay_queue \<Rightarrow> 'p QueueState" where
  "saved w = loadJournal (disk w) emptyState"

definition ids_ok :: "'p QueueState \<Rightarrow> bool" where
  "ids_ok s \<longleftrightarrow> distinct (map job_id (jobs s) @ completedIds s @ map job_id (dead s))
     \<and> length (completedIds s) \<le> MAX_COMPLETED_IDS \<and> length (dead s) \<le> MAX_DEAD_JOBS"

definition times_ok :: "queue_config \<Rightarrow> nat \<Rightarrow> 'p QueueState \<Rightarrow> bool" where
  "times_ok cfg now s \<longleftrightarrow> (\<forall>j \<in> set (jobs s). nextAttemptAtMs j \<le> now + retryMaxBackoffMs cfg)"

definition flight_ok :: "'p relay_queue \<Rightarrow> bool" where
  "flight_ok w \<longleftrightarrow> (\<forall>i jid p. inFlight w = Some (i, jid, p) \<longrightarrow>
     i < length (jobs (state w)) \<and> job_id (jobs (state w) ! i) = jid \<and> job_payload (jobs (state w) ! i) = p)"

text \<open>A queue that runs has a tick scheduled or a delivery in flight, whose end schedules one.\<close>

definition loop_ok :: "'p relay_queue \<Rightarrow> bool" where
  "loop_ok w \<longleftrightarrow> (\<not> stopped w \<longrightarrow> timeouts w \<noteq> [] \<or> inFlight w \<noteq> None)"

definition queue_ok :: "queue_config \<Rightarrow> 'p relay_queue \<Rightarrow> bool" where
  "queue_ok cfg w \<longleftrightarrow> ids_ok (state w) \<and> ids_ok (saved w) \<and> times_ok cfg (clock w) (state w) \<and> times_ok cfg (clock w) (saved w)
     \<and> flight_ok w \<and> loop_ok w"

lemma persist_simps [simp]:
  "state (persist ok w) = state w" "inFlight (persist ok w) = inFlight w" "stopped (persist ok w) = stopped w"
  "clock (persist ok w) = clock w" "timeouts (persist ok w) = timeouts w" "history_log (persist ok w) = history_log w"
  by (simp_all add: persist_def)

lemma saved_persist [simp]: "saved (persist ok w) = (if ok then state w else saved w)"
  by (simp add: saved_def persist_def emptyState_def)

lemma saved_update [simp]:
  "saved (w\<lparr>state := s\<rparr>) = saved w" "saved (w\<lparr>inFlight := f\<rparr>) = saved w" "saved (w\<lparr>stopped := b\<rparr>) = saved w"
  "saved (w\<lparr>clock := n\<rparr>) = saved w" "saved (w\<lparr>timeouts := ts\<rparr>) = saved w" "saved (w\<lparr>history_log := l\<rparr>) = saved w"
  "saved (w\<lparr>timer := t\<rparr>) = saved w" "saved (w\<lparr>timersMade := n\<rparr>) = saved w"
  by (simp_all add: saved_def)

lemma afterPump_simps [simp]:
  "state (afterPump w) = state w" "inFlight (afterPump w) = inFlight w" "stopped (afterPump w) = stopped w"
  "clock (afterPump w) = clock w" "saved (afterPump w) = saved w" "history_log (afterPump w) = history_log w"
  "timeouts (afterPump w) = (if stopped w then timeouts w else timeouts w @ [timersMade w])"
  by (simp_all add: afterPump_def setTimer_def)

lemma ids_emptyState [simp]: "ids_ok emptyState" "times_ok cfg now emptyState" "jobs emptyState = []"
  by (simp_all add: ids_ok_def times_ok_def emptyState_def)

lemma newQueue_simps [simp]:
  "state (newQueue d now) = loadJournal d emptyState" "inFlight (newQueue d now) = None" "stopped (newQueue d now)"
  "clock (newQueue d now) = now" "saved (newQueue d now) = loadJournal d emptyState" "history_log (newQueue d now) = []"
  "timeouts (newQueue d now) = []"
  by (simp_all add: newQueue_def saved_def)

lemma nth_splitE:
  assumes "i < length xs"
  obtains ys zs where "xs = ys @ xs ! i # zs" "length ys = i" "spliceAt i xs = ys @ zs"
proof
  show "xs = take i xs @ xs ! i # drop (Suc i) xs" using assms by (rule id_take_nth_drop)
qed (use assms in \<open>simp_all add: spliceAt_def\<close>)

lemma set_keepRecent: "set (keepRecent cs) \<subseteq> set cs" and distinct_keepRecent: "distinct cs \<Longrightarrow> distinct (keepRecent cs)"
  and length_keepRecent: "length (keepRecent cs) \<le> MAX_COMPLETED_IDS"
  by (auto simp: keepRecent_def dest: in_set_dropD)

lemma pushDead_ids:
  "map job_id (pushDead job m ds) = (if length ds < MAX_DEAD_JOBS then map job_id ds @ [job_id job] else tl (map job_id ds @ [job_id job]))"
  by (cases ds) (auto simp: pushDead_def PersistedJob.defs DeadJob.defs)

lemma length_pushDead: "length ds \<le> MAX_DEAD_JOBS \<Longrightarrow> length (pushDead job m ds) \<le> MAX_DEAD_JOBS"
  by (auto simp: pushDead_def Let_def)

lemma distinct_move:
  "distinct (as @ x # bs @ cs @ ds) \<Longrightarrow> set cs' \<subseteq> insert x (set cs) \<Longrightarrow> distinct cs' \<Longrightarrow> distinct ((as @ bs) @ cs' @ ds)"
  "distinct (as @ x # bs @ cs @ ds) \<Longrightarrow> set ds' \<subseteq> insert x (set ds) \<Longrightarrow> distinct ds' \<Longrightarrow> distinct ((as @ bs) @ cs @ ds')"
  by auto

lemma pushDead_rotate:
  fixes job m ds
  defines "ids \<equiv> map job_id (pushDead job m ds)"
  shows "set ids \<subseteq> insert (job_id job) (set (map job_id ds))"
    and "distinct (map job_id ds) \<Longrightarrow> job_id job \<notin> set (map job_id ds) \<Longrightarrow> distinct ids"
  unfolding ids_def pushDead_ids
  by (cases ds; auto)+

lemma ids_enqueue:
  "ids_ok s \<Longrightarrow> \<not> seenId i s \<Longrightarrow> job_id j = i \<Longrightarrow> ids_ok (s\<lparr>jobs := jobs s @ [j]\<rparr>)"
  by (auto simp: ids_ok_def seenId_def)

lemma ids_update:
  "ids_ok s \<Longrightarrow> job_id j = job_id (jobs s ! i) \<Longrightarrow> ids_ok (s\<lparr>jobs := (jobs s)[i := j]\<rparr>)"
  using list_update_id [of "map job_id (jobs s)" i] by (cases "i < length (jobs s)") (simp_all add: ids_ok_def map_update list_update_beyond)

lemma ids_succeeded:
  assumes "ids_ok s" "i < length (jobs s)" "job_id (jobs s ! i) = jid"
  shows "ids_ok (attemptSucceeded i jid s)"
proof -
  obtain ys zs where "jobs s = ys @ jobs s ! i # zs" and splice: "spliceAt i (jobs s) = ys @ zs"
    using assms(2) by (rule nth_splitE)
  then have "map job_id (jobs s) = map job_id ys @ jid # map job_id zs"
    using assms(3) by (metis list.simps(9) map_append)
  moreover have "distinct (map job_id (jobs s) @ completedIds s @ map job_id (dead s))" "length (dead s) \<le> MAX_DEAD_JOBS"
    using assms(1) by (simp_all add: ids_ok_def)
  ultimately have "distinct ((map job_id ys @ map job_id zs) @ keepRecent (completedIds s @ [jid]) @ map job_id (dead s))"
    using set_keepRecent [of "completedIds s @ [jid]"] by (intro distinct_move(1) distinct_keepRecent) auto
  with assms(1) show ?thesis by (simp add: ids_ok_def attemptSucceeded_def splice length_keepRecent)
qed

lemma ids_failed:
  assumes "ids_ok s" "i < length (jobs s)"
  shows "ids_ok (attemptFailed cfg now i m s)"
proof (cases "attempts (jobs s ! i) \<ge> maxAttempts cfg")
  case True
  obtain ys zs where "jobs s = ys @ jobs s ! i # zs" and splice: "spliceAt i (jobs s) = ys @ zs"
    using assms(2) by (rule nth_splitE)
  then have "map job_id (jobs s) = map job_id ys @ job_id (jobs s ! i) # map job_id zs"
    by (metis list.simps(9) map_append)
  moreover have "distinct (map job_id (jobs s) @ completedIds s @ map job_id (dead s))"
    "length (dead s) \<le> MAX_DEAD_JOBS" "length (completedIds s) \<le> MAX_COMPLETED_IDS"
    using assms(1) by (simp_all add: ids_ok_def)
  ultimately have
    "distinct ((map job_id ys @ map job_id zs) @ completedIds s @ map job_id (pushDead (jobs s ! i) m (dead s)))"
    by (intro distinct_move(2) [where x = "job_id (jobs s ! i)" and ds = "map job_id (dead s)"] pushDead_rotate) auto
  with True show ?thesis
    using assms(1) by (simp add: ids_ok_def attemptFailed_def Let_def splice length_pushDead)
next
  case False
  then show ?thesis using assms(1) by (simp add: attemptFailed_def Let_def ids_update)
qed

lemma set_spliceAt: "set (spliceAt i xs) \<subseteq> set xs"
  by (auto simp: spliceAt_def dest: in_set_takeD in_set_dropD)

lemma times_succeeded: "times_ok cfg now s \<Longrightarrow> times_ok cfg now (attemptSucceeded i jid s)"
  using set_spliceAt [of i "jobs s"] by (auto simp: times_ok_def attemptSucceeded_def)

lemma times_failed: "times_ok cfg now s \<Longrightarrow> times_ok cfg now (attemptFailed cfg now i m s)"
  using set_spliceAt [of i "jobs s"]
  by (auto simp: times_ok_def attemptFailed_def Let_def backoff_def dest!: set_update_subset_insert [THEN subsetD])

lemma times_later: "times_ok cfg now s \<Longrightarrow> times_ok cfg (now + ms) s"
  by (fastforce simp: times_ok_def)


lemmas queue_ops = enqueue_def startQueue_def stopQueue_def tick_def pump_def beginAttempt_def fire_def restart_def settle_def Let_def

lemma dueIndex_SomeD: "dueIndex now js = Some i \<Longrightarrow> i < length js \<and> nextAttemptAtMs (js ! i) \<le> now"
  by (auto simp: dueIndex_def find_Some_iff)

lemma times_update:
  "times_ok cfg now s \<Longrightarrow> nextAttemptAtMs j = nextAttemptAtMs (jobs s ! i) \<Longrightarrow> i < length (jobs s) \<Longrightarrow>
   times_ok cfg now (s\<lparr>jobs := (jobs s)[i := j]\<rparr>)"
  by (auto simp: times_ok_def dest!: set_update_subset_insert [THEN subsetD])

lemma queue_ok_beginAttempt:
  assumes "queue_ok cfg w" "i < length (jobs (state w))"
  shows "queue_ok cfg (beginAttempt i w)"
  using assms by (auto simp: queue_ok_def beginAttempt_def Let_def ids_update times_update flight_ok_def loop_ok_def)

text \<open>A tick needs nothing of the loop: it provides for the next one.\<close>

lemma queue_ok_tick:
  assumes "queue_ok cfg (w\<lparr>stopped := True\<rparr>)"
  shows "queue_ok cfg (tick w)"
proof (cases "stopped w")
  case True
  then show ?thesis using assms by (simp add: tick_def queue_ok_def flight_ok_def loop_ok_def)
next
  case False
  have after: "queue_ok cfg (afterPump w)"
    using assms by (simp add: queue_ok_def flight_ok_def loop_ok_def)
  show ?thesis
  proof (cases "dueIndex (clock w) (jobs (state w))")
    case (Some i)
    then have "i < length (jobs (state w))" by (simp add: dueIndex_SomeD)
    then have "queue_ok cfg (beginAttempt i w)"
      using queue_ok_beginAttempt [OF assms, of i]
      by (auto simp: queue_ok_def beginAttempt_def Let_def flight_ok_def loop_ok_def)
    with Some False after show ?thesis by (simp add: tick_def pump_def)
  qed (simp add: False tick_def pump_def after)
qed

lemma queue_ok_settle:
  assumes "queue_ok cfg w"
  shows "queue_ok cfg (settle cfg ok outcome w)"
proof (cases "inFlight w")
  case (Some f)
  then obtain i jid p where f: "inFlight w = Some (i, jid, p)" by (cases f) auto
  with assms have "i < length (jobs (state w))" "job_id (jobs (state w) ! i) = jid" "ids_ok (state w)" "times_ok cfg (clock w) (state w)"
    by (auto simp: queue_ok_def flight_ok_def)
  then show ?thesis
    using assms by (cases outcome)
      (simp_all add: f settle_def Let_def queue_ok_def ids_succeeded ids_failed times_succeeded times_failed flight_ok_def loop_ok_def)
qed (use assms in \<open>simp add: settle_def\<close>)

lemma queue_ok_enqueue:
  assumes "queue_ok cfg w"
  shows "queue_ok cfg (snd (enqueue ok i p w))"
  using assms
  by (auto simp: queue_ok_def enqueue_def ids_enqueue times_ok_def flight_ok_def loop_ok_def nth_append split: option.splits)

lemma queue_ok_happens: "queue_ok cfg w \<Longrightarrow> queue_ok cfg (happens cfg e w)"
proof (cases e)
  case (Fire t)
  then show "queue_ok cfg w \<Longrightarrow> ?thesis"
    by (auto simp: fire_def intro!: queue_ok_tick) (simp add: queue_ok_def flight_ok_def loop_ok_def)
next
  case Start
  then show "queue_ok cfg w \<Longrightarrow> ?thesis"
    by (auto simp: startQueue_def intro!: queue_ok_tick) (simp add: queue_ok_def flight_ok_def loop_ok_def)
next
  case Crash
  then show "queue_ok cfg w \<Longrightarrow> ?thesis"
    by (simp add: restart_def queue_ok_def flight_ok_def loop_ok_def flip: saved_def)
next
  case (Wait ms)
  then show "queue_ok cfg w \<Longrightarrow> ?thesis"
    by (simp add: queue_ok_def flight_ok_def loop_ok_def times_later)
next
  case Stop
  then show "queue_ok cfg w \<Longrightarrow> ?thesis"
    by (simp add: stopQueue_def queue_ok_def flight_ok_def loop_ok_def)
qed (auto simp: queue_ok_enqueue queue_ok_settle)

lemma queue_ok_reachable: "reachable cfg w \<Longrightarrow> queue_ok cfg w"
  by (induction rule: reachable.induct)
    (auto simp: queue_ok_happens, simp add: queue_ok_def flight_ok_def loop_ok_def)


section \<open>The interface of the producers\<close>

text \<open>
  What a producer of jobs relies on: a push is accepted exactly when the identifier is not known yet, and makes it
  known. Pushing a batch then accepts each new identifier once, and the count of accepted pushes is the number of new
  identifiers.
\<close>

locale job_sink =
  fixes known :: "'q \<Rightarrow> string set"
    and ident :: "'j \<Rightarrow> string"
    and push :: "'j \<Rightarrow> 'q \<Rightarrow> bool \<times> 'q"
  assumes push_accepts: "fst (push j q) \<longleftrightarrow> ident j \<notin> known q"
    and push_known: "known (snd (push j q)) = insert (ident j) (known q)"
begin

lemma push_batch_known:
  "known (snd (fold (\<lambda>j (n, q). let (b, q') = push j q in (if b then n + 1 else n, q')) js (n, q))) = ident ` set js \<union> known q"
proof (induction js arbitrary: n q)
  case (Cons j js)
  then show ?case using push_known [of j q] by (cases "push j q") auto
qed simp

lemma push_batch_count:
  "fst (fold (\<lambda>j (n, q). let (b, q') = push j q in (if b then n + 1 else n, q')) js (n, q)) = n + card (ident ` set js - known q)"
proof (induction js arbitrary: n q)
  case (Cons j js)
  obtain b q' where p: "push j q = (b, q')" by (cases "push j q")
  have known: "known q' = insert (ident j) (known q)" "b \<longleftrightarrow> ident j \<notin> known q"
    using push_known [of j q] push_accepts [of j q] p by auto
  have "ident ` set (j # js) - known q = (if b then insert (ident j) (ident ` set js - known q') else ident ` set js - known q')"
    using known by auto
  then have "card (ident ` set (j # js) - known q) = (if b then 1 else 0) + card (ident ` set js - known q')"
    using known(1) by auto
  then show ?case using Cons [of "if b then n + 1 else n" q'] p by simp
qed simp

end

definition knownIds :: "'p relay_queue \<Rightarrow> string set" where
  "knownIds w = {i. seenId i (state w)}"

interpretation relay: job_sink knownIds "\<lambda>(ok, i, p). i" "\<lambda>(ok, i, p). enqueue ok i p"
  by unfold_locales (auto simp: knownIds_def enqueue_def seenId_def split: if_splits)

section \<open>An accepted job is not lost\<close>

definition holdsJob :: "string \<Rightarrow> 'p \<Rightarrow> 'p PersistedJob list \<Rightarrow> bool" where
  "holdsJob i p js \<longleftrightarrow> (\<exists>j \<in> set js. job_id j = i \<and> job_payload j = p)"

definition accounted :: "string \<Rightarrow> 'p \<Rightarrow> 'p log_entry list \<Rightarrow> bool" where
  "accounted i p l \<longleftrightarrow> Delivered i p \<in> set l \<or> DeadLettered i p \<in> set l"

definition kept :: "string \<Rightarrow> 'p \<Rightarrow> nat \<Rightarrow> 'p relay_queue \<Rightarrow> bool" where
  "kept i p n w \<longleftrightarrow> n \<le> length (history_log w) \<and>
     (accounted i p (drop n (history_log w)) \<or> holdsJob i p (jobs (state w)) \<and> holdsJob i p (jobs (saved w)))"

lemma accounted_append [simp]: "accounted i p (l @ l') \<longleftrightarrow> accounted i p l \<or> accounted i p l'"
  by (auto simp: accounted_def)

lemma accounted_Cons [simp]:
  "accounted i p [] = False" "accounted i p (Delivered j q # l) \<longleftrightarrow> (i = j \<and> p = q) \<or> accounted i p l"
  "accounted i p (DeadLettered j q # l) \<longleftrightarrow> (i = j \<and> p = q) \<or> accounted i p l"
  "accounted i p (Failed j q # l) \<longleftrightarrow> accounted i p l"
  by (auto simp: accounted_def)

lemma holdsJob_update:
  assumes "holdsJob i p js" "job_id j = job_id (js ! k)" "job_payload j = job_payload (js ! k)"
  shows "holdsJob i p (js[k := j])"
proof -
  obtain n where n: "n < length js" "job_id (js ! n) = i" "job_payload (js ! n) = p"
    using assms(1) by (auto simp: holdsJob_def in_set_conv_nth)
  have "js[k := j] ! n \<in> set (js[k := j])" using n(1) by (intro nth_mem) simp
  moreover have "job_id (js[k := j] ! n) = i" "job_payload (js[k := j] ! n) = p"
    using n assms(2,3) by (cases "n = k"; simp)+
  ultimately show ?thesis unfolding holdsJob_def by blast
qed

lemma holdsJob_splice:
  assumes "holdsJob i p js" "k < length js" "job_id (js ! k) \<noteq> i"
  shows "holdsJob i p (spliceAt k js)"
proof -
  obtain ys zs where "js = ys @ js ! k # zs" "spliceAt k js = ys @ zs" using assms(2) by (rule nth_splitE)
  moreover from this have "set js = insert (js ! k) (set (ys @ zs))"
    by (metis Un_insert_right list.simps(15) set_append)
  ultimately show ?thesis using assms(1,3) by (auto simp: holdsJob_def)
qed

lemma holdsJob_unique:
  assumes "ids_ok s" "holdsJob i p (jobs s)" "k < length (jobs s)" "job_id (jobs s ! k) = i"
  shows "job_payload (jobs s ! k) = p"
proof -
  obtain j where "j \<in> set (jobs s)" "job_id j = i" "job_payload j = p" using assms(2) by (auto simp: holdsJob_def)
  moreover have "inj_on job_id (set (jobs s))" using assms(1) by (simp add: ids_ok_def distinct_map)
  ultimately show ?thesis using assms(3,4) by (metis inj_onD nth_mem)
qed

lemma kept_settle:
  assumes "queue_ok cfg w" "kept i p n w"
  shows "kept i p n (settle cfg ok outcome w)"
proof (cases "inFlight w = None \<or> accounted i p (drop n (history_log w))")
  case True
  then show ?thesis using assms(2) by (auto simp: settle_def Let_def kept_def split: option.splits)
next
  case False
  then obtain k jid q where f: "inFlight w = Some (k, jid, q)" by (metis not_None_eq prod_cases3)
  with assms(1) have k: "k < length (jobs (state w))" "job_id (jobs (state w) ! k) = jid" "job_payload (jobs (state w) ! k) = q"
    by (auto simp: queue_ok_def flight_ok_def)
  have h: "holdsJob i p (jobs (state w))" "holdsJob i p (jobs (saved w))" "n \<le> length (history_log w)"
    using assms(2) False by (auto simp: kept_def)
  have q: "q = p" if "jid = i"
    using holdsJob_unique [of "state w" i p k] assms(1) h(1) k that by (simp add: queue_ok_def)
  show ?thesis
    using f k h q
    by (cases outcome; cases "jid = i"; cases "maxAttempts cfg \<le> attempts (jobs (state w) ! k)")
      (simp_all add: settle_def Let_def kept_def attemptSucceeded_def attemptFailed_def holdsJob_splice holdsJob_update)
qed

lemma kept_tick:
  "kept i p n w \<Longrightarrow> kept i p n (tick w)"
  by (auto simp: kept_def tick_def pump_def beginAttempt_def Let_def holdsJob_update split: option.splits)

lemma kept_happens:
  assumes "queue_ok cfg w" "kept i p n w"
  shows "kept i p n (happens cfg e w)"
proof (cases e)
  case (Enqueue ok i' p')
  then show ?thesis using assms(2) by (auto simp: enqueue_def kept_def holdsJob_def)
next
  case (Fire t)
  then show ?thesis using assms(2) by (auto simp: fire_def intro!: kept_tick) (simp add: kept_def)
next
  case Start
  then show ?thesis using assms(2) by (auto simp: startQueue_def intro!: kept_tick) (simp add: kept_def)
qed (use assms in \<open>auto simp: kept_settle\<close>, (auto simp: kept_def restart_def stopQueue_def simp flip: saved_def))

lemma kept_run: "queue_ok cfg w \<Longrightarrow> kept i p n w \<Longrightarrow> kept i p n (fold (happens cfg) evs w)"
  by (induction evs arbitrary: w) (simp_all add: kept_happens queue_ok_happens)

lemma kept_enqueued:
  "enqueue True i p w = (True, w') \<Longrightarrow> kept i p (length (history_log w)) w'"
  by (auto simp: enqueue_def kept_def holdsJob_def split: if_splits)

section \<open>The queue empties\<close>

text \<open>One round: the longest delay passes, the next tick fires, and the delivery it starts settles.\<close>

definition attemptRound :: "queue_config \<Rightarrow> bool \<times> string option \<Rightarrow> 'p relay_queue \<Rightarrow> 'p relay_queue" where
  "attemptRound cfg o' w = (let w' = happens cfg (Wait (retryMaxBackoffMs cfg)) w in
     happens cfg (Settle (fst o') (snd o')) (happens cfg (Fire (hd (timeouts w'))) w'))"

definition triesLeft :: "queue_config \<Rightarrow> 'p PersistedJob \<Rightarrow> nat" where
  "triesLeft cfg j = max 1 (maxAttempts cfg - attempts j)"

lemma dueIndex_first: "js \<noteq> [] \<Longrightarrow> nextAttemptAtMs (hd js) \<le> now \<Longrightarrow> dueIndex now js = Some 0"
  by (cases js) (simp_all add: dueIndex_def upt_conv_Cons del: upt_Suc)

lemma round_jobs:
  assumes "queue_ok cfg w" "\<not> stopped w" "inFlight w = None"
  shows "\<not> stopped (attemptRound cfg r w)" "inFlight (attemptRound cfg r w) = None"
    and "jobs (state w) = [] \<Longrightarrow> jobs (state (attemptRound cfg r w)) = []"
    and "jobs (state w) = j # js \<Longrightarrow> jobs (state (attemptRound cfg r w)) = js \<or>
      (\<exists>j'. jobs (state (attemptRound cfg r w)) = j' # js \<and> triesLeft cfg j' < triesLeft cfg j)"
proof -
  let ?w = "w\<lparr>clock := clock w + retryMaxBackoffMs cfg\<rparr>"
  let ?v = "?w\<lparr>timeouts := removeAll (hd (timeouts w)) (timeouts w)\<rparr>"
  have "timeouts w \<noteq> []" using assms by (simp add: queue_ok_def loop_ok_def)
  then have round: "attemptRound cfg r w = settle cfg (fst r) (snd r) (tick ?v)"
    by (simp add: attemptRound_def Let_def fire_def)
  have due: "dueIndex (clock ?v) (jobs (state ?v)) = (if jobs (state w) = [] then None else Some 0)"
    using assms(1) by (auto simp: dueIndex_first queue_ok_def times_ok_def) (simp add: dueIndex_def)
  have empty: "attemptRound cfg r w = afterPump ?v" if "jobs (state w) = []"
    using that due assms(2,3) by (simp add: round tick_def pump_def settle_def)
  have starts: "attemptRound cfg r w = settle cfg (fst r) (snd r) (beginAttempt 0 ?v)" if "jobs (state w) \<noteq> []"
    using that due assms(2,3) by (simp add: round tick_def pump_def)
  show "\<not> stopped (attemptRound cfg r w)" "inFlight (attemptRound cfg r w) = None"
    using empty starts assms(2,3)
    by (cases "jobs (state w) = []"; cases "snd r"; simp add: settle_def beginAttempt_def Let_def)+
  show "jobs (state (attemptRound cfg r w)) = []" if "jobs (state w) = []"
    using that empty by simp
  show "jobs (state (attemptRound cfg r w)) = js \<or>
      (\<exists>j'. jobs (state (attemptRound cfg r w)) = j' # js \<and> triesLeft cfg j' < triesLeft cfg j)" if "jobs (state w) = j # js"
    using starts that
    by (cases "snd r"; cases "maxAttempts cfg \<le> attempts j + 1")
      (auto simp: settle_def beginAttempt_def Let_def attemptSucceeded_def attemptFailed_def spliceAt_def triesLeft_def)
qed

lemma queue_ok_round: "queue_ok cfg w \<Longrightarrow> queue_ok cfg (attemptRound cfg r w)"
  by (simp add: attemptRound_def Let_def queue_ok_happens del: happens.simps)

lemma rounds_empty:
  assumes "queue_ok cfg w" "\<not> stopped w" "inFlight w = None" "(\<Sum>j\<leftarrow>jobs (state w). triesLeft cfg j) \<le> length rs"
  shows "jobs (state (fold (attemptRound cfg) rs w)) = []"
  using assms
proof (induction rs arbitrary: w)
  case Nil
  then show ?case by (cases "jobs (state w)") (auto simp: triesLeft_def)
next
  case (Cons r rs)
  note after = round_jobs [OF Cons.prems(1-3), where r = r]
  have "(\<Sum>j\<leftarrow>jobs (state (attemptRound cfg r w)). triesLeft cfg j) \<le> length rs"
  proof (cases "jobs (state w)")
    case (Cons j js)
    moreover have "triesLeft cfg j \<ge> 1" by (simp add: triesLeft_def)
    ultimately show ?thesis using after(4) [OF Cons] Cons.prems(4) by auto
  qed (simp add: after(3))
  then show ?case using Cons.IH [of "attemptRound cfg r w"] after queue_ok_round [OF Cons.prems(1)] by simp
qed


section \<open>Properties of the queue\<close>

text \<open>
  Through every sequence of enqueueings, ticks, deliveries that succeed or fail, stops, restarts after a crash and
  failed writes of the journal, an identifier occurs at most once among the waiting jobs, the finished identifiers and the dead
  letters together, in memory and in the journal; at most 2000 finished identifiers and 100 dead letters are kept; and the
  delivery in flight is at the index of its own job, so what is removed when it settles is the job that was delivered.
\<close>

theorem relay_queue_identities:
  assumes "reachable cfg w"
  shows "distinct (map job_id (jobs (state w)) @ completedIds (state w) @ map job_id (dead (state w)))
    \<and> distinct (map job_id (jobs (saved w)) @ completedIds (saved w) @ map job_id (dead (saved w)))
    \<and> length (completedIds (state w)) \<le> 2000 \<and> length (dead (state w)) \<le> 100
    \<and> (inFlight w = Some (i, jid, p) \<longrightarrow> i < length (jobs (state w)) \<and> job_id (jobs (state w) ! i) = jid \<and> job_payload (jobs (state w) ! i) = p)"
  using queue_ok_reachable [OF assms]
  by (simp_all add: queue_ok_def ids_ok_def flight_ok_def MAX_COMPLETED_IDS_def MAX_DEAD_JOBS_def)

definition demo_config :: queue_config where
  "demo_config = queueConfig \<lparr>opt_maxAttempts = Some 2, opt_retryBaseMs = None, opt_retryMaxBackoffMs = None\<rparr>"

definition demo_queue :: "nat relay_queue" where
  "demo_queue = fold (happens demo_config) [Start, Enqueue True ''a'' 7] (newQueue Absent 1000)"

lemma demo_reachable: "reachable demo_config demo_queue"
  unfolding demo_queue_def by (intro reachable_run reachable.initial)

lemmas demo_defs = demo_queue_def demo_config_def queueConfig_def newQueue_def emptyState_def enqueue_def persist_def seenId_def
  startQueue_def tick_def pump_def dueIndex_def afterPump_def setTimer_def

lemma demo_queue_values [simp]:
  "stopped demo_queue = False" "inFlight demo_queue = None" "timeouts demo_queue = [0]"
  "jobs (state demo_queue) = [\<lparr>job_id = ''a'', job_payload = 7, attempts = 0, nextAttemptAtMs = 1000, lastError = None\<rparr>]"
  by (simp_all add: demo_defs)

theorem relay_queue_identities_witness:
  "distinct (map job_id (jobs (state demo_queue)) @ completedIds (state demo_queue) @ map job_id (dead (state demo_queue)))
   \<and> (let w = happens demo_config (Fire 0) demo_queue in inFlight w = Some (0, ''a'', 7) \<and> job_id (jobs (state w) ! 0) = ''a'')"
proof -
  let ?w = "happens demo_config (Fire 0) demo_queue"
  have "inFlight ?w = Some (0, ''a'', 7)"
    by (simp add: fire_def demo_defs beginAttempt_def Let_def)
  then have "job_id (jobs (state ?w) ! 0) = ''a''"
    using relay_queue_identities [OF reachable.step [OF demo_reachable]] by blast
  with relay_queue_identities [OF demo_reachable] show ?thesis
    using \<open>inFlight ?w = Some (0, ''a'', 7)\<close> by (simp add: Let_def)
qed

text \<open>
  C22. A job that was accepted and written to the journal is never lost: after any further events, crashes and failed
  writes included, it is still waiting with its payload, in memory and in the journal, or the handler returned for this
  payload, or it became a dead letter.
\<close>

theorem accepted_job_survives:
  assumes "reachable cfg w" "enqueue True i p w = (True, w')" "w'' = fold (happens cfg) evs w'"
  shows "(\<exists>j \<in> set (jobs (state w'')). job_id j = i \<and> job_payload j = p) \<and> (\<exists>j \<in> set (jobs (saved w'')). job_id j = i \<and> job_payload j = p)
    \<or> Delivered i p \<in> set (drop (length (history_log w)) (history_log w''))
    \<or> DeadLettered i p \<in> set (drop (length (history_log w)) (history_log w''))"
proof -
  have "queue_ok cfg w'"
    using queue_ok_enqueue [OF queue_ok_reachable [OF assms(1)], of True i p] assms(2) by simp
  then have "kept i p (length (history_log w)) w''"
    unfolding assms(3) by (rule kept_run) (rule kept_enqueued [OF assms(2)])
  then show ?thesis by (auto simp: kept_def accounted_def holdsJob_def)
qed

theorem accepted_job_survives_witness:
  "(let w' = snd (enqueue True ''b'' 8 demo_queue);
        w'' = fold (happens demo_config) [Fire 0, Settle False None, Crash, Start, Crash] w'
    in (\<exists>j \<in> set (jobs (state w'')). job_id j = ''b'' \<and> job_payload j = 8) \<and> (\<exists>j \<in> set (jobs (saved w'')). job_id j = ''b'' \<and> job_payload j = 8)
    \<or> Delivered ''b'' 8 \<in> set (drop (length (history_log demo_queue)) (history_log w''))
    \<or> DeadLettered ''b'' 8 \<in> set (drop (length (history_log demo_queue)) (history_log w'')))"
proof -
  have "fst (enqueue True ''b'' 8 demo_queue)" by (simp add: enqueue_def demo_defs)
  then have "enqueue True ''b'' 8 demo_queue = (True, snd (enqueue True ''b'' 8 demo_queue))" by (simp add: prod_eq_iff)
  from accepted_job_survives [OF demo_reachable this refl] show ?thesis by (simp only: Let_def)
qed

text \<open>
  C23. A running queue empties itself whatever the handler and the disk do: when the longest delay passes between
  attempts, a reachable queue with no delivery in flight has no job left after as many attempts as its jobs have tries
  left, which is at least one for each job and at most the configured number.
\<close>

theorem relay_queue_drains:
  assumes "reachable cfg w" "\<not> stopped w" "inFlight w = None"
    and "(\<Sum>j\<leftarrow>jobs (state w). max 1 (maxAttempts cfg - attempts j)) \<le> length outcomes"
  shows "jobs (state (fold (attemptRound cfg) outcomes w)) = []"
  using rounds_empty [OF queue_ok_reachable [OF assms(1)] assms(2,3)] assms(4) by (simp add: triesLeft_def)

theorem relay_queue_drains_witness:
  "jobs (state (fold (attemptRound demo_config) [(True, Some ''timeout''), (False, Some ''timeout'')] demo_queue)) = []"
  by (rule relay_queue_drains [OF demo_reachable]) (simp_all add: demo_config_def queueConfig_def)

text \<open>
  A stop followed by a start while a delivery is in flight leaves two ticks scheduled once the delivery settles, and each keeps
  scheduling a successor.
\<close>

theorem restart_in_flight_doubles_ticks:
  "length (timeouts (fold (happens demo_config) [Fire 0, Stop, Start, Settle True None] demo_queue)) = 2"
  by (simp add: fire_def demo_defs beginAttempt_def stopQueue_def settle_def attemptSucceeded_def spliceAt_def keepRecent_def
      MAX_COMPLETED_IDS_def)

end
