(* ===== verification/Relay_Notifier.thy ===== *)
theory Relay_Notifier
  imports Json_Codec
begin

text \<open>
  The guardian notifications of the relayer: the types of \<^verbatim>\<open>relayer/types.ts\<close>, the encryption of
  \<^verbatim>\<open>relayer/crypto.ts\<close>, the registry of contacts of \<^verbatim>\<open>relayer/guardianResolver.ts\<close> and the construction and
  dispatch of jobs of \<^verbatim>\<open>relayer/notifier.ts\<close>.

  The box of \<^verbatim>\<open>tweetnacl\<close> and the lenient base64 reader of the runtime are parameters, collected in the record \<open>nacl\<close>: the box
  works on bytes, and opening may throw, refuse or return them. The payload is serialised to JSON and UTF-8 and parsed again as in
  \<open>Json_Codec\<close>. Random values are arguments. Numbers of requests and documents are natural numbers that the language represents exactly.
\<close>

section \<open>Types\<close>

datatype ChainId = Evm | Soroban

fun chainText :: "ChainId \<Rightarrow> string" where
  "chainText Evm = ''evm''"
| "chainText Soroban = ''soroban''"

record AccessRequestEvent =
  ev_id :: string
  ev_chain :: ChainId
  ev_contractId :: string
  ev_requestId :: nat
  ev_documentId :: nat
  ev_requester :: string
  ev_blockNumber :: nat
  ev_confirmedAt :: string
  ev_detectedAtMs :: nat

record GuardianChannels =
  pushWebhook :: "string option"
  telegramChatId :: "string option"
  ch_email :: "string option"

record GuardianContact =
  guardian :: string
  publicKey :: "string option"
  channels :: "GuardianChannels option"

record AccessRequestNotification =
  n_title :: string
  n_body :: string
  n_requestId :: nat
  n_documentId :: nat
  n_requester :: string
  n_chain :: ChainId
  n_contractId :: string
  n_deepLink :: string
  n_confirmedAt :: string

record DispatchJob =
  dj_id :: string
  dj_eventId :: string
  dj_contact :: GuardianContact
  dj_notification :: AccessRequestNotification
  dj_encryptedPayload :: "string option"
  dj_createdAtMs :: nat

text \<open>An optional text in a condition: present and not empty.\<close>

definition given :: "string option \<Rightarrow> bool" where
  "given x \<longleftrightarrow> x \<noteq> None \<and> x \<noteq> Some []"

section \<open>Encryption\<close>

record nacl =
  box :: "byte list \<Rightarrow> byte list \<Rightarrow> byte list \<Rightarrow> byte list \<Rightarrow> byte list"
  box_open :: "byte list \<Rightarrow> byte list \<Rightarrow> byte list \<Rightarrow> byte list \<Rightarrow> byte list option result"
  bufferFromBase64 :: "string \<Rightarrow> byte list"

record keypair =
  kp_public :: "byte list"
  kp_secret :: "byte list"

definition publicKeyLength :: nat where
  "publicKeyLength = 32"

definition nonceLength :: nat where
  "nonceLength = 24"

definition overheadLength :: nat where
  "overheadLength = 16"

definition generateGuardianKeyPair :: "keypair \<Rightarrow> string \<times> string" where
  "generateGuardianKeyPair pair = (uint8ArrayToBase64 (kp_public pair), uint8ArrayToBase64 (kp_secret pair))"

definition decodeBase64Key :: "nacl \<Rightarrow> string \<Rightarrow> string \<Rightarrow> byte list result" where
  "decodeBase64Key nc value label =
     (let bytes = bufferFromBase64 nc value in
      if length bytes = 0 then Inl (Error (''Could not decode '' @ label)) else Inr bytes)"

definition encryptForGuardian :: "nacl \<Rightarrow> keypair \<Rightarrow> byte list \<Rightarrow> string \<Rightarrow> json \<Rightarrow> string result" where
  "encryptForGuardian nc ephemeral nonce publicKeyB64 payload =
     bindE (decodeBase64Key nc publicKeyB64 ''guardian public key'') (\<lambda>recipient.
       if length recipient \<noteq> publicKeyLength
       then Inl (Error (''Invalid guardian public key length: '' @ js_num (length recipient)))
       else
         (let plaintext = utf8Encode (stringify payload);
              ciphertext = box nc plaintext nonce recipient (kp_secret ephemeral)
          in Inr (uint8ArrayToBase64 ([1] @ kp_public ephemeral @ nonce @ ciphertext))))"

text \<open>The value of \<^verbatim>\<open>JSON.parse\<close> on the text that bytes decode to; \<open>None\<close> when it is outside of what is modelled.\<close>

definition parseBytes :: "byte list \<Rightarrow> json result option" where
  "parseBytes bytes =
     (case utf8Decode bytes of
        None \<Rightarrow> None
      | Some text \<Rightarrow> (case parseJSON text of Read v \<Rightarrow> Some (Inr v) | Malformed \<Rightarrow> Some (Inl SyntaxError) | Beyond \<Rightarrow> None))"

definition openEnvelope :: "nacl \<Rightarrow> string \<Rightarrow> string \<Rightarrow> byte list result" where
  "openEnvelope nc secretKeyB64 envelopeB64 =
     bindE (decodeBase64Key nc secretKeyB64 ''guardian secret key'') (\<lambda>secret.
       let env = bufferFromBase64 nc envelopeB64 in
       if env = [] \<or> hd env \<noteq> 1 \<or> length env < 1 + publicKeyLength + nonceLength + overheadLength
       then Inl (Error ''Malformed encrypted envelope'')
       else
         (let ephemeralPk = js_slice env 1 (1 + publicKeyLength);
              nonce = js_slice env (1 + publicKeyLength) (1 + publicKeyLength + nonceLength);
              ciphertext = drop (1 + publicKeyLength + nonceLength) env
          in bindE (box_open nc ciphertext nonce ephemeralPk secret) (\<lambda>opened. bind_option opened (Error ''Decryption failed''))))"

definition decryptFromRelayer :: "nacl \<Rightarrow> string \<Rightarrow> string \<Rightarrow> json result option" where
  "decryptFromRelayer nc secretKeyB64 envelopeB64 =
     (case openEnvelope nc secretKeyB64 envelopeB64 of Inl e \<Rightarrow> Some (Inl e) | Inr opened \<Rightarrow> parseBytes opened)"

section \<open>Notifications\<close>

record NotifierOptions =
  approvalUiBaseUrl :: string
  telegramBotToken :: "string option"
  emailWebhookUrl :: "string option"

definition dropTrailingSlashes :: "string \<Rightarrow> string" where
  "dropTrailingSlashes s = rev (dropWhile (\<lambda>c. c = CHR ''/'') (rev s))"

text \<open>The values of the query are digits and the name of the chain, which need no escape.\<close>

definition buildNotification :: "AccessRequestEvent \<Rightarrow> NotifierOptions \<Rightarrow> AccessRequestNotification" where
  "buildNotification ev opts =
     (let params = ''requestId='' @ js_num (ev_requestId ev) @ ''&documentId='' @ js_num (ev_documentId ev) @ ''&chain='' @ chainText (ev_chain ev) in
      \<lparr>n_title = ''Guardian approval requested (#'' @ js_num (ev_requestId ev) @ '')'',
       n_body = ''An access request for document '' @ js_num (ev_documentId ev) @ '' was filed on '' @ chainText (ev_chain ev) @
         ''. Review and approve it in the SpooVault access center.'',
       n_requestId = ev_requestId ev, n_documentId = ev_documentId ev, n_requester = ev_requester ev, n_chain = ev_chain ev,
       n_contractId = ev_contractId ev,
       n_deepLink = dropTrailingSlashes (approvalUiBaseUrl opts) @ ''/access?'' @ params,
       n_confirmedAt = ev_confirmedAt ev\<rparr>)"

text \<open>The notification as the value that is serialised: its properties in the order of the object literal.\<close>

definition notificationJson :: "AccessRequestNotification \<Rightarrow> json" where
  "notificationJson n = JObject
     [(''type'', JText ''access_request''), (''title'', JText (n_title n)), (''body'', JText (n_body n)),
      (''requestId'', JNumber (int (n_requestId n))), (''documentId'', JNumber (int (n_documentId n))),
      (''requester'', JText (n_requester n)), (''chain'', JText (chainText (n_chain n))), (''contractId'', JText (n_contractId n)),
      (''deepLink'', JText (n_deepLink n)), (''confirmedAt'', JText (n_confirmedAt n))]"

definition chan :: "(GuardianChannels \<Rightarrow> string option) \<Rightarrow> GuardianContact \<Rightarrow> string option" where
  "chan f contact = (case channels contact of Some c \<Rightarrow> f c | None \<Rightarrow> None)"

definition isReachable :: "NotifierOptions \<Rightarrow> GuardianContact \<Rightarrow> bool" where
  "isReachable opts contact \<longleftrightarrow> given (chan pushWebhook contact)
     \<or> given (chan telegramChatId contact) \<and> given (telegramBotToken opts)
     \<or> given (chan ch_email contact) \<and> given (emailWebhookUrl opts)"

text \<open>The random values are those drawn for the contact at hand.\<close>

definition jobFor :: "nacl \<Rightarrow> nat \<Rightarrow> AccessRequestEvent \<Rightarrow> AccessRequestNotification
    \<Rightarrow> GuardianContact \<times> keypair \<times> byte list \<Rightarrow> DispatchJob result" where
  "jobFor nc now ev notification = (\<lambda>(contact, ephemeral, nonce).
     bindE (if given (publicKey contact)
            then bindE (encryptForGuardian nc ephemeral nonce (the (publicKey contact)) (notificationJson notification)) (\<lambda>e. Inr (Some e))
            else Inr None) (\<lambda>payload.
       Inr \<lparr>dj_id = ev_id ev @ '':'' @ map lower (guardian contact), dj_eventId = ev_id ev, dj_contact = contact,
         dj_notification = notification, dj_encryptedPayload = payload, dj_createdAtMs = now\<rparr>))"

definition buildJobs :: "nacl \<Rightarrow> NotifierOptions \<Rightarrow> nat \<Rightarrow> AccessRequestEvent
    \<Rightarrow> (GuardianContact \<times> keypair \<times> byte list) list \<Rightarrow> DispatchJob list result" where
  "buildJobs nc opts now ev contacts =
     mapE (jobFor nc now ev (buildNotification ev opts)) (filter (\<lambda>c. isReachable opts (fst c)) contacts)"

fun joinLines :: "string \<Rightarrow> string list \<Rightarrow> string" where
  "joinLines sep [] = []"
| "joinLines sep [l] = l"
| "joinLines sep (l # ls) = l @ sep @ joinLines sep ls"

definition renderText :: "DispatchJob \<Rightarrow> string" where
  "renderText job = (let n = dj_notification job in joinLines [CHR 0x0A]
     ([n_title n, [], n_body n, [],
       ''Chain: '' @ chainText (n_chain n) @ '' | Request: #'' @ js_num (n_requestId n) @ '' | Document: '' @ js_num (n_documentId n),
       ''Approve: '' @ n_deepLink n]
      @ (if given (dj_encryptedPayload job) then [[], ''[encrypted] '' @ the (dj_encryptedPayload job)] else [])))"

datatype envelope_body =
    PlainEnvelope AccessRequestNotification
  | EncryptedEnvelope string string

definition envelope :: "DispatchJob \<Rightarrow> envelope_body" where
  "envelope job = (if \<not> given (dj_encryptedPayload job) then PlainEnvelope (dj_notification job)
     else EncryptedEnvelope (n_title (dj_notification job)) (the (dj_encryptedPayload job)))"

datatype outbound =
    Push string envelope_body
  | Telegram string string string
  | Email string string string string

text \<open>The channels of a job in the order they are tried, with the label used in the messages of failure.\<close>

definition requestsOf :: "NotifierOptions \<Rightarrow> DispatchJob \<Rightarrow> (string \<times> outbound) list" where
  "requestsOf opts job = (let c = dj_contact job in
     (if given (chan pushWebhook c) then [(''push'', Push (the (chan pushWebhook c)) (envelope job))] else []) @
     (if given (chan telegramChatId c) \<and> given (telegramBotToken opts)
      then [(''telegram'', Telegram (''https://api.telegram.org/bot'' @ the (telegramBotToken opts) @ ''/sendMessage'')
               (the (chan telegramChatId c)) (renderText job))] else []) @
     (if given (chan ch_email c) \<and> given (emailWebhookUrl opts)
      then [(''email'', Email (the (emailWebhookUrl opts)) (the (chan ch_email c)) (n_title (dj_notification job)) (renderText job))] else []))"

text \<open>\<open>post\<close> answers \<open>None\<close> when the request is accepted, and else the message of the failure.\<close>

definition dispatch :: "(outbound \<Rightarrow> string option) \<Rightarrow> NotifierOptions \<Rightarrow> DispatchJob \<Rightarrow> unit result" where
  "dispatch post opts job =
     (let delivered = [l. (l, r) \<leftarrow> requestsOf opts job, post r = None];
          failed = [l @ '': '' @ the (post r). (l, r) \<leftarrow> requestsOf opts job, post r \<noteq> None]
      in if length delivered = 0 \<and> length failed > 0
         then Inl (Error (''All channels failed for '' @ dj_id job @ '': '' @ joinLines ''; '' failed)) else Inr ())"

section \<open>The registry of contacts\<close>

datatype jvalue =
    VNull
  | VBool bool
  | VNum nat
  | VText string
  | VList "jvalue list"
  | VObj "(string \<times> jvalue) list"

fun vfield :: "string \<Rightarrow> jvalue \<Rightarrow> jvalue option" where
  "vfield k (VObj kvs) = map_of kvs k"
| "vfield k _ = None"

fun textOf :: "jvalue option \<Rightarrow> string option" where
  "textOf (Some (VText s)) = Some s"
| "textOf _ = None"

definition asString :: "jvalue option \<Rightarrow> string option" where
  "asString v = (case textOf v of Some s \<Rightarrow> if length s > 0 then Some s else None | None \<Rightarrow> None)"

definition rawContacts :: "jvalue \<Rightarrow> jvalue list" where
  "rawContacts body = (case body of VList xs \<Rightarrow> xs | _ \<Rightarrow> (case vfield ''guardians'' body of Some (VList xs) \<Rightarrow> xs | _ \<Rightarrow> []))"

definition normalizeEntry :: "jvalue \<Rightarrow> GuardianContact option" where
  "normalizeEntry entry = (case textOf (vfield ''guardian'' entry) of None \<Rightarrow> None | Some g \<Rightarrow>
     if g = [] then None
     else (let ch = (case vfield ''channels'' entry of Some c \<Rightarrow> c | None \<Rightarrow> VNull) in
       Some \<lparr>guardian = map lower g, publicKey = textOf (vfield ''publicKey'' entry),
         channels = Some \<lparr>pushWebhook = asString (vfield ''pushWebhook'' ch),
           telegramChatId = asString (vfield ''telegramChatId'' ch), ch_email = asString (vfield ''email'' ch)\<rparr>\<rparr>))"

definition normalizeContacts :: "jvalue \<Rightarrow> GuardianContact list" where
  "normalizeContacts body = List.map_filter normalizeEntry (rawContacts body)"


section \<open>Construction and dispatch of jobs\<close>

definition valid_key :: "nacl \<Rightarrow> GuardianContact \<Rightarrow> bool" where
  "valid_key nc c \<longleftrightarrow> (given (publicKey c) \<longrightarrow> length (bufferFromBase64 nc (the (publicKey c))) = publicKeyLength)"

lemma encrypt_ok_iff:
  "(\<exists>e. encryptForGuardian nc eph nonce k m = Inr e) \<longleftrightarrow> length (bufferFromBase64 nc k) = publicKeyLength"
  by (auto simp: encryptForGuardian_def decodeBase64Key_def Let_def bindE_eq_Inr publicKeyLength_def)

lemma jobFor_ok_iff: "(\<exists>j. jobFor nc now ev n (c, r) = Inr j) \<longleftrightarrow> valid_key nc c"
  using encrypt_ok_iff [of nc "fst r" "snd r" "the (publicKey c)" "notificationJson n"]
  by (cases r) (auto simp: jobFor_def valid_key_def bindE_eq_Inr)

lemma jobFor_id: "jobFor nc now ev n (c, r) = Inr j \<Longrightarrow> dj_id j = ev_id ev @ '':'' @ map lower (guardian c)"
  by (cases r) (auto simp: jobFor_def bindE_eq_Inr)

lemma buildJobs_ids:
  "buildJobs nc opts now ev cs = Inr js \<Longrightarrow>
   map dj_id js = map (\<lambda>c. ev_id ev @ '':'' @ map lower (guardian c)) (filter (isReachable opts) (map fst cs))"
  unfolding buildJobs_def
proof (induction cs arbitrary: js)
  case (Cons c cs)
  then show ?case
    by (cases c) (auto simp: bindE_eq_Inr jobFor_id split: if_splits)
qed simp

text \<open>One reachable contact with a key that cannot be used makes the construction fail for every guardian of the event.\<close>

theorem buildJobs_ok_iff:
  "(\<exists>js. buildJobs nc opts now ev cs = Inr js) \<longleftrightarrow> (\<forall>c \<in> set cs. isReachable opts (fst c) \<longrightarrow> valid_key nc (fst c))"
  unfolding buildJobs_def
proof (induction cs)
  case (Cons c cs)
  then show ?case
    using jobFor_ok_iff [of nc now ev "buildNotification ev opts" "fst c" "snd c"]
    by (auto simp: bindE_eq_Inr)
qed simp

lemma requestsOf_reachable: "requestsOf opts job \<noteq> [] \<longleftrightarrow> isReachable opts (dj_contact job)"
  by (simp add: requestsOf_def isReachable_def Let_def)

lemma dispatch_lists:
  "[l. (l, r) \<leftarrow> xs, post r = None] = [] \<longleftrightarrow> (\<forall>x \<in> set xs. post (snd x) \<noteq> None)"
  "[l @ s @ the (post r). (l, r) \<leftarrow> xs, post r \<noteq> None] \<noteq> [] \<longleftrightarrow> (\<exists>x \<in> set xs. post (snd x) \<noteq> None)"
  by (induction xs) (auto split: if_splits)

text \<open>For a job that was built for a reachable contact, the handler returns exactly when some channel took the notification.\<close>

theorem dispatch_ok_iff:
  assumes "isReachable opts (dj_contact job)"
  shows "dispatch post opts job = Inr () \<longleftrightarrow> (\<exists>r \<in> snd ` set (requestsOf opts job). post r = None)"
proof -
  let ?rs = "requestsOf opts job"
  have "?rs \<noteq> []" using assms by (simp add: requestsOf_reachable)
  then obtain x where x: "x \<in> set ?rs" by (meson last_in_set)
  have "dispatch post opts job = Inr () \<longleftrightarrow>
      \<not> ([l. (l, r) \<leftarrow> ?rs, post r = None] = [] \<and> [l @ '': '' @ the (post r). (l, r) \<leftarrow> ?rs, post r \<noteq> None] \<noteq> [])"
    by (simp only: dispatch_def Let_def length_0_conv length_greater_0_conv) simp
  also have "\<dots> \<longleftrightarrow> (\<exists>x \<in> set ?rs. post (snd x) = None)"
    unfolding dispatch_lists using x by (cases "post (snd x) = None") auto
  finally show ?thesis by simp
qed

lemma normalizeEntry_SomeD:
  assumes "normalizeEntry entry = Some c"
  shows "guardian c \<noteq> [] \<and> (\<exists>g. guardian c = map lower g) \<and> channels c \<noteq> None"
proof (cases "textOf (vfield ''guardian'' entry)")
  case (Some g)
  then show ?thesis using assms by (cases "g = []") (auto simp: normalizeEntry_def Let_def)
qed (use assms in \<open>simp add: normalizeEntry_def\<close>)

theorem normalized_guardians:
  "c \<in> set (normalizeContacts body) \<Longrightarrow> guardian c \<noteq> [] \<and> (\<exists>g. guardian c = map lower g) \<and> channels c \<noteq> None"
  unfolding normalizeContacts_def List.map_filter_def using normalizeEntry_SomeD by force

section \<open>Properties of the notifications\<close>

text \<open>A notification is a payload that the serialisation represents exactly.\<close>

lemma notification_exact:
  assumes "n_requestId n \<le> 2 ^ 53" "n_documentId n \<le> 2 ^ 53"
  shows "exactJson (notificationJson n)"
  using assms by (simp add: notificationJson_def ownOrder_def arrayIndex_def parse_digits_def digit_val_def)

text \<open>
  C26. What the relayer encrypts to the published key of a guardian, the guardian decrypts: for every ephemeral pair and nonce,
  encryption succeeds, and decryption with the secret key parses the bytes to the payload again, for every payload of JSON values over
  texts of code points below 256, integers up to \<open>2 ^ 53\<close>, arrays and objects without repeated names. The hypotheses are the documented
  behaviour of the box on bytes for the two key pairs, the sizes of keys and nonces, and that the runtime reads the base64 text it wrote.
\<close>

theorem guardian_decrypts:
  assumes opens: "\<And>m nonce. length nonce = 24 \<Longrightarrow>
      box_open nc (box nc m nonce (kp_public g) (kp_secret e)) nonce (kp_public e) (kp_secret g) = Inr (Some m)"
    and overhead: "\<And>m nonce. length nonce = 24 \<Longrightarrow> length (box nc m nonce (kp_public g) (kp_secret e)) = length m + 16"
    and reads: "\<And>bs. bufferFromBase64 nc (uint8ArrayToBase64 bs) = bs"
    and sizes: "length (kp_public g) = 32" "length (kp_secret g) = 32" "length (kp_public e) = 32" "length nonce = 24"
    and exact: "exactJson payload"
  shows "\<exists>env. encryptForGuardian nc e nonce (fst (generateGuardianKeyPair g)) payload = Inr env
    \<and> decryptFromRelayer nc (snd (generateGuardianKeyPair g)) env = Some (Inr payload)"
proof -
  let ?m = "utf8Encode (stringify payload)"
  let ?c = "box nc ?m nonce (kp_public g) (kp_secret e)"
  let ?b = "[1] @ kp_public e @ nonce @ ?c"
  have enc: "encryptForGuardian nc e nonce (fst (generateGuardianKeyPair g)) payload = Inr (uint8ArrayToBase64 ?b)"
    using sizes by (auto simp: encryptForGuardian_def generateGuardianKeyPair_def decodeBase64Key_def reads publicKeyLength_def Let_def)
  have parts: "js_slice ?b 1 33 = kp_public e" "js_slice ?b 33 57 = nonce" "drop 57 ?b = ?c"
    using sizes by (simp_all add: js_slice_def numeral_eq_Suc)
  have "72 < length ?b" using sizes overhead [OF sizes(4), of ?m] by simp
  moreover have "kp_secret g \<noteq> []" using sizes(2) by auto
  ultimately have "openEnvelope nc (snd (generateGuardianKeyPair g)) (uint8ArrayToBase64 ?b) = Inr ?m"
    using sizes parts opens [OF sizes(4)]
    by (simp add: openEnvelope_def generateGuardianKeyPair_def decodeBase64Key_def reads publicKeyLength_def nonceLength_def
        overheadLength_def Let_def)
  then have "decryptFromRelayer nc (snd (generateGuardianKeyPair g)) (uint8ArrayToBase64 ?b) = Some (Inr payload)"
    by (simp add: decryptFromRelayer_def parseBytes_def utf8_roundtrip parse_stringify [OF exact])
  with enc show ?thesis by blast
qed

definition demo_nacl :: nacl where
  "demo_nacl = \<lparr>box = (\<lambda>m n p s. replicate 16 0 @ m), box_open = (\<lambda>c n p s. Inr (Some (drop 16 c))),
     bufferFromBase64 = (\<lambda>t. case base64ToUint8Array t of Inl _ \<Rightarrow> [] | Inr bs \<Rightarrow> bs)\<rparr>"

definition demo_event :: AccessRequestEvent where
  "demo_event = \<lparr>ev_id = ''evm:0xa:7:0'', ev_chain = Evm, ev_contractId = ''0xA'', ev_requestId = 3, ev_documentId = 4, ev_requester = ''0xB'',
     ev_blockNumber = 7, ev_confirmedAt = ''t'', ev_detectedAtMs = 10\<rparr>"

definition demo_options :: NotifierOptions where
  "demo_options = \<lparr>approvalUiBaseUrl = ''https://ui/'', telegramBotToken = Some ''T'', emailWebhookUrl = None\<rparr>"

theorem guardian_decrypts_witness:
  "\<exists>env. encryptForGuardian demo_nacl \<lparr>kp_public = replicate 32 5, kp_secret = replicate 32 6\<rparr> (replicate 24 9)
      (fst (generateGuardianKeyPair \<lparr>kp_public = replicate 32 1, kp_secret = replicate 32 2\<rparr>))
      (notificationJson (buildNotification demo_event demo_options)) = Inr env
    \<and> decryptFromRelayer demo_nacl (snd (generateGuardianKeyPair \<lparr>kp_public = replicate 32 1, kp_secret = replicate 32 2\<rparr>)) env =
        Some (Inr (notificationJson (buildNotification demo_event demo_options)))"
proof (rule guardian_decrypts)
  show "exactJson (notificationJson (buildNotification demo_event demo_options))"
    by (rule notification_exact) (simp_all add: buildNotification_def demo_event_def Let_def)
qed (simp_all add: demo_nacl_def base64_roundtrip)

lemma joinLines_Cons: "ls \<noteq> [] \<Longrightarrow> joinLines sep (l # ls) = l @ sep @ joinLines sep ls"
  by (cases ls) simp_all

lemma renderText_parts:
  "\<exists>a b c. renderText job = a @ n_body (dj_notification job) @ b @ n_deepLink (dj_notification job) @ c"
proof -
  let ?n = "dj_notification job"
  let ?e = "if given (dj_encryptedPayload job) then [[], ''[encrypted] '' @ the (dj_encryptedPayload job)] else []"
  have tail: "\<exists>c. joinLines [CHR 0x0A] ((''Approve: '' @ n_deepLink ?n) # ?e) = (''Approve: '' @ n_deepLink ?n) @ c"
    by (cases "?e = []") (simp_all add: joinLines_Cons)
  have "renderText job = (n_title ?n @ [CHR 0x0A, CHR 0x0A]) @ n_body ?n @
      ([CHR 0x0A, CHR 0x0A] @ (''Chain: '' @ chainText (n_chain ?n) @ '' | Request: #'' @ js_num (n_requestId ?n) @ '' | Document: '' @
        js_num (n_documentId ?n)) @ [CHR 0x0A]) @ joinLines [CHR 0x0A] ((''Approve: '' @ n_deepLink ?n) # ?e)"
    by (simp add: renderText_def Let_def joinLines_Cons)
  then show ?thesis using tail by (metis append.assoc)
qed

lemma requestsOf_cases:
  "r \<in> snd ` set (requestsOf opts job) \<Longrightarrow> (\<exists>u. r = Push u (envelope job)) \<or> (\<exists>u t. r = Telegram u t (renderText job))
     \<or> (\<exists>u t s. r = Email u t s (renderText job))"
  by (auto simp: requestsOf_def Let_def split: if_splits)

text \<open>
  C27. A guardian's public key protects the push channel only. For a job with an encrypted payload the push request carries the
  title and the ciphertext and nothing else of the notification, but every text handed to Telegram and to the mail
  service contains the body and the approval link in the clear.
\<close>

theorem text_channels_in_clear:
  assumes "given (dj_encryptedPayload job)" "r \<in> snd ` set (requestsOf opts job)"
  shows "(case r of
      Push url b \<Rightarrow> b = EncryptedEnvelope (n_title (dj_notification job)) (the (dj_encryptedPayload job))
    | Telegram url to body \<Rightarrow> \<exists>a b c. body = a @ n_body (dj_notification job) @ b @ n_deepLink (dj_notification job) @ c
    | Email url to subject body \<Rightarrow> \<exists>a b c. body = a @ n_body (dj_notification job) @ b @ n_deepLink (dj_notification job) @ c)"
  using requestsOf_cases [OF assms(2)] assms(1)
  by (elim disjE exE) (simp_all add: envelope_def renderText_parts)

definition demo_job :: DispatchJob where
  "demo_job = \<lparr>dj_id = ''evm:0xa:7:0:0xg'', dj_eventId = ''evm:0xa:7:0'',
     dj_contact = \<lparr>guardian = ''0xg'', publicKey = Some ''k'', channels = Some \<lparr>pushWebhook = None, telegramChatId = Some ''42'', ch_email = None\<rparr>\<rparr>,
     dj_notification = buildNotification demo_event demo_options, dj_encryptedPayload = Some ''cipher'', dj_createdAtMs = 10\<rparr>"

theorem text_channels_in_clear_witness:
  "\<exists>a b c. renderText demo_job = a @ n_body (buildNotification demo_event demo_options) @ b @ n_deepLink (buildNotification demo_event demo_options) @ c"
proof -
  have "Telegram ''https://api.telegram.org/botT/sendMessage'' ''42'' (renderText demo_job) \<in> snd ` set (requestsOf demo_options demo_job)"
    by (simp add: requestsOf_def demo_job_def demo_options_def chan_def given_def Let_def)
  from text_channels_in_clear [OF _ this] show ?thesis by (simp add: demo_job_def given_def)
qed

end
