(* ===== verification/Relayer.thy ===== *)
theory Relayer
  imports Relay_Queue Relay_Notifier
begin

text \<open>
  The listeners of \<^verbatim>\<open>relayer/listeners.ts\<close>, the resolver of \<^verbatim>\<open>relayer/guardianResolver.ts\<close> and their composition
  with the notifier and the queue in \<^verbatim>\<open>relayer/main.ts\<close>.

  The record \<open>relayer\<close> holds the state of all parts. Answers of the chains and of the registry of contacts are arguments of the
  steps that receive them; a request to the registry is in \<open>resolving\<close> until it is answered, so other steps come between. The
  clock is that of the queue. The record \<open>relay_env\<close> holds the box, the random values drawn for an event and a contact, the
  formatting of dates, and whether writes of the journal succeed. The field \<open>scanStart\<close> records where the scan of the
  chain began, for the statements.
\<close>

section \<open>State\<close>

type_synonym cache_key = "ChainId \<times> string \<times> nat \<times> nat \<times> string option"

record relay_env =
  re_nacl :: "nacl"
  re_random :: "AccessRequestEvent \<Rightarrow> GuardianContact \<Rightarrow> keypair \<times> byte list"
  re_isoDate :: "nat \<Rightarrow> string"
  re_writes :: bool

record relayer_config =
  evmContractAddress :: string
  evmStartBlock :: "nat option"
  guardianContactsUrl :: "string option"
  notifierOptions :: NotifierOptions
  queueOptions :: queue_config

record relayer =
  connected :: bool
  lastBlock :: "nat option"
  scanStart :: nat
  cursors :: "string \<rightharpoonup> string"
  seen :: "string set"
  eventsDetected :: nat
  notificationsQueued :: nat
  contactsCache :: "cache_key \<rightharpoonup> nat \<times> GuardianContact list"
  resolving :: "AccessRequestEvent list"
  rqueue :: "DispatchJob relay_queue"

definition newRelayer :: "DispatchJob journal \<Rightarrow> nat \<Rightarrow> relayer" where
  "newRelayer d now = \<lparr>connected = False, lastBlock = None, scanStart = 0, cursors = Map.empty, seen = {}, eventsDetected = 0,
     notificationsQueued = 0, contactsCache = Map.empty, resolving = [], rqueue = newQueue d now\<rparr>"

section \<open>From an event to jobs\<close>

definition enqueueJobs :: "bool \<Rightarrow> DispatchJob list \<Rightarrow> nat \<times> DispatchJob relay_queue \<Rightarrow> nat \<times> DispatchJob relay_queue" where
  "enqueueJobs ok js = fold (\<lambda>job (n, q). let (b, q') = enqueue ok (dj_id job) job q in (if b then n + 1 else n, q')) js"

definition dispatchContacts :: "relay_env \<Rightarrow> relayer_config \<Rightarrow> AccessRequestEvent \<Rightarrow> GuardianContact list \<Rightarrow> relayer \<Rightarrow> relayer" where
  "dispatchContacts env cfg ev contacts r =
     (case buildJobs (re_nacl env) (notifierOptions cfg) (clock (rqueue r)) ev (map (\<lambda>c. (c, re_random env ev c)) contacts) of
        Inl e \<Rightarrow> r
      | Inr js \<Rightarrow> (let (n, q) = enqueueJobs (re_writes env) js (notificationsQueued r, rqueue r) in r\<lparr>notificationsQueued := n, rqueue := q\<rparr>))"

text \<open>The address of the request is determined by the parameters set on it.\<close>

definition cacheKey :: "AccessRequestEvent \<Rightarrow> cache_key" where
  "cacheKey ev = (ev_chain ev, ev_contractId ev, ev_requestId ev, ev_documentId ev,
     if ev_requester ev = [] then None else Some (map lower (ev_requester ev)))"

definition cachedContacts :: "AccessRequestEvent \<Rightarrow> relayer \<Rightarrow> GuardianContact list option" where
  "cachedContacts ev r = (case contactsCache r (cacheKey ev) of None \<Rightarrow> None | Some (atMs, contacts) \<Rightarrow>
     if clock (rqueue r) - atMs < 30000 then Some contacts else None)"

definition handleEvent :: "relay_env \<Rightarrow> relayer_config \<Rightarrow> AccessRequestEvent \<Rightarrow> relayer \<Rightarrow> relayer" where
  "handleEvent env cfg ev r0 =
     (let r = r0\<lparr>eventsDetected := eventsDetected r0 + 1\<rparr> in
      if \<not> given (guardianContactsUrl cfg) then r
      else case cachedContacts ev r of
          Some contacts \<Rightarrow> dispatchContacts env cfg ev contacts r
        | None \<Rightarrow> r\<lparr>resolving := resolving r @ [ev]\<rparr>)"

datatype registry_answer =
    RequestFailed
  | RegistryStatus nat
  | NotJson
  | RegistryBody jvalue

text \<open>The registry answers a request: contacts are cached and dispatched; a failure is logged.\<close>

definition registryAnswers :: "relay_env \<Rightarrow> relayer_config \<Rightarrow> AccessRequestEvent \<Rightarrow> registry_answer \<Rightarrow> relayer \<Rightarrow> relayer" where
  "registryAnswers env cfg ev answer r0 =
     (if ev \<notin> set (resolving r0) then r0
      else let r = r0\<lparr>resolving := remove1 ev (resolving r0)\<rparr> in
        case answer of
          RegistryBody body \<Rightarrow>
            (let contacts = normalizeContacts body in
             dispatchContacts env cfg ev contacts (r\<lparr>contactsCache := (contactsCache r)(cacheKey ev \<mapsto> (clock (rqueue r), contacts))\<rparr>))
        | _ \<Rightarrow> r)"

definition emitNew :: "relay_env \<Rightarrow> relayer_config \<Rightarrow> AccessRequestEvent \<Rightarrow> relayer \<Rightarrow> relayer" where
  "emitNew env cfg ev r = (if ev_id ev \<in> seen r then r else handleEvent env cfg ev (r\<lparr>seen := insert (ev_id ev) (seen r)\<rparr>))"

section \<open>The listener of an EVM chain\<close>

record EvmLog =
  log_block :: nat
  log_index :: nat
  log_requestId :: nat
  log_documentId :: nat
  log_requester :: string

definition evmEventId :: "string \<Rightarrow> EvmLog \<Rightarrow> string" where
  "evmEventId addr l = ''evm:'' @ map lower addr @ '':'' @ js_num (log_block l) @ '':'' @ js_num (log_index l)"

definition evmEvent :: "relay_env \<Rightarrow> string \<Rightarrow> nat \<Rightarrow> EvmLog \<Rightarrow> AccessRequestEvent" where
  "evmEvent env addr now l =
     \<lparr>ev_id = evmEventId addr l, ev_chain = Evm, ev_contractId = addr, ev_requestId = log_requestId l,
      ev_documentId = log_documentId l, ev_requester = log_requester l, ev_blockNumber = log_block l,
      ev_confirmedAt = re_isoDate env now, ev_detectedAtMs = now\<rparr>"

text \<open>The chain answers its current height, or the start fails.\<close>

definition evmStart :: "relayer_config \<Rightarrow> nat option \<Rightarrow> relayer \<Rightarrow> relayer" where
  "evmStart cfg height r = (let r = r\<lparr>connected := True\<rparr> in
     case height of None \<Rightarrow> r | Some current \<Rightarrow>
       (let startBlock = (case evmStartBlock cfg of Some b \<Rightarrow> b | None \<Rightarrow> 0) in
        let b = (if startBlock > 0 then min (startBlock - 1) current else current) in r\<lparr>lastBlock := Some b, scanStart := b\<rparr>))"

definition evmStop :: "relayer \<Rightarrow> relayer" where
  "evmStop r = r\<lparr>connected := False\<rparr>"

definition evmPoll :: "relay_env \<Rightarrow> relayer_config \<Rightarrow> nat option \<Rightarrow> (nat \<Rightarrow> nat \<Rightarrow> EvmLog list option) \<Rightarrow> relayer \<Rightarrow> relayer" where
  "evmPoll env cfg height queryFilter r =
     (case (if connected r then lastBlock r else None, height) of
        (Some b, Some head) \<Rightarrow>
          (let toBlock = min head (b + 5000) in
           if toBlock \<le> b then r
           else (case queryFilter (b + 1) toBlock of
               None \<Rightarrow> r
             | Some logs \<Rightarrow> (fold (\<lambda>l. emitNew env cfg (evmEvent env (evmContractAddress cfg) (clock (rqueue r)) l)) logs r)\<lparr>lastBlock := Some toBlock\<rparr>))
      | _ \<Rightarrow> r)"

section \<open>The listener of a Soroban chain\<close>

record RawSorobanEvent =
  raw_id :: "string option"
  raw_pagingToken :: "string option"
  raw_ledger :: "nat option"
  raw_ledgerClosedAt :: "string option"
  raw_topic :: "jvalue list option"
  raw_value :: "jvalue option"

datatype soroban_response =
    FetchFailed
  | SorobanStatus nat
  | SorobanNotJson
  | SorobanError "string option"
  | SorobanEvents "RawSorobanEvent list option"

definition decimal :: "string \<Rightarrow> bool" where
  "decimal s \<longleftrightarrow> s \<noteq> [] \<and> (\<forall>c \<in> set s. is_digit 10 c)"

fun readNumber :: "jvalue \<Rightarrow> nat" and readFields :: "string list \<Rightarrow> (string \<times> jvalue) list \<Rightarrow> nat" and
    readField :: "string \<Rightarrow> (string \<times> jvalue) list \<Rightarrow> nat option" where
  "readNumber (VNum n) = n"
| "readNumber (VText s) = (if decimal s then the (parse_digits 10 s) else 0)"
| "readNumber (VObj kvs) = readFields [''u64'', ''u32'', ''i64'', ''u128'', ''value''] kvs"
| "readNumber _ = 0"
| "readFields [] kvs = 0"
| "readFields (k # ks) kvs = (case readField k kvs of Some n \<Rightarrow> n | None \<Rightarrow> readFields ks kvs)"
| "readField k [] = None"
| "readField k ((k', v) # kvs) = (if k = k' then Some (readNumber v) else readField k kvs)"

definition readString :: "jvalue \<Rightarrow> string option" where
  "readString v = (case v of VText s \<Rightarrow> Some s
     | _ \<Rightarrow> (case textOf (vfield ''symbol'' v) of Some s \<Rightarrow> Some s | None \<Rightarrow> textOf (vfield ''string'' v)))"

definition readElement :: "jvalue list \<Rightarrow> nat \<Rightarrow> jvalue option" where
  "readElement xs i = (if i < length xs then Some (xs ! i) else None)"

definition numberOf :: "jvalue option \<Rightarrow> nat" where
  "numberOf v = (case v of Some x \<Rightarrow> readNumber x | None \<Rightarrow> 0)"

text \<open>Of two spellings of a key the second overrides the first.\<close>

definition eitherKey :: "string \<Rightarrow> string \<Rightarrow> jvalue \<Rightarrow> nat" where
  "eitherKey k k' obj = (case vfield k' obj of Some v \<Rightarrow> readNumber v | None \<Rightarrow> numberOf (vfield k obj))"

definition extractSorobanRequestInfo :: "jvalue option \<Rightarrow> nat \<times> nat \<times> string option" where
  "extractSorobanRequestInfo v =
     (case v of
        Some (VList xs) \<Rightarrow> (numberOf (readElement xs 0), numberOf (readElement xs 1), Option.bind (readElement xs 2) readString)
      | Some (VObj kvs) \<Rightarrow> (eitherKey ''request_id'' ''requestId'' (VObj kvs), eitherKey ''document_id'' ''documentId'' (VObj kvs),
          Option.bind (vfield ''requester'' (VObj kvs)) readString)
      | _ \<Rightarrow> (0, 0, None))"

text \<open>
  Whether the printed form of a value contains a word of letters: no escape contains or interrupts such a word,
  so it is inside one text or one key.
\<close>

definition containsText :: "string \<Rightarrow> string \<Rightarrow> bool" where
  "containsText p s = list_ex (\<lambda>i. take (length p) (drop i s) = p) [0..<Suc (length s)]"

fun mentions :: "string \<Rightarrow> jvalue \<Rightarrow> bool" where
  "mentions p (VText s) = containsText p s"
| "mentions p (VList xs) = list_ex (mentions p) xs"
| "mentions p (VObj kvs) = list_ex (\<lambda>(k, v). containsText p k \<or> mentions p v) kvs"
| "mentions p _ = False"

definition sorobanEvent :: "relay_env \<Rightarrow> string \<Rightarrow> nat \<Rightarrow> string \<Rightarrow> RawSorobanEvent \<Rightarrow> AccessRequestEvent" where
  "sorobanEvent env contractId now token raw =
     (let (rid, did, req) = extractSorobanRequestInfo (raw_value raw) in
      \<lparr>ev_id = ''soroban:'' @ contractId @ '':'' @ (case raw_id raw of Some i \<Rightarrow> i | None \<Rightarrow> token), ev_chain = Soroban,
       ev_contractId = contractId, ev_requestId = rid, ev_documentId = did, ev_requester = (case req of Some s \<Rightarrow> s | None \<Rightarrow> []),
       ev_blockNumber = (case raw_ledger raw of Some n \<Rightarrow> n | None \<Rightarrow> 0),
       ev_confirmedAt = (case raw_ledgerClosedAt raw of Some t \<Rightarrow> t | None \<Rightarrow> re_isoDate env now), ev_detectedAtMs = now\<rparr>)"

definition cursorToken :: "RawSorobanEvent \<Rightarrow> string option" where
  "cursorToken raw = (case raw_pagingToken raw of Some t \<Rightarrow> Some t | None \<Rightarrow> raw_id raw)"

definition sorobanRow :: "relay_env \<Rightarrow> relayer_config \<Rightarrow> string \<Rightarrow> RawSorobanEvent \<Rightarrow> relayer \<Rightarrow> relayer" where
  "sorobanRow env cfg contractId raw r =
     (if \<not> given (cursorToken raw) then r
      else let token = the (cursorToken raw); r' = r\<lparr>cursors := (cursors r)(contractId \<mapsto> token)\<rparr> in
        if list_ex (mentions ''AccessRequested'') (case raw_topic raw of Some ts \<Rightarrow> ts | None \<Rightarrow> [])
        then emitNew env cfg (sorobanEvent env contractId (clock (rqueue r)) token raw) r' else r')"

definition pollContract :: "relay_env \<Rightarrow> relayer_config \<Rightarrow> string \<Rightarrow> soroban_response \<Rightarrow> relayer \<Rightarrow> relayer" where
  "pollContract env cfg contractId response r =
     (case response of SorobanEvents (Some evs) \<Rightarrow> fold (sorobanRow env cfg contractId) evs r | _ \<Rightarrow> r)"

definition cursorParam :: "string \<Rightarrow> relayer \<Rightarrow> string option" where
  "cursorParam contractId r = (if given (cursors r contractId) then cursors r contractId else None)"

section \<open>Histories of the relayer\<close>

text \<open>The queue starts only after the listeners did.\<close>

definition startRelayer :: "relayer_config \<Rightarrow> nat option \<Rightarrow> relayer \<Rightarrow> relayer" where
  "startRelayer cfg height r = (let r' = evmStart cfg height r in
     if height = None then r' else r'\<lparr>rqueue := startQueue (rqueue r')\<rparr>)"

definition stopRelayer :: "relayer \<Rightarrow> relayer" where
  "stopRelayer r = (let r' = evmStop r in r'\<lparr>rqueue := stopQueue (rqueue r')\<rparr>)"

definition health :: "relayer \<Rightarrow> nat \<times> nat \<times> QueueStats" where
  "health r = (eventsDetected r, notificationsQueued r, stats (rqueue r))"

datatype relay_event =
    Started "nat option"
  | Stopped
  | Poll "nat option" bool
  | SorobanPoll string soroban_response
  | Registry AccessRequestEvent registry_answer
  | Queue "DispatchJob queue_event"
  | ProcessCrash

text \<open>The logs of the contract by block; a query for a range returns them in order, or fails.\<close>

definition chainQuery :: "(nat \<Rightarrow> EvmLog list) \<Rightarrow> bool \<Rightarrow> nat \<Rightarrow> nat \<Rightarrow> EvmLog list option" where
  "chainQuery chain ok from to = (if ok then Some (concat (map chain [from..<Suc to])) else None)"

text \<open>A crash of the process loses everything but the journal.\<close>

definition crashRelayer :: "relayer \<Rightarrow> relayer" where
  "crashRelayer r = (newRelayer (disk (rqueue r)) (clock (rqueue r)))\<lparr>rqueue := restart (rqueue r)\<rparr>"

fun occurs :: "relay_env \<Rightarrow> relayer_config \<Rightarrow> (nat \<Rightarrow> EvmLog list) \<Rightarrow> relay_event \<Rightarrow> relayer \<Rightarrow> relayer" where
  "occurs env cfg chain (Started height) r = startRelayer cfg height r"
| "occurs env cfg chain Stopped r = stopRelayer r"
| "occurs env cfg chain (Poll height ok) r = evmPoll env cfg height (chainQuery chain ok) r"
| "occurs env cfg chain (SorobanPoll c resp) r = pollContract env cfg c resp r"
| "occurs env cfg chain (Registry ev ans) r = registryAnswers env cfg ev ans r"
| "occurs env cfg chain (Queue e) r = (if e = Crash then crashRelayer r else r\<lparr>rqueue := happens (queueOptions cfg) e (rqueue r)\<rparr>)"
| "occurs env cfg chain ProcessCrash r = crashRelayer r"

section \<open>What each step leaves alone\<close>

lemma dispatchContacts_frame [simp]:
  "connected (dispatchContacts env cfg ev cs r) = connected r" "lastBlock (dispatchContacts env cfg ev cs r) = lastBlock r"
  "scanStart (dispatchContacts env cfg ev cs r) = scanStart r" "seen (dispatchContacts env cfg ev cs r) = seen r"
  "eventsDetected (dispatchContacts env cfg ev cs r) = eventsDetected r" "resolving (dispatchContacts env cfg ev cs r) = resolving r"
  "contactsCache (dispatchContacts env cfg ev cs r) = contactsCache r" "cursors (dispatchContacts env cfg ev cs r) = cursors r"
  by (auto simp: dispatchContacts_def split: sum.splits prod.splits)

lemma handleEvent_frame [simp]:
  "connected (handleEvent env cfg ev r) = connected r" "lastBlock (handleEvent env cfg ev r) = lastBlock r"
  "scanStart (handleEvent env cfg ev r) = scanStart r" "seen (handleEvent env cfg ev r) = seen r"
  "eventsDetected (handleEvent env cfg ev r) = Suc (eventsDetected r)"
  "set (resolving (handleEvent env cfg ev r)) \<subseteq> insert ev (set (resolving r))"
  by (auto simp: handleEvent_def Let_def split: option.splits)

lemma emitNew_frame [simp]:
  "connected (emitNew env cfg ev r) = connected r" "lastBlock (emitNew env cfg ev r) = lastBlock r"
  "scanStart (emitNew env cfg ev r) = scanStart r" "seen (emitNew env cfg ev r) = insert (ev_id ev) (seen r)"
  "eventsDetected (emitNew env cfg ev r) = (if ev_id ev \<in> seen r then eventsDetected r else Suc (eventsDetected r))"
  by (auto simp: emitNew_def)

section \<open>Invariant of the listeners\<close>

definition detected_ok :: "relayer \<Rightarrow> bool" where
  "detected_ok r \<longleftrightarrow> finite (seen r) \<and> eventsDetected r = card (seen r) \<and> (\<forall>ev \<in> set (resolving r). ev_id ev \<in> seen r)"

definition scanned_ok :: "relayer_config \<Rightarrow> (nat \<Rightarrow> EvmLog list) \<Rightarrow> relayer \<Rightarrow> bool" where
  "scanned_ok cfg chain r \<longleftrightarrow> (\<forall>b k l. lastBlock r = Some b \<longrightarrow> scanStart r < k \<longrightarrow> k \<le> b \<longrightarrow> l \<in> set (chain k) \<longrightarrow>
     evmEventId (evmContractAddress cfg) l \<in> seen r)"

lemma detected_emit: "detected_ok r \<Longrightarrow> detected_ok (emitNew env cfg ev r)"
  using handleEvent_frame(6) [of env cfg ev "r\<lparr>seen := insert (ev_id ev) (seen r)\<rparr>"]
  by (auto simp: detected_ok_def card_insert_if) (auto simp: emitNew_def split: if_splits)

lemma detected_fold:
  "(\<And>x r. detected_ok r \<Longrightarrow> detected_ok (f x r)) \<Longrightarrow> detected_ok r \<Longrightarrow> detected_ok (fold f xs r)"
  by (induction xs arbitrary: r) auto

lemma emit_fold:
  "lastBlock (fold (\<lambda>l. emitNew env cfg (g l)) ls r) = lastBlock r" "scanStart (fold (\<lambda>l. emitNew env cfg (g l)) ls r) = scanStart r"
  "seen (fold (\<lambda>l. emitNew env cfg (g l)) ls r) = (\<lambda>l. ev_id (g l)) ` set ls \<union> seen r"
  by (induction ls arbitrary: r) auto

lemma detected_cursors: "detected_ok (r\<lparr>cursors := x\<rparr>) = detected_ok r"
  by (simp add: detected_ok_def)

lemma detected_row: "detected_ok r \<Longrightarrow> detected_ok (sorobanRow env cfg c raw r)"
  by (simp add: sorobanRow_def Let_def detected_emit detected_cursors)

lemma row_frame:
  "lastBlock (sorobanRow env cfg c raw r) = lastBlock r" "scanStart (sorobanRow env cfg c raw r) = scanStart r"
  "seen r \<subseteq> seen (sorobanRow env cfg c raw r)"
  by (auto simp: sorobanRow_def Let_def)

lemma rows_frame:
  "lastBlock (fold (sorobanRow env cfg c) xs r) = lastBlock r" "scanStart (fold (sorobanRow env cfg c) xs r) = scanStart r"
  "seen r \<subseteq> seen (fold (sorobanRow env cfg c) xs r)"
  using row_frame by (induction xs arbitrary: r) (simp_all, fast)


lemma occurs_ok:
  assumes "detected_ok r"
  shows "detected_ok (occurs env cfg chain e r)"
proof (cases e)
  case (Poll height ok)
  have "detected_ok (fold (\<lambda>l. emitNew env cfg (g l)) ls r)" for g and ls :: "EvmLog list"
    using assms by (intro detected_fold detected_emit)
  then have "detected_ok ((fold (\<lambda>l. emitNew env cfg (g l)) ls r)\<lparr>lastBlock := x\<rparr>)" for g x and ls :: "EvmLog list"
    by (simp add: detected_ok_def)
  with Poll assms show ?thesis by (auto simp: evmPoll_def Let_def split: option.splits prod.splits)
next
  case (SorobanPoll c resp)
  have "detected_ok (fold (sorobanRow env cfg c) evs r)" for evs
    using assms by (intro detected_fold detected_row)
  with SorobanPoll assms show ?thesis by (auto simp: pollContract_def split: soroban_response.splits option.splits)
next
  case (Registry ev ans)
  with assms show ?thesis
    using set_remove1_subset [of ev "resolving r"]
    by (auto simp: registryAnswers_def Let_def detected_ok_def split: registry_answer.splits)
qed (use assms in \<open>auto simp: detected_ok_def startRelayer_def stopRelayer_def evmStart_def evmStop_def crashRelayer_def newRelayer_def Let_def split: option.splits\<close>)

lemma evmPoll_scanned:
  assumes "scanned_ok cfg chain r"
  shows "scanned_ok cfg chain (evmPoll env cfg height (chainQuery chain ok) r)"
proof (cases "\<exists>b head. connected r \<and> lastBlock r = Some b \<and> height = Some head \<and> ok \<and> b < min head (b + 5000)")
  case True
  then obtain b head where c: "connected r" "lastBlock r = Some b" "height = Some head" "ok" and less: "b < min head (b + 5000)" by blast
  let ?to = "min head (b + 5000)" and ?id = "evmEventId (evmContractAddress cfg)"
  let ?r = "evmPoll env cfg height (chainQuery chain ok) r"
  have r: "lastBlock ?r = Some ?to" "scanStart ?r = scanStart r"
    "seen ?r = ?id ` set (concat (map chain [b + 1..<Suc ?to])) \<union> seen r"
    using c less by (simp_all add: evmPoll_def Let_def chainQuery_def emit_fold evmEvent_def del: upt_Suc)
  show ?thesis
    unfolding scanned_ok_def
  proof (intro allI impI)
    fix b' k l
    assume b': "lastBlock ?r = Some b'" and k: "scanStart ?r < k" "k \<le> b'" and l: "l \<in> set (chain k)"
    show "?id l \<in> seen ?r"
    proof (cases "k \<le> b")
      case True
      then have "?id l \<in> seen r" using assms c(2) k(1) l r(2) by (simp add: scanned_ok_def)
      then show ?thesis by (simp add: r(3))
    next
      case False
      then have "k \<in> set [b + 1..<Suc ?to]" using b' k(2) r(1) by (simp del: upt_Suc)
      then have "l \<in> set (concat (map chain [b + 1..<Suc ?to]))" using l by (auto simp del: upt_Suc)
      then show ?thesis unfolding r(3) by blast
    qed
  qed
next
  case False
  then have "evmPoll env cfg height (chainQuery chain ok) r = r"
    by (auto simp: evmPoll_def Let_def chainQuery_def not_less split: option.splits prod.splits)
  with assms show ?thesis by simp
qed

lemma occurs_scanned:
  assumes "scanned_ok cfg chain r"
  shows "scanned_ok cfg chain (occurs env cfg chain e r)"
proof (cases e)
  case (Poll height ok)
  then show ?thesis using assms by (simp add: evmPoll_scanned)
next
  case (SorobanPoll c resp)
  have "scanned_ok cfg chain (fold (sorobanRow env cfg c) evs r)" for evs
    using assms rows_frame [where env = env and cfg = cfg and c = c and xs = evs and r = r] by (auto simp: scanned_ok_def)
  with SorobanPoll assms show ?thesis by (auto simp: pollContract_def split: soroban_response.splits option.splits)
qed (use assms in \<open>auto simp: scanned_ok_def startRelayer_def stopRelayer_def evmStart_def evmStop_def crashRelayer_def newRelayer_def
    registryAnswers_def Let_def split: option.splits registry_answer.splits if_splits\<close>)

lemma history_ok:
  "detected_ok (fold (occurs env cfg chain) evs (newRelayer d now)) \<and> scanned_ok cfg chain (fold (occurs env cfg chain) evs (newRelayer d now))"
proof -
  have "detected_ok r \<Longrightarrow> scanned_ok cfg chain r \<Longrightarrow>
      detected_ok (fold (occurs env cfg chain) evs r) \<and> scanned_ok cfg chain (fold (occurs env cfg chain) evs r)" for r
    by (induction evs arbitrary: r) (simp_all add: occurs_ok occurs_scanned)
  then show ?thesis by (simp add: detected_ok_def scanned_ok_def newRelayer_def)
qed


section \<open>Jobs of an event\<close>

interpretation jobs: job_sink knownIds dj_id "\<lambda>j. enqueue ok (dj_id j) j" for ok
  by unfold_locales (auto simp: knownIds_def enqueue_def seenId_def split: if_splits)

lemma enqueueJobs_known: "knownIds (snd (enqueueJobs ok js (n, q))) = dj_id ` set js \<union> knownIds q"
  unfolding enqueueJobs_def by (rule jobs.push_batch_known)

lemma enqueueJobs_count: "fst (enqueueJobs ok js (n, q)) = n + card (dj_id ` set js - knownIds q)"
  unfolding enqueueJobs_def by (rule jobs.push_batch_count)

definition jobIds :: "relayer_config \<Rightarrow> AccessRequestEvent \<Rightarrow> GuardianContact list \<Rightarrow> string set" where
  "jobIds cfg ev cs = {ev_id ev @ '':'' @ map lower (guardian c) |c. c \<in> set cs \<and> isReachable (notifierOptions cfg) c}"

lemma dispatchContacts_jobs:
  assumes "\<And>c. c \<in> set cs \<Longrightarrow> isReachable (notifierOptions cfg) c \<Longrightarrow> valid_key (re_nacl env) c"
  shows "knownIds (rqueue (dispatchContacts env cfg ev cs r)) = jobIds cfg ev cs \<union> knownIds (rqueue r)
    \<and> notificationsQueued (dispatchContacts env cfg ev cs r) = notificationsQueued r + card (jobIds cfg ev cs - knownIds (rqueue r))"
proof -
  let ?cs = "map (\<lambda>c. (c, re_random env ev c)) cs"
  obtain js where js: "buildJobs (re_nacl env) (notifierOptions cfg) (clock (rqueue r)) ev ?cs = Inr js"
    using buildJobs_ok_iff [of "re_nacl env" "notifierOptions cfg" "clock (rqueue r)" ev ?cs] assms by auto
  then have "dj_id ` set js = jobIds cfg ev cs"
    using arg_cong [OF buildJobs_ids [OF js], where f = set] by (auto simp: jobIds_def comp_def)
  moreover have "dispatchContacts env cfg ev cs r =
      (let res = enqueueJobs (re_writes env) js (notificationsQueued r, rqueue r) in r\<lparr>notificationsQueued := fst res, rqueue := snd res\<rparr>)"
    by (simp add: dispatchContacts_def js case_prod_beta Let_def)
  ultimately show ?thesis
    by (simp add: Let_def enqueueJobs_known enqueueJobs_count)
qed

section \<open>The queue inside the relayer\<close>

text \<open>Whatever the relayer does, its queue goes through a history of its own events, so the facts of the queue apply.\<close>

definition queue_path :: "relayer_config \<Rightarrow> DispatchJob relay_queue \<Rightarrow> DispatchJob relay_queue \<Rightarrow> bool" where
  "queue_path cfg q q' \<longleftrightarrow> (\<exists>qs. q' = fold (happens (queueOptions cfg)) qs q)"

lemma queue_path_refl [simp]: "queue_path cfg q q"
  unfolding queue_path_def by (rule exI [of _ "[]"]) simp

lemma queue_path_step: "queue_path cfg q (happens (queueOptions cfg) e q)"
  unfolding queue_path_def by (rule exI [of _ "[e]"]) simp

lemma queue_path_trans [trans]: "queue_path cfg q q' \<Longrightarrow> queue_path cfg q' q'' \<Longrightarrow> queue_path cfg q q''"
  unfolding queue_path_def by (metis fold_append comp_apply)

lemma queue_path_ops:
  "queue_path cfg q (snd (enqueue ok i p q))" "queue_path cfg q (startQueue q)" "queue_path cfg q (stopQueue q)" "queue_path cfg q (restart q)"
  using queue_path_step [of cfg q "Enqueue ok i p"] queue_path_step [of cfg q Start] queue_path_step [of cfg q Stop]
    queue_path_step [of cfg q Crash] by simp_all

lemma enqueueJobs_Nil [simp]: "enqueueJobs ok [] s = s"
  by (simp add: enqueueJobs_def)

lemma enqueueJobs_Cons [simp]:
  "enqueueJobs ok (j # js) (n, q) =
     enqueueJobs ok js (if fst (enqueue ok (dj_id j) j q) then n + 1 else n, snd (enqueue ok (dj_id j) j q))"
  by (simp add: enqueueJobs_def Let_def case_prod_beta)

lemma queue_path_jobs: "queue_path cfg q (snd (enqueueJobs ok js (n, q)))"
proof (induction js arbitrary: n q)
  case (Cons j js)
  show ?case
    using queue_path_trans [OF queue_path_ops(1) Cons [of "snd (enqueue ok (dj_id j) j q)"]] by simp
qed simp

lemma queue_path_dispatch: "queue_path cfg (rqueue r) (rqueue (dispatchContacts env cfg ev cs r))"
  using queue_path_jobs [of cfg "rqueue r" "re_writes env" _ "notificationsQueued r"]
  by (auto simp: dispatchContacts_def case_prod_beta split: sum.splits)

lemma queue_path_emit: "queue_path cfg (rqueue r) (rqueue (emitNew env cfg ev r))"
  using queue_path_dispatch [of cfg "r\<lparr>seen := insert (ev_id ev) (seen r), eventsDetected := eventsDetected r + 1\<rparr>" env ev]
  by (simp add: emitNew_def handleEvent_def Let_def split: option.splits)

lemma queue_path_fold:
  "(\<And>x r. queue_path cfg (rqueue r) (rqueue (f x r))) \<Longrightarrow> queue_path cfg (rqueue r) (rqueue (fold f xs r))"
  by (induction xs arbitrary: r) (simp, metis fold_simps(2) queue_path_trans)

lemma queue_path_row: "queue_path cfg (rqueue r) (rqueue (sorobanRow env cfg c raw r))"
  using queue_path_emit [of cfg "r\<lparr>cursors := x\<rparr>" for x] by (simp add: sorobanRow_def Let_def)

lemma queue_path_occurs: "queue_path cfg (rqueue r) (rqueue (occurs env cfg chain e r))"
proof (cases e)
  case (Poll height ok)
  then show ?thesis
    by (auto simp: evmPoll_def Let_def intro!: queue_path_fold queue_path_emit split: option.splits prod.splits)
next
  case (SorobanPoll c resp)
  then show ?thesis
    by (auto simp: pollContract_def intro!: queue_path_fold queue_path_row split: soroban_response.splits option.splits)
next
  case (Registry ev ans)
  have "queue_path cfg (rqueue r) (rqueue (dispatchContacts env cfg ev cs (r\<lparr>resolving := x, contactsCache := y\<rparr>)))" for cs x y
    using queue_path_dispatch [of cfg "r\<lparr>resolving := x, contactsCache := y\<rparr>"] by simp
  with Registry show ?thesis by (simp add: registryAnswers_def Let_def split: registry_answer.splits)
qed (auto simp: startRelayer_def stopRelayer_def evmStart_def evmStop_def crashRelayer_def Let_def queue_path_ops queue_path_step
    split: option.splits)

lemma queue_path_history: "queue_path cfg (rqueue r) (rqueue (fold (occurs env cfg chain) evs r))"
  by (intro queue_path_fold queue_path_occurs)

lemma relayer_queue_ok: "queue_ok (queueOptions cfg) (rqueue (fold (occurs env cfg chain) evs (newRelayer Absent now)))"
proof -
  obtain qs where "rqueue (fold (occurs env cfg chain) evs (newRelayer Absent now)) = fold (happens (queueOptions cfg)) qs (newQueue Absent now)"
    using queue_path_history [of cfg "newRelayer Absent now" env chain evs] by (auto simp: queue_path_def newRelayer_def)
  then show ?thesis by (simp add: queue_ok_reachable reachable_run reachable.initial)
qed

lemma kept_path: "queue_path cfg q q' \<Longrightarrow> queue_ok (queueOptions cfg) q \<Longrightarrow> kept i p n q \<Longrightarrow> kept i p n q'"
  unfolding queue_path_def by (auto intro: kept_run)

lemma queue_ok_path: "queue_path cfg q q' \<Longrightarrow> queue_ok (queueOptions cfg) q \<Longrightarrow> queue_ok (queueOptions cfg) q'"
proof -
  have "queue_ok c q \<Longrightarrow> queue_ok c (fold (happens c) qs q)" for c qs and q :: "DispatchJob relay_queue"
    by (induction qs arbitrary: q) (simp_all add: queue_ok_happens)
  then show "queue_path cfg q q' \<Longrightarrow> queue_ok (queueOptions cfg) q \<Longrightarrow> ?thesis" by (auto simp: queue_path_def)
qed

lemma enqueueJobs_kept:
  fixes cfg :: relayer_config
  assumes "queue_ok (queueOptions cfg) q" "i \<notin> knownIds q" "i \<in> dj_id ` set js"
  shows "\<exists>job \<in> set js. dj_id job = i \<and> kept i job (length (history_log q)) (snd (enqueueJobs True js (n, q)))"
  using assms
proof (induction js arbitrary: q n)
  case (Cons j js)
  let ?q = "snd (enqueue True (dj_id j) j q)"
  have ok: "queue_ok (queueOptions cfg) ?q" by (rule queue_ok_enqueue [OF Cons.prems(1)])
  have log: "history_log ?q = history_log q" by (simp add: enqueue_def)
  show ?case
  proof (cases "dj_id j = i")
    case True
    then have "enqueue True i j q = (True, ?q)" using Cons.prems(2) by (simp add: enqueue_def knownIds_def)
    then have "kept i j (length (history_log q)) ?q" by (rule kept_enqueued)
    then have "kept i j (length (history_log q)) (snd (enqueueJobs True js (m, ?q)))" for m
      using kept_path [OF queue_path_jobs ok] by blast
    with True show ?thesis by (auto simp del: split_paired_Ex)
  next
    case False
    then have "i \<notin> knownIds ?q" using Cons.prems(2) jobs.push_known [of True j q] by simp
    with False Cons.prems(3) show ?thesis
      using Cons.IH [OF ok, where n = "if fst (enqueue True (dj_id j) j q) then n + 1 else n"] log by auto
  qed
qed simp

lemma jobFor_notification: "jobFor nc now ev n c = Inr j \<Longrightarrow> dj_notification j = n"
  by (cases c) (auto simp: jobFor_def bindE_eq_Inr)

lemma buildJobs_notification:
  assumes "buildJobs nc opts now ev cs = Inr js" "j \<in> set js"
  shows "dj_notification j = buildNotification ev opts"
proof -
  let ?xs = "filter (\<lambda>c. isReachable opts (fst c)) cs"
  obtain k where k: "k < length js" "js ! k = j" using assms(2) by (auto simp: in_set_conv_nth)
  then have "jobFor nc now ev (buildNotification ev opts) (?xs ! k) = Inr j"
    using mapE_InrD [OF assms(1) [unfolded buildJobs_def]] by metis
  then show ?thesis by (rule jobFor_notification)
qed

lemma registryAnswers_kept:
  fixes cfg :: relayer_config
  assumes "queue_ok (queueOptions cfg) (rqueue r)" "ev \<in> set (resolving r)" "re_writes env"
    and keys: "\<And>c. c \<in> set (normalizeContacts body) \<Longrightarrow> isReachable (notifierOptions cfg) c \<Longrightarrow> valid_key (re_nacl env) c"
    and g: "g \<in> set (normalizeContacts body)" "isReachable (notifierOptions cfg) g"
    and fresh: "ev_id ev @ '':'' @ map lower (guardian g) \<notin> knownIds (rqueue r)"
  shows "\<exists>job. dj_id job = ev_id ev @ '':'' @ map lower (guardian g) \<and> dj_notification job = buildNotification ev (notifierOptions cfg) \<and>
    kept (ev_id ev @ '':'' @ map lower (guardian g)) job (length (history_log (rqueue r)))
      (rqueue (registryAnswers env cfg ev (RegistryBody body) r))"
proof -
  let ?cs = "map (\<lambda>c. (c, re_random env ev c)) (normalizeContacts body)"
  obtain js where js: "buildJobs (re_nacl env) (notifierOptions cfg) (clock (rqueue r)) ev ?cs = Inr js"
    using buildJobs_ok_iff [of "re_nacl env" "notifierOptions cfg" "clock (rqueue r)" ev ?cs] keys by auto
  have "ev_id ev @ '':'' @ map lower (guardian g) \<in> dj_id ` set js"
    using arg_cong [OF buildJobs_ids [OF js], where f = set] g by (auto simp: comp_def)
  then obtain job where job: "job \<in> set js" "dj_id job = ev_id ev @ '':'' @ map lower (guardian g)"
    "kept (ev_id ev @ '':'' @ map lower (guardian g)) job (length (history_log (rqueue r)))
       (snd (enqueueJobs True js (notificationsQueued r, rqueue r)))"
    using enqueueJobs_kept [OF assms(1) fresh] by blast
  moreover have "rqueue (registryAnswers env cfg ev (RegistryBody body) r) = snd (enqueueJobs True js (notificationsQueued r, rqueue r))"
    using assms(2,3) by (simp add: registryAnswers_def dispatchContacts_def js case_prod_beta Let_def)
  ultimately show ?thesis using buildJobs_notification [OF js job(1)] by auto
qed

section \<open>Properties of the relayer\<close>

text \<open>
  C25. Within one run of the process no request is missed and none is handled twice: at every moment of every history of starts, polls
  of both chains that succeed or fail, answers of the registry and work of the queue, every log of the contract in the blocks from the
  start of the scan to the last block scanned was detected by the running process, and the number of events it handled is the number of
  distinct events it detected. A crash ends the run: the next one begins with no event detected and with a scan of its own, so that nothing
  is said about blocks that appear between two runs or are scanned by both.
\<close>

theorem evm_requests_detected_once:
  assumes "r = fold (occurs env cfg chain) evs (newRelayer d now)"
    and "lastBlock r = Some b" "scanStart r < k" "k \<le> b" "l \<in> set (chain k)"
  shows "evmEventId (evmContractAddress cfg) l \<in> seen r \<and> eventsDetected r = card (seen r)"
  using history_ok [of env cfg chain evs d now] assms(2-) unfolding assms(1) detected_ok_def scanned_ok_def by blast

definition demo_env :: relay_env where
  "demo_env = \<lparr>re_nacl = \<lparr>box = (\<lambda>m n p s. replicate 16 0), box_open = (\<lambda>c n p s. Inr None), bufferFromBase64 = (\<lambda>t. [])\<rparr>,
     re_random = (\<lambda>ev c. (\<lparr>kp_public = [], kp_secret = []\<rparr>, [])), re_isoDate = (\<lambda>t. ''1970''), re_writes = True\<rparr>"

definition demo_relay :: relayer_config where
  "demo_relay = \<lparr>evmContractAddress = ''0xA'', evmStartBlock = None, guardianContactsUrl = Some ''http://registry'',
     notifierOptions = demo_options, queueOptions = demo_config\<rparr>"

definition demo_log :: EvmLog where
  "demo_log = \<lparr>log_block = 7, log_index = 0, log_requestId = 3, log_documentId = 4, log_requester = ''0xB''\<rparr>"

definition demo_chain :: "nat \<Rightarrow> EvmLog list" where
  "demo_chain n = (if n = 7 then [demo_log] else [])"

theorem evm_requests_detected_once_witness:
  "evmEventId ''0xA'' demo_log \<in>
     seen (fold (occurs demo_env demo_relay demo_chain) [Started (Some 5), Poll (Some 9) False, Poll (Some 9) True] (newRelayer Absent 0))"
proof -
  let ?r = "fold (occurs demo_env demo_relay demo_chain) [Started (Some 5), Poll (Some 9) False, Poll (Some 9) True] (newRelayer Absent 0)"
  have last: "lastBlock ?r = Some 9" and start: "scanStart ?r = 5"
    by (simp_all add: startRelayer_def evmStart_def newRelayer_def demo_relay_def evmPoll_def chainQuery_def emit_fold Let_def del: upt_Suc)
  have "scanStart ?r < 7" unfolding start by simp
  moreover have "demo_log \<in> set (demo_chain 7)" by (simp add: demo_chain_def)
  ultimately have "evmEventId (evmContractAddress demo_relay) demo_log \<in> seen ?r"
    using evm_requests_detected_once [OF refl last, of 7 demo_log] by simp
  moreover have "evmContractAddress demo_relay = ''0xA''" by (simp add: demo_relay_def)
  ultimately show ?thesis by (simp only:)
qed

text \<open>
  When the registry answers for an event and the keys of its reachable guardians can be used, the queue knows
  afterwards exactly one job more for each reachable guardian it did not know, and the counter of notifications grows by
  their number, so a guardian listed twice or already served is not queued again.
\<close>

theorem resolved_request_queued:
  assumes "ev \<in> set (resolving r)"
    and "\<And>c. c \<in> set (normalizeContacts body) \<Longrightarrow> isReachable (notifierOptions cfg) c \<Longrightarrow> valid_key (re_nacl env) c"
  shows "knownIds (rqueue (registryAnswers env cfg ev (RegistryBody body) r))
      = {ev_id ev @ '':'' @ map lower (guardian c) |c. c \<in> set (normalizeContacts body) \<and> isReachable (notifierOptions cfg) c} \<union> knownIds (rqueue r)
    \<and> notificationsQueued (registryAnswers env cfg ev (RegistryBody body) r) = notificationsQueued r +
      card ({ev_id ev @ '':'' @ map lower (guardian c) |c. c \<in> set (normalizeContacts body) \<and> isReachable (notifierOptions cfg) c} - knownIds (rqueue r))"
  using dispatchContacts_jobs [of "normalizeContacts body" cfg env ev, OF assms(2)] assms(1)
  by (simp add: registryAnswers_def Let_def jobIds_def)

text \<open>
  C24. No notification is lost between the chain and its guardian: in every history of the relayer, when the registry answers for
  an event, the keys of its reachable guardians can be used and the journal is written, then after every further history,
  crashes included, each reachable guardian who was not served before has a job with the notification of the event that
  waits in memory and in the journal, or for which the handler returned, or that became a dead letter.
\<close>

theorem notification_not_lost:
  assumes "r = fold (occurs env cfg chain) evs (newRelayer Absent now)" "ev \<in> set (resolving r)" "re_writes env"
    and "\<And>c. c \<in> set (normalizeContacts body) \<Longrightarrow> isReachable (notifierOptions cfg) c \<Longrightarrow> valid_key (re_nacl env) c"
    and "g \<in> set (normalizeContacts body)" "isReachable (notifierOptions cfg) g"
    and "i = ev_id ev @ '':'' @ map lower (guardian g)" "\<not> seenId i (state (rqueue r))"
    and "r' = fold (occurs env cfg chain) evs' (registryAnswers env cfg ev (RegistryBody body) r)"
  shows "\<exists>job. dj_id job = i \<and> dj_notification job = buildNotification ev (notifierOptions cfg) \<and>
    ((\<exists>j \<in> set (jobs (state (rqueue r'))). job_id j = i \<and> job_payload j = job) \<and> (\<exists>j \<in> set (jobs (saved (rqueue r'))). job_id j = i \<and> job_payload j = job)
     \<or> Delivered i job \<in> set (drop (length (history_log (rqueue r))) (history_log (rqueue r')))
     \<or> DeadLettered i job \<in> set (drop (length (history_log (rqueue r))) (history_log (rqueue r'))))"
proof -
  have ok: "queue_ok (queueOptions cfg) (rqueue r)" unfolding assms(1) by (rule relayer_queue_ok)
  obtain job where job: "dj_id job = i" "dj_notification job = buildNotification ev (notifierOptions cfg)"
    "kept i job (length (history_log (rqueue r))) (rqueue (registryAnswers env cfg ev (RegistryBody body) r))"
    using registryAnswers_kept [OF ok assms(2-6)] assms(7,8) by (auto simp: knownIds_def)
  have "queue_path cfg (rqueue r) (rqueue (registryAnswers env cfg ev (RegistryBody body) r))"
    using queue_path_occurs [of cfg r env chain "Registry ev (RegistryBody body)"] by simp
  then have "kept i job (length (history_log (rqueue r))) (rqueue r')"
    using kept_path [OF queue_path_history queue_ok_path [OF _ ok] job(3)] assms(9) by blast
  with job(1,2) show ?thesis by (auto simp: kept_def accounted_def holdsJob_def)
qed

definition demo_body :: jvalue where
  "demo_body = VObj [(''guardians'', VList [VNull, VObj [(''guardian'', VText ''0xG''), (''channels'', VObj [(''pushWebhook'', VText ''http://p'')])]])]"

definition demo_contact :: GuardianContact where
  "demo_contact = \<lparr>guardian = map lower ''0xG'', publicKey = None,
     channels = Some \<lparr>pushWebhook = Some ''http://p'', telegramChatId = None, ch_email = None\<rparr>\<rparr>"

lemma demo_contacts: "normalizeContacts demo_body = [demo_contact]"
  by (simp add: demo_body_def demo_contact_def normalizeContacts_def rawContacts_def normalizeEntry_def List.map_filter_def asString_def)

definition demo_detected :: relayer where
  "demo_detected = fold (occurs demo_env demo_relay demo_chain) [Started (Some 5), Poll (Some 7) True] (newRelayer Absent 0)"

lemma demo_detected_values:
  "resolving demo_detected = [evmEvent demo_env ''0xA'' 0 demo_log]" "state (rqueue demo_detected) = emptyState"
proof -
  have chain: "concat (map demo_chain [6..<8]) = [demo_log]"
    by (simp add: demo_chain_def upt_rec numeral_eq_Suc)
  show "resolving demo_detected = [evmEvent demo_env ''0xA'' 0 demo_log]" "state (rqueue demo_detected) = emptyState"
    using chain
    by (simp_all add: demo_detected_def demo_relay_def startRelayer_def evmStart_def newRelayer_def startQueue_def tick_def pump_def dueIndex_def
        evmPoll_def chainQuery_def emitNew_def handleEvent_def cachedContacts_def given_def newQueue_def Let_def
        afterPump_def setTimer_def del: upt_Suc)
qed

theorem notification_not_lost_witness:
  "let ev = evmEvent demo_env ''0xA'' 0 demo_log; i = ev_id ev @ '':'' @ map lower (guardian demo_contact);
       r' = fold (occurs demo_env demo_relay demo_chain) [ProcessCrash] (registryAnswers demo_env demo_relay ev (RegistryBody demo_body) demo_detected)
   in \<exists>job. dj_id job = i \<and> dj_notification job = buildNotification ev (notifierOptions demo_relay) \<and>
    ((\<exists>j \<in> set (jobs (state (rqueue r'))). job_id j = i \<and> job_payload j = job) \<and> (\<exists>j \<in> set (jobs (saved (rqueue r'))). job_id j = i \<and> job_payload j = job)
     \<or> Delivered i job \<in> set (drop (length (history_log (rqueue demo_detected))) (history_log (rqueue r')))
     \<or> DeadLettered i job \<in> set (drop (length (history_log (rqueue demo_detected))) (history_log (rqueue r'))))"
  unfolding Let_def
proof (rule notification_not_lost [OF demo_detected_def _ _ _ _ _ refl _ refl])
  show "evmEvent demo_env ''0xA'' 0 demo_log \<in> set (resolving demo_detected)" by (simp add: demo_detected_values)
  show "re_writes demo_env" by (simp add: demo_env_def)
  show "valid_key (re_nacl demo_env) c" if "c \<in> set (normalizeContacts demo_body)" for c
    using that by (simp add: demo_contacts demo_contact_def valid_key_def given_def)
  show "demo_contact \<in> set (normalizeContacts demo_body)" by (simp add: demo_contacts)
  show "isReachable (notifierOptions demo_relay) demo_contact" by (simp add: isReachable_def demo_contact_def chan_def given_def)
  show "\<not> seenId i (state (rqueue demo_detected))" for i by (simp add: demo_detected_values seenId_def emptyState_def)
qed

text \<open>
  A failed answer of the registry loses the event: nothing is queued, the event is no longer being resolved, and every later
  detection of it is dropped as a duplicate.
\<close>

theorem failed_resolution_loses_event:
  fixes env cfg chain evs d now
  defines "r \<equiv> fold (occurs env cfg chain) evs (newRelayer d now)"
  assumes "ev \<in> set (resolving r)" "\<forall>body. answer \<noteq> RegistryBody body"
  shows "let r' = registryAnswers env cfg ev answer r in
    rqueue r' = rqueue r \<and> resolving r' = remove1 ev (resolving r) \<and> (\<forall>ev'. ev_id ev' = ev_id ev \<longrightarrow> emitNew env cfg ev' r' = r')"
proof -
  have "ev_id ev \<in> seen r" using history_ok [of env cfg chain evs d now] assms(2) by (simp add: detected_ok_def r_def)
  then show ?thesis using assms(2,3) by (cases answer) (simp_all add: registryAnswers_def emitNew_def Let_def)
qed

end
