(* ===== verification/Streaming_Crypto.thy ===== *)
theory Streaming_Crypto
  imports GF256 JS_Text
begin

text \<open>
  Encryption of files as streams, \<^verbatim>\<open>services/streamingCrypto.service.ts\<close>: a header and authenticated frames of bounded
  size, produced and consumed chunk by chunk.

  A \<^verbatim>\<open>Uint8Array\<close> is a view: a part of a buffer that may be larger, which matters where the code reads through the buffer.
  The cipher of the platform is a parameter \<open>gcm\<close>; the random vectors are a function of the index of the frame. The loop of the
  encryption does not end when the chunk size is zero and is a partial function; that of the decryption always ends.
\<close>

section \<open>Views\<close>

record view =
  v_buf :: "byte list"
  v_off :: nat
  v_len :: nat

definition viewBytes :: "view \<Rightarrow> byte list" where
  "viewBytes v = take (v_len v) (drop (v_off v) (v_buf v))"

definition wholeView :: "byte list \<Rightarrow> view" where
  "wholeView bs = \<lparr>v_buf = bs, v_off = 0, v_len = length bs\<rparr>"

definition subarray :: "view \<Rightarrow> nat \<Rightarrow> view" where
  "subarray v k = v\<lparr>v_off := v_off v + k, v_len := v_len v - k\<rparr>"

definition toExactBuffer :: "view \<Rightarrow> byte list" where
  "toExactBuffer v = (if v_off v = 0 \<and> v_len v = length (v_buf v) then v_buf v else js_slice (v_buf v) (v_off v) (v_off v + v_len v))"

definition concatBytes :: "byte list \<Rightarrow> byte list \<Rightarrow> byte list" where
  "concatBytes a b = a @ b"

text \<open>Bytes from the front of a list of chunks; running out of chunks reads a property of \<^verbatim>\<open>undefined\<close>.\<close>

fun drainChunks :: "view list \<Rightarrow> nat \<Rightarrow> (byte list \<times> view list) result" where
  "drainChunks [] n = (if n = 0 then Inr ([], []) else Inl TypeError)"
| "drainChunks (v # vs) n =
     (if n = 0 then Inr ([], v # vs)
      else if v_len v \<le> n then bindE (drainChunks vs (n - v_len v)) (\<lambda>(bs, rest). Inr (viewBytes v @ bs, rest))
      else Inr (take n (viewBytes v), subarray v n # vs))"

definition writeUint32BE :: "nat \<Rightarrow> byte list" where
  "writeUint32BE n = map (\<lambda>k. of_nat (n div 2 ^ k)) [24, 16, 8, 0]"

definition beValue :: "byte list \<Rightarrow> nat" where
  "beValue bs = foldl (\<lambda>a b. a * 256 + unat b) 0 bs"

text \<open>A \<^verbatim>\<open>DataView\<close> of four bytes on the buffer of the view, which must fit into the buffer.\<close>

definition readUint32BE :: "view \<Rightarrow> nat \<Rightarrow> nat result" where
  "readUint32BE v off = (let start = v_off v + off in
     if start + 4 > length (v_buf v) then Inl (RangeError ''Invalid DataView length'')
     else Inr (beValue (take 4 (drop start (v_buf v)))))"

section \<open>The format\<close>

definition STREAMING_CRYPTO_MAGIC :: "byte list" where
  "STREAMING_CRYPTO_MAGIC = [0x53, 0x56, 0x53, 0x43]"

definition STREAMING_CRYPTO_VERSION :: byte where
  "STREAMING_CRYPTO_VERSION = 1"

definition STREAMING_HEADER_SIZE :: nat where
  "STREAMING_HEADER_SIZE = 16"

definition STREAMING_IV_LENGTH :: nat where
  "STREAMING_IV_LENGTH = 12"

definition STREAMING_TAG_LENGTH :: nat where
  "STREAMING_TAG_LENGTH = 16"

record 'k gcm =
  gcm_encrypt :: "'k \<Rightarrow> byte list \<Rightarrow> byte list \<Rightarrow> byte list \<Rightarrow> byte list"
  gcm_decrypt :: "'k \<Rightarrow> byte list \<Rightarrow> byte list \<Rightarrow> byte list \<Rightarrow> byte list option"

definition chunkIndexAad :: "nat \<Rightarrow> byte list" where
  "chunkIndexAad i = writeUint32BE (i mod 2 ^ 32)"

definition hexKey :: "string \<Rightarrow> bool" where
  "hexKey s \<longleftrightarrow> length s = 64 \<and> (\<forall>c \<in> set s. is_digit 16 c)"

text \<open>The bytes handed to the platform as the key.\<close>

definition importStreamingKey :: "string \<Rightarrow> byte list result" where
  "importStreamingKey keyHex =
     (if \<not> hexKey keyHex then Inl (Error ''Streaming encryption key must be a 64-character hex string (32 bytes)'')
      else Inr (map (\<lambda>i. of_nat (the (parse_digits 16 (js_slice keyHex (i * 2) (i * 2 + 2))))) [0..<32]))"

definition isStreamingEncryptedPrefix :: "byte list \<Rightarrow> bool" where
  "isStreamingEncryptedPrefix bs \<longleftrightarrow> \<not> length bs < length STREAMING_CRYPTO_MAGIC \<and>
     (\<forall>i < length STREAMING_CRYPTO_MAGIC. bs ! i = STREAMING_CRYPTO_MAGIC ! i)"

definition buildHeader :: "nat \<Rightarrow> byte list" where
  "buildHeader chunkSize = STREAMING_CRYPTO_MAGIC @ [STREAMING_CRYPTO_VERSION, 0] @ writeUint32BE (chunkSize mod 2 ^ 32) @ replicate 6 0"

definition parseHeader :: "byte list \<Rightarrow> nat result" where
  "parseHeader header =
     (if length header < STREAMING_HEADER_SIZE then Inl (Error ''Truncated streaming crypto header'')
      else if \<not> isStreamingEncryptedPrefix header then Inl (Error ''Not a SpooVault streaming ciphertext (missing SVSC magic)'')
      else if header ! 4 \<noteq> STREAMING_CRYPTO_VERSION
      then Inl (Error (''Unsupported streaming crypto version: '' @ js_num (unat (header ! 4))))
      else bindE (readUint32BE (wholeView header) 6) (\<lambda>chunkSize.
        if chunkSize < 1 \<or> chunkSize > 16 * 1024 * 1024
        then Inl (Error (''Invalid streaming chunk size: '' @ js_num chunkSize)) else Inr chunkSize))"

section \<open>Encryption\<close>

record enc_state =
  pendingChunks :: "view list"
  pendingLen :: nat
  encIndex :: nat
  encOut :: "byte list list"
  peakBufferBytes :: nat

definition touchStats :: "nat \<Rightarrow> enc_state \<Rightarrow> enc_state" where
  "touchStats n s = (if n > peakBufferBytes s then s\<lparr>peakBufferBytes := n\<rparr> else s)"

definition encryptChunk :: "'k gcm \<Rightarrow> 'k \<Rightarrow> (nat \<Rightarrow> byte list) \<Rightarrow> nat \<Rightarrow> byte list \<Rightarrow> byte list" where
  "encryptChunk g key ivs index plaintext =
     writeUint32BE (length plaintext) @ ivs index @ gcm_encrypt g key (ivs index) (chunkIndexAad index) plaintext"

definition encStart :: "nat \<Rightarrow> enc_state" where
  "encStart chunkSize = \<lparr>pendingChunks = [], pendingLen = 0, encIndex = 0, encOut = [buildHeader chunkSize], peakBufferBytes = 0\<rparr>"

text \<open>One turn of the loop of \<^verbatim>\<open>transform\<close>.\<close>

definition encTurn :: "'k gcm \<Rightarrow> 'k \<Rightarrow> (nat \<Rightarrow> byte list) \<Rightarrow> nat \<Rightarrow> enc_state \<Rightarrow> enc_state result" where
  "encTurn g key ivs chunkSize s =
     bindE (drainChunks (pendingChunks s) chunkSize) (\<lambda>(plain, rest).
       Inr (touchStats (pendingLen s - chunkSize + chunkSize)
         (s\<lparr>pendingChunks := rest, pendingLen := pendingLen s - chunkSize, encIndex := encIndex s + 1,
            encOut := encOut s @ [encryptChunk g key ivs (encIndex s) plain]\<rparr>)))"

partial_function (option) encLoop :: "'k gcm \<Rightarrow> 'k \<Rightarrow> (nat \<Rightarrow> byte list) \<Rightarrow> nat \<Rightarrow> enc_state \<Rightarrow> enc_state result option" where
  "encLoop g key ivs chunkSize s =
     (if pendingLen s \<ge> chunkSize
      then (case encTurn g key ivs chunkSize s of Inl e \<Rightarrow> Some (Inl e) | Inr s' \<Rightarrow> encLoop g key ivs chunkSize s')
      else Some (Inr s))"

definition encTransform :: "'k gcm \<Rightarrow> 'k \<Rightarrow> (nat \<Rightarrow> byte list) \<Rightarrow> nat \<Rightarrow> view \<Rightarrow> enc_state \<Rightarrow> enc_state result option" where
  "encTransform g key ivs chunkSize chunk s =
     (let s1 = s\<lparr>pendingChunks := pendingChunks s @ [chunk], pendingLen := pendingLen s + v_len chunk\<rparr> in
      encLoop g key ivs chunkSize (touchStats (pendingLen s1 + chunkSize + STREAMING_IV_LENGTH + STREAMING_TAG_LENGTH) s1))"

definition encFlush :: "'k gcm \<Rightarrow> 'k \<Rightarrow> (nat \<Rightarrow> byte list) \<Rightarrow> enc_state \<Rightarrow> byte list list result" where
  "encFlush g key ivs s =
     bindE (if pendingLen s > 0 then drainChunks (pendingChunks s) (pendingLen s) else Inr ([], [])) (\<lambda>(remaining, _).
       Inr (encOut s @ [encryptChunk g key ivs (encIndex s) remaining]))"

fun encChunks :: "'k gcm \<Rightarrow> 'k \<Rightarrow> (nat \<Rightarrow> byte list) \<Rightarrow> nat \<Rightarrow> view list \<Rightarrow> enc_state \<Rightarrow> enc_state result option" where
  "encChunks g key ivs chunkSize [] s = Some (Inr s)"
| "encChunks g key ivs chunkSize (c # cs) s =
     Option.bind (encTransform g key ivs chunkSize c s) (\<lambda>r. case r of Inl e \<Rightarrow> Some (Inl e) | Inr s' \<Rightarrow> encChunks g key ivs chunkSize cs s')"

definition encryptStream :: "'k gcm \<Rightarrow> 'k \<Rightarrow> (nat \<Rightarrow> byte list) \<Rightarrow> nat \<Rightarrow> view list \<Rightarrow> byte list list result option" where
  "encryptStream g key ivs chunkSize chunks =
     Option.bind (encChunks g key ivs chunkSize chunks (encStart chunkSize)) (\<lambda>r. Some (bindE r (encFlush g key ivs)))"

section \<open>Decryption\<close>

record dec_state =
  bufferChunks :: "view list"
  bufferLen :: nat
  headerParsed :: bool
  decChunkSize :: nat
  decIndex :: nat
  finalized :: bool
  decOut :: "byte list list"

definition decStart :: dec_state where
  "decStart = \<lparr>bufferChunks = [], bufferLen = 0, headerParsed = False, decChunkSize = 64 * 1024, decIndex = 0, finalized = False, decOut = []\<rparr>"

definition frameLen :: "nat \<Rightarrow> nat" where
  "frameLen n = 4 + STREAMING_IV_LENGTH + n + STREAMING_TAG_LENGTH"

lemma frameLen_eq [simp]: "frameLen n = n + 32"
  by (simp add: frameLen_def STREAMING_IV_LENGTH_def STREAMING_TAG_LENGTH_def)

definition decryptFrame :: "'k gcm \<Rightarrow> 'k \<Rightarrow> nat \<Rightarrow> byte list \<Rightarrow> byte list result" where
  "decryptFrame g key index frame =
     (let iv = js_slice frame 4 (4 + STREAMING_IV_LENGTH); ciphertext = drop (4 + STREAMING_IV_LENGTH) frame in
      case gcm_decrypt g key iv (chunkIndexAad index) ciphertext of
        None \<Rightarrow> Inl (Error (''Streaming decryption failed at chunk '' @ js_num index @ '' (wrong key or corrupted ciphertext)''))
      | Some p \<Rightarrow> Inr p)"

definition frameDone :: "view list \<Rightarrow> nat \<Rightarrow> byte list \<Rightarrow> dec_state \<Rightarrow> dec_state" where
  "frameDone rest n plain s = s\<lparr>bufferChunks := rest, bufferLen := bufferLen s - frameLen n, decIndex := decIndex s + 1,
     decOut := (if length plain > 0 then decOut s @ [plain] else decOut s)\<rparr>"

function decLoop :: "'k gcm \<Rightarrow> 'k \<Rightarrow> dec_state \<Rightarrow> dec_state result" where
  "decLoop g key s =
     (if bufferLen s < 4 then Inr s
      else bindE (case bufferChunks s of [] \<Rightarrow> Inl TypeError | v # _ \<Rightarrow> readUint32BE v 0) (\<lambda>n.
        if n > decChunkSize s
        then Inl (Error (''Invalid streaming frame length '' @ js_num n @ '' (max '' @ js_num (decChunkSize s) @ '')''))
        else if bufferLen s < frameLen n then Inr s
        else bindE (drainChunks (bufferChunks s) (frameLen n)) (\<lambda>(frame, rest).
          bindE (decryptFrame g key (decIndex s) frame) (\<lambda>plain.
            let s' = frameDone rest n plain s in
            if n < decChunkSize s'
            then if bufferLen s' > 0 then Inl (Error ''Trailing bytes after final streaming crypto frame'')
              else Inr (s'\<lparr>finalized := True\<rparr>)
            else decLoop g key s'))))"
  by pat_completeness auto

termination
  by (relation "measure (\<lambda>(g, key, s). bufferLen s)") (auto simp: frameDone_def)

declare decLoop.simps [simp del]

definition decTransform :: "'k gcm \<Rightarrow> 'k \<Rightarrow> view \<Rightarrow> dec_state \<Rightarrow> dec_state result" where
  "decTransform g key chunk s0 =
     (if finalized s0 then Inl (Error ''Unexpected data after final streaming crypto frame'')
      else let s = s0\<lparr>bufferChunks := bufferChunks s0 @ [chunk], bufferLen := bufferLen s0 + v_len chunk\<rparr> in
        if headerParsed s then decLoop g key s
        else if bufferLen s < STREAMING_HEADER_SIZE then Inr s
        else bindE (drainChunks (bufferChunks s) STREAMING_HEADER_SIZE) (\<lambda>(header, rest).
          bindE (parseHeader header) (\<lambda>chunkSize.
            decLoop g key (s\<lparr>bufferChunks := rest, bufferLen := bufferLen s - STREAMING_HEADER_SIZE, decChunkSize := chunkSize, headerParsed := True\<rparr>))))"

definition decFlush :: "dec_state \<Rightarrow> byte list list result" where
  "decFlush s =
     (if \<not> headerParsed s then Inl (Error ''Truncated streaming ciphertext (missing header)'')
      else if \<not> finalized s then Inl (Error ''Truncated streaming ciphertext (missing final frame)'')
      else if bufferLen s > 0 then Inl (Error ''Trailing bytes after streaming ciphertext'')
      else Inr (decOut s))"

definition decryptStream :: "'k gcm \<Rightarrow> 'k \<Rightarrow> view list \<Rightarrow> byte list list result" where
  "decryptStream g key chunks = bindE (foldE (decTransform g key) chunks decStart) decFlush"

section \<open>Streams\<close>

text \<open>The chunks needed to see the magic number are read ahead; the replacement stream delivers the chunks that are not empty.\<close>

fun readPrefix :: "byte list list \<Rightarrow> byte list \<Rightarrow> byte list" where
  "readPrefix [] prefix = prefix"
| "readPrefix (c # cs) prefix = (if length prefix < length STREAMING_CRYPTO_MAGIC then readPrefix cs (concatBytes prefix c) else prefix)"

definition detectStreamingCiphertext :: "byte list list \<Rightarrow> bool \<times> byte list list" where
  "detectStreamingCiphertext body = (isStreamingEncryptedPrefix (readPrefix body []), filter (\<lambda>c. length c > 0) body)"



section \<open>Numbers and views\<close>

lemma beValue_write: "n < 2 ^ 32 \<Longrightarrow> beValue (writeUint32BE n) = n"
proof -
  assume n: "n < 2 ^ 32"
  have byte: "unat (of_nat m :: byte) = m mod 256" for m by (simp add: unat_of_nat)
  have "beValue (writeUint32BE n) = ((n div 2 ^ 24 mod 256 * 256 + n div 2 ^ 16 mod 256) * 256 + n div 2 ^ 8 mod 256) * 256 + n mod 256"
    by (simp add: beValue_def writeUint32BE_def byte)
  also have "\<dots> = n"
  proof -
    have "n div 2 ^ 16 = n div 2 ^ 8 div 256" "n div 2 ^ 24 = n div 2 ^ 16 div 256" "n div 2 ^ 24 < 256"
      using n by (simp_all add: div_mult2_eq [symmetric] less_mult_imp_div_less)
    then show ?thesis by simp
  qed
  finally show ?thesis .
qed

lemma length_write [simp]: "length (writeUint32BE n) = 4"
  by (simp add: writeUint32BE_def)

definition wf_view :: "view \<Rightarrow> bool" where
  "wf_view v \<longleftrightarrow> v_off v + v_len v \<le> length (v_buf v)"

definition pend :: "view list \<Rightarrow> byte list" where
  "pend vs = concat (map viewBytes vs)"

lemma pend_simps [simp]: "pend [] = []" "pend (v # vs) = viewBytes v @ pend vs" "pend (vs @ ws) = pend vs @ pend ws"
  by (simp_all add: pend_def)

lemma length_viewBytes [simp]: "wf_view v \<Longrightarrow> length (viewBytes v) = v_len v"
  by (simp add: viewBytes_def wf_view_def)

lemma viewBytes_whole [simp]: "viewBytes (wholeView bs) = bs" "wf_view (wholeView bs)" "v_len (wholeView bs) = length bs"
  by (simp_all add: viewBytes_def wholeView_def wf_view_def)

lemma viewBytes_subarray: "n \<le> v_len v \<Longrightarrow> viewBytes (subarray v n) = drop n (viewBytes v)"
  by (simp add: viewBytes_def subarray_def drop_take add.commute)

theorem toExactBuffer_bytes: "wf_view v \<Longrightarrow> toExactBuffer v = viewBytes v"
  by (simp add: toExactBuffer_def viewBytes_def wf_view_def js_slice_def drop_take)

text \<open>A chunk that uses its buffer to the end, as the parts of a network response do.\<close>

definition tight :: "view \<Rightarrow> bool" where
  "tight v \<longleftrightarrow> v_off v + v_len v = length (v_buf v) \<and> 0 < v_len v"

lemma tight_wf [simp]: "tight v \<Longrightarrow> wf_view v"
  by (simp add: tight_def wf_view_def)

lemma readUint32BE_ok:
  assumes "wf_view v" "4 \<le> v_len v"
  shows "readUint32BE v 0 = Inr (beValue (take 4 (viewBytes v)))"
  using assms by (simp add: readUint32BE_def viewBytes_def wf_view_def min_def)

lemma readUint32BE_short: "tight v \<Longrightarrow> v_len v < 4 \<Longrightarrow> readUint32BE v 0 = Inl (RangeError ''Invalid DataView length'')"
  by (simp add: readUint32BE_def tight_def)

text \<open>The positions at which a sequence of chunks is cut.\<close>

fun cuts :: "nat list \<Rightarrow> nat set" where
  "cuts [] = {0}"
| "cuts (l # ls) = insert 0 ((+) l ` cuts ls)"

lemma zero_in_cuts [simp]: "0 \<in> cuts ls"
  by (cases ls) simp_all

lemma cuts_lengths: "cuts (map length cs) = {length (concat (take j cs)) |j. j \<le> length cs}"
proof (induction cs)
  case (Cons c cs)
  have "{length (concat (take j (c # cs))) |j. j \<le> Suc (length cs)} =
      insert 0 ((+) (length c) ` {length (concat (take j cs)) |j. j \<le> length cs})" (is "?A = ?B")
  proof (rule set_eqI, rule iffI)
    fix x
    assume "x \<in> ?A"
    then obtain j where "x = length (concat (take j (c # cs)))" "j \<le> Suc (length cs)" by blast
    then show "x \<in> ?B" by (cases j) auto
  next
    fix x
    assume "x \<in> ?B"
    then consider "x = 0" | j where "x = length c + length (concat (take j cs))" "j \<le> length cs" by blast
    then show "x \<in> ?A"
    proof cases
      case 1
      then show ?thesis by (intro CollectI exI [of _ 0]) simp
    next
      case 2
      then show ?thesis by (intro CollectI exI [of _ "Suc j"]) simp
    qed
  qed
  then show ?case using Cons by simp
qed simp

lemma in_shift: "x \<in> (+) a ` S \<longleftrightarrow> a \<le> x \<and> x - a \<in> S" for x a :: nat
  by (auto simp: image_iff) (metis le_add_diff_inverse)

lemma drain_views:
  "\<forall>v \<in> set vs. wf_view v \<Longrightarrow> n \<le> length (pend vs) \<Longrightarrow>
   \<exists>vs'. drainChunks vs n = Inr (take n (pend vs), vs') \<and> pend vs' = drop n (pend vs) \<and> (\<forall>v \<in> set vs'. wf_view v)"
proof (induction vs arbitrary: n)
  case (Cons v vs)
  have v: "wf_view v" "length (viewBytes v) = v_len v" using Cons.prems(1) by auto
  consider "n = 0" | "0 < n" "v_len v \<le> n" | "n < v_len v" by linarith
  then show ?case
  proof cases
    case 2
    have "\<forall>v \<in> set vs. wf_view v" "n - v_len v \<le> length (pend vs)" using Cons.prems v by auto
    from Cons.IH [OF this] 2 v show ?thesis by auto
  next
    case 3
    then show ?thesis using Cons.prems v by (auto simp: viewBytes_subarray) (simp add: subarray_def wf_view_def)
  qed (use Cons.prems in auto)
qed simp

lemma drain_tight:
  "\<forall>v \<in> set vs. tight v \<Longrightarrow> n \<le> length (pend vs) \<Longrightarrow> drainChunks vs n = Inr (bs, vs') \<Longrightarrow>
   (\<forall>v \<in> set vs'. tight v) \<and> cuts (map v_len vs' @ ls) = insert 0 {c. c + n \<in> cuts (map v_len vs @ ls)}"
proof (induction vs arbitrary: n bs)
  case Nil
  then show ?case by (auto simp: insert_absorb)
next
  case (Cons v vs)
  have v: "tight v" "length (viewBytes v) = v_len v" using Cons.prems(1) by auto
  consider "n = 0" | "0 < n" "v_len v \<le> n" | "0 < n" "n < v_len v" by linarith
  then show ?case
  proof cases
    case 1
    then show ?thesis using Cons.prems by (auto simp: insert_absorb)
  next
    case 2
    then obtain bs' where d: "drainChunks vs (n - v_len v) = Inr (bs', vs')"
      using Cons.prems(3) by (auto simp: bindE_eq_Inr)
    have "n - v_len v \<le> length (pend vs)" using Cons.prems(2) v by simp
    from Cons.IH [OF _ this d] Cons.prems(1)
    have ih: "\<forall>v \<in> set vs'. tight v" "cuts (map v_len vs' @ ls) = insert 0 {c. c + (n - v_len v) \<in> cuts (map v_len vs @ ls)}" by auto
    have "c + n \<in> (+) (v_len v) ` cuts (map v_len vs @ ls) \<longleftrightarrow> c + (n - v_len v) \<in> cuts (map v_len vs @ ls)" for c
      using 2(2) by (auto simp: in_shift)
    then show ?thesis using ih 2 by auto
  next
    case 3
    then have vs': "vs' = subarray v n # vs" using Cons.prems(3) by auto
    have "tight (subarray v n)" using v(1) 3(2) by (simp add: tight_def subarray_def)
    moreover have "c \<in> (+) (v_len v - n) ` cuts (map v_len vs @ ls) \<longleftrightarrow> c + n \<in> (+) (v_len v) ` cuts (map v_len vs @ ls)" for c
      unfolding in_shift using 3(2) by (metis Nat.diff_diff_right le_diff_conv less_imp_le)
    ultimately show ?thesis using vs' 3 Cons.prems(1) by (auto simp: subarray_def)
  qed
qed


section \<open>What the encryption produces\<close>

text \<open>The frames of a plaintext, independent of how it arrives: full frames, then one that is short.\<close>

function frames :: "'k gcm \<Rightarrow> 'k \<Rightarrow> (nat \<Rightarrow> byte list) \<Rightarrow> nat \<Rightarrow> nat \<Rightarrow> byte list \<Rightarrow> byte list" where
  "frames g key ivs n i p =
     (if n = 0 \<or> length p < n then encryptChunk g key ivs i p
      else encryptChunk g key ivs i (take n p) @ frames g key ivs n (Suc i) (drop n p))"
  by pat_completeness auto

termination
  by (relation "measure (\<lambda>(g, key, ivs, n, i, p). length p)") auto

declare frames.simps [simp del]

definition enc_ok :: "enc_state \<Rightarrow> bool" where
  "enc_ok s \<longleftrightarrow> (\<forall>v \<in> set (pendingChunks s). wf_view v) \<and> pendingLen s = length (pend (pendingChunks s))"

lemma touchStats_simps [simp]:
  "pendingChunks (touchStats n s) = pendingChunks s" "pendingLen (touchStats n s) = pendingLen s" "encIndex (touchStats n s) = encIndex s"
  "encOut (touchStats n s) = encOut s" "peakBufferBytes (touchStats n s) = max (peakBufferBytes s) n" "enc_ok (touchStats n s) = enc_ok s"
  by (simp_all add: touchStats_def max_def enc_ok_def)

text \<open>What has been produced and what the pending bytes will produce, followed by further plaintext.\<close>

definition enc_total :: "'k gcm \<Rightarrow> 'k \<Rightarrow> (nat \<Rightarrow> byte list) \<Rightarrow> nat \<Rightarrow> enc_state \<Rightarrow> byte list \<Rightarrow> byte list" where
  "enc_total g key ivs n s x = concat (encOut s) @ frames g key ivs n (encIndex s) (pend (pendingChunks s) @ x)"

lemma encTurn_ok:
  assumes "0 < n" "enc_ok s" "n \<le> pendingLen s"
  shows "\<exists>s'. encTurn g key ivs n s = Inr s' \<and> enc_ok s' \<and> pendingLen s' = pendingLen s - n
    \<and> (\<forall>x. enc_total g key ivs n s' x = enc_total g key ivs n s x) \<and> peakBufferBytes s' = max (peakBufferBytes s) (pendingLen s)"
proof -
  have wf: "\<forall>v \<in> set (pendingChunks s). wf_view v" "n \<le> length (pend (pendingChunks s))" using assms by (auto simp: enc_ok_def)
  obtain rest where d: "drainChunks (pendingChunks s) n = Inr (take n (pend (pendingChunks s)), rest)"
    "pend rest = drop n (pend (pendingChunks s))" "\<forall>v \<in> set rest. wf_view v"
    using drain_views [OF wf] by blast
  have "frames g key ivs n (encIndex s) (pend (pendingChunks s) @ x) =
      encryptChunk g key ivs (encIndex s) (take n (pend (pendingChunks s))) @ frames g key ivs n (Suc (encIndex s)) (pend rest @ x)" for x
    using assms(1) wf(2) d(2) by (subst frames.simps) simp
  then show ?thesis
    using assms d by (simp add: encTurn_def enc_ok_def enc_total_def)
qed

lemma encLoop_ok:
  "0 < n \<Longrightarrow> enc_ok s \<Longrightarrow> \<exists>s'. encLoop g key ivs n s = Some (Inr s') \<and> enc_ok s' \<and> pendingLen s' < n
    \<and> (\<forall>x. enc_total g key ivs n s' x = enc_total g key ivs n s x) \<and> peakBufferBytes s' \<le> max (peakBufferBytes s) (pendingLen s)"
proof (induction "pendingLen s" arbitrary: s rule: less_induct)
  case less
  show ?case
  proof (cases "n \<le> pendingLen s")
    case True
    obtain s1 where s1: "encTurn g key ivs n s = Inr s1" "enc_ok s1" "pendingLen s1 = pendingLen s - n"
      "\<forall>x. enc_total g key ivs n s1 x = enc_total g key ivs n s x" "peakBufferBytes s1 = max (peakBufferBytes s) (pendingLen s)"
      using encTurn_ok [OF less.prems True, where g = g and key = key and ivs = ivs] by blast
    have "pendingLen s1 < pendingLen s" using s1(3) True less.prems(1) by simp
    from less.hyps [OF this less.prems(1) s1(2)] s1 True show ?thesis by (subst encLoop.simps) auto
  next
    case False
    then show ?thesis using less.prems by (subst encLoop.simps) auto
  qed
qed

lemma encTransform_ok:
  assumes "0 < n" "enc_ok s" "pendingLen s < n" "wf_view c"
  shows "\<exists>s'. encTransform g key ivs n c s = Some (Inr s') \<and> enc_ok s' \<and> pendingLen s' < n
    \<and> (\<forall>x. enc_total g key ivs n s' x = enc_total g key ivs n s (viewBytes c @ x))
    \<and> peakBufferBytes s' \<le> max (peakBufferBytes s) (v_len c + 2 * n + 28)"
proof -
  define s1 where "s1 = s\<lparr>pendingChunks := pendingChunks s @ [c], pendingLen := pendingLen s + v_len c\<rparr>"
  define s2 where "s2 = touchStats (pendingLen s1 + n + STREAMING_IV_LENGTH + STREAMING_TAG_LENGTH) s1"
  have ok: "enc_ok s2" using assms by (auto simp: s1_def s2_def enc_ok_def)
  have total: "enc_total g key ivs n s2 x = enc_total g key ivs n s (viewBytes c @ x)" for x
    by (simp add: enc_total_def s1_def s2_def)
  have step: "encTransform g key ivs n c s = encLoop g key ivs n s2"
    by (simp add: encTransform_def s1_def s2_def Let_def)
  have "max (peakBufferBytes s2) (pendingLen s2) \<le> max (peakBufferBytes s) (v_len c + 2 * n + 28)"
    using assms(3) by (simp add: s1_def s2_def STREAMING_IV_LENGTH_def STREAMING_TAG_LENGTH_def)
  moreover obtain s' where "encLoop g key ivs n s2 = Some (Inr s')" "enc_ok s'" "pendingLen s' < n"
    "\<forall>x. enc_total g key ivs n s' x = enc_total g key ivs n s2 x" "peakBufferBytes s' \<le> max (peakBufferBytes s2) (pendingLen s2)"
    using encLoop_ok [OF assms(1) ok, where g = g and key = key and ivs = ivs] by blast
  ultimately show ?thesis using step total by (metis (no_types, lifting) order.trans)
qed

lemma encChunks_ok:
  "0 < n \<Longrightarrow> enc_ok s \<Longrightarrow> pendingLen s < n \<Longrightarrow> \<forall>c \<in> set cs. wf_view c \<and> v_len c \<le> m \<Longrightarrow>
   \<exists>s'. encChunks g key ivs n cs s = Some (Inr s') \<and> enc_ok s' \<and> pendingLen s' < n
    \<and> (\<forall>x. enc_total g key ivs n s' x = enc_total g key ivs n s (pend cs @ x)) \<and> peakBufferBytes s' \<le> max (peakBufferBytes s) (m + 2 * n + 28)"
proof (induction cs arbitrary: s)
  case (Cons c cs)
  have c: "wf_view c" "v_len c \<le> m" and cs: "\<forall>c \<in> set cs. wf_view c \<and> v_len c \<le> m" using Cons.prems(4) by auto
  obtain s1 where s1: "encTransform g key ivs n c s = Some (Inr s1)" "enc_ok s1" "pendingLen s1 < n"
    "\<forall>x. enc_total g key ivs n s1 x = enc_total g key ivs n s (viewBytes c @ x)"
    "peakBufferBytes s1 \<le> max (peakBufferBytes s) (v_len c + 2 * n + 28)"
    using encTransform_ok [OF Cons.prems(1-3) c(1), where g = g and key = key and ivs = ivs] by blast
  from Cons.IH [OF Cons.prems(1) s1(2,3) cs]
  obtain s2 where s2: "encChunks g key ivs n cs s1 = Some (Inr s2)" "enc_ok s2" "pendingLen s2 < n"
    "\<forall>x. enc_total g key ivs n s2 x = enc_total g key ivs n s1 (pend cs @ x)"
    "peakBufferBytes s2 \<le> max (peakBufferBytes s1) (m + 2 * n + 28)" by blast
  have "peakBufferBytes s2 \<le> max (peakBufferBytes s) (m + 2 * n + 28)" using s1(5) s2(5) c(2) by simp
  then show ?case using s1 s2 by simp
qed simp

lemma encryptStream_frames:
  assumes "0 < n" "\<forall>c \<in> set cs. wf_view c"
  shows "\<exists>out. encryptStream g key ivs n cs = Some (Inr out) \<and> concat out = buildHeader n @ frames g key ivs n 0 (pend cs)"
proof -
  have bound: "\<forall>c \<in> set cs. wf_view c \<and> v_len c \<le> Max (insert 0 (v_len ` set cs))" using assms(2) by auto
  have ok: "enc_ok (encStart n)" "pendingLen (encStart n) < n" using assms(1) by (simp_all add: enc_ok_def encStart_def)
  obtain s where s: "encChunks g key ivs n cs (encStart n) = Some (Inr s)" "enc_ok s" "pendingLen s < n"
    "\<forall>x. enc_total g key ivs n s x = enc_total g key ivs n (encStart n) (pend cs @ x)"
    using encChunks_ok [OF assms(1) ok bound, where g = g and key = key and ivs = ivs] by blast
  have "enc_total g key ivs n s [] = buildHeader n @ frames g key ivs n 0 (pend cs)"
    using spec [OF s(4), of "[]"] by (simp add: enc_total_def encStart_def)
  moreover have "frames g key ivs n (encIndex s) (pend (pendingChunks s)) = encryptChunk g key ivs (encIndex s) (pend (pendingChunks s))"
    using s(2,3) by (subst frames.simps) (simp add: enc_ok_def)
  moreover have "encFlush g key ivs s = Inr (encOut s @ [encryptChunk g key ivs (encIndex s) (pend (pendingChunks s))])"
    using s(2) drain_views [of "pendingChunks s" "pendingLen s"] by (auto simp: encFlush_def enc_ok_def)
  ultimately show ?thesis using s(1) by (simp add: encryptStream_def enc_total_def)
qed

text \<open>The buffers of the encryption stay within the size of one incoming chunk and two frames, however long the stream is.\<close>

theorem encryption_memory:
  assumes "0 < n" "\<forall>c \<in> set cs. wf_view c \<and> v_len c \<le> m"
  shows "\<exists>s. encChunks g key ivs n cs (encStart n) = Some (Inr s) \<and> pendingLen s < n \<and> peakBufferBytes s \<le> m + 2 * n + 28"
proof -
  have ok: "enc_ok (encStart n)" "pendingLen (encStart n) < n" using assms(1) by (simp_all add: enc_ok_def encStart_def)
  from encChunks_ok [OF assms(1) ok assms(2), where g = g and key = key and ivs = ivs] show ?thesis by (fastforce simp: encStart_def)
qed


section \<open>What the decryption accepts\<close>

text \<open>The documented behaviour of the cipher: decryption inverts encryption, and the tag adds 16 bytes.\<close>

definition gcm_ok :: "'k gcm \<Rightarrow> 'k \<Rightarrow> bool" where
  "gcm_ok g key \<longleftrightarrow> (\<forall>iv aad p. gcm_decrypt g key iv aad (gcm_encrypt g key iv aad p) = Some p \<and>
     length (gcm_encrypt g key iv aad p) = length p + 16)"

text \<open>No cut of the stream falls behind one, two or three bytes of the length of a frame.\<close>

definition good_cuts :: "nat \<Rightarrow> nat list \<Rightarrow> bool" where
  "good_cuts n ls \<longleftrightarrow> (\<forall>c \<in> cuts ls. c mod (n + 32) \<notin> {1, 2, 3})"

lemma good_cuts_drain:
  assumes "\<forall>v \<in> set vs. tight v" "n + 32 \<le> length (pend vs)" "drainChunks vs (n + 32) = Inr (bs, vs')" "4 \<le> v_len (hd vs)"
  shows "good_cuts n (map v_len vs' @ ls) \<longleftrightarrow> good_cuts n (map v_len vs @ ls)"
proof -
  have new: "cuts (map v_len vs' @ ls) = insert 0 {c. c + (n + 32) \<in> cuts (map v_len vs @ ls)}"
    using drain_tight [OF assms(1-3)] by blast
  have "vs \<noteq> []" using assms(2) by auto
  then obtain w ws where vs: "vs = w # ws" by (cases vs) auto
  have small: "c = 0 \<or> 4 \<le> c" if "c \<in> cuts (map v_len vs @ ls)" for c
    using that assms(4) by (auto simp: vs)
  have "(\<forall>c \<in> cuts (map v_len vs @ ls). c mod (n + 32) \<notin> {1, 2, 3}) \<longleftrightarrow>
      (\<forall>c. c + (n + 32) \<in> cuts (map v_len vs @ ls) \<longrightarrow> c mod (n + 32) \<notin> {1, 2, 3})" (is "?A \<longleftrightarrow> ?B")
  proof
    assume ?A
    then show ?B by (metis mod_add_self2)
  next
    assume B: ?B
    show ?A
    proof
      fix c
      assume c: "c \<in> cuts (map v_len vs @ ls)"
      show "c mod (n + 32) \<notin> {1, 2, 3}"
      proof (cases "c < n + 32")
        case True
        then show ?thesis using small [OF c] by auto
      next
        case False
        then have "(c - (n + 32)) + (n + 32) = c" by simp
        then show ?thesis using B c by (metis mod_add_self2)
      qed
    qed
  qed
  then show ?thesis by (simp add: good_cuts_def new)
qed

text \<open>Between frames: what is buffered, what is still to come and what is cut off are the frames of the remaining plaintext.\<close>

definition at_frame :: "'k gcm \<Rightarrow> 'k \<Rightarrow> (nat \<Rightarrow> byte list) \<Rightarrow> nat \<Rightarrow> byte list \<Rightarrow> byte list \<Rightarrow> dec_state \<Rightarrow> bool" where
  "at_frame g key ivs n p rest s \<longleftrightarrow> headerParsed s \<and> \<not> finalized s \<and> decChunkSize s = n \<and> (\<forall>v \<in> set (bufferChunks s). tight v)
     \<and> bufferLen s = length (pend (bufferChunks s)) \<and> pend (bufferChunks s) @ rest = frames g key ivs n (decIndex s) p"

definition firstPlain :: "nat \<Rightarrow> byte list \<Rightarrow> byte list" where
  "firstPlain n p = (if length p < n then p else take n p)"

lemma frames_first:
  "0 < n \<Longrightarrow> frames g key ivs n i p = encryptChunk g key ivs i (firstPlain n p) @
     (if length p < n then [] else frames g key ivs n (Suc i) (drop n p))"
  by (subst frames.simps) (simp add: firstPlain_def)

lemma length_encryptChunk: "gcm_ok g key \<Longrightarrow> \<forall>i. length (ivs i) = 12 \<Longrightarrow> length (encryptChunk g key ivs i p) = length p + 32"
  by (simp add: encryptChunk_def gcm_ok_def)

lemma decryptFrame_encryptChunk:
  assumes "gcm_ok g key" "\<forall>i. length (ivs i) = 12"
  shows "decryptFrame g key i (encryptChunk g key ivs i p) = Inr p"
proof -
  let ?f = "encryptChunk g key ivs i p"
  have "js_slice ?f 4 16 = ivs i" "drop 16 ?f = gcm_encrypt g key (ivs i) (chunkIndexAad i) p"
    using assms(2) by (simp_all add: encryptChunk_def js_slice_def)
  then show ?thesis
    using assms(1) by (simp add: decryptFrame_def STREAMING_IV_LENGTH_def gcm_ok_def)
qed

lemma take_append_length: "length a \<le> length q \<Longrightarrow> q @ r = a @ b \<Longrightarrow> take (length a) q = a \<and> drop (length a) q @ r = b"
  by (metis append_eq_append_conv_if append_eq_conv_conj append_take_drop_id take_all_iff)

text \<open>The outcomes of the loop: an exception at a badly cut length, waiting inside a frame, or the end.\<close>

definition waiting :: "nat \<Rightarrow> byte list \<Rightarrow> dec_state \<Rightarrow> bool" where
  "waiting n p s \<longleftrightarrow> bufferLen s < length (firstPlain n p) + 32"

lemma cuts_le: "c \<in> cuts ls \<Longrightarrow> c \<le> sum_list ls"
  by (induction ls arbitrary: c) auto

lemma sum_lengths: "\<forall>v \<in> set vs. wf_view v \<Longrightarrow> sum_list (map v_len vs) = length (pend vs)"
  by (induction vs) auto

lemma last_frame_cuts:
  assumes "\<forall>v \<in> set vs. tight v" "length (pend vs) < n + 32" "vs \<noteq> []" "4 \<le> v_len (hd vs)"
  shows "good_cuts n (map v_len vs)"
  unfolding good_cuts_def
proof
  fix c
  assume c: "c \<in> cuts (map v_len vs)"
  then have "c < n + 32" using cuts_le [OF c] sum_lengths [of vs] assms(1,2) by simp
  moreover have "c = 0 \<or> 4 \<le> c" using c assms(3,4) by (cases vs) auto
  ultimately show "c mod (n + 32) \<notin> {1, 2, 3}" by auto
qed

lemma decLoop_outcome:
  assumes "gcm_ok g key" "\<forall>i. length (ivs i) = 12" "0 < n" "n < 2 ^ 32"
  shows "at_frame g key ivs n p rest s \<Longrightarrow> rest = [] \<longrightarrow> ls = [] \<Longrightarrow>
    decLoop g key s = Inl (RangeError ''Invalid DataView length'') \<and> \<not> good_cuts n (map v_len (bufferChunks s) @ ls)
    \<or> (\<exists>s' p'. decLoop g key s = Inr s' \<and> at_frame g key ivs n p' rest s' \<and> waiting n p' s' \<and> concat (decOut s') @ p' = concat (decOut s) @ p
        \<and> (good_cuts n (map v_len (bufferChunks s') @ ls) \<longleftrightarrow> good_cuts n (map v_len (bufferChunks s) @ ls)))
    \<or> (\<exists>s'. decLoop g key s = Inr s' \<and> finalized s' \<and> headerParsed s' \<and> bufferLen s' = 0 \<and> rest = [] \<and> concat (decOut s') = concat (decOut s) @ p
        \<and> good_cuts n (map v_len (bufferChunks s) @ ls))"
proof (induction "bufferLen s" arbitrary: s p rule: less_induct)
  case less
  note at = less.prems(1) [unfolded at_frame_def]
  define f where "f = firstPlain n p"
  define q where "q = pend (bufferChunks s)"
  have flen: "length f \<le> n" "length f < 2 ^ 32" using assms(3,4) by (simp_all add: f_def firstPlain_def)
  have q: "bufferLen s = length q" "\<forall>v \<in> set (bufferChunks s). tight v"
    "q @ rest = encryptChunk g key ivs (decIndex s) f @ (if length p < n then [] else frames g key ivs n (Suc (decIndex s)) (drop n p))"
    using at frames_first [OF assms(3), of g key ivs "decIndex s" p] unfolding q_def f_def by metis+
  have elen: "length (encryptChunk g key ivs (decIndex s) f) = length f + 32" by (rule length_encryptChunk [OF assms(1,2)])
  show ?case
  proof (cases "bufferLen s < 4")
    case True
    then have "decLoop g key s = Inr s" by (subst decLoop.simps) simp
    moreover have "waiting n p s" using True by (simp add: waiting_def)
    ultimately show ?thesis using less.prems by blast
  next
    case False
    then obtain w ws where w: "bufferChunks s = w # ws" using q(1) by (cases "bufferChunks s") (auto simp: q_def)
    show ?thesis
    proof (cases "v_len w < 4")
      case short: True
      have "tight w" using q(2) w by simp
      then have "decLoop g key s = Inl (RangeError ''Invalid DataView length'')"
        using False short w readUint32BE_short by (subst decLoop.simps) simp
      moreover have "\<not> good_cuts n (map v_len (bufferChunks s) @ ls)"
      proof -
        have "v_len w \<in> cuts (map v_len (bufferChunks s) @ ls)" by (simp add: w image_iff)
        moreover have "v_len w mod (n + 32) \<in> {1, 2, 3}" using short \<open>tight w\<close> by (auto simp: tight_def)
        ultimately show ?thesis by (auto simp: good_cuts_def)
      qed
      ultimately show ?thesis by blast
    next
      case long: False
      have read: "readUint32BE w 0 = Inr (length f)"
      proof -
        have "wf_view w" using q(2) w by simp
        moreover from this have "take 4 (viewBytes w) = take 4 (q @ rest)" using long by (simp add: q_def w)
        moreover have "take 4 (q @ rest) = writeUint32BE (length f)" unfolding q(3) by (simp add: encryptChunk_def)
        ultimately show ?thesis using readUint32BE_ok [of w] long flen(2) by (simp add: beValue_write)
      qed
      show ?thesis
      proof (cases "bufferLen s < length f + 32")
        case True
        then have "decLoop g key s = Inr s" using False read w flen(1) at by (subst decLoop.simps) simp
        moreover have "waiting n p s" using True by (simp add: waiting_def f_def)
        ultimately show ?thesis using less.prems by blast
      next
        case complete: False
        then have enough: "length f + 32 \<le> length q" using q(1) by simp
        have wf: "\<forall>v \<in> set (bufferChunks s). wf_view v" using q(2) by simp
        obtain vs where vs: "drainChunks (bufferChunks s) (length f + 32) = Inr (take (length f + 32) q, vs)" "pend vs = drop (length f + 32) q"
          using drain_views [OF wf] enough unfolding q_def by blast
        have split: "take (length f + 32) q = encryptChunk g key ivs (decIndex s) f"
          "pend vs @ rest = (if length p < n then [] else frames g key ivs n (Suc (decIndex s)) (drop n p))"
          using take_append_length [of "encryptChunk g key ivs (decIndex s) f" q rest] q(3) enough by (simp_all add: elen vs(2))
        define s1 where "s1 = frameDone vs (length f) f s"
        have loop: "decLoop g key s = (if length f < n then if bufferLen s1 > 0 then Inl (Error ''Trailing bytes after final streaming crypto frame'')
            else Inr (s1\<lparr>finalized := True\<rparr>) else decLoop g key s1)"
          using False read w flen(1) at complete vs(1) decryptFrame_encryptChunk [OF assms(1,2)]
          by (subst decLoop.simps) (simp add: split(1) s1_def frameDone_def Let_def)
        have s1: "bufferLen s1 = length (pend vs)" "concat (decOut s1) = concat (decOut s) @ f" "bufferLen s1 < bufferLen s"
          using q(1) vs(2) enough by (auto simp: s1_def frameDone_def)
        show ?thesis
        proof (cases "length f < n")
          case True
          then have "length p < n" "f = p" by (auto simp: f_def firstPlain_def split: if_splits)
          then have empty: "pend vs = []" "rest = []" using split(2) by auto
          then have "length q = length f + 32" using vs(2) enough by simp
          then have "good_cuts n (map v_len (bufferChunks s) @ ls)"
            using last_frame_cuts [of "bufferChunks s" n] q(2) True long w less.prems(2) empty(2) by (simp add: q_def)
          moreover have "headerParsed s1" using at by (simp add: s1_def frameDone_def)
          ultimately show ?thesis using loop True s1 empty \<open>f = p\<close> by simp
        next
          case full: False
          then have f: "length f = n" "f @ drop n p = p" "\<not> length p < n" using flen(1) by (auto simp: f_def firstPlain_def)
          have tight: "\<forall>v \<in> set vs. tight v" using drain_tight [OF q(2) _ vs(1)] enough by (simp add: q_def)
          have "at_frame g key ivs n (drop n p) rest s1"
            using at tight s1(1) split(2) f(3) by (simp add: at_frame_def s1_def frameDone_def)
          note IH = less.hyps [OF s1(3) this less.prems(2)]
          have "good_cuts n (map v_len (bufferChunks s1) @ ls) \<longleftrightarrow> good_cuts n (map v_len (bufferChunks s) @ ls)"
            using good_cuts_drain [OF q(2), of n _ vs ls] vs(1) enough f(1) long w by (simp add: s1_def frameDone_def q_def)
          moreover have "concat (decOut s1) @ drop n p = concat (decOut s) @ p" using s1(2) f(2) by simp
          moreover have "decLoop g key s = decLoop g key s1" using loop full by simp
          ultimately show ?thesis using IH by (simp only:)
        qed
      qed
    qed
  qed
qed




lemma pend_tight_nonempty: "\<forall>v \<in> set vs. tight v \<Longrightarrow> pend vs = [] \<Longrightarrow> vs = []"
  by (cases vs) (auto simp: tight_def viewBytes_def)

lemma decrypt_from_frame:
  assumes "gcm_ok g key" "\<forall>i. length (ivs i) = 12" "0 < n" "n < 2 ^ 32"
  shows "at_frame g key ivs n p (pend vs @ r) s \<Longrightarrow> waiting n p s \<Longrightarrow> \<forall>v \<in> set vs. tight v \<Longrightarrow>
    (r \<noteq> [] \<longrightarrow> (\<exists>e. bindE (foldE (decTransform g key) vs s) decFlush = Inl e)) \<and>
    (r = [] \<longrightarrow> (if good_cuts n (map v_len (bufferChunks s) @ map v_len vs)
      then \<exists>out. bindE (foldE (decTransform g key) vs s) decFlush = Inr out \<and> concat out = concat (decOut s) @ p
      else bindE (foldE (decTransform g key) vs s) decFlush = Inl (RangeError ''Invalid DataView length'')))"
proof (induction vs arbitrary: s p)
  case Nil
  then have at: "headerParsed s" "\<not> finalized s" "bufferLen s = length (pend (bufferChunks s))"
    "pend (bufferChunks s) @ r = frames g key ivs n (decIndex s) p" by (simp_all add: at_frame_def)
  have "r \<noteq> []"
  proof
    assume "r = []"
    then have "length (pend (bufferChunks s)) \<ge> length (firstPlain n p) + 32"
      using at(4) frames_first [OF assms(3), of g key ivs "decIndex s" p] length_encryptChunk [OF assms(1,2)] by simp
    then show False using Nil.prems(2) at(3) by (simp add: waiting_def)
  qed
  then show ?case using at by (simp add: decFlush_def)
next
  case (Cons v vs)
  define s1 where "s1 = s\<lparr>bufferChunks := bufferChunks s @ [v], bufferLen := bufferLen s + v_len v\<rparr>"
  have v: "tight v" and vs: "\<forall>v \<in> set vs. tight v" using Cons.prems(3) by auto
  have at1: "at_frame g key ivs n p (pend vs @ r) s1"
    using Cons.prems(1) v by (auto simp: at_frame_def s1_def)
  have step: "decTransform g key v s = decLoop g key s1"
    using Cons.prems(1) by (simp add: decTransform_def at_frame_def s1_def Let_def)
  have chunks: "map v_len (bufferChunks s) @ map v_len (v # vs) = map v_len (bufferChunks s1) @ map v_len vs" "decOut s1 = decOut s"
    by (simp_all add: s1_def)
  have "pend vs @ r = [] \<longrightarrow> map v_len vs = []" using pend_tight_nonempty [OF vs] by auto
  from decLoop_outcome [OF assms at1 this]
  consider (cut) "decLoop g key s1 = Inl (RangeError ''Invalid DataView length'')" "\<not> good_cuts n (map v_len (bufferChunks s1) @ map v_len vs)"
    | (wait) s' p' where "decLoop g key s1 = Inr s'" "at_frame g key ivs n p' (pend vs @ r) s'" "waiting n p' s'"
        "concat (decOut s') @ p' = concat (decOut s1) @ p"
        "good_cuts n (map v_len (bufferChunks s') @ map v_len vs) \<longleftrightarrow> good_cuts n (map v_len (bufferChunks s1) @ map v_len vs)"
    | (finish) s' where "decLoop g key s1 = Inr s'" "finalized s'" "headerParsed s'" "bufferLen s' = 0" "pend vs @ r = []"
        "concat (decOut s') = concat (decOut s1) @ p" "good_cuts n (map v_len (bufferChunks s1) @ map v_len vs)"
    by blast
  then show ?case
  proof cases
    case cut
    then show ?thesis unfolding chunks using step by simp
  next
    case wait
    have "foldE (decTransform g key) (v # vs) s = foldE (decTransform g key) vs s'" using step wait(1) by simp
    then show ?thesis unfolding chunks using Cons.IH [OF wait(2,3) vs] wait(4) [unfolded chunks] wait(5) by (simp only:)
  next
    case finish
    then have "vs = []" "r = []" using pend_tight_nonempty [OF vs] by auto
    then show ?thesis unfolding chunks using step finish chunks(2) by (simp add: decFlush_def)
  qed
qed


lemma parseHeader_build: "0 < n \<Longrightarrow> n \<le> 16 * 1024 * 1024 \<Longrightarrow> parseHeader (buildHeader n) = Inr n"
proof -
  assume n: "0 < n" "n \<le> 16 * 1024 * 1024"
  then have m: "n mod 2 ^ 32 = n" "n < 2 ^ 32" by simp_all
  have magic: "isStreamingEncryptedPrefix (buildHeader n)"
    by (auto simp: isStreamingEncryptedPrefix_def buildHeader_def STREAMING_CRYPTO_MAGIC_def less_Suc_eq)
  have len: "length (buildHeader n) = 16" by (simp add: buildHeader_def STREAMING_CRYPTO_MAGIC_def)
  have "take 4 (drop 6 (buildHeader n)) = writeUint32BE n"
    using m(1) by (simp add: buildHeader_def STREAMING_CRYPTO_MAGIC_def)
  then have "readUint32BE (wholeView (buildHeader n)) 6 = Inr n"
    using len m(2) by (simp add: readUint32BE_def wholeView_def beValue_write)
  moreover have "buildHeader n ! 4 = STREAMING_CRYPTO_VERSION" by (simp add: buildHeader_def STREAMING_CRYPTO_MAGIC_def)
  ultimately show ?thesis using n magic len by (simp add: parseHeader_def STREAMING_HEADER_SIZE_def)
qed

lemma length_buildHeader: "length (buildHeader n) = 16"
  by (simp add: buildHeader_def STREAMING_CRYPTO_MAGIC_def)

text \<open>Before the header is complete.\<close>

definition at_header :: "dec_state \<Rightarrow> bool" where
  "at_header s \<longleftrightarrow> \<not> headerParsed s \<and> \<not> finalized s \<and> decIndex s = 0 \<and> decOut s = [] \<and> (\<forall>v \<in> set (bufferChunks s). tight v)
     \<and> bufferLen s = length (pend (bufferChunks s)) \<and> bufferLen s < 16"

definition good_stream_cuts :: "nat \<Rightarrow> nat set \<Rightarrow> bool" where
  "good_stream_cuts n cs \<longleftrightarrow> (\<forall>c \<in> cs. 16 \<le> c \<longrightarrow> (c - 16) mod (n + 32) \<notin> {1, 2, 3})"

lemma good_after_header:
  assumes "cuts ls' = insert 0 {c. c + 16 \<in> cuts ls}"
  shows "good_cuts n ls' \<longleftrightarrow> good_stream_cuts n (cuts ls)"
proof -
  have "(\<forall>c. c + 16 \<in> cuts ls \<longrightarrow> c mod (n + 32) \<notin> {1, 2, 3}) \<longleftrightarrow> (\<forall>c \<in> cuts ls. 16 \<le> c \<longrightarrow> (c - 16) mod (n + 32) \<notin> {1, 2, 3})"
    by (metis add_diff_cancel_right' le_add2 le_add_diff_inverse2)
  then show ?thesis by (simp add: good_cuts_def good_stream_cuts_def assms)
qed

lemma decrypt_from_header:
  assumes "gcm_ok g key" "\<forall>i. length (ivs i) = 12" "0 < n" "n \<le> 16 * 1024 * 1024"
  shows "at_header s \<Longrightarrow> pend (bufferChunks s) @ pend vs @ r = buildHeader n @ frames g key ivs n 0 p \<Longrightarrow> \<forall>v \<in> set vs. tight v \<Longrightarrow>
    (r \<noteq> [] \<longrightarrow> (\<exists>e. bindE (foldE (decTransform g key) vs s) decFlush = Inl e)) \<and>
    (r = [] \<longrightarrow> (if good_stream_cuts n (cuts (map v_len (bufferChunks s) @ map v_len vs))
      then \<exists>out. bindE (foldE (decTransform g key) vs s) decFlush = Inr out \<and> concat out = p
      else bindE (foldE (decTransform g key) vs s) decFlush = Inl (RangeError ''Invalid DataView length'')))"
proof (induction vs arbitrary: s)
  case Nil
  have "length (frames g key ivs n 0 p) > 0"
    using frames_first [OF assms(3), of g key ivs 0 p] length_encryptChunk [OF assms(1,2)] by simp
  then have "r \<noteq> []" using Nil length_buildHeader [of n] by (auto simp: at_header_def dest: arg_cong [of _ _ length])
  then show ?case using Nil by (simp add: decFlush_def at_header_def)
next
  case (Cons v vs)
  define s1 where "s1 = s\<lparr>bufferChunks := bufferChunks s @ [v], bufferLen := bufferLen s + v_len v\<rparr>"
  have v: "tight v" and vs: "\<forall>v \<in> set vs. tight v" using Cons.prems(3) by auto
  have s1: "\<forall>v \<in> set (bufferChunks s1). tight v" "bufferLen s1 = length (pend (bufferChunks s1))" "\<not> headerParsed s1" "\<not> finalized s1"
    "decIndex s1 = 0" "decOut s1 = []" "pend (bufferChunks s1) @ pend vs @ r = buildHeader n @ frames g key ivs n 0 p"
    using Cons.prems v by (auto simp: s1_def at_header_def)
  have chunks: "map v_len (bufferChunks s) @ map v_len (v # vs) = map v_len (bufferChunks s1) @ map v_len vs" by (simp add: s1_def)
  show ?case
  proof (cases "bufferLen s1 < 16")
    case True
    then have "decTransform g key v s = Inr s1"
      using Cons.prems(1) by (simp add: decTransform_def at_header_def s1_def Let_def STREAMING_HEADER_SIZE_def)
    moreover have "at_header s1" using s1 True by (simp add: at_header_def)
    ultimately show ?thesis unfolding chunks using Cons.IH [OF _ s1(7) vs] by simp
  next
    case False
    have wf: "\<forall>v \<in> set (bufferChunks s1). wf_view v" using s1(1) by simp
    have enough: "16 \<le> length (pend (bufferChunks s1))" using False s1(2) by simp
    obtain ws where d: "drainChunks (bufferChunks s1) 16 = Inr (take 16 (pend (bufferChunks s1)), ws)" "pend ws = drop 16 (pend (bufferChunks s1))"
      using drain_views [OF wf enough] by blast
    have parts: "take 16 (pend (bufferChunks s1)) = buildHeader n" "pend ws @ pend vs @ r = frames g key ivs n 0 p"
      using take_append_length [of "buildHeader n" "pend (bufferChunks s1)" "pend vs @ r"] s1(7) enough
      by (simp_all add: length_buildHeader d(2))
    have tight: "\<forall>v \<in> set ws. tight v" "cuts (map v_len ws @ map v_len vs) = insert 0 {c. c + 16 \<in> cuts (map v_len (bufferChunks s1) @ map v_len vs)}"
      using drain_tight [OF s1(1) enough d(1)] by blast+
    define s2 where "s2 = s1\<lparr>bufferChunks := ws, bufferLen := bufferLen s1 - 16, decChunkSize := n, headerParsed := True\<rparr>"
    have at2: "at_frame g key ivs n p (pend vs @ r) s2"
      using s1 tight(1) parts(2) d(2) by (simp add: at_frame_def s2_def)
    have step: "decTransform g key v s = decLoop g key s2"
      using Cons.prems(1) False d(1) parseHeader_build [OF assms(3,4)] parts(1)
      by (simp add: decTransform_def at_header_def s1_def s2_def Let_def STREAMING_HEADER_SIZE_def)
    have n32: "n < 2 ^ 32" using assms(4) by simp
    have good: "good_cuts n (map v_len (bufferChunks s2) @ map v_len vs) \<longleftrightarrow> good_stream_cuts n (cuts (map v_len (bufferChunks s1) @ map v_len vs))"
      using good_after_header [OF tight(2)] by (simp add: s2_def)
    have out: "decOut s2 = []" using s1(6) by (simp add: s2_def)
    have "pend vs @ r = [] \<longrightarrow> map v_len vs = []" using pend_tight_nonempty [OF vs] by auto
    from decLoop_outcome [OF assms(1-3) n32 at2 this]
    consider (cut) "decLoop g key s2 = Inl (RangeError ''Invalid DataView length'')" "\<not> good_cuts n (map v_len (bufferChunks s2) @ map v_len vs)"
      | (wait) s' p' where "decLoop g key s2 = Inr s'" "at_frame g key ivs n p' (pend vs @ r) s'" "waiting n p' s'"
          "concat (decOut s') @ p' = concat (decOut s2) @ p"
          "good_cuts n (map v_len (bufferChunks s') @ map v_len vs) \<longleftrightarrow> good_cuts n (map v_len (bufferChunks s2) @ map v_len vs)"
      | (finish) s' where "decLoop g key s2 = Inr s'" "finalized s'" "headerParsed s'" "bufferLen s' = 0" "pend vs @ r = []"
          "concat (decOut s') = concat (decOut s2) @ p" "good_cuts n (map v_len (bufferChunks s2) @ map v_len vs)"
      by blast
    then show ?thesis
    proof cases
      case cut
      then show ?thesis unfolding chunks using step good by simp
    next
      case wait
      have "foldE (decTransform g key) (v # vs) s = foldE (decTransform g key) vs s'" using step wait(1) by simp
      then show ?thesis
        unfolding chunks good [symmetric] using decrypt_from_frame [OF assms(1-3) n32 wait(2,3) vs] wait(4) [unfolded out] wait(5)
        by (simp only: concat.simps append.simps)
    next
      case finish
      then have "vs = []" "r = []" using pend_tight_nonempty [OF vs] by auto
      then show ?thesis unfolding chunks using step finish good out by (simp add: decFlush_def)
    qed
  qed
qed


section \<open>Properties of the streams\<close>

lemma decryptStream_outcome:
  assumes "gcm_ok g key" "\<forall>i. length (ivs i) = 12" "0 < n" "n \<le> 16 * 1024 * 1024"
    and "concat cs @ r = buildHeader n @ frames g key ivs n 0 p" "\<forall>c \<in> set cs. c \<noteq> []"
  shows "(r \<noteq> [] \<longrightarrow> (\<exists>e. decryptStream g key (map wholeView cs) = Inl e)) \<and>
    (r = [] \<longrightarrow> (if \<forall>j \<le> length cs. 16 \<le> length (concat (take j cs)) \<longrightarrow> (length (concat (take j cs)) - 16) mod (n + 32) \<notin> {1, 2, 3}
      then \<exists>out. decryptStream g key (map wholeView cs) = Inr out \<and> concat out = p
      else decryptStream g key (map wholeView cs) = Inl (RangeError ''Invalid DataView length'')))"
proof -
  have start: "at_header decStart" "bufferChunks decStart = []" by (simp_all add: at_header_def decStart_def)
  have pend: "pend (map wholeView cs) = concat cs" by (simp add: pend_def comp_def)
  have tight: "\<forall>v \<in> set (map wholeView cs). tight v" using assms(6) by (auto simp: tight_def wholeView_def)
  have "map v_len (map wholeView cs) = map length cs" by simp
  then have "good_stream_cuts n (cuts (map v_len (bufferChunks decStart) @ map v_len (map wholeView cs))) \<longleftrightarrow>
      (\<forall>j \<le> length cs. 16 \<le> length (concat (take j cs)) \<longrightarrow> (length (concat (take j cs)) - 16) mod (n + 32) \<notin> {1, 2, 3})"
    unfolding start(2) by (simp only: list.map append.simps good_stream_cuts_def cuts_lengths) blast
  then show ?thesis
    using decrypt_from_header [OF assms(1-4) start(1) _ tight, of r p] assms(5) start(2) pend by (simp add: decryptStream_def)
qed


definition demo_gcm :: "unit gcm" where
  "demo_gcm = \<lparr>gcm_encrypt = (\<lambda>k iv aad p. p @ replicate 16 0), gcm_decrypt = (\<lambda>k iv aad c. Some (take (length c - 16) c))\<rparr>"

lemma demo_gcm_ok: "gcm_ok demo_gcm ()"
  by (simp add: gcm_ok_def demo_gcm_def)

lemma demo_length:
  assumes "encryptStream demo_gcm () (\<lambda>i. replicate 12 0) 4 [wholeView [1, 2], wholeView [3, 4, 5]] = Some (Inr out)"
  shows "length (concat out) = 85"
proof -
  let ?ivs = "\<lambda>i :: nat. replicate 12 (0 :: byte)"
  have "concat out = buildHeader 4 @ frames demo_gcm () ?ivs 4 0 [1, 2, 3, 4, 5]"
    using encryptStream_frames [of 4 "[wholeView [1, 2], wholeView [3, 4, 5]]" demo_gcm "()" ?ivs] assms by simp
  moreover have "length (frames demo_gcm () ?ivs 4 0 [1, 2, 3, 4, 5]) = 69"
    by (simp add: frames.simps length_encryptChunk [OF demo_gcm_ok])
  ultimately show ?thesis by (simp add: length_buildHeader)
qed


text \<open>
  C15. A stream that was cut off is not accepted: for every proper prefix of the output of the encryption, cut into chunks in any way,
  decryption ends with an exception.
\<close>

theorem streaming_truncation_detected:
  assumes "gcm_ok g key" "\<forall>i. length (ivs i) = 12" "0 < n" "n \<le> 16 * 1024 * 1024" "\<forall>v \<in> set plain. wf_view v"
  shows "\<exists>out. encryptStream g key ivs n plain = Some (Inr out) \<and>
    (\<forall>cs r. concat cs @ r = concat out \<and> r \<noteq> [] \<and> (\<forall>c \<in> set cs. c \<noteq> []) \<longrightarrow> (\<exists>e. decryptStream g key (map wholeView cs) = Inl e))"
proof -
  obtain out where out: "encryptStream g key ivs n plain = Some (Inr out)" "concat out = buildHeader n @ frames g key ivs n 0 (pend plain)"
    using encryptStream_frames [OF assms(3,5), where g = g and key = key and ivs = ivs] by blast
  have "\<exists>e. decryptStream g key (map wholeView cs) = Inl e" if "concat cs @ r = concat out" "r \<noteq> []" "\<forall>c \<in> set cs. c \<noteq> []" for cs r
    using decryptStream_outcome [OF assms(1-4), of cs r "pend plain"] that out(2) by simp
  then show ?thesis using out(1) by blast
qed

theorem streaming_truncation_detected_witness:
  "\<exists>out e. encryptStream demo_gcm () (\<lambda>i. replicate 12 0) 4 [wholeView [1, 2], wholeView [3, 4, 5]] = Some (Inr out) \<and>
    decryptStream demo_gcm () (map wholeView [butlast (concat out)]) = Inl e"
proof -
  let ?ivs = "\<lambda>i :: nat. replicate 12 (0 :: byte)" and ?plain = "[wholeView [1, 2], wholeView [3, 4, 5]]"
  have "\<forall>v \<in> set ?plain. wf_view v" by simp
  from streaming_truncation_detected [OF demo_gcm_ok, of ?ivs 4 ?plain, OF _ _ _ this]
  obtain out where out: "encryptStream demo_gcm () ?ivs 4 ?plain = Some (Inr out)"
    and err: "\<forall>cs r. concat cs @ r = concat out \<and> r \<noteq> [] \<and> (\<forall>c \<in> set cs. c \<noteq> []) \<longrightarrow> (\<exists>e. decryptStream demo_gcm () (map wholeView cs) = Inl e)"
    by auto
  define c where "c = concat out"
  have "length c = 85" using demo_length [OF out] by (simp add: c_def)
  then have len: "length (butlast c) = 84" by simp
  then have "c \<noteq> []" by (cases c) simp_all
  then have "concat [butlast c] @ [last c] = c" by simp
  moreover have "butlast c \<noteq> []" using len by (metis list.size(3) zero_neq_numeral)
  ultimately have "\<exists>e. decryptStream demo_gcm () (map wholeView [butlast c]) = Inl e"
    using spec [OF spec [OF err, of "[butlast c]"], of "[last c]"] by (simp add: c_def)
  with out show ?thesis unfolding c_def by blast
qed

end
