(* ===== verification/Gateway_Race.thy ===== *)
theory Gateway_Race
  imports GF256 JS_Text
begin

text \<open>
  Downloads from several gateways, \<^verbatim>\<open>services/ipfsGateway.ts\<close>: the requests of a call race each other, and a circuit
  breaker per gateway keeps failing gateways out of later races.

  The client is a state machine over its calls and circuits. A request ends in an event of its own, in any order, with any answer;
  the event says whether the timer of the request had fired. Times are numbers given with the events. The parser for addresses
  of the platform is a parameter that yields the path, or nothing when it throws.
\<close>

section \<open>Addresses\<close>

definition lowerChar :: "char \<Rightarrow> char" where
  "lowerChar c = (let n = of_char c :: nat in
     if 65 \<le> n \<and> n \<le> 90 \<or> 192 \<le> n \<and> n \<le> 222 \<and> n \<noteq> 215 then char_of (n + 32) else c)"

definition toLowerCase :: "string \<Rightarrow> string" where
  "toLowerCase s = map lowerChar s"

definition stripSlashes :: "string \<Rightarrow> string" where
  "stripSlashes s = dropWhile (\<lambda>c. c = CHR ''/'') s"

text \<open>What follows the first occurrence of a text.\<close>

fun afterFirst :: "string \<Rightarrow> string \<Rightarrow> string option" where
  "afterFirst p [] = (if p = [] then Some [] else None)"
| "afterFirst p (c # cs) = (if starts_with p (c # cs) then Some (drop (length p) (c # cs)) else afterFirst p cs)"

definition isHttp :: "string \<Rightarrow> bool" where
  "isHttp s \<longleftrightarrow> starts_with ''http://'' (toLowerCase s) \<or> starts_with ''https://'' (toLowerCase s)"

definition cutQuery :: "string \<Rightarrow> string" where
  "cutQuery s = hd (split_on CHR ''#'' (hd (split_on CHR ''?'' s)))"

definition cutPrefix :: "string \<Rightarrow> string \<Rightarrow> string" where
  "cutPrefix p s = (if starts_with p (toLowerCase s) then drop (length p) s else s)"

definition normalizeIpfsCid :: "(string \<Rightarrow> string option) \<Rightarrow> string \<Rightarrow> string" where
  "normalizeIpfsCid pathname input =
     (let value = js_trim input;
          finish = (\<lambda>v. stripSlashes (cutQuery (cutPrefix ''ipfs/'' (stripSlashes v)))) in
      if value = [] then []
      else if isHttp value
      then (case pathname value of
          None \<Rightarrow> value
        | Some path \<Rightarrow> finish (case afterFirst ''/ipfs/'' path of Some rest \<Rightarrow> rest | None \<Rightarrow> stripSlashes path))
      else finish (cutPrefix ''ipfs://'' value))"

definition normalizeGatewayBase :: "string \<Rightarrow> string" where
  "normalizeGatewayBase gateway =
     (let trimmed = js_trim gateway in
      if trimmed = [] then [] else if List.last trimmed = CHR ''/'' then trimmed else trimmed @ ''/'')"

definition buildGatewayUrl :: "string \<Rightarrow> string \<Rightarrow> string" where
  "buildGatewayUrl gateway cid = normalizeGatewayBase gateway @ cid"

section \<open>The pool\<close>

definition DEFAULT_IPFS_GATEWAYS :: "string list" where
  "DEFAULT_IPFS_GATEWAYS = [''https://gateway.pinata.cloud/ipfs/'', ''https://ipfs.infura.io/ipfs/'',
     ''https://cloudflare-ipfs.com/ipfs/'', ''https://ipfs.io/ipfs/'']"

definition DEFAULT_GATEWAY_TIMEOUT_MS :: nat where "DEFAULT_GATEWAY_TIMEOUT_MS = 8000"
definition DEFAULT_CIRCUIT_COOLDOWN_MS :: nat where "DEFAULT_CIRCUIT_COOLDOWN_MS = 30000"
definition DEFAULT_FAILURE_THRESHOLD :: nat where "DEFAULT_FAILURE_THRESHOLD = 1"

definition addGateway :: "string \<Rightarrow> string set \<times> string list \<Rightarrow> string set \<times> string list" where
  "addGateway raw = (\<lambda>(seen, result).
     let gateway = normalizeGatewayBase raw; key = toLowerCase gateway in
     if gateway = [] then (seen, result)
     else if key \<in> seen then (seen, result)
     else (insert key seen, result @ [gateway]))"

definition uniqueGateways :: "string list \<Rightarrow> string list" where
  "uniqueGateways list = snd (fold addGateway list ({}, []))"

definition parseExtraGateways :: "string option \<Rightarrow> string list" where
  "parseExtraGateways raw = (case raw of
     None \<Rightarrow> []
   | Some r \<Rightarrow> if r = [] then [] else filter (\<lambda>s. s \<noteq> []) (map js_trim (split_on CHR '','' r)))"

text \<open>The two settings of the environment and what the caller passes.\<close>

record gateway_env =
  env_gateway :: "string option"
  env_fallbacks :: "string option"

definition resolveGatewayPool :: "gateway_env \<Rightarrow> string option \<Rightarrow> string list option \<Rightarrow> string list" where
  "resolveGatewayPool env primary extras =
     (let prim = (case primary of Some p \<Rightarrow> Some p | None \<Rightarrow> env_gateway env);
          ext = (case extras of Some e \<Rightarrow> e | None \<Rightarrow> parseExtraGateways (env_fallbacks env));
          first = (case prim of Some p \<Rightarrow> (if p = [] then hd DEFAULT_IPFS_GATEWAYS else p) | None \<Rightarrow> hd DEFAULT_IPFS_GATEWAYS);
          pool = uniqueGateways (first # DEFAULT_IPFS_GATEWAYS @ ext) in
      if length pool > 0 then pool else DEFAULT_IPFS_GATEWAYS)"

definition isRetryableStatus :: "nat \<Rightarrow> bool" where
  "isRetryableStatus status \<longleftrightarrow> status = 408 \<or> status = 425 \<or> status = 429 \<or> status \<ge> 500"

definition shouldTripCircuit :: "nat \<Rightarrow> bool" where
  "shouldTripCircuit status \<longleftrightarrow> isRetryableStatus status \<or> status = 401 \<or> status = 403"

text \<open>A number that is missing, not finite or not positive is replaced.\<close>

definition readPositiveNumber :: "int option \<Rightarrow> nat \<Rightarrow> nat" where
  "readPositiveNumber value fallback = (case value of Some n \<Rightarrow> if n > 0 then nat n else fallback | None \<Rightarrow> fallback)"

record gateway_options =
  o_gateways :: "string list option"
  o_primary :: "string option"
  o_extras :: "string list option"
  o_timeoutMs :: "int option"
  o_cooldownMs :: "int option"
  o_failureThreshold :: "int option"

record gateway_config =
  gateways :: "string list"
  timeoutMs :: nat
  cooldownMs :: nat
  failureThreshold :: nat

definition createIpfsGatewayClient :: "gateway_env \<Rightarrow> gateway_options \<Rightarrow> gateway_config" where
  "createIpfsGatewayClient env opts =
     (let pool = uniqueGateways (case o_gateways opts of Some g \<Rightarrow> g | None \<Rightarrow> resolveGatewayPool env (o_primary opts) (o_extras opts)) in
      \<lparr>gateways = (if length pool > 0 then pool else DEFAULT_IPFS_GATEWAYS),
       timeoutMs = readPositiveNumber (o_timeoutMs opts) DEFAULT_GATEWAY_TIMEOUT_MS,
       cooldownMs = readPositiveNumber (o_cooldownMs opts) DEFAULT_CIRCUIT_COOLDOWN_MS,
       failureThreshold = readPositiveNumber (o_failureThreshold opts) DEFAULT_FAILURE_THRESHOLD\<rparr>)"

section \<open>Circuits\<close>

record circuit =
  consecutiveFailures :: nat
  openedUntil :: nat

type_synonym circuits = "string \<Rightarrow> circuit option"

datatype circuit_state = Closed | Open | HalfOpen

definition getRecord :: "circuits \<Rightarrow> string \<Rightarrow> circuit" where
  "getRecord m gateway = (case m gateway of Some r \<Rightarrow> r | None \<Rightarrow> \<lparr>consecutiveFailures = 0, openedUntil = 0\<rparr>)"

definition isCircuitOpen :: "circuits \<Rightarrow> string \<Rightarrow> nat \<Rightarrow> bool" where
  "isCircuitOpen m gateway timestamp \<longleftrightarrow> openedUntil (getRecord m gateway) > timestamp"

definition selectGateways :: "gateway_config \<Rightarrow> circuits \<Rightarrow> nat \<Rightarrow> string list" where
  "selectGateways cfg m timestamp =
     (let healthy = filter (\<lambda>g. \<not> isCircuitOpen m g timestamp) (gateways cfg) in
      if length healthy > 0 then healthy else gateways cfg)"

definition recordSuccess :: "string \<Rightarrow> circuits \<Rightarrow> circuits" where
  "recordSuccess gateway m = m(gateway \<mapsto> \<lparr>consecutiveFailures = 0, openedUntil = 0\<rparr>)"

definition recordFailure :: "gateway_config \<Rightarrow> string \<Rightarrow> nat \<Rightarrow> circuits \<Rightarrow> circuits" where
  "recordFailure cfg gateway timestamp m =
     (let r = getRecord m gateway; n = consecutiveFailures r + 1 in
      m(gateway \<mapsto> \<lparr>consecutiveFailures = n,
        openedUntil = (if n \<ge> failureThreshold cfg then timestamp + cooldownMs cfg else openedUntil r)\<rparr>))"

definition getURL :: "(string \<Rightarrow> string option) \<Rightarrow> gateway_config \<Rightarrow> string \<Rightarrow> string" where
  "getURL pathname cfg hash = buildGatewayUrl (hd (gateways cfg)) (normalizeIpfsCid pathname hash)"

definition getCircuitState :: "circuits \<Rightarrow> nat \<Rightarrow> string \<Rightarrow> circuit_state" where
  "getCircuitState m timestamp gateway =
     (let base = normalizeGatewayBase gateway; r = getRecord m (if base = [] then gateway else base) in
      if openedUntil r > timestamp then Open
      else if openedUntil r > 0 \<and> consecutiveFailures r > 0 then HalfOpen else Closed)"

section \<open>One request\<close>

record response =
  rs_status :: nat
  rs_body :: "byte list"

definition rs_ok :: "response \<Rightarrow> bool" where
  "rs_ok r \<longleftrightarrow> 200 \<le> rs_status r \<and> rs_status r \<le> 299"

text \<open>How the promise of \<^verbatim>\<open>fetch\<close> settles; a rejection carries the text of the error.\<close>

datatype fetch_outcome = Responded response | Rejected string

datatype fetch_result = FetchOk response | FetchFail string bool

definition fetchOne :: "bool \<Rightarrow> bool \<Rightarrow> bool \<Rightarrow> fetch_outcome \<Rightarrow> fetch_result" where
  "fetchOne abortedBefore timedOut aborted outcome =
     (if abortedBefore then FetchFail ''aborted'' False
      else case outcome of
        Responded r \<Rightarrow> if rs_ok r then FetchOk r else FetchFail (''HTTP '' @ js_num (rs_status r)) (shouldTripCircuit (rs_status r))
      | Rejected message \<Rightarrow>
          if timedOut \<and> \<not> aborted then FetchFail ''timeout'' True
          else if aborted then FetchFail ''aborted'' False
          else FetchFail (if message = [] then ''network error'' else message) True)"

section \<open>Calls\<close>

datatype gateway_error = CidRequired | SignalReason string | OperationAborted | IpfsGatewayFetchError string "string list"

text \<open>
  A call of \<^verbatim>\<open>fetchFile\<close>. \<open>inFlight\<close> are the gateways whose requests have not ended, \<open>parentAborted\<close> is the signal that all
  requests of the call follow, \<open>timedOut\<close> the gateways whose own timer fired.
\<close>

record gateway_call =
  callCid :: string
  candidates :: "string list"
  inFlight :: "string list"
  timedOut :: "string list"
  failures :: "string list"
  pending :: nat
  settled :: bool
  parentAborted :: bool
  outcome :: "(gateway_error + string \<times> response) option"

datatype abort_signal = NoSignal | LiveSignal | AbortedSignal "string option"

definition startCall :: "(string \<Rightarrow> string option) \<Rightarrow> gateway_config \<Rightarrow> circuits \<Rightarrow> nat \<Rightarrow> string \<Rightarrow> abort_signal \<Rightarrow> gateway_error + gateway_call" where
  "startCall pathname cfg m now hash sig =
     (let cid = normalizeIpfsCid pathname hash in
      if cid = [] then Inl CidRequired
      else case sig of
        AbortedSignal (Some reason) \<Rightarrow> Inl (SignalReason reason)
      | AbortedSignal None \<Rightarrow> Inl OperationAborted
      | _ \<Rightarrow> let gs = selectGateways cfg m now in
          Inr \<lparr>callCid = cid, candidates = gs, inFlight = gs, timedOut = [], failures = [], pending = length gs,
            settled = False, parentAborted = False, outcome = None\<rparr>)"

definition failOne :: "gateway_config \<Rightarrow> nat \<Rightarrow> string \<Rightarrow> string \<Rightarrow> bool \<Rightarrow> circuits \<times> gateway_call \<Rightarrow> circuits \<times> gateway_call" where
  "failOne cfg now gateway detail trip = (\<lambda>(m, c).
     if settled c then (m, c)
     else let c1 = c\<lparr>failures := failures c @ [gateway @ '' -> '' @ detail], pending := pending c - 1\<rparr>;
              m1 = (if trip then recordFailure cfg gateway now m else m) in
       if pending c1 = 0
       then (m1, c1\<lparr>settled := True, outcome := Some (Inl (IpfsGatewayFetchError (callCid c1) (failures c1)))\<rparr>)
       else (m1, c1))"

definition onResult :: "gateway_config \<Rightarrow> nat \<Rightarrow> string \<Rightarrow> fetch_result \<Rightarrow> circuits \<times> gateway_call \<Rightarrow> circuits \<times> gateway_call" where
  "onResult cfg now gateway result = (\<lambda>(m, c).
     if settled c then (m, c)
     else case result of
       FetchOk r \<Rightarrow> (recordSuccess gateway m, c\<lparr>settled := True, parentAborted := True, outcome := Some (Inr (gateway, r))\<rparr>)
     | FetchFail detail trip \<Rightarrow> failOne cfg now gateway detail trip (m, c))"

text \<open>A request of the call ends; a request that is not in flight cannot end.\<close>

definition finishRequest :: "gateway_config \<Rightarrow> nat \<Rightarrow> string \<Rightarrow> bool \<Rightarrow> fetch_outcome \<Rightarrow> circuits \<times> gateway_call \<Rightarrow> circuits \<times> gateway_call" where
  "finishRequest cfg now gateway timer out = (\<lambda>(m, c).
     if gateway \<notin> set (inFlight c) then (m, c)
     else onResult cfg now gateway (fetchOne False timer (parentAborted c) out)
       (m, c\<lparr>inFlight := remove1 gateway (inFlight c), timedOut := (if timer then gateway # timedOut c else timedOut c)\<rparr>))"

text \<open>The signal of the caller is aborted while the call listens to it, that is until the call has settled.\<close>

definition onExternalAbort :: "gateway_call \<Rightarrow> gateway_call" where
  "onExternalAbort c = (if settled c then c else c\<lparr>parentAborted := True, settled := True, outcome := Some (Inl OperationAborted)\<rparr>)"

text \<open>The signal handed to the request for a gateway, \<^verbatim>\<open>combineAbortSignals\<close> of the parent and the timer.\<close>

definition combinedAborted :: "gateway_call \<Rightarrow> string \<Rightarrow> bool" where
  "combinedAborted c gateway \<longleftrightarrow> parentAborted c \<or> gateway \<in> set (timedOut c)"

section \<open>The client\<close>

record gateway_client =
  circuitMap :: circuits
  calls :: "gateway_call list"

datatype gateway_event =
    Fetch nat string abort_signal
  | Finish nat nat string bool fetch_outcome
  | ExternalAbort nat
  | ResetCircuits

definition newClient :: gateway_client where
  "newClient = \<lparr>circuitMap = (\<lambda>_. None), calls = []\<rparr>"

fun gatewayStep :: "(string \<Rightarrow> string option) \<Rightarrow> gateway_config \<Rightarrow> gateway_event \<Rightarrow> gateway_client \<Rightarrow> gateway_client" where
  "gatewayStep pathname cfg (Fetch now hash sig) s =
     (case startCall pathname cfg (circuitMap s) now hash sig of Inl e \<Rightarrow> s | Inr c \<Rightarrow> s\<lparr>calls := calls s @ [c]\<rparr>)"
| "gatewayStep pathname cfg (Finish now k gateway timer out) s =
     (if k < length (calls s)
      then let (m, c) = finishRequest cfg now gateway timer out (circuitMap s, calls s ! k) in s\<lparr>circuitMap := m, calls := (calls s)[k := c]\<rparr>
      else s)"
| "gatewayStep pathname cfg (ExternalAbort k) s =
     (if k < length (calls s) then s\<lparr>calls := (calls s)[k := onExternalAbort (calls s ! k)]\<rparr> else s)"
| "gatewayStep pathname cfg ResetCircuits s = s\<lparr>circuitMap := (\<lambda>_. None)\<rparr>"

definition gatewayRun :: "(string \<Rightarrow> string option) \<Rightarrow> gateway_config \<Rightarrow> gateway_event list \<Rightarrow> gateway_client \<Rightarrow> gateway_client" where
  "gatewayRun pathname cfg es s = fold (gatewayStep pathname cfg) es s"


section \<open>Facts about the pool\<close>

lemma js_trim_fixed: "s \<noteq> [] \<Longrightarrow> \<not> is_space (hd s) \<Longrightarrow> \<not> is_space (List.last s) \<Longrightarrow> js_trim s = s"
proof -
  assume "s \<noteq> []" "\<not> is_space (hd s)" "\<not> is_space (List.last s)"
  then have "dropWhile is_space s = s" "dropWhile is_space (rev s) = rev s"
    by (simp_all add: dropWhile_eq_self_iff hd_rev)
  then show ?thesis by (simp add: js_trim_def)
qed

lemma js_trim_ends:
  assumes "js_trim s \<noteq> []"
  shows "\<not> is_space (hd (js_trim s))" "\<not> is_space (List.last (js_trim s))"
proof -
  define t where "t = dropWhile is_space s"
  have t: "t \<noteq> []" using assms unfolding js_trim_def t_def by (metis dropWhile.simps(1) rev.simps(1))
  then have "\<not> is_space (hd t)" unfolding t_def by (meson dropWhile_eq_Nil_conv hd_dropWhile)
  have j: "js_trim s = rev (dropWhile is_space (rev t))" by (simp add: js_trim_def t_def)
  have ne: "dropWhile is_space (rev t) \<noteq> []" using assms j by simp
  then have "\<not> is_space (hd (dropWhile is_space (rev t)))" by (meson dropWhile_eq_Nil_conv hd_dropWhile)
  then show "\<not> is_space (List.last (js_trim s))" using j ne by (simp add: last_rev)
  obtain u where u: "rev t = u @ dropWhile is_space (rev t)" by (metis takeWhile_dropWhile_id)
  then have "t = rev (dropWhile is_space (rev t)) @ rev u" by (metis rev_append rev_rev_ident)
  then have "hd t = hd (js_trim s)" using j ne by (metis hd_append2 rev_is_Nil_conv)
  then show "\<not> is_space (hd (js_trim s))" using \<open>\<not> is_space (hd t)\<close> by simp
qed

lemma normalizeGatewayBase_idem [simp]: "normalizeGatewayBase (normalizeGatewayBase g) = normalizeGatewayBase g"
proof (cases "js_trim g = []")
  case False
  define n where "n = normalizeGatewayBase g"
  have n: "n = (if List.last (js_trim g) = CHR ''/'' then js_trim g else js_trim g @ ''/'')"
    using False by (simp add: n_def normalizeGatewayBase_def)
  then have l: "n \<noteq> []" "hd n = hd (js_trim g)" "List.last n = CHR ''/''" using False by auto
  then have "js_trim n = n" using js_trim_ends [OF False] by (intro js_trim_fixed) (auto simp: is_space_def)
  then show ?thesis using l by (simp add: normalizeGatewayBase_def [of n] n_def [symmetric])
qed (simp add: normalizeGatewayBase_def js_trim_def)

definition pool_inv :: "string list \<Rightarrow> string set \<times> string list \<Rightarrow> bool" where
  "pool_inv raws p \<longleftrightarrow> fst p = toLowerCase ` set (snd p) \<and> distinct (map toLowerCase (snd p)) \<and>
     (\<forall>g \<in> set (snd p). g \<noteq> [] \<and> (\<exists>raw \<in> set raws. g = normalizeGatewayBase raw)) \<and>
     (\<forall>raw \<in> set raws. normalizeGatewayBase raw \<noteq> [] \<longrightarrow> toLowerCase (normalizeGatewayBase raw) \<in> fst p)"

lemma addGateway_inv: "pool_inv raws p \<Longrightarrow> pool_inv (raws @ [raw]) (addGateway raw p)"
  by (auto simp: pool_inv_def addGateway_def Let_def split: prod.splits)

lemma fold_addGateway_inv: "pool_inv raws p \<Longrightarrow> pool_inv (raws @ rs) (fold addGateway rs p)"
proof (induction rs arbitrary: raws p)
  case (Cons r rs)
  then show ?case using Cons.IH [of "raws @ [r]" "addGateway r p"] addGateway_inv by simp
qed simp

lemma uniqueGateways_inv: "pool_inv raws (fold addGateway raws ({}, []))"
proof -
  have "pool_inv [] ({}, [])" by (simp add: pool_inv_def)
  from fold_addGateway_inv [OF this, of raws] show ?thesis by simp
qed

theorem uniqueGateways_correct:
  "distinct (map toLowerCase (uniqueGateways raws)) \<and>
   (\<forall>g \<in> set (uniqueGateways raws). normalizeGatewayBase g = g \<and> g \<noteq> []) \<and>
   toLowerCase ` set (uniqueGateways raws) = toLowerCase ` {g \<in> normalizeGatewayBase ` set raws. g \<noteq> []}"
proof -
  have i: "pool_inv raws (fold addGateway raws ({}, []))" by (rule uniqueGateways_inv)
  let ?p = "fold addGateway raws ({}, [])"
  have a: "\<forall>g \<in> set (snd ?p). normalizeGatewayBase g = g \<and> g \<noteq> []" using i by (auto simp: pool_inv_def)
  have b: "toLowerCase ` set (snd ?p) = toLowerCase ` {g \<in> normalizeGatewayBase ` set raws. g \<noteq> []}"
  proof
    show "toLowerCase ` set (snd ?p) \<subseteq> toLowerCase ` {g \<in> normalizeGatewayBase ` set raws. g \<noteq> []}"
      using i unfolding pool_inv_def by blast
    show "toLowerCase ` {g \<in> normalizeGatewayBase ` set raws. g \<noteq> []} \<subseteq> toLowerCase ` set (snd ?p)"
      using i unfolding pool_inv_def by auto
  qed
  show ?thesis using i a b by (simp add: pool_inv_def uniqueGateways_def)
qed

definition config_ok :: "gateway_config \<Rightarrow> bool" where
  "config_ok cfg \<longleftrightarrow> gateways cfg \<noteq> [] \<and> distinct (gateways cfg) \<and> (\<forall>g \<in> set (gateways cfg). normalizeGatewayBase g = g) \<and>
     0 < cooldownMs cfg \<and> 0 < failureThreshold cfg \<and> 0 < timeoutMs cfg"

lemma default_gateways_normal: "distinct DEFAULT_IPFS_GATEWAYS" "\<forall>g \<in> set DEFAULT_IPFS_GATEWAYS. normalizeGatewayBase g = g"
  by (simp_all add: DEFAULT_IPFS_GATEWAYS_def normalizeGatewayBase_def js_trim_def is_space_def)

lemma readPositiveNumber_pos: "0 < fallback \<Longrightarrow> 0 < readPositiveNumber v fallback"
  by (simp add: readPositiveNumber_def split: option.split)

theorem created_client_ok: "config_ok (createIpfsGatewayClient env opts)"
proof -
  have "0 < DEFAULT_GATEWAY_TIMEOUT_MS" "0 < DEFAULT_CIRCUIT_COOLDOWN_MS" "0 < DEFAULT_FAILURE_THRESHOLD"
    by (simp_all add: DEFAULT_GATEWAY_TIMEOUT_MS_def DEFAULT_CIRCUIT_COOLDOWN_MS_def DEFAULT_FAILURE_THRESHOLD_def)
  moreover have "DEFAULT_IPFS_GATEWAYS \<noteq> []" by (simp add: DEFAULT_IPFS_GATEWAYS_def)
  moreover have "distinct (uniqueGateways raws)" "\<forall>g \<in> set (uniqueGateways raws). normalizeGatewayBase g = g" for raws
    using uniqueGateways_correct [of raws] by (simp_all add: distinct_map)
  ultimately show ?thesis
    using default_gateways_normal by (simp add: config_ok_def createIpfsGatewayClient_def Let_def readPositiveNumber_pos)
qed

lemma buildGatewayUrl_pool: "config_ok cfg \<Longrightarrow> g \<in> set (gateways cfg) \<Longrightarrow> buildGatewayUrl g cid = g @ cid"
  by (simp add: config_ok_def buildGatewayUrl_def)


section \<open>The race\<close>

text \<open>Every call has requests in flight until it settles, and it settles once.\<close>

definition call_inv :: "gateway_config \<Rightarrow> gateway_call \<Rightarrow> bool" where
  "call_inv cfg c \<longleftrightarrow> distinct (candidates c) \<and> set (candidates c) \<subseteq> set (gateways cfg) \<and> distinct (inFlight c) \<and> set (inFlight c) \<subseteq> set (candidates c) \<and>
     (settled c \<longleftrightarrow> outcome c \<noteq> None) \<and> (parentAborted c \<longrightarrow> settled c) \<and>
     (\<not> settled c \<longrightarrow> pending c = length (inFlight c) \<and> 0 < pending c \<and> length (failures c) + pending c = length (candidates c)) \<and>
     (\<forall>e. outcome c = Some (Inl e) \<longrightarrow> e = OperationAborted \<or>
        (inFlight c = [] \<and> e = IpfsGatewayFetchError (callCid c) (failures c) \<and> length (failures c) = length (candidates c))) \<and>
     (\<forall>g r. outcome c = Some (Inr (g, r)) \<longrightarrow> rs_ok r \<and> g \<in> set (candidates c) \<and> parentAborted c)"

lemma selectGateways_ok:
  assumes "config_ok cfg"
  shows "selectGateways cfg m t \<noteq> []" "distinct (selectGateways cfg m t)" "set (selectGateways cfg m t) \<subseteq> set (gateways cfg)"
  using assms by (auto simp: selectGateways_def Let_def config_ok_def)

lemma startCall_inv: "config_ok cfg \<Longrightarrow> startCall pathname cfg m now hash sig = Inr c \<Longrightarrow> call_inv cfg c"
  using selectGateways_ok [of cfg m now]
  by (auto simp: startCall_def Let_def call_inv_def split: if_splits abort_signal.splits option.splits)

lemma finishRequest_inv:
  assumes "call_inv cfg c"
  shows "call_inv cfg (snd (finishRequest cfg now g timer out (m, c)))"
proof (cases "g \<in> set (inFlight c) \<and> \<not> settled c")
  case False
  then show ?thesis using assms
    by (auto simp: finishRequest_def onResult_def call_inv_def Let_def dest: notin_set_remove1 set_mp [OF set_remove1_subset])
next
  case True
  then have "length (remove1 g (inFlight c)) = length (inFlight c) - 1" "0 < length (inFlight c)"
    by (auto simp: length_remove1)
  moreover have "set (remove1 g (inFlight c)) \<subseteq> set (candidates c)"
    using assms set_remove1_subset [of g "inFlight c"] by (auto simp: call_inv_def)
  moreover have "fetchOne False timer (parentAborted c) out = FetchOk r \<Longrightarrow> rs_ok r" for r
    by (auto simp: fetchOne_def split: fetch_outcome.splits if_splits)
  ultimately show ?thesis using assms True
    by (cases "fetchOne False timer (parentAborted c) out")
      (auto simp: finishRequest_def onResult_def failOne_def call_inv_def Let_def)
qed

lemma onExternalAbort_inv: "call_inv cfg c \<Longrightarrow> call_inv cfg (onExternalAbort c)"
  by (auto simp: onExternalAbort_def call_inv_def)

lemma all_update: "x \<in> set (xs[k := y]) \<Longrightarrow> \<forall>x \<in> set xs. P x \<Longrightarrow> P y \<Longrightarrow> P x"
  using set_update_subset_insert [of xs k y] by auto

lemma gatewayStep_inv:
  assumes "config_ok cfg" "\<forall>c \<in> set (calls s). call_inv cfg c"
  shows "\<forall>c \<in> set (calls (gatewayStep pathname cfg e s)). call_inv cfg c"
proof (cases e)
  case (Fetch now hash sig)
  then show ?thesis using assms startCall_inv [OF assms(1)] by (auto split: sum.splits)
next
  case (Finish now k g timer out)
  have "call_inv cfg (snd (finishRequest cfg now g timer out (circuitMap s, calls s ! k)))" if "k < length (calls s)"
    using assms(2) that by (intro finishRequest_inv) simp
  then show ?thesis using Finish assms(2) by (auto simp: Let_def split: prod.splits elim!: all_update)
next
  case (ExternalAbort k)
  then show ?thesis using assms(2) onExternalAbort_inv [of cfg "calls s ! k"] by (auto elim!: all_update)
qed (use assms in auto)

lemma gatewayRun_inv:
  "config_ok cfg \<Longrightarrow> \<forall>c \<in> set (calls s). call_inv cfg c \<Longrightarrow> \<forall>c \<in> set (calls (gatewayRun pathname cfg es s)). call_inv cfg c"
proof (induction es arbitrary: s)
  case (Cons e es)
  from Cons.IH [OF Cons.prems(1) gatewayStep_inv [OF Cons.prems]] show ?case by (simp add: gatewayRun_def)
qed (simp add: gatewayRun_def)

lemma reachable_calls:
  "config_ok cfg \<Longrightarrow> c \<in> set (calls (gatewayRun pathname cfg es newClient)) \<Longrightarrow> call_inv cfg c"
  using gatewayRun_inv [of cfg newClient] by (simp add: newClient_def)


text \<open>
  What a call must deliver for the answers of its gateways, in the order of their arrival: the first response that is good, and when
  there is none an error that lists every failure.
\<close>

fun winners :: "(string \<times> fetch_result) list \<Rightarrow> (string \<times> response) list" where
  "winners [] = []"
| "winners ((g, FetchOk r) # as) = (g, r) # winners as"
| "winners ((g, FetchFail d t) # as) = winners as"

fun failureLine :: "string \<times> fetch_result \<Rightarrow> string" where
  "failureLine (g, FetchFail d t) = g @ '' -> '' @ d"
| "failureLine (g, FetchOk r) = []"

definition raceVerdict :: "string \<Rightarrow> (string \<times> fetch_result) list \<Rightarrow> gateway_error + string \<times> response" where
  "raceVerdict cid answers = (case winners answers of
     w # _ \<Rightarrow> Inr w
   | [] \<Rightarrow> Inl (IpfsGatewayFetchError cid (map failureLine answers)))"

text \<open>The answers that a sequence of events brings for one call.\<close>

fun answersOf :: "nat \<Rightarrow> gateway_event list \<Rightarrow> (string \<times> fetch_result) list" where
  "answersOf k [] = []"
| "answersOf k (Finish now j g timer out # es) = (if j = k then [(g, fetchOne False timer False out)] else []) @ answersOf k es"
| "answersOf k (Fetch now hash sig # es) = answersOf k es"
| "answersOf k (ExternalAbort j # es) = answersOf k es"
| "answersOf k (ResetCircuits # es) = answersOf k es"

definition effectOn :: "gateway_config \<Rightarrow> nat \<Rightarrow> gateway_event \<Rightarrow> gateway_call \<Rightarrow> gateway_call" where
  "effectOn cfg k e c = (case e of
     Finish now j g timer out \<Rightarrow> if j = k then snd (finishRequest cfg now g timer out (\<lambda>_. None, c)) else c
   | ExternalAbort j \<Rightarrow> if j = k then onExternalAbort c else c
   | _ \<Rightarrow> c)"

lemma finishRequest_circuits_irrelevant:
  "snd (finishRequest cfg now g timer out (m, c)) = snd (finishRequest cfg now g timer out (m', c))"
  by (simp add: finishRequest_def onResult_def failOne_def Let_def split: fetch_result.split)

lemma gatewayStep_call:
  assumes "k < length (calls s)"
  shows "k < length (calls (gatewayStep pathname cfg e s))" "calls (gatewayStep pathname cfg e s) ! k = effectOn cfg k e (calls s ! k)"
proof -
  have f: "finishRequest cfg now g timer out (circuitMap s, calls s ! j) = (x, y) \<Longrightarrow>
    y = snd (finishRequest cfg now g timer out (\<lambda>_. None, calls s ! j))" for now g timer out j x y
    by (metis finishRequest_circuits_irrelevant snd_conv)
  show "k < length (calls (gatewayStep pathname cfg e s))"
    using assms by (cases e) (auto simp: Let_def split: sum.split prod.split)
  show "calls (gatewayStep pathname cfg e s) ! k = effectOn cfg k e (calls s ! k)"
    using assms by (cases e) (auto simp: effectOn_def Let_def nth_append nth_list_update f split: sum.split prod.split)
qed

lemma gatewayRun_call:
  "k < length (calls s) \<Longrightarrow> k < length (calls (gatewayRun pathname cfg es s)) \<and>
     calls (gatewayRun pathname cfg es s) ! k = fold (effectOn cfg k) es (calls s ! k)"
proof (induction es arbitrary: s)
  case (Cons e es)
  from Cons.IH [OF gatewayStep_call(1) [OF Cons.prems]] gatewayStep_call(2) [OF Cons.prems]
  show ?case by (simp add: gatewayRun_def)
qed (simp add: gatewayRun_def)

lemma effectOn_settled: "settled c \<Longrightarrow> settled (effectOn cfg k e c) \<and> outcome (effectOn cfg k e c) = outcome c"
  by (auto simp: effectOn_def onExternalAbort_def finishRequest_def onResult_def split: gateway_event.split)

lemma effects_settled: "settled c \<Longrightarrow> outcome (fold (effectOn cfg k) es c) = outcome c"
  by (induction es arbitrary: c) (simp_all add: effectOn_settled)

lemma effects_verdict:
  assumes "call_inv cfg c" "\<not> settled c" "ExternalAbort k \<notin> set es"
    "distinct (map fst (answersOf k es))" "set (map fst (answersOf k es)) = set (inFlight c)"
  shows "outcome (fold (effectOn cfg k) es c) = Some (case winners (answersOf k es) of
     w # _ \<Rightarrow> Inr w | [] \<Rightarrow> Inl (IpfsGatewayFetchError (callCid c) (failures c @ map failureLine (answersOf k es))))"
  using assms
proof (induction es arbitrary: c)
  case Nil
  then show ?case by (auto simp: call_inv_def)
next
  case (Cons e es)
  show ?case
  proof (cases "\<exists>now g timer out. e = Finish now k g timer out")
    case False
    then have "effectOn cfg k e c = c" "answersOf k (e # es) = answersOf k es"
      using Cons.prems(3) by (cases e; auto simp: effectOn_def)+
    then show ?thesis using Cons.IH [OF Cons.prems(1,2)] Cons.prems(3-5) by (simp split: list.split)
  next
    case True
    then obtain now g timer out where e: "e = Finish now k g timer out" by blast
    define c1 where "c1 = c\<lparr>inFlight := remove1 g (inFlight c), timedOut := (if timer then g # timedOut c else timedOut c)\<rparr>"
    have na: "\<not> parentAborted c" using Cons.prems(1,2) by (simp add: call_inv_def)
    have g: "g \<in> set (inFlight c)" using Cons.prems(5) e by auto
    have step: "effectOn cfg k e c = snd (onResult cfg now g (fetchOne False timer False out) (\<lambda>_. None, c1))"
      using e g na by (simp add: effectOn_def finishRequest_def c1_def)
    have inv: "call_inv cfg (effectOn cfg k e c)" using e finishRequest_inv [OF Cons.prems(1)] by (simp add: effectOn_def)
    show ?thesis
    proof (cases "fetchOne False timer False out")
      case (FetchOk r)
      then have "settled (effectOn cfg k e c)" "outcome (effectOn cfg k e c) = Some (Inr (g, r))"
        using step Cons.prems(2) by (simp_all add: onResult_def c1_def)
      then show ?thesis using FetchOk e effects_settled [of "effectOn cfg k e c" cfg k es] by simp
    next
      case (FetchFail d t)
      have set1: "set (map fst (answersOf k es)) = set (inFlight c1)"
        using Cons.prems(1,4,5) e FetchFail by (auto simp: c1_def call_inv_def)
      have eff: "callCid (effectOn cfg k e c) = callCid c" "failures (effectOn cfg k e c) = failures c @ [g @ '' -> '' @ d]"
        "inFlight (effectOn cfg k e c) = inFlight c1" "settled (effectOn cfg k e c) \<longleftrightarrow> pending c - 1 = 0"
        "settled (effectOn cfg k e c) \<Longrightarrow> outcome (effectOn cfg k e c) = Some (Inl (IpfsGatewayFetchError (callCid c) (failures c @ [g @ '' -> '' @ d])))"
        using step FetchFail Cons.prems(2) by (auto simp: onResult_def failOne_def c1_def Let_def)
      show ?thesis
      proof (cases "settled (effectOn cfg k e c)")
        case True
        then have "pending c = 1" using eff(4) Cons.prems(1,2) by (simp add: call_inv_def)
        then have "inFlight c1 = []" using Cons.prems(1,2) g by (cases "inFlight c") (auto simp: call_inv_def c1_def)
        then have "answersOf k es = []" using set1 by simp
        then show ?thesis using True e FetchFail eff(5) effects_settled [of "effectOn cfg k e c" cfg k es] by simp
      next
        case False
        have "outcome (fold (effectOn cfg k) es (effectOn cfg k e c)) = Some (case winners (answersOf k es) of
          w # _ \<Rightarrow> Inr w | [] \<Rightarrow> Inl (IpfsGatewayFetchError (callCid (effectOn cfg k e c))
            (failures (effectOn cfg k e c) @ map failureLine (answersOf k es))))"
          by (rule Cons.IH [OF inv False]) (use Cons.prems(3,4) e FetchFail set1 eff(3) in simp_all)
        then have "outcome (fold (effectOn cfg k) (e # es) c) = Some (case winners (answersOf k es) of
          w # _ \<Rightarrow> Inr w | [] \<Rightarrow> Inl (IpfsGatewayFetchError (callCid c) ((failures c @ [g @ '' -> '' @ d]) @ map failureLine (answersOf k es))))"
          by (simp only: eff(1,2) fold_simps)
        then show ?thesis using e FetchFail by (simp split: list.split)
      qed
    qed
  qed
qed


text \<open>
  C18. A call delivers the first good response of its gateways, and an error listing every failure in the order of arrival when there is none,
  whatever else the client does at the same time, as long as the caller does not abort it and all requests end.
\<close>

theorem gateway_race_verdict:
  assumes "cfg = createIpfsGatewayClient env opts" "s = gatewayRun pathname cfg es0 newClient" "k = length (calls s)"
    "startCall pathname cfg (circuitMap s) now hash sig = Inr c" "ExternalAbort k \<notin> set es"
    "distinct (map fst (answersOf k es))" "set (map fst (answersOf k es)) = set (candidates c)"
  shows "outcome (calls (gatewayRun pathname cfg (Fetch now hash sig # es) s) ! k) = Some (raceVerdict (callCid c) (answersOf k es))"
proof -
  define s1 where "s1 = gatewayStep pathname cfg (Fetch now hash sig) s"
  have ok: "config_ok cfg" using assms(1) created_client_ok by simp
  have s1: "k < length (calls s1)" "calls s1 ! k = c" using assms(3,4) by (simp_all add: s1_def)
  have c: "\<not> settled c" "inFlight c = candidates c" "failures c = []"
    using assms(4) by (auto simp: startCall_def Let_def split: if_splits abort_signal.splits option.splits)
  have "calls (gatewayRun pathname cfg (Fetch now hash sig # es) s) ! k = fold (effectOn cfg k) es c"
    using gatewayRun_call [OF s1(1), of pathname cfg es] s1(2) by (simp add: gatewayRun_def s1_def)
  with effects_verdict [OF startCall_inv [OF ok assms(4)] c(1) assms(5,6)] assms(7) c(2,3)
  show ?thesis by (simp add: raceVerdict_def split: list.split)
qed

definition sampleOptions :: gateway_options where
  "sampleOptions = \<lparr>o_gateways = Some [''https://a'', ''HTTPS://A/'', '' https://b/''], o_primary = None, o_extras = None,
     o_timeoutMs = None, o_cooldownMs = Some 100, o_failureThreshold = None\<rparr>"

definition sampleConfig :: gateway_config where
  "sampleConfig = createIpfsGatewayClient \<lparr>env_gateway = None, env_fallbacks = None\<rparr> sampleOptions"

lemma sampleConfig_eq: "sampleConfig = \<lparr>gateways = [''https://a/'', ''https://b/''], timeoutMs = 8000, cooldownMs = 100, failureThreshold = 1\<rparr>"
  by code_simp

theorem gateway_race_verdict_witness:
  "outcome (calls (gatewayRun (\<lambda>_. None) sampleConfig [Fetch 5 ''ipfs://Qm1'' NoSignal,
      Finish 6 0 ''https://b/'' False (Responded \<lparr>rs_status = 429, rs_body = []\<rparr>),
      Finish 7 0 ''https://a/'' False (Responded \<lparr>rs_status = 200, rs_body = [1, 2]\<rparr>)] newClient) ! 0) =
   Some (Inr (''https://a/'', \<lparr>rs_status = 200, rs_body = [1, 2]\<rparr>))"
proof -
  let ?es = "[Finish 6 0 ''https://b/'' False (Responded \<lparr>rs_status = 429, rs_body = []\<rparr>),
      Finish 7 0 ''https://a/'' False (Responded \<lparr>rs_status = 200, rs_body = [1, 2]\<rparr>)]"
  let ?c = "\<lparr>callCid = ''Qm1'', candidates = [''https://a/'', ''https://b/''], inFlight = [''https://a/'', ''https://b/''], timedOut = [],
    failures = [], pending = 2, settled = False, parentAborted = False, outcome = None\<rparr>"
  have run: "gatewayRun (\<lambda>_. None) sampleConfig [] newClient = newClient" by (simp add: gatewayRun_def)
  have cid: "normalizeIpfsCid (\<lambda>_. None) ''ipfs://Qm1'' = ''Qm1''" by code_simp
  have start: "startCall (\<lambda>_. None) sampleConfig (circuitMap newClient) 5 ''ipfs://Qm1'' NoSignal = Inr ?c"
    by (simp add: startCall_def cid selectGateways_def sampleConfig_eq newClient_def isCircuitOpen_def getRecord_def Let_def)
  have ans: "answersOf 0 ?es = [(''https://b/'', FetchFail ''HTTP 429'' True), (''https://a/'', FetchOk \<lparr>rs_status = 200, rs_body = [1, 2]\<rparr>)]"
    by (simp add: fetchOne_def rs_ok_def shouldTripCircuit_def isRetryableStatus_def js_num_def to_radix.simps digit_char_def)
  have "outcome (calls (gatewayRun (\<lambda>_. None) sampleConfig (Fetch 5 ''ipfs://Qm1'' NoSignal # ?es) newClient) ! 0) =
    Some (raceVerdict (callCid ?c) (answersOf 0 ?es))"
    by (rule gateway_race_verdict [OF sampleConfig_def run [symmetric] _ start]) (auto simp: newClient_def)
  then show ?thesis unfolding ans by (simp add: raceVerdict_def)
qed

text \<open>
  A request that wins the race is aborted: whenever a call has delivered a response, the signal of the request that the response
  comes from is aborted, so its body can no longer be read from the network.
\<close>

theorem winning_request_aborted:
  assumes "cfg = createIpfsGatewayClient env opts" "c \<in> set (calls (gatewayRun pathname cfg es newClient))" "outcome c = Some (Inr (g, r))"
  shows "combinedAborted c g \<and> rs_ok r \<and> g \<in> set (gateways cfg)"
  using reachable_calls [of cfg c pathname es] assms created_client_ok [of env opts] by (auto simp: call_inv_def combinedAborted_def)


theorem winning_request_aborted_witness:
  "combinedAborted (calls (gatewayRun (\<lambda>_. None) sampleConfig [Fetch 5 ''Qm1'' NoSignal,
     Finish 7 0 ''https://a/'' False (Responded \<lparr>rs_status = 200, rs_body = [1, 2]\<rparr>)] newClient) ! 0) ''https://a/''"
proof -
  let ?s = "gatewayRun (\<lambda>_. None) sampleConfig [Fetch 5 ''Qm1'' NoSignal,
     Finish 7 0 ''https://a/'' False (Responded \<lparr>rs_status = 200, rs_body = [1, 2]\<rparr>)] newClient"
  have cid: "normalizeIpfsCid (\<lambda>_. None) ''Qm1'' = ''Qm1''" by code_simp
  have "calls ?s = [\<lparr>callCid = ''Qm1'', candidates = [''https://a/'', ''https://b/''], inFlight = [''https://b/''], timedOut = [],
    failures = [], pending = 2, settled = True, parentAborted = True, outcome = Some (Inr (''https://a/'', \<lparr>rs_status = 200, rs_body = [1, 2]\<rparr>))\<rparr>]"
    by (simp add: gatewayRun_def startCall_def cid selectGateways_def sampleConfig_eq newClient_def isCircuitOpen_def getRecord_def Let_def
      finishRequest_def onResult_def fetchOne_def rs_ok_def)
  then show ?thesis
    using winning_request_aborted [OF sampleConfig_def, of "calls ?s ! 0" "\<lambda>_. None" "[Fetch 5 ''Qm1'' NoSignal,
     Finish 7 0 ''https://a/'' False (Responded \<lparr>rs_status = 200, rs_body = [1, 2]\<rparr>)]"] by simp
qed

section \<open>The circuit breaker\<close>

definition goodAnswer :: "string \<Rightarrow> gateway_event \<Rightarrow> bool" where
  "goodAnswer g e \<longleftrightarrow> (case e of Finish now k g' timer (Responded r) \<Rightarrow> g' = g \<and> rs_ok r | _ \<Rightarrow> False)"

fun endTime :: "gateway_event \<Rightarrow> nat option" where
  "endTime (Finish now k g timer out) = Some now"
| "endTime _ = None"

lemma getRecord_simps:
  "getRecord (recordSuccess g m) g' = (if g' = g then \<lparr>consecutiveFailures = 0, openedUntil = 0\<rparr> else getRecord m g')"
  "getRecord (recordFailure cfg g t m) g' =
     (if g' = g then \<lparr>consecutiveFailures = consecutiveFailures (getRecord m g) + 1,
        openedUntil = (if failureThreshold cfg \<le> consecutiveFailures (getRecord m g) + 1 then t + cooldownMs cfg else openedUntil (getRecord m g))\<rparr>
      else getRecord m g')"
  by (simp_all add: getRecord_def recordSuccess_def recordFailure_def Let_def)

lemma finishRequest_circuits:
  "fst (finishRequest cfg now g timer out (m, c)) \<in> {m, recordFailure cfg g now m} \<or>
   fst (finishRequest cfg now g timer out (m, c)) = recordSuccess g m \<and> (\<exists>r. out = Responded r \<and> rs_ok r)"
  by (auto simp: finishRequest_def onResult_def failOne_def fetchOne_def Let_def split: fetch_outcome.split)

lemma gatewayStep_circuits:
  "circuitMap (gatewayStep pathname cfg e s) = circuitMap s \<or> (e = ResetCircuits \<and> circuitMap (gatewayStep pathname cfg e s) = (\<lambda>_. None)) \<or>
   (\<exists>now k g timer out. e = Finish now k g timer out \<and>
      (circuitMap (gatewayStep pathname cfg e s) = recordFailure cfg g now (circuitMap s) \<or>
       circuitMap (gatewayStep pathname cfg e s) = recordSuccess g (circuitMap s) \<and> goodAnswer g e))"
proof (cases e)
  case (Finish now k g timer out)
  then show ?thesis using finishRequest_circuits [of cfg now g timer out "circuitMap s" "calls s ! k"]
    by (auto simp: Let_def goodAnswer_def split: prod.splits fetch_outcome.splits)
qed (auto split: sum.split)

text \<open>A gateway's circuit opens exactly when its failures reach the threshold.\<close>

definition circuits_inv :: "gateway_config \<Rightarrow> circuits \<Rightarrow> bool" where
  "circuits_inv cfg m \<longleftrightarrow> (\<forall>g. 0 < openedUntil (getRecord m g) \<longleftrightarrow> failureThreshold cfg \<le> consecutiveFailures (getRecord m g))"

lemma gatewayStep_circuits_inv:
  assumes "config_ok cfg" "circuits_inv cfg (circuitMap s)"
  shows "circuits_inv cfg (circuitMap (gatewayStep pathname cfg e s))"
  using gatewayStep_circuits [of pathname cfg e s] assms
  by (auto simp: circuits_inv_def getRecord_simps config_ok_def getRecord_def [of "\<lambda>_. None"] simp del: gatewayStep.simps split: if_splits)

theorem circuit_states:
  assumes "cfg = createIpfsGatewayClient env opts" "m = circuitMap (gatewayRun pathname cfg es newClient)" "g \<in> set (gateways cfg)"
  shows "getCircuitState m now g = (if now < openedUntil (getRecord m g) then Open
     else if failureThreshold cfg \<le> consecutiveFailures (getRecord m g) then HalfOpen else Closed)"
proof -
  have ok: "config_ok cfg" using assms(1) created_client_ok by simp
  have "circuits_inv cfg (circuitMap (gatewayRun pathname cfg es s))" if "circuits_inv cfg (circuitMap s)" for s
    using that unfolding gatewayRun_def
  proof (induction es arbitrary: s)
    case (Cons e es)
    from Cons.IH [OF gatewayStep_circuits_inv [OF ok Cons.prems]] show ?case by simp
  qed simp
  moreover have "circuits_inv cfg (circuitMap newClient)" using ok by (simp add: circuits_inv_def newClient_def getRecord_def config_ok_def)
  ultimately have "circuits_inv cfg m" using assms(2) by simp
  moreover have "normalizeGatewayBase g = g" using ok assms(3) by (simp add: config_ok_def)
  ultimately show ?thesis using ok by (auto simp: getCircuitState_def circuits_inv_def Let_def config_ok_def)
qed

lemma open_kept:
  assumes "until \<le> openedUntil (getRecord (circuitMap s) g)" "e \<noteq> ResetCircuits" "\<not> goodAnswer g e" "\<forall>t. endTime e = Some t \<longrightarrow> until \<le> t + cooldownMs cfg"
  shows "until \<le> openedUntil (getRecord (circuitMap (gatewayStep pathname cfg e s)) g)"
  using gatewayStep_circuits [of pathname cfg e s] assms by (auto simp: getRecord_simps)

lemma open_kept_run:
  assumes "until \<le> openedUntil (getRecord (circuitMap s) g)"
    "\<forall>e \<in> set es. e \<noteq> ResetCircuits \<and> \<not> goodAnswer g e \<and> (\<forall>t. endTime e = Some t \<longrightarrow> until \<le> t + cooldownMs cfg)"
  shows "until \<le> openedUntil (getRecord (circuitMap (gatewayRun pathname cfg es s)) g)"
  using assms unfolding gatewayRun_def
proof (induction es arbitrary: s)
  case (Cons e es)
  have "until \<le> openedUntil (getRecord (circuitMap (gatewayStep pathname cfg e s)) g)"
    using open_kept [OF Cons.prems(1), of e cfg pathname] Cons.prems(2) by simp
  then show ?case using Cons.IH Cons.prems(2) by simp
qed simp

text \<open>
  C19. A gateway whose failures reached the threshold is left alone until its cooldown is over: a later call contacts it only when the circuits
  of all gateways are open, unless it gave a good answer in between or the circuits were reset.
\<close>

theorem open_circuit_skipped:
  assumes "cfg = createIpfsGatewayClient env opts" "s = gatewayRun pathname cfg es0 newClient" "k < length (calls s)"
    "\<not> settled (calls s ! k)" "g \<in> set (inFlight (calls s ! k))" "fetchOne False timer False out = FetchFail d True"
    "failureThreshold cfg \<le> consecutiveFailures (getRecord (circuitMap s) g) + 1"
    "\<forall>e \<in> set es. e \<noteq> ResetCircuits \<and> \<not> goodAnswer g e \<and> (\<forall>t'. endTime e = Some t' \<longrightarrow> t \<le> t')" "now < t + cooldownMs cfg"
    "m = circuitMap (gatewayRun pathname cfg (Finish t k g timer out # es) s)" "startCall pathname cfg m now hash sig = Inr c" "g \<in> set (candidates c)"
  shows "\<forall>g' \<in> set (gateways cfg). isCircuitOpen m g' now"
proof -
  have ok: "config_ok cfg" using assms(1) created_client_ok by simp
  have "call_inv cfg (calls s ! k)" 
    by (rule reachable_calls [OF ok, of _ pathname es0]) (use assms(2,3) in simp)
  then have "\<not> parentAborted (calls s ! k)" using assms(4) by (auto simp: call_inv_def)
  then have "circuitMap (gatewayStep pathname cfg (Finish t k g timer out) s) = recordFailure cfg g t (circuitMap s)"
    using assms(3-6) by (simp add: finishRequest_def onResult_def failOne_def Let_def)
  then have "t + cooldownMs cfg \<le> openedUntil (getRecord (circuitMap (gatewayStep pathname cfg (Finish t k g timer out) s)) g)"
    using assms(7) by (simp only: getRecord_simps) simp
  from open_kept_run [OF this, of es cfg pathname] assms(8) have "t + cooldownMs cfg \<le> openedUntil (getRecord m g)"
    unfolding assms(10) by (simp add: gatewayRun_def)
  then have "isCircuitOpen m g now" using assms(9) by (simp add: isCircuitOpen_def)
  moreover have "candidates c = selectGateways cfg m now"
    using assms(11) by (auto simp: startCall_def Let_def split: if_splits abort_signal.splits option.splits)
  ultimately have "filter (\<lambda>g. \<not> isCircuitOpen m g now) (gateways cfg) = []"
    using assms(12) by (auto simp: selectGateways_def Let_def split: if_splits)
  then show ?thesis by (simp add: filter_empty_conv)
qed


theorem open_circuit_skipped_witness:
  "let s = gatewayRun (\<lambda>_. None) sampleConfig [Fetch 5 ''Qm1'' NoSignal] newClient;
       m = circuitMap (gatewayRun (\<lambda>_. None) sampleConfig [Finish 10 0 ''https://a/'' False (Responded \<lparr>rs_status = 429, rs_body = []\<rparr>),
         Finish 11 0 ''https://b/'' True (Rejected ''x'')] s)
   in \<forall>g' \<in> set (gateways sampleConfig). isCircuitOpen m g' 50"
proof -
  define s where "s = gatewayRun (\<lambda>_. None) sampleConfig [Fetch 5 ''Qm1'' NoSignal] newClient"
  let ?out = "Responded \<lparr>rs_status = 429, rs_body = []\<rparr>" and ?es = "[Finish 11 0 ''https://b/'' True (Rejected ''x'')]"
  define m where "m = circuitMap (gatewayRun (\<lambda>_. None) sampleConfig (Finish 10 0 ''https://a/'' False ?out # ?es) s)"
  have cid: "normalizeIpfsCid (\<lambda>_. None) ''Qm1'' = ''Qm1''" by code_simp
  have s: "s = \<lparr>circuitMap = (\<lambda>_. None), calls = [\<lparr>callCid = ''Qm1'', candidates = [''https://a/'', ''https://b/''],
    inFlight = [''https://a/'', ''https://b/''], timedOut = [], failures = [], pending = 2, settled = False, parentAborted = False, outcome = None\<rparr>]\<rparr>"
    by (simp add: s_def gatewayRun_def startCall_def cid selectGateways_def sampleConfig_eq newClient_def isCircuitOpen_def getRecord_def Let_def)
  have out: "fetchOne False False False ?out = FetchFail (''HTTP '' @ js_num 429) True"
    by (simp add: fetchOne_def rs_ok_def shouldTripCircuit_def isRetryableStatus_def)
  have m: "m = recordFailure sampleConfig ''https://b/'' 11 (recordFailure sampleConfig ''https://a/'' 10 (\<lambda>_. None))"
    by (simp add: m_def s gatewayRun_def finishRequest_def onResult_def failOne_def Let_def out) (simp add: fetchOne_def failOne_def Let_def)
  have all: "\<not> length (filter (\<lambda>g. \<not> isCircuitOpen m g 50) (gateways sampleConfig)) > 0"
    by (simp add: m sampleConfig_eq isCircuitOpen_def recordFailure_def getRecord_def Let_def)
  then have start: "\<exists>c. startCall (\<lambda>_. None) sampleConfig m 50 ''Qm1'' NoSignal = Inr c \<and> candidates c = gateways sampleConfig"
    by (simp add: startCall_def cid selectGateways_def Let_def)
  then obtain c where "startCall (\<lambda>_. None) sampleConfig m 50 ''Qm1'' NoSignal = Inr c" "candidates c = gateways sampleConfig" by blast
  then have "\<forall>g' \<in> set (gateways sampleConfig). isCircuitOpen m g' 50"
    by (intro open_circuit_skipped [OF sampleConfig_def s_def _ _ _ out _ _ _ m_def])
      (auto simp: s sampleConfig_eq goodAnswer_def getRecord_def)
  then show ?thesis by (simp add: s_def m_def Let_def)
qed

section \<open>Forms of an identifier\<close>

lemma lowerChar_separators: "lowerChar c = CHR ''/'' \<Longrightarrow> c = CHR ''/''" "lowerChar c = CHR '':'' \<Longrightarrow> c = CHR '':''"
proof -
  have "(of_char (lowerChar c) :: nat) \<ge> 97 \<or> lowerChar c = c"
    by (auto simp: lowerChar_def Let_def of_char_of)
  then show "lowerChar c = CHR ''/'' \<Longrightarrow> c = CHR ''/''" "lowerChar c = CHR '':'' \<Longrightarrow> c = CHR '':''" by auto
qed

lemma starts_with_set: "starts_with p s \<Longrightarrow> set p \<subseteq> set s"
  unfolding starts_with_def by (metis set_take_subset)

definition plainCid :: "string \<Rightarrow> bool" where
  "plainCid cid \<longleftrightarrow> cid \<noteq> [] \<and> (\<forall>c \<in> set cid. c \<notin> {CHR ''/'', CHR '':'', CHR ''?'', CHR ''#''} \<and> \<not> is_space c)"

lemma plain_strip: "plainCid cid \<Longrightarrow> stripSlashes cid = cid"
  by (cases cid) (auto simp: stripSlashes_def plainCid_def)

lemma plainCid_chars:
  assumes "plainCid cid"
  shows "CHR '':'' \<notin> set cid" "CHR ''/'' \<notin> set cid" "CHR ''?'' \<notin> set cid" "CHR ''#'' \<notin> set cid"
  using assms unfolding plainCid_def by blast+

lemma plain_query: "plainCid cid \<Longrightarrow> cutQuery cid = cid"
  by (simp add: cutQuery_def plainCid_chars)

lemma map_avoids:
  assumes "\<And>c. f c = d \<Longrightarrow> c = d" "d \<notin> set s"
  shows "d \<notin> set (map f s)"
proof
  assume "d \<in> set (map f s)"
  then obtain c where "c \<in> set s" "f c = d" by auto
  with assms(1) [of c] assms(2) show False by simp
qed

lemma plain_lower:
  assumes "plainCid cid"
  shows "CHR '':'' \<notin> set (toLowerCase cid)" "CHR ''/'' \<notin> set (toLowerCase cid)"
  unfolding toLowerCase_def
  by (rule map_avoids, erule lowerChar_separators, rule plainCid_chars [OF assms])+

lemma plain_finish: "plainCid cid \<Longrightarrow> stripSlashes (cutQuery (cutPrefix ''ipfs/'' (stripSlashes cid))) = cid"
proof -
  assume p: "plainCid cid"
  have "\<not> starts_with ''ipfs/'' (toLowerCase cid)"
    using starts_with_set [of "''ipfs/''" "toLowerCase cid"] plain_lower [OF p] by auto
  then show ?thesis using plain_strip [OF p] plain_query [OF p] by (simp add: cutPrefix_def)
qed

theorem cid_forms_agree:
  assumes "plainCid cid" "isHttp (g @ cid)" "js_trim (g @ cid) = g @ cid" "pathname (g @ cid) = Some (''/ipfs/'' @ cid)"
  shows "normalizeIpfsCid pathname cid = cid \<and> normalizeIpfsCid pathname (''ipfs://'' @ cid) = cid \<and>
    normalizeIpfsCid pathname (''/ipfs/'' @ cid) = cid \<and> normalizeIpfsCid pathname (g @ cid) = cid"
proof -
  have ne: "cid \<noteq> []" and l: "\<not> is_space (hd cid)" "\<not> is_space (List.last cid)" using assms(1) by (auto simp: plainCid_def)
  have trim: "js_trim cid = cid" "js_trim (''ipfs://'' @ cid) = ''ipfs://'' @ cid" "js_trim (''/ipfs/'' @ cid) = ''/ipfs/'' @ cid"
    using ne l by (auto intro!: js_trim_fixed simp: is_space_def)
  have noHttp: "\<not> isHttp cid" "\<not> starts_with ''ipfs://'' (toLowerCase cid)"
    using plain_lower [OF assms(1)] starts_with_set [of "''http://''" "toLowerCase cid"] starts_with_set [of "''https://''" "toLowerCase cid"]
      starts_with_set [of "''ipfs://''" "toLowerCase cid"] by (auto simp: isHttp_def)
  have "\<not> isHttp (''ipfs://'' @ cid)" "\<not> isHttp (''/ipfs/'' @ cid)"
    by (simp_all add: isHttp_def starts_with_def toLowerCase_def lowerChar_def)
  moreover have "cutPrefix ''ipfs://'' (''ipfs://'' @ cid) = cid" "cutPrefix ''ipfs://'' (''/ipfs/'' @ cid) = ''/ipfs/'' @ cid"
    "cutPrefix ''ipfs://'' cid = cid"
    using noHttp(2) by (simp_all add: cutPrefix_def starts_with_def toLowerCase_def lowerChar_def)
  moreover have "stripSlashes (cutQuery (cutPrefix ''ipfs/'' (stripSlashes (''/ipfs/'' @ cid)))) = cid"
  proof -
    have "cutPrefix ''ipfs/'' (stripSlashes (''/ipfs/'' @ cid)) = cid"
      by (simp add: stripSlashes_def cutPrefix_def starts_with_def toLowerCase_def lowerChar_def)
    then show ?thesis using plain_strip [OF assms(1)] plain_query [OF assms(1)] by simp
  qed
  moreover have "afterFirst ''/ipfs/'' (''/ipfs/'' @ cid) = Some cid" by (simp add: starts_with_def)
  ultimately show ?thesis
    using assms(2-4) ne trim noHttp(1) plain_finish [OF assms(1)] by (simp add: normalizeIpfsCid_def Let_def)
qed

end
