(* ===== verification/Sha256.thy ===== *)
theory Sha256
  imports GF256 JS_Text
begin

text \<open>
  The incremental SHA-256 of \<^verbatim>\<open>services/streamingCrypto.service.ts\<close>, which hashes streams too large to be held in
  memory, compared with the function of FIPS 180-4 on the whole message.

  The bitwise operators and sums of the code work modulo \<open>2 ^ 32\<close>, so its numbers are 32-bit words; the count of bytes is a
  number the language represents exactly. The loops that copy into the block and pad it are partial functions: a loop that does
  not end would be \<open>None\<close>.
\<close>

unbundle bit_operations_syntax

section \<open>The code\<close>

type_synonym word32 = "32 word"

definition K256 :: "word32 list" where
  "K256 = [
    0x428a2f98, 0x71374491, 0xb5c0fbcf, 0xe9b5dba5, 0x3956c25b, 0x59f111f1, 0x923f82a4,
    0xab1c5ed5, 0xd807aa98, 0x12835b01, 0x243185be, 0x550c7dc3, 0x72be5d74, 0x80deb1fe,
    0x9bdc06a7, 0xc19bf174, 0xe49b69c1, 0xefbe4786, 0x0fc19dc6, 0x240ca1cc, 0x2de92c6f,
    0x4a7484aa, 0x5cb0a9dc, 0x76f988da, 0x983e5152, 0xa831c66d, 0xb00327c8, 0xbf597fc7,
    0xc6e00bf3, 0xd5a79147, 0x06ca6351, 0x14292967, 0x27b70a85, 0x2e1b2138, 0x4d2c6dfc,
    0x53380d13, 0x650a7354, 0x766a0abb, 0x81c2c92e, 0x92722c85, 0xa2bfe8a1, 0xa81a664b,
    0xc24b8b70, 0xc76c51a3, 0xd192e819, 0xd6990624, 0xf40e3585, 0x106aa070, 0x19a4c116,
    0x1e376c08, 0x2748774c, 0x34b0bcb5, 0x391c0cb3, 0x4ed8aa4a, 0x5b9cca4f, 0x682e6ff3,
    0x748f82ee, 0x78a5636f, 0x84c87814, 0x8cc70208, 0x90befffa, 0xa4506ceb, 0xbef9a3f7,
    0xc67178f2]"

type_synonym hash_words = "word32 \<times> word32 \<times> word32 \<times> word32 \<times> word32 \<times> word32 \<times> word32 \<times> word32"

record sha_state =
  hashWords :: hash_words
  block :: "byte list"
  blockOffset :: nat
  bytesHashed :: nat

definition initialWords :: hash_words where
  "initialWords = (0x6a09e667, 0xbb67ae85, 0x3c6ef372, 0xa54ff53a, 0x510e527f, 0x9b05688c, 0x1f83d9ab, 0x5be0cd19)"

definition createSha256 :: sha_state where
  "createSha256 = \<lparr>hashWords = initialWords, block = replicate 64 0, blockOffset = 0, bytesHashed = 0\<rparr>"

definition rotr :: "word32 \<Rightarrow> nat \<Rightarrow> word32" where
  "rotr x n = drop_bit n x OR push_bit (32 - n) x"

definition firstWords :: "byte list \<Rightarrow> word32 list" where
  "firstWords blk = fold (\<lambda>i w. let j = i * 4 in
     w[i := push_bit 24 (ucast (blk ! j)) OR push_bit 16 (ucast (blk ! (j + 1))) OR push_bit 8 (ucast (blk ! (j + 2))) OR ucast (blk ! (j + 3))])
     [0..<16] (replicate 64 0)"

definition expandWords :: "word32 list \<Rightarrow> word32 list" where
  "expandWords w0 = fold (\<lambda>i w.
     let s0 = rotr (w ! (i - 15)) 7 XOR rotr (w ! (i - 15)) 18 XOR drop_bit 3 (w ! (i - 15));
         s1 = rotr (w ! (i - 2)) 17 XOR rotr (w ! (i - 2)) 19 XOR drop_bit 10 (w ! (i - 2))
     in w[i := w ! (i - 16) + s0 + w ! (i - 7) + s1]) [16..<64] w0"

definition roundStep :: "word32 list \<Rightarrow> nat \<Rightarrow> hash_words \<Rightarrow> hash_words" where
  "roundStep w i = (\<lambda>(a, b, c, d, e, f, g, h).
     let S1 = rotr e 6 XOR rotr e 11 XOR rotr e 25;
         ch = (e AND f) XOR (NOT e AND g);
         temp1 = h + S1 + ch + K256 ! i + w ! i;
         S0 = rotr a 2 XOR rotr a 13 XOR rotr a 22;
         maj = (a AND b) XOR (a AND c) XOR (b AND c);
         temp2 = S0 + maj
     in (temp1 + temp2, a, b, c, d + temp1, e, f, g))"

definition addWords :: "hash_words \<Rightarrow> hash_words \<Rightarrow> hash_words" where
  "addWords = (\<lambda>(h0, h1, h2, h3, h4, h5, h6, h7) (a, b, c, d, e, f, g, h).
     (h0 + a, h1 + b, h2 + c, h3 + d, h4 + e, h5 + f, h6 + g, h7 + h))"

definition processBlock :: "hash_words \<Rightarrow> byte list \<Rightarrow> hash_words" where
  "processBlock hs blk = (let w = expandWords (firstWords blk) in addWords hs (fold (roundStep w) [0..<64] hs))"

text \<open>One turn of the copying loop: \<open>n\<close> bytes of the data go into the block, and a full block is processed.\<close>

definition setBytes :: "byte list \<Rightarrow> byte list \<Rightarrow> nat \<Rightarrow> byte list" where
  "setBytes target src off = take off target @ src @ drop (off + length src) target"

definition copyTurn :: "nat \<Rightarrow> byte list \<Rightarrow> nat \<Rightarrow> sha_state \<Rightarrow> sha_state" where
  "copyTurn n data off s =
     (let s1 = s\<lparr>block := setBytes (block s) (js_slice data off (off + n)) (blockOffset s), blockOffset := blockOffset s + n\<rparr> in
      if blockOffset s1 = 64 then s1\<lparr>hashWords := processBlock (hashWords s1) (block s1), blockOffset := 0\<rparr> else s1)"

partial_function (option) absorb :: "byte list \<Rightarrow> nat \<Rightarrow> sha_state \<Rightarrow> sha_state option" where
  "absorb data off s =
     (if off < length data
      then let n = min (64 - blockOffset s) (length data - off) in absorb data (off + n) (copyTurn n data off s)
      else Some s)"

definition update :: "byte list \<Rightarrow> sha_state \<Rightarrow> sha_state option" where
  "update data s = absorb data 0 (s\<lparr>bytesHashed := bytesHashed s + length data\<rparr>)"

definition pushPad :: "byte list \<Rightarrow> sha_state \<Rightarrow> sha_state option" where
  "pushPad data s = absorb data 0 s"

partial_function (option) padZeros :: "sha_state \<Rightarrow> sha_state option" where
  "padZeros s = (if blockOffset s \<noteq> 56 then Option.bind (pushPad [0] s) padZeros else Some s)"

definition lengthBlock :: "nat \<Rightarrow> byte list" where
  "lengthBlock savedLen =
     (let bitLenHi = of_nat (savedLen div 0x20000000) :: word32; bitLenLo = push_bit 3 (of_nat savedLen) :: word32 in
      map (\<lambda>k. ucast (drop_bit k bitLenHi AND 0xff)) [24, 16, 8, 0] @ map (\<lambda>k. ucast (drop_bit k bitLenLo AND 0xff)) [24, 16, 8, 0])"

definition wordBytes :: "word32 \<Rightarrow> byte list" where
  "wordBytes w = map (\<lambda>k. ucast (drop_bit k w AND 0xff)) [24, 16, 8, 0]"

definition digestBytes :: "hash_words \<Rightarrow> byte list" where
  "digestBytes = (\<lambda>(h0, h1, h2, h3, h4, h5, h6, h7). concat (map wordBytes [h0, h1, h2, h3, h4, h5, h6, h7]))"

definition bytesToHex :: "byte list \<Rightarrow> string" where
  "bytesToHex bs = concat (map (\<lambda>b. pad_start 2 CHR ''0'' (to_radix 16 (unat b))) bs)"

definition digestHex :: "sha_state \<Rightarrow> string option" where
  "digestHex s =
     Option.bind (pushPad [0x80] s) (\<lambda>s1. Option.bind (padZeros s1) (\<lambda>s2. Option.bind (pushPad (lengthBlock (bytesHashed s)) s2) (\<lambda>s3.
       Some (bytesToHex (digestBytes (hashWords s3))))))"

fun updateAll :: "byte list list \<Rightarrow> sha_state \<Rightarrow> sha_state option" where
  "updateAll [] s = Some s"
| "updateAll (c # cs) s = Option.bind (update c s) (updateAll cs)"

text \<open>\<^verbatim>\<open>hashStreamSha256\<close> over the chunks a stream delivers.\<close>

definition hashStreamSha256 :: "byte list list \<Rightarrow> string option" where
  "hashStreamSha256 chunks = Option.bind (updateAll chunks createSha256) digestHex"

section \<open>The standard\<close>

text \<open>
  FIPS 180-4: the message schedule by its recurrence, the functions by rotations, the padding to a multiple of 64 bytes. The
  constants are the first 32 bits of the fractional parts of cube and square roots of the first primes.
\<close>

definition Sigma0 :: "word32 \<Rightarrow> word32" where "Sigma0 x = word_rotr 2 x XOR word_rotr 13 x XOR word_rotr 22 x"
definition Sigma1 :: "word32 \<Rightarrow> word32" where "Sigma1 x = word_rotr 6 x XOR word_rotr 11 x XOR word_rotr 25 x"
definition sigma0 :: "word32 \<Rightarrow> word32" where "sigma0 x = word_rotr 7 x XOR word_rotr 18 x XOR drop_bit 3 x"
definition sigma1 :: "word32 \<Rightarrow> word32" where "sigma1 x = word_rotr 17 x XOR word_rotr 19 x XOR drop_bit 10 x"
definition Ch :: "word32 \<Rightarrow> word32 \<Rightarrow> word32 \<Rightarrow> word32" where "Ch x y z = (x AND y) XOR (NOT x AND z)"
definition Maj :: "word32 \<Rightarrow> word32 \<Rightarrow> word32 \<Rightarrow> word32" where "Maj x y z = (x AND y) XOR (x AND z) XOR (y AND z)"

fun W :: "byte list \<Rightarrow> nat \<Rightarrow> word32" where
  "W M t = (if t < 16 then of_nat (\<Sum>k<4. unat (M ! (4 * t + k)) * 256 ^ (3 - k))
     else sigma1 (W M (t - 2)) + W M (t - 7) + sigma0 (W M (t - 15)) + W M (t - 16))"

declare W.simps [simp del]

definition sha_round :: "byte list \<Rightarrow> nat \<Rightarrow> hash_words \<Rightarrow> hash_words" where
  "sha_round M t = (\<lambda>(a, b, c, d, e, f, g, h).
     let T1 = h + Sigma1 e + Ch e f g + K256 ! t + W M t; T2 = Sigma0 a + Maj a b c in (T1 + T2, a, b, c, d + T1, e, f, g))"

definition compress :: "hash_words \<Rightarrow> byte list \<Rightarrow> hash_words" where
  "compress H M = addWords H (fold (sha_round M) [0..<64] H)"

fun sha_blocks :: "hash_words \<Rightarrow> byte list \<Rightarrow> hash_words" where
  "sha_blocks H m = (if length m < 64 then H else sha_blocks (compress H (take 64 m)) (drop 64 m))"

declare sha_blocks.simps [simp del]

definition sha_pad :: "byte list \<Rightarrow> byte list" where
  "sha_pad m = m @ [0x80] @ replicate ((119 - length m mod 64) mod 64) 0 @ map (\<lambda>i. of_nat (8 * length m div 256 ^ (7 - i))) [0..<8]"

definition sha256 :: "byte list \<Rightarrow> byte list" where
  "sha256 m = digestBytes (sha_blocks initialWords (sha_pad m))"


section \<open>The constants\<close>

text \<open>The first primes, each with the whole parts of its cube root.\<close>

definition first_primes :: "int list" where
  "first_primes = [2, 3, 5, 7, 11, 13, 17, 19, 23, 29, 31, 37, 41, 43, 47, 53, 59, 61, 67, 71, 73, 79, 83, 89, 97, 101, 103, 107, 109, 113,
     127, 131, 137, 139, 149, 151, 157, 163, 167, 173, 179, 181, 191, 193, 197, 199, 211, 223, 227, 229, 233, 239, 241, 251, 257, 263, 269,
     271, 277, 281, 283, 293, 307, 311]"

text \<open>The word is the fraction of the root: shifted by 32 bits, the whole part and the word together are the root rounded down.\<close>

definition root_fraction :: "nat \<Rightarrow> int \<Rightarrow> int \<Rightarrow> word32 \<Rightarrow> bool" where
  "root_fraction e p q k \<longleftrightarrow> (let c = q * 2 ^ 32 + uint k in c ^ e \<le> p * 2 ^ (32 * e) \<and> p * 2 ^ (32 * e) < (c + 1) ^ e)"

definition wholeCube :: "int \<Rightarrow> int" where
  "wholeCube p = (if p < 8 then 1 else if p < 27 then 2 else if p < 64 then 3 else if p < 125 then 4 else if p < 216 then 5 else 6)"

definition wholeSquare :: "int \<Rightarrow> int" where
  "wholeSquare p = (if p < 4 then 1 else if p < 9 then 2 else if p < 16 then 3 else 4)"

theorem K256_constants: "list_all2 (\<lambda>p. root_fraction 3 p (wholeCube p)) first_primes K256"
  by (simp add: first_primes_def K256_def root_fraction_def wholeCube_def)

theorem initial_constants:
  "list_all2 (\<lambda>p. root_fraction 2 p (wholeSquare p)) (take 8 first_primes)
     (case initialWords of (a, b, c, d, e, f, g, h) \<Rightarrow> [a, b, c, d, e, f, g, h])"
  by (simp add: first_primes_def initialWords_def root_fraction_def wholeSquare_def)

section \<open>Words\<close>

lemma rotr_eq:
  assumes "0 < n" "n < 32"
  shows "rotr x n = word_rotr n x"
proof (rule bit_word_eqI)
  fix m
  assume "m < LENGTH(32)"
  then have m: "m < 32" by simp
  show "bit (rotr x n) m = bit (word_rotr n x) m"
  proof (cases "m + n < 32")
    case True
    then have "\<not> 32 - n \<le> m" by simp
    with True show ?thesis using assms m by (simp add: rotr_def bit_word_rotr_iff bit_or_iff bit_drop_bit_eq bit_push_bit_iff add.commute)
  next
    case False
    then have "(m + n) mod 32 = m + n - 32" "32 - n \<le> m" using assms m by (simp_all add: mod_if)
    moreover have "\<not> bit x (n + m)" using False bit_imp_le_length [of x "n + m"] by auto
    ultimately show ?thesis
      using False assms m by (simp add: rotr_def bit_word_rotr_iff bit_or_iff bit_drop_bit_eq bit_push_bit_iff)
  qed
qed



lemma disjoint_push: "push_bit k (a :: word32) OR ucast (b :: byte) = push_bit k a + ucast b" if "8 \<le> k"
proof -
  have "push_bit k a AND ucast b = 0"
    using that by (intro bit_word_eqI) (auto simp: bit_simps dest: bit_imp_le_length)
  then show ?thesis by (simp add: disjunctive_add_eq_or)
qed

lemma big_endian:
  fixes b0 b1 b2 b3 :: byte
  shows "push_bit 24 (ucast b0) OR push_bit 16 (ucast b1) OR push_bit 8 (ucast b2) OR ucast b3
    = (of_nat (unat b0 * 256 ^ 3 + unat b1 * 256 ^ 2 + unat b2 * 256 + unat b3) :: word32)"
proof -
  have "push_bit 24 (ucast b0) OR push_bit 16 (ucast b1) OR push_bit 8 (ucast b2) OR ucast b3
    = push_bit 8 (push_bit 8 (push_bit 8 (ucast b0) OR ucast b1) OR ucast b2) OR (ucast b3 :: word32)"
    by (simp add: or.assoc)
  also have "\<dots> = push_bit 8 (push_bit 8 (push_bit 8 (ucast b0) + ucast b1) + ucast b2) + ucast b3"
    by (simp add: disjoint_push)
  also have "\<dots> = of_nat (unat b0 * 256 ^ 3 + unat b1 * 256 ^ 2 + unat b2 * 256 + unat b3)"
    by (simp add: push_bit_eq_mult algebra_simps)
  finally show ?thesis .
qed

lemma ucast_drop_of_nat: "k + 8 \<le> 32 \<Longrightarrow> ucast (drop_bit k (of_nat n :: word32) AND 0xff) = (of_nat (n div 2 ^ k) :: byte)"
proof -
  assume k: "k + 8 \<le> 32"
  have ff: "(0xff :: word32) = mask 8" by (simp add: mask_eq_exp_minus_1)
  show ?thesis unfolding ff using k by (intro bit_word_eqI) (auto simp: bit_simps simp flip: drop_bit_eq_div)
qed

lemma lengthBlock_eq:
  "lengthBlock n = map (\<lambda>i. of_nat (8 * n div 256 ^ (7 - i))) [0..<8]"
proof -
  have lo: "push_bit 3 (of_nat n) = (of_nat (8 * n) :: word32)" by (simp add: push_bit_eq_mult)
  have hi: "n div 0x20000000 div 2 ^ k = 8 * n div 2 ^ (32 + k)" for k
  proof -
    have "8 * n div 2 ^ (32 + k) = 8 * n div (8 * (0x20000000 * 2 ^ k))" by (simp add: power_add)
    then show ?thesis by (simp add: div_mult2_eq)
  qed
  have upt: "[0..<8] = [0, 1, 2, 3, 4, 5, 6, 7 :: nat]" by (simp add: upt_rec)
  show ?thesis
    unfolding lengthBlock_def Let_def lo upt
    using hi [of 24] hi [of 16] hi [of 8] hi [of 0] ucast_drop_of_nat [of 0 "n div 0x20000000"] ucast_drop_of_nat [of 0 "8 * n"]
    by (simp add: ucast_drop_of_nat del: of_nat_mult)
qed


section \<open>The block function is that of the standard\<close>

lemma fold_updates:
  "n \<le> length w \<Longrightarrow> length (fold (\<lambda>i w. w[i := g i]) [0..<n] w) = length w
     \<and> (\<forall>j < length w. fold (\<lambda>i w. w[i := g i]) [0..<n] w ! j = (if j < n then g j else w ! j))"
  by (induction n) (auto simp: nth_list_update less_Suc_eq)

lemma sum_four: "(\<Sum>k<4. f k) = f 0 + f 1 + f 2 + f (3 :: nat)" for f :: "nat \<Rightarrow> nat"
  by (simp add: lessThan_nat_numeral lessThan_Suc)

lemma firstWords_eq: "length (firstWords blk) = 64" "t < 16 \<Longrightarrow> firstWords blk ! t = W blk t"
proof -
  let ?g = "\<lambda>i. push_bit 24 (ucast (blk ! (i * 4))) OR push_bit 16 (ucast (blk ! (i * 4 + 1))) OR push_bit 8 (ucast (blk ! (i * 4 + 2)))
    OR (ucast (blk ! (i * 4 + 3)) :: word32)"
  have *: "firstWords blk = fold (\<lambda>i w. w[i := ?g i]) [0..<16] (replicate 64 0)"
    by (simp only: firstWords_def Let_def)
  have "(16 :: nat) \<le> length (replicate 64 (0 :: word32))" by simp
  note updates = fold_updates [OF this, of ?g, unfolded length_replicate]
  show "length (firstWords blk) = 64" unfolding * by (rule conjunct1 [OF updates])
  show "firstWords blk ! t = W blk t" if t: "t < 16"
  proof -
    have "t < 64" using t by simp
    then have "firstWords blk ! t = (if t < 16 then ?g t else replicate 64 0 ! t)"
      unfolding * using conjunct2 [OF updates] by blast
    then have "firstWords blk ! t = ?g t" using t by (simp only: if_True)
    also have "\<dots> = of_nat (\<Sum>k<4. unat (blk ! (4 * t + k)) * 256 ^ (3 - k))"
      unfolding big_endian sum_four by (simp add: mult.commute)
    also have "\<dots> = W blk t" using t by (subst W.simps) (simp only: if_True)
    finally show ?thesis .
  qed
qed

definition expandStep :: "nat \<Rightarrow> word32 list \<Rightarrow> word32 list" where
  "expandStep i w = w[i := w ! (i - 16) + sigma0 (w ! (i - 15)) + w ! (i - 7) + sigma1 (w ! (i - 2))]"

lemma expandWords_steps: "expandWords w = fold expandStep [16..<64] w"
proof -
  have "(\<lambda>i w. let s0 = rotr (w ! (i - 15)) 7 XOR rotr (w ! (i - 15)) 18 XOR drop_bit 3 (w ! (i - 15));
         s1 = rotr (w ! (i - 2)) 17 XOR rotr (w ! (i - 2)) 19 XOR drop_bit 10 (w ! (i - 2))
     in w[i := w ! (i - 16) + s0 + w ! (i - 7) + s1]) = expandStep"
    by (simp add: fun_eq_iff expandStep_def sigma0_def sigma1_def rotr_eq Let_def)
  then show ?thesis by (simp only: expandWords_def)
qed

lemma expand_W:
  "16 \<le> n \<Longrightarrow> n \<le> 64 \<Longrightarrow> length w = 64 \<Longrightarrow> (\<forall>t < 16. w ! t = W blk t) \<Longrightarrow>
   length (fold expandStep [16..<n] w) = 64 \<and> (\<forall>t < n. fold expandStep [16..<n] w ! t = W blk t)"
proof (induction n rule: dec_induct)
  case (step n)
  define v where "v = fold expandStep [16..<n] w"
  have v: "length v = 64" "\<And>t. t < n \<Longrightarrow> v ! t = W blk t" using step unfolding v_def by auto
  have next': "fold expandStep [16..<Suc n] w = expandStep n v" using step.hyps by (simp add: v_def)
  have "W blk n = v ! (n - 16) + sigma0 (v ! (n - 15)) + v ! (n - 7) + sigma1 (v ! (n - 2))"
    using step.hyps v by (subst W.simps) (simp add: algebra_simps)
  then have "length (expandStep n v) = 64" "\<And>t. t < Suc n \<Longrightarrow> expandStep n v ! t = W blk t"
    using step.hyps step.prems(1) v by (auto simp: expandStep_def nth_list_update less_Suc_eq)
  then show ?case unfolding next' by blast
qed simp

lemma schedule_W: "t < 64 \<Longrightarrow> expandWords (firstWords blk) ! t = W blk t"
  using expand_W [of 64 "firstWords blk" blk] by (simp add: expandWords_steps firstWords_eq)

theorem processBlock_compress: "processBlock hs blk = compress hs blk"
proof -
  have "fold (roundStep (expandWords (firstWords blk))) [0..<64] hs = fold (sha_round blk) [0..<64] hs"
  proof (rule fold_cong [OF refl refl])
    fix t
    assume "t \<in> set [0..<64]"
    then have "t < 64" by simp
    then show "roundStep (expandWords (firstWords blk)) t = sha_round blk t"
      by (simp add: roundStep_def sha_round_def schedule_W rotr_eq Sigma0_def Sigma1_def Ch_def Maj_def Let_def fun_eq_iff)
  qed
  then show ?thesis by (simp add: processBlock_def compress_def Let_def)
qed

section \<open>What the state of the code stands for\<close>

text \<open>The full blocks of the message have been compressed, and the rest of it is at the start of the block.\<close>

definition hashed :: "byte list \<Rightarrow> sha_state \<Rightarrow> bool" where
  "hashed m s \<longleftrightarrow> length (block s) = 64 \<and> (\<exists>p q. m = p @ q \<and> 64 dvd length p \<and> length q < 64 \<and> blockOffset s = length q
     \<and> take (length q) (block s) = q \<and> hashWords s = sha_blocks initialWords p)"

lemma sha_blocks_append: "64 dvd length p \<Longrightarrow> sha_blocks H (p @ m) = sha_blocks (sha_blocks H p) m"
proof (induction H p rule: sha_blocks.induct)
  case (1 H p)
  show ?case
  proof (cases "p = []")
    case False
    with 1(2) have "\<not> length p < 64" by (auto dest: dvd_imp_le)
    moreover from this have "64 dvd length (drop 64 p)" using 1(2) by (simp add: dvd_diff_nat)
    moreover have "sha_blocks H (p @ m) = sha_blocks (compress H (take 64 p)) (drop 64 p @ m)"
      using \<open>\<not> length p < 64\<close> by (subst sha_blocks.simps) simp
    moreover have "sha_blocks H p = sha_blocks (compress H (take 64 p)) (drop 64 p)"
      using \<open>\<not> length p < 64\<close> by (subst sha_blocks.simps) simp
    ultimately show ?thesis using 1(1) by simp
  qed (simp add: sha_blocks.simps)
qed

lemma sha_blocks_one: "length q = 64 \<Longrightarrow> sha_blocks H q = compress H q"
  by (subst sha_blocks.simps) (simp add: sha_blocks.simps)

lemma hashed_offset: "hashed m s \<Longrightarrow> blockOffset s = length m mod 64 \<and> blockOffset s < 64"
  by (auto simp: hashed_def mod_add_eq dvd_eq_mod_eq_0 elim!: dvdE)

lemma hashed_initial: "hashed [] createSha256"
  by (simp add: hashed_def createSha256_def sha_blocks.simps)

lemma hashed_turn:
  assumes "hashed m s" "n \<le> 64 - blockOffset s" "off + n \<le> length data"
  shows "hashed (m @ take n (drop off data)) (copyTurn n data off s)"
proof -
  obtain p q where m: "m = p @ q" "64 dvd length p" "length q < 64" "blockOffset s = length q" "take (length q) (block s) = q"
    "hashWords s = sha_blocks initialWords p" and len: "length (block s) = 64"
    using assms(1) by (auto simp: hashed_def)
  let ?d = "take n (drop off data)"
  have d: "js_slice data off (off + n) = ?d" "length ?d = n" using assms(3) by (simp_all add: js_slice_def drop_take)
  have blk: "setBytes (block s) ?d (length q) = (q @ ?d) @ drop (length q + n) (block s)"
    using m(5) d(2) by (simp add: setBytes_def)
  show ?thesis
  proof (cases "length q + n = 64")
    case True
    then have full: "setBytes (block s) ?d (length q) = q @ ?d" using blk len by simp
    have "sha_blocks initialWords (p @ q @ ?d) = compress (sha_blocks initialWords p) (q @ ?d)"
      using True d(2) m(2) by (simp add: sha_blocks_append sha_blocks_one)
    moreover have "64 dvd length (p @ q @ ?d)" using True d(2) m(2) by (simp add: add.assoc [symmetric])
    moreover have "length (q @ ?d) = 64" using True d(2) by simp
    moreover have "copyTurn n data off s = s\<lparr>block := q @ ?d, blockOffset := 0, hashWords := compress (hashWords s) (q @ ?d)\<rparr>"
      using True full d(1) m(4) by (simp add: copyTurn_def Let_def processBlock_compress)
    ultimately show ?thesis
      unfolding hashed_def m(1) using m(6) by (intro conjI exI [of _ "p @ q @ ?d"] exI [of _ "[]"]) simp_all
  next
    case False
    then have "length q + n < 64" using assms(2) m(3,4) by simp
    moreover have "copyTurn n data off s = s\<lparr>block := setBytes (block s) ?d (length q), blockOffset := length q + n\<rparr>"
      using False d(1) m(4) by (simp add: copyTurn_def Let_def)
    ultimately show ?thesis
      unfolding hashed_def m(1) blk using m(2,6) d(2) len by (intro conjI exI [of _ p] exI [of _ "q @ ?d"]) simp_all
  qed
qed


lemma absorb_hashed:
  "hashed m s \<Longrightarrow> \<exists>s'. absorb data off s = Some s' \<and> hashed (m @ drop off data) s' \<and> bytesHashed s' = bytesHashed s"
proof (induction "length data - off" arbitrary: m s off rule: less_induct)
  case less
  show ?case
  proof (cases "off < length data")
    case True
    define n where "n = min (64 - blockOffset s) (length data - off)"
    have n: "0 < n" "off + n \<le> length data" "n \<le> 64 - blockOffset s" using True hashed_offset [OF less.prems] by (auto simp: n_def)
    have "length data - (off + n) < length data - off" using n(1) True by simp
    from less.hyps [OF this hashed_turn [OF less.prems n(3,2)]]
    obtain s' where s': "absorb data (off + n) (copyTurn n data off s) = Some s'"
      "hashed ((m @ take n (drop off data)) @ drop (off + n) data) s'" "bytesHashed s' = bytesHashed (copyTurn n data off s)" by blast
    have "take n (drop off data) @ drop (off + n) data = drop off data"
      by (metis add.commute append_take_drop_id drop_drop)
    moreover have "bytesHashed (copyTurn n data off s) = bytesHashed s" by (simp add: copyTurn_def Let_def)
    moreover have "absorb data off s = absorb data (off + n) (copyTurn n data off s)"
      using True by (subst absorb.simps) (simp add: n_def Let_def)
    ultimately show ?thesis using s' by (simp del: drop_append take_append)
  next
    case False
    then show ?thesis using less.prems by (subst absorb.simps) simp
  qed
qed

lemma update_hashed:
  assumes "hashed m s"
  shows "\<exists>s'. update data s = Some s' \<and> hashed (m @ data) s' \<and> bytesHashed s' = bytesHashed s + length data"
proof -
  have "hashed m (s\<lparr>bytesHashed := bytesHashed s + length data\<rparr>)" using assms by (simp add: hashed_def)
  then show ?thesis using absorb_hashed [of m _ data 0] by (fastforce simp: update_def)
qed

lemma updateAll_hashed:
  "hashed m s \<Longrightarrow> \<exists>s'. updateAll cs s = Some s' \<and> hashed (m @ concat cs) s' \<and> bytesHashed s' = bytesHashed s + length (concat cs)"
proof (induction cs arbitrary: m s)
  case (Cons c cs)
  obtain s1 where s1: "update c s = Some s1" "hashed (m @ c) s1" "bytesHashed s1 = bytesHashed s + length c"
    using update_hashed [OF Cons.prems] by blast
  with Cons.IH [OF s1(2)] show ?case by auto
qed simp

lemma pad_count: "(120 - n mod 64) mod 64 = (if n mod 64 \<le> 56 then 56 - n mod 64 else 120 - n mod (64 :: nat))"
proof -
  have wrap: "(120 - r) mod 64 = (if r \<le> 56 then 56 - r else 120 - r)" if "r < 64" for r :: nat
  proof (cases "r \<le> 56")
    case True
    then have "120 - r = 64 + (56 - r)" by simp
    then have "(120 - r) mod 64 = (56 - r) mod 64" by (metis mod_add_self1)
    with True show ?thesis by simp
  qed simp
  show ?thesis by (rule wrap) simp
qed

lemma padZeros_hashed:
  "hashed m s \<Longrightarrow> \<exists>s'. padZeros s = Some s' \<and> hashed (m @ replicate ((120 - length m mod 64) mod 64) 0) s'"
proof (induction "(120 - length m mod 64) mod 64" arbitrary: m s)
  case 0
  then have "length m mod 64 = 56" by (simp add: pad_count split: if_splits)
  then show ?case using 0 hashed_offset [OF 0(2)] by (subst padZeros.simps) simp
next
  case (Suc k)
  have off: "blockOffset s = length m mod 64" using hashed_offset [OF Suc.prems] by simp
  obtain s1 where s1: "pushPad [0] s = Some s1" "hashed (m @ [0]) s1"
    using absorb_hashed [OF Suc.prems, of "[0]" 0] by (auto simp: pushPad_def)
  have k: "k = (120 - length (m @ [0]) mod 64) mod 64"
    using Suc.hyps(2) unfolding pad_count by (auto simp: mod_Suc split: if_splits)
  from Suc.hyps(1) [OF k s1(2)] obtain s' where "padZeros s1 = Some s'" "hashed ((m @ [0]) @ replicate k 0) s'"
    unfolding k by blast
  moreover have "blockOffset s \<noteq> 56" using off Suc.hyps(2) by auto
  ultimately show ?case using s1(1) by (subst padZeros.simps) (simp add: Suc.hyps(2) [symmetric])
qed

lemma hashed_full: "hashed m s \<Longrightarrow> 64 dvd length m \<Longrightarrow> hashWords s = sha_blocks initialWords m"
proof -
  assume "hashed m s" "64 dvd length m"
  then obtain p q where "m = p @ q" "64 dvd length q" "length q < 64" "hashWords s = sha_blocks initialWords p"
    unfolding hashed_def by (auto simp: dvd_add_right_iff)
  then show ?thesis by (cases "q = []") (auto dest: dvd_imp_le)
qed

lemma pad_zeros: "(120 - length (m @ [x]) mod 64) mod 64 = (119 - length m mod 64) mod (64 :: nat)"
  by (simp add: mod_Suc)

lemma sha_pad_length: "64 dvd length (sha_pad m)"
proof -
  define r where "r = length m mod 64"
  have r: "r < 64" by (simp add: r_def)
  have "length (sha_pad m) = length m + 1 + (119 - r) mod 64 + 8" by (simp add: sha_pad_def r_def)
  moreover have "(r + 1 + (119 - r) mod 64 + 8) mod 64 = 0"
  proof (cases "r \<le> 55")
    case True
    then have "119 - r = 64 + (55 - r)" by simp
    then have "(119 - r) mod 64 = (55 - r) mod 64" by (metis mod_add_self1)
    with True show ?thesis by simp
  next
    case False
    then have "r + 1 + (119 - r) mod 64 + 8 = 128" using r by simp
    then show ?thesis by simp
  qed
  moreover have "length m = 64 * (length m div 64) + r" by (simp add: r_def)
  ultimately show ?thesis by (metis (no_types, lifting) add.assoc dvd_eq_mod_eq_0 mod_mult_self4)
qed

section \<open>The property of the hash\<close>

text \<open>
  C16. The incremental hash is SHA-256: for every way a stream is cut into chunks, the loops end and the digest is that of
  FIPS 180-4 for the whole message, in hexadecimal. The constants are the fractions of roots the standard prescribes by
  \<open>K256_constants\<close> and \<open>initial_constants\<close>.
\<close>

theorem stream_hash_is_sha256: "hashStreamSha256 chunks = Some (bytesToHex (sha256 (concat chunks)))"
proof -
  let ?m = "concat chunks"
  obtain s where s: "updateAll chunks createSha256 = Some s" "hashed ?m s" "bytesHashed s = length ?m"
    using updateAll_hashed [OF hashed_initial, of chunks] by (auto simp: createSha256_def)
  obtain s1 where s1: "pushPad [0x80] s = Some s1" "hashed (?m @ [0x80]) s1"
    using absorb_hashed [OF s(2), of "[0x80]" 0] by (auto simp: pushPad_def)
  let ?k = "(120 - length (?m @ [0x80]) mod 64) mod 64"
  obtain s2 where s2: "padZeros s1 = Some s2" "hashed ((?m @ [0x80]) @ replicate ?k 0) s2"
    using padZeros_hashed [OF s1(2)] by blast
  obtain s3 where s3: "pushPad (lengthBlock (length ?m)) s2 = Some s3"
    "hashed (((?m @ [0x80]) @ replicate ?k 0) @ lengthBlock (length ?m)) s3"
    using absorb_hashed [OF s2(2), of "lengthBlock (length ?m)" 0] by (auto simp: pushPad_def)
  have k: "?k = (119 - length ?m mod 64) mod 64" by (rule pad_zeros)
  have pad: "((?m @ [0x80]) @ replicate ?k 0) @ lengthBlock (length ?m) = sha_pad ?m"
    unfolding sha_pad_def k lengthBlock_eq by simp
  have "64 dvd length (sha_pad ?m)" by (rule sha_pad_length)
  then have "hashWords s3 = sha_blocks initialWords (sha_pad ?m)" using hashed_full s3(2) unfolding pad by blast
  then show ?thesis using s s1(1) s2(1) s3(1) by (simp add: hashStreamSha256_def digestHex_def sha256_def)
qed


text \<open>The block function on the single block of the message \<^verbatim>\<open>abc\<close>, the first example of the standard.\<close>

theorem abc_test_vector:
  "processBlock initialWords ([0x61, 0x62, 0x63, 0x80] @ replicate 59 0 @ [0x18]) =
     (0xba7816bf, 0x8f01cfea, 0x414140de, 0x5dae2223, 0xb00361a3, 0x96177a9c, 0xb410ff61, 0xf20015ad)"
  by code_simp

end
