(* ===== verification/Pir.thy ===== *)
theory Pir
  imports Gateway_Race Sha256 "HOL-Library.Multiset" "HOL-Library.FuncSet"
begin

text \<open>
  Retrieval of documents hidden among decoys, \<^verbatim>\<open>services/pir.service.ts\<close>, and its use in \<^verbatim>\<open>services/ipfs.service.ts\<close>.

  The random choices of the shuffles are functions from positions to positions, the random bytes of invented identifiers a function of their
  number, the clock a function of the reading. What the network answers is a function of the position of a query and its address. Reading
  the body of a response is a parameter that knows whether the request of the response was aborted.
\<close>

section \<open>Keyed hashes of identifiers\<close>

definition generateSalt :: "byte list \<Rightarrow> string" where
  "generateSalt array = bytesToHex array"

definition newHomomorphicHash :: "byte list \<Rightarrow> string option \<Rightarrow> string" where
  "newHomomorphicHash random key = (case key of Some k \<Rightarrow> if k = [] then generateSalt random else k | None \<Rightarrow> generateSalt random)"

definition hashCid :: "(string \<Rightarrow> byte list) \<Rightarrow> string \<Rightarrow> string \<Rightarrow> string" where
  "hashCid digest salt cid = bytesToHex (digest (salt @ cid))"

definition verifyCid :: "(string \<Rightarrow> byte list) \<Rightarrow> string \<Rightarrow> string \<Rightarrow> string \<Rightarrow> bool" where
  "verifyCid digest salt cid hash \<longleftrightarrow> hashCid digest salt cid = hash"

section \<open>Batches\<close>

definition DEFAULT_DUMMY_QUERY_COUNT :: nat where "DEFAULT_DUMMY_QUERY_COUNT = 5"
definition DEFAULT_BATCH_DELAY_MS :: nat where "DEFAULT_BATCH_DELAY_MS = 100"

record batcher =
  dummyQueryCount :: nat
  batchDelayMs :: nat

definition newDummyQueryBatcher :: "nat option \<Rightarrow> nat option \<Rightarrow> batcher" where
  "newDummyQueryBatcher cnt delay =
     \<lparr>dummyQueryCount = (case cnt of Some n \<Rightarrow> n | None \<Rightarrow> DEFAULT_DUMMY_QUERY_COUNT),
      batchDelayMs = (case delay of Some n \<Rightarrow> n | None \<Rightarrow> DEFAULT_BATCH_DELAY_MS)\<rparr>"

record dummy_query =
  q_cid :: string
  q_isReal :: bool
  q_timestamp :: nat

text \<open>The digits of a number in base 58, the least significant first: a byte is added after a multiplication by 256.\<close>

fun carryThrough :: "nat \<Rightarrow> nat list \<Rightarrow> nat list \<times> nat" where
  "carryThrough carry [] = ([], carry)"
| "carryThrough carry (d # ds) =
     (let c = carry + d * 256; (ds', carry') = carryThrough (c div 58) ds in ((c mod 58) # ds', carry'))"

fun pushCarry :: "nat \<Rightarrow> nat list" where
  "pushCarry carry = (if carry > 0 then carry mod 58 # pushCarry (carry div 58) else [])"

declare pushCarry.simps [simp del]

definition addByte :: "nat list \<Rightarrow> byte \<Rightarrow> nat list" where
  "addByte digits b = (let (ds, carry) = carryThrough (unat b) digits in ds @ pushCarry carry)"

definition base58Alphabet :: string where
  "base58Alphabet = ''123456789ABCDEFGHJKLMNPQRSTUVWXYZabcdefghijkmnopqrstuvwxyz''"

definition base58Digits :: "byte list \<Rightarrow> nat list" where
  "base58Digits bs = foldl addByte [0] bs"

definition base58Encode :: "byte list \<Rightarrow> string" where
  "base58Encode bs = map (\<lambda>d. base58Alphabet ! d) (base58Digits bs)"

definition generateDummyCid :: "byte list \<Rightarrow> string" where
  "generateDummyCid array = (let prefixed = [0x12, 0x20] @ array in base58Encode (drop 2 prefixed))"

definition swapAt :: "'a list \<Rightarrow> nat \<Rightarrow> nat \<Rightarrow> 'a list" where
  "swapAt xs i j = xs[i := xs ! j, j := xs ! i]"

text \<open>The loop runs from the last position down to 1; \<open>r i\<close> is the position drawn at \<open>i\<close>.\<close>

fun shuffleFrom :: "nat \<Rightarrow> (nat \<Rightarrow> nat) \<Rightarrow> 'a list \<Rightarrow> 'a list" where
  "shuffleFrom 0 r xs = xs"
| "shuffleFrom (Suc i) r xs = shuffleFrom i r (swapAt xs (Suc i) (r (Suc i)))"

definition shuffleArray :: "(nat \<Rightarrow> nat) \<Rightarrow> 'a list \<Rightarrow> 'a list" where
  "shuffleArray r xs = shuffleFrom (length xs - 1) r xs"

text \<open>\<^verbatim>\<open>[...new Set(pool)]\<close> keeps the first occurrences.\<close>

definition firstOccurrences :: "'a list \<Rightarrow> 'a list" where
  "firstOccurrences xs = rev (remdups (rev xs))"

definition sampleRealDecoys :: "(nat \<Rightarrow> nat) \<Rightarrow> string \<Rightarrow> string list \<Rightarrow> nat \<Rightarrow> string list" where
  "sampleRealDecoys r realCid pool cnt =
     (let cands = filter (\<lambda>cid. cid \<noteq> realCid) (firstOccurrences pool); shuffled = shuffleArray r cands in js_slice shuffled 0 cnt)"

text \<open>The batch before it is shuffled.\<close>

definition orderedBatch :: "(nat \<Rightarrow> nat) \<Rightarrow> (nat \<Rightarrow> byte list) \<Rightarrow> (nat \<Rightarrow> nat) \<Rightarrow> batcher \<Rightarrow> string \<Rightarrow> string list \<Rightarrow> dummy_query list" where
  "orderedBatch r random clock b realCid pool =
     (let realDecoys = sampleRealDecoys r realCid pool (dummyQueryCount b);
          cids = realDecoys @ map (\<lambda>i. generateDummyCid (random i)) [0..<dummyQueryCount b - length realDecoys] in
      \<lparr>q_cid = realCid, q_isReal = True, q_timestamp = clock 0\<rparr> #
      map (\<lambda>i. \<lparr>q_cid = cids ! i, q_isReal = False, q_timestamp = clock (i + 1)\<rparr>) [0..<length cids])"

definition createBatch ::
  "(nat \<Rightarrow> nat) \<Rightarrow> (nat \<Rightarrow> byte list) \<Rightarrow> (nat \<Rightarrow> nat) \<Rightarrow> (nat \<Rightarrow> nat) \<Rightarrow> batcher \<Rightarrow> string \<Rightarrow> string list \<Rightarrow> dummy_query list" where
  "createBatch r random clock r' b realCid pool = shuffleArray r' (orderedBatch r random clock b realCid pool)"

text \<open>All queries are issued; the position of a query and its address determine the answer.\<close>

definition collectResults :: "(dummy_query \<times> fetch_outcome) list \<Rightarrow> response option \<times> nat" where
  "collectResults results = fold (\<lambda>(q, out) (realResult, dummyCount).
     case out of
       Responded r \<Rightarrow> if q_isReal q then (Some r, dummyCount) else (realResult, dummyCount + 1)
     | Rejected _ \<Rightarrow> (realResult, dummyCount + 1)) results (None, 0)"

definition executeBatch :: "dummy_query list \<Rightarrow> (nat \<Rightarrow> string \<Rightarrow> fetch_outcome) \<Rightarrow> (response \<times> nat) result" where
  "executeBatch batch fetchFn =
     (case collectResults (map (\<lambda>i. (batch ! i, fetchFn i (q_cid (batch ! i)))) [0..<length batch]) of
        (Some r, n) \<Rightarrow> Inr (r, n)
      | (None, n) \<Rightarrow> Inl (Error ''Real query failed to execute''))"

section \<open>The service\<close>

text \<open>A field of a partial configuration: absent, present without a value, or present.\<close>

type_synonym 'a field = "'a option option"

definition spread :: "'a option \<Rightarrow> 'a field \<Rightarrow> 'a option" where
  "spread old new = (case new of None \<Rightarrow> old | Some v \<Rightarrow> v)"

record pir_config =
  pc_enabled :: bool
  pc_useTorProxy :: bool
  pc_dummyQueryCount :: "nat option"
  pc_batchDelayMs :: "nat option"
  pc_cidIndexKey :: "string option"

record pir_update =
  pu_enabled :: "bool option"
  pu_useTorProxy :: "bool option"
  pu_dummyQueryCount :: "nat field"
  pu_batchDelayMs :: "nat field"
  pu_cidIndexKey :: "string field"

record pir_service =
  config :: pir_config
  homomorphicHash :: string
  dummyBatcher :: batcher
  torEnabled :: bool

definition isAvailable :: "bool \<Rightarrow> bool \<Rightarrow> bool" where
  "isAvailable enabled probe = (if \<not> enabled then False else probe)"

definition newPirService :: "byte list \<Rightarrow> bool \<Rightarrow> bool \<Rightarrow> nat field \<Rightarrow> nat field \<Rightarrow> string option \<Rightarrow> pir_service" where
  "newPirService random enabled useTor cnt delay key =
     (let cfg = \<lparr>pc_enabled = enabled, pc_useTorProxy = useTor, pc_dummyQueryCount = spread (Some DEFAULT_DUMMY_QUERY_COUNT) cnt,
            pc_batchDelayMs = spread (Some DEFAULT_BATCH_DELAY_MS) delay, pc_cidIndexKey = key\<rparr> in
      \<lparr>config = cfg, homomorphicHash = newHomomorphicHash random (pc_cidIndexKey cfg),
       dummyBatcher = newDummyQueryBatcher (pc_dummyQueryCount cfg) (pc_batchDelayMs cfg), torEnabled = pc_useTorProxy cfg\<rparr>)"

definition updateConfig :: "byte list \<Rightarrow> pir_update \<Rightarrow> pir_service \<Rightarrow> pir_service" where
  "updateConfig random u s =
     (let old = config s;
          cfg = \<lparr>pc_enabled = (case pu_enabled u of Some b \<Rightarrow> b | None \<Rightarrow> pc_enabled old),
            pc_useTorProxy = (case pu_useTorProxy u of Some b \<Rightarrow> b | None \<Rightarrow> pc_useTorProxy old),
            pc_dummyQueryCount = spread (pc_dummyQueryCount old) (pu_dummyQueryCount u),
            pc_batchDelayMs = spread (pc_batchDelayMs old) (pu_batchDelayMs u),
            pc_cidIndexKey = spread (pc_cidIndexKey old) (pu_cidIndexKey u)\<rparr> in
      s\<lparr>config := cfg,
        torEnabled := (case pu_useTorProxy u of Some b \<Rightarrow> b | None \<Rightarrow> torEnabled s),
        dummyBatcher := (case pu_dummyQueryCount u of
            Some (Some n) \<Rightarrow> newDummyQueryBatcher (Some n)
              (Some (case pc_batchDelayMs cfg of Some d \<Rightarrow> if d = 0 then DEFAULT_BATCH_DELAY_MS else d | None \<Rightarrow> DEFAULT_BATCH_DELAY_MS))
          | _ \<Rightarrow> dummyBatcher s),
        homomorphicHash := (case pu_cidIndexKey u of Some (Some key) \<Rightarrow> newHomomorphicHash random (Some key) | _ \<Rightarrow> homomorphicHash s)\<rparr>)"

record pir_result =
  success :: bool
  data :: "byte list option"
  error :: "string option"
  gatewayUsed :: "string option"
  proxied :: bool
  dummyQueriesIssued :: nat

definition failedFetch :: "string \<Rightarrow> nat \<Rightarrow> pir_result" where
  "failedFetch msg n = \<lparr>success = False, data = None, error = Some msg, gatewayUsed = None, proxied = False, dummyQueriesIssued = n\<rparr>"

definition fetchedDocument :: "string \<Rightarrow> byte list \<Rightarrow> nat \<Rightarrow> pir_result" where
  "fetchedDocument url bs n = \<lparr>success = True, data = Some bs, error = None, gatewayUsed = Some url, proxied = False, dummyQueriesIssued = n\<rparr>"

definition torRefusal :: string where
  "torRefusal = ''Tor/mixnet proxy routing was requested but is not available '' @
     ''(browsers cannot originate SOCKS5 connections directly; a '' @
     ''server-side proxy is required). Refusing to fall back to an '' @ ''unprotected direct fetch.''"

fun joinTexts :: "string \<Rightarrow> string list \<Rightarrow> string" where
  "joinTexts sep [] = []"
| "joinTexts sep [x] = x"
| "joinTexts sep (x # y # ys) = x @ sep @ joinTexts sep (y # ys)"

fun gatewayMessage :: "gateway_error \<Rightarrow> string" where
  "gatewayMessage CidRequired = ''IPFS CID is required''"
| "gatewayMessage (SignalReason m) = m"
| "gatewayMessage OperationAborted = ''The operation was aborted.''"
| "gatewayMessage (IpfsGatewayFetchError cid fs) = ''Failed to fetch IPFS content ('' @ cid @ ''): all gateways failed. '' @ joinTexts ''; '' fs"

type_synonym body_reader = "bool \<Rightarrow> response \<Rightarrow> string + byte list"

text \<open>
  The download without decoys, over what \<^verbatim>\<open>fetchFile\<close> of the gateway client did: it threw, or it is the call given. A call that has
  not settled has no result yet.
\<close>

definition standardFetch :: "(string \<Rightarrow> string option) \<Rightarrow> gateway_config \<Rightarrow> body_reader \<Rightarrow> string \<Rightarrow> gateway_error + gateway_call \<Rightarrow> pir_result option" where
  "standardFetch pathname cfg arrayBuffer cid call =
     (case call of
        Inl e \<Rightarrow> Some (failedFetch (gatewayMessage e) 0)
      | Inr c \<Rightarrow> (case outcome c of
          None \<Rightarrow> None
        | Some (Inl e) \<Rightarrow> Some (failedFetch (gatewayMessage e) 0)
        | Some (Inr (g, r)) \<Rightarrow> Some (case arrayBuffer (combinedAborted c g) r of
            Inl msg \<Rightarrow> failedFetch msg 0
          | Inr bs \<Rightarrow> fetchedDocument (getURL pathname cfg cid) bs 0)))"

text \<open>
  \<^verbatim>\<open>fetchDocument\<close>, with the addresses it requests by itself. The batch is the one created; \<open>aborted\<close> says whether the caller has
  aborted when the body is read.
\<close>

definition batchFetch :: "(string \<Rightarrow> string option) \<Rightarrow> gateway_config \<Rightarrow> body_reader \<Rightarrow> bool \<Rightarrow> (nat \<Rightarrow> string \<Rightarrow> fetch_outcome) \<Rightarrow> string \<Rightarrow>
    dummy_query list \<Rightarrow> pir_result" where
  "batchFetch pathname cfg arrayBuffer aborted net cid batch =
     (case executeBatch batch (\<lambda>i queryCid. net i (getURL pathname cfg queryCid)) of
        Inl e \<Rightarrow> failedFetch (case e of Error m \<Rightarrow> m | _ \<Rightarrow> []) 0
      | Inr (r, n) \<Rightarrow>
          if \<not> rs_ok r then failedFetch (''HTTP '' @ js_num (rs_status r)) n
          else case arrayBuffer aborted r of
            Inl msg \<Rightarrow> failedFetch msg 0
          | Inr bs \<Rightarrow> fetchedDocument (getURL pathname cfg cid) bs n)"

definition fetchDocument :: "(string \<Rightarrow> string option) \<Rightarrow> gateway_config \<Rightarrow> body_reader \<Rightarrow> bool \<Rightarrow> (nat \<Rightarrow> string \<Rightarrow> fetch_outcome) \<Rightarrow>
    gateway_error + gateway_call \<Rightarrow> bool \<Rightarrow> (batcher \<Rightarrow> dummy_query list) \<Rightarrow> string \<Rightarrow> pir_service \<Rightarrow> pir_result option \<times> string list" where
  "fetchDocument pathname cfg arrayBuffer aborted net call probe mkBatch cid s =
     (if \<not> pc_enabled (config s) then (standardFetch pathname cfg arrayBuffer cid call, [])
      else if pc_useTorProxy (config s) \<and> \<not> isAvailable (torEnabled s) probe then (Some (failedFetch torRefusal 0), [])
      else let batch = mkBatch (dummyBatcher s) in
        (Some (batchFetch pathname cfg arrayBuffer aborted net cid batch), map (\<lambda>q. getURL pathname cfg (q_cid q)) batch))"

text \<open>\<^verbatim>\<open>fetchFileWithPIR\<close>: the bytes of the response it builds.\<close>

definition fetchFileWithPIR :: "pir_result \<Rightarrow> byte list result" where
  "fetchFileWithPIR res =
     (if \<not> success res then Inl (Error (case error res of Some m \<Rightarrow> (if m = [] then ''PIR fetch failed'' else m) | None \<Rightarrow> ''PIR fetch failed''))
      else Inr (case data res of Some bs \<Rightarrow> bs | None \<Rightarrow> []))"


section \<open>Shuffling\<close>

lemma length_swapAt [simp]: "length (swapAt xs i j) = length xs"
  by (simp add: swapAt_def)

lemma nth_swapAt:
  "i < length xs \<Longrightarrow> j < length xs \<Longrightarrow> p < length xs \<Longrightarrow> swapAt xs i j ! p = (if p = i then xs ! j else if p = j then xs ! i else xs ! p)"
  by (auto simp: swapAt_def nth_list_update)

lemma mset_swapAt: "i < length xs \<Longrightarrow> j < length xs \<Longrightarrow> mset (swapAt xs i j) = mset xs"
  by (simp add: swapAt_def mset_swap)

lemma length_shuffleFrom [simp]: "length (shuffleFrom i r xs) = length xs"
  by (induction i arbitrary: xs) simp_all

lemma mset_shuffleFrom: "i < length xs \<Longrightarrow> (\<forall>k \<in> {1..i}. r k \<le> k) \<Longrightarrow> mset (shuffleFrom i r xs) = mset xs"
proof (induction i arbitrary: xs)
  case (Suc i)
  then have "r (Suc i) < length xs" by (auto intro: le_less_trans)
  then have "mset (swapAt xs (Suc i) (r (Suc i))) = mset xs" using Suc.prems by (intro mset_swapAt) auto
  with Suc show ?case by simp
qed simp

theorem shuffleArray_permutes: "(\<forall>k \<in> {1..<length xs}. r k \<le> k) \<Longrightarrow> mset (shuffleArray r xs) = mset xs"
proof (cases xs)
  case (Cons x ys)
  assume "\<forall>k \<in> {1..<length xs}. r k \<le> k"
  then have "mset (shuffleFrom (length xs - 1) r xs) = mset xs" using Cons by (intro mset_shuffleFrom) auto
  then show ?thesis by (simp add: shuffleArray_def)
qed (simp add: shuffleArray_def)

lemma shuffleFrom_above: "i < p \<Longrightarrow> p < length xs \<Longrightarrow> (\<forall>k \<in> {1..i}. r k \<le> k) \<Longrightarrow> shuffleFrom i r xs ! p = xs ! p"
proof (induction i arbitrary: xs)
  case (Suc i)
  then have "r (Suc i) < p" by (auto intro: le_less_trans)
  then have "swapAt xs (Suc i) (r (Suc i)) ! p = xs ! p" using Suc.prems by (subst nth_swapAt) auto
  with Suc show ?case by simp
qed simp

lemma shuffleFrom_cong: "(\<forall>k \<in> {1..i}. r k = r' k) \<Longrightarrow> shuffleFrom i r xs = shuffleFrom i r' xs"
  by (induction i arbitrary: xs) simp_all

text \<open>The draws of the loop: at position \<open>k\<close> any position up to \<open>k\<close>.\<close>

definition draws :: "nat \<Rightarrow> (nat \<Rightarrow> nat) set" where
  "draws i = (\<Pi>\<^sub>E k \<in> {1..i}. {..k})"

lemma draws_Suc: "draws (Suc i) = (\<lambda>(j, r). r(Suc i := j)) ` ({..Suc i} \<times> draws i)"
proof -
  have "{1..Suc i} = insert (Suc i) {1..i}" by auto
  then show ?thesis by (simp add: draws_def PiE_insert_eq)
qed

lemma draws_inj: "inj_on (\<lambda>(j, r). r(Suc i := j)) ({..Suc i} \<times> draws i)"
proof (rule inj_onI, clarsimp)
  fix j r j' r' assume r: "r \<in> draws i" "r' \<in> draws i" and eq: "r(Suc i := j) = r'(Suc i := j')"
  have j: "j = j'" using fun_cong [OF eq, of "Suc i"] by simp
  have "r k = r' k" for k
  proof (cases "k = Suc i")
    case True
    then show ?thesis using r by (auto simp: draws_def PiE_def extensional_def)
  next
    case False
    then show ?thesis using fun_cong [OF eq, of k] by simp
  qed
  then show "j = j' \<and> r = r'" using j by auto
qed

lemma finite_draws [simp]: "finite (draws i)"
  by (simp add: draws_def finite_PiE)

lemma drawsD: "r \<in> draws i \<Longrightarrow> k \<in> {1..i} \<Longrightarrow> r k \<le> k"
  by (auto simp: draws_def PiE_def Pi_def)

lemma card_draws_Suc: "card {r \<in> draws (Suc i). P r} = (\<Sum>j \<in> {..Suc i}. card {r \<in> draws i. P (r(Suc i := j))})"
proof -
  let ?f = "\<lambda>(j, r). r(Suc i := j)" and ?S = "SIGMA j : {..Suc i}. {r \<in> draws i. P (r(Suc i := j))}"
  have "{r \<in> draws (Suc i). P r} = ?f ` ?S" by (auto simp: draws_Suc)
  moreover have "inj_on ?f ?S" by (rule inj_on_subset [OF draws_inj]) auto
  ultimately show ?thesis by (simp add: card_image card_SigmaI)
qed

theorem card_draws: "card (draws i) = fact (Suc i)"
proof (induction i)
  case (Suc i)
  have "card (draws (Suc i)) = (\<Sum>j \<in> {..Suc i}. card (draws i))" using card_draws_Suc [of i "\<lambda>_. True"] by simp
  then show ?case using Suc by (simp add: algebra_simps)
qed (simp add: draws_def)

lemma card_indices:
  assumes "mset xs = mset ys"
  shows "card {k. k < length xs \<and> P (xs ! k)} = card {k. k < length ys \<and> P (ys ! k)}"
proof -
  have "length (filter P xs) = length (filter P ys)" using assms by (metis mset_filter size_mset)
  then show ?thesis by (simp add: length_filter_conv_card)
qed

lemma shuffle_position:
  assumes "i < length xs" "q \<le> i" "p \<le> i" "\<forall>k < length xs. P (xs ! k) \<longleftrightarrow> k = q"
  shows "card {r \<in> draws i. P (shuffleFrom i r xs ! p)} = fact i"
  using assms
proof (induction i arbitrary: xs q p)
  case 0
  then show ?case by (simp add: draws_def)
next
  case (Suc i)
  define n where "n j = card {r \<in> draws i. P (shuffleFrom i r (swapAt xs (Suc i) j) ! p)}" for j
  have split: "card {r \<in> draws (Suc i). P (shuffleFrom (Suc i) r xs ! p)} = (\<Sum>j \<in> {..Suc i}. n j)"
  proof -
    have "shuffleFrom i (r(Suc i := j)) ys = shuffleFrom i r ys" for r j and ys :: "'a list"
      by (rule shuffleFrom_cong) simp
    then show ?thesis by (simp add: card_draws_Suc n_def)
  qed
  have sw: "\<forall>k < length xs. P (swapAt xs (Suc i) j ! k) \<longleftrightarrow> k = (if q = Suc i then j else if q = j then Suc i else q)" if "j \<le> Suc i" for j
    using Suc.prems that by (auto simp: nth_swapAt)
  show ?case
  proof (cases "p = Suc i")
    case True
    have "n j = (if j = q then card (draws i) else 0)" if "j \<le> Suc i" for j
    proof -
      have "shuffleFrom i r (swapAt xs (Suc i) j) ! p = swapAt xs (Suc i) j ! p" if "r \<in> draws i" for r
        using that Suc.prems True drawsD [OF that] by (intro shuffleFrom_above) auto
      moreover have "P (swapAt xs (Suc i) j ! p) \<longleftrightarrow> j = q" using sw [OF that] True Suc.prems by auto
      ultimately have "{r \<in> draws i. P (shuffleFrom i r (swapAt xs (Suc i) j) ! p)} = (if j = q then draws i else {})" by auto
      then show ?thesis by (simp add: n_def)
    qed
    then have "(\<Sum>j \<in> {..Suc i}. n j) = (\<Sum>j \<in> {..Suc i}. if j = q then card (draws i) else 0)" by (intro sum.cong) auto
    also have "\<dots> = card (draws i)" using Suc.prems(2) by (subst sum.delta) auto
    finally show ?thesis using split by (simp only: card_draws)
  next
    case False
    have "n j = (if j = q then 0 else fact i)" if j: "j \<le> Suc i" for j
    proof (cases "j = q")
      case True
      have "\<not> P (shuffleFrom i r (swapAt xs (Suc i) j) ! p)" if r: "r \<in> draws i" for r
      proof -
        let ?ys = "swapAt xs (Suc i) j"
        have "P (?ys ! Suc i)" using sw [OF j] True Suc.prems by auto
        then have top: "P (shuffleFrom i r ?ys ! Suc i)" using r drawsD [OF r] Suc.prems by (subst shuffleFrom_above) auto
        have "mset (shuffleFrom i r ?ys) = mset ?ys" using drawsD [OF r] Suc.prems by (intro mset_shuffleFrom) auto
        from card_indices [OF this, of P] have "card {k. k < length xs \<and> P (shuffleFrom i r ?ys ! k)} = card {k. k < length xs \<and> P (?ys ! k)}"
          by simp
        also have "{k. k < length xs \<and> P (?ys ! k)} = {Suc i}" using sw [OF j] True Suc.prems by auto
        finally have "card {k. k < length xs \<and> P (shuffleFrom i r ?ys ! k)} = 1" by simp
        then obtain k0 where "{k. k < length xs \<and> P (shuffleFrom i r ?ys ! k)} = {k0}" by (auto simp: card_1_singleton_iff)
        then have "k < length xs \<Longrightarrow> P (shuffleFrom i r ?ys ! k) \<Longrightarrow> k = k0" for k by blast
        then show ?thesis using top Suc.prems False by (metis le_less_trans)
      qed
      then show ?thesis using True by (simp add: n_def)
    next
      case neq: False
      let ?q = "if q = Suc i then j else q"
      have "?q \<le> i" using neq j Suc.prems by auto
      moreover have "\<forall>k < length (swapAt xs (Suc i) j). P (swapAt xs (Suc i) j ! k) \<longleftrightarrow> k = ?q" using sw [OF j] neq by auto
      ultimately show ?thesis using Suc.IH [of "swapAt xs (Suc i) j" ?q p] Suc.prems False neq by (simp add: n_def)
    qed
    then have "(\<Sum>j \<in> {..Suc i}. n j) = (\<Sum>j \<in> {..Suc i}. if j = q then 0 else fact i)" by (intro sum.cong) auto
    also have "\<dots> = (\<Sum>j \<in> {..Suc i} - {q}. fact i)" by (intro sum.mono_neutral_cong_right) auto
    also have "\<dots> = fact (Suc i)" using Suc.prems by simp
    finally show ?thesis using split by simp
  qed
qed


section \<open>Decoys\<close>

lemma distinct_firstOccurrences [simp]: "distinct (firstOccurrences xs)" "set (firstOccurrences xs) = set xs"
  by (simp_all add: firstOccurrences_def)

theorem decoys_from_pool:
  assumes "\<forall>k. r k \<le> k"
  shows "distinct (sampleRealDecoys r cid pool n) \<and> set (sampleRealDecoys r cid pool n) \<subseteq> set pool - {cid} \<and>
    length (sampleRealDecoys r cid pool n) = min n (card (set pool - {cid}))"
proof -
  define cands where "cands = filter (\<lambda>c. c \<noteq> cid) (firstOccurrences pool)"
  have m: "mset (shuffleArray r cands) = mset cands" using assms by (intro shuffleArray_permutes) auto
  have d: "distinct cands" "set cands = set pool - {cid}" by (auto simp: cands_def)
  have "distinct (shuffleArray r cands)" using d(1) mset_eq_imp_distinct_iff [OF m] by simp
  moreover have "set (shuffleArray r cands) = set pool - {cid}" using d(2) mset_eq_setD [OF m] by simp
  moreover have "length (shuffleArray r cands) = card (set pool - {cid})"
    using mset_eq_length [OF m] distinct_card [OF d(1)] d(2) by simp
  moreover have "sampleRealDecoys r cid pool n = take n (shuffleArray r cands)" by (simp add: sampleRealDecoys_def cands_def js_slice_def)
  ultimately show ?thesis using set_take_subset [of n "shuffleArray r cands"] by (simp add: min.commute)
qed

lemma length_sample: "length (sampleRealDecoys r cid pool n) \<le> n"
  by (simp add: sampleRealDecoys_def js_slice_def)

lemma length_orderedBatch [simp]: "length (orderedBatch r random clock b cid pool) = Suc (dummyQueryCount b)"
  using length_sample [of r cid pool "dummyQueryCount b"] by (simp add: orderedBatch_def Let_def)

lemma orderedBatch_real: "k < Suc (dummyQueryCount b) \<Longrightarrow> q_isReal (orderedBatch r random clock b cid pool ! k) \<longleftrightarrow> k = 0"
  using length_sample [of r cid pool "dummyQueryCount b"] by (cases k) (simp_all add: orderedBatch_def Let_def del: upt_Suc)

text \<open>
  C20. The position of the real query in a batch gives nothing away: over the draws of the shuffle, the real query is at each position equally often,
  whatever the decoys are.
\<close>

theorem decoy_position_uniform:
  assumes "p \<le> dummyQueryCount b"
  shows "(dummyQueryCount b + 1) *
      card {r' \<in> draws (dummyQueryCount b). q_isReal (createBatch r random clock r' b cid pool ! p)} = card (draws (dummyQueryCount b))"
proof -
  let ?xs = "orderedBatch r random clock b cid pool"
  have "card {r' \<in> draws (dummyQueryCount b). q_isReal (shuffleFrom (dummyQueryCount b) r' ?xs ! p)} = fact (dummyQueryCount b)"
    using assms by (intro shuffle_position [of _ _ 0]) (auto simp: orderedBatch_real)
  then show ?thesis by (simp add: createBatch_def shuffleArray_def card_draws)
qed

theorem decoy_position_uniform_witness:
  "(5 + 1) * card {r' \<in> draws 5. q_isReal (createBatch (\<lambda>_. 0) (\<lambda>_. []) (\<lambda>_. 0) r' (newDummyQueryBatcher None None) ''Qm1'' [''Qm2''] ! 3)} = 720"
proof -
  have b: "dummyQueryCount (newDummyQueryBatcher None None) = 5" by (simp add: newDummyQueryBatcher_def DEFAULT_DUMMY_QUERY_COUNT_def)
  have "(fact (Suc 5) :: nat) = 720" by (simp add: fact_numeral)
  then show ?thesis
    using decoy_position_uniform [of 3 "newDummyQueryBatcher None None" "\<lambda>_. 0" "\<lambda>_. []" "\<lambda>_. 0" "''Qm1''" "[''Qm2'']"]
    by (simp only: b card_draws)
qed

section \<open>Invented identifiers\<close>

fun val58 :: "nat list \<Rightarrow> nat" where
  "val58 [] = 0"
| "val58 (d # ds) = d + 58 * val58 ds"

lemma val58_append: "val58 (xs @ ys) = val58 xs + 58 ^ length xs * val58 ys"
  by (induction xs) (simp_all add: algebra_simps)

lemma carryThrough_value: "carryThrough c ds = (ds', c') \<Longrightarrow> length ds' = length ds \<and> val58 ds' + 58 ^ length ds * c' = c + 256 * val58 ds"
proof (induction ds arbitrary: c ds' c')
  case (Cons d ds)
  obtain es e where es: "carryThrough ((c + d * 256) div 58) ds = (es, e)" by force
  with Cons.prems have ds': "ds' = ((c + d * 256) mod 58) # es" "c' = e" by (simp_all add: Let_def)
  from Cons.IH [OF es] have "length es = length ds" and v: "val58 es + 58 ^ length ds * e = (c + d * 256) div 58 + 256 * val58 ds" by simp_all
  have "val58 ds' + 58 ^ length (d # ds) * c' = (c + d * 256) mod 58 + 58 * (val58 es + 58 ^ length ds * e)"
    by (simp add: ds' algebra_simps)
  also have "\<dots> = (c + d * 256) mod 58 + 58 * ((c + d * 256) div 58 + 256 * val58 ds)" by (simp only: v)
  also have "\<dots> = c + 256 * val58 (d # ds)" 
  proof -
    have "m + 58 * k = c + d * 256 \<Longrightarrow> m + 58 * (k + 256 * v) = c + 256 * (d + 58 * v)" for m k v :: nat by simp
    from this [OF mod_mult_div_eq] show ?thesis by (simp only: val58.simps)
  qed
  finally show ?case using ds' \<open>length es = length ds\<close> by simp
qed simp

lemma pushCarry_value: "val58 (pushCarry c) = c \<and> (c > 0 \<longrightarrow> pushCarry c \<noteq> [] \<and> 58 ^ (length (pushCarry c) - 1) \<le> c)"
proof (induction c rule: less_induct)
  case (less c)
  show ?case
  proof (cases "c > 0")
    case True
    have u: "pushCarry c = c mod 58 # pushCarry (c div 58)" using True by (subst pushCarry.simps) simp
    have ih: "val58 (pushCarry (c div 58)) = c div 58"
      "c div 58 > 0 \<Longrightarrow> pushCarry (c div 58) \<noteq> [] \<and> 58 ^ (length (pushCarry (c div 58)) - 1) \<le> c div 58"
      using less [of "c div 58"] True by auto
    have "58 ^ length (pushCarry (c div 58)) \<le> c"
    proof (cases "c div 58 > 0")
      case True
      then have "58 * 58 ^ (length (pushCarry (c div 58)) - 1) \<le> 58 * (c div 58)" using ih(2) by simp
      moreover have "58 * 58 ^ (length (pushCarry (c div 58)) - 1) = (58 :: nat) ^ length (pushCarry (c div 58))"
        using ih(2) True by (metis One_nat_def Suc_pred length_greater_0_conv power_Suc)
      ultimately show ?thesis by (metis le_trans mult.commute div_times_less_eq_dividend)
    next
      case False
      then show ?thesis using True by (simp add: pushCarry.simps)
    qed
    then show ?thesis by (simp add: u ih(1))
  qed (simp add: pushCarry.simps)
qed

lemma addByte_value:
  assumes "length ds \<le> 1 \<or> 58 ^ (length ds - 1) \<le> val58 ds" "ds \<noteq> []"
  shows "val58 (addByte ds b) = 256 * val58 ds + unat b" "addByte ds b \<noteq> []"
    "length (addByte ds b) \<le> 1 \<or> 58 ^ (length (addByte ds b) - 1) \<le> val58 (addByte ds b)"
proof -
  obtain es c where es: "carryThrough (unat b) ds = (es, c)" by force
  note v = carryThrough_value [OF es]
  have add: "addByte ds b = es @ pushCarry c" by (simp add: addByte_def es)
  show val: "val58 (addByte ds b) = 256 * val58 ds + unat b"
    using v pushCarry_value [of c] by (simp add: add val58_append)
  show "addByte ds b \<noteq> []" using v assms(2) by (auto simp: add)
  show "length (addByte ds b) \<le> 1 \<or> 58 ^ (length (addByte ds b) - 1) \<le> val58 (addByte ds b)"
  proof (cases "c > 0")
    case True
    then have p: "pushCarry c \<noteq> []" "58 ^ (length (pushCarry c) - 1) \<le> c" using pushCarry_value [of c] by auto
    then have "length (addByte ds b) - 1 = length ds + (length (pushCarry c) - 1)" using v by (simp add: add Suc_leI)
    then have "58 ^ (length (addByte ds b) - 1) = 58 ^ length ds * (58 :: nat) ^ (length (pushCarry c) - 1)" by (simp add: power_add)
    also have "\<dots> \<le> 58 ^ length ds * c" using p(2) by simp
    also have "\<dots> \<le> val58 (addByte ds b)" using v val by linarith
    finally show ?thesis by simp
  next
    case False
    then have "length (addByte ds b) = length ds" using v by (simp add: add pushCarry.simps)
    then show ?thesis using assms(1) val by auto
  qed
qed

theorem base58_value:
  "val58 (base58Digits bs) = foldl (\<lambda>a b. a * 256 + unat b) 0 bs \<and>
   (length (base58Digits bs) \<le> 1 \<or> 58 ^ (length (base58Digits bs) - 1) \<le> val58 (base58Digits bs)) \<and> base58Digits bs \<noteq> []"
proof (induction bs rule: rev_induct)
  case (snoc b bs)
  define ds where "ds = base58Digits bs"
  have inv: "length ds \<le> 1 \<or> 58 ^ (length ds - 1) \<le> val58 ds" "ds \<noteq> []" and v: "val58 ds = foldl (\<lambda>a b. a * 256 + unat b) 0 bs"
    using snoc unfolding ds_def by blast+
  have "base58Digits (bs @ [b]) = addByte ds b" by (simp add: base58Digits_def ds_def)
  moreover have "val58 (addByte ds b) = foldl (\<lambda>a b. a * 256 + unat b) 0 (bs @ [b])" using addByte_value(1) [OF inv] v by simp
  ultimately show ?case using addByte_value(2,3) [OF inv, of b] by (simp only:) blast
qed (simp add: base58Digits_def)

lemma bytes_value_bound: "foldl (\<lambda>a b. a * 256 + unat b) 0 (bs :: byte list) < 256 ^ length bs"
proof (induction bs rule: rev_induct)
  case (snoc b bs)
  have "unat b < 256" using unsigned_less [of b] by simp
  then show ?case using snoc by simp
qed simp

theorem dummy_cid_short:
  assumes "length array = 32"
  shows "length (generateDummyCid array) \<le> 44"
proof -
  define ds where "ds = base58Digits array"
  note b = base58_value [of array, folded ds_def]
  have "val58 ds < 256 ^ 32" using b bytes_value_bound [of array] assms by simp
  moreover have "(256 :: nat) ^ 32 < 58 ^ 44" by simp
  moreover have "length ds \<le> 1 \<or> 58 ^ (length ds - 1) \<le> val58 ds" using b by blast
  ultimately have "length ds \<le> 1 \<or> (58 :: nat) ^ (length ds - 1) < 58 ^ 44" by linarith
  then have "length ds \<le> 1 \<or> length ds - 1 < 44" by (simp only: power_strict_increasing_iff)
  then have "length ds \<le> 44" by linarith
  then show ?thesis by (simp add: generateDummyCid_def base58Encode_def ds_def)
qed


lemma createBatch_mset:
  "r' \<in> draws (dummyQueryCount b) \<Longrightarrow>
   mset (createBatch r random clock r' b cid pool) = mset (orderedBatch r random clock b cid pool)"
  unfolding createBatch_def by (rule shuffleArray_permutes) (auto intro: drawsD)

lemma set_orderedBatch_empty:
  "q \<in> set (orderedBatch r random clock b cid []) \<Longrightarrow> q_isReal q \<and> q_cid q = cid \<or> \<not> q_isReal q \<and> (\<exists>i. q_cid q = generateDummyCid (random i))"
  by (auto simp: orderedBatch_def Let_def sampleRealDecoys_def firstOccurrences_def shuffleArray_def js_slice_def)

text \<open>
  C21. Invented decoys do not hide anything: without a pool of existing documents, an observer who keeps the queries for identifiers of 46
  characters, the length of an identifier of the version they imitate, is left with exactly the real query.
\<close>

theorem synthetic_decoys_recognisable:
  assumes "length cid = 46" "\<forall>i. length (random i) = 32" "r' \<in> draws (dummyQueryCount b)" "batch = createBatch r random clock r' b cid []"
  shows "filter (\<lambda>q. length (q_cid q) = 46) batch = filter q_isReal batch \<and> length (filter q_isReal batch) = 1"
proof
  have "mset batch = mset (orderedBatch r random clock b cid [])" using createBatch_mset assms(3,4) by simp
  note m = mset_eq_setD [OF this] card_indices [OF this, of q_isReal]
  have "length (q_cid q) = 46 \<longleftrightarrow> q_isReal q" if "q \<in> set batch" for q
  proof -
    have short: "length (generateDummyCid (random i)) \<noteq> 46" for i using assms(2) dummy_cid_short [of "random i"] by simp
    have "q_isReal q \<and> q_cid q = cid \<or> \<not> q_isReal q \<and> (\<exists>i. q_cid q = generateDummyCid (random i))"
      using that m(1) by (intro set_orderedBatch_empty) simp
    then show ?thesis using assms(1) short by metis
  qed
  then show "filter (\<lambda>q. length (q_cid q) = 46) batch = filter q_isReal batch" by (intro filter_cong) auto
  have "{k. k < length (orderedBatch r random clock b cid []) \<and> q_isReal (orderedBatch r random clock b cid [] ! k)} = {0}"
    using orderedBatch_real by auto
  then show "length (filter q_isReal batch) = 1" using m(2) by (simp add: length_filter_conv_card)
qed

theorem synthetic_decoys_recognisable_witness:
  "let batch = createBatch (\<lambda>_. 0) (\<lambda>i. replicate 32 (of_nat i)) (\<lambda>_. 0) (restrict (\<lambda>_. 0) {1..5}) (newDummyQueryBatcher None None)
       ''QmYwAPJzv5CZsnA625s3Xf2nemtYgPpHdWEz79ojWKPbdG'' [] in
   filter (\<lambda>q. length (q_cid q) = 46) batch = filter q_isReal batch \<and> length (filter q_isReal batch) = 1"
proof -
  have b: "dummyQueryCount (newDummyQueryBatcher None None) = 5" by (simp add: newDummyQueryBatcher_def DEFAULT_DUMMY_QUERY_COUNT_def)
  have "restrict (\<lambda>_. 0) {1..5} \<in> draws (dummyQueryCount (newDummyQueryBatcher None None))" unfolding b by (auto simp: draws_def)
  from synthetic_decoys_recognisable [OF _ _ this refl, of "''QmYwAPJzv5CZsnA625s3Xf2nemtYgPpHdWEz79ojWKPbdG''" "\<lambda>i. replicate 32 (of_nat i)"]
  show ?thesis by simp
qed

section \<open>Results\<close>

lemma collect_append: "collectResults (xs @ ys) = fold (\<lambda>(q, out) (realResult, dummyCount).
     case out of
       Responded r \<Rightarrow> if q_isReal q then (Some r, dummyCount) else (realResult, dummyCount + 1)
     | Rejected _ \<Rightarrow> (realResult, dummyCount + 1)) ys (collectResults xs)"
  by (simp add: collectResults_def)

lemma collect_decoys:
  "\<forall>(q, out) \<in> set ys. \<not> q_isReal q \<Longrightarrow> fold (\<lambda>(q, out) (realResult, dummyCount).
     case out of
       Responded r \<Rightarrow> if q_isReal q then (Some r, dummyCount) else (realResult, dummyCount + 1)
     | Rejected _ \<Rightarrow> (realResult, dummyCount + 1)) ys (x, n) = (x, n + length ys)"
  by (induction ys arbitrary: n) (auto split: fetch_outcome.split)

lemma executeBatch_real:
  assumes "p < length batch" "\<forall>k < length batch. q_isReal (batch ! k) \<longleftrightarrow> k = p"
  shows "executeBatch batch f = (case f p (q_cid (batch ! p)) of
     Responded r \<Rightarrow> Inr (r, length batch - 1) | Rejected _ \<Rightarrow> Inl (Error ''Real query failed to execute''))"
proof -
  define g where "g i = (batch ! i, f i (q_cid (batch ! i)))" for i
  have upt: "[0..<length batch] = [0..<p] @ p # [Suc p..<length batch]"
    using assms(1) by (metis le0 less_imp_le_nat upt_add_eq_append upt_conv_Cons add_diff_inverse_nat not_less)
  have "collectResults (map g [0..<length batch]) = (case snd (g p) of Responded r \<Rightarrow> (Some r, length batch - 1) | Rejected _ \<Rightarrow> (None, length batch))"
  proof -
    have "collectResults (map g [0..<p]) = (None, p)"
      using collect_decoys [of "map g [0..<p]" None 0] assms by (auto simp: collectResults_def g_def)
    moreover have "\<forall>(q, out) \<in> set (map g [Suc p..<length batch]). \<not> q_isReal q" using assms by (auto simp: g_def)
    moreover have "fst (g p) = batch ! p" "q_isReal (batch ! p)" using assms by (simp_all add: g_def)
    ultimately show ?thesis
      using assms(1) by (cases "g p") (auto simp: upt collect_append collect_decoys split: fetch_outcome.split)
  qed
  then show ?thesis by (simp add: executeBatch_def g_def [abs_def] split: fetch_outcome.split)
qed

text \<open>With decoys a download delivers what the network answers for the real document, and counts every decoy.\<close>

theorem batch_delivers:
  assumes "r' \<in> draws (dummyQueryCount b)" "batch = createBatch r random clock r' b cid pool"
    "\<forall>i. net i (getURL pathname cfg cid) = Responded res" "rs_ok res" "arrayBuffer aborted res = Inr bs"
  shows "batchFetch pathname cfg arrayBuffer aborted net cid batch = fetchedDocument (getURL pathname cfg cid) bs (dummyQueryCount b)"
proof -
  have m: "mset batch = mset (orderedBatch r random clock b cid pool)" using createBatch_mset assms(1,2) by simp
  have "{k. k < length (orderedBatch r random clock b cid pool) \<and> q_isReal (orderedBatch r random clock b cid pool ! k)} = {0}"
    using orderedBatch_real by auto
  then have "card {k. k < length batch \<and> q_isReal (batch ! k)} = 1" using card_indices [OF m, of q_isReal] by simp
  then obtain p where p: "{k. k < length batch \<and> q_isReal (batch ! k)} = {p}" by (auto simp: card_1_singleton_iff)
  then have pos: "p < length batch" "\<forall>k < length batch. q_isReal (batch ! k) \<longleftrightarrow> k = p" by blast+
  have "batch ! p \<in> set (orderedBatch r random clock b cid pool)" using pos(1) mset_eq_setD [OF m] by (metis nth_mem)
  moreover have "q_isReal (batch ! p)" using p by blast
  ultimately have "q_cid (batch ! p) = cid" by (auto simp: orderedBatch_def Let_def)
  moreover have "length batch = Suc (dummyQueryCount b)" using mset_eq_length [OF m] by simp
  ultimately show ?thesis using executeBatch_real [OF pos] assms(3-5) by (simp add: batchFetch_def)
qed

theorem tor_fails_closed:
  assumes "pc_enabled (config s)" "pc_useTorProxy (config s)"
  shows "fetchDocument pathname cfg arrayBuffer aborted net call False mkBatch cid s = (Some (failedFetch torRefusal 0), [])"
  using assms by (simp add: fetchDocument_def isAvailable_def)

text \<open>
  C17. Without decoys no document can be downloaded: the gateway client aborts the winning request before it hands over the response, so that
  reading the body fails when the platform errors the body of an aborted request. Every settled call for a document that is not empty ends in
  an exception.
\<close>

theorem direct_download_fails:
  assumes "\<forall>r. rs_body r \<noteq> [] \<longrightarrow> (\<exists>m. arrayBuffer True r = Inl m)"
    "cfg = createIpfsGatewayClient env opts" "c \<in> set (calls (gatewayRun pathname cfg es newClient))" "settled c"
    "\<forall>g r. outcome c = Some (Inr (g, r)) \<longrightarrow> rs_body r \<noteq> []" "\<not> pc_enabled (config s)"
  shows "\<exists>res e. fetchDocument pathname cfg arrayBuffer aborted net (Inr c) probe mkBatch cid s = (Some res, []) \<and> fetchFileWithPIR res = Inl (Error e)"
proof -
  have "call_inv cfg c" using reachable_calls assms(2,3) created_client_ok by simp
  then obtain x where x: "outcome c = Some x" using assms(4) by (auto simp: call_inv_def)
  have "\<exists>res. standardFetch pathname cfg arrayBuffer cid (Inr c) = Some res \<and> \<not> success res"
  proof (cases x)
    case (Inl e)
    then show ?thesis using x by (simp add: standardFetch_def failedFetch_def)
  next
    case (Inr gr)
    then obtain g r where gr: "outcome c = Some (Inr (g, r))" using x by (cases gr) auto
    then have "combinedAborted c g" using \<open>call_inv cfg c\<close> by (simp add: call_inv_def combinedAborted_def)
    moreover obtain m where "arrayBuffer True r = Inl m" using assms(1,5) gr by blast
    ultimately show ?thesis using gr by (simp add: standardFetch_def failedFetch_def)
  qed
  then show ?thesis using assms(6) by (auto simp: fetchDocument_def fetchFileWithPIR_def)
qed

theorem direct_download_fails_witness:
  "\<exists>res e. fetchDocument (\<lambda>_. None) sampleConfig (\<lambda>aborted r. if aborted then Inl ''AbortError'' else Inr (rs_body r)) False (\<lambda>_ _. Rejected [])
     (Inr (calls (gatewayRun (\<lambda>_. None) sampleConfig [Fetch 5 ''Qm1'' NoSignal,
       Finish 7 0 ''https://a/'' False (Responded \<lparr>rs_status = 200, rs_body = [1, 2]\<rparr>)] newClient) ! 0)) False (\<lambda>_. []) ''Qm1''
     (newPirService (replicate 16 0) False False None None None) = (Some res, []) \<and> fetchFileWithPIR res = Inl (Error e)"
proof -
  let ?es = "[Fetch 5 ''Qm1'' NoSignal, Finish 7 0 ''https://a/'' False (Responded \<lparr>rs_status = 200, rs_body = [1, 2]\<rparr>)]"
  have cid: "normalizeIpfsCid (\<lambda>_. None) ''Qm1'' = ''Qm1''" by code_simp
  have c: "calls (gatewayRun (\<lambda>_. None) sampleConfig ?es newClient) = [\<lparr>callCid = ''Qm1'', candidates = [''https://a/'', ''https://b/''],
    inFlight = [''https://b/''], timedOut = [], failures = [], pending = 2, settled = True, parentAborted = True,
    outcome = Some (Inr (''https://a/'', \<lparr>rs_status = 200, rs_body = [1, 2]\<rparr>))\<rparr>]"
    by (simp add: gatewayRun_def startCall_def cid selectGateways_def sampleConfig_eq newClient_def isCircuitOpen_def getRecord_def Let_def
      finishRequest_def onResult_def fetchOne_def rs_ok_def)
  show ?thesis
    by (rule direct_download_fails [OF _ sampleConfig_def, of _ _ "\<lambda>_. None" ?es]) (simp_all add: c newPirService_def Let_def)
qed

end
