(* ===== verification/Spec2Isabelle.thy ===== *)
theory Spec2Isabelle
  imports Shard_Distribution Proactive_Sharing Replay TTL_Cache Envelope_GC Session_Lock Key_Rotation
    Timelock Probable_Primes FHE_Engine Relayer Streaming_Crypto Pir
begin

text \<open>
  A verification library for SpooVault, a vault for encrypted documents whose keys are shared among guardians. The
  program is a TypeScript front end (\<^verbatim>\<open>src/src\<close>) over contracts on two chains, a pinning service for files, a relayer that
  notifies guardians (\<^verbatim>\<open>src/relayer\<close>), and a few scripts (\<^verbatim>\<open>src/scripts\<close>). The library models the parts that carry the program's own logic: the codes that
  split files and keys, the delay function behind timelocks and the aggregation of encrypted shares, the storage and queue
  that keep it working offline, the delivery of keys through pinned envelopes, the handling of decrypted keys in memory, and
  the relayer from the logs of the chain to the dispatch of notifications.

  \<^bold>\<open>How the parts fit together.\<close> A document is encrypted, a large one as a stream (\<open>Streaming_Crypto\<close>, hashed by \<open>Sha256\<close>); its file is cut into shards that survive the loss of some
  storage nodes (\<open>Shard_Distribution\<close> over \<open>Erasure_Coding\<close>), its key into shares for the guardians (\<open>Secrets\<close>) that can be
  renewed without changing the key (\<open>Proactive_Sharing\<close>). Shares can instead be encrypted and summed under encryption
  (\<open>FHE_Engine\<close>), and a document can be locked until a sequential computation has been done (\<open>Timelock\<close> over \<open>VDF\<close>). Pinned files are downloaded from racing gateways
  (\<open>Gateway_Race\<close>), hidden among decoys when the user wants (\<open>Pir\<close>). Writes go to a chain through a facade that queues them when the
  network is gone (\<open>Replay\<close> over \<open>Offline_Queue\<close>) and reads fall back to a cache (\<open>Offline_Cache\<close>), both over one
  storage layer (\<open>Offline_Db\<close>); repeated reads are answered by a cache in memory (\<open>TTL_Cache\<close>). Keys for beneficiaries travel
  as envelopes pinned by a service behind an authenticating proxy (\<open>Key_Inbox\<close>, \<open>Proxy_Guard\<close>) and are removed when the
  request they answer is dead (\<open>Envelope_GC\<close>). Decrypted keys stay in memory (\<open>Key_Cache\<close>) until the session locks
  (\<open>Session_Lock\<close>); a compromised key is replaced by \<open>Key_Rotation\<close>. A separate process watches the chains for requests of
  access (\<open>Relayer\<close>) and notifies the guardians (\<open>Relay_Notifier\<close>) through a durable queue (\<open>Relay_Queue\<close>).

  \<^bold>\<open>Conventions.\<close> An exception is a value: \<open>exn + 'a\<close> for pure code, \<open>thrown + 'a\<close> paired with the next state for calls
  to the outside (the type \<open>call\<close>). Bytes are \<open>8 word\<close>, other integers of the source are \<open>nat\<close> or \<open>int\<close>, with the
  truncating remainder of \<^verbatim>\<open>bigint\<close> written out. Texts are lists of characters with code points below 256. Loops are
  recursions or folds over index ranges and all definitions are total; a loop with a counter recurses on the counter, so
  that no fuel is needed. The searches for primes and the copying loops of the streams might run forever and are partial functions whose value is then \<open>None\<close>; that they return is proved. Object literals whose order matters are association lists. Code outside the repository is a parameter: the HTTP
  client, the two chains, the browser's database (whose requests succeed and whose operations are atomic), digests, the
  conversion of floating point numbers and dates, random bytes. What a property needs of a parameter is a premise, and the
  witness of the property instantiates it.

  \<^bold>\<open>Foundations.\<close>
  \<^item> \<open>Prelude\<close>: exceptions, fallible loops, reads of typed arrays, counting loops. \<open>JS_Strings\<close> and \<open>JS_Text\<close>: slicing, trimming,
    splitting, padding, printing and reading numbers, with printing and reading inverse to each other. \<open>Json_Codec\<close>: \<^verbatim>\<open>JSON.stringify\<close>,
    \<^verbatim>\<open>JSON.parse\<close> and UTF-8, inverse to each other on the values they represent exactly.
  \<^item> \<open>Number_Theory\<close>, \<open>Prime_Certificates\<close>, \<open>Secp_Prime\<close>: Fermat's theorem and Pocklington certificates that prove the moduli of the program
    prime. \<open>Field_Algebra\<close>: polynomials over a field, interpolation, Cauchy matrices. \<open>Modular\<close>: the locale \<open>modular\<close>, arithmetic modulo a
    prime by square and multiply, interpreted on the operations of both sharing modules.
  \<^item> \<open>Keyed_Store\<close>: the \<^verbatim>\<open>Map\<close> of the language and the object store of the browser, two instances of the locales \<open>row_store\<close> and
    \<open>scoped_store\<close>, in which the listings are proved independent of the order of enumeration. \<open>Effects\<close>: sequencing of calls.

  \<^bold>\<open>Erasure coding\<close> (\<^verbatim>\<open>services/erasureCoding.service.ts\<close>).
  \<^item> \<open>GF256\<close>: table construction, products, quotients and inverses of this module and of the sharing module. The tables
    compute the product of the field, \<open>gf256\<close> is an instance of the class of fields.
  \<^item> \<open>GF_Matrix\<close>: the class \<^verbatim>\<open>GFMatrix\<close> with elimination; inversion is exact, including when it throws.
  \<^item> \<open>Erasure_Coding\<close>: \<^verbatim>\<open>encode\<close>, \<^verbatim>\<open>decode\<close>, \<^verbatim>\<open>verifyShards\<close>. Any M shards restore the payload; the check finds corruption
    except among the first M parity shards.
  \<^item> \<open>Shard_Distribution\<close>: \<^verbatim>\<open>distributeShards\<close>, \<^verbatim>\<open>retrieveShards\<close>, \<^verbatim>\<open>reconstructPayload\<close> and the default nodes. The uploads settle in any
    order; what was distributed is reconstructed from any M shards that can be fetched.

  \<^bold>\<open>Secret sharing\<close> (\<^verbatim>\<open>services/secrets.service.ts\<close>, \<^verbatim>\<open>utils/proactiveSecretSharing.ts\<close>).
  \<^item> \<open>Secrets\<close>: splitting, verification and reconstruction with the textual share format, and the older format. Sharing and
    reconstruction are inverse for every choice of the random bytes and secrets of fewer than 256 digits; the check accepts exactly the
    values of the shares dealt, modulo the group order.
  \<^item> \<open>Proactive_Sharing\<close>: refresh of shares and commitments. The secret is kept along any number of rounds.

  \<^bold>\<open>Delay function and timelocks\<close> (\<^verbatim>\<open>utils/vdf.ts\<close>, \<^verbatim>\<open>utils/crypto.ts\<close>).
  \<^item> \<open>VDF\<close>: sequential squaring and both proofs of its result. Honest proofs are accepted for every digest; Wesolowski's verifier
    accepts the negative of the result as well.
  \<^item> \<open>Base64\<close>, \<open>Timelock\<close>: the text codec, and encryption under the result. Decryption inverts encryption with the default challenge size
    and rejects every other size.
  \<^item> \<open>Probable_Primes\<close>: the Miller-Rabin test accepts every prime, so the search for a prime ends.

  \<^bold>\<open>Aggregation of encrypted shares\<close> (\<^verbatim>\<open>utils/fheEngine.ts\<close>, \<^verbatim>\<open>services/fhe.service.ts\<close>).
  \<^item> \<open>FHE_Engine\<close>, over the primality of the modulus in \<open>Secp_Prime\<close>: the locale \<open>additive_scheme\<close> states what the aggregations need of sums
    and multiples of ciphertexts. A key split by the service is recovered from any threshold of encrypted shares; the public key
    reveals the private key.

  \<^bold>\<open>Encryption of streams\<close> (\<^verbatim>\<open>services/streamingCrypto.service.ts\<close>).
  \<^item> \<open>Streaming_Crypto\<close>: the framed format and both transforms over lists of views of buffers. Decryption inverts encryption exactly when no
    chunk ends inside the length of a frame, and throws otherwise; a stream that was cut off is never accepted; the buffers stay bounded.
  \<^item> \<open>Sha256\<close>: the incremental hash of a stream is the function of the standard on the whole message, however the message is cut.

  \<^bold>\<open>Downloads\<close> (\<^verbatim>\<open>services/ipfsGateway.ts\<close>, \<^verbatim>\<open>services/pir.service.ts\<close>, \<^verbatim>\<open>services/ipfs.service.ts\<close>).
  \<^item> \<open>Gateway_Race\<close>: the pool of gateways, the circuit breaker and the racing requests of concurrent calls. A call delivers the first good
    response or lists all failures; an open circuit is respected; the winning request is aborted.
  \<^item> \<open>Pir\<close>: batches of queries with decoys over the gateway client. The shuffle puts the real query at every position equally often, but
    invented decoys are told apart by their length; without decoys no document is delivered, since the winning request was aborted.

  \<^bold>\<open>Offline operation\<close> (\<^verbatim>\<open>services/offline\<close>, \<^verbatim>\<open>services/contract.service.ts\<close>, \<^verbatim>\<open>utils/ttlCache.ts\<close>).
  \<^item> \<open>Offline_Db\<close>: every operation of the storage on the browser database and on the fallback in memory, which agree on all
    sequences of operations that do not store invites; the state is \<open>offline_db\<close>.
  \<^item> \<open>Offline_Cache\<close>: classification of errors, reading through the cache, accessors. \<open>Offline_Queue\<close>: the queue of writes; the locale
    \<open>action_log\<close> is what replaying relies on.
  \<^item> \<open>Replay\<close>: facade writes, executors and the drain of the queue. Nothing is lost, the summary adds up, everything is delivered when
    the calls for the queued actions succeed, drains do not overlap; and a replay that loses the network duplicates the write.
  \<^item> \<open>TTL_Cache\<close>: answers are fresh, requests are shared; an invalidation does not reach a request in flight.

  \<^bold>\<open>Delivery of keys\<close> (\<^verbatim>\<open>scripts/lib/ipfsProxyGuard.mjs\<close>, \<^verbatim>\<open>services/keyInbox.service.ts\<close>, \<^verbatim>\<open>services/keyEnvelopeGC.service.ts\<close>,
  \<^verbatim>\<open>services/ipfs.service.ts\<close>).
  \<^item> \<open>Proxy_Guard\<close>: signed requests are accepted, a captured signature is good for its own request only, the comparison in
    constant time decides equality.
  \<^item> \<open>Key_Inbox\<close>: sending, searching page by page, reading and removing envelopes. A search returns exactly the matching rows, a sent
    envelope is received.
  \<^item> \<open>Envelope_GC\<close>: collection for an account touches listed envelopes of dead requests only; a dry run predicts the sweep.

  \<^bold>\<open>Keys in memory\<close> (\<^verbatim>\<open>services/sessionLock.service.ts\<close>, \<^verbatim>\<open>services/clientKeyring.service.ts\<close>, \<^verbatim>\<open>services/keyRotation.service.ts\<close>).
  \<^item> \<open>Key_Cache\<close>: the session cache over an explicit store of byte arrays, so that aliases are seen; the locale \<open>key_store\<close> is what
    the lock relies on.
  \<^item> \<open>Session_Lock\<close>: the manager with listeners, timers and clock refines an abstract lock, and locking zeroes every key array that
    the cache refers to, on platforms with Web Crypto; without it locking fails with an exception and keeps the keys.
  \<^item> \<open>Key_Rotation\<close>: the order of the effects of both protocols, on success and on every failure.

  \<^bold>\<open>The relayer\<close> (\<^verbatim>\<open>relayer/queue.ts\<close>, \<^verbatim>\<open>relayer/notifier.ts\<close>, \<^verbatim>\<open>relayer/crypto.ts\<close>, \<^verbatim>\<open>relayer/guardianResolver.ts\<close>,
  \<^verbatim>\<open>relayer/listeners.ts\<close>, \<^verbatim>\<open>relayer/main.ts\<close>).
  \<^item> \<open>Relay_Queue\<close>: the durable queue as a state machine with journal, timers and crashes; \<open>job_sink\<close> is what producers rely on. Identifiers
    stay unique, an accepted job is never lost, a running queue empties itself.
  \<^item> \<open>Relay_Notifier\<close>: jobs, their encryption and dispatch, the registry of contacts. Guardians decrypt and parse what was serialised and
    encrypted to them; the texts for Telegram and mail are in the clear.
  \<^item> \<open>Relayer\<close>: both listeners, deduplication and resolution over the queue. Every log of the blocks that one run of the process scans is
    detected once by it, and a resolved request keeps its jobs through crashes; a failed resolution loses the request.

  \<^bold>\<open>Idealisations.\<close> Floating point numbers of times and limits are integers or rationals. Promises that run concurrently are
  modelled with an explicit order of completion where the order matters (uploads of shards, requests of the cache,
  replays) and one after the other where it does not. Artificial delays, logging and the context objects of telemetry are left out.

  \<^bold>\<open>Not modelled.\<close> The contracts in Rust and Solidity and the circuits; the rest of the chain services, which pass calls on to
  contract libraries; the cryptographic engines that wrap platform or third-party cryptography (envelope encryption,
  threshold signatures, zero-knowledge proofs, passkeys, password-authenticated key exchange);
  the persistent keyring, upload of files, event indexing and notifications of the front end; workers; the user interface;
  the configuration of the relayer, and the scripts other than the request authentication. Each is listed in the manifest with the reason.
\<close>

end
